(* ===== verification/Go_Prelude.thy ===== *)
theory Go_Prelude
  imports Main "HOL-Library.Multiset" "HOL-Library.List_Lexorder" "HOL-Library.Char_ord"
    "HOL-Library.Word" "HOL-Library.AList" "HOL-Library.Product_Lexorder"
begin

text \<open>
  Shared vocabulary of the development: Go's fixed-width integers and times, loops that stop
  at the first error, duplicate checks with a \<open>seen\<close> set, Go maps as association lists, and
  \<open>sort.Slice\<close>/\<open>sort.SliceStable\<close> as an insertion sort over a strict order. The two locales state
  what a comparison function must promise; every comparison of the program that is sorted with
  is an interpretation of one of them.
\<close>

named_theorems go_simps \<open>unfolding rules that the component proofs share\<close>

section \<open>Integers and times\<close>

text \<open>
  Go's \<open>int\<close> and \<open>int64\<close> are read as \<open>int\<close>; where the program adds to a value that a client
  supplies, the wrap-around of the 64-bit addition is written out with \<open>wrap64\<close>.
  A \<open>time.Time\<close> is the number of nanoseconds since the zero time (year 1, UTC), so
  \<open>time.Time{}\<close> is \<open>0\<close>, \<open>IsZero\<close> compares with \<open>0\<close>, and \<open>Before\<close>, \<open>After\<close> and \<open>Equal\<close> are the
  comparisons of \<open>int\<close>. A \<open>uuid.UUID\<close> is 128 bits; \<open>uuid.Nil\<close> is \<open>0\<close>.
\<close>

type_synonym time = int
type_synonym uuid = "128 word"

abbreviation (input) zero_time :: time where "zero_time \<equiv> 0"
abbreviation (input) uuid_nil :: uuid where "uuid_nil \<equiv> 0"

definition wrap64 :: "int \<Rightarrow> int" where
  "wrap64 n = (n + 2 ^ 63) mod 2 ^ 64 - 2 ^ 63"

abbreviation (input) max_int64 :: int where "max_int64 \<equiv> 9223372036854775807"

lemma wrap64_id: "- (2 ^ 63) \<le> n \<Longrightarrow> n < 2 ^ 63 \<Longrightarrow> wrap64 n = n"
  by (simp add: wrap64_def)

lemma wrap64_range: "- (2 ^ 63) \<le> wrap64 n \<and> wrap64 n < 2 ^ 63"
proof -
  have "0 \<le> (n + 2 ^ 63) mod 2 ^ 64" "(n + 2 ^ 63) mod 2 ^ 64 < (2 ^ 64 :: int)" by simp_all
  then show ?thesis by (simp add: wrap64_def)
qed

lemma wrap64_overflow: "wrap64 (max_int64 + 1) = - (2 ^ 63)"
  by (simp add: wrap64_def)

text \<open>Adding one to a non-negative 64-bit value either is exact or becomes negative.\<close>

lemma wrap64_succ:
  assumes "0 \<le> n" and "n \<le> max_int64" and "0 \<le> wrap64 (n + 1)"
  shows "wrap64 (n + 1) = n + 1"
proof (cases "n = max_int64")
  case True
  with assms(3) show ?thesis by (simp add: wrap64_def)
next
  case False
  with assms(1,2) have "n + 1 < 2 ^ 63" by simp
  with assms(1) show ?thesis by (intro wrap64_id) simp_all
qed

section \<open>Loops that stop at the first error\<close>

text \<open>\<open>None\<close> is Go's \<open>nil\<close> error.\<close>

fun first_error :: "('a \<Rightarrow> 'e option) \<Rightarrow> 'a list \<Rightarrow> 'e option" where
  "first_error f [] = None"
| "first_error f (x # xs) = (case f x of Some e \<Rightarrow> Some e | None \<Rightarrow> first_error f xs)"

lemma first_error_None [simp]: "first_error f xs = None \<longleftrightarrow> (\<forall>x\<in>set xs. f x = None)"
  by (induction xs) (auto split: option.splits)

lemma first_error_Some: "first_error f xs = Some e \<Longrightarrow> \<exists>x\<in>set xs. f x = Some e"
  by (induction xs) (auto split: option.splits)

lemma first_error_cong:
  "(\<And>x. x \<in> set xs \<Longrightarrow> f x = g x) \<Longrightarrow> first_error f xs = first_error g xs"
  by (induction xs) (auto split: option.splits)

text \<open>Run the second check only when the first one returned \<open>nil\<close>.\<close>

definition or_error :: "'e option \<Rightarrow> 'e option \<Rightarrow> 'e option" where
  "or_error e f = (case e of Some x \<Rightarrow> Some x | None \<Rightarrow> f)"

lemma or_error_None [simp]: "or_error e f = None \<longleftrightarrow> e = None \<and> f = None"
  by (auto simp: or_error_def split: option.splits)

lemma or_error_simps [simp]: "or_error None f = f" "or_error (Some x) f = Some x"
  by (simp_all add: or_error_def)

text \<open>
  The loop \<open>for x in xs { if err := check(x) ...; if seen[key(x)] { return dup }; seen[key(x)] = true }\<close>:
  the \<open>seen\<close> map is the list of the keys met so far.
\<close>

fun check_distinct :: "('a \<Rightarrow> 'e option) \<Rightarrow> 'e \<Rightarrow> ('a \<Rightarrow> 'k) \<Rightarrow> 'k list \<Rightarrow> 'a list \<Rightarrow> 'e option" where
  "check_distinct f dup key seen [] = None"
| "check_distinct f dup key seen (x # xs) =
     (case f x of
        Some e \<Rightarrow> Some e
      | None \<Rightarrow> if key x \<in> set seen then Some dup
                else check_distinct f dup key (key x # seen) xs)"

lemma check_distinct_None:
  "check_distinct f dup key seen xs = None \<longleftrightarrow>
     (\<forall>x\<in>set xs. f x = None) \<and> distinct (map key xs) \<and> key ` set xs \<inter> set seen = {}"
  by (induction xs arbitrary: seen) (auto split: option.splits)

section \<open>Go maps as association lists\<close>

text \<open>
  A Go map that the program ranges over is an association list with distinct keys: its order is
  the iteration order of one run, and a theorem about all such lists holds for every iteration
  order. A lookup is \<open>map_of\<close>, an assignment is \<open>AList.update\<close>.
\<close>

lemma map_of_update [simp]: "map_of (AList.update k v m) = (map_of m)(k \<mapsto> v)"
  by (rule update_conv')

lemma update_new: "k \<notin> fst ` set m \<Longrightarrow> AList.update k v m = m @ [(k, v)]"
  by (induction m) auto

lemma distinct_update [simp]:
  "distinct (map fst m) \<Longrightarrow> distinct (map fst (AList.update k v m))"
  by (rule distinct_update)

text \<open>Keep the first occurrence of every value: a \<open>seen\<close> map used to build a list.\<close>

fun dedup :: "'a list \<Rightarrow> 'a list \<Rightarrow> 'a list" where
  "dedup seen [] = []"
| "dedup seen (x # xs) = (if x \<in> set seen then dedup seen xs else x # dedup (x # seen) xs)"

lemma set_dedup [simp]: "set (dedup seen xs) = set xs - set seen"
  by (induction xs arbitrary: seen) auto

lemma distinct_dedup [simp]: "distinct (dedup seen xs)"
  by (induction xs arbitrary: seen) auto

section \<open>sort.Slice and sort.SliceStable\<close>

fun go_insert :: "('a \<Rightarrow> 'a \<Rightarrow> bool) \<Rightarrow> 'a \<Rightarrow> 'a list \<Rightarrow> 'a list" where
  "go_insert lt x [] = [x]"
| "go_insert lt x (y # ys) = (if lt y x then y # go_insert lt x ys else x # y # ys)"

fun go_sort :: "('a \<Rightarrow> 'a \<Rightarrow> bool) \<Rightarrow> 'a list \<Rightarrow> 'a list" where
  "go_sort lt [] = []"
| "go_sort lt (x # xs) = go_insert lt x (go_sort lt xs)"

lemma mset_go_insert [simp]: "mset (go_insert lt x xs) = add_mset x (mset xs)"
  by (induction xs) auto

lemma mset_go_sort [simp]: "mset (go_sort lt xs) = mset xs"
  by (induction xs) auto

lemma set_go_sort [simp]: "set (go_sort lt xs) = set xs"
  by (metis mset_go_sort set_mset_mset)

lemma length_go_sort [simp]: "length (go_sort lt xs) = length xs"
  by (metis mset_go_sort size_mset)

lemma go_sort_eq_Nil [simp]: "go_sort lt xs = [] \<longleftrightarrow> xs = []"
  by (metis length_0_conv length_go_sort)

lemma distinct_go_sort [simp]: "distinct (map f (go_sort lt xs)) = distinct (map f xs)"
  by (metis mset_go_sort mset_map distinct_count_atmost_1 set_mset_mset mset_eq_imp_distinct_iff)

text \<open>What Go's sort package asks of a \<open>less\<close> function: a strict weak order.\<close>

locale weak_order =
  fixes lt :: "'a \<Rightarrow> 'a \<Rightarrow> bool"
  assumes less_asym: "lt x y \<Longrightarrow> \<not> lt y x"
    and less_weak: "lt x z \<Longrightarrow> lt x y \<or> lt y z"
begin

lemma less_irrefl: "\<not> lt x x"
  using less_asym by blast

lemma not_less_trans: "\<not> lt y x \<Longrightarrow> \<not> lt z y \<Longrightarrow> \<not> lt z x"
  using less_weak by blast

lemma less_trans: "lt x y \<Longrightarrow> lt y z \<Longrightarrow> lt x z"
  using less_weak less_asym by blast

lemma sorted_go_insert:
  "sorted_wrt (\<lambda>x y. \<not> lt y x) xs \<Longrightarrow> sorted_wrt (\<lambda>x y. \<not> lt y x) (go_insert lt a xs)"
proof (induction xs)
  case Nil
  then show ?case by simp
next
  case (Cons x xs)
  have set_ins: "set (go_insert lt a xs) = insert a (set xs)"
    by (metis mset_go_insert set_mset_mset set_mset_add_mset_insert)
  show ?case
  proof (cases "lt x a")
    case True
    with Cons less_asym show ?thesis by (auto simp: set_ins)
  next
    case False
    with Cons.prems not_less_trans [of x a] show ?thesis by simp
  qed
qed

lemma sorted_go_sort: "sorted_wrt (\<lambda>x y. \<not> lt y x) (go_sort lt xs)"
  by (induction xs) (auto intro: sorted_go_insert)

lemma go_sort_hd_least:
  assumes "x \<in> set xs"
  shows "\<not> lt x (hd (go_sort lt xs))"
proof (cases "go_sort lt xs")
  case Nil
  with assms show ?thesis by (metis go_sort_eq_Nil empty_iff empty_set)
next
  case (Cons y ys)
  with sorted_go_sort [of xs] assms less_irrefl show ?thesis
    by (metis list.sel(1) set_ConsD set_go_sort sorted_wrt.simps(2))
qed

lemma hd_go_sort_in: "xs \<noteq> [] \<Longrightarrow> hd (go_sort lt xs) \<in> set xs"
  by (metis go_sort_eq_Nil hd_in_set set_go_sort)

end

text \<open>
  Where elements that compare as equal are equal, a sorted list is determined by its elements:
  the result does not depend on the order of the input, nor on the sorting algorithm.
\<close>

locale total_order = weak_order +
  fixes dom_of :: "'a \<Rightarrow> bool"
  assumes less_total: "dom_of x \<Longrightarrow> dom_of y \<Longrightarrow> \<not> lt x y \<Longrightarrow> \<not> lt y x \<Longrightarrow> x = y"
begin

lemma sorted_unique:
  assumes "sorted_wrt (\<lambda>x y. \<not> lt y x) xs" and "sorted_wrt (\<lambda>x y. \<not> lt y x) ys"
    and "mset xs = mset ys" and "\<forall>x\<in>set xs. dom_of x"
  shows "xs = ys"
  using assms
proof (induction xs arbitrary: ys)
  case Nil
  then show ?case by simp
next
  case (Cons x xs)
  then obtain y ys' where ys: "ys = y # ys'" by (cases ys) auto
  have eq: "set (x # xs) = set ys" using Cons.prems(3) by (metis set_mset_mset)
  have "y \<in> set (x # xs)" "x \<in> set (y # ys')" using eq ys by auto
  then have "\<not> lt y x" "\<not> lt x y"
    using Cons.prems(1,2) ys less_irrefl by auto
  then have "x = y" using Cons.prems(4) eq ys less_total by (metis list.set_intros(1))
  with Cons ys show ?case by auto
qed

lemma go_sort_perm:
  "mset xs = mset ys \<Longrightarrow> \<forall>x\<in>set xs. dom_of x \<Longrightarrow> go_sort lt xs = go_sort lt ys"
  by (rule sorted_unique) (auto intro: sorted_go_sort)

end

text \<open>Most comparisons are lexicographic: they compare a key in a linear order.\<close>

lemma weak_order_key:
  fixes key :: "'a \<Rightarrow> 'k :: linorder"
  assumes "\<And>x y. lt x y \<longleftrightarrow> key x < key y"
  shows "weak_order lt"
  by unfold_locales (auto simp: assms)

lemma total_order_key:
  fixes key :: "'a \<Rightarrow> 'k :: linorder"
  assumes "\<And>x y. lt x y \<longleftrightarrow> key x < key y"
    and "\<And>x y. dom_of x \<Longrightarrow> dom_of y \<Longrightarrow> key x = key y \<Longrightarrow> x = y"
  shows "total_order lt dom_of"
proof -
  have "weak_order lt" using assms(1) by (rule weak_order_key)
  moreover have "total_order_axioms lt dom_of" by unfold_locales (auto simp: assms)
  ultimately show ?thesis by (rule total_order.intro)
qed

text \<open>\<open>sort.Strings\<close>: bytewise lexicographic order, which is the order of \<open>string\<close> here.\<close>

abbreviation sort_strings :: "string list \<Rightarrow> string list" where
  "sort_strings \<equiv> sort"

text \<open>The keys of a \<open>map[string]bool\<close> collected and sorted.\<close>

definition sorted_keys :: "string list \<Rightarrow> string list" where
  "sorted_keys xs = sort_strings (dedup [] xs)"

lemma set_sorted_keys [simp]: "set (sorted_keys xs) = set xs"
  by (simp add: sorted_keys_def)

lemma distinct_sorted_keys [simp]: "distinct (sorted_keys xs)"
  by (simp add: sorted_keys_def)

lemma sorted_sorted_keys [simp]: "sorted (sorted_keys xs)"
  by (simp add: sorted_keys_def)

lemma sorted_keys_cong: "set xs = set ys \<Longrightarrow> sorted_keys xs = sorted_keys ys"
  by (simp add: sorted_distinct_set_unique)

end
