(* ===== verification/Go_Strings.thy ===== *)
theory Go_Strings
  imports Go_Prelude "HOL-Library.Sublist"
begin

text \<open>
  The part of Go's string library that the modelled code calls. A Go string is a sequence of
  bytes, here a \<open>char list\<close>: \<open>len(s)\<close> is \<open>length s\<close>, comparison is bytewise. Runes are
  obtained by UTF-8 decoding with Go's rule that an invalid byte decodes to U+FFFD and
  advances by one. \<open>strings.ToLower\<close> uses the simple lower-case mapping of the Unicode tables;
  \<open>lower_table\<close> lists it as ranges with a stride and an offset.
\<close>

section \<open>UTF-8\<close>

definition byte_of :: "char \<Rightarrow> nat" where
  "byte_of c = of_char c"

definition char_at :: "nat \<Rightarrow> char" where
  "char_at n = char_of n"

definition cont_byte :: "nat \<Rightarrow> bool" where
  "cont_byte b = (128 \<le> b \<and> b \<le> 191)"

text \<open>One rune and the bytes after it; the bounds on the second byte are those of \<open>utf8.DecodeRune\<close>.\<close>

fun take_rune :: "nat list \<Rightarrow> nat \<times> nat list" where
  "take_rune [] = (65533, [])"
| "take_rune (b0 # r) =
     (if b0 < 128 then (b0, r)
      else if 194 \<le> b0 \<and> b0 \<le> 223 then
        (case r of
           b1 # r1 \<Rightarrow> if cont_byte b1 then ((b0 - 192) * 64 + (b1 - 128), r1) else (65533, r)
         | [] \<Rightarrow> (65533, r))
      else if 224 \<le> b0 \<and> b0 \<le> 239 then
        (case r of
           b1 # b2 # r2 \<Rightarrow>
             if cont_byte b1 \<and> cont_byte b2 \<and> (b0 = 224 \<longrightarrow> 160 \<le> b1) \<and> (b0 = 237 \<longrightarrow> b1 \<le> 159)
             then ((b0 - 224) * 4096 + (b1 - 128) * 64 + (b2 - 128), r2) else (65533, r)
         | _ \<Rightarrow> (65533, r))
      else if 240 \<le> b0 \<and> b0 \<le> 244 then
        (case r of
           b1 # b2 # b3 # r3 \<Rightarrow>
             if cont_byte b1 \<and> cont_byte b2 \<and> cont_byte b3 \<and> (b0 = 240 \<longrightarrow> 144 \<le> b1) \<and> (b0 = 244 \<longrightarrow> b1 \<le> 143)
             then ((b0 - 240) * 262144 + (b1 - 128) * 4096 + (b2 - 128) * 64 + (b3 - 128), r3) else (65533, r)
         | _ \<Rightarrow> (65533, r))
      else (65533, r))"

lemma take_rune_shorter: "bs \<noteq> [] \<Longrightarrow> length (snd (take_rune bs)) < length bs"
  by (cases bs) (auto split: list.splits)

function decode_runes :: "nat list \<Rightarrow> nat list" where
  "decode_runes bs = (if bs = [] then [] else fst (take_rune bs) # decode_runes (snd (take_rune bs)))"
  by pat_completeness auto
termination
  by (relation "measure length") (auto dest: take_rune_shorter)

declare decode_runes.simps [simp del]

lemma decode_runes_Nil [simp]: "decode_runes [] = []"
  by (simp add: decode_runes.simps)

lemma decode_runes_ascii: "\<forall>b\<in>set bs. b < 128 \<Longrightarrow> decode_runes bs = bs"
  by (induction bs) (simp_all add: decode_runes.simps [of "_ # _"])

lemma length_decode_runes: "length (decode_runes bs) \<le> length bs"
proof (induction bs rule: decode_runes.induct)
  case (1 bs)
  show ?case
  proof (cases "bs = []")
    case False
    with 1 take_rune_shorter [OF False] show ?thesis by (simp add: decode_runes.simps [of bs])
  qed simp
qed

definition encode_rune :: "nat \<Rightarrow> nat list" where
  "encode_rune r =
     (if r < 128 then [r]
      else if r < 2048 then [192 + r div 64, 128 + r mod 64]
      else if 55296 \<le> r \<and> r \<le> 57343 \<or> 1114111 < r then [239, 191, 189]
      else if r < 65536 then [224 + r div 4096, 128 + r div 64 mod 64, 128 + r mod 64]
      else [240 + r div 262144, 128 + r div 4096 mod 64, 128 + r div 64 mod 64, 128 + r mod 64])"

text \<open>\<open>[]rune(s)\<close>, \<open>utf8.RuneCountInString(s)\<close> and \<open>string(runes)\<close>.\<close>

definition runes :: "string \<Rightarrow> nat list" where
  "runes s = decode_runes (map byte_of s)"

definition rune_count :: "string \<Rightarrow> nat" where
  "rune_count s = length (runes s)"

definition string_of_runes :: "nat list \<Rightarrow> string" where
  "string_of_runes rs = map char_at (concat (map encode_rune rs))"

lemma rune_count_le_length: "rune_count s \<le> length s"
  using length_decode_runes [of "map byte_of s"] by (simp add: rune_count_def runes_def)

text \<open>Decoding undoes encoding for every Unicode scalar value.\<close>

definition scalar :: "nat \<Rightarrow> bool" where
  "scalar r = (r \<le> 1114111 \<and> \<not> (55296 \<le> r \<and> r \<le> 57343))"

lemma take_encode_rune:
  assumes "scalar r"
  shows "take_rune (encode_rune r @ bs) = (r, bs)"
proof -
  have m: "n mod 64 \<le> 63" for n :: nat using mod_less_divisor [of 64 n] by linarith
  consider "r < 128" | "128 \<le> r" "r < 2048" | "2048 \<le> r" "r < 65536" | "65536 \<le> r"
    by linarith
  then show ?thesis
  proof cases
    case 3
    have "(r div 4096) * 4096 + (r div 64 mod 64) * 64 + r mod 64 = r"
    proof -
      have "r div 64 div 64 = r div 4096" by (simp flip: div_mult2_eq)
      then show ?thesis
        using div_mult_mod_eq [of r 64] div_mult_mod_eq [of "r div 64" 64] by linarith
    qed
    then show ?thesis
      using 3 assms m [of r] m [of "r div 64"]
      by (auto simp: encode_rune_def cont_byte_def scalar_def)
  next
    case 4
    have b: "r div 262144 \<le> 4" using assms div_le_mono [of r 1114111 262144] by (simp add: scalar_def)
    have s: "(r div 262144) * 262144 + (r div 4096 mod 64) * 4096 + (r div 64 mod 64) * 64 + r mod 64 = r"
    proof -
      have "r div 64 div 64 = r div 4096" "r div 4096 div 64 = r div 262144"
        by (simp_all flip: div_mult2_eq)
      then show ?thesis
        using div_mult_mod_eq [of r 64] div_mult_mod_eq [of "r div 64" 64]
          div_mult_mod_eq [of "r div 4096" 64] by linarith
    qed
    then show ?thesis
      using 4 assms b m [of r] m [of "r div 64"] m [of "r div 4096"]
      by (auto simp: encode_rune_def cont_byte_def scalar_def)
  qed (use assms in \<open>auto simp: encode_rune_def cont_byte_def scalar_def\<close>)
qed

lemma encode_rune_nonempty [simp]: "encode_rune r \<noteq> []"
  by (simp add: encode_rune_def)

lemma decode_encode: "\<forall>r\<in>set rs. scalar r \<Longrightarrow> decode_runes (concat (map encode_rune rs)) = rs"
  by (induction rs) (simp_all add: decode_runes.simps [of "encode_rune _ @ _"] take_encode_rune)

lemma encode_rune_byte: "b \<in> set (encode_rune r) \<Longrightarrow> b < 256"
  by (auto simp: encode_rune_def split: if_splits)

lemma byte_of_char_at [simp]: "n < 256 \<Longrightarrow> byte_of (char_at n) = n"
  by (simp add: byte_of_def char_at_def)

lemma runes_string_of_runes:
  assumes "\<forall>r\<in>set rs. scalar r"
  shows "runes (string_of_runes rs) = rs"
proof -
  have "map byte_of (string_of_runes rs) = concat (map encode_rune rs)"
    by (force simp: string_of_runes_def comp_def intro!: map_idI intro: byte_of_char_at dest: encode_rune_byte)
  with assms show ?thesis by (simp add: runes_def decode_encode)
qed

section \<open>strings.TrimSpace\<close>

text \<open>
  The UTF-8 encodings of the runes for which \<open>unicode.IsSpace\<close> holds. None is a proper prefix or
  suffix of another, and each starts with a byte that no other rune's tail can contain, so
  stripping them bytewise from both ends is \<open>strings.TrimSpace\<close>.
\<close>

definition space_seqs :: "string list" where
  "space_seqs = map (map char_at)
     ([[9], [10], [11], [12], [13], [32], [194, 133], [194, 160], [225, 154, 128]]
      @ map (\<lambda>b. [226, 128, b]) [128, 129, 130, 131, 132, 133, 134, 135, 136, 137, 138, 168, 169, 175]
      @ [[226, 129, 159], [227, 128, 128]])"

function strip :: "string list \<Rightarrow> string \<Rightarrow> string" where
  "strip ps s = (case find (\<lambda>p. p \<noteq> [] \<and> prefix p s) ps of
                   None \<Rightarrow> s
                 | Some p \<Rightarrow> strip ps (drop (length p) s))"
  by pat_completeness auto
termination
  by (relation "measure (\<lambda>(ps, s). length s)")
     (auto simp: find_Some_iff prefix_def)

declare strip.simps [simp del]

definition trim_left :: "string \<Rightarrow> string" where
  "trim_left s = strip space_seqs s"

definition trim_right :: "string \<Rightarrow> string" where
  "trim_right s = rev (strip (map rev space_seqs) (rev s))"

definition trim_space :: "string \<Rightarrow> string" where
  "trim_space s = trim_right (trim_left s)"

lemma strip_suffix: "suffix (strip ps s) s"
proof (induction ps s rule: strip.induct)
  case (1 ps s)
  then show ?case
    by (subst strip.simps) (auto split: option.splits intro: suffix_order.trans suffix_drop)
qed

lemma strip_no_prefix: "p \<in> set ps \<Longrightarrow> p \<noteq> [] \<Longrightarrow> \<not> prefix p (strip ps s)"
proof (induction ps s rule: strip.induct)
  case (1 ps s)
  then show ?case
    by (subst strip.simps) (auto split: option.splits simp: find_None_iff)
qed

lemma strip_id: "(\<forall>p\<in>set ps. p \<noteq> [] \<longrightarrow> \<not> prefix p s) \<Longrightarrow> strip ps s = s"
  by (subst strip.simps) (auto split: option.splits simp: find_Some_iff)

lemma prefix_trim_right: "prefix (trim_right s) s"
  using strip_suffix [of "map rev space_seqs" "rev s"]
  by (simp add: trim_right_def suffix_to_prefix)

lemma trim_space_idem [simp]: "trim_space (trim_space s) = trim_space s"
proof -
  let ?t = "trim_space s"
  have "\<not> prefix p ?t" if "p \<in> set space_seqs" "p \<noteq> []" for p
    using that strip_no_prefix [of p space_seqs s] prefix_trim_right [of "trim_left s"]
    by (metis prefix_order.trans trim_left_def trim_space_def)
  then have l: "trim_left ?t = ?t" by (simp add: trim_left_def strip_id)
  have "strip (map rev space_seqs) (rev ?t) = rev ?t"
    by (rule strip_id) (simp add: trim_space_def trim_right_def strip_no_prefix)
  with l show ?thesis by (simp add: trim_space_def trim_right_def)
qed

lemma trim_space_Nil [simp]: "trim_space [] = []"
  using prefix_trim_right [of "[]"] strip_suffix [of space_seqs "[]"]
  by (simp add: trim_space_def trim_left_def)

lemma length_trim_space: "length (trim_space s) \<le> length s"
  using prefix_trim_right [of "trim_left s"] strip_suffix [of space_seqs s]
  by (metis trim_left_def trim_space_def prefix_length_le suffix_length_le order_trans)

text \<open>Text that starts and ends with a printable ASCII character is left alone.\<close>

definition ascii_word :: "char \<Rightarrow> bool" where
  "ascii_word c = (33 \<le> byte_of c \<and> byte_of c \<le> 126)"

lemma space_seqs_not_word:
  "p \<in> set space_seqs \<Longrightarrow> p \<noteq> [] \<and> \<not> ascii_word (hd p) \<and> \<not> ascii_word (last p)"
  by (auto simp: space_seqs_def ascii_word_def)

lemma trim_space_word:
  assumes "ascii_word (hd s)" and "ascii_word (last s)"
  shows "trim_space s = s"
proof (cases "s = []")
  case False
  have "\<not> prefix p s" if "p \<in> set space_seqs" for p
    using space_seqs_not_word [OF that] assms(1) by (auto simp: prefix_def)
  then have l: "trim_left s = s" by (simp add: trim_left_def strip_id)
  have "\<not> prefix (rev p) (rev s)" if "p \<in> set space_seqs" for p
    using space_seqs_not_word [OF that] assms(2) by (auto simp: suffix_to_prefix [symmetric] suffix_def)
  then have "strip (map rev space_seqs) (rev s) = rev s" by (intro strip_id) auto
  with l show ?thesis by (simp add: trim_space_def trim_right_def)
qed simp

section \<open>strings.ToLower\<close>

text \<open>
  \<open>(lo, hi, stride, d)\<close>: the code points \<open>lo, lo + stride, \<dots>, hi\<close> map to themselves plus \<open>d\<close>.
  ASCII is handled before the table, as in Go.
\<close>

definition lower_table :: "(nat \<times> nat \<times> nat \<times> int) list" where
  "lower_table =
    [(192, 214, 1, 32), (216, 222, 1, 32), (256, 302, 2, 1), (304, 304, 1, - 199),
     (306, 310, 2, 1), (313, 327, 2, 1), (330, 374, 2, 1), (376, 376, 1, - 121),
     (377, 381, 2, 1), (385, 385, 1, 210), (386, 388, 2, 1), (390, 390, 1, 206),
     (391, 391, 1, 1), (393, 394, 1, 205), (395, 395, 1, 1), (398, 398, 1, 79),
     (399, 399, 1, 202), (400, 400, 1, 203), (401, 401, 1, 1), (403, 403, 1, 205),
     (404, 404, 1, 207), (406, 406, 1, 211), (407, 407, 1, 209), (408, 408, 1, 1),
     (412, 412, 1, 211), (413, 413, 1, 213), (415, 415, 1, 214), (416, 420, 2, 1),
     (422, 422, 1, 218), (423, 423, 1, 1), (425, 425, 1, 218), (428, 428, 1, 1),
     (430, 430, 1, 218), (431, 431, 1, 1), (433, 434, 1, 217), (435, 437, 2, 1),
     (439, 439, 1, 219), (440, 440, 1, 1), (444, 444, 1, 1), (452, 452, 1, 2),
     (453, 453, 1, 1), (455, 455, 1, 2), (456, 456, 1, 1), (458, 458, 1, 2),
     (459, 475, 2, 1), (478, 494, 2, 1), (497, 497, 1, 2), (498, 500, 2, 1),
     (502, 502, 1, - 97), (503, 503, 1, - 56), (504, 542, 2, 1), (544, 544, 1, - 130),
     (546, 562, 2, 1), (570, 570, 1, 10795), (571, 571, 1, 1), (573, 573, 1, - 163),
     (574, 574, 1, 10792), (577, 577, 1, 1), (579, 579, 1, - 195), (580, 580, 1, 69),
     (581, 581, 1, 71), (582, 590, 2, 1), (880, 882, 2, 1), (886, 886, 1, 1),
     (895, 895, 1, 116), (902, 902, 1, 38), (904, 906, 1, 37), (908, 908, 1, 64),
     (910, 911, 1, 63), (913, 929, 1, 32), (931, 939, 1, 32), (975, 975, 1, 8),
     (984, 1006, 2, 1), (1012, 1012, 1, - 60), (1015, 1015, 1, 1), (1017, 1017, 1, - 7),
     (1018, 1018, 1, 1), (1021, 1023, 1, - 130), (1024, 1039, 1, 80), (1040, 1071, 1, 32),
     (1120, 1152, 2, 1), (1162, 1214, 2, 1), (1216, 1216, 1, 15), (1217, 1229, 2, 1),
     (1232, 1326, 2, 1), (1329, 1366, 1, 48), (4256, 4293, 1, 7264), (4295, 4295, 1, 7264),
     (4301, 4301, 1, 7264), (5024, 5103, 1, 38864), (5104, 5109, 1, 8), (7312, 7354, 1, - 3008),
     (7357, 7359, 1, - 3008), (7680, 7828, 2, 1), (7838, 7838, 1, - 7615), (7840, 7934, 2, 1),
     (7944, 7951, 1, - 8), (7960, 7965, 1, - 8), (7976, 7983, 1, - 8), (7992, 7999, 1, - 8),
     (8008, 8013, 1, - 8), (8025, 8031, 2, - 8), (8040, 8047, 1, - 8), (8072, 8079, 1, - 8),
     (8088, 8095, 1, - 8), (8104, 8111, 1, - 8), (8120, 8121, 1, - 8), (8122, 8123, 1, - 74),
     (8124, 8124, 1, - 9), (8136, 8139, 1, - 86), (8140, 8140, 1, - 9), (8152, 8153, 1, - 8),
     (8154, 8155, 1, - 100), (8168, 8169, 1, - 8), (8170, 8171, 1, - 112), (8172, 8172, 1, - 7),
     (8184, 8185, 1, - 128), (8186, 8187, 1, - 126), (8188, 8188, 1, - 9), (8486, 8486, 1, - 7517),
     (8490, 8490, 1, - 8383), (8491, 8491, 1, - 8262), (8498, 8498, 1, 28), (8544, 8559, 1, 16),
     (8579, 8579, 1, 1), (9398, 9423, 1, 26), (11264, 11311, 1, 48), (11360, 11360, 1, 1),
     (11362, 11362, 1, - 10743), (11363, 11363, 1, - 3814), (11364, 11364, 1, - 10727), (11367, 11371, 2, 1),
     (11373, 11373, 1, - 10780), (11374, 11374, 1, - 10749), (11375, 11375, 1, - 10783), (11376, 11376, 1, - 10782),
     (11378, 11378, 1, 1), (11381, 11381, 1, 1), (11390, 11391, 1, - 10815), (11392, 11490, 2, 1),
     (11499, 11501, 2, 1), (11506, 11506, 1, 1), (42560, 42604, 2, 1), (42624, 42650, 2, 1),
     (42786, 42798, 2, 1), (42802, 42862, 2, 1), (42873, 42875, 2, 1), (42877, 42877, 1, - 35332),
     (42878, 42886, 2, 1), (42891, 42891, 1, 1), (42893, 42893, 1, - 42280), (42896, 42898, 2, 1),
     (42902, 42920, 2, 1), (42922, 42922, 1, - 42308), (42923, 42923, 1, - 42319), (42924, 42924, 1, - 42315),
     (42925, 42925, 1, - 42305), (42926, 42926, 1, - 42308), (42928, 42928, 1, - 42258), (42929, 42929, 1, - 42282),
     (42930, 42930, 1, - 42261), (42931, 42931, 1, 928), (42932, 42946, 2, 1), (42948, 42948, 1, - 48),
     (42949, 42949, 1, - 42307), (42950, 42950, 1, - 35384), (42951, 42953, 2, 1), (42960, 42960, 1, 1),
     (42966, 42968, 2, 1), (42997, 42997, 1, 1), (65313, 65338, 1, 32), (66560, 66599, 1, 40),
     (66736, 66771, 1, 40), (66928, 66938, 1, 39), (66940, 66954, 1, 39), (66956, 66962, 1, 39),
     (66964, 66965, 1, 39), (68736, 68786, 1, 64), (71840, 71871, 1, 32), (93760, 93791, 1, 32),
     (125184, 125217, 1, 34)]"

definition lower_rune :: "nat \<Rightarrow> nat" where
  "lower_rune r =
     (if r < 128 then (if 65 \<le> r \<and> r \<le> 90 then r + 32 else r)
      else case find (\<lambda>(lo, hi, st, d). lo \<le> r \<and> r \<le> hi \<and> (r - lo) mod st = 0) lower_table of
             None \<Rightarrow> r
           | Some (lo, hi, st, d) \<Rightarrow> nat (int r + d))"

definition ascii_string :: "string \<Rightarrow> bool" where
  "ascii_string s = (\<forall>c\<in>set s. byte_of c < 128)"

definition to_lower :: "string \<Rightarrow> string" where
  "to_lower s =
     (if ascii_string s then map (\<lambda>c. char_at (lower_rune (byte_of c))) s
      else string_of_runes (map lower_rune (runes s)))"

lemma to_lower_Nil [simp]: "to_lower [] = []"
  by (simp add: to_lower_def ascii_string_def)

definition ascii_lower :: "char \<Rightarrow> bool" where
  "ascii_lower c = (byte_of c < 128 \<and> \<not> (65 \<le> byte_of c \<and> byte_of c \<le> 90))"

lemma char_at_byte_of [simp]: "char_at (byte_of c) = c"
  by (simp add: byte_of_def char_at_def)

lemma to_lower_id: "\<forall>c\<in>set s. ascii_lower c \<Longrightarrow> to_lower s = s"
  by (auto simp: to_lower_def ascii_string_def ascii_lower_def lower_rune_def intro!: map_idI)

text \<open>\<open>strings.ToLower(strings.TrimSpace(s))\<close>, the normal form of every closed label.\<close>

definition lower_trim :: "string \<Rightarrow> string" where
  "lower_trim s = to_lower (trim_space s)"

lemma lower_trim_Nil [simp]: "lower_trim [] = []"
  by (simp add: lower_trim_def)

lemma lower_trim_id:
  "ascii_word (hd s) \<Longrightarrow> ascii_word (last s) \<Longrightarrow> \<forall>c\<in>set s. ascii_lower c \<Longrightarrow> lower_trim s = s"
  by (simp add: lower_trim_def trim_space_word to_lower_id)

text \<open>Rules that evaluate the string functions on printable literals.\<close>

lemmas go_string_eval = trim_space_word to_lower_id lower_trim_id ascii_word_def ascii_lower_def
  byte_of_def

text \<open>\<open>strings.Join\<close>.\<close>

fun go_join :: "string \<Rightarrow> string list \<Rightarrow> string" where
  "go_join sep [] = []"
| "go_join sep [x] = x"
| "go_join sep (x # y # zs) = x @ sep @ go_join sep (y # zs)"

section \<open>Decimal numbers\<close>

text \<open>
  \<open>%d\<close> of a number that is not negative; a number \<open>n\<close> has at most \<open>n + 1\<close> digits, which bounds the
  recursion.
\<close>

fun decimal_digits :: "nat \<Rightarrow> nat \<Rightarrow> string" where
  "decimal_digits 0 n = []"
| "decimal_digits (Suc fuel) n =
     (if n < 10 then [char_at (48 + n)] else decimal_digits fuel (n div 10) @ [char_at (48 + n mod 10)])"

definition decimal :: "nat \<Rightarrow> string" where
  "decimal n = decimal_digits (Suc n) n"

lemma decimal_digits_fuel:
  assumes "n < fuel" and "n < fuel'"
  shows "decimal_digits fuel n = decimal_digits fuel' n"
  using assms
proof (induction n arbitrary: fuel fuel' rule: less_induct)
  case (less n)
  obtain f f' where f: "fuel = Suc f" "fuel' = Suc f'" using less.prems by (cases fuel; cases fuel') auto
  show ?case
  proof (cases "n < 10")
    case False
    then have "n div 10 < n" "n div 10 < f" "n div 10 < f'" using less.prems f by auto
    with less.IH [of "n div 10" f f'] False show ?thesis by (simp add: f)
  qed (simp add: f)
qed

lemma decimal_rec:
  "decimal n = (if n < 10 then [char_at (48 + n)] else decimal (n div 10) @ [char_at (48 + n mod 10)])"
proof (cases "n < 10")
  case False
  then have "decimal_digits n (n div 10) = decimal_digits (Suc (n div 10)) (n div 10)"
    by (intro decimal_digits_fuel) auto
  with False show ?thesis by (simp add: decimal_def)
qed (simp add: decimal_def)

lemma char_at_inject: "a < 256 \<Longrightarrow> b < 256 \<Longrightarrow> char_at a = char_at b \<longleftrightarrow> a = b"
  by (metis byte_of_def char_at_def mod_less of_char_of)

lemma decimal_nonempty [simp]: "decimal n \<noteq> []" "[] \<noteq> decimal n"
  using decimal_rec [of n] by (auto split: if_splits)

lemma decimal_byte: "c \<in> set (decimal n) \<Longrightarrow> 48 \<le> byte_of c \<and> byte_of c \<le> 57"
proof (induction n rule: less_induct)
  case (less n)
  have digit: "byte_of (char_at (48 + m)) = 48 + m" if "m < 10" for m
    using that by (simp add: byte_of_def char_at_def)
  show ?case
  proof (cases "n < 10")
    case True
    with less.prems have "c = char_at (48 + n)" by (simp add: decimal_rec [of n])
    with True show ?thesis by (simp add: digit)
  next
    case False
    with less.prems have "c \<in> set (decimal (n div 10)) \<or> c = char_at (48 + n mod 10)"
      using decimal_rec [of n] by auto
    then show ?thesis
    proof
      assume "c \<in> set (decimal (n div 10))"
      with less.IH [of "n div 10"] False show ?thesis by simp
    qed (use digit [of "n mod 10"] in simp)
  qed
qed

lemma decimal_inject: "decimal m = decimal n \<longleftrightarrow> m = n"
proof
  show "decimal m = decimal n \<Longrightarrow> m = n"
  proof (induction m arbitrary: n rule: less_induct)
    case (less m)
    show ?case
    proof (cases "m < 10 \<or> n < 10")
      case True
      then show ?thesis
        using less.prems by (subst (asm) (1 2) decimal_rec)
          (auto simp: char_at_inject split: if_splits)
    next
      case False
      then have "decimal (m div 10) @ [char_at (48 + m mod 10)] = decimal (n div 10) @ [char_at (48 + n mod 10)]"
        using less.prems by (metis decimal_rec)
      then have "decimal (m div 10) = decimal (n div 10)" and "m mod 10 = n mod 10"
        by (auto simp: char_at_inject)
      moreover have "m div 10 < m" using False by simp
      ultimately have "m div 10 = n div 10" "m mod 10 = n mod 10" using less.IH by auto
      then show ?thesis by (metis div_mult_mod_eq)
    qed
  qed
qed simp

end
