(* ===== verification/Domain_Contract.thy ===== *)
theory Domain_Contract
  imports Go_Strings
begin

text \<open>
  The closed vocabularies of \<open>internal/domain/contract.go\<close>: each Go string type with its
  constants is a datatype, its \<open>_str\<close> function gives the constant's text, and the listing functions
  (\<open>EntityKinds()\<close>, \<open>RelationshipStatuses()\<close>, ...) are lists of these texts. Fields of the
  modelled structs keep Go's type, an arbitrary string, since the code compares texts.
  Below them: contract versions, the combination of search-projection states, and the
  classification of embedding failures.
\<close>

section \<open>Contract versions\<close>

definition ContractVersion :: string where
  "ContractVersion = ''dense-mem.v2.7.0''"

definition PreviousContractVersion :: string where
  "PreviousContractVersion = ''dense-mem.v2.6.2''"

definition ContractVersionCompatible :: "string \<Rightarrow> bool" where
  "ContractVersionCompatible version \<longleftrightarrow>
     version = ContractVersion \<or> version = ''dense-mem.v2.6.8'' \<or> version = ''dense-mem.v2.6.7'' \<or>
     version = ''dense-mem.v2.6.6'' \<or> version = ''dense-mem.v2.6.3'' \<or> version = PreviousContractVersion"

definition AcceptedContractVersions :: "string list" where
  "AcceptedContractVersions =
     [ContractVersion, ''dense-mem.v2.6.8'', ''dense-mem.v2.6.7'', ''dense-mem.v2.6.6'',
      ''dense-mem.v2.6.3'', PreviousContractVersion]"

section \<open>Vocabularies\<close>

datatype SemanticNodeKind =
    SemanticNodeEntity
  | SemanticNodeValue

primrec semantic_node_kind_str :: "SemanticNodeKind \<Rightarrow> string" where
  "semantic_node_kind_str SemanticNodeEntity = ''entity''"
| "semantic_node_kind_str SemanticNodeValue = ''value''"

datatype EntityKind =
    EntityKindPerson
  | EntityKindOrganization
  | EntityKindProject
  | EntityKindProduct
  | EntityKindPlace
  | EntityKindDocument
  | EntityKindConcept
  | EntityKindOther

primrec entity_kind_str :: "EntityKind \<Rightarrow> string" where
  "entity_kind_str EntityKindPerson = ''person''"
| "entity_kind_str EntityKindOrganization = ''organization''"
| "entity_kind_str EntityKindProject = ''project''"
| "entity_kind_str EntityKindProduct = ''product''"
| "entity_kind_str EntityKindPlace = ''place''"
| "entity_kind_str EntityKindDocument = ''document''"
| "entity_kind_str EntityKindConcept = ''concept''"
| "entity_kind_str EntityKindOther = ''other''"

datatype ValueType =
    ValueTypeString
  | ValueTypeNumber
  | ValueTypeBoolean
  | ValueTypeDate
  | ValueTypeDateTime

primrec value_type_str :: "ValueType \<Rightarrow> string" where
  "value_type_str ValueTypeString = ''string''"
| "value_type_str ValueTypeNumber = ''number''"
| "value_type_str ValueTypeBoolean = ''boolean''"
| "value_type_str ValueTypeDate = ''date''"
| "value_type_str ValueTypeDateTime = ''date_time''"

datatype RelationshipStatus =
    RelationshipStatusActive
  | RelationshipStatusPendingEvidence
  | RelationshipStatusNeedsReview
  | RelationshipStatusRejected
  | RelationshipStatusRetracted
  | RelationshipStatusSuperseded
  | RelationshipStatusQuarantined
  | RelationshipStatusDisputed

primrec relationship_status_str :: "RelationshipStatus \<Rightarrow> string" where
  "relationship_status_str RelationshipStatusActive = ''active''"
| "relationship_status_str RelationshipStatusPendingEvidence = ''pending_evidence''"
| "relationship_status_str RelationshipStatusNeedsReview = ''needs_review''"
| "relationship_status_str RelationshipStatusRejected = ''rejected''"
| "relationship_status_str RelationshipStatusRetracted = ''retracted''"
| "relationship_status_str RelationshipStatusSuperseded = ''superseded''"
| "relationship_status_str RelationshipStatusQuarantined = ''quarantined''"
| "relationship_status_str RelationshipStatusDisputed = ''disputed''"

datatype RelationshipKind =
    RelationshipKindState
  | RelationshipKindEvent

primrec relationship_kind_str :: "RelationshipKind \<Rightarrow> string" where
  "relationship_kind_str RelationshipKindState = ''state''"
| "relationship_kind_str RelationshipKindEvent = ''event''"

datatype CurrentCardinality =
    CurrentCardinalityOne
  | CurrentCardinalityMany

primrec current_cardinality_str :: "CurrentCardinality \<Rightarrow> string" where
  "current_cardinality_str CurrentCardinalityOne = ''one''"
| "current_cardinality_str CurrentCardinalityMany = ''many''"

datatype PredicateLifecycleState =
    PredicateLifecycleActive
  | PredicateLifecycleDeprecated
  | PredicateLifecycleRetired

primrec predicate_lifecycle_state_str :: "PredicateLifecycleState \<Rightarrow> string" where
  "predicate_lifecycle_state_str PredicateLifecycleActive = ''active''"
| "predicate_lifecycle_state_str PredicateLifecycleDeprecated = ''deprecated''"
| "predicate_lifecycle_state_str PredicateLifecycleRetired = ''retired''"

datatype VerificationVerdict =
    VerificationEntailed
  | VerificationContradicted
  | VerificationInsufficient

primrec verification_verdict_str :: "VerificationVerdict \<Rightarrow> string" where
  "verification_verdict_str VerificationEntailed = ''entailed''"
| "verification_verdict_str VerificationContradicted = ''contradicted''"
| "verification_verdict_str VerificationInsufficient = ''insufficient''"

datatype EntityResolutionAction =
    EntityResolutionReuse
  | EntityResolutionCreate
  | EntityResolutionAmbiguous

primrec entity_resolution_action_str :: "EntityResolutionAction \<Rightarrow> string" where
  "entity_resolution_action_str EntityResolutionReuse = ''reuse''"
| "entity_resolution_action_str EntityResolutionCreate = ''create''"
| "entity_resolution_action_str EntityResolutionAmbiguous = ''ambiguous''"

datatype SupportDecision =
    SupportGrant
  | SupportRevoke
  | SupportReinstate

primrec support_decision_str :: "SupportDecision \<Rightarrow> string" where
  "support_decision_str SupportGrant = ''grant''"
| "support_decision_str SupportRevoke = ''revoke''"
| "support_decision_str SupportReinstate = ''reinstate''"

datatype CrossReferenceKind =
    CrossReferenceConfirms
  | CrossReferenceChallenges
  | CrossReferenceCorrects
  | CrossReferenceAdoptsEvidenceFrom

primrec cross_reference_kind_str :: "CrossReferenceKind \<Rightarrow> string" where
  "cross_reference_kind_str CrossReferenceConfirms = ''confirms''"
| "cross_reference_kind_str CrossReferenceChallenges = ''challenges''"
| "cross_reference_kind_str CrossReferenceCorrects = ''corrects''"
| "cross_reference_kind_str CrossReferenceAdoptsEvidenceFrom = ''adopts_evidence_from''"

datatype RelationshipConflictStatus =
    RelationshipConflictOpen
  | RelationshipConflictOverdue
  | RelationshipConflictResolved
  | RelationshipConflictDismissed

primrec relationship_conflict_status_str :: "RelationshipConflictStatus \<Rightarrow> string" where
  "relationship_conflict_status_str RelationshipConflictOpen = ''open''"
| "relationship_conflict_status_str RelationshipConflictOverdue = ''overdue''"
| "relationship_conflict_status_str RelationshipConflictResolved = ''resolved''"
| "relationship_conflict_status_str RelationshipConflictDismissed = ''dismissed''"

datatype RelationshipConflictKind =
    RelationshipConflictCrossProfileCurrentState

primrec relationship_conflict_kind_str :: "RelationshipConflictKind \<Rightarrow> string" where
  "relationship_conflict_kind_str RelationshipConflictCrossProfileCurrentState = ''cross_profile_current_state''"

datatype RelationshipConflictPositionDisposition =
    RelationshipConflictPositionCandidate
  | RelationshipConflictPositionPreferred
  | RelationshipConflictPositionSuppressedCurrent

primrec relationship_conflict_position_disposition_str :: "RelationshipConflictPositionDisposition \<Rightarrow> string" where
  "relationship_conflict_position_disposition_str RelationshipConflictPositionCandidate = ''candidate''"
| "relationship_conflict_position_disposition_str RelationshipConflictPositionPreferred = ''preferred''"
| "relationship_conflict_position_disposition_str RelationshipConflictPositionSuppressedCurrent = ''suppressed_current''"

datatype RelationshipConflictEventAction =
    RelationshipConflictEventOpened
  | RelationshipConflictEventPositionAdded
  | RelationshipConflictEventMemberAdded
  | RelationshipConflictEventEvaluated
  | RelationshipConflictEventMarkedOverdue
  | RelationshipConflictEventResolved
  | RelationshipConflictEventRelationshipUpdated
  | RelationshipConflictEventDismissed
  | RelationshipConflictEventAIAssessmentReserved
  | RelationshipConflictEventAIAssessed
  | RelationshipConflictEventResolutionPending
  | RelationshipConflictEventEvidenceRetracted
  | RelationshipConflictEventDerivedStaged
  | RelationshipConflictEventDerivedFailed

primrec relationship_conflict_event_action_str :: "RelationshipConflictEventAction \<Rightarrow> string" where
  "relationship_conflict_event_action_str RelationshipConflictEventOpened = ''opened''"
| "relationship_conflict_event_action_str RelationshipConflictEventPositionAdded = ''position_added''"
| "relationship_conflict_event_action_str RelationshipConflictEventMemberAdded = ''member_added''"
| "relationship_conflict_event_action_str RelationshipConflictEventEvaluated = ''evaluated''"
| "relationship_conflict_event_action_str RelationshipConflictEventMarkedOverdue = ''marked_overdue''"
| "relationship_conflict_event_action_str RelationshipConflictEventResolved = ''resolved''"
| "relationship_conflict_event_action_str RelationshipConflictEventRelationshipUpdated = ''relationship_updated''"
| "relationship_conflict_event_action_str RelationshipConflictEventDismissed = ''dismissed''"
| "relationship_conflict_event_action_str RelationshipConflictEventAIAssessmentReserved = ''ai_assessment_reserved''"
| "relationship_conflict_event_action_str RelationshipConflictEventAIAssessed = ''ai_assessed''"
| "relationship_conflict_event_action_str RelationshipConflictEventResolutionPending = ''resolution_pending''"
| "relationship_conflict_event_action_str RelationshipConflictEventEvidenceRetracted = ''evidence_retracted''"
| "relationship_conflict_event_action_str RelationshipConflictEventDerivedStaged = ''derived_replacement_staged''"
| "relationship_conflict_event_action_str RelationshipConflictEventDerivedFailed = ''derived_replacement_failed''"

datatype HypothesisStatus =
    HypothesisProposed
  | HypothesisReinforced
  | HypothesisStale
  | HypothesisRejected
  | HypothesisSubmitted

primrec hypothesis_status_str :: "HypothesisStatus \<Rightarrow> string" where
  "hypothesis_status_str HypothesisProposed = ''proposed''"
| "hypothesis_status_str HypothesisReinforced = ''reinforced''"
| "hypothesis_status_str HypothesisStale = ''stale''"
| "hypothesis_status_str HypothesisRejected = ''rejected''"
| "hypothesis_status_str HypothesisSubmitted = ''submitted''"

datatype SearchProjectionState =
    SearchProjectionNotRequired
  | SearchProjectionPending
  | SearchProjectionCurrent
  | SearchProjectionFailed

primrec search_projection_state_str :: "SearchProjectionState \<Rightarrow> string" where
  "search_projection_state_str SearchProjectionNotRequired = ''not_required''"
| "search_projection_state_str SearchProjectionPending = ''pending''"
| "search_projection_state_str SearchProjectionCurrent = ''current''"
| "search_projection_state_str SearchProjectionFailed = ''failed''"

datatype SearchIndexGenerationState =
    SearchIndexGenerationBuilding
  | SearchIndexGenerationActive
  | SearchIndexGenerationFailed
  | SearchIndexGenerationDeprecated
  | SearchIndexGenerationRetired

primrec search_index_generation_state_str :: "SearchIndexGenerationState \<Rightarrow> string" where
  "search_index_generation_state_str SearchIndexGenerationBuilding = ''building''"
| "search_index_generation_state_str SearchIndexGenerationActive = ''active''"
| "search_index_generation_state_str SearchIndexGenerationFailed = ''failed''"
| "search_index_generation_state_str SearchIndexGenerationDeprecated = ''deprecated''"
| "search_index_generation_state_str SearchIndexGenerationRetired = ''retired''"

datatype VectorDistanceMetric =
    VectorDistanceCosine

primrec vector_distance_metric_str :: "VectorDistanceMetric \<Rightarrow> string" where
  "vector_distance_metric_str VectorDistanceCosine = ''cosine''"

datatype VectorIndexStrategy =
    VectorIndexExact
  | VectorIndexVectorHNSW
  | VectorIndexHalfvecHNSW
  | VectorIndexBinaryHNSW

primrec vector_index_strategy_str :: "VectorIndexStrategy \<Rightarrow> string" where
  "vector_index_strategy_str VectorIndexExact = ''exact''"
| "vector_index_strategy_str VectorIndexVectorHNSW = ''vector_hnsw''"
| "vector_index_strategy_str VectorIndexHalfvecHNSW = ''halfvec_hnsw''"
| "vector_index_strategy_str VectorIndexBinaryHNSW = ''binary_hnsw''"

datatype EvidenceItemCategory =
    EvidenceProcessed
  | EvidenceQuarantined
  | EvidenceProcessingFailed

primrec evidence_item_category_str :: "EvidenceItemCategory \<Rightarrow> string" where
  "evidence_item_category_str EvidenceProcessed = ''evidence_processed''"
| "evidence_item_category_str EvidenceQuarantined = ''evidence_quarantined''"
| "evidence_item_category_str EvidenceProcessingFailed = ''processing_failed''"

datatype RelationshipOutcomeCategory =
    OutcomeRelationshipAccepted
  | OutcomeRelationshipPendingEvidence
  | OutcomeRelationshipNeedsReview
  | OutcomePredicateNeedsReview
  | OutcomeRelationshipRejected
  | OutcomeIdentityNeedsReview

primrec relationship_outcome_category_str :: "RelationshipOutcomeCategory \<Rightarrow> string" where
  "relationship_outcome_category_str OutcomeRelationshipAccepted = ''relationship_accepted''"
| "relationship_outcome_category_str OutcomeRelationshipPendingEvidence = ''relationship_pending_evidence''"
| "relationship_outcome_category_str OutcomeRelationshipNeedsReview = ''relationship_needs_review''"
| "relationship_outcome_category_str OutcomePredicateNeedsReview = ''predicate_needs_review''"
| "relationship_outcome_category_str OutcomeRelationshipRejected = ''relationship_rejected''"
| "relationship_outcome_category_str OutcomeIdentityNeedsReview = ''identity_needs_review''"

datatype SemanticReviewStatus =
    SemanticReviewAccepted
  | SemanticReviewQuarantined
  | SemanticReviewRejected
  | SemanticReviewRetryable
  | SemanticReviewTerminalFailure
  | SemanticReviewSuperseded

primrec semantic_review_status_str :: "SemanticReviewStatus \<Rightarrow> string" where
  "semantic_review_status_str SemanticReviewAccepted = ''accepted''"
| "semantic_review_status_str SemanticReviewQuarantined = ''quarantined''"
| "semantic_review_status_str SemanticReviewRejected = ''rejected''"
| "semantic_review_status_str SemanticReviewRetryable = ''retryable''"
| "semantic_review_status_str SemanticReviewTerminalFailure = ''terminal_failure''"
| "semantic_review_status_str SemanticReviewSuperseded = ''superseded''"

datatype ResolveAction =
    ResolveAcknowledge
  | ResolveSelectEntity
  | ResolveConfirmNewEntity
  | ResolveSelectPredicate
  | ResolveAccept
  | ResolveReject
  | ResolveCorrect
  | ResolveReleaseQuarantine
  | ResolveForget

primrec resolve_action_str :: "ResolveAction \<Rightarrow> string" where
  "resolve_action_str ResolveAcknowledge = ''acknowledge''"
| "resolve_action_str ResolveSelectEntity = ''select_entity''"
| "resolve_action_str ResolveConfirmNewEntity = ''confirm_new_entity''"
| "resolve_action_str ResolveSelectPredicate = ''select_predicate''"
| "resolve_action_str ResolveAccept = ''accept''"
| "resolve_action_str ResolveReject = ''reject''"
| "resolve_action_str ResolveCorrect = ''correct''"
| "resolve_action_str ResolveReleaseQuarantine = ''release_quarantine''"
| "resolve_action_str ResolveForget = ''forget''"

datatype EntityCorrectionAction =
    EntityCorrectionMerge
  | EntityCorrectionSplit

primrec entity_correction_action_str :: "EntityCorrectionAction \<Rightarrow> string" where
  "entity_correction_action_str EntityCorrectionMerge = ''merge''"
| "entity_correction_action_str EntityCorrectionSplit = ''split''"

datatype PublicErrorCode =
    ErrorInvalidInput
  | ErrorUnauthorizedScope
  | ErrorWrongOwner
  | ErrorConflict
  | ErrorProviderUnavailable
  | ErrorProviderMalformed
  | ErrorDegraded

primrec public_error_code_str :: "PublicErrorCode \<Rightarrow> string" where
  "public_error_code_str ErrorInvalidInput = ''invalid_input''"
| "public_error_code_str ErrorUnauthorizedScope = ''unauthorized_scope''"
| "public_error_code_str ErrorWrongOwner = ''wrong_owner''"
| "public_error_code_str ErrorConflict = ''conflict''"
| "public_error_code_str ErrorProviderUnavailable = ''provider_unavailable''"
| "public_error_code_str ErrorProviderMalformed = ''provider_malformed''"
| "public_error_code_str ErrorDegraded = ''degraded''"

datatype EmbeddingFailureClass =
    EmbeddingFailureTransient
  | EmbeddingFailureProviderAction
  | EmbeddingFailurePermanent

primrec embedding_failure_class_str :: "EmbeddingFailureClass \<Rightarrow> string" where
  "embedding_failure_class_str EmbeddingFailureTransient = ''transient''"
| "embedding_failure_class_str EmbeddingFailureProviderAction = ''provider_action_required''"
| "embedding_failure_class_str EmbeddingFailurePermanent = ''permanent''"

datatype EmbeddingFailureCode =
    EmbeddingFailureProviderRateLimited
  | EmbeddingFailureProviderTimeout
  | EmbeddingFailureProviderNetworkError
  | EmbeddingFailureProviderServerError
  | EmbeddingFailureProviderQuotaExhausted
  | EmbeddingFailureProviderAuthentication
  | EmbeddingFailureProviderPermissionDenied
  | EmbeddingFailureProviderContractRejected
  | EmbeddingFailureProviderResponseInvalid
  | EmbeddingFailureInputRejected
  | EmbeddingFailureContractMismatch
  | EmbeddingFailureUnknown

primrec embedding_failure_code_str :: "EmbeddingFailureCode \<Rightarrow> string" where
  "embedding_failure_code_str EmbeddingFailureProviderRateLimited = ''provider_rate_limited''"
| "embedding_failure_code_str EmbeddingFailureProviderTimeout = ''provider_timeout''"
| "embedding_failure_code_str EmbeddingFailureProviderNetworkError = ''provider_network_error''"
| "embedding_failure_code_str EmbeddingFailureProviderServerError = ''provider_server_error''"
| "embedding_failure_code_str EmbeddingFailureProviderQuotaExhausted = ''provider_quota_exhausted''"
| "embedding_failure_code_str EmbeddingFailureProviderAuthentication = ''provider_authentication_failed''"
| "embedding_failure_code_str EmbeddingFailureProviderPermissionDenied = ''provider_permission_denied''"
| "embedding_failure_code_str EmbeddingFailureProviderContractRejected = ''provider_contract_rejected''"
| "embedding_failure_code_str EmbeddingFailureProviderResponseInvalid = ''provider_response_invalid''"
| "embedding_failure_code_str EmbeddingFailureInputRejected = ''embedding_input_rejected''"
| "embedding_failure_code_str EmbeddingFailureContractMismatch = ''embedding_contract_mismatch''"
| "embedding_failure_code_str EmbeddingFailureUnknown = ''unknown_embedding_failure''"

datatype EmbeddingReconciliationRunStatus =
    EmbeddingReconciliationReserved
  | EmbeddingReconciliationRunning
  | EmbeddingReconciliationCompleted
  | EmbeddingReconciliationDeferred
  | EmbeddingReconciliationFailed
  | EmbeddingReconciliationAmbiguous

primrec embedding_reconciliation_run_status_str :: "EmbeddingReconciliationRunStatus \<Rightarrow> string" where
  "embedding_reconciliation_run_status_str EmbeddingReconciliationReserved = ''reserved''"
| "embedding_reconciliation_run_status_str EmbeddingReconciliationRunning = ''running''"
| "embedding_reconciliation_run_status_str EmbeddingReconciliationCompleted = ''completed''"
| "embedding_reconciliation_run_status_str EmbeddingReconciliationDeferred = ''deferred''"
| "embedding_reconciliation_run_status_str EmbeddingReconciliationFailed = ''failed''"
| "embedding_reconciliation_run_status_str EmbeddingReconciliationAmbiguous = ''ambiguous''"

section \<open>Listing functions\<close>

definition ResolveActions :: "string list" where
  "ResolveActions = map resolve_action_str
     [ResolveAcknowledge,
      ResolveSelectEntity,
      ResolveConfirmNewEntity,
      ResolveSelectPredicate,
      ResolveAccept,
      ResolveReject,
      ResolveCorrect,
      ResolveReleaseQuarantine,
      ResolveForget]"

definition RelationshipKinds :: "string list" where
  "RelationshipKinds = map relationship_kind_str
     [RelationshipKindState,
      RelationshipKindEvent]"

definition RelationshipStatuses :: "string list" where
  "RelationshipStatuses = map relationship_status_str
     [RelationshipStatusPendingEvidence,
      RelationshipStatusActive,
      RelationshipStatusNeedsReview,
      RelationshipStatusRejected,
      RelationshipStatusRetracted,
      RelationshipStatusSuperseded,
      RelationshipStatusQuarantined,
      RelationshipStatusDisputed]"

definition CurrentCardinalities :: "string list" where
  "CurrentCardinalities = map current_cardinality_str
     [CurrentCardinalityOne,
      CurrentCardinalityMany]"

definition PredicateLifecycleStates :: "string list" where
  "PredicateLifecycleStates = map predicate_lifecycle_state_str
     [PredicateLifecycleActive,
      PredicateLifecycleDeprecated,
      PredicateLifecycleRetired]"

definition VerificationVerdicts :: "string list" where
  "VerificationVerdicts = map verification_verdict_str
     [VerificationEntailed,
      VerificationContradicted,
      VerificationInsufficient]"

definition EntityResolutionActions :: "string list" where
  "EntityResolutionActions = map entity_resolution_action_str
     [EntityResolutionReuse,
      EntityResolutionCreate,
      EntityResolutionAmbiguous]"

definition SupportDecisions :: "string list" where
  "SupportDecisions = map support_decision_str
     [SupportGrant,
      SupportRevoke,
      SupportReinstate]"

definition CrossReferenceKinds :: "string list" where
  "CrossReferenceKinds = map cross_reference_kind_str
     [CrossReferenceConfirms,
      CrossReferenceChallenges,
      CrossReferenceCorrects,
      CrossReferenceAdoptsEvidenceFrom]"

definition HypothesisStatuses :: "string list" where
  "HypothesisStatuses = map hypothesis_status_str
     [HypothesisProposed,
      HypothesisReinforced,
      HypothesisStale,
      HypothesisRejected,
      HypothesisSubmitted]"

definition EntityCorrectionActions :: "string list" where
  "EntityCorrectionActions = map entity_correction_action_str
     [EntityCorrectionMerge,
      EntityCorrectionSplit]"

definition RelationshipOutcomeCategories :: "string list" where
  "RelationshipOutcomeCategories = map relationship_outcome_category_str
     [OutcomeRelationshipAccepted,
      OutcomeRelationshipPendingEvidence,
      OutcomeRelationshipNeedsReview,
      OutcomePredicateNeedsReview,
      OutcomeRelationshipRejected,
      OutcomeIdentityNeedsReview]"

definition SemanticReviewStatuses :: "string list" where
  "SemanticReviewStatuses = map semantic_review_status_str
     [SemanticReviewAccepted,
      SemanticReviewQuarantined,
      SemanticReviewRejected,
      SemanticReviewRetryable,
      SemanticReviewTerminalFailure,
      SemanticReviewSuperseded]"

definition EvidenceItemCategories :: "string list" where
  "EvidenceItemCategories = map evidence_item_category_str
     [EvidenceProcessed,
      EvidenceQuarantined,
      EvidenceProcessingFailed]"

definition EntityKinds :: "string list" where
  "EntityKinds = map entity_kind_str
     [EntityKindPerson,
      EntityKindOrganization,
      EntityKindProject,
      EntityKindProduct,
      EntityKindPlace,
      EntityKindDocument,
      EntityKindConcept,
      EntityKindOther]"

definition ValueTypes :: "string list" where
  "ValueTypes = map value_type_str
     [ValueTypeString,
      ValueTypeNumber,
      ValueTypeBoolean,
      ValueTypeDate,
      ValueTypeDateTime]"

definition SearchProjectionStates :: "string list" where
  "SearchProjectionStates = map search_projection_state_str
     [SearchProjectionNotRequired,
      SearchProjectionPending,
      SearchProjectionCurrent,
      SearchProjectionFailed]"

definition SearchIndexGenerationStates :: "string list" where
  "SearchIndexGenerationStates = map search_index_generation_state_str
     [SearchIndexGenerationBuilding,
      SearchIndexGenerationActive,
      SearchIndexGenerationFailed,
      SearchIndexGenerationDeprecated,
      SearchIndexGenerationRetired]"

definition VectorDistanceMetrics :: "string list" where
  "VectorDistanceMetrics = map vector_distance_metric_str
     [VectorDistanceCosine]"

definition VectorIndexStrategies :: "string list" where
  "VectorIndexStrategies = map vector_index_strategy_str
     [VectorIndexExact,
      VectorIndexVectorHNSW,
      VectorIndexHalfvecHNSW,
      VectorIndexBinaryHNSW]"

definition EmbeddingFailureClasses :: "string list" where
  "EmbeddingFailureClasses = map embedding_failure_class_str
     [EmbeddingFailureTransient,
      EmbeddingFailureProviderAction,
      EmbeddingFailurePermanent]"

definition EmbeddingFailureCodes :: "string list" where
  "EmbeddingFailureCodes = map embedding_failure_code_str
     [EmbeddingFailureProviderRateLimited,
      EmbeddingFailureProviderTimeout,
      EmbeddingFailureProviderNetworkError,
      EmbeddingFailureProviderServerError,
      EmbeddingFailureProviderQuotaExhausted,
      EmbeddingFailureProviderAuthentication,
      EmbeddingFailureProviderPermissionDenied,
      EmbeddingFailureProviderContractRejected,
      EmbeddingFailureProviderResponseInvalid,
      EmbeddingFailureInputRejected,
      EmbeddingFailureContractMismatch,
      EmbeddingFailureUnknown]"

definition RelationshipConflictStatuses :: "string list" where
  "RelationshipConflictStatuses = map relationship_conflict_status_str
     [RelationshipConflictOpen,
      RelationshipConflictOverdue,
      RelationshipConflictResolved,
      RelationshipConflictDismissed]"

definition RelationshipConflictKinds :: "string list" where
  "RelationshipConflictKinds = map relationship_conflict_kind_str
     [RelationshipConflictCrossProfileCurrentState]"

definition RelationshipConflictPositionDispositions :: "string list" where
  "RelationshipConflictPositionDispositions = map relationship_conflict_position_disposition_str
     [RelationshipConflictPositionCandidate,
      RelationshipConflictPositionPreferred,
      RelationshipConflictPositionSuppressedCurrent]"

section \<open>Search-projection states and embedding failures\<close>

definition CombineSearchProjectionStates :: "string \<Rightarrow> string \<Rightarrow> string" where
  "CombineSearchProjectionStates left right =
     (if left = search_projection_state_str SearchProjectionFailed \<or>
         right = search_projection_state_str SearchProjectionFailed
      then search_projection_state_str SearchProjectionFailed
      else if left = search_projection_state_str SearchProjectionPending \<or>
              right = search_projection_state_str SearchProjectionPending
      then search_projection_state_str SearchProjectionPending
      else if left = search_projection_state_str SearchProjectionCurrent \<or>
              right = search_projection_state_str SearchProjectionCurrent
      then search_projection_state_str SearchProjectionCurrent
      else if left = search_projection_state_str SearchProjectionNotRequired \<or>
              right = search_projection_state_str SearchProjectionNotRequired
      then search_projection_state_str SearchProjectionNotRequired
      else if left = '''' then right
      else left)"

definition EmbeddingFailureCodeValid :: "string \<Rightarrow> bool" where
  "EmbeddingFailureCodeValid code \<longleftrightarrow> code \<in> set EmbeddingFailureCodes"

definition EmbeddingFailureContractValid :: "string \<Rightarrow> string \<Rightarrow> bool" where
  "EmbeddingFailureContractValid cls code =
     (if cls = embedding_failure_class_str EmbeddingFailureTransient then
        code = embedding_failure_code_str EmbeddingFailureProviderRateLimited \<or>
        code = embedding_failure_code_str EmbeddingFailureProviderTimeout \<or>
        code = embedding_failure_code_str EmbeddingFailureProviderNetworkError \<or>
        code = embedding_failure_code_str EmbeddingFailureProviderServerError
      else if cls = embedding_failure_class_str EmbeddingFailureProviderAction then
        code = embedding_failure_code_str EmbeddingFailureProviderQuotaExhausted \<or>
        code = embedding_failure_code_str EmbeddingFailureProviderAuthentication \<or>
        code = embedding_failure_code_str EmbeddingFailureProviderPermissionDenied \<or>
        code = embedding_failure_code_str EmbeddingFailureProviderContractRejected \<or>
        code = embedding_failure_code_str EmbeddingFailureProviderResponseInvalid
      else if cls = embedding_failure_class_str EmbeddingFailurePermanent then
        code = embedding_failure_code_str EmbeddingFailureInputRejected \<or>
        code = embedding_failure_code_str EmbeddingFailureContractMismatch \<or>
        code = embedding_failure_code_str EmbeddingFailureUnknown
      else False)"

definition EmbeddingFailureMessage :: "string \<Rightarrow> string" where
  "EmbeddingFailureMessage code =
     (if code = embedding_failure_code_str EmbeddingFailureProviderRateLimited
      then ''embedding provider rate limited''
      else if code = embedding_failure_code_str EmbeddingFailureProviderTimeout
      then ''embedding provider timed out''
      else if code = embedding_failure_code_str EmbeddingFailureProviderNetworkError
      then ''embedding provider network failure''
      else if code = embedding_failure_code_str EmbeddingFailureProviderServerError
      then ''embedding provider server failure''
      else if code = embedding_failure_code_str EmbeddingFailureProviderQuotaExhausted
      then ''embedding provider quota exhausted''
      else if code = embedding_failure_code_str EmbeddingFailureProviderAuthentication
      then ''embedding provider authentication failed''
      else if code = embedding_failure_code_str EmbeddingFailureProviderPermissionDenied
      then ''embedding provider permission denied''
      else if code = embedding_failure_code_str EmbeddingFailureProviderContractRejected
      then ''embedding provider contract rejected''
      else if code = embedding_failure_code_str EmbeddingFailureProviderResponseInvalid
      then ''embedding provider response invalid''
      else if code = embedding_failure_code_str EmbeddingFailureInputRejected
      then ''embedding input rejected''
      else if code = embedding_failure_code_str EmbeddingFailureContractMismatch
      then ''embedding contract mismatch''
      else ''embedding processing failed'')"

section \<open>Lemmas\<close>

text \<open>Every constant of a vocabulary is listed, and no text is listed twice.\<close>

lemma ResolveActions_exact [go_simps]: "range resolve_action_str = set ResolveActions"
proof (rule equalityI)
  have "resolve_action_str x \<in> set ResolveActions" for x by (cases x) (simp_all add: ResolveActions_def)
  then show "range resolve_action_str \<subseteq> set ResolveActions" by blast
  show "set ResolveActions \<subseteq> range resolve_action_str" unfolding ResolveActions_def set_map by (rule image_mono) simp
qed

lemma ResolveActions_distinct [go_simps]: "distinct ResolveActions"
  by (simp add: ResolveActions_def)

lemma RelationshipKinds_exact [go_simps]: "range relationship_kind_str = set RelationshipKinds"
proof (rule equalityI)
  have "relationship_kind_str x \<in> set RelationshipKinds" for x by (cases x) (simp_all add: RelationshipKinds_def)
  then show "range relationship_kind_str \<subseteq> set RelationshipKinds" by blast
  show "set RelationshipKinds \<subseteq> range relationship_kind_str" unfolding RelationshipKinds_def set_map by (rule image_mono) simp
qed

lemma RelationshipKinds_distinct [go_simps]: "distinct RelationshipKinds"
  by (simp add: RelationshipKinds_def)

lemma RelationshipStatuses_exact [go_simps]: "range relationship_status_str = set RelationshipStatuses"
proof (rule equalityI)
  have "relationship_status_str x \<in> set RelationshipStatuses" for x by (cases x) (simp_all add: RelationshipStatuses_def)
  then show "range relationship_status_str \<subseteq> set RelationshipStatuses" by blast
  show "set RelationshipStatuses \<subseteq> range relationship_status_str" unfolding RelationshipStatuses_def set_map by (rule image_mono) simp
qed

lemma RelationshipStatuses_distinct [go_simps]: "distinct RelationshipStatuses"
  by (simp add: RelationshipStatuses_def)

lemma CurrentCardinalities_exact [go_simps]: "range current_cardinality_str = set CurrentCardinalities"
proof (rule equalityI)
  have "current_cardinality_str x \<in> set CurrentCardinalities" for x by (cases x) (simp_all add: CurrentCardinalities_def)
  then show "range current_cardinality_str \<subseteq> set CurrentCardinalities" by blast
  show "set CurrentCardinalities \<subseteq> range current_cardinality_str" unfolding CurrentCardinalities_def set_map by (rule image_mono) simp
qed

lemma CurrentCardinalities_distinct [go_simps]: "distinct CurrentCardinalities"
  by (simp add: CurrentCardinalities_def)

lemma PredicateLifecycleStates_exact [go_simps]: "range predicate_lifecycle_state_str = set PredicateLifecycleStates"
proof (rule equalityI)
  have "predicate_lifecycle_state_str x \<in> set PredicateLifecycleStates" for x by (cases x) (simp_all add: PredicateLifecycleStates_def)
  then show "range predicate_lifecycle_state_str \<subseteq> set PredicateLifecycleStates" by blast
  show "set PredicateLifecycleStates \<subseteq> range predicate_lifecycle_state_str" unfolding PredicateLifecycleStates_def set_map by (rule image_mono) simp
qed

lemma PredicateLifecycleStates_distinct [go_simps]: "distinct PredicateLifecycleStates"
  by (simp add: PredicateLifecycleStates_def)

lemma VerificationVerdicts_exact [go_simps]: "range verification_verdict_str = set VerificationVerdicts"
proof (rule equalityI)
  have "verification_verdict_str x \<in> set VerificationVerdicts" for x by (cases x) (simp_all add: VerificationVerdicts_def)
  then show "range verification_verdict_str \<subseteq> set VerificationVerdicts" by blast
  show "set VerificationVerdicts \<subseteq> range verification_verdict_str" unfolding VerificationVerdicts_def set_map by (rule image_mono) simp
qed

lemma VerificationVerdicts_distinct [go_simps]: "distinct VerificationVerdicts"
  by (simp add: VerificationVerdicts_def)

lemma EntityResolutionActions_exact [go_simps]: "range entity_resolution_action_str = set EntityResolutionActions"
proof (rule equalityI)
  have "entity_resolution_action_str x \<in> set EntityResolutionActions" for x by (cases x) (simp_all add: EntityResolutionActions_def)
  then show "range entity_resolution_action_str \<subseteq> set EntityResolutionActions" by blast
  show "set EntityResolutionActions \<subseteq> range entity_resolution_action_str" unfolding EntityResolutionActions_def set_map by (rule image_mono) simp
qed

lemma EntityResolutionActions_distinct [go_simps]: "distinct EntityResolutionActions"
  by (simp add: EntityResolutionActions_def)

lemma SupportDecisions_exact [go_simps]: "range support_decision_str = set SupportDecisions"
proof (rule equalityI)
  have "support_decision_str x \<in> set SupportDecisions" for x by (cases x) (simp_all add: SupportDecisions_def)
  then show "range support_decision_str \<subseteq> set SupportDecisions" by blast
  show "set SupportDecisions \<subseteq> range support_decision_str" unfolding SupportDecisions_def set_map by (rule image_mono) simp
qed

lemma SupportDecisions_distinct [go_simps]: "distinct SupportDecisions"
  by (simp add: SupportDecisions_def)

lemma CrossReferenceKinds_exact [go_simps]: "range cross_reference_kind_str = set CrossReferenceKinds"
proof (rule equalityI)
  have "cross_reference_kind_str x \<in> set CrossReferenceKinds" for x by (cases x) (simp_all add: CrossReferenceKinds_def)
  then show "range cross_reference_kind_str \<subseteq> set CrossReferenceKinds" by blast
  show "set CrossReferenceKinds \<subseteq> range cross_reference_kind_str" unfolding CrossReferenceKinds_def set_map by (rule image_mono) simp
qed

lemma CrossReferenceKinds_distinct [go_simps]: "distinct CrossReferenceKinds"
  by (simp add: CrossReferenceKinds_def)

lemma HypothesisStatuses_exact [go_simps]: "range hypothesis_status_str = set HypothesisStatuses"
proof (rule equalityI)
  have "hypothesis_status_str x \<in> set HypothesisStatuses" for x by (cases x) (simp_all add: HypothesisStatuses_def)
  then show "range hypothesis_status_str \<subseteq> set HypothesisStatuses" by blast
  show "set HypothesisStatuses \<subseteq> range hypothesis_status_str" unfolding HypothesisStatuses_def set_map by (rule image_mono) simp
qed

lemma HypothesisStatuses_distinct [go_simps]: "distinct HypothesisStatuses"
  by (simp add: HypothesisStatuses_def)

lemma EntityCorrectionActions_exact [go_simps]: "range entity_correction_action_str = set EntityCorrectionActions"
proof (rule equalityI)
  have "entity_correction_action_str x \<in> set EntityCorrectionActions" for x by (cases x) (simp_all add: EntityCorrectionActions_def)
  then show "range entity_correction_action_str \<subseteq> set EntityCorrectionActions" by blast
  show "set EntityCorrectionActions \<subseteq> range entity_correction_action_str" unfolding EntityCorrectionActions_def set_map by (rule image_mono) simp
qed

lemma EntityCorrectionActions_distinct [go_simps]: "distinct EntityCorrectionActions"
  by (simp add: EntityCorrectionActions_def)

lemma RelationshipOutcomeCategories_exact [go_simps]: "range relationship_outcome_category_str = set RelationshipOutcomeCategories"
proof (rule equalityI)
  have "relationship_outcome_category_str x \<in> set RelationshipOutcomeCategories" for x by (cases x) (simp_all add: RelationshipOutcomeCategories_def)
  then show "range relationship_outcome_category_str \<subseteq> set RelationshipOutcomeCategories" by blast
  show "set RelationshipOutcomeCategories \<subseteq> range relationship_outcome_category_str" unfolding RelationshipOutcomeCategories_def set_map by (rule image_mono) simp
qed

lemma RelationshipOutcomeCategories_distinct [go_simps]: "distinct RelationshipOutcomeCategories"
  by (simp add: RelationshipOutcomeCategories_def)

lemma SemanticReviewStatuses_exact [go_simps]: "range semantic_review_status_str = set SemanticReviewStatuses"
proof (rule equalityI)
  have "semantic_review_status_str x \<in> set SemanticReviewStatuses" for x by (cases x) (simp_all add: SemanticReviewStatuses_def)
  then show "range semantic_review_status_str \<subseteq> set SemanticReviewStatuses" by blast
  show "set SemanticReviewStatuses \<subseteq> range semantic_review_status_str" unfolding SemanticReviewStatuses_def set_map by (rule image_mono) simp
qed

lemma SemanticReviewStatuses_distinct [go_simps]: "distinct SemanticReviewStatuses"
  by (simp add: SemanticReviewStatuses_def)

lemma EvidenceItemCategories_exact [go_simps]: "range evidence_item_category_str = set EvidenceItemCategories"
proof (rule equalityI)
  have "evidence_item_category_str x \<in> set EvidenceItemCategories" for x by (cases x) (simp_all add: EvidenceItemCategories_def)
  then show "range evidence_item_category_str \<subseteq> set EvidenceItemCategories" by blast
  show "set EvidenceItemCategories \<subseteq> range evidence_item_category_str" unfolding EvidenceItemCategories_def set_map by (rule image_mono) simp
qed

lemma EvidenceItemCategories_distinct [go_simps]: "distinct EvidenceItemCategories"
  by (simp add: EvidenceItemCategories_def)

lemma EntityKinds_exact [go_simps]: "range entity_kind_str = set EntityKinds"
proof (rule equalityI)
  have "entity_kind_str x \<in> set EntityKinds" for x by (cases x) (simp_all add: EntityKinds_def)
  then show "range entity_kind_str \<subseteq> set EntityKinds" by blast
  show "set EntityKinds \<subseteq> range entity_kind_str" unfolding EntityKinds_def set_map by (rule image_mono) simp
qed

lemma EntityKinds_distinct [go_simps]: "distinct EntityKinds"
  by (simp add: EntityKinds_def)

lemma ValueTypes_exact [go_simps]: "range value_type_str = set ValueTypes"
proof (rule equalityI)
  have "value_type_str x \<in> set ValueTypes" for x by (cases x) (simp_all add: ValueTypes_def)
  then show "range value_type_str \<subseteq> set ValueTypes" by blast
  show "set ValueTypes \<subseteq> range value_type_str" unfolding ValueTypes_def set_map by (rule image_mono) simp
qed

lemma ValueTypes_distinct [go_simps]: "distinct ValueTypes"
  by (simp add: ValueTypes_def)

lemma SearchProjectionStates_exact [go_simps]: "range search_projection_state_str = set SearchProjectionStates"
proof (rule equalityI)
  have "search_projection_state_str x \<in> set SearchProjectionStates" for x by (cases x) (simp_all add: SearchProjectionStates_def)
  then show "range search_projection_state_str \<subseteq> set SearchProjectionStates" by blast
  show "set SearchProjectionStates \<subseteq> range search_projection_state_str" unfolding SearchProjectionStates_def set_map by (rule image_mono) simp
qed

lemma SearchProjectionStates_distinct [go_simps]: "distinct SearchProjectionStates"
  by (simp add: SearchProjectionStates_def)

lemma SearchIndexGenerationStates_exact [go_simps]: "range search_index_generation_state_str = set SearchIndexGenerationStates"
proof (rule equalityI)
  have "search_index_generation_state_str x \<in> set SearchIndexGenerationStates" for x by (cases x) (simp_all add: SearchIndexGenerationStates_def)
  then show "range search_index_generation_state_str \<subseteq> set SearchIndexGenerationStates" by blast
  show "set SearchIndexGenerationStates \<subseteq> range search_index_generation_state_str" unfolding SearchIndexGenerationStates_def set_map by (rule image_mono) simp
qed

lemma SearchIndexGenerationStates_distinct [go_simps]: "distinct SearchIndexGenerationStates"
  by (simp add: SearchIndexGenerationStates_def)

lemma VectorDistanceMetrics_exact [go_simps]: "range vector_distance_metric_str = set VectorDistanceMetrics"
proof (rule equalityI)
  have "vector_distance_metric_str x \<in> set VectorDistanceMetrics" for x by (cases x) (simp_all add: VectorDistanceMetrics_def)
  then show "range vector_distance_metric_str \<subseteq> set VectorDistanceMetrics" by blast
  show "set VectorDistanceMetrics \<subseteq> range vector_distance_metric_str" unfolding VectorDistanceMetrics_def set_map by (rule image_mono) simp
qed

lemma VectorDistanceMetrics_distinct [go_simps]: "distinct VectorDistanceMetrics"
  by (simp add: VectorDistanceMetrics_def)

lemma VectorIndexStrategies_exact [go_simps]: "range vector_index_strategy_str = set VectorIndexStrategies"
proof (rule equalityI)
  have "vector_index_strategy_str x \<in> set VectorIndexStrategies" for x by (cases x) (simp_all add: VectorIndexStrategies_def)
  then show "range vector_index_strategy_str \<subseteq> set VectorIndexStrategies" by blast
  show "set VectorIndexStrategies \<subseteq> range vector_index_strategy_str" unfolding VectorIndexStrategies_def set_map by (rule image_mono) simp
qed

lemma VectorIndexStrategies_distinct [go_simps]: "distinct VectorIndexStrategies"
  by (simp add: VectorIndexStrategies_def)

lemma EmbeddingFailureClasses_exact [go_simps]: "range embedding_failure_class_str = set EmbeddingFailureClasses"
proof (rule equalityI)
  have "embedding_failure_class_str x \<in> set EmbeddingFailureClasses" for x by (cases x) (simp_all add: EmbeddingFailureClasses_def)
  then show "range embedding_failure_class_str \<subseteq> set EmbeddingFailureClasses" by blast
  show "set EmbeddingFailureClasses \<subseteq> range embedding_failure_class_str" unfolding EmbeddingFailureClasses_def set_map by (rule image_mono) simp
qed

lemma EmbeddingFailureClasses_distinct [go_simps]: "distinct EmbeddingFailureClasses"
  by (simp add: EmbeddingFailureClasses_def)

lemma EmbeddingFailureCodes_exact [go_simps]: "range embedding_failure_code_str = set EmbeddingFailureCodes"
proof (rule equalityI)
  have "embedding_failure_code_str x \<in> set EmbeddingFailureCodes" for x by (cases x) (simp_all add: EmbeddingFailureCodes_def)
  then show "range embedding_failure_code_str \<subseteq> set EmbeddingFailureCodes" by blast
  show "set EmbeddingFailureCodes \<subseteq> range embedding_failure_code_str" unfolding EmbeddingFailureCodes_def set_map by (rule image_mono) simp
qed

lemma EmbeddingFailureCodes_distinct [go_simps]: "distinct EmbeddingFailureCodes"
  by (simp add: EmbeddingFailureCodes_def)

lemma RelationshipConflictStatuses_exact [go_simps]: "range relationship_conflict_status_str = set RelationshipConflictStatuses"
proof (rule equalityI)
  have "relationship_conflict_status_str x \<in> set RelationshipConflictStatuses" for x by (cases x) (simp_all add: RelationshipConflictStatuses_def)
  then show "range relationship_conflict_status_str \<subseteq> set RelationshipConflictStatuses" by blast
  show "set RelationshipConflictStatuses \<subseteq> range relationship_conflict_status_str" unfolding RelationshipConflictStatuses_def set_map by (rule image_mono) simp
qed

lemma RelationshipConflictStatuses_distinct [go_simps]: "distinct RelationshipConflictStatuses"
  by (simp add: RelationshipConflictStatuses_def)

lemma RelationshipConflictKinds_exact [go_simps]: "range relationship_conflict_kind_str = set RelationshipConflictKinds"
proof (rule equalityI)
  have "relationship_conflict_kind_str x \<in> set RelationshipConflictKinds" for x by (cases x) (simp_all add: RelationshipConflictKinds_def)
  then show "range relationship_conflict_kind_str \<subseteq> set RelationshipConflictKinds" by blast
  show "set RelationshipConflictKinds \<subseteq> range relationship_conflict_kind_str" unfolding RelationshipConflictKinds_def set_map by (rule image_mono) simp
qed

lemma RelationshipConflictKinds_distinct [go_simps]: "distinct RelationshipConflictKinds"
  by (simp add: RelationshipConflictKinds_def)

lemma RelationshipConflictPositionDispositions_exact [go_simps]: "range relationship_conflict_position_disposition_str = set RelationshipConflictPositionDispositions"
proof (rule equalityI)
  have "relationship_conflict_position_disposition_str x \<in> set RelationshipConflictPositionDispositions" for x by (cases x) (simp_all add: RelationshipConflictPositionDispositions_def)
  then show "range relationship_conflict_position_disposition_str \<subseteq> set RelationshipConflictPositionDispositions" by blast
  show "set RelationshipConflictPositionDispositions \<subseteq> range relationship_conflict_position_disposition_str" unfolding RelationshipConflictPositionDispositions_def set_map by (rule image_mono) simp
qed

lemma RelationshipConflictPositionDispositions_distinct [go_simps]: "distinct RelationshipConflictPositionDispositions"
  by (simp add: RelationshipConflictPositionDispositions_def)

text \<open>The precedence of the projection states, with 0 for the empty and every unknown state.\<close>

definition projection_rank :: "string \<Rightarrow> nat" where
  "projection_rank s =
     (if s = ''failed'' then 4 else if s = ''pending'' then 3 else if s = ''current'' then 2
      else if s = ''not_required'' then 1 else 0)"

lemma rank_of_severest:
  assumes "distinct [f, p, c, n, e]"
    and "rank = (\<lambda>s. if s = f then 4 else if s = p then 3 else if s = c then 2 else if s = n then 1 else (0::nat))"
  shows "rank (if a = f \<or> b = f then f else if a = p \<or> b = p then p else if a = c \<or> b = c then c
    else if a = n \<or> b = n then n else if a = e then b else a) = max (rank a) (rank b)"
  using assms(1) by (auto simp: assms(2))

lemma rank_combine:
  "projection_rank (CombineSearchProjectionStates a b) = max (projection_rank a) (projection_rank b)"
proof -
  have labels: "distinct [''failed'', ''pending'', ''current'', ''not_required'', '''']" by simp
  have rank: "projection_rank = (\<lambda>s. if s = ''failed'' then 4 else if s = ''pending'' then 3
    else if s = ''current'' then 2 else if s = ''not_required'' then 1 else 0)"
    by (rule ext) (simp only: projection_rank_def)
  from rank_of_severest [OF labels rank, of a b] show ?thesis
    unfolding CombineSearchProjectionStates_def search_projection_state_str.simps .
qed

text \<open>The text of a rank, which for a positive rank determines the state.\<close>

lemma projection_rank_inj:
  "projection_rank a = projection_rank b \<Longrightarrow> projection_rank a \<noteq> 0 \<Longrightarrow> a = b"
  by (simp add: projection_rank_def split: if_splits)

lemma combine_unranked:
  "projection_rank a = 0 \<Longrightarrow> projection_rank b = 0 \<Longrightarrow>
     CombineSearchProjectionStates a b = (if a = '''' then b else a)"
  by (simp add: CombineSearchProjectionStates_def projection_rank_def split: if_splits)

lemma combine_assoc:
  "CombineSearchProjectionStates (CombineSearchProjectionStates a b) c =
   CombineSearchProjectionStates a (CombineSearchProjectionStates b c)"
proof (cases "projection_rank a = 0 \<and> projection_rank b = 0 \<and> projection_rank c = 0")
  case True
  then show ?thesis by (simp add: combine_unranked)
next
  case False
  then show ?thesis by (intro projection_rank_inj) (auto simp: rank_combine max.assoc max_def)
qed

section \<open>Properties\<close>

text \<open>
  (vocabulary_listings_exact): no vocabulary listing forgets a constant and none lists a constant
  twice, so a membership test in a listing accepts exactly the declared constants.
\<close>

theorem vocabulary_listings_exact:
  "range resolve_action_str = set ResolveActions \<and> distinct ResolveActions \<and>
   range relationship_kind_str = set RelationshipKinds \<and> distinct RelationshipKinds \<and>
   range relationship_status_str = set RelationshipStatuses \<and> distinct RelationshipStatuses \<and>
   range current_cardinality_str = set CurrentCardinalities \<and> distinct CurrentCardinalities \<and>
   range predicate_lifecycle_state_str = set PredicateLifecycleStates \<and> distinct PredicateLifecycleStates \<and>
   range verification_verdict_str = set VerificationVerdicts \<and> distinct VerificationVerdicts \<and>
   range entity_resolution_action_str = set EntityResolutionActions \<and> distinct EntityResolutionActions \<and>
   range support_decision_str = set SupportDecisions \<and> distinct SupportDecisions \<and>
   range cross_reference_kind_str = set CrossReferenceKinds \<and> distinct CrossReferenceKinds \<and>
   range hypothesis_status_str = set HypothesisStatuses \<and> distinct HypothesisStatuses \<and>
   range entity_correction_action_str = set EntityCorrectionActions \<and> distinct EntityCorrectionActions \<and>
   range relationship_outcome_category_str = set RelationshipOutcomeCategories \<and> distinct RelationshipOutcomeCategories \<and>
   range semantic_review_status_str = set SemanticReviewStatuses \<and> distinct SemanticReviewStatuses \<and>
   range evidence_item_category_str = set EvidenceItemCategories \<and> distinct EvidenceItemCategories \<and>
   range entity_kind_str = set EntityKinds \<and> distinct EntityKinds \<and>
   range value_type_str = set ValueTypes \<and> distinct ValueTypes \<and>
   range search_projection_state_str = set SearchProjectionStates \<and> distinct SearchProjectionStates \<and>
   range search_index_generation_state_str = set SearchIndexGenerationStates \<and> distinct SearchIndexGenerationStates \<and>
   range vector_distance_metric_str = set VectorDistanceMetrics \<and> distinct VectorDistanceMetrics \<and>
   range vector_index_strategy_str = set VectorIndexStrategies \<and> distinct VectorIndexStrategies \<and>
   range embedding_failure_class_str = set EmbeddingFailureClasses \<and> distinct EmbeddingFailureClasses \<and>
   range embedding_failure_code_str = set EmbeddingFailureCodes \<and> distinct EmbeddingFailureCodes \<and>
   range relationship_conflict_status_str = set RelationshipConflictStatuses \<and> distinct RelationshipConflictStatuses \<and>
   range relationship_conflict_kind_str = set RelationshipConflictKinds \<and> distinct RelationshipConflictKinds \<and>
   range relationship_conflict_position_disposition_str = set RelationshipConflictPositionDispositions \<and> distinct RelationshipConflictPositionDispositions"
  by (simp add: go_simps)

text \<open>
  (combine_takes_most_severe): combining the projection states of several documents takes the most
  severe one (failed over pending over current over not required): the rank of the result is the
  maximum of the two ranks for arbitrary strings, and the combination is associative, so folding a
  list of states does not depend on how the list is split.
\<close>

theorem combine_takes_most_severe:
  "projection_rank (CombineSearchProjectionStates a b) = max (projection_rank a) (projection_rank b) \<and>
   CombineSearchProjectionStates (CombineSearchProjectionStates a b) c =
     CombineSearchProjectionStates a (CombineSearchProjectionStates b c)"
  by (simp add: rank_combine combine_assoc)

text \<open>
  (embedding_failure_partition): a failure code is valid exactly when some failure class accepts it,
  and exactly one class does: the class-and-code contract partitions the valid codes.
\<close>

theorem embedding_failure_partition:
  "EmbeddingFailureCodeValid code = (\<exists>!cls. EmbeddingFailureContractValid cls code)"
proof -
  let ?V = "EmbeddingFailureContractValid"
  have classes: "?V cls code \<Longrightarrow> cls = ''transient'' \<or> cls = ''provider_action_required'' \<or> cls = ''permanent''" for cls
    by (simp add: EmbeddingFailureContractValid_def split: if_splits)
  have once: "?V c1 code \<Longrightarrow> ?V c2 code \<Longrightarrow> c1 = c2" for c1 c2
    by (auto simp: EmbeddingFailureContractValid_def split: if_splits)
  have "EmbeddingFailureCodeValid code \<longleftrightarrow>
      ?V ''transient'' code \<or> ?V ''provider_action_required'' code \<or> ?V ''permanent'' code"
    by (auto simp: EmbeddingFailureCodeValid_def EmbeddingFailureCodes_def EmbeddingFailureContractValid_def)
  with classes once show ?thesis by metis
qed

end
