(* ===== verification/Domain_Memory.thy ===== *)
theory Domain_Memory
  imports Domain_Contract
begin

text \<open>
  Memory spaces and who may write to them: the space selection and the read/write capabilities of
  \<open>domain/memory_space.go\<close>, the credential and actor records they are computed from
  (\<open>domain/credential.go\<close>, \<open>domain/sso.go\<close>), IP bans (\<open>domain/security.go\<close>), the team concurrency limit
  (\<open>domain/ontology_maintenance.go\<close>), the retry policy of private-memory erasure
  (\<open>privacy/contract/private_memory.go\<close>) and the owner check of \<open>ownership/ownership.go\<close>.
\<close>

section \<open>Memory spaces\<close>

text \<open>A kind is a string in Go, and a client may send any: it is not closed to the two constants.\<close>

type_synonym MemorySpaceKind = string

definition MemorySpaceTeamShared :: MemorySpaceKind where
  "MemorySpaceTeamShared = ''team_shared''"

definition MemorySpacePrivate :: MemorySpaceKind where
  "MemorySpacePrivate = ''private''"

definition memory_kind_valid :: "MemorySpaceKind \<Rightarrow> bool" where
  "memory_kind_valid k \<longleftrightarrow> k = MemorySpaceTeamShared \<or> k = MemorySpacePrivate"

lemma memory_kinds_distinct [simp]:
  "MemorySpaceTeamShared \<noteq> MemorySpacePrivate" "MemorySpacePrivate \<noteq> MemorySpaceTeamShared"
  "MemorySpaceTeamShared \<noteq> []" "MemorySpacePrivate \<noteq> []"
  "[] \<noteq> MemorySpaceTeamShared" "[] \<noteq> MemorySpacePrivate"
  by (simp_all add: MemorySpaceTeamShared_def MemorySpacePrivate_def)

record memory_space_access =
  spc_ID :: uuid
  spc_Kind :: MemorySpaceKind
  spc_Generation :: int

definition zero_space :: memory_space_access where
  "zero_space = \<lparr>spc_ID = uuid_nil, spc_Kind = [], spc_Generation = 0\<rparr>"

datatype memory_error = ErrMemoryTargetRequired | ErrMemoryTargetInvalid | ErrMemoryWriteDenied
  | ErrMemoryOperationErased

datatype MemorySpaceLifecycleState = MemorySpaceActive | MemorySpaceSealed | MemorySpaceRetired

primrec memory_space_lifecycle_str :: "MemorySpaceLifecycleState \<Rightarrow> string" where
  "memory_space_lifecycle_str MemorySpaceActive = ''active''"
| "memory_space_lifecycle_str MemorySpaceSealed = ''sealed''"
| "memory_space_lifecycle_str MemorySpaceRetired = ''retired''"

definition memory_lifecycle_valid :: "string \<Rightarrow> bool" where
  "memory_lifecycle_valid s \<longleftrightarrow>
     s \<in> set (map memory_space_lifecycle_str [MemorySpaceActive, MemorySpaceSealed, MemorySpaceRetired])"

record memory_permission =
  perm_Read :: bool
  perm_Write :: bool

record memory_access =
  macc_Private :: memory_permission
  macc_TeamShared :: memory_permission

definition no_permission :: memory_permission where
  "no_permission = \<lparr>perm_Read = False, perm_Write = False\<rparr>"

text \<open>
  The loop of \<open>uniqueMemorySpace\<close>: \<open>selected\<close> is the space kept so far, the zero space at first.
  \<open>None\<close> is the early return with \<open>false\<close>.
\<close>

fun unique_space_loop ::
  "MemorySpaceKind \<Rightarrow> memory_space_access \<Rightarrow> memory_space_access list \<Rightarrow> memory_space_access option" where
  "unique_space_loop kind selected [] = (if spc_ID selected \<noteq> uuid_nil then Some selected else None)"
| "unique_space_loop kind selected (space # spaces) =
     (if spc_Kind space \<noteq> kind then unique_space_loop kind selected spaces
      else if spc_ID selected \<noteq> uuid_nil \<or> spc_ID space = uuid_nil \<or> spc_Generation space < 1 then None
      else unique_space_loop kind space spaces)"

definition uniqueMemorySpace ::
  "memory_space_access list \<Rightarrow> MemorySpaceKind \<Rightarrow> memory_space_access option" where
  "uniqueMemorySpace spaces kind = unique_space_loop kind zero_space spaces"

definition compactMemorySpaces :: "memory_space_access list \<Rightarrow> memory_space_access list" where
  "compactMemorySpaces spaces = filter (\<lambda>space. spc_ID space \<noteq> uuid_nil) spaces"

definition kind_permission ::
  "string list \<Rightarrow> memory_space_access list \<Rightarrow> MemorySpaceKind \<Rightarrow> memory_permission" where
  "kind_permission grants spaces kind =
     (let read = ''read'' \<in> set grants;
          write = ''write'' \<in> set grants
      in case uniqueMemorySpace spaces kind of
           None \<Rightarrow> no_permission
         | Some _ \<Rightarrow> \<lparr>perm_Read = read, perm_Write = (read \<and> (kind = MemorySpacePrivate \<or> write))\<rparr>)"

definition MemoryCapabilities :: "string list \<Rightarrow> memory_space_access list \<Rightarrow> memory_access" where
  "MemoryCapabilities grants spaces =
     \<lparr>macc_Private = kind_permission grants spaces MemorySpacePrivate,
      macc_TeamShared = kind_permission grants spaces MemorySpaceTeamShared\<rparr>"

definition ResolveMemoryWriteSpace ::
  "MemorySpaceKind \<Rightarrow> string list \<Rightarrow> memory_space_access list \<Rightarrow> memory_error + memory_space_access" where
  "ResolveMemoryWriteSpace target grants spaces =
     (if target = [] then Inl ErrMemoryTargetRequired
      else if \<not> memory_kind_valid target then Inl ErrMemoryTargetInvalid
      else case uniqueMemorySpace spaces target of
             None \<Rightarrow> Inl ErrMemoryWriteDenied
           | Some space \<Rightarrow>
               (let access = MemoryCapabilities grants spaces
                in if (target = MemorySpacePrivate \<and> \<not> perm_Write (macc_Private access))
                      \<or> (target = MemorySpaceTeamShared \<and> \<not> perm_Write (macc_TeamShared access))
                   then Inl ErrMemoryWriteDenied
                   else Inr space))"

fun AuthorizeMemoryMutation ::
  "uuid \<Rightarrow> string list \<Rightarrow> memory_space_access list \<Rightarrow> memory_error option" where
  "AuthorizeMemoryMutation space_id grants spaces =
     (case filter (\<lambda>s. spc_ID s = space_id) spaces of
        [] \<Rightarrow> Some ErrMemoryWriteDenied
      | space # _ \<Rightarrow>
          (case ResolveMemoryWriteSpace (spc_Kind space) grants spaces of
             Inl e \<Rightarrow> Some e
           | Inr _ \<Rightarrow> None))"

section \<open>Credentials, memberships and actors\<close>

record credential =
  cred_ID :: uuid
  cred_ActorIdentityID :: uuid
  cred_MembershipID :: uuid
  cred_OwnerID :: uuid
  cred_TeamID :: uuid
  cred_TeamName :: string
  cred_Name :: string
  cred_Scopes :: "string list"
  cred_Role :: string
  cred_RateLimit :: int
  cred_ExpiresAt :: "time option"
  cred_RevokedAt :: "time option"
  cred_EffectiveMemoryGrants :: "string list"
  cred_MemorySpaceID :: uuid
  cred_MemorySpaceGeneration :: int
  cred_TeamSharedSpaceID :: uuid
  cred_TeamSharedSpaceGeneration :: int

definition credential_GetRole :: "credential \<Rightarrow> string" where
  "credential_GetRole c = (if cred_Role c \<noteq> [] then cred_Role c else ''member'')"

record membership =
  mem_TeamSharedSpaceID :: uuid
  mem_TeamSharedSpaceGeneration :: int
  mem_ID :: uuid
  mem_MemorySpaceID :: uuid
  mem_MemorySpaceGeneration :: int
  mem_ActorIdentityID :: uuid
  mem_TeamID :: uuid
  mem_OwnerID :: uuid
  mem_Name :: string
  mem_Grants :: "string list"
  mem_Role :: string
  mem_Status :: string

record actor_identity =
  aid_ID :: uuid
  aid_Kind :: string
  aid_DisplayName :: string

record authenticated_actor =
  act_TeamID :: uuid
  act_TeamName :: string
  act_Identity :: actor_identity
  act_Membership :: membership
  act_OwnerID :: uuid
  act_Credential :: "credential option"

text \<open>A method on a nil \<open>*Credential\<close> sees \<open>None\<close>.\<close>

definition credential_MemorySpaces :: "credential option \<Rightarrow> memory_space_access list" where
  "credential_MemorySpaces c =
     (case c of
        None \<Rightarrow> []
      | Some c \<Rightarrow> compactMemorySpaces
          [\<lparr>spc_ID = cred_TeamSharedSpaceID c, spc_Kind = MemorySpaceTeamShared,
            spc_Generation = cred_TeamSharedSpaceGeneration c\<rparr>,
           \<lparr>spc_ID = cred_MemorySpaceID c, spc_Kind = MemorySpacePrivate,
            spc_Generation = cred_MemorySpaceGeneration c\<rparr>])"

definition credential_MemoryCapabilities :: "credential option \<Rightarrow> memory_access" where
  "credential_MemoryCapabilities c =
     (case c of
        None \<Rightarrow> \<lparr>macc_Private = no_permission, macc_TeamShared = no_permission\<rparr>
      | Some cr \<Rightarrow> MemoryCapabilities (cred_EffectiveMemoryGrants cr) (credential_MemorySpaces c))"

definition membership_MemorySpaces :: "membership \<Rightarrow> memory_space_access list" where
  "membership_MemorySpaces m = compactMemorySpaces
     [\<lparr>spc_ID = mem_TeamSharedSpaceID m, spc_Kind = MemorySpaceTeamShared,
       spc_Generation = mem_TeamSharedSpaceGeneration m\<rparr>,
      \<lparr>spc_ID = mem_MemorySpaceID m, spc_Kind = MemorySpacePrivate,
       spc_Generation = mem_MemorySpaceGeneration m\<rparr>]"

definition AuthenticatedActorFromCredential :: "credential option \<Rightarrow> authenticated_actor option" where
  "AuthenticatedActorFromCredential c =
     (case c of
        None \<Rightarrow> None
      | Some cr \<Rightarrow> Some
          \<lparr>act_TeamID = cred_TeamID cr, act_TeamName = cred_TeamName cr,
           act_Identity = \<lparr>aid_ID = cred_ActorIdentityID cr, aid_Kind = ''api_client'',
                           aid_DisplayName = cred_Name cr\<rparr>,
           act_Membership =
             \<lparr>mem_TeamSharedSpaceID = uuid_nil, mem_TeamSharedSpaceGeneration = 0,
              mem_ID = cred_MembershipID cr, mem_MemorySpaceID = uuid_nil,
              mem_MemorySpaceGeneration = 0, mem_ActorIdentityID = cred_ActorIdentityID cr,
              mem_TeamID = cred_TeamID cr, mem_OwnerID = cred_OwnerID cr, mem_Name = cred_Name cr,
              mem_Grants = cred_Scopes cr, mem_Role = credential_GetRole cr,
              mem_Status = ''active''\<rparr>,
           act_OwnerID = cred_OwnerID cr, act_Credential = Some cr\<rparr>)"

section \<open>Bans, concurrency, retries, owners\<close>

record security_ip_ban =
  ban_IP :: string
  ban_ExpiresAt :: "time option"
  ban_RevokedAt :: "time option"

definition ban_ActiveAt :: "security_ip_ban \<Rightarrow> time \<Rightarrow> bool" where
  "ban_ActiveAt b now =
     (case ban_RevokedAt b of
        Some _ \<Rightarrow> False
      | None \<Rightarrow> (case ban_ExpiresAt b of None \<Rightarrow> True | Some e \<Rightarrow> e > now))"

record team_concurrency_override =
  tco_TeamID :: string
  tco_MaxConcurrency :: int

record maintenance_config =
  omc_Enabled :: bool
  omc_CadenceHours :: int
  omc_StartTimeLocal :: string
  omc_Timezone :: string
  omc_Model :: string
  omc_MaxConcurrency :: int
  omc_TeamMaxConcurrency :: int
  omc_TeamConcurrencyOverrides :: "team_concurrency_override list"
  omc_ContextWindowTokens :: int
  omc_SettingsVersion :: string

definition TeamConcurrency :: "maintenance_config \<Rightarrow> string \<Rightarrow> int" where
  "TeamConcurrency c team_id =
     (let limit = (if omc_TeamMaxConcurrency c = 0 then 1 else omc_TeamMaxConcurrency c);
          limit = (case filter (\<lambda>ov. tco_TeamID ov = team_id) (omc_TeamConcurrencyOverrides c) of
                     [] \<Rightarrow> limit
                   | ov # _ \<Rightarrow> tco_MaxConcurrency ov)
      in min limit (omc_MaxConcurrency c))"

definition MaximumAttempts :: int where "MaximumAttempts = 5"
definition retryBaseDelay :: int where "retryBaseDelay = 1000000000"
definition retryMaximumDelay :: int where "retryMaximumDelay = 60000000000"

text \<open>The loop doubles the delay from attempt 1 to \<open>attemptCount - 1\<close>; \<open>n\<close> is the iterations left.\<close>

fun retry_delay_loop :: "nat \<Rightarrow> int \<Rightarrow> int" where
  "retry_delay_loop 0 delay = delay"
| "retry_delay_loop (Suc n) delay =
     (if delay \<ge> retryMaximumDelay div 2 then retryMaximumDelay
      else retry_delay_loop n (delay * 2))"

definition RetryDelay :: "int \<Rightarrow> int" where
  "RetryDelay attempt_count = retry_delay_loop (nat (attempt_count - 1)) retryBaseDelay"

datatype PrivateMemoryErasureStatus = PrivateMemoryErasureQueued | PrivateMemoryErasureProcessing
  | PrivateMemoryErasureCompleted | PrivateMemoryErasureFailed

record retry_decision =
  rd_Status :: PrivateMemoryErasureStatus
  rd_NextAttemptAt :: "time option"

definition DecideRetry :: "int \<Rightarrow> time \<Rightarrow> retry_decision" where
  "DecideRetry attempt_count now =
     (if attempt_count \<ge> MaximumAttempts
      then \<lparr>rd_Status = PrivateMemoryErasureFailed, rd_NextAttemptAt = None\<rparr>
      else \<lparr>rd_Status = PrivateMemoryErasureQueued,
            rd_NextAttemptAt = Some (now + RetryDelay attempt_count)\<rparr>)"

text \<open>The actor's owner is the empty string when the context carries no public actor.\<close>

datatype ownership_error = ErrOwnerMismatch

definition RequireOwner :: "string \<Rightarrow> string \<Rightarrow> ownership_error option" where
  "RequireOwner actor_owner_id owner_id =
     (if actor_owner_id = [] then None
      else if owner_id = [] \<or> owner_id \<noteq> actor_owner_id then Some ErrOwnerMismatch
      else None)"

section \<open>Selection of the unique space\<close>

lemma unique_space_loop_selected:
  assumes "spc_ID selected \<noteq> uuid_nil"
  shows "unique_space_loop kind selected spaces =
     (if filter (\<lambda>s. spc_Kind s = kind) spaces = [] then Some selected else None)"
  using assms by (induction spaces) auto

lemma unique_space_loop_zero:
  "unique_space_loop kind zero_space spaces =
     (case filter (\<lambda>s. spc_Kind s = kind) spaces of
        [s] \<Rightarrow> if spc_ID s \<noteq> uuid_nil \<and> spc_Generation s \<ge> 1 then Some s else None
      | _ \<Rightarrow> None)"
  by (induction spaces) (auto simp: zero_space_def unique_space_loop_selected split: list.splits)

text \<open>The space is found exactly when the list holds one space of the kind, usable as it is.\<close>

definition sole_space :: "memory_space_access list \<Rightarrow> MemorySpaceKind \<Rightarrow> memory_space_access \<Rightarrow> bool" where
  "sole_space spaces kind s \<longleftrightarrow>
     filter (\<lambda>x. spc_Kind x = kind) spaces = [s] \<and> spc_ID s \<noteq> uuid_nil \<and> spc_Generation s \<ge> 1"

lemma uniqueMemorySpace_iff:
  "uniqueMemorySpace spaces kind = Some s \<longleftrightarrow> sole_space spaces kind s"
  by (auto simp: uniqueMemorySpace_def unique_space_loop_zero sole_space_def split: list.splits)

lemma sole_space_mem: "sole_space spaces kind s \<Longrightarrow> s \<in> set spaces \<and> spc_Kind s = kind"
proof -
  assume "sole_space spaces kind s"
  then have "s \<in> set (filter (\<lambda>x. spc_Kind x = kind) spaces)" by (simp add: sole_space_def)
  then show ?thesis by simp
qed

lemma sole_space_only:
  "sole_space spaces kind s \<Longrightarrow> t \<in> set spaces \<Longrightarrow> spc_Kind t = kind \<Longrightarrow> t = s"
proof -
  assume "sole_space spaces kind s" "t \<in> set spaces" "spc_Kind t = kind"
  then have "t \<in> set (filter (\<lambda>x. spc_Kind x = kind) spaces)" by simp
  with \<open>sole_space spaces kind s\<close> show ?thesis by (simp add: sole_space_def)
qed

section \<open>Capabilities and write resolution\<close>

lemma kind_permission_write:
  "perm_Write (kind_permission grants spaces kind) \<longleftrightarrow>
     (\<exists>s. sole_space spaces kind s) \<and> ''read'' \<in> set grants
     \<and> (kind = MemorySpacePrivate \<or> ''write'' \<in> set grants)"
  by (cases "uniqueMemorySpace spaces kind")
    (auto simp: kind_permission_def no_permission_def Let_def uniqueMemorySpace_iff [symmetric])

lemma kind_permission_read:
  "perm_Read (kind_permission grants spaces kind) \<longleftrightarrow>
     (\<exists>s. sole_space spaces kind s) \<and> ''read'' \<in> set grants"
  by (cases "uniqueMemorySpace spaces kind")
    (auto simp: kind_permission_def no_permission_def Let_def uniqueMemorySpace_iff [symmetric])

definition may_write :: "string list \<Rightarrow> MemorySpaceKind \<Rightarrow> bool" where
  "may_write grants kind \<longleftrightarrow>
     ''read'' \<in> set grants \<and> (kind = MemorySpacePrivate \<or> ''write'' \<in> set grants)"

lemma ResolveMemoryWriteSpace_valid:
  assumes "memory_kind_valid target"
  shows "ResolveMemoryWriteSpace target grants spaces =
    (case uniqueMemorySpace spaces target of
       None \<Rightarrow> Inl ErrMemoryWriteDenied
     | Some s \<Rightarrow> if may_write grants target then Inr s else Inl ErrMemoryWriteDenied)"
proof (cases "uniqueMemorySpace spaces target")
  case None
  with assms show ?thesis by (auto simp: ResolveMemoryWriteSpace_def memory_kind_valid_def)
next
  case (Some s)
  then have "\<exists>s. sole_space spaces target s" using uniqueMemorySpace_iff by blast
  with assms Some show ?thesis
    by (auto simp: ResolveMemoryWriteSpace_def memory_kind_valid_def MemoryCapabilities_def
        kind_permission_write may_write_def Let_def)
qed

lemma ResolveMemoryWriteSpace_Inr:
  "ResolveMemoryWriteSpace target grants spaces = Inr s \<longleftrightarrow>
     memory_kind_valid target \<and> sole_space spaces target s \<and> may_write grants target"
proof (cases "memory_kind_valid target")
  case True
  then show ?thesis
    by (auto simp: ResolveMemoryWriteSpace_valid uniqueMemorySpace_iff [symmetric] split: option.splits)
next
  case False
  then show ?thesis by (simp add: ResolveMemoryWriteSpace_def)
qed

lemma ResolveMemoryWriteSpace_Inl:
  "ResolveMemoryWriteSpace target grants spaces = Inl e \<longleftrightarrow>
     (if target = [] then e = ErrMemoryTargetRequired
      else if \<not> memory_kind_valid target then e = ErrMemoryTargetInvalid
      else e = ErrMemoryWriteDenied
           \<and> \<not> ((\<exists>s. sole_space spaces target s) \<and> may_write grants target))"
proof (cases "memory_kind_valid target")
  case True
  then have "target \<noteq> []" by (auto simp: memory_kind_valid_def)
  with True show ?thesis
    by (auto simp: ResolveMemoryWriteSpace_valid uniqueMemorySpace_iff [symmetric] split: option.splits)
next
  case False
  then show ?thesis by (auto simp: ResolveMemoryWriteSpace_def)
qed

text \<open>(write_resolution_exact): resolving a write target returns a space exactly when the target
  is one of the two kinds, the caller holds exactly one space of that kind with a non-nil id and a
  generation of at least one, and the grants allow it (read for private memory, read and write for
  shared memory); every other call returns the error that names the first failed condition.\<close>

theorem write_resolution_exact:
  "case ResolveMemoryWriteSpace target grants spaces of
     Inr s \<Rightarrow> memory_kind_valid target \<and> sole_space spaces target s \<and> may_write grants target
   | Inl ErrMemoryTargetRequired \<Rightarrow> target = []
   | Inl ErrMemoryTargetInvalid \<Rightarrow> target \<noteq> [] \<and> \<not> memory_kind_valid target
   | Inl ErrMemoryWriteDenied \<Rightarrow> memory_kind_valid target
       \<and> \<not> ((\<exists>s. sole_space spaces target s) \<and> may_write grants target)
   | Inl ErrMemoryOperationErased \<Rightarrow> False"
  using ResolveMemoryWriteSpace_Inr [of target grants spaces]
    ResolveMemoryWriteSpace_Inl [of target grants spaces]
  by (auto split: sum.splits memory_error.splits if_splits)

lemma filter_head_mem: "filter P xs = y # ys \<Longrightarrow> y \<in> set xs \<and> P y"
proof -
  assume "filter P xs = y # ys"
  then have "y \<in> set (filter P xs)" by simp
  then show ?thesis by simp
qed

lemma authorize_None_iff:
  "AuthorizeMemoryMutation space_id grants spaces = None \<longleftrightarrow>
     (\<exists>s ss. filter (\<lambda>s. spc_ID s = space_id) spaces = s # ss
       \<and> memory_kind_valid (spc_Kind s) \<and> sole_space spaces (spc_Kind s) s
       \<and> may_write grants (spc_Kind s))"
proof (cases "filter (\<lambda>s. spc_ID s = space_id) spaces")
  case Nil
  then show ?thesis by simp
next
  case (Cons s ss)
  then have mem: "s \<in> set spaces" using filter_head_mem by fastforce
  have "AuthorizeMemoryMutation space_id grants spaces = None \<longleftrightarrow>
      (\<exists>t. ResolveMemoryWriteSpace (spc_Kind s) grants spaces = Inr t)"
    using Cons by (simp split: sum.splits)
  also have "\<dots> \<longleftrightarrow> ResolveMemoryWriteSpace (spc_Kind s) grants spaces = Inr s"
    unfolding ResolveMemoryWriteSpace_Inr using sole_space_only mem by metis
  finally show ?thesis by (simp add: ResolveMemoryWriteSpace_Inr Cons)
qed

text \<open>(mutation_authorized_only_in_own_space): a mutation that is authorized names a space the
  caller really holds, of a valid kind, that is the caller's only space of its kind, with a live
  generation and the grants its kind needs; so a caller with no spaces, or without the read grant,
  is denied every mutation.\<close>

theorem mutation_authorized_only_in_own_space:
  assumes "AuthorizeMemoryMutation space_id grants spaces = None"
  shows "\<exists>s\<in>set spaces. spc_ID s = space_id \<and> space_id \<noteq> uuid_nil \<and> spc_Generation s \<ge> 1
    \<and> memory_kind_valid (spc_Kind s)
    \<and> (\<forall>t\<in>set spaces. spc_Kind t = spc_Kind s \<longrightarrow> t = s)
    \<and> ''read'' \<in> set grants
    \<and> (spc_Kind s = MemorySpaceTeamShared \<longrightarrow> ''write'' \<in> set grants)"
proof -
  obtain s ss where s: "filter (\<lambda>s. spc_ID s = space_id) spaces = s # ss"
    "memory_kind_valid (spc_Kind s)" "sole_space spaces (spc_Kind s) s" "may_write grants (spc_Kind s)"
    using assms authorize_None_iff by blast
  then have "s \<in> set spaces \<and> spc_ID s = space_id"
    using filter_head_mem by fastforce
  moreover have "\<forall>t\<in>set spaces. spc_Kind t = spc_Kind s \<longrightarrow> t = s"
    using s(3) sole_space_only by blast
  moreover have "spc_ID s \<noteq> uuid_nil" "spc_Generation s \<ge> 1"
    using s(3) by (simp_all add: sole_space_def)
  moreover have "spc_Kind s = MemorySpaceTeamShared \<longrightarrow> ''write'' \<in> set grants" "''read'' \<in> set grants"
    using s(4) by (auto simp: may_write_def)
  ultimately show ?thesis using s(2) by blast
qed

theorem mutation_authorized_only_in_own_space_witness:
  "AuthorizeMemoryMutation 7 [''read''] [\<lparr>spc_ID = 7, spc_Kind = ''private'', spc_Generation = 2\<rparr>] = None
   \<and> (\<exists>s\<in>set [\<lparr>spc_ID = 7, spc_Kind = ''private'', spc_Generation = 2\<rparr>].
        spc_ID s = (7 :: uuid) \<and> spc_Generation s \<ge> 1)"
proof -
  have a: "AuthorizeMemoryMutation 7 [''read'']
      [\<lparr>spc_ID = 7, spc_Kind = ''private'', spc_Generation = 2\<rparr>] = None"
    by (simp add: ResolveMemoryWriteSpace_def memory_kind_valid_def MemorySpacePrivate_def
        MemorySpaceTeamShared_def uniqueMemorySpace_def zero_space_def MemoryCapabilities_def
        kind_permission_def)
  from mutation_authorized_only_in_own_space [OF a] a show ?thesis by auto
qed

text \<open>What a credential may do, read off its own fields.\<close>

lemma sole_space_credential:
  "(\<exists>s. sole_space (credential_MemorySpaces (Some c)) MemorySpacePrivate s) \<longleftrightarrow>
     cred_MemorySpaceID c \<noteq> uuid_nil \<and> cred_MemorySpaceGeneration c \<ge> 1"
  "(\<exists>s. sole_space (credential_MemorySpaces (Some c)) MemorySpaceTeamShared s) \<longleftrightarrow>
     cred_TeamSharedSpaceID c \<noteq> uuid_nil \<and> cred_TeamSharedSpaceGeneration c \<ge> 1"
  by (auto simp: sole_space_def credential_MemorySpaces_def compactMemorySpaces_def)

text \<open>(credential_capabilities_exact): the capabilities a credential reports are decided by its
  own fields alone: a space is readable exactly when its id is set, its generation is at least one
  and the effective grants contain read, private memory is then writable as well, and shared memory
  is writable exactly when the grants also contain write; a missing credential can do nothing.\<close>

theorem credential_capabilities_exact:
  "perm_Read (macc_Private (credential_MemoryCapabilities (Some c))) =
     (cred_MemorySpaceID c \<noteq> uuid_nil \<and> cred_MemorySpaceGeneration c \<ge> 1
      \<and> ''read'' \<in> set (cred_EffectiveMemoryGrants c))
   \<and> perm_Write (macc_Private (credential_MemoryCapabilities (Some c))) =
       perm_Read (macc_Private (credential_MemoryCapabilities (Some c)))
   \<and> perm_Read (macc_TeamShared (credential_MemoryCapabilities (Some c))) =
     (cred_TeamSharedSpaceID c \<noteq> uuid_nil \<and> cred_TeamSharedSpaceGeneration c \<ge> 1
      \<and> ''read'' \<in> set (cred_EffectiveMemoryGrants c))
   \<and> perm_Write (macc_TeamShared (credential_MemoryCapabilities (Some c))) =
     (perm_Read (macc_TeamShared (credential_MemoryCapabilities (Some c)))
      \<and> ''write'' \<in> set (cred_EffectiveMemoryGrants c))
   \<and> credential_MemoryCapabilities None
       = \<lparr>macc_Private = no_permission, macc_TeamShared = no_permission\<rparr>"
  by (auto simp: credential_MemoryCapabilities_def MemoryCapabilities_def kind_permission_read
      kind_permission_write sole_space_credential)

section \<open>Retries and concurrency\<close>

lemma retry_delay_values:
  "retry_delay_loop n retryBaseDelay =
     (if n < 6 then retryBaseDelay * 2 ^ n else retryMaximumDelay)"
proof (cases "n < 6")
  case True
  then have "n \<in> {0, 1, 2, 3, 4, 5}" by auto
  then show ?thesis by (auto simp: retryBaseDelay_def retryMaximumDelay_def eval_nat_numeral)
next
  case False
  then obtain m where "n = Suc (Suc (Suc (Suc (Suc (Suc m)))))"
    using le_Suc_ex [of 6 n] by (auto simp: numeral_eq_Suc)
  then show ?thesis by (simp add: retryBaseDelay_def retryMaximumDelay_def)
qed

text \<open>(retry_delay_backoff): the erasure backoff doubles from one second with every attempt and
  is cut at one minute, so it never decreases, and it stays between the two bounds for every
  attempt count, negative ones included.\<close>

theorem retry_delay_backoff:
  "RetryDelay n = (if n \<le> 1 then retryBaseDelay
                   else if n \<le> 6 then retryBaseDelay * 2 ^ nat (n - 1) else retryMaximumDelay)
   \<and> retryBaseDelay \<le> RetryDelay n \<and> RetryDelay n \<le> retryMaximumDelay
   \<and> RetryDelay n \<le> RetryDelay (n + 1)"
proof -
  have bound: "(2 :: int) ^ nat (m - 1) \<le> 32" if "m \<le> 6" for m
    using that power_increasing [of "nat (m - 1)" 5 "2 :: int"] by simp
  have val: "RetryDelay m = (if m \<le> 1 then retryBaseDelay
      else if m \<le> 6 then retryBaseDelay * 2 ^ nat (m - 1) else retryMaximumDelay)" for m
    by (simp add: RetryDelay_def retry_delay_values nat_less_iff)
  have range: "retryBaseDelay \<le> RetryDelay m \<and> RetryDelay m \<le> retryMaximumDelay" for m
    using bound [of m] by (auto simp: val retryBaseDelay_def retryMaximumDelay_def)
  have "RetryDelay n \<le> RetryDelay (n + 1)"
  proof (cases "n \<le> 1 \<or> n > 5")
    case True
    with range [of "n + 1"] range [of n] show ?thesis by (auto simp: val)
  next
    case False
    then have "nat n = Suc (nat (n - 1))" by linarith
    with False show ?thesis by (simp add: val retryBaseDelay_def)
  qed
  with val [of n] range [of n] show ?thesis by simp
qed

text \<open>The attempts of one operation: every failure at attempt \<open>n\<close> asks \<open>DecideRetry\<close>.\<close>

text \<open>(retries_exhausted): an erasure operation is queued again at most four times: it fails for
  good exactly from the fifth attempt on, without a next attempt, and before that it is queued with
  a next attempt strictly later than now and at most one minute away.\<close>

theorem retries_exhausted:
  "(rd_Status (DecideRetry n now) = PrivateMemoryErasureFailed \<longleftrightarrow> n \<ge> 5)
   \<and> (rd_NextAttemptAt (DecideRetry n now) = None \<longleftrightarrow> n \<ge> 5)
   \<and> (n < 5 \<longrightarrow> rd_Status (DecideRetry n now) = PrivateMemoryErasureQueued
        \<and> (\<exists>t. rd_NextAttemptAt (DecideRetry n now) = Some t \<and> now < t
             \<and> t \<le> now + retryMaximumDelay))"
proof -
  have "retryBaseDelay \<le> RetryDelay n \<and> RetryDelay n \<le> retryMaximumDelay"
    using retry_delay_values [of "nat (n - 1)"] power_increasing [of "nat (n - 1)" 5 "2 :: int"]
    by (auto simp: RetryDelay_def retryBaseDelay_def retryMaximumDelay_def)
  moreover have "retryBaseDelay > 0" by (simp add: retryBaseDelay_def)
  ultimately show ?thesis by (auto simp: DecideRetry_def MaximumAttempts_def)
qed

theorem retries_exhausted_witness:
  "rd_Status (DecideRetry 2 0) = PrivateMemoryErasureQueued
   \<and> (\<exists>t. rd_NextAttemptAt (DecideRetry 2 0) = Some t \<and> 0 < t)"
  using retries_exhausted [of 2 0] by auto

lemma TeamConcurrency_capped: "TeamConcurrency c team_id \<le> omc_MaxConcurrency c"
  by (simp add: TeamConcurrency_def Let_def)

lemma ban_inactive_after_expiry:
  "ban_ExpiresAt b = Some e \<Longrightarrow> e \<le> t \<Longrightarrow> \<not> ban_ActiveAt b t"
  by (simp add: ban_ActiveAt_def split: option.splits)

lemma RequireOwner_None:
  "RequireOwner actor owner = None \<longleftrightarrow> actor = [] \<or> (owner = actor)"
  by (auto simp: RequireOwner_def)

end
