(* ===== verification/Onto_Types.thy ===== *)
theory Onto_Types
  imports Domain_Contract
begin

text \<open>
  The data of the team ontology (\<open>ontology/contract/types.go\<close>): records with exactly one typed body
  (definition, assignment, group or override), publications that change them, and the source
  snapshots they depend on. Kinds and actions are strings in Go and arrive from clients, so they
  are strings here, with the program's constants as definitions. A slice whose \<open>nil\<close> and empty
  values the program can tell apart (it compares records with \<open>reflect.DeepEqual\<close>) is a
  \<open>slice\<close>: \<open>None\<close> is \<open>nil\<close>.
\<close>

section \<open>Slices\<close>

type_synonym 'a slice = "'a list option"

definition elems :: "'a slice \<Rightarrow> 'a list" where
  "elems s = (case s of None \<Rightarrow> [] | Some xs \<Rightarrow> xs)"

lemma elems_simps [simp]: "elems None = []" "elems (Some xs) = xs"
  by (simp_all add: elems_def)

text \<open>\<open>append([]T(nil), xs...)\<close> is \<open>nil\<close> when there is nothing to append.\<close>

definition appended :: "'a list \<Rightarrow> 'a slice" where
  "appended xs = (if xs = [] then None else Some xs)"

lemma elems_appended [simp]: "elems (appended xs) = xs"
  by (simp add: appended_def)

section \<open>Bounds, kinds, errors\<close>

definition MaxChanges :: nat where "MaxChanges = 64"
definition MaxMembers :: nat where "MaxMembers = 128"
definition MaxAliases :: nat where "MaxAliases = 20"
definition MaxParentDepth :: nat where "MaxParentDepth = 32"
definition MaxPublicationBytes :: nat where "MaxPublicationBytes = 2 ^ 20"
definition MaxPublicationDependencies :: nat where "MaxPublicationDependencies = 512"

definition EntityClass :: string where "EntityClass = ''entity_class''"
definition PredicateConcept :: string where "PredicateConcept = ''predicate_concept''"
definition Topic :: string where "Topic = ''topic''"
definition AssignmentKind :: string where "AssignmentKind = ''assignment''"
definition EvidenceGroup :: string where "EvidenceGroup = ''evidence_group''"
definition RelationshipGroup :: string where "RelationshipGroup = ''relationship_group''"
definition OverrideKind :: string where "OverrideKind = ''override''"

lemmas kind_defs = EntityClass_def PredicateConcept_def Topic_def AssignmentKind_def
  EvidenceGroup_def RelationshipGroup_def OverrideKind_def

definition EntitySource :: string where "EntitySource = ''entity''"
definition PredicateSource :: string where "PredicateSource = ''predicate''"
definition EvidenceSource :: string where "EvidenceSource = ''evidence''"
definition RelationshipSource :: string where "RelationshipSource = ''relationship''"

lemmas source_kind_defs = EntitySource_def PredicateSource_def EvidenceSource_def RelationshipSource_def

definition PinDefinition :: string where "PinDefinition = ''pin_definition''"
definition SetClassification :: string where "SetClassification = ''set_classification''"
definition GroupTogether :: string where "GroupTogether = ''group_together''"
definition KeepSeparate :: string where "KeepSeparate = ''keep_separate''"

lemmas action_defs = PinDefinition_def SetClassification_def GroupTogether_def KeepSeparate_def

text \<open>
  \<open>ErrContextBound\<close> wraps \<open>ErrInvalid\<close> and \<open>ErrDependencyStale\<close> wraps \<open>ErrSourceStale\<close>. \<open>Panic\<close> is no
  error value of the program: it is the run-time panic of a nil dereference or of an index that is
  out of range, kept as a branch so that its absence can be proved.
\<close>

datatype onto_error = ErrInvalid | ErrConflict | ErrSourceStale | ErrNotFound | ErrUnauthorized
  | ErrOverride | ErrContextBound | ErrDependencyStale | Panic

fun onto_error_is :: "onto_error \<Rightarrow> onto_error \<Rightarrow> bool" where
  "onto_error_is ErrContextBound ErrInvalid = True"
| "onto_error_is ErrDependencyStale ErrSourceStale = True"
| "onto_error_is e target = (e = target)"

section \<open>Records\<close>

record source_handle =
  sh_Kind :: string
  sh_ID :: string
  sh_Version :: int

record source_dependency =
  sd_Source :: source_handle
  sd_Fingerprint :: string

record revision_ref =
  ref_ID :: string
  ref_Version :: int

record definition_body =
  def_Key :: string
  def_Label :: string
  def_Description :: string
  def_Aliases :: "string slice"
  def_ParentID :: string
  def_BaseEntityKind :: string

record assignment_body =
  asg_Source :: source_handle
  asg_DefinitionID :: string

record group_body =
  grp_Members :: "source_handle slice"
  grp_AssessmentID :: string

record override_body =
  ovr_Action :: string
  ovr_TargetID :: string
  ovr_DefinitionID :: string
  ovr_Members :: "source_handle slice"

record onto_record =
  rec_ID :: string
  rec_Version :: int
  rec_Kind :: string
  rec_Retired :: bool
  rec_Definition :: "definition_body option"
  rec_Assignment :: "assignment_body option"
  rec_Group :: "group_body option"
  rec_Override :: "override_body option"
  rec_Sources :: "source_dependency slice"
  rec_Dependencies :: "revision_ref slice"
  rec_Fingerprint :: string

definition zero_record :: onto_record where
  "zero_record = \<lparr>rec_ID = [], rec_Version = 0, rec_Kind = [], rec_Retired = False,
     rec_Definition = None, rec_Assignment = None, rec_Group = None, rec_Override = None,
     rec_Sources = None, rec_Dependencies = None, rec_Fingerprint = []\<rparr>"

record change =
  chg_ExpectedVersion :: int
  chg_Record :: onto_record

record publication =
  pub_OperationKey :: string
  pub_ExpectedRevision :: int
  pub_Reason :: string
  pub_Changes :: "change list"
  pub_RollbackOf :: string

record record_view =
  rv_Record :: onto_record
  rv_Current :: bool
  rv_StaleReason :: string

record source_snapshot =
  snap_Source :: source_handle
  snap_TeamID :: string
  snap_SpaceID :: string
  snap_Generation :: int
  snap_OwnerID :: string
  snap_Eligible :: bool
  snap_EntityKind :: string
  snap_State :: "string \<rightharpoonup> string"
  snap_MeaningKey :: string

record management_edit =
  edt_Action :: string
  edt_RecordID :: string
  edt_ExpectedVersion :: int
  edt_Kind :: string
  edt_Definition :: "definition_body option"
  edt_DefinitionID :: string
  edt_Source :: "source_handle option"
  edt_Members :: "source_handle slice"

record save_draft_input =
  sdi_OperationKey :: string
  sdi_ExpectedVersion :: int
  sdi_ExpectedRevision :: int
  sdi_Reason :: string
  sdi_Edits :: "management_edit list"

definition zero_handle :: source_handle where
  "zero_handle = \<lparr>sh_Kind = [], sh_ID = [], sh_Version = 0\<rparr>"

definition zero_snapshot :: source_snapshot where
  "zero_snapshot = \<lparr>snap_Source = zero_handle, snap_TeamID = [], snap_SpaceID = [],
     snap_Generation = 0, snap_OwnerID = [], snap_Eligible = False, snap_EntityKind = [],
     snap_State = Map.empty, snap_MeaningKey = []\<rparr>"

text \<open>Reading a missing key of \<open>State\<close> gives the empty string.\<close>

definition state_field :: "source_snapshot \<Rightarrow> string \<Rightarrow> string" where
  "state_field s k = (case snap_State s k of None \<Rightarrow> [] | Some v \<Rightarrow> v)"

section \<open>Maps of the package\<close>

text \<open>
  The catalog maps record ids to records. The program ranges over it, so it is an association list.
  The keys are the ids of the records (\<open>catalog_ok\<close>): the stores build it that way and
  \<open>PreparePublication\<close> keeps it. Snapshots are only looked up: a \<open>map\<close> from source keys.
\<close>

type_synonym catalog = "(string \<times> onto_record) list"
type_synonym snapshots = "string \<rightharpoonup> source_snapshot"

definition catalog_ok :: "catalog \<Rightarrow> bool" where
  "catalog_ok c \<longleftrightarrow> distinct (map fst c) \<and> (\<forall>(k, r)\<in>set c. rec_ID r = k)"

definition catalog_get :: "catalog \<Rightarrow> string \<Rightarrow> onto_record" where
  "catalog_get c k = (case map_of c k of None \<Rightarrow> zero_record | Some r \<Rightarrow> r)"

definition snapshot_get :: "snapshots \<Rightarrow> string \<Rightarrow> source_snapshot" where
  "snapshot_get s k = (case s k of None \<Rightarrow> zero_snapshot | Some x \<Rightarrow> x)"

lemma catalog_ok_id: "catalog_ok c \<Longrightarrow> map_of c k = Some r \<Longrightarrow> rec_ID r = k"
  by (auto simp: catalog_ok_def dest: map_of_SomeD)

lemma catalog_ok_mem: "catalog_ok c \<Longrightarrow> (k, r) \<in> set c \<longleftrightarrow> map_of c k = Some r"
  by (auto simp: catalog_ok_def map_of_eq_Some_iff)

lemma catalog_ok_update:
  assumes "catalog_ok c" and "rec_ID r = k"
  shows "catalog_ok (AList.update k r c)"
proof -
  have d: "distinct (map fst (AList.update k r c))" using assms by (simp add: catalog_ok_def)
  have "rec_ID r' = k'" if "(k', r') \<in> set (AList.update k r c)" for k' r'
  proof -
    from that d have "map_of (AList.update k r c) k' = Some r'" by (metis map_of_is_SomeI)
    then show ?thesis using assms by (auto simp: split: if_splits dest: catalog_ok_id)
  qed
  with d show ?thesis by (auto simp: catalog_ok_def)
qed

definition SourceKey :: "source_handle \<Rightarrow> string" where
  "SourceKey s = sh_Kind s @ '':'' @ sh_ID s"

section \<open>Code outside the repository\<close>

text \<open>
  The digests are taken of a JSON encoding: \<open>hashed\<close> is the value that is encoded, and the
  functions of \<open>externals\<close> stand for uuid parsing (\<open>github.com/google/uuid\<close>), for the SHA-256 of the
  JSON encoding, for the length of the JSON encoding of a publication or a draft (\<open>None\<close> when it
  fails), for name-based uuids and for
  the time zone database. Nothing is assumed about them unless a theorem says so.
\<close>

record hashed_record =
  hr_ID :: string
  hr_Kind :: string
  hr_Retired :: bool
  hr_Definition :: "definition_body option"
  hr_Assignment :: "assignment_body option"
  hr_Group :: "group_body option"
  hr_Override :: "override_body option"
  hr_Sources :: "string list"
  hr_Dependencies :: "revision_ref list"

datatype hashed = HashSource source_snapshot | HashRetired onto_record | HashRecord hashed_record

datatype uuid_namespace = NameSpaceOID | NameSpaceURL

record externals =
  x_uuid_parse :: "string \<Rightarrow> uuid option"
  x_uuid_string :: "uuid \<Rightarrow> string"
  x_sha1_uuid :: "uuid_namespace \<Rightarrow> string \<Rightarrow> string"
  x_hash :: "hashed \<Rightarrow> string"
  x_publication_size :: "publication \<Rightarrow> nat option"
  x_draft_size :: "save_draft_input \<Rightarrow> nat option"
  x_metadata_timezone :: "string \<Rightarrow> string option"
  x_location_known :: "string \<Rightarrow> bool"

text \<open>A concrete instance for the examples: three well-formed ids, a constant digest.\<close>

definition sample_ids :: "string list" where
  "sample_ids = [''id-1'', ''id-2'', ''id-3'', ''id-4'']"

definition sample_externals :: externals where
  "sample_externals = \<lparr>
     x_uuid_parse = (\<lambda>s. if s = ''id-1'' then Some 1 else if s = ''id-2'' then Some 2
                         else if s = ''id-3'' then Some 3 else if s = ''id-4'' then Some 4 else None),
     x_uuid_string = (\<lambda>u. if u = 1 then ''id-1'' else if u = 2 then ''id-2''
                         else if u = 3 then ''id-3'' else ''id-4''),
     x_sha1_uuid = (\<lambda>ns s. ''id-4''),
     x_hash = (\<lambda>h. ''sha256:'' @ replicate 64 CHR ''0''),
     x_publication_size = (\<lambda>p. Some 100), x_draft_size = (\<lambda>d. Some 100),
     x_metadata_timezone = (\<lambda>s. None),
     x_location_known = (\<lambda>s. False)\<rparr>"

end
