(* ===== verification/Onto_Validation.thy ===== *)
theory Onto_Validation
  imports Onto_Types
begin

text \<open>
  The shape checks of \<open>ontology/contract/validation.go\<close>: ids, texts, source handles, records and
  publications.
\<close>

section \<open>Definitions\<close>

definition NormalizeName :: "string \<Rightarrow> string" where
  "NormalizeName value = lower_trim value"

definition validID :: "externals \<Rightarrow> string \<Rightarrow> bool" where
  "validID X value =
     (case x_uuid_parse X value of
        None \<Rightarrow> False
      | Some i \<Rightarrow> i \<noteq> uuid_nil \<and> x_uuid_string X i = value)"

definition boundedText :: "string \<Rightarrow> nat \<Rightarrow> bool" where
  "boundedText value limit \<longleftrightarrow>
     trim_space value \<noteq> [] \<and> rune_count value \<le> limit \<and> CHR 0x00 \<notin> set value"

definition validFingerprint :: "string \<Rightarrow> bool" where
  "validFingerprint value \<longleftrightarrow>
     length value = 71 \<and> prefix ''sha256:'' value
     \<and> (\<forall>c\<in>set (drop 7 value). c \<in> set ''0123456789abcdef'')"

definition ValidateOperation :: "string \<Rightarrow> int \<Rightarrow> string \<Rightarrow> onto_error option" where
  "ValidateOperation key revision reason =
     (if \<not> boundedText key 128 \<or> revision < 0 \<or> \<not> boundedText reason 512 then Some ErrInvalid else None)"

definition ValidateSourceHandle :: "externals \<Rightarrow> source_handle \<Rightarrow> onto_error option" where
  "ValidateSourceHandle X handle =
     (if sh_Version handle < 1 then Some ErrInvalid
      else if sh_Kind handle = PredicateSource
      then (if \<not> boundedText (sh_ID handle) 128 then Some ErrInvalid else None)
      else if sh_Kind handle \<in> {EntitySource, EvidenceSource, RelationshipSource}
      then (if \<not> validID X (sh_ID handle) then Some ErrInvalid else None)
      else Some ErrInvalid)"

definition validateMembers :: "externals \<Rightarrow> source_handle list \<Rightarrow> nat \<Rightarrow> onto_error option" where
  "validateMembers X members minimum =
     (if length members < minimum \<or> length members > MaxMembers then Some ErrInvalid
      else check_distinct (ValidateSourceHandle X) ErrInvalid SourceKey [] members)"

text \<open>The alias loop checks the text and the duplicate of one alias together.\<close>

definition validateDefinition :: "externals \<Rightarrow> string \<Rightarrow> definition_body \<Rightarrow> onto_error option" where
  "validateDefinition X kind d =
     (if \<not> boundedText (def_Key d) 128 then Some ErrInvalid
      else if \<not> boundedText (def_Label d) 128 \<or> rune_count (def_Description d) > 1000
        \<or> length (elems (def_Aliases d)) > MaxAliases then Some ErrInvalid
      else if def_ParentID d \<noteq> [] \<and> \<not> validID X (def_ParentID d) then Some ErrInvalid
      else if kind = EntityClass \<and> def_BaseEntityKind d \<notin> set EntityKinds then Some ErrInvalid
      else if kind \<noteq> EntityClass \<and> def_BaseEntityKind d \<noteq> [] then Some ErrInvalid
      else check_distinct (\<lambda>alias. if boundedText alias 128 then None else Some ErrInvalid)
             ErrInvalid NormalizeName [] (elems (def_Aliases d)))"

definition validateOverride :: "externals \<Rightarrow> override_body \<Rightarrow> onto_error option" where
  "validateOverride X ov =
     (if ovr_Action ov = PinDefinition
      then (if \<not> validID X (ovr_TargetID ov) \<or> ovr_DefinitionID ov \<noteq> [] \<or> length (elems (ovr_Members ov)) \<noteq> 0
            then Some ErrInvalid else None)
      else if ovr_Action ov = SetClassification
      then (if ovr_TargetID ov \<noteq> [] \<or> \<not> validID X (ovr_DefinitionID ov) \<or> length (elems (ovr_Members ov)) \<noteq> 1
            then Some ErrInvalid else validateMembers X (elems (ovr_Members ov)) 1)
      else if ovr_Action ov = GroupTogether \<or> ovr_Action ov = KeepSeparate
      then (if ovr_TargetID ov \<noteq> [] \<or> ovr_DefinitionID ov \<noteq> [] then Some ErrInvalid
            else validateMembers X (elems (ovr_Members ov)) 2)
      else Some ErrInvalid)"

definition record_bodies :: "onto_record \<Rightarrow> nat" where
  "record_bodies r = length (filter id
     [rec_Definition r \<noteq> None, rec_Assignment r \<noteq> None, rec_Group r \<noteq> None, rec_Override r \<noteq> None])"

text \<open>The \<open>switch record.Kind\<close>: a missing body, a bad id and a failed check of the body are one error.\<close>

definition validate_body :: "externals \<Rightarrow> onto_record \<Rightarrow> onto_error option" where
  "validate_body X r =
     (if rec_Kind r \<in> {EntityClass, PredicateConcept, Topic}
      then (case rec_Definition r of
              None \<Rightarrow> Some ErrInvalid
            | Some d \<Rightarrow> validateDefinition X (rec_Kind r) d)
      else if rec_Kind r = AssignmentKind
      then (case rec_Assignment r of
              None \<Rightarrow> Some ErrInvalid
            | Some a \<Rightarrow> if \<not> validID X (asg_DefinitionID a) then Some ErrInvalid
                        else ValidateSourceHandle X (asg_Source a))
      else if rec_Kind r \<in> {EvidenceGroup, RelationshipGroup}
      then (case rec_Group r of
              None \<Rightarrow> Some ErrInvalid
            | Some g \<Rightarrow> if grp_AssessmentID g \<noteq> [] \<and> \<not> validID X (grp_AssessmentID g)
                        then Some ErrInvalid
                        else validateMembers X (elems (grp_Members g)) 2)
      else if rec_Kind r = OverrideKind
      then (case rec_Override r of
              None \<Rightarrow> Some ErrInvalid
            | Some ov \<Rightarrow> validateOverride X ov)
      else Some ErrInvalid)"

definition ValidateRecord :: "externals \<Rightarrow> onto_record \<Rightarrow> onto_error option" where
  "ValidateRecord X r =
     (if \<not> validID X (rec_ID r) \<or> rec_Version r < 0 \<or> length (elems (rec_Sources r)) > MaxMembers
        \<or> length (elems (rec_Dependencies r)) > MaxMembers then Some ErrInvalid
      else if record_bodies r \<noteq> 1 then Some ErrInvalid
      else or_error (validate_body X r)
          (or_error
            (check_distinct
               (\<lambda>s. or_error (ValidateSourceHandle X (sd_Source s))
                      (if \<not> validFingerprint (sd_Fingerprint s) then Some ErrInvalid else None))
               ErrInvalid (\<lambda>s. SourceKey (sd_Source s)) [] (elems (rec_Sources r)))
            (check_distinct
               (\<lambda>ref. if \<not> validID X (ref_ID ref) \<or> ref_Version ref < 1 \<or> ref_ID ref = rec_ID r
                      then Some ErrInvalid else None)
               ErrInvalid ref_ID [] (elems (rec_Dependencies r)))))"

text \<open>The loop over the changes counts the dependencies of all changes seen so far.\<close>

fun validate_changes :: "externals \<Rightarrow> nat \<Rightarrow> string list \<Rightarrow> change list \<Rightarrow> onto_error option" where
  "validate_changes X deps seen [] = None"
| "validate_changes X deps seen (c # cs) =
     (let r = chg_Record c;
          deps = deps + (length (elems (rec_Sources r)) + length (elems (rec_Dependencies r)))
      in if deps > MaxPublicationDependencies then Some ErrInvalid
         else if chg_ExpectedVersion c < 0 \<or> rec_ID r \<in> set seen then Some ErrInvalid
         else case ValidateRecord X r of
                Some e \<Rightarrow> Some e
              | None \<Rightarrow> validate_changes X deps (rec_ID r # seen) cs)"

definition ValidatePublication :: "externals \<Rightarrow> publication \<Rightarrow> onto_error option" where
  "ValidatePublication X input =
     (case x_publication_size X input of
        None \<Rightarrow> Some ErrInvalid
      | Some n \<Rightarrow>
          if n > MaxPublicationBytes then Some ErrInvalid
          else case ValidateOperation (pub_OperationKey input) (pub_ExpectedRevision input) (pub_Reason input) of
            Some e \<Rightarrow> Some e
          | None \<Rightarrow>
              if pub_Changes input = [] \<or> length (pub_Changes input) > MaxChanges then Some ErrInvalid
              else if pub_RollbackOf input \<noteq> [] \<and> \<not> validID X (pub_RollbackOf input) then Some ErrInvalid
              else validate_changes X 0 [] (pub_Changes input))"

section \<open>What the checks accept\<close>

definition handle_ok :: "externals \<Rightarrow> source_handle \<Rightarrow> bool" where
  "handle_ok X h \<longleftrightarrow> 1 \<le> sh_Version h \<and>
     (if sh_Kind h = PredicateSource then boundedText (sh_ID h) 128
      else sh_Kind h \<in> {EntitySource, EvidenceSource, RelationshipSource} \<and> validID X (sh_ID h))"

lemma ValidateSourceHandle_None [simp]: "ValidateSourceHandle X h = None \<longleftrightarrow> handle_ok X h"
  by (auto simp: ValidateSourceHandle_def handle_ok_def)

definition members_ok :: "externals \<Rightarrow> source_handle list \<Rightarrow> nat \<Rightarrow> bool" where
  "members_ok X ms n \<longleftrightarrow> n \<le> length ms \<and> length ms \<le> MaxMembers
     \<and> (\<forall>m\<in>set ms. handle_ok X m) \<and> distinct (map SourceKey ms)"

lemma validateMembers_None [simp]: "validateMembers X ms n = None \<longleftrightarrow> members_ok X ms n"
  by (auto simp: validateMembers_def members_ok_def check_distinct_None)

definition definition_ok :: "externals \<Rightarrow> string \<Rightarrow> definition_body \<Rightarrow> bool" where
  "definition_ok X kind d \<longleftrightarrow>
     boundedText (def_Key d) 128 \<and> boundedText (def_Label d) 128 \<and> rune_count (def_Description d) \<le> 1000
     \<and> length (elems (def_Aliases d)) \<le> MaxAliases
     \<and> (def_ParentID d = [] \<or> validID X (def_ParentID d))
     \<and> (if kind = EntityClass then def_BaseEntityKind d \<in> set EntityKinds else def_BaseEntityKind d = [])
     \<and> (\<forall>a\<in>set (elems (def_Aliases d)). boundedText a 128)
     \<and> distinct (map NormalizeName (elems (def_Aliases d)))"

lemma validateDefinition_None [simp]:
  "validateDefinition X kind d = None \<longleftrightarrow> definition_ok X kind d"
  by (auto simp: validateDefinition_def definition_ok_def check_distinct_None)

definition override_ok :: "externals \<Rightarrow> override_body \<Rightarrow> bool" where
  "override_ok X ov \<longleftrightarrow>
     (if ovr_Action ov = PinDefinition
      then validID X (ovr_TargetID ov) \<and> ovr_DefinitionID ov = [] \<and> elems (ovr_Members ov) = []
      else if ovr_Action ov = SetClassification
      then ovr_TargetID ov = [] \<and> validID X (ovr_DefinitionID ov)
           \<and> (\<exists>m. elems (ovr_Members ov) = [m] \<and> handle_ok X m)
      else ovr_Action ov \<in> {GroupTogether, KeepSeparate} \<and> ovr_TargetID ov = []
           \<and> ovr_DefinitionID ov = [] \<and> members_ok X (elems (ovr_Members ov)) 2)"

lemma members_ok_one: "length ms = 1 \<Longrightarrow> members_ok X ms 1 \<longleftrightarrow> (\<exists>m. ms = [m] \<and> handle_ok X m)"
  by (auto simp: members_ok_def MaxMembers_def length_Suc_conv)

lemma validateOverride_None [simp]: "validateOverride X ov = None \<longleftrightarrow> override_ok X ov"
  using members_ok_one [of "elems (ovr_Members ov)" X]
  by (auto simp: validateOverride_def override_ok_def)

definition body_ok :: "externals \<Rightarrow> onto_record \<Rightarrow> bool" where
  "body_ok X r \<longleftrightarrow>
     (if rec_Kind r \<in> {EntityClass, PredicateConcept, Topic}
      then \<exists>d. rec_Definition r = Some d \<and> definition_ok X (rec_Kind r) d
      else if rec_Kind r = AssignmentKind
      then \<exists>a. rec_Assignment r = Some a \<and> validID X (asg_DefinitionID a) \<and> handle_ok X (asg_Source a)
      else if rec_Kind r \<in> {EvidenceGroup, RelationshipGroup}
      then \<exists>g. rec_Group r = Some g \<and> members_ok X (elems (grp_Members g)) 2
             \<and> (grp_AssessmentID g = [] \<or> validID X (grp_AssessmentID g))
      else rec_Kind r = OverrideKind \<and> (\<exists>ov. rec_Override r = Some ov \<and> override_ok X ov))"

lemma validate_body_None [simp]: "validate_body X r = None \<longleftrightarrow> body_ok X r"
  by (auto simp: validate_body_def body_ok_def split: option.splits)

definition record_ok :: "externals \<Rightarrow> onto_record \<Rightarrow> bool" where
  "record_ok X r \<longleftrightarrow>
     validID X (rec_ID r) \<and> 0 \<le> rec_Version r
     \<and> length (elems (rec_Sources r)) \<le> MaxMembers \<and> length (elems (rec_Dependencies r)) \<le> MaxMembers
     \<and> record_bodies r = 1 \<and> body_ok X r
     \<and> (\<forall>s\<in>set (elems (rec_Sources r)). handle_ok X (sd_Source s) \<and> validFingerprint (sd_Fingerprint s))
     \<and> distinct (map (\<lambda>s. SourceKey (sd_Source s)) (elems (rec_Sources r)))
     \<and> (\<forall>d\<in>set (elems (rec_Dependencies r)). validID X (ref_ID d) \<and> 1 \<le> ref_Version d \<and> ref_ID d \<noteq> rec_ID r)
     \<and> distinct (map ref_ID (elems (rec_Dependencies r)))"

lemma ValidateRecord_None: "ValidateRecord X r = None \<longleftrightarrow> record_ok X r"
  by (auto simp: ValidateRecord_def record_ok_def check_distinct_None split: if_splits)

lemma validate_changes_None:
  "validate_changes X n seen cs = None \<longleftrightarrow>
     (cs \<noteq> [] \<longrightarrow> n + (\<Sum>c\<leftarrow>cs. length (elems (rec_Sources (chg_Record c)))
        + length (elems (rec_Dependencies (chg_Record c)))) \<le> MaxPublicationDependencies)
     \<and> (\<forall>c\<in>set cs. 0 \<le> chg_ExpectedVersion c \<and> record_ok X (chg_Record c))
     \<and> distinct (map (rec_ID \<circ> chg_Record) cs) \<and> (rec_ID \<circ> chg_Record) ` set cs \<inter> set seen = {}"
proof (induction cs arbitrary: n seen)
  case Nil
  then show ?case by simp
next
  case (Cons c cs)
  then show ?case
    by (cases cs) (auto simp: Let_def ValidateRecord_None [symmetric] split: option.splits)
qed

definition publication_ok :: "externals \<Rightarrow> publication \<Rightarrow> bool" where
  "publication_ok X p \<longleftrightarrow>
     (\<exists>n\<le>MaxPublicationBytes. x_publication_size X p = Some n)
     \<and> boundedText (pub_OperationKey p) 128 \<and> 0 \<le> pub_ExpectedRevision p \<and> boundedText (pub_Reason p) 512
     \<and> 1 \<le> length (pub_Changes p) \<and> length (pub_Changes p) \<le> MaxChanges
     \<and> (pub_RollbackOf p = [] \<or> validID X (pub_RollbackOf p))
     \<and> (\<Sum>c\<leftarrow>pub_Changes p. length (elems (rec_Sources (chg_Record c)))
          + length (elems (rec_Dependencies (chg_Record c)))) \<le> MaxPublicationDependencies
     \<and> (\<forall>c\<in>set (pub_Changes p). 0 \<le> chg_ExpectedVersion c \<and> record_ok X (chg_Record c))
     \<and> distinct (map (rec_ID \<circ> chg_Record) (pub_Changes p))"

lemma ValidatePublication_None: "ValidatePublication X p = None \<longleftrightarrow> publication_ok X p"
  by (cases "pub_Changes p = []")
    (auto simp: ValidatePublication_def publication_ok_def ValidateOperation_def validate_changes_None
      Suc_le_eq split: option.splits if_splits)


text \<open>One pin of a definition, published by a manager.\<close>

definition sample_pin :: onto_record where
  "sample_pin = zero_record\<lparr>rec_ID := ''id-1'', rec_Kind := OverrideKind,
     rec_Override := Some \<lparr>ovr_Action = PinDefinition, ovr_TargetID = ''id-2'', ovr_DefinitionID = [],
                           ovr_Members = None\<rparr>\<rparr>"

definition sample_publication :: publication where
  "sample_publication = \<lparr>pub_OperationKey = ''op'', pub_ExpectedRevision = 0, pub_Reason = ''why'',
     pub_Changes = [\<lparr>chg_ExpectedVersion = 0, chg_Record = sample_pin\<rparr>], pub_RollbackOf = []\<rparr>"

lemma boundedText_word:
  "s \<noteq> [] \<Longrightarrow> \<forall>c\<in>set s. ascii_word c \<Longrightarrow> CHR 0x00 \<notin> set s \<Longrightarrow> length s \<le> n \<Longrightarrow> boundedText s n"
  using rune_count_le_length [of s] by (simp add: boundedText_def trim_space_word)

lemma sample_valid_ids [simp]:
  "validID sample_externals ''id-1''" "validID sample_externals ''id-2''"
  "validID sample_externals ''id-3''" "validID sample_externals ''id-4''"
  by (simp_all add: validID_def sample_externals_def)

lemma sample_pin_ok: "record_ok sample_externals sample_pin"
  by (simp add: record_ok_def sample_pin_def zero_record_def record_bodies_def body_ok_def
      override_ok_def kind_defs)

lemma sample_publication_accepted: "ValidatePublication sample_externals sample_publication = None"
proof -
  have "boundedText ''op'' 128" "boundedText ''why'' 512"
    by (rule boundedText_word; simp add: ascii_word_def byte_of_def)+
  moreover have "x_publication_size sample_externals sample_publication = Some 100"
    by (simp add: sample_externals_def)
  ultimately show ?thesis
    by (simp add: ValidatePublication_None publication_ok_def sample_publication_def sample_pin_ok
        MaxPublicationBytes_def MaxChanges_def MaxPublicationDependencies_def)
      (simp add: sample_pin_def zero_record_def)
qed


end
