(* ===== verification/Onto_Catalog.thy ===== *)
theory Onto_Catalog
  imports Onto_Validation
begin

text \<open>
  Checks over a whole catalog: the definition hierarchy and its names
  (\<open>ontology/contract/publication_policy.go\<close>) and the manager overrides that an automatic change
  must respect (\<open>ontology/contract/override_policy.go\<close>).
\<close>

section \<open>Names, sources and references of a record\<close>

definition DefinitionNames :: "onto_record \<Rightarrow> string list" where
  "DefinitionNames r =
     (case rec_Definition r of
        None \<Rightarrow> []
      | Some d \<Rightarrow>
          if rec_Retired r then []
          else sorted_keys (map NormalizeName ([def_Key d, def_Label d] @ elems (def_Aliases d))))"

definition RequiredSources :: "onto_record \<Rightarrow> source_handle list" where
  "RequiredSources r =
     (case rec_Assignment r of None \<Rightarrow> [] | Some a \<Rightarrow> [asg_Source a])
     @ (case rec_Group r of None \<Rightarrow> [] | Some g \<Rightarrow> elems (grp_Members g))
     @ (case rec_Override r of None \<Rightarrow> [] | Some ov \<Rightarrow> elems (ovr_Members ov))"

definition ReferenceIDs :: "onto_record \<Rightarrow> string list" where
  "ReferenceIDs r = sorted_keys
     ((case rec_Definition r of
         None \<Rightarrow> []
       | Some d \<Rightarrow> if def_ParentID d \<noteq> [] then [def_ParentID d] else [])
      @ (case rec_Assignment r of None \<Rightarrow> [] | Some a \<Rightarrow> [asg_DefinitionID a])
      @ (case rec_Override r of
           None \<Rightarrow> []
         | Some ov \<Rightarrow> (if ovr_TargetID ov \<noteq> [] then [ovr_TargetID ov] else [])
                     @ (if ovr_DefinitionID ov \<noteq> [] then [ovr_DefinitionID ov] else []))
      @ map ref_ID (elems (rec_Dependencies r)))"

section \<open>The definition hierarchy\<close>

definition name_key :: "onto_record \<Rightarrow> string \<Rightarrow> string" where
  "name_key r name = rec_Kind r @ [CHR 0x00] @ name"

text \<open>
  \<open>names\<close> maps a kind and a normalized name to the record that uses it; \<open>None\<close> is the collision.
\<close>

fun add_names :: "string \<Rightarrow> (string \<rightharpoonup> string) \<Rightarrow> string list \<Rightarrow> (string \<rightharpoonup> string) option" where
  "add_names rid names [] = Some names"
| "add_names rid names (key # keys) =
     (case names key of
        Some previous \<Rightarrow> if previous \<noteq> rid then None else add_names rid (names(key \<mapsto> rid)) keys
      | None \<Rightarrow> add_names rid (names(key \<mapsto> rid)) keys)"

text \<open>
  The walk along the parents of \<open>r\<close>; \<open>left\<close> is \<open>MaxParentDepth - depth\<close>.
\<close>

fun parent_loop ::
  "catalog \<Rightarrow> onto_record \<Rightarrow> string \<Rightarrow> nat \<Rightarrow> string list \<Rightarrow> string \<Rightarrow> onto_error option" where
  "parent_loop c r base left seen pid =
     (if pid = [] then None
      else case left of
        0 \<Rightarrow> Some ErrInvalid
      | Suc n \<Rightarrow>
          if pid \<in> set seen then Some ErrInvalid
          else case map_of c pid of
            None \<Rightarrow> Some ErrInvalid
          | Some p \<Rightarrow>
              (case rec_Definition p of
                 None \<Rightarrow> Some ErrInvalid
               | Some pd \<Rightarrow>
                   if rec_Retired p \<or> rec_Kind p \<noteq> rec_Kind r then Some ErrInvalid
                   else if rec_Kind r = EntityClass \<and> def_BaseEntityKind pd \<noteq> base then Some ErrInvalid
                   else parent_loop c r base n (pid # seen) (def_ParentID pd)))"

declare parent_loop.simps [simp del]

fun definitions_loop ::
  "catalog \<Rightarrow> (string \<rightharpoonup> string) \<Rightarrow> onto_record list \<Rightarrow> onto_error option" where
  "definitions_loop c names [] = None"
| "definitions_loop c names (r # rs) =
     (case rec_Definition r of
        None \<Rightarrow> definitions_loop c names rs
      | Some d \<Rightarrow>
          if rec_Retired r then definitions_loop c names rs
          else case add_names (rec_ID r) names (map (name_key r) (DefinitionNames r)) of
            None \<Rightarrow> Some ErrInvalid
          | Some names' \<Rightarrow>
              (case parent_loop c r (def_BaseEntityKind d) MaxParentDepth [rec_ID r] (def_ParentID d) of
                 Some e \<Rightarrow> Some e
               | None \<Rightarrow> definitions_loop c names' rs))"

definition ValidateDefinitions :: "catalog \<Rightarrow> onto_error option" where
  "ValidateDefinitions c = definitions_loop c Map.empty (map snd c)"

section \<open>Manager overrides\<close>

definition override_applies :: "onto_record \<Rightarrow> string list \<Rightarrow> override_body \<Rightarrow> bool" where
  "override_applies r members ov =
     ((if ovr_Action ov = PinDefinition then rec_Definition r \<noteq> None
       else if ovr_Action ov = SetClassification then rec_Assignment r \<noteq> None
       else if ovr_Action ov = GroupTogether \<or> ovr_Action ov = KeepSeparate then rec_Group r \<noteq> None
       else False)
      \<and> (ovr_TargetID ov = rec_ID r \<or> (\<exists>m\<in>set (elems (ovr_Members ov)). SourceKey m \<in> set members)))"

definition ApplicableOverrides :: "onto_record \<Rightarrow> catalog \<Rightarrow> onto_record list" where
  "ApplicableOverrides r c =
     (if rec_Kind r = OverrideKind then []
      else filter (\<lambda>cand. \<not> rec_Retired cand \<and>
             (case rec_Override cand of
                None \<Rightarrow> False
              | Some ov \<Rightarrow> override_applies r (map SourceKey (RequiredSources r)) ov))
           (map snd c))"

definition check_override :: "onto_record \<Rightarrow> override_body \<Rightarrow> onto_error option" where
  "check_override r ov =
     (if ovr_Action ov = PinDefinition
      then (if rec_Definition r \<noteq> None then Some ErrOverride else None)
      else if ovr_Action ov = SetClassification
      then (case rec_Assignment r of
              None \<Rightarrow> None
            | Some a \<Rightarrow> if rec_Retired r \<or> asg_DefinitionID a \<noteq> ovr_DefinitionID ov
                        then Some ErrOverride else None)
      else if ovr_Action ov = GroupTogether \<or> ovr_Action ov = KeepSeparate
      then (case rec_Group r of
              None \<Rightarrow> None
            | Some g \<Rightarrow>
                (let members = map SourceKey (elems (grp_Members g));
                     matched = length (filter (\<lambda>s. SourceKey s \<in> set members) (elems (ovr_Members ov)))
                 in if ovr_Action ov = KeepSeparate \<and> \<not> rec_Retired r \<and> matched > 1 then Some ErrOverride
                    else if ovr_Action ov = GroupTogether \<and> matched > 0
                      \<and> (rec_Retired r \<or> matched \<noteq> length (elems (ovr_Members ov))) then Some ErrOverride
                    else None))
      else None)"

definition CheckOverrides :: "onto_record \<Rightarrow> catalog \<Rightarrow> onto_error option" where
  "CheckOverrides r c =
     first_error (\<lambda>o_rec. case rec_Override o_rec of None \<Rightarrow> None | Some ov \<Rightarrow> check_override r ov)
       (ApplicableOverrides r c)"

section \<open>Chains of parents\<close>

text \<open>The parents from \<open>pid\<close> up to a root, nearest first.\<close>

fun parent_chain :: "catalog \<Rightarrow> string \<Rightarrow> onto_record list \<Rightarrow> bool" where
  "parent_chain c pid [] \<longleftrightarrow> pid = []"
| "parent_chain c pid (p # ps) \<longleftrightarrow> pid \<noteq> [] \<and> map_of c pid = Some p \<and> \<not> rec_Retired p \<and>
     (\<exists>d. rec_Definition p = Some d \<and> parent_chain c (def_ParentID d) ps)"

definition same_family :: "onto_record \<Rightarrow> string \<Rightarrow> onto_record \<Rightarrow> bool" where
  "same_family r base p \<longleftrightarrow> rec_Kind p = rec_Kind r \<and>
     (rec_Kind r = EntityClass \<longrightarrow> (\<exists>d. rec_Definition p = Some d \<and> def_BaseEntityKind d = base))"

lemma parent_loop_None:
  assumes "catalog_ok c"
  shows "parent_loop c r base left seen pid = None \<longleftrightarrow>
    (\<exists>ps. parent_chain c pid ps \<and> length ps \<le> left \<and> distinct (map rec_ID ps)
       \<and> rec_ID ` set ps \<inter> set seen = {} \<and> (\<forall>p\<in>set ps. same_family r base p))"
proof (induction left arbitrary: seen pid)
  case 0
  then show ?case by (subst parent_loop.simps) (auto split: if_splits)
next
  case (Suc n)
  show ?case (is "?l \<longleftrightarrow> ?r")
  proof (cases "pid = []")
    case True
    then have "?r" by (intro exI [of _ "[]"]) simp
    with True show ?thesis by (subst parent_loop.simps) simp
  next
    case False
    show ?thesis
    proof
      assume l: ?l
      then obtain p d where p: "map_of c pid = Some p" "rec_Definition p = Some d" "\<not> rec_Retired p"
        "pid \<notin> set seen" "same_family r base p"
        "parent_loop c r base n (pid # seen) (def_ParentID d) = None"
        using False by (subst (asm) parent_loop.simps)
          (auto simp: same_family_def split: option.splits if_splits)
      then obtain ps where ps: "parent_chain c (def_ParentID d) ps" "length ps \<le> n"
        "distinct (map rec_ID ps)" "rec_ID ` set ps \<inter> set (pid # seen) = {}"
        "\<forall>p\<in>set ps. same_family r base p"
        using Suc.IH by blast
      moreover have "rec_ID p = pid" using assms p(1) by (rule catalog_ok_id)
      ultimately show ?r using p False by (intro exI [of _ "p # ps"]) auto
    next
      assume ?r
      then obtain qs where qs: "parent_chain c pid qs" "length qs \<le> Suc n" "distinct (map rec_ID qs)"
        "rec_ID ` set qs \<inter> set seen = {}" "\<forall>p\<in>set qs. same_family r base p" by blast
      with False obtain p ps d where p: "qs = p # ps" "map_of c pid = Some p" "\<not> rec_Retired p"
        "rec_Definition p = Some d" "parent_chain c (def_ParentID d) ps"
        by (cases qs) auto
      moreover have "rec_ID p = pid" using assms p(2) by (rule catalog_ok_id)
      moreover have "parent_loop c r base n (pid # seen) (def_ParentID d) = None"
        unfolding Suc.IH using qs p \<open>rec_ID p = pid\<close> by (intro exI [of _ ps]) auto
      ultimately show ?l using qs False
        by (subst parent_loop.simps) (auto simp: same_family_def)
    qed
  qed
qed

lemma parent_chain_unique:
  "parent_chain c pid ps \<Longrightarrow> parent_chain c pid qs \<Longrightarrow> ps = qs"
proof (induction ps arbitrary: pid qs)
  case Nil
  then show ?case by (cases qs) auto
next
  case (Cons p ps)
  then show ?case by (cases qs) auto
qed

section \<open>Names\<close>

lemma add_names_Some:
  "add_names rid names keys = Some names' \<longleftrightarrow>
     (\<forall>k\<in>set keys. names k \<in> {None, Some rid})
     \<and> names' = (\<lambda>k. if k \<in> set keys then Some rid else names k)"
proof (induction keys arbitrary: names)
  case Nil
  then show ?case by auto
next
  case (Cons k keys)
  have ih: "add_names rid (names(k \<mapsto> rid)) keys = Some names' \<longleftrightarrow>
      (\<forall>k'\<in>set keys. (names(k \<mapsto> rid)) k' \<in> {None, Some rid})
      \<and> names' = (\<lambda>k'. if k' \<in> set keys then Some rid else (names(k \<mapsto> rid)) k')"
    by (rule Cons.IH)
  have eq: "(\<lambda>k'. if k' \<in> set keys then Some rid else (names(k \<mapsto> rid)) k')
      = (\<lambda>k'. if k' \<in> set (k # keys) then Some rid else names k')" by auto
  show ?case
    using ih unfolding eq by (auto split: option.splits if_splits)
qed

definition live_definition :: "onto_record \<Rightarrow> bool" where
  "live_definition r \<longleftrightarrow> rec_Definition r \<noteq> None \<and> \<not> rec_Retired r"

definition names_of :: "onto_record \<Rightarrow> string set" where
  "names_of r = name_key r ` set (DefinitionNames r)"

definition hierarchy_ok :: "catalog \<Rightarrow> onto_record \<Rightarrow> bool" where
  "hierarchy_ok c r \<longleftrightarrow> (\<forall>d. rec_Definition r = Some d \<longrightarrow>
     (\<exists>ps. parent_chain c (def_ParentID d) ps \<and> length ps \<le> MaxParentDepth
        \<and> distinct (rec_ID r # map rec_ID ps) \<and> (\<forall>p\<in>set ps. same_family r (def_BaseEntityKind d) p)))"

text \<open>Claiming the names of one record before the others, or checking all pairs, is the same.\<close>

lemma claim_names_one:
  assumes "\<forall>k\<in>A. names k \<in> {None, Some i}"
  shows "(\<forall>k\<in>B. (if k \<in> A then Some i else names k) \<in> {None, Some j}) \<longleftrightarrow>
    (\<forall>k\<in>B. names k \<in> {None, Some j}) \<and> (A \<inter> B \<noteq> {} \<longrightarrow> i = j)"
proof (cases "A \<inter> B = {}")
  case True
  then have "\<forall>k\<in>B. k \<notin> A" by blast
  with True show ?thesis by simp
next
  case False
  then show ?thesis using assms by (cases "i = j") (auto split: if_splits)
qed

lemma claim_names:
  fixes n :: "'r \<Rightarrow> 'k set" and i :: "'r \<Rightarrow> 'i"
  shows "(\<forall>k\<in>n r. names k \<in> {None, Some (i r)})
      \<and> (\<forall>q\<in>Q. \<forall>k\<in>n q. (if k \<in> n r then Some (i r) else names k) \<in> {None, Some (i q)})
      \<and> (\<forall>p\<in>Q. \<forall>q\<in>Q. n p \<inter> n q \<noteq> {} \<longrightarrow> i p = i q) \<longleftrightarrow>
    (\<forall>q\<in>insert r Q. \<forall>k\<in>n q. names k \<in> {None, Some (i q)})
      \<and> (\<forall>p\<in>insert r Q. \<forall>q\<in>insert r Q. n p \<inter> n q \<noteq> {} \<longrightarrow> i p = i q)"
proof (cases "\<forall>k\<in>n r. names k \<in> {None, Some (i r)}")
  case True
  have "(\<forall>p\<in>insert r Q. \<forall>q\<in>insert r Q. n p \<inter> n q \<noteq> {} \<longrightarrow> i p = i q) \<longleftrightarrow>
      (\<forall>q\<in>Q. n r \<inter> n q \<noteq> {} \<longrightarrow> i r = i q) \<and> (\<forall>p\<in>Q. \<forall>q\<in>Q. n p \<inter> n q \<noteq> {} \<longrightarrow> i p = i q)"
    by (metis Int_commute insert_iff)
  then show ?thesis using True claim_names_one [OF True] by (simp add: ball_conj_distrib)
next
  case False
  then show ?thesis by auto
qed

lemma definitions_loop_None:
  assumes "catalog_ok c"
  shows "definitions_loop c names rs = None \<longleftrightarrow>
    (\<forall>r\<in>set rs. live_definition r \<longrightarrow> hierarchy_ok c r
       \<and> (\<forall>k\<in>names_of r. names k \<in> {None, Some (rec_ID r)}))
    \<and> (\<forall>r\<in>set rs. \<forall>q\<in>set rs. live_definition r \<and> live_definition q
         \<and> names_of r \<inter> names_of q \<noteq> {} \<longrightarrow> rec_ID r = rec_ID q)"
proof (induction rs arbitrary: names)
  case Nil
  then show ?case by simp
next
  case (Cons r rs)
  show ?case
  proof (cases "live_definition r")
    case False
    then have "definitions_loop c names (r # rs) = definitions_loop c names rs"
      by (auto simp: live_definition_def split: option.splits)
    then show ?thesis using False Cons.IH [of names] by auto
  next
    case True
    then obtain d where d: "rec_Definition r = Some d" "\<not> rec_Retired r"
      by (auto simp: live_definition_def)
    define names' where "names' = (\<lambda>k. if k \<in> names_of r then Some (rec_ID r) else names k)"
    have set_keys: "set (map (name_key r) (DefinitionNames r)) = names_of r" by (simp add: names_of_def)
    have add: "add_names (rec_ID r) names (map (name_key r) (DefinitionNames r)) =
        (if \<forall>k\<in>names_of r. names k \<in> {None, Some (rec_ID r)} then Some names' else None)"
      using add_names_Some [of "rec_ID r" names "map (name_key r) (DefinitionNames r)"]
      unfolding set_keys names'_def
      by (cases "add_names (rec_ID r) names (map (name_key r) (DefinitionNames r))") auto
    have par: "parent_loop c r (def_BaseEntityKind d) MaxParentDepth [rec_ID r] (def_ParentID d) = None
        \<longleftrightarrow> hierarchy_ok c r"
      unfolding parent_loop_None [OF assms] hierarchy_ok_def using d by auto
    let ?Q = "{q \<in> set rs. live_definition q}"
    have "definitions_loop c names (r # rs) = None \<longleftrightarrow>
        (\<forall>k\<in>names_of r. names k \<in> {None, Some (rec_ID r)}) \<and> hierarchy_ok c r
        \<and> definitions_loop c names' rs = None"
      using d add par by (auto split: option.splits)
    also have "\<dots> \<longleftrightarrow> (hierarchy_ok c r \<and> (\<forall>q\<in>?Q. hierarchy_ok c q))
        \<and> ((\<forall>k\<in>names_of r. names k \<in> {None, Some (rec_ID r)})
          \<and> (\<forall>q\<in>?Q. \<forall>k\<in>names_of q. (if k \<in> names_of r then Some (rec_ID r) else names k)
               \<in> {None, Some (rec_ID q)})
          \<and> (\<forall>p\<in>?Q. \<forall>q\<in>?Q. names_of p \<inter> names_of q \<noteq> {} \<longrightarrow> rec_ID p = rec_ID q))"
      unfolding Cons.IH names'_def by blast
    also have "\<dots> \<longleftrightarrow> (\<forall>q\<in>insert r ?Q. hierarchy_ok c q)
        \<and> (\<forall>q\<in>insert r ?Q. \<forall>k\<in>names_of q. names k \<in> {None, Some (rec_ID q)})
        \<and> (\<forall>p\<in>insert r ?Q. \<forall>q\<in>insert r ?Q. names_of p \<inter> names_of q \<noteq> {} \<longrightarrow> rec_ID p = rec_ID q)"
      unfolding claim_names by simp
    also have "insert r ?Q = {q \<in> set (r # rs). live_definition q}" using True by auto
    finally show ?thesis by blast
  qed
qed

lemma ValidateDefinitions_None:
  assumes "catalog_ok c"
  shows "ValidateDefinitions c = None \<longleftrightarrow>
    (\<forall>r\<in>snd ` set c. live_definition r \<longrightarrow> hierarchy_ok c r)
    \<and> (\<forall>r\<in>snd ` set c. \<forall>q\<in>snd ` set c. live_definition r \<and> live_definition q
         \<and> names_of r \<inter> names_of q \<noteq> {} \<longrightarrow> rec_ID r = rec_ID q)"
  unfolding ValidateDefinitions_def definitions_loop_None [OF assms] by simp

text \<open>C33 (definitions_valid_iff): a catalog passes \<open>ValidateDefinitions\<close>, in whatever order its
  entries are visited, exactly when every live definition has a chain of live parents of its own
  kind (and, for classes, of its own base entity kind) that ends at a root within 32 steps and never
  repeats a record, and no two different live definitions of one kind share a normalized key, label
  or alias.\<close>

theorem definitions_valid_iff:
  assumes "catalog_ok c"
  shows "ValidateDefinitions c = None \<longleftrightarrow>
    (\<forall>r\<in>snd ` set c. live_definition r \<longrightarrow> hierarchy_ok c r)
    \<and> (\<forall>r\<in>snd ` set c. \<forall>q\<in>snd ` set c. live_definition r \<and> live_definition q
         \<and> names_of r \<inter> names_of q \<noteq> {} \<longrightarrow> rec_ID r = rec_ID q)"
  using assms by (rule ValidateDefinitions_None)

definition sample_topic :: "string \<Rightarrow> string \<Rightarrow> string \<Rightarrow> onto_record" where
  "sample_topic rid key parent = zero_record\<lparr>rec_ID := rid, rec_Kind := Topic, rec_Definition :=
     Some \<lparr>def_Key = key, def_Label = key, def_Description = [], def_Aliases = None,
           def_ParentID = parent, def_BaseEntityKind = []\<rparr>\<rparr>"

definition sample_catalog :: catalog where
  "sample_catalog = [(''id-1'', sample_topic ''id-1'' ''tools'' ''id-2''),
                     (''id-2'', sample_topic ''id-2'' ''work'' [])]"

lemma sample_catalog_ok: "catalog_ok sample_catalog"
  by (simp add: catalog_ok_def sample_catalog_def sample_topic_def zero_record_def)

theorem definitions_valid_iff_witness:
  "catalog_ok sample_catalog
     \<and> filter (\<lambda>r. live_definition r \<and> \<not> hierarchy_ok sample_catalog r) (map snd sample_catalog) = []"
proof -
  have n: "NormalizeName ''tools'' = ''tools''" "NormalizeName ''work'' = ''work''"
    by (simp_all add: NormalizeName_def go_string_eval byte_of_def)
  have "ValidateDefinitions sample_catalog = None"
    by (simp add: ValidateDefinitions_def sample_catalog_def sample_topic_def zero_record_def n
        DefinitionNames_def name_key_def sorted_keys_def MaxParentDepth_def kind_defs
        parent_loop.simps eval_nat_numeral)
  then show ?thesis
    using definitions_valid_iff [OF sample_catalog_ok] sample_catalog_ok by (simp add: filter_empty_conv)
qed

section \<open>Overrides\<close>

lemma CheckOverrides_None:
  assumes "rec_Kind r \<noteq> OverrideKind"
  shows "CheckOverrides r c = None \<longleftrightarrow>
    (\<forall>k cand ov. (k, cand) \<in> set c \<and> \<not> rec_Retired cand \<and> rec_Override cand = Some ov
       \<and> override_applies r (map SourceKey (RequiredSources r)) ov \<longrightarrow> check_override r ov = None)"
  using assms by (simp add: CheckOverrides_def ApplicableOverrides_def) (force split: option.splits)

definition member_keys :: "source_handle slice \<Rightarrow> string list" where
  "member_keys ms = map SourceKey (elems ms)"

lemma group_applies:
  assumes "rec_Group r = Some g" and "ovr_Action ov \<in> {GroupTogether, KeepSeparate}"
    and "m \<in> set (elems (ovr_Members ov))" and "SourceKey m \<in> set (member_keys (grp_Members g))"
  shows "override_applies r (map SourceKey (RequiredSources r)) ov"
  using assms by (auto simp: override_applies_def action_defs RequiredSources_def member_keys_def)

lemma separate_kept:
  assumes rule: "override_applies r (map SourceKey (RequiredSources r)) ov \<Longrightarrow> check_override r ov = None"
    and "ovr_Action ov = KeepSeparate" and "rec_Group r = Some g" and "\<not> rec_Retired r"
  shows "length (filter (\<lambda>key. key \<in> set (member_keys (grp_Members g))) (member_keys (ovr_Members ov))) \<le> 1"
proof (cases "\<exists>m\<in>set (elems (ovr_Members ov)). SourceKey m \<in> set (member_keys (grp_Members g))")
  case True
  then have "check_override r ov = None" using rule group_applies assms by blast
  then show ?thesis
    using assms by (simp add: check_override_def action_defs member_keys_def filter_map o_def Let_def
        split: if_splits)
next
  case False
  then have "filter (\<lambda>key. key \<in> set (member_keys (grp_Members g))) (member_keys (ovr_Members ov)) = []"
    by (auto simp: member_keys_def)
  then show ?thesis by simp
qed

lemma together_kept:
  assumes rule: "override_applies r (map SourceKey (RequiredSources r)) ov \<Longrightarrow> check_override r ov = None"
    and a: "ovr_Action ov = GroupTogether" "rec_Group r = Some g"
    and meet: "set (member_keys (ovr_Members ov)) \<inter> set (member_keys (grp_Members g)) \<noteq> {}"
  shows "\<not> rec_Retired r \<and> set (member_keys (ovr_Members ov)) \<subseteq> set (member_keys (grp_Members g))"
proof -
  let ?P = "\<lambda>s. SourceKey s \<in> set (member_keys (grp_Members g))"
  obtain m where m: "m \<in> set (elems (ovr_Members ov))" "?P m"
    using meet by (auto simp: member_keys_def)
  then have "check_override r ov = None" using rule group_applies a by blast
  moreover have "0 < length (filter ?P (elems (ovr_Members ov)))"
    using m by (auto simp: filter_empty_conv)
  ultimately have "\<not> rec_Retired r" "length (filter ?P (elems (ovr_Members ov))) = length (elems (ovr_Members ov))"
    using a by (auto simp: check_override_def action_defs member_keys_def Let_def split: if_splits)
  then have "\<forall>s\<in>set (elems (ovr_Members ov)). ?P s" by (metis filter_id_conv length_filter_less less_irrefl)
  with \<open>\<not> rec_Retired r\<close> show ?thesis by (auto simp: member_keys_def)
qed

text \<open>(automatic_change_respects_overrides): a record that passes \<open>CheckOverrides\<close> leaves every live
  manager rule intact: a pinned definition is not touched, a classified source keeps the manager's
  definition, a live group never joins two sources that must stay separate, and a group that
  contains a source of a together-rule is live and contains all of them.\<close>

theorem automatic_change_respects_overrides:
  assumes "CheckOverrides r c = None" and "rec_Kind r \<noteq> OverrideKind"
    and "(k, cand) \<in> set c" and "\<not> rec_Retired cand" and "rec_Override cand = Some ov"
  shows "(ovr_Action ov = PinDefinition \<and> ovr_TargetID ov = rec_ID r \<longrightarrow> rec_Definition r = None)
    \<and> (\<forall>a. ovr_Action ov = SetClassification \<and> rec_Assignment r = Some a
         \<and> SourceKey (asg_Source a) \<in> set (member_keys (ovr_Members ov))
         \<longrightarrow> \<not> rec_Retired r \<and> asg_DefinitionID a = ovr_DefinitionID ov)
    \<and> (\<forall>g. ovr_Action ov = KeepSeparate \<and> rec_Group r = Some g \<and> \<not> rec_Retired r
         \<longrightarrow> length (filter (\<lambda>key. key \<in> set (member_keys (grp_Members g))) (member_keys (ovr_Members ov))) \<le> 1)
    \<and> (\<forall>g. ovr_Action ov = GroupTogether \<and> rec_Group r = Some g
         \<and> set (member_keys (ovr_Members ov)) \<inter> set (member_keys (grp_Members g)) \<noteq> {}
         \<longrightarrow> \<not> rec_Retired r \<and> set (member_keys (ovr_Members ov)) \<subseteq> set (member_keys (grp_Members g)))"
proof -
  have rule: "override_applies r (map SourceKey (RequiredSources r)) ov \<Longrightarrow> check_override r ov = None"
    using assms CheckOverrides_None by blast
  show ?thesis
  proof (intro conjI allI impI)
    assume a: "ovr_Action ov = PinDefinition \<and> ovr_TargetID ov = rec_ID r"
    then show "rec_Definition r = None"
      using rule by (cases "rec_Definition r") (simp_all add: override_applies_def check_override_def)
  next
    fix a assume a: "ovr_Action ov = SetClassification \<and> rec_Assignment r = Some a
      \<and> SourceKey (asg_Source a) \<in> set (member_keys (ovr_Members ov))"
    then have "override_applies r (map SourceKey (RequiredSources r)) ov"
      by (auto simp: override_applies_def action_defs RequiredSources_def member_keys_def)
    then show "\<not> rec_Retired r" "asg_DefinitionID a = ovr_DefinitionID ov"
      using rule a by (auto simp: check_override_def action_defs split: if_splits)
  next
    fix g assume a: "ovr_Action ov = KeepSeparate \<and> rec_Group r = Some g \<and> \<not> rec_Retired r"
    show "length (filter (\<lambda>key. key \<in> set (member_keys (grp_Members g))) (member_keys (ovr_Members ov))) \<le> 1"
      using separate_kept [OF rule] a by blast
  next
    fix g assume a: "ovr_Action ov = GroupTogether \<and> rec_Group r = Some g
      \<and> set (member_keys (ovr_Members ov)) \<inter> set (member_keys (grp_Members g)) \<noteq> {}"
    then show "\<not> rec_Retired r" "set (member_keys (ovr_Members ov)) \<subseteq> set (member_keys (grp_Members g))"
      using together_kept [OF rule] by blast+
  qed
qed

definition sample_handle :: "string \<Rightarrow> source_handle" where
  "sample_handle sid = \<lparr>sh_Kind = EvidenceSource, sh_ID = sid, sh_Version = 1\<rparr>"

definition sample_separation :: override_body where
  "sample_separation = \<lparr>ovr_Action = KeepSeparate, ovr_TargetID = [], ovr_DefinitionID = [],
     ovr_Members = Some [sample_handle ''id-1'', sample_handle ''id-2'']\<rparr>"

definition sample_group_body :: group_body where
  "sample_group_body = \<lparr>grp_Members = Some [sample_handle ''id-1'', sample_handle ''id-3''],
                        grp_AssessmentID = []\<rparr>"

definition sample_group :: onto_record where
  "sample_group = zero_record\<lparr>rec_ID := ''id-4'', rec_Kind := EvidenceGroup,
     rec_Group := Some sample_group_body\<rparr>"

definition sample_rule :: onto_record where
  "sample_rule = zero_record\<lparr>rec_ID := ''id-2'', rec_Kind := OverrideKind,
     rec_Override := Some sample_separation\<rparr>"

theorem automatic_change_respects_overrides_witness:
  "CheckOverrides sample_group [(''id-2'', sample_rule)] = None
   \<and> length (filter (\<lambda>key. key \<in> set (member_keys (grp_Members sample_group_body)))
       (member_keys (ovr_Members sample_separation))) \<le> 1"
proof -
  have a: "CheckOverrides sample_group [(''id-2'', sample_rule)] = None"
    by (simp add: CheckOverrides_def ApplicableOverrides_def sample_rule_def sample_separation_def
        sample_group_def sample_group_body_def zero_record_def kind_defs override_applies_def action_defs
        RequiredSources_def SourceKey_def sample_handle_def check_override_def Let_def
        split: if_splits)
  have "rec_Kind sample_group \<noteq> OverrideKind" "\<not> rec_Retired sample_rule"
    "rec_Override sample_rule = Some sample_separation"
    by (simp_all add: sample_group_def sample_rule_def zero_record_def kind_defs)
  note r = automatic_change_respects_overrides [OF a this(1) list.set_intros(1) this(2,3)]
  have "ovr_Action sample_separation = KeepSeparate" "rec_Group sample_group = Some sample_group_body"
    "\<not> rec_Retired sample_group"
    by (simp_all add: sample_separation_def sample_group_def zero_record_def)
  with r a show ?thesis by blast
qed

end
