(* ===== verification/Onto_Dependencies.thy ===== *)
theory Onto_Dependencies
  imports Onto_Catalog
begin

text \<open>
  Dependencies and freshness: the references a record's meaning depends on
  (\<open>dependenciesFor\<close> in \<open>ontology/contract/fingerprint.go\<close>), its fingerprint over sources and
  dependencies, and the depth-first traversal \<open>DependencyRecords\<close> of
  \<open>ontology/contract/dependencies.go\<close> that a publication and a read check it with.
\<close>

section \<open>The references of a record\<close>

definition parent_ref :: "catalog \<Rightarrow> string \<Rightarrow> string list" where
  "parent_ref c rid =
     (case map_of c rid of
        None \<Rightarrow> []
      | Some r \<Rightarrow> (case rec_Definition r of
                    None \<Rightarrow> []
                  | Some d \<Rightarrow> if def_ParentID d \<noteq> [] then [def_ParentID d] else []))"

text \<open>
  The loop \<open>for len(pending) > 0\<close>: every step drops an id from \<open>pending\<close>, and an id that is new may
  append its parent. It ends because only ids of the catalog append, and each of them once.
\<close>

function close_refs :: "catalog \<Rightarrow> string \<Rightarrow> string list \<Rightarrow> string list \<Rightarrow> string list" where
  "close_refs c self seen [] = seen"
| "close_refs c self seen (rid # pending) =
     (if rid \<in> set seen \<or> rid = self then close_refs c self seen pending
      else close_refs c self (rid # seen) (pending @ parent_ref c rid))"
  by pat_completeness auto
termination
proof (relation "measures [\<lambda>(c, self, seen, pending). card (set (map fst c) - set seen),
                           \<lambda>(c, self, seen, pending). length pending]", goal_cases)
  case 1
  then show ?case by simp
next
  case 2
  then show ?case by simp
next
  case (3 c self seen rid pending)
  show ?case
  proof (cases "rid \<in> fst ` set c")
    case True
    with 3 have "fst ` set c - set (rid # seen) \<subset> fst ` set c - set seen" by auto
    then have "card (fst ` set c - set (rid # seen)) < card (fst ` set c - set seen)"
      by (intro psubset_card_mono) auto
    then show ?thesis by simp
  next
    case False
    then have "parent_ref c rid = []"
      by (auto simp: parent_ref_def split: option.splits dest: map_of_SomeD)
        (metis fst_conv image_eqI map_of_SomeD)
    moreover have "fst ` set c - set (rid # seen) = fst ` set c - set seen" using False by auto
    ultimately show ?thesis by simp
  qed
qed

definition dependency_ids :: "onto_record \<Rightarrow> catalog \<Rightarrow> string list" where
  "dependency_ids r c =
     close_refs c (rec_ID r) [] (ReferenceIDs r)
     @ (if rec_Definition r = None then map rec_ID (ApplicableOverrides r c) else [])"

definition dependenciesFor :: "onto_record \<Rightarrow> catalog \<Rightarrow> revision_ref list" where
  "dependenciesFor r c =
     map (\<lambda>rid. \<lparr>ref_ID = rid, ref_Version = rec_Version (catalog_get c rid)\<rparr>)
       (sorted_keys (dependency_ids r c))"

section \<open>Fingerprints\<close>

definition source_less :: "source_handle \<Rightarrow> source_handle \<Rightarrow> bool" where
  "source_less a b =
     (let left = SourceKey a; right = SourceKey b
      in if left \<noteq> right then left < right else sh_Version a < sh_Version b)"

definition sortedSources :: "source_handle list \<Rightarrow> source_handle slice" where
  "sortedSources sources = (if sources = [] then None else Some (go_sort source_less sources))"

definition fingerprintSnapshot ::
  "externals \<Rightarrow> snapshots \<Rightarrow> source_handle \<Rightarrow> onto_error + string" where
  "fingerprintSnapshot X snaps handle =
     (case snaps (SourceKey handle) of
        None \<Rightarrow> Inl ErrSourceStale
      | Some s \<Rightarrow> if \<not> snap_Eligible s \<or> snap_Source s \<noteq> handle then Inl ErrSourceStale
                  else Inr (x_hash X (HashSource s)))"

definition CheckSourceDependencies :: "externals \<Rightarrow> onto_record \<Rightarrow> snapshots \<Rightarrow> onto_error option" where
  "CheckSourceDependencies X r snaps =
     first_error (\<lambda>dep. case fingerprintSnapshot X snaps (sd_Source dep) of
                          Inl e \<Rightarrow> Some e
                        | Inr f \<Rightarrow> if f \<noteq> sd_Fingerprint dep then Some ErrSourceStale else None)
       (elems (rec_Sources r))"

fun source_texts :: "externals \<Rightarrow> snapshots \<Rightarrow> source_dependency list \<Rightarrow> onto_error + string list" where
  "source_texts X snaps [] = Inr []"
| "source_texts X snaps (dep # deps) =
     (case fingerprintSnapshot X snaps (sd_Source dep) of
        Inl e \<Rightarrow> Inl e
      | Inr f \<Rightarrow>
          (case source_texts X snaps deps of
             Inl e \<Rightarrow> Inl e
           | Inr texts \<Rightarrow> Inr ((SourceKey (sd_Source dep) @ '':'' @ f) # texts)))"

definition RecordFingerprint ::
  "externals \<Rightarrow> onto_record \<Rightarrow> snapshots \<Rightarrow> catalog \<Rightarrow> onto_error + string" where
  "RecordFingerprint X r snaps c =
     (if rec_Retired r then Inr (x_hash X (HashRetired (r\<lparr>rec_Fingerprint := []\<rparr>)))
      else case source_texts X snaps (elems (rec_Sources r)) of
        Inl e \<Rightarrow> Inl e
      | Inr texts \<Rightarrow>
          if \<exists>ref\<in>set (elems (rec_Dependencies r)).
               (case map_of c (ref_ID ref) of None \<Rightarrow> True | Some d \<Rightarrow> rec_Retired d)
          then Inl ErrSourceStale
          else Inr (x_hash X (HashRecord
            \<lparr>hr_ID = rec_ID r, hr_Kind = rec_Kind r, hr_Retired = rec_Retired r,
             hr_Definition = map_option (\<lambda>d. d\<lparr>def_Aliases := appended (sort_strings (elems (def_Aliases d)))\<rparr>)
               (rec_Definition r),
             hr_Assignment = rec_Assignment r,
             hr_Group = map_option (\<lambda>g. g\<lparr>grp_Members := sortedSources (elems (grp_Members g))\<rparr>)
               (rec_Group r),
             hr_Override = map_option (\<lambda>ov. ov\<lparr>ovr_Members := sortedSources (elems (ovr_Members ov))\<rparr>)
               (rec_Override r),
             hr_Sources = sort_strings texts,
             hr_Dependencies = dependenciesFor r c\<rparr>)))"

section \<open>Depth-first traversal\<close>

definition MaxDependencyRecords :: nat where "MaxDependencyRecords = 2048"

text \<open>
  \<open>state\<close> maps an id to 1 while its record is being visited and to 2 when it is done; \<open>result\<close> is the
  slice appended to so far. The recursion stops at depth 32: \<open>left\<close> is \<open>MaxParentDepth + 1 - depth\<close>.
\<close>

record visit_state =
  vs_State :: "(string \<times> nat) list"
  vs_Result :: "onto_record list"

definition mark :: "string \<Rightarrow> nat \<Rightarrow> visit_state \<Rightarrow> visit_state" where
  "mark rid n st = st\<lparr>vs_State := AList.update rid n (vs_State st)\<rparr>"

fun visit :: "catalog \<Rightarrow> nat \<Rightarrow> visit_state \<Rightarrow> onto_record \<Rightarrow> onto_error + visit_state"
  and visit_refs :: "catalog \<Rightarrow> nat \<Rightarrow> visit_state \<Rightarrow> revision_ref list \<Rightarrow> onto_error + visit_state" where
  "visit c left st r =
     (if map_of (vs_State st) (rec_ID r) = Some 1 then Inl ErrInvalid
      else if map_of (vs_State st) (rec_ID r) = Some 2 then Inr st
      else case left of
        0 \<Rightarrow> Inl ErrContextBound
      | Suc n \<Rightarrow>
          if length (vs_State st) \<ge> MaxDependencyRecords then Inl ErrContextBound
          else case (if rec_Retired r then Inr (mark (rec_ID r) 1 st)
                     else visit_refs c n (mark (rec_ID r) 1 st) (dependenciesFor r c)) of
            Inl e \<Rightarrow> Inl e
          | Inr st' \<Rightarrow> Inr ((mark (rec_ID r) 2 st')\<lparr>vs_Result := vs_Result st' @ [r]\<rparr>))"
| "visit_refs c n st [] = Inr st"
| "visit_refs c n st (ref # refs) =
     (case map_of c (ref_ID ref) of
        None \<Rightarrow> Inl ErrDependencyStale
      | Some d \<Rightarrow>
          if rec_Retired d then Inl ErrDependencyStale
          else case visit c n st d of
            Inl e \<Rightarrow> Inl e
          | Inr st' \<Rightarrow> visit_refs c n st' refs)"

fun visit_roots :: "catalog \<Rightarrow> visit_state \<Rightarrow> onto_record list \<Rightarrow> onto_error + visit_state" where
  "visit_roots c st [] = Inr st"
| "visit_roots c st (r # rs) =
     (case visit c (MaxParentDepth + 1) st r of
        Inl e \<Rightarrow> Inl e
      | Inr st' \<Rightarrow> visit_roots c st' rs)"

definition DependencyRecords :: "onto_record list \<Rightarrow> catalog \<Rightarrow> onto_error + onto_record list" where
  "DependencyRecords rs c =
     (case visit_roots c \<lparr>vs_State = [], vs_Result = []\<rparr> rs of
        Inl e \<Rightarrow> Inl e
      | Inr st \<Rightarrow> Inr (vs_Result st))"

definition CheckDependencies ::
  "externals \<Rightarrow> onto_record list \<Rightarrow> snapshots \<Rightarrow> catalog \<Rightarrow> onto_error option" where
  "CheckDependencies X rs snaps c =
     (case DependencyRecords rs c of
        Inl e \<Rightarrow> Some e
      | Inr deps \<Rightarrow>
          first_error (\<lambda>r. if rec_ID r \<in> set (map rec_ID rs) then None
                           else case RecordFingerprint X r snaps c of
                             Inl e \<Rightarrow> Some e
                           | Inr f \<Rightarrow> if f \<noteq> rec_Fingerprint r then Some ErrSourceStale else None)
            deps)"

section \<open>The closure computed by the loop\<close>

inductive reaches :: "catalog \<Rightarrow> string \<Rightarrow> string set \<Rightarrow> string \<Rightarrow> bool" for c self S where
  start: "x \<in> S \<Longrightarrow> x \<noteq> self \<Longrightarrow> reaches c self S x"
| parent: "reaches c self S y \<Longrightarrow> p \<in> set (parent_ref c y) \<Longrightarrow> p \<noteq> self \<Longrightarrow> reaches c self S p"

lemma reaches_not_self: "reaches c self S x \<Longrightarrow> x \<noteq> self"
  by (induction rule: reaches.induct) auto

lemma reaches_through:
  assumes "reaches c self (S \<union> set (parent_ref c rid)) x" and "rid \<noteq> self"
  shows "reaches c self (insert rid S) x"
  using assms(1)
proof (induction rule: reaches.induct)
  case (start x)
  then show ?case using assms(2) by (auto intro: reaches.intros)
next
  case (parent y p)
  then show ?case by (auto intro: reaches.intros)
qed

lemma reaches_mono: "reaches c self S x \<Longrightarrow> S \<subseteq> T \<Longrightarrow> reaches c self T x"
  by (induction rule: reaches.induct) (auto intro: reaches.intros)

lemma close_refs_sound:
  "x \<in> set (close_refs c self seen pending) \<Longrightarrow> x \<in> set seen \<or> reaches c self (set pending) x"
proof (induction c self seen pending rule: close_refs.induct)
  case (1 c self seen)
  then show ?case by simp
next
  case (2 c self seen rid pending)
  show ?case
  proof (cases "rid \<in> set seen \<or> rid = self")
    case True
    then have "x \<in> set seen \<or> reaches c self (set pending) x" using 2 by simp
    then show ?thesis using reaches_mono [of c self "set pending" x "set (rid # pending)"] by auto
  next
    case False
    then have "x \<in> set (rid # seen) \<or> reaches c self (set pending \<union> set (parent_ref c rid)) x"
      using 2 by simp
    then show ?thesis
      using False reaches_through [of c self "set pending" rid x]
      by (auto intro: reaches.start)
  qed
qed

lemma close_refs_closed:
  assumes "\<forall>y\<in>set seen. set (parent_ref c y) \<subseteq> set seen \<union> set pending \<union> {self}"
  shows "set seen \<subseteq> set (close_refs c self seen pending)
    \<and> set pending - {self} \<subseteq> set (close_refs c self seen pending)
    \<and> (\<forall>y\<in>set (close_refs c self seen pending).
         set (parent_ref c y) - {self} \<subseteq> set (close_refs c self seen pending))"
  using assms
proof (induction c self seen pending rule: close_refs.induct)
  case (1 c self seen)
  then show ?case by auto
next
  case (2 c self seen rid pending)
  show ?case
  proof (cases "rid \<in> set seen \<or> rid = self")
    case True
    have "\<forall>y\<in>set seen. set (parent_ref c y) \<subseteq> set seen \<union> set pending \<union> {self}"
      using True 2(3) by auto
    with 2(1) [OF True] True show ?thesis by auto
  next
    case False
    have "\<forall>y\<in>set (rid # seen). set (parent_ref c y)
        \<subseteq> set (rid # seen) \<union> set (pending @ parent_ref c rid) \<union> {self}"
      using 2(3) by auto
    note ih = 2(2) [OF False this]
    from False have eq: "close_refs c self seen (rid # pending)
        = close_refs c self (rid # seen) (pending @ parent_ref c rid)" by simp
    from ih show ?thesis unfolding eq by auto
  qed
qed

lemma set_close_refs:
  "set (close_refs c self [] pending) = {x. reaches c self (set pending) x}"
proof (intro subset_antisym subsetI)
  fix x assume "x \<in> set (close_refs c self [] pending)"
  then show "x \<in> {x. reaches c self (set pending) x}" using close_refs_sound by fastforce
next
  fix x assume "x \<in> {x. reaches c self (set pending) x}"
  then have "reaches c self (set pending) x" by simp
  then show "x \<in> set (close_refs c self [] pending)"
  proof (induction rule: reaches.induct)
    case (start x)
    then show ?case using close_refs_closed [of "[]" c pending self] by auto
  next
    case (parent y p)
    then show ?case using close_refs_closed [of "[]" c pending self] by auto
  qed
qed

lemma ids_dependenciesFor [simp]: "map ref_ID (dependenciesFor r c) = sorted_keys (dependency_ids r c)"
  by (simp add: dependenciesFor_def o_def)



section \<open>The traversal\<close>

definition grey :: "visit_state \<Rightarrow> string set" where
  "grey st = {i. map_of (vs_State st) i = Some 1}"

definition black :: "visit_state \<Rightarrow> string set" where
  "black st = {i. map_of (vs_State st) i = Some 2}"

definition live_in :: "catalog \<Rightarrow> string \<Rightarrow> bool" where
  "live_in c i \<longleftrightarrow> (\<exists>d. map_of c i = Some d \<and> \<not> rec_Retired d)"

text \<open>Every live record of the list comes after all its dependencies, which are live in the catalog.\<close>

fun dependencies_first :: "catalog \<Rightarrow> string set \<Rightarrow> onto_record list \<Rightarrow> bool" where
  "dependencies_first c done [] \<longleftrightarrow> True"
| "dependencies_first c done (r # rs) \<longleftrightarrow>
     (\<not> rec_Retired r \<longrightarrow> (\<forall>ref\<in>set (dependenciesFor r c). ref_ID ref \<in> done \<and> live_in c (ref_ID ref)))
     \<and> dependencies_first c (insert (rec_ID r) done) rs"

lemma dependencies_first_append:
  "dependencies_first c done (xs @ ys) \<longleftrightarrow>
     dependencies_first c done xs \<and> dependencies_first c (done \<union> rec_ID ` set xs) ys"
  by (induction xs arbitrary: "done") (auto simp: insert_commute)

definition visit_inv :: "catalog \<Rightarrow> visit_state \<Rightarrow> bool" where
  "visit_inv c st \<longleftrightarrow>
     black st = rec_ID ` set (vs_Result st) \<and> distinct (map rec_ID (vs_Result st))
     \<and> dependencies_first c {} (vs_Result st)
     \<and> length (vs_State st) \<le> MaxDependencyRecords"

lemma mark_sets:
  "grey (mark i (Suc 0) st) = insert i (grey st)" "grey (mark i 2 st) = grey st - {i}"
  "black (mark i (Suc 0) st) = black st - {i}" "black (mark i 2 st) = insert i (black st)"
  "vs_Result (mark i n st) = vs_Result st"
  by (auto simp: grey_def black_def mark_def)

lemma grey_black_Result [simp]:
  "grey (st\<lparr>vs_Result := x\<rparr>) = grey st" "black (st\<lparr>vs_Result := x\<rparr>) = black st"
  by (simp_all add: grey_def black_def)

lemma grey_black_disjoint: "i \<in> grey st \<Longrightarrow> i \<notin> black st"
  by (simp add: grey_def black_def)

lemma length_update:
  "length (AList.update k v m) = (if k \<in> fst ` set m then length m else Suc (length m))"
  by (induction m) auto

lemma length_mark:
  "length (vs_State (mark i n st)) \<le> Suc (length (vs_State st))"
  "i \<in> grey st \<Longrightarrow> length (vs_State (mark i n st)) = length (vs_State st)"
  by (auto simp: mark_def length_update grey_def dest: map_of_SomeD intro: rev_image_eqI)

lemma visit_cases:
  assumes "visit c left st r = Inr st'"
  obtains "rec_ID r \<in> black st" "st' = st"
  | n st2 where "left = Suc n" "rec_ID r \<notin> grey st" "rec_ID r \<notin> black st"
      "length (vs_State st) < MaxDependencyRecords"
      "if rec_Retired r then st2 = mark (rec_ID r) 1 st
       else visit_refs c n (mark (rec_ID r) 1 st) (dependenciesFor r c) = Inr st2"
      "st' = (mark (rec_ID r) 2 st2)\<lparr>vs_Result := vs_Result st2 @ [r]\<rparr>"
  using assms
  by (subst (asm) visit.simps)
    (auto simp: grey_def black_def split: if_splits nat.splits sum.splits)

declare visit.simps [simp del]

definition visited :: "catalog \<Rightarrow> visit_state \<Rightarrow> visit_state \<Rightarrow> bool" where
  "visited c st st' \<longleftrightarrow> visit_inv c st' \<and> grey st' = grey st \<and> black st \<subseteq> black st'"

lemma visit_inv_finish:
  assumes st2: "visited c (mark i 1 st) st2" and "i \<notin> grey st" and i: "i = rec_ID r"
    and deps: "\<not> rec_Retired r \<longrightarrow>
      (\<forall>ref\<in>set (dependenciesFor r c). ref_ID ref \<in> black st2 \<and> live_in c (ref_ID ref))"
    and "i \<notin> black st"
  shows "visited c st ((mark i 2 st2)\<lparr>vs_Result := vs_Result st2 @ [r]\<rparr>)
    \<and> i \<in> black ((mark i 2 st2)\<lparr>vs_Result := vs_Result st2 @ [r]\<rparr>)"
proof -
  have g2: "i \<in> grey st2" using st2 by (simp add: visited_def mark_sets)
  then have "i \<notin> black st2" by (rule grey_black_disjoint)
  with st2 have fresh: "i \<notin> rec_ID ` set (vs_Result st2)" by (simp add: visited_def visit_inv_def)
  have "dependencies_first c {} (vs_Result st2 @ [r])"
    using st2 deps by (simp add: dependencies_first_append visited_def visit_inv_def)
  moreover have "length (vs_State (mark i 2 st2)) \<le> MaxDependencyRecords"
    using st2 length_mark(2) [OF g2] by (simp add: visited_def visit_inv_def)
  ultimately show ?thesis
    using st2 fresh assms(2,5) i by (auto simp: visited_def visit_inv_def mark_sets)
qed

lemma visit_sound:
  shows "catalog_ok c \<Longrightarrow> visit c left st r = Inr st' \<Longrightarrow> visit_inv c st \<Longrightarrow> visited c st st' \<and> rec_ID r \<in> black st'"
    and "catalog_ok c \<Longrightarrow> visit_refs c n st refs = Inr st' \<Longrightarrow> visit_inv c st \<Longrightarrow>
      visited c st st' \<and> (\<forall>ref\<in>set refs. ref_ID ref \<in> black st' \<and> live_in c (ref_ID ref))"
proof (induction c left st r and c n st refs arbitrary: st' and st' rule: visit_visit_refs.induct)
  case (1 c left st r)
  show ?case using 1(3)
  proof (cases rule: visit_cases)
    case 1
    with \<open>visit_inv c st\<close> show ?thesis by (simp add: visited_def)
  next
    case (2 n st2)
    let ?st1 = "mark (rec_ID r) 1 st"
    have inv1: "visit_inv c ?st1"
      using \<open>visit_inv c st\<close> 2 length_mark(1) [of "rec_ID r" 1 st]
      by (auto simp: visit_inv_def mark_sets)
    have st2: "visited c ?st1 st2 \<and> (\<not> rec_Retired r \<longrightarrow>
        (\<forall>ref\<in>set (dependenciesFor r c). ref_ID ref \<in> black st2 \<and> live_in c (ref_ID ref)))"
    proof (cases "rec_Retired r")
      case True
      with 2 inv1 show ?thesis by (simp add: visited_def)
    next
      case False
      then have "visit_refs c n ?st1 (dependenciesFor r c) = Inr st2" using 2 by simp
      moreover have "map_of (vs_State st) (rec_ID r) \<noteq> Some 1" "map_of (vs_State st) (rec_ID r) \<noteq> Some 2"
        "\<not> MaxDependencyRecords \<le> length (vs_State st)"
        using 2 by (simp_all add: grey_def black_def)
      ultimately show ?thesis using "1.IH" [of n st2] 2(1) inv1 False \<open>catalog_ok c\<close> by simp
    qed
    then show ?thesis unfolding 2 using visit_inv_finish [of c "rec_ID r" st st2 r] 2 by simp
  qed
next
  case (2 c n st)
  then show ?case by (simp add: visited_def)
next
  case (3 c n st ref refs)
  from 3(4) obtain d st1 where d: "map_of c (ref_ID ref) = Some d" "\<not> rec_Retired d"
    "visit c n st d = Inr st1" "visit_refs c n st1 refs = Inr st'"
    by (auto split: option.splits if_splits sum.splits)
  have "rec_ID d = ref_ID ref" using catalog_ok_id [OF 3(3) d(1)] .
  then have 1: "visited c st st1" "ref_ID ref \<in> black st1"
    using "3.IH"(1) [OF d(1,2) 3(3) d(3) 3(5)] by simp_all
  then have 2: "visited c st1 st'" "\<forall>ref\<in>set refs. ref_ID ref \<in> black st' \<and> live_in c (ref_ID ref)"
    using "3.IH"(2) [OF d(1,2,3) 3(3) d(4)] by (simp_all add: visited_def)
  have "live_in c (ref_ID ref)" using d by (simp add: live_in_def)
  with 1 2 show ?case by (auto simp: visited_def)
qed

lemma visit_roots_sound:
  assumes "catalog_ok c"
  shows "visit_roots c st rs = Inr st' \<Longrightarrow> visit_inv c st \<Longrightarrow>
    visited c st st' \<and> rec_ID ` set rs \<subseteq> black st'"
proof (induction rs arbitrary: st)
  case Nil
  then show ?case by (simp add: visited_def)
next
  case (Cons r rs)
  then obtain st1 where st1: "visit c (MaxParentDepth + 1) st r = Inr st1" "visit_roots c st1 rs = Inr st'"
    by (auto split: sum.splits)
  note v = visit_sound(1) [OF assms st1(1) Cons.prems(2)]
  then have "visited c st1 st' \<and> rec_ID ` set rs \<subseteq> black st'"
    using Cons.IH [OF st1(2)] by (simp add: visited_def)
  with v show ?case by (auto simp: visited_def)
qed

text \<open>The records listed before a record, and the dependencies they include.\<close>

lemma dependencies_first_split:
  assumes "dependencies_first c {} (xs @ r # ys)" and "\<not> rec_Retired r"
    and "ref \<in> set (dependenciesFor r c)"
  shows "ref_ID ref \<in> rec_ID ` set xs \<and> live_in c (ref_ID ref)"
  using assms by (simp add: dependencies_first_append)

text \<open>(dependency_order): when the traversal succeeds its result lists every requested record, no
  record twice and at most 2048 of them, and every live record comes after all of its dependencies,
  each of which is live in the catalog; in particular no listed record depends on itself through
  others: the dependencies of the result are acyclic.\<close>

theorem dependency_order:
  assumes "catalog_ok c" and "DependencyRecords rs c = Inr out"
  shows "rec_ID ` set rs \<subseteq> rec_ID ` set out \<and> distinct (map rec_ID out)
    \<and> length out \<le> MaxDependencyRecords
    \<and> (\<forall>xs r ys. out = xs @ r # ys \<longrightarrow> \<not> rec_Retired r \<longrightarrow>
         (\<forall>ref\<in>set (dependenciesFor r c). ref_ID ref \<in> rec_ID ` set xs \<and> live_in c (ref_ID ref)))"
proof -
  let ?st = "\<lparr>vs_State = [], vs_Result = []\<rparr>"
  obtain st' where st': "visit_roots c ?st rs = Inr st'" "out = vs_Result st'"
    using assms(2) by (auto simp: DependencyRecords_def split: sum.splits)
  have "visit_inv c ?st" by (simp add: visit_inv_def black_def)
  then have v: "visit_inv c st'" "rec_ID ` set rs \<subseteq> black st'"
    using visit_roots_sound [OF assms(1) st'(1)] by (simp_all add: visited_def)
  have "rec_ID ` set out \<subseteq> fst ` set (vs_State st')"
  proof -
    have "black st' \<subseteq> fst ` set (vs_State st')" by (auto simp: black_def dest!: map_of_SomeD intro: rev_image_eqI)
    then show ?thesis using v(1) st'(2) by (simp add: visit_inv_def)
  qed
  then have "card (rec_ID ` set out) \<le> length (vs_State st')"
    by (meson List.finite_set card_image_le card_length card_mono finite_imageI le_trans)
  moreover have "card (rec_ID ` set out) = length out"
    using v(1) st'(2) distinct_card [of "map rec_ID out"] by (simp add: visit_inv_def)
  ultimately have "length out \<le> MaxDependencyRecords" using v(1) by (simp add: visit_inv_def)
  moreover have "\<forall>xs r ys. out = xs @ r # ys \<longrightarrow> \<not> rec_Retired r \<longrightarrow>
      (\<forall>ref\<in>set (dependenciesFor r c). ref_ID ref \<in> rec_ID ` set xs \<and> live_in c (ref_ID ref))"
    using v(1) st'(2) dependencies_first_split unfolding visit_inv_def by metis
  ultimately show ?thesis using v st'(2) by (auto simp: visit_inv_def)
qed

lemma sample_dependencies:
  "dependenciesFor (sample_topic ''id-1'' ''tools'' ''id-2'') sample_catalog
     = [\<lparr>ref_ID = ''id-2'', ref_Version = 0\<rparr>]"
  "dependenciesFor (sample_topic ''id-2'' ''work'' []) sample_catalog = []"
  by (simp_all add: dependenciesFor_def dependency_ids_def ReferenceIDs_def sample_topic_def
      sample_catalog_def zero_record_def sorted_keys_def parent_ref_def catalog_get_def)

theorem dependency_order_witness:
  "DependencyRecords [sample_topic ''id-1'' ''tools'' ''id-2''] sample_catalog
     = Inr [sample_topic ''id-2'' ''work'' [], sample_topic ''id-1'' ''tools'' ''id-2'']
   \<and> distinct (map rec_ID [sample_topic ''id-2'' ''work'' [], sample_topic ''id-1'' ''tools'' ''id-2''])"
proof -
  have live: "\<not> rec_Retired (sample_topic i k p)" "rec_ID (sample_topic i k p) = i" for i k p
    by (simp_all add: sample_topic_def zero_record_def)
  have m: "map_of sample_catalog ''id-2'' = Some (sample_topic ''id-2'' ''work'' [])"
    by (simp add: sample_catalog_def)
  have d: "DependencyRecords [sample_topic ''id-1'' ''tools'' ''id-2''] sample_catalog
     = Inr [sample_topic ''id-2'' ''work'' [], sample_topic ''id-1'' ''tools'' ''id-2'']"
    by (simp add: DependencyRecords_def visit.simps sample_dependencies live m mark_def MaxParentDepth_def
        MaxDependencyRecords_def eval_nat_numeral)
  then show ?thesis using dependency_order [OF sample_catalog_ok d] by simp
qed

end
