(* ===== verification/Onto_Equivalence.thy ===== *)
theory Onto_Equivalence
  imports Onto_Dependencies
begin

text \<open>
  When two sources may be said to mean the same (\<open>ontology/contract/equivalence.go\<close>). The two
  regular expressions are case-insensitive alternatives between word boundaries; they are matched
  here on the runes of the text.
\<close>

section \<open>Words between boundaries\<close>

definition word_rune :: "nat \<Rightarrow> bool" where
  "word_rune r \<longleftrightarrow> (48 \<le> r \<and> r \<le> 57) \<or> (65 \<le> r \<and> r \<le> 90) \<or> r = 95 \<or> (97 \<le> r \<and> r \<le> 122)"

definition opt_word :: "nat option \<Rightarrow> bool" where
  "opt_word r = (case r of None \<Rightarrow> False | Some x \<Rightarrow> word_rune x)"

text \<open>\<open>(?i)\<close> on a lower-case ASCII letter: the simple folding orbit, so also U+017F for s and U+212A for k.\<close>

definition fold_letter :: "nat \<Rightarrow> nat \<Rightarrow> bool" where
  "fold_letter c r \<longleftrightarrow> r = c \<or> r + 32 = c \<or> (c = 115 \<and> r = 383) \<or> (c = 107 \<and> r = 8490)"

fun fold_prefix :: "nat list \<Rightarrow> nat list \<Rightarrow> bool" where
  "fold_prefix [] rs = True"
| "fold_prefix (c # cs) [] = False"
| "fold_prefix (c # cs) (r # rs) = (fold_letter c r \<and> fold_prefix cs rs)"

definition next_rune :: "nat list \<Rightarrow> nat option" where
  "next_rune rs = (case rs of [] \<Rightarrow> None | r # _ \<Rightarrow> Some r)"

definition match_here :: "nat option \<Rightarrow> nat list \<Rightarrow> nat list \<Rightarrow> bool" where
  "match_here prev rs w \<longleftrightarrow>
     opt_word prev \<noteq> opt_word (next_rune rs) \<and> fold_prefix w rs
     \<and> opt_word (Some (last (take (length w) rs))) \<noteq> opt_word (next_rune (drop (length w) rs))"

text \<open>
  \<open>FindAllString\<close>: leftmost matches that do not overlap, the first alternative that fits. \<open>skip\<close> counts
  the runes of the last match that are still to be passed over.
\<close>

fun find_all :: "nat list list \<Rightarrow> nat option \<Rightarrow> nat \<Rightarrow> nat list \<Rightarrow> nat list list" where
  "find_all ws prev skip [] = []"
| "find_all ws prev (Suc skip) (r # rs) = find_all ws (Some r) skip rs"
| "find_all ws prev 0 (r # rs) =
     (case filter (match_here prev (r # rs)) ws of
        [] \<Rightarrow> find_all ws (Some r) 0 rs
      | w # _ \<Rightarrow> take (length w) (r # rs) # find_all ws (Some r) (length w - 1) rs)"

definition letters :: "string \<Rightarrow> nat list" where
  "letters s = map byte_of s"

definition contextualPronouns :: "nat list list" where
  "contextualPronouns = map letters [''i'', ''me'', ''my'', ''mine'', ''we'', ''us'', ''our'', ''ours'', ''here'', ''there'']"

definition relativeTimes :: "nat list list" where
  "relativeTimes = map letters [''today'', ''yesterday'', ''tomorrow'']"

definition find_words :: "nat list list \<Rightarrow> string \<Rightarrow> string list" where
  "find_words ws text = map string_of_runes (find_all ws None 0 (runes text))"

definition match_words :: "nat list list \<Rightarrow> string \<Rightarrow> bool" where
  "match_words ws text \<longleftrightarrow> find_words ws text \<noteq> []"

section \<open>Meaning contexts\<close>

definition relative_days :: "source_snapshot \<Rightarrow> string list" where
  "relative_days s = dedup [] (map to_lower (find_words relativeTimes (state_field s ''content'')))"

definition resolvedRelativeTime :: "externals \<Rightarrow> source_snapshot \<Rightarrow> source_snapshot \<Rightarrow> bool" where
  "resolvedRelativeTime X left right =
     (if state_field left ''created_at'' = [] then False
      else case x_metadata_timezone X (state_field left ''metadata'') of
        None \<Rightarrow> False
      | Some tz \<Rightarrow>
          if tz = [] \<or> tz = ''Local'' then False
          else if \<not> x_location_known X tz then False
          else (let leftDays = relative_days left; rightDays = relative_days right
                in if length leftDays = 0 \<or> length leftDays \<noteq> length rightDays then False
                   else \<forall>day\<in>set leftDays. day \<in> set rightDays))"

definition relationship_fields :: "string list" where
  "relationship_fields = [''subject'', ''object_entity'', ''object_value'', ''kind'', ''cardinality'',
     ''polarity'', ''scope'', ''valid_from'', ''valid_to'', ''metadata'', ''predicate_contract'']"

definition CompatibleMeaningContext :: "externals \<Rightarrow> source_snapshot \<Rightarrow> source_snapshot \<Rightarrow> bool" where
  "CompatibleMeaningContext X left right =
     (let L = state_field left; R = state_field right;
          times = (match_words relativeTimes (L ''content'') \<or> match_words relativeTimes (R ''content''))
      in if \<not> snap_Eligible left \<or> \<not> snap_Eligible right
           \<or> sh_Kind (snap_Source left) \<noteq> sh_Kind (snap_Source right) then False
         else if sh_Kind (snap_Source left) = RelationshipSource
         then (if (L ''predicate'' \<noteq> R ''predicate'' \<or> L ''predicate_version'' \<noteq> R ''predicate_version'')
                 \<and> (L ''predicate_contract'' = [] \<or> R ''predicate_contract'' = []) then False
               else \<forall>field\<in>set relationship_fields. L field = R field)
         else if sh_Kind (snap_Source left) \<noteq> EvidenceSource then False
         else if L ''metadata'' \<noteq> R ''metadata'' \<or> L ''labels'' \<noteq> R ''labels'' then False
         else if times \<and> L ''created_at'' \<noteq> R ''created_at'' then False
         else if snap_OwnerID left \<noteq> snap_OwnerID right
           \<and> (match_words contextualPronouns (L ''content'') \<or> match_words contextualPronouns (R ''content''))
         then False
         else if snap_OwnerID left \<noteq> snap_OwnerID right \<and> times then resolvedRelativeTime X left right
         else True)"

definition ExactMeaning :: "externals \<Rightarrow> source_snapshot \<Rightarrow> source_snapshot \<Rightarrow> bool" where
  "ExactMeaning X left right =
     (if sh_Kind (snap_Source left) = EvidenceSource
        \<and> state_field left ''created_at'' \<noteq> state_field right ''created_at'' then False
      else snap_MeaningKey left \<noteq> [] \<and> snap_MeaningKey left = snap_MeaningKey right
           \<and> CompatibleMeaningContext X left right)"

text \<open>The members already visited are those before the current one: \<open>Members[:i]\<close>.\<close>

fun assessed_members ::
  "externals \<Rightarrow> string \<Rightarrow> snapshots \<Rightarrow> source_handle list \<Rightarrow> source_handle list \<Rightarrow> onto_error option" where
  "assessed_members X expected snaps before [] = None"
| "assessed_members X expected snaps before (member # members) =
     (case snaps (SourceKey member) of
        None \<Rightarrow> Some ErrSourceStale
      | Some left \<Rightarrow>
          if snap_Source left \<noteq> member \<or> sh_Kind member \<noteq> expected \<or> \<not> snap_Eligible left
          then Some ErrSourceStale
          else if \<exists>other\<in>set before. \<not> CompatibleMeaningContext X left (snapshot_get snaps (SourceKey other))
          then Some ErrInvalid
          else assessed_members X expected snaps (before @ [member]) members)"

definition AssessedGroupCompatible :: "externals \<Rightarrow> onto_record \<Rightarrow> snapshots \<Rightarrow> onto_error option" where
  "AssessedGroupCompatible X r snaps =
     (case rec_Group r of
        None \<Rightarrow> Some ErrInvalid
      | Some g \<Rightarrow>
          if \<not> validID X (grp_AssessmentID g) then Some ErrInvalid
          else assessed_members X
                 (if rec_Kind r = RelationshipGroup then RelationshipSource else EvidenceSource)
                 snaps [] (elems (grp_Members g)))"

section \<open>Symmetry\<close>

lemma same_days_sym:
  assumes "length (relative_days l) = length (relative_days r)"
    and "set (relative_days l) \<subseteq> set (relative_days r)"
  shows "set (relative_days r) \<subseteq> set (relative_days l)"
proof -
  have "distinct (relative_days l)" "distinct (relative_days r)"
    unfolding relative_days_def by (rule distinct_dedup)+
  then have "card (set (relative_days l)) = card (set (relative_days r))"
    using assms(1) by (simp add: distinct_card)
  then show ?thesis using assms(2) by (metis card_subset_eq List.finite_set order_refl)
qed

lemma resolvedRelativeTime_sym:
  assumes "state_field l ''created_at'' = state_field r ''created_at''"
    and "state_field l ''metadata'' = state_field r ''metadata''"
  shows "resolvedRelativeTime X l r = resolvedRelativeTime X r l"
proof (cases "length (relative_days l) = length (relative_days r)")
  case True
  then have "set (relative_days l) \<subseteq> set (relative_days r) \<longleftrightarrow> set (relative_days r) \<subseteq> set (relative_days l)"
    using same_days_sym by metis
  then show ?thesis
    using assms True by (auto simp: resolvedRelativeTime_def Let_def subset_iff split: option.splits)
next
  case False
  then show ?thesis
    using assms by (auto simp: resolvedRelativeTime_def Let_def split: option.splits)
qed

lemma CompatibleMeaningContext_sym:
  "CompatibleMeaningContext X l r = CompatibleMeaningContext X r l"
proof -
  have e: "(state_field r f = state_field l f) = (state_field l f = state_field r f)" for f by (rule eq_commute)
  have o: "(snap_OwnerID r = snap_OwnerID l) = (snap_OwnerID l = snap_OwnerID r)"
    "(sh_Kind (snap_Source r) = sh_Kind (snap_Source l)) = (sh_Kind (snap_Source l) = sh_Kind (snap_Source r))"
    by (rule eq_commute)+
  show ?thesis
  proof (cases "snap_Eligible l \<and> snap_Eligible r \<and> sh_Kind (snap_Source l) = sh_Kind (snap_Source r)
      \<and> sh_Kind (snap_Source l) = EvidenceSource")
    case True
    then have k: "sh_Kind (snap_Source r) = EvidenceSource" "sh_Kind (snap_Source l) = EvidenceSource"
      "EvidenceSource \<noteq> RelationshipSource" "snap_Eligible l" "snap_Eligible r"
      by (auto simp: source_kind_defs)
    show ?thesis
    proof (cases "state_field l ''created_at'' = state_field r ''created_at''
        \<and> state_field l ''metadata'' = state_field r ''metadata''")
      case True
      note resolvedRelativeTime_sym [OF conjunct1 [OF True] conjunct2 [OF True], of X]
      with k show ?thesis unfolding CompatibleMeaningContext_def Let_def e o
        by (simp only: disj_commute)
    next
      case False
      with k show ?thesis unfolding CompatibleMeaningContext_def Let_def e o
        by (simp add: disj_commute conj_commute)
    qed
  next
    case False
    then show ?thesis unfolding CompatibleMeaningContext_def Let_def e o
      by (simp add: disj_commute) metis
  qed
qed

lemmas CompatibleMeaningContext_imp' = CompatibleMeaningContext_sym [THEN iffD1]

lemma meaning_context_self:
  "CompatibleMeaningContext X s s \<longleftrightarrow>
     snap_Eligible s \<and> sh_Kind (snap_Source s) \<in> {EvidenceSource, RelationshipSource}"
  by (simp add: CompatibleMeaningContext_def Let_def source_kind_defs)

text \<open>(meaning_context_symmetric): whether two sources may be grouped does not depend on which of
  them is asked about first, and an eligible Evidence or Relationship source is always compatible
  with itself.\<close>

theorem meaning_context_symmetric:
  "CompatibleMeaningContext X left right = CompatibleMeaningContext X right left
   \<and> ExactMeaning X left right = ExactMeaning X right left
   \<and> CompatibleMeaningContext X left left =
       (snap_Eligible left \<and> sh_Kind (snap_Source left) \<in> {EvidenceSource, RelationshipSource})"
proof -
  have "ExactMeaning X left right = ExactMeaning X right left"
  proof (cases "sh_Kind (snap_Source left) = sh_Kind (snap_Source right)")
    case True
    then show ?thesis unfolding ExactMeaning_def
      by (subst (1) CompatibleMeaningContext_sym) auto
  next
    case False
    then show ?thesis by (simp add: ExactMeaning_def CompatibleMeaningContext_def Let_def)
  qed
  moreover have "CompatibleMeaningContext X left left =
       (snap_Eligible left \<and> sh_Kind (snap_Source left) \<in> {EvidenceSource, RelationshipSource})"
    by (rule meaning_context_self)
  ultimately show ?thesis using CompatibleMeaningContext_sym by blast
qed

text \<open>
  Compatibility is not transitive, which is why \<open>AssessedGroupCompatible\<close> compares every pair: two
  texts of one owner are compatible, but only the one without a pronoun may join another owner's.
\<close>

definition sample_evidence :: "string \<Rightarrow> string \<Rightarrow> string \<Rightarrow> source_snapshot" where
  "sample_evidence sid owner content = zero_snapshot\<lparr>snap_Source := sample_handle sid,
     snap_OwnerID := owner, snap_Eligible := True, snap_State := [''content'' \<mapsto> content]\<rparr>"

lemma runes_ascii: "\<forall>c\<in>set s. byte_of c < 128 \<Longrightarrow> runes s = map byte_of s"
  by (simp add: runes_def decode_runes_ascii)

lemma sample_words:
  "match_words contextualPronouns ''we ship'' = True" "match_words contextualPronouns ''ship it'' = False"
  "match_words relativeTimes ''we ship'' = False" "match_words relativeTimes ''ship it'' = False"
  by (simp_all add: match_words_def find_words_def runes_ascii byte_of_def contextualPronouns_def
      relativeTimes_def letters_def match_here_def opt_word_def next_rune_def word_rune_def
      fold_letter_def)

lemma sample_evidence_fields:
  "state_field (sample_evidence i u c) ''content'' = c"
  "f \<noteq> ''content'' \<Longrightarrow> state_field (sample_evidence i u c) f = []"
  "snap_OwnerID (sample_evidence i u c) = u" "snap_Eligible (sample_evidence i u c)"
  "snap_Source (sample_evidence i u c) = sample_handle i" "sh_Kind (sample_handle i) = EvidenceSource"
  by (simp_all add: sample_evidence_def state_field_def zero_snapshot_def sample_handle_def)

text \<open>(meaning_context_not_transitive): compatibility of two Evidence sources does not carry over a
  third one, so a group must be checked pair by pair, as \<open>AssessedGroupCompatible\<close> does.\<close>

theorem meaning_context_not_transitive:
  "CompatibleMeaningContext X (sample_evidence ''id-1'' ''ann'' ''we ship'') (sample_evidence ''id-2'' ''ann'' ''ship it'')
   \<and> CompatibleMeaningContext X (sample_evidence ''id-2'' ''ann'' ''ship it'') (sample_evidence ''id-3'' ''bob'' ''ship it'')
   \<and> \<not> CompatibleMeaningContext X (sample_evidence ''id-1'' ''ann'' ''we ship'') (sample_evidence ''id-3'' ''bob'' ''ship it'')"
  by (simp add: CompatibleMeaningContext_def Let_def sample_evidence_fields sample_words source_kind_defs)

text \<open>What an accepted assessed group guarantees.\<close>

definition pair_ok :: "externals \<Rightarrow> snapshots \<Rightarrow> source_handle \<Rightarrow> source_handle \<Rightarrow> bool" where
  "pair_ok X snaps a b \<longleftrightarrow>
     CompatibleMeaningContext X (snapshot_get snaps (SourceKey a)) (snapshot_get snaps (SourceKey b))"

definition member_current :: "string \<Rightarrow> snapshots \<Rightarrow> source_handle \<Rightarrow> bool" where
  "member_current kind snaps m \<longleftrightarrow>
     (\<exists>s. snaps (SourceKey m) = Some s \<and> snap_Source s = m \<and> snap_Eligible s) \<and> sh_Kind m = kind"

lemma assessed_members_None:
  "assessed_members X kind snaps before ms = None \<longleftrightarrow>
     (\<forall>m\<in>set ms. member_current kind snaps m) \<and> (\<forall>m\<in>set ms. \<forall>b\<in>set before. pair_ok X snaps m b)
     \<and> sorted_wrt (\<lambda>a b. pair_ok X snaps b a) ms"
proof (induction ms arbitrary: before)
  case Nil
  then show ?case by simp
next
  case (Cons m ms)
  show ?case
  proof (cases "member_current kind snaps m")
    case True
    then obtain s where s: "snaps (SourceKey m) = Some s" "snap_Source s = m" "snap_Eligible s" "sh_Kind m = kind"
      by (auto simp: member_current_def)
    then have "snapshot_get snaps (SourceKey m) = s" by (simp add: snapshot_get_def)
    then have "assessed_members X kind snaps before (m # ms) = None \<longleftrightarrow>
        (\<forall>b\<in>set before. pair_ok X snaps m b) \<and> assessed_members X kind snaps (before @ [m]) ms = None"
      using s by (auto simp: pair_ok_def)
    then show ?thesis using True by (auto simp: Cons.IH)
  next
    case False
    then show ?thesis by (auto simp: member_current_def split: option.splits)
  qed
qed

lemma sorted_wrt_all_pairs:
  assumes "\<And>a b. P a b \<Longrightarrow> P b a" and "\<forall>a\<in>set xs. P a a"
  shows "sorted_wrt P xs \<longleftrightarrow> (\<forall>a\<in>set xs. \<forall>b\<in>set xs. P a b)"
  using assms(2) by (induction xs) (auto intro: assms(1))

text \<open>(assessed_group_pairwise): an assessed group is accepted exactly when its assessment id is
  valid, every member is current and eligible and of the group's source kind, and all members are
  compatible with each other, whatever the order they are listed in.\<close>

theorem assessed_group_pairwise:
  assumes "rec_Group r = Some g"
    and "kind = (if rec_Kind r = RelationshipGroup then RelationshipSource else EvidenceSource)"
  shows "AssessedGroupCompatible X r snaps = None \<longleftrightarrow>
    validID X (grp_AssessmentID g)
    \<and> (\<forall>m\<in>set (elems (grp_Members g)). member_current kind snaps m)
    \<and> (\<forall>a\<in>set (elems (grp_Members g)). \<forall>b\<in>set (elems (grp_Members g)). pair_ok X snaps a b)"
proof -
  let ?ms = "elems (grp_Members g)"
  have sym: "pair_ok X snaps a b \<Longrightarrow> pair_ok X snaps b a" for a b
    unfolding pair_ok_def by (rule CompatibleMeaningContext_imp')
  have refl: "pair_ok X snaps m m" if "member_current kind snaps m" for m
    using that assms(2) meaning_context_self
    by (auto simp: pair_ok_def member_current_def snapshot_get_def split: if_splits)
  have "AssessedGroupCompatible X r snaps = None \<longleftrightarrow> validID X (grp_AssessmentID g)
      \<and> (\<forall>m\<in>set ?ms. member_current kind snaps m) \<and> sorted_wrt (\<lambda>a b. pair_ok X snaps b a) ?ms"
    using assms by (simp add: AssessedGroupCompatible_def assessed_members_None)
  also have "\<dots> \<longleftrightarrow> validID X (grp_AssessmentID g) \<and> (\<forall>m\<in>set ?ms. member_current kind snaps m)
      \<and> (\<forall>a\<in>set ?ms. \<forall>b\<in>set ?ms. pair_ok X snaps a b)"
    using sorted_wrt_all_pairs [of "\<lambda>a b. pair_ok X snaps b a" ?ms] sym refl by blast
  finally show ?thesis .
qed

definition sample_pair_snapshots :: snapshots where
  "sample_pair_snapshots = [SourceKey (sample_handle ''id-1'') \<mapsto> sample_evidence ''id-1'' ''ann'' ''ship it'',
     SourceKey (sample_handle ''id-2'') \<mapsto> sample_evidence ''id-2'' ''bob'' ''ship it'']"

definition sample_assessed_group :: group_body where
  "sample_assessed_group = \<lparr>grp_Members = Some [sample_handle ''id-1'', sample_handle ''id-2''],
     grp_AssessmentID = ''id-3''\<rparr>"

theorem assessed_group_pairwise_witness:
  "list_all (\<lambda>a. list_all (pair_ok sample_externals sample_pair_snapshots a)
     (elems (grp_Members sample_assessed_group))) (elems (grp_Members sample_assessed_group))"
proof -
  let ?r = "zero_record\<lparr>rec_Kind := EvidenceGroup, rec_Group := Some sample_assessed_group\<rparr>"
  have kind: "rec_Kind ?r \<noteq> RelationshipGroup" by (simp add: kind_defs)
  have h: "SourceKey (sample_handle ''id-1'') \<noteq> SourceKey (sample_handle ''id-2'')"
    by (simp add: SourceKey_def sample_handle_def)
  have "AssessedGroupCompatible sample_externals ?r sample_pair_snapshots = None"
    using kind h h [symmetric]
    by (simp add: AssessedGroupCompatible_def sample_assessed_group_def sample_pair_snapshots_def
        sample_evidence_fields snapshot_get_def)
      (simp add: CompatibleMeaningContext_def Let_def sample_evidence_fields sample_words source_kind_defs)
  then show ?thesis
    using assessed_group_pairwise [of ?r sample_assessed_group EvidenceSource sample_externals
        sample_pair_snapshots] kind by (auto simp: list_all_iff)
qed

end
