(* ===== verification/Onto_Publication.thy ===== *)
theory Onto_Publication
  imports Onto_Equivalence
begin

text \<open>
  \<open>PreparePublication\<close> of \<open>ontology/contract/publication_policy.go\<close>: the pure decision whether a
  publication may be applied to the current catalog, and the records it would write. The store
  runs it inside a transaction that holds the team's revision, for automatic and manager
  publications alike.
\<close>

section \<open>References and sources of one record\<close>

definition compatibleAssignment :: "source_handle \<Rightarrow> onto_record \<Rightarrow> onto_error option" where
  "compatibleAssignment source d =
     (if rec_Definition d = None then Some ErrInvalid
      else if \<not> ((rec_Kind d = EntityClass \<and> sh_Kind source = EntitySource)
             \<or> (rec_Kind d = PredicateConcept \<and> sh_Kind source = PredicateSource)
             \<or> (rec_Kind d = Topic \<and> (sh_Kind source = EvidenceSource \<or> sh_Kind source = RelationshipSource)))
      then Some ErrInvalid
      else None)"

definition validateRecordReferences :: "onto_record \<Rightarrow> catalog \<Rightarrow> onto_error option" where
  "validateRecordReferences r c =
     (if rec_Retired r then None
      else if \<exists>rid\<in>set (ReferenceIDs r). (case map_of c rid of None \<Rightarrow> True | Some d \<Rightarrow> rec_Retired d)
      then Some ErrInvalid
      else case rec_Assignment r of
        Some a \<Rightarrow> compatibleAssignment (asg_Source a) (catalog_get c (asg_DefinitionID a))
      | None \<Rightarrow>
          (case rec_Override r of
             None \<Rightarrow> None
           | Some ov \<Rightarrow>
               if ovr_Action ov = PinDefinition
               then (if rec_Definition (catalog_get c (ovr_TargetID ov)) = None then Some ErrInvalid else None)
               else if ovr_Action ov = SetClassification
               then (case elems (ovr_Members ov) of
                       [] \<Rightarrow> Some Panic
                     | m # _ \<Rightarrow> compatibleAssignment m (catalog_get c (ovr_DefinitionID ov)))
               else None))"

definition compatibleClass :: "source_handle \<Rightarrow> onto_record \<Rightarrow> snapshots \<Rightarrow> onto_error option" where
  "compatibleClass source d snaps =
     (if rec_Kind d = EntityClass
      then (case rec_Definition d of
              None \<Rightarrow> Some Panic
            | Some body \<Rightarrow>
                if snap_EntityKind (snapshot_get snaps (SourceKey source)) \<noteq> def_BaseEntityKind body
                then Some ErrInvalid else None)
      else None)"

fun group_meaning :: "string \<Rightarrow> snapshots \<Rightarrow> string \<Rightarrow> source_handle list \<Rightarrow> onto_error option" where
  "group_meaning expected snaps meaning [] = None"
| "group_meaning expected snaps meaning (member # members) =
     (let s = snapshot_get snaps (SourceKey member)
      in if sh_Kind member \<noteq> expected \<or> \<not> snap_Eligible s \<or> snap_MeaningKey s = [] then Some ErrInvalid
         else if meaning \<noteq> [] \<and> meaning \<noteq> snap_MeaningKey s then Some ErrInvalid
         else group_meaning expected snaps (snap_MeaningKey s) members)"

definition GroupCompatible :: "string \<Rightarrow> source_handle list \<Rightarrow> snapshots \<Rightarrow> onto_error option" where
  "GroupCompatible kind members snaps =
     group_meaning (if kind = RelationshipGroup then RelationshipSource else EvidenceSource) snaps [] members"

text \<open>The map of declared sources: a later entry of the same key replaces an earlier one.\<close>

definition declared_source :: "onto_record \<Rightarrow> string \<Rightarrow> source_handle" where
  "declared_source r key =
     (case map_of (rev (map (\<lambda>d. (SourceKey (sd_Source d), sd_Source d)) (elems (rec_Sources r)))) key of
        None \<Rightarrow> zero_handle
      | Some h \<Rightarrow> h)"

definition sources_declared :: "onto_record \<Rightarrow> bool" where
  "sources_declared r \<longleftrightarrow> (\<forall>s\<in>set (RequiredSources r). declared_source r (SourceKey s) = s)"

definition validate_grouping_sources :: "externals \<Rightarrow> onto_record \<Rightarrow> snapshots \<Rightarrow> onto_error option" where
  "validate_grouping_sources X r snaps =
     (case rec_Group r of
        Some g \<Rightarrow>
          if grp_AssessmentID g \<noteq> [] then AssessedGroupCompatible X r snaps
          else GroupCompatible (rec_Kind r) (elems (grp_Members g)) snaps
      | None \<Rightarrow>
          (case rec_Override r of
             None \<Rightarrow> None
           | Some ov \<Rightarrow>
               if ovr_Action ov = GroupTogether \<or> ovr_Action ov = KeepSeparate
               then (case elems (ovr_Members ov) of
                       [] \<Rightarrow> Some Panic
                     | m # _ \<Rightarrow>
                         if ovr_Action ov = GroupTogether
                         then GroupCompatible
                                (if sh_Kind m = RelationshipSource then RelationshipGroup else EvidenceGroup)
                                (elems (ovr_Members ov)) snaps
                         else if \<exists>x\<in>set (elems (ovr_Members ov)).
                              sh_Kind x \<noteq> EvidenceSource \<and> sh_Kind x \<noteq> RelationshipSource
                         then Some ErrInvalid
                         else None)
               else None))"

definition validateRecordSources ::
  "externals \<Rightarrow> onto_record \<Rightarrow> snapshots \<Rightarrow> catalog \<Rightarrow> onto_error option" where
  "validateRecordSources X r snaps c =
     (if rec_Retired r then None
      else or_error (CheckSourceDependencies X r snaps)
       (if \<not> sources_declared r then Some ErrInvalid
        else or_error
          (case rec_Assignment r of
             None \<Rightarrow> None
           | Some a \<Rightarrow> compatibleClass (asg_Source a) (catalog_get c (asg_DefinitionID a)) snaps)
          (or_error
            (case rec_Override r of
               None \<Rightarrow> None
             | Some ov \<Rightarrow>
                 if ovr_Action ov = SetClassification
                 then (case elems (ovr_Members ov) of
                         [] \<Rightarrow> Some Panic
                       | m # _ \<Rightarrow> compatibleClass m (catalog_get c (ovr_DefinitionID ov)) snaps)
                 else None)
            (validate_grouping_sources X r snaps))))"

section \<open>Preparing a publication\<close>

text \<open>One change against the current catalog; \<open>Inr\<close> is the record put into the new catalog.\<close>

definition admit_change :: "catalog \<Rightarrow> bool \<Rightarrow> change \<Rightarrow> onto_error + onto_record" where
  "admit_change current automatic chg =
     (let r = chg_Record chg
      in case map_of current (rec_ID r) of
        None \<Rightarrow>
          if rec_Retired r then Inl ErrInvalid
          else if chg_ExpectedVersion chg \<noteq> 0 then Inl ErrConflict
          else if automatic \<and> rec_Kind r = OverrideKind then Inl ErrOverride
          else Inr (r\<lparr>rec_Version := wrap64 (chg_ExpectedVersion chg + 1)\<rparr>)
      | Some previous \<Rightarrow>
          if rec_Retired r \<and>
             previous\<lparr>rec_Retired := True, rec_Version := rec_Version r, rec_Fingerprint := rec_Fingerprint r\<rparr> \<noteq> r
          then Inl ErrInvalid
          else if rec_Version previous \<noteq> chg_ExpectedVersion chg \<or> rec_Kind previous \<noteq> rec_Kind r
          then Inl ErrConflict
          else if automatic \<and> rec_Kind r = OverrideKind then Inl ErrOverride
          else Inr (r\<lparr>rec_Version := wrap64 (chg_ExpectedVersion chg + 1)\<rparr>))"

fun admit_changes :: "catalog \<Rightarrow> bool \<Rightarrow> catalog \<Rightarrow> change list \<Rightarrow> onto_error + catalog" where
  "admit_changes current automatic c [] = Inr c"
| "admit_changes current automatic c (chg # chgs) =
     (case admit_change current automatic chg of
        Inl e \<Rightarrow> Inl e
      | Inr r \<Rightarrow> admit_changes current automatic (AList.update (rec_ID r) r c) chgs)"

definition prepare_record ::
  "externals \<Rightarrow> catalog \<Rightarrow> snapshots \<Rightarrow> bool \<Rightarrow> catalog \<Rightarrow> onto_record \<Rightarrow> onto_error + onto_record" where
  "prepare_record X current snaps automatic c r =
     (case or_error (validateRecordReferences r c)
            (or_error (validateRecordSources X r snaps c)
            (or_error (if automatic then CheckOverrides r current else None)
            (if \<not> rec_Retired r \<and> (\<exists>ref\<in>set (elems (rec_Dependencies r)).
                   case map_of c (ref_ID ref) of
                     None \<Rightarrow> True
                   | Some d \<Rightarrow> rec_Retired d \<or> rec_Version d \<noteq> ref_Version ref)
             then Some ErrConflict else None))) of
        Some e \<Rightarrow> Inl e
      | None \<Rightarrow>
          (let r = (if rec_Retired r then r else r\<lparr>rec_Dependencies := Some (dependenciesFor r c)\<rparr>)
           in case RecordFingerprint X r snaps c of
                Inl e \<Rightarrow> Inl e
              | Inr f \<Rightarrow> Inr (r\<lparr>rec_Fingerprint := f\<rparr>)))"

fun prepare_records ::
  "externals \<Rightarrow> catalog \<Rightarrow> snapshots \<Rightarrow> bool \<Rightarrow> catalog \<Rightarrow> change list \<Rightarrow> onto_error + catalog \<times> onto_record list" where
  "prepare_records X current snaps automatic c [] = Inr (c, [])"
| "prepare_records X current snaps automatic c (chg # chgs) =
     (case prepare_record X current snaps automatic c (catalog_get c (rec_ID (chg_Record chg))) of
        Inl e \<Rightarrow> Inl e
      | Inr r \<Rightarrow>
          (case prepare_records X current snaps automatic (AList.update (rec_ID r) r c) chgs of
             Inl e \<Rightarrow> Inl e
           | Inr (c', rs) \<Rightarrow> Inr (c', r # rs)))"

definition PreparePublication ::
  "externals \<Rightarrow> catalog \<Rightarrow> snapshots \<Rightarrow> publication \<Rightarrow> bool \<Rightarrow> onto_error + onto_record list" where
  "PreparePublication X current snaps input automatic =
     (case ValidatePublication X input of
        Some e \<Rightarrow> Inl e
      | None \<Rightarrow>
      (case admit_changes current automatic current (pub_Changes input) of
         Inl e \<Rightarrow> Inl e
       | Inr c \<Rightarrow>
       (case ValidateDefinitions c of
          Some e \<Rightarrow> Inl e
        | None \<Rightarrow>
        (case prepare_records X current snaps automatic c (pub_Changes input) of
           Inl e \<Rightarrow> Inl e
         | Inr (c', prepared) \<Rightarrow>
         (case CheckDependencies X prepared snaps c' of
            Some e \<Rightarrow> Inl e
          | None \<Rightarrow>
          (case ValidatePublication X (input\<lparr>pub_Changes :=
                  map2 (\<lambda>chg r. \<lparr>chg_ExpectedVersion = chg_ExpectedVersion chg, chg_Record = r\<rparr>)
                    (pub_Changes input) prepared\<rparr>) of
             Some e \<Rightarrow> Inl e
           | None \<Rightarrow> Inr prepared))))))"

section \<open>How a change becomes a record\<close>

definition expected_of :: "catalog \<Rightarrow> string \<Rightarrow> int" where
  "expected_of current rid = (case map_of current rid of None \<Rightarrow> 0 | Some p \<Rightarrow> rec_Version p)"

lemma admit_change_Inr:
  assumes "admit_change current automatic chg = Inr r"
  shows "r = (chg_Record chg)\<lparr>rec_Version := wrap64 (chg_ExpectedVersion chg + 1)\<rparr>"
    and "chg_ExpectedVersion chg = expected_of current (rec_ID r)"
    and "\<And>p. map_of current (rec_ID r) = Some p \<Longrightarrow> rec_Kind p = rec_Kind r"
    and "automatic \<Longrightarrow> rec_Kind r \<noteq> OverrideKind"
    and "rec_Retired r \<Longrightarrow> \<exists>p. map_of current (rec_ID r) = Some p \<and>
      (chg_Record chg) = p\<lparr>rec_Retired := True, rec_Version := rec_Version (chg_Record chg),
                           rec_Fingerprint := rec_Fingerprint (chg_Record chg)\<rparr>"
  using assms by (auto simp: admit_change_def expected_of_def Let_def split: option.splits if_splits)

lemma admit_changes_Inr:
  assumes "admit_changes current automatic c chgs = Inr c'"
    and "distinct (map (rec_ID \<circ> chg_Record) chgs)" and "catalog_ok c"
  shows "catalog_ok c'
    \<and> (\<forall>chg\<in>set chgs. \<exists>r. admit_change current automatic chg = Inr r
         \<and> map_of c' (rec_ID (chg_Record chg)) = Some r)
    \<and> (\<forall>k. k \<notin> (rec_ID \<circ> chg_Record) ` set chgs \<longrightarrow> map_of c' k = map_of c k)"
  using assms
proof (induction chgs arbitrary: c)
  case Nil
  then show ?case by simp
next
  case (Cons chg chgs)
  then obtain r where r: "admit_change current automatic chg = Inr r"
    "admit_changes current automatic (AList.update (rec_ID r) r c) chgs = Inr c'"
    by (auto split: sum.splits)
  have i: "rec_ID r = rec_ID (chg_Record chg)" using admit_change_Inr(1) [OF r(1)] by simp
  have ih: "catalog_ok c' \<and> (\<forall>chg\<in>set chgs. \<exists>r. admit_change current automatic chg = Inr r
         \<and> map_of c' (rec_ID (chg_Record chg)) = Some r)
      \<and> (\<forall>k. k \<notin> (rec_ID \<circ> chg_Record) ` set chgs \<longrightarrow> map_of c' k = map_of (AList.update (rec_ID r) r c) k)"
    using Cons.IH [OF r(2)] Cons.prems by (simp add: catalog_ok_update)
  have "rec_ID r \<notin> (rec_ID \<circ> chg_Record) ` set chgs" using Cons.prems(2) i by simp
  then have "map_of c' (rec_ID (chg_Record chg)) = Some r" using ih i by simp
  then show ?case using ih r(1) i by auto
qed

lemma prepare_record_Inr:
  assumes "prepare_record X current snaps automatic c r = Inr r'"
  obtains d f where "r' = r\<lparr>rec_Dependencies := d, rec_Fingerprint := f\<rparr>"
    "rec_Retired r \<Longrightarrow> d = rec_Dependencies r"
    "\<not> rec_Retired r \<Longrightarrow> d = Some (dependenciesFor r c)"
    "validateRecordReferences r c = None" "validateRecordSources X r snaps c = None"
    "automatic \<Longrightarrow> CheckOverrides r current = None"
proof -
  let ?r = "if rec_Retired r then r else r\<lparr>rec_Dependencies := Some (dependenciesFor r c)\<rparr>"
  have e: "or_error (validateRecordReferences r c) (or_error (validateRecordSources X r snaps c)
      (or_error (if automatic then CheckOverrides r current else None)
        (if \<not> rec_Retired r \<and> (\<exists>ref\<in>set (elems (rec_Dependencies r)).
               case map_of c (ref_ID ref) of None \<Rightarrow> True
               | Some d \<Rightarrow> rec_Retired d \<or> rec_Version d \<noteq> ref_Version ref)
         then Some ErrConflict else None))) = None" (is "?checks = None")
    using assms by (cases ?checks) (simp_all add: prepare_record_def)
  then obtain f where f: "r' = ?r\<lparr>rec_Fingerprint := f\<rparr>"
    using assms unfolding prepare_record_def e by (auto simp: Let_def split: sum.splits)
  have v: "validateRecordReferences r c = None" "validateRecordSources X r snaps c = None"
    "automatic \<Longrightarrow> CheckOverrides r current = None"
    using e unfolding or_error_None by (auto split: if_splits)
  show thesis
    by (rule that [of f "rec_Dependencies ?r"]) (use f v in \<open>auto split: if_splits\<close>)
qed

lemma prepare_records_Inr:
  assumes "prepare_records X current snaps automatic c chgs = Inr (c', rs)"
    and "distinct (map (rec_ID \<circ> chg_Record) chgs)"
    and "\<forall>chg\<in>set chgs. \<exists>r. map_of c (rec_ID (chg_Record chg)) = Some r"
    and "catalog_ok c"
  shows "list_all2 (\<lambda>chg r'. \<exists>ct. prepare_record X current snaps automatic ct
             (catalog_get c (rec_ID (chg_Record chg))) = Inr r' \<and> rec_ID r' = rec_ID (chg_Record chg)) chgs rs
    \<and> catalog_ok c' \<and> (\<forall>k. map_of c' k =
         (case map_of (map (\<lambda>r. (rec_ID r, r)) rs) k of None \<Rightarrow> map_of c k | Some r \<Rightarrow> Some r))"
  using assms
proof (induction chgs arbitrary: c rs)
  case Nil
  then show ?case by auto
next
  case (Cons chg chgs)
  let ?i = "rec_ID (chg_Record chg)"
  obtain r' c1 rs' where r': "prepare_record X current snaps automatic c (catalog_get c ?i) = Inr r'"
    "prepare_records X current snaps automatic (AList.update (rec_ID r') r' c) chgs = Inr (c', rs')"
    "rs = r' # rs'"
    using Cons.prems(1) by (auto split: sum.splits)
  obtain r where r: "map_of c ?i = Some r" using Cons.prems(3) by auto
  then have "rec_ID r = ?i" "catalog_get c ?i = r"
    using catalog_ok_id [OF Cons.prems(4)] by (simp_all add: catalog_get_def)
  then have i: "rec_ID r' = ?i" using r'(1) by (elim prepare_record_Inr) simp
  have other: "catalog_get (AList.update (rec_ID r') r' c) (rec_ID (chg_Record b)) = catalog_get c (rec_ID (chg_Record b))"
    if "b \<in> set chgs" for b
  proof -
    have "rec_ID (chg_Record b) \<in> (rec_ID \<circ> chg_Record) ` set chgs" using that by auto
    then have "rec_ID (chg_Record b) \<noteq> rec_ID r'" using Cons.prems(2) i by auto
    then show ?thesis by (simp add: catalog_get_def)
  qed
  have ih: "list_all2 (\<lambda>b rb. \<exists>ct. prepare_record X current snaps automatic ct
        (catalog_get (AList.update (rec_ID r') r' c) (rec_ID (chg_Record b))) = Inr rb
        \<and> rec_ID rb = rec_ID (chg_Record b)) chgs rs'
      \<and> catalog_ok c' \<and> (\<forall>k. map_of c' k = (case map_of (map (\<lambda>r. (rec_ID r, r)) rs') k of
           None \<Rightarrow> map_of (AList.update (rec_ID r') r' c) k | Some r \<Rightarrow> Some r))"
    using Cons.IH [OF r'(2)] Cons.prems(2,3,4) i by (auto simp: catalog_ok_update)
  have l: "list_all2 (\<lambda>b rb. \<exists>ct. prepare_record X current snaps automatic ct
        (catalog_get c (rec_ID (chg_Record b))) = Inr rb \<and> rec_ID rb = rec_ID (chg_Record b)) chgs rs'"
    using conjunct1 [OF ih] other by (auto elim!: list.rel_mono_strong)
  have "?i \<notin> rec_ID ` set rs'"
  proof -
    have "map rec_ID rs' = map (rec_ID \<circ> chg_Record) chgs"
      using l by (induction rule: list_all2_induct) auto
    then have "rec_ID ` set rs' = (rec_ID \<circ> chg_Record) ` set chgs" by (metis list.set_map)
    with Cons.prems(2) show ?thesis by simp
  qed
  then have n: "map_of (map (\<lambda>r. (rec_ID r, r)) rs') ?i = None" by (auto simp: map_of_eq_None_iff)
  show ?case using l ih r' i n by (auto split: option.splits)
qed

text \<open>Everything later proofs need of a successful preparation.\<close>

definition prepared_from ::
  "externals \<Rightarrow> catalog \<Rightarrow> snapshots \<Rightarrow> bool \<Rightarrow> change \<Rightarrow> onto_record \<Rightarrow> bool" where
  "prepared_from X current snaps automatic chg r' \<longleftrightarrow>
     (\<exists>ct r. admit_change current automatic chg = Inr r \<and> prepare_record X current snaps automatic ct r = Inr r')"

lemma PreparePublication_Inr:
  assumes "PreparePublication X current snaps p automatic = Inr rs" and "catalog_ok current"
  obtains c c' where
    "publication_ok X p" "admit_changes current automatic current (pub_Changes p) = Inr c"
    "ValidateDefinitions c = None" "catalog_ok c" "catalog_ok c'"
    "list_all2 (prepared_from X current snaps automatic) (pub_Changes p) rs"
    "\<And>k. map_of c' k =
       (case map_of (map (\<lambda>r. (rec_ID r, r)) rs) k of None \<Rightarrow> map_of c k | Some r \<Rightarrow> Some r)"
    "CheckDependencies X rs snaps c' = None"
    "\<And>r. r \<in> set rs \<Longrightarrow> record_ok X r"
proof -
  obtain c c' where c: "ValidatePublication X p = None"
    "admit_changes current automatic current (pub_Changes p) = Inr c" "ValidateDefinitions c = None"
    "prepare_records X current snaps automatic c (pub_Changes p) = Inr (c', rs)"
    "CheckDependencies X rs snaps c' = None"
    "ValidatePublication X (p\<lparr>pub_Changes :=
       map2 (\<lambda>chg r. \<lparr>chg_ExpectedVersion = chg_ExpectedVersion chg, chg_Record = r\<rparr>) (pub_Changes p) rs\<rparr>) = None"
    using assms(1) unfolding PreparePublication_def
    by (auto split: option.splits sum.splits prod.splits)
  have ok: "publication_ok X p" using c(1) by (simp add: ValidatePublication_None)
  then have d: "distinct (map (rec_ID \<circ> chg_Record) (pub_Changes p))" by (simp add: publication_ok_def)
  note a = admit_changes_Inr [OF c(2) d assms(2)]
  then have "\<forall>chg\<in>set (pub_Changes p). \<exists>r. map_of c (rec_ID (chg_Record chg)) = Some r" by blast
  then have pr: "list_all2 (\<lambda>chg r'. \<exists>ct. prepare_record X current snaps automatic ct
             (catalog_get c (rec_ID (chg_Record chg))) = Inr r' \<and> rec_ID r' = rec_ID (chg_Record chg)) (pub_Changes p) rs
    \<and> catalog_ok c' \<and> (\<forall>k. map_of c' k =
         (case map_of (map (\<lambda>r. (rec_ID r, r)) rs) k of None \<Rightarrow> map_of c k | Some r \<Rightarrow> Some r))"
    using prepare_records_Inr [OF c(4) d] a by blast
  have from_chg: "list_all2 (prepared_from X current snaps automatic) (pub_Changes p) rs"
    using conjunct1 [OF pr] a unfolding prepared_from_def
    by (elim list.rel_mono_strong) (fastforce simp: catalog_get_def)
  have len: "length rs = length (pub_Changes p)" using from_chg by (simp add: list_all2_lengthD)
  have "record_ok X r" if "r \<in> set rs" for r
  proof -
    obtain i where "i < length rs" "rs ! i = r" using \<open>r \<in> set rs\<close> by (auto simp: in_set_conv_nth)
    then have "\<lparr>chg_ExpectedVersion = chg_ExpectedVersion (pub_Changes p ! i), chg_Record = r\<rparr>
        \<in> set (map2 (\<lambda>chg r. \<lparr>chg_ExpectedVersion = chg_ExpectedVersion chg, chg_Record = r\<rparr>) (pub_Changes p) rs)"
      using len by (auto simp: in_set_zip intro!: image_eqI [of _ _ "(pub_Changes p ! i, rs ! i)"])
    then show ?thesis using c(6) unfolding ValidatePublication_None publication_ok_def by fastforce
  qed
  then show thesis using that ok c a pr from_chg by blast
qed

lemma prepared_from_cases:
  assumes "prepared_from X current snaps automatic chg r'"
  obtains r d f ct where "admit_change current automatic chg = Inr r"
    "r' = r\<lparr>rec_Dependencies := d, rec_Fingerprint := f\<rparr>"
    "rec_Retired r \<Longrightarrow> d = rec_Dependencies r"
    "validateRecordReferences r ct = None" "validateRecordSources X r snaps ct = None"
    "automatic \<Longrightarrow> CheckOverrides r current = None"
    "r = (chg_Record chg)\<lparr>rec_Version := wrap64 (chg_ExpectedVersion chg + 1)\<rparr>"
    "chg_ExpectedVersion chg = expected_of current (rec_ID r)"
proof -
  obtain ct r where a: "admit_change current automatic chg = Inr r"
    "prepare_record X current snaps automatic ct r = Inr r'"
    using assms by (auto simp: prepared_from_def)
  show thesis
  proof (rule prepare_record_Inr [OF a(2)])
    fix d f assume d: "r' = r\<lparr>rec_Dependencies := d, rec_Fingerprint := f\<rparr>"
      "rec_Retired r \<Longrightarrow> d = rec_Dependencies r"
      "validateRecordReferences r ct = None" "validateRecordSources X r snaps ct = None"
      "automatic \<Longrightarrow> CheckOverrides r current = None"
    from that [OF a(1) d admit_change_Inr(1,2) [OF a(1)]] show thesis by simp
  qed
qed

lemma prepared_from_record:
  assumes "prepared_from X current snaps automatic chg r'"
  shows "\<exists>d f. r' = (chg_Record chg)\<lparr>rec_Version := wrap64 (chg_ExpectedVersion chg + 1),
      rec_Dependencies := d, rec_Fingerprint := f\<rparr>
    \<and> (rec_Retired r' \<longrightarrow> d = rec_Dependencies (chg_Record chg))
    \<and> chg_ExpectedVersion chg = expected_of current (rec_ID r')"
  using assms
proof (rule prepared_from_cases)
  fix r d f
  assume 1: "r' = r\<lparr>rec_Dependencies := d, rec_Fingerprint := f\<rparr>"
    and 2: "rec_Retired r \<Longrightarrow> d = rec_Dependencies r"
    and 3: "r = (chg_Record chg)\<lparr>rec_Version := wrap64 (chg_ExpectedVersion chg + 1)\<rparr>"
    and 4: "chg_ExpectedVersion chg = expected_of current (rec_ID r)"
  have i: "rec_ID r' = rec_ID r" "rec_Retired r' = rec_Retired r" unfolding 1 by simp_all
  have d: "rec_Dependencies r = rec_Dependencies (chg_Record chg)" unfolding 3 by simp
  show ?thesis
  proof (intro exI conjI impI)
    show "r' = (chg_Record chg)\<lparr>rec_Version := wrap64 (chg_ExpectedVersion chg + 1),
      rec_Dependencies := d, rec_Fingerprint := f\<rparr>" by (rule 1 [unfolded 3])
    show "d = rec_Dependencies (chg_Record chg)" if "rec_Retired r'" using 2 that i d by simp
    show "chg_ExpectedVersion chg = expected_of current (rec_ID r')" unfolding i by (rule 4)
  qed
qed

section \<open>Optimistic concurrency\<close>

text \<open>The parts of a record that a change decides; the rest is computed.\<close>

definition same_content :: "onto_record \<Rightarrow> onto_record \<Rightarrow> bool" where
  "same_content r q \<longleftrightarrow> rec_ID r = rec_ID q \<and> rec_Kind r = rec_Kind q \<and> rec_Retired r = rec_Retired q
     \<and> rec_Definition r = rec_Definition q \<and> rec_Assignment r = rec_Assignment q
     \<and> rec_Group r = rec_Group q \<and> rec_Override r = rec_Override q \<and> rec_Sources r = rec_Sources q"

lemma publication_versions_aux:
  assumes "PreparePublication X current snaps p automatic = Inr rs" and "catalog_ok current"
    and "\<forall>chg\<in>set (pub_Changes p). chg_ExpectedVersion chg \<le> max_int64"
  shows "list_all2 (\<lambda>chg r. same_content r (chg_Record chg)
      \<and> chg_ExpectedVersion chg = expected_of current (rec_ID r)
      \<and> rec_Version r = expected_of current (rec_ID r) + 1) (pub_Changes p) rs"
proof (rule PreparePublication_Inr [OF assms(1,2)])
  fix c c'
  assume ok: "publication_ok X p" and l: "list_all2 (prepared_from X current snaps automatic) (pub_Changes p) rs"
    and rok: "\<And>r. r \<in> set rs \<Longrightarrow> record_ok X r"
  show ?thesis
    using l
  proof (rule list.rel_mono_strong)
    fix chg r' assume m: "chg \<in> set (pub_Changes p)" "r' \<in> set rs"
      and "prepared_from X current snaps automatic chg r'"
    then obtain d f where r: "r' = (chg_Record chg)\<lparr>rec_Version := wrap64 (chg_ExpectedVersion chg + 1),
        rec_Dependencies := d, rec_Fingerprint := f\<rparr>"
      "chg_ExpectedVersion chg = expected_of current (rec_ID r')"
      using prepared_from_record by blast
    have "0 \<le> chg_ExpectedVersion chg" using ok m(1) by (simp add: publication_ok_def)
    moreover have "chg_ExpectedVersion chg \<le> max_int64" using assms(3) m(1) by blast
    moreover have v: "rec_Version r' = wrap64 (chg_ExpectedVersion chg + 1)" unfolding r(1) by simp
    moreover have "0 \<le> wrap64 (chg_ExpectedVersion chg + 1)"
      unfolding v [symmetric] using rok [OF m(2)] by (simp add: record_ok_def)
    ultimately have "wrap64 (chg_ExpectedVersion chg + 1) = chg_ExpectedVersion chg + 1"
      using wrap64_succ by blast
    moreover have "same_content r' (chg_Record chg)" unfolding r(1) same_content_def by simp
    ultimately show "same_content r' (chg_Record chg) \<and> chg_ExpectedVersion chg = expected_of current (rec_ID r')
        \<and> rec_Version r' = expected_of current (rec_ID r') + 1"
      using r(2) v by metis
  qed
qed

lemma publication_versions_first:
  assumes "PreparePublication X current snaps p automatic = Inr (r # rs)" and "catalog_ok current"
    and "\<forall>chg\<in>set (pub_Changes p). chg_ExpectedVersion chg \<le> max_int64" and "pub_Changes p = chg # chgs"
  shows "rec_Version r = chg_ExpectedVersion chg + 1"
  using publication_versions_aux [OF assms(1-3)] assms(4) by simp

text \<open>(publication_versions): a prepared publication writes one record per change, in order, with
  the content of the change; each change expected exactly the version the catalog holds (0 for a
  new record), and the record is written at that version plus one, without overflow.\<close>

theorem publication_versions:
  assumes "PreparePublication X current snaps p automatic = Inr rs" and "catalog_ok current"
    and "\<forall>chg\<in>set (pub_Changes p). chg_ExpectedVersion chg \<le> max_int64"
  shows "list_all2 (\<lambda>chg r. same_content r (chg_Record chg)
      \<and> chg_ExpectedVersion chg = expected_of current (rec_ID r)
      \<and> rec_Version r = expected_of current (rec_ID r) + 1) (pub_Changes p) rs"
  using assms by (rule publication_versions_aux)

text \<open>What the store does with the prepared records.\<close>

definition apply_records :: "catalog \<Rightarrow> onto_record list \<Rightarrow> catalog" where
  "apply_records current rs = foldl (\<lambda>c r. AList.update (rec_ID r) r c) current rs"

lemma map_of_apply_records:
  "distinct (map rec_ID rs) \<Longrightarrow> map_of (apply_records current rs) k =
     (case map_of (map (\<lambda>r. (rec_ID r, r)) rs) k of None \<Rightarrow> map_of current k | Some r \<Rightarrow> Some r)"
proof (induction rs arbitrary: current)
  case Nil
  then show ?case by (simp add: apply_records_def)
next
  case (Cons r rs)
  then have "map_of (map (\<lambda>r. (rec_ID r, r)) rs) (rec_ID r) = None"
    by (auto simp: map_of_eq_None_iff)
  with Cons show ?case by (auto simp: apply_records_def split: option.splits)
qed

lemma catalog_ok_apply: "catalog_ok current \<Longrightarrow> catalog_ok (apply_records current rs)"
  by (induction rs arbitrary: current) (auto simp: apply_records_def catalog_ok_update)

lemma prepared_ids:
  "list_all2 (prepared_from X current snaps automatic) chgs rs \<Longrightarrow>
    map rec_ID rs = map (rec_ID \<circ> chg_Record) chgs"
proof (induction rule: list_all2_induct)
  case Nil
  then show ?case by simp
next
  case (Cons chg chgs r rs)
  then have "rec_ID r = rec_ID (chg_Record chg)" using prepared_from_record by fastforce
  with Cons show ?case by simp
qed

text \<open>(publication_not_replayable): once the records of a publication are in the catalog, preparing
  the same publication again, by anyone and against any sources, is rejected as a conflict: no
  update is applied twice or lost to a concurrent one.\<close>

theorem publication_not_replayable:
  assumes "PreparePublication X current snaps p automatic = Inr rs" and "catalog_ok current"
    and "\<forall>chg\<in>set (pub_Changes p). chg_ExpectedVersion chg \<le> max_int64"
  shows "PreparePublication X (apply_records current rs) snaps' p automatic' = Inl ErrConflict"
proof (rule PreparePublication_Inr [OF assms(1,2)])
  fix c c'
  assume ok: "publication_ok X p" and l: "list_all2 (prepared_from X current snaps automatic) (pub_Changes p) rs"
  note ids = prepared_ids [OF l]
  obtain chg chgs where p: "pub_Changes p = chg # chgs" using ok by (cases "pub_Changes p") (auto simp: publication_ok_def)
  obtain r' rs' where rs: "rs = r' # rs'" "prepared_from X current snaps automatic chg r'"
    using l p by (auto simp: list_all2_Cons1)
  then obtain d f where r: "r' = (chg_Record chg)\<lparr>rec_Version := wrap64 (chg_ExpectedVersion chg + 1),
      rec_Dependencies := d, rec_Fingerprint := f\<rparr>"
    "rec_Retired r' \<Longrightarrow> d = rec_Dependencies (chg_Record chg)"
    using prepared_from_record by blast
  have "distinct (map rec_ID rs)" using ok ids by (simp add: publication_ok_def)
  then have m: "map_of (apply_records current rs) (rec_ID (chg_Record chg)) = Some r'"
    using rs(1) r(1) by (simp add: map_of_apply_records)
  have "rec_Version r' = chg_ExpectedVersion chg + 1"
    using publication_versions_first [of X current snaps p automatic r' rs'] assms p rs(1) by simp
  then have "rec_Version r' \<noteq> chg_ExpectedVersion chg" by simp
  moreover have "rec_Retired (chg_Record chg) \<Longrightarrow> r'\<lparr>rec_Retired := True, rec_Version := rec_Version (chg_Record chg),
      rec_Fingerprint := rec_Fingerprint (chg_Record chg)\<rparr> = chg_Record chg"
    using r by simp
  ultimately have "admit_change (apply_records current rs) automatic' chg = Inl ErrConflict"
    using m by (simp add: admit_change_def Let_def)
  then show ?thesis
    using ok p by (simp add: PreparePublication_def ValidatePublication_None [symmetric])
qed

section \<open>The resulting catalog\<close>

definition same_definition :: "onto_record \<Rightarrow> onto_record \<Rightarrow> bool" where
  "same_definition r q \<longleftrightarrow> rec_ID r = rec_ID q \<and> rec_Kind r = rec_Kind q
     \<and> rec_Retired r = rec_Retired q \<and> rec_Definition r = rec_Definition q"

lemma same_definition_facts:
  assumes "same_definition r q"
  shows "live_definition r = live_definition q" "names_of r = names_of q"
    "same_family r b = same_family q b" "same_family s b r = same_family s b q"
  using assms
  by (auto simp: same_definition_def live_definition_def names_of_def name_key_def DefinitionNames_def
      same_family_def fun_eq_iff)

lemma list_all2_right: "list_all2 P xs ys \<Longrightarrow> y \<in> set ys \<Longrightarrow> \<exists>x\<in>set xs. P x y"
  by (induction rule: list_all2_induct) auto

lemma list_all2_left: "list_all2 P xs ys \<Longrightarrow> x \<in> set xs \<Longrightarrow> \<exists>y\<in>set ys. P x y"
  by (induction rule: list_all2_induct) auto

lemma parent_chain_same:
  assumes "\<And>k. rel_option same_definition (map_of c k) (map_of c' k)"
  shows "parent_chain c pid ps \<Longrightarrow> \<exists>qs. parent_chain c' pid qs \<and> list_all2 same_definition ps qs"
proof (induction ps arbitrary: pid)
  case Nil
  then show ?case by (intro exI [of _ "[]"]) simp
next
  case (Cons p ps)
  then obtain d where p: "pid \<noteq> []" "map_of c pid = Some p" "\<not> rec_Retired p" "rec_Definition p = Some d"
    "parent_chain c (def_ParentID d) ps" by auto
  then obtain q where q: "map_of c' pid = Some q" "same_definition p q"
    using assms [of pid] by (auto simp: option_rel_Some1)
  obtain qs where "parent_chain c' (def_ParentID d) qs" "list_all2 same_definition ps qs"
    using Cons.IH [OF p(5)] by blast
  moreover have "rec_Definition q = Some d" "\<not> rec_Retired q"
    using p(3,4) q(2) by (simp_all add: same_definition_def)
  ultimately show ?case using p q by (intro exI [of _ "q # qs"]) auto
qed

lemma hierarchy_ok_same:
  assumes "\<And>k. rel_option same_definition (map_of c k) (map_of c' k)" and "same_definition r q"
    and "hierarchy_ok c r"
  shows "hierarchy_ok c' q"
  unfolding hierarchy_ok_def
proof (intro allI impI)
  fix d assume "rec_Definition q = Some d"
  then have d: "rec_Definition r = Some d" using assms(2) by (simp add: same_definition_def)
  then obtain ps where ps: "parent_chain c (def_ParentID d) ps" "length ps \<le> MaxParentDepth"
    "distinct (rec_ID r # map rec_ID ps)" "\<forall>p\<in>set ps. same_family r (def_BaseEntityKind d) p"
    using assms(3) by (auto simp: hierarchy_ok_def)
  obtain qs where qs: "parent_chain c' (def_ParentID d) qs" "list_all2 same_definition ps qs"
    using parent_chain_same [OF assms(1) ps(1)] by blast
  have ids: "map rec_ID ps = map rec_ID qs"
    using qs(2) by (induction rule: list_all2_induct) (auto simp: same_definition_def)
  have "\<forall>p\<in>set qs. same_family q (def_BaseEntityKind d) p"
  proof
    fix x assume "x \<in> set qs"
    then obtain y where "y \<in> set ps" "same_definition y x"
      using qs(2) by (meson list_all2_right)
    then show "same_family q (def_BaseEntityKind d) x"
      using ps(4) same_definition_facts(3) [OF assms(2)] same_definition_facts(4) by metis
  qed
  then show "\<exists>ps. parent_chain c' (def_ParentID d) ps \<and> length ps \<le> MaxParentDepth
      \<and> distinct (rec_ID q # map rec_ID ps) \<and> (\<forall>p\<in>set ps. same_family q (def_BaseEntityKind d) p)"
    using qs ps(2,3) ids assms(2) list_all2_lengthD [OF qs(2)]
    by (intro exI [of _ qs]) (simp add: same_definition_def)
qed

lemma catalog_records: "catalog_ok c \<Longrightarrow> r \<in> snd ` set c \<longleftrightarrow> map_of c (rec_ID r) = Some r"
proof
  assume ok: "catalog_ok c" and "r \<in> snd ` set c"
  then obtain k where k: "(k, r) \<in> set c" by auto
  then have "map_of c k = Some r" using catalog_ok_mem [OF ok] by simp
  then show "map_of c (rec_ID r) = Some r" using catalog_ok_id [OF ok] by metis
next
  assume "map_of c (rec_ID r) = Some r"
  then show "r \<in> snd ` set c" by (auto dest!: map_of_SomeD intro: rev_image_eqI)
qed

lemma ValidateDefinitions_same:
  assumes rel: "\<And>k. rel_option same_definition (map_of c k) (map_of c' k)"
    and ok: "catalog_ok c" "catalog_ok c'" and "ValidateDefinitions c = None"
  shows "ValidateDefinitions c' = None"
proof -
  have origin: "\<exists>r\<in>snd ` set c. same_definition r q" if "q \<in> snd ` set c'" for q
  proof -
    have "map_of c' (rec_ID q) = Some q" using that catalog_records [OF ok(2)] by simp
    then obtain r where "map_of c (rec_ID q) = Some r" "same_definition r q"
      using rel [of "rec_ID q"] by (auto simp: option_rel_Some2)
    then show ?thesis by (auto dest!: map_of_SomeD intro!: bexI [of _ "(rec_ID q, r)"])
  qed
  note valid = assms(4) [unfolded ValidateDefinitions_None [OF ok(1)]]
  show ?thesis
    unfolding ValidateDefinitions_None [OF ok(2)]
  proof (intro conjI ballI impI)
    fix q assume "q \<in> snd ` set c'" "live_definition q"
    then show "hierarchy_ok c' q"
      using origin valid hierarchy_ok_same [OF rel] same_definition_facts(1) by metis
  next
    fix q1 q2 assume "q1 \<in> snd ` set c'" "q2 \<in> snd ` set c'"
      and q: "live_definition q1 \<and> live_definition q2 \<and> names_of q1 \<inter> names_of q2 \<noteq> {}"
    obtain r1 where r1: "r1 \<in> snd ` set c" "same_definition r1 q1"
      using origin [OF \<open>q1 \<in> snd ` set c'\<close>] by blast
    obtain r2 where r2: "r2 \<in> snd ` set c" "same_definition r2 q2"
      using origin [OF \<open>q2 \<in> snd ` set c'\<close>] by blast
    have "live_definition r1" "live_definition r2" "names_of r1 \<inter> names_of r2 \<noteq> {}"
      using q same_definition_facts(1,2) [OF r1(2)] same_definition_facts(1,2) [OF r2(2)] by simp_all
    then have "rec_ID r1 = rec_ID r2" using valid r1(1) r2(1) by blast
    then show "rec_ID q1 = rec_ID q2" using r1(2) r2(2) by (simp add: same_definition_def)
  qed
qed

lemma prepared_catalogs:
  assumes ok: "publication_ok X p" "catalog_ok current"
    and c: "admit_changes current automatic current (pub_Changes p) = Inr c"
    and l: "list_all2 (prepared_from X current snaps automatic) (pub_Changes p) rs"
  shows "rel_option same_definition (map_of c k) (map_of (apply_records current rs) k)"
proof -
  have d: "distinct (map (rec_ID \<circ> chg_Record) (pub_Changes p))" using ok by (simp add: publication_ok_def)
  note ids = prepared_ids [OF l]
  note m = map_of_apply_records [of rs current k, unfolded ids, OF d]
  note a = admit_changes_Inr [OF c d ok(2)]
  show ?thesis
  proof (cases "k \<in> (rec_ID \<circ> chg_Record) ` set (pub_Changes p)")
    case False
    then have "map_of (map (\<lambda>r. (rec_ID r, r)) rs) k = None"
      using arg_cong [OF ids, of set] by (auto simp: map_of_eq_None_iff image_iff)
    with False a m show ?thesis
      by (cases "map_of current k") (auto simp: same_definition_def)
  next
    case True
    then obtain chg where chg: "chg \<in> set (pub_Changes p)" "k = rec_ID (chg_Record chg)" by auto
    then obtain r' where r': "r' \<in> set rs" "prepared_from X current snaps automatic chg r'"
      using l by (meson list_all2_left)
    obtain r where r: "admit_change current automatic chg = Inr r" "map_of c k = Some r"
      using a chg by blast
    have "same_definition r r'"
      using prepared_from_record [OF r'(2)] admit_change_Inr(1) [OF r(1)]
      by (auto simp: same_definition_def)
    moreover have "rec_ID r' = k" using \<open>same_definition r r'\<close> admit_change_Inr(1) [OF r(1)] chg(2)
      by (simp add: same_definition_def)
    then have "map_of (map (\<lambda>r. (rec_ID r, r)) rs) k = Some r'"
      using r'(1) d ids by (intro map_of_is_SomeI) (auto simp: o_def)
    ultimately show ?thesis using r(2) m by simp
  qed
qed

text \<open>C2 (publication_keeps_hierarchy): the catalog after a publication still passes the check of the
  definition hierarchy: no collision of names, no missing or retired parent, no cycle, at most 32
  levels.\<close>

theorem publication_keeps_hierarchy:
  assumes "PreparePublication X current snaps p automatic = Inr rs" and "catalog_ok current"
  shows "catalog_ok (apply_records current rs) \<and> ValidateDefinitions (apply_records current rs) = None"
proof (rule PreparePublication_Inr [OF assms])
  fix c c'
  assume "publication_ok X p" "admit_changes current automatic current (pub_Changes p) = Inr c"
    and v: "ValidateDefinitions c = None" "catalog_ok c"
    and "list_all2 (prepared_from X current snaps automatic) (pub_Changes p) rs"
  then have "rel_option same_definition (map_of c k) (map_of (apply_records current rs) k)" for k
    using prepared_catalogs assms(2) by blast
  from ValidateDefinitions_same [OF this v(2) catalog_ok_apply v(1)] catalog_ok_apply assms(2)
  show ?thesis by blast
qed

section \<open>Automatic publications and manager decisions\<close>

lemma CheckOverrides_irrelevant:
  "CheckOverrides (r\<lparr>rec_Dependencies := d, rec_Fingerprint := f\<rparr>) c = CheckOverrides r c"
proof -
  let ?r = "r\<lparr>rec_Dependencies := d, rec_Fingerprint := f\<rparr>"
  have f: "rec_ID ?r = rec_ID r" "rec_Kind ?r = rec_Kind r" "rec_Retired ?r = rec_Retired r"
    "rec_Definition ?r = rec_Definition r" "rec_Assignment ?r = rec_Assignment r"
    "rec_Group ?r = rec_Group r" "rec_Override ?r = rec_Override r"
    by simp_all
  have g: "override_applies ?r = override_applies r" "check_override ?r = check_override r"
    "RequiredSources ?r = RequiredSources r"
    unfolding fun_eq_iff override_applies_def check_override_def RequiredSources_def f by simp_all
  show ?thesis unfolding CheckOverrides_def ApplicableOverrides_def f g by (rule refl)
qed

lemma automatic_record:
  assumes "prepared_from X current snaps True chg r'"
  shows "rec_Kind r' \<noteq> OverrideKind \<and> CheckOverrides r' current = None
    \<and> (\<forall>p. map_of current (rec_ID r') = Some p \<longrightarrow> rec_Kind p = rec_Kind r')"
  using assms
proof (rule prepared_from_cases)
  fix r d f
  assume a: "admit_change current True chg = Inr r" and r': "r' = r\<lparr>rec_Dependencies := d, rec_Fingerprint := f\<rparr>"
    and "True \<Longrightarrow> CheckOverrides r current = None"
  then show ?thesis
    using admit_change_Inr(3,4) [OF a] unfolding r' CheckOverrides_irrelevant by simp
qed

lemma pin_blocks:
  assumes "CheckOverrides r c = None" and "rec_Kind r \<noteq> OverrideKind" and "(k, cand) \<in> set c"
    and "\<not> rec_Retired cand" and "rec_Override cand = Some ov"
    and "ovr_Action ov = PinDefinition" and "ovr_TargetID ov = rec_ID r"
  shows "rec_Definition r = None"
proof (rule ccontr)
  assume d: "rec_Definition r \<noteq> None"
  then have "override_applies r (map SourceKey (RequiredSources r)) ov"
    using assms(6,7) by (simp add: override_applies_def)
  then have "check_override r ov = None" using CheckOverrides_None [OF assms(2)] assms by blast
  with d assms(6) show False by (simp add: check_override_def)
qed

lemma apply_records_Some:
  assumes "PreparePublication X current snaps p automatic = Inr rs" and "catalog_ok current"
    and "map_of (apply_records current rs) k \<noteq> map_of current k"
  shows "\<exists>r\<in>set rs. rec_ID r = k \<and> (\<exists>chg. prepared_from X current snaps automatic chg r) \<and> record_ok X r"
proof (rule PreparePublication_Inr [OF assms(1,2)])
  assume ok: "publication_ok X p"
    and l: "list_all2 (prepared_from X current snaps automatic) (pub_Changes p) rs"
    and rok: "\<And>r. r \<in> set rs \<Longrightarrow> record_ok X r"
  have "distinct (map rec_ID rs)" using ok prepared_ids [OF l] by (simp add: publication_ok_def)
  then have "map_of (map (\<lambda>r. (rec_ID r, r)) rs) k \<noteq> None"
    using assms(3) by (cases "map_of (map (\<lambda>r. (rec_ID r, r)) rs) k") (simp_all add: map_of_apply_records)
  then obtain r where r: "r \<in> set rs" "rec_ID r = k" by (auto dest!: map_of_SomeD)
  then obtain chg where "prepared_from X current snaps automatic chg r"
    using list_all2_right [OF l] by blast
  with r rok show ?thesis by blast
qed


section \<open>Freshness\<close>

lemma record_ok_sources: "record_ok X r \<Longrightarrow> s \<in> set (RequiredSources r) \<Longrightarrow> 1 \<le> sh_Version s"
  by (auto simp: record_ok_def body_ok_def RequiredSources_def record_bodies_def members_ok_def
      override_ok_def handle_ok_def split: option.splits if_splits)

lemma CheckSourceDependencies_None:
  "CheckSourceDependencies X r snaps = None \<longleftrightarrow>
     (\<forall>d\<in>set (elems (rec_Sources r)). \<exists>s. snaps (SourceKey (sd_Source d)) = Some s \<and> snap_Eligible s
        \<and> snap_Source s = sd_Source d \<and> sd_Fingerprint d = x_hash X (HashSource s))"
proof -
  have i: "fingerprintSnapshot X snaps h = Inr f \<longleftrightarrow>
      (\<exists>s. snaps (SourceKey h) = Some s \<and> snap_Eligible s \<and> snap_Source s = h \<and> f = x_hash X (HashSource s))"
    for h f by (cases "snaps (SourceKey h)") (auto simp: fingerprintSnapshot_def)
  have "(case fingerprintSnapshot X snaps (sd_Source d) of Inl e \<Rightarrow> Some e
      | Inr f \<Rightarrow> if f \<noteq> sd_Fingerprint d then Some ErrSourceStale else None) = None
      \<longleftrightarrow> fingerprintSnapshot X snaps (sd_Source d) = Inr (sd_Fingerprint d)" for d
    by (cases "fingerprintSnapshot X snaps (sd_Source d)") simp_all
  then show ?thesis unfolding CheckSourceDependencies_def first_error_None i by blast
qed

lemma declared_source_mem:
  assumes "declared_source r (SourceKey s) = s" and "1 \<le> sh_Version s"
  shows "s \<in> sd_Source ` set (elems (rec_Sources r))"
proof -
  let ?m = "rev (map (\<lambda>d. (SourceKey (sd_Source d), sd_Source d)) (elems (rec_Sources r)))"
  have "s \<noteq> zero_handle" using assms(2) by (auto simp: zero_handle_def)
  then have "map_of ?m (SourceKey s) = Some s"
    using assms(1) by (auto simp: declared_source_def split: option.splits)
  then show ?thesis by (auto dest!: map_of_SomeD)
qed

text \<open>C4 (published_sources_fresh): every live record a publication writes names each source its body
  needs, at the very version and with the very fingerprint of an eligible current snapshot: nothing
  is published from a source that is missing, ineligible or changed.\<close>

theorem published_sources_fresh:
  assumes "PreparePublication X current snaps p automatic = Inr rs" and "catalog_ok current"
    and "r \<in> set rs" and "\<not> rec_Retired r" and "s \<in> set (RequiredSources r)"
  shows "\<exists>d\<in>set (elems (rec_Sources r)). sd_Source d = s
    \<and> (\<exists>snap. snaps (SourceKey s) = Some snap \<and> snap_Eligible snap \<and> snap_Source snap = s
         \<and> sd_Fingerprint d = x_hash X (HashSource snap))"
proof (rule PreparePublication_Inr [OF assms(1,2)])
  assume l: "list_all2 (prepared_from X current snaps automatic) (pub_Changes p) rs"
    and rok: "\<And>r. r \<in> set rs \<Longrightarrow> record_ok X r"
  then obtain chg where "prepared_from X current snaps automatic chg r"
    using list_all2_right assms(3) by metis
  then show ?thesis
  proof (rule prepared_from_cases)
    fix r0 d f ct
    assume r: "r = r0\<lparr>rec_Dependencies := d, rec_Fingerprint := f\<rparr>"
      and v: "validateRecordSources X r0 snaps ct = None"
    have "CheckSourceDependencies X r0 snaps = None" "sources_declared r0"
      using v assms(4) r by (auto simp: validateRecordSources_def split: if_splits)
    then have c: "CheckSourceDependencies X r snaps = None" "sources_declared r"
      unfolding r by (simp_all add: CheckSourceDependencies_def sources_declared_def declared_source_def
          RequiredSources_def)
    have "1 \<le> sh_Version s" using record_ok_sources rok assms(3,5) by blast
    then obtain dep where "dep \<in> set (elems (rec_Sources r))" "sd_Source dep = s"
      using declared_source_mem c(2) assms(5) by (fastforce simp: sources_declared_def)
    then show ?thesis using c(1) unfolding CheckSourceDependencies_None by blast
  qed
qed

section \<open>A publication that goes through\<close>

text \<open>One Evidence source is assigned to a topic, automatically.\<close>

definition sample_print :: string where
  "sample_print = ''sha256:'' @ replicate 64 CHR ''0''"

definition sample_current :: catalog where
  "sample_current = [(''id-2'', (sample_topic ''id-2'' ''work'' [])
     \<lparr>rec_Version := 1, rec_Fingerprint := sample_print\<rparr>)]"

definition sample_snapshots :: snapshots where
  "sample_snapshots = [SourceKey (sample_handle ''id-3'') \<mapsto> sample_evidence ''id-3'' ''ann'' ''ship it'']"

definition sample_assignment :: onto_record where
  "sample_assignment = zero_record\<lparr>rec_ID := ''id-1'', rec_Kind := AssignmentKind,
     rec_Assignment := Some \<lparr>asg_Source = sample_handle ''id-3'', asg_DefinitionID = ''id-2''\<rparr>,
     rec_Sources := Some [\<lparr>sd_Source = sample_handle ''id-3'', sd_Fingerprint = sample_print\<rparr>]\<rparr>"

definition sample_change :: change where
  "sample_change = \<lparr>chg_ExpectedVersion = 0, chg_Record = sample_assignment\<rparr>"

definition sample_assign :: publication where
  "sample_assign = sample_publication\<lparr>pub_Changes := [sample_change]\<rparr>"

definition sample_dependency :: revision_ref where
  "sample_dependency = \<lparr>ref_ID = ''id-2'', ref_Version = 1\<rparr>"

definition sample_prepared :: onto_record where
  "sample_prepared = sample_assignment\<lparr>rec_Version := 1, rec_Dependencies := Some [sample_dependency],
     rec_Fingerprint := sample_print\<rparr>"

lemma sample_print_valid: "validFingerprint sample_print"
  by (simp add: validFingerprint_def sample_print_def)

lemma sample_hash: "x_hash sample_externals h = sample_print"
  by (simp add: sample_externals_def sample_print_def)

lemma sample_handle_ok: "handle_ok sample_externals (sample_handle ''id-3'')"
  by (simp add: handle_ok_def sample_handle_def source_kind_defs)

lemma sample_assignment_ok:
  "record_ok sample_externals sample_assignment" "record_ok sample_externals sample_prepared"
  by (simp_all add: sample_prepared_def sample_dependency_def record_ok_def sample_assignment_def
      zero_record_def record_bodies_def body_ok_def kind_defs sample_handle_ok sample_print_valid
      MaxMembers_def)

lemma sample_assign_accepted:
  "ValidatePublication sample_externals sample_assign = None"
  "ValidatePublication sample_externals (sample_assign\<lparr>pub_Changes :=
     [\<lparr>chg_ExpectedVersion = 0, chg_Record = sample_prepared\<rparr>]\<rparr>) = None"
  using sample_publication_accepted sample_assignment_ok
  by (simp_all add: ValidatePublication_None publication_ok_def sample_assign_def sample_change_def
      sample_publication_def sample_externals_def MaxChanges_def MaxPublicationDependencies_def
      sample_assignment_def sample_prepared_def zero_record_def)

lemma sample_current_ok: "catalog_ok sample_current"
  by (simp add: catalog_ok_def sample_current_def sample_topic_def zero_record_def)

lemma sample_admitted:
  "admit_change sample_current True sample_change = Inr (sample_assignment\<lparr>rec_Version := 1\<rparr>)"
  by (simp add: admit_change_def sample_change_def sample_assignment_def sample_current_def
      zero_record_def kind_defs wrap64_def)

definition sample_catalog_2 :: catalog where
  "sample_catalog_2 = sample_current @ [(''id-1'', sample_assignment\<lparr>rec_Version := 1\<rparr>)]"

lemma sample_catalog_2_lookup:
  "map_of sample_catalog_2 ''id-2'' = Some ((sample_topic ''id-2'' ''work'' [])
     \<lparr>rec_Version := 1, rec_Fingerprint := sample_print\<rparr>)"
  "map_of sample_catalog_2 ''id-1'' = Some (sample_assignment\<lparr>rec_Version := 1\<rparr>)"
  by (simp_all add: sample_catalog_2_def sample_current_def)

lemma sample_dependencies_2:
  assumes "c = sample_catalog_2 \<or> c = AList.update ''id-1'' sample_prepared sample_catalog_2"
    and "r = sample_assignment\<lparr>rec_Version := 1\<rparr> \<or> r = sample_prepared"
  shows "dependenciesFor r c = [sample_dependency]"
  using assms
  by (auto simp: dependenciesFor_def dependency_ids_def ReferenceIDs_def sample_assignment_def
      sample_prepared_def sample_catalog_2_def sample_current_def sample_topic_def zero_record_def
      sorted_keys_def parent_ref_def catalog_get_def ApplicableOverrides_def kind_defs
      sample_dependency_def)

lemma sample_record_prepared:
  "prepare_record sample_externals sample_current sample_snapshots True sample_catalog_2
     (sample_assignment\<lparr>rec_Version := 1\<rparr>) = Inr sample_prepared"
proof -
  let ?r = "sample_assignment\<lparr>rec_Version := 1\<rparr>"
  have live: "\<not> rec_Retired ?r" "rec_Dependencies ?r = None" "rec_Group ?r = None" "rec_Override ?r = None"
    "rec_Assignment ?r = Some \<lparr>asg_Source = sample_handle ''id-3'', asg_DefinitionID = ''id-2''\<rparr>"
    "rec_Sources ?r = Some [\<lparr>sd_Source = sample_handle ''id-3'', sd_Fingerprint = sample_print\<rparr>]"
    by (simp_all add: sample_assignment_def zero_record_def)
  have base: "\<not> rec_Retired sample_assignment"
    "rec_Sources sample_assignment = Some [\<lparr>sd_Source = sample_handle ''id-3'', sd_Fingerprint = sample_print\<rparr>]"
    by (simp_all add: sample_assignment_def zero_record_def)
  have topic: "\<not> rec_Retired (sample_topic i k p)" "rec_Kind (sample_topic i k p) = Topic"
    "rec_Definition (sample_topic i k p) \<noteq> None" for i k p
    by (simp_all add: sample_topic_def zero_record_def)
  have "validateRecordReferences ?r sample_catalog_2 = None"
    by (simp add: validateRecordReferences_def live ReferenceIDs_def sorted_keys_def sample_catalog_2_lookup
        catalog_get_def compatibleAssignment_def topic sample_evidence_fields)
      (simp add: sample_assignment_def zero_record_def topic sample_catalog_2_lookup)
  moreover have "CheckSourceDependencies sample_externals ?r sample_snapshots = None"
    by (simp add: CheckSourceDependencies_None live sample_snapshots_def sample_evidence_fields sample_hash)
  then have "validateRecordSources sample_externals ?r sample_snapshots sample_catalog_2 = None"
    by (simp add: validateRecordSources_def live sources_declared_def RequiredSources_def
        declared_source_def compatibleClass_def catalog_get_def sample_catalog_2_lookup topic kind_defs
        validate_grouping_sources_def)
  moreover have "CheckOverrides ?r sample_current = None"
    by (simp add: CheckOverrides_def ApplicableOverrides_def sample_current_def sample_topic_def zero_record_def)
  moreover have "RecordFingerprint sample_externals (?r\<lparr>rec_Dependencies := Some [sample_dependency]\<rparr>)
      sample_snapshots sample_catalog_2 = Inr sample_print"
    by (simp add: RecordFingerprint_def base fingerprintSnapshot_def sample_snapshots_def
        sample_evidence_fields sample_hash sample_dependency_def sample_catalog_2_lookup topic)
  ultimately show ?thesis
    using sample_dependencies_2 [of sample_catalog_2 ?r]
    by (simp add: prepare_record_def live base sample_prepared_def)
qed

lemma sample_definitions_valid: "ValidateDefinitions sample_catalog_2 = None"
proof -
  have n: "NormalizeName ''work'' = ''work''"
    by (simp add: NormalizeName_def go_string_eval byte_of_def)
  show ?thesis
    by (simp add: ValidateDefinitions_def sample_catalog_2_def sample_current_def sample_assignment_def
        sample_topic_def zero_record_def n DefinitionNames_def name_key_def sorted_keys_def
        MaxParentDepth_def kind_defs parent_loop.simps)
qed

lemma sample_dependencies_fresh:
  "CheckDependencies sample_externals [sample_prepared] sample_snapshots
     (AList.update ''id-1'' sample_prepared sample_catalog_2) = None"
proof -
  let ?c = "AList.update ''id-1'' sample_prepared sample_catalog_2"
  let ?t = "(sample_topic ''id-2'' ''work'' [])\<lparr>rec_Version := 1, rec_Fingerprint := sample_print\<rparr>"
  have t: "\<not> rec_Retired (sample_topic i k p)" "rec_ID (sample_topic i k p) = i"
    "rec_Sources (sample_topic i k p) = None" "rec_Dependencies (sample_topic i k p) = None" for i k p
    by (simp_all add: sample_topic_def zero_record_def)
  have r: "rec_ID sample_prepared = ''id-1''" "\<not> rec_Retired sample_prepared"
    by (simp_all add: sample_prepared_def sample_assignment_def zero_record_def)
  have m: "map_of ?c ''id-2'' = Some ?t" by (simp add: sample_catalog_2_lookup)
  have "dependency_ids ?t ?c = []"
    by (simp add: dependency_ids_def ReferenceIDs_def sample_topic_def zero_record_def sorted_keys_def)
  then have d: "dependenciesFor ?t ?c = []" by (simp add: dependenciesFor_def sorted_keys_def)
  have "DependencyRecords [sample_prepared] ?c = Inr [?t, sample_prepared]"
    using sample_dependencies_2 [of ?c sample_prepared] m
    by (simp add: DependencyRecords_def visit.simps r t d sample_dependency_def mark_def MaxParentDepth_def
        MaxDependencyRecords_def eval_nat_numeral)
  moreover have "RecordFingerprint sample_externals ?t sample_snapshots ?c = Inr sample_print"
    by (simp add: RecordFingerprint_def t sample_hash)
  ultimately show ?thesis by (simp add: CheckDependencies_def r t)
qed

lemma sample_publication_prepared:
  "PreparePublication sample_externals sample_current sample_snapshots sample_assign True
     = Inr [sample_prepared]"
proof -
  have chg: "pub_Changes sample_assign = [sample_change]" "rec_ID (chg_Record sample_change) = ''id-1''"
    "chg_ExpectedVersion sample_change = 0" "rec_ID sample_assignment = ''id-1''"
    "rec_ID sample_prepared = ''id-1''"
    by (simp_all add: sample_assign_def sample_change_def sample_assignment_def sample_prepared_def
        zero_record_def)
  have "AList.update ''id-1'' (sample_assignment\<lparr>rec_Version := 1\<rparr>) sample_current = sample_catalog_2"
    by (simp add: sample_catalog_2_def sample_current_def)
  then have "admit_changes sample_current True sample_current [sample_change] = Inr sample_catalog_2"
    by (simp add: sample_admitted chg)
  moreover have "prepare_records sample_externals sample_current sample_snapshots True sample_catalog_2
      [sample_change] = Inr (AList.update ''id-1'' sample_prepared sample_catalog_2, [sample_prepared])"
    by (simp add: chg catalog_get_def sample_catalog_2_lookup sample_record_prepared)
  ultimately show ?thesis
    using sample_assign_accepted sample_definitions_valid sample_dependencies_fresh
    by (simp add: PreparePublication_def chg)
qed

theorem publication_versions_witness:
  "rec_Version sample_prepared = 1 \<and> same_content sample_prepared sample_assignment"
proof -
  have "\<forall>chg\<in>set (pub_Changes sample_assign). chg_ExpectedVersion chg \<le> max_int64"
    by (simp add: sample_assign_def sample_change_def)
  from publication_versions [OF sample_publication_prepared sample_current_ok this]
  show ?thesis
    by (simp add: sample_assign_def sample_change_def sample_prepared_def sample_current_def
        expected_of_def sample_assignment_def zero_record_def)
qed

theorem publication_not_replayable_witness:
  "PreparePublication sample_externals (apply_records sample_current [sample_prepared])
     sample_snapshots sample_assign False = Inl ErrConflict"
proof -
  have "\<forall>chg\<in>set (pub_Changes sample_assign). chg_ExpectedVersion chg \<le> max_int64"
    by (simp add: sample_assign_def sample_change_def)
  from publication_not_replayable [OF sample_publication_prepared sample_current_ok this]
  show ?thesis .
qed

theorem publication_keeps_hierarchy_witness:
  "ValidateDefinitions (apply_records sample_current [sample_prepared]) = None"
  using publication_keeps_hierarchy [OF sample_publication_prepared sample_current_ok] by simp


theorem published_sources_fresh_witness:
  "\<exists>snap. sample_snapshots (SourceKey (sample_handle ''id-3'')) = Some snap \<and> snap_Eligible snap"
proof -
  have "\<not> rec_Retired sample_prepared" "sample_handle ''id-3'' \<in> set (RequiredSources sample_prepared)"
    by (simp_all add: sample_prepared_def sample_assignment_def zero_record_def RequiredSources_def)
  from published_sources_fresh [OF sample_publication_prepared sample_current_ok _ this] show ?thesis by auto
qed

section \<open>No run-time panics\<close>

lemma check_distinct_Some:
  "check_distinct f dup key seen xs = Some e \<Longrightarrow> e = dup \<or> (\<exists>x\<in>set xs. f x = Some e)"
  by (induction xs arbitrary: seen) (auto split: option.splits if_splits)

lemma ValidateSourceHandle_error: "ValidateSourceHandle X h = Some e \<Longrightarrow> e = ErrInvalid"
  by (auto simp: ValidateSourceHandle_def split: if_splits)

lemma validateMembers_error: "validateMembers X ms n = Some e \<Longrightarrow> e = ErrInvalid"
  by (auto simp: validateMembers_def split: if_splits dest!: check_distinct_Some ValidateSourceHandle_error)

lemma validate_body_error: "validate_body X r = Some e \<Longrightarrow> e = ErrInvalid"
  by (auto simp: validate_body_def validateDefinition_def validateOverride_def
      split: if_splits option.splits
      dest!: check_distinct_Some ValidateSourceHandle_error validateMembers_error)

lemma or_error_Some: "or_error a b = Some e \<Longrightarrow> a = Some e \<or> b = Some e"
  by (auto simp: or_error_def split: option.splits)

lemma ValidateRecord_error: "ValidateRecord X r = Some e \<Longrightarrow> e = ErrInvalid"
  by (auto simp: ValidateRecord_def split: if_splits
      dest!: or_error_Some check_distinct_Some ValidateSourceHandle_error validate_body_error)

lemma validate_changes_error: "validate_changes X n seen cs = Some e \<Longrightarrow> e = ErrInvalid"
  by (induction X n seen cs rule: validate_changes.induct)
    (auto simp: Let_def split: if_splits option.splits dest: ValidateRecord_error)

lemma ValidatePublication_error: "ValidatePublication X p = Some e \<Longrightarrow> e = ErrInvalid"
  by (auto simp: ValidatePublication_def ValidateOperation_def split: if_splits option.splits
      dest!: validate_changes_error)

lemma parent_loop_error: "parent_loop c r b left seen pid = Some e \<Longrightarrow> e = ErrInvalid"
proof (induction c r b left seen pid rule: parent_loop.induct)
  case (1 c r b left seen pid)
  from 1(2) show ?case
    by (auto simp: parent_loop.simps [of c r b left seen pid] split: if_splits option.splits nat.splits
        dest: 1(1))
qed

lemma ValidateDefinitions_error: "ValidateDefinitions c = Some e \<Longrightarrow> e = ErrInvalid"
proof -
  have "definitions_loop c names rs = Some e \<Longrightarrow> e = ErrInvalid" for names rs
    by (induction c names rs rule: definitions_loop.induct)
      (auto split: if_splits option.splits dest: parent_loop_error)
  then show "ValidateDefinitions c = Some e \<Longrightarrow> e = ErrInvalid" by (simp add: ValidateDefinitions_def)
qed

lemma admit_changes_error: "admit_changes current automatic c chgs = Inl e \<Longrightarrow> e \<noteq> Panic"
  by (induction chgs arbitrary: c)
    (auto simp: admit_change_def Let_def split: if_splits option.splits sum.splits)

lemma CheckOverrides_error: "CheckOverrides r c = Some e \<Longrightarrow> e = ErrOverride"
  by (auto simp: CheckOverrides_def check_override_def Let_def split: option.splits if_splits
      dest!: first_error_Some)

lemma fingerprint_error:
  "fingerprintSnapshot X snaps h = Inl e \<Longrightarrow> e = ErrSourceStale"
  "source_texts X snaps deps = Inl e \<Longrightarrow> e = ErrSourceStale"
  "RecordFingerprint X r snaps c = Inl e \<Longrightarrow> e = ErrSourceStale"
proof -
  show 1: "fingerprintSnapshot X snaps h = Inl e \<Longrightarrow> e = ErrSourceStale" for h e
    by (auto simp: fingerprintSnapshot_def split: option.splits if_splits)
  show 2: "source_texts X snaps deps = Inl e \<Longrightarrow> e = ErrSourceStale" for deps e
    by (induction deps) (auto split: sum.splits dest: 1)
  show "RecordFingerprint X r snaps c = Inl e \<Longrightarrow> e = ErrSourceStale"
    by (auto simp: RecordFingerprint_def split: sum.splits if_splits dest: 2)
qed

lemma CheckSourceDependencies_error: "CheckSourceDependencies X r snaps = Some e \<Longrightarrow> e = ErrSourceStale"
  by (auto simp: CheckSourceDependencies_def split: sum.splits if_splits dest!: first_error_Some
      dest: fingerprint_error(1))

lemma visit_error:
  shows "visit c left st r = Inl e \<Longrightarrow> e \<noteq> Panic"
    and "visit_refs c n st refs = Inl e \<Longrightarrow> e \<noteq> Panic"
proof (induction c left st r and c n st refs arbitrary: e and e rule: visit_visit_refs.induct)
  case (1 c left st r)
  from 1(2) show ?case
    by (auto simp: visit.simps [of c left st r] split: if_splits nat.splits sum.splits dest: 1(1) [simplified])
next
  case (2 c n st)
  then show ?case by simp
next
  case (3 c n st ref refs)
  then show ?case by (auto split: if_splits option.splits sum.splits)
qed

lemma CheckDependencies_error: "CheckDependencies X rs snaps c = Some e \<Longrightarrow> e \<noteq> Panic"
proof -
  have "visit_roots c st rs = Inl e \<Longrightarrow> e \<noteq> Panic" for st rs e
    by (induction rs arbitrary: st) (auto split: sum.splits dest: visit_error)
  then have "DependencyRecords rs c = Inl e \<Longrightarrow> e \<noteq> Panic" for e
    by (auto simp: DependencyRecords_def split: sum.splits)
  then show "CheckDependencies X rs snaps c = Some e \<Longrightarrow> e \<noteq> Panic"
    by (auto simp: CheckDependencies_def split: sum.splits if_splits dest!: first_error_Some
        dest: fingerprint_error(3))
qed

text \<open>The two places that index or dereference rely on checks made before them.\<close>

definition shape_ok :: "externals \<Rightarrow> onto_record \<Rightarrow> bool" where
  "shape_ok X r \<longleftrightarrow> record_bodies r = 1 \<and> body_ok X r"

lemma shape_ok_override:
  "shape_ok X r \<Longrightarrow> rec_Override r = Some ov \<Longrightarrow>
    ovr_Action ov \<in> {SetClassification, GroupTogether, KeepSeparate} \<Longrightarrow> elems (ovr_Members ov) \<noteq> []"
proof -
  assume "shape_ok X r" "rec_Override r = Some ov"
  then have "override_ok X ov"
    by (auto simp: shape_ok_def body_ok_def record_bodies_def split: if_splits)
  moreover assume "ovr_Action ov \<in> {SetClassification, GroupTogether, KeepSeparate}"
  ultimately show ?thesis
    by (auto simp: override_ok_def action_defs members_ok_def split: if_splits)
qed

lemma references_no_panic:
  "shape_ok X r \<Longrightarrow> validateRecordReferences r c \<noteq> Some Panic"
  using shape_ok_override [of X r]
  by (auto simp: validateRecordReferences_def compatibleAssignment_def split: option.splits list.splits if_splits)

lemma compatibleClass_no_panic:
  "rec_Definition d \<noteq> None \<Longrightarrow> compatibleClass s d snaps \<noteq> Some Panic"
  by (auto simp: compatibleClass_def split: option.splits if_splits)

lemma compatibleAssignment_None: "compatibleAssignment s d = None \<Longrightarrow> rec_Definition d \<noteq> None"
  by (auto simp: compatibleAssignment_def split: if_splits)

lemma GroupCompatible_error: "GroupCompatible k ms snaps = Some e \<Longrightarrow> e = ErrInvalid"
proof -
  have "group_meaning k snaps m ms = Some e \<Longrightarrow> e = ErrInvalid" for k m
    by (induction k snaps m ms rule: group_meaning.induct) (auto simp: Let_def split: if_splits)
  then show "GroupCompatible k ms snaps = Some e \<Longrightarrow> e = ErrInvalid" by (simp add: GroupCompatible_def)
qed

lemma AssessedGroupCompatible_error: "AssessedGroupCompatible X r snaps = Some e \<Longrightarrow> e \<noteq> Panic"
proof -
  have "assessed_members X k snaps before ms = Some e \<Longrightarrow> e \<noteq> Panic" for k before ms
    by (induction X k snaps before ms rule: assessed_members.induct) (auto split: option.splits if_splits)
  then show "AssessedGroupCompatible X r snaps = Some e \<Longrightarrow> e \<noteq> Panic"
    by (auto simp: AssessedGroupCompatible_def split: option.splits if_splits)
qed

lemma grouping_no_panic:
  assumes "shape_ok X r"
  shows "validate_grouping_sources X r snaps \<noteq> Some Panic"
proof
  assume "validate_grouping_sources X r snaps = Some Panic"
  then show False
    using shape_ok_override [OF assms]
    by (auto simp: validate_grouping_sources_def split: option.splits if_splits list.splits
        dest: GroupCompatible_error AssessedGroupCompatible_error)
qed

lemma sources_no_panic:
  assumes ok: "shape_ok X r" and ref: "validateRecordReferences r c = None"
  shows "validateRecordSources X r snaps c \<noteq> Some Panic"
proof
  assume a: "validateRecordSources X r snaps c = Some Panic"
  then have live: "\<not> rec_Retired r" by (auto simp: validateRecordSources_def)
  have asg: "compatibleClass (asg_Source a) (catalog_get c (asg_DefinitionID a)) snaps \<noteq> Some Panic"
    if "rec_Assignment r = Some a" for a
    using ref live that
    by (intro compatibleClass_no_panic compatibleAssignment_None [of "asg_Source a"])
      (auto simp: validateRecordReferences_def split: if_splits)
  have cls: "compatibleClass m (catalog_get c (ovr_DefinitionID ov)) snaps \<noteq> Some Panic"
    if "rec_Override r = Some ov" "ovr_Action ov = SetClassification" "elems (ovr_Members ov) = m # ms" for ov m ms
  proof -
    have "rec_Assignment r = None"
      using ok that(1) by (auto simp: shape_ok_def record_bodies_def split: if_splits)
    then show ?thesis
      using ref live that
      by (intro compatibleClass_no_panic compatibleAssignment_None [of m])
        (auto simp: validateRecordReferences_def action_defs split: if_splits)
  qed
  show False
    using a shape_ok_override [OF ok] asg cls grouping_no_panic [OF ok]
    by (auto simp: validateRecordSources_def split: if_splits option.splits list.splits
        dest!: or_error_Some dest: CheckSourceDependencies_error)
qed

lemma prepare_record_no_panic:
  assumes "shape_ok X r" and "prepare_record X current snaps automatic c r = Inl e"
  shows "e \<noteq> Panic"
proof
  assume "e = Panic"
  with assms(2) have p: "prepare_record X current snaps automatic c r = Inl Panic" by simp
  show False
  proof (cases "validateRecordReferences r c")
    case None
    with p sources_no_panic [OF assms(1)] show False
      by (auto simp: prepare_record_def Let_def split: option.splits sum.splits if_splits
          dest!: or_error_Some dest: CheckOverrides_error fingerprint_error(3))
  next
    case (Some x)
    with p references_no_panic [OF assms(1)] show False by (auto simp: prepare_record_def)
  qed
qed

lemma prepare_records_no_panic:
  assumes "\<forall>chg\<in>set chgs. shape_ok X (catalog_get c (rec_ID (chg_Record chg)))"
    and "distinct (map (rec_ID \<circ> chg_Record) chgs)"
    and "\<forall>chg\<in>set chgs. rec_ID (catalog_get c (rec_ID (chg_Record chg))) = rec_ID (chg_Record chg)"
    and "prepare_records X current snaps automatic c chgs = Inl e"
  shows "e \<noteq> Panic"
  using assms
proof (induction chgs arbitrary: c)
  case Nil
  then show ?case by simp
next
  case (Cons chg chgs)
  let ?i = "rec_ID (chg_Record chg)"
  show ?case
  proof (cases "prepare_record X current snaps automatic c (catalog_get c ?i)")
    case (Inl x)
    then have "e = x" using Cons.prems(4) by simp
    then show ?thesis using Cons.prems(1) prepare_record_no_panic [OF _ Inl] by simp
  next
    case (Inr r)
    then have i: "rec_ID r = ?i" using Cons.prems(3) by (elim prepare_record_Inr) simp
    have "catalog_get (AList.update (rec_ID r) r c) (rec_ID (chg_Record b)) = catalog_get c (rec_ID (chg_Record b))"
      if "b \<in> set chgs" for b
    proof -
      have "rec_ID (chg_Record b) \<in> (rec_ID \<circ> chg_Record) ` set chgs" using that by auto
      then show ?thesis using Cons.prems(2) i by (auto simp: catalog_get_def)
    qed
    then show ?thesis
      using Cons.IH [of "AList.update (rec_ID r) r c"] Cons.prems Inr by (auto split: sum.splits)
  qed
qed

text \<open>C1 (publication_never_panics): on every catalog, every snapshot map and every publication,
  preparing it ends with records or with one of the package's errors: no nil definition is
  dereferenced and no empty member list is indexed.\<close>

theorem publication_never_panics:
  assumes "catalog_ok current"
  shows "PreparePublication X current snaps p automatic \<noteq> Inl Panic"
proof
  assume a: "PreparePublication X current snaps p automatic = Inl Panic"
  have v: "ValidatePublication X q \<noteq> Some Panic" for q using ValidatePublication_error by blast
  obtain c where c: "ValidatePublication X p = None"
    "admit_changes current automatic current (pub_Changes p) = Inr c"
    "prepare_records X current snaps automatic c (pub_Changes p) = Inl Panic"
    using a v admit_changes_error ValidateDefinitions_error CheckDependencies_error
    unfolding PreparePublication_def
    by (auto split: option.splits sum.splits prod.splits) blast+
  have d: "distinct (map (rec_ID \<circ> chg_Record) (pub_Changes p))"
    and ok: "\<forall>chg\<in>set (pub_Changes p). record_ok X (chg_Record chg)"
    using c(1) by (simp_all add: ValidatePublication_None publication_ok_def)
  note m = admit_changes_Inr [OF c(2) d assms]
  have "shape_ok X (catalog_get c (rec_ID (chg_Record chg)))
      \<and> rec_ID (catalog_get c (rec_ID (chg_Record chg))) = rec_ID (chg_Record chg)"
    if mem: "chg \<in> set (pub_Changes p)" for chg
  proof -
    obtain r where r: "admit_change current automatic chg = Inr r" "map_of c (rec_ID (chg_Record chg)) = Some r"
      using m mem by blast
    have "shape_ok X (chg_Record chg)" using ok mem by (simp add: record_ok_def shape_ok_def)
    then have "shape_ok X r" "rec_ID r = rec_ID (chg_Record chg)"
      unfolding admit_change_Inr(1) [OF r(1)] by (simp_all add: shape_ok_def record_bodies_def body_ok_def)
    with r(2) show ?thesis by (simp add: catalog_get_def)
  qed
  then show False using prepare_records_no_panic [OF _ d _ c(3)] by blast
qed

theorem publication_never_panics_witness:
  "PreparePublication sample_externals sample_current Map.empty sample_assign True \<noteq> Inl Panic"
  by (rule publication_never_panics [OF sample_current_ok])


end
