(* ===== verification/Onto_Rules.thy ===== *)
theory Onto_Rules
  imports Onto_Publication
begin

text \<open>
  Do the live manager rules of a catalog contradict each other
  (\<open>ValidateManagementOverrides\<close> in \<open>ontology/contract/management_policy.go\<close>)? A definition may be
  pinned once, a source classified once, and no two sources that must stay separate may be joined
  by the together-rules. The program joins them with a union-find forest; the lemmas show that the
  forest computes the equivalence closure of the together-rules.
\<close>

section \<open>Consistency of the manager rules\<close>

text \<open>
  \<open>parent\<close> is the union-find forest; a missing entry reads as the empty string. \<open>root\<close> follows the
  parents and compresses the path. A forest built by this code has no cycle but for roots that
  point to themselves, so as many steps as there are entries, and one more, suffice: \<open>fuel\<close>.
\<close>

type_synonym forest = "(string \<times> string) list"

fun root_of :: "nat \<Rightarrow> forest \<Rightarrow> string \<Rightarrow> forest \<times> string" where
  "root_of 0 parent key = (parent, key)"
| "root_of (Suc fuel) parent key =
     (let parent = (case map_of parent key of
                      None \<Rightarrow> AList.update key key parent
                    | Some v \<Rightarrow> if v = [] then AList.update key key parent else parent);
          up = the (map_of parent key)
      in if up \<noteq> key
         then (case root_of fuel parent up of (parent', r) \<Rightarrow> (AList.update key r parent', r))
         else (parent, key))"

definition root :: "forest \<Rightarrow> string \<Rightarrow> forest \<times> string" where
  "root parent key = root_of (length parent + 2) parent key"

fun union_members :: "string \<Rightarrow> forest \<Rightarrow> source_handle list \<Rightarrow> forest" where
  "union_members fst_root parent [] = parent"
| "union_members fst_root parent (m # ms) =
     (case root parent (SourceKey m) of
        (parent', r) \<Rightarrow> union_members fst_root (AList.update r fst_root parent') ms)"

record rules_state =
  rls_Classified :: "string list"
  rls_Pins :: "string list"
  rls_Parent :: forest
  rls_Separations :: "source_handle list list"

definition rules_step :: "rules_state \<Rightarrow> override_body \<Rightarrow> onto_error + rules_state" where
  "rules_step st ov =
     (if ovr_Action ov = PinDefinition
      then (if ovr_TargetID ov \<in> set (rls_Pins st) then Inl ErrInvalid
            else Inr (st\<lparr>rls_Pins := ovr_TargetID ov # rls_Pins st\<rparr>))
      else if ovr_Action ov = SetClassification
      then (case elems (ovr_Members ov) of
              [] \<Rightarrow> Inl Panic
            | m # _ \<Rightarrow> if SourceKey m \<in> set (rls_Classified st) then Inl ErrInvalid
                       else Inr (st\<lparr>rls_Classified := SourceKey m # rls_Classified st\<rparr>))
      else if ovr_Action ov = GroupTogether
      then (case elems (ovr_Members ov) of
              [] \<Rightarrow> Inl Panic
            | m # ms \<Rightarrow> (case root (rls_Parent st) (SourceKey m) of
                (parent, r) \<Rightarrow> Inr (st\<lparr>rls_Parent := union_members r parent ms\<rparr>)))
      else if ovr_Action ov = KeepSeparate
      then Inr (st\<lparr>rls_Separations := rls_Separations st @ [elems (ovr_Members ov)]\<rparr>)
      else Inr st)"

fun rules_loop :: "rules_state \<Rightarrow> onto_record list \<Rightarrow> onto_error + rules_state" where
  "rules_loop st [] = Inr st"
| "rules_loop st (r # rs) =
     (case rec_Override r of
        None \<Rightarrow> rules_loop st rs
      | Some ov \<Rightarrow>
          if rec_Retired r then rules_loop st rs
          else case rules_step st ov of Inl e \<Rightarrow> Inl e | Inr st' \<Rightarrow> rules_loop st' rs)"

fun check_separation :: "forest \<Rightarrow> string list \<Rightarrow> source_handle list \<Rightarrow> onto_error + forest" where
  "check_separation parent seen [] = Inr parent"
| "check_separation parent seen (m # ms) =
     (case root parent (SourceKey m) of
        (parent', key) \<Rightarrow>
          if key \<in> set seen then Inl ErrInvalid else check_separation parent' (key # seen) ms)"

fun check_separations :: "forest \<Rightarrow> source_handle list list \<Rightarrow> onto_error option" where
  "check_separations parent [] = None"
| "check_separations parent (ms # rest) =
     (case check_separation parent [] ms of
        Inl e \<Rightarrow> Some e
      | Inr parent' \<Rightarrow> check_separations parent' rest)"

definition ValidateManagementOverrides :: "catalog \<Rightarrow> publication \<Rightarrow> onto_error option" where
  "ValidateManagementOverrides current input =
     (let c = foldl (\<lambda>c chg. AList.update (rec_ID (chg_Record chg)) (chg_Record chg) c) current
                (pub_Changes input)
      in case rules_loop \<lparr>rls_Classified = [], rls_Pins = [], rls_Parent = [], rls_Separations = []\<rparr>
                (map snd c) of
           Inl e \<Rightarrow> Some e
         | Inr st \<Rightarrow> check_separations (rls_Parent st) (rls_Separations st))"

section \<open>The forest and its representatives\<close>

text \<open>
  \<open>R\<close> gives every key its root; \<open>rank\<close> decreases along the parents, so there are no cycles.
\<close>

definition ranked :: "forest \<Rightarrow> (string \<Rightarrow> string) \<Rightarrow> (string \<Rightarrow> nat) \<Rightarrow> bool" where
  "ranked p R rank \<longleftrightarrow> (\<forall>k.
     (case map_of p k of
        None \<Rightarrow> R k = k
      | Some v \<Rightarrow> v \<noteq> [] \<and> map_of p v \<noteq> None
          \<and> (if v = k then R k = k else R k = R v \<and> rank v < rank k)))"

lemma rankedD:
  assumes "ranked p R rank"
  shows "map_of p k = None \<Longrightarrow> R k = k"
    and "map_of p k = Some v \<Longrightarrow> v \<noteq> [] \<and> map_of p v \<noteq> None"
    and "map_of p k = Some k \<Longrightarrow> R k = k"
    and "map_of p k = Some v \<Longrightarrow> v \<noteq> k \<Longrightarrow> R k = R v \<and> rank v < rank k"
  using assms [unfolded ranked_def, rule_format, of k] by (auto split: if_splits)

lemma ranked_root:
  assumes "ranked p R rank"
  shows "R (R k) = R k \<and> rank (R k) \<le> rank k \<and> (map_of p k \<noteq> None \<longrightarrow> map_of p (R k) = Some (R k))"
proof (induction "rank k" arbitrary: k rule: less_induct)
  case less
  show ?case
  proof (cases "map_of p k")
    case None
    then show ?thesis using rankedD(1) [OF assms] by simp
  next
    case (Some v)
    show ?thesis
    proof (cases "v = k")
      case True
      then show ?thesis using Some rankedD(3) [OF assms] by simp
    next
      case False
      then have "R k = R v" "rank v < rank k" using rankedD(4) [OF assms Some] by auto
      moreover have "map_of p v \<noteq> None" using rankedD(2) [OF assms Some] by blast
      ultimately show ?thesis using less [of v] by (simp add: less_imp_le le_less_trans)
    qed
  qed
qed

text \<open>The number of smaller entries is a rank as well, and it is bounded by the size of the forest.\<close>

lemma ranked_bounded:
  assumes "ranked p R rank"
  shows "\<exists>rank'. ranked p R rank' \<and> (\<forall>k. rank' k \<le> length p)"
proof -
  let ?r = "\<lambda>k. card {x \<in> fst ` set p. rank x < rank k}"
  have fin: "finite {x \<in> fst ` set p. rank x < rank k}" for k by simp
  have less: "?r v < ?r k" if "map_of p k = Some v" "v \<noteq> k" for k v
  proof (rule psubset_card_mono [OF fin])
    have "rank v < rank k" using rankedD(4) [OF assms that] by blast
    moreover have "v \<in> fst ` set p" using rankedD(2) [OF assms that(1)] by (simp add: map_of_eq_None_iff)
    ultimately show "{x \<in> fst ` set p. rank x < rank v} \<subset> {x \<in> fst ` set p. rank x < rank k}" by auto
  qed
  have "ranked p R ?r"
    unfolding ranked_def
  proof
    fix k
    show "case map_of p k of None \<Rightarrow> R k = k
      | Some v \<Rightarrow> v \<noteq> [] \<and> map_of p v \<noteq> None \<and> (if v = k then R k = k else R k = R v \<and> ?r v < ?r k)"
      using rankedD [OF assms, of k] less by (cases "map_of p k") auto
  qed
  moreover have "?r k \<le> length p" for k
  proof -
    have "?r k \<le> card (fst ` set p)" by (rule card_mono) auto
    also have "\<dots> \<le> length p" by (metis card_length length_map list.set_map)
    finally show ?thesis .
  qed
  ultimately show ?thesis by blast
qed

lemma ranked_self:
  assumes "ranked p R rank" and "map_of p k = None" and "k \<noteq> []"
  shows "ranked (AList.update k k p) R rank"
  unfolding ranked_def
proof
  fix j
  show "case map_of (AList.update k k p) j of None \<Rightarrow> R j = j
    | Some v \<Rightarrow> v \<noteq> [] \<and> map_of (AList.update k k p) v \<noteq> None
        \<and> (if v = j then R j = j else R j = R v \<and> rank v < rank j)"
    using rankedD [OF assms(1), of j] rankedD(1) [OF assms(1,2)] assms(3)
    by (cases "j = k"; cases "map_of p j") auto
qed

lemma ranked_compress:
  assumes "ranked p R rank" and "map_of p k = Some v" and "v \<noteq> k"
  shows "ranked (AList.update k (R k) p) R rank"
proof -
  have v: "R k = R v" "rank v < rank k" "map_of p v \<noteq> None"
    using rankedD(2,4) [OF assms(1,2)] assms(3) by auto
  have r: "R (R v) = R v" "rank (R v) \<le> rank v" "map_of p (R v) = Some (R v)"
    using ranked_root [OF assms(1), of v] v(3) by auto
  then have "R v \<noteq> []" using rankedD(2) [OF assms(1)] by blast
  have "R v \<noteq> k" using r(2) v(2) by auto
  note facts = this \<open>R v \<noteq> []\<close>
  show ?thesis
    unfolding ranked_def
  proof
    fix j
    show "case map_of (AList.update k (R k) p) j of None \<Rightarrow> R j = j
      | Some w \<Rightarrow> w \<noteq> [] \<and> map_of (AList.update k (R k) p) w \<noteq> None
          \<and> (if w = j then R j = j else R j = R w \<and> rank w < rank j)"
      using rankedD [OF assms(1), of j] v r facts
      by (cases "j = k"; cases "map_of p j") auto
  qed
qed

lemma root_of_correct:
  assumes "rank k < n" and "ranked p R rank" and "k \<noteq> []"
  shows "\<exists>p'. root_of n p k = (p', R k) \<and> ranked p' R rank \<and> map_of p' (R k) = Some (R k)
    \<and> dom (map_of p) \<subseteq> dom (map_of p')"
  using assms
proof (induction n arbitrary: p k)
  case 0
  then show ?case by simp
next
  case (Suc n)
  show ?case
  proof (cases "map_of p k")
    case None
    then have "R k = k" using rankedD(1) Suc.prems(2) by metis
    with None Suc.prems ranked_self show ?thesis by auto
  next
    case (Some v)
    then have v: "v \<noteq> []" using rankedD(2) Suc.prems(2) by blast
    show ?thesis
    proof (cases "v = k")
      case True
      then have "R k = k" using rankedD(3) Suc.prems(2) Some by metis
      with True Some v Suc.prems show ?thesis by auto
    next
      case False
      then have r: "R k = R v" "rank v < rank k" using rankedD(4) [OF Suc.prems(2) Some] by auto
      obtain p1 where p1: "root_of n p v = (p1, R v)" "ranked p1 R rank" "map_of p1 (R v) = Some (R v)"
        "dom (map_of p) \<subseteq> dom (map_of p1)"
        using Suc.IH [OF _ Suc.prems(2) v] r Suc.prems(1) by auto
      have "root_of (Suc n) p k = (AList.update k (R k) p1, R k)"
        using Some v False p1(1) r(1) by simp
      moreover have "ranked (AList.update k (R k) p1) R rank"
      proof -
        obtain w where w: "map_of p1 k = Some w" using p1(4) Some by blast
        have "R k \<noteq> k" using ranked_root [OF p1(2), of v] r by auto
        then have "w \<noteq> k" using rankedD(3) [OF p1(2)] w by metis
        with w show ?thesis using ranked_compress p1(2) by blast
      qed
      moreover have "map_of (AList.update k (R k) p1) (R k) = Some (R k)" using p1(3) r(1) by simp
      ultimately show ?thesis using p1(4) by auto
    qed
  qed
qed

text \<open>\<open>root\<close> finds the representative and changes no representative.\<close>

definition forest_ok :: "forest \<Rightarrow> (string \<Rightarrow> string) \<Rightarrow> bool" where
  "forest_ok p R \<longleftrightarrow> (\<exists>rank. ranked p R rank)"

lemma root_correct:
  assumes "forest_ok p R" and "k \<noteq> []"
  shows "\<exists>p'. root p k = (p', R k) \<and> forest_ok p' R \<and> map_of p' (R k) = Some (R k)
    \<and> dom (map_of p) \<subseteq> dom (map_of p')"
proof -
  obtain rank where r: "ranked p R rank" "\<forall>k. rank k \<le> length p"
    using assms(1) ranked_bounded unfolding forest_ok_def by blast
  then have "rank k < length p + 2" by (simp add: le_imp_less_Suc less_SucI)
  from root_of_correct [OF this r(1) assms(2)] show ?thesis
    unfolding root_def forest_ok_def by blast
qed

lemma forest_ok_root: "forest_ok p R \<Longrightarrow> R (R k) = R k"
  using ranked_root unfolding forest_ok_def by blast

definition joined :: "(string \<Rightarrow> string) \<Rightarrow> string \<Rightarrow> string \<Rightarrow> string \<Rightarrow> string" where
  "joined R a b k = (if R k = b then a else R k)"

lemma forest_ok_join:
  assumes "forest_ok p R" and a: "map_of p a = Some a" and b: "map_of p b = Some b"
  shows "forest_ok (AList.update b a p) (joined R a b)"
proof -
  obtain rank where r: "ranked p R rank" using assms(1) forest_ok_def by blast
  have ab: "R a = a" "R b = b" "a \<noteq> []" using rankedD(2,3) [OF r] a b by auto
  let ?rank = "\<lambda>k. if R k = b \<and> a \<noteq> b then rank k + rank a + 1 else rank k"
  have "ranked (AList.update b a p) (joined R a b) ?rank"
    unfolding ranked_def
  proof
    fix k
    show "case map_of (AList.update b a p) k of None \<Rightarrow> joined R a b k = k
      | Some v \<Rightarrow> v \<noteq> [] \<and> map_of (AList.update b a p) v \<noteq> None
         \<and> (if v = k then joined R a b k = k else joined R a b k = joined R a b v \<and> ?rank v < ?rank k)"
      using rankedD [OF r, of k] ab a b
      by (cases "k = b"; cases "map_of p k") (auto simp: joined_def)
  qed
  then show ?thesis unfolding forest_ok_def by blast
qed

section \<open>The together-rules\<close>

text \<open>\<open>E\<close> is the set of pairs joined so far; \<open>same E\<close> its equivalence closure.\<close>

definition same :: "(string \<times> string) set \<Rightarrow> (string \<times> string) set" where
  "same E = (E \<union> E\<inverse>)\<^sup>*"

lemma same_refl [simp]: "(k, k) \<in> same E"
  by (simp add: same_def)

lemma same_sym: "(k, j) \<in> same E \<Longrightarrow> (j, k) \<in> same E"
  unfolding same_def by (metis converse_Un converse_converse rtrancl_converseI sup_commute)

lemma same_trans: "(k, j) \<in> same E \<Longrightarrow> (j, l) \<in> same E \<Longrightarrow> (k, l) \<in> same E"
  unfolding same_def by (rule rtrancl_trans)

lemma same_mono: "E \<subseteq> F \<Longrightarrow> same E \<subseteq> same F"
  unfolding same_def by (rule rtrancl_mono) auto

lemma same_edge: "(a, b) \<in> E \<Longrightarrow> (a, b) \<in> same E"
  unfolding same_def by auto

definition represents :: "(string \<Rightarrow> string) \<Rightarrow> (string \<times> string) set \<Rightarrow> bool" where
  "represents R E \<longleftrightarrow> (\<forall>k j. R k = R j \<longleftrightarrow> (k, j) \<in> same E)"

lemma represents_join:
  assumes "represents R E" and "\<And>k. R (R k) = R k"
  shows "represents (joined R (R a) (R b)) (insert (a, b) E)"
proof -
  let ?J = "joined R (R a) (R b)" and ?E = "insert (a, b) E"
  have old: "R k = R j \<Longrightarrow> (k, j) \<in> same ?E" for k j
    using assms(1) same_mono [of E ?E] by (auto simp: represents_def)
  have ab: "(a, b) \<in> same ?E" by (simp add: same_edge)
  have "?J k = ?J j" if "(k, j) \<in> same ?E" for k j
    using that unfolding same_def
  proof (induction rule: rtrancl_induct)
    case base
    then show ?case by simp
  next
    case (step y z)
    have "(y, z) \<in> same E \<or> (y, z) = (a, b) \<or> (y, z) = (b, a)"
      using step(2) same_edge same_sym by (metis Un_iff converseD insertE prod.inject)
    then have "R y = R z \<or> (y, z) = (a, b) \<or> (y, z) = (b, a)"
      using assms(1) unfolding represents_def by blast
    then have "?J y = ?J z" by (auto simp: joined_def)
    with step show ?case by simp
  qed
  moreover have "(k, j) \<in> same ?E" if "?J k = ?J j" for k j
  proof -
    have rep: "(k, a) \<in> same ?E \<and> R k = R b \<or> ?J k = R k" for k
      using old [of k b] same_trans [OF _ same_sym [OF ab], of k] by (auto simp: joined_def)
    have to_a: "(k, a) \<in> same ?E" if "?J k = R a" for k
      using that rep [of k] old [of k a] by auto
    show ?thesis
    proof (cases "?J k = R a")
      case True
      with to_a [of k] to_a [of j] that show ?thesis by (metis same_sym same_trans)
    next
      case False
      then have "R k = R j" using that by (auto simp: joined_def split: if_splits)
      then show ?thesis by (rule old)
    qed
  qed
  ultimately show ?thesis unfolding represents_def by blast
qed

definition forest_of :: "forest \<Rightarrow> (string \<times> string) set \<Rightarrow> bool" where
  "forest_of p E \<longleftrightarrow> (\<exists>R. forest_ok p R \<and> represents R E)"

lemma SourceKey_nonempty [simp]: "SourceKey m \<noteq> []"
  by (simp add: SourceKey_def)

definition pairs_with :: "string \<Rightarrow> source_handle list \<Rightarrow> (string \<times> string) set" where
  "pairs_with key ms = (\<lambda>m. (key, SourceKey m)) ` set ms"

lemma union_members_correct:
  assumes "forest_ok p R" and "represents R E" and "map_of p r = Some r" and "R a = r"
  shows "\<exists>R'. forest_ok (union_members r p ms) R' \<and> represents R' (E \<union> pairs_with a ms)"
  using assms
proof (induction ms arbitrary: p R E)
  case Nil
  then show ?case by (auto simp: pairs_with_def)
next
  case (Cons m ms)
  let ?b = "SourceKey m"
  obtain p1 where p1: "root p ?b = (p1, R ?b)" "forest_ok p1 R" "map_of p1 (R ?b) = Some (R ?b)"
    "dom (map_of p) \<subseteq> dom (map_of p1)"
    using root_correct [OF Cons.prems(1)] SourceKey_nonempty by blast
  have r1: "map_of p1 r = Some r"
  proof -
    obtain w where "map_of p1 r = Some w" using p1(4) Cons.prems(3) by blast
    moreover obtain rank where "ranked p1 R rank" using p1(2) forest_ok_def by blast
    moreover have "R r = r" using forest_ok_root [OF Cons.prems(1)] Cons.prems(4) by metis
    ultimately show ?thesis using ranked_root by (metis option.distinct(1))
  qed
  let ?p2 = "AList.update (R ?b) r p1" and ?R2 = "joined R r (R ?b)"
  have "forest_ok ?p2 ?R2" using forest_ok_join [OF p1(2) r1 p1(3)] .
  moreover have "represents ?R2 (insert (a, ?b) E)"
    using represents_join [OF Cons.prems(2) forest_ok_root [OF Cons.prems(1)], of a ?b] Cons.prems(4) by simp
  moreover have "map_of ?p2 r = Some r" using r1 by simp
  moreover have "?R2 a = r" using Cons.prems(4) by (simp add: joined_def)
  ultimately obtain R' where "forest_ok (union_members r ?p2 ms) R'"
    "represents R' (insert (a, ?b) E \<union> pairs_with a ms)"
    using Cons.IH by blast
  moreover have "union_members r p (m # ms) = union_members r ?p2 ms" using p1(1) by simp
  moreover have "insert (a, ?b) E \<union> pairs_with a ms = E \<union> pairs_with a (m # ms)"
    by (auto simp: pairs_with_def)
  ultimately show ?case by metis
qed

lemma join_members:
  assumes "forest_of p E"
  shows "case root p (SourceKey m) of (p1, r) \<Rightarrow>
    forest_of (union_members r p1 ms) (E \<union> pairs_with (SourceKey m) ms)"
proof -
  obtain R where R: "forest_ok p R" "represents R E" using assms forest_of_def by blast
  obtain p1 where p1: "root p (SourceKey m) = (p1, R (SourceKey m))" "forest_ok p1 R"
    "map_of p1 (R (SourceKey m)) = Some (R (SourceKey m))"
    using root_correct [OF R(1)] SourceKey_nonempty by blast
  then show ?thesis
    using union_members_correct [OF p1(2) R(2) p1(3) refl] by (auto simp: forest_of_def)
qed

section \<open>The whole check\<close>

text \<open>The live rules of a list of records, by action.\<close>

definition live_rules :: "string \<Rightarrow> onto_record list \<Rightarrow> override_body list" where
  "live_rules action rs = filter (\<lambda>ov. ovr_Action ov = action)
     (List.map_filter (\<lambda>r. if rec_Retired r then None else rec_Override r) rs)"

lemma live_rules_simps [simp]:
  "live_rules action [] = []"
  "live_rules action (r # rs) =
     (case rec_Override r of
        None \<Rightarrow> live_rules action rs
      | Some ov \<Rightarrow> if \<not> rec_Retired r \<and> ovr_Action ov = action then ov # live_rules action rs
                   else live_rules action rs)"
  by (auto simp: live_rules_def List.map_filter_simps split: option.splits)

definition rule_pairs :: "override_body list \<Rightarrow> (string \<times> string) set" where
  "rule_pairs ovs = (\<Union>ov\<in>set ovs. case elems (ovr_Members ov) of
     [] \<Rightarrow> {} | m # ms \<Rightarrow> pairs_with (SourceKey m) ms)"

definition classified_keys :: "override_body list \<Rightarrow> string list" where
  "classified_keys ovs = map (\<lambda>ov. SourceKey (hd (elems (ovr_Members ov)))) ovs"

definition members_present :: "onto_record list \<Rightarrow> bool" where
  "members_present rs \<longleftrightarrow>
     (\<forall>ov\<in>set (live_rules SetClassification rs @ live_rules GroupTogether rs). elems (ovr_Members ov) \<noteq> [])"

lemma actions_distinct [simp]:
  "PinDefinition \<noteq> SetClassification" "PinDefinition \<noteq> GroupTogether" "PinDefinition \<noteq> KeepSeparate"
  "SetClassification \<noteq> PinDefinition" "SetClassification \<noteq> GroupTogether" "SetClassification \<noteq> KeepSeparate"
  "GroupTogether \<noteq> PinDefinition" "GroupTogether \<noteq> SetClassification" "GroupTogether \<noteq> KeepSeparate"
  "KeepSeparate \<noteq> PinDefinition" "KeepSeparate \<noteq> SetClassification" "KeepSeparate \<noteq> GroupTogether"
  by (simp_all add: action_defs)

definition rules_fresh :: "rules_state \<Rightarrow> onto_record list \<Rightarrow> bool" where
  "rules_fresh st rs \<longleftrightarrow>
     distinct (map ovr_TargetID (live_rules PinDefinition rs))
     \<and> set (map ovr_TargetID (live_rules PinDefinition rs)) \<inter> set (rls_Pins st) = {}
     \<and> distinct (classified_keys (live_rules SetClassification rs))
     \<and> set (classified_keys (live_rules SetClassification rs)) \<inter> set (rls_Classified st) = {}"

definition rules_result ::
  "rules_state \<Rightarrow> (string \<times> string) set \<Rightarrow> onto_record list \<Rightarrow> rules_state \<Rightarrow> bool" where
  "rules_result st E rs st' \<longleftrightarrow>
     forest_of (rls_Parent st') (E \<union> rule_pairs (live_rules GroupTogether rs))
     \<and> rls_Separations st' = rls_Separations st @ map (elems \<circ> ovr_Members) (live_rules KeepSeparate rs)"

lemma rule_pairs_Cons:
  "rule_pairs (ov # ovs) = (case elems (ovr_Members ov) of
     [] \<Rightarrow> {} | m # ms \<Rightarrow> pairs_with (SourceKey m) ms) \<union> rule_pairs ovs"
  by (simp add: rule_pairs_def)

text \<open>One live rule: the step fails exactly when the rule is a repeated pin or classification.\<close>

lemma rules_step_correct:
  assumes f: "forest_of (rls_Parent st) E" and ov: "rec_Override r = Some ov" "\<not> rec_Retired r"
    and present: "ovr_Action ov \<in> {SetClassification, GroupTogether} \<longrightarrow> elems (ovr_Members ov) \<noteq> []"
  shows "(\<exists>st1 E1. rules_step st ov = Inr st1 \<and> forest_of (rls_Parent st1) E1
        \<and> rules_fresh st (r # rs) = rules_fresh st1 rs
        \<and> (\<forall>st'. rules_result st1 E1 rs st' \<longrightarrow> rules_result st E (r # rs) st'))
      \<or> rules_step st ov = Inl ErrInvalid \<and> \<not> rules_fresh st (r # rs)"
proof -
  consider (pin) "ovr_Action ov = PinDefinition" | (set) "ovr_Action ov = SetClassification"
    | (together) "ovr_Action ov = GroupTogether" | (apart) "ovr_Action ov = KeepSeparate"
    | (other) "ovr_Action ov \<notin> {PinDefinition, SetClassification, GroupTogether, KeepSeparate}"
    by auto
  then show ?thesis
  proof cases
    case pin
    then show ?thesis
      using ov f by (auto simp: rules_step_def rules_fresh_def rules_result_def)
  next
    case set
    then obtain m ms where "elems (ovr_Members ov) = m # ms" using present by (auto simp: neq_Nil_conv)
    then show ?thesis
      using set ov f by (auto simp: rules_step_def rules_fresh_def rules_result_def classified_keys_def)
  next
    case together
    then obtain m ms where m: "elems (ovr_Members ov) = m # ms" using present by (auto simp: neq_Nil_conv)
    obtain p1 k where k: "root (rls_Parent st) (SourceKey m) = (p1, k)" by fastforce
    let ?st1 = "st\<lparr>rls_Parent := union_members k p1 ms\<rparr>"
    have "rules_step st ov = Inr ?st1" using together m k by (simp add: rules_step_def)
    moreover have "forest_of (rls_Parent ?st1) (E \<union> pairs_with (SourceKey m) ms)"
      using join_members [OF f, where m = m and ms = ms] k by simp
    moreover have "rules_fresh st (r # rs) = rules_fresh ?st1 rs"
      using together ov by (simp add: rules_fresh_def)
    moreover have "rules_result ?st1 (E \<union> pairs_with (SourceKey m) ms) rs st' \<longrightarrow> rules_result st E (r # rs) st'" for st'
      using together ov m by (simp add: rules_result_def rule_pairs_Cons Un_assoc)
    ultimately show ?thesis by blast
  next
    case apart
    then show ?thesis
      using ov f by (auto simp: rules_step_def rules_fresh_def rules_result_def)
  next
    case other
    then show ?thesis
      using ov f by (auto simp: rules_step_def rules_fresh_def rules_result_def)
  qed
qed

lemma rules_loop_correct:
  assumes "forest_of (rls_Parent st) E" and "members_present rs"
  shows "if rules_fresh st rs then \<exists>st'. rules_loop st rs = Inr st' \<and> rules_result st E rs st'
         else rules_loop st rs = Inl ErrInvalid"
  using assms
proof (induction rs arbitrary: st E)
  case Nil
  then show ?case by (simp add: rules_fresh_def rules_result_def rule_pairs_def classified_keys_def)
next
  case (Cons r rs)
  have present: "members_present rs"
    using Cons.prems(2) by (auto simp: members_present_def split: option.splits if_splits)
  show ?case
  proof (cases "rec_Override r = None \<or> rec_Retired r")
    case True
    then have eq: "rules_loop st (r # rs) = rules_loop st rs" "live_rules a (r # rs) = live_rules a rs" for a
      by (auto split: option.splits)
    have "rules_fresh st (r # rs) = rules_fresh st rs" "rules_result st E (r # rs) = rules_result st E rs"
      unfolding rules_fresh_def rules_result_def fun_eq_iff eq(2) by (rule refl, simp)
    then show ?thesis using Cons.IH [OF Cons.prems(1) present] unfolding eq(1) by metis
  next
    case False
    then obtain ov where ov: "rec_Override r = Some ov" "\<not> rec_Retired r" by auto
    have "ovr_Action ov \<in> {SetClassification, GroupTogether} \<longrightarrow> elems (ovr_Members ov) \<noteq> []"
      using Cons.prems(2) ov by (auto simp: members_present_def)
    from rules_step_correct [OF Cons.prems(1) ov this, of rs] show ?thesis
    proof (elim disjE exE conjE)
      fix st1 E1
      assume step: "rules_step st ov = Inr st1" and f1: "forest_of (rls_Parent st1) E1"
        and eq: "rules_fresh st (r # rs) = rules_fresh st1 rs"
        and res: "\<forall>st'. rules_result st1 E1 rs st' \<longrightarrow> rules_result st E (r # rs) st'"
      have "rules_loop st (r # rs) = rules_loop st1 rs" using step ov by simp
      then show ?thesis using Cons.IH [OF f1 present] res unfolding eq by metis
    next
      assume "rules_step st ov = Inl ErrInvalid" "\<not> rules_fresh st (r # rs)"
      then show ?thesis using ov by simp
    qed
  qed
qed

lemma check_separation_correct:
  assumes "forest_ok p R"
  shows "if distinct (map (\<lambda>m. R (SourceKey m)) ms) \<and> (\<lambda>m. R (SourceKey m)) ` set ms \<inter> set seen = {}
         then \<exists>p'. check_separation p seen ms = Inr p' \<and> forest_ok p' R
         else check_separation p seen ms = Inl ErrInvalid"
  using assms
proof (induction ms arbitrary: p seen)
  case Nil
  then show ?case by simp
next
  case (Cons m ms)
  obtain p1 where p1: "root p (SourceKey m) = (p1, R (SourceKey m))" "forest_ok p1 R"
    using root_correct [OF Cons.prems] SourceKey_nonempty by blast
  then show ?case using Cons.IH [OF p1(2), where seen = "R (SourceKey m) # seen"] by auto
qed

lemma check_separations_correct:
  assumes "forest_ok p R"
  shows "check_separations p mss = None \<longleftrightarrow>
    (\<forall>ms\<in>set mss. distinct (map (\<lambda>m. R (SourceKey m)) ms))"
  using assms
proof (induction mss arbitrary: p)
  case Nil
  then show ?case by simp
next
  case (Cons ms mss)
  then show ?case
    using check_separation_correct [OF Cons.prems, where ms = ms and seen = "[]"]
    by (cases "distinct (map (\<lambda>m. R (SourceKey m)) ms)") auto
qed

definition managed_catalog :: "catalog \<Rightarrow> publication \<Rightarrow> catalog" where
  "managed_catalog current p =
     foldl (\<lambda>c chg. AList.update (rec_ID (chg_Record chg)) (chg_Record chg) c) current (pub_Changes p)"

definition must_stay_apart :: "(string \<times> string) set \<Rightarrow> source_handle list \<Rightarrow> bool" where
  "must_stay_apart E ms \<longleftrightarrow> (\<forall>i<length ms. \<forall>j<length ms. i \<noteq> j \<longrightarrow>
     (SourceKey (ms ! i), SourceKey (ms ! j)) \<notin> same E)"

text \<open>C3 (manager_rules_consistent_iff): the manager rules of a catalog are accepted exactly when no
  definition is pinned twice, no source is classified twice, and no two members of a
  separation are connected by any chain of together-rules; the verdict does not depend on the order
  the catalog is visited in, nor on the union-find forest behind it.\<close>

theorem manager_rules_consistent_iff:
  assumes "rs = map snd (managed_catalog current p)" and "members_present rs"
  shows "ValidateManagementOverrides current p = None \<longleftrightarrow>
    distinct (map ovr_TargetID (live_rules PinDefinition rs))
    \<and> distinct (classified_keys (live_rules SetClassification rs))
    \<and> (\<forall>ov\<in>set (live_rules KeepSeparate rs).
         must_stay_apart (rule_pairs (live_rules GroupTogether rs)) (elems (ovr_Members ov)))"
proof -
  let ?st = "\<lparr>rls_Classified = [], rls_Pins = [], rls_Parent = [], rls_Separations = []\<rparr>"
  have v: "ValidateManagementOverrides current p =
      (case rules_loop ?st rs of Inl e \<Rightarrow> Some e
       | Inr st \<Rightarrow> check_separations (rls_Parent st) (rls_Separations st))"
    by (simp add: ValidateManagementOverrides_def managed_catalog_def assms(1) Let_def)
  have "forest_of [] {}"
    unfolding forest_of_def forest_ok_def
    by (rule exI [of _ id]) (auto simp: ranked_def represents_def same_def)
  then have loop: "if rules_fresh ?st rs then \<exists>st'. rules_loop ?st rs = Inr st' \<and> rules_result ?st {} rs st'
      else rules_loop ?st rs = Inl ErrInvalid"
    using rules_loop_correct [of ?st "{}" rs] assms(2) by simp
  have fresh: "rules_fresh ?st rs \<longleftrightarrow> distinct (map ovr_TargetID (live_rules PinDefinition rs))
      \<and> distinct (classified_keys (live_rules SetClassification rs))"
    by (simp add: rules_fresh_def)
  show ?thesis
  proof (cases "rules_fresh ?st rs")
    case False
    with v loop fresh show ?thesis by auto
  next
    case True
    let ?E = "rule_pairs (live_rules GroupTogether rs)"
    obtain st' where st': "rules_loop ?st rs = Inr st'" "rules_result ?st {} rs st'" using True loop by auto
    then obtain R where R: "forest_ok (rls_Parent st') R" "represents R ?E"
      by (auto simp: rules_result_def forest_of_def)
    have apart: "distinct (map (\<lambda>m. R (SourceKey m)) ms) \<longleftrightarrow> must_stay_apart ?E ms" for ms
      using R(2) by (auto simp: distinct_conv_nth must_stay_apart_def represents_def)
    have "ValidateManagementOverrides current p = None \<longleftrightarrow>
        (\<forall>ms\<in>set (rls_Separations st'). must_stay_apart ?E ms)"
      using v st'(1) check_separations_correct [OF R(1)] apart by simp
    also have "rls_Separations st' = map (elems \<circ> ovr_Members) (live_rules KeepSeparate rs)"
      using st'(2) by (simp add: rules_result_def)
    finally show ?thesis using True fresh by simp
  qed
qed

definition sample_rules :: catalog where
  "sample_rules = [(''id-2'', sample_rule)]"

definition sample_together :: onto_record where
  "sample_together = zero_record\<lparr>rec_ID := ''id-3'', rec_Kind := OverrideKind, rec_Override := Some
     \<lparr>ovr_Action = GroupTogether, ovr_TargetID = [], ovr_DefinitionID = [],
      ovr_Members = Some [sample_handle ''id-1'', sample_handle ''id-3'']\<rparr>\<rparr>"

theorem manager_rules_consistent_iff_witness:
  "must_stay_apart (rule_pairs (live_rules GroupTogether [sample_rule, sample_together]))
     [sample_handle ''id-1'', sample_handle ''id-2'']"
proof -
  let ?p = "sample_publication\<lparr>pub_Changes := [\<lparr>chg_ExpectedVersion = 0, chg_Record = sample_together\<rparr>]\<rparr>"
  have c: "[sample_rule, sample_together] = map snd (managed_catalog sample_rules ?p)"
    by (simp add: managed_catalog_def sample_rules_def sample_together_def)
  have ov: "rec_Override sample_rule = Some sample_separation" "\<not> rec_Retired sample_rule"
    "ovr_Action sample_separation = KeepSeparate"
    by (simp_all add: sample_rule_def zero_record_def sample_separation_def)
  have tg: "\<not> rec_Retired sample_together"
    by (simp add: sample_together_def zero_record_def)
  have m: "members_present [sample_rule, sample_together]"
    using ov tg by (simp add: members_present_def) (auto simp: sample_together_def split: if_splits)
  have k: "SourceKey (sample_handle ''id-1'') \<noteq> SourceKey (sample_handle ''id-2'')"
    "SourceKey (sample_handle ''id-1'') \<noteq> SourceKey (sample_handle ''id-3'')"
    "SourceKey (sample_handle ''id-2'') \<noteq> SourceKey (sample_handle ''id-3'')"
    by (simp_all add: SourceKey_def sample_handle_def)
  have "ValidateManagementOverrides sample_rules ?p = None"
  proof -
    have loop: "rules_loop \<lparr>rls_Classified = [], rls_Pins = [], rls_Parent = [], rls_Separations = []\<rparr>
        [sample_rule, sample_together] = Inr \<lparr>rls_Classified = [], rls_Pins = [],
          rls_Parent = [(SourceKey (sample_handle ''id-1''), SourceKey (sample_handle ''id-1'')),
                        (SourceKey (sample_handle ''id-3''), SourceKey (sample_handle ''id-1''))],
          rls_Separations = [[sample_handle ''id-1'', sample_handle ''id-2'']]\<rparr>"
      using ov tg k k [symmetric]
      by (simp add: rules_step_def)
        (simp add: sample_together_def sample_separation_def rules_step_def root_def Let_def eval_nat_numeral)
    have sep: "check_separations [(SourceKey (sample_handle ''id-1''), SourceKey (sample_handle ''id-1'')),
        (SourceKey (sample_handle ''id-3''), SourceKey (sample_handle ''id-1''))]
        [[sample_handle ''id-1'', sample_handle ''id-2'']] = None"
      using k k [symmetric] by (simp add: root_def Let_def eval_nat_numeral)
    show ?thesis
      unfolding ValidateManagementOverrides_def managed_catalog_def [symmetric] c [symmetric] Let_def loop
      by (simp only: sum.case rules_state.simps sep)
  qed
  then have "must_stay_apart (rule_pairs (live_rules GroupTogether [sample_rule, sample_together]))
      (elems (ovr_Members sample_separation))"
    using manager_rules_consistent_iff [OF c m] ov by (auto split: if_splits)
  then show ?thesis by (simp add: sample_separation_def)
qed

end
