(* ===== verification/Onto_Management.thy ===== *)
theory Onto_Management
  imports Onto_Rules
begin

text \<open>
  Manager corrections (\<open>ontology/contract/management_policy.go\<close>): a draft of edits is validated,
  compiled into a publication, checked with \<open>PreparePublication\<close>, and the manager rules of the
  resulting catalog are checked against each other (\<open>Onto_Rules\<close>).
\<close>

section \<open>Validating a draft\<close>

text \<open>
  \<open>shape\<close> is the edit without the fields its action uses; whatever is left must be empty.
\<close>

definition edit_shape_empty :: "management_edit \<Rightarrow> bool" where
  "edit_shape_empty e \<longleftrightarrow> edt_Kind e = [] \<and> edt_Definition e = None \<and> edt_Source e = None
     \<and> edt_DefinitionID e = [] \<and> elems (edt_Members e) = []"

definition validate_edit :: "externals \<Rightarrow> management_edit \<Rightarrow> onto_error option" where
  "validate_edit X e =
     (let rest = (\<lambda>shape. if edit_shape_empty shape then None else Some ErrInvalid)
      in if edt_ExpectedVersion e < 0 \<or> (edt_RecordID e \<noteq> [] \<and> \<not> validID X (edt_RecordID e)) then Some ErrInvalid
         else if edt_Action e = ''define''
         then (case edt_Definition e of
                 None \<Rightarrow> Some ErrInvalid
               | Some d \<Rightarrow>
                   if edt_Kind e \<noteq> EntityClass \<and> edt_Kind e \<noteq> PredicateConcept \<and> edt_Kind e \<noteq> Topic
                   then Some ErrInvalid
                   else or_error (validateDefinition X (edt_Kind e) d)
                          (rest (e\<lparr>edt_Definition := None, edt_Kind := []\<rparr>)))
         else if edt_Action e = ''classify''
         then (case edt_Source e of
                 None \<Rightarrow> Some ErrInvalid
               | Some s \<Rightarrow>
                   if \<not> validID X (edt_DefinitionID e) then Some ErrInvalid
                   else or_error (ValidateSourceHandle X s)
                          (rest (e\<lparr>edt_Source := None, edt_DefinitionID := []\<rparr>)))
         else if edt_Action e = ''group_together'' \<or> edt_Action e = ''keep_separate''
         then or_error (validateMembers X (elems (edt_Members e)) 2) (rest (e\<lparr>edt_Members := None\<rparr>))
         else if edt_Action e = ''pin_definition''
         then (if \<not> validID X (edt_DefinitionID e) then Some ErrInvalid
               else rest (e\<lparr>edt_DefinitionID := []\<rparr>))
         else if edt_Action e = ''remove_override''
         then (if edt_RecordID e = [] \<or> edt_ExpectedVersion e < 1 then Some ErrInvalid else rest e)
         else Some ErrInvalid)"

definition ValidateSaveDraft :: "externals \<Rightarrow> save_draft_input \<Rightarrow> onto_error option" where
  "ValidateSaveDraft X input =
     or_error (ValidateOperation (sdi_OperationKey input) (sdi_ExpectedRevision input) (sdi_Reason input))
       (case x_draft_size X input of
          None \<Rightarrow> Some ErrInvalid
        | Some n \<Rightarrow>
            if n > MaxPublicationBytes \<or> sdi_ExpectedVersion input < 0 \<or> length (sdi_Edits input) < 1
               \<or> length (sdi_Edits input) > MaxChanges
            then Some ErrInvalid
            else first_error (validate_edit X) (sdi_Edits input))"

section \<open>Compiling a draft\<close>

record management_context =
  mgt_DraftID :: string
  mgt_Revision :: int
  mgt_Records :: catalog
  mgt_Sources :: snapshots

text \<open>The sources of an override, with the fingerprints of their current snapshots.\<close>

fun override_sources :: "externals \<Rightarrow> snapshots \<Rightarrow> source_handle list \<Rightarrow> onto_error + source_dependency list" where
  "override_sources X snaps [] = Inr []"
| "override_sources X snaps (h # hs) =
     (case fingerprintSnapshot X snaps h of
        Inl e \<Rightarrow> Inl e
      | Inr f \<Rightarrow>
          (case override_sources X snaps hs of
             Inl e \<Rightarrow> Inl e
           | Inr deps \<Rightarrow> Inr (\<lparr>sd_Source = h, sd_Fingerprint = f\<rparr> # deps)))"

definition edit_override :: "management_edit \<Rightarrow> onto_error + override_body" where
  "edit_override e =
     (if edt_Action e = ''classify''
      then (case edt_Source e of
              None \<Rightarrow> Inl Panic
            | Some s \<Rightarrow> Inr \<lparr>ovr_Action = SetClassification, ovr_TargetID = [],
                            ovr_DefinitionID = edt_DefinitionID e, ovr_Members = Some [s]\<rparr>)
      else if edt_Action e = ''pin_definition''
      then Inr \<lparr>ovr_Action = PinDefinition, ovr_TargetID = edt_DefinitionID e,
                ovr_DefinitionID = [], ovr_Members = None\<rparr>
      else Inr \<lparr>ovr_Action = edt_Action e, ovr_TargetID = [], ovr_DefinitionID = [],
                ovr_Members = edt_Members e\<rparr>)"

definition edit_base :: "externals \<Rightarrow> management_context \<Rightarrow> nat \<Rightarrow> management_edit \<Rightarrow> onto_error + onto_record" where
  "edit_base X ctx index e =
     (if edt_RecordID e \<noteq> []
      then (case map_of (mgt_Records ctx) (edt_RecordID e) of
              None \<Rightarrow> Inl ErrNotFound
            | Some previous \<Rightarrow>
                if rec_Version previous \<noteq> edt_ExpectedVersion e then Inl ErrConflict else Inr previous)
      else if edt_ExpectedVersion e \<noteq> 0 then Inl ErrConflict
      else Inr (zero_record\<lparr>rec_ID := x_sha1_uuid X NameSpaceOID
                  (mgt_DraftID ctx @ '':'' @ decimal index @ '':'' @ edt_Action e)\<rparr>))"

definition edit_record :: "externals \<Rightarrow> management_context \<Rightarrow> nat \<Rightarrow> management_edit \<Rightarrow> onto_error + onto_record" where
  "edit_record X ctx index e =
     (case edit_base X ctx index e of
        Inl err \<Rightarrow> Inl err
      | Inr r \<Rightarrow>
          if edt_Action e = ''define''
          then (if rec_Kind r \<noteq> [] \<and> rec_Definition r = None then Inl ErrInvalid
                else Inr (r\<lparr>rec_Kind := edt_Kind e, rec_Definition := edt_Definition e\<rparr>))
          else if edt_Action e = ''remove_override''
          then (if rec_Override r = None \<or> rec_Retired r then Inl ErrInvalid
                else Inr (r\<lparr>rec_Retired := True\<rparr>))
          else if rec_Kind r \<noteq> [] \<and> rec_Override r = None then Inl ErrInvalid
          else case edit_override e of
            Inl err \<Rightarrow> Inl err
          | Inr ov \<Rightarrow>
              (case override_sources X (mgt_Sources ctx) (elems (ovr_Members ov)) of
                 Inl err \<Rightarrow> Inl err
               | Inr deps \<Rightarrow> Inr (r\<lparr>rec_Kind := OverrideKind, rec_Retired := False, rec_Override := Some ov,
                   rec_Sources := appended deps, rec_Dependencies := None, rec_Fingerprint := []\<rparr>)))"

text \<open>The map of changes, keyed by record id; a second change of one record is rejected.\<close>

definition add_change ::
  "onto_record \<Rightarrow> int \<Rightarrow> (string \<times> change) list \<Rightarrow> onto_error + (string \<times> change) list" where
  "add_change r expected changes =
     (if rec_ID r \<in> fst ` set changes then Inl ErrInvalid
      else Inr (AList.update (rec_ID r) \<lparr>chg_ExpectedVersion = expected, chg_Record = r\<rparr> changes))"

fun compile_edits ::
  "externals \<Rightarrow> management_context \<Rightarrow> nat \<Rightarrow> (string \<times> change) list \<Rightarrow> management_edit list
     \<Rightarrow> onto_error + (string \<times> change) list" where
  "compile_edits X ctx index changes [] = Inr changes"
| "compile_edits X ctx index changes (e # es) =
     (case edit_record X ctx index e of
        Inl err \<Rightarrow> Inl err
      | Inr r \<Rightarrow>
          (case add_change r (edt_ExpectedVersion e) changes of
             Inl err \<Rightarrow> Inl err
           | Inr changes' \<Rightarrow> compile_edits X ctx (Suc index) changes' es))"

definition sortedManagementChanges :: "(string \<times> change) list \<Rightarrow> change list" where
  "sortedManagementChanges changes = map (\<lambda>i. the (map_of changes i)) (sort_strings (map fst changes))"

definition is_pin_of :: "string \<Rightarrow> onto_record \<Rightarrow> bool" where
  "is_pin_of target r = (\<not> rec_Retired r \<and>
     (case rec_Override r of None \<Rightarrow> False
      | Some ov \<Rightarrow> ovr_Action ov = PinDefinition \<and> ovr_TargetID ov = target))"

text \<open>
  Is a changed definition pinned, and was its pin removed in this draft? A live pin of the current
  catalog counts unless the draft retires it.
\<close>

definition unpinned_by :: "(string \<times> change) list \<Rightarrow> onto_record \<Rightarrow> bool" where
  "unpinned_by changes existing =
     (case map_of changes (rec_ID existing) of None \<Rightarrow> False | Some chg \<Rightarrow> rec_Retired (chg_Record chg))"

definition explicitly_unpinned :: "catalog \<Rightarrow> (string \<times> change) list \<Rightarrow> string \<Rightarrow> bool" where
  "explicitly_unpinned current changes target =
     (\<exists>existing\<in>set (map snd current). is_pin_of target existing \<and> unpinned_by changes existing)"

definition already_pinned :: "catalog \<Rightarrow> (string \<times> change) list \<Rightarrow> string \<Rightarrow> bool" where
  "already_pinned current changes target =
     ((\<exists>existing\<in>set (map snd current). is_pin_of target existing \<and> \<not> unpinned_by changes existing)
      \<or> (\<exists>chg\<in>set (map snd changes). is_pin_of target (chg_Record chg)))"

fun pin_definitions ::
  "externals \<Rightarrow> management_context \<Rightarrow> (string \<times> change) list \<Rightarrow> change list
     \<Rightarrow> onto_error + (string \<times> change) list" where
  "pin_definitions X ctx changes [] = Inr changes"
| "pin_definitions X ctx changes (chg # chgs) =
     (let target = rec_ID (chg_Record chg)
      in if rec_Definition (chg_Record chg) = None then pin_definitions X ctx changes chgs
         else if already_pinned (mgt_Records ctx) changes target
               \<or> explicitly_unpinned (mgt_Records ctx) changes target
         then pin_definitions X ctx changes chgs
         else case add_change (zero_record\<lparr>
                  rec_ID := x_sha1_uuid X NameSpaceOID (mgt_DraftID ctx @ '':pin:'' @ target),
                  rec_Kind := OverrideKind,
                  rec_Override := Some \<lparr>ovr_Action = PinDefinition, ovr_TargetID = target,
                    ovr_DefinitionID = [], ovr_Members = None\<rparr>\<rparr>) 0 changes of
                Inl err \<Rightarrow> Inl err
              | Inr changes' \<Rightarrow> pin_definitions X ctx changes' chgs)"

section \<open>The compiled publication\<close>

definition CompileManagementEdits ::
  "externals \<Rightarrow> save_draft_input \<Rightarrow> management_context \<Rightarrow> onto_error + publication" where
  "CompileManagementEdits X input ctx =
     (case ValidateSaveDraft X input of
        Some e \<Rightarrow> Inl e
      | None \<Rightarrow>
        if mgt_Revision ctx \<noteq> sdi_ExpectedRevision input then Inl ErrConflict
        else case compile_edits X ctx 0 [] (sdi_Edits input) of
          Inl e \<Rightarrow> Inl e
        | Inr changes \<Rightarrow>
        (case pin_definitions X ctx changes (sortedManagementChanges changes) of
          Inl e \<Rightarrow> Inl e
        | Inr changes' \<Rightarrow>
          (let p = \<lparr>pub_OperationKey = sdi_OperationKey input, pub_ExpectedRevision = sdi_ExpectedRevision input,
                    pub_Reason = sdi_Reason input, pub_Changes = sortedManagementChanges changes',
                    pub_RollbackOf = []\<rparr>
           in case PreparePublication X (mgt_Records ctx) (mgt_Sources ctx) p False of
                Inl e \<Rightarrow> Inl e
              | Inr _ \<Rightarrow>
                  (case ValidateManagementOverrides (mgt_Records ctx) p of
                     Some e \<Rightarrow> Inl e
                   | None \<Rightarrow> Inr p))))"

section \<open>The map of changes\<close>

definition keyed :: "(string \<times> change) list \<Rightarrow> bool" where
  "keyed changes \<longleftrightarrow> distinct (map fst changes) \<and> (\<forall>(k, c)\<in>set changes. rec_ID (chg_Record c) = k)"

lemma keyed_Nil [simp]: "keyed []"
  by (simp add: keyed_def)

lemma add_change_Inr:
  assumes "add_change r expected changes = Inr changes'" and "keyed changes"
  shows "changes' = changes @ [(rec_ID r, \<lparr>chg_ExpectedVersion = expected, chg_Record = r\<rparr>)]"
    and "keyed changes'"
  using assms by (auto simp: add_change_def keyed_def update_new split: if_splits)

lemma compile_edits_Inr:
  assumes "compile_edits X ctx index changes es = Inr changes'" and "keyed changes"
  shows "keyed changes' \<and> length changes' = length changes + length es"
  using assms
proof (induction es arbitrary: index changes)
  case Nil
  then show ?case by simp
next
  case (Cons e es)
  then obtain r c1 where c1: "add_change r (edt_ExpectedVersion e) changes = Inr c1"
    "compile_edits X ctx (Suc index) c1 es = Inr changes'"
    by (auto split: sum.splits)
  note a = add_change_Inr [OF c1(1) Cons.prems(2)]
  have "length c1 = Suc (length changes)" unfolding a(1) by simp
  then show ?case using Cons.IH [OF c1(2) a(2)] by simp
qed

lemma sortedManagementChanges_ids:
  assumes "keyed changes"
  shows "map (rec_ID \<circ> chg_Record) (sortedManagementChanges changes) = sort (map fst changes)"
    and "set (sortedManagementChanges changes) = set (map snd changes)"
proof -
  have d: "distinct (map fst changes)" using assms by (simp add: keyed_def)
  have m: "map_of changes k = Some c \<longleftrightarrow> (k, c) \<in> set changes" for k c
    using d by (rule map_of_eq_Some_iff)
  have "rec_ID (chg_Record (the (map_of changes k))) = k" if "k \<in> fst ` set changes" for k
    using that assms m by (fastforce simp: keyed_def)
  then show "map (rec_ID \<circ> chg_Record) (sortedManagementChanges changes) = sort (map fst changes)"
    unfolding sortedManagementChanges_def map_map by (intro map_idI) simp
  show "set (sortedManagementChanges changes) = set (map snd changes)"
    unfolding sortedManagementChanges_def using m by (force simp: image_iff)
qed

section \<open>Pins of changed definitions\<close>

definition touched :: "(string \<times> change) list \<Rightarrow> onto_record \<Rightarrow> bool" where
  "touched changes r \<longleftrightarrow> rec_ID r \<in> fst ` set changes"

text \<open>A change of a definition is accounted for: pinned in the draft, pinned before and left alone,
  or its pin is a record that the draft itself changes.\<close>

definition pin_settled :: "catalog \<Rightarrow> (string \<times> change) list \<Rightarrow> string \<Rightarrow> bool" where
  "pin_settled current changes target \<longleftrightarrow>
     (\<exists>c\<in>set (map snd changes). is_pin_of target (chg_Record c))
     \<or> (\<exists>r\<in>set (map snd current). is_pin_of target r)"

lemma pin_definitions_Inr:
  assumes "pin_definitions X ctx changes chgs = Inr changes'" and "keyed changes"
  shows "keyed changes' \<and> (\<exists>new. changes' = changes @ new
      \<and> (\<forall>(k, c)\<in>set new. rec_Kind (chg_Record c) = OverrideKind \<and> rec_Definition (chg_Record c) = None))
    \<and> (\<forall>c\<in>set chgs. rec_Definition (chg_Record c) \<noteq> None
         \<longrightarrow> pin_settled (mgt_Records ctx) changes' (rec_ID (chg_Record c)))"
  using assms
proof (induction chgs arbitrary: changes)
  case Nil
  then show ?case by auto
next
  case (Cons c chgs)
  let ?t = "rec_ID (chg_Record c)"
  show ?case
  proof (cases "rec_Definition (chg_Record c) = None \<or> already_pinned (mgt_Records ctx) changes ?t
      \<or> explicitly_unpinned (mgt_Records ctx) changes ?t")
    case True
    then have "pin_definitions X ctx changes chgs = Inr changes'"
      using Cons.prems(1) by (auto simp: Let_def split: if_splits)
    note ih = Cons.IH [OF this Cons.prems(2)]
    moreover have "rec_Definition (chg_Record c) \<noteq> None \<longrightarrow> pin_settled (mgt_Records ctx) changes' ?t"
      using True ih by (auto simp: pin_settled_def already_pinned_def explicitly_unpinned_def)
    ultimately show ?thesis by simp
  next
    case False
    let ?pin = "zero_record\<lparr>rec_ID := x_sha1_uuid X NameSpaceOID (mgt_DraftID ctx @ '':pin:'' @ ?t),
        rec_Kind := OverrideKind, rec_Override := Some \<lparr>ovr_Action = PinDefinition, ovr_TargetID = ?t,
          ovr_DefinitionID = [], ovr_Members = None\<rparr>\<rparr>"
    obtain c1 where c1: "add_change ?pin 0 changes = Inr c1" "pin_definitions X ctx c1 chgs = Inr changes'"
      using False Cons.prems(1) by (auto simp: Let_def split: sum.splits)
    note a = add_change_Inr [OF c1(1) Cons.prems(2)]
    note ih = Cons.IH [OF c1(2) a(2)]
    then obtain new where new: "changes' = c1 @ new" by blast
    have pin: "is_pin_of ?t ?pin" by (simp add: is_pin_of_def zero_record_def)
    then have "pin_settled (mgt_Records ctx) changes' ?t" unfolding pin_settled_def new a(1) by auto
    moreover have "rec_Kind ?pin = OverrideKind" "rec_Definition ?pin = None"
      by (simp_all add: zero_record_def)
    ultimately show ?thesis using ih unfolding a(1) by auto
  qed
qed

text \<open>C34 (compiled_draft_publishable): a draft that compiles was written against the current ontology
  revision and yields a publication that the policy accepts as it stands: it prepares without error,
  its manager rules do not contradict each other, its changes are in strictly increasing id order
  with at least one change per edit, and every definition it changes is covered by a pin, in the
  draft or in the catalog it was written against.\<close>

theorem compiled_draft_publishable:
  assumes "CompileManagementEdits X input ctx = Inr p"
  shows "mgt_Revision ctx = pub_ExpectedRevision p
    \<and> (\<exists>rs. PreparePublication X (mgt_Records ctx) (mgt_Sources ctx) p False = Inr rs)
    \<and> ValidateManagementOverrides (mgt_Records ctx) p = None
    \<and> sorted (map (rec_ID \<circ> chg_Record) (pub_Changes p))
    \<and> distinct (map (rec_ID \<circ> chg_Record) (pub_Changes p))
    \<and> length (sdi_Edits input) \<le> length (pub_Changes p)
    \<and> (\<forall>c\<in>set (pub_Changes p). rec_Definition (chg_Record c) \<noteq> None \<longrightarrow>
         (\<exists>d\<in>set (pub_Changes p). is_pin_of (rec_ID (chg_Record c)) (chg_Record d))
         \<or> (\<exists>r\<in>set (map snd (mgt_Records ctx)). is_pin_of (rec_ID (chg_Record c)) r))"
proof -
  obtain changes changes' rs where c: "mgt_Revision ctx = sdi_ExpectedRevision input"
    "compile_edits X ctx 0 [] (sdi_Edits input) = Inr changes"
    "pin_definitions X ctx changes (sortedManagementChanges changes) = Inr changes'"
    "p = \<lparr>pub_OperationKey = sdi_OperationKey input, pub_ExpectedRevision = sdi_ExpectedRevision input,
          pub_Reason = sdi_Reason input, pub_Changes = sortedManagementChanges changes', pub_RollbackOf = []\<rparr>"
    "PreparePublication X (mgt_Records ctx) (mgt_Sources ctx) p False = Inr rs"
    "ValidateManagementOverrides (mgt_Records ctx) p = None"
    using assms unfolding CompileManagementEdits_def
    by (auto simp: Let_def split: option.splits sum.splits if_splits)
  have k: "keyed changes" "length changes = length (sdi_Edits input)"
    using compile_edits_Inr [OF c(2)] by simp_all
  note pins = pin_definitions_Inr [OF c(3) k(1)]
  then have k': "keyed changes'" by blast
  obtain new where new: "changes' = changes @ new"
    "\<forall>(k, c)\<in>set new. rec_Kind (chg_Record c) = OverrideKind \<and> rec_Definition (chg_Record c) = None"
    using pins by blast
  have chgs: "pub_Changes p = sortedManagementChanges changes'" unfolding c(4) by simp
  note ids = sortedManagementChanges_ids [OF k']
  have "pin_settled (mgt_Records ctx) changes' (rec_ID (chg_Record x))"
    if "x \<in> set (pub_Changes p)" "rec_Definition (chg_Record x) \<noteq> None" for x
  proof -
    have "x \<in> set (map snd changes')" using that(1) unfolding chgs ids(2) .
    then have "x \<in> set (map snd changes)" using that(2) new by fastforce
    then show ?thesis using pins that(2) sortedManagementChanges_ids(2) [OF k(1)] by metis
  qed
  moreover have "length (pub_Changes p) = length changes'"
    unfolding chgs by (simp add: sortedManagementChanges_def)
  moreover have "sorted (map (rec_ID \<circ> chg_Record) (pub_Changes p))"
    "distinct (map (rec_ID \<circ> chg_Record) (pub_Changes p))"
    unfolding chgs ids(1) using k' by (simp_all add: keyed_def)
  moreover have "mgt_Revision ctx = pub_ExpectedRevision p" unfolding c(4) using c(1) by simp
  ultimately show ?thesis
    using c(5,6) k(2) new(1) ids(2) unfolding pin_settled_def chgs by auto
qed

text \<open>A draft that pins the topic of the sample catalog.\<close>

definition sample_draft :: save_draft_input where
  "sample_draft = \<lparr>sdi_OperationKey = ''op'', sdi_ExpectedVersion = 0, sdi_ExpectedRevision = 7,
     sdi_Reason = ''why'', sdi_Edits = [\<lparr>edt_Action = ''pin_definition'', edt_RecordID = [],
       edt_ExpectedVersion = 0, edt_Kind = [], edt_Definition = None, edt_DefinitionID = ''id-2'',
       edt_Source = None, edt_Members = None\<rparr>]\<rparr>"

definition sample_context :: management_context where
  "sample_context = \<lparr>mgt_DraftID = ''id-3'', mgt_Revision = 7, mgt_Records = sample_current,
     mgt_Sources = Map.empty\<rparr>"

definition sample_pin_record :: onto_record where
  "sample_pin_record = zero_record\<lparr>rec_ID := ''id-4'', rec_Kind := OverrideKind,
     rec_Override := Some \<lparr>ovr_Action = PinDefinition, ovr_TargetID = ''id-2'', ovr_DefinitionID = [],
                           ovr_Members = None\<rparr>\<rparr>"

definition sample_pin_change :: change where
  "sample_pin_change = \<lparr>chg_ExpectedVersion = 0, chg_Record = sample_pin_record\<rparr>"

definition sample_pin_publication :: publication where
  "sample_pin_publication = \<lparr>pub_OperationKey = ''op'', pub_ExpectedRevision = 7, pub_Reason = ''why'',
     pub_Changes = [sample_pin_change], pub_RollbackOf = []\<rparr>"

definition sample_pin_prepared :: onto_record where
  "sample_pin_prepared = sample_pin_record\<lparr>rec_Version := 1, rec_Dependencies := Some [sample_dependency],
     rec_Fingerprint := sample_print\<rparr>"

lemma sample_pin_records_ok:
  "record_ok sample_externals sample_pin_record" "record_ok sample_externals sample_pin_prepared"
  by (simp_all add: sample_pin_prepared_def sample_dependency_def record_ok_def sample_pin_record_def
      zero_record_def record_bodies_def body_ok_def override_ok_def kind_defs MaxMembers_def)

lemma sample_texts: "boundedText ''op'' 128" "boundedText ''why'' 512"
  by (rule boundedText_word; simp add: ascii_word_def byte_of_def)+

lemma sample_pin_accepted:
  "ValidatePublication sample_externals sample_pin_publication = None"
  "ValidatePublication sample_externals (sample_pin_publication\<lparr>pub_Changes :=
     [\<lparr>chg_ExpectedVersion = 0, chg_Record = sample_pin_prepared\<rparr>]\<rparr>) = None"
  using sample_pin_records_ok sample_texts
  by (simp_all add: ValidatePublication_None publication_ok_def sample_pin_publication_def
      sample_pin_change_def sample_externals_def MaxPublicationBytes_def MaxChanges_def
      MaxPublicationDependencies_def sample_pin_record_def sample_pin_prepared_def zero_record_def)

definition sample_catalog_3 :: catalog where
  "sample_catalog_3 = sample_current @ [(''id-4'', sample_pin_record\<lparr>rec_Version := 1\<rparr>)]"

lemma sample_catalog_3_lookup:
  "map_of sample_catalog_3 ''id-2'' = Some ((sample_topic ''id-2'' ''work'' [])
     \<lparr>rec_Version := 1, rec_Fingerprint := sample_print\<rparr>)"
  "map_of sample_catalog_3 ''id-4'' = Some (sample_pin_record\<lparr>rec_Version := 1\<rparr>)"
  by (simp_all add: sample_catalog_3_def sample_current_def)

lemma sample_pin_dependencies:
  assumes "c = sample_catalog_3 \<or> c = AList.update ''id-4'' sample_pin_prepared sample_catalog_3"
    and "r = sample_pin_record\<lparr>rec_Version := 1\<rparr> \<or> r = sample_pin_prepared"
  shows "dependenciesFor r c = [sample_dependency]"
  using assms
  by (auto simp: dependenciesFor_def dependency_ids_def ReferenceIDs_def sample_pin_record_def
      sample_pin_prepared_def sample_catalog_3_def sample_current_def sample_topic_def zero_record_def
      sorted_keys_def parent_ref_def catalog_get_def ApplicableOverrides_def kind_defs
      sample_dependency_def)

lemma sample_pin_prepare:
  "prepare_record sample_externals sample_current Map.empty False sample_catalog_3
     (sample_pin_record\<lparr>rec_Version := 1\<rparr>) = Inr sample_pin_prepared"
proof -
  let ?r = "sample_pin_record\<lparr>rec_Version := 1\<rparr>"
  have r: "\<not> rec_Retired sample_pin_record" "rec_Dependencies sample_pin_record = None"
    "rec_Group sample_pin_record = None" "rec_Assignment sample_pin_record = None"
    "rec_Definition sample_pin_record = None" "rec_Sources sample_pin_record = None"
    "rec_Override sample_pin_record = Some \<lparr>ovr_Action = PinDefinition, ovr_TargetID = ''id-2'',
       ovr_DefinitionID = [], ovr_Members = None\<rparr>"
    by (simp_all add: sample_pin_record_def zero_record_def)
  have topic: "\<not> rec_Retired (sample_topic i k p)" "rec_Definition (sample_topic i k p) \<noteq> None" for i k p
    by (simp_all add: sample_topic_def zero_record_def)
  have "validateRecordReferences ?r sample_catalog_3 = None"
    using topic(2)
    by (simp add: validateRecordReferences_def r ReferenceIDs_def sorted_keys_def sample_catalog_3_lookup
        catalog_get_def topic(1))
  moreover have "validateRecordSources sample_externals ?r Map.empty sample_catalog_3 = None"
    by (simp add: validateRecordSources_def r CheckSourceDependencies_def sources_declared_def
        RequiredSources_def validate_grouping_sources_def)
  moreover have "RecordFingerprint sample_externals (?r\<lparr>rec_Dependencies := Some [sample_dependency]\<rparr>)
      Map.empty sample_catalog_3 = Inr sample_print"
    by (simp add: RecordFingerprint_def r sample_hash sample_dependency_def sample_catalog_3_lookup topic(1))
  ultimately show ?thesis
    using sample_pin_dependencies [of sample_catalog_3 ?r]
    by (simp add: prepare_record_def r sample_pin_prepared_def)
qed

lemma sample_pin_catalogs:
  "ValidateDefinitions sample_catalog_3 = None"
  "CheckDependencies sample_externals [sample_pin_prepared] Map.empty
     (AList.update ''id-4'' sample_pin_prepared sample_catalog_3) = None"
proof -
  have n: "NormalizeName ''work'' = ''work''"
    by (simp add: NormalizeName_def go_string_eval byte_of_def)
  show "ValidateDefinitions sample_catalog_3 = None"
    by (simp add: ValidateDefinitions_def sample_catalog_3_def sample_current_def sample_pin_record_def
        sample_topic_def zero_record_def n DefinitionNames_def name_key_def sorted_keys_def
        MaxParentDepth_def kind_defs parent_loop.simps)
  let ?c = "AList.update ''id-4'' sample_pin_prepared sample_catalog_3"
  let ?t = "(sample_topic ''id-2'' ''work'' [])\<lparr>rec_Version := 1, rec_Fingerprint := sample_print\<rparr>"
  have t: "\<not> rec_Retired (sample_topic i k p)" "rec_ID (sample_topic i k p) = i"
    "rec_Sources (sample_topic i k p) = None" "rec_Dependencies (sample_topic i k p) = None" for i k p
    by (simp_all add: sample_topic_def zero_record_def)
  have r: "rec_ID sample_pin_prepared = ''id-4''" "\<not> rec_Retired sample_pin_prepared"
    by (simp_all add: sample_pin_prepared_def sample_pin_record_def zero_record_def)
  have m: "map_of ?c ''id-2'' = Some ?t" by (simp add: sample_catalog_3_lookup)
  have "dependency_ids ?t ?c = []"
    by (simp add: dependency_ids_def ReferenceIDs_def sample_topic_def zero_record_def sorted_keys_def)
  then have d: "dependenciesFor ?t ?c = []" by (simp add: dependenciesFor_def sorted_keys_def)
  have "DependencyRecords [sample_pin_prepared] ?c = Inr [?t, sample_pin_prepared]"
    using sample_pin_dependencies [of ?c sample_pin_prepared] m
    by (simp add: DependencyRecords_def visit.simps r t d sample_dependency_def mark_def MaxParentDepth_def
        MaxDependencyRecords_def eval_nat_numeral)
  moreover have "RecordFingerprint sample_externals ?t Map.empty ?c = Inr sample_print"
    by (simp add: RecordFingerprint_def t sample_hash)
  ultimately show "CheckDependencies sample_externals [sample_pin_prepared] Map.empty ?c = None"
    by (simp add: CheckDependencies_def r t)
qed

lemma sample_pin_published:
  "PreparePublication sample_externals sample_current Map.empty sample_pin_publication False
     = Inr [sample_pin_prepared]"
proof -
  have chg: "pub_Changes sample_pin_publication = [sample_pin_change]"
    "rec_ID (chg_Record sample_pin_change) = ''id-4''"
    "chg_ExpectedVersion sample_pin_change = 0" "rec_ID sample_pin_record = ''id-4''"
    "rec_ID sample_pin_prepared = ''id-4''"
    by (simp_all add: sample_pin_publication_def sample_pin_change_def sample_pin_record_def
        sample_pin_prepared_def zero_record_def)
  have "admit_change sample_current False sample_pin_change = Inr (sample_pin_record\<lparr>rec_Version := 1\<rparr>)"
    by (simp add: admit_change_def sample_pin_change_def sample_pin_record_def sample_current_def
        zero_record_def wrap64_def)
  moreover have "AList.update ''id-4'' (sample_pin_record\<lparr>rec_Version := 1\<rparr>) sample_current = sample_catalog_3"
    by (simp add: sample_catalog_3_def sample_current_def)
  ultimately have "admit_changes sample_current False sample_current [sample_pin_change] = Inr sample_catalog_3"
    by (simp add: chg)
  moreover have "prepare_records sample_externals sample_current Map.empty False sample_catalog_3
      [sample_pin_change] = Inr (AList.update ''id-4'' sample_pin_prepared sample_catalog_3, [sample_pin_prepared])"
    by (simp add: chg catalog_get_def sample_catalog_3_lookup sample_pin_prepare)
  ultimately show ?thesis
    using sample_pin_accepted sample_pin_catalogs
    by (simp add: PreparePublication_def chg)
qed

lemma sample_draft_compiles:
  "CompileManagementEdits sample_externals sample_draft sample_context = Inr sample_pin_publication"
proof -
  have "ValidateSaveDraft sample_externals sample_draft = None"
    using sample_texts
    by (simp add: ValidateSaveDraft_def ValidateOperation_def sample_draft_def validate_edit_def
        edit_shape_empty_def sample_externals_def MaxPublicationBytes_def MaxChanges_def Let_def validID_def)
  moreover have "compile_edits sample_externals sample_context 0 [] (sdi_Edits sample_draft)
      = Inr [(''id-4'', sample_pin_change)]"
    by (simp add: sample_draft_def edit_record_def edit_base_def edit_override_def add_change_def
        sample_context_def sample_externals_def sample_pin_change_def sample_pin_record_def zero_record_def
        appended_def)
  moreover have s: "sortedManagementChanges [(''id-4'', sample_pin_change)] = [sample_pin_change]"
    by (simp add: sortedManagementChanges_def)
  moreover have "pin_definitions sample_externals sample_context [(''id-4'', sample_pin_change)] [sample_pin_change]
      = Inr [(''id-4'', sample_pin_change)]"
    by (simp add: sample_pin_change_def sample_pin_record_def zero_record_def Let_def)
  moreover have "ValidateManagementOverrides sample_current sample_pin_publication = None"
    by (simp add: ValidateManagementOverrides_def sample_current_def sample_pin_publication_def
        sample_pin_change_def sample_pin_record_def sample_topic_def zero_record_def rules_step_def
        Let_def)
  ultimately show ?thesis
    using sample_pin_published
    by (simp add: CompileManagementEdits_def sample_draft_def sample_context_def sample_pin_publication_def
        Let_def)
qed

theorem compiled_draft_publishable_witness:
  "ValidateManagementOverrides sample_current sample_pin_publication = None
   \<and> (\<exists>rs. PreparePublication sample_externals sample_current Map.empty sample_pin_publication False = Inr rs)"
  using compiled_draft_publishable [OF sample_draft_compiles] by (simp add: sample_context_def)

end
