(* ===== verification/Onto_Organization.thy ===== *)
theory Onto_Organization
  imports Onto_Publication
begin

text \<open>
  The organization step that a model assists: its input, the classification the policy already
  knows, the vocabulary query, and the receipt that records what was assessed
  (\<open>ontology/contract/organization.go\<close>, \<open>matching.go\<close>, \<open>recall.go\<close>, \<open>seeding.go\<close>,
  \<open>assessment_diagnostics.go\<close>, \<open>freshness_diagnostics.go\<close>, \<open>modelprovider/call_diagnostics.go\<close>).
\<close>

definition MaxOrganizationSources :: nat where "MaxOrganizationSources = 20"
definition MaxVocabularyCandidates :: nat where "MaxVocabularyCandidates = 20"

section \<open>Vocabulary\<close>

definition VocabularyStopWords :: "string list" where
  "VocabularyStopWords =
   [''i'', ''me'', ''my'', ''myself'', ''we'', ''our'', ''ours'', ''ourselves'', ''you'', ''your'',
    ''yours'', ''yourself'', ''yourselves'', ''he'', ''him'', ''his'', ''himself'', ''she'',
    ''her'', ''hers'', ''herself'', ''it'', ''its'', ''itself'', ''they'', ''them'', ''their'',
    ''theirs'', ''themselves'', ''what'', ''which'', ''who'', ''whom'', ''this'', ''that'',
    ''these'', ''those'', ''am'', ''is'', ''are'', ''was'', ''were'', ''be'', ''been'', ''being'',
    ''have'', ''has'', ''had'', ''having'', ''do'', ''does'', ''did'', ''doing'', ''a'', ''an'',
    ''the'', ''and'', ''but'', ''if'', ''or'', ''because'', ''as'', ''until'', ''while'', ''of'',
    ''at'', ''by'', ''for'', ''with'', ''about'', ''against'', ''between'', ''into'', ''through'',
    ''during'', ''before'', ''after'', ''above'', ''below'', ''to'', ''from'', ''up'', ''down'',
    ''in'', ''out'', ''on'', ''off'', ''over'', ''under'', ''again'', ''further'', ''then'',
    ''once'', ''here'', ''there'', ''when'', ''where'', ''why'', ''how'', ''all'', ''any'',
    ''both'', ''each'', ''few'', ''more'', ''most'', ''other'', ''some'', ''such'', ''no'',
    ''nor'', ''not'', ''only'', ''own'', ''same'', ''so'', ''than'', ''too'', ''very'', ''s'',
    ''t'', ''can'', ''will'', ''just'', ''don'', ''should'', ''now'']"

definition LooseVocabularyQuery :: "string list \<Rightarrow> string" where
  "LooseVocabularyQuery ws = go_join '' OR '' (filter (\<lambda>w. w \<notin> set VocabularyStopWords) ws)"

text \<open>
  \<open>strings.FieldsFunc\<close>: the maximal runs of runes that are not separators. \<open>word_char\<close> is
  \<open>unicode.IsLetter(r) || unicode.IsNumber(r)\<close>; the Unicode tables are those of the toolchain, so it
  is a parameter.
\<close>

fun fields_func :: "(nat \<Rightarrow> bool) \<Rightarrow> nat list \<Rightarrow> nat list \<Rightarrow> nat list list" where
  "fields_func keep cur [] = (if cur = [] then [] else [cur])"
| "fields_func keep cur (r # rs) =
     (if keep r then fields_func keep (cur @ [r]) rs
      else if cur = [] then fields_func keep [] rs
      else cur # fields_func keep [] rs)"

definition source_texts_of :: "source_snapshot \<Rightarrow> string list" where
  "source_texts_of s = [sh_ID (snap_Source s), snap_EntityKind s, state_field s ''content'',
     state_field s ''names'', state_field s ''predicate'']"

definition text_words :: "(nat \<Rightarrow> bool) \<Rightarrow> string \<Rightarrow> string list" where
  "text_words word_char text = map string_of_runes (fields_func word_char [] (runes (to_lower text)))"

fun collect_words :: "string list \<Rightarrow> string list \<Rightarrow> string list" where
  "collect_words ws [] = ws"
| "collect_words ws (w # rest) =
     (if length ws < 64 \<and> length w \<le> 128 \<and> w \<notin> set ws then collect_words (ws @ [w]) rest
      else collect_words ws rest)"

definition VocabularyQuery :: "(nat \<Rightarrow> bool) \<Rightarrow> source_snapshot list \<Rightarrow> string \<times> string list" where
  "VocabularyQuery word_char sources =
     (let ws = collect_words [] (concat (map (\<lambda>s. concat (map (text_words word_char) (source_texts_of s))) sources))
      in (go_join '' '' ws, ws))"

section \<open>Recall by alias\<close>

text \<open>The ids of the current definitions that carry a normalized name as key or alias.\<close>

definition view_names :: "definition_body \<Rightarrow> string list" where
  "view_names d = map NormalizeName (elems (def_Aliases d) @ [def_Key d])"

definition current_definitions :: "record_view list \<Rightarrow> (string \<times> definition_body) list" where
  "current_definitions views = List.map_filter (\<lambda>v.
     if rv_Current v then map_option (\<lambda>d. (rec_ID (rv_Record v), d)) (rec_Definition (rv_Record v))
     else None) views"

definition alias_ids :: "record_view list \<Rightarrow> string \<Rightarrow> string list" where
  "alias_ids views name = dedup [] (map fst (filter (\<lambda>(i, d). name \<in> set (view_names d)) (current_definitions views)))"

definition recall_matched :: "string list \<Rightarrow> record_view list \<Rightarrow> definition_body \<Rightarrow> bool" where
  "recall_matched names views d \<longleftrightarrow>
     NormalizeName (def_Key d) \<in> set names
     \<or> (\<exists>a\<in>set (elems (def_Aliases d)). NormalizeName a \<in> set names
          \<and> length (alias_ids views (NormalizeName a)) = 1)"

definition MatchRecallDefinitions :: "string list \<Rightarrow> record_view list \<Rightarrow> string list" where
  "MatchRecallDefinitions names views =
     sort_strings (map fst (filter (\<lambda>x. recall_matched names views (snd x)) (current_definitions views)))"

section \<open>Input and context\<close>

record organization_input =
  oin_OperationKey :: string
  oin_Sources :: "source_handle list"

definition PrepareOrganizationInput :: "externals \<Rightarrow> organization_input \<Rightarrow> onto_error + organization_input" where
  "PrepareOrganizationInput X input =
     (if \<not> boundedText (oin_OperationKey input) 128 \<or> length (oin_Sources input) < 1
         \<or> length (oin_Sources input) > MaxOrganizationSources
      then Inl ErrInvalid
      else (let sources = elems (sortedSources (oin_Sources input))
            in case check_distinct (ValidateSourceHandle X) ErrInvalid SourceKey [] sources of
                 Some e \<Rightarrow> Inl e
               | None \<Rightarrow> Inr (input\<lparr>oin_Sources := sources\<rparr>)))"

definition OrganizationRecordID :: "externals \<Rightarrow> string \<Rightarrow> string \<Rightarrow> string \<Rightarrow> string" where
  "OrganizationRecordID X team kind key = x_sha1_uuid X NameSpaceURL
     (''dense-mem:organization:'' @ team @ '':'' @ kind @ '':'' @ key)"

definition SeedDefinitionID :: "externals \<Rightarrow> string \<Rightarrow> string \<Rightarrow> string \<Rightarrow> string" where
  "SeedDefinitionID X team kind key = x_sha1_uuid X NameSpaceURL
     (''dense-mem:ontology:'' @ team @ '':'' @ kind @ '':'' @ key)"

definition seed_definition :: "string \<Rightarrow> string \<Rightarrow> string \<Rightarrow> definition_body" where
  "seed_definition key descr base = \<lparr>def_Key = key, def_Label = key, def_Description = descr,
     def_Aliases = None, def_ParentID = [], def_BaseEntityKind = base\<rparr>"

fun seed_predicates :: "externals \<Rightarrow> string \<Rightarrow> source_snapshot list \<Rightarrow> onto_error + onto_record list" where
  "seed_predicates X team [] = Inr []"
| "seed_predicates X team (s # ss) =
     (let h = snap_Source s
      in if snap_TeamID s \<noteq> team \<or> sh_Kind h \<noteq> PredicateSource \<or> \<not> snap_Eligible s then Inl ErrSourceStale
         else case seed_predicates X team ss of
           Inl e \<Rightarrow> Inl e
         | Inr rs \<Rightarrow> Inr (zero_record\<lparr>rec_ID := SeedDefinitionID X team PredicateConcept (sh_ID h),
             rec_Kind := PredicateConcept,
             rec_Definition := Some (seed_definition (sh_ID h) ''Existing registered predicate'' []),
             rec_Sources := Some [\<lparr>sd_Source = h, sd_Fingerprint = x_hash X (HashSource s)\<rparr>]\<rparr> # rs))"

definition SeedRecords :: "externals \<Rightarrow> string \<Rightarrow> source_snapshot list \<Rightarrow> onto_error + onto_record list" where
  "SeedRecords X team predicates =
     (if length predicates > 20 then Inl ErrInvalid
      else case seed_predicates X team predicates of
        Inl e \<Rightarrow> Inl e
      | Inr rs \<Rightarrow> Inr (map (\<lambda>kind. zero_record\<lparr>rec_ID := SeedDefinitionID X team EntityClass kind,
          rec_Kind := EntityClass,
          rec_Definition := Some (seed_definition kind ''Existing coarse entity kind'' kind)\<rparr>) EntityKinds @ rs))"

record organization_context =
  octx_Revision :: int
  octx_Sources :: "source_snapshot list"
  octx_Records :: "record_view list"
  octx_Candidates :: "record_view list"

fun organization_dependencies :: "revision_ref list \<Rightarrow> record_view list \<Rightarrow> onto_error + revision_ref list" where
  "organization_dependencies result [] = Inr result"
| "organization_dependencies result (v # vs) =
     (let r = rv_Record v
      in if \<not> rv_Current v \<or> rec_ID r \<in> set (map ref_ID result) then organization_dependencies result vs
         else if length result = MaxDependencyRecords then Inl ErrInvalid
         else organization_dependencies (result @ [\<lparr>ref_ID = rec_ID r, ref_Version = rec_Version r\<rparr>]) vs)"

definition OrganizationDependencies :: "organization_context \<Rightarrow> onto_error + revision_ref list" where
  "OrganizationDependencies ctx = organization_dependencies [] (octx_Records ctx @ octx_Candidates ctx)"

text \<open>The classification already known; an index of an empty member list is the panic branch.\<close>

fun manager_classification :: "string \<Rightarrow> record_view list \<Rightarrow> onto_error + string option" where
  "manager_classification key [] = Inr None"
| "manager_classification key (v # vs) =
     (case rec_Override (rv_Record v) of
        None \<Rightarrow> manager_classification key vs
      | Some ov \<Rightarrow>
          if ovr_Action ov \<noteq> SetClassification then manager_classification key vs
          else case elems (ovr_Members ov) of
            [] \<Rightarrow> Inl Panic
          | m # _ \<Rightarrow> if SourceKey m = key then Inr (Some (ovr_DefinitionID ov))
                     else manager_classification key vs)"

fun assigned_classification :: "string \<Rightarrow> record_view list \<Rightarrow> string option" where
  "assigned_classification key [] = None"
| "assigned_classification key (v # vs) =
     (case rec_Assignment (rv_Record v) of
        None \<Rightarrow> assigned_classification key vs
      | Some a \<Rightarrow> if rv_Current v \<and> SourceKey (asg_Source a) = key then Some (asg_DefinitionID a)
                  else assigned_classification key vs)"

definition name_matches :: "source_snapshot \<Rightarrow> string \<Rightarrow> record_view \<Rightarrow> bool" where
  "name_matches s name v \<longleftrightarrow> name \<in> set (DefinitionNames (rv_Record v))
     \<and> ((sh_Kind (snap_Source s) = EntitySource \<and> rec_Kind (rv_Record v) = EntityClass
          \<and> (case rec_Definition (rv_Record v) of None \<Rightarrow> False
             | Some d \<Rightarrow> def_BaseEntityKind d = snap_EntityKind s))
        \<or> (sh_Kind (snap_Source s) = PredicateSource \<and> rec_Kind (rv_Record v) = PredicateConcept))"

definition OrganizationClassification ::
  "source_snapshot \<Rightarrow> record_view list \<Rightarrow> record_view list \<Rightarrow> onto_error + string option" where
  "OrganizationClassification s records candidates =
     (case manager_classification (SourceKey (snap_Source s)) records of
        Inl e \<Rightarrow> Inl e
      | Inr (Some d) \<Rightarrow> Inr (Some d)
      | Inr None \<Rightarrow>
          (case assigned_classification (SourceKey (snap_Source s)) records of
             Some d \<Rightarrow> Inr (Some d)
           | None \<Rightarrow>
               (let name = (if sh_Kind (snap_Source s) = EntitySource then NormalizeName (snap_EntityKind s)
                            else if sh_Kind (snap_Source s) = PredicateSource then NormalizeName (sh_ID (snap_Source s))
                            else [])
                in if name = [] then Inr None
                   else case filter (name_matches s name) candidates of
                     [] \<Rightarrow> Inr None
                   | v # _ \<Rightarrow> Inr (Some (rec_ID (rv_Record v))))))"

section \<open>Properties\<close>

text \<open>
  Sources are sorted by key and then version. On handles of known kinds, which contain no colon,
  that determines the handle, so the sorted list does not depend on the order of the input.
\<close>

definition known_handle :: "source_handle \<Rightarrow> bool" where
  "known_handle h \<longleftrightarrow> sh_Kind h \<in> {EntitySource, PredicateSource, EvidenceSource, RelationshipSource}"

lemma colon_split:
  "CHR '':'' \<notin> set a \<Longrightarrow> CHR '':'' \<notin> set b \<Longrightarrow> a @ '':'' @ x = b @ '':'' @ y \<Longrightarrow> a = b \<and> x = y"
proof (induction a arbitrary: b)
  case Nil
  then show ?case by (cases b) auto
next
  case (Cons c a)
  then show ?case by (cases b) auto
qed

lemma SourceKey_inj:
  assumes "known_handle h" and "known_handle g" and "SourceKey h = SourceKey g"
  shows "sh_Kind h = sh_Kind g \<and> sh_ID h = sh_ID g"
proof -
  have "CHR '':'' \<notin> set (sh_Kind h)" "CHR '':'' \<notin> set (sh_Kind g)"
    using assms(1,2) by (auto simp: known_handle_def source_kind_defs)
  then show ?thesis using assms(3) unfolding SourceKey_def by (rule colon_split)
qed

interpretation source_order: total_order source_less known_handle
proof (rule total_order_key)
  show "source_less x y \<longleftrightarrow> (SourceKey x, sh_Version x) < (SourceKey y, sh_Version y)" for x y
    by (auto simp: source_less_def Let_def less_prod_def)
  show "x = y" if "known_handle x" "known_handle y" "(SourceKey x, sh_Version x) = (SourceKey y, sh_Version y)" for x y
    using SourceKey_inj [OF that(1,2)] that(3) by (simp add: source_handle.equality)
qed

lemma handle_ok_known: "handle_ok X h \<Longrightarrow> known_handle h"
  by (auto simp: handle_ok_def known_handle_def split: if_splits)

lemma PrepareOrganizationInput_Inr:
  assumes "PrepareOrganizationInput X input = Inr prepared"
  shows "prepared = input\<lparr>oin_Sources := go_sort source_less (oin_Sources input)\<rparr>"
    and "\<forall>h\<in>set (oin_Sources input). handle_ok X h" and "distinct (map SourceKey (oin_Sources input))"
    and "boundedText (oin_OperationKey input) 128" and "oin_Sources input \<noteq> []"
    and "length (oin_Sources input) \<le> MaxOrganizationSources"
  using assms
  by (auto simp: PrepareOrganizationInput_def sortedSources_def Let_def check_distinct_None
      split: if_splits option.splits)

text \<open>(organization_input_canonical): preparing an organization input keeps its sources and their
  versions, rejects duplicates and invalid handles, and gives one canonical order: inputs with the
  same sources in any order prepare to the same list, and a prepared input prepares to itself.\<close>

theorem organization_input_canonical:
  assumes "PrepareOrganizationInput X input = Inr prepared"
  shows "mset (oin_Sources prepared) = mset (oin_Sources input)
    \<and> distinct (map SourceKey (oin_Sources prepared))
    \<and> (\<forall>other. mset (oin_Sources other) = mset (oin_Sources input)
          \<and> oin_OperationKey other = oin_OperationKey input
          \<longrightarrow> PrepareOrganizationInput X (other :: organization_input) = Inr prepared)
    \<and> PrepareOrganizationInput X prepared = Inr prepared"
proof -
  note p = PrepareOrganizationInput_Inr [OF assms]
  have known: "\<forall>h\<in>set (oin_Sources input). known_handle h" using p(2) handle_ok_known by blast
  have same: "PrepareOrganizationInput X other = Inr prepared"
    if m: "mset (oin_Sources other) = mset (oin_Sources input)" "oin_OperationKey other = oin_OperationKey input"
    for other :: organization_input
  proof -
    have len: "length (oin_Sources other) = length (oin_Sources input)" using m(1) by (metis size_mset)
    have sort: "go_sort source_less (oin_Sources other) = go_sort source_less (oin_Sources input)"
      using source_order.go_sort_perm [OF m(1)] known m(1) by (metis set_mset_mset)
    have "other\<lparr>oin_Sources := go_sort source_less (oin_Sources input)\<rparr> = prepared"
      unfolding p(1) using m(2) by simp
    moreover have "check_distinct (ValidateSourceHandle X) ErrInvalid SourceKey []
        (go_sort source_less (oin_Sources input)) = None"
      unfolding check_distinct_None using p(2,3) by simp
    moreover have "boundedText (oin_OperationKey other) 128" "oin_Sources other \<noteq> []"
      "\<not> length (oin_Sources other) < 1" "\<not> length (oin_Sources other) > MaxOrganizationSources"
      using p(4,5,6) m(2) len by auto
    ultimately show ?thesis
      by (simp add: PrepareOrganizationInput_def sortedSources_def Let_def sort
          del: check_distinct.simps go_sort.simps)
  qed
  have "PrepareOrganizationInput X prepared = Inr prepared"
    by (rule same) (simp_all add: p(1))
  with same p(1,3) show ?thesis by auto
qed

definition sample_organization :: organization_input where
  "sample_organization = \<lparr>oin_OperationKey = ''op'', oin_Sources = [sample_handle ''id-3'', sample_handle ''id-1'']\<rparr>"

theorem organization_input_canonical_witness:
  "PrepareOrganizationInput sample_externals
     \<lparr>oin_OperationKey = ''op'', oin_Sources = [sample_handle ''id-1'', sample_handle ''id-3'']\<rparr>
   = Inr \<lparr>oin_OperationKey = ''op'', oin_Sources = [sample_handle ''id-1'', sample_handle ''id-3'']\<rparr>"
proof -
  have t: "boundedText ''op'' 128" by (rule boundedText_word; simp add: ascii_word_def byte_of_def)
  have h: "handle_ok sample_externals (sample_handle ''id-1'')" "handle_ok sample_externals (sample_handle ''id-3'')"
    by (simp_all add: handle_ok_def sample_handle_def source_kind_defs)
  have "go_sort source_less [sample_handle ''id-3'', sample_handle ''id-1''] = [sample_handle ''id-1'', sample_handle ''id-3'']"
    by (simp add: source_less_def SourceKey_def sample_handle_def EvidenceSource_def Let_def less_char_def)
  moreover have "check_distinct (ValidateSourceHandle sample_externals) ErrInvalid SourceKey []
      [sample_handle ''id-1'', sample_handle ''id-3''] = None"
    unfolding check_distinct_None using h by (auto simp: SourceKey_def sample_handle_def)
  ultimately have "PrepareOrganizationInput sample_externals sample_organization
     = Inr \<lparr>oin_OperationKey = ''op'', oin_Sources = [sample_handle ''id-1'', sample_handle ''id-3'']\<rparr>"
    using t by (simp add: PrepareOrganizationInput_def sample_organization_def MaxOrganizationSources_def
        sortedSources_def Let_def del: go_sort.simps check_distinct.simps)
  from organization_input_canonical [OF this] show ?thesis by (simp add: sample_organization_def)
qed

text \<open>Alias recall.\<close>

lemma alias_ids_unique:
  assumes "length (alias_ids views name) = 1"
    and "(i, d) \<in> set (current_definitions views)" and "name \<in> set (view_names d)"
    and "(j, e) \<in> set (current_definitions views)" and "name \<in> set (view_names e)"
  shows "i = j"
proof -
  have "i \<in> set (alias_ids views name)" "j \<in> set (alias_ids views name)"
    using assms(2-5) by (force simp: alias_ids_def)+
  with assms(1) show ?thesis by (auto simp: length_Suc_conv)
qed

text \<open>(recall_alias_unambiguous): recall returns, in sorted order, only ids of current definitions
  that carry one of the asked names; a definition that is found only through an alias is the one
  definition, among all current ones, that carries that name as key or alias, so an ambiguous alias
  never selects a definition.\<close>

theorem recall_alias_unambiguous:
  "sorted (MatchRecallDefinitions names views)
   \<and> (\<forall>i\<in>set (MatchRecallDefinitions names views). \<exists>d. (i, d) \<in> set (current_definitions views)
        \<and> (NormalizeName (def_Key d) \<in> set names
           \<or> (\<exists>name\<in>set names. name \<in> set (view_names d)
                \<and> (\<forall>(j, e)\<in>set (current_definitions views). name \<in> set (view_names e) \<longrightarrow> j = i))))"
proof (intro conjI ballI)
  show "sorted (MatchRecallDefinitions names views)" by (simp add: MatchRecallDefinitions_def)
next
  fix i assume "i \<in> set (MatchRecallDefinitions names views)"
  then obtain d where d: "(i, d) \<in> set (current_definitions views)"
    "NormalizeName (def_Key d) \<in> set names
      \<or> (\<exists>a\<in>set (elems (def_Aliases d)). NormalizeName a \<in> set names
           \<and> length (alias_ids views (NormalizeName a)) = 1)"
    unfolding recall_matched_def [symmetric] by (auto simp: MatchRecallDefinitions_def)
  show "\<exists>d. (i, d) \<in> set (current_definitions views) \<and> (NormalizeName (def_Key d) \<in> set names
      \<or> (\<exists>name\<in>set names. name \<in> set (view_names d)
           \<and> (\<forall>(j, e)\<in>set (current_definitions views). name \<in> set (view_names e) \<longrightarrow> j = i)))"
    using d(2)
  proof
    assume "NormalizeName (def_Key d) \<in> set names"
    with d(1) show ?thesis by blast
  next
    assume "\<exists>a\<in>set (elems (def_Aliases d)). NormalizeName a \<in> set names
        \<and> length (alias_ids views (NormalizeName a)) = 1"
    then obtain a where a: "a \<in> set (elems (def_Aliases d))" "NormalizeName a \<in> set names"
      "length (alias_ids views (NormalizeName a)) = 1" by blast
    have n: "NormalizeName a \<in> set (view_names d)" using a(1) by (simp add: view_names_def)
    have "\<forall>(j, e)\<in>set (current_definitions views). NormalizeName a \<in> set (view_names e) \<longrightarrow> j = i"
      using alias_ids_unique [OF a(3) _ _ d(1) n] by blast
    with d(1) a(2) n show ?thesis by blast
  qed
qed

theorem recall_alias_unambiguous_witness:
  "sorted (MatchRecallDefinitions [''work''] [])"
  using recall_alias_unambiguous [of "[''work'']" "[]"] by simp

text \<open>The vocabulary query is bounded.\<close>

lemma collect_words_bounded:
  "distinct ws \<Longrightarrow> length ws \<le> 64 \<Longrightarrow> \<forall>w\<in>set ws. length w \<le> 128 \<Longrightarrow>
    distinct (collect_words ws xs) \<and> length (collect_words ws xs) \<le> 64
    \<and> (\<forall>w\<in>set (collect_words ws xs). length w \<le> 128)"
proof (induction xs arbitrary: ws)
  case Nil
  then show ?case by simp
next
  case (Cons x xs)
  show ?case
  proof (cases "length ws < 64 \<and> length x \<le> 128 \<and> x \<notin> set ws")
    case True
    with Cons.prems have "distinct (ws @ [x])" "length (ws @ [x]) \<le> 64" "\<forall>w\<in>set (ws @ [x]). length w \<le> 128"
      by auto
    from Cons.IH [OF this] True show ?thesis by simp
  next
    case False
    with Cons.IH [OF Cons.prems] show ?thesis by auto
  qed
qed

lemma VocabularyQuery_bounded:
  "distinct (snd (VocabularyQuery word_char sources)) \<and> length (snd (VocabularyQuery word_char sources)) \<le> 64"
  unfolding VocabularyQuery_def Let_def snd_conv using collect_words_bounded [of "[]"] by simp

end
