(* ===== verification/Onto_Receipt.thy ===== *)
theory Onto_Receipt
  imports Onto_Organization
begin

text \<open>
  The receipt of an organization assessment and the closed diagnostics it carries
  (\<open>ValidateOrganizationReceipt\<close> in \<open>ontology/contract/organization.go\<close>,
  \<open>assessment_diagnostics.go\<close>, \<open>freshness_diagnostics.go\<close>, \<open>modelprovider/call_diagnostics.go\<close>).
\<close>

section \<open>Diagnostics\<close>

record call_diagnostics =
  cd_QueueMS :: "int option"
  cd_AdmissionMS :: "int option"
  cd_HTTPMS :: "int option"
  cd_ReconciliationMS :: "int option"
  cd_HTTPTimeoutMS :: "int option"
  cd_FailurePhase :: string
  cd_ReconciliationFailed :: bool

definition call_phases :: "string list" where
  "call_phases = ['''', ''queue'', ''prepare'', ''admission'', ''request'', ''response_body'',
     ''response_status'', ''response_decode'', ''validation'', ''reconciliation'']"

definition call_diagnostics_valid :: "call_diagnostics option \<Rightarrow> bool" where
  "call_diagnostics_valid d =
     (case d of
        None \<Rightarrow> True
      | Some d \<Rightarrow>
          if \<exists>v\<in>set [cd_QueueMS d, cd_AdmissionMS d, cd_HTTPMS d, cd_ReconciliationMS d, cd_HTTPTimeoutMS d].
               (case v of None \<Rightarrow> False | Some x \<Rightarrow> x < 0) then False
          else if cd_FailurePhase d \<in> set call_phases
          then \<not> cd_ReconciliationFailed d \<or> cd_ReconciliationMS d \<noteq> None
          else False)"

record assessment_validation =
  av_Stage :: string
  av_Code :: string
  av_FieldFamily :: string
  av_ExpectedCount :: "int option"
  av_ActualCount :: "int option"

definition counted_codes :: "string list" where
  "counted_codes = [''definition_limit'', ''item_count_mismatch'', ''equivalence_coverage'', ''output_limit'']"

definition assessment_arrays :: "string list" where
  "assessment_arrays = [''definitions'', ''items'', ''equivalence'']"

definition assessment_fields :: "string list" where
  "assessment_fields = [''request_id'', ''definitions'', ''items'', ''equivalence'',
     ''definitions.ref'', ''definitions.kind'', ''definitions.key'', ''definitions.label'',
     ''definitions.description'', ''definitions.aliases'', ''definitions.parent_ref'', ''definitions.base_entity_kind'',
     ''items.ref'', ''items.status'', ''items.definition_ref'', ''items.reason'',
     ''equivalence.ref'', ''equivalence.relation'']"

definition definition_codes :: "string list" where
  "definition_codes = [''definition_limit'', ''definition_ref_invalid'', ''definition_ref_duplicate'',
     ''definition_ref_supplied'', ''definition_parent_ref'', ''definition_record'', ''definition_catalog'',
     ''definition_unused'']"

definition item_codes :: "string list" where
  "item_codes = [''item_count_mismatch'', ''item_ref_unknown'', ''item_ref_duplicate'', ''item_reason_limit'',
     ''item_ambiguous_classification'', ''item_definition_ref'', ''item_locked_classification'',
     ''item_source_kind'', ''item_status'']"

definition equivalence_codes :: "string list" where
  "equivalence_codes = [''equivalence_ref'', ''equivalence_relation'', ''equivalence_required_relation'',
     ''equivalence_coverage'', ''equivalence_transitivity'']"

definition assessment_stage_ok :: "string \<Rightarrow> string \<Rightarrow> string \<Rightarrow> bool" where
  "assessment_stage_ok stage code family =
     (if stage = ''decode''
      then (if code \<in> {''strict_json'', ''object_decode''} then family = ''response''
            else if code = ''array_decode'' then family \<in> set assessment_arrays
            else if code = ''missing_field'' then family \<in> set assessment_fields
            else False)
      else if stage = ''validate''
      then (if code = ''request_id_mismatch'' then family = ''request_id''
            else if code = ''missing_array'' then family \<in> set assessment_arrays
            else if code \<in> set definition_codes then family = ''definitions''
            else if code \<in> set item_codes then family = ''items''
            else if code \<in> set equivalence_codes then family = ''equivalence''
            else False)
      else if stage = ''limits'' then code = ''output_limit'' \<and> family = ''output_tokens''
      else False)"

definition assessment_validation_valid :: "assessment_validation option \<Rightarrow> bool" where
  "assessment_validation_valid d =
     (case d of
        None \<Rightarrow> True
      | Some d \<Rightarrow>
          (case (av_ExpectedCount d, av_ActualCount d) of
             (None, None) \<Rightarrow> av_Code d \<notin> set counted_codes
           | (Some e, Some a) \<Rightarrow> 0 \<le> e \<and> 0 \<le> a \<and> av_Code d \<in> set counted_codes
           | _ \<Rightarrow> False)
          \<and> assessment_stage_ok (av_Stage d) (av_Code d) (av_FieldFamily d))"

record context_revision =
  crv_ID :: string
  crv_Version :: int
  crv_Current :: bool

record context_state =
  cst_Records :: "context_revision list"
  cst_Candidates :: "context_revision list"

record freshness_rejection =
  frj_Check :: string
  frj_Source :: "source_handle option"
  frj_RecordID :: string
  frj_Expected :: string
  frj_Observed :: string
  frj_Dependencies :: "revision_ref list"
  frj_ExpectedContext :: "context_state option"
  frj_ObservedContext :: "context_state option"

definition context_revision_less :: "context_revision \<Rightarrow> context_revision \<Rightarrow> bool" where
  "context_revision_less a b \<longleftrightarrow> crv_ID a < crv_ID b"

definition SnapshotOrganizationContext :: "organization_context \<Rightarrow> context_state" where
  "SnapshotOrganizationContext ctx =
     (let refs = (\<lambda>views. go_sort context_revision_less
            (map (\<lambda>v. \<lparr>crv_ID = rec_ID (rv_Record v), crv_Version = rec_Version (rv_Record v),
                        crv_Current = rv_Current v\<rparr>) views))
      in \<lparr>cst_Records = refs (octx_Records ctx), cst_Candidates = refs (octx_Candidates ctx)\<rparr>)"

definition ref_valid :: "externals \<Rightarrow> revision_ref \<Rightarrow> bool" where
  "ref_valid X r \<longleftrightarrow> validID X (ref_ID r) \<and> ref_Version r \<ge> 1"

definition context_state_valid :: "externals \<Rightarrow> context_state option \<Rightarrow> bool" where
  "context_state_valid X st =
     (case st of
        None \<Rightarrow> True
      | Some st \<Rightarrow>
          length (cst_Records st) \<le> MaxDependencyRecords \<and> length (cst_Candidates st) \<le> MaxVocabularyCandidates
          \<and> (\<forall>r\<in>set (cst_Records st @ cst_Candidates st). validID X (crv_ID r) \<and> crv_Version r \<ge> 1))"

definition freshness_rejection_valid :: "externals \<Rightarrow> freshness_rejection option \<Rightarrow> bool" where
  "freshness_rejection_valid X d =
     (case d of
        None \<Rightarrow> True
      | Some d \<Rightarrow>
          if \<not> boundedText (frj_Expected d) 128 \<or> \<not> boundedText (frj_Observed d) 128
             \<or> length (frj_Dependencies d) > MaxDependencyRecords then False
          else if (case frj_Source d of None \<Rightarrow> False | Some s \<Rightarrow> ValidateSourceHandle X s \<noteq> None)
             \<or> (frj_RecordID d \<noteq> [] \<and> \<not> validID X (frj_RecordID d)) then False
          else if \<exists>r\<in>set (frj_Dependencies d). \<not> ref_valid X r then False
          else if \<not> context_state_valid X (frj_ExpectedContext d) \<or> \<not> context_state_valid X (frj_ObservedContext d)
          then False
          else if frj_Check d = ''source_fingerprint''
          then frj_Source d \<noteq> None \<and> validFingerprint (frj_Expected d) \<and> validFingerprint (frj_Observed d)
          else if frj_Check d \<in> {''dependency_missing'', ''dependency_version'', ''dependency_retired'', ''dependency_not_current''}
          then frj_RecordID d \<noteq> []
          else frj_Check d \<in> {''dependency_catalog_bound'', ''dependency_context_bound'', ''context_bound'', ''context_hash''})"

section \<open>The receipt\<close>

record organization_outcome =
  out_Source :: source_handle
  out_Status :: string
  out_Reason :: string
  out_RecordIDs :: "string list"

record ambiguous_comparison =
  amb_Left :: source_handle
  amb_Right :: source_handle
  amb_Reason :: string

record assessment_attempt =
  att_Number :: int
  att_EstimatedInputTokens :: int
  att_EstimatedOutputTokens :: int
  att_ReportedInputTokens :: int
  att_ReportedOutputTokens :: int
  att_ReportedTotalTokens :: int
  att_FailureCode :: string
  att_Diagnostics :: "call_diagnostics option"
  att_Validation :: "assessment_validation option"

record organization_result =
  ores_AssessmentID :: string
  ores_Outcomes :: "organization_outcome list"
  ores_Attempts :: "assessment_attempt list"
  ores_FailureCode :: string
  ores_AmbiguousComparisons :: "ambiguous_comparison list"
  ores_FreshnessRejection :: "freshness_rejection option"

record organization_receipt =
  orc_ID :: string
  orc_OperationKey :: string
  orc_InputHash :: string
  orc_BatchHash :: string
  orc_ProviderIdentity :: string
  orc_ContextHash :: string
  orc_Sources :: "source_dependency list"
  orc_Dependencies :: "revision_ref list"
  orc_Result :: organization_result

text \<open>The receipt's sources: a repeated key is \<open>ErrInvalid\<close>.\<close>

definition receipt_sources :: "externals \<Rightarrow> source_dependency list \<Rightarrow> onto_error option" where
  "receipt_sources X sources = check_distinct
     (\<lambda>s. or_error (ValidateSourceHandle X (sd_Source s))
            (if \<not> validFingerprint (sd_Fingerprint s) then Some ErrInvalid else None))
     ErrInvalid (\<lambda>s. SourceKey (sd_Source s)) [] sources"

definition same_source_version :: "source_dependency list \<Rightarrow> source_handle \<Rightarrow> bool" where
  "same_source_version sources h \<longleftrightarrow>
     (\<forall>s\<in>set sources. SourceKey (sd_Source s) = SourceKey h \<longrightarrow> sd_Source s = h)"

fun receipt_pairs ::
  "source_dependency list \<Rightarrow> string list \<Rightarrow> ambiguous_comparison list \<Rightarrow> onto_error option" where
  "receipt_pairs sources pairs [] = None"
| "receipt_pairs sources pairs (c # cs) =
     (let seen = map (\<lambda>s. SourceKey (sd_Source s)) sources;
          left = SourceKey (amb_Left c); right = SourceKey (amb_Right c);
          pair = left @ ''|'' @ right
      in if left \<notin> set seen \<or> right \<notin> set seen \<or> left \<ge> right \<or> length (amb_Reason c) > 512 \<or> pair \<in> set pairs
         then Some ErrInvalid
         else if \<not> same_source_version sources (amb_Left c) \<or> \<not> same_source_version sources (amb_Right c)
         then Some ErrInvalid
         else receipt_pairs sources (pair # pairs) cs)"

definition outcome_statuses :: "string list" where
  "outcome_statuses = [''organized'', ''unchanged'', ''ambiguous'', ''oversized'', ''unavailable'', ''failed'']"

text \<open>Every outcome removes its source from \<open>seen\<close>.\<close>

fun receipt_outcomes :: "externals \<Rightarrow> string list \<Rightarrow> organization_outcome list \<Rightarrow> onto_error option" where
  "receipt_outcomes X seen [] = None"
| "receipt_outcomes X seen (ou # ous) =
     (let key = SourceKey (out_Source ou)
      in if key \<notin> set seen then Some ErrInvalid
         else if out_Status ou \<notin> set outcome_statuses then Some ErrInvalid
         else if length (out_Reason ou) > 128 \<or> length (out_RecordIDs ou) > MaxChanges then Some ErrInvalid
         else if \<exists>i\<in>set (out_RecordIDs ou). \<not> validID X i then Some ErrInvalid
         else receipt_outcomes X (removeAll key seen) ous)"

fun receipt_attempts :: "int \<Rightarrow> assessment_attempt list \<Rightarrow> onto_error option" where
  "receipt_attempts i [] = None"
| "receipt_attempts i (a # as) =
     (if att_Number a \<noteq> i + 1 \<or> att_EstimatedInputTokens a < 0 \<or> att_EstimatedOutputTokens a < 0
         \<or> att_ReportedInputTokens a < 0 \<or> att_ReportedOutputTokens a < 0 \<or> att_ReportedTotalTokens a < 0
         \<or> length (att_FailureCode a) > 128 \<or> \<not> call_diagnostics_valid (att_Diagnostics a) then Some ErrInvalid
      else if \<not> assessment_validation_valid (att_Validation a)
         \<or> (att_Validation a \<noteq> None \<and> att_FailureCode a \<noteq> ''response_invalid'') then Some ErrInvalid
      else receipt_attempts (i + 1) as)"

definition ValidateOrganizationReceipt :: "externals \<Rightarrow> organization_receipt \<Rightarrow> onto_error option" where
  "ValidateOrganizationReceipt X rc =
     (let res = orc_Result rc
      in if \<not> freshness_rejection_valid X (ores_FreshnessRejection res)
            \<or> (ores_FreshnessRejection res \<noteq> None \<and> ores_FailureCode res \<noteq> ''stale_input'') then Some ErrInvalid
         else if \<not> validID X (orc_ID rc) \<or> ores_AssessmentID res \<noteq> orc_ID rc \<or> \<not> boundedText (orc_OperationKey rc) 128
            \<or> \<not> validFingerprint (orc_InputHash rc) \<or> \<not> validFingerprint (orc_BatchHash rc)
            \<or> \<not> validFingerprint (orc_ContextHash rc) \<or> \<not> boundedText (orc_ProviderIdentity rc) 128
            \<or> length (orc_Sources rc) < 1 \<or> length (orc_Sources rc) > MaxOrganizationSources
            \<or> length (orc_Dependencies rc) > MaxDependencyRecords
            \<or> length (ores_Outcomes res) \<noteq> length (orc_Sources rc) \<or> length (ores_Attempts res) > 3
            \<or> length (ores_AmbiguousComparisons res) > 190 then Some ErrInvalid
         else or_error (receipt_sources X (orc_Sources rc))
             (or_error (receipt_pairs (orc_Sources rc) [] (ores_AmbiguousComparisons res))
             (or_error (receipt_outcomes X (map (\<lambda>s. SourceKey (sd_Source s)) (orc_Sources rc)) (ores_Outcomes res))
             (or_error (receipt_attempts 0 (ores_Attempts res))
               (if \<exists>d\<in>set (orc_Dependencies rc). \<not> ref_valid X d then Some ErrInvalid else None)))))"

section \<open>Every source has exactly one outcome\<close>

lemma receipt_outcomes_keys:
  "receipt_outcomes X seen ous = None \<Longrightarrow>
    distinct (map (SourceKey \<circ> out_Source) ous) \<and> (SourceKey \<circ> out_Source) ` set ous \<subseteq> set seen"
proof (induction ous arbitrary: seen)
  case Nil
  then show ?case by simp
next
  case (Cons ou ous)
  then have r: "receipt_outcomes X (removeAll (SourceKey (out_Source ou)) seen) ous = None"
    "SourceKey (out_Source ou) \<in> set seen"
    by (auto simp: Let_def split: if_splits)
  from Cons.IH [OF r(1)] r(2) show ?case by auto
qed

lemma receipt_pairs_sound:
  "receipt_pairs sources pairs cs = None \<Longrightarrow>
    \<forall>c\<in>set cs. SourceKey (amb_Left c) < SourceKey (amb_Right c)
      \<and> amb_Left c \<in> sd_Source ` set sources \<and> amb_Right c \<in> sd_Source ` set sources"
proof (induction cs arbitrary: pairs)
  case Nil
  then show ?case by simp
next
  case (Cons c cs)
  have in_sources: "h \<in> sd_Source ` set sources"
    if "SourceKey h \<in> set (map (\<lambda>s. SourceKey (sd_Source s)) sources)" "same_source_version sources h" for h
    using that by (force simp: same_source_version_def)
  show ?case using Cons in_sources by (auto simp: Let_def split: if_splits)
qed

text \<open>(receipt_covers_sources): a receipt that validates reports exactly one outcome for every
  source it was issued for, no outcome for any other source, and compares only its own sources, each
  pair once and in key order.\<close>

theorem receipt_covers_sources:
  assumes "ValidateOrganizationReceipt X rc = None"
  shows "mset (map (SourceKey \<circ> out_Source) (ores_Outcomes (orc_Result rc)))
      = mset (map (\<lambda>s. SourceKey (sd_Source s)) (orc_Sources rc))
    \<and> distinct (map (\<lambda>s. SourceKey (sd_Source s)) (orc_Sources rc))
    \<and> (\<forall>c\<in>set (ores_AmbiguousComparisons (orc_Result rc)).
         SourceKey (amb_Left c) < SourceKey (amb_Right c)
         \<and> amb_Left c \<in> sd_Source ` set (orc_Sources rc) \<and> amb_Right c \<in> sd_Source ` set (orc_Sources rc))"
proof -
  let ?ks = "map (\<lambda>s. SourceKey (sd_Source s)) (orc_Sources rc)"
  let ?os = "map (SourceKey \<circ> out_Source) (ores_Outcomes (orc_Result rc))"
  have v: "receipt_sources X (orc_Sources rc) = None"
    "receipt_pairs (orc_Sources rc) [] (ores_AmbiguousComparisons (orc_Result rc)) = None"
    "receipt_outcomes X ?ks (ores_Outcomes (orc_Result rc)) = None"
    "length (ores_Outcomes (orc_Result rc)) = length (orc_Sources rc)"
    using assms by (auto simp: ValidateOrganizationReceipt_def Let_def split: if_splits)
  have d: "distinct ?ks" using v(1) by (simp add: receipt_sources_def check_distinct_None)
  have o: "distinct ?os" "set ?os \<subseteq> set ?ks" using receipt_outcomes_keys [OF v(3)] by auto
  have "card (set ?os) = card (set ?ks)"
    using distinct_card [OF o(1)] distinct_card [OF d] v(4) by simp
  then have "set ?os = set ?ks" using o(2) by (simp add: card_subset_eq)
  then have "mset ?os = mset ?ks" using o(1) d by (metis set_eq_iff_mset_eq_distinct)
  with d receipt_pairs_sound [OF v(2)] show ?thesis by blast
qed

definition sample_receipt :: organization_receipt where
  "sample_receipt = \<lparr>orc_ID = ''id-1'', orc_OperationKey = ''op'', orc_InputHash = sample_print,
     orc_BatchHash = sample_print, orc_ProviderIdentity = ''op'', orc_ContextHash = sample_print,
     orc_Sources = [\<lparr>sd_Source = sample_handle ''id-3'', sd_Fingerprint = sample_print\<rparr>],
     orc_Dependencies = [],
     orc_Result = \<lparr>ores_AssessmentID = ''id-1'',
       ores_Outcomes = [\<lparr>out_Source = sample_handle ''id-3'', out_Status = ''organized'', out_Reason = [],
                         out_RecordIDs = [''id-2'']\<rparr>],
       ores_Attempts = [], ores_FailureCode = [], ores_AmbiguousComparisons = [],
       ores_FreshnessRejection = None\<rparr>\<rparr>"

lemma sample_receipt_valid: "ValidateOrganizationReceipt sample_externals sample_receipt = None"
proof -
  have "boundedText ''op'' 128" by (rule boundedText_word; simp add: ascii_word_def byte_of_def)
  moreover have "receipt_sources sample_externals (orc_Sources sample_receipt) = None"
    unfolding receipt_sources_def check_distinct_None
    by (simp add: sample_receipt_def sample_print_valid sample_handle_ok)
  ultimately show ?thesis
    by (simp add: ValidateOrganizationReceipt_def sample_receipt_def freshness_rejection_valid_def
        sample_print_valid MaxOrganizationSources_def MaxDependencyRecords_def
        outcome_statuses_def MaxChanges_def Let_def)
qed

theorem receipt_covers_sources_witness:
  "mset (map (SourceKey \<circ> out_Source) (ores_Outcomes (orc_Result sample_receipt)))
     = {#SourceKey (sample_handle ''id-3'')#}"
  using receipt_covers_sources [OF sample_receipt_valid] by (simp add: sample_receipt_def)

end
