(* ===== verification/Onto_Maintenance.thy ===== *)
theory Onto_Maintenance
  imports Onto_Receipt Domain_Memory
begin

text \<open>
  Scheduling policy of ontology maintenance: windows, commands, outcomes and failure classes
  (\<open>ontology/contract/maintenance_policy.go\<close>, \<open>maintenance.go\<close>, \<open>maintenance_finalization.go\<close>,
  \<open>upgrade.go\<close>). The time zone database is a parameter.
\<close>

section \<open>Failures and outcomes\<close>

datatype maintenance_error = ErrMaintenancePaused | ErrMaintenanceDisabled | ErrWindowClosed
  | ErrConfiguration | ErrLeaseLost | ErrAccounting | ErrAuditUnavailable
  | DeadlineExceeded | Canceled | OtherError

text \<open>An error is the list of the errors it wraps; \<open>errors.Is\<close> is membership.\<close>

definition MaintenanceFailureCode :: "maintenance_error list \<Rightarrow> string" where
  "MaintenanceFailureCode err =
     (if ErrMaintenancePaused \<in> set err then ''maintenance_paused''
      else if ErrMaintenanceDisabled \<in> set err then ''maintenance_disabled''
      else if ErrWindowClosed \<in> set err then ''window_closed''
      else if ErrConfiguration \<in> set err then ''configuration_invalid''
      else if ErrLeaseLost \<in> set err then ''lease_lost''
      else if ErrAccounting \<in> set err then ''accounting_unavailable''
      else if ErrAuditUnavailable \<in> set err then ''audit_unavailable''
      else '''')"

definition MaintenanceOutcomeState :: "organization_outcome \<Rightarrow> organization_result \<Rightarrow> string \<Rightarrow> string" where
  "MaintenanceOutcomeState outcome result failure =
     (if failure \<in> {''maintenance_paused'', ''maintenance_disabled'', ''lease_lost'', ''window_closed'', ''configuration_invalid''}
      then ''pending''
      else if failure \<noteq> [] \<or> ores_FailureCode result \<noteq> [] then ''failed''
      else if \<exists>pair\<in>set (ores_AmbiguousComparisons result).
          SourceKey (amb_Left pair) = SourceKey (out_Source outcome)
          \<or> SourceKey (amb_Right pair) = SourceKey (out_Source outcome)
      then ''ambiguous''
      else if out_Status outcome \<in> {''organized'', ''unchanged''} then ''organized''
      else if out_Status outcome \<in> {''ambiguous'', ''oversized''} then ''ambiguous''
      else if out_Status outcome = ''unavailable'' then ''unavailable''
      else ''failed'')"

definition MaintenanceCompletion :: "bool \<Rightarrow> string \<Rightarrow> string \<times> string" where
  "MaintenanceCompletion unresolved failure = (if unresolved then (''incomplete'', failure) else (''completed'', []))"

text \<open>The SQLSTATE of the cause, when the cause has one: \<open>None\<close> is \<open>errors.As\<close> failing.\<close>

definition sql_char :: "char \<Rightarrow> bool" where
  "sql_char c \<longleftrightarrow> (CHR ''0'' \<le> c \<and> c \<le> CHR ''9'') \<or> (CHR ''A'' \<le> c \<and> c \<le> CHR ''Z'')"

definition SQLState :: "string option \<Rightarrow> string" where
  "SQLState state =
     (case state of
        None \<Rightarrow> []
      | Some code \<Rightarrow> if length code \<noteq> 5 \<or> (\<exists>c\<in>set code. \<not> sql_char c) then [] else code)"

definition FailureClass :: "maintenance_error list \<Rightarrow> string option \<Rightarrow> string" where
  "FailureClass cause state =
     (if DeadlineExceeded \<in> set cause then ''deadline_exceeded''
      else if Canceled \<in> set cause then ''canceled''
      else if ErrLeaseLost \<in> set cause then ''lease_lost''
      else if SQLState state \<noteq> [] then ''postgres''
      else ''internal_failure'')"

record upgrade_state =
  ups_Required :: bool
  ups_MigrationApplied :: bool
  ups_Paused :: bool
  ups_OwnsPause :: bool
  ups_LiveBatches :: int
  ups_LiveTeamLeases :: int
  ups_UnreconciledAttempts :: int
  ups_RecoveredBatches :: int
  ups_ClosedRuns :: int

definition Disposition :: "upgrade_state \<Rightarrow> string" where
  "Disposition s =
     (if \<not> ups_Required s then ''not_required''
      else if ups_UnreconciledAttempts s > 0 then ''blocked''
      else if ups_LiveBatches s > 0 \<or> ups_LiveTeamLeases s > 0 then ''waiting''
      else ''ready'')"

section \<open>Commands\<close>

definition MaxManualBatches :: int where "MaxManualBatches = 100"

record maintenance_command =
  mcmd_OperationKey :: string
  mcmd_Action :: string
  mcmd_MaxBatches :: int
  mcmd_RetryRunID :: string

definition PrepareMaintenanceCommand :: "externals \<Rightarrow> maintenance_command \<Rightarrow> onto_error + maintenance_command" where
  "PrepareMaintenanceCommand X input =
     (if \<not> boundedText (mcmd_OperationKey input) 128 then Inl ErrInvalid
      else if mcmd_Action input = ''run'' \<or> mcmd_Action input = ''retry''
      then (let input = (if mcmd_MaxBatches input = 0 then input\<lparr>mcmd_MaxBatches := 1\<rparr> else input)
            in if mcmd_MaxBatches input < 1 \<or> mcmd_MaxBatches input > MaxManualBatches then Inl ErrInvalid
               else if (mcmd_Action input = ''retry'') \<noteq> (mcmd_RetryRunID input \<noteq> [])
                 \<or> (mcmd_RetryRunID input \<noteq> [] \<and> \<not> validID X (mcmd_RetryRunID input)) then Inl ErrInvalid
               else Inr input)
      else if mcmd_Action input = ''pause'' \<or> mcmd_Action input = ''resume''
      then (if mcmd_MaxBatches input \<noteq> 0 \<or> mcmd_RetryRunID input \<noteq> [] then Inl ErrInvalid else Inr input)
      else Inl ErrInvalid)"

section \<open>Windows\<close>

text \<open>
  \<open>time.Parse("15:04", s)\<close> and formatting back to \<open>s\<close>: exactly two digits, a colon, two digits, in
  range.
\<close>

definition digit_value :: "char \<Rightarrow> nat" where
  "digit_value c = byte_of c - 48"

definition is_digit :: "char \<Rightarrow> bool" where
  "is_digit c \<longleftrightarrow> 48 \<le> byte_of c \<and> byte_of c \<le> 57"

fun parse_clock :: "string \<Rightarrow> (int \<times> int) option" where
  "parse_clock [a, b, c, d, e] =
     (let h = digit_value a * 10 + digit_value b; m = digit_value d * 10 + digit_value e
      in if is_digit a \<and> is_digit b \<and> c = CHR '':'' \<and> is_digit d \<and> is_digit e \<and> h < 24 \<and> m < 60
         then Some (int h, int m) else None)"
| "parse_clock s = None"

record maintenance_window =
  win_StartsAt :: time
  win_EndsAt :: time
  win_Policy :: maintenance_config

text \<open>
  \<open>date_in tz now day hour minute\<close> stands for \<open>time.Date(local.Year(), local.Month(), local.Day()+day,
  hour, minute, 0, 0, location).UTC()\<close> where \<open>local\<close> is \<open>now\<close> in the location.
\<close>

definition window_slots :: "(int \<Rightarrow> int \<Rightarrow> int \<Rightarrow> time) \<Rightarrow> int \<Rightarrow> int \<times> int \<Rightarrow> time list" where
  "window_slots date cadence clock =
     sort (concat (map (\<lambda>day. map (\<lambda>hour. date day (fst clock + hour) (snd clock))
       (if cadence = 12 then [0, 12] else [0])) [- 2, - 1, 0, 1, 2]))"

definition last_slot :: "(time \<Rightarrow> bool) \<Rightarrow> time list \<Rightarrow> time" where
  "last_slot P slots = foldl (\<lambda>start slot. if P slot then slot else start) 0 slots"

definition first_after :: "time \<Rightarrow> time list \<Rightarrow> time" where
  "first_after start slots = (case filter (\<lambda>slot. slot > start) slots of [] \<Rightarrow> 0 | slot # _ \<Rightarrow> slot)"

definition MaintenanceWindowBounds ::
  "(string \<Rightarrow> bool) \<Rightarrow> (string \<Rightarrow> time \<Rightarrow> int \<Rightarrow> int \<Rightarrow> int \<Rightarrow> time) \<Rightarrow> maintenance_config \<Rightarrow> time
     \<Rightarrow> maintenance_window option \<Rightarrow> onto_error + time \<times> time" where
  "MaintenanceWindowBounds location_known date_in policy now previous =
     (if (omc_CadenceHours policy \<noteq> 12 \<and> omc_CadenceHours policy \<noteq> 24)
         \<or> omc_MaxConcurrency policy < 1 \<or> omc_MaxConcurrency policy > 8 then Inl ErrInvalid
      else case parse_clock (omc_StartTimeLocal policy) of
        None \<Rightarrow> Inl ErrInvalid
      | Some clock \<Rightarrow>
          if \<not> location_known (omc_Timezone policy) then Inl ErrInvalid
          else let retiring = (case previous of None \<Rightarrow> False
                               | Some w \<Rightarrow> omc_ContextWindowTokens (win_Policy w) = 0);
                   bound = (\<lambda>slot. case previous of None \<Rightarrow> True | Some w \<Rightarrow> retiring \<or> slot \<ge> win_EndsAt w);
                   slots = window_slots (date_in (omc_Timezone policy) now) (omc_CadenceHours policy) clock;
                   start = last_slot (\<lambda>slot. slot \<le> now \<and> bound slot) slots;
                   finish = first_after start slots
               in if retiring \<and> (case previous of None \<Rightarrow> False | Some w \<Rightarrow> now < win_EndsAt w)
                  then Inr (now, (case previous of None \<Rightarrow> 0 | Some w \<Rightarrow> win_EndsAt w))
                  else if start = 0 then Inr (0, 0)
                  else if finish = 0 then Inl ErrInvalid
                  else Inr (if retiring then now else start, finish))"

section \<open>Properties\<close>

text \<open>(maintenance_command_normal_form): a prepared command prepares to itself, a run or a retry has
  between 1 and 100 batches, exactly a retry names the run to retry, and pause and resume carry
  neither.\<close>

theorem maintenance_command_normal_form:
  assumes "PrepareMaintenanceCommand X input = Inr cmd"
  shows "PrepareMaintenanceCommand X cmd = Inr cmd
    \<and> mcmd_Action cmd = mcmd_Action input \<and> mcmd_OperationKey cmd = mcmd_OperationKey input
    \<and> mcmd_Action cmd \<in> {''run'', ''retry'', ''pause'', ''resume''}
    \<and> (mcmd_MaxBatches cmd \<in> {1..100}) = (mcmd_Action cmd \<in> {''run'', ''retry''})
    \<and> (mcmd_RetryRunID cmd \<noteq> []) = (mcmd_Action cmd = ''retry'')
    \<and> (mcmd_RetryRunID cmd = [] \<or> validID X (mcmd_RetryRunID cmd))"
proof (cases "mcmd_Action input = ''run'' \<or> mcmd_Action input = ''retry''")
  case True
  then show ?thesis
    using assms by (auto simp: PrepareMaintenanceCommand_def MaxManualBatches_def Let_def split: if_splits)
next
  case False
  then show ?thesis
    using assms by (auto simp: PrepareMaintenanceCommand_def split: if_splits)
qed

theorem maintenance_command_normal_form_witness:
  "PrepareMaintenanceCommand sample_externals
     \<lparr>mcmd_OperationKey = ''op'', mcmd_Action = ''run'', mcmd_MaxBatches = 1, mcmd_RetryRunID = []\<rparr>
   = Inr \<lparr>mcmd_OperationKey = ''op'', mcmd_Action = ''run'', mcmd_MaxBatches = 1, mcmd_RetryRunID = []\<rparr>"
proof -
  have "boundedText ''op'' 128" by (rule boundedText_word; simp add: ascii_word_def byte_of_def)
  then have "PrepareMaintenanceCommand sample_externals
     \<lparr>mcmd_OperationKey = ''op'', mcmd_Action = ''run'', mcmd_MaxBatches = 0, mcmd_RetryRunID = []\<rparr>
   = Inr \<lparr>mcmd_OperationKey = ''op'', mcmd_Action = ''run'', mcmd_MaxBatches = 1, mcmd_RetryRunID = []\<rparr>"
    by (simp add: PrepareMaintenanceCommand_def MaxManualBatches_def Let_def)
  from maintenance_command_normal_form [OF this] show ?thesis by blast
qed

lemma last_slot_from:
  "foldl (\<lambda>s x. if P x then x else s) z slots =
     (case filter P slots of [] \<Rightarrow> z | _ \<Rightarrow> last (filter P slots))"
  by (induction slots arbitrary: z) (auto split: list.splits)

lemma last_slot_sorted:
  assumes "sorted slots" and "last_slot P slots \<noteq> 0"
  shows "last_slot P slots \<in> set slots \<and> P (last_slot P slots)
    \<and> (\<forall>x\<in>set slots. P x \<longrightarrow> x \<le> last_slot P slots)"
proof -
  have ne: "filter P slots \<noteq> []" and eq: "last_slot P slots = last (filter P slots)"
    using assms(2) by (auto simp: last_slot_def last_slot_from split: list.splits)
  have mem: "last (filter P slots) \<in> set (filter P slots)" using ne by (rule last_in_set)
  have "sorted (filter P slots)" using sorted_filter [of "\<lambda>x. x" slots P] assms(1) by simp
  then have "sorted (butlast (filter P slots) @ [last (filter P slots)])" using ne by simp
  then have "\<forall>x\<in>set (butlast (filter P slots)). x \<le> last (filter P slots)" by (simp only: sorted_append) simp
  moreover have "set (filter P slots) = set (butlast (filter P slots)) \<union> {last (filter P slots)}"
    using ne by (metis append_butlast_last_id list.simps(15) set_append empty_set)
  ultimately have "\<forall>x\<in>set (filter P slots). x \<le> last (filter P slots)" by blast
  with mem eq show ?thesis by auto
qed

lemma first_after_sound:
  assumes "first_after start slots \<noteq> 0"
  shows "start < first_after start slots \<and> first_after start slots \<in> set slots"
proof -
  obtain x xs where x: "filter (\<lambda>slot. slot > start) slots = x # xs"
    using assms by (auto simp: first_after_def split: list.splits)
  have "x \<in> set (filter (\<lambda>slot. slot > start) slots)" by (simp only: x list.set_intros)
  then have "start < x" "x \<in> set slots" by simp_all
  moreover have "first_after start slots = x" by (simp add: first_after_def x)
  ultimately show ?thesis by simp
qed

lemma MaintenanceWindowBounds_open:
  fixes policy now previous clock
  defines "retiring \<equiv> (case previous of None \<Rightarrow> False | Some w \<Rightarrow> omc_ContextWindowTokens (win_Policy w) = 0)"
  defines "bound \<equiv> (\<lambda>slot. case previous of None \<Rightarrow> True | Some w \<Rightarrow> retiring \<or> slot \<ge> win_EndsAt w)"
  assumes "MaintenanceWindowBounds location_known date_in policy now previous = Inr result"
    and "parse_clock (omc_StartTimeLocal policy) = Some clock"
    and "\<not> (retiring \<and> (case previous of None \<Rightarrow> False | Some w \<Rightarrow> now < win_EndsAt w))"
  defines "slots \<equiv> window_slots (date_in (omc_Timezone policy) now) (omc_CadenceHours policy) clock"
  defines "s \<equiv> last_slot (\<lambda>slot. slot \<le> now \<and> bound slot) slots"
  shows "(if s = 0 then Inr (0, 0)
          else if first_after s slots = 0 then Inl ErrInvalid
          else Inr (if retiring then now else s, first_after s slots)) = (Inr result :: onto_error + time \<times> time)"
proof -
  have policy: "\<not> ((omc_CadenceHours policy \<noteq> 12 \<and> omc_CadenceHours policy \<noteq> 24)
      \<or> omc_MaxConcurrency policy < 1 \<or> omc_MaxConcurrency policy > 8)"
    using assms(3) unfolding MaintenanceWindowBounds_def by (meson sum.distinct(1))
  have location: "\<not> \<not> location_known (omc_Timezone policy)"
    using assms(3) unfolding MaintenanceWindowBounds_def if_not_P [OF policy] assms(4) option.case
    by (meson sum.distinct(1))
  show ?thesis
    using assms(3) unfolding MaintenanceWindowBounds_def if_not_P [OF policy] assms(4) option.case
      if_not_P [OF location] Let_def if_not_P [OF assms(5) [unfolded retiring_def]]
      retiring_def bound_def slots_def s_def .
qed

text \<open>(maintenance_window_contains_now): a maintenance window that is opened contains the current
  instant, and it starts no earlier than the previous window ended, unless that window is being
  retired, in which case it continues from now; this holds for every time zone and every shift of
  local time.\<close>

theorem maintenance_window_contains_now:
  assumes "MaintenanceWindowBounds location_known date_in policy now previous = Inr (start, finish)"
    and "(start, finish) \<noteq> (0, 0)"
  shows "start \<le> now \<and> now < finish
    \<and> (\<forall>w. previous = Some w \<longrightarrow> omc_ContextWindowTokens (win_Policy w) \<noteq> 0 \<longrightarrow> win_EndsAt w \<le> start)
    \<and> (\<forall>w. previous = Some w \<longrightarrow> omc_ContextWindowTokens (win_Policy w) = 0 \<longrightarrow> start = now)"
proof -
  define retiring where "retiring = (case previous of None \<Rightarrow> False
    | Some w \<Rightarrow> omc_ContextWindowTokens (win_Policy w) = 0)"
  define bound where "bound = (\<lambda>slot. case previous of None \<Rightarrow> True | Some w \<Rightarrow> retiring \<or> slot \<ge> win_EndsAt w)"
  show ?thesis
  proof (cases "retiring \<and> (case previous of None \<Rightarrow> False | Some w \<Rightarrow> now < win_EndsAt w)")
    case True
    then obtain w where w: "previous = Some w" "now < win_EndsAt w" "omc_ContextWindowTokens (win_Policy w) = 0"
      by (auto simp: retiring_def split: option.splits)
    then have "start = now \<and> finish = win_EndsAt w"
      using assms(1) by (auto simp: MaintenanceWindowBounds_def Let_def split: option.splits if_splits)
    with w show ?thesis by simp
  next
    case False
    obtain clock where clock: "parse_clock (omc_StartTimeLocal policy) = Some clock"
      using assms(1) by (auto simp: MaintenanceWindowBounds_def split: option.splits if_splits)
    define slots where "slots = window_slots (date_in (omc_Timezone policy) now) (omc_CadenceHours policy) clock"
    define s where "s = last_slot (\<lambda>slot. slot \<le> now \<and> bound slot) slots"
    have "(if s = 0 then Inr (0, 0)
          else if first_after s slots = 0 then Inl ErrInvalid
          else Inr (if retiring then now else s, first_after s slots)) = (Inr (start, finish) :: onto_error + time \<times> time)"
      using MaintenanceWindowBounds_open [OF assms(1) clock False [unfolded retiring_def]]
      unfolding s_def slots_def bound_def retiring_def .
    with assms(2) have r: "s \<noteq> 0" "first_after s slots \<noteq> 0" "start = (if retiring then now else s)" "finish = first_after s slots"
      by (metis sum.distinct(1) sum.inject(2) prod.inject)+
    have "sorted slots" by (simp add: slots_def window_slots_def)
    then have s: "s \<le> now" "bound s" "\<forall>x\<in>set slots. x \<le> now \<and> bound x \<longrightarrow> x \<le> s"
      using last_slot_sorted [of slots "\<lambda>slot. slot \<le> now \<and> bound slot"] r(1) by (auto simp: s_def)
    have f: "s < finish" "finish \<in> set slots" using first_after_sound r(2,4) by auto
    have "bound finish"
      using s(2) f(1) by (auto simp: bound_def split: option.splits)
    then have "now < finish" using s(3) f by force
    moreover have "win_EndsAt w \<le> start \<and> start = s"
      if "previous = Some w" "omc_ContextWindowTokens (win_Policy w) \<noteq> 0" for w
      using that s(2) r(3) by (simp add: bound_def retiring_def)
    moreover have "start = now" if "previous = Some w" "omc_ContextWindowTokens (win_Policy w) = 0" for w
      using that r(3) by (simp add: retiring_def)
    ultimately show ?thesis using r(3) s(1) by auto
  qed
qed

theorem maintenance_window_contains_now_witness:
  "\<exists>policy start finish. MaintenanceWindowBounds (\<lambda>tz. tz = ''UTC'')
       (\<lambda>tz now d h m. 1000000 + d * 86400 + h * 3600 + m * 60) policy 1000500 None = Inr (start, finish)
     \<and> start \<le> 1000500 \<and> 1000500 < finish"
proof -
  define policy where "policy = \<lparr>omc_Enabled = True, omc_CadenceHours = 24, omc_StartTimeLocal = ''00:00'',
    omc_Timezone = ''UTC'', omc_Model = [], omc_MaxConcurrency = 1, omc_TeamMaxConcurrency = 0,
    omc_TeamConcurrencyOverrides = [], omc_ContextWindowTokens = 8000,
    omc_SettingsVersion = []\<rparr>"
  have clock: "parse_clock ''00:00'' = Some (0, 0)"
  proof -
    have "byte_of CHR ''0'' = 48" by (simp add: byte_of_def)
    then have "is_digit CHR ''0''" and "digit_value CHR ''0'' = 0"
      by (simp_all only: is_digit_def digit_value_def) simp_all
    then show ?thesis by simp
  qed
  have "MaintenanceWindowBounds (\<lambda>tz. tz = ''UTC'')
       (\<lambda>tz now d h m. 1000000 + d * 86400 + h * 3600 + m * 60) policy 1000500 None = Inr (1000000, 1086400)"
    by (simp add: MaintenanceWindowBounds_def policy_def clock window_slots_def last_slot_def first_after_def
        Let_def del: parse_clock.simps)
  moreover from maintenance_window_contains_now [OF this]
  have "(1000000 :: int) \<le> 1000500 \<and> (1000500 :: int) < 1086400" by simp
  ultimately show ?thesis by blast
qed

end
