(* ===== verification/Recall_Fusion.thy ===== *)
theory Recall_Fusion
  imports Domain_Memory Complex_Main
begin

text \<open>
  Candidate fusion of recall (\<open>recall/retrieval.go\<close>): the hits of the text, vector and expansion
  searches are merged by reciprocal rank, ontology hits join without a score, and the candidates are
  sorted. Scores are \<open>float64\<close>: an operation is the exact operation on reals followed by \<open>rnd\<close>, the
  rounding of IEEE 754 to the nearest double. All operands are finite and far from overflow, so no
  operation yields a NaN or an infinity. \<open>rnd\<close> stays a parameter and every theorem holds for any
  rounding.
\<close>

section \<open>Hits and candidates\<close>

record search_hit =
  hit_TeamID :: string
  hit_SearchDocumentID :: string
  hit_SourceKind :: string
  hit_SourceID :: string
  hit_SourceVersion :: int
  hit_DocumentVersion :: int
  hit_EmbeddingContractID :: string
  hit_SearchState :: string
  hit_Distance :: real
  hit_TextRank :: real

record recall_batch =
  rcb_TextHits :: "search_hit list"
  rcb_VectorHits :: "search_hit list"
  rcb_ExpansionHits :: "search_hit list"
  rcb_OntologyHits :: "search_hit list"
  rcb_SearchState :: string
  rcb_OrganizationDegradation :: string

record recall_candidate =
  rc_ID :: string
  rc_Score :: real
  rc_BestBranchRank :: int
  rc_SearchState :: string

definition recallRRFConstant :: real where "recallRRFConstant = 60"
definition recallOverfetchMultiple :: int where "recallOverfetchMultiple = 6"
definition recallOverfetchFloor :: int where "recallOverfetchFloor = 60"
definition MaxRecallCandidateCount :: int where "MaxRecallCandidateCount = 200"

text \<open>\<open>branch.weight / (recallRRFConstant + float64(rank))\<close>\<close>

definition rrf_term :: "(real \<Rightarrow> real) \<Rightarrow> real \<Rightarrow> int \<Rightarrow> real" where
  "rrf_term rnd weight rank = rnd (weight / rnd (recallRRFConstant + rnd (of_int rank)))"

section \<open>Fusion\<close>

text \<open>The update of a candidate by one hit at a rank of a branch with a weight.\<close>

definition score_candidate :: "(real \<Rightarrow> real) \<Rightarrow> recall_candidate \<Rightarrow> real \<times> int \<times> string \<Rightarrow> recall_candidate" where
  "score_candidate rnd c occ = (case occ of (weight, rank, state) \<Rightarrow>
     (let c = c\<lparr>rc_Score := rnd (rc_Score c + rrf_term rnd weight rank)\<rparr>;
          c = (if rank < rc_BestBranchRank c then c\<lparr>rc_BestBranchRank := rank\<rparr> else c)
      in c\<lparr>rc_SearchState := CombineSearchProjectionStates (rc_SearchState c) state\<rparr>))"

definition fresh_candidate :: "string \<Rightarrow> real \<times> int \<times> string \<Rightarrow> recall_candidate" where
  "fresh_candidate sid occ = (case occ of (weight, rank, state) \<Rightarrow>
     \<lparr>rc_ID = sid, rc_Score = 0, rc_BestBranchRank = rank, rc_SearchState = state\<rparr>)"

definition relevant_hit :: "string \<Rightarrow> string list \<Rightarrow> search_hit \<Rightarrow> bool" where
  "relevant_hit kind known hit \<longleftrightarrow>
     \<not> (hit_SourceKind hit \<noteq> kind \<or> hit_SourceID hit = []) \<and> hit_SourceID hit \<notin> set known"

text \<open>
  The candidate map is an association list in the order of insertion. One step of the loop over the
  hits of a branch:
\<close>

definition fuse_hit :: "(real \<Rightarrow> real) \<Rightarrow> string \<Rightarrow> string list \<Rightarrow> (string \<times> recall_candidate) list
    \<Rightarrow> search_hit \<times> real \<times> int \<Rightarrow> (string \<times> recall_candidate) list" where
  "fuse_hit rnd kind known candidates x = (case x of (hit, weight, rank) \<Rightarrow>
     if \<not> relevant_hit kind known hit then candidates
     else let occ = (weight, rank, hit_SearchState hit);
              candidate = (case map_of candidates (hit_SourceID hit) of
                             None \<Rightarrow> fresh_candidate (hit_SourceID hit) occ
                           | Some c \<Rightarrow> c)
          in AList.update (hit_SourceID hit) (score_candidate rnd candidate occ) candidates)"

definition ranked_hits :: "search_hit list \<Rightarrow> real \<Rightarrow> (search_hit \<times> real \<times> int) list" where
  "ranked_hits hits weight = map (\<lambda>(index, hit). (hit, weight, int index + 1)) (enumerate 0 hits)"

definition branch_hits :: "recall_batch \<Rightarrow> (search_hit \<times> real \<times> int) list" where
  "branch_hits batch = concat (map (\<lambda>(hits, weight). ranked_hits hits weight)
     [(rcb_TextHits batch, 1), (rcb_VectorHits batch, 1), (rcb_ExpansionHits batch, 1 / 2)])"

definition ontology_hit :: "string \<Rightarrow> string list \<Rightarrow> (string \<times> recall_candidate) list \<Rightarrow> search_hit
    \<Rightarrow> (string \<times> recall_candidate) list" where
  "ontology_hit kind known candidates hit =
     (if \<not> relevant_hit kind known hit then candidates
      else case map_of candidates (hit_SourceID hit) of
        Some _ \<Rightarrow> candidates
      | None \<Rightarrow> AList.update (hit_SourceID hit)
          \<lparr>rc_ID = hit_SourceID hit, rc_Score = 0, rc_BestBranchRank = 0, rc_SearchState = hit_SearchState hit\<rparr>
          candidates)"

definition candidate_less :: "string \<Rightarrow> recall_candidate \<Rightarrow> recall_candidate \<Rightarrow> bool" where
  "candidate_less kind x y =
     (if rc_Score x \<noteq> rc_Score y then rc_Score x > rc_Score y
      else if kind = ''relationship'' \<and> rc_BestBranchRank x \<noteq> rc_BestBranchRank y
      then rc_BestBranchRank x < rc_BestBranchRank y
      else rc_ID x < rc_ID y)"

definition sortRecallCandidates :: "string \<Rightarrow> recall_candidate list \<Rightarrow> recall_candidate list" where
  "sortRecallCandidates kind result = go_sort (candidate_less kind) result"

definition candidate_map :: "(real \<Rightarrow> real) \<Rightarrow> recall_batch \<Rightarrow> string \<Rightarrow> string list
    \<Rightarrow> (string \<times> recall_candidate) list" where
  "candidate_map rnd batch kind known =
     foldl (ontology_hit kind known) (foldl (fuse_hit rnd kind known) [] (branch_hits batch))
       (rcb_OntologyHits batch)"

definition fuseRecallCandidates :: "(real \<Rightarrow> real) \<Rightarrow> recall_batch \<Rightarrow> string \<Rightarrow> string list
    \<Rightarrow> recall_candidate list" where
  "fuseRecallCandidates rnd batch kind known =
     sortRecallCandidates kind (map snd (candidate_map rnd batch kind known))"

definition recallCandidateIDs :: "recall_candidate list \<Rightarrow> string list" where
  "recallCandidateIDs candidates = map rc_ID candidates"

definition recallOverfetchLimit :: "int \<Rightarrow> int" where
  "recallOverfetchLimit limit =
     (let overfetch = wrap64 (limit * recallOverfetchMultiple);
          overfetch = (if overfetch < recallOverfetchFloor then recallOverfetchFloor else overfetch)
      in if overfetch > MaxRecallCandidateCount then MaxRecallCandidateCount else overfetch)"

section \<open>The reference: one candidate at a time\<close>

text \<open>
  The occurrences of a source in the three scored branches, in the order of the branches and, within
  a branch, of the ranks.
\<close>

definition occurrences :: "recall_batch \<Rightarrow> string \<Rightarrow> string list \<Rightarrow> string \<Rightarrow> (real \<times> int \<times> string) list" where
  "occurrences batch kind known sid =
     map (\<lambda>(hit, weight, rank). (weight, rank, hit_SearchState hit))
       (filter (\<lambda>(hit, _). relevant_hit kind known hit \<and> hit_SourceID hit = sid) (branch_hits batch))"

definition fused_score :: "(real \<Rightarrow> real) \<Rightarrow> (real \<times> int \<times> string) list \<Rightarrow> real" where
  "fused_score rnd occs = foldl (\<lambda>s (weight, rank, _). rnd (s + rrf_term rnd weight rank)) 0 occs"

definition best_rank :: "(real \<times> int \<times> string) list \<Rightarrow> int" where
  "best_rank occs = (case occs of [] \<Rightarrow> 0 | _ \<Rightarrow> Min ((\<lambda>(_, rank, _). rank) ` set occs))"

definition found :: "recall_batch \<Rightarrow> string \<Rightarrow> string list \<Rightarrow> string set" where
  "found batch kind known = hit_SourceID ` {hit \<in> set (rcb_TextHits batch @ rcb_VectorHits batch
     @ rcb_ExpansionHits batch @ rcb_OntologyHits batch). relevant_hit kind known hit}"

definition candidate_of :: "(real \<Rightarrow> real) \<Rightarrow> string \<Rightarrow> (real \<times> int \<times> string) list \<Rightarrow> recall_candidate" where
  "candidate_of rnd sid occs = foldl (score_candidate rnd) (fresh_candidate sid (hd occs)) occs"

lemma score_candidate_fields [simp]:
  "rc_ID (score_candidate rnd c occ) = rc_ID c"
  "rc_Score (score_candidate rnd c (w, r, s)) = rnd (rc_Score c + rrf_term rnd w r)"
  "rc_BestBranchRank (score_candidate rnd c (w, r, s)) = min (rc_BestBranchRank c) r"
  "rc_SearchState (score_candidate rnd c (w, r, s)) = CombineSearchProjectionStates (rc_SearchState c) s"
  by (cases occ; simp add: score_candidate_def Let_def min_def)+

lemma foldl_score_fields:
  "rc_ID (foldl (score_candidate rnd) c occs) = rc_ID c"
  "rc_Score (foldl (score_candidate rnd) c occs)
     = foldl (\<lambda>s (w, r, _). rnd (s + rrf_term rnd w r)) (rc_Score c) occs"
  "rc_BestBranchRank (foldl (score_candidate rnd) c occs)
     = Min (insert (rc_BestBranchRank c) ((\<lambda>(_, r, _). r) ` set occs))"
proof (induction occs arbitrary: c)
  case (Cons occ occs)
  obtain w r s where occ: "occ = (w, r, s)" by (cases occ)
  { case 1 then show ?case using Cons.IH(1) by simp }
  { case 2 then show ?case using Cons.IH(2) by (simp add: occ) }
  { case 3
    have "Min (insert (rc_BestBranchRank c) (insert r A)) = Min (insert (min (rc_BestBranchRank c) r) A)"
      if "finite A" for A
      using that by (cases "A = {}") (auto simp: Min_insert min.assoc)
    then show ?case using Cons.IH(3) by (simp add: occ) }
qed simp_all

lemma candidate_of_fields:
  assumes "occs \<noteq> []"
  shows "rc_ID (candidate_of rnd sid occs) = sid" "rc_Score (candidate_of rnd sid occs) = fused_score rnd occs"
    "rc_BestBranchRank (candidate_of rnd sid occs) = best_rank occs"
proof -
  obtain w r s os where occs: "occs = (w, r, s) # os" using assms by (cases occs) auto
  show "rc_ID (candidate_of rnd sid occs) = sid" "rc_Score (candidate_of rnd sid occs) = fused_score rnd occs"
    by (simp_all add: candidate_of_def foldl_score_fields fresh_candidate_def occs fused_score_def)
  have "insert r ((\<lambda>(_, r, _). r) ` set occs) = (\<lambda>(_, r, _). r) ` set occs" by (force simp: occs)
  then show "rc_BestBranchRank (candidate_of rnd sid occs) = best_rank occs"
    by (simp add: candidate_of_def foldl_score_fields fresh_candidate_def occs best_rank_def)
qed

lemma candidate_of_snoc:
  "candidate_of rnd sid (occs @ [occ]) =
     score_candidate rnd (case occs of [] \<Rightarrow> fresh_candidate sid occ | _ \<Rightarrow> candidate_of rnd sid occs) occ"
  by (cases occs) (simp_all add: candidate_of_def)

text \<open>The map after the scored branches holds, for each source found, its reference candidate.\<close>

definition occs_in :: "(search_hit \<times> real \<times> int) list \<Rightarrow> string \<Rightarrow> string list \<Rightarrow> string \<Rightarrow> (real \<times> int \<times> string) list" where
  "occs_in L kind known sid = map (\<lambda>(hit, weight, rank). (weight, rank, hit_SearchState hit))
     (filter (\<lambda>(hit, _). relevant_hit kind known hit \<and> hit_SourceID hit = sid) L)"

lemma fuse_hits_map:
  "map_of (foldl (fuse_hit rnd kind known) [] L) sid =
     (if occs_in L kind known sid = [] then None else Some (candidate_of rnd sid (occs_in L kind known sid)))"
proof (induction L rule: rev_induct)
  case Nil
  then show ?case by (simp add: occs_in_def)
next
  case (snoc x L)
  obtain hit w r where x: "x = (hit, w, r)" by (cases x)
  show ?case
  proof (cases "relevant_hit kind known hit \<and> hit_SourceID hit = sid")
    case True
    then have "occs_in (L @ [x]) kind known sid = occs_in L kind known sid @ [(w, r, hit_SearchState hit)]"
      by (simp add: occs_in_def x)
    then show ?thesis
      using True snoc by (auto simp: x fuse_hit_def Let_def candidate_of_snoc split: list.splits)
  next
    case False
    then have "occs_in (L @ [x]) kind known sid = occs_in L kind known sid"
      by (simp add: occs_in_def x)
    then show ?thesis using False snoc by (auto simp: x fuse_hit_def Let_def)
  qed
qed

lemma fuse_hits_distinct: "distinct (map fst (foldl (fuse_hit rnd kind known) [] L))"
  by (induction L rule: rev_induct) (auto simp: fuse_hit_def Let_def split: prod.splits)

lemma ontology_hits_map:
  "map_of (foldl (ontology_hit kind known) m hits) sid =
     (case map_of m sid of
        Some c \<Rightarrow> Some c
      | None \<Rightarrow> map_option (\<lambda>hit. \<lparr>rc_ID = sid, rc_Score = 0, rc_BestBranchRank = 0, rc_SearchState = hit_SearchState hit\<rparr>)
          (find (\<lambda>hit. relevant_hit kind known hit \<and> hit_SourceID hit = sid) hits))"
  by (induction hits arbitrary: m) (auto simp: ontology_hit_def split: option.splits)

lemma ontology_hits_distinct:
  "distinct (map fst m) \<Longrightarrow> distinct (map fst (foldl (ontology_hit kind known) m hits))"
  by (induction hits arbitrary: m) (auto simp: ontology_hit_def split: option.splits)

lemma occurrences_occs_in: "occurrences batch kind known sid = occs_in (branch_hits batch) kind known sid"
  by (simp add: occurrences_def occs_in_def)

lemma set_ranked_hits: "fst ` set (ranked_hits hits w) = set hits"
proof -
  have "fst ` set (ranked_hits hits w) = snd ` set (enumerate 0 hits)"
    by (force simp: ranked_hits_def)
  then show ?thesis by (metis map_snd_enumerate set_map)
qed

lemma set_branch_hits:
  "fst ` set (branch_hits batch) = set (rcb_TextHits batch @ rcb_VectorHits batch @ rcb_ExpansionHits batch)"
  by (simp add: branch_hits_def image_Un set_ranked_hits Un_assoc)

lemma occurrences_empty:
  "occurrences batch kind known sid = [] \<longleftrightarrow>
     (\<forall>hit\<in>set (rcb_TextHits batch @ rcb_VectorHits batch @ rcb_ExpansionHits batch).
        \<not> (relevant_hit kind known hit \<and> hit_SourceID hit = sid))"
proof -
  have "occurrences batch kind known sid = [] \<longleftrightarrow>
      (\<forall>hit\<in>fst ` set (branch_hits batch). \<not> (relevant_hit kind known hit \<and> hit_SourceID hit = sid))"
    by (auto simp: occurrences_def filter_empty_conv)
  then show ?thesis by (simp only: set_branch_hits)
qed

lemma candidate_map_lookup:
  assumes "map_of (candidate_map rnd batch kind known) sid = Some c"
  shows "rc_ID c = sid" and "rc_Score c = fused_score rnd (occurrences batch kind known sid)"
    and "rc_BestBranchRank c = best_rank (occurrences batch kind known sid)"
  using assms candidate_of_fields [of "occurrences batch kind known sid" rnd sid]
  by (auto simp: candidate_map_def ontology_hits_map fuse_hits_map occurrences_occs_in fused_score_def
      best_rank_def split: option.splits if_splits)

lemma candidate_map_dom: "dom (map_of (candidate_map rnd batch kind known)) = found batch kind known"
proof -
  have "map_of (candidate_map rnd batch kind known) sid \<noteq> None \<longleftrightarrow> sid \<in> found batch kind known" for sid
  proof -
    have "map_of (candidate_map rnd batch kind known) sid = None \<longleftrightarrow>
        occurrences batch kind known sid = []
        \<and> find (\<lambda>hit. relevant_hit kind known hit \<and> hit_SourceID hit = sid) (rcb_OntologyHits batch) = None"
      by (auto simp: candidate_map_def ontology_hits_map fuse_hits_map occurrences_occs_in split: option.splits)
    also have "\<dots> \<longleftrightarrow> sid \<notin> found batch kind known"
      by (auto simp: occurrences_empty find_None_iff found_def)
    finally show ?thesis by simp
  qed
  then show ?thesis by (auto simp: dom_def)
qed

lemma candidate_map_distinct: "distinct (map fst (candidate_map rnd batch kind known))"
  by (simp add: candidate_map_def ontology_hits_distinct fuse_hits_distinct)

lemma candidate_map_ids: "map rc_ID (map snd (candidate_map rnd batch kind known)) = map fst (candidate_map rnd batch kind known)"
  using candidate_map_lookup(1) candidate_map_distinct by (fastforce intro: map_of_is_SomeI)

interpretation candidate_order: weak_order "candidate_less kind" for kind
  by (rule weak_order_key [where key = "\<lambda>c. (- rc_Score c, if kind = ''relationship'' then rc_BestBranchRank c else 0, rc_ID c)"])
    (auto simp: candidate_less_def)

text \<open>Candidates with different ids are never equivalent, so any list of them has one sorted form.\<close>

lemma candidate_total:
  assumes "distinct (map rc_ID xs)"
  shows "total_order (candidate_less kind) (\<lambda>c. c \<in> set xs)"
proof -
  have "total_order_axioms (candidate_less kind) (\<lambda>c. c \<in> set xs)"
  proof
    fix x y assume "x \<in> set xs" "y \<in> set xs" "\<not> candidate_less kind x y" "\<not> candidate_less kind y x"
    moreover from this(3,4) have "rc_ID x = rc_ID y" by (auto simp: candidate_less_def split: if_splits)
    ultimately show "x = y" using assms by (auto simp: distinct_map inj_on_def)
  qed
  then show ?thesis by (rule total_order.intro [OF candidate_order.weak_order_axioms])
qed

lemma sort_candidates_unique:
  assumes "distinct (map rc_ID xs)" and "mset xs = mset ys"
  shows "sortRecallCandidates kind xs = sortRecallCandidates kind ys"
  using total_order.go_sort_perm [OF candidate_total [OF assms(1)] assms(2)] by (simp add: sortRecallCandidates_def)

section \<open>Properties of fusion\<close>

text \<open>
  C28 (recall_fusion_reference): fusing the search branches yields one candidate for every relevant source
  that some branch found and none for a source the caller already knows; each candidate carries the
  sum of the reciprocal ranks of its own occurrences, in branch order, and its best rank; the list is
  sorted by score, and it is the same for every iteration order of the candidate map.
\<close>

theorem recall_fusion_reference:
  "distinct (map rc_ID (fuseRecallCandidates rnd batch kind known))
   \<and> rc_ID ` set (fuseRecallCandidates rnd batch kind known) = found batch kind known
   \<and> (\<forall>c\<in>set (fuseRecallCandidates rnd batch kind known).
        rc_Score c = fused_score rnd (occurrences batch kind known (rc_ID c))
        \<and> rc_BestBranchRank c = best_rank (occurrences batch kind known (rc_ID c)))
   \<and> sorted_wrt (\<lambda>x y. rc_Score x \<ge> rc_Score y) (fuseRecallCandidates rnd batch kind known)
   \<and> (\<forall>order. mset order = mset (map snd (candidate_map rnd batch kind known))
        \<longrightarrow> sortRecallCandidates kind order = fuseRecallCandidates rnd batch kind known)"
proof (intro conjI ballI allI impI)
  let ?m = "candidate_map rnd batch kind known" and ?r = "fuseRecallCandidates rnd batch kind known"
  have d: "distinct (map rc_ID (map snd ?m))" by (simp only: candidate_map_ids candidate_map_distinct)
  then show "distinct (map rc_ID ?r)"
    by (simp only: fuseRecallCandidates_def sortRecallCandidates_def distinct_go_sort)
  have set: "set ?r = snd ` set ?m" by (simp add: fuseRecallCandidates_def sortRecallCandidates_def)
  have "rc_ID ` set ?r = set (map rc_ID (map snd ?m))" by (simp only: set set_map)
  also have "\<dots> = found batch kind known"
    by (simp only: candidate_map_ids) (simp add: dom_map_of_conv_image_fst [symmetric] candidate_map_dom)
  finally show "rc_ID ` set ?r = found batch kind known" .
  { fix c assume "c \<in> set ?r"
    then obtain sid where "map_of ?m sid = Some c"
      using candidate_map_distinct by (auto simp: set intro: map_of_is_SomeI)
    from candidate_map_lookup [OF this]
    show "rc_Score c = fused_score rnd (occurrences batch kind known (rc_ID c))"
      "rc_BestBranchRank c = best_rank (occurrences batch kind known (rc_ID c))" by simp_all }
  have "sorted_wrt (\<lambda>x y. \<not> candidate_less kind y x) ?r"
    unfolding fuseRecallCandidates_def sortRecallCandidates_def by (rule candidate_order.sorted_go_sort)
  then show "sorted_wrt (\<lambda>x y. rc_Score x \<ge> rc_Score y) ?r"
    by (rule sorted_wrt_mono_rel [rotated]) (auto simp: candidate_less_def split: if_splits)
  show "sortRecallCandidates kind order = ?r" if "mset order = mset (map snd ?m)" for order
    unfolding fuseRecallCandidates_def using sort_candidates_unique [OF d] that by metis
qed

lemma found_code:
  "found batch kind known = set (map hit_SourceID (filter (relevant_hit kind known)
     (rcb_TextHits batch @ rcb_VectorHits batch @ rcb_ExpansionHits batch @ rcb_OntologyHits batch)))"
  by (auto simp: found_def)

definition sample_hit :: "string \<Rightarrow> search_hit" where
  "sample_hit sid = \<lparr>hit_TeamID = ''team'', hit_SearchDocumentID = sid, hit_SourceKind = ''evidence'',
     hit_SourceID = sid, hit_SourceVersion = 1, hit_DocumentVersion = 1, hit_EmbeddingContractID = [],
     hit_SearchState = ''current'', hit_Distance = 0, hit_TextRank = 0\<rparr>"

definition sample_batch :: recall_batch where
  "sample_batch = \<lparr>rcb_TextHits = [sample_hit ''a'', sample_hit ''b''], rcb_VectorHits = [sample_hit ''b''],
     rcb_ExpansionHits = [], rcb_OntologyHits = [sample_hit ''c'', sample_hit ''d''],
     rcb_SearchState = ''current'', rcb_OrganizationDegradation = []\<rparr>"

lemma sample_hit_fields [simp]:
  "hit_SourceKind (sample_hit s) = ''evidence''" "hit_SourceID (sample_hit s) = s"
  "hit_SearchState (sample_hit s) = ''current''"
  by (simp_all add: sample_hit_def)

theorem recall_fusion_reference_witness:
  "rc_ID ` set (fuseRecallCandidates (\<lambda>x. x) sample_batch ''evidence'' [''d'']) = {''a'', ''b'', ''c''}
   \<and> fused_score (\<lambda>x. x) (occurrences sample_batch ''evidence'' [''d''] ''b'') = 1 / 62 + 1 / 61"
proof -
  have f: "found sample_batch ''evidence'' [''d''] = {''a'', ''b'', ''c''}"
    by (auto simp: found_code sample_batch_def relevant_hit_def)
  have "fused_score (\<lambda>x. x) (occurrences sample_batch ''evidence'' [''d''] ''b'') = 1 / 62 + 1 / 61"
    by (simp add: occurrences_def branch_hits_def ranked_hits_def sample_batch_def relevant_hit_def
        fused_score_def rrf_term_def recallRRFConstant_def)
  with f recall_fusion_reference [where rnd = "\<lambda>x. x" and batch = sample_batch and kind = "''evidence''" and known = "[''d'']"]
  show ?thesis by simp
qed

end
