(* ===== verification/Recall_Selection.thy ===== *)
theory Recall_Selection
  imports Recall_Fusion Onto_Types
begin

text \<open>
  Selection of recall results (\<open>recall/recall_ontology.go\<close>, \<open>recall/recall_result_helpers.go\<close>,
  \<open>domain/read_ids.go\<close>): candidates that name the same evidence group are returned once, evidence
  equivalent to what the caller already knows is suppressed, groups that overlap are ignored, and
  conflict summaries are bounded. \<open>subseq\<close> is the subsequence relation of \<open>HOL-Library.Sublist\<close>.
\<close>

definition NormalizeReadIDList :: "string list \<Rightarrow> string list" where
  "NormalizeReadIDList values = dedup [] (filter (\<lambda>value. value \<noteq> []) (map trim_space values))"

lemma set_NormalizeReadIDList [simp]: "set (NormalizeReadIDList vs) = trim_space ` set vs - {[]}"
  by (auto simp: NormalizeReadIDList_def)

lemma distinct_NormalizeReadIDList [simp]: "distinct (NormalizeReadIDList vs)"
  by (simp add: NormalizeReadIDList_def)

section \<open>Hits, groups and hydration\<close>

record evidence_hit =
  eh_EquivalentEvidenceIDs :: "string list"
  eh_EquivalentsTruncated :: bool
  eh_TeamID :: string
  eh_EvidenceID :: string
  eh_RelationshipIDs :: "string list"
  eh_Context :: string
  eh_Source :: string
  eh_SourceType :: string
  eh_CreatedAt :: time
  eh_Rank :: int
  eh_Score :: real
  eh_SearchState :: string
  eh_SpaceKind :: string

definition zero_evidence_hit :: evidence_hit where
  "zero_evidence_hit = \<lparr>eh_EquivalentEvidenceIDs = [], eh_EquivalentsTruncated = False, eh_TeamID = [],
     eh_EvidenceID = [], eh_RelationshipIDs = [], eh_Context = [], eh_Source = [], eh_SourceType = [],
     eh_CreatedAt = 0, eh_Rank = 0, eh_Score = 0, eh_SearchState = [], eh_SpaceKind = []\<rparr>"

record recall_group =
  rg_ID :: string
  rg_Members :: "string list"

record evidence_hydration =
  hyd_Hits :: "string \<rightharpoonup> evidence_hit"
  hyd_Groups :: "recall_group list"
  hyd_OrganizationDegradation :: string

record recall_evidence_input =
  rei_OrganizationEnabled :: bool
  rei_OrganizationSources :: "source_handle list"
  rei_TeamID :: string
  rei_Query :: string
  rei_QueryEmbedding :: "real list"
  rei_Limit :: int
  rei_ValidAt :: "time option"
  rei_KnownAt :: "time option"
  rei_KnownEvidenceIDs :: "string list"
  rei_KnownRelationshipIDs :: "string list"
  rei_ExpandFromEntityIDs :: "string list"
  rei_SpaceID :: string
  rei_SpaceKind :: string

definition maxEquivalentEvidenceIDs :: nat where "maxEquivalentEvidenceIDs = 20"

section \<open>Eligible groups\<close>

text \<open>The first loop records the group of every eligible member and marks the groups that meet in one.\<close>

definition member_step :: "(string \<rightharpoonup> evidence_hit) \<Rightarrow> (string \<rightharpoonup> string) \<times> string list \<Rightarrow> string \<times> string
    \<Rightarrow> (string \<rightharpoonup> string) \<times> string list" where
  "member_step hits st x = (case st of (membership, overlap) \<Rightarrow> case x of (gid, sid) \<Rightarrow>
     if hits sid = None then (membership, overlap)
     else (membership(sid \<mapsto> gid),
           case membership sid of
             Some previous \<Rightarrow> if previous \<noteq> gid then gid # previous # overlap else overlap
           | None \<Rightarrow> overlap))"

definition group_pairs :: "recall_group list \<Rightarrow> (string \<times> string) list" where
  "group_pairs groups = concat (map (\<lambda>g. map (Pair (rg_ID g)) (rg_Members g)) groups)"

definition overlap_of :: "(string \<rightharpoonup> evidence_hit) \<Rightarrow> recall_group list \<Rightarrow> string list" where
  "overlap_of hits groups = snd (foldl (member_step hits) (Map.empty, []) (group_pairs groups))"

text \<open>The second loop builds the groups that remain, restricted to their eligible members.\<close>

definition eligible_members :: "(string \<rightharpoonup> evidence_hit) \<Rightarrow> recall_group \<Rightarrow> string list" where
  "eligible_members hits g = filter (\<lambda>sid. hits sid \<noteq> None) (rg_Members g)"

definition group_step :: "(string \<rightharpoonup> evidence_hit) \<Rightarrow> string list \<Rightarrow> string list
    \<Rightarrow> (string \<rightharpoonup> recall_group) \<times> string list \<Rightarrow> recall_group \<Rightarrow> (string \<rightharpoonup> recall_group) \<times> string list" where
  "group_step hits known overlap st g = (case st of (byID, suppressed) \<Rightarrow>
     if rg_ID g \<in> set overlap then (byID, suppressed)
     else let members = NormalizeReadIDList (eligible_members hits g);
              knownGroup = (\<exists>sid\<in>set (eligible_members hits g). sid \<in> set known);
              eligible = \<lparr>rg_ID = rg_ID g, rg_Members = members\<rparr>
          in (foldl (\<lambda>m sid. m(sid \<mapsto> eligible)) byID members,
              if knownGroup then members @ suppressed else suppressed))"

definition eligibleEvidenceGroups :: "recall_group list \<Rightarrow> (string \<rightharpoonup> evidence_hit) \<Rightarrow> string list
    \<Rightarrow> (string \<rightharpoonup> recall_group) \<times> string list \<times> bool" where
  "eligibleEvidenceGroups groups hits knownIDs =
     (let known = filter (\<lambda>sid. hits sid \<noteq> None) knownIDs;
          overlap = overlap_of hits groups
      in case foldl (group_step hits known overlap) (Map.empty, []) groups of
           (byID, suppressed) \<Rightarrow> (byID, suppressed, overlap \<noteq> []))"

text \<open>What overlap means: two groups with different ids share an eligible member.\<close>

definition overlapping :: "(string \<rightharpoonup> evidence_hit) \<Rightarrow> recall_group list \<Rightarrow> string \<Rightarrow> bool" where
  "overlapping hits groups gid \<longleftrightarrow>
     (\<exists>g\<in>set groups. \<exists>h\<in>set groups. rg_ID g = gid \<and> rg_ID h \<noteq> gid
        \<and> set (eligible_members hits g) \<inter> set (eligible_members hits h) \<noteq> {})"

lemma find_SomeD: "find P xs = Some x \<Longrightarrow> P x \<and> x \<in> set xs"
  by (induction xs) (auto split: if_splits)

text \<open>A group meets another one when an eligible id was recorded for both.\<close>

definition meets :: "(string \<rightharpoonup> evidence_hit) \<Rightarrow> (string \<times> string) list \<Rightarrow> string \<Rightarrow> bool" where
  "meets hits L g \<longleftrightarrow> (\<exists>h sid. hits sid \<noteq> None \<and> (g, sid) \<in> set L \<and> (h, sid) \<in> set L \<and> g \<noteq> h)"

lemma meets_snoc:
  "meets hits (L @ [(gid, sid)]) g \<longleftrightarrow> meets hits L g
     \<or> (hits sid \<noteq> None \<and> (g = gid \<and> (\<exists>h. (h, sid) \<in> set L \<and> h \<noteq> gid) \<or> (g, sid) \<in> set L \<and> g \<noteq> gid))"
  unfolding meets_def by (simp, blast)

lemma member_fold:
  "(\<forall>sid. fst (foldl (member_step hits) (Map.empty, []) L) sid =
      (if hits sid = None then None else map_option fst (find (\<lambda>(g, s). s = sid) (rev L))))
   \<and> set (snd (foldl (member_step hits) (Map.empty, []) L)) = {g. meets hits L g}"
proof (induction L rule: rev_induct)
  case Nil
  then show ?case by (simp add: meets_def)
next
  case (snoc x L)
  obtain gid sid where x: "x = (gid, sid)" by (cases x)
  let ?s = "foldl (member_step hits) (Map.empty, []) L"
  obtain membership overlap where st: "?s = (membership, overlap)" by (cases ?s)
  have m: "membership t = (if hits t = None then None else map_option fst (find (\<lambda>(g, s). s = t) (rev L)))" for t
    using snoc st by simp
  have o: "set overlap = {g. meets hits L g}"
    using snoc st by simp
  show ?case
  proof (cases "hits sid = None")
    case True
    then have "foldl (member_step hits) (Map.empty, []) (L @ [x]) = (membership, overlap)"
      by (simp add: st x member_step_def)
    moreover have "map_option fst (find (\<lambda>(g, s). s = t) (rev (L @ [x]))) =
        map_option fst (find (\<lambda>(g, s). s = t) (rev L))" if "hits t \<noteq> None" for t
      using that True by (auto simp: x)
    ultimately show ?thesis using m o True by (auto simp: x meets_snoc)
  next
    case False
    let ?o = "case membership sid of Some p \<Rightarrow> if p \<noteq> gid then gid # p # overlap else overlap | None \<Rightarrow> overlap"
    have new: "foldl (member_step hits) (Map.empty, []) (L @ [x]) = (membership(sid \<mapsto> gid), ?o)"
      using False by (auto simp: st x member_step_def)
    have none: "membership sid = None \<Longrightarrow> \<forall>g. (g, sid) \<notin> set L"
      using False by (auto simp: m find_None_iff)
    have some: "(p, sid) \<in> set L" if "membership sid = Some p" for p
    proof -
      obtain y where y: "find (\<lambda>(g, s). s = sid) (rev L) = Some y" "p = fst y"
        using \<open>membership sid = Some p\<close> False by (auto simp: m)
      with find_SomeD [OF y(1)] show ?thesis by (cases y) auto
    qed
    have overlaps: "set ?o = {g. meets hits (L @ [x]) g}"
    proof (cases "membership sid")
      case None
      then show ?thesis using none o by (simp add: x meets_snoc)
    next
      case (Some p)
      then have p: "(p, sid) \<in> set L" by (rule some)
      have same: "meets hits L g \<or> g = p" if "(g, sid) \<in> set L" for g
        using that p False unfolding meets_def by blast
      show ?thesis
      proof (cases "p = gid")
        case True
        have "meets hits (L @ [x]) g \<longleftrightarrow> meets hits L g" for g
          unfolding x meets_snoc using same p True False unfolding meets_def by blast
        then show ?thesis using Some True o by simp
      next
        case pg: False
        have "meets hits (L @ [x]) g \<longleftrightarrow> meets hits L g \<or> g = gid \<or> g = p" for g
          unfolding x meets_snoc using same p pg False by blast
        then show ?thesis using Some pg o by auto
      qed
    qed
    show ?thesis
    proof (intro conjI allI)
      show "fst (foldl (member_step hits) (Map.empty, []) (L @ [x])) t =
          (if hits t = None then None else map_option fst (find (\<lambda>(g, s). s = t) (rev (L @ [x]))))" for t
        unfolding new fst_conv using False by (simp add: m x)
      show "set (snd (foldl (member_step hits) (Map.empty, []) (L @ [x]))) = {g. meets hits (L @ [x]) g}"
        unfolding new snd_conv by (rule overlaps)
    qed
  qed
qed

lemma group_pairs_iff:
  "(gid, sid) \<in> set (group_pairs groups) \<longleftrightarrow> (\<exists>g\<in>set groups. rg_ID g = gid \<and> sid \<in> set (rg_Members g))"
  by (auto simp: group_pairs_def)

lemma overlapping_pairs: "overlapping hits groups gid \<longleftrightarrow> meets hits (group_pairs groups) gid"
proof
  assume "overlapping hits groups gid"
  then obtain g h sid where gh: "g \<in> set groups" "h \<in> set groups" "rg_ID g = gid" "rg_ID h \<noteq> gid"
    and sid: "sid \<in> set (eligible_members hits g)" "sid \<in> set (eligible_members hits h)"
    unfolding overlapping_def by blast
  then have "hits sid \<noteq> None" "(gid, sid) \<in> set (group_pairs groups)" "(rg_ID h, sid) \<in> set (group_pairs groups)"
    unfolding eligible_members_def group_pairs_iff by auto
  with gh(4) show "meets hits (group_pairs groups) gid" unfolding meets_def by metis
next
  assume "meets hits (group_pairs groups) gid"
  then obtain h sid where sid: "hits sid \<noteq> None" "(gid, sid) \<in> set (group_pairs groups)"
    "(h, sid) \<in> set (group_pairs groups)" "gid \<noteq> h" unfolding meets_def by blast
  then obtain g g' where gg: "g \<in> set groups" "g' \<in> set groups" "rg_ID g = gid" "rg_ID g' = h"
    and "sid \<in> set (rg_Members g)" "sid \<in> set (rg_Members g')"
    unfolding group_pairs_iff by blast
  with sid(1) have "sid \<in> set (eligible_members hits g) \<inter> set (eligible_members hits g')"
    unfolding eligible_members_def by simp
  then have "set (eligible_members hits g) \<inter> set (eligible_members hits g') \<noteq> {}" by blast
  moreover have "rg_ID g' \<noteq> gid" using gg(4) sid(4) by simp
  ultimately show "overlapping hits groups gid" unfolding overlapping_def using gg(1,2,3) by blast
qed

lemma set_overlap_of: "set (overlap_of hits groups) = {gid. overlapping hits groups gid}"
  unfolding overlap_of_def overlapping_pairs using member_fold by blast

text \<open>
  What the second loop leaves: an id is mapped to a group exactly when some group that does not overlap
  has it as an eligible member, and then to one with that id; it is suppressed when the group has a
  known member. The ids in the hydrated map are trimmed and not empty.
\<close>

definition settled :: "(string \<rightharpoonup> evidence_hit) \<Rightarrow> recall_group list \<Rightarrow> recall_group \<Rightarrow> bool" where
  "settled hits groups g \<longleftrightarrow> g \<in> set groups \<and> \<not> overlapping hits groups (rg_ID g)"

definition clean_ids :: "(string \<rightharpoonup> evidence_hit) \<Rightarrow> bool" where
  "clean_ids hits \<longleftrightarrow> (\<forall>sid h. hits sid = Some h \<longrightarrow> trim_space sid = sid \<and> sid \<noteq> [] \<and> eh_EvidenceID h = sid)"

lemma clean_members:
  assumes "clean_ids hits"
  shows "set (NormalizeReadIDList (eligible_members hits g)) = set (eligible_members hits g)"
proof -
  have "trim_space sid = sid \<and> sid \<noteq> []" if "sid \<in> set (eligible_members hits g)" for sid
    using that assms by (auto simp: eligible_members_def clean_ids_def)
  then show ?thesis by force
qed

lemma foldl_assign: "foldl (\<lambda>m k. m(k \<mapsto> v)) f ks x = (if x \<in> set ks then Some v else f x)"
  by (induction ks arbitrary: f) auto

definition groups_state :: "(string \<rightharpoonup> evidence_hit) \<Rightarrow> string list \<Rightarrow> string list \<Rightarrow> recall_group list
    \<Rightarrow> (string \<rightharpoonup> recall_group) \<times> string list" where
  "groups_state hits known overlap gs = foldl (group_step hits known overlap) (Map.empty, []) gs"

lemma group_fold:
  assumes "clean_ids hits"
  shows "(\<forall>sid g. fst (groups_state hits known overlap gs) sid = Some g \<longrightarrow>
      (\<exists>g'\<in>set gs. rg_ID g' \<notin> set overlap \<and> rg_ID g = rg_ID g' \<and> sid \<in> set (eligible_members hits g')
         \<and> set (rg_Members g) = set (eligible_members hits g') \<and> distinct (rg_Members g)))
   \<and> (\<forall>sid. fst (groups_state hits known overlap gs) sid = None \<longrightarrow>
      \<not> (\<exists>g'\<in>set gs. rg_ID g' \<notin> set overlap \<and> sid \<in> set (eligible_members hits g')))
   \<and> set (snd (groups_state hits known overlap gs)) = {sid. \<exists>g\<in>set gs. rg_ID g \<notin> set overlap \<and> sid \<in> set (eligible_members hits g)
        \<and> set (eligible_members hits g) \<inter> set known \<noteq> {}}"
proof (induction gs rule: rev_induct)
  case Nil
  then show ?case by (simp add: groups_state_def)
next
  case (snoc g gs)
  obtain byID suppressed where s: "groups_state hits known overlap gs = (byID, suppressed)" by (cases "groups_state hits known overlap gs")
  let ?ms = "NormalizeReadIDList (eligible_members hits g)"
  have ms: "set ?ms = set (eligible_members hits g)" "distinct ?ms"
    by (simp only: clean_members [OF assms(1)]) (rule distinct_NormalizeReadIDList)
  have step: "groups_state hits known overlap (gs @ [g]) = group_step hits known overlap (byID, suppressed) g"
    using s by (simp add: groups_state_def)
  show ?case
  proof (cases "rg_ID g \<in> set overlap")
    case True
    then have "groups_state hits known overlap (gs @ [g]) = (byID, suppressed)" by (simp add: step group_step_def)
    with snoc s True show ?thesis by auto
  next
    case False
    have f: "fst (groups_state hits known overlap (gs @ [g])) sid = (if sid \<in> set (eligible_members hits g)
        then Some \<lparr>rg_ID = rg_ID g, rg_Members = ?ms\<rparr> else byID sid)" for sid
      using False by (simp add: step group_step_def foldl_assign ms(1) Let_def del: set_NormalizeReadIDList)
    have "set (snd (groups_state hits known overlap (gs @ [g]))) = set suppressed \<union>
        (if set (eligible_members hits g) \<inter> set known \<noteq> {} then set (eligible_members hits g) else {})"
      using False by (auto simp: step group_step_def ms(1) Let_def simp del: set_NormalizeReadIDList)
    moreover have "set suppressed = {sid. \<exists>g\<in>set gs. rg_ID g \<notin> set overlap \<and> sid \<in> set (eligible_members hits g)
        \<and> set (eligible_members hits g) \<inter> set known \<noteq> {}}" using snoc s by simp
    ultimately have sup: "set (snd (groups_state hits known overlap (gs @ [g]))) = {sid. \<exists>g'\<in>set (gs @ [g]). rg_ID g' \<notin> set overlap
        \<and> sid \<in> set (eligible_members hits g') \<and> set (eligible_members hits g') \<inter> set known \<noteq> {}}"
      using False by auto
    show ?thesis
    proof (intro conjI allI impI, goal_cases)
      case (1 sid g')
      then show ?case
        using snoc s False ms by (auto simp: f split: if_splits)
    next
      case (2 sid)
      then show ?case using snoc s by (auto simp: f split: if_splits)
    next
      case 3
      show ?case by (rule sup)
    qed
  qed
qed

lemma eligibleEvidenceGroups_spec:
  assumes "clean_ids hits" and "eligibleEvidenceGroups groups hits knownIDs = (byID, suppressed, overlap)"
  shows "byID sid = Some g \<Longrightarrow> \<exists>g'. settled hits groups g' \<and> rg_ID g = rg_ID g' \<and> sid \<in> set (eligible_members hits g')
         \<and> set (rg_Members g) = set (eligible_members hits g') \<and> distinct (rg_Members g)"
    and "settled hits groups g' \<Longrightarrow> sid \<in> set (eligible_members hits g') \<Longrightarrow> \<exists>g. byID sid = Some g"
    and "sid \<in> set suppressed \<longleftrightarrow> (\<exists>g'. settled hits groups g' \<and> sid \<in> set (eligible_members hits g')
         \<and> set (eligible_members hits g') \<inter> set knownIDs \<noteq> {})"
    and "overlap \<longleftrightarrow> (\<exists>gid. overlapping hits groups gid)"
proof -
  let ?known = "filter (\<lambda>sid. hits sid \<noteq> None) knownIDs"
  have st: "byID = fst (groups_state hits ?known (overlap_of hits groups) groups)"
    "suppressed = snd (groups_state hits ?known (overlap_of hits groups) groups)"
    "overlap = (overlap_of hits groups \<noteq> [])"
    using assms(2) by (auto simp: eligibleEvidenceGroups_def groups_state_def Let_def split: prod.splits)
  note G = group_fold [OF assms(1), of ?known "overlap_of hits groups" groups, folded st, unfolded set_overlap_of mem_Collect_eq]
  have known: "set (eligible_members hits g) \<inter> set ?known = set (eligible_members hits g) \<inter> set knownIDs" for g
    by (auto simp: eligible_members_def)
  show "byID sid = Some g \<Longrightarrow> \<exists>g'. settled hits groups g' \<and> rg_ID g = rg_ID g' \<and> sid \<in> set (eligible_members hits g')
         \<and> set (rg_Members g) = set (eligible_members hits g') \<and> distinct (rg_Members g)"
    using G unfolding settled_def by blast
  show "settled hits groups g' \<Longrightarrow> sid \<in> set (eligible_members hits g') \<Longrightarrow> \<exists>g. byID sid = Some g"
    using G unfolding settled_def by (metis not_None_eq)
  show "sid \<in> set suppressed \<longleftrightarrow> (\<exists>g'. settled hits groups g' \<and> sid \<in> set (eligible_members hits g')
         \<and> set (eligible_members hits g') \<inter> set knownIDs \<noteq> {})"
    using G unfolding settled_def known by auto
  show "overlap \<longleftrightarrow> (\<exists>gid. overlapping hits groups gid)"
    using set_overlap_of [of hits groups] unfolding st(3) by (metis empty_Collect_eq set_empty)
qed

section \<open>Selection\<close>

definition zero_recall_group :: recall_group where
  "zero_recall_group = \<lparr>rg_ID = [], rg_Members = []\<rparr>"

text \<open>
  The fields of a hit that depend on its group: the equivalent ids, cut to 20, the relationships of the
  equivalents and the combined search state. The second component are the alternates, which are
  appended to the sources of the conflict lookup.
\<close>

definition with_equivalents :: "(string \<rightharpoonup> evidence_hit) \<Rightarrow> recall_group \<Rightarrow> evidence_hit
    \<Rightarrow> evidence_hit \<times> evidence_hit list" where
  "with_equivalents hits grp hit =
     (let ids = sort_strings (filter (\<lambda>sid. sid \<noteq> eh_EvidenceID hit) (rg_Members grp));
          truncated = length ids > maxEquivalentEvidenceIDs;
          ids = (if truncated then take maxEquivalentEvidenceIDs ids else ids);
          alternates = map (\<lambda>sid. case hits sid of None \<Rightarrow> zero_evidence_hit | Some h \<Rightarrow> h) ids
      in (hit\<lparr>eh_EquivalentEvidenceIDs := ids, eh_EquivalentsTruncated := truncated,
              eh_RelationshipIDs := NormalizeReadIDList (eh_RelationshipIDs hit @ concat (map eh_RelationshipIDs alternates)),
              eh_SearchState := foldl CombineSearchProjectionStates (eh_SearchState hit) (map eh_SearchState alternates)\<rparr>,
          alternates))"

fun select_loop :: "evidence_hydration \<Rightarrow> (string \<rightharpoonup> recall_group) \<Rightarrow> string list \<Rightarrow> recall_evidence_input
    \<Rightarrow> recall_candidate list \<Rightarrow> string list \<Rightarrow> evidence_hit list \<Rightarrow> evidence_hit list
    \<Rightarrow> evidence_hit list \<times> evidence_hit list" where
  "select_loop H byID suppressed input [] seen results conflicts = (results, conflicts)"
| "select_loop H byID suppressed input (c # cs) seen results conflicts =
     (case hyd_Hits H (rc_ID c) of
        None \<Rightarrow> select_loop H byID suppressed input cs seen results conflicts
      | Some hit \<Rightarrow>
          if rc_ID c \<in> set suppressed then select_loop H byID suppressed input cs seen results conflicts
          else let grp = (case byID (rc_ID c) of None \<Rightarrow> zero_recall_group | Some g \<Rightarrow> g)
               in if rg_ID grp \<noteq> [] \<and> rg_ID grp \<in> set seen
                  then select_loop H byID suppressed input cs seen results conflicts
                  else case with_equivalents (hyd_Hits H) grp hit of (hit, alternates) \<Rightarrow>
                    let hit = hit\<lparr>eh_Score := rc_Score c, eh_SpaceKind := rei_SpaceKind input,
                                  eh_Rank := int (length results) + 1,
                                  eh_SearchState := CombineSearchProjectionStates (rc_SearchState c) (eh_SearchState hit)\<rparr>;
                        results = results @ [hit];
                        conflicts = conflicts @ alternates @ [hit]
                    in if int (length results) = rei_Limit input then (results, conflicts)
                       else select_loop H byID suppressed input cs (rg_ID grp # seen) results conflicts)"

definition selectRecallEvidence :: "recall_candidate list \<Rightarrow> evidence_hydration \<Rightarrow> recall_evidence_input
    \<Rightarrow> evidence_hit list \<times> evidence_hit list \<times> string" where
  "selectRecallEvidence candidates H input =
     (case eligibleEvidenceGroups (hyd_Groups H) (hyd_Hits H) (rei_KnownEvidenceIDs input) of
        (byID, suppressed, overlap) \<Rightarrow>
          case select_loop H byID suppressed input candidates [] [] [] of
            (results, conflicts) \<Rightarrow>
              (results, conflicts, if overlap then ''ontology_group_overlap'' else hyd_OrganizationDegradation H))"

lemma with_equivalents_fields:
  assumes "with_equivalents hits grp hit = (hit', alternates)"
  shows "eh_EvidenceID hit' = eh_EvidenceID hit" "length (eh_EquivalentEvidenceIDs hit') \<le> maxEquivalentEvidenceIDs"
    "set (eh_EquivalentEvidenceIDs hit') \<subseteq> set (rg_Members grp) - {eh_EvidenceID hit}"
    "distinct (rg_Members grp) \<Longrightarrow> length (rg_Members grp) \<le> maxEquivalentEvidenceIDs \<Longrightarrow>
       set (eh_EquivalentEvidenceIDs hit') = set (rg_Members grp) - {eh_EvidenceID hit}"
proof -
  let ?ids = "sort_strings (filter (\<lambda>sid. sid \<noteq> eh_EvidenceID hit) (rg_Members grp))"
  have e: "eh_EquivalentEvidenceIDs hit' = (if length ?ids > maxEquivalentEvidenceIDs
      then take maxEquivalentEvidenceIDs ?ids else ?ids)" "eh_EvidenceID hit' = eh_EvidenceID hit"
    using assms by (auto simp: with_equivalents_def Let_def)
  show "eh_EvidenceID hit' = eh_EvidenceID hit" by (rule e(2))
  show "length (eh_EquivalentEvidenceIDs hit') \<le> maxEquivalentEvidenceIDs" by (simp add: e(1))
  have ids: "set ?ids = set (rg_Members grp) - {eh_EvidenceID hit}" by auto
  have cut: "set (if P then take n xs else xs) \<subseteq> set xs" for P n and xs :: "string list"
    by (simp add: set_take_subset)
  have "set (eh_EquivalentEvidenceIDs hit') \<subseteq> set ?ids"
    unfolding e(1) by (rule cut)
  then show "set (eh_EquivalentEvidenceIDs hit') \<subseteq> set (rg_Members grp) - {eh_EvidenceID hit}"
    unfolding ids .
  assume "length (rg_Members grp) \<le> maxEquivalentEvidenceIDs"
  then have "length ?ids \<le> maxEquivalentEvidenceIDs"
    using length_filter_le [of "\<lambda>sid. sid \<noteq> eh_EvidenceID hit" "rg_Members grp"]
    by (simp only: length_sort le_trans)
  then show "set (eh_EquivalentEvidenceIDs hit') = set (rg_Members grp) - {eh_EvidenceID hit}"
    using ids by (simp add: e(1))
qed

text \<open>The group a result was selected for, as the loop sees it.\<close>

definition group_id :: "(string \<rightharpoonup> recall_group) \<Rightarrow> string \<Rightarrow> string" where
  "group_id byID sid = rg_ID (case byID sid of None \<Rightarrow> zero_recall_group | Some g \<Rightarrow> g)"

definition selected_ok :: "evidence_hydration \<Rightarrow> (string \<rightharpoonup> recall_group) \<Rightarrow> string list \<Rightarrow> evidence_hit \<Rightarrow> bool" where
  "selected_ok H byID suppressed r \<longleftrightarrow>
     hyd_Hits H (eh_EvidenceID r) \<noteq> None \<and> eh_EvidenceID r \<notin> set suppressed
     \<and> length (eh_EquivalentEvidenceIDs r) \<le> maxEquivalentEvidenceIDs
     \<and> set (eh_EquivalentEvidenceIDs r) \<subseteq>
         set (rg_Members (case byID (eh_EvidenceID r) of None \<Rightarrow> zero_recall_group | Some g \<Rightarrow> g)) - {eh_EvidenceID r}"

definition ids_unique :: "string list \<Rightarrow> bool" where
  "ids_unique gids \<longleftrightarrow> distinct (filter (\<lambda>gid. gid \<noteq> []) gids)"

lemma select_loop_take:
  assumes "hyd_Hits H (rc_ID c) = Some hit" and "rc_ID c \<notin> set suppressed"
    and g: "(case byID (rc_ID c) of None \<Rightarrow> zero_recall_group | Some g \<Rightarrow> g) = g"
    and free: "\<not> (rg_ID g \<noteq> [] \<and> rg_ID g \<in> set seen)"
    and w: "with_equivalents (hyd_Hits H) g hit = (h, alts)"
    and h': "h' = h\<lparr>eh_Score := rc_Score c, eh_SpaceKind := rei_SpaceKind input,
        eh_Rank := int (length results) + 1,
        eh_SearchState := CombineSearchProjectionStates (rc_SearchState c) (eh_SearchState h)\<rparr>"
  shows "select_loop H byID suppressed input (c # cs) seen results conflicts =
    (if int (length (results @ [h'])) = rei_Limit input then (results @ [h'], conflicts @ alts @ [h'])
     else select_loop H byID suppressed input cs (rg_ID g # seen) (results @ [h']) (conflicts @ alts @ [h']))"
  unfolding select_loop.simps assms(1) option.case if_not_P [OF assms(2)] Let_def g if_not_P [OF free] w
    prod.case h' ..

lemma select_loop_spec:
  assumes "clean_ids (hyd_Hits H)"
    and "select_loop H byID suppressed input cs seen results conflicts = (R, C)"
    and "int (length results) < rei_Limit input"
    and "ids_unique seen" and "set (map (group_id byID \<circ> eh_EvidenceID) results) = set seen"
  shows "\<exists>new. R = results @ new \<and> int (length R) \<le> rei_Limit input
    \<and> subseq (map eh_EvidenceID new) (map rc_ID cs)
    \<and> map eh_Rank new = map int [length results + 1..<length R + 1]
    \<and> (\<forall>r\<in>set new. selected_ok H byID suppressed r)
    \<and> ids_unique (map (group_id byID \<circ> eh_EvidenceID) new)
    \<and> (\<forall>r\<in>set new. group_id byID (eh_EvidenceID r) \<noteq> [] \<longrightarrow> group_id byID (eh_EvidenceID r) \<notin> set seen)"
  using assms(2-)
proof (induction cs arbitrary: seen results conflicts)
  case Nil
  then show ?case by (auto simp: ids_unique_def)
next
  case (Cons c cs)
  note skip = Cons.IH [of seen results conflicts, OF _ Cons.prems(2,3,4)]
  have skipped: ?case if "select_loop H byID suppressed input cs seen results conflicts = (R, C)"
    using skip [OF that] by (auto intro: list_emb_Cons)
  show ?case
  proof (cases "hyd_Hits H (rc_ID c)")
    case None
    then show ?thesis using Cons.prems(1) by (intro skipped) simp
  next
    case (Some hit)
    then have hit: "eh_EvidenceID hit = rc_ID c" using assms(1) by (auto simp: clean_ids_def)
    let ?g = "case byID (rc_ID c) of None \<Rightarrow> zero_recall_group | Some g \<Rightarrow> g"
    show ?thesis
    proof (cases "rc_ID c \<in> set suppressed \<or> rg_ID ?g \<noteq> [] \<and> rg_ID ?g \<in> set seen")
      case True
      have "select_loop H byID suppressed input cs seen results conflicts = (R, C)"
      proof (cases "rc_ID c \<in> set suppressed")
        case True
        then show ?thesis using Cons.prems(1) Some by simp
      next
        case False
        with True have "rg_ID ?g \<noteq> [] \<and> rg_ID ?g \<in> set seen" by blast
        with False show ?thesis using Cons.prems(1) Some by (simp only: select_loop.simps option.case if_False Let_def if_True simp_thms)
      qed
      then show ?thesis by (rule skipped)
    next
      case False
      obtain h alts where w: "with_equivalents (hyd_Hits H) ?g hit = (h, alts)" by (cases "with_equivalents (hyd_Hits H) ?g hit")
      define h' where "h' = h\<lparr>eh_Score := rc_Score c, eh_SpaceKind := rei_SpaceKind input,
        eh_Rank := int (length results) + 1,
        eh_SearchState := CombineSearchProjectionStates (rc_SearchState c) (eh_SearchState h)\<rparr>"
      have id: "eh_EvidenceID h' = rc_ID c" using with_equivalents_fields(1) [OF w] hit by (simp add: h'_def)
      have rank: "eh_Rank h' = int (length results) + 1" by (simp add: h'_def)
      have ok: "selected_ok H byID suppressed h'"
        using with_equivalents_fields(1-3) [OF w] Some False hit by (simp add: selected_ok_def h'_def)
      have loop: "(if int (length (results @ [h'])) = rei_Limit input then (results @ [h'], conflicts @ alts @ [h'])
          else select_loop H byID suppressed input cs (rg_ID ?g # seen) (results @ [h']) (conflicts @ alts @ [h'])) = (R, C)"
        using Cons.prems(1) select_loop_take [OF Some, where byID = byID and suppressed = suppressed and g = ?g
            and seen = seen and cs = cs and conflicts = conflicts, OF _ refl _ w h'_def] False by simp
      have gid: "group_id byID (eh_EvidenceID h') = rg_ID ?g" by (simp add: group_id_def id)
      show ?thesis
      proof (cases "int (length (results @ [h'])) = rei_Limit input")
        case True
        with loop have R: "R = results @ [h']" by simp
        show ?thesis
          using True ok False gid by (intro exI [of _ "[h']"]) (auto simp: R id ids_unique_def rank)
      next
        case more: False
        have "int (length (results @ [h'])) < rei_Limit input" using Cons.prems(2) more by simp
        moreover have "ids_unique (rg_ID ?g # seen)"
          using Cons.prems(3) False by (auto simp: ids_unique_def)
        moreover have "set (map (group_id byID \<circ> eh_EvidenceID) (results @ [h'])) = set (rg_ID ?g # seen)"
          using Cons.prems(4) gid by auto
        moreover have "select_loop H byID suppressed input cs (rg_ID ?g # seen) (results @ [h']) (conflicts @ alts @ [h']) = (R, C)"
          using loop more by (simp split: if_splits)
        ultimately obtain new where new: "R = (results @ [h']) @ new" "int (length R) \<le> rei_Limit input"
          "subseq (map eh_EvidenceID new) (map rc_ID cs)"
          "map eh_Rank new = map int [length (results @ [h']) + 1..<length R + 1]"
          "\<forall>r\<in>set new. selected_ok H byID suppressed r"
          "ids_unique (map (group_id byID \<circ> eh_EvidenceID) new)"
          "\<forall>r\<in>set new. group_id byID (eh_EvidenceID r) \<noteq> [] \<longrightarrow> group_id byID (eh_EvidenceID r) \<notin> set (rg_ID ?g # seen)"
          using Cons.IH by blast
        have ranks: "[length results + 1..<length R + 1] = (length results + 1) # [length (results @ [h']) + 1..<length R + 1]"
          using upt_conv_Cons [of "length results + 1" "length R + 1"] by (simp add: new(1))
        show ?thesis
        proof (intro exI [of _ "h' # new"] conjI)
          show "map eh_Rank (h' # new) = map int [length results + 1..<length R + 1]"
            unfolding ranks using new(4) by (simp add: rank)
          show "ids_unique (map (group_id byID \<circ> eh_EvidenceID) (h' # new))"
            using new(6,7) gid by (auto simp: ids_unique_def)
        qed (use new ok id gid False in \<open>auto simp: subseq_Cons2_iff\<close>)
      qed
    qed
  qed
qed

section \<open>Properties of selection\<close>

lemma group_id_settled:
  assumes "clean_ids hits" and "eligibleEvidenceGroups groups hits knownIDs = (byID, suppressed, overlap)"
    and "settled hits groups g" and "sid \<in> set (eligible_members hits g)"
  shows "group_id byID sid = rg_ID g"
proof -
  note spec = eligibleEvidenceGroups_spec [OF assms(1,2)]
  obtain a where a: "byID sid = Some a" using spec(2) [OF assms(3,4)] by blast
  obtain g' where g': "settled hits groups g'" "rg_ID a = rg_ID g'" "sid \<in> set (eligible_members hits g')"
    using spec(1) [OF a] by blast
  have "rg_ID g' = rg_ID g"
    using assms(3,4) g'(1,3) unfolding settled_def overlapping_def by blast
  then show ?thesis by (simp add: group_id_def a g'(2))
qed

lemma ids_unique_filter:
  assumes "ids_unique (map f xs)" and "v \<noteq> []" and "\<forall>x\<in>set xs. P x \<longrightarrow> f x = v"
  shows "length (filter P xs) \<le> 1"
  using assms
proof (induction xs)
  case (Cons x xs)
  then have IH: "length (filter P xs) \<le> 1" by (auto simp: ids_unique_def split: if_splits)
  show ?case
  proof (cases "P x")
    case True
    then have "f x = v" using Cons.prems(3) by simp
    then have "v \<notin> f ` set xs" using Cons.prems(1,2) by (auto simp: ids_unique_def)
    moreover have "f y = v" if "y \<in> set xs" "P y" for y using that Cons.prems(3) by simp
    ultimately have "filter P xs = []" by (metis filter_empty_conv image_eqI)
    with True show ?thesis by simp
  qed (use IH in simp)
qed simp

lemma two_in: "x \<in> set xs \<Longrightarrow> y \<in> set xs \<Longrightarrow> x \<noteq> y \<Longrightarrow> 2 \<le> length xs"
  by (cases xs; cases "tl xs") auto

text \<open>A result is no equivalent of another when every settled group has at most one result.\<close>

lemma equivalents_apart:
  assumes "clean_ids hits" and "eligibleEvidenceGroups groups hits knownIDs = (byID, suppressed, overlap)"
    and ok: "selected_ok H byID suppressed r" and r: "r \<in> set results"
    and one: "\<And>g. settled hits groups g \<Longrightarrow>
      length (filter (\<lambda>r. eh_EvidenceID r \<in> set (eligible_members hits g)) results) \<le> 1"
  shows "set (eh_EquivalentEvidenceIDs r) \<inter> eh_EvidenceID ` set results = {}"
proof (rule ccontr)
  assume "\<not> ?thesis"
  then obtain r' where r': "r' \<in> set results" "eh_EvidenceID r' \<in> set (eh_EquivalentEvidenceIDs r)" by blast
  then have mem: "eh_EvidenceID r' \<in> set (rg_Members (case byID (eh_EvidenceID r) of None \<Rightarrow> zero_recall_group | Some g \<Rightarrow> g))"
    and ne: "r \<noteq> r'"
    using ok unfolding selected_ok_def by auto
  then obtain a where a: "byID (eh_EvidenceID r) = Some a"
    by (cases "byID (eh_EvidenceID r)") (auto simp: zero_recall_group_def)
  obtain g where g: "settled hits groups g" "eh_EvidenceID r \<in> set (eligible_members hits g)"
    "set (rg_Members a) = set (eligible_members hits g)" using eligibleEvidenceGroups_spec(1) [OF assms(1,2) a] by blast
  with mem a have "eh_EvidenceID r' \<in> set (eligible_members hits g)" by simp
  then have "2 \<le> length (filter (\<lambda>r. eh_EvidenceID r \<in> set (eligible_members hits g)) results)"
    using g(2) r r'(1) ne by (intro two_in [of r _ r']) auto
  with one [OF g(1)] show False by simp
qed

text \<open>
  C29 (recall_selection_groups): recall returns at most the requested number of results, ranked 1, 2, \dots
  in the order of the candidates and without repetition; of every evidence group that overlaps no
  other one at most one member is returned, none when the caller already knows a member, and no
  result is listed among the equivalents of another.
\<close>

theorem recall_selection_groups:
  assumes "clean_ids (hyd_Hits H)"
    and "selectRecallEvidence candidates H input = (results, conflicts, code)"
    and "distinct (map rc_ID candidates)" and "1 \<le> rei_Limit input"
    and "\<forall>g\<in>set (hyd_Groups H). rg_ID g \<noteq> []"
  shows "int (length results) \<le> rei_Limit input
    \<and> subseq (map eh_EvidenceID results) (map rc_ID candidates) \<and> distinct (map eh_EvidenceID results)
    \<and> map eh_Rank results = map int [1..<length results + 1]
    \<and> (\<forall>g. settled (hyd_Hits H) (hyd_Groups H) g \<longrightarrow>
        length (filter (\<lambda>r. eh_EvidenceID r \<in> set (eligible_members (hyd_Hits H) g)) results) \<le> 1
        \<and> (set (eligible_members (hyd_Hits H) g) \<inter> set (rei_KnownEvidenceIDs input) \<noteq> {} \<longrightarrow>
             (\<forall>r\<in>set results. eh_EvidenceID r \<notin> set (eligible_members (hyd_Hits H) g))))
    \<and> (\<forall>r\<in>set results. length (eh_EquivalentEvidenceIDs r) \<le> 20
        \<and> set (eh_EquivalentEvidenceIDs r) \<inter> eh_EvidenceID ` set results = {})"
proof -
  let ?hits = "hyd_Hits H" and ?groups = "hyd_Groups H" and ?known = "rei_KnownEvidenceIDs input"
  obtain byID suppressed overlap where E: "eligibleEvidenceGroups ?groups ?hits ?known = (byID, suppressed, overlap)"
    by (cases "eligibleEvidenceGroups ?groups ?hits ?known")
  have loop: "select_loop H byID suppressed input candidates [] [] [] = (results, conflicts)"
    using assms(2) by (simp add: selectRecallEvidence_def E split: prod.splits)
  obtain new where new: "results = [] @ new" "int (length results) \<le> rei_Limit input"
    "subseq (map eh_EvidenceID new) (map rc_ID candidates)"
    "map eh_Rank new = map int [length ([] :: evidence_hit list) + 1..<length results + 1]"
    "\<forall>r\<in>set new. selected_ok H byID suppressed r"
    "ids_unique (map (group_id byID \<circ> eh_EvidenceID) new)"
    using select_loop_spec [OF assms(1) loop] assms(4) by (auto simp: ids_unique_def)
  have new_eq: "new = results" using new(1) by simp
  note spec = eligibleEvidenceGroups_spec [OF assms(1) E]
  have gid: "group_id byID sid = rg_ID g" if "settled ?hits ?groups g" "sid \<in> set (eligible_members ?hits g)" for g sid
    using group_id_settled [OF assms(1) E that] .
  have one: "length (filter (\<lambda>r. eh_EvidenceID r \<in> set (eligible_members ?hits g)) results) \<le> 1"
    if "settled ?hits ?groups g" for g
    using new(6) unfolding new_eq
  proof (rule ids_unique_filter)
    show "rg_ID g \<noteq> []" using that assms(5) by (simp add: settled_def)
    show "\<forall>r\<in>set results. eh_EvidenceID r \<in> set (eligible_members ?hits g) \<longrightarrow> (group_id byID \<circ> eh_EvidenceID) r = rg_ID g"
      using gid [OF that] by simp
  qed
  have d: "distinct (map eh_EvidenceID results)"
    using new(3) assms(3) unfolding new_eq by (metis subseq_conv_nths distinct_nthsI)
  have known: "eh_EvidenceID r \<notin> set (eligible_members ?hits g)"
    if "settled ?hits ?groups g" "set (eligible_members ?hits g) \<inter> set ?known \<noteq> {}" "r \<in> set results" for g r
    using that spec(3) new(5) unfolding new_eq selected_ok_def by blast
  have eqv: "length (eh_EquivalentEvidenceIDs r) \<le> 20
      \<and> set (eh_EquivalentEvidenceIDs r) \<inter> eh_EvidenceID ` set results = {}" if r: "r \<in> set results" for r
  proof -
    have ok: "selected_ok H byID suppressed r" using r new(5) new_eq by simp
    with equivalents_apart [OF assms(1) E ok r one] show ?thesis by (simp add: selected_ok_def maxEquivalentEvidenceIDs_def)
  qed
  show ?thesis using new(2,3,4) new_eq d one known eqv by simp
qed

definition sample_evidence_hit :: "string \<Rightarrow> evidence_hit" where
  "sample_evidence_hit sid = zero_evidence_hit\<lparr>eh_EvidenceID := sid\<rparr>"

definition sample_hydration :: evidence_hydration where
  "sample_hydration = \<lparr>hyd_Hits = (\<lambda>sid. if sid \<in> {''a'', ''b'', ''c''} then Some (sample_evidence_hit sid) else None),
     hyd_Groups = [\<lparr>rg_ID = ''g'', rg_Members = [''a'', ''b'', ''z'']\<rparr>], hyd_OrganizationDegradation = []\<rparr>"

definition sample_recall_input :: recall_evidence_input where
  "sample_recall_input = \<lparr>rei_OrganizationEnabled = True, rei_OrganizationSources = [], rei_TeamID = [],
     rei_Query = ''q'', rei_QueryEmbedding = [], rei_Limit = 10, rei_ValidAt = None, rei_KnownAt = None,
     rei_KnownEvidenceIDs = [], rei_KnownRelationshipIDs = [], rei_ExpandFromEntityIDs = [],
     rei_SpaceID = [], rei_SpaceKind = ''team_shared''\<rparr>"

definition sample_candidates :: "recall_candidate list" where
  "sample_candidates = map (\<lambda>sid. fresh_candidate sid (1, 1, ''current'')) [''a'', ''b'', ''c'', ''y'']"

theorem recall_selection_groups_witness:
  "length (filter (\<lambda>r. eh_EvidenceID r \<in> {''a'', ''b''})
      (fst (selectRecallEvidence sample_candidates sample_hydration sample_recall_input))) \<le> 1
   \<and> subseq (map eh_EvidenceID (fst (selectRecallEvidence sample_candidates sample_hydration sample_recall_input)))
       [''a'', ''b'', ''c'', ''y'']"
proof -
  obtain results conflicts code where
    R: "selectRecallEvidence sample_candidates sample_hydration sample_recall_input = (results, conflicts, code)"
    by (cases "selectRecallEvidence sample_candidates sample_hydration sample_recall_input")
  have "trim_space sid = sid \<and> sid \<noteq> []" if "sid \<in> {''a'', ''b'', ''c''}" for sid
    using that by (auto simp: go_string_eval)
  then have clean: "clean_ids (hyd_Hits sample_hydration)"
    by (auto simp: clean_ids_def sample_hydration_def sample_evidence_hit_def split: if_splits)
  have ids: "map rc_ID sample_candidates = [''a'', ''b'', ''c'', ''y'']"
    by (simp add: sample_candidates_def fresh_candidate_def)
  let ?g = "\<lparr>rg_ID = ''g'', rg_Members = [''a'', ''b'', ''z'']\<rparr>"
  have g: "settled (hyd_Hits sample_hydration) (hyd_Groups sample_hydration) ?g"
    "set (eligible_members (hyd_Hits sample_hydration) ?g) = {''a'', ''b''}"
    by (auto simp: settled_def overlapping_def sample_hydration_def eligible_members_def)
  have "1 \<le> rei_Limit sample_recall_input" "\<forall>g\<in>set (hyd_Groups sample_hydration). rg_ID g \<noteq> []"
    by (simp_all add: sample_recall_input_def sample_hydration_def)
  moreover have "distinct (map rc_ID sample_candidates)" by (simp add: ids)
  ultimately have T: "subseq (map eh_EvidenceID results) (map rc_ID sample_candidates)"
    "length (filter (\<lambda>r. eh_EvidenceID r \<in> set (eligible_members (hyd_Hits sample_hydration) ?g)) results) \<le> 1"
    using recall_selection_groups [OF clean R] g(1) by blast+
  then show ?thesis unfolding R fst_conv ids g(2) by blast
qed

section \<open>Relationship results\<close>

record relationship_hit =
  rh_TeamID :: string
  rh_RelationshipID :: string
  rh_SemanticGroupKey :: string
  rh_SubjectEntityID :: string
  rh_SubjectName :: string
  rh_PredicateKey :: string
  rh_ObjectEntityID :: string
  rh_ObjectValueID :: string
  rh_ObjectName :: string
  rh_ObjectValueType :: string
  rh_ObjectValue :: string
  rh_Polarity :: string
  rh_ScopeKey :: string
  rh_ValidFrom :: "time option"
  rh_Score :: real
  rh_Rank :: int
  rh_SearchState :: string
  rh_SupportCount :: int
  rh_SourceGroupCount :: int
  rh_EvidenceIDs :: "string list"
  rh_EquivalentRelationshipIDs :: "string list"
  rh_CreatedAt :: time
  rh_SpaceKind :: string

definition relationship_less :: "relationship_hit \<Rightarrow> relationship_hit \<Rightarrow> bool" where
  "relationship_less x y =
     (if rh_Score x \<noteq> rh_Score y then rh_Score x > rh_Score y
      else if rh_CreatedAt x \<noteq> rh_CreatedAt y then rh_CreatedAt x < rh_CreatedAt y
      else rh_RelationshipID x < rh_RelationshipID y)"

definition sortRecallRelationshipResults :: "relationship_hit list \<Rightarrow> relationship_hit list" where
  "sortRecallRelationshipResults results = go_sort relationship_less results"

interpretation relationship_order: weak_order relationship_less
  by (rule weak_order_key [where key = "\<lambda>r. (- rh_Score r, rh_CreatedAt r, rh_RelationshipID r)"])
    (auto simp: relationship_less_def)

text \<open>The selection loop of \<open>RecallRelationships\<close>: one hit per semantic group, at most \<open>limit\<close>.\<close>

fun relationship_loop :: "(string \<rightharpoonup> relationship_hit) \<Rightarrow> int \<Rightarrow> string \<Rightarrow> recall_candidate list \<Rightarrow> string list
    \<Rightarrow> string \<Rightarrow> relationship_hit list \<Rightarrow> relationship_hit list \<times> string" where
  "relationship_loop hydrated limit spaceKind [] seenGroups searchState results = (results, searchState)"
| "relationship_loop hydrated limit spaceKind (c # cs) seenGroups searchState results =
     (case hydrated (rc_ID c) of
        None \<Rightarrow> relationship_loop hydrated limit spaceKind cs seenGroups searchState results
      | Some hit \<Rightarrow>
          if rh_SemanticGroupKey hit \<noteq> [] \<and> rh_SemanticGroupKey hit \<in> set seenGroups
          then relationship_loop hydrated limit spaceKind cs seenGroups searchState results
          else let hit = hit\<lparr>rh_Score := rc_Score c, rh_SpaceKind := spaceKind,
                             rh_SearchState := CombineSearchProjectionStates (rc_SearchState c) (rh_SearchState hit)\<rparr>;
                   seenGroups = (if rh_SemanticGroupKey hit \<noteq> [] then rh_SemanticGroupKey hit # seenGroups else seenGroups);
                   searchState = (if rh_SearchState hit = search_projection_state_str SearchProjectionPending
                                     \<or> rh_SearchState hit = search_projection_state_str SearchProjectionFailed
                                  then CombineSearchProjectionStates searchState (rh_SearchState hit) else searchState);
                   results = results @ [hit]
               in if int (length results) = limit then (results, searchState)
                  else relationship_loop hydrated limit spaceKind cs seenGroups searchState results)"

definition relationship_results :: "(string \<rightharpoonup> relationship_hit) \<Rightarrow> int \<Rightarrow> string \<Rightarrow> recall_candidate list \<Rightarrow> string
    \<Rightarrow> relationship_hit list \<times> string" where
  "relationship_results hydrated limit spaceKind candidates searchState =
     (case relationship_loop hydrated limit spaceKind candidates [] searchState [] of
        (results, searchState) \<Rightarrow>
          (map (\<lambda>(i, r). r\<lparr>rh_Rank := int i\<rparr>) (enumerate 1 (sortRecallRelationshipResults results)), searchState))"

section \<open>Conflict summaries\<close>

text \<open>
  \<open>limitRecallConflictSummaries\<close> works for any summary: it only reads the kind and the conflict id.
  One pass appends the summaries of its kind that were not seen, until the limit is reached.
\<close>

fun append_kind :: "('a \<Rightarrow> string) \<Rightarrow> ('a \<Rightarrow> bool) \<Rightarrow> nat \<Rightarrow> 'a list \<Rightarrow> string list \<times> 'a list \<Rightarrow> string list \<times> 'a list" where
  "append_kind cid skip limit [] st = st"
| "append_kind cid skip limit (v # vs) (seen, out) =
     (if skip v \<or> cid v \<in> set seen then append_kind cid skip limit vs (seen, out)
      else if length (out @ [v]) = limit then (cid v # seen, out @ [v])
      else append_kind cid skip limit vs (cid v # seen, out @ [v]))"

definition limitRecallConflictSummaries :: "('a \<Rightarrow> string) \<Rightarrow> ('a \<Rightarrow> string) \<Rightarrow> 'a list \<Rightarrow> int \<Rightarrow> 'a list" where
  "limitRecallConflictSummaries kind cid values limit =
     (if limit \<le> 0 then []
      else let n = nat limit;
               st = append_kind cid (\<lambda>v. kind v = ''evidence_conflict'') n values ([], []);
               st = append_kind cid (\<lambda>v. kind v \<noteq> ''evidence_conflict'') n values st
           in take n (snd st))"

definition limitStrings :: "string list \<Rightarrow> int \<Rightarrow> string list" where
  "limitStrings values limit = (if limit \<ge> 0 \<and> int (length values) > limit then take (nat limit) values else values)"

text \<open>
  Conflicts without a position about a returned result are dropped after reranking. A position is
  reduced to the evidence and relationship ids it names.
\<close>

definition returned_evidence :: "evidence_hit list \<Rightarrow> string set" where
  "returned_evidence results = (\<Union>hit\<in>set results. insert (eh_EvidenceID hit) (set (eh_EquivalentEvidenceIDs hit)))"

definition returned_relationships :: "evidence_hit list \<Rightarrow> string set" where
  "returned_relationships results = (\<Union>hit\<in>set results. set (eh_RelationshipIDs hit))"

definition keep_conflict :: "evidence_hit list \<Rightarrow> (string list \<times> string list) list \<Rightarrow> bool" where
  "keep_conflict results positions \<longleftrightarrow> (\<exists>(evidence, relationships)\<in>set positions.
     (\<exists>e\<in>set evidence. e \<in> returned_evidence results)
     \<or> (\<exists>r\<in>set relationships. r \<in> returned_relationships results))"

definition pruneDecisionConflicts :: "('c \<Rightarrow> (string list \<times> string list) list) \<Rightarrow> ('e \<Rightarrow> string list)
    \<Rightarrow> evidence_hit list \<Rightarrow> 'c list \<Rightarrow> 'e list \<Rightarrow> 'c list \<times> 'e list" where
  "pruneDecisionConflicts positions evidence_positions results conflicts evidence_conflicts =
     (filter (\<lambda>c. keep_conflict results (positions c)) conflicts,
      filter (\<lambda>c. \<exists>e\<in>set (evidence_positions c). e \<in> returned_evidence results) evidence_conflicts)"

end
