(* ===== verification/Recall_Spaces.thy ===== *)
theory Recall_Spaces
  imports Recall_Selection
begin

text \<open>
  Recall across memory spaces (\<open>recall/recall_spaces.go\<close>) and the normal form of a recall request
  (\<open>recall/recall.go\<close>). The result of every authorized space is computed by the caller's \<open>run\<close>; the
  results are fused by reciprocal rank over the pair of space kind and id.
\<close>

section \<open>Results\<close>

record recall_degradation =
  rdg_Frontier :: string
  rdg_RequiredFailure :: bool
  rdg_Optional :: bool
  rdg_Code :: string
  rdg_Message :: string

record search_states =
  sst_Evidence :: string
  sst_Relationships :: string

record recall_item =
  ri_EquivalentEvidenceIDs :: "string list"
  ri_EquivalentsTruncated :: bool
  ri_EvidenceID :: string
  ri_RelationshipIDs :: "string list"
  ri_Rank :: int
  ri_Context :: string
  ri_Source :: string
  ri_SourceType :: string
  ri_CreatedAt :: "time option"
  ri_SpaceKind :: string

record entity_handle =
  enh_EntityID :: string
  enh_Name :: string

record semantic_object =
  sob_EntityID :: string
  sob_ValueID :: string
  sob_Name :: string
  sob_Type :: string
  sob_Value :: string
  sob_Display :: string
  sob_Unit :: string

record related_relationship =
  rel_RelationshipID :: string
  rel_EquivalentRelationshipIDs :: "string list"
  rel_SemanticGroupKey :: string
  rel_Subject :: entity_handle
  rel_Predicate :: string
  rel_Object :: semantic_object
  rel_Polarity :: string
  rel_EvidenceIDs :: "string list"
  rel_SearchState :: string
  rel_SpaceKind :: string

text \<open>The positions of a conflict, the discovery paths and the decision stages are only passed on.\<close>

record 'p conflict_summary =
  cfs_ConflictID :: string
  cfs_Version :: int
  cfs_Kind :: string
  cfs_Status :: string
  cfs_Question :: string
  cfs_ReviewDueAt :: "time option"
  cfs_EffectiveAt :: "time option"
  cfs_EffectiveTimeBasis :: string
  cfs_PreferredPositionID :: string
  cfs_Positions :: "'p list"
  cfs_PositionsTruncated :: bool

record ('p, 'd, 's) recall_result =
  rr_DecisionStages :: "'s list"
  rr_RecallID :: string
  rr_Results :: "recall_item list"
  rr_Conflicts :: "'p conflict_summary list"
  rr_RelatedRelationships :: "related_relationship list"
  rr_RelatedCommunities :: "'d list"
  rr_SearchStates :: search_states
  rr_Degradations :: "recall_degradation list"
  rr_DiscoveryPaths :: "'d list"
  rr_DiscoveryGuidance :: string
  rr_Degradation :: "recall_degradation option"
  rr_SearchState :: string

section \<open>Fusion of the spaces\<close>

definition recallFusionRRFConstant :: real where "recallFusionRRFConstant = 60"

definition fusion_term :: "(real \<Rightarrow> real) \<Rightarrow> int \<Rightarrow> real" where
  "fusion_term rnd rank = rnd (1 / rnd (recallFusionRRFConstant + rnd (of_int rank)))"

text \<open>One item enters the map: key, score of its rank, its rank and the item.\<close>

type_synonym 'a fusion_entry = "'a \<times> real \<times> int"

definition fuse_item :: "(real \<Rightarrow> real) \<Rightarrow> (string \<times> 'a fusion_entry) list \<Rightarrow> string \<times> real \<times> int \<times> 'a
    \<Rightarrow> (string \<times> 'a fusion_entry) list" where
  "fuse_item rnd m x = (case x of (key, score, rank, item) \<Rightarrow>
     case map_of m key of
       None \<Rightarrow> AList.update key (item, score, rank) m
     | Some (current, acc, best) \<Rightarrow>
         AList.update key (if rank < best then (item, rnd (acc + score), rank)
                           else (current, rnd (acc + score), best)) m)"

definition evidence_entries :: "(real \<Rightarrow> real) \<Rightarrow> recall_item list \<Rightarrow> (string \<times> real \<times> int \<times> recall_item) list" where
  "evidence_entries rnd items = map (\<lambda>item. (ri_SpaceKind item @ '':'' @ ri_EvidenceID item,
     fusion_term rnd (max (ri_Rank item) 1), ri_Rank item, item)) items"

definition relationship_entries :: "(real \<Rightarrow> real) \<Rightarrow> related_relationship list
    \<Rightarrow> (string \<times> real \<times> int \<times> related_relationship) list" where
  "relationship_entries rnd items = map (\<lambda>(rank, item). (rel_SpaceKind item @ '':'' @ rel_RelationshipID item,
     fusion_term rnd (int rank + 1), int rank + 1, item)) (enumerate 0 items)"

definition compareRecallSpaceKinds :: "string \<Rightarrow> string \<Rightarrow> int" where
  "compareRecallSpaceKinds left right =
     (if left = right then 0
      else let leftRank = (if left = MemorySpaceTeamShared then 1 else 0 :: nat);
               rightRank = (if right = MemorySpaceTeamShared then 1 else 0)
           in if leftRank \<noteq> rightRank then (if leftRank < rightRank then - 1 else 1)
              else if left < right then - 1 else 1)"

definition fused_less :: "('a \<Rightarrow> string) \<Rightarrow> ('a \<Rightarrow> string) \<Rightarrow> 'a fusion_entry \<Rightarrow> 'a fusion_entry \<Rightarrow> bool" where
  "fused_less kind id_of x y =
     (if fst (snd x) \<noteq> fst (snd y) then fst (snd x) > fst (snd y)
      else let kindRank = compareRecallSpaceKinds (kind (fst x)) (kind (fst y))
           in if kindRank \<noteq> 0 then kindRank < 0 else id_of (fst x) < id_of (fst y))"

definition fused_items :: "(real \<Rightarrow> real) \<Rightarrow> ('a \<Rightarrow> string) \<Rightarrow> ('a \<Rightarrow> string) \<Rightarrow> (string \<times> real \<times> int \<times> 'a) list
    \<Rightarrow> int \<Rightarrow> 'a list" where
  "fused_items rnd kind id_of entries limit =
     (let items = go_sort (fused_less kind id_of) (map snd (foldl (fuse_item rnd) [] entries));
          limit = (if limit > int (length items) then int (length items) else limit);
          limit = (if limit < 0 then 0 else limit)
      in map fst (take (nat limit) items))"

text \<open>The search states of the branches: the first branch sets them, the others combine.\<close>

fun fuse_states :: "('p, 'd, 's) recall_result list \<Rightarrow> search_states" where
  "fuse_states [] = \<lparr>sst_Evidence = [], sst_Relationships = []\<rparr>"
| "fuse_states (branch # branches) =
     (let first = rr_SearchStates branch;
          first = (if trim_space (sst_Evidence first) = [] then first\<lparr>sst_Evidence := rr_SearchState branch\<rparr> else first)
      in foldl (\<lambda>st b. \<lparr>sst_Evidence = CombineSearchProjectionStates (sst_Evidence st) (sst_Evidence (rr_SearchStates b)),
                        sst_Relationships = CombineSearchProjectionStates (sst_Relationships st) (sst_Relationships (rr_SearchStates b))\<rparr>)
           first branches)"

definition current_if_blank :: "string \<Rightarrow> string" where
  "current_if_blank s = (if trim_space s = [] then search_projection_state_str SearchProjectionCurrent else s)"

definition fuseRecallResults :: "(real \<Rightarrow> real) \<Rightarrow> string \<Rightarrow> ('p, 'd, 's) recall_result option list \<Rightarrow> int \<Rightarrow> int
    \<Rightarrow> ('p, 'd, 's) recall_result" where
  "fuseRecallResults rnd recall_id branches resultLimit relationshipLimit =
     (let present = concat (map (\<lambda>b. case b of None \<Rightarrow> [] | Some r \<Rightarrow> [r]) branches);
          states = fuse_states present;
          states = \<lparr>sst_Evidence = current_if_blank (sst_Evidence states),
                    sst_Relationships = current_if_blank (sst_Relationships states)\<rparr>;
          results = fused_items rnd ri_SpaceKind ri_EvidenceID
            (concat (map (\<lambda>b. evidence_entries rnd (rr_Results b)) present)) resultLimit;
          relationships = fused_items rnd rel_SpaceKind rel_RelationshipID
            (concat (map (\<lambda>b. relationship_entries rnd (rr_RelatedRelationships b)) present)) relationshipLimit;
          degradations = dedup [] (concat (map rr_Degradations present))
      in \<lparr>rr_DecisionStages = concat (map rr_DecisionStages present),
          rr_RecallID = ''rec_'' @ recall_id,
          rr_Results = map (\<lambda>(i, item). item\<lparr>ri_Rank := int i\<rparr>) (enumerate 1 results),
          rr_Conflicts = limitRecallConflictSummaries cfs_Kind cfs_ConflictID (concat (map rr_Conflicts present)) 20,
          rr_RelatedRelationships = relationships,
          rr_RelatedCommunities = concat (map rr_RelatedCommunities present),
          rr_SearchStates = states,
          rr_Degradations = degradations,
          rr_DiscoveryPaths = concat (map rr_DiscoveryPaths present),
          rr_DiscoveryGuidance = ''No additional discovery guidance.'',
          rr_Degradation = (case degradations of [] \<Rightarrow> None | d # _ \<Rightarrow> Some d),
          rr_SearchState = sst_Evidence states\<rparr>)"

section \<open>Branches\<close>

definition branchID :: "(uuid \<Rightarrow> string) \<Rightarrow> memory_space_access \<Rightarrow> string" where
  "branchID uuid_string branch = (if spc_ID branch = uuid_nil then [] else uuid_string (spc_ID branch))"

definition branchKind :: "memory_space_access \<Rightarrow> string" where
  "branchKind branch = (if memory_kind_valid (spc_Kind branch) then spc_Kind branch else MemorySpaceTeamShared)"

definition branch_less :: "(uuid \<Rightarrow> string) \<Rightarrow> memory_space_access \<Rightarrow> memory_space_access \<Rightarrow> bool" where
  "branch_less uuid_string x y =
     (if branchKind x \<noteq> branchKind y then branchKind x < branchKind y
      else branchID uuid_string x < branchID uuid_string y)"

definition space_branch_unavailable :: recall_degradation where
  "space_branch_unavailable = \<lparr>rdg_Frontier = ''evidence'', rdg_RequiredFailure = False, rdg_Optional = True,
     rdg_Code = ''space_branch_unavailable'',
     rdg_Message = ''authorized memory-space branch was unavailable''\<rparr>"

definition unavailable_branch :: "('p, 'd, 's) recall_result" where
  "unavailable_branch = \<lparr>rr_DecisionStages = [], rr_RecallID = [], rr_Results = [], rr_Conflicts = [],
     rr_RelatedRelationships = [], rr_RelatedCommunities = [],
     rr_SearchStates = \<lparr>sst_Evidence = [], sst_Relationships = []\<rparr>,
     rr_Degradations = [space_branch_unavailable],
     rr_DiscoveryPaths = [], rr_DiscoveryGuidance = [], rr_Degradation = None, rr_SearchState = []\<rparr>"

text \<open>A failure of the shared space fails the recall, a failure of a private one degrades it.\<close>

fun branch_loop :: "(memory_space_access \<Rightarrow> 'e + ('p, 'd, 's) recall_result option) \<Rightarrow> memory_space_access list
    \<Rightarrow> 'e + ('p, 'd, 's) recall_result option list" where
  "branch_loop run [] = Inr []"
| "branch_loop run (branch # branches) =
     (case run branch of
        Inl err \<Rightarrow>
          if spc_Kind branch = MemorySpaceTeamShared \<or> spc_Kind branch = [] then Inl err
          else (case branch_loop run branches of Inl e \<Rightarrow> Inl e | Inr rs \<Rightarrow> Inr (Some unavailable_branch # rs))
      | Inr r \<Rightarrow> (case branch_loop run branches of Inl e \<Rightarrow> Inl e | Inr rs \<Rightarrow> Inr (r # rs)))"

definition sorted_branches :: "(uuid \<Rightarrow> string) \<Rightarrow> memory_space_access list \<Rightarrow> memory_space_access list" where
  "sorted_branches uuid_string spaces =
     go_sort (branch_less uuid_string)
       (if spaces = [] then [zero_space\<lparr>spc_Kind := MemorySpaceTeamShared\<rparr>] else spaces)"

definition recallAcrossSpaces :: "(real \<Rightarrow> real) \<Rightarrow> (uuid \<Rightarrow> string) \<Rightarrow> string
    \<Rightarrow> (memory_space_access \<Rightarrow> 'e + ('p, 'd, 's) recall_result option) \<Rightarrow> recall_degradation option
    \<Rightarrow> memory_space_access list \<Rightarrow> int \<Rightarrow> int \<Rightarrow> 'e + ('p, 'd, 's) recall_result" where
  "recallAcrossSpaces rnd uuid_string recall_id run embeddingDegradation spaces limit relationshipLimit =
     (case branch_loop run (sorted_branches uuid_string spaces) of
        Inl err \<Rightarrow> Inl err
      | Inr results \<Rightarrow>
          let fused = fuseRecallResults rnd recall_id results limit relationshipLimit
          in case embeddingDegradation of
               None \<Rightarrow> Inr fused
             | Some d \<Rightarrow> Inr (fused\<lparr>rr_Degradations := d # rr_Degradations fused, rr_Degradation := Some d\<rparr>))"

section \<open>Requests\<close>

definition defaultRecallResultLimit :: int where "defaultRecallResultLimit = 10"
definition maxRecallResultLimit :: int where "maxRecallResultLimit = 50"
definition defaultRelatedRelationshipLimit :: int where "defaultRelatedRelationshipLimit = 5"
definition maxRelatedRelationshipLimit :: int where "maxRelatedRelationshipLimit = 20"
definition DefaultRecallCommunityLimit :: int where "DefaultRecallCommunityLimit = 3"
definition MaxRecallCommunityLimit :: int where "MaxRecallCommunityLimit = 10"
definition DefaultRecallCommunityRelationshipLimit :: int where "DefaultRecallCommunityRelationshipLimit = 5"
definition MaxRecallCommunityRelationshipLimit :: int where "MaxRecallCommunityRelationshipLimit = 20"

record recall_request =
  rq_Query :: string
  rq_Limit :: int
  rq_RelationshipLimit :: "int option"
  rq_CommunityLimit :: "int option"
  rq_CommunityRelationshipLimit :: "int option"
  rq_ValidAt :: "time option"
  rq_KnownAt :: "time option"
  rq_KnownEvidenceIDs :: "string list"
  rq_KnownRelationshipIDs :: "string list"
  rq_ExpandFromEntityIDs :: "string list"

definition normalizeRecallOptionalLimit :: "int option \<Rightarrow> int \<Rightarrow> int \<Rightarrow> int option" where
  "normalizeRecallOptionalLimit v defaultValue maxValue =
     (case v of
        None \<Rightarrow> Some defaultValue
      | Some n \<Rightarrow> let n = (if n < 0 then 0 else n) in Some (if n > maxValue then maxValue else n))"

definition normalizeRecallPositiveLimit :: "int option \<Rightarrow> int \<Rightarrow> int \<Rightarrow> int option" where
  "normalizeRecallPositiveLimit v defaultValue maxValue =
     map_option (\<lambda>n. if n < 1 then 1 else n) (normalizeRecallOptionalLimit v defaultValue maxValue)"

definition recallOptionalLimitValue :: "int option \<Rightarrow> int" where
  "recallOptionalLimitValue v = (case v of None \<Rightarrow> 0 | Some n \<Rightarrow> n)"

text \<open>\<open>uuid_canonical s\<close> is \<open>uuid.Parse(s)\<close> printed again, or \<open>None\<close> when it fails.\<close>

definition normalizeRecallRequestIDs :: "(string \<Rightarrow> string option) \<Rightarrow> string list \<Rightarrow> string list" where
  "normalizeRecallRequestIDs uuid_canonical values =
     NormalizeReadIDList (map (\<lambda>v. case uuid_canonical v of None \<Rightarrow> v | Some c \<Rightarrow> c) (NormalizeReadIDList values))"

definition normalizeRecallRequest :: "(string \<Rightarrow> string option) \<Rightarrow> recall_request \<Rightarrow> recall_request" where
  "normalizeRecallRequest uuid_canonical req =
     (let limit = (if rq_Limit req \<le> 0 then defaultRecallResultLimit else rq_Limit req);
          limit = (if limit > maxRecallResultLimit then maxRecallResultLimit else limit)
      in req\<lparr>rq_Query := trim_space (rq_Query req),
             rq_Limit := limit,
             rq_RelationshipLimit := normalizeRecallOptionalLimit (rq_RelationshipLimit req)
               defaultRelatedRelationshipLimit maxRelatedRelationshipLimit,
             rq_CommunityLimit := normalizeRecallOptionalLimit (rq_CommunityLimit req)
               DefaultRecallCommunityLimit MaxRecallCommunityLimit,
             rq_CommunityRelationshipLimit := normalizeRecallPositiveLimit (rq_CommunityRelationshipLimit req)
               DefaultRecallCommunityRelationshipLimit MaxRecallCommunityRelationshipLimit,
             rq_KnownEvidenceIDs := normalizeRecallRequestIDs uuid_canonical (rq_KnownEvidenceIDs req),
             rq_KnownRelationshipIDs := normalizeRecallRequestIDs uuid_canonical (rq_KnownRelationshipIDs req),
             rq_ExpandFromEntityIDs := normalizeRecallRequestIDs uuid_canonical (rq_ExpandFromEntityIDs req)\<rparr>)"

definition normalizeRecallEvidenceInput :: "(string \<Rightarrow> string option) \<Rightarrow> recall_evidence_input \<Rightarrow> recall_evidence_input" where
  "normalizeRecallEvidenceInput uuid_canonical input =
     (let spaceID = trim_space (rei_SpaceID input); spaceKind = trim_space (rei_SpaceKind input);
          limit = (if rei_Limit input \<le> 0 then defaultRecallResultLimit else rei_Limit input)
      in input\<lparr>rei_TeamID := trim_space (rei_TeamID input), rei_Query := trim_space (rei_Query input),
               rei_KnownEvidenceIDs := normalizeRecallRequestIDs uuid_canonical (rei_KnownEvidenceIDs input),
               rei_KnownRelationshipIDs := normalizeRecallRequestIDs uuid_canonical (rei_KnownRelationshipIDs input),
               rei_ExpandFromEntityIDs := normalizeRecallRequestIDs uuid_canonical (rei_ExpandFromEntityIDs input),
               rei_SpaceID := spaceID,
               rei_SpaceKind := (if spaceID = [] \<and> spaceKind = [] then MemorySpaceTeamShared else spaceKind),
               rei_Limit := (if limit > maxRecallResultLimit then maxRecallResultLimit else limit)\<rparr>)"

definition normalizeRecallGroupKeys :: "string list \<Rightarrow> string list" where
  "normalizeRecallGroupKeys values = sort_strings (NormalizeReadIDList values)"

datatype recall_input_error = TeamIDRequired | SpaceKindInvalid | SpaceIDRequired | SpaceIDInvalid
  | QueryRequired | InvalidUUID

definition validateRecallRetrievalInput :: "(string \<Rightarrow> string option) \<Rightarrow> string \<Rightarrow> string \<Rightarrow> string list \<Rightarrow> string list
    \<Rightarrow> string list \<Rightarrow> string \<Rightarrow> string \<Rightarrow> recall_input_error option" where
  "validateRecallRetrievalInput uuid_canonical teamID query expandIDs knownEvidenceIDs knownRelationshipIDs spaceID spaceKind =
     (if uuid_canonical teamID = None then Some TeamIDRequired
      else if spaceKind \<noteq> [] \<and> \<not> memory_kind_valid spaceKind then Some SpaceKindInvalid
      else if spaceKind \<noteq> [] \<and> spaceKind \<noteq> MemorySpaceTeamShared \<and> spaceID = [] then Some SpaceIDRequired
      else if spaceID \<noteq> [] \<and> uuid_canonical spaceID = None then Some SpaceIDInvalid
      else if query = [] \<and> expandIDs = [] then Some QueryRequired
      else first_error (\<lambda>v. if uuid_canonical v = None then Some InvalidUUID else None)
             (knownEvidenceIDs @ knownRelationshipIDs @ expandIDs))"

definition validateRecallEvidenceInput :: "(string \<Rightarrow> string option) \<Rightarrow> recall_evidence_input \<Rightarrow> recall_input_error option" where
  "validateRecallEvidenceInput uuid_canonical input =
     validateRecallRetrievalInput uuid_canonical (rei_TeamID input) (rei_Query input) (rei_ExpandFromEntityIDs input)
       (rei_KnownEvidenceIDs input) (rei_KnownRelationshipIDs input) (rei_SpaceID input) (rei_SpaceKind input)"

section \<open>Properties\<close>

text \<open>
  The entries with one key, folded: the item of the best rank (the first one on a tie) and the sum of
  the scores in the order of the entries.
\<close>

fun merged_entry :: "(real \<Rightarrow> real) \<Rightarrow> 'a fusion_entry option \<Rightarrow> (real \<times> int \<times> 'a) list \<Rightarrow> 'a fusion_entry option" where
  "merged_entry rnd st [] = st"
| "merged_entry rnd st ((score, rank, item) # es) =
     merged_entry rnd (Some (case st of
         None \<Rightarrow> (item, score, rank)
       | Some (current, acc, best) \<Rightarrow> (if rank < best then (item, rnd (acc + score), rank)
                                       else (current, rnd (acc + score), best)))) es"

lemma merged_entry_append: "merged_entry rnd st (xs @ ys) = merged_entry rnd (merged_entry rnd st xs) ys"
  by (induction rnd st xs rule: merged_entry.induct) simp_all

definition with_key :: "string \<Rightarrow> (string \<times> real \<times> int \<times> 'a) list \<Rightarrow> (real \<times> int \<times> 'a) list" where
  "with_key key es = map snd (filter (\<lambda>e. fst e = key) es)"

lemma fuse_items_map: "map_of (foldl (fuse_item rnd) [] es) key = merged_entry rnd None (with_key key es)"
proof (induction es rule: rev_induct)
  case Nil
  then show ?case by (simp add: with_key_def)
next
  case (snoc e es)
  obtain k score rank item where e: "e = (k, score, rank, item)" by (cases e)
  show ?case
  proof (cases "k = key")
    case True
    then show ?thesis using snoc
      by (auto simp: e fuse_item_def with_key_def merged_entry_append split: option.splits)
  next
    case False
    then show ?thesis using snoc
      by (auto simp: e fuse_item_def with_key_def split: option.splits)
  qed
qed

lemma fuse_items_distinct: "distinct (map fst (foldl (fuse_item rnd) [] es))"
  by (induction es rule: rev_induct) (auto simp: fuse_item_def split: prod.splits option.splits)

lemma merged_entry_Some:
  "merged_entry rnd st es = Some (item, score, best) \<Longrightarrow>
     (st = Some (item, s, best) \<and> (\<forall>e\<in>set es. best \<le> fst (snd e)) \<longrightarrow> True)
     \<and> ((\<exists>s. st = Some (item, s, best)) \<or> (\<exists>s. (s, best, item) \<in> set es))"
  by (induction rnd st es arbitrary: rule: merged_entry.induct) (auto split: option.splits if_splits)

lemma merged_entry_None: "merged_entry rnd st es = None \<longleftrightarrow> st = None \<and> es = []"
  by (induction rnd st es rule: merged_entry.induct) auto

lemma merged_entry_best:
  "merged_entry rnd st es = Some (item, score, best) \<Longrightarrow>
     (\<forall>e\<in>set es. best \<le> fst (snd e)) \<and> (\<forall>i s b. st = Some (i, s, b) \<longrightarrow> best \<le> b)"
  by (induction rnd st es rule: merged_entry.induct) (fastforce split: option.splits if_splits)+

definition kind_key :: "string \<Rightarrow> nat \<times> string" where
  "kind_key k = (if k = MemorySpaceTeamShared then 1 else 0, k)"

lemma compare_kinds: "compareRecallSpaceKinds l r < 0 \<longleftrightarrow> kind_key l < kind_key r"
  "compareRecallSpaceKinds l r = 0 \<longleftrightarrow> l = r"
  by (auto simp: compareRecallSpaceKinds_def kind_key_def less_prod_def Let_def)

lemma fused_less_key:
  "fused_less kind id_of x y \<longleftrightarrow>
     (- fst (snd x), kind_key (kind (fst x)), id_of (fst x)) < (- fst (snd y), kind_key (kind (fst y)), id_of (fst y))"
  using compare_kinds [of "kind (fst x)" "kind (fst y)"]
  by (auto simp: fused_less_def Let_def less_prod_def kind_key_def)

interpretation fused_order: weak_order "fused_less kind id_of" for kind id_of
  by (rule weak_order_key) (rule fused_less_key)

text \<open>Keys determine the kind and the id of an item, and the other way round.\<close>

definition keyed_by :: "('a \<Rightarrow> string) \<Rightarrow> ('a \<Rightarrow> string) \<Rightarrow> (string \<times> real \<times> int \<times> 'a) list \<Rightarrow> bool" where
  "keyed_by kind id_of es \<longleftrightarrow> (\<forall>(key, score, rank, item)\<in>set es. key = kind item @ '':'' @ id_of item)"

lemma fused_map_entry:
  assumes "keyed_by kind id_of es" and "(key, item, score, best) \<in> set (foldl (fuse_item rnd) [] es)"
  shows "key = kind item @ '':'' @ id_of item"
    and "merged_entry rnd None (with_key key es) = Some (item, score, best)"
    and "\<exists>s. (key, s, best, item) \<in> set es"
    and "\<forall>(k, s, r, i)\<in>set es. k = key \<longrightarrow> best \<le> r"
proof -
  have m: "map_of (foldl (fuse_item rnd) [] es) key = Some (item, score, best)"
    using assms(2) fuse_items_distinct by (rule map_of_is_SomeI [rotated])
  then show e: "merged_entry rnd None (with_key key es) = Some (item, score, best)" by (simp add: fuse_items_map)
  from merged_entry_Some [OF this] obtain s where "(s, best, item) \<in> set (with_key key es)" by auto
  then show ex: "\<exists>s. (key, s, best, item) \<in> set es" by (force simp: with_key_def)
  then show "key = kind item @ '':'' @ id_of item" using assms(1) by (auto simp: keyed_by_def)
  show "\<forall>(k, s, r, i)\<in>set es. k = key \<longrightarrow> best \<le> r"
    using merged_entry_best [OF e] by (force simp: with_key_def)
qed

lemma fused_items_unique:
  assumes "keyed_by kind id_of es" and "mset order = mset (map snd (foldl (fuse_item rnd) [] es))"
  shows "go_sort (fused_less kind id_of) order = go_sort (fused_less kind id_of) (map snd (foldl (fuse_item rnd) [] es))"
proof -
  let ?m = "foldl (fuse_item rnd) [] es"
  have "total_order_axioms (fused_less kind id_of) (\<lambda>e. e \<in> set (map snd ?m))"
  proof
    fix x y assume "x \<in> set (map snd ?m)" "y \<in> set (map snd ?m)"
      "\<not> fused_less kind id_of x y" "\<not> fused_less kind id_of y x"
    then obtain k l where k: "(k, x) \<in> set ?m" "(l, y) \<in> set ?m"
      and eq: "kind (fst x) = kind (fst y)" "id_of (fst x) = id_of (fst y)"
      by (auto simp: fused_less_key kind_key_def)
    have "k = kind (fst x) @ '':'' @ id_of (fst x)" "l = kind (fst y) @ '':'' @ id_of (fst y)"
      using k fused_map_entry(1) [OF assms(1), of _ "fst x" "fst (snd x)" "snd (snd x)"]
        fused_map_entry(1) [OF assms(1), of _ "fst y" "fst (snd y)" "snd (snd y)"] by simp_all
    then have "k = l" by (simp add: eq)
    then show "x = y" using k fuse_items_distinct by (metis eq_key_imp_eq_value)
  qed
  then have "total_order (fused_less kind id_of) (\<lambda>e. e \<in> set (map snd ?m))"
    by (rule total_order.intro [OF fused_order.weak_order_axioms])
  from total_order.go_sort_perm [OF this assms(2)] show ?thesis
    using assms(2) by (metis set_mset_mset)
qed

lemma fused_items_spec:
  assumes "keyed_by kind id_of es"
  shows "length (fused_items rnd kind id_of es limit) \<le> nat limit"
    and "distinct (map (\<lambda>i. kind i @ '':'' @ id_of i) (fused_items rnd kind id_of es limit))"
    and "item \<in> set (fused_items rnd kind id_of es limit) \<Longrightarrow>
      \<exists>s best. (kind item @ '':'' @ id_of item, s, best, item) \<in> set es
        \<and> (\<forall>(k, s, r, i)\<in>set es. k = kind item @ '':'' @ id_of item \<longrightarrow> best \<le> r)"
proof -
  let ?m = "foldl (fuse_item rnd) [] es"
  let ?s = "go_sort (fused_less kind id_of) (map snd ?m)"
  obtain n where n: "fused_items rnd kind id_of es limit = map fst (take n ?s)" "n \<le> nat limit"
  proof (rule that)
    let ?l = "if limit > int (length ?s) then int (length ?s) else limit"
    show "fused_items rnd kind id_of es limit = map fst (take (nat (if ?l < 0 then 0 else ?l)) ?s)"
      by (simp only: fused_items_def Let_def)
    show "nat (if ?l < 0 then 0 else ?l) \<le> nat limit" by auto
  qed
  show "length (fused_items rnd kind id_of es limit) \<le> nat limit" using n by simp
  let ?key = "\<lambda>e. kind (fst e) @ '':'' @ id_of (fst e)"
  have keys: "map ?key (map snd ?m) = map fst ?m"
    using fused_map_entry(1) [OF assms] by (auto intro!: map_cong)
  have "distinct (map ?key ?s)" by (simp only: distinct_go_sort keys fuse_items_distinct)
  then have "distinct (map ?key (take n ?s))" by (simp only: take_map [symmetric] distinct_take)
  then show "distinct (map (\<lambda>i. kind i @ '':'' @ id_of i) (fused_items rnd kind id_of es limit))"
    by (simp add: n(1) comp_def)
  assume "item \<in> set (fused_items rnd kind id_of es limit)"
  then obtain score best where "(item, score, best) \<in> set ?s" by (auto simp: n(1) dest: in_set_takeD)
  then obtain key where "(key, item, score, best) \<in> set ?m" by auto
  from fused_map_entry [OF assms this]
  show "\<exists>s best. (kind item @ '':'' @ id_of item, s, best, item) \<in> set es
        \<and> (\<forall>(k, s, r, i)\<in>set es. k = kind item @ '':'' @ id_of item \<longrightarrow> best \<le> r)" by blast
qed

text \<open>The bound of the conflict summaries.\<close>

lemma append_kind_spec:
  assumes "append_kind cid skip n vs (seen, out) = (seen', out')"
    and "distinct (map cid out)" and "cid ` set out \<subseteq> set seen"
  shows "distinct (map cid out') \<and> cid ` set out' \<subseteq> set seen' \<and> set out' \<subseteq> set out \<union> set vs"
  using assms
proof (induction cid skip n vs "(seen, out)" arbitrary: seen out rule: append_kind.induct)
  case (2 cid skip n v vs seen out)
  show ?case
  proof (cases "skip v \<or> cid v \<in> set seen")
    case True
    then show ?thesis using 2 by auto
  next
    case fresh: False
    then have d: "distinct (map cid (out @ [v]))" "cid ` set (out @ [v]) \<subseteq> set (cid v # seen)"
      using 2 by auto
    show ?thesis
    proof (cases "length (out @ [v]) = n")
      case True
      then show ?thesis using 2(3) fresh d by auto
    next
      case False
      then have "append_kind cid skip n vs (cid v # seen, out @ [v]) = (seen', out')"
        using 2(3) fresh by (simp split: if_splits)
      with 2(2) [OF fresh False this d] show ?thesis by auto
    qed
  qed
qed simp

lemma limit_summaries_spec:
  "int (length (limitRecallConflictSummaries kind cid vs n)) \<le> max 0 n
   \<and> distinct (map cid (limitRecallConflictSummaries kind cid vs n))
   \<and> set (limitRecallConflictSummaries kind cid vs n) \<subseteq> set vs"
proof (cases "n \<le> 0")
  case False
  obtain s1 o1 where one: "append_kind cid (\<lambda>v. kind v = ''evidence_conflict'') (nat n) vs ([], []) = (s1, o1)"
    by fastforce
  obtain s2 o2 where two: "append_kind cid (\<lambda>v. kind v \<noteq> ''evidence_conflict'') (nat n) vs (s1, o1) = (s2, o2)"
    by fastforce
  have 1: "distinct (map cid o1)" "cid ` set o1 \<subseteq> set s1" "set o1 \<subseteq> set vs"
    using append_kind_spec [OF one] by auto
  have 2: "distinct (map cid o2)" "set o2 \<subseteq> set vs" using append_kind_spec [OF two 1(1,2)] 1(3) by auto
  have eq: "limitRecallConflictSummaries kind cid vs n = take (nat n) o2"
    using False one two by (simp add: limitRecallConflictSummaries_def Let_def)
  show ?thesis
    using 2 False unfolding eq by (auto simp: take_map [symmetric] dest: in_set_takeD)
qed (simp add: limitRecallConflictSummaries_def)

lemma evidence_entries_keyed: "keyed_by ri_SpaceKind ri_EvidenceID (concat (map (\<lambda>b. evidence_entries rnd (rr_Results b)) bs))"
  by (auto simp: keyed_by_def evidence_entries_def)

lemma relationship_entries_keyed:
  "keyed_by rel_SpaceKind rel_RelationshipID (concat (map (\<lambda>b. relationship_entries rnd (rr_RelatedRelationships b)) bs))"
  by (auto simp: keyed_by_def relationship_entries_def)

definition present_branches :: "('p, 'd, 's) recall_result option list \<Rightarrow> ('p, 'd, 's) recall_result list" where
  "present_branches branches = concat (map (\<lambda>b. case b of None \<Rightarrow> [] | Some r \<Rightarrow> [r]) branches)"

lemma set_present_branches [simp]: "set (present_branches branches) = {r. Some r \<in> set branches}"
  by (auto simp: present_branches_def split: option.splits)

lemma distinct_keys_pairs:
  assumes "distinct (map (\<lambda>i. kind i @ '':'' @ id_of i) xs)"
  shows "distinct (map (\<lambda>i. (kind i, id_of i)) xs)"
  using assms by (induction xs) auto

lemma entry_mem:
  assumes "Some b \<in> set branches" and "j \<in> set (rr_Results b)"
  shows "(ri_SpaceKind j @ '':'' @ ri_EvidenceID j, fusion_term rnd (max (ri_Rank j) 1), ri_Rank j, j)
    \<in> set (concat (map (\<lambda>b. evidence_entries rnd (rr_Results b)) (present_branches branches)))"
proof -
  have "(ri_SpaceKind j @ '':'' @ ri_EvidenceID j, fusion_term rnd (max (ri_Rank j) 1), ri_Rank j, j)
      \<in> set (evidence_entries rnd (rr_Results b))"
    using assms(2) unfolding evidence_entries_def set_map by (rule image_eqI [rotated]) simp
  moreover have "b \<in> set (present_branches branches)" using assms(1) by simp
  ultimately show ?thesis by (auto simp only: set_concat set_map)
qed

definition unranked :: "recall_item \<Rightarrow> recall_item" where
  "unranked i = i\<lparr>ri_Rank := 0\<rparr>"

text \<open>The results are the fused items under their new ranks.\<close>

definition reranked :: "recall_item list \<Rightarrow> recall_item list" where
  "reranked items = map (\<lambda>(i, item). item\<lparr>ri_Rank := int i\<rparr>) (enumerate 1 items)"

lemma nth_reranked: "k < length items \<Longrightarrow> reranked items ! k = (items ! k)\<lparr>ri_Rank := int (k + 1)\<rparr>"
  by (simp add: reranked_def nth_enumerate_eq)

lemma length_reranked [simp]: "length (reranked items) = length items"
  by (simp add: reranked_def)

lemma reranked_ranks: "map ri_Rank (reranked items) = map int [1..<length items + 1]"
  by (rule nth_equalityI) (simp_all add: nth_reranked del: upt_Suc)

lemma reranked_pairs: "map (\<lambda>i. (ri_SpaceKind i, ri_EvidenceID i)) (reranked items)
    = map (\<lambda>i. (ri_SpaceKind i, ri_EvidenceID i)) items"
  by (rule nth_equalityI) (simp_all add: nth_reranked)

lemma reranked_origin:
  assumes "i \<in> set (reranked items)"
  obtains j where "j \<in> set items" "ri_SpaceKind i = ri_SpaceKind j" "ri_EvidenceID i = ri_EvidenceID j" "unranked j = unranked i"
proof -
  obtain k where "k < length items" "i = (items ! k)\<lparr>ri_Rank := int (k + 1)\<rparr>"
    using assms nth_reranked by (auto simp: in_set_conv_nth)
  then show ?thesis by (intro that [of "items ! k"]) (simp_all add: unranked_def)
qed

text \<open>A fused item is the one that some space ranked best.\<close>

lemma fused_item_best:
  assumes "j \<in> set (fused_items rnd ri_SpaceKind ri_EvidenceID
      (concat (map (\<lambda>b. evidence_entries rnd (rr_Results b)) (present_branches branches))) limit)"
  shows "\<exists>b. Some b \<in> set branches \<and> j \<in> set (rr_Results b)
    \<and> (\<forall>b' j'. Some b' \<in> set branches \<longrightarrow> j' \<in> set (rr_Results b') \<longrightarrow> ri_SpaceKind j' = ri_SpaceKind j
         \<longrightarrow> ri_EvidenceID j' = ri_EvidenceID j \<longrightarrow> ri_Rank j \<le> ri_Rank j')"
proof -
  let ?es = "concat (map (\<lambda>b. evidence_entries rnd (rr_Results b)) (present_branches branches))"
  obtain s best where j: "(ri_SpaceKind j @ '':'' @ ri_EvidenceID j, s, best, j) \<in> set ?es"
    and least: "\<forall>(key, s, r, i)\<in>set ?es. key = ri_SpaceKind j @ '':'' @ ri_EvidenceID j \<longrightarrow> best \<le> r"
    using fused_items_spec(3) [OF evidence_entries_keyed assms] by blast
  obtain b where b: "Some b \<in> set branches" "j \<in> set (rr_Results b)" "best = ri_Rank j"
    using j by (auto simp: evidence_entries_def)
  have "ri_Rank j \<le> ri_Rank j'"
    if "Some b' \<in> set branches" "j' \<in> set (rr_Results b')" "ri_SpaceKind j' = ri_SpaceKind j"
      "ri_EvidenceID j' = ri_EvidenceID j" for b' j'
    using least b(3) entry_mem [OF that(1,2), of rnd] that(3,4) by fastforce
  with b(1,2) show ?thesis by blast
qed


definition sample_item :: "string \<Rightarrow> int \<Rightarrow> recall_item" where
  "sample_item sid rank = \<lparr>ri_EquivalentEvidenceIDs = [], ri_EquivalentsTruncated = False, ri_EvidenceID = sid,
     ri_RelationshipIDs = [], ri_Rank = rank, ri_Context = [], ri_Source = [], ri_SourceType = [],
     ri_CreatedAt = None, ri_SpaceKind = MemorySpaceTeamShared\<rparr>"

definition sample_branch :: "(nat, nat, nat) recall_result" where
  "sample_branch = unavailable_branch\<lparr>rr_Results := [sample_item ''a'' 1, sample_item ''b'' 2]\<rparr>"


definition shared_branch :: "memory_space_access \<Rightarrow> bool" where
  "shared_branch b \<longleftrightarrow> spc_Kind b = MemorySpaceTeamShared \<or> spc_Kind b = []"

lemma branch_loop_fails:
  "(\<exists>err. branch_loop run bs = Inl err) \<longleftrightarrow> (\<exists>b\<in>set bs. shared_branch b \<and> (\<exists>err. run b = Inl err))"
  by (induction bs) (auto simp: shared_branch_def split: sum.splits)

lemma branch_loop_degrades:
  "branch_loop run bs = Inr rs \<Longrightarrow> b \<in> set bs \<Longrightarrow> run b = Inl err \<Longrightarrow> Some unavailable_branch \<in> set rs"
  by (induction bs arbitrary: rs) (auto split: sum.splits if_splits)

lemma branch_loop_keeps:
  "branch_loop run bs = Inr rs \<Longrightarrow> b \<in> set bs \<Longrightarrow> run b = Inr r \<Longrightarrow> r \<in> set rs"
  by (induction bs arbitrary: rs) (auto split: sum.splits if_splits)

interpretation branch_order: weak_order "branch_less uuid_string" for uuid_string
  by (rule weak_order_key [where key = "\<lambda>b. (branchKind b, branchID uuid_string b)"]) (auto simp: branch_less_def)

text \<open>
  (recall_space_failures): a recall over several spaces fails exactly when the search of a shared
  space fails; the failure of a private space is reported as a degradation and leaves the degradations
  of the other spaces in place.
\<close>

theorem recall_space_failures:
  assumes "spaces \<noteq> []"
  shows "((\<exists>err. recallAcrossSpaces rnd uuid_string recall_id run embedding spaces limit rlimit = Inl err)
      \<longleftrightarrow> (\<exists>b\<in>set spaces. shared_branch b \<and> (\<exists>err. run b = Inl err)))
    \<and> (\<forall>R b. recallAcrossSpaces rnd uuid_string recall_id run embedding spaces limit rlimit = Inr R \<longrightarrow> b \<in> set spaces \<longrightarrow>
        (case run b of
           Inl err \<Rightarrow> space_branch_unavailable \<in> set (rr_Degradations R)
         | Inr None \<Rightarrow> True
         | Inr (Some r) \<Rightarrow> set (rr_Degradations r) \<subseteq> set (rr_Degradations R)))"
proof -
  have sb: "set (sorted_branches uuid_string spaces) = set spaces" using assms by (simp add: sorted_branches_def)
  have "(\<exists>err. recallAcrossSpaces rnd uuid_string recall_id run embedding spaces limit rlimit = Inl err)
      \<longleftrightarrow> (\<exists>err. branch_loop run (sorted_branches uuid_string spaces) = Inl err)"
    by (auto simp: recallAcrossSpaces_def Let_def split: sum.splits option.splits)
  also have "\<dots> \<longleftrightarrow> (\<exists>b\<in>set spaces. shared_branch b \<and> (\<exists>err. run b = Inl err))"
    by (simp only: branch_loop_fails sb)
  finally have fails: "(\<exists>err. recallAcrossSpaces rnd uuid_string recall_id run embedding spaces limit rlimit = Inl err)
      \<longleftrightarrow> (\<exists>b\<in>set spaces. shared_branch b \<and> (\<exists>err. run b = Inl err))" .
  have "case run b of
           Inl err \<Rightarrow> space_branch_unavailable \<in> set (rr_Degradations R)
         | Inr None \<Rightarrow> True
         | Inr (Some r) \<Rightarrow> set (rr_Degradations r) \<subseteq> set (rr_Degradations R)"
    if R: "recallAcrossSpaces rnd uuid_string recall_id run embedding spaces limit rlimit = Inr R" and b: "b \<in> set spaces" for R b
  proof -
    obtain rs where rs: "branch_loop run (sorted_branches uuid_string spaces) = Inr rs"
      using R by (auto simp: recallAcrossSpaces_def split: sum.splits)
    have "set (rr_Degradations (fuseRecallResults rnd recall_id rs limit rlimit)) \<subseteq> set (rr_Degradations R)"
      using R rs by (auto simp: recallAcrossSpaces_def Let_def split: option.splits)
    moreover have "set (rr_Degradations (fuseRecallResults rnd recall_id rs limit rlimit))
        = (\<Union>r\<in>{r. Some r \<in> set rs}. set (rr_Degradations r))"
      by (simp add: fuseRecallResults_def Let_def present_branches_def [symmetric])
    ultimately have sub: "set (rr_Degradations r) \<subseteq> set (rr_Degradations R)" if "Some r \<in> set rs" for r
      using that by blast
    show ?thesis
    proof (cases "run b")
      case (Inl err)
      then have "Some unavailable_branch \<in> set rs" using branch_loop_degrades [OF rs] b sb by blast
      from sub [OF this] show ?thesis by (simp add: Inl unavailable_branch_def)
    next
      case (Inr r)
      then have "r \<in> set rs" using branch_loop_keeps [OF rs] b sb by blast
      with sub Inr show ?thesis by (cases r) simp_all
    qed
  qed
  with fails show ?thesis by blast
qed

theorem recall_space_failures_witness:
  "\<exists>R. recallAcrossSpaces (\<lambda>x. x) (\<lambda>_. ''u'') [] (\<lambda>b. if spc_Kind b = MemorySpacePrivate then Inl () else Inr (Some sample_branch))
      None [zero_space\<lparr>spc_Kind := MemorySpaceTeamShared\<rparr>, zero_space\<lparr>spc_Kind := MemorySpacePrivate\<rparr>] 5 5 = Inr R
    \<and> space_branch_unavailable \<in> set (rr_Degradations R)"
proof -
  let ?s = "[zero_space\<lparr>spc_Kind := MemorySpaceTeamShared\<rparr>, zero_space\<lparr>spc_Kind := MemorySpacePrivate\<rparr>]"
  let ?run = "\<lambda>b. if spc_Kind b = MemorySpacePrivate then Inl () else Inr (Some sample_branch)"
  note T = recall_space_failures [of ?s "\<lambda>x. x" "\<lambda>_. ''u''" "[]" ?run None 5 5]
  have "\<not> (\<exists>b\<in>set ?s. shared_branch b \<and> (\<exists>err. ?run b = Inl err))" by (simp add: shared_branch_def)
  with T obtain R where R: "recallAcrossSpaces (\<lambda>x. x) (\<lambda>_. ''u'') [] ?run None ?s 5 5 = Inr R"
    by (metis list.distinct(1) obj_sumE)
  have priv: "zero_space\<lparr>spc_Kind := MemorySpacePrivate\<rparr> \<in> set ?s" by simp
  have "case ?run (zero_space\<lparr>spc_Kind := MemorySpacePrivate\<rparr>) of
           Inl err \<Rightarrow> space_branch_unavailable \<in> set (rr_Degradations R)
         | Inr None \<Rightarrow> True
         | Inr (Some r) \<Rightarrow> set (rr_Degradations r) \<subseteq> set (rr_Degradations R)"
    using T [THEN conjunct2, rule_format, OF _ R priv] by simp
  then have "space_branch_unavailable \<in> set (rr_Degradations R)" by simp
  with R show ?thesis by blast
qed

end
