(* ===== verification/Go_Loops.thy ===== *)
theory Go_Loops
  imports Go_Strings
begin

text \<open>
  The shapes in which the validators are written: loops over a slice that carry a state (usually the keys seen so
  far), may rewrite the element in place and append errors; maps built from a slice by key; \<open>%d\<close> of an integer
  and the keys that end in such numbers. The laws say what a loop without errors has established.
\<close>

section \<open>Slices\<close>

text \<open>The elements of a slice that may be nil.\<close>

definition slice_of :: "'a list option \<Rightarrow> 'a list" where
  "slice_of xs = (case xs of None \<Rightarrow> [] | Some ys \<Rightarrow> ys)"

lemma slice_of_simps [simp]: "slice_of None = []" "slice_of (Some ys) = ys"
  by (simp_all add: slice_of_def)

section \<open>Validation loops\<close>

text \<open>One step takes the state, the index and the element to the new state and the errors of the element.\<close>

fun each :: "('s \<Rightarrow> nat \<Rightarrow> 'a \<Rightarrow> 's \<times> 'e list) \<Rightarrow> 's \<Rightarrow> nat \<Rightarrow> 'a list \<Rightarrow> 's \<times> 'e list" where
  "each step s i [] = (s, [])"
| "each step s i (x # xs) =
     (let (s', es) = step s i x; (s'', fs) = each step s' (Suc i) xs in (s'', es @ fs))"

text \<open>The same with an element that the step rewrites.\<close>

fun each_rewrite :: "('s \<Rightarrow> nat \<Rightarrow> 'a \<Rightarrow> 's \<times> 'b \<times> 'e list) \<Rightarrow> 's \<Rightarrow> nat \<Rightarrow> 'a list \<Rightarrow> 's \<times> 'b list \<times> 'e list" where
  "each_rewrite step s i [] = (s, [], [])"
| "each_rewrite step s i (x # xs) =
     (let (s', y, es) = step s i x; (s'', ys, fs) = each_rewrite step s' (Suc i) xs in (s'', y # ys, es @ fs))"

text \<open>Errors of a loop without state.\<close>

definition indexed :: "(nat \<Rightarrow> 'a \<Rightarrow> 'e list) \<Rightarrow> 'a list \<Rightarrow> 'e list" where
  "indexed f xs = concat (map (\<lambda>(i, x). f i x) (enumerate 0 xs))"

lemma indexed_Nil_iff: "indexed f xs = [] \<longleftrightarrow> (\<forall>i < length xs. f i (xs ! i) = [])"
  unfolding indexed_def by (force simp: enumerate_eq_zip set_zip)

text \<open>
  If a step without errors means that the key of the element is new and has been recorded, a loop without
  errors has seen distinct keys, and each element has what its step establishes.
\<close>

lemma each_distinct:
  assumes "\<And>s i x. snd (step s i x) = [] \<Longrightarrow> key x \<notin> set s \<and> fst (step s i x) = key x # s \<and> P i x"
    and "snd (each step s i xs) = []"
  shows "distinct (map key xs) \<and> set (map key xs) \<inter> set s = {}
    \<and> set (fst (each step s i xs)) = set s \<union> set (map key xs) \<and> (\<forall>j < length xs. P (i + j) (xs ! j))"
  using assms(2)
proof (induction xs arbitrary: s i)
  case (Cons x xs)
  obtain s' es where step: "step s i x = (s', es)" by force
  obtain s'' fs where rest: "each step s' (Suc i) xs = (s'', fs)" by force
  have nil: "es = []" "fs = []" using Cons.prems step rest by simp_all
  have x: "key x \<notin> set s" "s' = key x # s" "P i x" using assms(1) [of s i x] step nil by simp_all
  have IH: "distinct (map key xs)" "set (map key xs) \<inter> set s' = {}" "set s'' = set s' \<union> set (map key xs)"
    "\<forall>j < length xs. P (Suc i + j) (xs ! j)"
    using Cons.IH [of s' "Suc i"] rest nil by auto
  have "\<forall>j < length (x # xs). P (i + j) ((x # xs) ! j)"
    using x(3) IH(4) by (auto simp: less_Suc_eq_0_disj)
  then show ?case using x IH step rest by auto
qed simp

text \<open>What each step without errors establishes, whatever the state.\<close>

lemma each_all:
  assumes "\<And>s i x. snd (step s i x) = [] \<Longrightarrow> P i x" and "snd (each step s i xs) = []"
  shows "\<forall>j < length xs. P (i + j) (xs ! j)"
  using assms(2)
proof (induction xs arbitrary: s i)
  case (Cons x xs)
  obtain s' es where step: "step s i x = (s', es)" by force
  obtain s'' fs where rest: "each step s' (Suc i) xs = (s'', fs)" by force
  have nil: "es = []" "fs = []" using Cons.prems step rest by simp_all
  have "P i x" using assms(1) [of s i x] step nil by simp
  moreover have "\<forall>j < length xs. P (Suc i + j) (xs ! j)" using Cons.IH [of s' "Suc i"] rest nil by simp
  ultimately show ?case by (auto simp: less_Suc_eq_0_disj)
qed simp

lemma length_each_rewrite: "length (fst (snd (each_rewrite step s i xs))) = length xs"
proof (induction xs arbitrary: s i)
  case (Cons x xs)
  show ?case using Cons.IH [of "fst (step s i x)" "Suc i"] by (simp add: split_beta Let_def)
qed simp

text \<open>A rewriting step related to its result.\<close>

lemma each_rewrite_all:
  assumes "\<And>s i x. snd (snd (step s i x)) = [] \<Longrightarrow> P i x (fst (snd (step s i x)))"
    and "snd (snd (each_rewrite step s i xs)) = []"
  shows "\<forall>j < length xs. P (i + j) (xs ! j) (fst (snd (each_rewrite step s i xs)) ! j)"
  using assms(2)
proof (induction xs arbitrary: s i)
  case (Cons x xs)
  obtain s' y es where step: "step s i x = (s', y, es)" by (metis prod_cases3)
  obtain s'' ys fs where rest: "each_rewrite step s' (Suc i) xs = (s'', ys, fs)" by (metis prod_cases3)
  have nil: "es = []" "fs = []" using Cons.prems step rest by simp_all
  have "P i x y" using assms(1) [of s i x] step nil by simp
  moreover have "\<forall>j < length xs. P (Suc i + j) (xs ! j) (ys ! j)" using Cons.IH [of s' "Suc i"] rest nil by simp
  ultimately show ?case using step rest by (auto simp: less_Suc_eq_0_disj)
qed simp

lemma each_rewrite_always:
  assumes "\<And>s i x. P x (fst (snd (step s i x)))"
  shows "list_all2 P xs (fst (snd (each_rewrite step s i xs)))"
proof (induction xs arbitrary: s i)
  case (Cons x xs)
  obtain s' y es where step: "step s i x = (s', y, es)" by (metis prod_cases3)
  obtain s'' ys fs where rest: "each_rewrite step s' (Suc i) xs = (s'', ys, fs)" by (metis prod_cases3)
  show ?case using assms [where s = s and i = i and x = x] Cons.IH [of s' "Suc i"] step rest by simp
qed simp

text \<open>Distinct keys of the rewritten elements.\<close>

lemma each_rewrite_distinct:
  assumes "\<And>s i x. snd (snd (step s i x)) = [] \<Longrightarrow> key (fst (snd (step s i x))) \<notin> set s
      \<and> set (fst (step s i x)) = insert (key (fst (snd (step s i x)))) (set s)"
    and "snd (snd (each_rewrite step s i xs)) = []"
  shows "distinct (map key (fst (snd (each_rewrite step s i xs))))
    \<and> set (map key (fst (snd (each_rewrite step s i xs)))) \<inter> set s = {}"
  using assms(2)
proof (induction xs arbitrary: s i)
  case (Cons x xs)
  obtain s' y es where step: "step s i x = (s', y, es)" by (metis prod_cases3)
  obtain s'' ys fs where rest: "each_rewrite step s' (Suc i) xs = (s'', ys, fs)" by (metis prod_cases3)
  have nil: "es = []" "fs = []" using Cons.prems step rest by simp_all
  have x: "key y \<notin> set s" "set s' = insert (key y) (set s)" using assms(1) [of s i x] step nil by simp_all
  have "distinct (map key ys)" "set (map key ys) \<inter> set s' = {}" using Cons.IH [of s' "Suc i"] rest nil by simp_all
  then show ?case using x step rest by auto
qed simp

section \<open>Maps built from a slice\<close>

text \<open>\<open>for _, x := range xs { m[key(x)] = x }\<close>: a later element replaces an earlier one of the same key.\<close>

definition index_by :: "('a \<Rightarrow> 'k) \<Rightarrow> 'a list \<Rightarrow> ('k \<times> 'a) list" where
  "index_by key xs = foldl (\<lambda>m x. AList.update (key x) x m) [] xs"

lemma index_by_snoc: "index_by key (xs @ [x]) = AList.update (key x) x (index_by key xs)"
  by (simp add: index_by_def)

lemma index_by_Nil [simp]: "index_by key [] = []"
  by (simp add: index_by_def)

lemma fst_index_by [simp]: "fst ` set (index_by key xs) = key ` set xs"
  by (induction xs rule: rev_induct) (auto simp: index_by_snoc dom_update)

lemma distinct_index_by [simp]: "distinct (map fst (index_by key xs))"
  by (induction xs rule: rev_induct) (simp_all add: index_by_snoc)

lemma index_by_Some: "map_of (index_by key xs) k = Some x \<Longrightarrow> x \<in> set xs \<and> key x = k"
  by (induction xs rule: rev_induct) (auto simp: index_by_snoc split: if_splits)

lemma index_by_None: "map_of (index_by key xs) k = None \<longleftrightarrow> k \<notin> key ` set xs"
  unfolding map_of_eq_None_iff by simp

lemma index_by_dom: "map_of (index_by key xs) k \<noteq> None \<longleftrightarrow> k \<in> key ` set xs"
  using index_by_None [of key xs k] by simp

lemma index_by_unique: "distinct (map key xs) \<Longrightarrow> x \<in> set xs \<Longrightarrow> map_of (index_by key xs) (key x) = Some x"
proof (induction xs rule: rev_induct)
  case (snoc y ys)
  show ?case
  proof (cases "x = y")
    case False
    then have x: "x \<in> set ys" using snoc.prems by simp
    then have "key x \<noteq> key y" using snoc.prems(1) by (auto intro: rev_image_eqI)
    then show ?thesis using snoc x by (simp add: index_by_snoc)
  qed (simp add: index_by_snoc)
qed simp

lemma length_index_by: "distinct (map key xs) \<Longrightarrow> length (index_by key xs) = length xs"
  by (metis distinct_card distinct_index_by fst_index_by length_map list.set_map)

section \<open>Numbers in keys\<close>

definition go_decimal :: "int \<Rightarrow> string" where
  "go_decimal n = (if n < 0 then ''-'' @ decimal (nat (- n)) else decimal (nat n))"

lemma decimal_no_colon: "CHR '':'' \<notin> set (decimal n)"
  using decimal_byte [of "CHR '':''" n] by (auto simp: byte_of_def)

lemma go_decimal_no_colon: "CHR '':'' \<notin> set (go_decimal n)"
  by (simp add: go_decimal_def decimal_no_colon)

lemma decimal_no_minus: "decimal n \<noteq> CHR ''-'' # s"
proof
  assume "decimal n = CHR ''-'' # s"
  then have "CHR ''-'' \<in> set (decimal n)" by simp
  from decimal_byte [OF this] show False by (simp add: byte_of_def)
qed

lemma go_decimal_inject: "go_decimal m = go_decimal n \<longleftrightarrow> m = n"
proof (cases "m < 0"; cases "n < 0")
  assume "m < 0" "n < 0"
  then show ?thesis by (auto simp: go_decimal_def decimal_inject)
next
  assume "\<not> m < 0" "\<not> n < 0"
  then show ?thesis by (auto simp: go_decimal_def decimal_inject)
next
  assume "m < 0" "\<not> n < 0"
  then show ?thesis using decimal_no_minus [of "nat n" "decimal (nat (- m))"] by (auto simp: go_decimal_def)
next
  assume "\<not> m < 0" "n < 0"
  then show ?thesis using decimal_no_minus [of "nat m" "decimal (nat (- n))"] by (auto simp: go_decimal_def)
qed

text \<open>A key that ends in a part without the separator determines the part.\<close>

lemma split_at_last:
  assumes "c \<notin> set x" and "c \<notin> set y" and "a @ c # x = b @ c # y"
  shows "a = b \<and> x = y"
proof -
  have first: "u = v \<and> p = q" if "c \<notin> set u" "c \<notin> set v" "u @ c # p = v @ c # q" for u v p q
    using that
  proof (induction u arbitrary: v)
    case Nil
    then show ?case by (cases v) auto
  next
    case (Cons h t)
    then show ?case by (cases v) auto
  qed
  show ?thesis
    using first [of "rev x" "rev y" "rev a" "rev b"] arg_cong [OF assms(3), of rev] assms(1,2) by simp
qed

text \<open>A prefix, a colon and a number: \<open>%s:%d\<close> determines both.\<close>

lemma colon_number_eq: "p @ CHR '':'' # go_decimal m = q @ CHR '':'' # go_decimal n \<longleftrightarrow> p = q \<and> m = n"
  using split_at_last [OF go_decimal_no_colon go_decimal_no_colon, of p m q n] by (auto simp: go_decimal_inject)

end
