(* ===== verification/Counter_Stores.thy ===== *)
theory Counter_Stores
  imports Go_Loops
begin

text \<open>
  Counters that expire: the in-memory rate-limit store (internal/storage/inmem/ratelimit_store.go)
  and the two Redis scripts (internal/storage/redis/client.go). The locale \<open>counter_store\<close> is the
  interface \<open>IncrWithExpire\<close>/\<open>AddWithExpire\<close> that the rate limiter and the demo quotas call: what
  it promises about the counter of the key, and that the counters of the other keys stay.

  The Redis server is not part of the repository: \<open>redis\<close> collects the commands that the scripts
  run as parameters, with a logical view of a key (its value and its deadline), and \<open>redis_ok\<close>
  states their documented behaviour. A reply may be lost and a script may not be run; \<open>r_fault\<close>
  says which happens to a call.
\<close>

definition second :: int where "second = 1000000000"

definition go_seconds :: "int \<Rightarrow> int" where
  "go_seconds n = wrap64 (n * second)"

lemma go_seconds_id: "0 \<le> n \<Longrightarrow> n \<le> 1000000000 \<Longrightarrow> go_seconds n = n * second"
  by (simp add: go_seconds_def second_def wrap64_def)

section \<open>The contract\<close>

text \<open>The counter (value and deadline) after adding \<open>d\<close>; a deadline is only set for a new counter.\<close>

definition bumped :: "(int \<times> time) option \<Rightarrow> time \<Rightarrow> int \<Rightarrow> int \<Rightarrow> int \<times> time" where
  "bumped e now d secs = (case e of None \<Rightarrow> (d, now + secs * second) | Some (c, t) \<Rightarrow> (c + d, t))"

text \<open>The counter is absent or alive, and the sum is a 64-bit number.\<close>

definition serves :: "(int \<times> time) option \<Rightarrow> time \<Rightarrow> int \<Rightarrow> bool" where
  "serves e now d = (0 < d \<and>
     (case e of None \<Rightarrow> d \<le> max_int64 | Some (c, t) \<Rightarrow> now < t \<and> 0 < c \<and> c + d \<le> max_int64))"

definition ttl_ok :: "int \<Rightarrow> bool" where
  "ttl_ok secs = (0 < secs \<and> secs \<le> 1000000000)"

definition counted :: "(int \<times> time) option \<Rightarrow> int" where
  "counted e = (case e of None \<Rightarrow> 0 | Some (c, t) \<Rightarrow> c)"

text \<open>A counter whose whole life covers the \<open>w\<close> seconds after \<open>a\<close>.\<close>

definition covers :: "time \<Rightarrow> int \<Rightarrow> (int \<times> time) option \<Rightarrow> bool" where
  "covers a w e = (case e of None \<Rightarrow> True | Some (c, t) \<Rightarrow> 0 < c \<and> a + w * second \<le> t)"

lemma counted_nonneg: "covers a w e \<Longrightarrow> 0 \<le> counted e"
  by (auto simp: covers_def counted_def split: option.splits)

locale counter_store =
  fixes op :: "'s \<Rightarrow> time \<Rightarrow> string \<Rightarrow> int \<Rightarrow> int \<Rightarrow> int option \<times> 's"
    and allowed :: "int \<Rightarrow> bool"
    and entry :: "'s \<Rightarrow> string \<Rightarrow> (int \<times> time) option"
    and inv :: "'s \<Rightarrow> bool"
  assumes inv_kept: "inv s \<Longrightarrow> ttl_ok secs \<Longrightarrow> inv (snd (op s now k d secs))"
    and other_key: "k' \<noteq> k \<Longrightarrow> ttl_ok secs \<Longrightarrow> entry (snd (op s now k d secs)) k' = entry s k'"
    and replied: "inv s \<Longrightarrow> allowed d \<Longrightarrow> ttl_ok secs \<Longrightarrow> serves (entry s k) now d
      \<Longrightarrow> fst (op s now k d secs) = Some n
      \<Longrightarrow> entry (snd (op s now k d secs)) k = Some (bumped (entry s k) now d secs)
          \<and> n = fst (bumped (entry s k) now d secs)"
    and unanswered: "inv s \<Longrightarrow> allowed d \<Longrightarrow> ttl_ok secs \<Longrightarrow> serves (entry s k) now d
      \<Longrightarrow> fst (op s now k d secs) = None
      \<Longrightarrow> entry (snd (op s now k d secs)) k \<in> {entry s k, Some (bumped (entry s k) now d secs)}"
begin

text \<open>
  One call inside the window of its counter: the counter never goes down, it grows by the delta at
  most, and the reply is the new value.
\<close>

lemma step_in_window:
  assumes "inv s" and "allowed d" and "0 < d" and "ttl_ok w" and window: "covers a w (entry s k)"
    and now: "a \<le> now" "now < a + w * second" and cap: "counted (entry s k) + d \<le> max_int64"
  shows "covers a w (entry (snd (op s now k d w)) k)"
    and "counted (entry s k) \<le> counted (entry (snd (op s now k d w)) k)"
    and "counted (entry (snd (op s now k d w)) k) \<le> counted (entry s k) + d"
    and "fst (op s now k d w) = Some n \<Longrightarrow>
           n = counted (entry s k) + d \<and> counted (entry (snd (op s now k d w)) k) = n"
proof -
  let ?e = "entry s k" and ?e' = "entry (snd (op s now k d w)) k" and ?b = "bumped (entry s k) now d w"
  have serves: "serves ?e now d"
    using assms by (auto simp: serves_def covers_def counted_def split: option.splits)
  have b: "covers a w (Some ?b)" "counted (Some ?b) = counted ?e + d" "fst ?b = counted ?e + d"
    using assms by (auto simp: covers_def bumped_def counted_def split: option.splits)
  have cases: "?e' = ?e \<or> ?e' = Some ?b"
    using replied [OF assms(1,2,4) serves] unanswered [OF assms(1,2,4) serves] by fastforce
  show "covers a w ?e'" using cases b(1) window by metis
  show "counted ?e \<le> counted ?e'" using cases b(2) assms(3) by (metis less_add_same_cancel1 less_imp_le order_refl)
  show "counted ?e' \<le> counted ?e + d"
    using cases b(2) assms(3) by (metis less_add_same_cancel1 less_imp_le order_refl)
  show "n = counted ?e + d \<and> counted ?e' = n" if "fst (op s now k d w) = Some n"
    using replied [OF assms(1,2,4) serves that] b(2,3) by metis
qed

end

text \<open>A store that always replies, so that every call counts.\<close>

locale reliable_store = counter_store +
  assumes always: "fst (op s now k d secs) \<noteq> None"
begin

lemma step_counts:
  assumes "inv s" and "allowed d" and "0 < d" and "ttl_ok w" and "covers a w (entry s k)"
    and "a \<le> now" and "now < a + w * second" and "counted (entry s k) + d \<le> max_int64"
  shows "fst (op s now k d w) = Some (counted (entry s k) + d)"
    and "counted (entry (snd (op s now k d w)) k) = counted (entry s k) + d"
proof -
  obtain n where n: "fst (op s now k d w) = Some n" using always by (metis not_None_eq)
  then show "fst (op s now k d w) = Some (counted (entry s k) + d)"
    and "counted (entry (snd (op s now k d w)) k) = counted (entry s k) + d"
    using step_in_window(4) [OF assms n] by simp_all
qed

end

section \<open>The in-memory store\<close>

record counter_entry =
  ce_count :: int
  ce_expiresAt :: time

type_synonym inmem_store = "string \<rightharpoonup> counter_entry"

definition inmem_IncrWithExpire :: "inmem_store \<Rightarrow> time \<Rightarrow> string \<Rightarrow> int \<Rightarrow> int option \<times> inmem_store" where
  "inmem_IncrWithExpire data now key expireSeconds =
     (let found = (case data key of
                     None \<Rightarrow> None
                   | Some e \<Rightarrow> if ce_expiresAt e < now then None else Some e);
          entry = (case found of
                     None \<Rightarrow> \<lparr>ce_count = 0, ce_expiresAt = now + go_seconds expireSeconds\<rparr>
                   | Some e \<Rightarrow> e);
          entry' = entry\<lparr>ce_count := wrap64 (ce_count entry + 1)\<rparr>
      in (Some (ce_count entry'), data(key \<mapsto> entry')))"

definition inmem_entry :: "inmem_store \<Rightarrow> string \<Rightarrow> (int \<times> time) option" where
  "inmem_entry data k = map_option (\<lambda>e. (ce_count e, ce_expiresAt e)) (data k)"

lemma inmem_step:
  assumes "ttl_ok secs" and "serves (inmem_entry data k) now 1"
  shows "inmem_entry (snd (inmem_IncrWithExpire data now k secs)) k = Some (bumped (inmem_entry data k) now 1 secs)"
    and "fst (inmem_IncrWithExpire data now k secs) = Some (fst (bumped (inmem_entry data k) now 1 secs))"
  using assms
  by (auto simp: inmem_IncrWithExpire_def inmem_entry_def bumped_def serves_def ttl_ok_def go_seconds_id
      Let_def wrap64_id split: option.splits)

interpretation inmem: reliable_store "\<lambda>s now k d secs. inmem_IncrWithExpire s now k secs"
  "\<lambda>d. d = 1" inmem_entry "\<lambda>_. True"
proof unfold_locales
  fix s :: inmem_store and now :: time and k :: string and d secs n :: int
  assume d: "d = (1::int)" and *: "ttl_ok secs" "serves (inmem_entry s k) now d"
    and r: "fst (inmem_IncrWithExpire s now k secs) = Some n"
  show "inmem_entry (snd (inmem_IncrWithExpire s now k secs)) k = Some (bumped (inmem_entry s k) now d secs)
      \<and> n = fst (bumped (inmem_entry s k) now d secs)"
    using inmem_step [of secs s k now] * r by (simp add: d)
next
  fix s :: inmem_store and now :: time and k :: string and d secs :: int
  assume "fst (inmem_IncrWithExpire s now k secs) = None"
  then show "inmem_entry (snd (inmem_IncrWithExpire s now k secs)) k
      \<in> {inmem_entry s k, Some (bumped (inmem_entry s k) now d secs)}"
    by (simp add: inmem_IncrWithExpire_def Let_def)
next
  fix s :: inmem_store and now :: time and k k' :: string and d secs :: int
  assume "k' \<noteq> k"
  then show "inmem_entry (snd (inmem_IncrWithExpire s now k secs)) k' = inmem_entry s k'"
    by (simp add: inmem_IncrWithExpire_def inmem_entry_def Let_def)
qed (auto simp: inmem_IncrWithExpire_def Let_def)

section \<open>The Redis scripts\<close>

datatype redis_fault = NoFault | LostReply | NotRun

record 'r redis =
  r_incrby :: "time \<Rightarrow> 'r \<Rightarrow> string \<Rightarrow> int \<Rightarrow> int option \<times> 'r"
  r_expire :: "time \<Rightarrow> 'r \<Rightarrow> string \<Rightarrow> int \<Rightarrow> 'r"
  r_entry :: "'r \<Rightarrow> string \<Rightarrow> (int \<times> time option) option"
  r_fault :: "time \<Rightarrow> 'r \<Rightarrow> redis_fault"

text \<open>A key past its deadline does not exist for a command.\<close>

definition alive :: "time \<Rightarrow> (int \<times> time option) option \<Rightarrow> (int \<times> time option) option" where
  "alive now e = (case e of
       Some (c, Some t) \<Rightarrow> if now < t then e else None
     | _ \<Rightarrow> e)"

text \<open>
  The documentation of INCRBY: an absent key counts as 0, the deadline of a key stays, and a sum
  outside the 64-bit range is an error that changes nothing.
\<close>

definition incrby_entry :: "time \<Rightarrow> (int \<times> time option) option \<Rightarrow> int \<Rightarrow> (int \<times> time option) option" where
  "incrby_entry now e d = (let (c, t) = (case alive now e of None \<Rightarrow> (0, None) | Some ct \<Rightarrow> ct)
     in if - (2 ^ 63) \<le> c + d \<and> c + d \<le> max_int64 then Some (c + d, t) else None)"

text \<open>EXPIRE with a positive number of seconds sets the deadline of a live key.\<close>

definition expire_entry :: "time \<Rightarrow> (int \<times> time option) option \<Rightarrow> int \<Rightarrow> (int \<times> time option) option" where
  "expire_entry now e secs = map_option (\<lambda>ct. (fst ct, Some (now + secs * second))) (alive now e)"

text \<open>The commands behave as documented, and a command changes no other key.\<close>

definition redis_ok :: "'r redis \<Rightarrow> bool" where
  "redis_ok R \<longleftrightarrow>
     (\<forall>now r k d k'. case incrby_entry now (r_entry R r k) d of
          Some e \<Rightarrow> fst (r_incrby R now r k d) = Some (fst e)
            \<and> r_entry R (snd (r_incrby R now r k d)) k' = (if k' = k then Some e else r_entry R r k')
        | None \<Rightarrow> fst (r_incrby R now r k d) = None
            \<and> r_entry R (snd (r_incrby R now r k d)) k' = r_entry R r k')
     \<and> (\<forall>now r k secs k'. 0 < secs \<longrightarrow>
          r_entry R (r_expire R now r k secs) k'
            = (if k' = k then expire_entry now (r_entry R r k) secs else r_entry R r k'))"

text \<open>The body of the script; an error of a command ends it.\<close>

definition redis_script :: "'r redis \<Rightarrow> time \<Rightarrow> 'r \<Rightarrow> string \<Rightarrow> int \<Rightarrow> int \<Rightarrow> int option \<times> 'r" where
  "redis_script R now r key delta secs = (case r_incrby R now r key delta of
       (None, r1) \<Rightarrow> (None, r1)
     | (Some current, r1) \<Rightarrow> (Some current, if current = delta then r_expire R now r1 key secs else r1))"

definition redis_call :: "'r redis \<Rightarrow> time \<Rightarrow> 'r \<Rightarrow> 'v option \<times> 'r \<Rightarrow> 'v option \<times> 'r" where
  "redis_call R now r outcome = (case r_fault R now r of
       NoFault \<Rightarrow> outcome
     | LostReply \<Rightarrow> (None, snd outcome)
     | NotRun \<Rightarrow> (None, r))"

definition redis_AddWithExpire :: "'r redis \<Rightarrow> 'r \<Rightarrow> time \<Rightarrow> string \<Rightarrow> int \<Rightarrow> int \<Rightarrow> int option \<times> 'r" where
  "redis_AddWithExpire R r now key delta secs = redis_call R now r (redis_script R now r key delta secs)"

definition redis_IncrWithExpire :: "'r redis \<Rightarrow> 'r \<Rightarrow> time \<Rightarrow> string \<Rightarrow> int \<Rightarrow> int option \<times> 'r" where
  "redis_IncrWithExpire R r now key secs = redis_AddWithExpire R r now key 1 secs"

definition redis_entry :: "'r redis \<Rightarrow> 'r \<Rightarrow> string \<Rightarrow> (int \<times> time) option" where
  "redis_entry R r k = (case r_entry R r k of Some (c, Some t) \<Rightarrow> Some (c, t) | _ \<Rightarrow> None)"

text \<open>The counters that only the scripts write always have a deadline.\<close>

definition redis_inv :: "'r redis \<Rightarrow> 'r \<Rightarrow> bool" where
  "redis_inv R r \<longleftrightarrow> (\<forall>k c. r_entry R r k \<noteq> Some (c, None))"

text \<open>What a script does to the entry of its key; the entry of a new key gets a deadline.\<close>

definition script_entry :: "time \<Rightarrow> (int \<times> time option) option \<Rightarrow> int \<Rightarrow> int \<Rightarrow> (int \<times> time option) option" where
  "script_entry now e d secs = (case incrby_entry now e d of
       None \<Rightarrow> None
     | Some (c, t) \<Rightarrow> if c = d then Some (c, Some (now + secs * second)) else Some (c, t))"

lemma redis_script_entry:
  assumes ok: "redis_ok R" and secs: "0 < secs"
  shows "r_entry R (snd (redis_script R now r k d secs)) k'
       = (case script_entry now (r_entry R r k) d secs of
            None \<Rightarrow> r_entry R r k'
          | Some e \<Rightarrow> if k' = k then Some e else r_entry R r k')"
    and "fst (redis_script R now r k d secs) = map_option fst (script_entry now (r_entry R r k) d secs)"
proof -
  have incr: "case incrby_entry now (r_entry R r k) d of
          Some e \<Rightarrow> fst (r_incrby R now r k d) = Some (fst e)
            \<and> r_entry R (snd (r_incrby R now r k d)) k' = (if k' = k then Some e else r_entry R r k')
        | None \<Rightarrow> fst (r_incrby R now r k d) = None
            \<and> r_entry R (snd (r_incrby R now r k d)) k' = r_entry R r k'" for k'
    using ok unfolding redis_ok_def by blast
  have expire: "r_entry R (r_expire R now r1 k secs) k'
      = (if k' = k then expire_entry now (r_entry R r1 k) secs else r_entry R r1 k')" for r1 k'
    using ok secs unfolding redis_ok_def by blast
  have alive_again: "alive now (Some (c, t)) = Some (c, t)"
    if "incrby_entry now (r_entry R r k) d = Some (c, t)" for c t
    using that by (auto simp: incrby_entry_def alive_def Let_def split: option.splits prod.splits if_splits)
  obtain x r1 where step: "r_incrby R now r k d = (x, r1)" by fastforce
  show "r_entry R (snd (redis_script R now r k d secs)) k'
       = (case script_entry now (r_entry R r k) d secs of
            None \<Rightarrow> r_entry R r k'
          | Some e \<Rightarrow> if k' = k then Some e else r_entry R r k')"
    using incr [of k'] incr [of k] alive_again expire [of r1 k'] step
    by (auto simp: redis_script_def script_entry_def expire_entry_def split: option.splits prod.splits if_splits)
  show "fst (redis_script R now r k d secs) = map_option fst (script_entry now (r_entry R r k) d secs)"
    using incr [of k] step by (auto simp: redis_script_def script_entry_def split: option.splits)
qed

lemma script_entry_deadline:
  assumes "\<And>c. e \<noteq> Some (c, None)" and "script_entry now e d secs = Some x"
  shows "snd x \<noteq> None"
  using assms
  by (auto simp: script_entry_def incrby_entry_def alive_def split: option.splits prod.splits if_splits)

text \<open>With the documented commands, the scripts keep the contract, whatever calls are lost.\<close>

lemma redis_counter_store:
  assumes ok: "redis_ok R"
  shows "counter_store (redis_AddWithExpire R) (\<lambda>d. True) (redis_entry R) (redis_inv R)"
proof
  fix r :: 'a and secs d :: int and now :: time and k k' :: string
  assume secs: "ttl_ok secs"
  then have pos: "0 < secs" by (simp add: ttl_ok_def)
  note script = redis_script_entry [OF ok pos, of now r k d]
  show "redis_inv R (snd (redis_AddWithExpire R r now k d secs))" if inv: "redis_inv R r"
    using inv script_entry_deadline [of "r_entry R r k" now d secs]
    by (auto simp: redis_inv_def redis_AddWithExpire_def redis_call_def script split: redis_fault.splits option.splits)
  show "redis_entry R (snd (redis_AddWithExpire R r now k d secs)) k' = redis_entry R r k'" if "k' \<noteq> k"
    using that by (simp add: redis_entry_def redis_AddWithExpire_def redis_call_def script split: redis_fault.splits option.splits)
  assume inv: "redis_inv R r" and serves: "serves (redis_entry R r k) now d"
  have entry: "script_entry now (r_entry R r k) d secs
      = Some (fst (bumped (redis_entry R r k) now d secs), Some (snd (bumped (redis_entry R r k) now d secs)))"
    using inv serves
    by (auto simp: redis_inv_def serves_def redis_entry_def script_entry_def incrby_entry_def alive_def bumped_def
        split: option.splits prod.splits)
  show "redis_entry R (snd (redis_AddWithExpire R r now k d secs)) k = Some (bumped (redis_entry R r k) now d secs)
      \<and> n = fst (bumped (redis_entry R r k) now d secs)"
    if "fst (redis_AddWithExpire R r now k d secs) = Some n" for n
    using that entry script by (auto simp: redis_AddWithExpire_def redis_call_def redis_entry_def split: redis_fault.splits)
  show "redis_entry R (snd (redis_AddWithExpire R r now k d secs)) k
      \<in> {redis_entry R r k, Some (bumped (redis_entry R r k) now d secs)}"
    using entry script by (auto simp: redis_AddWithExpire_def redis_call_def redis_entry_def split: redis_fault.splits)
qed

text \<open>A server that keeps the documentation, to instantiate the parameter.\<close>

type_synonym sample_server = "string \<rightharpoonup> int \<times> time option"

definition sample_redis :: "(time \<Rightarrow> sample_server \<Rightarrow> redis_fault) \<Rightarrow> sample_server redis" where
  "sample_redis fault =
     \<lparr>r_incrby = (\<lambda>now r k d. case incrby_entry now (r k) d of
                    None \<Rightarrow> (None, r) | Some e \<Rightarrow> (Some (fst e), r(k \<mapsto> e))),
      r_expire = (\<lambda>now r k secs. r(k := expire_entry now (r k) secs)),
      r_entry = (\<lambda>r k. r k), r_fault = fault\<rparr>"

lemma sample_redis_ok: "redis_ok (sample_redis fault)"
  by (simp add: redis_ok_def sample_redis_def split: option.splits)

lemma sample_redis_empty [simp]:
  "redis_inv (sample_redis fault) Map.empty" "redis_entry (sample_redis fault) Map.empty k = None"
  by (simp_all add: redis_inv_def redis_entry_def sample_redis_def)

end
