(* ===== verification/Rate_Limit.thy ===== *)
theory Rate_Limit
  imports Counter_Stores
begin

text \<open>
  The fixed-window rate limiter, internal/service/access/ratelimit_service.go. Its store is the
  interface of \<open>counter_store\<close>; the limiter reads its own clock for the window and the store reads
  the store's clock for the expiry, so a request carries both times.
\<close>

section \<open>The limiter\<close>

definition unix_epoch :: time where "unix_epoch = 62135596800 * second"

text \<open>\<open>Time.Unix\<close>, and Go's remainder (its sign is that of the dividend).\<close>

definition unix_seconds :: "time \<Rightarrow> int" where
  "unix_seconds t = (t - unix_epoch) div second"

definition go_rem :: "int \<Rightarrow> int \<Rightarrow> int" where
  "go_rem m n = sgn m * (\<bar>m\<bar> mod \<bar>n\<bar>)"

definition windowStartUnix :: "time \<Rightarrow> int" where
  "windowStartUnix now = unix_seconds now - go_rem (unix_seconds now) 60"

definition rate_limit_key :: "string \<Rightarrow> string \<Rightarrow> int \<Rightarrow> string" where
  "rate_limit_key subjectID routePath start =
     ''profile:'' @ subjectID @ '':ratelimit:'' @ routePath @ '':'' @ go_decimal start"

record check_result =
  cr_allowed :: bool
  cr_remaining :: int
  cr_resetAt :: time
  cr_failed :: bool

record rate_request =
  rq_serviceNow :: time
  rq_storeNow :: time
  rq_subject :: string
  rq_route :: string
  rq_limit :: int

definition rate_check :: "('s \<Rightarrow> time \<Rightarrow> string \<Rightarrow> int \<Rightarrow> int option \<times> 's) \<Rightarrow> 's \<Rightarrow> rate_request
    \<Rightarrow> check_result \<times> 's" where
  "rate_check incr s q =
     (let start = windowStartUnix (rq_serviceNow q);
          resetAt = unix_epoch + start * second + 60 * second;
          key = rate_limit_key (rq_subject q) (rq_route q) start;
          (reply, s') = incr s (rq_storeNow q) key 70
      in case reply of
           None \<Rightarrow> (\<lparr>cr_allowed = False, cr_remaining = 0, cr_resetAt = resetAt, cr_failed = True\<rparr>, s')
         | Some n \<Rightarrow>
             let remaining = (let r = wrap64 (rq_limit q - n) in if r < 0 then 0 else r)
             in if rq_limit q < n
                then (\<lparr>cr_allowed = False, cr_remaining = 0, cr_resetAt = resetAt, cr_failed = False\<rparr>, s')
                else (\<lparr>cr_allowed = True, cr_remaining = remaining, cr_resetAt = resetAt, cr_failed = False\<rparr>, s'))"

text \<open>
  internal/http/middleware/rate_limit.go: the request that a principal makes, with the rendering of
  UUIDs as a parameter. An unauthenticated request passes, a principal without an owner is refused.
\<close>

definition rateLimitRoutePath :: "string \<Rightarrow> string" where
  "rateLimitRoutePath routePath =
     (if routePath = ''/mcp'' \<or> routePath = ''/teams/:teamId/mcp'' then ''/mcp'' else routePath)"

record rate_principal =
  rp_OwnerID :: uuid
  rp_CredentialID :: "uuid option"
  rp_RateLimit :: int

definition principal_limit :: "int \<Rightarrow> rate_principal \<Rightarrow> int" where
  "principal_limit configured p =
     (if 0 < rp_RateLimit p \<and> rp_RateLimit p < configured then rp_RateLimit p else configured)"

definition principal_request :: "(uuid \<Rightarrow> string) \<Rightarrow> int \<Rightarrow> rate_principal \<Rightarrow> string \<Rightarrow> time \<Rightarrow> time \<Rightarrow> rate_request" where
  "principal_request uuid_string configured p path now storeNow =
     \<lparr>rq_serviceNow = now, rq_storeNow = storeNow,
      rq_subject = uuid_string (rp_OwnerID p) @ '':key:''
        @ uuid_string (case rp_CredentialID p of None \<Rightarrow> rp_OwnerID p | Some c \<Rightarrow> c),
      rq_route = rateLimitRoutePath path, rq_limit = principal_limit configured p\<rparr>"

datatype middleware_answer = Next | Forbidden | ServiceUnavailable | RateLimited

definition rate_middleware :: "('s \<Rightarrow> time \<Rightarrow> string \<Rightarrow> int \<Rightarrow> int option \<times> 's) \<Rightarrow> (uuid \<Rightarrow> string) \<Rightarrow> int
    \<Rightarrow> 's \<Rightarrow> rate_principal option \<Rightarrow> string \<Rightarrow> time \<Rightarrow> time \<Rightarrow> middleware_answer \<times> 's" where
  "rate_middleware incr uuid_string configured s who path now storeNow =
     (case who of
        None \<Rightarrow> (Next, s)
      | Some p \<Rightarrow>
          if rp_OwnerID p = uuid_nil then (Forbidden, s)
          else let (r, s') = rate_check incr s (principal_request uuid_string configured p path now storeNow)
               in (if cr_failed r then ServiceUnavailable
                   else if \<not> cr_allowed r then RateLimited else Next, s'))"

text \<open>The requests of a run, oldest first.\<close>

fun rate_checks :: "('s \<Rightarrow> time \<Rightarrow> string \<Rightarrow> int \<Rightarrow> int option \<times> 's) \<Rightarrow> 's \<Rightarrow> rate_request list
    \<Rightarrow> check_result list \<times> 's" where
  "rate_checks incr s [] = ([], s)"
| "rate_checks incr s (q # qs) =
     (let (r, s1) = rate_check incr s q; (rs, s2) = rate_checks incr s1 qs in (r # rs, s2))"

section \<open>Buckets\<close>

type_synonym bucket = "string \<times> string \<times> int"

definition bucket_of :: "rate_request \<Rightarrow> bucket" where
  "bucket_of q = (rq_subject q, rq_route q, windowStartUnix (rq_serviceNow q))"

definition key_of :: "rate_request \<Rightarrow> string" where
  "key_of q = rate_limit_key (rq_subject q) (rq_route q) (windowStartUnix (rq_serviceNow q))"

text \<open>
  The subjects that the middleware builds, \<open>owner:key:credential\<close> with two UUIDs, are 77 bytes long;
  the clocks are past the epoch, and the store takes the
  request at most ten seconds after the limiter read its clock.
\<close>

definition well_timed :: "rate_request \<Rightarrow> bool" where
  "well_timed q \<longleftrightarrow> length (rq_subject q) = 77 \<and> unix_epoch \<le> rq_serviceNow q
     \<and> rq_serviceNow q \<le> rq_storeNow q \<and> rq_storeNow q \<le> rq_serviceNow q + 10 * second"

lemma go_rem_mod: "0 \<le> m \<Longrightarrow> go_rem m 60 = m mod 60"
  by (cases "m = 0") (auto simp: go_rem_def)

lemma window_bounds:
  assumes "well_timed q"
  shows "0 \<le> windowStartUnix (rq_serviceNow q)"
    and "unix_epoch + windowStartUnix (rq_serviceNow q) * second \<le> rq_storeNow q"
    and "rq_storeNow q < unix_epoch + windowStartUnix (rq_serviceNow q) * second + 70 * second"
proof -
  define u where "u = unix_seconds (rq_serviceNow q)"
  have u: "0 \<le> u" "u * second \<le> rq_serviceNow q - unix_epoch" "rq_serviceNow q - unix_epoch < u * second + second"
    using assms by (auto simp: u_def unix_seconds_def well_timed_def second_def)
  have start: "windowStartUnix (rq_serviceNow q) = u - u mod 60"
    using u(1) by (simp add: windowStartUnix_def go_rem_mod u_def [symmetric])
  have r: "0 \<le> u mod 60" "u mod 60 < 60" by simp_all
  show "0 \<le> windowStartUnix (rq_serviceNow q)"
    using u(1) by (simp add: start mod_less_eq_dividend zmod_le_nonneg_dividend)
  show "unix_epoch + windowStartUnix (rq_serviceNow q) * second \<le> rq_storeNow q"
  proof -
    have "0 \<le> u mod 60 * second" using r(1) by (simp add: second_def)
    moreover have "rq_serviceNow q \<le> rq_storeNow q" using assms by (simp add: well_timed_def)
    ultimately show ?thesis using u(2) unfolding start left_diff_distrib by linarith
  qed
  show "rq_storeNow q < unix_epoch + windowStartUnix (rq_serviceNow q) * second + 70 * second"
  proof -
    have "u mod 60 \<le> 59" using r(2) by linarith
    then have "u mod 60 * 1000000000 \<le> 59000000000" by linarith
    moreover have "rq_storeNow q \<le> rq_serviceNow q + 10 * second" using assms by (simp add: well_timed_def)
    ultimately show ?thesis using u(3) unfolding start left_diff_distrib second_def by linarith
  qed
qed

text \<open>Two requests share a key exactly when they share subject, route and window.\<close>

lemma key_of_eq:
  assumes "well_timed p" and "well_timed q"
  shows "key_of p = key_of q \<longleftrightarrow> bucket_of p = bucket_of q"
proof
  let ?s = "\<lambda>r. windowStartUnix (rq_serviceNow r)"
  assume eq: "key_of p = key_of q"
  have len: "length (rq_subject p) = length (rq_subject q)" using assms by (simp add: well_timed_def)
  have subj: "rq_subject p = rq_subject q"
    and rest: "rq_route p @ CHR '':'' # decimal (nat (?s p)) = rq_route q @ CHR '':'' # decimal (nat (?s q))"
    using eq len window_bounds(1) [OF assms(1)] window_bounds(1) [OF assms(2)]
    by (simp_all add: key_of_def rate_limit_key_def go_decimal_def)
  have "rq_route p = rq_route q \<and> decimal (nat (?s p)) = decimal (nat (?s q))"
    using rest decimal_no_colon by (intro split_at_last)
  then show "bucket_of p = bucket_of q"
    using subj window_bounds(1) [OF assms(1)] window_bounds(1) [OF assms(2)]
    by (simp add: bucket_of_def decimal_inject eq_nat_nat_iff)
qed (simp add: key_of_def bucket_of_def)

section \<open>The counter behind the checks\<close>

lemma rate_check_state: "snd (rate_check incr s q) = snd (incr s (rq_storeNow q) (key_of q) 70)"
  by (simp add: rate_check_def key_of_def Let_def split: prod.splits option.splits)

text \<open>The result of a check is a function of the reply of the store.\<close>

definition check_answer :: "rate_request \<Rightarrow> int option \<Rightarrow> check_result" where
  "check_answer q reply =
     \<lparr>cr_allowed = (case reply of None \<Rightarrow> False | Some n \<Rightarrow> n \<le> rq_limit q),
      cr_remaining = (case reply of None \<Rightarrow> 0
        | Some n \<Rightarrow> if n \<le> rq_limit q then max 0 (wrap64 (rq_limit q - n)) else 0),
      cr_resetAt = unix_epoch + windowStartUnix (rq_serviceNow q) * second + 60 * second,
      cr_failed = (reply = None)\<rparr>"

lemma rate_check_answer:
  "fst (rate_check incr s q) = check_answer q (fst (incr s (rq_storeNow q) (key_of q) 70))"
  by (auto simp: rate_check_def check_answer_def key_of_def Let_def split: prod.splits option.splits)

definition window_of :: "rate_request \<Rightarrow> time" where
  "window_of q = unix_epoch + windowStartUnix (rq_serviceNow q) * second"

definition requests_in :: "bucket \<Rightarrow> rate_request list \<Rightarrow> nat" where
  "requests_in b qs = length (filter (\<lambda>q. bucket_of q = b) qs)"

definition allowed_in :: "bucket \<Rightarrow> rate_request list \<Rightarrow> check_result list \<Rightarrow> nat" where
  "allowed_in b qs rs = length (filter (\<lambda>(q, r). bucket_of q = b \<and> cr_allowed r) (zip qs rs))"

lemma requests_in_simps [simp]:
  "requests_in b [] = 0"
  "requests_in b (q # qs) = (if bucket_of q = b then Suc (requests_in b qs) else requests_in b qs)"
  by (simp_all add: requests_in_def)

lemma allowed_in_simps [simp]:
  "allowed_in b [] rs = 0"
  "allowed_in b (q # qs) (r # rs) =
     (if bucket_of q = b \<and> cr_allowed r then Suc (allowed_in b qs rs) else allowed_in b qs rs)"
  by (simp_all add: allowed_in_def)

lemma requests_in_le: "requests_in b qs \<le> length qs"
  by (simp add: requests_in_def)

lemma bucket_window: "bucket_of p = bucket_of q \<Longrightarrow> window_of p = window_of q"
  by (simp add: bucket_of_def window_of_def)

lemma in_window: "well_timed q \<Longrightarrow> window_of q \<le> rq_storeNow q \<and> rq_storeNow q < window_of q + 70 * second"
  using window_bounds by (simp add: window_of_def)

context counter_store
begin

text \<open>
  Over a run of checks, the counter of a bucket covers its window, grows by at most one for each
  request of the bucket, and by one at least for each request that was allowed; the last allowed
  request saw a counter within the limit.
\<close>

lemma checks_bound:
  assumes "allowed 1" and "inv s" and "\<forall>q\<in>set (p # qs). well_timed q"
    and "covers (window_of p) 70 (entry s (key_of p))"
    and "counted (entry s (key_of p)) + int (length qs) < max_int64"
    and "\<forall>q\<in>set qs. bucket_of q = bucket_of p \<longrightarrow> rq_limit q = rq_limit p"
    and "rate_checks (\<lambda>s now k secs. op s now k 1 secs) s qs = (rs, s')"
  shows "covers (window_of p) 70 (entry s' (key_of p)) \<and> inv s'
     \<and> int (allowed_in (bucket_of p) qs rs) + counted (entry s (key_of p)) \<le> counted (entry s' (key_of p))
     \<and> counted (entry s' (key_of p)) \<le> counted (entry s (key_of p)) + int (requests_in (bucket_of p) qs)
     \<and> (0 < allowed_in (bucket_of p) qs rs \<longrightarrow>
          int (allowed_in (bucket_of p) qs rs) + counted (entry s (key_of p)) \<le> rq_limit p)"
  using assms(2-)
proof (induction qs arbitrary: s rs)
  case Nil
  then show ?case by simp
next
  case (Cons q qs)
  let ?op = "\<lambda>s now k secs. op s now k 1 secs" and ?b = "bucket_of p" and ?k = "key_of p"
  let ?c = "\<lambda>s. counted (entry s ?k)"
  obtain s1 where s1: "snd (rate_check ?op s q) = s1" by blast
  have s1_op: "s1 = snd (op s (rq_storeNow q) (key_of q) 1 70)" using s1 by (simp add: rate_check_state)
  obtain r rs1 where r: "rs = r # rs1" "r = fst (rate_check ?op s q)"
    and rest: "rate_checks ?op s1 qs = (rs1, s')"
    using Cons.prems(6) s1 by (auto split: prod.splits)
  have ttl: "ttl_ok 70" by (simp add: ttl_ok_def)
  have inv1: "inv s1" using Cons.prems(1) s1_op ttl inv_kept by simp
  have wt: "\<forall>q\<in>set (p # qs). well_timed q" and wtq: "well_timed p" "well_timed q" using Cons.prems(2) by auto
  have lim: "\<forall>q\<in>set qs. bucket_of q = ?b \<longrightarrow> rq_limit q = rq_limit p" using Cons.prems(5) by simp
  show ?case
  proof (cases "bucket_of q = ?b")
    case False
    then have "key_of q \<noteq> ?k" using key_of_eq wtq by metis
    then have same: "entry s1 ?k = entry s ?k" using s1_op ttl other_key [of ?k "key_of q"] by metis
    have "covers (window_of p) 70 (entry s1 ?k)" "?c s1 + int (length qs) < max_int64"
      using Cons.prems(3,4) same by simp_all
    from Cons.IH [OF inv1 wt this lim rest] False show ?thesis by (simp add: r(1) same)
  next
    case True
    then have k: "key_of q = ?k" and w: "window_of q = window_of p"
      using key_of_eq wtq bucket_window by metis+
    have s1k: "s1 = snd (op s (rq_storeNow q) ?k 1 70)" using s1_op k by simp
    have now: "window_of p \<le> rq_storeNow q" "rq_storeNow q < window_of p + 70 * second"
      using in_window [OF wtq(2)] w by simp_all
    have cap: "?c s + 1 \<le> max_int64" using Cons.prems(4) by simp
    note step = step_in_window [OF Cons.prems(1) assms(1) zero_less_one ttl Cons.prems(3) now cap, folded s1k]
    have small: "?c s1 + int (length qs) < max_int64" using step(3) Cons.prems(4) by simp
    note IH = Cons.IH [OF inv1 wt step(1) small lim rest]
    have low: "?c s + (if cr_allowed r then 1 else 0) \<le> ?c s1" and lim1: "cr_allowed r \<Longrightarrow> ?c s1 \<le> rq_limit p"
      using step(2) step(4) Cons.prems(5) True
      by (auto simp: r(2) rate_check_answer check_answer_def k split: option.splits)
    show ?thesis using IH low lim1 step(3) True by (auto simp: r(1))
  qed
qed

end

context reliable_store
begin

text \<open>When every call is answered, the counter of a bucket is the number of its requests.\<close>

lemma checks_count:
  assumes "allowed 1" and "inv s" and "\<forall>q\<in>set (p # qs). well_timed q"
    and "covers (window_of p) 70 (entry s (key_of p))"
    and "counted (entry s (key_of p)) + int (length qs) < max_int64"
    and "rate_checks (\<lambda>s now k secs. op s now k 1 secs) s qs = (rs, s')"
  shows "covers (window_of p) 70 (entry s' (key_of p)) \<and> inv s'
     \<and> counted (entry s' (key_of p)) = counted (entry s (key_of p)) + int (requests_in (bucket_of p) qs)"
  using assms(2-)
proof (induction qs arbitrary: s rs)
  case Nil
  then show ?case by simp
next
  case (Cons q qs)
  let ?op = "\<lambda>s now k secs. op s now k 1 secs" and ?b = "bucket_of p" and ?k = "key_of p"
  obtain s1 where s1: "snd (rate_check ?op s q) = s1" by blast
  have s1_op: "s1 = snd (op s (rq_storeNow q) (key_of q) 1 70)" using s1 by (simp add: rate_check_state)
  obtain rs1 where rest: "rate_checks ?op s1 qs = (rs1, s')"
    using Cons.prems(5) s1 by (auto split: prod.splits)
  have ttl: "ttl_ok 70" by (simp add: ttl_ok_def)
  have inv1: "inv s1" using Cons.prems(1) s1_op ttl inv_kept by simp
  have wt: "\<forall>q\<in>set (p # qs). well_timed q" and wtq: "well_timed p" "well_timed q" using Cons.prems(2) by auto
  show ?case
  proof (cases "bucket_of q = ?b")
    case False
    then have "key_of q \<noteq> ?k" using key_of_eq wtq by metis
    then have same: "entry s1 ?k = entry s ?k" using s1_op ttl other_key [of ?k "key_of q"] by metis
    have "covers (window_of p) 70 (entry s1 ?k)" "counted (entry s1 ?k) + int (length qs) < max_int64"
      using Cons.prems(3,4) same by simp_all
    from Cons.IH [OF inv1 wt this rest] False show ?thesis by (simp add: same)
  next
    case True
    then have k: "key_of q = ?k" and w: "window_of q = window_of p"
      using key_of_eq wtq bucket_window by metis+
    have s1k: "s1 = snd (op s (rq_storeNow q) ?k 1 70)" using s1_op k by simp
    have now: "window_of p \<le> rq_storeNow q" "rq_storeNow q < window_of p + 70 * second"
      using in_window [OF wtq(2)] w by simp_all
    have cap: "counted (entry s ?k) + 1 \<le> max_int64" using Cons.prems(4) by simp
    note window = step_in_window(1) [OF Cons.prems(1) assms(1) zero_less_one ttl Cons.prems(3) now cap, folded s1k]
    note count = step_counts(2) [OF Cons.prems(1) assms(1) zero_less_one ttl Cons.prems(3) now cap, folded s1k]
    have small: "counted (entry s1 ?k) + int (length qs) < max_int64" using count Cons.prems(4) by simp
    from Cons.IH [OF inv1 wt window small rest] count True show ?thesis by simp
  qed
qed

end

text \<open>The requests of the middleware have the shape that the bucket needs.\<close>

lemma principal_request_well_timed:
  assumes "\<And>u. length (uuid_string u) = 36" and "unix_epoch \<le> now" "now \<le> storeNow" "storeNow \<le> now + 10 * second"
  shows "well_timed (principal_request uuid_string configured p path now storeNow)"
  using assms by (simp add: well_timed_def principal_request_def)

section \<open>Properties\<close>

text \<open>
  C25 (rate_limit_exact): with the in-memory store, after any history of requests a request is allowed
  exactly when its bucket (subject, route and minute) has had fewer than \<open>limit\<close> requests before; the
  remaining count is the rest of the limit, the reset time is the end of the minute, and no check fails.
\<close>

theorem rate_limit_exact:
  assumes "\<forall>p\<in>set (q # past). well_timed p" and "int (length past) + 1 < max_int64"
    and "0 \<le> rq_limit q" and "rq_limit q \<le> max_int64"
    and "s = snd (rate_checks inmem_IncrWithExpire Map.empty past)"
  shows "fst (rate_check inmem_IncrWithExpire s q) =
    \<lparr>cr_allowed = (int (requests_in (bucket_of q) past) < rq_limit q),
     cr_remaining = max 0 (rq_limit q - int (requests_in (bucket_of q) past) - 1),
     cr_resetAt = window_of q + 60 * second, cr_failed = False\<rparr>"
proof -
  let ?n = "int (requests_in (bucket_of q) past)"
  have n: "0 \<le> ?n" "?n \<le> int (length past)" using requests_in_le by simp_all
  obtain rs where run: "rate_checks inmem_IncrWithExpire Map.empty past = (rs, s)"
    using assms(5) by (metis prod.collapse)
  have empty: "inmem_entry Map.empty (key_of q) = None" by (simp add: inmem_entry_def)
  have after: "covers (window_of q) 70 (inmem_entry s (key_of q))"
    and count: "counted (inmem_entry s (key_of q)) = ?n"
    using inmem.checks_count [where p = q and qs = past and rs = rs and s' = s and s = Map.empty] assms(1,2) run by (simp_all add: empty covers_def counted_def)
  have now: "window_of q \<le> rq_storeNow q" "rq_storeNow q < window_of q + 70 * second"
    using in_window [of q] assms(1) by simp_all
  have "fst (inmem_IncrWithExpire s (rq_storeNow q) (key_of q) 70) = Some (?n + 1)"
    using inmem.step_counts(1) [where s = s and d = 1 and w = 70 and a = "window_of q" and k = "key_of q" and now = "rq_storeNow q"] after now n assms(2)
    by (simp add: count ttl_ok_def)
  moreover have "wrap64 (rq_limit q - (?n + 1)) = rq_limit q - (?n + 1)"
    using assms(2-4) n by (intro wrap64_id) simp_all
  ultimately show ?thesis
    by (auto simp: rate_check_answer check_answer_def window_of_def)
qed

definition sample_request :: "int \<Rightarrow> rate_request" where
  "sample_request t = \<lparr>rq_serviceNow = unix_epoch + t * second, rq_storeNow = unix_epoch + t * second + 1,
     rq_subject = replicate 77 CHR ''a'', rq_route = ''/mcp'', rq_limit = 2\<rparr>"

theorem rate_limit_exact_witness:
  "cr_allowed (fst (rate_check inmem_IncrWithExpire
       (snd (rate_checks inmem_IncrWithExpire Map.empty [sample_request 59, sample_request 60, sample_request 61]))
       (sample_request 119))) = False"
proof -
  have wt: "\<forall>p\<in>set (sample_request 119 # [sample_request 59, sample_request 60, sample_request 61]). well_timed p"
    by (simp add: sample_request_def well_timed_def second_def)
  have "requests_in (bucket_of (sample_request 119)) [sample_request 59, sample_request 60, sample_request 61] = 2"
    by (simp add: bucket_of_def sample_request_def windowStartUnix_def unix_seconds_def second_def go_rem_mod)
  then show ?thesis
    using rate_limit_exact [OF wt _ _ _ refl] by (simp add: sample_request_def)
qed

text \<open>
  (redis_rate_limit_bound): with Redis, whatever calls fail or lose their reply, at most \<open>limit\<close>
  requests of one bucket are allowed.
\<close>

theorem redis_rate_limit_bound:
  assumes "redis_ok R" and "redis_inv R r" and "redis_entry R r (key_of p) = None"
    and "\<forall>q\<in>set (p # qs). well_timed q" and "int (length qs) < max_int64" and "0 \<le> rq_limit p"
    and "\<forall>q\<in>set qs. bucket_of q = bucket_of p \<longrightarrow> rq_limit q = rq_limit p"
  shows "int (allowed_in (bucket_of p) qs (fst (rate_checks (redis_IncrWithExpire R) r qs))) \<le> rq_limit p"
proof -
  let ?op = "\<lambda>s now k secs. redis_AddWithExpire R s now k 1 secs"
  obtain rs r' where run: "rate_checks ?op r qs = (rs, r')" by fastforce
  have incr: "redis_IncrWithExpire R = ?op" by (intro ext) (simp add: redis_IncrWithExpire_def)
  have "0 < allowed_in (bucket_of p) qs rs \<longrightarrow> int (allowed_in (bucket_of p) qs rs) \<le> rq_limit p"
    using counter_store.checks_bound [OF redis_counter_store [OF assms(1)] TrueI assms(2,4) _ _ assms(7) run] assms(3,5)
    by (simp add: covers_def counted_def)
  then show ?thesis using assms(6) run incr by (cases "allowed_in (bucket_of p) qs rs") simp_all
qed

theorem redis_rate_limit_bound_witness:
  "int (allowed_in (bucket_of (sample_request 60)) [sample_request 60, sample_request 61, sample_request 62]
     (fst (rate_checks (redis_IncrWithExpire (sample_redis (\<lambda>t r. LostReply))) Map.empty
        [sample_request 60, sample_request 61, sample_request 62]))) \<le> 2"
  using redis_rate_limit_bound [OF sample_redis_ok sample_redis_empty(1) sample_redis_empty(2),
      of "sample_request 60" "[sample_request 60, sample_request 61, sample_request 62]" "\<lambda>t r. LostReply"]
  by (simp add: sample_request_def well_timed_def second_def)

end
