(* ===== verification/Stream_Limiter.thy ===== *)
theory Stream_Limiter
  imports Counter_Stores
begin

text \<open>
  Slots for concurrent streams: the in-memory limiter (internal/storage/inmem/sse_concurrency.go) and
  the Redis limiter (internal/sse/lifecycle.go). A stream takes a slot, runs for at most
  \<open>MaxStreamDuration\<close> and gives the slot back once (\<open>sync.Once\<close>), on whatever path it ends.
\<close>

definition MaxStreamDuration :: int where "MaxStreamDuration = 5 * 60 * second"
definition MaxConcurrentStreams :: int where "MaxConcurrentStreams = 10"

section \<open>The in-memory limiter\<close>

record stream_entry =
  se_count :: int
  se_expiresAt :: time

type_synonym stream_entries = "string \<rightharpoonup> stream_entry"

text \<open>Acquire a slot: whether it was granted, and the entries. A new entry has no expiry yet.\<close>

definition stream_Acquire :: "int \<Rightarrow> int \<Rightarrow> time \<Rightarrow> stream_entries \<Rightarrow> string \<Rightarrow> bool \<times> stream_entries" where
  "stream_Acquire maxStreams ttl now entries teamID =
     (let found = (case entries teamID of
                     None \<Rightarrow> None
                   | Some e \<Rightarrow> if se_expiresAt e < now then None else Some e);
          entry = (case found of None \<Rightarrow> \<lparr>se_count = 0, se_expiresAt = zero_time\<rparr> | Some e \<Rightarrow> e);
          entry' = entry\<lparr>se_count := se_count entry + 1\<rparr>
      in if maxStreams < se_count entry'
         then (False, if se_count entry' - 1 = 0 then entries(teamID := None)
                      else entries(teamID \<mapsto> entry'\<lparr>se_count := se_count entry' - 1\<rparr>))
         else (True, entries(teamID \<mapsto> entry'\<lparr>se_expiresAt := now + ttl\<rparr>)))"

text \<open>The body of the release function.\<close>

definition stream_release :: "stream_entries \<Rightarrow> string \<Rightarrow> stream_entries" where
  "stream_release entries teamID = (case entries teamID of
       None \<Rightarrow> entries
     | Some e \<Rightarrow>
         let c = (if se_count e - 1 < 0 then 0 else se_count e - 1)
         in if c = 0 then entries(teamID := None) else entries(teamID \<mapsto> e\<lparr>se_count := c\<rparr>))"

section \<open>Streams over time\<close>

text \<open>
  A granted slot is a handle: its number, its team, when it was granted and whether its release ran.
  A step is an attempt to acquire, a call of a release function (a second call does nothing), or the
  passing of time, in which no stream that holds a slot runs longer than \<open>maxDuration\<close>: the lifecycle
  releases the slot when its timer fires.
\<close>

record handle =
  h_team :: string
  h_since :: time
  h_released :: bool

record stream_state =
  ss_entries :: stream_entries
  ss_handles :: "handle list"
  ss_now :: time

definition initial_streams :: "time \<Rightarrow> stream_state" where
  "initial_streams now = \<lparr>ss_entries = Map.empty, ss_handles = [], ss_now = now\<rparr>"

definition acquire_step :: "int \<Rightarrow> int \<Rightarrow> stream_state \<Rightarrow> string \<Rightarrow> bool \<times> stream_state" where
  "acquire_step maxStreams ttl s team =
     (case stream_Acquire maxStreams ttl (ss_now s) (ss_entries s) team of
        (False, entries) \<Rightarrow> (False, s\<lparr>ss_entries := entries\<rparr>)
      | (True, entries) \<Rightarrow>
          (True, s\<lparr>ss_entries := entries,
                   ss_handles := ss_handles s @ [\<lparr>h_team = team, h_since = ss_now s, h_released = False\<rparr>]\<rparr>))"

definition release_step :: "stream_state \<Rightarrow> nat \<Rightarrow> stream_state" where
  "release_step s i =
     (let h = ss_handles s ! i
      in if h_released h then s
         else s\<lparr>ss_entries := stream_release (ss_entries s) (h_team h),
                ss_handles := (ss_handles s)[i := h\<lparr>h_released := True\<rparr>]\<rparr>)"

definition may_pass :: "int \<Rightarrow> stream_state \<Rightarrow> time \<Rightarrow> bool" where
  "may_pass maxDuration s t \<longleftrightarrow> ss_now s \<le> t \<and>
     list_all (\<lambda>h. h_released h \<or> t \<le> h_since h + maxDuration) (ss_handles s)"

inductive stream_step :: "int \<Rightarrow> int \<Rightarrow> int \<Rightarrow> stream_state \<Rightarrow> stream_state \<Rightarrow> bool"
  for maxStreams ttl maxDuration where
  acquired: "stream_step maxStreams ttl maxDuration s (snd (acquire_step maxStreams ttl s team))"
| released: "i < length (ss_handles s) \<Longrightarrow> stream_step maxStreams ttl maxDuration s (release_step s i)"
| passed: "may_pass maxDuration s t \<Longrightarrow> stream_step maxStreams ttl maxDuration s (s\<lparr>ss_now := t\<rparr>)"

inductive_cases stream_stepE: "stream_step maxStreams ttl maxDuration s s'"

inductive stream_reachable :: "int \<Rightarrow> int \<Rightarrow> int \<Rightarrow> stream_state \<Rightarrow> bool"
  for maxStreams ttl maxDuration where
  start: "stream_reachable maxStreams ttl maxDuration (initial_streams now)"
| step: "stream_reachable maxStreams ttl maxDuration s \<Longrightarrow> stream_step maxStreams ttl maxDuration s s'
    \<Longrightarrow> stream_reachable maxStreams ttl maxDuration s'"

section \<open>The invariant\<close>

definition open_of :: "string \<Rightarrow> handle list \<Rightarrow> handle list" where
  "open_of team hs = filter (\<lambda>h. h_team h = team \<and> \<not> h_released h) hs"

definition open_streams :: "string \<Rightarrow> stream_state \<Rightarrow> int" where
  "open_streams team s = int (length (open_of team (ss_handles s)))"

definition slot_count :: "stream_entries \<Rightarrow> string \<Rightarrow> int" where
  "slot_count entries team = (case entries team of None \<Rightarrow> 0 | Some e \<Rightarrow> se_count e)"

text \<open>
  The counter of a team is the number of its open streams, an entry has one at least, and it expires
  no earlier than \<open>ttl\<close> after the start of each of them.
\<close>

definition slots_ok :: "int \<Rightarrow> string \<Rightarrow> stream_entry option \<Rightarrow> handle list \<Rightarrow> bool" where
  "slots_ok ttl team e hs = (case e of
       None \<Rightarrow> open_of team hs = []
     | Some x \<Rightarrow> 0 < se_count x \<and> se_count x = int (length (open_of team hs))
         \<and> (\<forall>h\<in>set (open_of team hs). h_since h + ttl \<le> se_expiresAt x))"

definition stream_inv :: "int \<Rightarrow> int \<Rightarrow> int \<Rightarrow> stream_state \<Rightarrow> bool" where
  "stream_inv maxStreams ttl maxDuration s \<longleftrightarrow>
     (\<forall>team. slots_ok ttl team (ss_entries s team) (ss_handles s) \<and> open_streams team s \<le> maxStreams)
     \<and> (\<forall>h\<in>set (ss_handles s). \<not> h_released h \<longrightarrow> h_since h \<le> ss_now s \<and> ss_now s \<le> h_since h + maxDuration)"

lemma slots_ok_cong: "open_of t hs = open_of t hs' \<Longrightarrow> slots_ok ttl t e hs = slots_ok ttl t e hs'"
  by (simp only: slots_ok_def)

lemma open_of_snoc: "open_of team (hs @ [h]) =
    open_of team hs @ (if h_team h = team \<and> \<not> h_released h then [h] else [])"
  by (simp add: open_of_def)

lemma open_of_release:
  assumes "i < length hs" and "\<not> h_released (hs ! i)"
  shows "length (open_of team (hs[i := (hs ! i)\<lparr>h_released := True\<rparr>]))
      = (if h_team (hs ! i) = team then length (open_of team hs) - 1 else length (open_of team hs))"
    and "set (open_of team (hs[i := (hs ! i)\<lparr>h_released := True\<rparr>])) \<subseteq> set (open_of team hs)"
    and "h_team (hs ! i) = team \<Longrightarrow> 0 < length (open_of team hs)"
    and "h_team (hs ! i) \<noteq> team \<Longrightarrow> open_of team (hs[i := (hs ! i)\<lparr>h_released := True\<rparr>]) = open_of team hs"
proof -
  have upd: "hs[i := (hs ! i)\<lparr>h_released := True\<rparr>] = take i hs @ (hs ! i)\<lparr>h_released := True\<rparr> # drop (Suc i) hs"
    using assms(1) by (rule upd_conv_take_nth_drop)
  have split: "hs = take i hs @ hs ! i # drop (Suc i) hs" using assms(1) by (rule id_take_nth_drop)
  have old: "open_of team hs = open_of team (take i hs)
      @ (if h_team (hs ! i) = team then [hs ! i] else []) @ open_of team (drop (Suc i) hs)"
    using assms(2) by (subst split) (simp add: open_of_def)
  have new: "open_of team (hs[i := (hs ! i)\<lparr>h_released := True\<rparr>])
      = open_of team (take i hs) @ open_of team (drop (Suc i) hs)"
    by (simp add: upd open_of_def)
  show "length (open_of team (hs[i := (hs ! i)\<lparr>h_released := True\<rparr>]))
      = (if h_team (hs ! i) = team then length (open_of team hs) - 1 else length (open_of team hs))"
    and "set (open_of team (hs[i := (hs ! i)\<lparr>h_released := True\<rparr>])) \<subseteq> set (open_of team hs)"
    and "h_team (hs ! i) = team \<Longrightarrow> 0 < length (open_of team hs)"
    and "h_team (hs ! i) \<noteq> team \<Longrightarrow> open_of team (hs[i := (hs ! i)\<lparr>h_released := True\<rparr>]) = open_of team hs"
    by (auto simp: old new)
qed

text \<open>Under the invariant no entry is expired, and its counter is the number of open streams.\<close>

lemma stream_inv_entry:
  assumes inv: "stream_inv maxStreams ttl maxDuration s" and long: "maxDuration \<le> ttl"
  shows "slot_count (ss_entries s) team = open_streams team s"
    and "ss_entries s team = Some e \<Longrightarrow> \<not> se_expiresAt e < ss_now s \<and> 0 < se_count e"
proof -
  have ok: "slots_ok ttl team (ss_entries s team) (ss_handles s)" using inv by (simp add: stream_inv_def)
  then show "slot_count (ss_entries s) team = open_streams team s"
    by (auto simp: slot_count_def open_streams_def slots_ok_def split: option.splits)
  assume e: "ss_entries s team = Some e"
  with ok have pos: "0 < se_count e" and len: "se_count e = int (length (open_of team (ss_handles s)))"
    and exp: "\<forall>h\<in>set (open_of team (ss_handles s)). h_since h + ttl \<le> se_expiresAt e"
    by (auto simp: slots_ok_def)
  have "open_of team (ss_handles s) \<noteq> []" using pos len by auto
  then obtain h where h: "h \<in> set (open_of team (ss_handles s))" by (meson list.set_sel(1))
  then have "h \<in> set (ss_handles s)" "\<not> h_released h" by (simp_all add: open_of_def)
  then have "ss_now s \<le> h_since h + maxDuration" using inv by (simp add: stream_inv_def)
  with exp h long pos show "\<not> se_expiresAt e < ss_now s \<and> 0 < se_count e" by fastforce
qed

lemma acquire_step_inv:
  assumes inv: "stream_inv maxStreams ttl maxDuration s" and long: "maxDuration \<le> ttl" and pos: "0 \<le> maxDuration"
  shows "stream_inv maxStreams ttl maxDuration (snd (acquire_step maxStreams ttl s team))"
    and "fst (acquire_step maxStreams ttl s team) \<longleftrightarrow> open_streams team s < maxStreams"
proof -
  let ?E = "ss_entries s" and ?H = "ss_handles s" and ?c = "slot_count (ss_entries s) team"
  let ?x = "case ?E team of None \<Rightarrow> \<lparr>se_count = 0, se_expiresAt = zero_time\<rparr> | Some e \<Rightarrow> e"
  have cnt: "?c = open_streams team s" by (rule stream_inv_entry(1) [OF inv long])
  have x: "se_count ?x = ?c" by (simp add: slot_count_def split: option.splits)
  have found: "(case ?E team of None \<Rightarrow> None | Some e \<Rightarrow> if se_expiresAt e < ss_now s then None else Some e) = ?E team"
    using stream_inv_entry(2) [OF inv long] by (auto split: option.splits)
  have acq: "stream_Acquire maxStreams ttl (ss_now s) ?E team =
      (if maxStreams < ?c + 1 then (False, if ?c = 0 then ?E(team := None) else ?E(team \<mapsto> ?x\<lparr>se_count := ?c\<rparr>))
       else (True, ?E(team \<mapsto> ?x\<lparr>se_count := ?c + 1, se_expiresAt := ss_now s + ttl\<rparr>)))"
    unfolding stream_Acquire_def found Let_def using x by simp
  have ok: "slots_ok ttl t (?E t) ?H" "open_streams t s \<le> maxStreams" for t using inv by (simp_all add: stream_inv_def)
  show granted: "fst (acquire_step maxStreams ttl s team) \<longleftrightarrow> open_streams team s < maxStreams"
    using cnt by (auto simp: acquire_step_def acq)
  show "stream_inv maxStreams ttl maxDuration (snd (acquire_step maxStreams ttl s team))"
  proof (cases "maxStreams < ?c + 1")
    case True
    have "(if ?c = 0 then ?E(team := None) else ?E(team \<mapsto> ?x\<lparr>se_count := ?c\<rparr>)) = ?E"
      using stream_inv_entry(2) [OF inv long, of team]
      by (auto simp: slot_count_def fun_upd_idem_iff split: option.splits)
    with True have "snd (acquire_step maxStreams ttl s team) = s" by (simp add: acquire_step_def acq)
    with inv show ?thesis by simp
  next
    case False
    let ?h = "\<lparr>h_team = team, h_since = ss_now s, h_released = False\<rparr>"
    let ?s' = "s\<lparr>ss_entries := ?E(team \<mapsto> ?x\<lparr>se_count := ?c + 1, se_expiresAt := ss_now s + ttl\<rparr>), ss_handles := ?H @ [?h]\<rparr>"
    have s': "snd (acquire_step maxStreams ttl s team) = ?s'" using False by (simp add: acquire_step_def acq)
    have past: "h_since h \<le> ss_now s" if "h \<in> set (open_of team ?H)" for h
      using inv that by (auto simp: stream_inv_def open_of_def)
    have "slots_ok ttl t (ss_entries ?s' t) (ss_handles ?s') \<and> open_streams t ?s' \<le> maxStreams" for t
    proof (cases "t = team")
      case True
      then show ?thesis using False cnt past
        by (auto simp: slots_ok_def open_of_snoc open_streams_def)
    next
      case other: False
      then have same: "open_of t (ss_handles ?s') = open_of t ?H" by (simp add: open_of_snoc)
      moreover have "slots_ok ttl t (ss_entries s t) (ss_handles ?s')" using slots_ok_cong [OF same] ok(1) by blast
      moreover have "ss_entries ?s' t = ss_entries s t" using other by simp
      ultimately show ?thesis using ok(2) [of t] unfolding open_streams_def by metis
    qed
    moreover have "\<forall>h\<in>set (ss_handles ?s'). \<not> h_released h \<longrightarrow> h_since h \<le> ss_now ?s' \<and> ss_now ?s' \<le> h_since h + maxDuration"
      using inv pos by (auto simp: stream_inv_def)
    ultimately show ?thesis unfolding s' stream_inv_def by blast
  qed
qed

lemma release_step_inv:
  assumes inv: "stream_inv maxStreams ttl maxDuration s" and i: "i < length (ss_handles s)"
  shows "stream_inv maxStreams ttl maxDuration (release_step s i)"
proof (cases "h_released (ss_handles s ! i)")
  case True
  with inv show ?thesis by (simp add: release_step_def Let_def)
next
  case False
  let ?h = "ss_handles s ! i" and ?H = "ss_handles s"
  let ?s' = "s\<lparr>ss_entries := stream_release (ss_entries s) (h_team ?h), ss_handles := ?H[i := ?h\<lparr>h_released := True\<rparr>]\<rparr>"
  have s': "release_step s i = ?s'" using False by (simp add: release_step_def Let_def)
  have ok: "slots_ok ttl t (ss_entries s t) ?H" "open_streams t s \<le> maxStreams" for t using inv by (simp_all add: stream_inv_def)
  note rel = open_of_release [OF i False]
  have "slots_ok ttl t (ss_entries ?s' t) (ss_handles ?s') \<and> open_streams t ?s' \<le> maxStreams" for t
  proof (cases "t = h_team ?h")
    case True
    then have pos: "0 < length (open_of t ?H)" and len: "length (open_of t (ss_handles ?s')) = length (open_of t ?H) - 1"
      and sub: "set (open_of t (ss_handles ?s')) \<subseteq> set (open_of t ?H)" using rel by auto
    obtain e where e: "ss_entries s t = Some e" "se_count e = int (length (open_of t ?H))"
      "\<forall>h\<in>set (open_of t ?H). h_since h + ttl \<le> se_expiresAt e"
      using ok(1) [of t] pos by (auto simp: slots_ok_def split: option.splits)
    have rest: "ss_entries ?s' t = (if length (open_of t ?H) = 1 then None else Some (e\<lparr>se_count := int (length (open_of t ?H)) - 1\<rparr>))"
      using e pos True by (auto simp: stream_release_def Let_def)
    have "slots_ok ttl t (ss_entries ?s' t) (ss_handles ?s')"
    proof (cases "length (open_of t ?H)")
      case (Suc n)
      have "open_of t (ss_handles ?s') = []" if "n = 0" using len Suc that by (simp only: length_0_conv) simp
      then show ?thesis
        unfolding rest using e(3) sub len Suc by (auto simp: slots_ok_def)
    qed (use pos in simp)
    moreover have "open_streams t ?s' \<le> maxStreams"
      using len ok(2) [of t] by (simp add: open_streams_def)
    ultimately show ?thesis by blast
  next
    case False
    then have same: "open_of t (ss_handles ?s') = open_of t ?H" using rel(4) [of t] by simp
    moreover have "slots_ok ttl t (ss_entries s t) (ss_handles ?s')" using slots_ok_cong [OF same] ok(1) by blast
    moreover have "ss_entries ?s' t = ss_entries s t"
      using False by (auto simp: stream_release_def Let_def split: option.splits)
    ultimately show ?thesis using ok(2) [of t] unfolding open_streams_def by metis
  qed
  moreover have "\<forall>h\<in>set (ss_handles ?s'). \<not> h_released h \<longrightarrow> h_since h \<le> ss_now ?s' \<and> ss_now ?s' \<le> h_since h + maxDuration"
    using inv i by (auto simp: stream_inv_def dest!: set_update_subset_insert [THEN subsetD])
  ultimately show ?thesis unfolding s' stream_inv_def by blast
qed

lemma reachable_inv:
  assumes "stream_reachable maxStreams ttl maxDuration s" and "0 \<le> maxStreams" and "0 \<le> maxDuration" and "maxDuration \<le> ttl"
  shows "stream_inv maxStreams ttl maxDuration s"
  using assms(1)
proof induction
  case (start now)
  then show ?case
    using assms by (simp add: stream_inv_def initial_streams_def slots_ok_def open_streams_def open_of_def)
next
  case (step s s')
  from step.hyps(2) show ?case
  proof (cases rule: stream_step.cases)
    case acquired
    then show ?thesis using acquire_step_inv(1) [OF step.IH assms(4,3)] by simp
  next
    case released
    then show ?thesis using release_step_inv [OF step.IH] by simp
  next
    case passed
    then show ?thesis using step.IH
      by (auto simp: stream_inv_def may_pass_def open_streams_def list_all_iff)
  qed
qed

section \<open>Properties\<close>





section \<open>The Redis limiter\<close>

text \<open>
  \<open>redisConcurrencyLimiter\<close> counts the slots of a team in one key. The answer of an attempt is a
  granted slot, \<open>ErrTooManyStreams\<close>, or the error of a command.
\<close>

datatype acquire_answer = Granted | TooManyStreams | StoreError

definition redis_decrement :: "'r redis \<Rightarrow> time \<Rightarrow> 'r \<Rightarrow> string \<Rightarrow> 'r" where
  "redis_decrement R now r key = snd (redis_call R now r (r_incrby R now r key (- 1)))"

definition redis_Acquire :: "'r redis \<Rightarrow> int \<Rightarrow> int \<Rightarrow> time \<Rightarrow> 'r \<Rightarrow> string \<Rightarrow> acquire_answer \<times> 'r" where
  "redis_Acquire R maxStreams counterTTL now r key =
     (case redis_call R now r (r_incrby R now r key 1) of
        (None, r1) \<Rightarrow> (StoreError, r1)
      | (Some n, r1) \<Rightarrow>
          (case (if n = 1 then redis_call R now r1 (Some (), r_expire R now r1 key counterTTL) else (Some (), r1)) of
             (None, r2) \<Rightarrow> (StoreError, redis_decrement R now r2 key)
           | (Some u, r2) \<Rightarrow>
               if maxStreams < n then (TooManyStreams, redis_decrement R now r2 key) else (Granted, r2)))"

text \<open>A run of streams: a stream starts, or the release of a granted stream runs.\<close>

datatype stream_event = Start nat time | Finish nat time

fun redis_event :: "'r redis \<Rightarrow> int \<Rightarrow> int \<Rightarrow> string \<Rightarrow> nat list \<times> 'r \<Rightarrow> stream_event \<Rightarrow> nat list \<times> 'r" where
  "redis_event R maxStreams ttl key (running, r) (Start i now) =
     (case redis_Acquire R maxStreams ttl now r key of
        (Granted, r') \<Rightarrow> (running @ [i], r')
      | (answer, r') \<Rightarrow> (running, r'))"
| "redis_event R maxStreams ttl key (running, r) (Finish i now) =
     (if i \<in> set running then (removeAll i running, redis_decrement R now r key) else (running, r))"

text \<open>Without faults, a run only depends on the entry of the key.\<close>

definition entry_after :: "time \<Rightarrow> (int \<times> time option) option \<Rightarrow> int \<Rightarrow> int \<times> (int \<times> time option) option" where
  "entry_after now e d = (let (c, t) = (case alive now e of None \<Rightarrow> (0, None) | Some ct \<Rightarrow> ct) in (c + d, Some (c + d, t)))"

fun entry_event :: "int \<Rightarrow> int \<Rightarrow> nat list \<times> (int \<times> time option) option \<Rightarrow> stream_event
    \<Rightarrow> nat list \<times> (int \<times> time option) option" where
  "entry_event maxStreams ttl (running, e) (Start i now) =
     (let (n, e1) = entry_after now e 1;
          e2 = (if n = 1 then expire_entry now e1 ttl else e1)
      in if maxStreams < n then (running, snd (entry_after now e2 (- 1))) else (running @ [i], e2))"
| "entry_event maxStreams ttl (running, e) (Finish i now) =
     (if i \<in> set running then (removeAll i running, snd (entry_after now e (- 1))) else (running, e))"

definition entry_small :: "(int \<times> time option) option \<Rightarrow> bool" where
  "entry_small e = (case e of None \<Rightarrow> True | Some (c, t) \<Rightarrow> \<bar>c\<bar> < 2 ^ 62)"

lemma incrby_small:
  assumes "entry_small e" and "\<bar>d\<bar> = 1"
  shows "incrby_entry now e d = snd (entry_after now e d)"
    and "snd (entry_after now e d) = Some (fst (entry_after now e d), snd (the (snd (entry_after now e d))))"
  using assms
  by (auto simp: incrby_entry_def entry_after_def entry_small_def alive_def Let_def split: option.splits prod.splits)

lemma redis_incr_small:
  assumes "redis_ok R" and "entry_small (r_entry R r k)" and "\<bar>d\<bar> = 1"
  shows "fst (r_incrby R now r k d) = Some (fst (entry_after now (r_entry R r k) d))"
    and "r_entry R (snd (r_incrby R now r k d)) k = snd (entry_after now (r_entry R r k) d)"
proof -
  have "case incrby_entry now (r_entry R r k) d of
          Some e \<Rightarrow> fst (r_incrby R now r k d) = Some (fst e)
            \<and> r_entry R (snd (r_incrby R now r k d)) k = (if k = k then Some e else r_entry R r k)
        | None \<Rightarrow> fst (r_incrby R now r k d) = None
            \<and> r_entry R (snd (r_incrby R now r k d)) k = r_entry R r k"
    using assms(1) unfolding redis_ok_def by blast
  then show "fst (r_incrby R now r k d) = Some (fst (entry_after now (r_entry R r k) d))"
    and "r_entry R (snd (r_incrby R now r k d)) k = snd (entry_after now (r_entry R r k) d)"
    using incrby_small [OF assms(2,3), of now] by (auto split: option.splits)
qed

lemma redis_event_entry:
  assumes ok: "redis_ok R" and calm: "\<And>now r. r_fault R now r = NoFault"
    and small: "entry_small (r_entry R r key)" "entry_small (snd (entry_after now (r_entry R r key) 1))" and "0 < ttl"
    and ev: "ev = Start i now \<or> ev = Finish i now"
  shows "fst (redis_event R maxStreams ttl key (running, r) ev) = fst (entry_event maxStreams ttl (running, r_entry R r key) ev)
    \<and> r_entry R (snd (redis_event R maxStreams ttl key (running, r) ev)) key
        = snd (entry_event maxStreams ttl (running, r_entry R r key) ev)"
proof -
  have call: "redis_call R now r outcome = outcome" for now r and outcome :: "'v option \<times> 'a"
    by (simp add: redis_call_def calm)
  have expire: "r_entry R (r_expire R now r1 key ttl) key = expire_entry now (r_entry R r1 key) ttl" for r1 now
    using ok assms(5) unfolding redis_ok_def by simp
  obtain r1 where step: "r_incrby R now r key 1 = (Some (fst (entry_after now (r_entry R r key) 1)), r1)"
    "r_entry R r1 key = snd (entry_after now (r_entry R r key) 1)"
    using redis_incr_small [OF ok small(1), of 1 now] by (metis abs_1 prod.collapse)
  define n where "n = fst (entry_after now (r_entry R r key) 1)"
  define r2 where "r2 = (if n = 1 then r_expire R now r1 key ttl else r1)"
  have r2: "r_entry R r2 key = (if n = 1 then expire_entry now (snd (entry_after now (r_entry R r key) 1)) ttl
      else snd (entry_after now (r_entry R r key) 1))"
    by (simp add: r2_def expire step(2))
  have "entry_small (r_entry R r2 key)"
    using small(2) unfolding r2
    by (auto simp: entry_small_def expire_entry_def alive_def split: option.splits prod.splits if_splits)
  then have dec2: "r_entry R (redis_decrement R now r2 key) key = snd (entry_after now (r_entry R r2 key) (- 1))"
    using redis_incr_small(2) [OF ok, of r2 key "- 1" now] by (simp add: redis_decrement_def call)
  have dec: "r_entry R (redis_decrement R now r key) key = snd (entry_after now (r_entry R r key) (- 1))"
    using redis_incr_small(2) [OF ok small(1), of "- 1" now] by (simp add: redis_decrement_def call)
  have acquire: "redis_Acquire R maxStreams ttl now r key
      = (if maxStreams < n then (TooManyStreams, redis_decrement R now r2 key) else (Granted, r2))"
    by (simp add: redis_Acquire_def call step(1) n_def [symmetric] r2_def)
  show ?thesis
    using ev
  proof
    assume "ev = Start i now"
    then show ?thesis
      by (simp add: acquire dec2 r2 Let_def case_prod_beta n_def [symmetric])
  next
    assume "ev = Finish i now"
    then show ?thesis by (simp add: dec)
  qed
qed

fun event_time :: "stream_event \<Rightarrow> time" where
  "event_time (Start i now) = now"
| "event_time (Finish i now) = now"

fun small_run :: "int \<Rightarrow> int \<Rightarrow> nat list \<times> (int \<times> time option) option \<Rightarrow> stream_event list \<Rightarrow> bool" where
  "small_run maxStreams ttl st [] \<longleftrightarrow> True"
| "small_run maxStreams ttl st (ev # evs) \<longleftrightarrow>
     entry_small (snd st) \<and> entry_small (snd (entry_after (event_time ev) (snd st) 1))
     \<and> small_run maxStreams ttl (entry_event maxStreams ttl st ev) evs"

lemma redis_run_entry:
  assumes "redis_ok R" and "\<And>now r. r_fault R now r = NoFault" and "0 < ttl"
    and "small_run maxStreams ttl (fst st, r_entry R (snd st) key) evs"
  shows "fst (foldl (redis_event R maxStreams ttl key) st evs)
      = fst (foldl (entry_event maxStreams ttl) (fst st, r_entry R (snd st) key) evs)"
  using assms(4)
proof (induction evs arbitrary: st)
  case Nil
  then show ?case by simp
next
  case (Cons ev evs)
  obtain running r where st: "st = (running, r)" by fastforce
  obtain i where "ev = Start i (event_time ev) \<or> ev = Finish i (event_time ev)" by (cases ev) auto
  then have step: "fst (redis_event R maxStreams ttl key st ev) = fst (entry_event maxStreams ttl (running, r_entry R r key) ev)"
    "r_entry R (snd (redis_event R maxStreams ttl key st ev)) key = snd (entry_event maxStreams ttl (running, r_entry R r key) ev)"
    using redis_event_entry [OF assms(1,2) _ _ assms(3), of r key "event_time ev"] Cons.prems by (auto simp: st)
  with Cons show ?case by (simp add: st)
qed

text \<open>
  Streams of five minutes that overlap, so that the counter stays above zero for an hour: its key is
  only given a deadline by its first increment, and goes away while two streams run.
\<close>

definition overlapping_streams :: "stream_event list" where
  "overlapping_streams =
     Start 0 0 #
     concat (map (\<lambda>i. [Start i (200 * int i * second), Finish (i - 1) ((200 * int i + 100) * second)]) [1..<18])
     @ [Start 18 (3510 * second), Start 19 (3601 * second), Start 20 (3601 * second),
        Finish 17 (3700 * second), Finish 18 (3810 * second), Finish 19 (3900 * second), Finish 20 (3900 * second)]"

text \<open>No stream of the run is longer than \<open>MaxStreamDuration\<close>.\<close>

definition within_duration :: "stream_event list \<Rightarrow> bool" where
  "within_duration evs = list_all (\<lambda>ev. case ev of
       Start i t \<Rightarrow> list_all (\<lambda>ev'. case ev' of Finish j t' \<Rightarrow> j = i \<longrightarrow> t \<le> t' \<and> t' \<le> t + MaxStreamDuration | _ \<Rightarrow> True) evs
     | Finish i t \<Rightarrow> True) evs"

definition late_streams :: "stream_event list" where
  "late_streams = map (\<lambda>i. Start i (3910 * second)) [21..<25]"

text \<open>
  (redis_slots_exceeded): the Redis limiter admits more streams than its limit: after an hour of
  overlapping five-minute streams of a team whose limit is two, all of them ended, four streams that
  start at the same moment are all granted, with no command failing.
\<close>

theorem redis_slots_exceeded:
  assumes "redis_ok R" and "\<forall>now r. r_fault R now r = NoFault" and "r_entry R r key = None"
  shows "within_duration overlapping_streams
    \<and> fst (foldl (redis_event R 2 3600 key) ([], r) overlapping_streams) = []
    \<and> length (fst (foldl (redis_event R 2 3600 key) ([], r) (overlapping_streams @ late_streams))) = 4"
proof (intro conjI)
  have run: "fst (foldl (redis_event R 2 3600 key) ([], r) evs) = fst (foldl (entry_event 2 3600) ([], None) evs)"
    if "small_run 2 3600 ([], None) evs" for evs
    using redis_run_entry [OF assms(1), of 3600 2 "([], r)"] assms(2,3) that by simp
  show "within_duration overlapping_streams" by code_simp
  show "fst (foldl (redis_event R 2 3600 key) ([], r) overlapping_streams) = []"
    by (subst run; code_simp)
  show "length (fst (foldl (redis_event R 2 3600 key) ([], r) (overlapping_streams @ late_streams))) = 4"
    by (subst run; code_simp)
qed

theorem redis_slots_exceeded_witness:
  "length (fst (foldl (redis_event (sample_redis (\<lambda>t r. NoFault)) 2 3600 ''team'') ([], Map.empty)
     (overlapping_streams @ late_streams))) = 4"
  using redis_slots_exceeded [OF sample_redis_ok, of "\<lambda>t r. NoFault" Map.empty "''team''"]
  by (simp add: sample_redis_def)

end
