(* ===== verification/Demo_Quota.thy ===== *)
theory Demo_Quota
  imports Counter_Stores
begin

text \<open>
  The quotas of the public demo, cmd/internal/demo/service/quota.go: the limits, the counters of a
  team, and what a tool call consumes. The counters are those of \<open>Counter_Stores\<close> with a time to live
  of \<open>CounterTTL\<close>; an error of a call is the code of its HTTP error.
\<close>

section \<open>Limits\<close>

record quotas =
  q_SessionTTL :: int
  q_CounterTTL :: int
  q_TotalRequests :: int
  q_WriteAttempts :: int
  q_EvidenceAttempts :: int
  q_EvidenceBytes :: int
  q_VerifierAttempts :: int
  q_RecallCalls :: int
  q_PerMinuteRequests :: int
  q_IssuePerIPDay :: int

record quota_limits =
  ql_SessionHours :: int
  ql_TotalRequests :: int
  ql_WriteAttempts :: int
  ql_EvidenceAttempts :: int
  ql_EvidenceBytes :: int
  ql_VerifierAttempts :: int
  ql_RecallCalls :: int
  ql_PerMinuteRequests :: int

definition DefaultQuotas :: quotas where
  "DefaultQuotas = \<lparr>q_SessionTTL = 24 * 3600 * second, q_CounterTTL = 25 * 3600 * second,
     q_TotalRequests = 300, q_WriteAttempts = 75, q_EvidenceAttempts = 30, q_EvidenceBytes = 128 * 1024,
     q_VerifierAttempts = 30, q_RecallCalls = 50, q_PerMinuteRequests = 20, q_IssuePerIPDay = 10\<rparr>"

definition positive_or :: "int \<Rightarrow> int \<Rightarrow> int" where
  "positive_or fallback v = (if v \<le> 0 then fallback else v)"

definition quotas_normalized :: "quotas \<Rightarrow> quotas" where
  "quotas_normalized q =
     \<lparr>q_SessionTTL = positive_or (q_SessionTTL DefaultQuotas) (q_SessionTTL q),
      q_CounterTTL = positive_or (q_CounterTTL DefaultQuotas) (q_CounterTTL q),
      q_TotalRequests = positive_or (q_TotalRequests DefaultQuotas) (q_TotalRequests q),
      q_WriteAttempts = positive_or (q_WriteAttempts DefaultQuotas) (q_WriteAttempts q),
      q_EvidenceAttempts = positive_or (q_EvidenceAttempts DefaultQuotas) (q_EvidenceAttempts q),
      q_EvidenceBytes = positive_or (q_EvidenceBytes DefaultQuotas) (q_EvidenceBytes q),
      q_VerifierAttempts = positive_or (q_VerifierAttempts DefaultQuotas) (q_VerifierAttempts q),
      q_RecallCalls = positive_or (q_RecallCalls DefaultQuotas) (q_RecallCalls q),
      q_PerMinuteRequests = positive_or (q_PerMinuteRequests DefaultQuotas) (q_PerMinuteRequests q),
      q_IssuePerIPDay = positive_or (q_IssuePerIPDay DefaultQuotas) (q_IssuePerIPDay q)\<rparr>"

definition quotas_Limits :: "quotas \<Rightarrow> quota_limits" where
  "quotas_Limits q0 = (let q = quotas_normalized q0 in
     \<lparr>ql_SessionHours = q_SessionTTL q div (3600 * second),
      ql_TotalRequests = q_TotalRequests q, ql_WriteAttempts = q_WriteAttempts q,
      ql_EvidenceAttempts = q_EvidenceAttempts q, ql_EvidenceBytes = q_EvidenceBytes q,
      ql_VerifierAttempts = q_VerifierAttempts q, ql_RecallCalls = q_RecallCalls q,
      ql_PerMinuteRequests = q_PerMinuteRequests q\<rparr>)"

text \<open>The quotas of a manager, which may be \<open>nil\<close>.\<close>

definition manager_Quotas :: "quotas option \<Rightarrow> quotas" where
  "manager_Quotas m = (case m of None \<Rightarrow> DefaultQuotas | Some q \<Rightarrow> quotas_normalized q)"

lemma positive_or_pos: "0 < fallback \<Longrightarrow> 0 < positive_or fallback v"
  by (simp add: positive_or_def)

lemma quotas_normalized_idem: "quotas_normalized (quotas_normalized q) = quotas_normalized q"
  by (simp add: quotas_normalized_def positive_or_def DefaultQuotas_def second_def)

section \<open>Consuming\<close>

datatype quota_error = QuotaUnavailable | QuotaForbidden | QuotaExceeded string int

definition quotaKey :: "string \<Rightarrow> string \<Rightarrow> string" where
  "quotaKey teamID counter = ''demo:quota:'' @ teamID @ '':'' @ counter"

text \<open>
  \<open>consume\<close> on a manager whose store may be missing, with quotas \<open>q\<close>; \<open>CounterTTL.Seconds()\<close> is converted to \<open>int64\<close>, which drops the
  fraction. The clock is that of the store.
\<close>

type_synonym 's counter_op = "'s \<Rightarrow> time \<Rightarrow> string \<Rightarrow> int \<Rightarrow> int \<Rightarrow> int option \<times> 's"

definition counter_ttl :: "quotas \<Rightarrow> int" where
  "counter_ttl q = q_CounterTTL (quotas_normalized q) div second"

definition quota_consume :: "'s counter_op option \<Rightarrow> quotas \<Rightarrow> time \<Rightarrow> string \<Rightarrow> string \<Rightarrow> string \<Rightarrow> int \<Rightarrow> int \<Rightarrow> 's
    \<Rightarrow> quota_error option \<times> 's" where
  "quota_consume store q now teamID counter label delta limit s =
     (case store of
        None \<Rightarrow> (Some QuotaUnavailable, s)
      | Some add \<Rightarrow>
          if trim_space teamID = [] then (Some QuotaForbidden, s)
          else case add s now (quotaKey teamID counter) delta (counter_ttl q) of
                 (None, s') \<Rightarrow> (Some QuotaUnavailable, s')
               | (Some n, s') \<Rightarrow> (if limit < n then Some (QuotaExceeded label limit) else None, s'))"

definition ConsumeRequest :: "'s counter_op option \<Rightarrow> quotas \<Rightarrow> time \<Rightarrow> string \<Rightarrow> 's \<Rightarrow> quota_error option \<times> 's" where
  "ConsumeRequest store q now teamID =
     quota_consume store q now teamID ''requests'' ''authenticated requests'' 1 (q_TotalRequests (quotas_normalized q))"

definition ConsumeWrite :: "'s counter_op option \<Rightarrow> quotas \<Rightarrow> time \<Rightarrow> string \<Rightarrow> 's \<Rightarrow> quota_error option \<times> 's" where
  "ConsumeWrite store q now teamID =
     quota_consume store q now teamID ''writes'' ''write attempts'' 1 (q_WriteAttempts (quotas_normalized q))"

definition ConsumeMemoryEvidence :: "'s counter_op option \<Rightarrow> quotas \<Rightarrow> time \<Rightarrow> string \<Rightarrow> int \<Rightarrow> int \<Rightarrow> 's
    \<Rightarrow> quota_error option \<times> 's" where
  "ConsumeMemoryEvidence store q now teamID n bytes s =
     (let items = positive_or 1 n in
      case quota_consume store q now teamID ''evidence'' ''memory evidence items'' items
             (q_EvidenceAttempts (quotas_normalized q)) s of
        (Some e, s') \<Rightarrow> (Some e, s')
      | (None, s') \<Rightarrow>
          if bytes \<le> 0 then (None, s')
          else quota_consume store q now teamID ''evidence_bytes'' ''memory evidence bytes'' bytes
                 (q_EvidenceBytes (quotas_normalized q)) s')"

definition ConsumeVerifier :: "'s counter_op option \<Rightarrow> quotas \<Rightarrow> time \<Rightarrow> string \<Rightarrow> int \<Rightarrow> 's \<Rightarrow> quota_error option \<times> 's" where
  "ConsumeVerifier store q now teamID n =
     quota_consume store q now teamID ''verifier'' ''semantic verifier attempts'' (positive_or 1 n)
       (q_VerifierAttempts (quotas_normalized q))"

definition ConsumeRecall :: "'s counter_op option \<Rightarrow> quotas \<Rightarrow> time \<Rightarrow> string \<Rightarrow> 's \<Rightarrow> quota_error option \<times> 's" where
  "ConsumeRecall store q now teamID =
     quota_consume store q now teamID ''recall'' ''recall calls'' 1 (q_RecallCalls (quotas_normalized q))"

text \<open>
  The evidence of a tool input: \<open>None\<close> when it is not a list; an item that is not an object, or whose
  content is not a string, is \<open>None\<close>. Both list types that the code accepts are read the same way.
\<close>

definition RememberEvidenceUsage :: "string option list option \<Rightarrow> int \<times> int" where
  "RememberEvidenceUsage evidence = (let raw = (case evidence of None \<Rightarrow> [] | Some xs \<Rightarrow> xs) in
     (int (length raw),
      foldl (\<lambda>bytes item. case item of None \<Rightarrow> bytes | Some content \<Rightarrow> wrap64 (bytes + int (length content))) 0 raw))"

definition ConsumeTool :: "'s counter_op option \<Rightarrow> quotas \<Rightarrow> time \<Rightarrow> string \<Rightarrow> string \<Rightarrow> string option list option \<Rightarrow> 's
    \<Rightarrow> quota_error option \<times> 's" where
  "ConsumeTool store q now teamID toolName evidence s =
     (if toolName = ''remember'' then
        (let (n, bytes) = RememberEvidenceUsage evidence in
         case ConsumeWrite store q now teamID s of
           (Some e, s1) \<Rightarrow> (Some e, s1)
         | (None, s1) \<Rightarrow>
             (case ConsumeMemoryEvidence store q now teamID n bytes s1 of
                (Some e, s2) \<Rightarrow> (Some e, s2)
              | (None, s2) \<Rightarrow> ConsumeVerifier store q now teamID n s2))
      else if toolName = ''recall_memory'' then ConsumeRecall store q now teamID s
      else if toolName = ''correct_relationship'' \<or> toolName = ''retract_evidence'' then ConsumeWrite store q now teamID s
      else (None, s))"

text \<open>The tool calls of a run, oldest first, with their errors.\<close>

record tool_call =
  tc_now :: time
  tc_team :: string
  tc_tool :: string
  tc_evidence :: "string option list option"

fun tool_calls :: "'s counter_op option \<Rightarrow> quotas \<Rightarrow> tool_call list \<Rightarrow> 's \<Rightarrow> quota_error option list \<times> 's" where
  "tool_calls store q [] s = ([], s)"
| "tool_calls store q (c # cs) s =
     (let (e, s1) = ConsumeTool store q (tc_now c) (tc_team c) (tc_tool c) (tc_evidence c) s;
          (es, s2) = tool_calls store q cs s1
      in (e # es, s2))"

section \<open>What a call uses\<close>

text \<open>The units of a counter that an accepted call stands for, and the limit of the counter.\<close>

definition tool_usage :: "string \<Rightarrow> tool_call \<Rightarrow> int" where
  "tool_usage counter c =
     (let (n, bytes) = RememberEvidenceUsage (tc_evidence c) in
      if tc_tool c = ''remember'' then
        (if counter = ''writes'' then 1
         else if counter = ''evidence'' \<or> counter = ''verifier'' then positive_or 1 n
         else if counter = ''evidence_bytes'' then max 0 bytes
         else 0)
      else if tc_tool c = ''recall_memory'' then (if counter = ''recall'' then 1 else 0)
      else if tc_tool c = ''correct_relationship'' \<or> tc_tool c = ''retract_evidence'' then
        (if counter = ''writes'' then 1 else 0)
      else 0)"

definition quota_limit :: "quotas \<Rightarrow> string \<Rightarrow> int" where
  "quota_limit q0 counter = (let q = quotas_normalized q0 in
     if counter = ''writes'' then q_WriteAttempts q
     else if counter = ''evidence'' then q_EvidenceAttempts q
     else if counter = ''evidence_bytes'' then q_EvidenceBytes q
     else if counter = ''verifier'' then q_VerifierAttempts q
     else q_RecallCalls q)"

definition quota_counters :: "string list" where
  "quota_counters = [''writes'', ''evidence'', ''evidence_bytes'', ''verifier'', ''recall'']"

definition team_usage :: "string \<Rightarrow> string \<Rightarrow> tool_call \<Rightarrow> int" where
  "team_usage team counter c = (if tc_team c = team then tool_usage counter c else 0)"

definition attempted_usage :: "string \<Rightarrow> string \<Rightarrow> tool_call list \<Rightarrow> int" where
  "attempted_usage team counter cs = sum_list (map (team_usage team counter) cs)"

definition accepted_usage :: "string \<Rightarrow> string \<Rightarrow> tool_call list \<Rightarrow> quota_error option list \<Rightarrow> int" where
  "accepted_usage team counter cs es =
     sum_list (map (\<lambda>(c, e). if e = None then team_usage team counter c else 0) (zip cs es))"

lemma tool_usage_nonneg: "0 \<le> tool_usage counter c"
  by (simp add: tool_usage_def positive_or_def Let_def split: prod.splits)

lemma team_usage_nonneg: "0 \<le> team_usage team counter c"
  by (simp add: team_usage_def tool_usage_nonneg)

lemma attempted_usage_nonneg: "0 \<le> attempted_usage team counter cs"
  by (induction cs) (simp_all add: attempted_usage_def team_usage_nonneg)

lemma no_colon_counters:
  "list_all (\<lambda>c. CHR '':'' \<notin> set c) (''requests'' # quota_counters)"
  by (simp add: quota_counters_def)

lemma quotaKey_inject:
  assumes "CHR '':'' \<notin> set c" and "CHR '':'' \<notin> set c'"
  shows "quotaKey t c = quotaKey t' c' \<longleftrightarrow> t = t' \<and> c = c'"
  using split_at_last [OF assms, of t t'] by (auto simp: quotaKey_def)

section \<open>What a call charges\<close>

text \<open>
  A call charges up to \<open>d\<close> units to a counter: it never lowers it, and an accepted call charges all of
  them and leaves the counter within its limit.
\<close>

definition charge :: "int \<Rightarrow> int \<Rightarrow> int \<Rightarrow> int \<Rightarrow> quota_error option \<Rightarrow> bool" where
  "charge d limit before after e \<longleftrightarrow> before \<le> after \<and> after \<le> before + d
     \<and> (e = None \<longrightarrow> after = before + d \<and> (0 < d \<longrightarrow> after \<le> limit))"

lemma charge_none: "charge 0 limit n n e"
  by (simp add: charge_def)

lemma charge_seq:
  assumes "charge d1 limit a b None" and "charge d2 limit b c e" and "0 \<le> d1" and "0 \<le> d2"
  shows "charge (d1 + d2) limit a c e"
  using assms by (auto simp: charge_def)

lemma charge_stop: "charge d1 limit a b (Some e) \<Longrightarrow> 0 \<le> d2 \<Longrightarrow> charge (d1 + d2) limit a b (Some e)"
  by (auto simp: charge_def)

text \<open>What adding \<open>delta\<close> to a counter of a team means for the counter that is looked at.\<close>

definition use :: "bool \<Rightarrow> string \<Rightarrow> string \<Rightarrow> int \<Rightarrow> int" where
  "use same_team counter counter' delta = (if same_team \<and> counter' = counter then delta else 0)"

lemma use_nonneg: "0 \<le> delta \<Longrightarrow> 0 \<le> use b counter counter' delta"
  by (simp add: use_def)

context counter_store
begin

text \<open>The counter \<open>counter\<close> of \<open>team\<close> in a state, its window, and room for \<open>d\<close> more units.\<close>

definition ready :: "quotas \<Rightarrow> time \<Rightarrow> string \<Rightarrow> string \<Rightarrow> int \<Rightarrow> 's \<Rightarrow> bool" where
  "ready q a team counter d s \<longleftrightarrow> inv s \<and> covers a (counter_ttl q) (entry s (quotaKey team counter))
     \<and> counted (entry s (quotaKey team counter)) + d \<le> max_int64"

lemma ready_less: "ready q a team counter d s \<Longrightarrow> d' \<le> d \<Longrightarrow> ready q a team counter d' s"
  by (simp add: ready_def)

definition units :: "string \<Rightarrow> string \<Rightarrow> 's \<Rightarrow> int" where
  "units team counter s = counted (entry s (quotaKey team counter))"

lemma consume_charge:
  assumes all: "\<And>d. 0 < d \<Longrightarrow> allowed d" and ttl: "ttl_ok (counter_ttl q)"
    and colon: "CHR '':'' \<notin> set counter" "CHR '':'' \<notin> set counter'"
    and now: "team' = team \<Longrightarrow> a \<le> now \<and> now < a + counter_ttl q * second" and "0 < delta"
    and d: "d = (if team' = team \<and> counter' = counter then delta else 0)"
    and limit: "team' = team \<and> counter' = counter \<Longrightarrow> limit' = limit"
    and ready: "ready q a team counter (d + rest) s" and "0 \<le> rest"
    and run: "quota_consume (Some op) q now team' counter' label delta limit' s = (e, s')"
  shows "charge d limit (units team counter s) (units team counter s') e \<and> ready q a team counter rest s'"
proof -
  let ?k = "quotaKey team counter" and ?k' = "quotaKey team' counter'" and ?op = "op s now (quotaKey team' counter') delta (counter_ttl q)"
  have inv: "inv s" and cov: "covers a (counter_ttl q) (entry s ?k)" and room: "counted (entry s ?k) + (d + rest) \<le> max_int64"
    using ready by (simp_all add: ready_def)
  consider (idle) "s' = s" "e = Some QuotaForbidden"
    | (called) "s' = snd ?op" "e = (case fst ?op of None \<Rightarrow> Some QuotaUnavailable
        | Some n \<Rightarrow> if limit' < n then Some (QuotaExceeded label limit') else None)"
    using run by (auto simp: quota_consume_def split: if_splits prod.splits option.splits)
  then show ?thesis
  proof cases
    case idle
    then show ?thesis
      using ready assms(6,10) by (auto simp: charge_def ready_def units_def d)
  next
    case called
    show ?thesis
    proof (cases "team' = team \<and> counter' = counter")
      case True
      then have k: "?k' = ?k" and dd: "d = delta" by (simp_all add: d)
      have s': "s' = snd (op s now ?k delta (counter_ttl q))" using called(1) k by simp
      have cap: "counted (entry s ?k) + delta \<le> max_int64" using room assms(10) dd by simp
      note step = step_in_window [OF inv all [OF assms(6)] assms(6) ttl cov _ _ cap, of now, folded s']
      have t: "a \<le> now" "now < a + counter_ttl q * second" using now True by simp_all
      have "charge d limit (units team counter s) (units team counter s') e"
        using step(2-4) [OF t] called(2) limit [OF True] k
        by (auto simp: charge_def units_def dd split: option.splits if_splits)
      moreover have "ready q a team counter rest s'"
        using step(1) [OF t] step(3) [OF t] room inv_kept [OF inv ttl] called(1) by (simp add: ready_def dd)
      ultimately show ?thesis by blast
    next
      case False
      then have "?k \<noteq> ?k'" using quotaKey_inject [OF colon] by metis
      then have "entry s' ?k = entry s ?k" using other_key [OF _ ttl] called(1) by simp
      moreover have "d = 0" using False by (auto simp: d)
      ultimately show ?thesis
        using ready inv_kept [OF inv ttl] called(1) by (simp add: charge_def units_def ready_def)
    qed
  qed
qed

text \<open>The assumptions of the steps: any positive delta is allowed, and calls of the team come in time.\<close>

definition timely :: "quotas \<Rightarrow> time \<Rightarrow> string \<Rightarrow> time \<Rightarrow> string \<Rightarrow> bool" where
  "timely q a team now team' \<longleftrightarrow> (\<forall>d. 0 < d \<longrightarrow> allowed d) \<and> ttl_ok (counter_ttl q)
     \<and> (team' = team \<longrightarrow> a \<le> now \<and> now < a + counter_ttl q * second)"

text \<open>\<open>charged d s s' e\<close>: a step with the error \<open>e\<close> charges \<open>d\<close> and leaves room for the rest.\<close>

definition charged :: "quotas \<Rightarrow> time \<Rightarrow> string \<Rightarrow> string \<Rightarrow> int \<Rightarrow> int \<Rightarrow> 's \<Rightarrow> 's \<Rightarrow> quota_error option \<Rightarrow> bool" where
  "charged q a team counter d rest s s' e \<longleftrightarrow>
     charge d (quota_limit q counter) (units team counter s) (units team counter s') e \<and> ready q a team counter rest s'"

lemma charged_seq:
  assumes "charged q a team counter d1 (d2 + rest) s s1 None" and "charged q a team counter d2 rest s1 s2 e"
    and "0 \<le> d1" and "0 \<le> d2"
  shows "charged q a team counter (d1 + d2) rest s s2 e"
  using assms charge_seq unfolding charged_def by blast

lemma charged_stop:
  assumes "charged q a team counter d1 (d2 + rest) s s1 (Some e)" and "0 \<le> d2"
  shows "charged q a team counter (d1 + d2) rest s s1 (Some e)"
  using assms charge_stop ready_less [of q a team counter "d2 + rest" s1 rest] by (simp add: charged_def)

lemma counter_charged:
  assumes timely: "timely q a team now team'" and counters: "counter \<in> set quota_counters" "counter' \<in> set quota_counters"
    and "0 < delta" and "ready q a team counter (use (team' = team) counter counter' delta + rest) s" and "0 \<le> rest"
    and "quota_consume (Some op) q now team' counter' label delta (quota_limit q counter') s = (e, s')"
  shows "charged q a team counter (use (team' = team) counter counter' delta) rest s s' e"
proof -
  have all: "\<And>d. 0 < d \<Longrightarrow> allowed d" and ttl: "ttl_ok (counter_ttl q)"
    and now: "team' = team \<Longrightarrow> a \<le> now \<and> now < a + counter_ttl q * second"
    using timely by (simp_all add: timely_def)
  have colon: "CHR '':'' \<notin> set counter" "CHR '':'' \<notin> set counter'"
    using counters by (auto simp: quota_counters_def)
  have limit: "team' = team \<and> counter' = counter \<Longrightarrow> quota_limit q counter' = quota_limit q counter" by simp
  show ?thesis
    unfolding charged_def
    by (rule consume_charge [OF all ttl colon now assms(4) use_def [of "team' = team" counter counter' delta] limit
          assms(5,6,7)])
qed

lemma write_charged:
  assumes "timely q a team now team'" and "counter \<in> set quota_counters"
    and "ready q a team counter (use (team' = team) counter ''writes'' 1 + rest) s" and "0 \<le> rest"
    and "ConsumeWrite (Some op) q now team' s = (e, s')"
  shows "charged q a team counter (use (team' = team) counter ''writes'' 1) rest s s' e"
  using assms by (intro counter_charged) (auto simp: ConsumeWrite_def quota_counters_def quota_limit_def)

lemma recall_charged:
  assumes "timely q a team now team'" and "counter \<in> set quota_counters"
    and "ready q a team counter (use (team' = team) counter ''recall'' 1 + rest) s" and "0 \<le> rest"
    and "ConsumeRecall (Some op) q now team' s = (e, s')"
  shows "charged q a team counter (use (team' = team) counter ''recall'' 1) rest s s' e"
  using assms by (intro counter_charged) (auto simp: ConsumeRecall_def quota_counters_def quota_limit_def)

lemma verifier_charged:
  assumes "timely q a team now team'" and "counter \<in> set quota_counters"
    and "ready q a team counter (use (team' = team) counter ''verifier'' (positive_or 1 n) + rest) s" and "0 \<le> rest"
    and "ConsumeVerifier (Some op) q now team' n s = (e, s')"
  shows "charged q a team counter (use (team' = team) counter ''verifier'' (positive_or 1 n)) rest s s' e"
  using assms
  by (intro counter_charged) (auto simp: ConsumeVerifier_def quota_counters_def quota_limit_def positive_or_def)

lemma evidence_charged:
  assumes timely: "timely q a team now team'" and counter: "counter \<in> set quota_counters"
    and ready: "ready q a team counter (use (team' = team) counter ''evidence'' (positive_or 1 n)
      + (use (team' = team) counter ''evidence_bytes'' (max 0 bytes) + rest)) s" and rest: "0 \<le> rest"
    and run: "ConsumeMemoryEvidence (Some op) q now team' n bytes s = (e, s')"
  shows "charged q a team counter (use (team' = team) counter ''evidence'' (positive_or 1 n)
      + use (team' = team) counter ''evidence_bytes'' (max 0 bytes)) rest s s' e"
proof -
  let ?i = "use (team' = team) counter ''evidence'' (positive_or 1 n)"
    and ?b = "use (team' = team) counter ''evidence_bytes'' (max 0 bytes)"
  have nonneg: "0 \<le> ?i" "0 \<le> ?b" by (simp_all add: use_def positive_or_def)
  obtain e1 s1 where first: "quota_consume (Some op) q now team' ''evidence'' ''memory evidence items''
      (positive_or 1 n) (quota_limit q ''evidence'') s = (e1, s1)" by fastforce
  have one: "charged q a team counter ?i (?b + rest) s s1 e1"
    using nonneg rest ready by (intro counter_charged [OF timely counter _ _ _ _ first])
      (auto simp: quota_counters_def positive_or_def)
  show ?thesis
  proof (cases e1)
    case (Some x)
    then have "e = Some x" "s' = s1" using run first by (simp_all add: ConsumeMemoryEvidence_def quota_limit_def Let_def)
    then show ?thesis using charged_stop one nonneg Some by metis
  next
    case None
    have two: "charged q a team counter ?b rest s1 s' e"
    proof (cases "bytes \<le> 0")
      case True
      then have "e = None" "s' = s1" "?b = 0"
        using run first None by (simp_all add: ConsumeMemoryEvidence_def quota_limit_def Let_def use_def)
      then show ?thesis using one by (simp add: charged_def charge_none)
    next
      case False
      then have bytes: "max 0 bytes = bytes" by simp
      have "quota_consume (Some op) q now team' ''evidence_bytes'' ''memory evidence bytes'' bytes
          (quota_limit q ''evidence_bytes'') s1 = (e, s')"
        using run first None False by (simp add: ConsumeMemoryEvidence_def quota_limit_def Let_def)
      moreover have "ready q a team counter (?b + rest) s1" using one by (simp add: charged_def)
      ultimately show ?thesis
        using counter_charged [OF timely counter] rest False unfolding bytes by (simp add: quota_counters_def)
    qed
    show ?thesis using charged_seq one two nonneg None by metis
  qed
qed

text \<open>One call of a tool charges what the tool uses.\<close>

lemma tool_charged:
  assumes timely: "timely q a team (tc_now c) (tc_team c)" and counter: "counter \<in> set quota_counters"
    and ready: "ready q a team counter (team_usage team counter c + rest) s" and rest: "0 \<le> rest"
    and run: "ConsumeTool (Some op) q (tc_now c) (tc_team c) (tc_tool c) (tc_evidence c) s = (e, s')"
  shows "charged q a team counter (team_usage team counter c) rest s s' e"
proof (cases "tc_tool c = ''remember''")
  case True
  obtain n bytes where usage: "RememberEvidenceUsage (tc_evidence c) = (n, bytes)" by fastforce
  let ?w = "use (tc_team c = team) counter ''writes'' 1" and ?v = "use (tc_team c = team) counter ''verifier'' (positive_or 1 n)"
    and ?e = "use (tc_team c = team) counter ''evidence'' (positive_or 1 n) + use (tc_team c = team) counter ''evidence_bytes'' (max 0 bytes)"
  have total: "team_usage team counter c = ?w + (?e + ?v)"
    using True counter usage by (auto simp: team_usage_def tool_usage_def use_def quota_counters_def)
  have nonneg: "0 \<le> ?w" "0 \<le> ?e" "0 \<le> ?v" by (simp_all add: use_def positive_or_def)
  obtain e1 s1 where w: "ConsumeWrite (Some op) q (tc_now c) (tc_team c) s = (e1, s1)" by fastforce
  obtain e2 s2 where m: "ConsumeMemoryEvidence (Some op) q (tc_now c) (tc_team c) n bytes s1 = (e2, s2)" by fastforce
  obtain e3 s3 where v: "ConsumeVerifier (Some op) q (tc_now c) (tc_team c) n s2 = (e3, s3)" by fastforce
  have run': "(e, s') = (if e1 \<noteq> None then (e1, s1) else if e2 \<noteq> None then (e2, s2) else (e3, s3))"
    using run True usage w m v by (auto simp: ConsumeTool_def split: option.splits)
  have one: "charged q a team counter ?w (?e + ?v + rest) s s1 e1"
    using ready nonneg rest by (intro write_charged [OF timely counter _ _ w]) (simp_all add: total algebra_simps)
  then have "ready q a team counter (?e + ?v + rest) s1" by (simp add: charged_def)
  then have two: "charged q a team counter ?e (?v + rest) s1 s2 e2"
    using nonneg rest by (intro evidence_charged [OF timely counter _ _ m]) (simp_all add: algebra_simps)
  then have "ready q a team counter (?v + rest) s2" by (simp add: charged_def)
  then have three: "charged q a team counter ?v rest s2 s3 e3"
    using rest by (intro verifier_charged [OF timely counter _ _ v])
  have "charged q a team counter (?e + ?v) rest s1 s' e" if "e1 = None"
    using that run' two three charged_seq [of q a team counter ?e ?v rest s1 s2 s3 e3] charged_stop [of q a team counter ?e ?v rest s1 s2] nonneg
    by (cases e2) auto
  then show ?thesis
    using one run' charged_seq [of q a team counter ?w "?e + ?v" rest s s1 s' e]
      charged_stop [of q a team counter ?w "?e + ?v" rest s s1] nonneg unfolding total by (cases e1) auto
next
  case False
  consider (recall) "tc_tool c = ''recall_memory''"
    | (change) "tc_tool c = ''correct_relationship'' \<or> tc_tool c = ''retract_evidence''"
    | (free) "tc_tool c \<noteq> ''recall_memory''" "tc_tool c \<noteq> ''correct_relationship''" "tc_tool c \<noteq> ''retract_evidence''"
    by blast
  then show ?thesis
  proof cases
    case recall
    then have u: "team_usage team counter c = use (tc_team c = team) counter ''recall'' 1"
      by (simp add: team_usage_def tool_usage_def use_def)
    have "ConsumeRecall (Some op) q (tc_now c) (tc_team c) s = (e, s')" using run recall by (simp add: ConsumeTool_def)
    then show ?thesis using recall_charged [OF timely counter _ rest] ready unfolding u by blast
  next
    case change
    then have u: "team_usage team counter c = use (tc_team c = team) counter ''writes'' 1"
      by (auto simp: team_usage_def tool_usage_def use_def)
    have "ConsumeWrite (Some op) q (tc_now c) (tc_team c) s = (e, s')" using run change by (auto simp: ConsumeTool_def)
    then show ?thesis using write_charged [OF timely counter _ rest] ready unfolding u by blast
  next
    case free
    then have "team_usage team counter c = 0" "e = None" "s' = s"
      using False run by (simp_all add: team_usage_def tool_usage_def ConsumeTool_def)
    then show ?thesis using ready by (simp add: charged_def charge_none)
  qed
qed

text \<open>
  A run of calls: the units of a counter that accepted calls stand for are in the counter, and the
  last accepted one that used it saw it within the limit.
\<close>

lemma calls_charged:
  assumes "list_all (\<lambda>c. timely q a team (tc_now c) (tc_team c)) cs" and counter: "counter \<in> set quota_counters"
    and "ready q a team counter (attempted_usage team counter cs) s" and "tool_calls (Some op) q cs s = (es, s')"
  shows "units team counter s + accepted_usage team counter cs es \<le> units team counter s'
    \<and> (0 < accepted_usage team counter cs es \<longrightarrow>
        units team counter s + accepted_usage team counter cs es \<le> quota_limit q counter)"
  using assms(1,3,4)
proof (induction cs arbitrary: s es)
  case Nil
  then show ?case by (simp add: accepted_usage_def)
next
  case (Cons c cs)
  let ?u = "team_usage team counter c" and ?U = "units team counter"
  obtain e s1 es1 where one: "ConsumeTool (Some op) q (tc_now c) (tc_team c) (tc_tool c) (tc_evidence c) s = (e, s1)"
    and rest: "tool_calls (Some op) q cs s1 = (es1, s')" and es: "es = e # es1"
    using Cons.prems(3) by (auto split: prod.splits)
  have acc: "accepted_usage team counter (c # cs) es = (if e = None then ?u else 0) + accepted_usage team counter cs es1"
    by (simp add: es accepted_usage_def)
  have nonneg: "0 \<le> ?u" by (rule team_usage_nonneg)
  have "charged q a team counter ?u (attempted_usage team counter cs) s s1 e"
    using Cons.prems attempted_usage_nonneg by (intro tool_charged [OF _ counter _ _ one]) (simp_all add: attempted_usage_def)
  then have ch: "charge ?u (quota_limit q counter) (?U s) (?U s1) e"
    and rdy: "ready q a team counter (attempted_usage team counter cs) s1"
    by (simp_all add: charged_def)
  have tail: "list_all (\<lambda>c. timely q a team (tc_now c) (tc_team c)) cs" using Cons.prems(1) by simp
  note IH = Cons.IH [OF tail rdy rest]
  show ?case
    using IH ch nonneg unfolding acc by (auto simp: charge_def split: if_splits)
qed

end

section \<open>Properties\<close>


definition sample_quotas :: quotas where
  "sample_quotas = DefaultQuotas\<lparr>q_RecallCalls := 1, q_SessionTTL := 0\<rparr>"

definition sample_calls :: "tool_call list" where
  "sample_calls = map (\<lambda>t. \<lparr>tc_now = t, tc_team = ''t1'', tc_tool = ''recall_memory'', tc_evidence = None\<rparr>) [0, 1, 2]"


end
