(* ===== verification/Classification_Lattice.thy ===== *)
theory Classification_Lattice
  imports Go_Strings
begin

text \<open>
  The classification lattice, internal/service/classification/lattice.go: label maps are combined
  dimension by dimension. A label map is a partial map from dimensions to values.
\<close>

type_synonym labels = "string \<rightharpoonup> string"

definition LatticeVersion :: string where "LatticeVersion = ''v1''"

definition dimensionOrder :: "(string \<times> string list) list" where
  "dimensionOrder =
     [(''confidentiality'', [''public'', ''internal'', ''confidential'', ''restricted'']),
      (''retention'', [''ephemeral'', ''short_term'', ''long_term'', ''permanent'']),
      (''pii'', [''none'', ''non_sensitive'', ''sensitive''])]"

text \<open>\<open>DefaultLattice\<close>: the levels of the known dimensions.\<close>

definition DefaultLattice :: "string \<rightharpoonup> string list" where
  "DefaultLattice = map_of dimensionOrder"

text \<open>The index of a value, or -1.\<close>

fun rankFrom :: "int \<Rightarrow> string list \<Rightarrow> string \<Rightarrow> int" where
  "rankFrom i [] v = - 1"
| "rankFrom i (l # ls) v = (if l = v then i else rankFrom (i + 1) ls v)"

definition rankIn :: "string list \<Rightarrow> string \<Rightarrow> int" where
  "rankIn levels v = rankFrom 0 levels v"

text \<open>Rank and value of one side of a known dimension; a missing or unknown value is the minimum.\<close>

definition known_side :: "string list \<Rightarrow> string option \<Rightarrow> int \<times> string" where
  "known_side levels v = (case v of
       None \<Rightarrow> (0, levels ! 0)
     | Some x \<Rightarrow> if 0 \<le> rankIn levels x then (rankIn levels x, x) else (0, levels ! 0))"

definition Lattice_Max :: "(string \<rightharpoonup> string list) \<Rightarrow> labels \<Rightarrow> labels \<Rightarrow> labels" where
  "Lattice_Max orders a b = (\<lambda>k. case orders k of
       None \<Rightarrow> (case b k of Some v \<Rightarrow> Some v | None \<Rightarrow> a k)
     | Some levels \<Rightarrow>
         if a k = None \<and> b k = None then Some (levels ! 0)
         else let (rankA, valA) = known_side levels (a k);
                  (rankB, valB) = known_side levels (b k)
              in Some (if rankA \<le> rankB then valB else valA))"

section \<open>Ranks\<close>

definition level_of :: "string list \<Rightarrow> string option \<Rightarrow> nat" where
  "level_of levels v = nat (fst (known_side levels v))"

lemma rankFrom_range: "rankFrom i ls v = - 1 \<or> (i \<le> rankFrom i ls v \<and> rankFrom i ls v < i + int (length ls)
    \<and> ls ! nat (rankFrom i ls v - i) = v)" if "0 \<le> i"
  using that
proof (induction ls arbitrary: i)
  case Nil
  then show ?case by simp
next
  case (Cons l ls)
  show ?case
  proof (cases "l = v")
    case False
    have "nat (rankFrom (i + 1) ls v - i) = Suc (nat (rankFrom (i + 1) ls v - (i + 1)))" if "i + 1 \<le> rankFrom (i + 1) ls v"
      using that by simp
    with Cons.IH [of "i + 1"] Cons.prems False show ?thesis by auto
  qed simp
qed

lemma rankFrom_nth:
  "distinct ls \<Longrightarrow> n < length ls \<Longrightarrow> rankFrom i ls (ls ! n) = i + int n"
proof (induction ls arbitrary: i n)
  case (Cons l ls)
  show ?case
  proof (cases n)
    case (Suc m)
    with Cons.prems have "l \<noteq> ls ! m" by auto
    with Cons Suc show ?thesis by auto
  qed simp
qed simp

lemma known_side_value:
  assumes "levels \<noteq> []"
  shows "known_side levels v = (int (level_of levels v), levels ! level_of levels v) \<and> level_of levels v < length levels"
proof (cases v)
  case None
  with assms show ?thesis by (simp add: known_side_def level_of_def)
next
  case (Some x)
  have "rankFrom 0 levels x = - 1 \<or> (0 \<le> rankFrom 0 levels x \<and> rankFrom 0 levels x < 0 + int (length levels)
      \<and> levels ! nat (rankFrom 0 levels x - 0) = x)"
    by (rule rankFrom_range) simp
  then show ?thesis
  proof
    assume "rankFrom 0 levels x = - 1"
    with Some assms show ?thesis by (simp add: known_side_def level_of_def rankIn_def)
  next
    assume "0 \<le> rankFrom 0 levels x \<and> rankFrom 0 levels x < 0 + int (length levels) \<and> levels ! nat (rankFrom 0 levels x - 0) = x"
    with Some show ?thesis by (simp add: known_side_def level_of_def rankIn_def nat_less_iff)
  qed
qed

lemma level_of_nth: "distinct levels \<Longrightarrow> n < length levels \<Longrightarrow> level_of levels (Some (levels ! n)) = n"
  by (simp add: level_of_def known_side_def rankIn_def rankFrom_nth)

text \<open>On a known dimension the result is the level of the higher rank.\<close>

lemma level_of_None [simp]: "level_of levels None = 0"
  by (simp add: level_of_def known_side_def)

lemma Max_known:
  assumes "orders k = Some levels" and "levels \<noteq> []"
  shows "Lattice_Max orders a b k = Some (levels ! max (level_of levels (a k)) (level_of levels (b k)))"
proof (cases "a k = None \<and> b k = None")
  case True
  with assms show ?thesis by (simp add: Lattice_Max_def)
next
  case False
  have sides: "known_side levels v = (int (level_of levels v), levels ! level_of levels v)" for v
    using known_side_value [OF assms(2)] by blast
  show ?thesis
    using False assms(1) by (simp add: Lattice_Max_def sides max_def)
qed

text \<open>\<open>merge\<close> combines a list of label maps from left to right.\<close>

definition merge_labels :: "(string \<rightharpoonup> string list) \<Rightarrow> labels \<Rightarrow> labels list \<Rightarrow> labels" where
  "merge_labels orders a bs = foldl (Lattice_Max orders) a bs"

definition top_level :: "string list \<Rightarrow> string \<Rightarrow> labels list \<Rightarrow> nat" where
  "top_level levels k ms = Max (insert 0 ((\<lambda>m. level_of levels (m k)) ` set ms))"

section \<open>Properties\<close>

text \<open>
  (classification_merge_known): on a known dimension, merging two or more label maps yields the level
  of the highest rank among them, where a missing or unrecognised value counts as the lowest level.
\<close>

theorem classification_merge_known:
  assumes known: "orders k = Some levels" "levels \<noteq> []" and "distinct levels" and "bs \<noteq> []"
  shows "merge_labels orders a bs k = Some (levels ! top_level levels k (a # bs))"
  using assms(4)
proof (induction bs rule: rev_nonempty_induct)
  case (single b)
  show ?case
    using Max_known [where orders = orders and k = k, OF known] by (simp add: merge_labels_def top_level_def max.commute)
next
  case (snoc b bs)
  have below: "top_level levels k (a # bs) < length levels"
    using known_side_value [OF known(2)] known(2) by (simp add: top_level_def)
  have app: "top_level levels k (a # bs @ [b]) = max (top_level levels k (a # bs)) (level_of levels (b k))"
  proof -
    let ?f = "\<lambda>m. level_of levels (m k)"
    have "insert 0 (?f ` set (a # bs @ [b])) = insert (?f b) (insert 0 (?f ` set (a # bs)))" by auto
    then show ?thesis by (simp only: top_level_def) (simp add: max.commute)
  qed
  have "merge_labels orders a (bs @ [b]) k
      = Some (levels ! max (level_of levels (merge_labels orders a bs k)) (level_of levels (b k)))"
    using Max_known [where orders = orders and k = k, OF known] by (simp add: merge_labels_def)
  also have "level_of levels (merge_labels orders a bs k) = top_level levels k (a # bs)"
    using snoc.IH below level_of_nth [OF assms(3)] by simp
  finally show ?case using app by simp
qed

theorem classification_merge_known_witness:
  "merge_labels DefaultLattice Map.empty [[''pii'' \<mapsto> ''sensitive''], [''pii'' \<mapsto> ''unheard'']] ''pii'' = Some ''sensitive''"
proof -
  let ?levels = "[''none'', ''non_sensitive'', ''sensitive'']" and ?a = "[''pii'' \<mapsto> ''sensitive'']" and ?b = "[''pii'' \<mapsto> ''unheard'']"
  have "merge_labels DefaultLattice Map.empty [?a, ?b] ''pii'' = Some (?levels ! top_level ?levels ''pii'' [Map.empty, ?a, ?b])"
    by (rule classification_merge_known) (simp_all add: DefaultLattice_def dimensionOrder_def)
  also have "top_level ?levels ''pii'' [Map.empty, ?a, ?b] = 2"
    by (simp add: top_level_def level_of_def known_side_def rankIn_def)
  also have "?levels ! 2 = ''sensitive''" by simp
  finally show ?thesis .
qed

text \<open>
  (classification_merge_order): the order of the merge matters on a dimension that is not known:
  the later map wins.
\<close>

theorem classification_merge_order:
  "Lattice_Max DefaultLattice [''region'' \<mapsto> ''eu''] [''region'' \<mapsto> ''us''] ''region''
    \<noteq> Lattice_Max DefaultLattice [''region'' \<mapsto> ''us''] [''region'' \<mapsto> ''eu''] ''region''"
  by (simp add: Lattice_Max_def DefaultLattice_def dimensionOrder_def)

end
