(* ===== verification/Access_Policy.thy ===== *)
theory Access_Policy
  imports Domain_Memory
begin

text \<open>
  The scope, role and name policy of credentials (internal/service/access/credential_service.go), how the
  group mappings of a single-sign-on identity are merged (sso_helpers.go, sso_entitlement.go), and the
  policy of directory connectors (directory_identity_policy.go).
\<close>

section \<open>Scopes, roles and names\<close>

definition scope_read :: string where "scope_read = ''read''"
definition scope_write :: string where "scope_write = ''write''"
definition scope_feedback :: string where "scope_feedback = ''feedback:read''"
definition role_manager :: string where "role_manager = ''manager''"
definition role_member :: string where "role_member = ''member''"

lemma scopes_distinct [simp]:
  "scope_read \<noteq> scope_write" "scope_write \<noteq> scope_read" "scope_read \<noteq> scope_feedback" "scope_feedback \<noteq> scope_read"
  "scope_write \<noteq> scope_feedback" "scope_feedback \<noteq> scope_write" "role_manager \<noteq> role_member" "role_member \<noteq> role_manager"
  "role_manager \<noteq> []" "[] \<noteq> role_manager" "role_member \<noteq> []" "[] \<noteq> role_member"
  by (simp_all add: scope_read_def scope_write_def scope_feedback_def role_manager_def role_member_def)

datatype access_error = ScopesInvalid | RoleInvalid | NameRequired | NameTooLong

definition StandardCredentialScopes :: "string list" where
  "StandardCredentialScopes = [scope_read, scope_write]"

text \<open>The flags of the loop: read, write, feedback.\<close>

fun scope_flags :: "bool \<times> bool \<times> bool \<Rightarrow> string list \<Rightarrow> (bool \<times> bool \<times> bool) option" where
  "scope_flags fl [] = Some fl"
| "scope_flags (r, w, f) (raw # raws) =
     (let s = lower_trim raw in
      if s = scope_read then scope_flags (True, w, f) raws
      else if s = scope_write then scope_flags (r, True, f) raws
      else if s = scope_feedback then scope_flags (r, w, True) raws
      else None)"

definition NormalizeCredentialScopes :: "string list \<Rightarrow> access_error + string list" where
  "NormalizeCredentialScopes scopes =
     (if scopes = [] then Inr StandardCredentialScopes
      else case scope_flags (False, False, False) scopes of
             None \<Rightarrow> Inl ScopesInvalid
           | Some (r, w, f) \<Rightarrow>
               if \<not> r then Inl ScopesInvalid
               else Inr ([scope_read] @ (if w then [scope_write] else []) @ (if f then [scope_feedback] else [])))"

definition hasCredentialScope :: "string list \<Rightarrow> string \<Rightarrow> bool" where
  "hasCredentialScope scopes target = list_ex (\<lambda>s. s = target) scopes"

definition managerCredentialScopes :: "string list \<Rightarrow> string list" where
  "managerCredentialScopes scopes =
     StandardCredentialScopes @ (if hasCredentialScope scopes scope_feedback then [scope_feedback] else [])"

definition NormalizeCredentialRole :: "string \<Rightarrow> access_error + string" where
  "NormalizeCredentialRole role =
     (let r = lower_trim role in
      if r = [] then Inr []
      else if r = role_manager then Inr role_manager
      else if r = role_member then Inr role_member
      else Inl RoleInvalid)"

definition normalizeCredentialName :: "string \<Rightarrow> access_error + string" where
  "normalizeCredentialName name =
     (let trimmed = trim_space name in
      if trimmed = [] then Inl NameRequired
      else if 100 < rune_count trimmed then Inl NameTooLong
      else Inr trimmed)"

section \<open>Merging the mappings of an identity\<close>

record sso_mapping =
  sm_ProviderID :: uuid
  sm_TeamID :: uuid
  sm_GroupID :: string
  sm_GroupName :: string
  sm_Scopes :: "string list"
  sm_Role :: string
  sm_Enabled :: bool

record team_entitlement =
  te_Scopes :: "string list"
  te_Role :: string
  te_GroupID :: string

definition normalizeSSOScopes :: "string list \<Rightarrow> string list" where
  "normalizeSSOScopes scopes =
     (if scopes = [] then [scope_read]
      else case NormalizeCredentialScopes scopes of Inl e \<Rightarrow> [scope_read] | Inr s \<Rightarrow> s)"

definition normalizeSSORole :: "string \<Rightarrow> string" where
  "normalizeSSORole role = (case NormalizeCredentialRole role of
       Inl e \<Rightarrow> role_member
     | Inr r \<Rightarrow> if r = [] then role_member else r)"

definition mergeScopes :: "string list \<Rightarrow> string list \<Rightarrow> string list" where
  "mergeScopes left right =
     (let s = set (normalizeSSOScopes left) \<union> set (normalizeSSOScopes right)
      in (if scope_read \<in> s then [scope_read] else []) @ (if scope_write \<in> s then [scope_write] else [])
         @ (if scope_feedback \<in> s then [scope_feedback] else []))"

definition contains_string :: "string \<Rightarrow> string \<Rightarrow> bool" where
  "contains_string s sub = sublist sub s"

definition merge_mapping :: "team_entitlement \<Rightarrow> sso_mapping \<Rightarrow> team_entitlement" where
  "merge_mapping e m =
     \<lparr>te_Scopes = mergeScopes (te_Scopes e) (sm_Scopes m),
      te_Role = (if normalizeSSORole (sm_Role m) = role_manager then role_manager else te_Role e),
      te_GroupID =
        (if te_GroupID e = [] then sm_GroupID m
         else if \<not> contains_string ('','' @ te_GroupID e @ '','') ('','' @ sm_GroupID m @ '','')
              then te_GroupID e @ '','' @ sm_GroupID m
              else te_GroupID e)\<rparr>"

text \<open>The mappings of the list may be nil pointers.\<close>

definition team_mappings :: "sso_mapping option list \<Rightarrow> uuid \<Rightarrow> sso_mapping list" where
  "team_mappings mappings teamID =
     filter (\<lambda>m. sm_Enabled m \<and> sm_TeamID m = teamID) (map the (filter (\<lambda>m. m \<noteq> None) mappings))"

definition hasMappingForTeam :: "sso_mapping option list \<Rightarrow> uuid \<Rightarrow> bool" where
  "hasMappingForTeam mappings teamID =
     list_ex (\<lambda>m. case m of None \<Rightarrow> False | Some m \<Rightarrow> sm_Enabled m \<and> sm_TeamID m = teamID) mappings"

definition mergedEntitlementForTeam :: "sso_mapping option list \<Rightarrow> uuid \<Rightarrow> team_entitlement option" where
  "mergedEntitlementForTeam mappings teamID =
     (let ms = team_mappings mappings teamID;
          e = foldl merge_mapping \<lparr>te_Scopes = [], te_Role = role_member, te_GroupID = []\<rparr> ms
      in if ms = [] then None
         else let scopes = (if te_Scopes e = [] then [scope_read] else te_Scopes e)
              in Some (e\<lparr>te_Scopes := (if te_Role e = role_manager then managerCredentialScopes scopes else scopes)\<rparr>))"

definition intersectSSOGrants :: "string list \<Rightarrow> string list \<Rightarrow> string list" where
  "intersectSSOGrants maximum entitled = filter (\<lambda>g. g \<in> set entitled) maximum"

definition restrictedSSORole :: "string \<Rightarrow> string \<Rightarrow> string" where
  "restrictedSSORole maximum entitled =
     (if maximum = role_manager \<and> entitled = role_manager then role_manager else role_member)"

section \<open>Canonical scope sets\<close>

definition canonical_scopes :: "string list \<Rightarrow> bool" where
  "canonical_scopes s \<longleftrightarrow> s \<in> set [[scope_read], [scope_read, scope_write], [scope_read, scope_feedback],
     [scope_read, scope_write, scope_feedback]]"

definition scope_of :: "string list \<Rightarrow> string list \<Rightarrow> string list" where
  "scope_of raws = filter (\<lambda>s. s \<in> lower_trim ` set raws)"

lemma scope_flags_Some:
  "scope_flags (r, w, f) raws = Some (r', w', f') \<longleftrightarrow>
     lower_trim ` set raws \<subseteq> {scope_read, scope_write, scope_feedback}
     \<and> r' = (r \<or> scope_read \<in> lower_trim ` set raws) \<and> w' = (w \<or> scope_write \<in> lower_trim ` set raws)
     \<and> f' = (f \<or> scope_feedback \<in> lower_trim ` set raws)"
proof (induction raws arbitrary: r w f)
  case (Cons a raws)
  show ?case
    by (cases "lower_trim a = scope_read"; cases "lower_trim a = scope_write"; cases "lower_trim a = scope_feedback")
      (auto simp: Cons.IH Let_def)
qed auto

text \<open>
  Scopes are accepted exactly when they are known and include read; the result lists the scopes that
  were given in the canonical order.
\<close>

lemma NormalizeCredentialScopes_Inr:
  "NormalizeCredentialScopes scopes = Inr s \<longleftrightarrow>
     (scopes = [] \<and> s = StandardCredentialScopes)
     \<or> (scopes \<noteq> [] \<and> lower_trim ` set scopes \<subseteq> {scope_read, scope_write, scope_feedback}
        \<and> scope_read \<in> lower_trim ` set scopes
        \<and> s = scope_of scopes [scope_read, scope_write, scope_feedback])"
proof (cases "scope_flags (False, False, False) scopes")
  case None
  have "\<not> lower_trim ` set scopes \<subseteq> {scope_read, scope_write, scope_feedback}"
  proof
    assume "lower_trim ` set scopes \<subseteq> {scope_read, scope_write, scope_feedback}"
    then have "scope_flags (False, False, False) scopes =
        Some (scope_read \<in> lower_trim ` set scopes, scope_write \<in> lower_trim ` set scopes, scope_feedback \<in> lower_trim ` set scopes)"
      by (subst scope_flags_Some) simp
    with None show False by simp
  qed
  with None show ?thesis by (auto simp: NormalizeCredentialScopes_def)
next
  case (Some fl)
  obtain r w f where fl: "fl = (r, w, f)" by (cases fl) auto
  have "lower_trim ` set scopes \<subseteq> {scope_read, scope_write, scope_feedback}"
    and flags: "r = (scope_read \<in> lower_trim ` set scopes)" "w = (scope_write \<in> lower_trim ` set scopes)"
      "f = (scope_feedback \<in> lower_trim ` set scopes)"
    using Some unfolding fl scope_flags_Some by simp_all
  then show ?thesis
    using Some unfolding fl by (auto simp: NormalizeCredentialScopes_def scope_of_def)
qed

lemma canonical_scope_of: "scope_read \<in> lower_trim ` set scopes
    \<Longrightarrow> canonical_scopes (scope_of scopes [scope_read, scope_write, scope_feedback])"
  by (auto simp: scope_of_def canonical_scopes_def)

lemma NormalizeCredentialScopes_canonical:
  "NormalizeCredentialScopes scopes = Inr s \<Longrightarrow> canonical_scopes s"
  unfolding NormalizeCredentialScopes_Inr
  using canonical_scope_of [of scopes]
  by (elim disjE conjE) (simp_all add: canonical_scopes_def StandardCredentialScopes_def)

lemma lower_trim_scope [simp]:
  "lower_trim scope_read = scope_read" "lower_trim scope_write = scope_write" "lower_trim scope_feedback = scope_feedback"
  by (simp_all add: scope_read_def scope_write_def scope_feedback_def go_string_eval)

lemma canonical_scopes_cases:
  assumes "canonical_scopes s"
  obtains "s = [scope_read]" | "s = [scope_read, scope_write]" | "s = [scope_read, scope_feedback]"
    | "s = [scope_read, scope_write, scope_feedback]"
  using assms by (auto simp: canonical_scopes_def)

lemma NormalizeCredentialScopes_id: "canonical_scopes s \<Longrightarrow> NormalizeCredentialScopes s = Inr s"
  by (erule canonical_scopes_cases) (simp_all add: NormalizeCredentialScopes_def)

lemma canonical_normalizeSSOScopes: "canonical_scopes (normalizeSSOScopes s)"
  using NormalizeCredentialScopes_canonical [of s]
  by (auto simp: normalizeSSOScopes_def canonical_scopes_def split: sum.splits)

lemma normalizeSSOScopes_id: "canonical_scopes s \<Longrightarrow> normalizeSSOScopes s = s"
  by (erule canonical_scopes_cases) (simp_all add: normalizeSSOScopes_def NormalizeCredentialScopes_def)

lemma set_canonical:
  "canonical_scopes s \<Longrightarrow> scope_read \<in> set s \<and> set s \<subseteq> {scope_read, scope_write, scope_feedback}"
  by (erule canonical_scopes_cases) auto

lemma set_mergeScopes: "set (mergeScopes l r) = set (normalizeSSOScopes l) \<union> set (normalizeSSOScopes r)"
  using set_canonical [OF canonical_normalizeSSOScopes, of l] set_canonical [OF canonical_normalizeSSOScopes, of r]
  by (auto simp: mergeScopes_def Let_def)

lemma canonical_mergeScopes: "canonical_scopes (mergeScopes l r)"
  using set_canonical [OF canonical_normalizeSSOScopes, of l]
  by (simp add: mergeScopes_def Let_def canonical_scopes_def)

lemma canonical_managerScopes: "canonical_scopes (managerCredentialScopes s)"
  by (simp add: managerCredentialScopes_def StandardCredentialScopes_def canonical_scopes_def)

lemma set_managerScopes: "canonical_scopes s \<Longrightarrow> set (managerCredentialScopes s) = insert scope_write (set s)"
  by (erule canonical_scopes_cases)
    (auto simp: managerCredentialScopes_def StandardCredentialScopes_def hasCredentialScope_def)

lemma merged_fold:
  assumes "ms \<noteq> []"
  shows "canonical_scopes (te_Scopes (foldl merge_mapping e ms))
    \<and> set (te_Scopes (foldl merge_mapping e ms))
        = set (normalizeSSOScopes (te_Scopes e)) \<union> (\<Union>m\<in>set ms. set (normalizeSSOScopes (sm_Scopes m)))
    \<and> te_Role (foldl merge_mapping e ms)
        = (if \<exists>m\<in>set ms. normalizeSSORole (sm_Role m) = role_manager then role_manager else te_Role e)"
  using assms
proof (induction ms arbitrary: e)
  case (Cons m ms)
  show ?case
  proof (cases ms)
    case Nil
    then show ?thesis by (auto simp: merge_mapping_def canonical_mergeScopes set_mergeScopes)
  next
    case (Cons a list)
    then have "ms \<noteq> []" by simp
    note IH = Cons.IH [OF this, of "merge_mapping e m"]
    show ?thesis
      using IH by (auto simp: merge_mapping_def set_mergeScopes normalizeSSOScopes_id [OF canonical_mergeScopes])
  qed
qed simp

lemma team_mappings_set:
  "m \<in> set (team_mappings mappings teamID) \<longleftrightarrow> Some m \<in> set mappings \<and> sm_Enabled m \<and> sm_TeamID m = teamID"
  by (force simp: team_mappings_def)

lemma hasMappingForTeam_iff: "hasMappingForTeam mappings teamID \<longleftrightarrow> team_mappings mappings teamID \<noteq> []"
proof
  assume "hasMappingForTeam mappings teamID"
  then obtain m where "Some m \<in> set mappings" "sm_Enabled m" "sm_TeamID m = teamID"
    by (auto simp: hasMappingForTeam_def list_ex_iff split: option.splits)
  then have "m \<in> set (team_mappings mappings teamID)" by (simp add: team_mappings_set)
  then show "team_mappings mappings teamID \<noteq> []" by auto
next
  assume "team_mappings mappings teamID \<noteq> []"
  then obtain m where "m \<in> set (team_mappings mappings teamID)" by (meson list.set_sel(1))
  then show "hasMappingForTeam mappings teamID"
    by (force simp: team_mappings_set hasMappingForTeam_def list_ex_iff)
qed

section \<open>Properties\<close>

text \<open>
  (merged_entitlement_exact): an identity is entitled to a team exactly when an enabled mapping of its
  groups names the team; it is a manager exactly when one of these mappings makes it one; and it holds
  read, what a mapping grants after normalization, write when it is a manager, and nothing else.
\<close>

theorem merged_entitlement_exact:
  "(mergedEntitlementForTeam mappings teamID = None \<longleftrightarrow> \<not> hasMappingForTeam mappings teamID)
   \<and> (case mergedEntitlementForTeam mappings teamID of
        None \<Rightarrow> True
      | Some e \<Rightarrow> canonical_scopes (te_Scopes e)
          \<and> te_Role e = (if \<exists>m\<in>set (team_mappings mappings teamID). normalizeSSORole (sm_Role m) = role_manager
                         then role_manager else role_member)
          \<and> set (te_Scopes e) = {scope_read} \<union> (if te_Role e = role_manager then {scope_write} else {})
              \<union> (\<Union>m\<in>set (team_mappings mappings teamID). set (normalizeSSOScopes (sm_Scopes m))))"
proof (cases "team_mappings mappings teamID = []")
  case True
  then show ?thesis by (simp add: mergedEntitlementForTeam_def hasMappingForTeam_iff)
next
  case False
  let ?start = "\<lparr>te_Scopes = [], te_Role = role_member, te_GroupID = []\<rparr>"
  let ?e = "foldl merge_mapping ?start (team_mappings mappings teamID)"
  have fold: "canonical_scopes (te_Scopes ?e)"
    "set (te_Scopes ?e) = {scope_read} \<union> (\<Union>m\<in>set (team_mappings mappings teamID). set (normalizeSSOScopes (sm_Scopes m)))"
    "te_Role ?e = (if \<exists>m\<in>set (team_mappings mappings teamID). normalizeSSORole (sm_Role m) = role_manager
        then role_manager else role_member)"
    using merged_fold [OF False, of ?start] by (simp_all add: normalizeSSOScopes_def [of "[]"])
  have nonempty: "te_Scopes ?e \<noteq> []" using set_canonical [OF fold(1)] by auto
  have merged: "mergedEntitlementForTeam mappings teamID = Some (?e\<lparr>te_Scopes :=
      (if te_Role ?e = role_manager then managerCredentialScopes (te_Scopes ?e) else te_Scopes ?e)\<rparr>)"
    using False nonempty by (simp add: mergedEntitlementForTeam_def Let_def)
  have scopes: "canonical_scopes (if te_Role ?e = role_manager then managerCredentialScopes (te_Scopes ?e) else te_Scopes ?e)"
    "set (if te_Role ?e = role_manager then managerCredentialScopes (te_Scopes ?e) else te_Scopes ?e)
      = (if te_Role ?e = role_manager then insert scope_write (set (te_Scopes ?e)) else set (te_Scopes ?e))"
    using fold(1) canonical_managerScopes set_managerScopes by simp_all
  show ?thesis
    unfolding merged using False scopes fold(2,3) by (auto simp: hasMappingForTeam_iff)
qed

end
