(* ===== verification/Sso_Entitlement.thy ===== *)
theory Sso_Entitlement
  imports Access_Policy
begin

text \<open>
  The entitlement check of single-sign-on identities, internal/service/access/sso_entitlement.go: what a
  credential or a membership may do now, from the provider, the directory, the groups of the identity
  and the mappings of these groups, with a cache of the groups per provider and subject.

  The repository reads and the identity provider are parameters (\<open>sso_env\<close>): each returns a value or
  an error. The cache is the state; \<open>SetEntitlementCache\<close> replaces the entry of a provider and subject.
\<close>

section \<open>State and environment\<close>

datatype sso_error = SSOAccessDenied | SSOProviderDisabled | SSOEntitlementRefreshStale | SSOOther string

record sso_provider =
  sp_ID :: uuid
  sp_Enabled :: bool
  sp_RetiredAt :: "time option"

record sso_cache =
  sk_ProviderID :: uuid
  sk_Subject :: string
  sk_Groups :: "string list"
  sk_Status :: string
  sk_CheckedAt :: time
  sk_ExpiresAt :: time
  sk_Error :: string

type_synonym sso_caches = "uuid \<times> string \<rightharpoonup> sso_cache"

record sso_env =
  env_provider :: "uuid \<Rightarrow> sso_error + sso_provider option"
  env_authority :: "uuid \<Rightarrow> sso_error + bool"
  env_entitled :: "uuid \<Rightarrow> uuid \<Rightarrow> uuid \<Rightarrow> string \<Rightarrow> sso_error + bool"
  env_cache_ttl :: "sso_error + int"
  env_groups :: "uuid \<Rightarrow> string \<Rightarrow> string + string list"
  env_mappings :: "uuid \<Rightarrow> string list \<Rightarrow> sso_error + sso_mapping option list"
  env_read_error :: "uuid \<Rightarrow> string \<Rightarrow> sso_error option"
  env_write_error :: "sso_cache \<Rightarrow> sso_error option"
  env_owned_grants :: "uuid \<Rightarrow> uuid \<Rightarrow> uuid \<Rightarrow> sso_error + string list option"

record sso_subject =
  ss_ProviderID :: uuid
  ss_IdentityID :: uuid
  ss_TeamID :: uuid
  ss_Subject :: string
  ss_GroupID :: string

definition status_active :: string where "status_active = ''active''"
definition status_denied :: string where "status_denied = ''denied''"
definition status_error :: string where "status_error = ''error''"

lemma statuses_distinct [simp]:
  "status_active \<noteq> status_denied" "status_denied \<noteq> status_active" "status_active \<noteq> status_error" "status_error \<noteq> status_active"
  by (simp_all add: status_active_def status_denied_def status_error_def)

section \<open>The check\<close>

definition SetEntitlementCache :: "sso_env \<Rightarrow> sso_caches \<Rightarrow> sso_cache \<Rightarrow> sso_error option \<times> sso_caches" where
  "SetEntitlementCache E caches c = (case env_write_error E c of
       Some e \<Rightarrow> (Some e, caches)
     | None \<Rightarrow> (None, caches((sk_ProviderID c, sk_Subject c) \<mapsto> c)))"

definition trimmed_sorted :: "string list \<Rightarrow> string list" where
  "trimmed_sorted values = sorted_keys (filter (\<lambda>v. v \<noteq> []) (map trim_space values))"

definition storeEntitlementCacheWithTTL :: "sso_env \<Rightarrow> time \<Rightarrow> sso_caches \<Rightarrow> int \<Rightarrow> uuid \<Rightarrow> string \<Rightarrow> string list
    \<Rightarrow> string \<Rightarrow> string \<Rightarrow> sso_error option \<times> sso_caches" where
  "storeEntitlementCacheWithTTL E now caches ttl providerID subject groups status message =
     SetEntitlementCache E caches \<lparr>sk_ProviderID = providerID, sk_Subject = subject, sk_Groups = trimmed_sorted groups,
       sk_Status = status, sk_CheckedAt = now, sk_ExpiresAt = now + ttl, sk_Error = message\<rparr>"

text \<open>
  The refresh: the cache entry to go on with, or the error to return. A failed refresh stores an error
  entry; when that fails too, the failure is only logged.
\<close>

definition refresh_entitlement :: "sso_env \<Rightarrow> time \<Rightarrow> sso_caches \<Rightarrow> sso_subject \<Rightarrow> uuid
    \<Rightarrow> (sso_error + sso_cache) \<times> sso_caches" where
  "refresh_entitlement E now caches subject providerID =
     (case env_cache_ttl E of
        Inl e \<Rightarrow> (Inl e, caches)
      | Inr ttl \<Rightarrow>
          (case env_groups E providerID (ss_Subject subject) of
             Inl message \<Rightarrow>
               (Inl SSOEntitlementRefreshStale,
                snd (storeEntitlementCacheWithTTL E now caches ttl providerID (ss_Subject subject) [] status_error message))
           | Inr groups \<Rightarrow>
               (case env_mappings E providerID groups of
                  Inl e \<Rightarrow> (Inl e, caches)
                | Inr mappings \<Rightarrow>
                    let c = \<lparr>sk_ProviderID = providerID, sk_Subject = ss_Subject subject, sk_Groups = groups,
                             sk_Status = (if hasMappingForTeam mappings (ss_TeamID subject) then status_active else status_denied),
                             sk_CheckedAt = now, sk_ExpiresAt = now + ttl, sk_Error = []\<rparr>
                    in case SetEntitlementCache E caches c of
                         (Some e, caches') \<Rightarrow> (Inl e, caches')
                       | (None, caches') \<Rightarrow> (Inr c, caches'))))"

text \<open>What the cache entry entitles to.\<close>

definition cached_entitlement :: "sso_env \<Rightarrow> sso_subject \<Rightarrow> uuid \<Rightarrow> sso_cache \<Rightarrow> sso_error + team_entitlement" where
  "cached_entitlement E subject providerID c =
     (if sk_Status c \<noteq> status_active then Inl SSOAccessDenied
      else case env_mappings E providerID (sk_Groups c) of
             Inl e \<Rightarrow> Inl e
           | Inr mappings \<Rightarrow>
               (case mergedEntitlementForTeam mappings (ss_TeamID subject) of
                  None \<Rightarrow> Inl SSOAccessDenied
                | Some e \<Rightarrow> Inr e))"

definition provider_usable :: "sso_provider option \<Rightarrow> bool" where
  "provider_usable p = (case p of None \<Rightarrow> False | Some p \<Rightarrow> sp_Enabled p \<and> sp_RetiredAt p = None)"

text \<open>A nil entitlement without an error is \<open>None\<close>: the directory vouches for the membership.\<close>

definition validateSSOEntitlement :: "sso_env \<Rightarrow> time \<Rightarrow> sso_caches \<Rightarrow> sso_subject
    \<Rightarrow> (sso_error + team_entitlement option) \<times> sso_caches" where
  "validateSSOEntitlement E now caches subject =
     (case env_provider E (ss_ProviderID subject) of
        Inl e \<Rightarrow> (Inl e, caches)
      | Inr provider \<Rightarrow>
          if \<not> provider_usable provider then (Inl SSOProviderDisabled, caches)
          else let pid = sp_ID (the provider) in
            case env_authority E pid of
              Inl e \<Rightarrow> (Inl e, caches)
            | Inr True \<Rightarrow>
                (case env_entitled E pid (ss_IdentityID subject) (ss_TeamID subject) (ss_GroupID subject) of
                   Inl e \<Rightarrow> (Inl e, caches)
                 | Inr entitled \<Rightarrow> (if entitled then Inr None else Inl SSOAccessDenied, caches))
            | Inr False \<Rightarrow>
                (case env_read_error E pid (ss_Subject subject) of
                   Some e \<Rightarrow> (Inl e, caches)
                 | None \<Rightarrow>
                     (case caches (pid, ss_Subject subject) of
                        Some c \<Rightarrow>
                          if now < sk_ExpiresAt c
                          then (map_sum id Some (cached_entitlement E subject pid c), caches)
                          else (case refresh_entitlement E now caches subject pid of
                                  (Inl e, caches') \<Rightarrow> (Inl e, caches')
                                | (Inr c', caches') \<Rightarrow> (map_sum id Some (cached_entitlement E subject pid c'), caches'))
                      | None \<Rightarrow>
                          (case refresh_entitlement E now caches subject pid of
                             (Inl e, caches') \<Rightarrow> (Inl e, caches')
                           | (Inr c', caches') \<Rightarrow> (map_sum id Some (cached_entitlement E subject pid c'), caches')))))"

section \<open>Credentials and memberships\<close>

record sso_credential = credential +
  sc_OwnerIdentityID :: "uuid option"
  sc_SSOProviderID :: "uuid option"
  sc_SSOSubject :: string
  sc_SSOGroupID :: string
  sc_SSOEntitlementStatus :: string

record sso_membership = membership +
  sm_SSOProviderID :: "uuid option"
  sm_SSOSubject :: string
  sm_SSOGroupID :: string
  sm_SSOEntitlementStatus :: string

definition apply_entitlement :: "sso_credential \<Rightarrow> team_entitlement option \<Rightarrow> sso_credential" where
  "apply_entitlement c e = (case e of
       None \<Rightarrow> c
     | Some e \<Rightarrow> c\<lparr>cred_Scopes := intersectSSOGrants (cred_Scopes c) (te_Scopes e),
                   cred_Role := restrictedSSORole (cred_Role c) (te_Role e), sc_SSOGroupID := te_GroupID e\<rparr>)"

definition ValidateCredential :: "sso_env \<Rightarrow> time \<Rightarrow> sso_caches \<Rightarrow> sso_credential option
    \<Rightarrow> (sso_error + sso_credential) \<times> sso_caches" where
  "ValidateCredential E now caches credential =
     (case credential of
        None \<Rightarrow> (Inl SSOAccessDenied, caches)
      | Some c \<Rightarrow>
          (case sc_OwnerIdentityID c of
             None \<Rightarrow> (Inr c, caches)
           | Some owner \<Rightarrow>
               (case sc_SSOProviderID c of
                  None \<Rightarrow> (Inl SSOAccessDenied, caches)
                | Some pid \<Rightarrow>
                    if trim_space (sc_SSOSubject c) = [] then (Inl SSOAccessDenied, caches)
                    else
                      (case validateSSOEntitlement E now caches
                              \<lparr>ss_ProviderID = pid, ss_IdentityID = owner, ss_TeamID = cred_TeamID c,
                               ss_Subject = sc_SSOSubject c, ss_GroupID = sc_SSOGroupID c\<rparr> of
                         (Inl e, caches') \<Rightarrow> (Inl e, caches')
                       | (Inr entitlement, caches') \<Rightarrow>
                           let c1 = apply_entitlement c entitlement in
                           (case env_owned_grants E (cred_TeamID c1) owner (cred_ID c1) of
                              Inl e \<Rightarrow> (Inl e, caches')
                            | Inr None \<Rightarrow> (Inl SSOAccessDenied, caches')
                            | Inr (Some grants) \<Rightarrow>
                                let scopes = intersectSSOGrants (cred_Scopes c1) grants in
                                if \<not> hasCredentialScope scopes scope_read then (Inl SSOAccessDenied, caches')
                                else (Inr (c1\<lparr>cred_Scopes := scopes, cred_EffectiveMemoryGrants := scopes,
                                              sc_SSOEntitlementStatus := status_active\<rparr>), caches'))))))"

definition ValidateMembership :: "sso_env \<Rightarrow> time \<Rightarrow> sso_caches \<Rightarrow> sso_membership option
    \<Rightarrow> (sso_error + sso_membership) \<times> sso_caches" where
  "ValidateMembership E now caches membership =
     (case membership of
        None \<Rightarrow> (Inl SSOAccessDenied, caches)
      | Some m \<Rightarrow>
          (case sm_SSOProviderID m of
             None \<Rightarrow> (Inl SSOAccessDenied, caches)
           | Some pid \<Rightarrow>
               if mem_ActorIdentityID m = uuid_nil \<or> trim_space (sm_SSOSubject m) = [] then (Inl SSOAccessDenied, caches)
               else
                 (case validateSSOEntitlement E now caches
                         \<lparr>ss_ProviderID = pid, ss_IdentityID = mem_ActorIdentityID m, ss_TeamID = mem_TeamID m,
                          ss_Subject = sm_SSOSubject m, ss_GroupID = sm_SSOGroupID m\<rparr> of
                    (Inl e, caches') \<Rightarrow> (Inl e, caches')
                  | (Inr entitlement, caches') \<Rightarrow>
                      let m1 = (case entitlement of
                                  None \<Rightarrow> m
                                | Some e \<Rightarrow> m\<lparr>mem_Grants := intersectSSOGrants (mem_Grants m) (te_Scopes e),
                                               mem_Role := restrictedSSORole (mem_Role m) (te_Role e),
                                               sm_SSOGroupID := te_GroupID e\<rparr>)
                      in if \<not> hasCredentialScope (mem_Grants m1) scope_read then (Inl SSOAccessDenied, caches')
                         else (Inr (m1\<lparr>sm_SSOEntitlementStatus := status_active\<rparr>), caches'))))"

text \<open>
  The teams of a session: memberships that are denied or whose refresh failed are left out, any other
  error ends the loop. A list entry may be a nil pointer; the selected one is the last that has the
  owner of the session.
\<close>

fun session_teams_loop :: "sso_env \<Rightarrow> time \<Rightarrow> uuid \<Rightarrow> sso_membership option list \<Rightarrow> sso_membership list
    \<Rightarrow> sso_membership option \<Rightarrow> sso_caches \<Rightarrow> (sso_error + sso_membership list \<times> sso_membership option) \<times> sso_caches" where
  "session_teams_loop E now owner [] teams selected caches = (Inr (teams, selected), caches)"
| "session_teams_loop E now owner (None # ms) teams selected caches = session_teams_loop E now owner ms teams selected caches"
| "session_teams_loop E now owner (Some m # ms) teams selected caches =
     (case ValidateMembership E now caches (Some m) of
        (Inl e, caches') \<Rightarrow>
          if e = SSOAccessDenied \<or> e = SSOEntitlementRefreshStale
          then session_teams_loop E now owner ms teams selected caches'
          else (Inl e, caches')
      | (Inr m', caches') \<Rightarrow>
          session_teams_loop E now owner ms (teams @ [m']) (if mem_OwnerID m' = owner then Some m' else selected) caches')"

definition validCurrentSessionTeams :: "sso_env \<Rightarrow> time \<Rightarrow> uuid \<Rightarrow> sso_membership option list \<Rightarrow> sso_caches
    \<Rightarrow> (sso_error + sso_membership list \<times> sso_membership option) \<times> sso_caches" where
  "validCurrentSessionTeams E now owner allTeams caches = session_teams_loop E now owner allTeams [] None caches"

section \<open>What an accepted check rests on\<close>

text \<open>The groups that a check may use: those of a live cache entry, or those the provider returns now.\<close>

definition current_groups :: "sso_env \<Rightarrow> time \<Rightarrow> sso_caches \<Rightarrow> uuid \<Rightarrow> string \<Rightarrow> string list \<Rightarrow> bool" where
  "current_groups E now caches pid subj groups \<longleftrightarrow>
     (case caches (pid, subj) of
        Some c \<Rightarrow> (now < sk_ExpiresAt c \<and> sk_Status c = status_active \<and> groups = sk_Groups c)
                  \<or> (sk_ExpiresAt c \<le> now \<and> env_groups E pid subj = Inr groups)
      | None \<Rightarrow> env_groups E pid subj = Inr groups)"

text \<open>The entitlement comes from the directory (\<open>None\<close>) or from the mappings of current groups.\<close>

definition granted_by :: "sso_env \<Rightarrow> time \<Rightarrow> sso_caches \<Rightarrow> sso_subject \<Rightarrow> uuid \<Rightarrow> team_entitlement option \<Rightarrow> bool" where
  "granted_by E now caches subject pid e \<longleftrightarrow>
     (case e of
        None \<Rightarrow> env_authority E pid = Inr True
          \<and> env_entitled E pid (ss_IdentityID subject) (ss_TeamID subject) (ss_GroupID subject) = Inr True
      | Some te \<Rightarrow> env_authority E pid = Inr False
          \<and> (\<exists>groups mappings. current_groups E now caches pid (ss_Subject subject) groups
               \<and> env_mappings E pid groups = Inr mappings
               \<and> mergedEntitlementForTeam mappings (ss_TeamID subject) = Some te))"

lemma refresh_entitlement_groups:
  assumes "refresh_entitlement E now caches subject pid = (Inr c, caches')"
  shows "env_groups E pid (ss_Subject subject) = Inr (sk_Groups c)"
  using assms by (auto simp: refresh_entitlement_def Let_def split: sum.splits option.splits prod.splits)

lemma cached_entitlement_mappings:
  assumes "cached_entitlement E subject pid c = Inr e"
  shows "sk_Status c = status_active
    \<and> (\<exists>mappings. env_mappings E pid (sk_Groups c) = Inr mappings \<and> mergedEntitlementForTeam mappings (ss_TeamID subject) = Some e)"
  using assms by (auto simp: cached_entitlement_def split: if_splits sum.splits option.splits)

lemma cached_step:
  assumes "map_sum id Some (cached_entitlement E subject pid c) = Inr e" and "env_authority E pid = Inr False"
    and "sk_Status c = status_active \<Longrightarrow> current_groups E now caches pid (ss_Subject subject) (sk_Groups c)"
  shows "granted_by E now caches subject pid e"
proof -
  obtain te where te: "e = Some te" "cached_entitlement E subject pid c = Inr te"
    using assms(1) by (cases "cached_entitlement E subject pid c") auto
  with cached_entitlement_mappings [OF te(2)] assms(2,3) show ?thesis by (auto simp: granted_by_def)
qed

lemma validate_granted:
  assumes "validateSSOEntitlement E now caches subject = (Inr e, caches')"
  shows "\<exists>p. env_provider E (ss_ProviderID subject) = Inr (Some p) \<and> provider_usable (Some p)
    \<and> granted_by E now caches subject (sp_ID p) e"
proof -
  obtain p where p: "env_provider E (ss_ProviderID subject) = Inr (Some p)" "provider_usable (Some p)"
    using assms by (auto simp: validateSSOEntitlement_def provider_usable_def split: sum.splits if_splits option.splits)
  let ?pid = "sp_ID p"
  obtain authority where authority: "env_authority E ?pid = Inr authority"
    using assms p by (auto simp: validateSSOEntitlement_def Let_def split: sum.splits)
  have "granted_by E now caches subject ?pid e"
  proof (cases authority)
    case True
    then show ?thesis
      using assms p authority by (auto simp: validateSSOEntitlement_def Let_def granted_by_def split: sum.splits if_splits)
  next
    case False
    have live: "map_sum id Some (cached_entitlement E subject ?pid c) = Inr e"
      if "caches (?pid, ss_Subject subject) = Some c" "now < sk_ExpiresAt c" for c
      using assms p authority False that by (auto simp: validateSSOEntitlement_def Let_def split: option.splits)
    have refreshed: "\<exists>c'. refresh_entitlement E now caches subject ?pid = (Inr c', caches')
        \<and> map_sum id Some (cached_entitlement E subject ?pid c') = Inr e"
      if "\<And>c. caches (?pid, ss_Subject subject) = Some c \<Longrightarrow> \<not> now < sk_ExpiresAt c"
      using assms p authority False that
      by (auto simp: validateSSOEntitlement_def Let_def split: option.splits sum.splits prod.splits if_splits)
    show ?thesis
    proof (cases "\<exists>c. caches (?pid, ss_Subject subject) = Some c \<and> now < sk_ExpiresAt c")
      case True
      then obtain c where c: "caches (?pid, ss_Subject subject) = Some c" "now < sk_ExpiresAt c" by blast
      show ?thesis
        by (rule cached_step [OF live [OF c]]) (simp_all add: authority False current_groups_def c)
    next
      case stale: False
      then obtain c' where c': "refresh_entitlement E now caches subject ?pid = (Inr c', caches')"
        "map_sum id Some (cached_entitlement E subject ?pid c') = Inr e"
        using refreshed by blast
      show ?thesis
        using stale refresh_entitlement_groups [OF c'(1)]
        by (intro cached_step [OF c'(2)]) (auto simp: authority False current_groups_def split: option.splits)
    qed
  qed
  with p show ?thesis by blast
qed

section \<open>Properties\<close>

text \<open>
  C26 (credential_check_restricts): an accepted check of a credential that a single-sign-on identity owns
  never widens it. Its scopes are some of its own, include read and become its grants; it is a manager
  only if it was one; and the check rests on a usable provider and on the directory or on the mappings
  of current groups, which then bound the scopes and the role.
\<close>

theorem credential_check_restricts:
  assumes "fst (ValidateCredential E now caches (Some c)) = Inr c'" and "sc_OwnerIdentityID c = Some owner"
  shows "set (cred_Scopes c') \<subseteq> set (cred_Scopes c) \<and> scope_read \<in> set (cred_Scopes c')
    \<and> cred_EffectiveMemoryGrants c' = cred_Scopes c' \<and> cred_ID c' = cred_ID c \<and> cred_TeamID c' = cred_TeamID c
    \<and> (cred_Role c' = role_manager \<longrightarrow> cred_Role c = role_manager)
    \<and> (\<exists>pid p e. sc_SSOProviderID c = Some pid \<and> env_provider E pid = Inr (Some p) \<and> provider_usable (Some p)
         \<and> granted_by E now caches \<lparr>ss_ProviderID = pid, ss_IdentityID = owner, ss_TeamID = cred_TeamID c,
              ss_Subject = sc_SSOSubject c, ss_GroupID = sc_SSOGroupID c\<rparr> (sp_ID p) e
         \<and> (\<forall>te. e = Some te \<longrightarrow> set (cred_Scopes c') \<subseteq> set (te_Scopes te)
              \<and> (cred_Role c' = role_manager \<longrightarrow> te_Role te = role_manager)))"
proof -
  obtain pid where pid: "sc_SSOProviderID c = Some pid"
    using assms by (auto simp: ValidateCredential_def split: option.splits)
  let ?subject = "\<lparr>ss_ProviderID = pid, ss_IdentityID = owner, ss_TeamID = cred_TeamID c,
              ss_Subject = sc_SSOSubject c, ss_GroupID = sc_SSOGroupID c\<rparr>"
  obtain e caches' where e: "validateSSOEntitlement E now caches ?subject = (Inr e, caches')"
    using assms pid by (auto simp: ValidateCredential_def split: if_splits prod.splits sum.splits)
  define c1 where "c1 = apply_entitlement c e"
  have keep: "set (cred_Scopes c1) \<subseteq> set (cred_Scopes c)" "cred_ID c1 = cred_ID c" "cred_TeamID c1 = cred_TeamID c"
    "cred_Role c1 = role_manager \<Longrightarrow> cred_Role c = role_manager"
    by (auto simp: c1_def apply_entitlement_def intersectSSOGrants_def restrictedSSORole_def split: option.splits if_splits)
  have bound: "set (cred_Scopes c1) \<subseteq> set (te_Scopes te) \<and> (cred_Role c1 = role_manager \<longrightarrow> te_Role te = role_manager)"
    if "e = Some te" for te
    using that by (auto simp: c1_def apply_entitlement_def intersectSSOGrants_def restrictedSSORole_def)
  obtain grants where c': "c' = c1\<lparr>cred_Scopes := intersectSSOGrants (cred_Scopes c1) grants,
      cred_EffectiveMemoryGrants := intersectSSOGrants (cred_Scopes c1) grants, sc_SSOEntitlementStatus := status_active\<rparr>"
    and read: "hasCredentialScope (intersectSSOGrants (cred_Scopes c1) grants) scope_read"
    using assms pid e
    by (auto simp: ValidateCredential_def c1_def [symmetric] Let_def split: if_splits sum.splits option.splits)
  have scopes: "cred_Scopes c' = intersectSSOGrants (cred_Scopes c1) grants" "cred_EffectiveMemoryGrants c' = cred_Scopes c'"
    "cred_ID c' = cred_ID c1" "cred_TeamID c' = cred_TeamID c1" "cred_Role c' = cred_Role c1"
    by (simp_all add: c')
  have sub: "set (cred_Scopes c') \<subseteq> set (cred_Scopes c1)" by (auto simp: scopes intersectSSOGrants_def)
  have "scope_read \<in> set (cred_Scopes c')" using read by (simp add: scopes hasCredentialScope_def list_ex_iff)
  moreover obtain p where "env_provider E pid = Inr (Some p)" "provider_usable (Some p)" "granted_by E now caches ?subject (sp_ID p) e"
    using validate_granted [OF e] by auto
  ultimately show ?thesis using sub keep bound scopes(2-5) pid by fastforce
qed

text \<open>A provider whose only group maps to one team, and an identity that also holds an old membership.\<close>

definition sample_env :: sso_env where
  "sample_env =
     \<lparr>env_provider = (\<lambda>pid. Inr (Some \<lparr>sp_ID = pid, sp_Enabled = True, sp_RetiredAt = None\<rparr>)),
      env_authority = (\<lambda>_. Inr False), env_entitled = (\<lambda>_ _ _ _. Inr False), env_cache_ttl = Inr 300000000000,
      env_groups = (\<lambda>_ _. Inr [''staff'']),
      env_mappings = (\<lambda>pid groups. Inr (if ''staff'' \<in> set groups
        then [Some \<lparr>sm_ProviderID = pid, sm_TeamID = 7, sm_GroupID = ''staff'', sm_GroupName = ''Staff'',
                    sm_Scopes = [scope_read], sm_Role = role_member, sm_Enabled = True\<rparr>]
        else [])),
      env_read_error = (\<lambda>_ _. None), env_write_error = (\<lambda>_. None), env_owned_grants = (\<lambda>_ _ _. Inr (Some [scope_read]))\<rparr>"

definition sample_membership :: "uuid \<Rightarrow> sso_membership" where
  "sample_membership team =
     \<lparr>mem_TeamSharedSpaceID = 0, mem_TeamSharedSpaceGeneration = 0, mem_ID = team, mem_MemorySpaceID = 0,
      mem_MemorySpaceGeneration = 0, mem_ActorIdentityID = 2, mem_TeamID = team, mem_OwnerID = team, mem_Name = ''m'',
      mem_Grants = [scope_read], mem_Role = role_member, mem_Status = ''active'',
      sm_SSOProviderID = Some 1, sm_SSOSubject = ''subject'', sm_SSOGroupID = ''staff'', sm_SSOEntitlementStatus = []\<rparr>"

definition sample_sso_credential :: sso_credential where
  "sample_sso_credential =
     \<lparr>cred_ID = 5, cred_ActorIdentityID = 2, cred_MembershipID = 7, cred_OwnerID = 7, cred_TeamID = 7, cred_TeamName = ''t'',
      cred_Name = ''c'', cred_Scopes = [scope_read, scope_write], cred_Role = role_manager, cred_RateLimit = 0,
      cred_ExpiresAt = None, cred_RevokedAt = None, cred_EffectiveMemoryGrants = [], cred_MemorySpaceID = 0,
      cred_MemorySpaceGeneration = 0, cred_TeamSharedSpaceID = 0, cred_TeamSharedSpaceGeneration = 0,
      sc_OwnerIdentityID = Some 2, sc_SSOProviderID = Some 1, sc_SSOSubject = ''subject'', sc_SSOGroupID = ''staff'',
      sc_SSOEntitlementStatus = []\<rparr>"

lemma trim_subject [simp]: "trim_space ''subject'' = ''subject''" "lower_trim role_member = role_member"
  by (simp_all add: go_string_eval role_member_def)

lemma sample_mappings:
  "hasMappingForTeam [Some \<lparr>sm_ProviderID = pid, sm_TeamID = 7, sm_GroupID = ''staff'', sm_GroupName = ''Staff'',
      sm_Scopes = [scope_read], sm_Role = role_member, sm_Enabled = True\<rparr>] team \<longleftrightarrow> team = 7"
  "mergedEntitlementForTeam [Some \<lparr>sm_ProviderID = pid, sm_TeamID = 7, sm_GroupID = ''staff'', sm_GroupName = ''Staff'',
      sm_Scopes = [scope_read], sm_Role = role_member, sm_Enabled = True\<rparr>] 7
    = Some \<lparr>te_Scopes = [scope_read], te_Role = role_member, te_GroupID = ''staff''\<rparr>"
  by (auto simp: hasMappingForTeam_def mergedEntitlementForTeam_def team_mappings_def merge_mapping_def mergeScopes_def
      normalizeSSOScopes_def NormalizeCredentialScopes_def normalizeSSORole_def NormalizeCredentialRole_def)

theorem credential_check_restricts_witness:
  "\<exists>c'. fst (ValidateCredential sample_env 0 Map.empty (Some sample_sso_credential)) = Inr c'
     \<and> set (cred_Scopes c') \<subseteq> set (cred_Scopes sample_sso_credential) \<and> scope_read \<in> set (cred_Scopes c')"
proof -
  obtain c' where c': "fst (ValidateCredential sample_env 0 Map.empty (Some sample_sso_credential)) = Inr c'"
    by (simp add: ValidateCredential_def validateSSOEntitlement_def sample_env_def sample_sso_credential_def provider_usable_def
        refresh_entitlement_def SetEntitlementCache_def cached_entitlement_def sample_mappings apply_entitlement_def
        intersectSSOGrants_def hasCredentialScope_def Let_def)
  moreover have "sc_OwnerIdentityID sample_sso_credential = Some 2" by (simp add: sample_sso_credential_def)
  ultimately show ?thesis using credential_check_restricts [OF c'] by blast
qed

definition sample_entry :: "string \<Rightarrow> sso_caches" where
  "sample_entry status = [(1, ''subject'') \<mapsto>
     \<lparr>sk_ProviderID = 1, sk_Subject = ''subject'', sk_Groups = [''staff''], sk_Status = status, sk_CheckedAt = 0,
      sk_ExpiresAt = 300000000000, sk_Error = []\<rparr>]"

lemma sample_not_merged:
  "mergedEntitlementForTeam [Some \<lparr>sm_ProviderID = pid, sm_TeamID = 7, sm_GroupID = ''staff'', sm_GroupName = ''Staff'',
      sm_Scopes = [scope_read], sm_Role = role_member, sm_Enabled = True\<rparr>] 8 = None"
  by (simp add: mergedEntitlementForTeam_def team_mappings_def)

lemma sample_checks:
  "ValidateMembership sample_env 0 Map.empty (Some (sample_membership 7))
     = (Inr (sample_membership 7\<lparr>sm_SSOEntitlementStatus := status_active\<rparr>), sample_entry status_active)"
  "ValidateMembership sample_env 0 (sample_entry status_active) (Some (sample_membership 8))
     = (Inl SSOAccessDenied, sample_entry status_active)"
  "ValidateMembership sample_env 0 Map.empty (Some (sample_membership 8)) = (Inl SSOAccessDenied, sample_entry status_denied)"
  "ValidateMembership sample_env 0 (sample_entry status_denied) (Some (sample_membership 7))
     = (Inl SSOAccessDenied, sample_entry status_denied)"
  by (simp_all add: ValidateMembership_def validateSSOEntitlement_def sample_env_def sample_membership_def provider_usable_def
      refresh_entitlement_def SetEntitlementCache_def cached_entitlement_def sample_mappings sample_not_merged
      intersectSSOGrants_def restrictedSSORole_def hasCredentialScope_def sample_entry_def Let_def)

text \<open>
  (session_teams_order): the teams of a session depend on the order of its memberships. The cache keeps
  one status per provider and subject, but a refresh writes the status of the team it was made for: an
  old membership that is checked first marks the subject as denied, and a team that the mappings grant
  is refused until the entry expires.
\<close>

theorem session_teams_order:
  "map mem_TeamID (case fst (validCurrentSessionTeams sample_env 0 7 [Some (sample_membership 7), Some (sample_membership 8)] Map.empty)
      of Inr (teams, selected) \<Rightarrow> teams | Inl e \<Rightarrow> []) = [7]
   \<and> map mem_TeamID (case fst (validCurrentSessionTeams sample_env 0 7 [Some (sample_membership 8), Some (sample_membership 7)] Map.empty)
      of Inr (teams, selected) \<Rightarrow> teams | Inl e \<Rightarrow> []) = []"
  by (simp add: validCurrentSessionTeams_def sample_checks) (simp add: sample_membership_def)

end
