(* ===== verification/Directory_Plan.thy ===== *)
theory Directory_Plan
  imports Access_Policy
begin

text \<open>
  Directory provisioning: the policy of a connector (internal/service/access/directory_identity_policy.go)
  and the plan that turns a snapshot of directory groups into team bindings, team creations and grants
  (\<open>buildDirectoryReconcilePlan\<close> in directory_identity_service.go).

  The regular-expression engine, the SHA-1 identifiers of new teams, the text of UUIDs and the hash of
  the plan are parameters (\<open>dir_env\<close>).
\<close>

section \<open>Connectors\<close>

record entitlement =
  en_Role :: string
  en_Scopes :: "string list"

record dir_connector =
  dc_ID :: uuid
  dc_ProviderID :: uuid
  dc_Status :: string
  dc_GroupPattern :: string
  dc_RoleEntitlements :: "(string \<times> entitlement) list"
  dc_MaxAutoTeams :: int
  dc_ReconcileVersion :: int

definition DirectoryConnectorDisabled :: string where "DirectoryConnectorDisabled = ''disabled''"
definition DirectoryConnectorObserve :: string where "DirectoryConnectorObserve = ''observe''"
definition DirectoryConnectorActive :: string where "DirectoryConnectorActive = ''active''"

lemma connector_statuses_distinct [simp]:
  "DirectoryConnectorDisabled \<noteq> DirectoryConnectorObserve" "DirectoryConnectorObserve \<noteq> DirectoryConnectorDisabled"
  "DirectoryConnectorDisabled \<noteq> DirectoryConnectorActive" "DirectoryConnectorActive \<noteq> DirectoryConnectorDisabled"
  "DirectoryConnectorObserve \<noteq> DirectoryConnectorActive" "DirectoryConnectorActive \<noteq> DirectoryConnectorObserve"
  "DirectoryConnectorDisabled \<noteq> []" "DirectoryConnectorObserve \<noteq> []" "DirectoryConnectorActive \<noteq> []"
  by (simp_all add: DirectoryConnectorDisabled_def DirectoryConnectorObserve_def DirectoryConnectorActive_def)

datatype dir_error = ConnectorRequired | ProviderRequired | StatusInvalid | PatternRequired | PatternNotAnchored
  | PatternInvalid | PatternCaptures | MaxAutoTeamsRange | EntitlementsRequired | CaptureRequired
  | CaptureDuplicated string | AccessError access_error | RoleRequired string | ScopesRequired string
  | MustMapToManager string | MustNotGrantWrite string | StatusRequired | PreviewVersionRequired
  | DirectoryPreviewStale | MustObserveFirst | CapturesUnavailable | DirectoryReconcileStale | RepositoryError string

definition DefaultDirectoryMaxAutoTeams :: int where "DefaultDirectoryMaxAutoTeams = 100"

text \<open>
  \<open>strings.EqualFold(s, "manager")\<close>: none of these letters has a fold outside ASCII, so the comparison
  is that of the ASCII lower case.
\<close>

definition ascii_to_lower :: "char \<Rightarrow> char" where
  "ascii_to_lower c = (if 65 \<le> byte_of c \<and> byte_of c \<le> 90 then char_at (byte_of c + 32) else c)"

definition equal_fold_ascii :: "string \<Rightarrow> string \<Rightarrow> bool" where
  "equal_fold_ascii s t \<longleftrightarrow> map ascii_to_lower s = t"

definition isReadOnlyDirectoryRole :: "string \<Rightarrow> bool" where
  "isReadOnlyDirectoryRole v =
     (let s = to_lower (filter (\<lambda>c. c \<noteq> CHR ''-'') (trim_space v)) in s = ''readonly'' \<or> s = ''read'')"

text \<open>One entry of the map; \<open>normalized\<close> holds the captures done so far.\<close>

definition normalize_entitlement :: "string \<Rightarrow> entitlement \<Rightarrow> (string \<times> entitlement) list \<Rightarrow> dir_error + string \<times> entitlement" where
  "normalize_entitlement key e normalized =
     (let capture = trim_space key in
      if capture = [] then Inl CaptureRequired
      else if map_of normalized capture \<noteq> None then Inl (CaptureDuplicated capture)
      else case NormalizeCredentialRole (en_Role e) of
             Inl err \<Rightarrow> Inl (AccessError err)
           | Inr role \<Rightarrow>
               if role = [] then Inl (RoleRequired capture)
               else if en_Scopes e = [] then Inl (ScopesRequired capture)
               else case NormalizeCredentialScopes (en_Scopes e) of
                      Inl err \<Rightarrow> Inl (AccessError err)
                    | Inr scopes0 \<Rightarrow>
                        let scopes = (if role = role_manager then managerCredentialScopes scopes0 else scopes0) in
                        if equal_fold_ascii capture ''manager'' \<and> role \<noteq> role_manager then Inl (MustMapToManager capture)
                        else if isReadOnlyDirectoryRole capture \<and> scope_write \<in> set scopes then Inl (MustNotGrantWrite capture)
                        else Inr (capture, \<lparr>en_Role = role, en_Scopes = scopes\<rparr>))"

fun normalize_entitlements_loop :: "(string \<times> entitlement) list \<Rightarrow> string list \<Rightarrow> (string \<times> entitlement) list
    \<Rightarrow> dir_error + (string \<times> entitlement) list" where
  "normalize_entitlements_loop values [] normalized = Inr normalized"
| "normalize_entitlements_loop values (key # keys) normalized =
     (case normalize_entitlement key (the (map_of values key)) normalized of
        Inl e \<Rightarrow> Inl e
      | Inr (capture, e) \<Rightarrow> normalize_entitlements_loop values keys (AList.update capture e normalized))"

definition normalizeDirectoryRoleEntitlements :: "(string \<times> entitlement) list \<Rightarrow> dir_error + (string \<times> entitlement) list" where
  "normalizeDirectoryRoleEntitlements values =
     (if values = [] then Inl EntitlementsRequired
      else normalize_entitlements_loop values (sorted_keys (map fst values)) [])"

record dir_env =
  de_compile :: "string \<Rightarrow> string list option"
  de_match :: "string \<Rightarrow> string \<Rightarrow> string list"
  de_team_id :: "uuid \<Rightarrow> string \<Rightarrow> uuid"
  de_uuid_string :: "uuid \<Rightarrow> string"

text \<open>\<open>de_compile p\<close>: the names of the subexpressions of \<open>^(?:p)$\<close>, or \<open>None\<close> when it does not compile.\<close>

definition namedSubexpressionCount :: "string list \<Rightarrow> string \<Rightarrow> nat" where
  "namedSubexpressionCount names name = length (filter (\<lambda>n. n = name) names)"

definition normalizeDirectoryConnector :: "dir_env \<Rightarrow> dir_connector option \<Rightarrow> dir_error + dir_connector" where
  "normalizeDirectoryConnector D connector =
     (case connector of
        None \<Rightarrow> Inl ConnectorRequired
      | Some c \<Rightarrow>
          if dc_ProviderID c = uuid_nil then Inl ProviderRequired
          else let status = (if dc_Status c = [] then DirectoryConnectorDisabled else dc_Status c) in
          if status \<notin> {DirectoryConnectorDisabled, DirectoryConnectorObserve, DirectoryConnectorActive} then Inl StatusInvalid
          else let pat = trim_space (dc_GroupPattern c) in
          if pat = [] then Inl PatternRequired
          else if \<not> prefix ''^'' pat \<or> \<not> suffix ''$'' pat then Inl PatternNotAnchored
          else case de_compile D pat of
                 None \<Rightarrow> Inl PatternInvalid
               | Some names \<Rightarrow>
                   if namedSubexpressionCount names ''team'' \<noteq> 1 \<or> namedSubexpressionCount names ''role'' \<noteq> 1
                   then Inl PatternCaptures
                   else let maxTeams = (if dc_MaxAutoTeams c = 0 then DefaultDirectoryMaxAutoTeams else dc_MaxAutoTeams c) in
                   if maxTeams < 1 \<or> 1000 < maxTeams then Inl MaxAutoTeamsRange
                   else case normalizeDirectoryRoleEntitlements (dc_RoleEntitlements c) of
                          Inl e \<Rightarrow> Inl e
                        | Inr entitlements \<Rightarrow>
                            Inr (c\<lparr>dc_Status := status, dc_GroupPattern := pat, dc_MaxAutoTeams := maxTeams,
                                   dc_RoleEntitlements := entitlements\<rparr>))"

text \<open>A change of status, with the version of the preview that the caller saw and the current one.\<close>

definition validateDirectoryConnectorTransition :: "dir_connector \<Rightarrow> string \<Rightarrow> string \<Rightarrow> string \<Rightarrow> dir_error option" where
  "validateDirectoryConnectorTransition current desired previewVersion version =
     (if desired = [] then Some StatusRequired
      else if dc_Status current = desired then None
      else if dc_Status current = DirectoryConnectorDisabled \<and> desired = DirectoryConnectorObserve then None
      else if dc_Status current = DirectoryConnectorObserve \<and> desired = DirectoryConnectorDisabled then None
      else if dc_Status current = DirectoryConnectorObserve \<and> desired = DirectoryConnectorActive then
        (if trim_space previewVersion = [] then Some PreviewVersionRequired
         else if previewVersion \<noteq> version then Some DirectoryPreviewStale
         else None)
      else if dc_Status current = DirectoryConnectorActive \<and> desired = DirectoryConnectorDisabled then None
      else Some MustObserveFirst)"

section \<open>What normalization guarantees\<close>

text \<open>An entry that grants what its role and its capture allow.\<close>

definition entitlement_ok :: "string \<times> entitlement \<Rightarrow> bool" where
  "entitlement_ok ce \<longleftrightarrow> (let capture = fst ce; e = snd ce in
     capture \<noteq> [] \<and> trim_space capture = capture \<and> (en_Role e = role_manager \<or> en_Role e = role_member)
     \<and> canonical_scopes (en_Scopes e)
     \<and> (en_Role e = role_manager \<longrightarrow> scope_write \<in> set (en_Scopes e))
     \<and> (equal_fold_ascii capture ''manager'' \<longrightarrow> en_Role e = role_manager)
     \<and> (isReadOnlyDirectoryRole capture \<longrightarrow> scope_write \<notin> set (en_Scopes e)))"

lemma NormalizeCredentialRole_Inr: "NormalizeCredentialRole r = Inr role \<Longrightarrow> role \<in> {[], role_manager, role_member}"
  by (auto simp: NormalizeCredentialRole_def Let_def split: if_splits)

lemma normalize_entitlement_ok:
  assumes "normalize_entitlement key e normalized = Inr (capture, e')"
  shows "entitlement_ok (capture, e') \<and> map_of normalized capture = None"
proof -
  let ?c = "trim_space key"
  have c: "?c \<noteq> []" "map_of normalized ?c = None"
    using assms by (simp_all add: normalize_entitlement_def Let_def split: if_splits)
  obtain role where role: "NormalizeCredentialRole (en_Role e) = Inr role"
    using assms c by (cases "NormalizeCredentialRole (en_Role e)") (simp_all add: normalize_entitlement_def Let_def)
  have r: "role \<noteq> []" "en_Scopes e \<noteq> []"
    using assms c role by (simp_all add: normalize_entitlement_def Let_def split: if_splits)
  obtain scopes where scopes: "NormalizeCredentialScopes (en_Scopes e) = Inr scopes"
    using assms c role r by (cases "NormalizeCredentialScopes (en_Scopes e)") (simp_all add: normalize_entitlement_def Let_def)
  define final where "final = (if role = role_manager then managerCredentialScopes scopes else scopes)"
  have body: "normalize_entitlement key e normalized =
      (if equal_fold_ascii ?c ''manager'' \<and> role \<noteq> role_manager then Inl (MustMapToManager ?c)
       else if isReadOnlyDirectoryRole ?c \<and> scope_write \<in> set final then Inl (MustNotGrantWrite ?c)
       else Inr (?c, \<lparr>en_Role = role, en_Scopes = final\<rparr>))"
    unfolding normalize_entitlement_def Let_def final_def using c role r scopes by simp
  then have capture: "capture = ?c" and e': "e' = \<lparr>en_Role = role, en_Scopes = final\<rparr>"
    and rules: "equal_fold_ascii ?c ''manager'' \<longrightarrow> role = role_manager" "isReadOnlyDirectoryRole ?c \<longrightarrow> scope_write \<notin> set final"
    using assms by (auto split: if_splits)
  have canonical: "canonical_scopes scopes" using scopes by (rule NormalizeCredentialScopes_canonical)
  then have "canonical_scopes final" "role = role_manager \<longrightarrow> scope_write \<in> set final"
    using canonical_managerScopes set_managerScopes [OF canonical] by (simp_all add: final_def)
  then show ?thesis
    using c r(1) rules NormalizeCredentialRole_Inr [OF role] by (simp add: entitlement_ok_def capture e')
qed

lemma normalize_entitlements_loop_ok:
  assumes "normalize_entitlements_loop values keys normalized = Inr result"
    and "list_all entitlement_ok normalized" and "distinct (map fst normalized)"
  shows "list_all entitlement_ok result \<and> distinct (map fst result) \<and> length result = length normalized + length keys"
  using assms
proof (induction keys arbitrary: normalized)
  case (Cons key keys)
  obtain capture e where step: "normalize_entitlement key (the (map_of values key)) normalized = Inr (capture, e)"
    and rest: "normalize_entitlements_loop values keys (AList.update capture e normalized) = Inr result"
    using Cons.prems(1) by (auto split: sum.splits)
  have ok: "entitlement_ok (capture, e)" "map_of normalized capture = None" using normalize_entitlement_ok [OF step] by simp_all
  have upd: "AList.update capture e normalized = normalized @ [(capture, e)]"
    using ok(2) by (simp add: map_of_eq_None_iff update_new)
  show ?case using Cons.IH [OF rest] Cons.prems(2,3) ok unfolding upd by (auto simp: map_of_eq_None_iff)
qed simp

section \<open>Snapshots and plans\<close>

record dir_user =
  du_ID :: uuid
  du_ExternalID :: string
  du_UserName :: string
  du_Email :: string
  du_DisplayName :: string
  du_Active :: bool
  du_IdentityID :: uuid

record dir_group =
  dg_ID :: uuid
  dg_ExternalID :: string
  dg_DisplayName :: string
  dg_Active :: bool
  dg_Members :: "dir_user list"

datatype binding_origin = DirectoryBindingCreated | DirectoryBindingExactName | DirectoryBindingAdopted

record dir_binding =
  db_GroupID :: uuid
  db_TeamID :: uuid
  db_Origin :: binding_origin
  db_Scopes :: "string list"
  db_Role :: string

record dir_team =
  dt_ID :: uuid
  dt_Name :: string
  dt_Status :: string
  dt_DirectoryManaged :: bool

record dir_snapshot =
  sn_Connector :: dir_connector
  sn_Groups :: "dir_group list"
  sn_Users :: "dir_user list"
  sn_Bindings :: "dir_binding list"
  sn_ManualMappings :: "sso_mapping list"
  sn_Teams :: "dir_team list"

datatype issue_kind = IssueInvalidGroup | IssueCollision | IssueCapacity

record dir_issue =
  di_GroupID :: uuid
  di_Key :: string
  di_Kind :: issue_kind
  di_Detail :: string

record binding_action =
  ba_GroupID :: uuid
  ba_GroupExternalID :: string
  ba_GroupDisplayName :: string
  ba_TeamID :: uuid
  ba_TeamName :: string
  ba_CreateTeam :: bool
  ba_Origin :: binding_origin
  ba_Entitlement :: entitlement

record profile_grant =
  pg_IdentityID :: uuid
  pg_TeamID :: uuid
  pg_Subject :: string
  pg_Email :: string
  pg_DisplayName :: string
  pg_GroupExternalID :: string
  pg_Entitlement :: entitlement

record dir_plan =
  dp_ConnectorID :: uuid
  dp_ProviderID :: uuid
  dp_ReconcileVersion :: int
  dp_Bindings :: "binding_action list"
  dp_DisableDirectoryGroupIDs :: "string list"
  dp_ArchiveDirectoryTeamIDs :: "uuid list"
  dp_RestoreDirectoryTeamIDs :: "uuid list"
  dp_ProfileGrants :: "profile_grant list"
  dp_DirectoryIdentityIDs :: "uuid list"
  dp_Issues :: "dir_issue list"

section \<open>Names, issues and grants\<close>

text \<open>\<open>strings.Fields\<close>: \<open>cur\<close> is the field being read, reversed.\<close>

function split_fields :: "string \<Rightarrow> string \<Rightarrow> string list" where
  "split_fields cur s = (case s of
       [] \<Rightarrow> if cur = [] then [] else [rev cur]
     | c # cs \<Rightarrow>
         (case find (\<lambda>p. p \<noteq> [] \<and> prefix p s) space_seqs of
            Some p \<Rightarrow> (if cur = [] then [] else [rev cur]) @ split_fields [] (drop (length p) s)
          | None \<Rightarrow> split_fields (c # cur) cs))"
  by pat_completeness auto
termination
  by (relation "measure (\<lambda>(cur, s). length s)") (auto simp: find_Some_iff prefix_def)

declare split_fields.simps [simp del]

definition normalizeDirectoryTeamName :: "string \<Rightarrow> string" where
  "normalizeDirectoryTeamName v =
     (let name = go_join '' '' (split_fields [] (trim_space v)) in if 100 < length name then [] else name)"

definition directoryExternalGroupID :: "dir_env \<Rightarrow> dir_group \<Rightarrow> string" where
  "directoryExternalGroupID D g =
     (if trim_space (dg_ExternalID g) \<noteq> [] then dg_ExternalID g else de_uuid_string D (dg_ID g))"

primrec issue_kind_str :: "issue_kind \<Rightarrow> string" where
  "issue_kind_str IssueInvalidGroup = ''invalid_group''"
| "issue_kind_str IssueCollision = ''team_collision''"
| "issue_kind_str IssueCapacity = ''auto_team_capacity''"

definition directoryIssue :: "dir_env \<Rightarrow> uuid \<Rightarrow> issue_kind \<Rightarrow> string \<Rightarrow> dir_issue" where
  "directoryIssue D groupID kind detail =
     \<lparr>di_GroupID = groupID, di_Key = ''group:'' @ de_uuid_string D groupID @ '':'' @ issue_kind_str kind,
      di_Kind = kind, di_Detail = detail\<rparr>"

definition directoryEntitlementRank :: "entitlement \<Rightarrow> int" where
  "directoryEntitlementRank e = int (length (en_Scopes e)) + (if en_Role e = role_manager then 100 else 0)"

definition strongestDirectoryGrant :: "profile_grant \<Rightarrow> profile_grant \<Rightarrow> profile_grant" where
  "strongestDirectoryGrant existing candidate =
     (let merged = en_Scopes (pg_Entitlement existing) @ en_Scopes (pg_Entitlement candidate);
          winner = (if directoryEntitlementRank (pg_Entitlement existing) < directoryEntitlementRank (pg_Entitlement candidate)
                    then candidate else existing)
      in case NormalizeCredentialScopes merged of
           Inl e \<Rightarrow> winner
         | Inr scopes \<Rightarrow> winner\<lparr>pg_Entitlement := (pg_Entitlement winner)\<lparr>en_Scopes := scopes\<rparr>\<rparr>)"

text \<open>
  The grants of the plan, keyed by identity and team: the key of the map is the text of both UUIDs, which
  determines them.
\<close>

type_synonym grants = "((uuid \<times> uuid) \<times> profile_grant) list"

definition grant_key :: "profile_grant \<Rightarrow> uuid \<times> uuid" where
  "grant_key g = (pg_IdentityID g, pg_TeamID g)"

definition add_grant :: "grants \<Rightarrow> profile_grant \<Rightarrow> grants" where
  "add_grant gs candidate = AList.update (grant_key candidate)
     (case map_of gs (grant_key candidate) of
        Some existing \<Rightarrow> strongestDirectoryGrant existing candidate
      | None \<Rightarrow> candidate) gs"

definition group_candidates :: "dir_env \<Rightarrow> dir_group \<Rightarrow> uuid \<Rightarrow> string \<Rightarrow> entitlement \<Rightarrow> profile_grant list" where
  "group_candidates D g teamID externalID e =
     map (\<lambda>u. \<lparr>pg_IdentityID = du_IdentityID u, pg_TeamID = teamID,
               pg_Subject = (if du_ExternalID u = [] then ''scim:'' @ de_uuid_string D (du_ID u) else du_ExternalID u),
               pg_Email = du_Email u, pg_DisplayName = du_DisplayName u, pg_GroupExternalID = externalID,
               pg_Entitlement = e\<rparr>)
       (filter (\<lambda>u. du_Active u \<and> du_IdentityID u \<noteq> uuid_nil) (dg_Members g))"

definition addDirectoryGroupGrants :: "dir_env \<Rightarrow> grants \<Rightarrow> dir_group \<Rightarrow> uuid \<Rightarrow> string \<Rightarrow> entitlement \<Rightarrow> grants" where
  "addDirectoryGroupGrants D gs g teamID externalID e = foldl add_grant gs (group_candidates D g teamID externalID e)"

definition grant_less :: "dir_env \<Rightarrow> profile_grant \<Rightarrow> profile_grant \<Rightarrow> bool" where
  "grant_less D a b =
     (if pg_TeamID a = pg_TeamID b then de_uuid_string D (pg_IdentityID a) < de_uuid_string D (pg_IdentityID b)
      else de_uuid_string D (pg_TeamID a) < de_uuid_string D (pg_TeamID b))"

definition directoryProfileGrants :: "dir_env \<Rightarrow> grants \<Rightarrow> profile_grant list" where
  "directoryProfileGrants D gs = go_sort (grant_less D) (map snd gs)"

section \<open>One group\<close>

record plan_state =
  ps_Bindings :: "binding_action list"
  ps_Disable :: "string list"
  ps_Archive :: "uuid list"
  ps_Restore :: "uuid list"
  ps_Issues :: "dir_issue list"
  ps_Planned :: "(string \<times> uuid) list"
  ps_NewCreated :: int
  ps_Grants :: grants

definition last_with :: "('a \<Rightarrow> 'k) \<Rightarrow> 'k \<Rightarrow> 'a list \<Rightarrow> 'a option" where
  "last_with key k xs = find (\<lambda>x. key x = k) (rev xs)"

text \<open>The maps that are built by assignment in a loop: the last element with the key stays.\<close>

definition binding_for :: "dir_snapshot \<Rightarrow> uuid \<Rightarrow> dir_binding option" where
  "binding_for S groupID = last_with db_GroupID groupID (sn_Bindings S)"

definition team_by_id :: "dir_snapshot \<Rightarrow> uuid \<Rightarrow> dir_team option" where
  "team_by_id S teamID = last_with dt_ID teamID (sn_Teams S)"

definition team_by_name :: "dir_snapshot \<Rightarrow> string \<Rightarrow> dir_team option" where
  "team_by_name S key = last_with (\<lambda>t. to_lower (dt_Name t)) key (sn_Teams S)"

definition manual_for :: "dir_snapshot \<Rightarrow> string \<Rightarrow> sso_mapping list" where
  "manual_for S externalID = filter (\<lambda>m. sm_GroupID m = externalID) (sn_ManualMappings S)"

definition existing_created :: "dir_snapshot \<Rightarrow> int" where
  "existing_created S = int (card (db_TeamID ` {b \<in> set (sn_Bindings S). db_Origin b = DirectoryBindingCreated}))"

definition inactive_group :: "dir_env \<Rightarrow> dir_snapshot \<Rightarrow> dir_group \<Rightarrow> plan_state \<Rightarrow> plan_state" where
  "inactive_group D S g st = (case binding_for S (dg_ID g) of
       None \<Rightarrow> st
     | Some b \<Rightarrow>
         st\<lparr>ps_Disable := ps_Disable st @ [directoryExternalGroupID D g],
            ps_Archive := ps_Archive st @
              (case team_by_id S (db_TeamID b) of
                 Some t \<Rightarrow> if db_Origin b = DirectoryBindingCreated \<and> dt_DirectoryManaged t then [db_TeamID b] else []
               | None \<Rightarrow> [])\<rparr>)"

definition manual_group :: "dir_env \<Rightarrow> dir_group \<Rightarrow> sso_mapping list \<Rightarrow> plan_state \<Rightarrow> plan_state" where
  "manual_group D g mappings st =
     (let ext = directoryExternalGroupID D g in
      st\<lparr>ps_Disable := ps_Disable st @ [ext],
         ps_Grants := foldl (\<lambda>gs m. addDirectoryGroupGrants D gs g (sm_TeamID m) ext
                              \<lparr>en_Role = sm_Role m, en_Scopes = sm_Scopes m\<rparr>) (ps_Grants st) mappings\<rparr>)"

definition bound_group :: "dir_env \<Rightarrow> dir_snapshot \<Rightarrow> dir_group \<Rightarrow> dir_binding \<Rightarrow> plan_state \<Rightarrow> plan_state" where
  "bound_group D S g b st =
     (let ext = directoryExternalGroupID D g;
          e = \<lparr>en_Role = db_Role b, en_Scopes = db_Scopes b\<rparr>;
          team = team_by_id S (db_TeamID b)
      in st\<lparr>ps_Bindings := ps_Bindings st @
              [\<lparr>ba_GroupID = dg_ID g, ba_GroupExternalID = ext, ba_GroupDisplayName = dg_DisplayName g,
                ba_TeamID = db_TeamID b, ba_TeamName = (case team of Some t \<Rightarrow> dt_Name t | None \<Rightarrow> []),
                ba_CreateTeam = False, ba_Origin = db_Origin b, ba_Entitlement = e\<rparr>],
            ps_Restore := ps_Restore st @
              (case team of
                 Some t \<Rightarrow> if dt_Status t = ''archived'' \<and> db_Origin b = DirectoryBindingCreated \<and> dt_DirectoryManaged t
                           then [db_TeamID b] else []
               | None \<Rightarrow> []),
            ps_Grants := addDirectoryGroupGrants D (ps_Grants st) g (db_TeamID b) ext e\<rparr>)"

definition add_issue :: "dir_env \<Rightarrow> dir_group \<Rightarrow> issue_kind \<Rightarrow> string \<Rightarrow> plan_state \<Rightarrow> plan_state" where
  "add_issue D g kind detail st = st\<lparr>ps_Issues := ps_Issues st @ [directoryIssue D (dg_ID g) kind detail]\<rparr>"

text \<open>The new binding of a group: its team, whether it is created, and its origin.\<close>

definition bind_new :: "dir_env \<Rightarrow> dir_group \<Rightarrow> string \<Rightarrow> entitlement \<Rightarrow> uuid \<Rightarrow> bool \<Rightarrow> binding_origin \<Rightarrow> plan_state \<Rightarrow> plan_state" where
  "bind_new D g teamName e teamID createTeam origin st =
     (let ext = directoryExternalGroupID D g in
      st\<lparr>ps_Bindings := ps_Bindings st @
           [\<lparr>ba_GroupID = dg_ID g, ba_GroupExternalID = ext, ba_GroupDisplayName = dg_DisplayName g, ba_TeamID = teamID,
             ba_TeamName = teamName, ba_CreateTeam = createTeam, ba_Origin = origin, ba_Entitlement = e\<rparr>],
         ps_Grants := addDirectoryGroupGrants D (ps_Grants st) g teamID ext e\<rparr>)"

definition matched_group :: "dir_env \<Rightarrow> dir_snapshot \<Rightarrow> dir_connector \<Rightarrow> dir_group \<Rightarrow> string \<Rightarrow> entitlement
    \<Rightarrow> plan_state \<Rightarrow> plan_state" where
  "matched_group D S connector g teamName e st =
     (let teamKey = to_lower teamName in
      case map_of (ps_Planned st) teamKey of
        Some teamID \<Rightarrow> bind_new D g teamName e teamID False DirectoryBindingCreated st
      | None \<Rightarrow>
          (case team_by_name S teamKey of
             Some t \<Rightarrow>
               if dt_Status t \<noteq> ''active'' then
                 add_issue D g IssueCollision ''an archived team already has the captured name'' st
               else if dt_DirectoryManaged t then
                 add_issue D g IssueCollision ''an unrelated directory-managed team already has the captured name'' st
               else bind_new D g teamName e (dt_ID t) False DirectoryBindingExactName st
           | None \<Rightarrow>
               if dc_MaxAutoTeams connector \<le> existing_created S + ps_NewCreated st then
                 add_issue D g IssueCapacity ''the connector auto-team cap would be exceeded'' st
               else
                 let teamID = de_team_id D (dc_ID connector) (''team:'' @ teamKey) in
                 bind_new D g teamName e teamID True DirectoryBindingCreated
                   (st\<lparr>ps_Planned := AList.update teamKey teamID (ps_Planned st), ps_NewCreated := ps_NewCreated st + 1\<rparr>)))"

definition plan_group :: "dir_env \<Rightarrow> dir_snapshot \<Rightarrow> dir_connector \<Rightarrow> nat \<Rightarrow> nat \<Rightarrow> dir_group \<Rightarrow> plan_state \<Rightarrow> plan_state" where
  "plan_group D S connector teamIndex roleIndex g st =
     (if \<not> dg_Active g then inactive_group D S g st
      else let manual = manual_for S (directoryExternalGroupID D g) in
      if manual \<noteq> [] then manual_group D g manual st
      else case binding_for S (dg_ID g) of
        Some b \<Rightarrow> bound_group D S g b st
      | None \<Rightarrow>
          (let m = de_match D (dc_GroupPattern connector) (dg_DisplayName g) in
           if length m \<le> roleIndex \<or> length m \<le> teamIndex then
             add_issue D g IssueInvalidGroup ''group does not match the configured automation rule'' st
           else
             let teamName = normalizeDirectoryTeamName (m ! teamIndex) in
             case map_of (dc_RoleEntitlements connector) (m ! roleIndex) of
               None \<Rightarrow> add_issue D g IssueInvalidGroup ''group captures do not produce a configured team entitlement'' st
             | Some e \<Rightarrow>
                 if teamName = [] then
                   add_issue D g IssueInvalidGroup ''group captures do not produce a configured team entitlement'' st
                 else matched_group D S connector g teamName e st))"

section \<open>The plan\<close>

definition uniqueDirectoryIdentityIDs :: "uuid list \<Rightarrow> uuid list" where
  "uniqueDirectoryIdentityIDs values = dedup [] (filter (\<lambda>v. v \<noteq> uuid_nil) values)"

definition uniqueDirectoryStrings :: "string list \<Rightarrow> string list" where
  "uniqueDirectoryStrings values = dedup [] (filter (\<lambda>v. v \<noteq> []) (map trim_space values))"

text \<open>\<open>SubexpIndex\<close>: the index of the first subexpression with the name; 0 stands for an index below 1.\<close>

definition subexp_index :: "string list \<Rightarrow> string \<Rightarrow> nat" where
  "subexp_index names name = (case find (\<lambda>i. names ! i = name) [0..<length names] of Some i \<Rightarrow> i | None \<Rightarrow> 0)"

definition initial_plan :: plan_state where
  "initial_plan = \<lparr>ps_Bindings = [], ps_Disable = [], ps_Archive = [], ps_Restore = [], ps_Issues = [],
     ps_Planned = [], ps_NewCreated = 0, ps_Grants = []\<rparr>"

definition active_created :: "binding_action list \<Rightarrow> uuid set" where
  "active_created bs = ba_TeamID ` {b \<in> set bs. ba_Origin b = DirectoryBindingCreated}"

definition finish_plan :: "dir_env \<Rightarrow> dir_snapshot \<Rightarrow> dir_connector \<Rightarrow> plan_state \<Rightarrow> dir_plan" where
  "finish_plan D S connector st =
     \<lparr>dp_ConnectorID = dc_ID connector, dp_ProviderID = dc_ProviderID connector,
      dp_ReconcileVersion = dc_ReconcileVersion connector, dp_Bindings = ps_Bindings st,
      dp_DisableDirectoryGroupIDs = uniqueDirectoryStrings (ps_Disable st),
      dp_ArchiveDirectoryTeamIDs =
        filter (\<lambda>t. t \<notin> active_created (ps_Bindings st)) (uniqueDirectoryIdentityIDs (ps_Archive st)),
      dp_RestoreDirectoryTeamIDs = uniqueDirectoryIdentityIDs (ps_Restore st),
      dp_ProfileGrants = directoryProfileGrants D (ps_Grants st),
      dp_DirectoryIdentityIDs =
        uniqueDirectoryIdentityIDs (map du_IdentityID (filter (\<lambda>u. du_IdentityID u \<noteq> uuid_nil) (sn_Users S))),
      dp_Issues = ps_Issues st\<rparr>"

definition plan_groups :: "dir_env \<Rightarrow> dir_snapshot \<Rightarrow> dir_connector \<Rightarrow> nat \<Rightarrow> nat \<Rightarrow> plan_state" where
  "plan_groups D S connector teamIndex roleIndex =
     foldl (\<lambda>st g. plan_group D S connector teamIndex roleIndex g st) initial_plan (sn_Groups S)"

definition buildDirectoryReconcilePlan :: "dir_env \<Rightarrow> dir_snapshot \<Rightarrow> dir_error + dir_plan" where
  "buildDirectoryReconcilePlan D S =
     (case normalizeDirectoryConnector D (Some (sn_Connector S)) of
        Inl e \<Rightarrow> Inl e
      | Inr connector \<Rightarrow>
          (case de_compile D (dc_GroupPattern connector) of
             None \<Rightarrow> Inl PatternInvalid
           | Some names \<Rightarrow>
               let teamIndex = subexp_index names ''team''; roleIndex = subexp_index names ''role'' in
               if teamIndex < 1 \<or> roleIndex < 1 then Inl CapturesUnavailable
               else Inr (finish_plan D S connector (plan_groups D S connector teamIndex roleIndex))))"

section \<open>Merging grants\<close>

text \<open>The stored and configured entitlements are normalized: canonical scopes and one of the two roles.\<close>

definition en_normal :: "entitlement \<Rightarrow> bool" where
  "en_normal e \<longleftrightarrow> canonical_scopes (en_Scopes e) \<and> (en_Role e = role_manager \<or> en_Role e = role_member)"

lemma entitlement_ok_normal: "entitlement_ok (c, e) \<Longrightarrow> en_normal e"
  by (auto simp: entitlement_ok_def en_normal_def Let_def)

lemma canonical_length: "canonical_scopes s \<Longrightarrow> length s \<le> 3"
  by (erule canonical_scopes_cases) simp_all

lemma lower_trim_canonical: "canonical_scopes s \<Longrightarrow> lower_trim ` set s = set s"
  by (erule canonical_scopes_cases) simp_all

lemma normalize_append:
  assumes "canonical_scopes a" and "canonical_scopes b"
  shows "\<exists>s. NormalizeCredentialScopes (a @ b) = Inr s \<and> set s = set a \<union> set b \<and> canonical_scopes s"
proof -
  have nonempty: "a @ b \<noteq> []" using set_canonical [OF assms(1)] by auto
  have img: "lower_trim ` set (a @ b) = set a \<union> set b"
    using lower_trim_canonical [OF assms(1)] lower_trim_canonical [OF assms(2)] by (simp add: image_Un)
  have sub: "scope_read \<in> set a \<union> set b" "set a \<union> set b \<subseteq> {scope_read, scope_write, scope_feedback}"
    using set_canonical [OF assms(1)] set_canonical [OF assms(2)] by auto
  let ?s = "scope_of (a @ b) [scope_read, scope_write, scope_feedback]"
  have "NormalizeCredentialScopes (a @ b) = Inr ?s"
    unfolding NormalizeCredentialScopes_Inr img using nonempty sub by simp
  moreover have "set ?s = set a \<union> set b" unfolding scope_of_def img using sub by auto
  ultimately show ?thesis using NormalizeCredentialScopes_canonical by blast
qed

lemma strongest_grant:
  assumes "en_normal (pg_Entitlement a)" and "en_normal (pg_Entitlement b)" and "grant_key a = grant_key b"
  shows "grant_key (strongestDirectoryGrant a b) = grant_key a
    \<and> en_normal (pg_Entitlement (strongestDirectoryGrant a b))
    \<and> set (en_Scopes (pg_Entitlement (strongestDirectoryGrant a b)))
        = set (en_Scopes (pg_Entitlement a)) \<union> set (en_Scopes (pg_Entitlement b))
    \<and> (en_Role (pg_Entitlement (strongestDirectoryGrant a b)) = role_manager \<longleftrightarrow>
        en_Role (pg_Entitlement a) = role_manager \<or> en_Role (pg_Entitlement b) = role_manager)"
proof -
  let ?a = "pg_Entitlement a" and ?b = "pg_Entitlement b"
  have can: "canonical_scopes (en_Scopes ?a)" "canonical_scopes (en_Scopes ?b)" using assms by (simp_all add: en_normal_def)
  obtain s where s: "NormalizeCredentialScopes (en_Scopes ?a @ en_Scopes ?b) = Inr s"
    "set s = set (en_Scopes ?a) \<union> set (en_Scopes ?b)" "canonical_scopes s"
    using normalize_append [OF can] by blast
  define w where "w = (if directoryEntitlementRank ?a < directoryEntitlementRank ?b then b else a)"
  have res: "strongestDirectoryGrant a b = w\<lparr>pg_Entitlement := (pg_Entitlement w)\<lparr>en_Scopes := s\<rparr>\<rparr>"
    by (simp add: strongestDirectoryGrant_def s(1) w_def)
  have len: "length (en_Scopes ?a) \<le> 3" "length (en_Scopes ?b) \<le> 3" using can canonical_length by simp_all
  have "en_Role (pg_Entitlement w) = role_manager \<longleftrightarrow> en_Role ?a = role_manager \<or> en_Role ?b = role_manager"
    using len by (auto simp: w_def directoryEntitlementRank_def)
  moreover have "en_Role (pg_Entitlement w) = role_manager \<or> en_Role (pg_Entitlement w) = role_member"
    using assms(1,2) by (auto simp: w_def en_normal_def)
  moreover have "grant_key w = grant_key a" using assms(3) by (simp add: w_def)
  ultimately show ?thesis using s(2,3) by (simp add: res en_normal_def grant_key_def)
qed

definition merged_of :: "profile_grant list \<Rightarrow> uuid \<times> uuid \<Rightarrow> profile_grant option \<Rightarrow> bool" where
  "merged_of cs k g \<longleftrightarrow> (case g of
       None \<Rightarrow> \<forall>c\<in>set cs. grant_key c \<noteq> k
     | Some g \<Rightarrow> (\<exists>c\<in>set cs. grant_key c = k) \<and> grant_key g = k \<and> en_normal (pg_Entitlement g)
         \<and> set (en_Scopes (pg_Entitlement g)) = (\<Union>c\<in>{c \<in> set cs. grant_key c = k}. set (en_Scopes (pg_Entitlement c)))
         \<and> (en_Role (pg_Entitlement g) = role_manager \<longleftrightarrow>
              (\<exists>c\<in>set cs. grant_key c = k \<and> en_Role (pg_Entitlement c) = role_manager)))"

lemma foldl_add_grant:
  assumes "\<forall>c\<in>set cs. en_normal (pg_Entitlement c)"
  shows "merged_of cs k (map_of (foldl add_grant [] cs) k) \<and> distinct (map fst (foldl add_grant [] cs))"
  using assms
proof (induction cs rule: rev_induct)
  case Nil
  then show ?case by (simp add: merged_of_def)
next
  case (snoc c cs)
  let ?gs = "foldl add_grant [] cs"
  have IH: "merged_of cs k (map_of ?gs k)" "distinct (map fst ?gs)" and c: "en_normal (pg_Entitlement c)"
    using snoc by simp_all
  have dist: "distinct (map fst (foldl add_grant [] (cs @ [c])))"
    using IH(2) by (simp add: add_grant_def distinct_update)
  have here: "{x \<in> set (cs @ [c]). grant_key x = k}
      = (if grant_key c = k then insert c {x \<in> set cs. grant_key x = k} else {x \<in> set cs. grant_key x = k})"
    by auto
  have "merged_of (cs @ [c]) k (map_of (foldl add_grant [] (cs @ [c])) k)"
  proof (cases "grant_key c = k")
    case False
    then have "map_of (foldl add_grant [] (cs @ [c])) k = map_of ?gs k" by (simp add: add_grant_def)
    then show ?thesis using IH(1) False unfolding merged_of_def here by (auto split: option.splits)
  next
    case True
    show ?thesis
    proof (cases "map_of ?gs k")
      case None
      then have "map_of (foldl add_grant [] (cs @ [c])) k = Some c" using True by (simp add: add_grant_def)
      then show ?thesis using IH(1) True None c unfolding merged_of_def here by auto
    next
      case (Some g)
      then have new: "map_of (foldl add_grant [] (cs @ [c])) k = Some (strongestDirectoryGrant g c)"
        using True by (simp add: add_grant_def)
      have g: "grant_key g = grant_key c" "en_normal (pg_Entitlement g)" using IH(1) Some True by (auto simp: merged_of_def)
      show ?thesis
        using strongest_grant [OF g(2) c g(1)] IH(1) Some True g(1) unfolding new merged_of_def here by auto
    qed
  qed
  with dist show ?case by blast
qed

section \<open>The invariant of the plan\<close>

text \<open>What a binding of the plan rests on: a stored binding, or a new one for a matching group.\<close>

definition continued :: "dir_env \<Rightarrow> dir_snapshot \<Rightarrow> dir_group \<Rightarrow> binding_action \<Rightarrow> bool" where
  "continued D S g a \<longleftrightarrow> (\<exists>b. binding_for S (dg_ID g) = Some b \<and> ba_TeamID a = db_TeamID b \<and> ba_Origin a = db_Origin b
     \<and> ba_Entitlement a = \<lparr>en_Role = db_Role b, en_Scopes = db_Scopes b\<rparr> \<and> \<not> ba_CreateTeam a)"

definition newly_bound :: "dir_env \<Rightarrow> dir_snapshot \<Rightarrow> dir_connector \<Rightarrow> dir_group \<Rightarrow> binding_action \<Rightarrow> bool" where
  "newly_bound D S connector g a \<longleftrightarrow> binding_for S (dg_ID g) = None \<and> ba_TeamName a \<noteq> []
     \<and> ba_Entitlement a \<in> snd ` set (dc_RoleEntitlements connector)
     \<and> (if ba_Origin a = DirectoryBindingExactName
        then \<not> ba_CreateTeam a \<and> (\<exists>t. team_by_name S (to_lower (ba_TeamName a)) = Some t \<and> ba_TeamID a = dt_ID t
               \<and> dt_Status t = ''active'' \<and> \<not> dt_DirectoryManaged t)
        else ba_Origin a = DirectoryBindingCreated \<and> team_by_name S (to_lower (ba_TeamName a)) = None
          \<and> ba_TeamID a = de_team_id D (dc_ID connector) (''team:'' @ to_lower (ba_TeamName a)))"

definition justified :: "dir_env \<Rightarrow> dir_snapshot \<Rightarrow> dir_connector \<Rightarrow> dir_group \<Rightarrow> binding_action \<Rightarrow> bool" where
  "justified D S connector g a \<longleftrightarrow> ba_GroupID a = dg_ID g \<and> ba_GroupExternalID a = directoryExternalGroupID D g
     \<and> dg_Active g \<and> manual_for S (directoryExternalGroupID D g) = []
     \<and> (continued D S g a \<or> newly_bound D S connector g a)"

definition action_candidates :: "dir_env \<Rightarrow> dir_group \<Rightarrow> binding_action \<Rightarrow> profile_grant list" where
  "action_candidates D g a = group_candidates D g (ba_TeamID a) (ba_GroupExternalID a) (ba_Entitlement a)"

definition mapping_candidates :: "dir_env \<Rightarrow> dir_group \<Rightarrow> sso_mapping \<Rightarrow> profile_grant list" where
  "mapping_candidates D g m = group_candidates D g (sm_TeamID m) (directoryExternalGroupID D g)
     \<lparr>en_Role = sm_Role m, en_Scopes = sm_Scopes m\<rparr>"

text \<open>
  After the groups \<open>gs\<close>: every binding is justified by one of them, and the grants are the merge of the
  candidates of the bindings and of the manual mappings of the active groups.
\<close>

definition plan_inv :: "dir_env \<Rightarrow> dir_snapshot \<Rightarrow> dir_connector \<Rightarrow> dir_group list \<Rightarrow> profile_grant list \<Rightarrow> plan_state \<Rightarrow> bool" where
  "plan_inv D S connector gs cands st \<longleftrightarrow>
     (\<forall>a\<in>set (ps_Bindings st). \<exists>g\<in>set gs. justified D S connector g a)
     \<and> ps_Grants st = foldl add_grant [] cands
     \<and> set cands =
         (\<Union>g\<in>{g \<in> set gs. dg_Active g}. \<Union>m\<in>set (manual_for S (directoryExternalGroupID D g)). set (mapping_candidates D g m))
         \<union> (\<Union>g\<in>set gs. \<Union>a\<in>{a \<in> set (ps_Bindings st). ba_GroupID a = dg_ID g}. set (action_candidates D g a))
     \<and> (\<forall>(name, team)\<in>set (ps_Planned st). team_by_name S name = None
          \<and> team = de_team_id D (dc_ID connector) (''team:'' @ name))
     \<and> ps_NewCreated st = int (length (filter ba_CreateTeam (ps_Bindings st)))
     \<and> (0 < ps_NewCreated st \<longrightarrow> existing_created S + ps_NewCreated st \<le> dc_MaxAutoTeams connector)
     \<and> set (ps_Restore st) \<subseteq> active_created (ps_Bindings st)"

text \<open>A group whose bindings are not in the state yet adds its own candidates.\<close>

definition fresh_group :: "plan_state \<Rightarrow> dir_group \<Rightarrow> bool" where
  "fresh_group st g \<longleftrightarrow> (\<forall>a\<in>set (ps_Bindings st). ba_GroupID a \<noteq> dg_ID g)"

lemma foldl_add_manual:
  "foldl (\<lambda>gs m. addDirectoryGroupGrants D gs g (sm_TeamID m) ext \<lparr>en_Role = sm_Role m, en_Scopes = sm_Scopes m\<rparr>) gs ms
   = foldl add_grant gs (concat (map (\<lambda>m. group_candidates D g (sm_TeamID m) ext \<lparr>en_Role = sm_Role m, en_Scopes = sm_Scopes m\<rparr>) ms))"
  by (induction ms arbitrary: gs) (simp_all add: addDirectoryGroupGrants_def)

lemma plan_inv_same:
  assumes "plan_inv D S connector gs cands st" and "fresh_group st g"
    and "\<not> dg_Active g \<or> manual_for S (directoryExternalGroupID D g) = []"
    and "ps_Bindings st' = ps_Bindings st" and "ps_Grants st' = ps_Grants st" and "ps_Planned st' = ps_Planned st"
    and "ps_NewCreated st' = ps_NewCreated st" and "ps_Restore st' = ps_Restore st"
  shows "plan_inv D S connector (gs @ [g]) cands st'"
proof -
  have none: "{a \<in> set (ps_Bindings st). ba_GroupID a = dg_ID g} = {}" using assms(2) by (auto simp: fresh_group_def)
  have act: "(\<Union>h\<in>{h \<in> set (gs @ [g]). dg_Active h}. \<Union>m\<in>set (manual_for S (directoryExternalGroupID D h)). set (mapping_candidates D h m))
      = (\<Union>h\<in>{h \<in> set gs. dg_Active h}. \<Union>m\<in>set (manual_for S (directoryExternalGroupID D h)). set (mapping_candidates D h m))"
    using assms(3) by auto
  have bind: "(\<Union>h\<in>set (gs @ [g]). \<Union>a\<in>{a \<in> set (ps_Bindings st). ba_GroupID a = dg_ID h}. set (action_candidates D h a))
      = (\<Union>h\<in>set gs. \<Union>a\<in>{a \<in> set (ps_Bindings st). ba_GroupID a = dg_ID h}. set (action_candidates D h a))"
    unfolding set_append UN_Un list.set UN_insert none by simp
  have "\<forall>a\<in>set (ps_Bindings st). \<exists>h\<in>set (gs @ [g]). justified D S connector h a"
    using assms(1) by (auto simp: plan_inv_def)
  then show ?thesis
    using assms(1) unfolding plan_inv_def assms(4-8) act bind by blast
qed

lemma active_created_snoc: "active_created (bs @ [a]) =
    active_created bs \<union> (if ba_Origin a = DirectoryBindingCreated then {ba_TeamID a} else {})"
proof -
  have "{b \<in> set (bs @ [a]). ba_Origin b = DirectoryBindingCreated}
      = {b \<in> set bs. ba_Origin b = DirectoryBindingCreated} \<union> (if ba_Origin a = DirectoryBindingCreated then {a} else {})"
    by auto
  then show ?thesis unfolding active_created_def by (simp split: if_splits)
qed

lemma plan_inv_parts:
  assumes "plan_inv D S connector gs cands st"
  shows "\<forall>a\<in>set (ps_Bindings st). \<exists>g\<in>set gs. justified D S connector g a"
    and "ps_Grants st = foldl add_grant [] cands"
    and "ps_NewCreated st = int (length (filter ba_CreateTeam (ps_Bindings st)))"
    and "0 < ps_NewCreated st \<longrightarrow> existing_created S + ps_NewCreated st \<le> dc_MaxAutoTeams connector"
    and "set (ps_Restore st) \<subseteq> active_created (ps_Bindings st)"
  using assms unfolding plan_inv_def by blast+

lemma plan_inv_bind:
  assumes inv: "plan_inv D S connector gs cands st" and fresh: "fresh_group st g" and old: "\<forall>h\<in>set gs. dg_ID h \<noteq> dg_ID g"
    and just: "justified D S connector g a"
    and bindings: "ps_Bindings st' = ps_Bindings st @ [a]"
    and grants: "ps_Grants st' = addDirectoryGroupGrants D (ps_Grants st) g (ba_TeamID a) (ba_GroupExternalID a) (ba_Entitlement a)"
    and planned: "\<forall>(name, team)\<in>set (ps_Planned st'). team_by_name S name = None
          \<and> team = de_team_id D (dc_ID connector) (''team:'' @ name)"
    and new: "ps_NewCreated st' = ps_NewCreated st + (if ba_CreateTeam a then 1 else 0)"
    and cap: "ba_CreateTeam a \<Longrightarrow> existing_created S + ps_NewCreated st < dc_MaxAutoTeams connector"
    and restore: "set (ps_Restore st') \<subseteq> set (ps_Restore st) \<union> (if ba_Origin a = DirectoryBindingCreated then {ba_TeamID a} else {})"
  shows "plan_inv D S connector (gs @ [g]) (cands @ action_candidates D g a) st'"
proof -
  have act: "(\<Union>h\<in>{h \<in> set (gs @ [g]). dg_Active h}. \<Union>m\<in>set (manual_for S (directoryExternalGroupID D h)). set (mapping_candidates D h m))
      = (\<Union>h\<in>{h \<in> set gs. dg_Active h}. \<Union>m\<in>set (manual_for S (directoryExternalGroupID D h)). set (mapping_candidates D h m))"
    using just by (auto simp: justified_def)
  have gid: "ba_GroupID a = dg_ID g" using just by (simp add: justified_def)
  have oldsets: "{x \<in> set (ps_Bindings st @ [a]). ba_GroupID x = dg_ID h} = {x \<in> set (ps_Bindings st). ba_GroupID x = dg_ID h}"
    if "h \<in> set gs" for h
    using that old gid by auto
  have newset: "{x \<in> set (ps_Bindings st @ [a]). ba_GroupID x = dg_ID g} = {a}"
    using fresh gid by (auto simp: fresh_group_def)
  have bind: "(\<Union>h\<in>set (gs @ [g]). \<Union>x\<in>{x \<in> set (ps_Bindings st @ [a]). ba_GroupID x = dg_ID h}. set (action_candidates D h x))
      = (\<Union>h\<in>set gs. \<Union>x\<in>{x \<in> set (ps_Bindings st). ba_GroupID x = dg_ID h}. set (action_candidates D h x)) \<union> set (action_candidates D g a)"
  proof -
    have "(\<Union>h\<in>set gs. \<Union>x\<in>{x \<in> set (ps_Bindings st @ [a]). ba_GroupID x = dg_ID h}. set (action_candidates D h x))
        = (\<Union>h\<in>set gs. \<Union>x\<in>{x \<in> set (ps_Bindings st). ba_GroupID x = dg_ID h}. set (action_candidates D h x))"
      by (rule SUP_cong) (simp_all only: oldsets)
    then show ?thesis unfolding set_append [of gs] UN_Un list.set UN_insert newset by simp
  qed
  have grants': "ps_Grants st' = foldl add_grant [] (cands @ action_candidates D g a)"
    using plan_inv_parts(2) [OF inv] by (simp add: grants addDirectoryGroupGrants_def action_candidates_def)
  have just': "\<forall>x\<in>set (ps_Bindings st'). \<exists>h\<in>set (gs @ [g]). justified D S connector h x"
    using plan_inv_parts(1) [OF inv] just unfolding bindings by auto
  have count: "ps_NewCreated st' = int (length (filter ba_CreateTeam (ps_Bindings st')))"
    using plan_inv_parts(3) [OF inv] new unfolding bindings by simp
  have capped: "0 < ps_NewCreated st' \<longrightarrow> existing_created S + ps_NewCreated st' \<le> dc_MaxAutoTeams connector"
    using plan_inv_parts(4) [OF inv] new cap by (cases "ba_CreateTeam a") auto
  have rest: "set (ps_Restore st') \<subseteq> active_created (ps_Bindings st')"
    using plan_inv_parts(5) [OF inv] restore unfolding bindings active_created_snoc by blast
  have cands: "set (cands @ action_candidates D g a) =
      (\<Union>h\<in>{h \<in> set (gs @ [g]). dg_Active h}. \<Union>m\<in>set (manual_for S (directoryExternalGroupID D h)). set (mapping_candidates D h m))
      \<union> (\<Union>h\<in>set (gs @ [g]). \<Union>x\<in>{x \<in> set (ps_Bindings st @ [a]). ba_GroupID x = dg_ID h}. set (action_candidates D h x))"
    unfolding act bind set_append [of cands] using inv unfolding plan_inv_def by blast
  show ?thesis
    unfolding plan_inv_def
    by (intro conjI just' grants' planned count capped rest) (rule cands [folded bindings])
qed

lemma plan_inv_manual:
  assumes inv: "plan_inv D S connector gs cands st" and fresh: "fresh_group st g" and active: "dg_Active g"
  shows "plan_inv D S connector (gs @ [g])
     (cands @ concat (map (mapping_candidates D g) (manual_for S (directoryExternalGroupID D g))))
     (manual_group D g (manual_for S (directoryExternalGroupID D g)) st)"
proof -
  let ?ms = "manual_for S (directoryExternalGroupID D g)" and ?st = "manual_group D g (manual_for S (directoryExternalGroupID D g)) st"
  have keep: "ps_Bindings ?st = ps_Bindings st" "ps_Planned ?st = ps_Planned st" "ps_NewCreated ?st = ps_NewCreated st"
    "ps_Restore ?st = ps_Restore st"
    by (simp_all add: manual_group_def Let_def)
  have none: "{a \<in> set (ps_Bindings st). ba_GroupID a = dg_ID g} = {}" using fresh by (auto simp: fresh_group_def)
  have act: "(\<Union>h\<in>{h \<in> set (gs @ [g]). dg_Active h}. \<Union>m\<in>set (manual_for S (directoryExternalGroupID D h)). set (mapping_candidates D h m))
      = (\<Union>h\<in>{h \<in> set gs. dg_Active h}. \<Union>m\<in>set (manual_for S (directoryExternalGroupID D h)). set (mapping_candidates D h m))
        \<union> set (concat (map (mapping_candidates D g) ?ms))"
    using active by auto
  have bind: "(\<Union>h\<in>set (gs @ [g]). \<Union>a\<in>{a \<in> set (ps_Bindings st). ba_GroupID a = dg_ID h}. set (action_candidates D h a))
      = (\<Union>h\<in>set gs. \<Union>a\<in>{a \<in> set (ps_Bindings st). ba_GroupID a = dg_ID h}. set (action_candidates D h a))"
    unfolding set_append UN_Un list.set UN_insert none by simp
  have grants: "ps_Grants ?st = foldl add_grant [] (cands @ concat (map (mapping_candidates D g) ?ms))"
    using inv by (simp add: manual_group_def Let_def foldl_add_manual plan_inv_def mapping_candidates_def [abs_def])
  have "\<forall>a\<in>set (ps_Bindings st). \<exists>h\<in>set (gs @ [g]). justified D S connector h a"
    using inv by (auto simp: plan_inv_def)
  moreover have "set (cands @ concat (map (mapping_candidates D g) ?ms)) =
      (\<Union>h\<in>{h \<in> set (gs @ [g]). dg_Active h}. \<Union>m\<in>set (manual_for S (directoryExternalGroupID D h)). set (mapping_candidates D h m))
      \<union> (\<Union>h\<in>set (gs @ [g]). \<Union>a\<in>{a \<in> set (ps_Bindings st). ba_GroupID a = dg_ID h}. set (action_candidates D h a))"
    unfolding act bind set_append [of cands] using inv unfolding plan_inv_def by blast
  ultimately show ?thesis
    using inv grants unfolding plan_inv_def keep by blast
qed

lemma plan_inv_fresh:
  assumes "plan_inv D S connector gs cands st" and "\<forall>h\<in>set gs. dg_ID h \<noteq> dg_ID g"
  shows "fresh_group st g"
  using plan_inv_parts(1) [OF assms(1)] assms(2) by (fastforce simp: fresh_group_def justified_def)

lemma plan_inv_planned:
  assumes "plan_inv D S connector gs cands st"
  shows "\<forall>(name, team)\<in>set (ps_Planned st). team_by_name S name = None
          \<and> team = de_team_id D (dc_ID connector) (''team:'' @ name)"
  using assms unfolding plan_inv_def by blast

lemma matched_group_inv:
  assumes inv: "plan_inv D S connector gs cands st" and old: "\<forall>h\<in>set gs. dg_ID h \<noteq> dg_ID g" and active: "dg_Active g"
    and manual: "manual_for S (directoryExternalGroupID D g) = []" and unbound: "binding_for S (dg_ID g) = None"
    and name: "teamName \<noteq> []" and e: "e \<in> snd ` set (dc_RoleEntitlements connector)"
  shows "\<exists>cands'. plan_inv D S connector (gs @ [g]) cands' (matched_group D S connector g teamName e st)"
proof -
  let ?key = "to_lower teamName" and ?ext = "directoryExternalGroupID D g"
  note fresh = plan_inv_fresh [OF inv old] and planned = plan_inv_planned [OF inv]
  let ?a = "\<lambda>team create origin. \<lparr>ba_GroupID = dg_ID g, ba_GroupExternalID = ?ext, ba_GroupDisplayName = dg_DisplayName g,
      ba_TeamID = team, ba_TeamName = teamName, ba_CreateTeam = create, ba_Origin = origin, ba_Entitlement = e\<rparr>"
  have issue: "\<exists>cands'. plan_inv D S connector (gs @ [g]) cands' (add_issue D g kind detail st)" for kind detail
    by (rule exI, rule plan_inv_same [OF inv fresh]) (simp_all add: add_issue_def manual)
  have bind: "\<exists>cands'. plan_inv D S connector (gs @ [g]) cands' (bind_new D g teamName e team create origin st2)"
    if "newly_bound D S connector g (?a team create origin)"
      "ps_Bindings st2 = ps_Bindings st" "ps_Grants st2 = ps_Grants st" "ps_Restore st2 = ps_Restore st"
      "\<forall>(name, team)\<in>set (ps_Planned st2). team_by_name S name = None \<and> team = de_team_id D (dc_ID connector) (''team:'' @ name)"
      "ps_NewCreated st2 = ps_NewCreated st + (if create then 1 else 0)"
      "create \<Longrightarrow> existing_created S + ps_NewCreated st < dc_MaxAutoTeams connector" for team create origin st2
  proof -
    have just: "justified D S connector g (?a team create origin)"
      using that(1) active manual by (simp add: justified_def)
    show ?thesis
      by (rule exI, rule plan_inv_bind [OF inv fresh old just]) (use that(2-) in \<open>simp_all add: bind_new_def Let_def\<close>)
  qed
  show ?thesis
  proof (cases "map_of (ps_Planned st) ?key")
    case (Some team)
    then have "team_by_name S ?key = None" "team = de_team_id D (dc_ID connector) (''team:'' @ ?key)"
      using planned map_of_SomeD by fastforce+
    then have "newly_bound D S connector g (?a team False DirectoryBindingCreated)"
      using unbound name e by (simp add: newly_bound_def)
    then show ?thesis using bind [OF _ refl refl refl planned] Some by (simp add: matched_group_def)
  next
    case None
    show ?thesis
    proof (cases "team_by_name S ?key")
      case (Some t)
      show ?thesis
      proof (cases "dt_Status t = ''active'' \<and> \<not> dt_DirectoryManaged t")
        case True
        then have "newly_bound D S connector g (?a (dt_ID t) False DirectoryBindingExactName)"
          using unbound name e Some by (simp add: newly_bound_def)
        then show ?thesis using bind [OF _ refl refl refl planned] None Some True by (simp add: matched_group_def)
      next
        case False
        then show ?thesis using issue None Some by (auto simp: matched_group_def)
      qed
    next
      case no_team: None
      show ?thesis
      proof (cases "dc_MaxAutoTeams connector \<le> existing_created S + ps_NewCreated st")
        case True
        then show ?thesis using issue None no_team by (simp add: matched_group_def)
      next
        case False
        let ?team = "de_team_id D (dc_ID connector) (''team:'' @ ?key)"
        let ?st2 = "st\<lparr>ps_Planned := AList.update ?key ?team (ps_Planned st), ps_NewCreated := ps_NewCreated st + 1\<rparr>"
        have "?key \<notin> fst ` set (ps_Planned st)" using None by (simp add: map_of_eq_None_iff)
        then have pl: "\<forall>(name, team)\<in>set (ps_Planned ?st2). team_by_name S name = None
            \<and> team = de_team_id D (dc_ID connector) (''team:'' @ name)"
          using planned no_team by (simp add: update_new)
        have "newly_bound D S connector g (?a ?team True DirectoryBindingCreated)"
          using unbound name e no_team by (simp add: newly_bound_def)
        then have "\<exists>cands'. plan_inv D S connector (gs @ [g]) cands'
            (bind_new D g teamName e ?team True DirectoryBindingCreated ?st2)"
          by (rule bind [OF _ _ _ _ pl]) (use False in simp_all)
        then show ?thesis using None no_team False by (simp add: matched_group_def Let_def)
      qed
    qed
  qed
qed

lemma plan_group_inv:
  assumes inv: "plan_inv D S connector gs cands st" and old: "\<forall>h\<in>set gs. dg_ID h \<noteq> dg_ID g"
  shows "\<exists>cands'. plan_inv D S connector (gs @ [g]) cands' (plan_group D S connector teamIndex roleIndex g st)"
proof -
  let ?ext = "directoryExternalGroupID D g" and ?m = "de_match D (dc_GroupPattern connector) (dg_DisplayName g)"
  note fresh = plan_inv_fresh [OF inv old]
  consider (inactive) "\<not> dg_Active g" | (manual) "dg_Active g" "manual_for S ?ext \<noteq> []"
    | (bound) b where "dg_Active g" "manual_for S ?ext = []" "binding_for S (dg_ID g) = Some b"
    | (matched) e where "dg_Active g" "manual_for S ?ext = []" "binding_for S (dg_ID g) = None"
        "\<not> (length ?m \<le> roleIndex \<or> length ?m \<le> teamIndex)" "map_of (dc_RoleEntitlements connector) (?m ! roleIndex) = Some e"
        "normalizeDirectoryTeamName (?m ! teamIndex) \<noteq> []"
    | (invalid) detail where "dg_Active g" "manual_for S ?ext = []"
        "plan_group D S connector teamIndex roleIndex g st = add_issue D g IssueInvalidGroup detail st"
    by (cases "dg_Active g"; cases "manual_for S ?ext = []"; cases "binding_for S (dg_ID g)";
        cases "length ?m \<le> roleIndex \<or> length ?m \<le> teamIndex"; cases "map_of (dc_RoleEntitlements connector) (?m ! roleIndex)";
        cases "normalizeDirectoryTeamName (?m ! teamIndex) = []")
      (simp_all add: plan_group_def Let_def)
  then show ?thesis
  proof cases
    case inactive
    have "plan_inv D S connector (gs @ [g]) cands (inactive_group D S g st)"
      using inactive by (intro plan_inv_same [OF inv fresh]) (simp_all add: inactive_group_def split: option.split)
    with inactive show ?thesis by (auto simp: plan_group_def)
  next
    case manual
    with plan_inv_manual [OF inv fresh] show ?thesis by (auto simp: plan_group_def Let_def)
  next
    case (bound b)
    let ?a = "\<lparr>ba_GroupID = dg_ID g, ba_GroupExternalID = ?ext, ba_GroupDisplayName = dg_DisplayName g,
        ba_TeamID = db_TeamID b, ba_TeamName = (case team_by_id S (db_TeamID b) of Some t \<Rightarrow> dt_Name t | None \<Rightarrow> []),
        ba_CreateTeam = False, ba_Origin = db_Origin b, ba_Entitlement = \<lparr>en_Role = db_Role b, en_Scopes = db_Scopes b\<rparr>\<rparr>"
    have just: "justified D S connector g ?a" using bound by (simp add: justified_def continued_def)
    have "plan_inv D S connector (gs @ [g]) (cands @ action_candidates D g ?a) (bound_group D S g b st)"
      using plan_inv_planned [OF inv]
      by (intro plan_inv_bind [OF inv fresh old just]) (auto simp: bound_group_def Let_def split: option.split)
    with bound show ?thesis by (auto simp: plan_group_def Let_def)
  next
    case (matched e)
    then have "e \<in> snd ` set (dc_RoleEntitlements connector)" by (metis image_eqI map_of_SomeD snd_conv)
    then show ?thesis using matched_group_inv [OF inv old] matched by (simp add: plan_group_def Let_def)
  next
    case (invalid detail)
    then have "plan_inv D S connector (gs @ [g]) cands (add_issue D g IssueInvalidGroup detail st)"
      by (intro plan_inv_same [OF inv fresh]) (simp_all add: add_issue_def)
    with invalid show ?thesis by auto
  qed
qed

lemma plan_groups_inv:
  assumes "distinct (map dg_ID gs)"
  shows "\<exists>cands. plan_inv D S connector gs cands
     (foldl (\<lambda>st g. plan_group D S connector teamIndex roleIndex g st) initial_plan gs)"
  using assms
proof (induction gs rule: rev_induct)
  case Nil
  show ?case by (rule exI [of _ "[]"]) (simp add: plan_inv_def initial_plan_def active_created_def)
next
  case (snoc g gs)
  then obtain cands where inv: "plan_inv D S connector gs cands
      (foldl (\<lambda>st g. plan_group D S connector teamIndex roleIndex g st) initial_plan gs)" by auto
  have "\<forall>h\<in>set gs. dg_ID h \<noteq> dg_ID g" using snoc.prems by (simp add: image_iff) metis
  from plan_group_inv [OF inv this] show ?case by simp
qed

section \<open>Properties of the plan\<close>

text \<open>
  What entitles an identity to a team under a plan: membership, as an active user with an identity, of an
  active group that a manual mapping or else a binding of the plan ties to the team.
\<close>

definition entitles :: "dir_env \<Rightarrow> dir_snapshot \<Rightarrow> dir_plan \<Rightarrow> uuid \<times> uuid \<Rightarrow> entitlement \<Rightarrow> bool" where
  "entitles D S plan k e \<longleftrightarrow> (\<exists>g\<in>set (sn_Groups S). dg_Active g
     \<and> (\<exists>u\<in>set (dg_Members g). du_Active u \<and> du_IdentityID u \<noteq> uuid_nil \<and> du_IdentityID u = fst k)
     \<and> ((\<exists>m\<in>set (manual_for S (directoryExternalGroupID D g)). sm_TeamID m = snd k
            \<and> e = \<lparr>en_Role = sm_Role m, en_Scopes = sm_Scopes m\<rparr>)
        \<or> (\<exists>a\<in>set (dp_Bindings plan). ba_GroupID a = dg_ID g \<and> ba_TeamID a = snd k \<and> e = ba_Entitlement a)))"

definition stored_normal :: "dir_snapshot \<Rightarrow> bool" where
  "stored_normal S \<longleftrightarrow> list_all (\<lambda>b. en_normal \<lparr>en_Role = db_Role b, en_Scopes = db_Scopes b\<rparr>) (sn_Bindings S)
     \<and> list_all (\<lambda>m. en_normal \<lparr>en_Role = sm_Role m, en_Scopes = sm_Scopes m\<rparr>) (sn_ManualMappings S)"

lemma last_with_in: "last_with key k xs = Some x \<Longrightarrow> x \<in> set xs \<and> key x = k"
  by (auto simp: last_with_def find_Some_iff) (metis nth_mem set_rev length_rev)

lemma build_plan:
  assumes "buildDirectoryReconcilePlan D S = Inr plan"
  obtains connector teamIndex roleIndex where "normalizeDirectoryConnector D (Some (sn_Connector S)) = Inr connector"
    and "plan = finish_plan D S connector (plan_groups D S connector teamIndex roleIndex)"
  using assms by (auto simp: buildDirectoryReconcilePlan_def Let_def split: sum.splits option.splits if_splits)

lemma normalized_connector:
  assumes "normalizeDirectoryConnector D (Some c) = Inr c'"
  shows "list_all entitlement_ok (dc_RoleEntitlements c') \<and> 1 \<le> dc_MaxAutoTeams c' \<and> dc_MaxAutoTeams c' \<le> 1000
    \<and> dc_MaxAutoTeams c' = (if dc_MaxAutoTeams c = 0 then DefaultDirectoryMaxAutoTeams else dc_MaxAutoTeams c)
    \<and> dc_ID c' = dc_ID c"
proof -
  obtain es where es: "normalizeDirectoryRoleEntitlements (dc_RoleEntitlements c) = Inr es"
    and c': "dc_RoleEntitlements c' = es" "dc_ID c' = dc_ID c"
      "dc_MaxAutoTeams c' = (if dc_MaxAutoTeams c = 0 then DefaultDirectoryMaxAutoTeams else dc_MaxAutoTeams c)"
    and range: "\<not> (dc_MaxAutoTeams c' < 1 \<or> 1000 < dc_MaxAutoTeams c')"
    using assms by (auto simp: normalizeDirectoryConnector_def Let_def split: if_splits option.splits sum.splits)
  have "list_all entitlement_ok es"
    using es normalize_entitlements_loop_ok [of "dc_RoleEntitlements c" _ "[]" es]
    by (auto simp: normalizeDirectoryRoleEntitlements_def split: if_splits)
  then show ?thesis using c' range by simp
qed

lemma group_candidates_iff:
  "c \<in> set (group_candidates D g team ext e) \<longleftrightarrow>
     (\<exists>u\<in>set (dg_Members g). du_Active u \<and> du_IdentityID u \<noteq> uuid_nil \<and>
       c = \<lparr>pg_IdentityID = du_IdentityID u, pg_TeamID = team,
            pg_Subject = (if du_ExternalID u = [] then ''scim:'' @ de_uuid_string D (du_ID u) else du_ExternalID u),
            pg_Email = du_Email u, pg_DisplayName = du_DisplayName u, pg_GroupExternalID = ext, pg_Entitlement = e\<rparr>)"
  by (auto simp: group_candidates_def)

lemma group_candidates_keys:
  "(\<exists>c\<in>set (group_candidates D g team ext e'). grant_key c = k \<and> pg_Entitlement c = e) \<longleftrightarrow>
     e' = e \<and> team = snd k \<and> (\<exists>u\<in>set (dg_Members g). du_Active u \<and> du_IdentityID u \<noteq> uuid_nil \<and> du_IdentityID u = fst k)"
  by (cases k) (force simp: group_candidates_def grant_key_def)

text \<open>The candidates of the invariant are what the plan entitles to.\<close>

lemma candidates_entitle:
  assumes inv: "plan_inv D S connector (sn_Groups S) cands (plan_groups D S connector teamIndex roleIndex)"
    and plan: "plan = finish_plan D S connector (plan_groups D S connector teamIndex roleIndex)"
    and unique: "distinct (map dg_ID (sn_Groups S))"
  shows "(\<exists>c\<in>set cands. grant_key c = k \<and> pg_Entitlement c = e) \<longleftrightarrow> entitles D S plan k e"
proof -
  let ?st = "plan_groups D S connector teamIndex roleIndex"
  have bs: "dp_Bindings plan = ps_Bindings ?st" by (simp add: plan finish_plan_def)
  have cands: "set cands =
      (\<Union>g\<in>{g \<in> set (sn_Groups S). dg_Active g}. \<Union>m\<in>set (manual_for S (directoryExternalGroupID D g)). set (mapping_candidates D g m))
      \<union> (\<Union>g\<in>set (sn_Groups S). \<Union>a\<in>{a \<in> set (ps_Bindings ?st). ba_GroupID a = dg_ID g}. set (action_candidates D g a))"
    using inv unfolding plan_inv_def by blast
  have act: "dg_Active g" if g: "g \<in> set (sn_Groups S)" and a: "a \<in> set (ps_Bindings ?st)" and eq: "ba_GroupID a = dg_ID g" for g a
  proof -
    obtain h where "h \<in> set (sn_Groups S)" "justified D S connector h a" using plan_inv_parts(1) [OF inv] a by blast
    then have "dg_ID h = dg_ID g" "dg_Active h" using eq by (simp_all add: justified_def)
    then show ?thesis using unique \<open>h \<in> set (sn_Groups S)\<close> g by (metis distinct_map inj_onD)
  qed
  have "(\<exists>c\<in>set cands. grant_key c = k \<and> pg_Entitlement c = e) \<longleftrightarrow>
      (\<exists>g\<in>{g \<in> set (sn_Groups S). dg_Active g}. \<exists>m\<in>set (manual_for S (directoryExternalGroupID D g)).
         \<exists>c\<in>set (mapping_candidates D g m). grant_key c = k \<and> pg_Entitlement c = e)
      \<or> (\<exists>g\<in>set (sn_Groups S). \<exists>a\<in>{a \<in> set (ps_Bindings ?st). ba_GroupID a = dg_ID g}.
         \<exists>c\<in>set (action_candidates D g a). grant_key c = k \<and> pg_Entitlement c = e)"
    unfolding cands by blast
  also have "\<dots> \<longleftrightarrow> entitles D S plan k e"
    unfolding entitles_def bs mapping_candidates_def action_candidates_def group_candidates_keys using act by blast
  finally show ?thesis .
qed

lemma directoryProfileGrants_mem:
  assumes "distinct (map fst gs)" and "\<forall>k g. map_of gs k = Some g \<longrightarrow> grant_key g = k"
  shows "G \<in> set (directoryProfileGrants D gs) \<longleftrightarrow> map_of gs (grant_key G) = Some G"
proof -
  have "G \<in> set (directoryProfileGrants D gs) \<longleftrightarrow> (\<exists>k. (k, G) \<in> set gs)"
    by (force simp: directoryProfileGrants_def)
  also have "\<dots> \<longleftrightarrow> (\<exists>k. map_of gs k = Some G)" using assms(1) by simp
  also have "\<dots> \<longleftrightarrow> map_of gs (grant_key G) = Some G" using assms(2) by metis
  finally show ?thesis .
qed

lemma built_inv:
  assumes "buildDirectoryReconcilePlan D S = Inr plan" and "distinct (map dg_ID (sn_Groups S))"
  obtains connector teamIndex roleIndex cands where "normalizeDirectoryConnector D (Some (sn_Connector S)) = Inr connector"
    and "plan = finish_plan D S connector (plan_groups D S connector teamIndex roleIndex)"
    and "plan_inv D S connector (sn_Groups S) cands (plan_groups D S connector teamIndex roleIndex)"
  using build_plan [OF assms(1)] plan_groups_inv [OF assms(2)] unfolding plan_groups_def by metis

lemma justified_normal:
  assumes "justified D S connector g a" and "stored_normal S" and "list_all entitlement_ok (dc_RoleEntitlements connector)"
  shows "en_normal (ba_Entitlement a)"
proof -
  consider (old) b where "binding_for S (dg_ID g) = Some b" "ba_Entitlement a = \<lparr>en_Role = db_Role b, en_Scopes = db_Scopes b\<rparr>"
    | (new) "ba_Entitlement a \<in> snd ` set (dc_RoleEntitlements connector)"
    using assms(1) by (auto simp: justified_def continued_def newly_bound_def)
  then show ?thesis
  proof cases
    case (old b)
    then have "b \<in> set (sn_Bindings S)" using last_with_in by (fastforce simp: binding_for_def)
    with old assms(2) show ?thesis by (simp add: stored_normal_def list_all_iff)
  next
    case new
    then obtain capture where "(capture, ba_Entitlement a) \<in> set (dc_RoleEntitlements connector)" by auto
    with assms(3) show ?thesis using entitlement_ok_normal by (auto simp: list_all_iff)
  qed
qed

text \<open>
  (directory_bindings_justified): every binding of a plan belongs to an active group without a manual
  mapping. It repeats the stored binding of the group, or it is new: then its entitlement is a normalized
  one of the connector, and its team is either an active team that no directory manages and whose name
  the group captured, or a team of the connector's own for a name that no team has. No team is both
  archived and restored, and no archived team is still bound as created.
\<close>

theorem directory_bindings_justified:
  assumes "buildDirectoryReconcilePlan D S = Inr plan" and "distinct (map dg_ID (sn_Groups S))"
  shows "\<exists>connector. normalizeDirectoryConnector D (Some (sn_Connector S)) = Inr connector
    \<and> list_all entitlement_ok (dc_RoleEntitlements connector)
    \<and> (\<forall>a\<in>set (dp_Bindings plan). \<exists>g\<in>set (sn_Groups S). justified D S connector g a)
    \<and> set (dp_ArchiveDirectoryTeamIDs plan) \<inter> set (dp_RestoreDirectoryTeamIDs plan) = {}
    \<and> set (dp_ArchiveDirectoryTeamIDs plan) \<inter> active_created (dp_Bindings plan) = {}"
proof -
  obtain connector teamIndex roleIndex cands where c: "normalizeDirectoryConnector D (Some (sn_Connector S)) = Inr connector"
    and plan: "plan = finish_plan D S connector (plan_groups D S connector teamIndex roleIndex)"
    and inv: "plan_inv D S connector (sn_Groups S) cands (plan_groups D S connector teamIndex roleIndex)"
    using built_inv [OF assms] by blast
  have "set (dp_RestoreDirectoryTeamIDs plan) \<subseteq> active_created (dp_Bindings plan)"
    using plan_inv_parts(5) [OF inv] by (auto simp: plan finish_plan_def uniqueDirectoryIdentityIDs_def)
  moreover have "set (dp_ArchiveDirectoryTeamIDs plan) \<inter> active_created (dp_Bindings plan) = {}"
    by (auto simp: plan finish_plan_def)
  moreover have "\<forall>a\<in>set (dp_Bindings plan). \<exists>g\<in>set (sn_Groups S). justified D S connector g a"
    using plan_inv_parts(1) [OF inv] by (simp add: plan finish_plan_def)
  ultimately show ?thesis using c normalized_connector [OF c] by blast
qed

text \<open>
  (directory_auto_team_cap): a plan that creates teams keeps the number of teams the connector created
  within its limit, which is 100 by default and never more than 1000.
\<close>

theorem directory_auto_team_cap:
  assumes "buildDirectoryReconcilePlan D S = Inr plan" and "distinct (map dg_ID (sn_Groups S))"
    and "\<exists>a\<in>set (dp_Bindings plan). ba_CreateTeam a"
  shows "existing_created S + int (length (filter ba_CreateTeam (dp_Bindings plan)))
      \<le> (if dc_MaxAutoTeams (sn_Connector S) = 0 then DefaultDirectoryMaxAutoTeams else dc_MaxAutoTeams (sn_Connector S))
    \<and> existing_created S + int (length (filter ba_CreateTeam (dp_Bindings plan))) \<le> 1000"
proof -
  obtain connector teamIndex roleIndex cands where c: "normalizeDirectoryConnector D (Some (sn_Connector S)) = Inr connector"
    and plan: "plan = finish_plan D S connector (plan_groups D S connector teamIndex roleIndex)"
    and inv: "plan_inv D S connector (sn_Groups S) cands (plan_groups D S connector teamIndex roleIndex)"
    using built_inv [OF assms(1,2)] by blast
  have bs: "dp_Bindings plan = ps_Bindings (plan_groups D S connector teamIndex roleIndex)" by (simp add: plan finish_plan_def)
  have "filter ba_CreateTeam (dp_Bindings plan) \<noteq> []" using assms(3) by (simp add: filter_empty_conv)
  then have "existing_created S + int (length (filter ba_CreateTeam (dp_Bindings plan))) \<le> dc_MaxAutoTeams connector"
    using plan_inv_parts(3,4) [OF inv] by (simp add: bs)
  then show ?thesis using normalized_connector [OF c] by auto
qed

lemma candidates_normal:
  assumes inv: "plan_inv D S connector (sn_Groups S) cands (plan_groups D S connector teamIndex roleIndex)"
    and plan: "plan = finish_plan D S connector (plan_groups D S connector teamIndex roleIndex)"
    and "distinct (map dg_ID (sn_Groups S))" and "stored_normal S"
    and "normalizeDirectoryConnector D (Some (sn_Connector S)) = Inr connector"
  shows "\<forall>x\<in>set cands. en_normal (pg_Entitlement x)"
proof
  fix x assume "x \<in> set cands"
  then have "entitles D S plan (grant_key x) (pg_Entitlement x)"
    using candidates_entitle [OF inv plan assms(3)] by blast
  moreover have "\<forall>a\<in>set (dp_Bindings plan). en_normal (ba_Entitlement a)"
    using plan_inv_parts(1) [OF inv] justified_normal [OF _ assms(4)] normalized_connector [OF assms(5)]
    by (fastforce simp: plan finish_plan_def)
  ultimately show "en_normal (pg_Entitlement x)"
    using assms(4) by (auto simp: entitles_def manual_for_def stored_normal_def list_all_iff)
qed

text \<open>
  C27 (directory_grants_exact): the grants of a plan are exactly what it entitles to: an identity has one grant
  for a team when some active group with that member is tied to the team, and none otherwise; the grant
  is a manager's exactly when one of these ties is, and its scopes are all the scopes of these ties.
\<close>

theorem directory_grants_exact:
  assumes "buildDirectoryReconcilePlan D S = Inr plan" and "distinct (map dg_ID (sn_Groups S))" and "stored_normal S"
  shows "((\<exists>G\<in>set (dp_ProfileGrants plan). grant_key G = k) \<longleftrightarrow> (\<exists>e. entitles D S plan k e))
    \<and> (\<forall>G\<in>set (dp_ProfileGrants plan). grant_key G = k \<longrightarrow>
         (en_Role (pg_Entitlement G) = role_manager \<longleftrightarrow> (\<exists>e. entitles D S plan k e \<and> en_Role e = role_manager))
         \<and> set (en_Scopes (pg_Entitlement G)) = \<Union> {set (en_Scopes e) | e. entitles D S plan k e}
         \<and> (\<forall>H\<in>set (dp_ProfileGrants plan). grant_key H = k \<longrightarrow> H = G))"
proof -
  obtain connector teamIndex roleIndex cands where c: "normalizeDirectoryConnector D (Some (sn_Connector S)) = Inr connector"
    and plan: "plan = finish_plan D S connector (plan_groups D S connector teamIndex roleIndex)"
    and inv: "plan_inv D S connector (sn_Groups S) cands (plan_groups D S connector teamIndex roleIndex)"
    using built_inv [OF assms(1,2)] by blast
  have source: "(\<exists>x\<in>set cands. grant_key x = k \<and> pg_Entitlement x = e) \<longleftrightarrow> entitles D S plan k e" for k e
    by (rule candidates_entitle [OF inv plan assms(2)])
  note normal = candidates_normal [OF inv plan assms(2,3) c]
  let ?gs = "foldl add_grant [] cands"
  have merged: "merged_of cands k (map_of ?gs k)" "distinct (map fst ?gs)" for k using foldl_add_grant [OF normal] by blast+
  have keys: "\<forall>k g. map_of ?gs k = Some g \<longrightarrow> grant_key g = k"
    using merged(1) by (fastforce simp: merged_of_def split: option.splits)
  have mem: "G \<in> set (dp_ProfileGrants plan) \<longleftrightarrow> map_of ?gs (grant_key G) = Some G" for G
    using directoryProfileGrants_mem [OF merged(2) keys] plan_inv_parts(2) [OF inv] by (simp add: plan finish_plan_def)
  show ?thesis
  proof (cases "map_of ?gs k")
    case None
    then have "\<nexists>G. G \<in> set (dp_ProfileGrants plan) \<and> grant_key G = k" using mem by auto
    moreover have "\<nexists>e. entitles D S plan k e"
      unfolding source [symmetric] using merged(1) [of k] None by (simp add: merged_of_def)
    ultimately show ?thesis by blast
  next
    case (Some G)
    have G: "grant_key G = k" "\<exists>x\<in>set cands. grant_key x = k"
      "set (en_Scopes (pg_Entitlement G)) = (\<Union>x\<in>{x \<in> set cands. grant_key x = k}. set (en_Scopes (pg_Entitlement x)))"
      "en_Role (pg_Entitlement G) = role_manager \<longleftrightarrow> (\<exists>x\<in>set cands. grant_key x = k \<and> en_Role (pg_Entitlement x) = role_manager)"
      using merged(1) [of k] Some by (simp_all add: merged_of_def)
    have only: "H = G" if "H \<in> set (dp_ProfileGrants plan)" "grant_key H = k" for H using mem that Some by simp
    have here: "G \<in> set (dp_ProfileGrants plan)" using mem G(1) Some by simp
    have scopes: "set (en_Scopes (pg_Entitlement G)) = \<Union> {set (en_Scopes e) | e. entitles D S plan k e}"
      unfolding G(3) source [symmetric] by blast
    have role: "en_Role (pg_Entitlement G) = role_manager \<longleftrightarrow> (\<exists>e. entitles D S plan k e \<and> en_Role e = role_manager)"
      unfolding G(4) source [symmetric] by blast
    have some: "\<exists>e. entitles D S plan k e" unfolding source [symmetric] using G(2) by blast
    show ?thesis using here only scopes role some G(1) by blast
  qed
qed

section \<open>Witnesses\<close>

text \<open>One connector, one active group that matches, one member with an identity.\<close>

definition sample_dir :: dir_env where
  "sample_dir = \<lparr>de_compile = (\<lambda>p. Some [[], ''team'', ''role'']),
     de_match = (\<lambda>p s. if s = ''dm-eng-member'' then [s, ''eng'', ''member''] else []),
     de_team_id = (\<lambda>c k. 99), de_uuid_string = (\<lambda>u. ''id'')\<rparr>"

definition sample_connector :: dir_connector where
  "sample_connector = \<lparr>dc_ID = 1, dc_ProviderID = 2, dc_Status = ''active'', dc_GroupPattern = ''^dm$'',
     dc_RoleEntitlements = [(''member'', \<lparr>en_Role = ''member'', en_Scopes = [''read'']\<rparr>)], dc_MaxAutoTeams = 0,
     dc_ReconcileVersion = 3\<rparr>"

definition sample_snapshot :: dir_snapshot where
  "sample_snapshot = \<lparr>sn_Connector = sample_connector,
     sn_Groups = [\<lparr>dg_ID = 10, dg_ExternalID = ''g10'', dg_DisplayName = ''dm-eng-member'', dg_Active = True,
       dg_Members = [\<lparr>du_ID = 20, du_ExternalID = ''u20'', du_UserName = ''u'', du_Email = ''e'', du_DisplayName = ''U'',
                      du_Active = True, du_IdentityID = 30\<rparr>]\<rparr>],
     sn_Users = [], sn_Bindings = [], sn_ManualMappings = [], sn_Teams = []\<rparr>"

definition sample_normalized :: dir_connector where
  "sample_normalized = sample_connector\<lparr>dc_RoleEntitlements := [(''member'', \<lparr>en_Role = role_member, en_Scopes = [scope_read]\<rparr>)],
     dc_MaxAutoTeams := 100\<rparr>"

lemma sample_normalizes: "normalizeDirectoryConnector sample_dir (Some sample_connector) = Inr sample_normalized"
proof -
  have words: "trim_space ''member'' = ''member''" "lower_trim ''member'' = ''member''" "lower_trim ''read'' = ''read''"
    "trim_space ''^dm$'' = ''^dm$''" "to_lower ''member'' = ''member''"
    by (simp_all add: go_string_eval)
  have ent: "normalizeDirectoryRoleEntitlements [(''member'', \<lparr>en_Role = ''member'', en_Scopes = [''read'']\<rparr>)]
      = Inr [(''member'', \<lparr>en_Role = role_member, en_Scopes = [scope_read]\<rparr>)]"
    by (simp add: normalizeDirectoryRoleEntitlements_def sorted_keys_def normalize_entitlement_def words
        NormalizeCredentialRole_def NormalizeCredentialScopes_def role_member_def role_manager_def scope_read_def
        scope_write_def scope_feedback_def equal_fold_ascii_def ascii_to_lower_def byte_of_def Let_def)
  show ?thesis
    by (simp add: normalizeDirectoryConnector_def sample_connector_def sample_normalized_def sample_dir_def words ent
        DirectoryConnectorActive_def DirectoryConnectorObserve_def DirectoryConnectorDisabled_def suffix_def
        namedSubexpressionCount_def DefaultDirectoryMaxAutoTeams_def Let_def)
qed

lemma split_fields_word:
  "\<forall>c\<in>set s. ascii_word c \<Longrightarrow> split_fields cur s = (if rev cur @ s = [] then [] else [rev cur @ s])"
proof (induction s arbitrary: cur)
  case Nil
  then show ?case by (simp add: split_fields.simps)
next
  case (Cons c cs)
  have "find (\<lambda>p. p \<noteq> [] \<and> prefix p (c # cs)) space_seqs = None"
    unfolding find_None_iff using Cons.prems by (auto simp: prefix_Cons dest: space_seqs_not_word)
  with Cons show ?case by (subst split_fields.simps) simp
qed

lemma sample_team_name: "normalizeDirectoryTeamName ''eng'' = ''eng''" "to_lower ''eng'' = ''eng''"
proof -
  have "split_fields [] ''eng'' = [''eng'']"
    using split_fields_word [of "''eng''" "[]"] by (simp add: ascii_word_def byte_of_def)
  then show "normalizeDirectoryTeamName ''eng'' = ''eng''"
    by (simp add: normalizeDirectoryTeamName_def go_string_eval)
qed (simp add: go_string_eval)

lemma sample_fields:
  "sn_Connector sample_snapshot = sample_connector" "de_compile sample_dir p = Some [[], ''team'', ''role'']"
  "subexp_index [[], ''team'', ''role''] ''team'' = 1" "subexp_index [[], ''team'', ''role''] ''role'' = 2"
  by (simp_all add: sample_snapshot_def sample_dir_def subexp_index_def)

lemma sample_plan:
  "buildDirectoryReconcilePlan sample_dir sample_snapshot
     = Inr (finish_plan sample_dir sample_snapshot sample_normalized (plan_groups sample_dir sample_snapshot sample_normalized 1 2))"
  by (simp add: buildDirectoryReconcilePlan_def sample_fields sample_normalizes Let_def)

lemma sample_state:
  "map ba_CreateTeam (ps_Bindings (plan_groups sample_dir sample_snapshot sample_normalized 1 2)) = [True]"
proof -
  have "plan_groups sample_dir sample_snapshot sample_normalized 1 2
      = plan_group sample_dir sample_snapshot sample_normalized 1 2 (hd (sn_Groups sample_snapshot)) initial_plan"
    by (simp add: plan_groups_def sample_snapshot_def)
  then show ?thesis
    by (simp add: plan_group_def matched_group_def bind_new_def manual_for_def binding_for_def team_by_name_def last_with_def
        existing_created_def initial_plan_def sample_snapshot_def sample_dir_def sample_normalized_def sample_connector_def
        sample_team_name directoryExternalGroupID_def Let_def go_string_eval)
qed

lemma sample_unique: "distinct (map dg_ID (sn_Groups sample_snapshot))" "stored_normal sample_snapshot"
  by (simp_all add: sample_snapshot_def stored_normal_def)

theorem directory_bindings_justified_witness:
  "\<exists>plan. buildDirectoryReconcilePlan sample_dir sample_snapshot = Inr plan
     \<and> set (dp_ArchiveDirectoryTeamIDs plan) \<inter> set (dp_RestoreDirectoryTeamIDs plan) = {}"
  using directory_bindings_justified [OF sample_plan sample_unique(1)] sample_plan by blast

theorem directory_auto_team_cap_witness:
  "\<exists>plan. buildDirectoryReconcilePlan sample_dir sample_snapshot = Inr plan
     \<and> existing_created sample_snapshot + int (length (filter ba_CreateTeam (dp_Bindings plan))) \<le> 100"
proof -
  let ?plan = "finish_plan sample_dir sample_snapshot sample_normalized (plan_groups sample_dir sample_snapshot sample_normalized 1 2)"
  have "\<exists>a\<in>set (dp_Bindings ?plan). ba_CreateTeam a"
    using sample_state by (auto simp: finish_plan_def)
  from directory_auto_team_cap [OF sample_plan sample_unique(1) this] sample_plan show ?thesis
    by (simp add: sample_snapshot_def sample_connector_def DefaultDirectoryMaxAutoTeams_def)
qed

theorem directory_grants_exact_witness:
  "\<exists>plan. buildDirectoryReconcilePlan sample_dir sample_snapshot = Inr plan
     \<and> ((\<exists>G\<in>set (dp_ProfileGrants plan). grant_key G = (30, 99)) \<longleftrightarrow> (\<exists>e. entitles sample_dir sample_snapshot plan (30, 99) e))"
  using directory_grants_exact [OF sample_plan sample_unique, of "(30, 99)"] sample_plan by blast

end
