(* ===== verification/Conflict_Policy.thy ===== *)
theory Conflict_Policy
  imports Domain_Contract
begin

text \<open>
  The deterministic part of conflict handling: the supporter-majority evaluation of a relationship
  conflict (\<open>domain/conflict_policy.go\<close>), the last-write-wins fallback of an overdue conflict
  (\<open>domain/conflict_overdue_resolution.go\<close>), the view of a conflict case as it was known at an
  earlier time (\<open>conflict/contract/temporal.go\<close>), and the closed labels and the cursor scope of the
  conflict queue (\<open>domain/conflict_queue.go\<close>).
\<close>

section \<open>Records\<close>

record conflict_supporter =
  sup_ProfileID :: string
  sup_ProfileName :: string
  sup_StrongestAuthority :: string
  sup_EvidenceID :: string
  sup_AcceptedAt :: time

record conflict_position =
  pos_ConflictID :: string
  pos_PositionID :: string
  pos_PositionKey :: string
  pos_PositionCount :: int
  pos_Disposition :: string
  pos_ObjectEntityID :: string
  pos_ObjectValueID :: string
  pos_SupporterCount :: int
  pos_SupportersTruncated :: bool
  pos_PositionsTruncated :: bool
  pos_Supporters :: "conflict_supporter list"
  pos_RelationshipIDs :: "string list"
  pos_OwnerProfileIDs :: "string list"
  pos_EvidenceIDs :: "string list"
  pos_EffectiveAt :: "time option"
  pos_EffectiveTimeBasis :: string
  pos_RecordedFallback :: bool

record conflict_evaluation_input =
  evin_Now :: time
  evin_ReviewDueAt :: time
  evin_Positions :: "conflict_position list"

record conflict_evaluation =
  ev_Outcome :: string
  ev_Stage :: string
  ev_PreferredPositionID :: string
  ev_Reason :: string
  ev_EffectiveAt :: "time option"
  ev_EffectiveTimeBasis :: string
  ev_TotalSupporterCount :: int

text \<open>A struct literal that names some fields starts from the zero value.\<close>

definition zero_evaluation :: conflict_evaluation where
  "zero_evaluation = \<lparr>ev_Outcome = [], ev_Stage = [], ev_PreferredPositionID = [], ev_Reason = [],
     ev_EffectiveAt = None, ev_EffectiveTimeBasis = [], ev_TotalSupporterCount = 0\<rparr>"

datatype ConflictReviewOutcome = ConflictReviewOutcomeResolve | ConflictReviewOutcomeOverdue | ConflictReviewOutcomeNoop

primrec conflict_review_outcome_str :: "ConflictReviewOutcome \<Rightarrow> string" where
  "conflict_review_outcome_str ConflictReviewOutcomeResolve = ''resolve''"
| "conflict_review_outcome_str ConflictReviewOutcomeOverdue = ''overdue''"
| "conflict_review_outcome_str ConflictReviewOutcomeNoop = ''no_op''"

datatype ConflictReviewStage = ConflictReviewStageDueMajority | ConflictReviewStageDueNoWinner
  | ConflictReviewStageWaitingForReviewDue | ConflictReviewStageDismissedNoConflict

primrec conflict_review_stage_str :: "ConflictReviewStage \<Rightarrow> string" where
  "conflict_review_stage_str ConflictReviewStageDueMajority = ''due_supporter_majority''"
| "conflict_review_stage_str ConflictReviewStageDueNoWinner = ''due_no_winner''"
| "conflict_review_stage_str ConflictReviewStageWaitingForReviewDue = ''waiting_for_review_due''"
| "conflict_review_stage_str ConflictReviewStageDismissedNoConflict = ''dismissed_no_active_conflict''"

datatype ConflictReviewReason = ConflictReviewReasonFewerThanTwoPositions
  | ConflictReviewReasonDueMajoritySupport | ConflictReviewReasonReviewDueWithoutDeterministicWin
  | ConflictReviewReasonReviewDueNotReached | ConflictReviewReasonActiveConflictNoLongerExists

primrec conflict_review_reason_str :: "ConflictReviewReason \<Rightarrow> string" where
  "conflict_review_reason_str ConflictReviewReasonFewerThanTwoPositions = ''fewer_than_two_positions''"
| "conflict_review_reason_str ConflictReviewReasonDueMajoritySupport = ''due_supporter_majority''"
| "conflict_review_reason_str ConflictReviewReasonReviewDueWithoutDeterministicWin =
     ''review_due_without_deterministic_winner''"
| "conflict_review_reason_str ConflictReviewReasonReviewDueNotReached = ''review_due_not_reached''"
| "conflict_review_reason_str ConflictReviewReasonActiveConflictNoLongerExists =
     ''active_conflict_no_longer_exists''"

section \<open>Supporter majority\<close>

definition normalize_position :: "conflict_position \<Rightarrow> conflict_position" where
  "normalize_position p =
     p\<lparr>pos_PositionID := trim_space (pos_PositionID p),
       pos_PositionKey := trim_space (pos_PositionKey p),
       pos_EffectiveTimeBasis := trim_space (pos_EffectiveTimeBasis p),
       pos_SupporterCount := (if pos_SupporterCount p < 0 then 0 else pos_SupporterCount p)\<rparr>"

definition normalizedConflictPolicyPositions :: "conflict_position list \<Rightarrow> conflict_position list" where
  "normalizedConflictPolicyPositions ps =
     map normalize_position (filter (\<lambda>p. trim_space (pos_PositionID p) \<noteq> []) ps)"

definition position_less :: "conflict_position \<Rightarrow> conflict_position \<Rightarrow> bool" where
  "position_less p q =
     (if pos_SupporterCount p \<noteq> pos_SupporterCount q
      then pos_SupporterCount p > pos_SupporterCount q
      else pos_PositionID p < pos_PositionID q)"

definition EvaluateRelationshipConflict :: "conflict_evaluation_input \<Rightarrow> conflict_evaluation" where
  "EvaluateRelationshipConflict input =
     (let positions = normalizedConflictPolicyPositions (evin_Positions input);
          totalSupporters = sum_list (map pos_SupporterCount positions);
          waiting = evin_Now input < evin_ReviewDueAt input
      in if length positions < 2 then
           zero_evaluation\<lparr>ev_Outcome := conflict_review_outcome_str ConflictReviewOutcomeNoop,
             ev_Stage := conflict_review_stage_str ConflictReviewStageWaitingForReviewDue,
             ev_Reason := conflict_review_reason_str ConflictReviewReasonFewerThanTwoPositions\<rparr>
         else if totalSupporters \<le> 0 then
           (if waiting then
              zero_evaluation\<lparr>ev_Outcome := conflict_review_outcome_str ConflictReviewOutcomeNoop,
                ev_Stage := conflict_review_stage_str ConflictReviewStageWaitingForReviewDue,
                ev_Reason := conflict_review_reason_str ConflictReviewReasonReviewDueNotReached,
                ev_TotalSupporterCount := totalSupporters\<rparr>
            else
              zero_evaluation\<lparr>ev_Outcome := conflict_review_outcome_str ConflictReviewOutcomeOverdue,
                ev_Stage := conflict_review_stage_str ConflictReviewStageDueNoWinner,
                ev_Reason := conflict_review_reason_str ConflictReviewReasonReviewDueWithoutDeterministicWin,
                ev_TotalSupporterCount := totalSupporters\<rparr>)
         else
           (let top = hd (go_sort position_less positions)
            in if \<not> waiting then
                 (if pos_SupporterCount top > totalSupporters - pos_SupporterCount top then
                    \<lparr>ev_Outcome = conflict_review_outcome_str ConflictReviewOutcomeResolve,
                      ev_Stage = conflict_review_stage_str ConflictReviewStageDueMajority,
                      ev_PreferredPositionID = pos_PositionID top,
                      ev_Reason = conflict_review_reason_str ConflictReviewReasonDueMajoritySupport,
                      ev_EffectiveAt = pos_EffectiveAt top,
                      ev_EffectiveTimeBasis = pos_EffectiveTimeBasis top,
                      ev_TotalSupporterCount = totalSupporters\<rparr>
                  else
                    zero_evaluation\<lparr>ev_Outcome := conflict_review_outcome_str ConflictReviewOutcomeOverdue,
                      ev_Stage := conflict_review_stage_str ConflictReviewStageDueNoWinner,
                      ev_Reason := conflict_review_reason_str ConflictReviewReasonReviewDueWithoutDeterministicWin,
                      ev_TotalSupporterCount := totalSupporters\<rparr>)
               else
                 zero_evaluation\<lparr>ev_Outcome := conflict_review_outcome_str ConflictReviewOutcomeNoop,
                   ev_Stage := conflict_review_stage_str ConflictReviewStageWaitingForReviewDue,
                   ev_Reason := conflict_review_reason_str ConflictReviewReasonReviewDueNotReached,
                   ev_TotalSupporterCount := totalSupporters\<rparr>))"

interpretation position_order: weak_order position_less
  by (rule weak_order_key [where key = "\<lambda>p. (- pos_SupporterCount p, pos_PositionID p)"])
    (auto simp: position_less_def)

text \<open>A position that more than half of all counted supporters stand behind.\<close>

definition strict_majority :: "conflict_position list \<Rightarrow> conflict_position \<Rightarrow> bool" where
  "strict_majority ps p \<longleftrightarrow> p \<in> set ps \<and> 2 * pos_SupporterCount p > sum_list (map pos_SupporterCount ps)"

lemma normalized_counts: "p \<in> set (normalizedConflictPolicyPositions ps) \<Longrightarrow> 0 \<le> pos_SupporterCount p"
  by (auto simp: normalizedConflictPolicyPositions_def normalize_position_def)

lemma sum_counts_nonneg:
  "(\<And>p. p \<in> set ps \<Longrightarrow> 0 \<le> pos_SupporterCount p) \<Longrightarrow> 0 \<le> sum_list (map pos_SupporterCount ps)"
  by (rule sum_list_nonneg) auto

lemma strict_majority_unique:
  assumes nn: "\<And>p. p \<in> set ps \<Longrightarrow> 0 \<le> pos_SupporterCount p"
    and p: "strict_majority ps p" and q: "strict_majority ps q"
  shows "p = q"
proof (rule ccontr)
  assume neq: "p \<noteq> q"
  let ?s = "\<lambda>xs. sum_list (map pos_SupporterCount xs)"
  have split: "?s xs = pos_SupporterCount x + ?s (remove1 x xs)" if "x \<in> set xs" for x xs
    using that by (rule sum_list_map_remove1)
  have "q \<in> set (remove1 p ps)" using p q neq by (simp add: strict_majority_def)
  then have "?s ps = pos_SupporterCount p + (pos_SupporterCount q + ?s (remove1 q (remove1 p ps)))"
    using p split [of p ps] split [of q "remove1 p ps"] by (simp add: strict_majority_def)
  moreover have "0 \<le> ?s (remove1 q (remove1 p ps))"
    by (rule sum_counts_nonneg) (meson nn notin_set_remove1)
  ultimately show False using p q by (simp add: strict_majority_def)
qed

lemma top_is_majority:
  assumes "ps \<noteq> []"
  shows "strict_majority ps (hd (go_sort position_less ps)) \<longleftrightarrow> (\<exists>p. strict_majority ps p)"
proof
  assume "\<exists>p. strict_majority ps p"
  then obtain p where p: "strict_majority ps p" ..
  let ?t = "hd (go_sort position_less ps)"
  have "\<not> position_less p ?t" using p by (simp add: strict_majority_def position_order.go_sort_hd_least)
  then have "pos_SupporterCount p \<le> pos_SupporterCount ?t" by (simp add: position_less_def split: if_splits)
  with p assms show "strict_majority ps ?t"
    by (simp add: strict_majority_def position_order.hd_go_sort_in)
qed blast

text \<open>The evaluation in declarative form: which case applies, and what the resolving case returns.\<close>

lemma evaluate_cases:
  fixes input
  defines "ps \<equiv> normalizedConflictPolicyPositions (evin_Positions input)"
    and "r \<equiv> EvaluateRelationshipConflict input"
  shows "if length ps < 2 \<or> evin_Now input < evin_ReviewDueAt input
         then ev_Outcome r = ''no_op'' \<and> ev_PreferredPositionID r = []
         else if \<exists>p. strict_majority ps p
         then ev_Outcome r = ''resolve'' \<and>
              strict_majority ps (hd (go_sort position_less ps)) \<and>
              ev_PreferredPositionID r = pos_PositionID (hd (go_sort position_less ps)) \<and>
              ev_EffectiveAt r = pos_EffectiveAt (hd (go_sort position_less ps)) \<and>
              ev_EffectiveTimeBasis r = pos_EffectiveTimeBasis (hd (go_sort position_less ps))
         else ev_Outcome r = ''overdue'' \<and> ev_PreferredPositionID r = []"
proof -
  let ?t = "hd (go_sort position_less ps)" and ?n = "sum_list (map pos_SupporterCount ps)"
  have zero: "\<not> strict_majority ps p" if "?n \<le> 0" for p
  proof
    assume m: "strict_majority ps p"
    then have "?n = pos_SupporterCount p + sum_list (map pos_SupporterCount (remove1 p ps))"
      by (simp add: strict_majority_def sum_list_map_remove1)
    moreover have "0 \<le> sum_list (map pos_SupporterCount (remove1 p ps))"
      by (rule sum_counts_nonneg) (metis ps_def normalized_counts notin_set_remove1)
    moreover have "0 \<le> pos_SupporterCount p"
      using m unfolding strict_majority_def ps_def by (blast intro: normalized_counts)
    ultimately show False using m that by (simp add: strict_majority_def)
  qed
  have top: "strict_majority ps ?t \<longleftrightarrow> 2 * pos_SupporterCount ?t > ?n" if "\<not> length ps < 2"
    using that position_order.hd_go_sort_in [of ps] by (fastforce simp: strict_majority_def)
  have ex: "(\<exists>p. strict_majority ps p) \<longleftrightarrow> strict_majority ps ?t" if "\<not> length ps < 2"
    using that top_is_majority [of ps] by fastforce
  show ?thesis
    unfolding r_def EvaluateRelationshipConflict_def Let_def
    using zero top ex by (auto simp: ps_def [symmetric] zero_evaluation_def)
qed

section \<open>Last write wins\<close>

record resolution_support =
  rs_Authority :: string
  rs_AcceptedAt :: time

record resolution_position =
  rp_PositionID :: string
  rp_Supports :: "resolution_support list"

record lww_winner =
  w_PositionID :: string
  w_Authority :: string
  w_AcceptedAt :: time

definition conflictAuthorityRank :: "string \<Rightarrow> nat \<times> string" where
  "conflictAuthorityRank authority =
     (let a = lower_trim authority
      in if a = ''authoritative'' then (0, ''authoritative'')
         else if a = ''primary'' then (1, ''primary'')
         else if a = ''secondary'' then (2, ''secondary'')
         else if a = ''inferred'' \<or> a = ''derived'' then (3, ''inferred'')
         else (4, ''unknown''))"

text \<open>The inner loop over the supports of one position; its state is the best rank, authority and time.\<close>

fun lww_step :: "nat \<times> string \<times> time \<Rightarrow> resolution_support \<Rightarrow> nat \<times> string \<times> time" where
  "lww_step (bestRank, bestAuthority, bestAcceptedAt) s =
     (let (rank, authority) = conflictAuthorityRank (rs_Authority s)
      in if bestAuthority = [] \<or> rank < bestRank \<or> rank = bestRank \<and> rs_AcceptedAt s > bestAcceptedAt
         then (rank, authority, rs_AcceptedAt s)
         else (bestRank, bestAuthority, bestAcceptedAt))"

definition lww_candidate :: "resolution_position \<Rightarrow> lww_winner option" where
  "lww_candidate p =
     (let positionID = trim_space (rp_PositionID p)
      in if positionID = [] then None
         else case foldl lww_step (0, [], zero_time) (rp_Supports p) of
                (rank, authority, acceptedAt) \<Rightarrow>
                  if authority = [] then None
                  else Some \<lparr>w_PositionID = positionID, w_Authority = authority, w_AcceptedAt = acceptedAt\<rparr>)"

definition lww_less :: "lww_winner \<Rightarrow> lww_winner \<Rightarrow> bool" where
  "lww_less x y =
     (let leftRank = fst (conflictAuthorityRank (w_Authority x));
          rightRank = fst (conflictAuthorityRank (w_Authority y))
      in if leftRank \<noteq> rightRank then leftRank < rightRank
         else if w_AcceptedAt x \<noteq> w_AcceptedAt y then w_AcceptedAt x > w_AcceptedAt y
         else w_PositionID x < w_PositionID y)"

definition SelectConflictLastWriteWinner :: "resolution_position list \<Rightarrow> lww_winner option" where
  "SelectConflictLastWriteWinner ps =
     (let candidates = List.map_filter lww_candidate ps
      in if candidates = [] then None else Some (hd (go_sort lww_less candidates)))"

text \<open>
  \<open>sort.Slice\<close> is not stable; on candidates, whose authority is one of the canonical labels, the
  order is total, so every sorting algorithm gives the same list.
\<close>

definition canonical_authority :: "string \<Rightarrow> bool" where
  "canonical_authority a \<longleftrightarrow> snd (conflictAuthorityRank a) = a"

lemma authority_rank_label:
  "fst (conflictAuthorityRank a) = fst (conflictAuthorityRank b) \<Longrightarrow>
   snd (conflictAuthorityRank a) = snd (conflictAuthorityRank b)"
  by (auto simp add: conflictAuthorityRank_def Let_def split: if_splits)

lemma authority_label_nonempty: "snd (conflictAuthorityRank a) \<noteq> []"
  by (simp add: conflictAuthorityRank_def Let_def)

lemma authority_rank_idem [simp]:
  "conflictAuthorityRank (snd (conflictAuthorityRank a)) = conflictAuthorityRank a"
proof -
  have "conflictAuthorityRank l = (n, l)"
    if "(n, l) \<in> {(0, ''authoritative''), (1, ''primary''), (2, ''secondary''), (3, ''inferred''), (4, ''unknown'')}" for n l
    using that by (auto simp: conflictAuthorityRank_def go_string_eval)
  then show ?thesis by (simp add: conflictAuthorityRank_def [of a] Let_def)
qed

lemma canonical_authority_inj:
  "canonical_authority a \<Longrightarrow> canonical_authority b \<Longrightarrow>
   fst (conflictAuthorityRank a) = fst (conflictAuthorityRank b) \<Longrightarrow> a = b"
  unfolding canonical_authority_def using authority_rank_label [of a b] by metis

definition lww_key :: "lww_winner \<Rightarrow> nat \<times> int \<times> string" where
  "lww_key w = (fst (conflictAuthorityRank (w_Authority w)), - w_AcceptedAt w, w_PositionID w)"

lemma rank_time_id_lex:
  "(if a \<noteq> b then a < b else if t \<noteq> u then t > u else x < y) \<longleftrightarrow> (a, - t, x) < (b, - u, y)"
  for a b :: nat and t u :: int and x y :: string
  by (simp, auto)

lemma lww_less_key: "lww_less x y \<longleftrightarrow> lww_key x < lww_key y"
  unfolding lww_less_def lww_key_def Let_def by (rule rank_time_id_lex)

interpretation lww_order: total_order lww_less "\<lambda>w. canonical_authority (w_Authority w)"
proof (rule total_order_key, rule lww_less_key)
  fix x y :: lww_winner
  assume "canonical_authority (w_Authority x)" "canonical_authority (w_Authority y)"
    and key: "lww_key x = lww_key y"
  then have "w_Authority x = w_Authority y"
    by (intro canonical_authority_inj) (simp_all add: lww_key_def)
  with key show "x = y" by (cases x, cases y) (simp add: lww_key_def)
qed

text \<open>The fold over the supports of a position finds the best rank and, at that rank, the latest time.\<close>

definition support_key :: "resolution_support \<Rightarrow> nat \<times> int" where
  "support_key s = (fst (conflictAuthorityRank (rs_Authority s)), - rs_AcceptedAt s)"

lemma lww_step_one:
  assumes "a \<noteq> []" and "lww_step (r, a, t) s = (r', a', t')"
  shows "((r', a', t') = (r, a, t) \<or>
          (r', - t') = support_key s \<and> a' = snd (conflictAuthorityRank (rs_Authority s))) \<and>
         (r', - t') \<le> (r, - t) \<and> (r', - t') \<le> support_key s \<and> a' \<noteq> []"
proof (cases "fst (conflictAuthorityRank (rs_Authority s)) < r \<or>
    fst (conflictAuthorityRank (rs_Authority s)) = r \<and> rs_AcceptedAt s > t")
  case True
  with assms have "r' = fst (conflictAuthorityRank (rs_Authority s))"
    "a' = snd (conflictAuthorityRank (rs_Authority s))" "t' = rs_AcceptedAt s"
    by (simp_all add: case_prod_beta)
  with True show ?thesis by (auto simp: support_key_def authority_label_nonempty)
next
  case False
  with assms have "(r', a', t') = (r, a, t)" by (simp add: case_prod_beta)
  with False assms(1) show ?thesis by (auto simp: support_key_def)
qed

lemma lww_fold_keeps:
  assumes "a \<noteq> []" and "foldl lww_step (r, a, t) ss = (r', a', t')"
  shows "((r', a', t') = (r, a, t) \<or>
          (\<exists>s\<in>set ss. (r', - t') = support_key s \<and> a' = snd (conflictAuthorityRank (rs_Authority s)))) \<and>
         (r', - t') \<le> (r, - t) \<and> (\<forall>s\<in>set ss. (r', - t') \<le> support_key s) \<and> a' \<noteq> []"
  using assms
proof (induction ss arbitrary: r a t)
  case Nil
  then show ?case by simp
next
  case (Cons s ss)
  obtain r1 a1 t1 where st: "lww_step (r, a, t) s = (r1, a1, t1)" by (cases "lww_step (r, a, t) s")
  note one = lww_step_one [OF Cons.prems(1) st]
  have "foldl lww_step (r1, a1, t1) ss = (r', a', t')" using Cons.prems(2) st by simp
  with one Cons.IH [of a1 r1 t1] have rest:
    "((r', a', t') = (r1, a1, t1) \<or>
      (\<exists>s\<in>set ss. (r', - t') = support_key s \<and> a' = snd (conflictAuthorityRank (rs_Authority s)))) \<and>
     (r', - t') \<le> (r1, - t1) \<and> (\<forall>s\<in>set ss. (r', - t') \<le> support_key s) \<and> a' \<noteq> []" by blast
  with one have "(r', - t') \<le> (r, - t)" "(r', - t') \<le> support_key s" by (meson order_trans)+
  with one rest show ?case by auto
qed

lemma lww_candidate_Some:
  "lww_candidate p = Some w \<longleftrightarrow>
     trim_space (rp_PositionID p) \<noteq> [] \<and> rp_Supports p \<noteq> [] \<and> w_PositionID w = trim_space (rp_PositionID p) \<and>
     (\<exists>r. foldl lww_step (0, [], zero_time) (rp_Supports p) = (r, w_Authority w, w_AcceptedAt w)) \<and> w_Authority w \<noteq> []"
  by (cases w; cases "rp_Supports p")
    (auto simp: lww_candidate_def Let_def split: prod.splits if_splits)

text \<open>The candidate of a position: one of its supports, and at least as good as each of them.\<close>

lemma lww_candidate_best:
  assumes "lww_candidate p = Some w"
  shows "w_PositionID w = trim_space (rp_PositionID p) \<and> trim_space (rp_PositionID p) \<noteq> [] \<and>
    canonical_authority (w_Authority w) \<and>
    (\<exists>s\<in>set (rp_Supports p). w_Authority w = snd (conflictAuthorityRank (rs_Authority s)) \<and> w_AcceptedAt w = rs_AcceptedAt s) \<and>
    (\<forall>s\<in>set (rp_Supports p). (fst (conflictAuthorityRank (w_Authority w)), - w_AcceptedAt w) \<le> support_key s)"
proof -
  from assms obtain s ss r where ss: "rp_Supports p = s # ss"
    and fold: "foldl lww_step (0, [], zero_time) (s # ss) = (r, w_Authority w, w_AcceptedAt w)"
    and id: "w_PositionID w = trim_space (rp_PositionID p)" "trim_space (rp_PositionID p) \<noteq> []"
    by (auto simp: lww_candidate_Some neq_Nil_conv)
  let ?R = "conflictAuthorityRank (rs_Authority s)"
  have "foldl lww_step (fst ?R, snd ?R, rs_AcceptedAt s) ss = (r, w_Authority w, w_AcceptedAt w)"
    using fold by (simp add: case_prod_beta)
  note k = lww_fold_keeps [OF authority_label_nonempty this]
  have first: "(fst ?R, - rs_AcceptedAt s) = support_key s" by (simp add: support_key_def)
  from k obtain u where u: "u \<in> set (s # ss)" "(r, - w_AcceptedAt w) = support_key u"
    "w_Authority w = snd (conflictAuthorityRank (rs_Authority u))"
    using first by (metis list.set_intros prod.inject)
  have "fst (conflictAuthorityRank (w_Authority w)) = r" "w_AcceptedAt w = rs_AcceptedAt u"
    using u by (simp_all add: support_key_def)
  with k u ss id first show ?thesis
    by (auto simp: canonical_authority_def)
qed

lemma lww_candidate_None:
  "lww_candidate p = None \<longleftrightarrow> trim_space (rp_PositionID p) = [] \<or> rp_Supports p = []"
proof (cases "rp_Supports p")
  case (Cons s ss)
  let ?R = "conflictAuthorityRank (rs_Authority s)"
  obtain r a t where f: "foldl lww_step (fst ?R, snd ?R, rs_AcceptedAt s) ss = (r, a, t)"
    by (cases "foldl lww_step (fst ?R, snd ?R, rs_AcceptedAt s) ss")
  with lww_fold_keeps [OF authority_label_nonempty f] Cons show ?thesis
    by (simp add: lww_candidate_def Let_def case_prod_beta)
qed (simp add: lww_candidate_def Let_def)

lemma lww_select_Some:
  assumes "SelectConflictLastWriteWinner ps = Some w"
  shows "w \<in> set (List.map_filter lww_candidate ps) \<and>
         (\<forall>v\<in>set (List.map_filter lww_candidate ps). \<not> lww_less v w)"
  using assms lww_order.hd_go_sort_in [of "List.map_filter lww_candidate ps"]
    lww_order.go_sort_hd_least [of _ "List.map_filter lww_candidate ps"]
  by (auto simp: SelectConflictLastWriteWinner_def Let_def split: if_splits)

lemma set_map_filter_iff: "w \<in> set (List.map_filter f xs) \<longleftrightarrow> (\<exists>x\<in>set xs. f x = Some w)"
  by (auto simp: map_filter_def image_iff)

section \<open>Properties\<close>

text \<open>
  C16 (evaluate_resolves_iff_majority): an evaluation resolves the conflict exactly when its review is due, at
  least two positions remain after normalisation and one of them is backed by a strict majority of all
  counted supporters; it then prefers that position and takes over its effective time. Due cases without
  such a position are overdue, and everything else waits.
\<close>

theorem evaluate_resolves_iff_majority:
  fixes input
  defines "ps \<equiv> normalizedConflictPolicyPositions (evin_Positions input)"
    and "r \<equiv> EvaluateRelationshipConflict input"
    and "due \<equiv> evin_ReviewDueAt input \<le> evin_Now input"
  shows "(ev_Outcome r = ''resolve'' \<longleftrightarrow> due \<and> 2 \<le> length ps \<and> (\<exists>p. strict_majority ps p)) \<and>
         (ev_Outcome r = ''overdue'' \<longleftrightarrow> due \<and> 2 \<le> length ps \<and> (\<nexists>p. strict_majority ps p)) \<and>
         (ev_Outcome r = ''no_op'' \<longleftrightarrow> \<not> (due \<and> 2 \<le> length ps)) \<and>
         (ev_PreferredPositionID r \<noteq> [] \<longrightarrow>
            (\<exists>p. strict_majority ps p \<and> ev_PreferredPositionID r = pos_PositionID p \<and>
                 ev_EffectiveAt r = pos_EffectiveAt p \<and> ev_EffectiveTimeBasis r = pos_EffectiveTimeBasis p))"
  using evaluate_cases [of input] unfolding ps_def [symmetric] r_def [symmetric] due_def
  by (auto simp: not_le not_less split: if_splits)

text \<open>Three positions, two of them with one supporter each against three: resolved for the third.\<close>

definition sample_position :: "string \<Rightarrow> int \<Rightarrow> conflict_position" where
  "sample_position i n = \<lparr>pos_ConflictID = ''c'', pos_PositionID = i, pos_PositionKey = i, pos_PositionCount = 3,
     pos_Disposition = ''candidate'', pos_ObjectEntityID = [], pos_ObjectValueID = [], pos_SupporterCount = n,
     pos_SupportersTruncated = False, pos_PositionsTruncated = False, pos_Supporters = [],
     pos_RelationshipIDs = [], pos_OwnerProfileIDs = [], pos_EvidenceIDs = [], pos_EffectiveAt = Some 7,
     pos_EffectiveTimeBasis = ''valid_time'', pos_RecordedFallback = False\<rparr>"

theorem evaluate_resolves_iff_majority_witness:
  "ev_PreferredPositionID (EvaluateRelationshipConflict \<lparr>evin_Now = 10, evin_ReviewDueAt = 10,
      evin_Positions = [sample_position ''a'' 1, sample_position ''b'' 3, sample_position ''c'' 1]\<rparr>) = ''b''"
proof -
  let ?i = "\<lparr>evin_Now = 10, evin_ReviewDueAt = 10,
      evin_Positions = [sample_position ''a'' 1, sample_position ''b'' 3, sample_position ''c'' 1]\<rparr>"
  let ?ps = "normalizedConflictPolicyPositions (evin_Positions ?i)"
  have ps: "?ps = [sample_position ''a'' 1, sample_position ''b'' 3, sample_position ''c'' 1]"
    by (simp add: normalizedConflictPolicyPositions_def normalize_position_def sample_position_def go_string_eval)
  have m: "strict_majority ?ps p \<longleftrightarrow> p = sample_position ''b'' 3" for p
    unfolding ps strict_majority_def by (auto simp: sample_position_def)
  have "ev_PreferredPositionID (EvaluateRelationshipConflict ?i) \<noteq> []"
    unfolding EvaluateRelationshipConflict_def Let_def ps
    by (simp add: sample_position_def position_less_def)
  with evaluate_resolves_iff_majority [of ?i] m show ?thesis by (auto simp: sample_position_def)
qed

text \<open>
  (evaluate_order_independent): the evaluation does not depend on the order in which the positions were
  loaded: any permutation gives the same outcome, preferred position and effective time.
\<close>

theorem evaluate_order_independent:
  assumes "mset ps = mset qs"
  shows "EvaluateRelationshipConflict \<lparr>evin_Now = n, evin_ReviewDueAt = d, evin_Positions = ps\<rparr> =
         EvaluateRelationshipConflict \<lparr>evin_Now = n, evin_ReviewDueAt = d, evin_Positions = qs\<rparr>"
proof -
  let ?N = normalizedConflictPolicyPositions and ?t = "\<lambda>ps. hd (go_sort position_less ps)"
  have m: "mset (?N ps) = mset (?N qs)"
    using assms by (simp add: normalizedConflictPolicyPositions_def)
  then have len: "length (?N ps) = length (?N qs)" by (metis size_mset)
  have sum: "sum_list (map pos_SupporterCount (?N ps)) = sum_list (map pos_SupporterCount (?N qs))"
    using m by (metis mset_map sum_mset_sum_list)
  have set: "set (?N ps) = set (?N qs)" using m by (metis set_mset_mset)
  have maj: "strict_majority (?N ps) = strict_majority (?N qs)"
    by (simp add: fun_eq_iff strict_majority_def set sum)
  show ?thesis
  proof (cases "?N ps = []")
    case True
    with len show ?thesis by (simp add: EvaluateRelationshipConflict_def)
  next
    case False
    then have ne: "?N qs \<noteq> []" using len by (metis length_0_conv)
    have same: "strict_majority (?N ps) (?t (?N ps)) \<longleftrightarrow> strict_majority (?N qs) (?t (?N qs))"
      using False len maj by (metis length_0_conv top_is_majority)
    have eq: "?t (?N ps) = ?t (?N qs)" if "strict_majority (?N ps) (?t (?N ps))"
      using that same maj strict_majority_unique normalized_counts by metis
    have top: "strict_majority (?N ps) (?t (?N ps)) \<longleftrightarrow>
        pos_SupporterCount (?t (?N ps)) > sum_list (map pos_SupporterCount (?N ps)) - pos_SupporterCount (?t (?N ps))"
      "strict_majority (?N qs) (?t (?N qs)) \<longleftrightarrow>
        pos_SupporterCount (?t (?N qs)) > sum_list (map pos_SupporterCount (?N qs)) - pos_SupporterCount (?t (?N qs))"
      using False ne position_order.hd_go_sort_in [of "?N ps"] position_order.hd_go_sort_in [of "?N qs"]
      by (auto simp: strict_majority_def)
    show ?thesis
      unfolding EvaluateRelationshipConflict_def Let_def
      using same eq top len sum by simp
  qed
qed

theorem evaluate_order_independent_witness:
  "EvaluateRelationshipConflict \<lparr>evin_Now = 3, evin_ReviewDueAt = 2,
      evin_Positions = [sample_position ''a'' 1, sample_position ''b'' 3]\<rparr> =
   EvaluateRelationshipConflict \<lparr>evin_Now = 3, evin_ReviewDueAt = 2,
      evin_Positions = [sample_position ''b'' 3, sample_position ''a'' 1]\<rparr>"
  by (rule evaluate_order_independent) simp

text \<open>
  (lww_winner_optimal): the last-write fallback selects a winner exactly when some position has a usable id
  and a support. The winner's authority and time belong to one support of its position, no support of any
  candidate position has a stronger authority or, at the same authority, a later acceptance, and among
  positions that tie on both the smallest position id wins.
\<close>

theorem lww_winner_optimal:
  "case SelectConflictLastWriteWinner ps of
     None \<Rightarrow> \<forall>p\<in>set ps. trim_space (rp_PositionID p) = [] \<or> rp_Supports p = []
   | Some w \<Rightarrow>
       (\<exists>p\<in>set ps. w_PositionID w = trim_space (rp_PositionID p) \<and>
          (\<exists>s\<in>set (rp_Supports p). w_Authority w = snd (conflictAuthorityRank (rs_Authority s)) \<and>
                                    w_AcceptedAt w = rs_AcceptedAt s)) \<and>
       (\<forall>p\<in>set ps. trim_space (rp_PositionID p) \<noteq> [] \<longrightarrow>
          (\<forall>s\<in>set (rp_Supports p).
             lww_key w \<le> (fst (conflictAuthorityRank (rs_Authority s)), - rs_AcceptedAt s, trim_space (rp_PositionID p))))"
proof (cases "SelectConflictLastWriteWinner ps")
  case None
  then have "List.map_filter lww_candidate ps = []"
    by (simp add: SelectConflictLastWriteWinner_def Let_def split: if_splits)
  then have "\<forall>p\<in>set ps. lww_candidate p = None"
    by (metis empty_iff empty_set not_None_eq set_map_filter_iff)
  with None show ?thesis by (simp add: lww_candidate_None)
next
  case (Some w)
  note sel = lww_select_Some [OF Some]
  from sel obtain p where p: "p \<in> set ps" "lww_candidate p = Some w" by (auto simp: set_map_filter_iff)
  have best: "lww_key w \<le> (fst (conflictAuthorityRank (rs_Authority s)), - rs_AcceptedAt s, trim_space (rp_PositionID q))"
    if q: "q \<in> set ps" "trim_space (rp_PositionID q) \<noteq> []" and s: "s \<in> set (rp_Supports q)" for q s
  proof -
    have "lww_candidate q \<noteq> None" using q s by (auto simp: lww_candidate_None)
    then obtain v where v: "lww_candidate q = Some v" by auto
    with q sel have "\<not> lww_less v w" by (auto simp: set_map_filter_iff)
    then have "lww_key w \<le> lww_key v" by (simp add: lww_less_key)
    also have "\<dots> \<le> (fst (conflictAuthorityRank (rs_Authority s)), - rs_AcceptedAt s, trim_space (rp_PositionID q))"
      using lww_candidate_best [OF v] s by (auto simp: lww_key_def support_key_def)
    finally show ?thesis .
  qed
  with Some p lww_candidate_best [OF p(2)] show ?thesis by auto
qed

definition sample_supports :: "resolution_position list" where
  "sample_supports =
     [\<lparr>rp_PositionID = ''q'', rp_Supports = [\<lparr>rs_Authority = ''primary'', rs_AcceptedAt = 9\<rparr>]\<rparr>,
      \<lparr>rp_PositionID = ''p'', rp_Supports = [\<lparr>rs_Authority = ''authoritative'', rs_AcceptedAt = 2\<rparr>]\<rparr>]"

theorem lww_winner_optimal_witness:
  "SelectConflictLastWriteWinner sample_supports =
     Some \<lparr>w_PositionID = ''p'', w_Authority = ''authoritative'', w_AcceptedAt = 2\<rparr> \<and>
   (\<exists>p\<in>set sample_supports. trim_space (rp_PositionID p) = ''p'')"
proof -
  have n: "SelectConflictLastWriteWinner sample_supports =
      Some \<lparr>w_PositionID = ''p'', w_Authority = ''authoritative'', w_AcceptedAt = 2\<rparr>"
    by (simp add: SelectConflictLastWriteWinner_def List.map_filter_simps sample_supports_def lww_candidate_def
        conflictAuthorityRank_def lww_less_def go_string_eval)
  with lww_winner_optimal [of sample_supports] show ?thesis by fastforce
qed



end
