(* ===== verification/Conflict_Case.thy ===== *)
theory Conflict_Case
  imports Conflict_Policy
begin

text \<open>
  A stored conflict case (\<open>trace/contract/result.go\<close>) and its view at an earlier time
  (\<open>conflict/contract/temporal.go\<close>): decisions taken after the requested time are undone. Below it the
  closed labels and the pagination cursor of the conflict queue (\<open>domain/conflict_queue.go\<close>).
  \<open>uuid.Parse\<close> is third-party code; the definitions that call it take \<open>uuid_ok\<close>, which says
  whether it accepts a text, as their first argument.
\<close>

section \<open>The case record\<close>

record conflict_case =
  cc_TeamID :: string
  cc_ConflictID :: string
  cc_SpaceID :: string
  cc_SemanticScopeKey :: string
  cc_Kind :: string
  cc_Status :: string
  cc_SubjectEntityID :: string
  cc_PredicateKey :: string
  cc_PredicateVersion :: int
  cc_RelationshipKind :: string
  cc_CurrentCardinality :: string
  cc_Polarity :: string
  cc_ScopeKey :: string
  cc_Question :: string
  cc_PolicyVersion :: string
  cc_ReviewDueAt :: time
  cc_NextReviewAt :: time
  cc_ReviewTTLDays :: int
  cc_Timezone :: string
  cc_PreferredPositionID :: string
  cc_ResolvedAt :: "time option"
  cc_EffectiveAt :: "time option"
  cc_EffectiveTimeBasis :: string
  cc_ResolutionReason :: string
  cc_Version :: int
  cc_Attempts :: int
  cc_CreatedAt :: time
  cc_UpdatedAt :: time
  cc_Positions :: "conflict_position list"
  cc_DismissedAt :: "time option"

abbreviation (input) st_open :: string where
  "st_open \<equiv> relationship_conflict_status_str RelationshipConflictOpen"
abbreviation (input) st_overdue :: string where
  "st_overdue \<equiv> relationship_conflict_status_str RelationshipConflictOverdue"
abbreviation (input) st_resolved :: string where
  "st_resolved \<equiv> relationship_conflict_status_str RelationshipConflictResolved"
abbreviation (input) st_dismissed :: string where
  "st_dismissed \<equiv> relationship_conflict_status_str RelationshipConflictDismissed"

section \<open>Rewinding a case\<close>

text \<open>\<open>*record.ResolvedAt\<close> after \<open>knownAt\<close>, with the nil check in front.\<close>

definition after_opt :: "time option \<Rightarrow> time \<Rightarrow> bool" where
  "after_opt t k = (case t of None \<Rightarrow> False | Some x \<Rightarrow> x > k)"

definition conflictDismissedAfterKnownAt :: "conflict_case \<Rightarrow> time \<Rightarrow> bool" where
  "conflictDismissedAfterKnownAt r knownAt =
     (case cc_DismissedAt r of Some t \<Rightarrow> t > knownAt | None \<Rightarrow> cc_UpdatedAt r > knownAt)"

definition applyConflictKnownAtNextReview :: "conflict_case \<Rightarrow> bool \<Rightarrow> conflict_case" where
  "applyConflictKnownAtNextReview r rewound = (if \<not> rewound then r else r\<lparr>cc_NextReviewAt := zero_time\<rparr>)"

text \<open>The assignments that both the future-resolution and the future-dismissal branch make.\<close>

definition reopen_case :: "conflict_case \<Rightarrow> time \<Rightarrow> conflict_case" where
  "reopen_case r knownAt =
     r\<lparr>cc_Status := (if knownAt < cc_ReviewDueAt r then st_open else st_overdue),
       cc_PreferredPositionID := [],
       cc_ResolvedAt := None,
       cc_EffectiveAt := None,
       cc_EffectiveTimeBasis := [],
       cc_ResolutionReason := [],
       cc_DismissedAt := None\<rparr>"

definition rewind_resolution :: "time \<Rightarrow> conflict_case \<times> bool \<Rightarrow> conflict_case \<times> bool" where
  "rewind_resolution knownAt = (\<lambda>(r, rewound).
     if after_opt (cc_ResolvedAt r) knownAt then (reopen_case r knownAt, True) else (r, rewound))"

definition rewind_overdue :: "time \<Rightarrow> conflict_case \<times> bool \<Rightarrow> conflict_case \<times> bool" where
  "rewind_overdue knownAt = (\<lambda>(r, rewound).
     if cc_Status r = st_overdue \<and> knownAt < cc_ReviewDueAt r
     then (r\<lparr>cc_Status := st_open\<rparr>, True) else (r, rewound))"

definition rewind_dismissal :: "time \<Rightarrow> conflict_case \<times> bool \<Rightarrow> conflict_case \<times> bool" where
  "rewind_dismissal knownAt = (\<lambda>(r, rewound).
     if cc_Status r = st_dismissed \<and> conflictDismissedAfterKnownAt r knownAt then
       (let r1 = r\<lparr>cc_DismissedAt := None\<rparr>
        in if cc_ResolvedAt r1 \<noteq> None \<and> \<not> after_opt (cc_ResolvedAt r1) knownAt
           then (r1\<lparr>cc_Status := st_resolved\<rparr>, True)
           else (reopen_case r1 knownAt, True))
     else (r, rewound))"

definition ApplyConflictKnownAt :: "time option \<Rightarrow> conflict_case \<Rightarrow> conflict_case" where
  "ApplyConflictKnownAt knownAt record =
     (case knownAt of
        None \<Rightarrow> record
      | Some k \<Rightarrow>
          (case rewind_dismissal k (rewind_overdue k (rewind_resolution k (record, False))) of
             (r, rewound) \<Rightarrow> applyConflictKnownAtNextReview r rewound))"

definition ApplyConflictPositionKnownAtDispositions :: "time option \<Rightarrow> conflict_case \<Rightarrow> conflict_case" where
  "ApplyConflictPositionKnownAtDispositions knownAt record =
     (case knownAt of
        None \<Rightarrow> record
      | Some k \<Rightarrow>
          if cc_Status record = st_resolved then
            record\<lparr>cc_Positions := map (\<lambda>p. p\<lparr>pos_Disposition :=
                if pos_PositionID p = cc_PreferredPositionID record
                then relationship_conflict_position_disposition_str RelationshipConflictPositionPreferred
                else relationship_conflict_position_disposition_str RelationshipConflictPositionSuppressedCurrent\<rparr>)
              (cc_Positions record)\<rparr>
          else if cc_Status record = st_open \<or> cc_Status record = st_overdue then
            record\<lparr>cc_Positions := map (\<lambda>p. p\<lparr>pos_Disposition :=
                relationship_conflict_position_disposition_str RelationshipConflictPositionCandidate\<rparr>)
              (cc_Positions record)\<rparr>
          else record)"

lemmas rewind_defs = ApplyConflictKnownAt_def rewind_resolution_def rewind_overdue_def rewind_dismissal_def
  applyConflictKnownAtNextReview_def conflictDismissedAfterKnownAt_def reopen_case_def after_opt_def Let_def

lemma rewind_resolved_bound:
  "cc_ResolvedAt (ApplyConflictKnownAt (Some k) r) = Some t \<Longrightarrow> t \<le> k"
  by (cases "cc_ResolvedAt r") (simp_all add: rewind_defs split: if_splits option.splits)

lemma rewind_dismissed_bound:
  assumes "cc_Status (ApplyConflictKnownAt (Some k) r) = ''dismissed''"
  shows "\<not> conflictDismissedAfterKnownAt (ApplyConflictKnownAt (Some k) r) k"
  using assms by (cases "cc_ResolvedAt r"; cases "cc_DismissedAt r") (simp_all add: rewind_defs split: if_splits)

lemma rewind_overdue_bound:
  "cc_Status (ApplyConflictKnownAt (Some k) r) = ''overdue'' \<Longrightarrow> cc_ReviewDueAt r \<le> k"
  by (cases "cc_ResolvedAt r"; cases "cc_DismissedAt r") (simp_all add: rewind_defs split: if_splits)

lemma rewind_frame:
  "cc_ReviewDueAt (ApplyConflictKnownAt k r) = cc_ReviewDueAt r \<and>
   cc_UpdatedAt (ApplyConflictKnownAt k r) = cc_UpdatedAt r \<and>
   cc_Positions (ApplyConflictKnownAt k r) = cc_Positions r"
  by (cases k; cases "cc_ResolvedAt r"; cases "cc_DismissedAt r") (simp_all add: rewind_defs)

text \<open>The four ways a rewind can end.\<close>

lemma ApplyConflictKnownAt_cases:
  "ApplyConflictKnownAt (Some k) r =
     (if after_opt (cc_ResolvedAt r) k then (reopen_case r k)\<lparr>cc_NextReviewAt := zero_time\<rparr>
      else if cc_Status r = ''overdue'' \<and> k < cc_ReviewDueAt r
      then r\<lparr>cc_Status := ''open'', cc_NextReviewAt := zero_time\<rparr>
      else if cc_Status r = ''dismissed'' \<and> conflictDismissedAfterKnownAt r k
      then (if cc_ResolvedAt r \<noteq> None
            then r\<lparr>cc_Status := ''resolved'', cc_DismissedAt := None, cc_NextReviewAt := zero_time\<rparr>
            else (reopen_case r k)\<lparr>cc_NextReviewAt := zero_time\<rparr>)
      else r)"
  by (simp add: ApplyConflictKnownAt_def rewind_resolution_def rewind_overdue_def rewind_dismissal_def
      applyConflictKnownAtNextReview_def reopen_case_def after_opt_def split: option.split)

lemma apply_reopened:
  "k \<le> k' \<Longrightarrow> ApplyConflictKnownAt (Some k) ((reopen_case r k')\<lparr>cc_NextReviewAt := zero_time\<rparr>) =
     (reopen_case r k)\<lparr>cc_NextReviewAt := zero_time\<rparr>"
  by (simp add: ApplyConflictKnownAt_cases reopen_case_def after_opt_def)

section \<open>Queue labels\<close>

definition conflictQueueFailureClasses :: "string list" where
  "conflictQueueFailureClasses =
     [''none'', ''dossier_invalid'', ''dossier_bound_exceeded'', ''malformed_response'', ''invalid_response'',
      ''below_confidence_threshold'', ''timeout'', ''rate_limited'', ''http_4xx'', ''http_5xx'',
      ''http_unexpected'', ''transport'', ''provider_protocol'', ''request_invalid'', ''provider_unavailable'',
      ''unknown'']"

definition NormalizeConflictQueueFailureClass :: "string \<Rightarrow> string" where
  "NormalizeConflictQueueFailureClass value =
     (let v = lower_trim value
      in if v = [] then ''none'' else if v \<in> set conflictQueueFailureClasses then v else ''unknown'')"

definition NormalizeConflictQueueAssessmentDecision :: "string \<Rightarrow> string" where
  "NormalizeConflictQueueAssessmentDecision value =
     (if lower_trim value \<in> set [''selected'', ''abstained'', ''failed''] then lower_trim value else ''unknown'')"

definition NormalizeConflictQueueResolutionMethod :: "string \<Rightarrow> string" where
  "NormalizeConflictQueueResolutionMethod value =
     (if lower_trim value \<in> set [''deterministic'', ''ai'', ''last_write_wins''] then lower_trim value else ''unknown'')"

definition NormalizeConflictQueueResolutionOutcome :: "string \<Rightarrow> string" where
  "NormalizeConflictQueueResolutionOutcome value =
     (if lower_trim value \<in> set [''resolved'', ''pending''] then lower_trim value else ''unknown'')"

section \<open>Queue cursor\<close>

datatype cursor_error = ErrInvalidConflictQueueCursor | ErrConflictQueueCursorScope

record queue_cursor =
  qc_Version :: int
  qc_TeamID :: string
  qc_StatusFilter :: string
  qc_Status :: string
  qc_NextReviewAt :: time
  qc_ConflictID :: string

record queue_query =
  qq_TeamID :: string
  qq_Status :: string
  qq_Limit :: int
  qq_Cursor :: "queue_cursor option"

definition ValidateScope :: "(string \<Rightarrow> bool) \<Rightarrow> queue_cursor \<Rightarrow> string \<Rightarrow> string \<Rightarrow> cursor_error option" where
  "ValidateScope uuid_ok c teamID statusFilter =
     (if qc_Version c \<noteq> 1 then Some ErrInvalidConflictQueueCursor
      else if \<not> uuid_ok (trim_space (qc_TeamID c)) then Some ErrInvalidConflictQueueCursor
      else if \<not> uuid_ok (trim_space (qc_ConflictID c)) then Some ErrInvalidConflictQueueCursor
      else if qc_Status c \<noteq> ''open'' \<and> qc_Status c \<noteq> ''overdue'' then Some ErrInvalidConflictQueueCursor
      else if qc_StatusFilter c \<noteq> [] \<and> qc_StatusFilter c \<noteq> ''open'' \<and> qc_StatusFilter c \<noteq> ''overdue''
      then Some ErrInvalidConflictQueueCursor
      else if qc_NextReviewAt c = zero_time then Some ErrInvalidConflictQueueCursor
      else if trim_space teamID \<noteq> [] \<and> qc_TeamID c \<noteq> trim_space teamID then Some ErrConflictQueueCursorScope
      else if qc_StatusFilter c \<noteq> trim_space statusFilter then Some ErrConflictQueueCursorScope
      else None)"

text \<open>A closed label set maps to itself under trimming and lower-casing.\<close>

lemma label_fixed:
  assumes "v \<in> set (conflictQueueFailureClasses
     @ [''selected'', ''abstained'', ''failed'', ''deterministic'', ''ai'', ''last_write_wins'', ''resolved'', ''pending''])"
  shows "lower_trim v = v"
  using assms by (auto simp: conflictQueueFailureClasses_def go_string_eval)

section \<open>Properties\<close>

text \<open>
  (known_at_hides_later_decisions): after rewinding to a time, the case shows no decision taken later: its
  resolution time is not after it, it is overdue only if its review was due by then, and it is dismissed only
  if the dismissal was recorded by then.
\<close>

theorem known_at_hides_later_decisions:
  fixes r k
  defines "r' \<equiv> ApplyConflictKnownAt (Some k) r"
  shows "(\<forall>t. cc_ResolvedAt r' = Some t \<longrightarrow> t \<le> k) \<and>
         (cc_Status r' = ''overdue'' \<longrightarrow> cc_ReviewDueAt r' \<le> k) \<and>
         (cc_Status r' = ''dismissed'' \<longrightarrow> (case cc_DismissedAt r' of Some t \<Rightarrow> t \<le> k | None \<Rightarrow> cc_UpdatedAt r' \<le> k))"
  using rewind_resolved_bound [of k r] rewind_overdue_bound [of k r] rewind_dismissed_bound [of k r] rewind_frame [of "Some k" r]
  by (auto simp: r'_def conflictDismissedAfterKnownAt_def split: option.splits)

definition sample_case :: conflict_case where
  "sample_case = \<lparr>cc_TeamID = ''t'', cc_ConflictID = ''c'', cc_SpaceID = [], cc_SemanticScopeKey = [],
     cc_Kind = ''cross_profile_current_state'', cc_Status = ''dismissed'', cc_SubjectEntityID = [],
     cc_PredicateKey = [], cc_PredicateVersion = 1, cc_RelationshipKind = ''state'', cc_CurrentCardinality = ''one'',
     cc_Polarity = [], cc_ScopeKey = [], cc_Question = [], cc_PolicyVersion = [], cc_ReviewDueAt = 30,
     cc_NextReviewAt = 90, cc_ReviewTTLDays = 7, cc_Timezone = ''UTC'', cc_PreferredPositionID = ''p'',
     cc_ResolvedAt = Some 40, cc_EffectiveAt = Some 10, cc_EffectiveTimeBasis = ''valid_time'',
     cc_ResolutionReason = ''due_supporter_majority'', cc_Version = 3, cc_Attempts = 1, cc_CreatedAt = 1,
     cc_UpdatedAt = 80, cc_Positions = [], cc_DismissedAt = Some 80\<rparr>"

theorem known_at_hides_later_decisions_witness:
  "cc_Status (ApplyConflictKnownAt (Some 35) sample_case) = ''overdue'' \<and>
   cc_ReviewDueAt (ApplyConflictKnownAt (Some 35) sample_case) \<le> 35"
proof -
  have s: "cc_Status (ApplyConflictKnownAt (Some 35) sample_case) = ''overdue''"
    by (simp add: rewind_defs sample_case_def)
  with known_at_hides_later_decisions [where k = 35 and r = sample_case] show ?thesis by simp
qed

text \<open>
  (known_at_rewinds_compose): rewinding is consistent across times: rewinding a case to one time and the
  result to an earlier time gives exactly the view of the original case at the earlier time. In particular
  rewinding twice to the same time changes nothing more.
\<close>

theorem known_at_rewinds_compose:
  assumes "k \<le> k'"
  shows "ApplyConflictKnownAt (Some k) (ApplyConflictKnownAt (Some k') r) = ApplyConflictKnownAt (Some k) r"
proof -
  have res: "after_opt t k' \<Longrightarrow> after_opt t k" for t using assms by (auto simp: after_opt_def split: option.splits)
  have dis: "conflictDismissedAfterKnownAt r k' \<Longrightarrow> conflictDismissedAfterKnownAt r k"
    using assms by (auto simp: conflictDismissedAfterKnownAt_def split: option.splits)
  consider (resolved) "after_opt (cc_ResolvedAt r) k'"
    | (overdue) "\<not> after_opt (cc_ResolvedAt r) k'" "cc_Status r = ''overdue''" "k' < cc_ReviewDueAt r"
    | (dismissed) "\<not> after_opt (cc_ResolvedAt r) k'" "cc_Status r = ''dismissed''" "conflictDismissedAfterKnownAt r k'"
    | (same) "ApplyConflictKnownAt (Some k') r = r"
    using ApplyConflictKnownAt_cases [of k' r] by argo
  then show ?thesis
  proof cases
    case resolved
    then have "ApplyConflictKnownAt (Some k') r = (reopen_case r k')\<lparr>cc_NextReviewAt := zero_time\<rparr>"
      by (simp add: ApplyConflictKnownAt_cases)
    with assms resolved res show ?thesis by (simp add: apply_reopened) (simp add: ApplyConflictKnownAt_cases)
  next
    case overdue
    with assms show ?thesis by (simp add: ApplyConflictKnownAt_cases reopen_case_def)
  next
    case dismissed
    show ?thesis
    proof (cases "cc_ResolvedAt r")
      case None
      with dismissed have "ApplyConflictKnownAt (Some k') r = (reopen_case r k')\<lparr>cc_NextReviewAt := zero_time\<rparr>"
        by (simp add: ApplyConflictKnownAt_cases)
      with assms dismissed dis None show ?thesis
        by (simp add: apply_reopened) (simp add: ApplyConflictKnownAt_cases after_opt_def)
    next
      case (Some t)
      with dismissed dis show ?thesis by (simp add: ApplyConflictKnownAt_cases reopen_case_def)
    qed
  next
    case same
    then show ?thesis by simp
  qed
qed

theorem known_at_rewinds_compose_witness:
  "ApplyConflictKnownAt (Some 20) (ApplyConflictKnownAt (Some 60) sample_case) =
   ApplyConflictKnownAt (Some 20) sample_case"
  by (rule known_at_rewinds_compose) simp

text \<open>
  (queue_failure_class_closed): the failure class shown for a queue item is always one of the sixteen
  declared classes, declared classes are shown as they are, and normalising twice is the same as once, so no
  provider-controlled text reaches the queue.
\<close>

theorem queue_failure_class_closed:
  "NormalizeConflictQueueFailureClass v \<in> set conflictQueueFailureClasses \<and>
   NormalizeConflictQueueFailureClass (NormalizeConflictQueueFailureClass v) = NormalizeConflictQueueFailureClass v \<and>
   (lower_trim v \<in> set conflictQueueFailureClasses \<longrightarrow> NormalizeConflictQueueFailureClass v = lower_trim v)"
proof -
  have closed: "NormalizeConflictQueueFailureClass v \<in> set conflictQueueFailureClasses" for v
    by (simp add: NormalizeConflictQueueFailureClass_def Let_def) (simp add: conflictQueueFailureClasses_def)
  have nonempty: "w \<in> set conflictQueueFailureClasses \<Longrightarrow> w \<noteq> []" for w
    by (auto simp: conflictQueueFailureClasses_def)
  have fixed: "NormalizeConflictQueueFailureClass w = w" if "w \<in> set conflictQueueFailureClasses" for w
    using that label_fixed [of w] nonempty [of w] by (simp add: NormalizeConflictQueueFailureClass_def Let_def)
  from closed fixed nonempty show ?thesis
    by (auto simp: NormalizeConflictQueueFailureClass_def Let_def)
qed

theorem queue_failure_class_closed_witness:
  "NormalizeConflictQueueFailureClass ''http_5xx'' = ''http_5xx''"
proof -
  have l: "lower_trim ''http_5xx'' = ''http_5xx''" by (simp add: go_string_eval)
  with queue_failure_class_closed [of "''http_5xx''"] show ?thesis
    by (simp add: conflictQueueFailureClasses_def)
qed

end
