(* ===== verification/Go_Base64.thy ===== *)
theory Go_Base64
  imports Go_Strings
begin

text \<open>
  Go's \<open>encoding/base64\<close>: the standard and the URL-safe alphabet, with and without padding. The decoders are
  not strict: the bits that fill up the last group are ignored, and line breaks are skipped.
\<close>

section \<open>Alphabets and groups\<close>

definition url_alphabet :: string where
  "url_alphabet = ''ABCDEFGHIJKLMNOPQRSTUVWXYZabcdefghijklmnopqrstuvwxyz0123456789-_''"

definition std_alphabet :: string where
  "std_alphabet = ''ABCDEFGHIJKLMNOPQRSTUVWXYZabcdefghijklmnopqrstuvwxyz0123456789+/''"

definition sextet_char :: "nat \<Rightarrow> char" where
  "sextet_char n = url_alphabet ! n"

fun sextet_from :: "nat \<Rightarrow> string \<Rightarrow> char \<Rightarrow> nat option" where
  "sextet_from i [] c = None"
| "sextet_from i (a # as) c = (if a = c then Some i else sextet_from (Suc i) as c)"

definition char_sextet :: "string \<Rightarrow> char \<Rightarrow> nat option" where
  "char_sextet alphabet c = sextet_from 0 alphabet c"

text \<open>Three bytes are four sextets; the last group is filled up with zero bits.\<close>

fun to_sextets :: "nat list \<Rightarrow> nat list" where
  "to_sextets [] = []"
| "to_sextets [a] = [a div 4, a mod 4 * 16]"
| "to_sextets [a, b] = [a div 4, a mod 4 * 16 + b div 16, b mod 16 * 4]"
| "to_sextets (a # b # c # r) =
     a div 4 # (a mod 4 * 16 + b div 16) # (b mod 16 * 4 + c div 64) # c mod 64 # to_sextets r"

text \<open>The decoder is not strict: the bits that fill up the last group are ignored.\<close>

fun from_sextets :: "nat list \<Rightarrow> nat list option" where
  "from_sextets [] = Some []"
| "from_sextets [p] = None"
| "from_sextets [p, q] = Some [p * 4 + q div 16]"
| "from_sextets [p, q, r] = Some [p * 4 + q div 16, q mod 16 * 16 + r div 4]"
| "from_sextets (p # q # r # s # t) = (case from_sextets t of
     None \<Rightarrow> None
   | Some bs \<Rightarrow> Some ((p * 4 + q div 16) # (q mod 16 * 16 + r div 4) # (r mod 4 * 64 + s) # bs))"

definition base64_encode :: "string \<Rightarrow> string" where
  "base64_encode s = map sextet_char (to_sextets (map byte_of s))"

fun sextets_of :: "string \<Rightarrow> string \<Rightarrow> nat list option" where
  "sextets_of alphabet [] = Some []"
| "sextets_of alphabet (c # cs) = (case char_sextet alphabet c of
     None \<Rightarrow> None
   | Some n \<Rightarrow> (case sextets_of alphabet cs of None \<Rightarrow> None | Some ns \<Rightarrow> Some (n # ns)))"

definition decode_body :: "string \<Rightarrow> string \<Rightarrow> string option" where
  "decode_body alphabet s = (case sextets_of alphabet s of
     None \<Rightarrow> None
   | Some ns \<Rightarrow> (case from_sextets ns of None \<Rightarrow> None | Some bs \<Rightarrow> Some (map char_at bs)))"

text \<open>
  Line breaks in the input are skipped. An unpadded encoding has no \<open>=\<close>; a padded one fills the last group
  up with \<open>=\<close> and ends there.
\<close>

definition skip_breaks :: "string \<Rightarrow> string" where
  "skip_breaks s = filter (\<lambda>c. byte_of c \<noteq> 10 \<and> byte_of c \<noteq> 13) s"

definition raw_decode :: "string \<Rightarrow> string \<Rightarrow> string option" where
  "raw_decode alphabet s = decode_body alphabet (skip_breaks s)"

definition padded_decode :: "string \<Rightarrow> string \<Rightarrow> string option" where
  "padded_decode alphabet s =
     (let t = skip_breaks s; body = takeWhile (\<lambda>c. c \<noteq> CHR ''='') t; pad = dropWhile (\<lambda>c. c \<noteq> CHR ''='') t
      in if list_all (\<lambda>c. c = CHR ''='') pad \<and> (length body mod 4, length pad) \<in> set [(0, 0), (2, 2), (3, 1)]
         then decode_body alphabet body else None)"

text \<open>\<open>base64.RawURLEncoding\<close>.\<close>

definition base64_decode :: "string \<Rightarrow> string option" where
  "base64_decode s = raw_decode url_alphabet s"

section \<open>Round trip\<close>

lemma url_alphabet_length [simp]: "length url_alphabet = 64"
  by (simp add: url_alphabet_def)

lemma url_alphabet_distinct: "distinct url_alphabet"
  by (simp add: url_alphabet_def)

lemma url_alphabet_words: "list_all (\<lambda>c. ascii_word c \<and> byte_of c \<noteq> 10 \<and> byte_of c \<noteq> 13) url_alphabet"
  by (simp add: url_alphabet_def ascii_word_def byte_of_def)

lemma sextet_from_nth: "distinct as \<Longrightarrow> n < length as \<Longrightarrow> sextet_from i as (as ! n) = Some (i + n)"
proof (induction as arbitrary: i n)
  case (Cons a as)
  show ?case
  proof (cases n)
    case (Suc m)
    with Cons.prems have "a \<noteq> as ! m" by auto
    with Cons Suc show ?thesis by simp
  qed simp
qed simp

lemma char_sextet_char: "n < 64 \<Longrightarrow> char_sextet url_alphabet (sextet_char n) = Some n"
  using sextet_from_nth [OF url_alphabet_distinct, of n 0] by (simp add: char_sextet_def sextet_char_def)

lemma to_sextets_range: "\<forall>b\<in>set bs. b < 256 \<Longrightarrow> \<forall>n\<in>set (to_sextets bs). n < 64"
  by (induction bs rule: to_sextets.induct) (auto simp: less_mult_imp_div_less)

lemma from_to_sextets: "\<forall>b\<in>set bs. b < 256 \<Longrightarrow> from_sextets (to_sextets bs) = Some bs"
proof (induction bs rule: to_sextets.induct)
  case (4 a b c r)
  then have "b < 256" "c < 256" by simp_all
  moreover have "b div 16 < 16" using \<open>b < 256\<close> by (simp add: less_mult_imp_div_less)
  moreover have "c div 64 < 4" using \<open>c < 256\<close> by (simp add: less_mult_imp_div_less)
  ultimately show ?case using 4 by simp
qed (auto simp: less_mult_imp_div_less)

lemma length_to_sextets: "length (to_sextets bs) \<le> (length bs * 4 + 2) div 3"
  by (induction bs rule: to_sextets.induct) auto

lemma to_sextets_Nil [simp]: "to_sextets bs = [] \<longleftrightarrow> bs = []"
  by (cases bs rule: to_sextets.cases) auto

lemma sextets_of_map: "\<forall>n\<in>set ns. n < 64 \<Longrightarrow> sextets_of url_alphabet (map sextet_char ns) = Some ns"
  by (induction ns) (simp_all add: char_sextet_char)

lemma byte_of_less: "byte_of c < 256"
  by (simp add: byte_of_def)

lemma bytes_sextets: "\<forall>n\<in>set (to_sextets (map byte_of s)). n < 64"
  by (rule to_sextets_range) (simp add: byte_of_less)

lemma sextet_char_word: "n < 64 \<Longrightarrow> ascii_word (sextet_char n) \<and> byte_of (sextet_char n) \<noteq> 10 \<and> byte_of (sextet_char n) \<noteq> 13"
  using url_alphabet_words by (simp add: sextet_char_def list_all_length)

text \<open>Decoding what was encoded gives the text back.\<close>

lemma chars_of_bytes: "map char_at (map byte_of s) = s"
  by (induction s) simp_all

lemma base64_roundtrip: "base64_decode (base64_encode s) = Some s"
proof -
  let ?ns = "to_sextets (map byte_of s)"
  have keep: "filter (\<lambda>c. byte_of c \<noteq> 10 \<and> byte_of c \<noteq> 13) (map sextet_char ?ns) = map sextet_char ?ns"
    using bytes_sextets sextet_char_word by (intro filter_True) auto
  have "from_sextets ?ns = Some (map byte_of s)" by (rule from_to_sextets) (simp add: byte_of_less)
  then show ?thesis
    using sextets_of_map [OF bytes_sextets, of s]
    by (simp add: base64_decode_def raw_decode_def skip_breaks_def decode_body_def base64_encode_def keep chars_of_bytes
        del: map_map)
qed

lemma base64_text:
  assumes "s \<noteq> []" and "length s \<le> 768"
  shows "trim_space (base64_encode s) = base64_encode s \<and> base64_encode s \<noteq> [] \<and> length (base64_encode s) \<le> 1024"
proof -
  have words: "\<forall>c\<in>set (base64_encode s). ascii_word c"
    using bytes_sextets [of s] sextet_char_word by (auto simp: base64_encode_def)
  have nonempty: "base64_encode s \<noteq> []" using assms(1) by (simp add: base64_encode_def)
  then have "ascii_word (hd (base64_encode s))" "ascii_word (last (base64_encode s))" using words by simp_all
  then have "trim_space (base64_encode s) = base64_encode s" by (rule trim_space_word)
  moreover have "length (base64_encode s) \<le> 1024"
    using length_to_sextets [of "map byte_of s"] assms(2) by (simp add: base64_encode_def)
  ultimately show ?thesis using nonempty by blast
qed

section \<open>Decoding shortens\<close>

lemma length_from_sextets: "from_sextets ns = Some bs \<Longrightarrow> 4 * length bs \<le> 3 * length ns"
  by (induction ns arbitrary: bs rule: from_sextets.induct) (auto split: option.splits)

lemma length_sextets_of: "sextets_of alphabet s = Some ns \<Longrightarrow> length ns = length s"
  by (induction s arbitrary: ns) (auto split: option.splits)

lemma length_decode_body: "decode_body alphabet s = Some d \<Longrightarrow> 4 * length d \<le> 3 * length s"
  by (fastforce simp: decode_body_def split: option.splits dest: length_from_sextets length_sextets_of)

lemma length_skip_breaks: "length (skip_breaks s) \<le> length s"
  by (simp add: skip_breaks_def)

lemma length_raw_decode: "raw_decode alphabet s = Some d \<Longrightarrow> 4 * length d \<le> 3 * length s"
  using length_decode_body [of alphabet "skip_breaks s" d] length_skip_breaks [of s] by (simp add: raw_decode_def)

lemma length_padded_decode: "padded_decode alphabet s = Some d \<Longrightarrow> 4 * length d \<le> 3 * length s"
  using length_decode_body [of alphabet "takeWhile (\<lambda>c. c \<noteq> CHR ''='') (skip_breaks s)" d] length_skip_breaks [of s]
    length_takeWhile_le [of "\<lambda>c. c \<noteq> CHR ''=''" "skip_breaks s"]
  by (simp add: padded_decode_def Let_def split: if_splits)

end
