(* ===== verification/Cursors.thy ===== *)
theory Cursors
  imports Conflict_Case Go_Base64
begin

text \<open>
  Opaque pagination cursors: the queue cursor (internal/domain/conflict_queue.go) and the two
  evidence-conflict cursors (internal/knowledge/contract/evidence_conflict.go). A cursor is validated,
  marshalled to JSON and written in unpadded URL-safe base64. \<open>encoding/base64\<close> is \<open>Go_Base64\<close>; the
  JSON text of a cursor is a parameter (\<open>marshal\<close>, \<open>unmarshal\<close>), and so is \<open>uuid.Parse\<close>.
\<close>

section \<open>Cursors\<close>

datatype evidence_conflict_error = ErrEvidenceConflictInvalidCommand | ErrEvidenceConflictMarshal

text \<open>The steps that the encoders and decoders share.\<close>

definition encode_cursor :: "('c \<Rightarrow> 'e option) \<Rightarrow> ('c \<Rightarrow> string option) \<Rightarrow> 'e \<Rightarrow> 'c \<Rightarrow> 'e + string" where
  "encode_cursor validate marshal failed c = (case validate c of
     Some e \<Rightarrow> Inl e
   | None \<Rightarrow> (case marshal c of None \<Rightarrow> Inl failed | Some payload \<Rightarrow> Inr (base64_encode payload)))"

definition decode_cursor :: "('c \<Rightarrow> 'e option) \<Rightarrow> (string \<Rightarrow> 'c option) \<Rightarrow> 'e \<Rightarrow> string \<Rightarrow> 'e + 'c" where
  "decode_cursor validate unmarshal invalid raw0 =
     (let raw = trim_space raw0 in
      if raw = [] \<or> 1024 < length raw then Inl invalid
      else case base64_decode raw of
        None \<Rightarrow> Inl invalid
      | Some payload \<Rightarrow>
          if payload = [] then Inl invalid
          else case unmarshal payload of
                 None \<Rightarrow> Inl invalid
               | Some c \<Rightarrow> (case validate c of Some e \<Rightarrow> Inl e | None \<Rightarrow> Inr c))"

datatype queue_codec_error = QueueCursor cursor_error | QueueMarshal

definition validate_queue_cursor :: "(string \<Rightarrow> bool) \<Rightarrow> queue_cursor \<Rightarrow> queue_codec_error option" where
  "validate_queue_cursor uuid_ok c = map_option QueueCursor (ValidateScope uuid_ok c (qc_TeamID c) (qc_StatusFilter c))"

definition EncodeConflictQueueCursor :: "(string \<Rightarrow> bool) \<Rightarrow> (queue_cursor \<Rightarrow> string option) \<Rightarrow> queue_cursor
    \<Rightarrow> queue_codec_error + string" where
  "EncodeConflictQueueCursor uuid_ok marshal c = encode_cursor (validate_queue_cursor uuid_ok) marshal QueueMarshal c"

definition DecodeConflictQueueCursor :: "(string \<Rightarrow> bool) \<Rightarrow> (string \<Rightarrow> queue_cursor option) \<Rightarrow> string
    \<Rightarrow> queue_codec_error + queue_cursor" where
  "DecodeConflictQueueCursor uuid_ok unmarshal raw =
     decode_cursor (validate_queue_cursor uuid_ok) unmarshal (QueueCursor ErrInvalidConflictQueueCursor) raw"

record evidence_cursor =
  ec_Version :: int
  ec_TeamID :: string
  ec_StatusFilter :: string
  ec_UpdatedAt :: time
  ec_ConflictID :: string

record event_cursor =
  ev_Version :: int
  ev_TeamID :: string
  ev_ConflictID :: string
  ev_Ordinal :: int
  ev_EventID :: string

definition validEvidenceConflictStatus :: "string \<Rightarrow> bool" where
  "validEvidenceConflictStatus status \<longleftrightarrow> lower_trim status \<in> set [''open'', ''resolved'', ''dismissed'']"

definition evidence_cursor_Validate :: "(string \<Rightarrow> bool) \<Rightarrow> evidence_cursor \<Rightarrow> string \<Rightarrow> string \<Rightarrow> evidence_conflict_error option" where
  "evidence_cursor_Validate uuid_ok c teamID status =
     (if ec_Version c \<noteq> 1 \<or> ec_UpdatedAt c = zero_time then Some ErrEvidenceConflictInvalidCommand
      else if \<not> uuid_ok (trim_space (ec_TeamID c)) then Some ErrEvidenceConflictInvalidCommand
      else if \<not> uuid_ok (trim_space (ec_ConflictID c)) then Some ErrEvidenceConflictInvalidCommand
      else if ec_StatusFilter c \<noteq> [] \<and> \<not> validEvidenceConflictStatus (ec_StatusFilter c) then Some ErrEvidenceConflictInvalidCommand
      else if trim_space teamID \<noteq> [] \<and> ec_TeamID c \<noteq> trim_space teamID then Some ErrEvidenceConflictInvalidCommand
      else if ec_StatusFilter c \<noteq> trim_space status then Some ErrEvidenceConflictInvalidCommand
      else None)"

definition event_cursor_Validate :: "(string \<Rightarrow> bool) \<Rightarrow> event_cursor \<Rightarrow> string \<Rightarrow> string \<Rightarrow> evidence_conflict_error option" where
  "event_cursor_Validate uuid_ok c teamID conflictID =
     (if ev_Version c \<noteq> 1 \<or> ev_Ordinal c < 1 then Some ErrEvidenceConflictInvalidCommand
      else if \<not> uuid_ok (trim_space (ev_TeamID c)) then Some ErrEvidenceConflictInvalidCommand
      else if \<not> uuid_ok (trim_space (ev_ConflictID c)) then Some ErrEvidenceConflictInvalidCommand
      else if \<not> uuid_ok (trim_space (ev_EventID c)) then Some ErrEvidenceConflictInvalidCommand
      else if trim_space teamID \<noteq> [] \<and> ev_TeamID c \<noteq> trim_space teamID then Some ErrEvidenceConflictInvalidCommand
      else if trim_space conflictID \<noteq> [] \<and> ev_ConflictID c \<noteq> trim_space conflictID then Some ErrEvidenceConflictInvalidCommand
      else None)"

definition EncodeEvidenceConflictCursor :: "(string \<Rightarrow> bool) \<Rightarrow> (evidence_cursor \<Rightarrow> string option) \<Rightarrow> evidence_cursor
    \<Rightarrow> evidence_conflict_error + string" where
  "EncodeEvidenceConflictCursor uuid_ok marshal c =
     encode_cursor (\<lambda>c. evidence_cursor_Validate uuid_ok c (ec_TeamID c) (ec_StatusFilter c)) marshal ErrEvidenceConflictMarshal c"

definition DecodeEvidenceConflictCursor :: "(string \<Rightarrow> bool) \<Rightarrow> (string \<Rightarrow> evidence_cursor option) \<Rightarrow> string
    \<Rightarrow> evidence_conflict_error + evidence_cursor" where
  "DecodeEvidenceConflictCursor uuid_ok unmarshal raw =
     decode_cursor (\<lambda>c. evidence_cursor_Validate uuid_ok c (ec_TeamID c) (ec_StatusFilter c)) unmarshal
       ErrEvidenceConflictInvalidCommand raw"

definition EncodeEvidenceConflictEventCursor :: "(string \<Rightarrow> bool) \<Rightarrow> (event_cursor \<Rightarrow> string option) \<Rightarrow> event_cursor
    \<Rightarrow> evidence_conflict_error + string" where
  "EncodeEvidenceConflictEventCursor uuid_ok marshal c =
     encode_cursor (\<lambda>c. event_cursor_Validate uuid_ok c (ev_TeamID c) (ev_ConflictID c)) marshal ErrEvidenceConflictMarshal c"

definition DecodeEvidenceConflictEventCursor :: "(string \<Rightarrow> bool) \<Rightarrow> (string \<Rightarrow> event_cursor option) \<Rightarrow> string
    \<Rightarrow> evidence_conflict_error + event_cursor" where
  "DecodeEvidenceConflictEventCursor uuid_ok unmarshal raw =
     decode_cursor (\<lambda>c. event_cursor_Validate uuid_ok c (ev_TeamID c) (ev_ConflictID c)) unmarshal
       ErrEvidenceConflictInvalidCommand raw"

section \<open>Round trips\<close>

text \<open>
  What the cursors rely on: the JSON text of the cursor reads back as the cursor. The limit of 1024
  characters on the encoded cursor leaves 768 bytes for that text.
\<close>

definition reads_back :: "('c \<Rightarrow> string option) \<Rightarrow> (string \<Rightarrow> 'c option) \<Rightarrow> 'c \<Rightarrow> bool" where
  "reads_back marshal unmarshal c = (case marshal c of
     None \<Rightarrow> False
   | Some payload \<Rightarrow> payload \<noteq> [] \<and> length payload \<le> 768 \<and> unmarshal payload = Some c)"

lemma cursor_roundtrip:
  assumes "reads_back marshal unmarshal c"
  shows "(\<exists>raw. encode_cursor validate marshal failed c = Inr raw \<and> decode_cursor validate unmarshal invalid raw = Inr c)
    \<longleftrightarrow> validate c = None"
proof -
  obtain payload where payload: "marshal c = Some payload" "payload \<noteq> []" "length payload \<le> 768" "unmarshal payload = Some c"
    using assms by (auto simp: reads_back_def split: option.splits)
  have "encode_cursor validate marshal failed c
      = (case validate c of Some e \<Rightarrow> Inl e | None \<Rightarrow> Inr (base64_encode payload))"
    by (simp add: encode_cursor_def payload(1) split: option.split)
  moreover have "decode_cursor validate unmarshal invalid (base64_encode payload)
      = (case validate c of Some e \<Rightarrow> Inl e | None \<Rightarrow> Inr c)"
    using base64_text [OF payload(2,3)] base64_roundtrip [of payload] payload by (simp add: decode_cursor_def Let_def)
  ultimately show ?thesis by (cases "validate c") simp_all
qed

text \<open>Whatever text a client presents, a decoded cursor is valid.\<close>

lemma decoded_valid: "decode_cursor validate unmarshal invalid raw = Inr c \<Longrightarrow> validate c = None"
  by (auto simp: decode_cursor_def Let_def split: if_splits option.splits)

section \<open>Properties\<close>

text \<open>
  C40 (conflict_cursors_roundtrip): a cursor whose JSON text reads back (and has at most 768 bytes) encodes to
  a text that decodes to the same cursor, exactly when the cursor is valid for its own scope: this holds of
  the queue cursor, of the cursor of evidence conflicts and of the cursor of their events.
\<close>

theorem conflict_cursors_roundtrip:
  assumes "reads_back qm qu q" and "reads_back em eu e" and "reads_back vm vu v"
  shows "((\<exists>raw. EncodeConflictQueueCursor uuid_ok qm q = Inr raw \<and> DecodeConflictQueueCursor uuid_ok qu raw = Inr q)
      \<longleftrightarrow> ValidateScope uuid_ok q (qc_TeamID q) (qc_StatusFilter q) = None)
    \<and> ((\<exists>raw. EncodeEvidenceConflictCursor uuid_ok em e = Inr raw \<and> DecodeEvidenceConflictCursor uuid_ok eu raw = Inr e)
      \<longleftrightarrow> evidence_cursor_Validate uuid_ok e (ec_TeamID e) (ec_StatusFilter e) = None)
    \<and> ((\<exists>raw. EncodeEvidenceConflictEventCursor uuid_ok vm v = Inr raw \<and> DecodeEvidenceConflictEventCursor uuid_ok vu raw = Inr v)
      \<longleftrightarrow> event_cursor_Validate uuid_ok v (ev_TeamID v) (ev_ConflictID v) = None)"
  unfolding EncodeConflictQueueCursor_def DecodeConflictQueueCursor_def EncodeEvidenceConflictCursor_def
    DecodeEvidenceConflictCursor_def EncodeEvidenceConflictEventCursor_def DecodeEvidenceConflictEventCursor_def
  by (simp_all add: cursor_roundtrip [OF assms(1)] cursor_roundtrip [OF assms(2)] cursor_roundtrip [OF assms(3)]
      validate_queue_cursor_def)

definition sample_queue_cursor :: queue_cursor where
  "sample_queue_cursor = \<lparr>qc_Version = 1, qc_TeamID = ''t'', qc_StatusFilter = ''open'', qc_Status = ''open'',
     qc_NextReviewAt = 1, qc_ConflictID = ''c''\<rparr>"

definition sample_evidence_cursor :: evidence_cursor where
  "sample_evidence_cursor = \<lparr>ec_Version = 1, ec_TeamID = ''t'', ec_StatusFilter = [], ec_UpdatedAt = 1, ec_ConflictID = ''c''\<rparr>"

definition sample_event_cursor :: event_cursor where
  "sample_event_cursor = \<lparr>ev_Version = 1, ev_TeamID = ''t'', ev_ConflictID = ''c'', ev_Ordinal = 0, ev_EventID = ''e''\<rparr>"

lemma conflict_cursors_roundtrip_witness:
  "(\<exists>raw. EncodeConflictQueueCursor (\<lambda>s. s \<noteq> []) (\<lambda>c. Some ''{}'') sample_queue_cursor = Inr raw
      \<and> DecodeConflictQueueCursor (\<lambda>s. s \<noteq> []) (\<lambda>p. Some sample_queue_cursor) raw = Inr sample_queue_cursor)
   \<and> (\<exists>raw. EncodeEvidenceConflictCursor (\<lambda>s. s \<noteq> []) (\<lambda>c. Some ''{}'') sample_evidence_cursor = Inr raw
      \<and> DecodeEvidenceConflictCursor (\<lambda>s. s \<noteq> []) (\<lambda>p. Some sample_evidence_cursor) raw = Inr sample_evidence_cursor)
   \<and> \<not> (\<exists>raw. EncodeEvidenceConflictEventCursor (\<lambda>s. s \<noteq> []) (\<lambda>c. Some ''{}'') sample_event_cursor = Inr raw
      \<and> DecodeEvidenceConflictEventCursor (\<lambda>s. s \<noteq> []) (\<lambda>p. Some sample_event_cursor) raw = Inr sample_event_cursor)"
proof -
  have q: "reads_back (\<lambda>c. Some ''{}'') (\<lambda>p. Some sample_queue_cursor) sample_queue_cursor"
    and e: "reads_back (\<lambda>c. Some ''{}'') (\<lambda>p. Some sample_evidence_cursor) sample_evidence_cursor"
    and v: "reads_back (\<lambda>c. Some ''{}'') (\<lambda>p. Some sample_event_cursor) sample_event_cursor"
    by (simp_all add: reads_back_def)
  have valid: "ValidateScope (\<lambda>s. s \<noteq> []) sample_queue_cursor (qc_TeamID sample_queue_cursor) (qc_StatusFilter sample_queue_cursor) = None"
    "evidence_cursor_Validate (\<lambda>s. s \<noteq> []) sample_evidence_cursor (ec_TeamID sample_evidence_cursor) (ec_StatusFilter sample_evidence_cursor) = None"
    "event_cursor_Validate (\<lambda>s. s \<noteq> []) sample_event_cursor (ev_TeamID sample_event_cursor) (ev_ConflictID sample_event_cursor) \<noteq> None"
    by (simp_all add: ValidateScope_def evidence_cursor_Validate_def event_cursor_Validate_def sample_queue_cursor_def
        sample_evidence_cursor_def sample_event_cursor_def go_string_eval)
  show ?thesis
    using conflict_cursors_roundtrip [OF q e v, where uuid_ok = "\<lambda>s. s \<noteq> []"] valid by blast
qed

end
