(* ===== verification/Go_Text.thy ===== *)
theory Go_Text
  imports Go_Strings
begin

text \<open>
  A string cut at its runes, and the functions of package \<open>strings\<close> that work on runes: trimming with a cut
  set, \<open>Fields\<close>, \<open>FieldsFunc\<close>, \<open>Split\<close>, \<open>Index\<close> and \<open>LastIndexAny\<close>. Byte offsets are those of Go.
\<close>

section \<open>The runes of a string with their bytes\<close>

lemma take_rune_prefix:
  assumes "take_rune bs = (r, rest)" and "bs = c @ rest" and "bs \<noteq> []" and "prefix t rest"
  shows "take_rune (c @ t) = (r, t)"
proof -
  obtain b0 bs1 where bs: "bs = b0 # bs1" using assms(3) by (cases bs) auto
  obtain c1 where c: "c = b0 # c1"
    using assms(1,2) take_rune_shorter [OF assms(3)] bs by (cases c) auto
  have tail: "bs1 = c1 @ rest" using assms(2) bs c by simp
  obtain u where u: "rest = t @ u" using assms(4) by (auto elim: prefixE)
  show ?thesis
    using assms(1) unfolding bs c tail u
    by (auto split: if_splits list.splits simp: append_eq_Cons_conv Cons_eq_append_conv)
qed

lemma take_rune_suffix: "\<exists>c. bs = c @ snd (take_rune bs)"
  by (cases bs) (auto split: list.splits)

function chunks :: "string \<Rightarrow> (nat \<times> string) list" where
  "chunks s =
     (if s = [] then []
      else let (r, rest) = take_rune (map byte_of s); n = length s - length rest
           in (r, take n s) # chunks (drop n s))"
  by pat_completeness auto
termination
proof (relation "measure length")
  fix s :: string and x r rest n
  assume "s \<noteq> []" "x = take_rune (map byte_of s)" "(r, rest) = x" "n = length s - length rest"
  moreover from this have "length rest < length s"
    using take_rune_shorter [of "map byte_of s"] by (metis length_map map_is_Nil_conv snd_conv)
  ultimately show "(drop n s, s) \<in> measure length" by simp
qed simp

declare chunks.simps [simp del]

lemma chunks_Nil [simp]: "chunks [] = []"
  by (simp add: chunks.simps)

lemma chunks_step:
  assumes "s \<noteq> []"
  obtains r n where "0 < n" "n \<le> length s" "chunks s = (r, take n s) # chunks (drop n s)"
    "take_rune (map byte_of s) = (r, map byte_of (drop n s))"
proof -
  obtain r rest where t: "take_rune (map byte_of s) = (r, rest)" by fastforce
  obtain c where c: "map byte_of s = c @ rest" using take_rune_suffix [of "map byte_of s"] t by auto
  have short: "length rest < length s" using take_rune_shorter [of "map byte_of s"] assms t by simp
  have len: "length s = length c + length rest" using arg_cong [OF c, of length] by simp
  then have n: "length s - length rest = length c" "0 < length c" "length c \<le> length s" using short by simp_all
  have "rest = map byte_of (drop (length c) s)" using arg_cong [OF c, of "drop (length c)"] by (simp add: drop_map)
  then show ?thesis
    using that [OF n(2,3), of r] n(1) assms t by (simp add: chunks.simps [of s] Let_def)
qed

lemma chunks_runes: "map fst (chunks s) = runes s"
proof (induction s rule: length_induct)
  case (1 s)
  show ?case
  proof (cases "s = []")
    case False
    then obtain r n where "0 < n" "n \<le> length s" "chunks s = (r, take n s) # chunks (drop n s)"
      "take_rune (map byte_of s) = (r, map byte_of (drop n s))" by (rule chunks_step)
    with 1 False show ?thesis by (simp add: runes_def decode_runes.simps [of "map byte_of s"])
  qed (simp add: runes_def)
qed

lemma chunks_concat: "concat (map snd (chunks s)) = s"
proof (induction s rule: length_induct)
  case (1 s)
  show ?case
  proof (cases "s = []")
    case False
    then obtain r n where "0 < n" "n \<le> length s" "chunks s = (r, take n s) # chunks (drop n s)" by (rule chunks_step)
    with 1 False show ?thesis by simp
  qed simp
qed

lemma length_chunks: "length (chunks s) = rune_count s"
  using arg_cong [OF chunks_runes, of length s] by (simp add: rune_count_def)

lemma chunks_nonempty: "p \<in> set (chunks s) \<Longrightarrow> snd p \<noteq> []"
proof (induction s rule: length_induct)
  case (1 s)
  then have "s \<noteq> []" by auto
  then obtain r n where "0 < n" "n \<le> length s" "chunks s = (r, take n s) # chunks (drop n s)" by (rule chunks_step)
  with 1 \<open>s \<noteq> []\<close> show ?case by auto
qed

text \<open>Cutting a string after some of its runes does not change how the runes before the cut are read.\<close>

lemma chunks_take: "chunks (concat (map snd (take k (chunks s)))) = take k (chunks s)"
proof (induction s arbitrary: k rule: length_induct)
  case (1 s)
  show ?case
  proof (cases "s = [] \<or> k = 0")
    case False
    then obtain j where k: "k = Suc j" by (cases k) auto
    obtain r n where n: "0 < n" "n \<le> length s" "chunks s = (r, take n s) # chunks (drop n s)"
      "take_rune (map byte_of s) = (r, map byte_of (drop n s))" using chunks_step [of s] False by metis
    define t where "t = concat (map snd (take j (chunks (drop n s))))"
    have t: "chunks t = take j (chunks (drop n s))" using 1 False n(1) by (simp add: t_def)
    have "t @ concat (map snd (drop j (chunks (drop n s)))) = drop n s"
      unfolding t_def concat_append [symmetric] map_append [symmetric] append_take_drop_id by (rule chunks_concat)
    then have "prefix t (drop n s)" by (metis prefixI)
    then have "prefix (map byte_of t) (map byte_of (drop n s))" by (rule map_mono_prefix)
    moreover have "map byte_of s = map byte_of (take n s) @ map byte_of (drop n s)"
      by (metis append_take_drop_id map_append)
    ultimately have "take_rune (map byte_of (take n s) @ map byte_of t) = (r, map byte_of t)"
      using take_rune_prefix [OF n(4)] False by simp
    then have "take_rune (map byte_of (take n s @ t)) = (r, map byte_of t)" by simp
    moreover have "take n s @ t \<noteq> []" using n(1,2) False by simp
    ultimately have "chunks (take n s @ t) = (r, take n s) # chunks t"
      using n(2) by (simp add: chunks.simps [of "take n s @ t"])
    moreover have "concat (map snd (take k (chunks s))) = take n s @ t" by (simp add: k n(3) t_def)
    moreover have "take k (chunks s) = (r, take n s) # chunks t" by (simp add: k n(3) t)
    ultimately show ?thesis by (simp only:)
  qed auto
qed

text \<open>The byte offset of the \<open>k\<close>-th rune.\<close>

definition offset :: "string \<Rightarrow> nat \<Rightarrow> nat" where
  "offset s k = length (concat (map snd (take k (chunks s))))"

lemma take_offset: "take (offset s k) s = concat (map snd (take k (chunks s)))"
proof -
  have "s = concat (map snd (take k (chunks s))) @ concat (map snd (drop k (chunks s)))"
    unfolding concat_append [symmetric] map_append [symmetric] append_take_drop_id by (rule chunks_concat [symmetric])
  then show ?thesis unfolding offset_def by (metis append_eq_conv_conj)
qed

lemma offset_le: "offset s k \<le> length s"
proof -
  have "offset s k = length (take (offset s k) s)" unfolding take_offset by (simp add: offset_def)
  then show ?thesis by simp
qed

lemma rune_count_offset: "rune_count (take (offset s k) s) = min k (rune_count s)"
  unfolding take_offset length_chunks [symmetric] chunks_take by simp

lemma offset_mono: "j \<le> k \<Longrightarrow> offset s j \<le> offset s k"
proof -
  assume "j \<le> k"
  then have "take k (chunks s) = take j (chunks s) @ take (k - j) (drop j (chunks s))"
    by (metis le_add_diff_inverse take_add)
  then show ?thesis by (simp add: offset_def)
qed

lemma offset_0 [simp]: "offset s 0 = 0"
  by (simp add: offset_def)

lemma offset_strict:
  assumes "j < k" and "k \<le> rune_count s"
  shows "offset s j < offset s k"
proof -
  have "offset s j < offset s (Suc j)"
    using assms chunks_nonempty [of "chunks s ! j" s] by (simp add: offset_def take_Suc_conv_app_nth length_chunks)
  also have "\<dots> \<le> offset s k" using assms(1) by (simp add: offset_mono)
  finally show ?thesis .
qed

section \<open>Functions of package strings\<close>

text \<open>\<open>unicode.IsSpace\<close>.\<close>

definition space_rune :: "nat \<Rightarrow> bool" where
  "space_rune r \<longleftrightarrow> 9 \<le> r \<and> r \<le> 13 \<or> r = 32 \<or> r = 133 \<or> r = 160 \<or> r = 5760 \<or> 8192 \<le> r \<and> r \<le> 8202
     \<or> r = 8232 \<or> r = 8233 \<or> r = 8239 \<or> r = 8287 \<or> r = 12288"

definition trim_left_by :: "(nat \<Rightarrow> bool) \<Rightarrow> string \<Rightarrow> string" where
  "trim_left_by P s = concat (map snd (dropWhile (\<lambda>p. P (fst p)) (chunks s)))"

definition trim_right_by :: "(nat \<Rightarrow> bool) \<Rightarrow> string \<Rightarrow> string" where
  "trim_right_by P s = concat (map snd (rev (dropWhile (\<lambda>p. P (fst p)) (rev (chunks s)))))"

definition trim_by :: "(nat \<Rightarrow> bool) \<Rightarrow> string \<Rightarrow> string" where
  "trim_by P s = trim_right_by P (trim_left_by P s)"

text \<open>The maximal runs of list elements that do not satisfy \<open>P\<close>.\<close>

function field_runs :: "('a \<Rightarrow> bool) \<Rightarrow> 'a list \<Rightarrow> 'a list list" where
  "field_runs P xs =
     (case dropWhile P xs of
        [] \<Rightarrow> []
      | y # ys \<Rightarrow> takeWhile (\<lambda>x. \<not> P x) (y # ys) # field_runs P (dropWhile (\<lambda>x. \<not> P x) (y # ys)))"
  by pat_completeness auto
termination
proof (relation "measure (length \<circ> snd)")
  fix P :: "'a \<Rightarrow> bool" and xs y ys
  assume a: "dropWhile P xs = y # ys"
  then have "\<not> P y" by (simp add: dropWhile_eq_Cons_conv)
  then have "length (dropWhile (\<lambda>x. \<not> P x) (y # ys)) \<le> length ys" by (simp add: length_dropWhile_le)
  moreover have "length (y # ys) \<le> length xs" using length_dropWhile_le [of P xs] by (simp only: a)
  ultimately show "((P, dropWhile (\<lambda>x. \<not> P x) (y # ys)), P, xs) \<in> measure (length \<circ> snd)" by simp
qed simp

declare field_runs.simps [simp del]

definition fields_func :: "(nat \<Rightarrow> bool) \<Rightarrow> string \<Rightarrow> string list" where
  "fields_func P s = map (\<lambda>ps. concat (map snd ps)) (field_runs (\<lambda>p. P (fst p)) (chunks s))"

definition go_fields :: "string \<Rightarrow> string list" where
  "go_fields s = fields_func space_rune s"

text \<open>\<open>strings.Split(s, sep)\<close> for a separator of one byte.\<close>

fun split_byte :: "char \<Rightarrow> string \<Rightarrow> string list" where
  "split_byte c [] = [[]]"
| "split_byte c (x # xs) = (if x = c then [] # split_byte c xs
     else case split_byte c xs of [] \<Rightarrow> [[x]] | p # ps \<Rightarrow> (x # p) # ps)"

text \<open>\<open>strings.Index\<close>; no occurrence is \<open>None\<close>.\<close>

fun go_index :: "string \<Rightarrow> string \<Rightarrow> nat option" where
  "go_index sub [] = (if sub = [] then Some 0 else None)"
| "go_index sub (c # cs) = (if prefix sub (c # cs) then Some 0 else map_option Suc (go_index sub cs))"

definition go_contains :: "string \<Rightarrow> string \<Rightarrow> bool" where
  "go_contains s sub \<longleftrightarrow> go_index sub s \<noteq> None"

definition contains_any :: "string \<Rightarrow> string \<Rightarrow> bool" where
  "contains_any s chars \<longleftrightarrow> list_ex (\<lambda>c. c \<in> set chars) s"

text \<open>\<open>strings.LastIndexAny(s, chars) + 1\<close> for ASCII characters, so 0 when there is none.\<close>

definition after_last_any :: "string \<Rightarrow> string \<Rightarrow> nat" where
  "after_last_any chars s = length s - length (takeWhile (\<lambda>c. c \<notin> set chars) (rev s))"

definition trim_prefix :: "string \<Rightarrow> string \<Rightarrow> string" where
  "trim_prefix p s = (if prefix p s then drop (length p) s else s)"

lemma length_trim_left_by: "length (trim_left_by P s) \<le> length s"
proof -
  have "length (concat (map snd (dropWhile Q xs))) \<le> length (concat (map snd xs))" for Q and xs :: "(nat \<times> string) list"
    by (induction xs) auto
  from this [of _ "chunks s"] show ?thesis unfolding trim_left_by_def by (simp only: chunks_concat)
qed

lemma length_trim_right_by: "length (trim_right_by P s) \<le> length s"
proof -
  have "length (concat (map snd (rev (dropWhile Q (rev xs))))) \<le> length (concat (map snd xs))" for Q and xs :: "(nat \<times> string) list"
    by (induction xs rule: rev_induct) auto
  from this [of _ "chunks s"] show ?thesis unfolding trim_right_by_def by (simp only: chunks_concat)
qed

lemma go_index_Some: "go_index sub s = Some i \<Longrightarrow> i + length sub \<le> length s"
proof (induction s arbitrary: i)
  case (Cons c cs)
  show ?case
  proof (cases "prefix sub (c # cs)")
    case True
    with Cons.prems prefix_length_le [OF True] show ?thesis by simp
  next
    case False
    then obtain j where "go_index sub cs = Some j" "i = Suc j" using Cons.prems by auto
    with Cons.IH show ?thesis by simp
  qed
qed (simp split: if_splits)

end
