(* ===== verification/Go_Regexp.thy ===== *)
theory Go_Regexp
  imports Go_Text
begin

text \<open>
  Go's \<open>regexp\<close> package as far as the modelled code uses it: the syntax tree of a pattern, leftmost-first
  matching, and the functions \<open>MatchString\<close>, \<open>FindStringIndex\<close>, \<open>FindAllStringIndex\<close> and \<open>Split\<close>. A pattern
  matches runes; positions are byte offsets, as in Go.
\<close>

section \<open>Patterns\<close>

text \<open>
  A class is a list of ranges of runes. \<open>RBegin\<close> is \<open>^\<close> without the flag \<open>m\<close>, \<open>RLine\<close> is \<open>^\<close> with it, \<open>REnd\<close>
  is \<open>$\<close> without it, \<open>RWord\<close> is \<open>\b\<close>. The flag of \<open>ROpt\<close> and \<open>RStar\<close> is greediness.
\<close>

datatype rx = RSet "(nat \<times> nat) list" | RBegin | RLine | REnd | RWord | REmp
  | RCat rx rx | RAlt rx rx | ROpt bool rx | RStar bool rx

definition in_ranges :: "nat \<Rightarrow> (nat \<times> nat) list \<Rightarrow> bool" where
  "in_ranges c ranges \<longleftrightarrow> list_ex (\<lambda>(a, b). a \<le> c \<and> c \<le> b) ranges"

definition word_rune :: "nat \<Rightarrow> bool" where
  "word_rune c \<longleftrightarrow> 48 \<le> c \<and> c \<le> 57 \<or> 65 \<le> c \<and> c \<le> 90 \<or> c = 95 \<or> 97 \<le> c \<and> c \<le> 122"

definition word_boundary :: "nat list \<Rightarrow> nat \<Rightarrow> bool" where
  "word_boundary t i \<longleftrightarrow> (0 < i \<and> i \<le> length t \<and> word_rune (t ! (i - 1))) \<noteq> (i < length t \<and> word_rune (t ! i))"

text \<open>
  Concatenation, alternation, repetition and literals. A folded literal is one under the flag \<open>i\<close>: a letter
  matches in both cases, and by simple folding \<open>k\<close> also matches U+212A and \<open>s\<close> also U+017F.
\<close>

fun rx_cats :: "rx list \<Rightarrow> rx" where
  "rx_cats [] = REmp"
| "rx_cats [r] = r"
| "rx_cats (r # s # rs) = RCat r (rx_cats (s # rs))"

fun rx_alts :: "rx list \<Rightarrow> rx" where
  "rx_alts [] = RSet []"
| "rx_alts [r] = r"
| "rx_alts (r # s # rs) = RAlt r (rx_alts (s # rs))"

definition rx_plus :: "bool \<Rightarrow> rx \<Rightarrow> rx" where
  "rx_plus greedy r = RCat r (RStar greedy r)"

primrec rx_times :: "nat \<Rightarrow> rx \<Rightarrow> rx" where
  "rx_times 0 r = REmp"
| "rx_times (Suc n) r = RCat r (rx_times n r)"

primrec rx_upto :: "bool \<Rightarrow> nat \<Rightarrow> rx \<Rightarrow> rx" where
  "rx_upto greedy 0 r = REmp"
| "rx_upto greedy (Suc n) r = ROpt greedy (RCat r (rx_upto greedy n r))"

definition rx_between :: "bool \<Rightarrow> nat \<Rightarrow> nat \<Rightarrow> rx \<Rightarrow> rx" where
  "rx_between greedy n m r = RCat (rx_times n r) (rx_upto greedy (m - n) r)"

definition rx_at_least :: "bool \<Rightarrow> nat \<Rightarrow> rx \<Rightarrow> rx" where
  "rx_at_least greedy n r = RCat (rx_times n r) (RStar greedy r)"

definition rx_lit :: "string \<Rightarrow> rx" where
  "rx_lit s = rx_cats (map (\<lambda>c. RSet [(byte_of c, byte_of c)]) s)"

definition fold_ranges :: "nat \<Rightarrow> (nat \<times> nat) list" where
  "fold_ranges c = (let l = (if 65 \<le> c \<and> c \<le> 90 then c + 32 else c) in
     if 97 \<le> l \<and> l \<le> 122
     then (l, l) # (l - 32, l - 32) # (if l = 107 then [(8490, 8490)] else if l = 115 then [(383, 383)] else [])
     else [(c, c)])"

definition rx_word :: "string \<Rightarrow> rx" where
  "rx_word s = rx_cats (map (\<lambda>c. RSet (fold_ranges (byte_of c))) s)"

text \<open>\<open>[[:space:]]\<close>, \<open>\s\<close>, \<open>[[:alpha:]]\<close> and \<open>.\<close> under the flag \<open>s\<close>.\<close>

definition posix_space :: rx where "posix_space = RSet [(9, 13), (32, 32)]"
definition perl_space :: rx where "perl_space = RSet [(9, 10), (12, 13), (32, 32)]"
definition any_rune :: rx where "any_rune = RSet [(0, 1114111)]"

text \<open>
  The ends of the matches that start at \<open>i\<close>, in the order of preference of a backtracking matcher, so that
  the first one is Go's match. An iteration of a star that consumes nothing is not repeated; fuel for the
  rest of the text is enough (\<open>star_fuel\<close>).
\<close>

primrec star_ends :: "nat \<Rightarrow> bool \<Rightarrow> (nat \<Rightarrow> nat list) \<Rightarrow> nat \<Rightarrow> nat list" where
  "star_ends 0 greedy step i = [i]"
| "star_ends (Suc fuel) greedy step i =
     (let more = concat (map (\<lambda>j. if i < j then star_ends fuel greedy step j else []) (step i))
      in if greedy then more @ [i] else i # more)"

primrec rx_ends :: "rx \<Rightarrow> nat list \<Rightarrow> nat \<Rightarrow> nat list" where
  "rx_ends (RSet ranges) t i = (if i < length t \<and> in_ranges (t ! i) ranges then [Suc i] else [])"
| "rx_ends RBegin t i = (if i = 0 then [i] else [])"
| "rx_ends RLine t i = (if i = 0 \<or> i \<le> length t \<and> t ! (i - 1) = 10 then [i] else [])"
| "rx_ends REnd t i = (if i = length t then [i] else [])"
| "rx_ends RWord t i = (if word_boundary t i then [i] else [])"
| "rx_ends REmp t i = [i]"
| "rx_ends (RCat a b) t i = concat (map (rx_ends b t) (rx_ends a t i))"
| "rx_ends (RAlt a b) t i = rx_ends a t i @ rx_ends b t i"
| "rx_ends (ROpt greedy a) t i = (if greedy then rx_ends a t i @ [i] else i # rx_ends a t i)"
| "rx_ends (RStar greedy a) t i = star_ends (length t - i) greedy (rx_ends a t) i"

text \<open>The length of the shortest match.\<close>

primrec rx_min :: "rx \<Rightarrow> nat" where
  "rx_min (RSet ranges) = 1"
| "rx_min RBegin = 0"
| "rx_min RLine = 0"
| "rx_min REnd = 0"
| "rx_min RWord = 0"
| "rx_min REmp = 0"
| "rx_min (RCat a b) = rx_min a + rx_min b"
| "rx_min (RAlt a b) = min (rx_min a) (rx_min b)"
| "rx_min (ROpt greedy a) = 0"
| "rx_min (RStar greedy a) = 0"

lemma rx_min_cats [simp]: "rx_min (rx_cats rs) = sum_list (map rx_min rs)"
  by (induction rs rule: rx_cats.induct) simp_all

lemma rx_min_times [simp]: "rx_min (rx_times n r) = n * rx_min r"
  by (induction n) simp_all

lemma rx_min_upto [simp]: "rx_min (rx_upto greedy n r) = 0"
  by (cases n) simp_all

lemma rx_min_repeat [simp]:
  "rx_min (rx_plus greedy r) = rx_min r" "rx_min (rx_between greedy n m r) = n * rx_min r"
  "rx_min (rx_at_least greedy n r) = n * rx_min r"
  by (simp_all add: rx_plus_def rx_between_def rx_at_least_def)

lemma rx_min_lit [simp]: "rx_min (rx_lit s) = length s" "rx_min (rx_word s) = length s"
  by (simp_all add: rx_lit_def rx_word_def comp_def sum_list_triv)

lemma star_ends_range:
  assumes "\<And>k j. k \<le> m \<Longrightarrow> j \<in> set (step k) \<Longrightarrow> k \<le> j \<and> j \<le> m"
  shows "i \<le> m \<Longrightarrow> j \<in> set (star_ends fuel greedy step i) \<Longrightarrow> i \<le> j \<and> j \<le> m"
proof (induction fuel arbitrary: i)
  case (Suc fuel)
  from Suc.prems(2) consider "j = i" | k where "k \<in> set (step i)" "i < k" "j \<in> set (star_ends fuel greedy step k)"
    by (auto simp: Let_def split: if_splits)
  then show ?case
  proof cases
    case (2 k)
    then show ?thesis using Suc.IH [of k] assms [OF Suc.prems(1) 2(1)] by auto
  qed (use Suc.prems in simp)
qed simp

lemma star_fuel:
  assumes "\<And>k j. k \<le> m \<Longrightarrow> j \<in> set (step k) \<Longrightarrow> k \<le> j \<and> j \<le> m"
  shows "i \<le> m \<Longrightarrow> m - i \<le> fuel \<Longrightarrow> star_ends fuel greedy step i = star_ends (m - i) greedy step i"
proof (induction fuel arbitrary: i rule: less_induct)
  case (less fuel)
  have deep: "star_ends f greedy step k = star_ends (m - k) greedy step k"
    if "f < fuel" "i < k" "k \<in> set (step i)" "m - k \<le> f" for f k
    using less.IH [OF that(1), of k] that(4) assms [OF less.prems(1) that(3)] by blast
  show ?case
  proof (cases "m - i")
    case 0
    then have "\<forall>j\<in>set (step i). \<not> i < j" using less.prems(1) assms [of i] by fastforce
    then have "map (\<lambda>j. if i < j then star_ends f greedy step j else []) (step i) = map (\<lambda>j. []) (step i)" for f
      by (simp cong: map_cong)
    then show ?thesis unfolding 0 by (cases fuel) (simp_all add: Let_def cong: map_cong)
  next
    case (Suc d)
    then obtain f where f: "fuel = Suc f" "d \<le> f" using less.prems(2) by (cases fuel) auto
    have "(if i < j then star_ends f greedy step j else []) = (if i < j then star_ends d greedy step j else [])"
      if "j \<in> set (step i)" for j
    proof (cases "i < j")
      case True
      with Suc f have "m - j \<le> d" "m - j \<le> f" by linarith+
      then show ?thesis
        using deep [of f j] deep [of d j] True that f Suc less.prems(2) by (cases "d < fuel") auto
    qed simp
    then have eq: "map (\<lambda>j. if i < j then star_ends f greedy step j else []) (step i)
        = map (\<lambda>j. if i < j then star_ends d greedy step j else []) (step i)" by simp
    show ?thesis unfolding f(1) Suc star_ends.simps eq ..
  qed
qed

lemma rx_ends_range: "i \<le> length t \<Longrightarrow> j \<in> set (rx_ends r t i) \<Longrightarrow> i + rx_min r \<le> j \<and> j \<le> length t"
proof (induction r arbitrary: i j)
  case (RCat a b)
  from RCat.prems(2) obtain k where k: "k \<in> set (rx_ends a t i)" "j \<in> set (rx_ends b t k)" by auto
  have "i + rx_min a \<le> k" "k \<le> length t" using RCat.IH(1) [OF RCat.prems(1) k(1)] by simp_all
  with RCat.IH(2) [OF _ k(2)] show ?case by simp
next
  case (RAlt a b)
  from RAlt.prems(2) consider "j \<in> set (rx_ends a t i)" | "j \<in> set (rx_ends b t i)" by auto
  then show ?case using RAlt.IH(1) [OF RAlt.prems(1)] RAlt.IH(2) [OF RAlt.prems(1)] by cases fastforce+
next
  case (ROpt g a)
  from ROpt.prems(2) consider "j \<in> set (rx_ends a t i)" | "j = i" by (auto split: if_splits)
  then show ?case using ROpt.IH [OF ROpt.prems(1)] ROpt.prems(1) by cases fastforce+
next
  case (RStar g a)
  have step: "k \<le> j' \<and> j' \<le> length t" if "k \<le> length t" "j' \<in> set (rx_ends a t k)" for k j'
    using RStar.IH [OF that] by linarith
  have "i \<le> j \<and> j \<le> length t"
    by (rule star_ends_range [where m = "length t" and step = "rx_ends a t" and fuel = "length t - i" and greedy = g, OF step])
      (use RStar.prems in simp_all)
  then show ?case by simp
qed (auto split: if_splits)

section \<open>Searching\<close>

text \<open>The leftmost match that starts at \<open>pos\<close> or later, in runes.\<close>

definition rx_find :: "rx \<Rightarrow> nat list \<Rightarrow> nat \<Rightarrow> (nat \<times> nat) option" where
  "rx_find r t pos = (case List.find (\<lambda>k. rx_ends r t k \<noteq> []) [pos..<Suc (length t)] of
     None \<Rightarrow> None
   | Some k \<Rightarrow> Some (k, hd (rx_ends r t k)))"

lemma find_mem: "List.find P xs = Some x \<Longrightarrow> x \<in> set xs \<and> P x"
  by (induction xs) (auto split: if_splits)

lemma rx_find_Some:
  assumes "rx_find r t pos = Some (a, b)"
  shows "pos \<le> a \<and> a + rx_min r \<le> b \<and> b \<le> length t"
proof -
  obtain k where k: "List.find (\<lambda>k. rx_ends r t k \<noteq> []) [pos..<Suc (length t)] = Some k" "a = k" "b = hd (rx_ends r t k)"
    using assms by (auto simp: rx_find_def split: option.splits)
  have "rx_ends r t k \<noteq> []" "pos \<le> k" "k \<le> length t" using find_mem [OF k(1)] by auto
  then show ?thesis using rx_ends_range [of k t b r] k by simp
qed

lemma rx_find_None: "rx_find r t pos = None \<longleftrightarrow> (\<forall>k. pos \<le> k \<longrightarrow> k \<le> length t \<longrightarrow> rx_ends r t k = [])"
proof -
  have "rx_find r t pos = None \<longleftrightarrow> List.find (\<lambda>k. rx_ends r t k \<noteq> []) [pos..<Suc (length t)] = None"
    by (simp add: rx_find_def split: option.split)
  also have "\<dots> \<longleftrightarrow> (\<forall>k. pos \<le> k \<longrightarrow> k \<le> length t \<longrightarrow> rx_ends r t k = [])"
    unfolding find_None_iff set_upt atLeastLessThan_iff less_Suc_eq_le by blast
  finally show ?thesis .
qed

text \<open>
  All matches from \<open>pos\<close> on that do not overlap; an empty match next to the previous match is left out.
\<close>

function rx_find_all :: "rx \<Rightarrow> nat list \<Rightarrow> nat \<Rightarrow> nat option \<Rightarrow> (nat \<times> nat) list" where
  "rx_find_all r t pos prevEnd =
     (if length t < pos then []
      else case rx_find r t pos of
        None \<Rightarrow> []
      | Some (a, b) \<Rightarrow>
          (if b = pos \<and> Some a = prevEnd then [] else [(a, b)])
            @ rx_find_all r t (if b = pos then Suc pos else b) (Some b))"
  by pat_completeness auto
termination
  by (relation "measure (\<lambda>(r, t, pos, prevEnd). Suc (length t) - pos)") (auto dest!: rx_find_Some)

declare rx_find_all.simps [simp del]

lemma rx_find_all_range:
  "(a, b) \<in> set (rx_find_all r t pos prevEnd) \<Longrightarrow> pos \<le> a \<and> a + rx_min r \<le> b \<and> b \<le> length t"
proof (induction r t pos prevEnd rule: rx_find_all.induct)
  case (1 r t pos prevEnd)
  from "1.prems" have pos: "\<not> length t < pos" by (auto simp: rx_find_all.simps [of r t pos prevEnd] split: if_splits)
  then obtain x where "rx_find r t pos = Some x"
    using "1.prems" by (cases "rx_find r t pos") (simp_all add: rx_find_all.simps [of r t pos prevEnd])
  moreover obtain a' b' where "x = (a', b')" by fastforce
  ultimately have found: "rx_find r t pos = Some (a', b')" by simp
  have mem: "(a, b) = (a', b') \<or> (a, b) \<in> set (rx_find_all r t (if b' = pos then Suc pos else b') (Some b'))"
    using "1.prems" pos found by (auto simp: rx_find_all.simps [of r t pos prevEnd] split: if_splits)
  note f = pos found
  note first = rx_find_Some [OF f(2)]
  from mem show ?case
  proof
    assume "(a, b) \<in> set (rx_find_all r t (if b' = pos then Suc pos else b') (Some b'))"
    from "1.IH" [OF f(1,2) refl this] first show ?case by (auto split: if_splits)
  qed (use first in simp)
qed

lemma rx_find_all_apart: "sorted_wrt (\<lambda>x y. snd x \<le> fst y) (rx_find_all r t pos prevEnd)"
proof (induction r t pos prevEnd rule: rx_find_all.induct)
  case (1 r t pos prevEnd)
  show ?case
  proof (cases "length t < pos \<or> rx_find r t pos = None")
    case False
    then obtain a b where found: "rx_find r t pos = Some (a, b)" "\<not> length t < pos" by auto
    let ?next = "if b = pos then Suc pos else b"
    have "\<forall>x\<in>set (rx_find_all r t ?next (Some b)). b \<le> fst x"
      using rx_find_all_range [of _ _ r t ?next "Some b"] by (auto split: if_splits) force+
    with "1.IH" [OF found(2,1) refl] show ?thesis
      by (cases "b = pos") (simp_all add: rx_find_all.simps [of r t pos prevEnd] found)
  qed (auto simp: rx_find_all.simps [of r t pos prevEnd])
qed

lemma rx_find_all_first: "rx_find r t pos = Some (a, b) \<Longrightarrow> pos \<le> length t \<Longrightarrow> prevEnd = None
    \<Longrightarrow> rx_find_all r t pos prevEnd \<noteq> []"
  by (simp add: rx_find_all.simps [of r t pos])

section \<open>The functions of the package\<close>

text \<open>Locations are byte offsets.\<close>

definition byte_location :: "string \<Rightarrow> nat \<times> nat \<Rightarrow> nat \<times> nat" where
  "byte_location s l = (offset s (fst l), offset s (snd l))"

definition FindStringIndex :: "rx \<Rightarrow> string \<Rightarrow> (nat \<times> nat) option" where
  "FindStringIndex r s = map_option (byte_location s) (rx_find r (runes s) 0)"

definition FindAllStringIndex :: "rx \<Rightarrow> string \<Rightarrow> (nat \<times> nat) list" where
  "FindAllStringIndex r s = map (byte_location s) (rx_find_all r (runes s) 0 None)"

definition MatchString :: "rx \<Rightarrow> string \<Rightarrow> bool" where
  "MatchString r s \<longleftrightarrow> rx_find r (runes s) 0 \<noteq> None"

definition slice :: "string \<Rightarrow> nat \<Rightarrow> nat \<Rightarrow> string" where
  "slice s a b = take (b - a) (drop a s)"

fun split_at_matches :: "string \<Rightarrow> nat \<Rightarrow> nat \<Rightarrow> (nat \<times> nat) list \<Rightarrow> string list" where
  "split_at_matches s beg fin [] = (if fin \<noteq> length s then [drop beg s] else [])"
| "split_at_matches s beg fin ((a, b) # ms) =
     (if b \<noteq> 0 then [slice s beg a] else []) @ split_at_matches s b a ms"

text \<open>\<open>r.Split(s, -1)\<close>: the text after the last match is left out when that match is empty and at the end.\<close>

definition rx_split :: "rx \<Rightarrow> string \<Rightarrow> string list" where
  "rx_split r s = (if s = [] then [[]] else split_at_matches s 0 0 (FindAllStringIndex r s))"

lemma MatchString_find: "MatchString r s \<longleftrightarrow> FindStringIndex r s \<noteq> None"
  by (simp add: MatchString_def FindStringIndex_def)

lemma MatchString_all: "MatchString r s \<longleftrightarrow> FindAllStringIndex r s \<noteq> []"
  by (cases "rx_find r (runes s) 0")
    (auto simp: MatchString_def FindAllStringIndex_def rx_find_all.simps [of r "runes s" 0])

text \<open>A location lies between runes and covers at least as many runes as the shortest match.\<close>

definition location_ok :: "string \<Rightarrow> nat \<Rightarrow> nat \<times> nat \<Rightarrow> bool" where
  "location_ok s n l \<longleftrightarrow> fst l \<le> snd l \<and> snd l \<le> length s
     \<and> rune_count (take (fst l) s) + n \<le> rune_count (take (snd l) s) \<and> rune_count (take (snd l) s) \<le> rune_count s"

lemma byte_location_ok:
  assumes "a + n \<le> b" and "b \<le> rune_count s"
  shows "location_ok s n (byte_location s (a, b))"
  using assms by (simp add: location_ok_def byte_location_def offset_mono offset_le rune_count_offset)

lemma FindStringIndex_ok:
  assumes "FindStringIndex r s = Some l"
  shows "location_ok s (rx_min r) l"
  using assms rx_find_Some [of r "runes s" 0] byte_location_ok
  by (auto simp: FindStringIndex_def rune_count_def)

lemma FindAllStringIndex_ok: "l \<in> set (FindAllStringIndex r s) \<Longrightarrow> location_ok s (rx_min r) l"
  using rx_find_all_range [of _ _ r "runes s" 0 None] byte_location_ok
  by (auto simp: FindAllStringIndex_def rune_count_def)

text \<open>Matches do not overlap.\<close>

lemma FindAllStringIndex_apart: "sorted_wrt (\<lambda>x y. snd x \<le> fst y) (FindAllStringIndex r s)"
  unfolding FindAllStringIndex_def sorted_wrt_map
  by (rule sorted_wrt_mono_rel [OF _ rx_find_all_apart]) (simp add: byte_location_def offset_mono)

text \<open>A text shorter than the shortest match has none.\<close>

lemma MatchString_short: "rune_count s < rx_min r \<Longrightarrow> \<not> MatchString r s"
  using FindStringIndex_ok [of r s] by (cases "FindStringIndex r s") (auto simp: MatchString_find location_ok_def)

lemma FindAllStringIndex_short: "rune_count s < rx_min r \<Longrightarrow> FindAllStringIndex r s = []"
  using MatchString_short [of s r] by (simp add: MatchString_all)

end
