(* ===== verification/Security_Patterns.thy ===== *)
theory Security_Patterns
  imports Go_Regexp
begin

text \<open>
  The regular expressions of the intake scan, internal/remember/service/security_scan.go and
  security_scan_helpers.go, as syntax trees: every pattern below is the parse of the Go pattern of the same
  name under its flags (\<open>i\<close> folds literals and classes, \<open>s\<close> lets the dot match a line end, \<open>m\<close> makes \<open>^\<close> match
  at lines, \<open>U\<close> swaps greediness). Classes are written as ranges of code points.
\<close>

fun intersperse :: "'a \<Rightarrow> 'a list \<Rightarrow> 'a list" where
  "intersperse sep [] = []"
| "intersperse sep [x] = [x]"
| "intersperse sep (x # y # zs) = x # sep # intersperse sep (y # zs)"

text \<open>\<open>directivePrefixExpression\<close>, under the flags of the two patterns that contain it.\<close>

definition space_dash :: rx where "space_dash = RSet [(9, 13), (32, 32), (45, 45), (95, 95)]"

definition directivePrefix :: rx where
  "directivePrefix =
     rx_alts [rx_cats [RWord, rx_alts [rx_word ''please'', rx_word ''kindly'']], rx_cats [RWord,
     rx_alts [rx_word ''can'', rx_word ''could'', rx_word ''would'', rx_word ''will'', rx_word ''shall'',
     rx_word ''may''], rx_plus True posix_space, rx_word ''you''], rx_cats [RWord, rx_alts [rx_word ''you'',
     rx_cats [rx_word ''assistant'', ROpt True (RSet [(44, 44), (58, 58)])]], rx_plus True posix_space,
     rx_alts [rx_word ''must'', rx_word ''should'', rx_cats [rx_word ''need'',
     ROpt True (rx_cats [rx_plus True posix_space, rx_word ''to''])], rx_cats [rx_alts [rx_word ''are'',
     rx_word ''have''], rx_plus True posix_space, rx_word ''to'']]], rx_cats [RWord, rx_alts [rx_word ''i'',
     rx_word ''we''], rx_plus True posix_space, rx_alts [rx_word ''need'', rx_word ''want'', rx_word ''require''],
     rx_plus True posix_space, rx_word ''you'', ROpt True (rx_cats [rx_plus True posix_space, rx_word ''to''])],
     rx_cats [RWord, rx_alts [rx_word ''try'', rx_word ''attempt''], rx_plus True posix_space, rx_word ''to''],
     rx_cats [RWord, rx_word ''assistant'', ROpt True (RSet [(44, 44), (58, 58)])]]"

definition base64TokenPattern :: rx where
  "base64TokenPattern =
     rx_at_least True 16 (RSet [(43, 43), (45, 45), (47, 57), (61, 61), (65, 90), (95, 95), (97, 122)])"

definition base64PartPattern :: rx where
  "base64PartPattern =
     rx_at_least True 4 (RSet [(43, 43), (45, 45), (47, 57), (61, 61), (65, 90), (95, 95), (97, 122)])"

definition dataURIBase64 :: rx where
  "dataURIBase64 =
     rx_cats [RWord, rx_word ''data:'', rx_between True 0 256 (RSet [(0, 8), (14, 31), (33, 43), (45, 1114111)]),
     rx_word '';base64,'']"

definition pemEnvelope :: rx where
  "pemEnvelope =
     rx_cats [rx_word ''-----begin'', rx_plus True posix_space, rx_between True 1 96 (RSet [(0, 9), (11, 12), (14,
     44), (46, 1114111)]), rx_lit ''-----'']"

definition markupPattern :: rx where
  "markupPattern =
     rx_alts [rx_lit ''<!--'', rx_cats [rx_lit ''<'', RStar True perl_space, rx_alts [rx_word ''script'',
     rx_word ''iframe'', rx_word ''object'', rx_word ''embed'', rx_word ''meta'', rx_word ''svg''], RWord],
     rx_cats [RWord, rx_word ''on'', rx_between True 3 32 (RSet [(65, 90), (97, 122), (383, 383), (8490, 8490)]),
     RStar True perl_space, rx_lit ''='']]"

definition controlRolePattern :: rx where
  "controlRolePattern =
     rx_alts [rx_cats [rx_alts [RLine, RSet [(10, 10), (13, 13)]], RStar True posix_space,
     rx_alts [rx_word ''system'', rx_word ''developer''], RStar True posix_space, rx_lit '':''],
     rx_cats [rx_lit ''<|'', RStar True posix_space, rx_alts [rx_word ''system'', rx_word ''developer''],
     RStar True posix_space, rx_lit ''|>''], rx_cats [rx_lit ''<<'', RStar True posix_space,
     rx_alts [rx_word ''sys'', rx_word ''system'', rx_word ''developer''], RStar True posix_space, rx_lit ''>>'']]"

definition secretExtractionPattern :: rx where
  "secretExtractionPattern =
     rx_alts [rx_cats [RWord, rx_alts [rx_word ''reveal'', rx_word ''show'', rx_word ''send'', rx_word ''dump'',
     rx_word ''print'', rx_word ''exfiltrate'', rx_word ''return''], RWord, rx_between False 0 100 any_rune, RWord,
     rx_alts [rx_cats [rx_word ''system'', RStar True space_dash, rx_word ''prompt''], rx_cats [rx_word ''hidden'',
     RStar True space_dash, rx_word ''instruction'', ROpt True (rx_word ''s'')], rx_cats [rx_word ''environment'',
     RStar True space_dash, rx_word ''variable'', ROpt True (rx_word ''s'')], rx_word ''env'',
     rx_cats [rx_word ''api'', RStar True space_dash, rx_word ''key'', ROpt True (rx_word ''s'')],
     rx_cats [rx_word ''credential'', ROpt True (rx_word ''s'')], rx_cats [rx_word ''secret'',
     ROpt True (rx_word ''s'')], rx_cats [rx_word ''cookie'', ROpt True (rx_word ''s'')], rx_cats [rx_word ''token'',
     ROpt True (rx_word ''s'')], rx_cats [rx_word ''password'', ROpt True (rx_word ''s'')],
     rx_cats [rx_word ''passcode'', ROpt True (rx_word ''s'')], rx_cats [rx_word ''private'', RStar True space_dash,
     rx_word ''key'', ROpt True (rx_word ''s'')], rx_cats [rx_word ''authorization'', RStar True space_dash,
     rx_word ''header'', ROpt True (rx_word ''s'')]], RWord], rx_cats [RWord, ROpt True (rx_cats [rx_word ''please'',
     rx_plus True space_dash]), rx_word ''output'', RWord, rx_plus True space_dash,
     RStar True (rx_cats [rx_alts [rx_word ''all'', rx_word ''the'', rx_word ''your'', rx_word ''any'',
     rx_word ''raw'', rx_word ''secret'', rx_word ''hidden'', rx_word ''system'', rx_word ''environment'',
     rx_word ''api'', rx_word ''access'', rx_word ''auth'', rx_word ''session'', rx_word ''credential'',
     rx_word ''cookie'', rx_word ''token''], rx_plus True space_dash]), rx_alts [rx_cats [rx_word ''system'',
     RStar True space_dash, rx_word ''prompt''], rx_cats [rx_word ''hidden'', RStar True space_dash,
     rx_word ''instruction'', ROpt True (rx_word ''s'')], rx_cats [rx_word ''environment'', RStar True space_dash,
     rx_word ''variable'', ROpt True (rx_word ''s'')], rx_word ''env'', rx_cats [rx_word ''api'',
     RStar True space_dash, rx_word ''key'', ROpt True (rx_word ''s'')], rx_cats [rx_word ''credential'',
     ROpt True (rx_word ''s'')], rx_cats [rx_word ''secret'', ROpt True (rx_word ''s'')],
     rx_cats [rx_word ''cookie'', ROpt True (rx_word ''s'')], rx_cats [rx_word ''token'', ROpt True (rx_word ''s'')],
     rx_cats [rx_word ''password'', ROpt True (rx_word ''s'')], rx_cats [rx_word ''passcode'',
     ROpt True (rx_word ''s'')], rx_cats [rx_word ''private'', RStar True space_dash, rx_word ''key'',
     ROpt True (rx_word ''s'')], rx_cats [rx_word ''authorization'', RStar True space_dash, rx_word ''header'',
     ROpt True (rx_word ''s'')]], RWord]]"

definition toolExfiltrationPattern :: rx where
  "toolExfiltrationPattern =
     rx_cats [RWord, rx_alts [rx_cats [rx_word ''use'', RStar True space_dash, ROpt True (rx_cats [rx_word ''your'',
     RStar True space_dash]), rx_word ''tool'', ROpt True (rx_word ''s'')], rx_word ''curl'', rx_word ''wget'',
     rx_word ''fetch'', rx_word ''post'', rx_word ''send'', rx_word ''upload'', rx_word ''exfiltrate'',
     rx_word ''transmit'', rx_cats [rx_word ''make'', RStar True space_dash, ROpt True (rx_cats [rx_word ''an'',
     RStar True space_dash]), ROpt True (rx_alts [rx_cats [rx_word ''http'', RStar True space_dash],
     rx_cats [rx_word ''network'', RStar True space_dash]]), rx_word ''request''], rx_cats [rx_word ''call'',
     RStar True space_dash, ROpt True (rx_cats [rx_word ''an'', RStar True space_dash]), rx_word ''api'']], RWord,
     rx_between False 0 180 any_rune, rx_alts [rx_cats [rx_word ''http'', ROpt True (rx_word ''s''), rx_lit ''://''],
     rx_word ''webhook'', rx_word ''endpoint'', rx_word ''external'', rx_cats [rx_word ''environment'',
     RStar True space_dash, rx_word ''variable'', ROpt True (rx_word ''s'')], rx_word ''env'',
     rx_cats [rx_word ''api'', RStar True space_dash, rx_word ''key'', ROpt True (rx_word ''s'')],
     rx_cats [rx_word ''credential'', ROpt True (rx_word ''s'')], rx_cats [rx_word ''secret'',
     ROpt True (rx_word ''s'')], rx_cats [rx_word ''cookie'', ROpt True (rx_word ''s'')], rx_cats [rx_word ''token'',
     ROpt True (rx_word ''s'')]]]"

definition toolDirectiveSuffixPattern :: rx where
  "toolDirectiveSuffixPattern =
     rx_cats [directivePrefix, RStar True perl_space, REnd]"

definition toolDirectiveStartPattern :: rx where
  "toolDirectiveStartPattern =
     rx_cats [rx_alts [RBegin, RSet [(10, 10), (13, 13), (33, 33), (46, 46), (63, 63)]], RStar True (RSet [(9, 13),
     (32, 32), (35, 35), (42, 42), (45, 45), (62, 62)]), REnd]"

definition identifierHexPattern :: rx where
  "identifierHexPattern =
     rx_cats [RBegin, ROpt True (rx_cats [rx_word ''sha'', rx_alts [rx_lit ''1'', rx_lit ''224'', rx_lit ''256'',
     rx_lit ''384'', rx_lit ''512''], rx_lit '':'']), rx_alts [rx_between True 32 32 (RSet [(48, 57), (65, 70), (97,
     102)]), rx_between True 40 40 (RSet [(48, 57), (65, 70), (97, 102)]), rx_between True 56 56 (RSet [(48, 57),
     (65, 70), (97, 102)]), rx_between True 64 64 (RSet [(48, 57), (65, 70), (97, 102)]),
     rx_between True 96 96 (RSet [(48, 57), (65, 70), (97, 102)]), rx_between True 128 128 (RSet [(48, 57), (65, 70),
     (97, 102)])], REnd]"

definition uuidPattern :: rx where
  "uuidPattern =
     rx_cats [RBegin, rx_between True 8 8 (RSet [(48, 57), (65, 70), (97, 102)]), rx_lit ''-'',
     rx_between True 4 4 (RSet [(48, 57), (65, 70), (97, 102)]), rx_lit ''-'', rx_between True 4 4 (RSet [(48, 57),
     (65, 70), (97, 102)]), rx_lit ''-'', rx_between True 4 4 (RSet [(48, 57), (65, 70), (97, 102)]), rx_lit ''-'',
     rx_between True 12 12 (RSet [(48, 57), (65, 70), (97, 102)]), REnd]"

definition ulidPattern :: rx where
  "ulidPattern =
     rx_cats [RBegin, RSet [(48, 55)], rx_between True 25 25 (RSet [(48, 57), (65, 72), (74, 75), (77, 78), (80, 84),
     (86, 90)]), REnd]"

definition prohibitionPrefixPattern :: rx where
  "prohibitionPrefixPattern =
     rx_cats [RBegin, ROpt True (rx_cats [rx_word ''please'', rx_plus True posix_space]), rx_alts [rx_word ''never'',
     rx_cats [rx_word ''do'', rx_plus True posix_space, rx_word ''not''], rx_cats [rx_word ''don'', RSet [(39, 39)],
     rx_word ''t''], rx_cats [rx_word ''must'', rx_plus True posix_space, rx_word ''not''],
     rx_cats [rx_word ''should'', rx_plus True posix_space, rx_word ''not'']], rx_plus True posix_space,
     ROpt True (rx_cats [rx_word ''ever'', rx_plus True posix_space]), REnd]"

definition prohibitionClausePattern :: rx where
  "prohibitionClausePattern =
     rx_cats [RBegin, ROpt True (rx_cats [rx_word ''please'', rx_plus True posix_space]), rx_alts [rx_word ''never'',
     rx_cats [rx_word ''do'', rx_plus True posix_space, rx_word ''not''], rx_cats [rx_word ''don'', RSet [(39, 39)],
     rx_word ''t''], rx_cats [rx_word ''must'', rx_plus True posix_space, rx_word ''not''],
     rx_cats [rx_word ''should'', rx_plus True posix_space, rx_word ''not'']], rx_plus True posix_space,
     ROpt True (rx_cats [rx_word ''ever'', rx_plus True posix_space]), rx_alts [rx_word ''reveal'', rx_word ''show'',
     rx_word ''send'', rx_word ''dump'', rx_word ''print'', rx_word ''exfiltrate'', rx_word ''return'',
     rx_word ''output'', rx_word ''transmit'', rx_word ''upload'', rx_word ''post'', rx_word ''ignore'',
     rx_word ''disregard'', rx_word ''forget'', rx_word ''override''], RWord]"

definition prohibitionURLPattern :: rx where
  "prohibitionURLPattern =
     rx_cats [RWord, rx_word ''http'', ROpt True (rx_word ''s''), rx_lit ''://'', rx_plus True (RSet [(0, 8), (14,
     31), (33, 33), (35, 38), (40, 59), (61, 61), (63, 1114111)])]"

definition prohibitionClauseEndPattern :: rx where
  "prohibitionClauseEndPattern =
     rx_alts [RSet [(10, 10), (13, 13), (59, 59)], rx_cats [RSet [(33, 33), (46, 46), (63, 63)],
     RStar True (RSet [(34, 34), (39, 39), (41, 41), (62, 62), (93, 93), (96, 96), (125, 125), (8217, 8217), (8221,
     8221)]), rx_alts [posix_space, REnd]]]"

definition prohibitionEllipsisPattern :: rx where
  "prohibitionEllipsisPattern =
     rx_at_least True 2 (rx_lit ''.'')"

definition prohibitionJoinPattern :: rx where
  "prohibitionJoinPattern =
     rx_cats [RWord, rx_alts [rx_word ''and'', rx_word ''or'', rx_word ''nor''], rx_plus True posix_space, REnd]"

definition prohibitionBreakPattern :: rx where
  "prohibitionBreakPattern =
     rx_cats [RWord, rx_alts [rx_word ''but'', rx_word ''instead'', rx_word ''then'', rx_word ''however'',
     rx_word ''except'', rx_word ''unless'', rx_word ''nevertheless''], RWord]"

definition reportedInstructionPattern :: rx where
  "reportedInstructionPattern =
     rx_cats [RBegin, RSet [(65, 90), (97, 122), (383, 383), (8490, 8490)], rx_between True 1 100 (RSet [(9, 13),
     (32, 32), (39, 39), (45, 45), (65, 90), (97, 122), (383, 383), (8490, 8490)]), rx_plus True posix_space,
     rx_alts [rx_word ''quoted'', rx_word ''quotes'', rx_word ''reported'', rx_word ''reports'',
     rx_word ''described'', rx_word ''describes'', rx_word ''cited'', rx_word ''cites'', rx_word ''gives'',
     rx_word ''gave'', rx_word ''uses'', rx_word ''used''], RWord, RStar True posix_space]"

definition reportedReferencePattern :: rx where
  "reportedReferencePattern =
     rx_cats [RBegin, RSet [(65, 90), (97, 122), (383, 383), (8490, 8490)], rx_between False 1 100 (RSet [(9, 13),
     (32, 32), (39, 39), (45, 45), (65, 90), (97, 122), (383, 383), (8490, 8490)]), rx_plus False posix_space,
     rx_alts [rx_word ''quoted'', rx_word ''quotes'', rx_word ''reported'', rx_word ''reports'',
     rx_word ''described'', rx_word ''describes'', rx_word ''cited'', rx_word ''cites'', rx_word ''gives'',
     rx_word ''gave'', rx_word ''uses'', rx_word ''used''], RWord, RStar False posix_space]"

definition attackExamplePattern :: rx where
  "attackExamplePattern =
     rx_cats [RBegin, rx_between True 0 80 (RSet [(0, 9), (11, 32), (34, 43), (45, 45), (47, 58), (60, 62), (64,
     1114111)]), RWord, rx_word ''as'', rx_plus True posix_space, ROpt True (rx_cats [rx_word ''a'',
     ROpt True (rx_word ''n''), rx_plus True posix_space]), rx_alts [rx_word ''example'', rx_word ''attack'',
     rx_word ''malicious'', rx_word ''prohibited''], RWord]"

definition reportedDirectivePrefixPattern :: rx where
  "reportedDirectivePrefixPattern =
     rx_cats [RBegin, rx_alts [rx_cats [rx_alts [rx_word ''never'', rx_cats [rx_word ''do'',
     rx_plus True posix_space, rx_word ''not''], rx_cats [rx_word ''don'', RSet [(39, 39)], rx_word ''t'']],
     rx_plus True posix_space, ROpt True (rx_cats [rx_word ''ever'', rx_plus True posix_space]),
     rx_alts [rx_word ''forget'', rx_word ''hesitate'', rx_word ''refuse'', rx_word ''fail''],
     rx_plus True posix_space, rx_word ''to'', RWord], rx_cats [rx_alts [rx_cats [rx_word ''you'', RWord,
     rx_plus True posix_space], rx_cats [rx_word ''assistant'', RWord, ROpt True (RSet [(44, 44), (58, 58)]),
     RStar True posix_space]], rx_alts [rx_word ''can'', rx_word ''could'', rx_word ''would'', rx_word ''will'',
     rx_word ''shall'', rx_word ''may''], RWord], directivePrefix, rx_cats [rx_word ''you'', RWord],
     rx_cats [rx_alts [rx_word ''now'', rx_word ''then'', rx_word ''instead'', rx_word ''just'', rx_word ''simply'',
     rx_word ''also'', rx_word ''always'', rx_word ''immediately'', rx_word ''quickly''], RWord]],
     RStar True perl_space]"

definition reportedExecutionClausePattern :: rx where
  "reportedExecutionClausePattern =
     rx_alts [RSet [(10, 10), (13, 13), (33, 33), (44, 44), (46, 46), (59, 59), (63, 63)], rx_cats [RWord,
     rx_alts [rx_word ''and'', rx_word ''or'', rx_word ''so'', rx_word ''but'', rx_word ''then'',
     rx_word ''however'', rx_word ''instead''], RWord]]"

definition reportedExecutionTargetPattern :: rx where
  "reportedExecutionTargetPattern =
     rx_cats [RBegin, RSet [(65, 90), (97, 122), (383, 383), (8490, 8490)], rx_between True 1 30 (RSet [(45, 45),
     (65, 90), (97, 122), (383, 383), (8490, 8490)]), rx_plus True posix_space,
     rx_between True 0 3 (rx_cats [rx_alts [rx_word ''to'', rx_word ''on'', rx_word ''with'', rx_word ''out'',
     rx_word ''according'', rx_word ''as'', rx_word ''what''], rx_plus True posix_space]),
     RStar True (rx_cats [rx_alts [rx_word ''the'', rx_word ''these'', rx_word ''those'', rx_word ''that'',
     rx_word ''this'', rx_word ''above'', rx_word ''below'', rx_word ''quoted'', rx_word ''reported'',
     rx_word ''its''], rx_plus True posix_space]), rx_alts [rx_cats [rx_word ''instruction'',
     ROpt True (rx_word ''s'')], rx_cats [rx_word ''command'', ROpt True (rx_word ''s'')], rx_cats [rx_word ''step'',
     ROpt True (rx_word ''s'')], rx_cats [rx_word ''request'', ROpt True (rx_word ''s'')],
     rx_cats [rx_word ''direction'', ROpt True (rx_word ''s'')], rx_cats [rx_alts [rx_word ''quoted'',
     rx_word ''reported''], rx_plus True posix_space, rx_alts [rx_word ''text'', rx_word ''content'',
     rx_word ''string'', rx_word ''message'', rx_word ''line'', rx_word ''sentence'', rx_word ''phrase'',
     rx_word ''payload'', rx_word ''prompt'', rx_word ''snippet'', rx_word ''passage'']], rx_cats [rx_word ''quot'',
     rx_alts [rx_word ''e'', rx_word ''es'', rx_word ''ation'', rx_word ''ations'']], rx_cats [rx_word ''report'',
     rx_plus True posix_space, rx_word ''say'', ROpt True (rx_word ''s'')], rx_word ''it'', rx_word ''them'',
     rx_word ''this'', rx_word ''that''], RWord]"

definition reportedStorageStatementPattern :: rx where
  "reportedStorageStatementPattern =
     rx_cats [RBegin, rx_alts [rx_word ''store'', rx_word ''archive'', rx_word ''record'', rx_word ''document''],
     rx_plus True posix_space, rx_alts [rx_word ''it'', rx_word ''this'', rx_word ''that'', rx_word ''them'',
     rx_cats [rx_word ''the'', rx_plus True posix_space, rx_alts [rx_word ''quote'', rx_cats [rx_word ''quoted'',
     rx_plus True posix_space, rx_alts [rx_word ''text'', rx_word ''content'', rx_word ''string'',
     rx_word ''message'']], rx_word ''report'']]], ROpt True (rx_cats [rx_plus True posix_space,
     rx_alts [rx_word ''in'', rx_word ''into''], rx_plus True posix_space,
     ROpt True (rx_cats [rx_alts [rx_word ''the'', rx_cats [rx_word ''a'', ROpt True (rx_word ''n'')],
     rx_word ''my'', rx_word ''our'', rx_word ''your''], rx_plus True posix_space]),
     ROpt True (rx_cats [rx_plus True (RSet [(45, 45), (65, 90), (97, 122), (383, 383), (8490, 8490)]),
     rx_plus True posix_space]), rx_alts [rx_word ''archive'', rx_word ''runbook'', rx_word ''report'',
     rx_word ''notes'', rx_word ''record'', rx_word ''database'', rx_word ''file'']]), REnd]"

definition outputMetricPrefixPattern :: rx where
  "outputMetricPrefixPattern =
     rx_cats [rx_alts [rx_cats [RSet [(48, 57)], RStar True (RSet [(44, 44), (46, 46), (48, 57)])], rx_cats [RWord,
     rx_alts [rx_word ''input'', rx_word ''generation'', rx_word ''completion'', rx_word ''response'',
     rx_word ''budget'', rx_word ''allowance'', rx_word ''quota'', rx_word ''count'', rx_word ''counts'',
     rx_word ''usage'', rx_word ''includes'', rx_word ''included'', rx_word ''measures'', rx_word ''measured'',
     rx_word ''consumed'', rx_word ''remaining'', rx_word ''available'']]], rx_plus True posix_space, REnd]"

definition outputMetricSuffixPattern :: rx where
  "outputMetricSuffixPattern =
     rx_cats [RBegin, rx_word ''output'', rx_plus True posix_space, rx_word ''token'', ROpt True (rx_word ''s''),
     RWord, rx_alts [rx_cats [rx_plus True posix_space, rx_alts [rx_word ''are'', rx_word ''were'', rx_word ''is'',
     rx_word ''was'', rx_word ''cost'', rx_word ''costs'', rx_word ''remain'', rx_word ''count'',
     rx_word ''measure''], RWord], rx_cats [RStar True posix_space, rx_lit '':'', RStar True posix_space, RSet [(48,
     57)]]]]"

definition outputTokenNounPattern :: rx where
  "outputTokenNounPattern =
     rx_cats [RBegin, rx_word ''output'', rx_plus True posix_space, rx_word ''token'', ROpt True (rx_word ''s''),
     REnd]"

definition camelEvidenceIdentifierPattern :: rx where
  "camelEvidenceIdentifierPattern =
     rx_cats [RBegin, rx_alts [rx_plus True (RSet [(97, 122)]), rx_cats [RSet [(65, 90)], rx_plus True (RSet [(97,
     122)])]], rx_plus True (rx_cats [RSet [(65, 90)], rx_plus True (RSet [(48, 57), (97, 122)])]), REnd]"

text \<open>
  \<open>buildOverridePattern\<close>: a word may have up to three separators between its letters.
\<close>

definition spaced_word :: "string \<Rightarrow> rx" where
  "spaced_word w = rx_cats (intersperse (rx_between True 0 3 (RSet [(9, 13), (32, 32), (45, 47), (58, 58), (95, 95), (124, 124)]))
     (map (\<lambda>c. RSet (fold_ranges (byte_of c))) w))"

definition override_gap :: rx where
  "override_gap = rx_between True 1 64 (RSet [(9, 13), (32, 32), (44, 47), (58, 59), (95, 95), (124, 124)])"

definition overridePattern :: rx where
  "overridePattern = rx_cats [RWord, rx_alts (map spaced_word [''ignore'', ''disregard'', ''forget'', ''override'']), RWord,
     RStar True (rx_cats [override_gap, rx_alts [rx_word ''all'', rx_word ''the'']]), override_gap,
     rx_alts (map spaced_word [''previous'', ''prior'', ''above'', ''earlier'', ''surrounding'']), override_gap,
     rx_alts (map spaced_word [''instruction'', ''instructions'', ''rule'', ''rules'', ''prompt'', ''prompts'', ''context'', ''answer'']),
     RWord]"

definition prohibitionContextPattern :: rx where
  "prohibitionContextPattern =
     rx_alts [prohibitionURLPattern, prohibitionEllipsisPattern, prohibitionClauseEndPattern, prohibitionBreakPattern]"

end
