(* ===== verification/Security_Text.thy ===== *)
theory Security_Text
  imports Complex_Main Security_Patterns Go_Base64
begin

text \<open>
  The text side of the intake scan, internal/remember/service/security_scan.go and security_scan_helpers.go:
  views of a submission with the source span of every rune, the decoding of one representation layer, what
  counts as a hidden control, and the exemptions for reported or prohibited instructions.

  Unicode data and third-party functions are parameters (\<open>scan_env\<close>): NFKC normalization
  (golang.org/x/text), the category Mn, \<open>html.UnescapeString\<close>, JSON objects, \<open>math.Log2\<close> and the rounding of
  float64, and the iteration order of a map.
\<close>

section \<open>Parameters\<close>

text \<open>
  \<open>se_json\<close> reads a JSON object into its members, with the value of a member that is a string; \<open>se_msub e p l\<close> is
  \<open>e - p * l\<close> in float64, which Go may fuse.
\<close>

record scan_env =
  se_nfkc :: "string \<Rightarrow> string"
  se_mark :: "nat \<Rightarrow> bool"
  se_unescape :: "string \<Rightarrow> string"
  se_json :: "string \<Rightarrow> (string \<times> string option) list option"
  se_log2 :: "real \<Rightarrow> real"
  se_round :: "real \<Rightarrow> real"
  se_msub :: "real \<Rightarrow> real \<Rightarrow> real \<Rightarrow> real"
  se_order :: "(nat \<times> nat) list \<Rightarrow> (nat \<times> nat) list"

section \<open>Views\<close>

type_synonym source_span = "nat \<times> nat"

record security_view =
  sv_text :: string
  sv_spans :: "source_span list"

definition identitySecurityView :: "string \<Rightarrow> security_view" where
  "identitySecurityView content =
     \<lparr>sv_text = content, sv_spans = map (\<lambda>i. (i, Suc i)) [0..<rune_count content]\<rparr>"

definition hiddenControlRune :: "nat \<Rightarrow> bool" where
  "hiddenControlRune v \<longleftrightarrow> v \<in> set [8203, 8204, 8205, 8206, 8207, 8288] \<or> 8234 \<le> v \<and> v \<le> 8238 \<or> 8294 \<le> v \<and> v \<le> 8297
     \<or> (v \<le> 31 \<or> 127 \<le> v \<and> v \<le> 159) \<and> v \<noteq> 10 \<and> v \<noteq> 13 \<and> v \<noteq> 9"

text \<open>A view as the list of its runes with their spans; \<open>text.WriteRune\<close> writes U+FFFD for a rune that has no encoding.\<close>

definition view_of :: "(nat \<times> source_span) list \<Rightarrow> security_view" where
  "view_of rs = \<lparr>sv_text = string_of_runes (map fst rs), sv_spans = map snd rs\<rparr>"

definition normalizedSecurityView :: "scan_env \<Rightarrow> security_view \<Rightarrow> security_view" where
  "normalizedSecurityView E view =
     (if sv_text view = [] then view
      else view_of (concat (map (\<lambda>(v, span).
             map (\<lambda>r. (r, span))
               (filter (\<lambda>r. \<not> (se_mark E r \<or> hiddenControlRune r)) (runes (to_lower (se_nfkc E (string_of_runes [v]))))))
             (zip (runes (sv_text view)) (sv_spans view)))))"

section \<open>One layer of decoding\<close>

definition isHexRune :: "nat \<Rightarrow> bool" where
  "isHexRune v \<longleftrightarrow> 48 \<le> v \<and> v \<le> 57 \<or> 97 \<le> v \<and> v \<le> 102 \<or> 65 \<le> v \<and> v \<le> 70"

definition hex_value :: "nat \<Rightarrow> nat" where
  "hex_value v = (if v \<le> 57 then v - 48 else if v \<le> 70 then v - 55 else v - 87)"

text \<open>The bytes of a run of \<open>%XX\<close>.\<close>

fun percent_run :: "nat list \<Rightarrow> nat list" where
  "percent_run (p # a # b # rest) =
     (if p = 37 \<and> isHexRune a \<and> isHexRune b then (hex_value a * 16 + hex_value b) # percent_run rest else [])"
| "percent_run _ = []"

definition valid_utf8 :: "nat list \<Rightarrow> bool" where
  "valid_utf8 bs \<longleftrightarrow> concat (map encode_rune (decode_runes bs)) = bs"

text \<open>The number of runes of the entity that starts with \<open>&\<close> at the head, within 32 runes; 0 when there is none.\<close>

fun entity_length :: "nat \<Rightarrow> nat \<Rightarrow> nat list \<Rightarrow> nat" where
  "entity_length left n [] = 0"
| "entity_length 0 n rs = 0"
| "entity_length (Suc left) n (r # rs) =
     (if r = 59 then Suc n else if space_rune r \<or> r = 38 then 0 else entity_length left (Suc n) rs)"

definition htmlEntityEnd :: "nat list \<Rightarrow> nat" where
  "htmlEntityEnd rest = entity_length 31 1 (drop 1 rest)"

text \<open>\<open>string(rune(value))\<close>: a surrogate has no encoding.\<close>

definition rune_of :: "nat \<Rightarrow> nat" where
  "rune_of v = (if 55296 \<le> v \<and> v \<le> 57343 \<or> 1114111 < v then 65533 else v)"

text \<open>The escape that starts at the head: its runes and how many runes it takes.\<close>

definition percent_escape :: "nat list \<Rightarrow> (nat list \<times> nat) option" where
  "percent_escape rest = (let bytes = percent_run rest in
     if bytes \<noteq> [] \<and> valid_utf8 bytes then Some (decode_runes bytes, 3 * length bytes) else None)"

fun backslash_escape :: "nat list \<Rightarrow> (nat list \<times> nat) option" where
  "backslash_escape (b # k # h1 # h2 # rest) =
     (if b = 92 \<and> k = 120 \<and> isHexRune h1 \<and> isHexRune h2 then Some ([hex_value h1 * 16 + hex_value h2], 4)
      else if b = 92 \<and> k = 117 \<and> 2 \<le> length rest \<and> list_all isHexRune (h1 # h2 # take 2 rest)
      then Some ([rune_of (foldl (\<lambda>v h. v * 16 + hex_value h) 0 (h1 # h2 # take 2 rest))], 6)
      else None)"
| "backslash_escape _ = None"

definition entity_escape :: "scan_env \<Rightarrow> nat list \<Rightarrow> (nat list \<times> nat) option" where
  "entity_escape E rest = (case rest of
       [] \<Rightarrow> None
     | r # _ \<Rightarrow>
         if r \<noteq> 38 \<or> htmlEntityEnd rest = 0 then None
         else let encoded = string_of_runes (take (htmlEntityEnd rest) rest); decoded = se_unescape E encoded in
              if decoded \<noteq> encoded then Some (runes decoded, htmlEntityEnd rest) else None)"

definition next_escape :: "scan_env \<Rightarrow> nat list \<Rightarrow> nat list \<times> nat" where
  "next_escape E rest = (case percent_escape rest of
       Some d \<Rightarrow> d
     | None \<Rightarrow> (case backslash_escape rest of
           Some d \<Rightarrow> d
         | None \<Rightarrow> (case entity_escape E rest of
               Some d \<Rightarrow> d
             | None \<Rightarrow> ([hd rest], 1))))"

lemma next_escape_pos: "0 < snd (next_escape E rest)"
proof -
  have "percent_escape rest = Some d \<Longrightarrow> 0 < snd d" for d
    by (auto simp: percent_escape_def Let_def split: if_splits)
  moreover have "backslash_escape rest = Some d \<Longrightarrow> 0 < snd d" for d
    by (cases rest rule: backslash_escape.cases) (auto split: if_splits)
  moreover have "entity_escape E rest = Some d \<Longrightarrow> 0 < snd d" for d
    by (auto simp: entity_escape_def Let_def split: list.splits if_splits)
  ultimately show ?thesis by (auto simp: next_escape_def split: option.split)
qed

function decode_from :: "scan_env \<Rightarrow> nat \<Rightarrow> nat list \<Rightarrow> (nat \<times> source_span) list" where
  "decode_from E i rest =
     (if rest = [] then []
      else let (rs, n) = next_escape E rest
           in map (\<lambda>r. (r, (i, i + n))) rs @ decode_from E (i + n) (drop n rest))"
  by pat_completeness auto
termination
proof (relation "measure (\<lambda>(E, i, rest). length rest)")
  fix E :: scan_env and i :: nat and rest x rs n
  assume "rest \<noteq> []" "x = next_escape E rest" "(rs, n) = x"
  then have "0 < n" using next_escape_pos [of E rest] by (metis snd_conv)
  with \<open>rest \<noteq> []\<close> show "((E, i + n, drop n rest), E, i, rest) \<in> measure (\<lambda>(E, i, rest). length rest)" by simp
qed simp

declare decode_from.simps [simp del]

definition oneLayerSubmissionDecode :: "scan_env \<Rightarrow> string \<Rightarrow> security_view" where
  "oneLayerSubmissionDecode E content = view_of (decode_from E 0 (runes content))"

section \<open>Aligned views\<close>

text \<open>Every rune of an aligned view has a span of the source, not empty and within its \<open>n\<close> runes, in source order.\<close>

definition spans_ok :: "nat \<Rightarrow> nat \<Rightarrow> source_span list \<Rightarrow> bool" where
  "spans_ok i n spans \<longleftrightarrow> (\<forall>span\<in>set spans. i \<le> fst span \<and> fst span < snd span \<and> snd span \<le> n)
     \<and> sorted (map fst spans) \<and> sorted (map snd spans)"

definition aligned :: "nat \<Rightarrow> security_view \<Rightarrow> bool" where
  "aligned n view \<longleftrightarrow> length (sv_spans view) = rune_count (sv_text view) \<and> spans_ok 0 n (sv_spans view)"

lemma encode_rune_scalar: "\<exists>q. scalar q \<and> encode_rune r = encode_rune q"
proof (cases "scalar r")
  case False
  then have "encode_rune r = encode_rune 65533" by (auto simp: scalar_def encode_rune_def)
  then show ?thesis by (intro exI [of _ 65533]) (simp add: scalar_def)
qed blast

lemma rune_count_string_of_runes: "rune_count (string_of_runes rs) = length rs"
proof -
  define f where "f r = (SOME q. scalar q \<and> encode_rune r = encode_rune q)" for r
  have f: "scalar (f r)" "encode_rune r = encode_rune (f r)" for r
    using someI_ex [OF encode_rune_scalar [of r]] by (simp_all add: f_def)
  have "string_of_runes rs = string_of_runes (map f rs)"
    by (simp add: string_of_runes_def comp_def f(2) [symmetric] cong: map_cong)
  moreover have "\<forall>r\<in>set (map f rs). scalar r" using f(1) by auto
  ultimately show ?thesis using runes_string_of_runes [of "map f rs"] by (simp add: rune_count_def)
qed

lemma aligned_view_of: "aligned n (view_of rs) \<longleftrightarrow> spans_ok 0 n (map snd rs)"
  by (simp add: aligned_def view_of_def rune_count_string_of_runes)

lemma aligned_identity: "aligned (rune_count content) (identitySecurityView content)"
  by (auto simp: aligned_def identitySecurityView_def spans_ok_def comp_def sorted_iff_nth_mono)

lemma spans_ok_Cons:
  "spans_ok i n (x # ys) \<longleftrightarrow> spans_ok i n ys \<and> i \<le> fst x \<and> fst x < snd x \<and> snd x \<le> n
     \<and> (\<forall>y\<in>set ys. fst x \<le> fst y \<and> snd x \<le> snd y)"
  unfolding spans_ok_def list.set list.map sorted_simps by (simp add: ball_conj_distrib) blast

lemma spans_ok_replicate:
  assumes "spans_ok i n (x # ys)"
  shows "spans_ok i n (replicate k x @ ys)"
proof (induction k)
  case (Suc k)
  have "\<forall>y\<in>set (replicate k x @ ys). fst x \<le> fst y \<and> snd x \<le> snd y"
    using assms unfolding spans_ok_Cons by auto
  with Suc assms show ?case by (simp only: replicate_Suc append_Cons spans_ok_Cons simp_thms)
qed (use assms in \<open>simp add: spans_ok_Cons\<close>)

lemma spans_ok_repeat:
  assumes "spans_ok i n (map snd zs)"
  shows "spans_ok i n (map snd (concat (map (\<lambda>(v, span). map (\<lambda>r. (r, span)) (h v)) zs)))"
  using assms
proof (induction zs)
  case (Cons z zs)
  obtain v span where z: "z = (v, span)" by (cases z)
  let ?rest = "map snd (concat (map (\<lambda>(v, span). map (\<lambda>r. (r, span)) (h v)) zs))"
  have "set ?rest \<subseteq> set (map snd zs)" by force
  moreover have zs: "spans_ok i n (span # map snd zs)" using Cons.prems by (simp add: z)
  moreover have "spans_ok i n ?rest" using Cons.IH zs by (simp only: spans_ok_Cons)
  ultimately have "spans_ok i n (span # ?rest)" unfolding spans_ok_Cons by blast
  then have "spans_ok i n (replicate (length (h v)) span @ ?rest)" by (rule spans_ok_replicate)
  then show ?case by (simp add: z comp_def map_replicate_const)
qed simp

lemma aligned_normalized:
  assumes "aligned n view"
  shows "aligned n (normalizedSecurityView E view)"
proof (cases "sv_text view = []")
  case False
  have "map snd (zip (runes (sv_text view)) (sv_spans view)) = sv_spans view"
    using assms by (simp add: aligned_def rune_count_def)
  then have "spans_ok 0 n (map snd (zip (runes (sv_text view)) (sv_spans view)))"
    using assms by (simp add: aligned_def)
  from spans_ok_repeat [OF this] False show ?thesis
    by (simp add: normalizedSecurityView_def aligned_view_of)
qed (use assms in \<open>simp add: normalizedSecurityView_def\<close>)

lemma percent_run_length: "3 * length (percent_run rest) \<le> length rest"
  by (induction rest rule: percent_run.induct) auto

lemma entity_length_le: "entity_length k n rs \<le> n + length rs"
proof (induction k n rs rule: entity_length.induct)
  case (3 k n r rs)
  then show ?case by auto
qed simp_all

lemma next_escape_le:
  assumes "rest \<noteq> []"
  shows "snd (next_escape E rest) \<le> length rest"
proof -
  have "percent_escape rest = Some d \<Longrightarrow> snd d \<le> length rest" for d
    using percent_run_length [of rest] by (auto simp: percent_escape_def Let_def split: if_splits)
  moreover have "backslash_escape rest = Some d \<Longrightarrow> snd d \<le> length rest" for d
    by (cases rest rule: backslash_escape.cases) (auto split: if_splits)
  moreover have "entity_escape E rest = Some d \<Longrightarrow> snd d \<le> length rest" for d
    using entity_length_le [of 31 1 "drop 1 rest"] assms
    by (auto simp: entity_escape_def htmlEntityEnd_def Let_def split: list.splits if_splits)
  ultimately show ?thesis using assms by (auto simp: next_escape_def Suc_le_eq split: option.split)
qed

lemma spans_ok_append:
  assumes "spans_ok i j xs" and "spans_ok j n ys" and "i \<le> j" and "j \<le> n"
  shows "spans_ok i n (xs @ ys)"
proof -
  have "fst x \<le> fst y" "snd x \<le> snd y" if "x \<in> set xs" "y \<in> set ys" for x y
    using assms(1,2) that by (fastforce simp: spans_ok_def)+
  with assms show ?thesis by (fastforce simp: spans_ok_def sorted_append)
qed

lemma spans_ok_decode_from: "spans_ok i (i + length rest) (map snd (decode_from E i rest))"
proof (induction E i rest rule: decode_from.induct)
  case (1 E i rest)
  show ?case
  proof (cases "rest = []")
    case False
    obtain rs n where d: "next_escape E rest = (rs, n)" by fastforce
    have n: "0 < n" "n \<le> length rest"
      using next_escape_pos [of E rest] next_escape_le [OF False, of E] by (simp_all add: d)
    have "spans_ok (i + n) (i + n + length (drop n rest)) (map snd (decode_from E (i + n) (drop n rest)))"
      by (rule "1.IH" [OF False]) (simp_all add: d)
    moreover have "spans_ok i (i + n) (map snd (map (\<lambda>r. (r, (i, i + n))) rs))"
      using n(1) by (auto simp: spans_ok_def comp_def sorted_iff_nth_mono)
    ultimately have "spans_ok i (i + n + length (drop n rest))
        (map snd (map (\<lambda>r. (r, (i, i + n))) rs) @ map snd (decode_from E (i + n) (drop n rest)))"
      using spans_ok_append [OF _ _ le_add1 le_add1] by blast
    with n(2) False show ?thesis by (simp add: decode_from.simps [of E i rest] d)
  qed (simp add: spans_ok_def decode_from.simps)
qed

lemma aligned_decoded: "aligned (rune_count content) (oneLayerSubmissionDecode E content)"
  using spans_ok_decode_from [of 0 "runes content" E]
  by (simp add: oneLayerSubmissionDecode_def aligned_view_of rune_count_def)

end
