(* ===== verification/Security_Context.thy ===== *)
theory Security_Context
  imports Security_Text
begin

text \<open>
  The exemptions of the intake scan, internal/remember/service/security_scan_helpers.go: an instruction that a
  text prohibits or reports is data, unless the text goes on to direct the reader to carry it out.
\<close>

section \<open>Cut sets\<close>

definition sentence_ends :: string where
  "sentence_ends = ''.!?;'' @ [char_at 13, char_at 10]"

definition opening_rune :: "nat \<Rightarrow> bool" where
  "opening_rune r \<longleftrightarrow> r \<in> set [32, 9, 62, 35, 58, 42, 45, 92, 34, 39, 96, 40, 91, 123, 60, 8216, 8217, 8220, 8221]"

definition url_closing_rune :: "nat \<Rightarrow> bool" where
  "url_closing_rune r \<longleftrightarrow> r \<in> set [34, 39, 96, 8217, 8221, 41, 93, 125, 62, 44]"

section \<open>Prohibitions\<close>

text \<open>The last byte of \<open>ending\<close> exists: \<open>ending\<close> still contains \<open>://\<close>.\<close>

definition url_exception :: "string \<Rightarrow> bool" where
  "url_exception ending =
     (let boundary = after_last_any '',;'' ending;
          exception = trim_right_by (\<lambda>r. r \<in> set [46, 33, 63]) (drop boundary ending)
      in 0 < boundary \<and> FindStringIndex prohibitionBreakPattern exception = Some (0, length exception))"

definition url_ends_sentence :: "string \<Rightarrow> bool" where
  "url_ends_sentence ending \<longleftrightarrow> \<not> suffix ''..'' ending \<and> last ending \<in> set ''.!?;''"

lemma prohibitionContextPattern_min: "0 < rx_min prohibitionContextPattern"
  by (simp add: prohibitionContextPattern_def prohibitionURLPattern_def prohibitionEllipsisPattern_def
      prohibitionClauseEndPattern_def prohibitionBreakPattern_def)

lemma FindStringIndex_shorter:
  assumes "FindStringIndex r s = Some l" and "0 < rx_min r"
  shows "length (drop (snd l) s) < length s"
proof -
  have "location_ok s (rx_min r) l" by (rule FindStringIndex_ok [OF assms(1)])
  then have "snd l \<le> length s" "0 < rune_count (take (snd l) s)" using assms(2) by (auto simp: location_ok_def)
  moreover from this(2) have "snd l \<noteq> 0" by (intro notI) (simp add: rune_count_def runes_def)
  ultimately show ?thesis by simp
qed

function prohibitionHasTrailingException :: "string \<Rightarrow> bool" where
  "prohibitionHasTrailingException trailing =
     (case FindStringIndex prohibitionContextPattern trailing of
        None \<Rightarrow> False
      | Some (a, b) \<Rightarrow>
          let token = slice trailing a b; ending = trim_right_by url_closing_rune token in
          if go_contains token ''://'' then
            if url_exception ending then True
            else if url_ends_sentence ending then False
            else prohibitionHasTrailingException (drop b trailing)
          else if \<not> MatchString prohibitionEllipsisPattern token then MatchString prohibitionBreakPattern token
          else prohibitionHasTrailingException (drop b trailing))"
  by pat_completeness auto
termination
  by (relation "measure length")
    (use FindStringIndex_shorter [OF _ prohibitionContextPattern_min] in fastforce)+

declare prohibitionHasTrailingException.simps [simp del]

section \<open>Reported instructions\<close>

lemma reportedDirectivePrefixPattern_min: "0 < rx_min reportedDirectivePrefixPattern"
  by (simp add: reportedDirectivePrefixPattern_def directivePrefix_def)

function strip_directives :: "string \<Rightarrow> string" where
  "strip_directives clause =
     (case FindStringIndex reportedDirectivePrefixPattern clause of
        None \<Rightarrow> clause
      | Some (a, b) \<Rightarrow> strip_directives (trim_space (drop b clause)))"
  by pat_completeness auto
termination
proof (relation "measure length")
  fix clause :: string and x a b
  assume "FindStringIndex reportedDirectivePrefixPattern clause = Some x" "(a, b) = x"
  then have "length (drop b clause) < length clause"
    using FindStringIndex_shorter [OF _ reportedDirectivePrefixPattern_min] by fastforce
  with length_trim_space [of "drop b clause"]
  show "(trim_space (drop b clause), clause) \<in> measure length" by simp
qed simp

declare strip_directives.simps [simp del]

definition clause_words :: "string \<Rightarrow> string list" where
  "clause_words clause = go_fields (strip_directives (go_join '' '' (go_fields (trim_by opening_rune (to_lower clause)))))"

definition normalized_clause :: "string list \<Rightarrow> string" where
  "normalized_clause ws =
     (let reference = go_join '' '' (drop 2 ws) in
      if 2 < length ws \<and> ws ! 1 \<in> set [''what'', ''whatever''] then
        case FindStringIndex reportedReferencePattern reference of
          None \<Rightarrow> go_join '' '' ws
        | Some (a, b) \<Rightarrow> trim_space (ws ! 0 @ '' it '' @ drop b reference)
      else go_join '' '' ws)"

definition clause_directs :: "string \<Rightarrow> bool" where
  "clause_directs clause =
     (let ws = clause_words clause in
      2 \<le> length ws
      \<and> ws ! 0 \<notin> set [''the'', ''a'', ''an'', ''this'', ''that'', ''these'', ''those'', ''i'', ''we'', ''they'', ''it'', ''never'', ''not'']
      \<and> MatchString reportedExecutionTargetPattern (normalized_clause ws)
      \<and> \<not> MatchString reportedStorageStatementPattern (normalized_clause ws))"

definition reportedExecutionIsDirective :: "string \<Rightarrow> bool" where
  "reportedExecutionIsDirective content = list_ex clause_directs (rx_split reportedExecutionClausePattern content)"

definition quote_pairs :: "(string \<times> string) list" where
  "quote_pairs = map (\<lambda>(a, b). (string_of_runes [a], string_of_runes [b]))
     [(34, 34), (39, 39), (96, 96), (8216, 8217), (8220, 8221)]"

definition reportedInstructionIsData :: "string \<Rightarrow> string \<Rightarrow> string \<Rightarrow> string \<Rightarrow> bool" where
  "reportedInstructionIsData pre matched suf preceding =
     (case FindStringIndex reportedInstructionPattern pre of
        None \<Rightarrow> False
      | Some (f, frame) \<Rightarrow>
          let tail = trim_space (drop frame pre); reported = drop frame pre @ matched in
          case List.find (\<lambda>q. prefix (fst q) tail) quote_pairs of
            Some (opening, closing) \<Rightarrow>
              \<not> go_contains (trim_prefix opening tail) closing \<and> \<not> go_contains matched closing
              \<and> (case go_index closing suf of
                    None \<Rightarrow> False
                  | Some closeAt \<Rightarrow>
                      \<not> reportedExecutionIsDirective (preceding @ take frame pre @ drop (closeAt + length closing) suf))
          | None \<Rightarrow>
              \<not> go_contains reported '':'' \<and> \<not> MatchString reportedExecutionClausePattern reported
              \<and> \<not> MatchString prohibitionBreakPattern reported \<and> MatchString attackExamplePattern suf
              \<and> \<not> reportedExecutionIsDirective (preceding @ take frame pre @ suf))"

section \<open>The exemptions\<close>

definition prohibited_prefix :: "string \<Rightarrow> bool" where
  "prohibited_prefix pre \<longleftrightarrow> MatchString prohibitionPrefixPattern pre
     \<or> MatchString prohibitionClausePattern pre \<and> MatchString prohibitionJoinPattern pre
       \<and> \<not> MatchString prohibitionBreakPattern pre
       \<and> (MatchString secretExtractionPattern pre \<or> MatchString toolExfiltrationPattern pre \<or> MatchString overridePattern pre)"

definition submissionInstructionIsData :: "string \<Rightarrow> nat \<times> nat \<Rightarrow> string \<Rightarrow> bool" where
  "submissionInstructionIsData content l rule =
     (let (a, b) = l; clauseStart = after_last_any sentence_ends (take a content);
          pre = trim_left_by opening_rune (slice content clauseStart a); matched = slice content a b in
      if length pre \<le> 256 \<and> \<not> contains_any matched sentence_ends \<and> \<not> MatchString prohibitionBreakPattern matched
         \<and> prohibited_prefix pre \<and> \<not> prohibitionHasTrailingException (drop b content) then True
      else if reportedInstructionIsData pre matched (drop b content) (take clauseStart content) then True
      else if rule = ''prompt_secret_extraction'' \<and> MatchString outputTokenNounPattern matched then
        \<not> MatchString toolDirectiveSuffixPattern pre
        \<and> (MatchString outputMetricPrefixPattern pre \<or> MatchString outputMetricSuffixPattern (drop a content))
      else False)"

definition toolExfiltrationIsDirective :: "string \<Rightarrow> nat \<Rightarrow> bool" where
  "toolExfiltrationIsDirective content start =
     (if length content < start then False
      else let pre = trim_right_by (\<lambda>r. space_rune r \<or> r \<in> set [92, 34, 39, 96, 40, 91, 123, 60]) (take start content) in
        if MatchString toolDirectiveStartPattern pre \<or> MatchString toolDirectiveSuffixPattern pre then True
        else let clauseStart = after_last_any sentence_ends (take start content) in
          MatchString reportedInstructionPattern (trim_left_by opening_rune (slice content clauseStart start))
          \<and> reportedExecutionIsDirective content)"

text \<open>A match whose source has a hidden control or a combining mark in it is never exempt.\<close>

definition securityMatchHasNoHiddenControls :: "scan_env \<Rightarrow> security_view \<Rightarrow> security_view \<Rightarrow> nat \<times> nat \<Rightarrow> bool" where
  "securityMatchHasNoHiddenControls E view normalized l =
     (let a = rune_count (take (fst l) (sv_text normalized)); b = rune_count (take (snd l) (sv_text normalized));
          spans = sv_spans normalized in
      if length spans \<le> a \<or> b \<le> a \<or> length spans < b then False
      else list_all (\<lambda>v. \<not> (hiddenControlRune v \<or> se_mark E v))
             (take (snd (spans ! (b - 1)) - fst (spans ! a)) (drop (fst (spans ! a)) (runes (sv_text view)))))"

end
