(* ===== verification/Security_Signals.thy ===== *)
theory Security_Signals
  imports Security_Context
begin

text \<open>
  The signals of the intake scan, internal/remember/service/security_scan.go and security_scan_helpers.go: the
  source range of a match, runs of hidden controls, dangerous instructions in a view, and the bounded, sorted
  list of distinct signals a scan reports.
\<close>

section \<open>Signals\<close>

record security_signal =
  ss_kind :: string
  ss_rule :: string
  ss_severity :: string
  ss_start :: nat
  ss_end :: nat
  ss_encoded :: bool

definition ruleID :: "bool \<Rightarrow> string \<Rightarrow> string" where
  "ruleID decoded base = (if decoded then ''decoded_'' @ base else base)"

definition signalForSourceSpan ::
  "security_view \<Rightarrow> source_span \<Rightarrow> string \<Rightarrow> string \<Rightarrow> string \<Rightarrow> bool \<Rightarrow> security_signal option" where
  "signalForSourceSpan view src kind rule severity encoded =
     (if sv_spans view = [] then None
      else let stop = min (snd src) (snd (last (sv_spans view))) in
        if stop \<le> fst src then None
        else Some \<lparr>ss_kind = kind, ss_rule = rule, ss_severity = severity, ss_start = fst src, ss_end = stop, ss_encoded = encoded\<rparr>)"

definition signalForLocation ::
  "security_view \<Rightarrow> nat \<times> nat \<Rightarrow> string \<Rightarrow> string \<Rightarrow> string \<Rightarrow> bool \<Rightarrow> security_signal option" where
  "signalForLocation view l kind rule severity encoded =
     (let startRune = rune_count (take (fst l) (sv_text view)); endRune = rune_count (take (snd l) (sv_text view));
          spans = sv_spans view in
      if endRune \<le> startRune \<or> length spans \<le> startRune then None
      else signalForSourceSpan view (fst (spans ! startRune), snd (spans ! (min endRune (length spans) - 1)))
             kind rule severity encoded)"

section \<open>Hidden controls\<close>

definition hiddenControlFloodSignal :: "security_view \<Rightarrow> nat option \<Rightarrow> nat \<Rightarrow> nat \<Rightarrow> bool \<Rightarrow> security_signal option" where
  "hiddenControlFloodSignal view start stop n decoded = (case start of
       None \<Rightarrow> None
     | Some a \<Rightarrow>
         if n < 4 \<or> stop \<le> a \<or> length (sv_spans view) < stop then None
         else signalForSourceSpan view (fst (sv_spans view ! a), snd (sv_spans view ! (stop - 1)))
                ''hidden_control_markup'' (ruleID decoded ''hidden_unicode_control_flood'') ''critical'' False)"

text \<open>The loop over the runes, from index \<open>i\<close>, with the start and the length of the current run.\<close>

fun flood_scan :: "security_view \<Rightarrow> bool \<Rightarrow> nat \<Rightarrow> nat option \<Rightarrow> nat \<Rightarrow> nat list \<Rightarrow> security_signal option" where
  "flood_scan view decoded i start n [] = hiddenControlFloodSignal view start i n decoded"
| "flood_scan view decoded i start n (v # vs) =
     (if hiddenControlRune v
      then flood_scan view decoded (Suc i) (case start of None \<Rightarrow> Some i | Some a \<Rightarrow> Some a) (Suc n) vs
      else case hiddenControlFloodSignal view start i n decoded of
          Some s \<Rightarrow> Some s
        | None \<Rightarrow> flood_scan view decoded (Suc i) None 0 vs)"

definition hiddenControlFloodSignals :: "security_view \<Rightarrow> bool \<Rightarrow> security_signal list" where
  "hiddenControlFloodSignals view decoded =
     (case flood_scan view decoded 0 None 0 (runes (sv_text view)) of None \<Rightarrow> [] | Some s \<Rightarrow> [s])"

section \<open>Dangerous instructions\<close>

record danger_rule =
  dr_pattern :: rx
  dr_kind :: string
  dr_rule :: string
  dr_severity :: string

definition danger_rules :: "danger_rule list" where
  "danger_rules =
     [\<lparr>dr_pattern = markupPattern, dr_kind = ''hidden_control_markup'', dr_rule = ''control_markup'', dr_severity = ''high''\<rparr>,
      \<lparr>dr_pattern = controlRolePattern, dr_kind = ''role_control_spoofing'', dr_rule = ''control_role'', dr_severity = ''critical''\<rparr>,
      \<lparr>dr_pattern = overridePattern, dr_kind = ''instruction_override'', dr_rule = ''instruction_override'', dr_severity = ''critical''\<rparr>,
      \<lparr>dr_pattern = secretExtractionPattern, dr_kind = ''prompt_secret_extraction'', dr_rule = ''prompt_secret_extraction'', dr_severity = ''critical''\<rparr>,
      \<lparr>dr_pattern = toolExfiltrationPattern, dr_kind = ''tool_exfiltration'', dr_rule = ''tool_exfiltration'', dr_severity = ''critical''\<rparr>]"

definition danger_exempt :: "scan_env \<Rightarrow> security_view \<Rightarrow> security_view \<Rightarrow> bool \<Rightarrow> danger_rule \<Rightarrow> nat \<times> nat \<Rightarrow> bool" where
  "danger_exempt E view normalized decoded d l \<longleftrightarrow>
     \<not> decoded \<and> securityMatchHasNoHiddenControls E view normalized l
       \<and> dr_rule d \<in> set [''instruction_override'', ''prompt_secret_extraction'', ''tool_exfiltration'']
       \<and> submissionInstructionIsData (sv_text normalized) l (dr_rule d)
     \<or> dr_rule d = ''tool_exfiltration'' \<and> \<not> toolExfiltrationIsDirective (sv_text normalized) (fst l)"

definition danger_kind :: "bool \<Rightarrow> danger_rule \<Rightarrow> string" where
  "danger_kind decoded d =
     (if decoded \<and> dr_kind d = ''instruction_override'' then ''obfuscated_instruction'' else dr_kind d)"

definition danger_signals :: "scan_env \<Rightarrow> security_view \<Rightarrow> security_view \<Rightarrow> bool \<Rightarrow> danger_rule \<Rightarrow> security_signal list" where
  "danger_signals E view normalized decoded d =
     List.map_filter (\<lambda>l. if danger_exempt E view normalized decoded d l then None
         else signalForLocation normalized l (danger_kind decoded d) (ruleID decoded (dr_rule d)) (dr_severity d) False)
       (FindAllStringIndex (dr_pattern d) (sv_text normalized))"

definition dangerousSubmissionSignals :: "scan_env \<Rightarrow> security_view \<Rightarrow> bool \<Rightarrow> security_signal list" where
  "dangerousSubmissionSignals E view decoded =
     (if sv_text view = [] then []
      else hiddenControlFloodSignals view decoded
        @ concat (map (danger_signals E view (normalizedSecurityView E view) decoded) danger_rules))"

section \<open>Bounded, sorted, distinct\<close>

definition signal_before :: "security_signal \<Rightarrow> security_signal \<Rightarrow> bool" where
  "signal_before p q =
     (if ss_start p \<noteq> ss_start q then ss_start p < ss_start q
      else if ss_end p \<noteq> ss_end q then ss_end p < ss_end q
      else if ss_kind p \<noteq> ss_kind q then ss_kind p < ss_kind q
      else ss_rule p < ss_rule q)"

definition signal_key :: "security_signal \<Rightarrow> string" where
  "signal_key s = decimal (ss_start s) @ '':'' @ decimal (ss_end s) @ '':'' @ ss_kind s @ '':'' @ ss_rule s"

definition signal_kept :: "security_signal \<Rightarrow> bool" where
  "signal_kept s \<longleftrightarrow> ss_start s < ss_end s \<and> trim_space (ss_kind s) \<noteq> [] \<and> trim_space (ss_rule s) \<noteq> []"

text \<open>The loop, with the keys seen and the signals kept so far; the flag reports truncation.\<close>

fun take_signals :: "string list \<Rightarrow> security_signal list \<Rightarrow> security_signal list \<Rightarrow> security_signal list \<times> bool" where
  "take_signals seen kept [] = (kept, False)"
| "take_signals seen kept (s # ss) =
     (if \<not> signal_kept s \<or> signal_key s \<in> set seen then take_signals seen kept ss
      else if 8 \<le> length kept then (fst (take_signals (signal_key s # seen) kept ss), True)
      else take_signals (signal_key s # seen) (kept @ [s]) ss)"

definition normalizeSubmissionSecuritySignals :: "security_signal list \<Rightarrow> security_signal list \<times> bool" where
  "normalizeSubmissionSecuritySignals signals = take_signals [] [] (go_sort signal_before signals)"

section \<open>Facts\<close>

lemma signalForSourceSpan_Some:
  assumes "signalForSourceSpan view src kind rule severity encoded = Some s" and "aligned n view"
  shows "ss_kind s = kind \<and> ss_rule s = rule \<and> ss_severity s = severity \<and> ss_encoded s = encoded
    \<and> ss_start s < ss_end s \<and> ss_end s \<le> n"
proof -
  have "sv_spans view \<noteq> []" using assms(1) by (auto simp: signalForSourceSpan_def)
  then have "snd (last (sv_spans view)) \<le> n" using assms(2) by (auto simp: aligned_def spans_ok_def)
  with assms(1) show ?thesis by (auto simp: signalForSourceSpan_def Let_def split: if_splits)
qed

lemma signalForSourceSpan_total:
  assumes "aligned n view" and "i \<le> j" and "j < length (sv_spans view)"
  shows "signalForSourceSpan view (fst (sv_spans view ! i), snd (sv_spans view ! j)) kind rule severity encoded \<noteq> None"
proof -
  let ?spans = "sv_spans view"
  have mono: "sorted (map fst ?spans)" "sorted (map snd ?spans)" and wide: "\<forall>p\<in>set ?spans. fst p < snd p"
    using assms(1) by (auto simp: aligned_def spans_ok_def)
  have "map fst ?spans ! i \<le> map fst ?spans ! j" using sorted_nth_mono [OF mono(1) assms(2)] assms(3) by simp
  moreover have "fst (?spans ! j) < snd (?spans ! j)" using wide assms(3) by simp
  moreover have "?spans \<noteq> []" using assms(3) by auto
  moreover have "map snd ?spans ! j \<le> map snd ?spans ! (length ?spans - 1)"
    using sorted_nth_mono [OF mono(2), of j "length ?spans - 1"] assms(3) by simp
  ultimately show ?thesis using assms(2,3) by (simp add: signalForSourceSpan_def last_conv_nth)
qed

lemma signalForLocation_Some:
  "signalForLocation view l kind rule severity encoded = Some s \<Longrightarrow> aligned n view
    \<Longrightarrow> ss_kind s = kind \<and> ss_rule s = rule \<and> ss_severity s = severity \<and> ss_encoded s = encoded
      \<and> ss_start s < ss_end s \<and> ss_end s \<le> n"
  by (auto simp: signalForLocation_def Let_def dest: signalForSourceSpan_Some split: if_splits)

lemma signalForLocation_total:
  assumes "aligned n view" and "location_ok (sv_text view) 1 l"
  shows "signalForLocation view l kind rule severity encoded \<noteq> None"
proof -
  let ?a = "rune_count (take (fst l) (sv_text view))" and ?b = "rune_count (take (snd l) (sv_text view))"
  have "?a < ?b" "?b \<le> length (sv_spans view)" using assms by (simp_all add: location_ok_def aligned_def)
  moreover from this have "?a \<le> ?b - 1" "?b - 1 < length (sv_spans view)" by simp_all
  ultimately show ?thesis
    using signalForSourceSpan_total [OF assms(1), of ?a "?b - 1"] by (simp add: signalForLocation_def Let_def min_absorb1)
qed

lemma hiddenControlFloodSignal_iff:
  assumes "aligned k view" and "i \<le> length (sv_spans view)" and "case start of None \<Rightarrow> n = 0 | Some a \<Rightarrow> 0 < n \<and> a + n = i"
  shows "hiddenControlFloodSignal view start i n decoded = None \<longleftrightarrow> n < 4"
proof (cases start)
  case (Some a)
  with assms signalForSourceSpan_total [OF assms(1), of a "i - 1"] show ?thesis
    by (auto simp: hiddenControlFloodSignal_def)
qed (use assms(3) in \<open>simp add: hiddenControlFloodSignal_def\<close>)

definition hidden_flood :: "nat list \<Rightarrow> bool" where
  "hidden_flood rs \<longleftrightarrow> (\<exists>hs. sublist hs rs \<and> 4 \<le> length hs \<and> list_all hiddenControlRune hs)"

lemma hidden_flood_split:
  assumes "\<not> hiddenControlRune v"
  shows "hidden_flood (xs @ v # ys) \<longleftrightarrow> hidden_flood xs \<or> hidden_flood ys"
proof -
  have "sublist hs (xs @ v # ys) \<longleftrightarrow> sublist hs xs \<or> sublist hs ys" if "list_all hiddenControlRune hs" for hs
  proof -
    have "v \<notin> set hs" using that assms by (auto simp: list_all_iff)
    then show ?thesis by (auto simp: sublist_append sublist_Cons_right prefix_Cons)
  qed
  then show ?thesis by (auto simp: hidden_flood_def)
qed

lemma hidden_flood_run: "list_all hiddenControlRune hs \<Longrightarrow> hidden_flood hs \<longleftrightarrow> \<not> length hs < 4"
  by (auto simp: hidden_flood_def dest: sublist_length_le)

lemma flood_scan_iff:
  assumes "aligned k view"
  shows "list_all hiddenControlRune hs \<Longrightarrow> n = length hs \<Longrightarrow> i + length vs = length (sv_spans view)
    \<Longrightarrow> (case start of None \<Rightarrow> n = 0 | Some a \<Rightarrow> 0 < n \<and> a + n = i)
    \<Longrightarrow> flood_scan view decoded i start n vs \<noteq> None \<longleftrightarrow> hidden_flood (hs @ vs)"
proof (induction vs arbitrary: hs n i start)
  case Nil
  with hiddenControlFloodSignal_iff [OF assms, of i n start decoded] show ?case by (simp add: hidden_flood_run)
next
  case (Cons v vs)
  show ?case
  proof (cases "hiddenControlRune v")
    case True
    with Cons.IH [of "hs @ [v]" "Suc n" "Suc i" "case start of None \<Rightarrow> Some i | Some a \<Rightarrow> Some a"] Cons.prems show ?thesis
      by (simp split: option.splits)
  next
    case False
    have "hidden_flood ([] @ vs) \<longleftrightarrow> flood_scan view decoded (Suc i) None 0 vs \<noteq> None"
      using Cons.IH [of "[]" 0 "Suc i" None] Cons.prems(3) by simp
    moreover have "hiddenControlFloodSignal view start i n decoded = None \<longleftrightarrow> \<not> hidden_flood hs"
      using hiddenControlFloodSignal_iff [OF assms, of i n start decoded] Cons.prems by (simp add: hidden_flood_run)
    ultimately show ?thesis using False
      by (cases "hiddenControlFloodSignal view start i n decoded") (simp_all add: hidden_flood_split)
  qed
qed

lemma hiddenControlFloodSignals_iff:
  assumes "aligned k view"
  shows "hiddenControlFloodSignals view decoded = [] \<longleftrightarrow> \<not> hidden_flood (runes (sv_text view))"
  using flood_scan_iff [OF assms, of "[]" 0 0 "runes (sv_text view)" None decoded] assms
  by (auto simp: hiddenControlFloodSignals_def aligned_def rune_count_def split: option.split)

text \<open>A rule with no exemption reports every match.\<close>

lemma danger_signals_empty:
  assumes "aligned n normalized" and "0 < rx_min (dr_pattern d)" and "danger_signals E view normalized decoded d = []"
    and "l \<in> set (FindAllStringIndex (dr_pattern d) (sv_text normalized))"
  shows "danger_exempt E view normalized decoded d l"
proof (rule ccontr)
  assume no: "\<not> danger_exempt E view normalized decoded d l"
  have "location_ok (sv_text normalized) 1 l"
    using FindAllStringIndex_ok [OF assms(4)] assms(2) by (simp add: location_ok_def)
  then obtain s where "signalForLocation normalized l (danger_kind decoded d) (ruleID decoded (dr_rule d)) (dr_severity d) False = Some s"
    using signalForLocation_total [OF assms(1)] by fast
  with no assms(4) have "s \<in> set (danger_signals E view normalized decoded d)"
    by (force simp: danger_signals_def List.map_filter_def)
  with assms(3) show False by simp
qed

section \<open>What is reported\<close>

text \<open>
  Severity and encoding of a signal are determined by its rule, so signals with the same key are equal and the
  unstable \<open>sort.Slice\<close> has one result.
\<close>

definition encoded_rules :: "string list" where
  "encoded_rules = [''data_uri_base64'', ''pem_envelope'', ''jwt'', ''encoded_candidate_budget'', ''oversized_base64'',
     ''base64_candidate'', ''folded_base64'']"

definition signal_formed :: "nat \<Rightarrow> security_signal \<Rightarrow> bool" where
  "signal_formed n s \<longleftrightarrow> ss_start s < ss_end s \<and> ss_end s \<le> n \<and> signal_kept s
     \<and> ss_severity s = (if ss_rule s \<in> set [''control_markup'', ''decoded_control_markup''] then ''high'' else ''critical'')
     \<and> ss_encoded s = (ss_rule s \<in> set encoded_rules)"

interpretation signal_order: total_order signal_before "signal_formed n" for n
proof (rule total_order_key [where key = "\<lambda>s. (ss_start s, ss_end s, ss_kind s, ss_rule s)"])
  show "signal_before x y \<longleftrightarrow> (ss_start x, ss_end x, ss_kind x, ss_rule x) < (ss_start y, ss_end y, ss_kind y, ss_rule y)" for x y
    by (auto simp: signal_before_def)
  show "x = y" if "signal_formed n x" "signal_formed n y"
    "(ss_start x, ss_end x, ss_kind x, ss_rule x) = (ss_start y, ss_end y, ss_kind y, ss_rule y)" for x y
    using that by (auto simp: signal_formed_def intro: security_signal.equality)
qed

fun distinct_signals :: "string list \<Rightarrow> security_signal list \<Rightarrow> security_signal list" where
  "distinct_signals seen [] = []"
| "distinct_signals seen (s # ss) =
     (if \<not> signal_kept s \<or> signal_key s \<in> set seen then distinct_signals seen ss
      else s # distinct_signals (signal_key s # seen) ss)"

lemma take_signals_first:
  "length kept \<le> 8 \<Longrightarrow> take_signals seen kept ss
     = (kept @ take (8 - length kept) (distinct_signals seen ss), 8 - length kept < length (distinct_signals seen ss))"
proof (induction ss arbitrary: seen kept)
  case (Cons s ss)
  show ?case
  proof (cases "length kept = 8")
    case False
    with Cons.prems obtain m where "8 - length kept = Suc m" "7 - length kept = m" by (cases "8 - length kept") auto
    with Cons False show ?thesis by simp
  qed (simp add: Cons.IH)
qed simp

lemma normalize_first:
  "normalizeSubmissionSecuritySignals signals
     = (take 8 (distinct_signals [] (go_sort signal_before signals)), 8 < length (distinct_signals [] (go_sort signal_before signals)))"
  by (simp add: normalizeSubmissionSecuritySignals_def take_signals_first)

lemma distinct_signals_distinct:
  "distinct (map signal_key (distinct_signals seen ss)) \<and> set (map signal_key (distinct_signals seen ss)) \<inter> set seen = {}"
  by (induction seen ss rule: distinct_signals.induct) auto

lemma distinct_signals_set: "s \<in> set (distinct_signals seen ss) \<Longrightarrow> s \<in> set ss \<and> signal_kept s"
  by (induction seen ss rule: distinct_signals.induct) (auto split: if_splits)

lemma distinct_signals_keys:
  "signal_key ` set (distinct_signals seen ss) = signal_key ` {s \<in> set ss. signal_kept s} - set seen"
proof (induction seen ss rule: distinct_signals.induct)
  case (2 seen s ss)
  have "signal_key ` {x \<in> set (s # ss). signal_kept x} =
      (if signal_kept s then insert (signal_key s) else id) (signal_key ` {x \<in> set ss. signal_kept x})" by auto
  with 2 show ?case by (cases "\<not> signal_kept s \<or> signal_key s \<in> set seen") auto
qed simp

lemma distinct_signals_sorted: "sorted_wrt P ss \<Longrightarrow> sorted_wrt P (distinct_signals seen ss)"
  by (induction seen ss rule: distinct_signals.induct) (auto dest: distinct_signals_set)

lemma normalize_empty:
  assumes "\<forall>s\<in>set signals. signal_formed n s"
  shows "fst (normalizeSubmissionSecuritySignals signals) = [] \<longleftrightarrow> signals = []"
proof -
  have "distinct_signals [] (go_sort signal_before signals) = [] \<longleftrightarrow> {s \<in> set signals. signal_kept s} = {}"
    unfolding set_empty [symmetric] image_is_empty [of signal_key, symmetric] distinct_signals_keys by simp
  also have "\<dots> \<longleftrightarrow> signals = []" using assms by (cases signals) (auto simp: signal_formed_def)
  finally show ?thesis by (simp add: normalize_first)
qed

section \<open>Every danger signal is well formed\<close>

lemma danger_rules_min4: "\<forall>d\<in>set danger_rules. 4 \<le> rx_min (dr_pattern d)"
  by (simp add: danger_rules_def markupPattern_def controlRolePattern_def overridePattern_def secretExtractionPattern_def
      toolExfiltrationPattern_def override_gap_def spaced_word_def)

lemma danger_rules_min: "\<forall>d\<in>set danger_rules. 0 < rx_min (dr_pattern d)"
  using danger_rules_min4 by fastforce

lemma danger_rule_kept:
  assumes "d \<in> set danger_rules"
  shows "trim_space (danger_kind decoded d) \<noteq> [] \<and> trim_space (ruleID decoded (dr_rule d)) \<noteq> []
    \<and> dr_severity d = (if ruleID decoded (dr_rule d) \<in> set [''control_markup'', ''decoded_control_markup''] then ''high'' else ''critical'')
    \<and> ruleID decoded (dr_rule d) \<notin> set encoded_rules"
  using assms unfolding danger_rules_def list.set
  by (elim insertE emptyE; cases decoded) (simp_all add: danger_kind_def ruleID_def encoded_rules_def go_string_eval)

lemma danger_signals_formed:
  assumes "s \<in> set (danger_signals E view normalized decoded d)" and "aligned n normalized" and "d \<in> set danger_rules"
  shows "signal_formed n s"
proof -
  obtain l where "signalForLocation normalized l (danger_kind decoded d) (ruleID decoded (dr_rule d)) (dr_severity d) False = Some s"
    using assms(1) by (auto simp: danger_signals_def List.map_filter_def split: if_splits)
  from signalForLocation_Some [OF this assms(2)] danger_rule_kept [OF assms(3), of decoded] show ?thesis
    by (simp add: signal_formed_def signal_kept_def)
qed

lemma flood_scan_Some:
  "flood_scan view decoded i start k vs = Some s \<Longrightarrow> \<exists>start i k. hiddenControlFloodSignal view start i k decoded = Some s"
  by (induction view decoded i start k vs rule: flood_scan.induct) (auto split: if_splits option.splits)

lemma flood_signals_formed:
  assumes "s \<in> set (hiddenControlFloodSignals view decoded)" and "aligned n view"
  shows "signal_formed n s"
proof -
  have "flood_scan view decoded 0 None 0 (runes (sv_text view)) = Some s"
    using assms(1) by (simp add: hiddenControlFloodSignals_def split: option.splits)
  then obtain start i k where "hiddenControlFloodSignal view start i k decoded = Some s" using flood_scan_Some by blast
  then obtain src where "signalForSourceSpan view src ''hidden_control_markup'' (ruleID decoded ''hidden_unicode_control_flood'')
      ''critical'' False = Some s"
    by (auto simp: hiddenControlFloodSignal_def split: option.splits if_splits)
  from signalForSourceSpan_Some [OF this assms(2)] show ?thesis
    by (cases decoded) (simp_all add: signal_formed_def signal_kept_def ruleID_def encoded_rules_def go_string_eval)
qed

lemma dangerous_signals_formed:
  assumes "s \<in> set (dangerousSubmissionSignals E view decoded)" and "aligned n view"
  shows "signal_formed n s"
  using assms flood_signals_formed danger_signals_formed [OF _ aligned_normalized [OF assms(2)]]
  by (auto simp: dangerousSubmissionSignals_def split: if_splits)

lemma dangerous_empty:
  assumes "dangerousSubmissionSignals E view decoded = []" and "aligned n view" and "sv_text view \<noteq> []"
  shows "\<not> hidden_flood (runes (sv_text view))
    \<and> (\<forall>d\<in>set danger_rules. \<forall>l\<in>set (FindAllStringIndex (dr_pattern d) (sv_text (normalizedSecurityView E view))).
        danger_exempt E view (normalizedSecurityView E view) decoded d l)"
  using assms hiddenControlFloodSignals_iff [OF assms(2), of decoded] danger_rules_min
    danger_signals_empty [OF aligned_normalized [OF assms(2)]]
  by (auto simp: dangerousSubmissionSignals_def)

end
