(* ===== verification/Security_Encoded.thy ===== *)
theory Security_Encoded
  imports Security_Signals
begin

text \<open>
  Encoded evidence in the intake scan, internal/remember/service/security_scan.go and security_scan_helpers.go:
  data URIs, PEM envelopes, JSON web tokens and Base64 candidates, in one piece or folded. What a candidate
  decodes to is scanned in turn; the decoded text is shorter than the text it was found in, so the fuel of
  \<open>encoded_signals\<close> is never exhausted (\<open>encodedEvidenceSignals_unfold\<close>).
\<close>

section \<open>Base64 shapes\<close>

definition trim_padding :: "string \<Rightarrow> string" where
  "trim_padding s = trim_right_by (\<lambda>r. r = 61) s"

text \<open>\<open>decodeBase64\<close> tries each encoding on the candidate, then on the candidate without its padding.\<close>

definition decodeBase64 :: "string \<Rightarrow> string option" where
  "decodeBase64 encoded =
     (case List.find (\<lambda>d. d \<noteq> None)
         (concat (map (\<lambda>decoder. [decoder encoded, decoder (trim_padding encoded)])
            [padded_decode std_alphabet, raw_decode std_alphabet, padded_decode url_alphabet, raw_decode url_alphabet])) of
        None \<Rightarrow> None
      | Some d \<Rightarrow> d)"

definition isBase64URLPart :: "string \<Rightarrow> bool" where
  "isBase64URLPart v \<longleftrightarrow> base64_decode (trim_padding v) \<noteq> None"

definition isBase64TokenPart :: "string \<Rightarrow> bool" where
  "isBase64TokenPart v \<longleftrightarrow>
     list_all (\<lambda>r. 65 \<le> r \<and> r \<le> 90 \<or> 97 \<le> r \<and> r \<le> 122 \<or> 48 \<le> r \<and> r \<le> 57 \<or> r \<in> set [43, 47, 95, 61, 45]) (runes v)"

definition isBase64EncodedShape :: "string \<Rightarrow> bool" where
  "isBase64EncodedShape encoded =
     (if length encoded < 16 \<or> \<not> MatchString base64TokenPattern encoded \<or> \<not> isBase64TokenPart encoded then False
      else let trimmed = trim_padding encoded in
        trimmed \<noteq> [] \<and> length encoded - length trimmed \<le> 2 \<and> \<not> go_contains trimmed ''='' \<and> length trimmed mod 4 \<noteq> 1)"

definition base64DecodedByteLength :: "string \<Rightarrow> nat" where
  "base64DecodedByteLength encoded = length (trim_padding encoded) * 3 div 4"

definition printablePercentage :: "string \<Rightarrow> nat" where
  "printablePercentage decoded =
     (if decoded = [] then 0
      else length (filter (\<lambda>c. byte_of c \<in> set [10, 13, 9] \<or> 32 \<le> byte_of c \<and> byte_of c \<le> 126) decoded) * 100 div length decoded)"

definition hasBinaryMagic :: "string \<Rightarrow> bool" where
  "hasBinaryMagic decoded \<longleftrightarrow> list_ex (\<lambda>magic. prefix (map char_at magic) decoded)
     [[31, 139], [137, 80, 78, 71], [80, 75, 3, 4], [127, 69, 76, 70]]"

definition rune_counts :: "nat list \<Rightarrow> (nat \<times> nat) list" where
  "rune_counts rs = map (\<lambda>r. (r, length (filter (\<lambda>q. q = r) rs))) (dedup [] rs)"

definition shannonEntropy :: "scan_env \<Rightarrow> string \<Rightarrow> real" where
  "shannonEntropy E v =
     (if v = [] then 0
      else foldl (\<lambda>entropy (r, n).
             let probability = se_round E (real n / real (rune_count v)) in se_msub E entropy probability (se_log2 E probability))
           0 (se_order E (rune_counts (runes v))))"

section \<open>Ordinary tokens and identifiers\<close>

definition commonIdentifierCandidate :: "string \<Rightarrow> bool" where
  "commonIdentifierCandidate v \<longleftrightarrow> MatchString uuidPattern v \<or> MatchString ulidPattern v \<or> MatchString identifierHexPattern v"

text \<open>The loop of \<open>looksLikeNaturalEvidenceWord\<close>, from byte index 0 on; the bytes of a word are ASCII letters.\<close>

fun natural_word_loop :: "bool \<Rightarrow> bool \<Rightarrow> bool \<Rightarrow> nat list \<Rightarrow> bool" where
  "natural_word_loop first hasLower upperSuffix [] = True"
| "natural_word_loop first hasLower upperSuffix (v # vs) =
     (if 97 \<le> v \<and> v \<le> 122 then \<not> upperSuffix \<and> natural_word_loop False True upperSuffix vs
      else if first \<and> 65 \<le> v \<and> v \<le> 90 then natural_word_loop False hasLower upperSuffix vs
      else if \<not> first \<and> hasLower \<and> 65 \<le> v \<and> v \<le> 90 then natural_word_loop False hasLower True vs
      else False)"

definition looksLikeNaturalEvidenceWord :: "string \<Rightarrow> bool" where
  "looksLikeNaturalEvidenceWord v \<longleftrightarrow> v \<noteq> [] \<and> natural_word_loop True False False (runes v)"

definition looksLikeTechnicalEvidenceToken :: "string \<Rightarrow> bool" where
  "looksLikeTechnicalEvidenceToken v =
     (let rs = runes v; upper = (\<lambda>r. 65 \<le> r \<and> r \<le> 90); lower = (\<lambda>r. 97 \<le> r \<and> r \<le> 122); digit = (\<lambda>r. 48 \<le> r \<and> r \<le> 57) in
      if v = [] \<or> 16 < length v then False
      else list_all (\<lambda>r. upper r \<or> lower r \<or> digit r) rs \<and> (list_ex digit rs \<or> list_ex upper rs \<and> list_ex lower rs))"

definition path_parts :: "string \<Rightarrow> string list" where
  "path_parts v = fields_func (\<lambda>r. r \<in> set [47, 45, 95]) v"

definition looksLikeNaturalEvidenceToken :: "string \<Rightarrow> bool" where
  "looksLikeNaturalEvidenceToken v =
     (let parts = path_parts v in
      if parts = [] then False
      else if length parts = 1 then looksLikeNaturalEvidenceWord (hd parts)
      else list_all (\<lambda>p. looksLikeNaturalEvidenceWord p \<or> looksLikeTechnicalEvidenceToken p) parts
        \<and> list_ex looksLikeNaturalEvidenceWord parts)"

definition readableEvidenceAcronym :: "string \<Rightarrow> bool" where
  "readableEvidenceAcronym v \<longleftrightarrow> 2 \<le> length v \<and> length v \<le> 16 \<and> list_all (\<lambda>r. 65 \<le> r \<and> r \<le> 90) (runes v)"

text \<open>What the scan finds in decoded text.\<close>

definition decoded_danger :: "scan_env \<Rightarrow> string \<Rightarrow> bool" where
  "decoded_danger E decoded \<longleftrightarrow> dangerousSubmissionSignals E (identitySecurityView decoded) True \<noteq> []"

definition readableTechnicalIdentifierCandidate :: "scan_env \<Rightarrow> string \<Rightarrow> bool" where
  "readableTechnicalIdentifierCandidate E v =
     (let parts = path_parts v in
      if 256 < length v \<or> contains_any v ''=+'' \<or> go_contains v ''//'' \<or> length parts < 2 then False
      else if list_ex (\<lambda>p. p = [] \<or> 64 < length p
             \<or> \<not> MatchString camelEvidenceIdentifierPattern p \<and> \<not> readableEvidenceAcronym p \<and> \<not> looksLikeNaturalEvidenceWord p) parts
      then False
      else if \<not> list_ex (\<lambda>p. MatchString camelEvidenceIdentifierPattern p \<or> readableEvidenceAcronym p) parts then False
      else list_all (\<lambda>candidate. case decodeBase64 candidate of
             None \<Rightarrow> True
           | Some decoded \<Rightarrow> \<not> (hasBinaryMagic decoded
               \<or> (3 \<le> length decoded \<or> \<not> readableEvidenceAcronym candidate) \<and> 60 \<le> printablePercentage decoded
               \<or> decoded_danger E decoded)) (parts @ [v]))"

definition opaqueIdentifierCandidate :: "string \<Rightarrow> bool" where
  "opaqueIdentifierCandidate v =
     (let parts = fields_func (\<lambda>r. r \<in> set [45, 95]) v; digit = (\<lambda>r. 48 \<le> r \<and> r \<le> 57) in
      if length v < 16 \<or> contains_any v ''=+/'' \<or> go_contains v ''--'' \<or> go_contains v ''__'' \<or> go_contains v ''-_'' \<or> go_contains v ''_-''
      then False
      else if length parts < 2 \<or> prefix ''-'' v \<or> prefix ''_'' v \<or> suffix ''-'' v \<or> suffix ''_'' v then False
      else list_all (\<lambda>p. p \<noteq> [] \<and> list_all (\<lambda>r. digit r \<or> 65 \<le> r \<and> r \<le> 90 \<or> 97 \<le> r \<and> r \<le> 122) (runes p)) parts
        \<and> list_ex (\<lambda>p. list_ex digit (runes p)) parts)"

section \<open>JSON web tokens\<close>

definition isJWTJSONObject :: "scan_env \<Rightarrow> string \<Rightarrow> bool \<Rightarrow> bool" where
  "isJWTJSONObject E part requireAlgorithm =
     (case base64_decode (trim_padding part) of
        None \<Rightarrow> False
      | Some decoded \<Rightarrow>
          if decoded = [] \<or> 4096 < length decoded then False
          else case se_json E decoded of
              None \<Rightarrow> False
            | Some members \<Rightarrow>
                if members = [] then False
                else if \<not> requireAlgorithm then True
                else case map_of members ''alg'' of
                    Some (Some algorithm) \<Rightarrow> trim_space algorithm \<noteq> []
                  | _ \<Rightarrow> False)"

definition token_trim :: "string \<Rightarrow> string" where
  "token_trim token = trim_by (\<lambda>r. r \<in> set [96, 39, 34, 40, 41, 91, 93, 123, 125, 60, 62, 44, 59, 58]) token"

definition jwt_token :: "scan_env \<Rightarrow> string \<Rightarrow> bool" where
  "jwt_token E trimmed = (case split_byte CHR ''.'' trimmed of
       [a, b, c] \<Rightarrow> 8 \<le> length a \<and> 8 \<le> length b \<and> 8 \<le> length c
         \<and> isBase64URLPart a \<and> isBase64URLPart b \<and> isBase64URLPart c \<and> isJWTJSONObject E a True \<and> isJWTJSONObject E b False
     | _ \<Rightarrow> False)"

definition jwtSignal :: "scan_env \<Rightarrow> security_view \<Rightarrow> security_signal option" where
  "jwtSignal E view =
     (case List.find (\<lambda>t. jwt_token E t \<and> go_index t (sv_text view) \<noteq> None) (map token_trim (go_fields (sv_text view))) of
        None \<Rightarrow> None
      | Some t \<Rightarrow> (case go_index t (sv_text view) of
            None \<Rightarrow> None
          | Some i \<Rightarrow> signalForLocation view (i, i + length t) ''obfuscated_instruction'' ''jwt'' ''critical'' True))"

section \<open>Base64 candidates\<close>

text \<open>\<open>inner\<close> tells whether decoded text has encoded evidence of its own.\<close>

definition candidate_rejected :: "scan_env \<Rightarrow> (string \<Rightarrow> bool) \<Rightarrow> string \<Rightarrow> bool" where
  "candidate_rejected E inner encoded =
     (if opaqueIdentifierCandidate encoded then
        (case decodeBase64 encoded of
           None \<Rightarrow> False
         | Some decoded \<Rightarrow> decoded \<noteq> [] \<and> length decoded \<le> 4096 \<and> (inner decoded \<or> decoded_danger E decoded))
      else if \<not> isBase64EncodedShape encoded \<or> 4096 < base64DecodedByteLength encoded then isBase64EncodedShape encoded
      else case decodeBase64 encoded of
          None \<Rightarrow> False
        | Some decoded \<Rightarrow>
            if decoded = [] \<or> 4096 < length decoded then False
            else if contains_any encoded ''=+/_-'' \<or> hasBinaryMagic decoded \<or> decoded_danger E decoded then True
            else if 85 \<le> printablePercentage decoded then True
            else 24 \<le> length encoded \<and> se_round E 3.8 \<le> shannonEntropy E encoded \<and> 60 \<le> printablePercentage decoded)"

definition ordinary_token :: "scan_env \<Rightarrow> string \<Rightarrow> bool" where
  "ordinary_token E v \<longleftrightarrow>
     commonIdentifierCandidate v \<or> looksLikeNaturalEvidenceToken v \<or> readableTechnicalIdentifierCandidate E v"

definition encoded_signal :: "security_view \<Rightarrow> nat \<times> nat \<Rightarrow> string \<Rightarrow> security_signal list" where
  "encoded_signal view l rule = (case signalForLocation view l ''obfuscated_instruction'' rule ''critical'' True of
       None \<Rightarrow> [] | Some s \<Rightarrow> [s])"

text \<open>The loop over the tokens of the view, with the number of candidates so far.\<close>

fun candidate_signals :: "scan_env \<Rightarrow> (string \<Rightarrow> bool) \<Rightarrow> security_view \<Rightarrow> nat \<Rightarrow> (nat \<times> nat) list \<Rightarrow> security_signal list" where
  "candidate_signals E inner view n [] = []"
| "candidate_signals E inner view n (l # ls) =
     (let candidate = slice (sv_text view) (fst l) (snd l) in
      if ordinary_token E candidate then candidate_signals E inner view n ls
      else if 8 < Suc n then encoded_signal view l ''encoded_candidate_budget''
      else if isBase64EncodedShape candidate \<and> 4096 < base64DecodedByteLength candidate
      then encoded_signal view l ''oversized_base64'' @ candidate_signals E inner view (Suc n) ls
      else (if candidate_rejected E inner candidate then encoded_signal view l ''base64_candidate'' else [])
        @ candidate_signals E inner view (Suc n) ls)"

section \<open>Folded candidates\<close>

definition foldedBase64Delimiter :: "string \<Rightarrow> bool" where
  "foldedBase64Delimiter v \<longleftrightarrow> trim_space v = []
     \<or> list_all (\<lambda>r. space_rune r \<or> r \<in> set [96, 39, 34, 40, 41, 44, 59, 58, 91, 93, 123, 125, 60, 62]) (runes v)"

definition fold_flush :: "(string \<Rightarrow> bool) \<Rightarrow> string list \<Rightarrow> nat \<times> nat \<Rightarrow> (nat \<times> nat) option" where
  "fold_flush rejected parts l = (if length parts < 2 then None else if rejected (concat parts) then Some l else None)"

text \<open>
  The loop over the parts, with the parts collected so far, the location they span, and the end of the last
  match; \<open>flush\<close> always starts a new collection.
\<close>

fun folded_scan :: "(string \<Rightarrow> bool) \<Rightarrow> (string \<Rightarrow> bool) \<Rightarrow> string \<Rightarrow> string list \<Rightarrow> nat \<times> nat \<Rightarrow> nat option
    \<Rightarrow> (nat \<times> nat) list \<Rightarrow> (nat \<times> nat) option" where
  "folded_scan usable rejected content parts l previousEnd [] = fold_flush rejected parts l"
| "folded_scan usable rejected content parts l previousEnd (m # ms) =
     (let broken = (case previousEnd of None \<Rightarrow> False | Some e \<Rightarrow> \<not> foldedBase64Delimiter (slice content e (fst m)));
          kept = (if broken then [] else parts); part = slice content (fst m) (snd m) in
      case (if broken then fold_flush rejected parts l else None) of
        Some r \<Rightarrow> Some r
      | None \<Rightarrow>
          if usable part
          then folded_scan usable rejected content (kept @ [part]) (if kept = [] then fst m else fst l, snd m) (Some (snd m)) ms
          else (case fold_flush rejected kept l of
              Some r \<Rightarrow> Some r
            | None \<Rightarrow> folded_scan usable rejected content [] l (Some (snd m)) ms))"

definition foldedBase64Location :: "scan_env \<Rightarrow> (string \<Rightarrow> bool) \<Rightarrow> string \<Rightarrow> (nat \<times> nat) option" where
  "foldedBase64Location E inner content =
     (let matches = FindAllStringIndex base64PartPattern content in
      if length matches < 2 then None
      else folded_scan (\<lambda>p. 4 \<le> length p \<and> \<not> ordinary_token E p) (candidate_rejected E inner) content [] (0, 0) None matches)"

section \<open>Encoded evidence\<close>

definition match_signals :: "security_view \<Rightarrow> rx \<Rightarrow> string \<Rightarrow> security_signal list" where
  "match_signals view pattern rule =
     (case FindStringIndex pattern (sv_text view) of None \<Rightarrow> [] | Some l \<Rightarrow> encoded_signal view l rule)"

definition encoded_signals_with :: "scan_env \<Rightarrow> (string \<Rightarrow> bool) \<Rightarrow> security_view \<Rightarrow> security_signal list" where
  "encoded_signals_with E inner view =
     (if sv_text view = [] then []
      else match_signals view dataURIBase64 ''data_uri_base64'' @ match_signals view pemEnvelope ''pem_envelope''
        @ (case jwtSignal E view of None \<Rightarrow> [] | Some s \<Rightarrow> [s])
        @ candidate_signals E inner view 0 (FindAllStringIndex base64TokenPattern (sv_text view))
        @ (case foldedBase64Location E inner (sv_text view) of None \<Rightarrow> [] | Some l \<Rightarrow> encoded_signal view l ''folded_base64''))"

primrec encoded_signals :: "scan_env \<Rightarrow> nat \<Rightarrow> security_view \<Rightarrow> security_signal list" where
  "encoded_signals E 0 view = []"
| "encoded_signals E (Suc fuel) view =
     encoded_signals_with E (\<lambda>decoded. encoded_signals E fuel (identitySecurityView decoded) \<noteq> []) view"

definition encodedEvidenceSignals :: "scan_env \<Rightarrow> security_view \<Rightarrow> security_signal list" where
  "encodedEvidenceSignals E view = encoded_signals E (Suc (length (sv_text view))) view"

definition encodedCandidateRejected :: "scan_env \<Rightarrow> string \<Rightarrow> bool" where
  "encodedCandidateRejected E encoded =
     candidate_rejected E (\<lambda>decoded. encodedEvidenceSignals E (identitySecurityView decoded) \<noteq> []) encoded"

section \<open>The fuel is enough\<close>

lemma decodeBase64_length:
  assumes "decodeBase64 encoded = Some d"
  shows "4 * length d \<le> 3 * length encoded"
proof -
  obtain q where "List.find (\<lambda>d. d \<noteq> None)
      (concat (map (\<lambda>decoder. [decoder encoded, decoder (trim_padding encoded)])
         [padded_decode std_alphabet, raw_decode std_alphabet, padded_decode url_alphabet, raw_decode url_alphabet])) = Some q"
    and q: "q = Some d"
    using assms by (auto simp: decodeBase64_def split: option.splits)
  from find_mem [OF this(1)] obtain c alphabet where c: "c = encoded \<or> c = trim_padding encoded"
    "padded_decode alphabet c = Some d \<or> raw_decode alphabet c = Some d" by (auto simp: q) metis+
  then have "4 * length d \<le> 3 * length c" using length_padded_decode length_raw_decode by blast
  moreover have "length c \<le> length encoded" using c(1) length_trim_right_by [of _ encoded] by (auto simp: trim_padding_def)
  ultimately show ?thesis by simp
qed

lemma candidate_rejected_cong:
  assumes "\<And>d. length d < length encoded \<Longrightarrow> inner d = inner' d"
  shows "candidate_rejected E inner encoded = candidate_rejected E inner' encoded"
proof -
  have "inner d = inner' d" if "decodeBase64 encoded = Some d" "d \<noteq> []" for d
    using decodeBase64_length [OF that(1)] that(2) by (intro assms) (cases d, auto)
  then show ?thesis
    by (cases "opaqueIdentifierCandidate encoded"; cases "decodeBase64 encoded")
      (auto simp: candidate_rejected_def)
qed

lemma length_slice: "length (slice s a b) \<le> length s"
  by (simp add: slice_def)

lemma candidate_signals_cong:
  assumes "\<And>d. length d < length (sv_text view) \<Longrightarrow> inner d = inner' d"
  shows "candidate_signals E inner view n ls = candidate_signals E inner' view n ls"
proof (induction ls arbitrary: n)
  case (Cons l ls)
  have "candidate_rejected E inner (slice (sv_text view) (fst l) (snd l)) = candidate_rejected E inner' (slice (sv_text view) (fst l) (snd l))"
    by (rule candidate_rejected_cong, rule assms, erule less_le_trans, rule length_slice)
  with Cons show ?case by (simp add: Let_def)
qed simp

lemma folded_scan_cong:
  assumes "\<And>c. length c \<le> length content \<Longrightarrow> rejected c = rejected' c"
  shows "sorted_wrt (\<lambda>x y. snd x \<le> fst y) ms \<Longrightarrow> \<forall>m\<in>set ms. e \<le> fst m \<and> fst m \<le> snd m \<and> snd m \<le> length content
    \<Longrightarrow> length (concat parts) \<le> e \<Longrightarrow> e \<le> length content
    \<Longrightarrow> folded_scan usable rejected content parts l previousEnd ms = folded_scan usable rejected' content parts l previousEnd ms"
proof (induction ms arbitrary: parts l previousEnd e)
  case Nil
  with assms [of "concat parts"] show ?case by (simp add: fold_flush_def)
next
  case (Cons m ms)
  have flush: "fold_flush rejected ps l = fold_flush rejected' ps l" if "ps = parts \<or> ps = []" for ps
    using assms [of "concat ps"] that Cons.prems(3,4) by (auto simp: fold_flush_def)
  have m: "e \<le> fst m" "fst m \<le> snd m" "snd m \<le> length content" using Cons.prems(2) by simp_all
  have ms: "sorted_wrt (\<lambda>x y. snd x \<le> fst y) ms" "\<forall>x\<in>set ms. snd m \<le> fst x \<and> fst x \<le> snd x \<and> snd x \<le> length content"
    using Cons.prems(1,2) by simp_all
  have part: "length (slice content (fst m) (snd m)) \<le> snd m - fst m" by (simp add: slice_def)
  have step: "folded_scan usable rejected content ps l' p ms = folded_scan usable rejected' content ps l' p ms"
    if "length (concat ps) \<le> snd m" for ps l' p
    using Cons.IH [OF ms that m(3)] .
  have "length (concat (ps @ [slice content (fst m) (snd m)])) \<le> snd m" if "ps = parts \<or> ps = []" for ps
    using that part m Cons.prems(3) by auto
  then have grow: "folded_scan usable rejected content (ps @ [slice content (fst m) (snd m)]) l' p ms
      = folded_scan usable rejected' content (ps @ [slice content (fst m) (snd m)]) l' p ms" if "ps = parts \<or> ps = []" for ps l' p
    using that step by blast
  have fresh: "folded_scan usable rejected content [] l' p ms = folded_scan usable rejected' content [] l' p ms" for l' p
    by (rule step) simp
  let ?broken = "case previousEnd of None \<Rightarrow> False | Some e \<Rightarrow> \<not> foldedBase64Delimiter (slice content e (fst m))"
  show ?case
    by (cases ?broken)
      (simp_all only: folded_scan.simps Let_def if_True if_False simp_thms flush grow fresh)
qed

lemma foldedBase64Location_cong:
  assumes "\<And>d. length d < length content \<Longrightarrow> inner d = inner' d"
  shows "foldedBase64Location E inner content = foldedBase64Location E inner' content"
proof -
  have "candidate_rejected E inner c = candidate_rejected E inner' c" if "length c \<le> length content" for c
    using that by (intro candidate_rejected_cong assms) simp
  moreover have "\<forall>m\<in>set (FindAllStringIndex base64PartPattern content). 0 \<le> fst m \<and> fst m \<le> snd m \<and> snd m \<le> length content"
    using FindAllStringIndex_ok [of _ base64PartPattern content] by (simp add: location_ok_def)
  ultimately show ?thesis
    unfolding foldedBase64Location_def Let_def
    by (intro if_cong refl folded_scan_cong [where e = 0] FindAllStringIndex_apart) simp_all
qed

lemma encoded_signals_with_cong:
  assumes "\<And>d. length d < length (sv_text view) \<Longrightarrow> inner d = inner' d"
  shows "encoded_signals_with E inner view = encoded_signals_with E inner' view"
proof -
  have "candidate_signals E inner view 0 ls = candidate_signals E inner' view 0 ls" for ls
    by (rule candidate_signals_cong) (rule assms)
  moreover have "foldedBase64Location E inner (sv_text view) = foldedBase64Location E inner' (sv_text view)"
    by (rule foldedBase64Location_cong) (rule assms)
  ultimately show ?thesis by (simp only: encoded_signals_with_def)
qed

lemma encoded_signals_fuel:
  "length (sv_text view) < n \<Longrightarrow> length (sv_text view) < m \<Longrightarrow> encoded_signals E n view = encoded_signals E m view"
proof (induction n arbitrary: m view)
  case (Suc n)
  then obtain k where m: "m = Suc k" by (cases m) auto
  have "encoded_signals E n (identitySecurityView d) = encoded_signals E k (identitySecurityView d)"
    if "length d < length (sv_text view)" for d
    by (rule Suc.IH) (use Suc.prems that m in \<open>simp_all add: identitySecurityView_def\<close>)
  then show ?case unfolding m encoded_signals.simps by (intro encoded_signals_with_cong) simp
qed simp

lemma encoded_signals_unfold:
  "encodedEvidenceSignals E view
     = encoded_signals_with E (\<lambda>decoded. encodedEvidenceSignals E (identitySecurityView decoded) \<noteq> []) view"
proof -
  have "encoded_signals E (length (sv_text view)) (identitySecurityView d) = encodedEvidenceSignals E (identitySecurityView d)"
    if "length d < length (sv_text view)" for d
    unfolding encodedEvidenceSignals_def using that by (intro encoded_signals_fuel) (simp_all add: identitySecurityView_def)
  then show ?thesis
    unfolding encodedEvidenceSignals_def [of E view] encoded_signals.simps by (intro encoded_signals_with_cong) simp
qed

section \<open>Every signal is well formed\<close>

lemma encoded_rule_kept: "rule \<in> set encoded_rules \<Longrightarrow> trim_space rule \<noteq> [] \<and> rule \<notin> set [''control_markup'', ''decoded_control_markup'']"
  unfolding encoded_rules_def list.set by (elim insertE emptyE; hypsubst) (simp_all add: go_string_eval)

lemma encoded_signal_formed:
  assumes "s \<in> set (encoded_signal view l rule)" and "aligned n view" and "rule \<in> set encoded_rules"
  shows "signal_formed n s"
proof -
  have "signalForLocation view l ''obfuscated_instruction'' rule ''critical'' True = Some s"
    using assms(1)
    by (cases "signalForLocation view l ''obfuscated_instruction'' rule ''critical'' True") (simp_all add: encoded_signal_def)
  from signalForLocation_Some [OF this assms(2)] encoded_rule_kept [OF assms(3)] assms(3) show ?thesis
    by (simp add: signal_formed_def signal_kept_def go_string_eval)
qed

lemma candidate_signals_formed:
  "s \<in> set (candidate_signals E inner view k ls) \<Longrightarrow> aligned n view \<Longrightarrow> signal_formed n s"
proof (induction ls arbitrary: k)
  case (Cons l ls)
  let ?own = "\<lambda>rule. set (encoded_signal view l rule)"
  have own: "signal_formed n s" if "s \<in> ?own rule" "rule \<in> set encoded_rules" for rule
    using encoded_signal_formed [OF that(1) Cons.prems(2) that(2)] .
  have rules: "''encoded_candidate_budget'' \<in> set encoded_rules" "''oversized_base64'' \<in> set encoded_rules"
    "''base64_candidate'' \<in> set encoded_rules" by (simp_all add: encoded_rules_def)
  from Cons.prems(1) have "s \<in> set (candidate_signals E inner view k ls) \<or> s \<in> set (candidate_signals E inner view (Suc k) ls)
      \<or> s \<in> ?own ''encoded_candidate_budget'' \<or> s \<in> ?own ''oversized_base64'' \<or> s \<in> ?own ''base64_candidate''"
    unfolding candidate_signals.simps Let_def by (simp only: split: if_split_asm) auto
  then show ?case using Cons.IH Cons.prems(2) own rules by blast
qed simp

lemma encoded_signals_formed:
  assumes "s \<in> set (encodedEvidenceSignals E view)" and "aligned n view"
  shows "signal_formed n s"
proof -
  have signal: "signal_formed n x" if "x \<in> set (encoded_signal view l rule)" "rule \<in> set encoded_rules" for x l rule
    using encoded_signal_formed [OF that(1) assms(2) that(2)] .
  have "signal_formed n x" if jwt: "jwtSignal E view = Some x" for x
  proof -
    obtain i and t :: string where "signalForLocation view (i, i + length t) ''obfuscated_instruction'' ''jwt'' ''critical'' True = Some x"
      using jwt by (auto simp: jwtSignal_def split: option.split_asm)
    then have "x \<in> set (encoded_signal view (i, i + length t) ''jwt'')" by (simp add: encoded_signal_def)
    then show ?thesis by (rule signal) (simp add: encoded_rules_def)
  qed
  moreover have "signal_formed n x" if "x \<in> set (match_signals view pattern rule)" "rule \<in> set encoded_rules" for x pattern rule
    using that signal by (auto simp: match_signals_def split: option.splits)
  moreover have "rule \<in> set encoded_rules" if "rule \<in> set [''data_uri_base64'', ''pem_envelope'', ''folded_base64'']" for rule
    using that by (auto simp: encoded_rules_def)
  ultimately show ?thesis
    using assms candidate_signals_formed [OF _ assms(2), of s] signal
    unfolding encoded_signals_unfold [of E view] encoded_signals_with_def
    by (fastforce split: if_splits option.splits)
qed

end
