(* ===== verification/Security_Scan.thy ===== *)
theory Security_Scan
  imports Security_Encoded
begin

text \<open>
  The admission decision of the intake scan, internal/remember/service/security_scan.go: the scan of one
  evidence item, of a batch with the strings of a provider proposal, and the security event drafts. The
  properties say what accepted evidence cannot contain, what a scan reports, and how a batch is decided.
\<close>

section \<open>Errors\<close>

text \<open>A \<open>SubmissionSecurityError\<close> is its code; a nil pointer is \<open>None\<close>.\<close>

definition ErrEncodedEvidenceNotAllowed :: string where
  "ErrEncodedEvidenceNotAllowed = ''encoded_evidence_not_allowed''"

definition ErrEvidenceSecurityRejected :: string where
  "ErrEvidenceSecurityRejected = ''evidence_security_rejected''"

definition security_error_text :: "string option \<Rightarrow> string" where
  "security_error_text e = (case e of
       None \<Rightarrow> ErrEvidenceSecurityRejected
     | Some code \<Rightarrow> if trim_space code = [] then ErrEvidenceSecurityRejected else code)"

section \<open>One evidence item\<close>

record security_scan =
  sc_signals :: "security_signal list"
  sc_truncated :: bool

definition rejectsEncodedEvidence :: "security_scan \<Rightarrow> bool" where
  "rejectsEncodedEvidence scan \<longleftrightarrow> list_ex ss_encoded (sc_signals scan)"

text \<open>The signals in the order in which the detectors run.\<close>

definition found_signals :: "scan_env \<Rightarrow> string \<Rightarrow> security_signal list" where
  "found_signals E content =
     (let identity = identitySecurityView content; decoded = oneLayerSubmissionDecode E content in
      encodedEvidenceSignals E identity @ dangerousSubmissionSignals E identity False
      @ (if sv_text decoded \<noteq> content then encodedEvidenceSignals E decoded @ dangerousSubmissionSignals E decoded True else []))"

definition ScanSubmissionEvidence :: "scan_env \<Rightarrow> string \<Rightarrow> security_scan \<times> string option" where
  "ScanSubmissionEvidence E content =
     (let (signals, truncated) = normalizeSubmissionSecuritySignals (found_signals E content);
          scan = \<lparr>sc_signals = signals, sc_truncated = truncated\<rparr> in
      if rejectsEncodedEvidence scan then (scan, Some ErrEncodedEvidenceNotAllowed)
      else if sc_signals scan \<noteq> [] then (scan, Some ErrEvidenceSecurityRejected)
      else (scan, None))"

section \<open>A batch\<close>

record security_input =
  si_content :: string
  si_source :: string
  si_index :: int
  si_path :: string

record batch_signal =
  bs_index :: int
  bs_source :: string
  bs_path :: string
  bs_signal :: security_signal

record batch_scan =
  bc_items :: "security_scan list"
  bc_signals :: "batch_signal list"
  bc_evidence :: nat
  bc_truncated :: bool

fun append_batch_signals :: "security_input \<Rightarrow> security_signal list \<Rightarrow> batch_scan \<Rightarrow> batch_scan" where
  "append_batch_signals i [] result = result"
| "append_batch_signals i (s # ss) result =
     (if 16 \<le> length (bc_signals result) then result\<lparr>bc_truncated := True\<rparr>
      else append_batch_signals i ss (result\<lparr>bc_signals := bc_signals result
        @ [\<lparr>bs_index = si_index i, bs_source = si_source i, bs_path = si_path i, bs_signal = s\<rparr>]\<rparr>))"

definition scan_input :: "scan_env \<Rightarrow> security_input \<Rightarrow> batch_scan \<times> string option \<Rightarrow> batch_scan \<times> string option" where
  "scan_input E i st =
     (let (result, rejection) = st; (scan, err) = ScanSubmissionEvidence E (si_content i);
          r1 = result\<lparr>bc_items := bc_items result @ [scan]\<rparr>;
          r2 = (if si_source i = ''evidence'' then r1\<lparr>bc_evidence := Suc (bc_evidence r1)\<rparr> else r1);
          r3 = (if sc_truncated scan then r2\<lparr>bc_truncated := True\<rparr> else r2);
          first = (if err \<noteq> None \<and> rejection = None then err else rejection) in
      (append_batch_signals i (sc_signals scan) r3,
       if err = Some ErrEncodedEvidenceNotAllowed then Some ErrEncodedEvidenceNotAllowed else first))"

definition scanSubmissionInputs :: "scan_env \<Rightarrow> security_input list \<Rightarrow> batch_scan \<times> string option" where
  "scanSubmissionInputs E inputs =
     fold (scan_input E) inputs (\<lparr>bc_items = [], bc_signals = [], bc_evidence = 0, bc_truncated = False\<rparr>, None)"

definition evidence_inputs :: "string list \<Rightarrow> security_input list" where
  "evidence_inputs contents =
     map (\<lambda>(i, c). \<lparr>si_content = c, si_source = ''evidence'', si_index = int i, si_path = []\<rparr>) (enumerate 0 contents)"

definition ScanSubmissionBatch :: "scan_env \<Rightarrow> string list \<Rightarrow> batch_scan \<times> string option" where
  "ScanSubmissionBatch E contents = scanSubmissionInputs E (evidence_inputs contents)"

section \<open>The strings of a provider proposal\<close>

text \<open>A proposal after \<open>json.Marshal\<close> and \<open>json.Unmarshal\<close>; the keys of an object are distinct.\<close>

datatype json = JNull | JBool bool | JNumber | JString string | JArray "json list" | JObject "(string \<times> json) list"

text \<open>internal/remember/service/submission_diagnostics.go: where a finding in a proposal is reported.\<close>

definition diagnosticInputPath :: rx where
  "diagnosticInputPath =
     rx_cats [RBegin, rx_lit ''/'', rx_alts [rx_cats [rx_lit ''evidence'', ROpt True (rx_cats [rx_lit ''/'',
     rx_plus True (RSet [(48, 57)]), ROpt True (rx_cats [rx_lit ''/'', rx_alts [rx_lit ''content'',
     rx_lit ''source_key'', rx_lit ''source_revision'', rx_lit ''previous_source_revision'']])])],
     rx_cats [rx_lit ''relationships'', ROpt True (rx_cats [rx_lit ''/'', rx_plus True (RSet [(48, 57)]),
     ROpt True (rx_cats [rx_lit ''/'', rx_alts [rx_lit ''client_comment'', rx_lit ''ref'', rx_lit ''subject'',
     rx_lit ''object'', rx_lit ''predicate'', rx_lit ''known_evidence_ids'', rx_lit ''correction_target'',
     rx_lit ''conflict_context'', rx_lit ''valid_from'', rx_lit ''valid_to''], RStar True (rx_cats [rx_lit ''/'',
     rx_plus True (RSet [(95, 95), (97, 122)])])])])]], REnd]"

definition replace_first :: "string \<Rightarrow> string \<Rightarrow> string \<Rightarrow> string" where
  "replace_first s old new = (case go_index old s of None \<Rightarrow> s | Some i \<Rightarrow> take i s @ new @ drop (i + length old) s)"

definition diagnosticProposalPath :: "string \<Rightarrow> string" where
  "diagnosticProposalPath path =
     (let p = replace_first path ''/relationship_hints'' ''/relationships'' in
      if MatchString diagnosticInputPath p then p else ''/relationships'')"

definition diagnosticArrayPath :: "string \<Rightarrow> nat \<Rightarrow> string" where
  "diagnosticArrayPath path i = path @ ''/'' @ decimal i"

definition escape_key :: "string \<Rightarrow> string" where
  "escape_key k = concat (map (\<lambda>c. if c = CHR ''~'' then ''~0'' else if c = CHR ''/'' then ''~1'' else [c]) k)"

definition proposal_input :: "string \<Rightarrow> string \<Rightarrow> security_input" where
  "proposal_input content location =
     \<lparr>si_content = content, si_source = ''proposal'', si_index = - 1, si_path = diagnosticProposalPath location\<rparr>"

function appendSubmissionSecurityProposalValues :: "json \<Rightarrow> string \<Rightarrow> security_input list" where
  "appendSubmissionSecurityProposalValues (JString s) path = [proposal_input s path]"
| "appendSubmissionSecurityProposalValues (JArray items) path =
     concat (map (\<lambda>(i, item). appendSubmissionSecurityProposalValues item (diagnosticArrayPath path i)) (enumerate 0 items))"
| "appendSubmissionSecurityProposalValues (JObject members) path =
     concat (map (\<lambda>(k, v). let location = path @ ''/'' @ escape_key k in
         proposal_input k location # appendSubmissionSecurityProposalValues v location) (sort_key fst members))"
| "appendSubmissionSecurityProposalValues JNull path = []"
| "appendSubmissionSecurityProposalValues (JBool b) path = []"
| "appendSubmissionSecurityProposalValues JNumber path = []"
  by pat_completeness auto
termination
proof (relation "measure (\<lambda>(v, path). size v)")
  show "((v, location), JObject members, path) \<in> measure (\<lambda>(v, path). size v)"
    if "z \<in> set (sort_key fst members)" "(k, v) = z" "location = path @ ''/'' @ escape_key k" for members path z k v location
    using that size_list_estimation' [of "(k, v)" members "size v" "size_prod (\<lambda>x. 0) size"] by auto
  show "((item, diagnosticArrayPath path i), JArray items, path) \<in> measure (\<lambda>(v, path). size v)"
    if "z \<in> set (enumerate 0 items)" "(i, item) = z" for items path z i item
    using that size_list_estimation' [of item items "size item" size] by (auto simp: in_set_enumerate_eq)
qed simp

text \<open>\<open>proposal\<close> is the normalized JSON object, \<open>None\<close> when encoding it fails.\<close>

definition scanSubmissionWithProviderProposal ::
  "scan_env \<Rightarrow> string list \<Rightarrow> nat \<Rightarrow> json option \<Rightarrow> batch_scan \<times> string option" where
  "scanSubmissionWithProviderProposal E contents size_of_proposal proposal =
     (let inputs = evidence_inputs contents in
      if size_of_proposal = 0 then scanSubmissionInputs E inputs
      else case proposal of
          None \<Rightarrow> (\<lparr>bc_items = replicate (length inputs) \<lparr>sc_signals = [], sc_truncated = False\<rparr>, bc_signals = [],
                    bc_evidence = length contents, bc_truncated = False\<rparr>, Some ErrEvidenceSecurityRejected)
        | Some value \<Rightarrow> scanSubmissionInputs E (inputs @ appendSubmissionSecurityProposalValues value []))"

section \<open>Event drafts\<close>

record security_signal_input =
  sg_kind :: string
  sg_severity :: string
  sg_start :: nat
  sg_end :: nat
  sg_metadata :: "(string \<times> string) list"

record security_event =
  ev_kind :: string
  ev_decision :: string
  ev_reason :: string
  ev_signals :: "security_signal_input list"
  ev_metadata :: "(string \<times> bool) list"

definition submissionSecurityPassEvent :: security_event where
  "submissionSecurityPassEvent =
     \<lparr>ev_kind = ''deterministic_scan'', ev_decision = ''pass'', ev_reason = ''deterministic intake scan passed'',
      ev_signals = [], ev_metadata = []\<rparr>"

definition submissionSecurityQuarantineEventForSignals :: "security_signal list \<Rightarrow> bool \<Rightarrow> string list \<Rightarrow> security_event" where
  "submissionSecurityQuarantineEventForSignals signals truncated sources =
     \<lparr>ev_kind = ''deterministic_scan'', ev_decision = ''quarantine'', ev_reason = ''deterministic intake scan rejected evidence'',
      ev_signals = map (\<lambda>(i, s). \<lparr>sg_kind = ss_kind s, sg_severity = ss_severity s, sg_start = ss_start s, sg_end = ss_end s,
          sg_metadata = (''rule_id'', ss_rule s) # (if i < length sources \<and> sources ! i \<noteq> [] then [(''source'', sources ! i)] else [])\<rparr>)
        (enumerate 0 signals),
      ev_metadata = [(''signals_truncated'', truncated)]\<rparr>"

definition submissionSecurityBatchQuarantineEvent :: "batch_scan \<Rightarrow> security_event" where
  "submissionSecurityBatchQuarantineEvent scan =
     submissionSecurityQuarantineEventForSignals (map bs_signal (bc_signals scan)) (bc_truncated scan) (map bs_source (bc_signals scan))"


section \<open>What clean text is\<close>

text \<open>The text in which instructions are searched: every rune normalized, without marks and hidden controls.\<close>

definition normalized_text :: "scan_env \<Rightarrow> string \<Rightarrow> string" where
  "normalized_text E t = string_of_runes (concat (map (\<lambda>v.
     filter (\<lambda>r. \<not> (se_mark E r \<or> hiddenControlRune r)) (runes (to_lower (se_nfkc E (string_of_runes [v]))))) (runes t)))"

lemma normalized_text_view:
  assumes "aligned n view"
  shows "sv_text (normalizedSecurityView E view) = normalized_text E (sv_text view)"
proof (cases "sv_text view = []")
  case False
  have "map fst (concat (map (\<lambda>(v, src). map (\<lambda>r. (r, src)) (h v)) (zip rs ss))) = concat (map h rs)"
    if "length ss = length rs" for h :: "nat \<Rightarrow> nat list" and rs and ss :: "source_span list"
    using that by (induction ss rs rule: list_induct2) (simp_all add: comp_def)
  with assms False show ?thesis
    by (simp add: normalizedSecurityView_def view_of_def normalized_text_def aligned_def rune_count_def)
qed (simp add: normalizedSecurityView_def normalized_text_def runes_def string_of_runes_def)

text \<open>No encoded payload, and no markup, role marker or run of hidden controls.\<close>

definition clean_text :: "scan_env \<Rightarrow> string \<Rightarrow> bool" where
  "clean_text E t \<longleftrightarrow> \<not> MatchString dataURIBase64 t \<and> \<not> MatchString pemEnvelope t
     \<and> list_all (\<lambda>l. ordinary_token E (slice t (fst l) (snd l)) \<or> \<not> encodedCandidateRejected E (slice t (fst l) (snd l)))
         (FindAllStringIndex base64TokenPattern t)
     \<and> \<not> hidden_flood (runes t)
     \<and> \<not> MatchString markupPattern (normalized_text E t) \<and> \<not> MatchString controlRolePattern (normalized_text E t)"

text \<open>Every instruction in it is exempt: it is prohibited or reported, not hidden, or no directive to a tool.\<close>

definition exempt_instructions :: "scan_env \<Rightarrow> string \<Rightarrow> bool" where
  "exempt_instructions E t =
     (let normalized = normalized_text E t; view = identitySecurityView t in
      list_all (\<lambda>l. submissionInstructionIsData normalized l ''instruction_override''
          \<and> securityMatchHasNoHiddenControls E view (normalizedSecurityView E view) l)
        (FindAllStringIndex overridePattern normalized)
      \<and> list_all (\<lambda>l. submissionInstructionIsData normalized l ''prompt_secret_extraction''
          \<and> securityMatchHasNoHiddenControls E view (normalizedSecurityView E view) l)
        (FindAllStringIndex secretExtractionPattern normalized)
      \<and> list_all (\<lambda>l. \<not> toolExfiltrationIsDirective normalized (fst l) \<or> submissionInstructionIsData normalized l ''tool_exfiltration'')
        (FindAllStringIndex toolExfiltrationPattern normalized))"

section \<open>No finding is lost\<close>

lemma found_formed:
  assumes "s \<in> set (found_signals E content)"
  shows "signal_formed (rune_count content) s"
  using assms encoded_signals_formed dangerous_signals_formed aligned_identity [of content] aligned_decoded [of content E]
  by (auto simp: found_signals_def Let_def split: if_splits)

lemma scan_parts:
  "sc_signals (fst (ScanSubmissionEvidence E content)) = fst (normalizeSubmissionSecuritySignals (found_signals E content))
   \<and> sc_truncated (fst (ScanSubmissionEvidence E content)) = snd (normalizeSubmissionSecuritySignals (found_signals E content))"
  by (simp add: ScanSubmissionEvidence_def Let_def split: prod.split)

lemma scan_error:
  "snd (ScanSubmissionEvidence E content) =
     (let signals = sc_signals (fst (ScanSubmissionEvidence E content)) in
      if list_ex ss_encoded signals then Some ErrEncodedEvidenceNotAllowed
      else if signals \<noteq> [] then Some ErrEvidenceSecurityRejected else None)"
  by (simp add: ScanSubmissionEvidence_def rejectsEncodedEvidence_def Let_def split: prod.split)

lemma accepted_iff: "snd (ScanSubmissionEvidence E content) = None \<longleftrightarrow> found_signals E content = []"
proof -
  have "fst (normalizeSubmissionSecuritySignals (found_signals E content)) = [] \<longleftrightarrow> found_signals E content = []"
    by (rule normalize_empty) (use found_formed in blast)
  then show ?thesis by (auto simp: scan_error scan_parts Let_def)
qed

lemma encoded_signal_total: "aligned n view \<Longrightarrow> location_ok (sv_text view) 1 l \<Longrightarrow> encoded_signal view l rule \<noteq> []"
  using signalForLocation_total [of n view l "''obfuscated_instruction''" rule "''critical''" True]
  by (auto simp: encoded_signal_def)

lemma match_signals_empty:
  assumes "aligned n view" and "0 < rx_min pattern" and "match_signals view pattern rule = []"
  shows "\<not> MatchString pattern (sv_text view)"
proof (rule ccontr)
  assume "\<not> \<not> MatchString pattern (sv_text view)"
  then obtain l where l: "FindStringIndex pattern (sv_text view) = Some l" by (auto simp: MatchString_find)
  with FindStringIndex_ok [OF l] assms(2) have "location_ok (sv_text view) 1 l" by (simp add: location_ok_def)
  with encoded_signal_total [OF assms(1) this] assms(3) l show False by (simp add: match_signals_def)
qed

lemma candidate_signals_empty:
  assumes "aligned n view"
  shows "\<forall>l\<in>set ls. location_ok (sv_text view) 1 l \<Longrightarrow> candidate_signals E inner view k ls = []
    \<Longrightarrow> \<forall>l\<in>set ls. ordinary_token E (slice (sv_text view) (fst l) (snd l))
      \<or> \<not> candidate_rejected E inner (slice (sv_text view) (fst l) (snd l))"
proof (induction ls arbitrary: k)
  case (Cons l ls)
  have "encoded_signal view l rule \<noteq> []" for rule using encoded_signal_total [OF assms] Cons.prems(1) by simp
  with Cons.prems(2) have "ordinary_token E (slice (sv_text view) (fst l) (snd l)) \<and> candidate_signals E inner view k ls = []
      \<or> \<not> candidate_rejected E inner (slice (sv_text view) (fst l) (snd l)) \<and> candidate_signals E inner view (Suc k) ls = []"
    by (simp add: Let_def split: if_splits)
  with Cons.IH [of k] Cons.IH [of "Suc k"] Cons.prems(1) show ?case by auto
qed simp

lemma security_patterns_min:
  "0 < rx_min dataURIBase64" "0 < rx_min pemEnvelope" "0 < rx_min base64TokenPattern"
  by (simp_all add: dataURIBase64_def pemEnvelope_def base64TokenPattern_def)

lemma danger_rule_of:
  "\<exists>d\<in>set danger_rules. dr_pattern d = markupPattern \<and> dr_rule d = ''control_markup''"
  "\<exists>d\<in>set danger_rules. dr_pattern d = controlRolePattern \<and> dr_rule d = ''control_role''"
  "\<exists>d\<in>set danger_rules. dr_pattern d = overridePattern \<and> dr_rule d = ''instruction_override''"
  "\<exists>d\<in>set danger_rules. dr_pattern d = secretExtractionPattern \<and> dr_rule d = ''prompt_secret_extraction''"
  "\<exists>d\<in>set danger_rules. dr_pattern d = toolExfiltrationPattern \<and> dr_rule d = ''tool_exfiltration''"
  by (simp_all add: danger_rules_def)

text \<open>In a view without signals, every match of a rule is exempt.\<close>

lemma rule_exempt:
  assumes "aligned n view" and "dangerousSubmissionSignals E view decoded = []" and "sv_text view \<noteq> []"
    and "\<exists>d\<in>set danger_rules. dr_pattern d = pattern \<and> dr_rule d = rule"
    and "l \<in> set (FindAllStringIndex pattern (normalized_text E (sv_text view)))"
  shows "\<not> decoded \<and> securityMatchHasNoHiddenControls E view (normalizedSecurityView E view) l
      \<and> rule \<in> set [''instruction_override'', ''prompt_secret_extraction'', ''tool_exfiltration'']
      \<and> submissionInstructionIsData (normalized_text E (sv_text view)) l rule
    \<or> rule = ''tool_exfiltration'' \<and> \<not> toolExfiltrationIsDirective (normalized_text E (sv_text view)) (fst l)"
proof -
  obtain d where d: "d \<in> set danger_rules" "dr_pattern d = pattern" "dr_rule d = rule" using assms(4) by blast
  with dangerous_empty [OF assms(2,1,3)] assms(5)
  have "danger_exempt E view (normalizedSecurityView E view) decoded d l" by (simp add: normalized_text_view [OF assms(1)])
  then show ?thesis unfolding danger_exempt_def d(3) normalized_text_view [OF assms(1)] .
qed

lemma view_clean:
  assumes view: "aligned n view" and enc: "encodedEvidenceSignals E view = []" and dang: "dangerousSubmissionSignals E view decoded = []"
  shows "clean_text E (sv_text view)"
proof (cases "sv_text view = []")
  case True
  have "rune_count [] = 0" "normalized_text E [] = []" "runes [] = []"
    by (simp_all add: rune_count_def runes_def normalized_text_def string_of_runes_def)
  with True danger_rules_min security_patterns_min show ?thesis
    by (auto simp: clean_text_def danger_rules_def hidden_flood_def MatchString_short FindAllStringIndex_short)
next
  case False
  let ?inner = "\<lambda>d. encodedEvidenceSignals E (identitySecurityView d) \<noteq> []"
  let ?tokens = "FindAllStringIndex base64TokenPattern (sv_text view)"
  have parts: "match_signals view dataURIBase64 ''data_uri_base64'' = []" "match_signals view pemEnvelope ''pem_envelope'' = []"
    "candidate_signals E ?inner view 0 ?tokens = []"
    using enc False unfolding encoded_signals_unfold [of E view] encoded_signals_with_def by simp_all
  have "\<forall>l\<in>set ?tokens. location_ok (sv_text view) 1 l"
    using FindAllStringIndex_ok [of _ base64TokenPattern "sv_text view"] security_patterns_min(3)
    by (fastforce simp: location_ok_def)
  from candidate_signals_empty [OF view this parts(3)]
  have "list_all (\<lambda>l. ordinary_token E (slice (sv_text view) (fst l) (snd l))
      \<or> \<not> encodedCandidateRejected E (slice (sv_text view) (fst l) (snd l))) ?tokens"
    by (simp add: encodedCandidateRejected_def list_all_iff)
  moreover have "\<not> MatchString dataURIBase64 (sv_text view)" "\<not> MatchString pemEnvelope (sv_text view)"
    using match_signals_empty [OF view] security_patterns_min parts by blast+
  moreover have "l \<notin> set (FindAllStringIndex markupPattern (normalized_text E (sv_text view)))"
    "l \<notin> set (FindAllStringIndex controlRolePattern (normalized_text E (sv_text view)))" for l
    using rule_exempt [OF view dang False danger_rule_of(1), of l] rule_exempt [OF view dang False danger_rule_of(2), of l] by auto
  then have "\<not> MatchString markupPattern (normalized_text E (sv_text view))"
    "\<not> MatchString controlRolePattern (normalized_text E (sv_text view))"
    unfolding MatchString_all by (metis list.set_sel(1))+
  moreover have "\<not> hidden_flood (runes (sv_text view))" using dangerous_empty [OF dang view False] by blast
  ultimately show ?thesis by (simp add: clean_text_def)
qed

lemma rule_exempt_any:
  assumes "aligned n view" and "dangerousSubmissionSignals E view decoded = []"
    and "\<exists>d\<in>set danger_rules. dr_pattern d = pattern \<and> dr_rule d = rule"
    and "l \<in> set (FindAllStringIndex pattern (normalized_text E (sv_text view)))"
  shows "\<not> decoded \<and> securityMatchHasNoHiddenControls E view (normalizedSecurityView E view) l
      \<and> submissionInstructionIsData (normalized_text E (sv_text view)) l rule
    \<or> rule = ''tool_exfiltration'' \<and> \<not> toolExfiltrationIsDirective (normalized_text E (sv_text view)) (fst l)"
proof (cases "sv_text view = []")
  case True
  then have "normalized_text E (sv_text view) = []" by (simp add: normalized_text_def runes_def string_of_runes_def)
  moreover have "0 < rx_min pattern" using assms(3) danger_rules_min by blast
  ultimately have "FindAllStringIndex pattern (normalized_text E (sv_text view)) = []"
    by (intro FindAllStringIndex_short) (simp add: rune_count_def runes_def)
  with assms(4) show ?thesis by simp
next
  case False
  from rule_exempt [OF assms(1,2) this assms(3,4)] show ?thesis by blast
qed

lemma accepted_exempt:
  assumes "dangerousSubmissionSignals E (identitySecurityView t) False = []"
  shows "exempt_instructions E t"
proof -
  note x = rule_exempt_any [OF aligned_identity assms, unfolded identitySecurityView_def [of t] security_view.simps,
      folded identitySecurityView_def [of t]]
  show ?thesis
    using x [OF danger_rule_of(3)] x [OF danger_rule_of(4)] x [OF danger_rule_of(5)]
    unfolding exempt_instructions_def Let_def list_all_iff by fast
qed

text \<open>No instruction at all: for decoded text there are no exemptions.\<close>

definition no_instructions :: "scan_env \<Rightarrow> string \<Rightarrow> bool" where
  "no_instructions E t =
     (let normalized = normalized_text E t in
      \<not> MatchString overridePattern normalized \<and> \<not> MatchString secretExtractionPattern normalized
      \<and> list_all (\<lambda>l. \<not> toolExfiltrationIsDirective normalized (fst l)) (FindAllStringIndex toolExfiltrationPattern normalized))"

lemma decoded_no_instructions:
  assumes "aligned n view" and "dangerousSubmissionSignals E view True = []"
  shows "no_instructions E (sv_text view)"
proof -
  note x = rule_exempt_any [OF assms]
  have "l \<notin> set (FindAllStringIndex overridePattern (normalized_text E (sv_text view)))"
    "l \<notin> set (FindAllStringIndex secretExtractionPattern (normalized_text E (sv_text view)))" for l
    using x [OF danger_rule_of(3), of l] x [OF danger_rule_of(4), of l] by auto
  then have "\<not> MatchString overridePattern (normalized_text E (sv_text view))"
    "\<not> MatchString secretExtractionPattern (normalized_text E (sv_text view))"
    unfolding MatchString_all by (metis list.set_sel(1))+
  with x [OF danger_rule_of(5)] show ?thesis by (auto simp: no_instructions_def Let_def list_all_iff)
qed

section \<open>Batches\<close>

definition batch_signal_of :: "security_input \<Rightarrow> security_signal \<Rightarrow> batch_signal" where
  "batch_signal_of i s = \<lparr>bs_index = si_index i, bs_source = si_source i, bs_path = si_path i, bs_signal = s\<rparr>"

lemma append_batch_first:
  "length (bc_signals r) \<le> 16 \<Longrightarrow> append_batch_signals i ss r = r\<lparr>bc_signals := take 16 (bc_signals r @ map (batch_signal_of i) ss),
     bc_truncated := bc_truncated r \<or> 16 < length (bc_signals r) + length ss\<rparr>"
proof (induction ss arbitrary: r)
  case (Cons s ss)
  show ?case
  proof (cases "length (bc_signals r) = 16")
    case False
    with Cons show ?thesis by (simp add: batch_signal_of_def take_Cons')
  qed simp
qed simp

text \<open>What the loop has computed after the inputs \<open>is\<close>.\<close>

definition batch_of :: "scan_env \<Rightarrow> security_input list \<Rightarrow> batch_scan" where
  "batch_of E is =
     (let scans = map (\<lambda>i. fst (ScanSubmissionEvidence E (si_content i))) is;
          signals = concat (map (\<lambda>i. map (batch_signal_of i) (sc_signals (fst (ScanSubmissionEvidence E (si_content i))))) is) in
      \<lparr>bc_items = scans, bc_signals = take 16 signals, bc_evidence = length (filter (\<lambda>i. si_source i = ''evidence'') is),
       bc_truncated = (list_ex sc_truncated scans \<or> 16 < length signals)\<rparr>)"

definition batch_error :: "scan_env \<Rightarrow> security_input list \<Rightarrow> string option" where
  "batch_error E is =
     (let errs = map (\<lambda>i. snd (ScanSubmissionEvidence E (si_content i))) is in
      if Some ErrEncodedEvidenceNotAllowed \<in> set errs then Some ErrEncodedEvidenceNotAllowed
      else if Some ErrEvidenceSecurityRejected \<in> set errs then Some ErrEvidenceSecurityRejected else None)"

lemma scan_error_codes:
  "snd (ScanSubmissionEvidence E content) \<in> {None, Some ErrEncodedEvidenceNotAllowed, Some ErrEvidenceSecurityRejected}"
  by (simp add: scan_error Let_def)

lemma scanSubmissionInputs_batch: "scanSubmissionInputs E is = (batch_of E is, batch_error E is)"
proof (induction "is" rule: rev_induct)
  case (snoc i "is")
  have fold: "scanSubmissionInputs E (is @ [i]) = scan_input E i (batch_of E is, batch_error E is)"
    using snoc by (simp add: scanSubmissionInputs_def)
  obtain scan err where scan: "ScanSubmissionEvidence E (si_content i) = (scan, err)" by fastforce
  have "err \<in> {None, Some ErrEncodedEvidenceNotAllowed, Some ErrEvidenceSecurityRejected}"
    using scan_error_codes [of E "si_content i"] by (simp add: scan)
  then have "snd (scan_input E i (batch_of E is, batch_error E is)) = batch_error E (is @ [i])"
    by (auto simp: scan_input_def batch_error_def scan Let_def)
  moreover have "fst (scan_input E i (batch_of E is, batch_error E is)) = batch_of E (is @ [i])"
    by (simp add: scan_input_def batch_of_def scan Let_def append_batch_first min_def)
  ultimately show ?case unfolding fold by (simp add: prod_eq_iff)
qed (simp add: scanSubmissionInputs_def batch_of_def batch_error_def)

lemma batch_error_None:
  "batch_error E is = None \<longleftrightarrow> (\<forall>i\<in>set is. snd (ScanSubmissionEvidence E (si_content i)) = None)"
proof -
  let ?errs = "map (\<lambda>i. snd (ScanSubmissionEvidence E (si_content i))) is"
  have "\<forall>e\<in>set ?errs. e \<in> {None, Some ErrEncodedEvidenceNotAllowed, Some ErrEvidenceSecurityRejected}"
    using scan_error_codes by auto
  then have "batch_error E is = None \<longleftrightarrow> (\<forall>e\<in>set ?errs. e = None)"
    unfolding batch_error_def Let_def by (smt (verit) empty_iff insert_iff option.distinct(1))
  then show ?thesis by simp
qed

text \<open>The strings of a JSON value, keys included.\<close>

fun json_strings :: "json \<Rightarrow> string list" where
  "json_strings (JString s) = [s]"
| "json_strings (JArray items) = concat (map json_strings items)"
| "json_strings (JObject members) = concat (map (\<lambda>(k, v). k # json_strings v) members)"
| "json_strings v = []"

lemma proposal_contents: "set (map si_content (appendSubmissionSecurityProposalValues v path)) = set (json_strings v)"
proof (induction v path rule: appendSubmissionSecurityProposalValues.induct)
  case (2 items path)
  have "(\<Union>z\<in>set (enumerate 0 items). set (map si_content (appendSubmissionSecurityProposalValues (snd z) (diagnosticArrayPath path (fst z)))))
      = (\<Union>z\<in>set (enumerate 0 items). set (json_strings (snd z)))"
    by (intro SUP_cong refl 2) simp_all
  also have "\<dots> = (\<Union>item\<in>set (map snd (enumerate 0 items)). set (json_strings item))" by (simp only: set_map image_image)
  finally show ?case by (simp add: case_prod_unfold image_UN)
next
  case (3 members path)
  let ?loc = "\<lambda>z. path @ ''/'' @ escape_key (fst z)"
  have "(\<Union>z\<in>set (sort_key fst members). insert (fst z) (set (map si_content (appendSubmissionSecurityProposalValues (snd z) (?loc z)))))
      = (\<Union>z\<in>set (sort_key fst members). insert (fst z) (set (json_strings (snd z))))"
    by (intro SUP_cong refl arg_cong [where f = "insert _"] 3) simp_all
  then show ?case by (simp add: case_prod_unfold image_UN Let_def proposal_input_def)
qed (simp_all add: proposal_input_def)

section \<open>Properties\<close>

text \<open>An environment for ASCII text, and short text without an instruction in it.\<close>

definition ascii_env :: scan_env where
  "ascii_env = \<lparr>se_nfkc = \<lambda>s. s, se_mark = \<lambda>r. False, se_unescape = \<lambda>s. s, se_json = \<lambda>s. None, se_log2 = \<lambda>x. 0,
     se_round = \<lambda>x. x, se_msub = \<lambda>e p l. e - p * l, se_order = \<lambda>xs. xs\<rparr>"

lemma hi_runes: "runes ''hi'' = [104, 105]" "rune_count ''hi'' = 2" "chunks ''hi'' = [(104, ''h''), (105, ''i'')]"
    "string_of_runes [104] = ''h''" "string_of_runes [105] = ''i''" "runes ''h'' = [104]" "runes ''i'' = [105]"
    "string_of_runes [104, 105] = ''hi''"
  by code_simp+

lemma hi_view: "identitySecurityView ''hi'' = \<lparr>sv_text = ''hi'', sv_spans = [(0, 1), (1, 2)]\<rparr>"
  by (simp add: identitySecurityView_def hi_runes upt_rec)

lemma hi_fields: "map token_trim (go_fields ''hi'') = [''hi'']"
  by (simp add: go_fields_def fields_func_def hi_runes field_runs.simps space_rune_def token_trim_def trim_by_def
      trim_left_by_def trim_right_by_def)

lemma hi_normal: "normalized_text ascii_env ''hi'' = ''hi''"
proof -
  have "to_lower ''h'' = ''h''" "to_lower ''i'' = ''i''" by (simp_all add: go_string_eval byte_of_def)
  then show ?thesis by (simp add: normalized_text_def hi_runes ascii_env_def hiddenControlRune_def)
qed

lemma next_escape_plain:
  assumes "r \<noteq> 37" and "r \<noteq> 92" and "r \<noteq> 38"
  shows "next_escape E (r # rs) = ([r], 1)"
proof -
  have "percent_run (r # rs) = []" using assms(1) by (cases "r # rs" rule: percent_run.cases) auto
  moreover have "backslash_escape (r # rs) = None" using assms(2) by (cases "r # rs" rule: backslash_escape.cases) auto
  ultimately show ?thesis using assms(3) by (simp add: next_escape_def percent_escape_def entity_escape_def)
qed

lemma hi_decoded: "sv_text (oneLayerSubmissionDecode E ''hi'') = ''hi''"
proof -
  have "decode_from E 0 [104, 105] = [(104, 0, 1), (105, 1, 2)]"
    by (simp add: decode_from.simps next_escape_plain)
  then show ?thesis by (simp add: oneLayerSubmissionDecode_def view_of_def hi_runes)
qed

lemma hi_accepted: "snd (ScanSubmissionEvidence ascii_env ''hi'') = None"
proof -
  have short: "FindAllStringIndex r ''hi'' = []" "FindStringIndex r ''hi'' = None" if "4 \<le> rx_min r" for r
    using FindAllStringIndex_short [of "''hi''" r] MatchString_short [of "''hi''" r] that
    by (simp_all add: hi_runes MatchString_find del: not_None_eq)
  have "encodedEvidenceSignals ascii_env (identitySecurityView ''hi'') = []"
    using short [of dataURIBase64] short [of pemEnvelope] short [of base64TokenPattern] short [of base64PartPattern]
    unfolding encoded_signals_unfold [of ascii_env "identitySecurityView ''hi''"] encoded_signals_with_def
    by (simp add: hi_view match_signals_def jwtSignal_def hi_fields jwt_token_def
        foldedBase64Location_def dataURIBase64_def pemEnvelope_def base64TokenPattern_def base64PartPattern_def)
  moreover have "hiddenControlFloodSignals (identitySecurityView ''hi'') False = []"
    by (simp add: hiddenControlFloodSignals_def hi_view hi_runes hiddenControlRune_def hiddenControlFloodSignal_def)
  moreover have "sv_text (normalizedSecurityView ascii_env (identitySecurityView ''hi'')) = ''hi''"
    unfolding normalized_text_view [OF aligned_identity] by (simp add: hi_view hi_normal)
  then have "danger_signals ascii_env view (normalizedSecurityView ascii_env (identitySecurityView ''hi'')) False d = []"
    if "d \<in> set danger_rules" for d view
    using short danger_rules_min4 that by (simp add: danger_signals_def List.map_filter_def)
  then have "concat (map (danger_signals ascii_env (identitySecurityView ''hi'') (normalizedSecurityView ascii_env (identitySecurityView ''hi'')) False)
      danger_rules) = []" by simp
  ultimately show ?thesis
    by (simp add: accepted_iff found_signals_def hi_decoded dangerousSubmissionSignals_def Let_def)
qed



text \<open>
  C15 (scan_reports_findings): the scan reports the first eight distinct findings of all detectors in source order,
  whatever order the detectors run in, and says whether there were more. It accepts exactly when no detector
  found anything. A rejection has the code for encoded evidence exactly when one of the reported findings is an
  encoding: an encoding beyond the eighth finding does not count.
\<close>

theorem scan_reports_findings:
  assumes "mset found = mset (found_signals E content)"
  shows "(let scan = fst (ScanSubmissionEvidence E content); err = snd (ScanSubmissionEvidence E content);
        findings = distinct_signals [] (go_sort signal_before found) in
      sc_signals scan = take 8 findings \<and> sc_truncated scan = (8 < length findings)
      \<and> (err = None) = (found = [])
      \<and> (err = Some ErrEncodedEvidenceNotAllowed) = list_ex ss_encoded (take 8 findings)
      \<and> (err = Some ErrEvidenceSecurityRejected) = (found \<noteq> [] \<and> \<not> list_ex ss_encoded (take 8 findings)))"
proof -
  have "\<forall>s\<in>set (found_signals E content). signal_formed (rune_count content) s" using found_formed by blast
  then have order: "go_sort signal_before found = go_sort signal_before (found_signals E content)"
    using signal_order.go_sort_perm [OF assms] assms by (metis set_mset_mset)
  have empty: "found = [] \<longleftrightarrow> found_signals E content = []" using assms by (metis mset_zero_iff)
  have codes: "ErrEncodedEvidenceNotAllowed \<noteq> ErrEvidenceSecurityRejected"
    by (simp add: ErrEncodedEvidenceNotAllowed_def ErrEvidenceSecurityRejected_def)
  let ?findings = "distinct_signals [] (go_sort signal_before (found_signals E content))"
  have signals: "sc_signals (fst (ScanSubmissionEvidence E content)) = take 8 ?findings"
    "sc_truncated (fst (ScanSubmissionEvidence E content)) = (8 < length ?findings)"
    by (simp_all add: scan_parts normalize_first)
  have "(take 8 ?findings = []) = (found_signals E content = [])"
    using accepted_iff [of E content] by (auto simp: scan_error signals Let_def split: if_splits)
  then show ?thesis
    using codes by (auto simp: Let_def order signals empty scan_error)
qed

theorem scan_reports_findings_witness:
  "snd (ScanSubmissionEvidence ascii_env ''hi'') = None \<and> sc_signals (fst (ScanSubmissionEvidence ascii_env ''hi'')) = []"
proof -
  have "found_signals ascii_env ''hi'' = []" using hi_accepted by (simp only: accepted_iff)
  then show ?thesis using scan_reports_findings [of "[]" ascii_env "''hi''"] by (simp add: Let_def)
qed

text \<open>
  (scan_signals_bounded): a scan reports at most eight findings, in strictly increasing source order and each
  only once. Every finding has a non-empty range within the runes of the submitted content, whether it was found
  as submitted or after decoding, and its severity and encoding follow from its rule.
\<close>

theorem scan_signals_bounded:
  "(let signals = sc_signals (fst (ScanSubmissionEvidence E content)) in
     length signals \<le> 8 \<and> sorted_wrt signal_before signals \<and> distinct (map signal_key signals)
     \<and> list_all (signal_formed (rune_count content)) signals)"
proof -
  let ?findings = "distinct_signals [] (go_sort signal_before (found_signals E content))"
  have formed: "list_all (signal_formed (rune_count content)) ?findings"
    using distinct_signals_set found_formed by (fastforce simp: list_all_iff)
  have keys: "distinct (map signal_key ?findings)" using distinct_signals_distinct by blast
  have "sorted_wrt (\<lambda>x y. \<not> signal_before y x \<and> signal_key x \<noteq> signal_key y) ?findings"
    unfolding sorted_wrt_iff_nth_less
  proof (intro allI impI conjI)
    fix i j assume ij: "i < j" "j < length ?findings"
    show "\<not> signal_before (?findings ! j) (?findings ! i)"
      using distinct_signals_sorted [OF signal_order.sorted_go_sort] ij unfolding sorted_wrt_iff_nth_less by blast
    show "signal_key (?findings ! i) \<noteq> signal_key (?findings ! j)"
      using keys ij by (simp add: distinct_conv_nth)
  qed
  then have "sorted_wrt signal_before ?findings"
    using formed signal_order.less_total [of "rune_count content"]
    by (rule_tac sorted_wrt_mono_rel) (auto simp: list_all_iff)
  with formed keys show ?thesis
    by (auto simp: scan_parts normalize_first Let_def take_map [symmetric] distinct_take sorted_wrt_take list_all_iff dest: in_set_takeD)
qed

text \<open>
  C38 (nested_decoding_terminates): looking for encoded evidence in what a Base64 candidate decodes to comes to an
  end: the decoded text is shorter than the text it was found in, so the recursion of the code computes the
  signals of the decoded text in full, at every depth.
\<close>

theorem nested_decoding_terminates:
  "encodedEvidenceSignals E view
     = encoded_signals_with E (\<lambda>decoded. encodedEvidenceSignals E (identitySecurityView decoded) \<noteq> []) view
   \<and> encodedCandidateRejected E encoded
     = candidate_rejected E (\<lambda>decoded. encodedEvidenceSignals E (identitySecurityView decoded) \<noteq> []) encoded"
  using encoded_signals_unfold [of E view] by (simp add: encodedCandidateRejected_def)

text \<open>
  C36 (batch_decision): a batch is scanned to the end, one scan for each input, and decided as a whole: it is
  accepted exactly when every input is, and it is rejected as encoded evidence exactly when some input is,
  wherever that input stands. The audit record has the first sixteen findings, and says when findings are missing.
\<close>

theorem batch_decision:
  "(let (result, err) = scanSubmissionInputs E is; scan = \<lambda>i. ScanSubmissionEvidence E (si_content i);
        signals = concat (map (\<lambda>i. map (batch_signal_of i) (sc_signals (fst (scan i)))) is) in
     bc_items result = map (\<lambda>i. fst (scan i)) is
     \<and> bc_signals result = take 16 signals
     \<and> bc_truncated result = (list_ex (\<lambda>i. sc_truncated (fst (scan i))) is \<or> 16 < length signals)
     \<and> bc_evidence result = length (filter (\<lambda>i. si_source i = ''evidence'') is)
     \<and> (err = None) = list_all (\<lambda>i. snd (scan i) = None) is
     \<and> (err = Some ErrEncodedEvidenceNotAllowed) = list_ex (\<lambda>i. snd (scan i) = Some ErrEncodedEvidenceNotAllowed) is
     \<and> err \<in> {None, Some ErrEncodedEvidenceNotAllowed, Some ErrEvidenceSecurityRejected})"
proof -
  have codes: "ErrEncodedEvidenceNotAllowed \<noteq> ErrEvidenceSecurityRejected"
    by (simp add: ErrEncodedEvidenceNotAllowed_def ErrEvidenceSecurityRejected_def)
  have "(batch_error E is = None) = list_all (\<lambda>i. snd (ScanSubmissionEvidence E (si_content i)) = None) is"
    by (simp add: batch_error_None list_all_iff)
  moreover have "(batch_error E is = Some ErrEncodedEvidenceNotAllowed)
      = list_ex (\<lambda>i. snd (ScanSubmissionEvidence E (si_content i)) = Some ErrEncodedEvidenceNotAllowed) is"
    using codes by (auto simp: batch_error_def Let_def list_ex_iff image_iff)
  moreover have "batch_error E is \<in> {None, Some ErrEncodedEvidenceNotAllowed, Some ErrEvidenceSecurityRejected}"
    by (simp add: batch_error_def Let_def)
  ultimately show ?thesis
    by (simp add: scanSubmissionInputs_batch batch_of_def Let_def list_ex_iff)
qed

text \<open>
  C37 (proposal_strings_scanned): when evidence with a provider proposal is admitted, every evidence text and every
  string anywhere in the proposal, the keys of its objects included, was scanned and found clean on its own.
\<close>

theorem proposal_strings_scanned:
  assumes "snd (scanSubmissionWithProviderProposal E contents (Suc n) proposal) = None"
  shows "(case proposal of
       None \<Rightarrow> False
     | Some v \<Rightarrow> list_all (\<lambda>s. snd (ScanSubmissionEvidence E s) = None) (contents @ json_strings v))"
proof (cases proposal)
  case None
  with assms show ?thesis by (simp add: scanSubmissionWithProviderProposal_def)
next
  case (Some v)
  let ?is = "evidence_inputs contents @ appendSubmissionSecurityProposalValues v []"
  have "batch_error E ?is = None"
    using assms by (simp add: scanSubmissionWithProviderProposal_def Some scanSubmissionInputs_batch Let_def)
  then have "\<forall>i\<in>set ?is. snd (ScanSubmissionEvidence E (si_content i)) = None" by (simp only: batch_error_None)
  then have "\<forall>s\<in>set (map si_content ?is). snd (ScanSubmissionEvidence E s) = None" by auto
  moreover have "map si_content (evidence_inputs contents) = contents"
    by (simp add: evidence_inputs_def comp_def case_prod_unfold)
  ultimately show ?thesis using proposal_contents [of v "[]"] by (simp add: Some list_all_iff)
qed

theorem proposal_strings_scanned_witness:
  "snd (ScanSubmissionEvidence ascii_env ''hi'') = None
   \<and> json_strings (JObject [(''hi'', JArray [JString ''hi'', JNull])]) = [''hi'', ''hi'']"
proof -
  let ?v = "JObject [(''hi'', JArray [JString ''hi'', JNull])]"
  have "set (map si_content (evidence_inputs [''hi''] @ appendSubmissionSecurityProposalValues ?v [])) = {''hi''}"
    using proposal_contents [of ?v "[]"] by (simp add: evidence_inputs_def)
  then have "\<forall>i\<in>set (evidence_inputs [''hi''] @ appendSubmissionSecurityProposalValues ?v []). si_content i = ''hi''"
    unfolding set_map by blast
  then have "batch_error ascii_env (evidence_inputs [''hi''] @ appendSubmissionSecurityProposalValues ?v []) = None"
    unfolding batch_error_None using hi_accepted by simp
  then have "snd (scanSubmissionWithProviderProposal ascii_env [''hi''] (Suc 0) (Some ?v)) = None"
    by (simp add: scanSubmissionWithProviderProposal_def scanSubmissionInputs_batch Let_def)
  from proposal_strings_scanned [OF this] show ?thesis by simp
qed

end
