(* ===== verification/Assessor_Types.thy ===== *)
theory Assessor_Types
  imports Go_Loops Security_Patterns Domain_Contract
begin

text \<open>
  The data of the assessment contract: internal/assessor/assessor_types.go, the submission contract of
  assessor_submission_contract.go and the helpers of semantic_shared.go and
  assessor_response_validation_helpers.go.

  The prefix of a field names its record. A nil slice of the response is \<open>None\<close>, since the validator
  distinguishes it from an empty one; elsewhere nil and empty behave alike and both are \<open>[]\<close>. A nil
  pointer is \<open>None\<close>. A free-form JSON object is the list of its members in key order, each with the text of
  its value, so that \<open>reflect.DeepEqual\<close> is equality. The decision stages of a response are carried along and never
  read by a validator; they are left out.

  The SHA-256 digest, RFC3339 times, the JSON encoding and the tokenizer are parameters (\<open>assess_env\<close>).
\<close>

section \<open>Parameters\<close>

text \<open>\<open>ae_digest\<close> is the hex text of the first four bytes of SHA-256, \<open>ae_parse_time\<close> is
  \<open>time.Parse(time.RFC3339Nano, _)\<close> (\<open>None\<close> for an error) and \<open>ae_format_time\<close> formats the time in UTC.\<close>

record assess_env =
  ae_digest :: "string \<Rightarrow> string"
  ae_parse_time :: "string \<Rightarrow> time option"
  ae_format_time :: "time \<Rightarrow> string"

section \<open>Constants\<close>

definition SemanticAssessmentMaxProviderTurns :: int where "SemanticAssessmentMaxProviderTurns = 3"
definition SemanticAssessmentMaxCorrectionErrors :: nat where "SemanticAssessmentMaxCorrectionErrors = 100"
definition SemanticAssessmentMaxEntityCandidatesPerSurface :: nat where
  "SemanticAssessmentMaxEntityCandidatesPerSurface = 20"
definition SemanticAssessmentMaxPredicateOptions :: nat where "SemanticAssessmentMaxPredicateOptions = 100"
definition SemanticAssessmentMaxEntityResults :: nat where "SemanticAssessmentMaxEntityResults = 400"
definition SemanticAssessmentMaxRelationshipResults :: nat where "SemanticAssessmentMaxRelationshipResults = 200"
definition SemanticAssessmentMaxRelationshipSplits :: nat where "SemanticAssessmentMaxRelationshipSplits = 50"
definition SemanticAssessmentMaxEvidenceSpans :: nat where "SemanticAssessmentMaxEvidenceSpans = 20"
definition SemanticAssessmentMaxEvidenceConflictResults :: nat where
  "SemanticAssessmentMaxEvidenceConflictResults = 20"
definition SemanticAssessmentMaxEvidenceConflictPositions :: nat where
  "SemanticAssessmentMaxEvidenceConflictPositions = 10"
definition SemanticAssessmentMaxEvidenceConflictQuoteRunes :: nat where
  "SemanticAssessmentMaxEvidenceConflictQuoteRunes = 4000"
definition SemanticAssessmentMaxEvidenceEquivalenceCandidates :: nat where
  "SemanticAssessmentMaxEvidenceEquivalenceCandidates = 10"
definition SemanticAssessmentMaxKnownEvidence :: nat where "SemanticAssessmentMaxKnownEvidence = 4000"
definition SemanticAssessmentMaxEntityGroundings :: nat where "SemanticAssessmentMaxEntityGroundings = 20"
definition MaxOriginalPredicateRunes :: nat where "MaxOriginalPredicateRunes = 256"

lemmas assessment_bounds = SemanticAssessmentMaxProviderTurns_def SemanticAssessmentMaxCorrectionErrors_def
  SemanticAssessmentMaxEntityCandidatesPerSurface_def SemanticAssessmentMaxPredicateOptions_def
  SemanticAssessmentMaxEntityResults_def SemanticAssessmentMaxRelationshipResults_def
  SemanticAssessmentMaxRelationshipSplits_def SemanticAssessmentMaxEvidenceSpans_def
  SemanticAssessmentMaxEvidenceConflictResults_def SemanticAssessmentMaxEvidenceConflictPositions_def
  SemanticAssessmentMaxEvidenceConflictQuoteRunes_def SemanticAssessmentMaxEvidenceEquivalenceCandidates_def
  SemanticAssessmentMaxKnownEvidence_def SemanticAssessmentMaxEntityGroundings_def MaxOriginalPredicateRunes_def

section \<open>Evidence and ranges\<close>

record review_evidence =
  ev_id :: string
  ev_fragment :: string
  ev_index :: int
  ev_content :: string
  ev_boundary_text :: string
  ev_refs :: "(string \<times> int) list"
  ev_prefix :: string
  ev_authority :: string
  ev_source :: string
  ev_revision :: string
  ev_current_revision :: string

record evidence_span =
  sp_id :: string
  sp_start :: int
  sp_end :: int

record grounded_range =
  gr_id :: string
  gr_start_ref :: string
  gr_end_ref :: string
  gr_start :: int
  gr_end :: int

section \<open>The request\<close>

type_synonym json_object = "(string \<times> string) list"

record entity_candidate =
  ec_id :: string
  ec_name :: string
  ec_kind :: string
  ec_context :: "json_object option"

record candidate_group =
  cg_surface :: string
  cg_evidence :: string
  cg_grounding :: string
  cg_start :: int
  cg_end :: int
  cg_truncated :: bool
  cg_candidates :: "entity_candidate list"

record predicate_option =
  po_key :: string
  po_version :: int
  po_aliases :: "string list"
  po_subjects :: "string list"
  po_objects :: "string list"
  po_kind :: string
  po_cardinality :: string

record equivalence_candidate =
  qc_id :: string
  qc_content :: string
  qc_boundary_text :: string
  qc_refs :: "(string \<times> int) list"
  qc_prefix :: string

record equivalence_group =
  qg_id :: string
  qg_candidates :: "equivalence_candidate list"

record assessment_value =
  av_type :: string
  av_canonical :: string
  av_display :: "string option"
  av_unit :: "string option"

record entity_grounding =
  eg_ref :: string
  eg_evidence :: string
  eg_surface :: string
  eg_start_ref :: string
  eg_end_ref :: string
  eg_anchor :: string
  eg_start :: int
  eg_end :: int

record entity_anchor =
  ea_ref :: string
  ea_evidence :: string
  ea_surface :: string
  ea_start_ref :: string
  ea_end_ref :: string
  ea_candidates :: "string list"
  ea_start :: int
  ea_end :: int

record required_entity =
  re_ref :: string
  re_name :: string
  re_kind :: string
  re_known :: string
  re_evidence_ids :: "string list"
  re_known_ids :: "string list"
  re_groundings :: "entity_grounding list"
  re_anchors :: "entity_anchor list"
  re_surface :: string
  re_evidence :: string
  re_start :: int
  re_end :: int

record required_relationship =
  rl_id :: string
  rl_hint :: string
  rl_known_key :: string
  rl_evidence_ids :: "string list"
  rl_known_ids :: "string list"
  rl_unavailable :: bool
  rl_evidence :: "evidence_span list"
  rl_subject :: string
  rl_original :: string
  rl_object_ref :: "string option"
  rl_value :: "assessment_value option"
  rl_polarity :: string
  rl_from :: "string option"
  rl_to :: "string option"
  rl_max_splits :: int

record submission_contract =
  ct_entities :: "required_entity list"
  ct_relationships :: "required_relationship list"

record submitted_entity =
  su_ref :: string
  su_name :: string
  su_kind :: string
  su_known :: string
  su_groundings :: "entity_grounding list"
  su_anchors :: "entity_anchor list"

record submitted_relationship =
  sl_ref :: string
  sl_subject :: string
  sl_hint :: string
  sl_known_key :: string
  sl_object_ref :: "string option"
  sl_value :: "assessment_value option"
  sl_polarity :: string
  sl_evidence_ids :: "string list"
  sl_known_ids :: "string list"
  sl_from :: "string option"
  sl_to :: "string option"

section \<open>The response\<close>

record assessor_signal =
  ag_evidence :: string
  ag_kind :: string
  ag_start_ref :: string
  ag_end_ref :: string
  ag_start :: int
  ag_end :: int

record security_result =
  ar_evidence :: string
  ar_decision :: string
  ar_signals :: "assessor_signal list"

record equivalence_result =
  qr_evidence :: string
  qr_action :: string
  qr_candidate :: "string option"

text \<open>\<open>SemanticAssessmentEvidenceConflictPosition\<close> has the fields of a grounded range.\<close>

type_synonym cited_position = grounded_range

record conflict_result =
  cx_positions :: "cited_position list"

record entity_result =
  en_ref :: string
  en_grounding :: "string option"
  en_anchor :: "string option"
  en_surface :: string
  en_kind :: string
  en_evidence :: string
  en_start :: int
  en_end :: int
  en_action :: string
  en_candidate :: "string option"

record predicate_registration =
  pr_key :: string
  pr_kind :: string
  pr_cardinality :: string

record relationship_split =
  rs_index :: int
  rs_subject :: string
  rs_original :: string
  rs_range :: grounded_range
  rs_status :: string
  rs_key :: "string option"
  rs_version :: "int option"
  rs_registration :: "predicate_registration option"
  rs_object_ref :: "string option"
  rs_value :: "assessment_value option"
  rs_value_range :: "grounded_range option"
  rs_polarity :: string
  rs_supports :: "grounded_range list"
  rs_evidence :: "evidence_span list"
  rs_from :: "string option"
  rs_to :: "string option"

record relationship_result =
  rr_ref :: string
  rr_disposition :: string
  rr_reason :: "string option"
  rr_splits :: "relationship_split list"

record assessment_response =
  rp_request :: string
  rp_security :: "security_result list option"
  rp_equivalence :: "equivalence_result list option"
  rp_conflicts :: "conflict_result list option"
  rp_signals :: "assessor_signal list"
  rp_results :: "security_result list option"
  rp_entities :: "entity_result list option"
  rp_relationships :: "relationship_result list option"
  rp_output_tokens :: int
  rp_input_tokens :: int
  rp_turns :: int

record assessment_routing =
  ao_security :: "security_result list option"
  ao_equivalence :: "equivalence_result list option"

record assessment_request =
  aq_request :: string
  aq_team :: string
  aq_owner :: string
  aq_evidence :: "review_evidence list"
  aq_known :: "review_evidence list"
  aq_equivalence :: "equivalence_group list"
  aq_proposal :: "json_object option"
  aq_groups :: "candidate_group list"
  aq_options :: "predicate_option list"
  aq_required :: "required_relationship list"
  aq_entities :: "submitted_entity list"
  aq_relationships :: "submitted_relationship list"
  aq_contract :: "submission_contract option"
  aq_context_tokens :: int
  aq_truncated :: bool
  aq_omitted_candidates :: int
  aq_omitted_options :: int
  aq_input_tokens :: int
  aq_routing :: "assessment_routing option"

record assessment_limits =
  al_evidence :: int
  al_tokenizer :: string
  al_model :: string
  al_schema :: string
  al_temperature_disabled :: bool
  al_legacy :: bool
  al_input :: int
  al_output :: int
  al_context :: int
  al_entities :: int
  al_relationships :: int
  al_candidates :: int
  al_options :: int

definition DefaultSemanticAssessmentLimits :: assessment_limits where
  "DefaultSemanticAssessmentLimits =
     \<lparr>al_evidence = int SemanticAssessmentMaxEvidenceSpans, al_tokenizer = ''o200k_base'', al_model = [],
      al_schema = ''dense_mem_semantic_assessment_response'', al_temperature_disabled = False, al_legacy = False,
      al_input = 200000, al_output = 65536, al_context = 50000,
      al_entities = int SemanticAssessmentMaxEntityResults,
      al_relationships = int SemanticAssessmentMaxRelationshipResults,
      al_candidates = int SemanticAssessmentMaxEntityCandidatesPerSurface,
      al_options = int SemanticAssessmentMaxPredicateOptions\<rparr>"

definition positive_or :: "int \<Rightarrow> int \<Rightarrow> int" where
  "positive_or n d = (if n \<le> 0 then d else n)"

definition normalizeSemanticAssessmentLimits :: "assessment_limits \<Rightarrow> assessment_limits" where
  "normalizeSemanticAssessmentLimits l =
     (let d = DefaultSemanticAssessmentLimits in
      l\<lparr>al_evidence := min 100 (positive_or (al_evidence l) (al_evidence d)),
        al_tokenizer := (if trim_space (al_tokenizer l) = [] then al_tokenizer d else al_tokenizer l),
        al_schema := (if trim_space (al_schema l) = [] then al_schema d else al_schema l),
        al_input := positive_or (al_input l) (al_input d),
        al_output := positive_or (al_output l) (al_output d),
        al_context := positive_or (al_context l) (al_context d),
        al_entities := positive_or (al_entities l) (al_entities d),
        al_relationships := positive_or (al_relationships l) (al_relationships d),
        al_candidates := positive_or (al_candidates l) (al_candidates d),
        al_options := positive_or (al_options l) (al_options d)\<rparr>)"

section \<open>Errors\<close>

record semantic_error =
  er_field :: string
  er_message :: string
  er_code :: string

definition semantic_error_text :: "semantic_error \<Rightarrow> string" where
  "semantic_error_text e = (if er_field e = [] then er_message e else er_field e @ '': '' @ er_message e)"

definition semanticErr :: "string \<Rightarrow> string \<Rightarrow> semantic_error" where
  "semanticErr field message = \<lparr>er_field = field, er_message = message, er_code = []\<rparr>"

definition semanticCodedErr :: "string \<Rightarrow> string \<Rightarrow> string \<Rightarrow> semantic_error" where
  "semanticCodedErr field message code = \<lparr>er_field = field, er_message = message, er_code = code\<rparr>"

text \<open>\<open>name[i]\<close>, and an error that is appended under a condition.\<close>

definition at_index :: "string \<Rightarrow> nat \<Rightarrow> string" where
  "at_index name i = name @ ''['' @ decimal i @ '']''"

definition err_if :: "bool \<Rightarrow> string \<Rightarrow> string \<Rightarrow> semantic_error list" where
  "err_if c field message = (if c then [semanticErr field message] else [])"

definition coded_if :: "bool \<Rightarrow> string \<Rightarrow> string \<Rightarrow> string \<Rightarrow> semantic_error list" where
  "coded_if c field message code = (if c then [semanticCodedErr field message code] else [])"

lemma err_if_Nil [simp]: "err_if c f m = [] \<longleftrightarrow> \<not> c"
  by (simp add: err_if_def)

lemma coded_if_Nil [simp]: "coded_if c f m k = [] \<longleftrightarrow> \<not> c"
  by (simp add: coded_if_def)

section \<open>Texts\<close>

definition semanticOneOf :: "string \<Rightarrow> string list \<Rightarrow> bool" where
  "semanticOneOf v allowed \<longleftrightarrow> trim_space v \<in> set allowed"

definition semanticKindAllowed :: "string \<Rightarrow> string list \<Rightarrow> bool" where
  "semanticKindAllowed kind allowed \<longleftrightarrow> kind \<in> trim_space ` set allowed"

definition assessmentBoundedRequiredString :: "string \<Rightarrow> nat \<Rightarrow> bool" where
  "assessmentBoundedRequiredString v n \<longleftrightarrow> trim_space v \<noteq> [] \<and> rune_count v \<le> n"

text \<open>\<open>strings.Fields\<close> and \<open>strings.FieldsFunc(_, unicode.IsSpace)\<close> agree.\<close>

definition semanticWhitespaceEquivalent :: "string \<Rightarrow> string \<Rightarrow> bool" where
  "semanticWhitespaceEquivalent a b \<longleftrightarrow> go_join '' '' (go_fields a) = go_join '' '' (go_fields b)"

text \<open>A span of runes; the error is a text. \<open>string(runes[start:end])\<close> encodes the runes again.\<close>

definition SemanticEvidenceSpan :: "string \<Rightarrow> int \<Rightarrow> int \<Rightarrow> string + string" where
  "SemanticEvidenceSpan content start stop =
     (let rs = runes content in
      if start < 0 \<or> stop \<le> start \<or> int (length rs) < stop then Inl ''span is invalid''
      else Inr (string_of_runes (take (nat stop - nat start) (drop (nat start) rs))))"

definition semanticExactSpanQuote :: "string \<Rightarrow> int \<Rightarrow> int \<Rightarrow> string \<Rightarrow> string + string" where
  "semanticExactSpanQuote content start stop quote =
     (case SemanticEvidenceSpan content start stop of
        Inl e \<Rightarrow> Inl e
      | Inr exact \<Rightarrow>
          (let q = trim_space quote in
           if q = [] \<or> q = exact \<or> semanticWhitespaceEquivalent exact q then Inr exact
           else Inl ''quote does not match the original evidence span''))"

text \<open>A span inside the evidence.\<close>

definition span_inside :: "string \<Rightarrow> int \<Rightarrow> int \<Rightarrow> bool" where
  "span_inside content start stop \<longleftrightarrow> 0 \<le> start \<and> start < stop \<and> stop \<le> int (rune_count content)"

lemma SemanticEvidenceSpan_Inr: "(\<exists>q. SemanticEvidenceSpan content start stop = Inr q) \<longleftrightarrow> span_inside content start stop"
  by (auto simp: SemanticEvidenceSpan_def span_inside_def rune_count_def Let_def)

lemma semanticExactSpanQuote_Inr: "semanticExactSpanQuote content start stop quote = Inr q
    \<Longrightarrow> span_inside content start stop \<and> SemanticEvidenceSpan content start stop = Inr q"
  using SemanticEvidenceSpan_Inr [of content start stop]
  by (auto simp: semanticExactSpanQuote_def Let_def split: sum.splits if_splits)

lemma semanticExactSpanQuote_empty: "semanticExactSpanQuote content start stop [] = SemanticEvidenceSpan content start stop"
  by (simp add: semanticExactSpanQuote_def split: sum.splits)

definition quote_errors :: "string + string \<Rightarrow> string \<Rightarrow> semantic_error list" where
  "quote_errors r field = (case r of Inl e \<Rightarrow> [semanticErr field e] | Inr _ \<Rightarrow> [])"

lemma quote_errors_Nil [simp]: "quote_errors r field = [] \<longleftrightarrow> (\<exists>q. r = Inr q)"
  by (simp add: quote_errors_def split: sum.splits)

section \<open>Signals of hidden controls\<close>

definition semanticHiddenControlMarkupPattern :: rx where
  "semanticHiddenControlMarkupPattern = markupPattern"

definition semanticHiddenControlRune :: "nat \<Rightarrow> bool" where
  "semanticHiddenControlRune v \<longleftrightarrow> v \<in> set [8203, 8204, 8205, 8206, 8207, 8288] \<or> 8234 \<le> v \<and> v \<le> 8238
     \<or> 8294 \<le> v \<and> v \<le> 8297 \<or> (v \<le> 31 \<or> 127 \<le> v \<and> v \<le> 159) \<and> v \<noteq> 10 \<and> v \<noteq> 13 \<and> v \<noteq> 9"

definition semanticSecuritySignalSpanMatchesKind :: "string \<Rightarrow> string \<Rightarrow> bool" where
  "semanticSecuritySignalSpanMatchesKind kind quote \<longleftrightarrow>
     trim_space kind \<noteq> ''hidden_control_markup'' \<or> MatchString semanticHiddenControlMarkupPattern quote
     \<or> list_ex semanticHiddenControlRune (runes quote)"

definition semanticSecurityKinds :: "string list" where
  "semanticSecurityKinds = [''role_control_spoofing'', ''instruction_override'', ''prompt_secret_extraction'',
     ''tool_exfiltration'', ''obfuscated_instruction'', ''hidden_control_markup'']"

definition semanticSecurityKindAllowed :: "string \<Rightarrow> bool" where
  "semanticSecurityKindAllowed kind \<longleftrightarrow> trim_space kind \<in> set semanticSecurityKinds"

section \<open>Lookup tables\<close>

definition semanticEvidenceByID :: "review_evidence list \<Rightarrow> (string \<times> review_evidence) list" where
  "semanticEvidenceByID evs = index_by (\<lambda>e. trim_space (ev_id e)) evs"

text \<open>The known evidence is written after the submitted evidence.\<close>

definition semanticAssessmentAllEvidence :: "assessment_request \<Rightarrow> (string \<times> review_evidence) list" where
  "semanticAssessmentAllEvidence req = index_by (\<lambda>e. trim_space (ev_id e)) (aq_evidence req @ aq_known req)"

definition assessmentSpanKey :: "string \<Rightarrow> int \<Rightarrow> int \<Rightarrow> string" where
  "assessmentSpanKey ident start stop = ident @ '':'' @ go_decimal start @ '':'' @ go_decimal stop"

definition assessmentPredicateKey :: "string \<Rightarrow> int \<Rightarrow> string" where
  "assessmentPredicateKey key version = key @ '':'' @ go_decimal version"

lemma assessmentPredicateKey_eq [simp]:
  "assessmentPredicateKey k v = assessmentPredicateKey k' v' \<longleftrightarrow> k = k' \<and> v = v'"
  using colon_number_eq [of k v k' v'] by (simp add: assessmentPredicateKey_def)

lemma assessmentSpanKey_eq [simp]:
  "assessmentSpanKey i s t = assessmentSpanKey i' s' t' \<longleftrightarrow> i = i' \<and> s = s' \<and> t = t'"
proof -
  have "assessmentSpanKey i s t = (i @ CHR '':'' # go_decimal s) @ CHR '':'' # go_decimal t" for i s t
    by (simp add: assessmentSpanKey_def)
  then show ?thesis by (simp only: colon_number_eq) auto
qed

definition assessmentCandidateGroupsBySpan :: "candidate_group list \<Rightarrow> (string \<times> candidate_group) list" where
  "assessmentCandidateGroupsBySpan gs = index_by (\<lambda>g. assessmentSpanKey (cg_evidence g) (cg_start g) (cg_end g)) gs"

definition assessmentPredicateOptionsByKeyVersion :: "predicate_option list \<Rightarrow> (string \<times> predicate_option) list" where
  "assessmentPredicateOptionsByKeyVersion os = index_by (\<lambda>o'. assessmentPredicateKey (po_key o') (po_version o')) os"

definition assessmentMatchingEntityCandidates :: "candidate_group option \<Rightarrow> string \<Rightarrow> entity_candidate list" where
  "assessmentMatchingEntityCandidates g kind =
     (case g of None \<Rightarrow> [] | Some g' \<Rightarrow> filter (\<lambda>c. ec_kind c = kind) (cg_candidates g'))"

text \<open>Trimmed, without empty and repeated entries, sorted.\<close>

definition normalizedUniqueStrings :: "string list \<Rightarrow> string list" where
  "normalizedUniqueStrings vs = sort_strings (dedup [] (filter (\<lambda>v. v \<noteq> []) (map trim_space vs)))"

lemma set_normalizedUniqueStrings: "set (normalizedUniqueStrings vs) = trim_space ` set vs - {[]}"
  by (auto simp: normalizedUniqueStrings_def)

text \<open>\<open>normalizeAssessmentStrings\<close> stops at \<open>maxItems\<close> entries.\<close>

definition normalizeAssessmentStrings :: "string list \<Rightarrow> nat \<Rightarrow> nat \<Rightarrow> string list" where
  "normalizeAssessmentStrings vs maxItems maxLength =
     sort_strings (take maxItems (dedup [] (filter (\<lambda>v. v \<noteq> [] \<and> rune_count v \<le> maxLength) (map trim_space vs))))"

definition assessmentKindsAllowed :: "string list \<Rightarrow> bool \<Rightarrow> bool" where
  "assessmentKindsAllowed kinds allowValues \<longleftrightarrow>
     list_all (\<lambda>k. semanticOneOf k EntityKinds \<or> allowValues \<and> semanticOneOf k ValueTypes) kinds"

end
