(* ===== verification/Assessor_Evidence.thy ===== *)
theory Assessor_Evidence
  imports Assessor_Types
begin

text \<open>
  Boundary references, internal/assessor/assessor_boundaries.go, and the ranges that cite them
  (\<open>resolveSemanticAssessmentRange\<close> of assessor_submission_contract.go). Every code point boundary of an evidence
  item gets a reference, a prefix with the index in base 36; the annotated text shows the references to the
  provider. The prefix is salted until the opening mark with the prefix does not occur in the evidence itself.
\<close>

section \<open>Base 36\<close>

definition digit36 :: "nat \<Rightarrow> char" where
  "digit36 d = (if d < 10 then char_at (48 + d) else char_at (87 + d))"

fun base36_digits :: "nat \<Rightarrow> nat \<Rightarrow> string" where
  "base36_digits 0 n = []"
| "base36_digits (Suc fuel) n =
     (if n < 36 then [digit36 n] else base36_digits fuel (n div 36) @ [digit36 (n mod 36)])"

text \<open>\<open>strconv.FormatInt(n, 36)\<close> of a number that is not negative; \<open>n + 1\<close> digits are enough.\<close>

definition base36 :: "nat \<Rightarrow> string" where
  "base36 n = base36_digits (Suc n) n"

lemma base36_digits_fuel: "n < fuel \<Longrightarrow> n < fuel' \<Longrightarrow> base36_digits fuel n = base36_digits fuel' n"
proof (induction n arbitrary: fuel fuel' rule: less_induct)
  case (less n)
  obtain f f' where f: "fuel = Suc f" "fuel' = Suc f'" using less.prems by (cases fuel; cases fuel') auto
  show ?case
  proof (cases "n < 36")
    case False
    then have "n div 36 < n" "n div 36 < f" "n div 36 < f'" using less.prems f by auto
    with less.IH [of "n div 36" f f'] False show ?thesis by (simp add: f)
  qed (simp add: f)
qed

lemma base36_rec: "base36 n = (if n < 36 then [digit36 n] else base36 (n div 36) @ [digit36 (n mod 36)])"
proof (cases "n < 36")
  case False
  then have "base36_digits n (n div 36) = base36_digits (Suc (n div 36)) (n div 36)"
    by (intro base36_digits_fuel) auto
  with False show ?thesis by (simp add: base36_def)
qed (simp add: base36_def)

lemma base36_nonempty [simp]: "base36 n \<noteq> []" "[] \<noteq> base36 n"
  using base36_rec [of n] by (auto split: if_splits)

lemma digit36_inject: "a < 36 \<Longrightarrow> b < 36 \<Longrightarrow> digit36 a = digit36 b \<longleftrightarrow> a = b"
  by (auto simp: digit36_def char_at_inject split: if_splits)

lemma base36_inject: "base36 m = base36 n \<longleftrightarrow> m = n"
proof
  show "base36 m = base36 n \<Longrightarrow> m = n"
  proof (induction m arbitrary: n rule: less_induct)
    case (less m)
    show ?case
    proof (cases "m < 36 \<or> n < 36")
      case True
      then show ?thesis
        using less.prems by (subst (asm) (1 2) base36_rec) (auto simp: digit36_inject split: if_splits)
    next
      case False
      then have "base36 (m div 36) @ [digit36 (m mod 36)] = base36 (n div 36) @ [digit36 (n mod 36)]"
        using less.prems by (metis base36_rec)
      then have "base36 (m div 36) = base36 (n div 36)" and "m mod 36 = n mod 36"
        by (auto simp: digit36_inject)
      moreover have "m div 36 < m" using False by simp
      ultimately have "m div 36 = n div 36" "m mod 36 = n mod 36" using less.IH by auto
      then show ?thesis by (metis div_mult_mod_eq)
    qed
  qed
qed simp

definition digit36_char :: "char \<Rightarrow> bool" where
  "digit36_char c \<longleftrightarrow> 48 \<le> byte_of c \<and> byte_of c \<le> 57 \<or> 97 \<le> byte_of c \<and> byte_of c \<le> 122"

lemma base36_char: "c \<in> set (base36 n) \<Longrightarrow> digit36_char c"
proof (induction n rule: less_induct)
  case (less n)
  have digit: "digit36_char (digit36 d)" if "d < 36" for d
    using that by (simp add: digit36_char_def digit36_def)
  show ?case
  proof (cases "n < 36")
    case True
    with less.prems have "c = digit36 n" by (simp add: base36_rec [of n])
    with True show ?thesis by (simp add: digit)
  next
    case False
    with less.prems have "c \<in> set (base36 (n div 36)) \<or> c = digit36 (n mod 36)"
      using base36_rec [of n] by auto
    then show ?thesis
    proof
      assume "c \<in> set (base36 (n div 36))"
      with less.IH [of "n div 36"] False show ?thesis by simp
    qed (simp add: digit)
  qed
qed

section \<open>The prefix\<close>

text \<open>The opening and the closing mark, U+27E6 and U+27E7.\<close>

definition open_mark :: string where "open_mark = map char_at [226, 159, 166]"
definition close_mark :: string where "close_mark = map char_at [226, 159, 167]"

definition boundary_prefix :: "assess_env \<Rightarrow> nat \<Rightarrow> string \<Rightarrow> string" where
  "boundary_prefix E salt content = ''b'' @ ae_digest E (decimal salt @ [char_at 0] @ content) @ ''_''"

text \<open>The loop over the salt has no bound; not ending is \<open>None\<close>.\<close>

partial_function (option) prefix_from :: "assess_env \<Rightarrow> nat \<Rightarrow> string \<Rightarrow> string option" where
  [code]: "prefix_from E salt content =
     (let p = boundary_prefix E salt content in
      if \<not> go_contains content (open_mark @ p) then Some p else prefix_from E (Suc salt) content)"

definition semanticAssessmentBoundaryPrefix :: "assess_env \<Rightarrow> string \<Rightarrow> string option" where
  "semanticAssessmentBoundaryPrefix E content = prefix_from E 0 content"

text \<open>The loop ends exactly when some salt gives a free prefix, and then at the first one.\<close>

lemma prefix_from_ends:
  assumes "\<not> go_contains content (open_mark @ boundary_prefix E n content)" and "salt \<le> n"
  shows "\<exists>k. salt \<le> k \<and> k \<le> n \<and> prefix_from E salt content = Some (boundary_prefix E k content)
    \<and> \<not> go_contains content (open_mark @ boundary_prefix E k content)"
  using assms(2)
proof (induction "n - salt" arbitrary: salt)
  case 0
  then have "salt = n" by simp
  then show ?case using assms(1) by (subst prefix_from.simps) (auto simp: Let_def)
next
  case (Suc d)
  show ?case
  proof (cases "go_contains content (open_mark @ boundary_prefix E salt content)")
    case True
    have "d = n - Suc salt" "Suc salt \<le> n" using Suc by auto
    from Suc.hyps(1) [OF this] obtain k where
      "Suc salt \<le> k" "k \<le> n" "prefix_from E (Suc salt) content = Some (boundary_prefix E k content)"
      "\<not> go_contains content (open_mark @ boundary_prefix E k content)" by blast
    moreover have "prefix_from E salt content = prefix_from E (Suc salt) content"
      using True by (subst prefix_from.simps) (simp add: Let_def)
    ultimately show ?thesis by (metis Suc_leD)
  next
    case False
    then have "prefix_from E salt content = Some (boundary_prefix E salt content)"
      by (subst prefix_from.simps) (simp add: Let_def)
    then show ?thesis using False Suc.prems by blast
  qed
qed

lemma boundary_prefix_free:
  "\<not> go_contains content (open_mark @ boundary_prefix E n content) \<Longrightarrow>
   \<exists>p. semanticAssessmentBoundaryPrefix E content = Some p \<and> \<not> go_contains content (open_mark @ p)"
  using prefix_from_ends [of content E n 0] unfolding semanticAssessmentBoundaryPrefix_def by blast

lemma prefix_from_free:
  assumes "prefix_from E salt content = Some p"
  shows "\<not> go_contains content (open_mark @ p)"
proof (rule prefix_from.raw_induct [OF _ assms, where P = "\<lambda>E salt content p. \<not> go_contains content (open_mark @ p)"])
  fix f E' salt' content' p'
  assume IH: "\<And>E salt content p. f E salt content = Some p \<Longrightarrow> \<not> go_contains content (open_mark @ p)"
    and "(let p = boundary_prefix E' salt' content' in
       if \<not> go_contains content' (open_mark @ p) then Some p else f E' (Suc salt') content') = Some p'"
  then show "\<not> go_contains content' (open_mark @ p')" by (auto simp: Let_def dest: IH split: if_splits)
qed

text \<open>
  Occurrences of prefixes of one length are at different places, so an evidence item contains at most as many
  of them as it has bytes: without a collision of the digest among the first salts the loop ends.
\<close>

lemma go_contains_at: "go_contains s sub \<Longrightarrow> sub \<noteq> [] \<Longrightarrow> \<exists>i < length s. prefix sub (drop i s)"
proof (induction s)
  case (Cons c cs)
  show ?case
  proof (cases "prefix sub (c # cs)")
    case False
    then have "go_contains cs sub" using Cons.prems by (auto simp: go_contains_def)
    then obtain i where "i < length cs" "prefix sub (drop i cs)" using Cons by blast
    then show ?thesis by (intro exI [of _ "Suc i"]) simp
  qed auto
qed (simp add: go_contains_def)

definition digest_spread :: "assess_env \<Rightarrow> string \<Rightarrow> bool" where
  "digest_spread E content \<longleftrightarrow>
     (let ds = map (\<lambda>salt. ae_digest E (decimal salt @ [char_at 0] @ content)) [0..<Suc (length content)] in
      distinct ds \<and> list_all (\<lambda>d. length d = 8) ds)"

lemma some_prefix_free:
  assumes "digest_spread E content"
  shows "\<exists>n \<le> length content. \<not> go_contains content (open_mark @ boundary_prefix E n content)"
proof (rule ccontr)
  let ?d = "\<lambda>salt. ae_digest E (decimal salt @ [char_at 0] @ content)"
  let ?S = "{0..<Suc (length content)}"
  assume "\<not> ?thesis"
  then have "\<forall>n\<in>?S. \<exists>i < length content. prefix (open_mark @ boundary_prefix E n content) (drop i content)"
    by (auto intro!: go_contains_at simp: open_mark_def less_Suc_eq_le)
  then obtain place where place: "\<And>n. n \<in> ?S \<Longrightarrow> place n < length content
      \<and> prefix (open_mark @ boundary_prefix E n content) (drop (place n) content)" by metis
  have len: "length (?d n) = 8" if "n \<in> ?S" for n
    using assms that by (auto simp: digest_spread_def Let_def list_all_iff simp del: upt_Suc)
  have "inj_on ?d ?S" using assms by (auto simp: digest_spread_def Let_def distinct_map simp del: upt_Suc)
  then have "inj_on place ?S"
  proof (rule_tac inj_onI)
    fix m n assume inj: "inj_on ?d ?S" and mn: "m \<in> ?S" "n \<in> ?S" "place m = place n"
    have pm: "prefix (open_mark @ boundary_prefix E m content) (drop (place n) content)"
      using place [OF mn(1)] mn(3) by metis
    have pn: "prefix (open_mark @ boundary_prefix E n content) (drop (place n) content)"
      using place [OF mn(2)] by (rule conjunct2)
    have "prefix (open_mark @ boundary_prefix E m content) (open_mark @ boundary_prefix E n content)"
      by (rule prefix_length_prefix [OF pm pn]) (use len [OF mn(1)] len [OF mn(2)] in \<open>simp add: boundary_prefix_def\<close>)
    then have "prefix (?d m @ ''_'') (?d n @ ''_'')" by (simp add: boundary_prefix_def)
    then have "?d m = ?d n"
      using len [OF mn(1)] len [OF mn(2)] unfolding prefix_def append_assoc by (metis append_eq_append_conv)
    then show "m = n" using inj mn by (auto dest: inj_onD)
  qed
  moreover have "place ` ?S \<subseteq> {0..<length content}" using place by (simp add: image_subset_iff del: upt_Suc)
  ultimately have "card ?S \<le> card {0..<length content}" by (intro card_inj_on_le) simp_all
  then show False by simp
qed

lemma boundary_prefix_ends:
  assumes "digest_spread E content"
  shows "\<exists>salt \<le> length content. semanticAssessmentBoundaryPrefix E content = Some (boundary_prefix E salt content)
    \<and> \<not> go_contains content (open_mark @ boundary_prefix E salt content)"
proof -
  from some_prefix_free [OF assms] obtain n where n: "n \<le> length content"
    "\<not> go_contains content (open_mark @ boundary_prefix E n content)" by blast
  from prefix_from_ends [OF n(2), of 0] show ?thesis
    unfolding semanticAssessmentBoundaryPrefix_def using n(1) by (meson le0 order_trans)
qed

section \<open>Evidence with boundary references\<close>

definition boundary_ref :: "string \<Rightarrow> nat \<Rightarrow> string" where
  "boundary_ref p i = p @ base36 i"

definition boundary_mark :: "string \<Rightarrow> nat \<Rightarrow> string" where
  "boundary_mark p i = open_mark @ boundary_ref p i @ close_mark"

text \<open>The annotated text: a mark before every rune and one after the last.\<close>

fun annotate :: "string \<Rightarrow> nat \<Rightarrow> nat list \<Rightarrow> string" where
  "annotate p i [] = boundary_mark p i"
| "annotate p i (r # rs) = boundary_mark p i @ string_of_runes [r] @ annotate p (Suc i) rs"

text \<open>The references differ, so the map is the list of its entries in the order of insertion.\<close>

definition boundary_refs :: "string \<Rightarrow> nat \<Rightarrow> (string \<times> int) list" where
  "boundary_refs p n = map (\<lambda>i. (boundary_ref p i, int i)) [0..<Suc n]"

lemma boundary_refs_code [code]:
  "boundary_refs p n = map (\<lambda>(i, _). (boundary_ref p i, int i)) (enumerate 0 (replicate (Suc n) ()))"
  by (simp add: boundary_refs_def enumerate_eq_zip zip_replicate2 del: upt_Suc replicate_Suc)

lemma distinct_boundary_refs: "distinct (map fst (boundary_refs p n))"
  by (simp add: boundary_refs_def o_def distinct_map inj_on_def boundary_ref_def base36_inject del: upt_Suc)

definition with_boundaries :: "string \<Rightarrow> review_evidence \<Rightarrow> review_evidence" where
  "with_boundaries p e =
     e\<lparr>ev_boundary_text := annotate p 0 (runes (ev_content e)),
       ev_refs := boundary_refs p (rune_count (ev_content e)), ev_prefix := p\<rparr>"

definition PrepareSemanticAssessmentEvidence :: "assess_env \<Rightarrow> review_evidence \<Rightarrow> review_evidence option" where
  "PrepareSemanticAssessmentEvidence E e =
     map_option (\<lambda>p. with_boundaries p e) (semanticAssessmentBoundaryPrefix E (ev_content e))"

definition semanticAssessmentBoundaryOffset :: "review_evidence \<Rightarrow> string \<Rightarrow> int option" where
  "semanticAssessmentBoundaryOffset e ref = map_of (ev_refs e) (trim_space ref)"

definition SemanticAssessmentBoundaryRef :: "review_evidence \<Rightarrow> int \<Rightarrow> string option" where
  "SemanticAssessmentBoundaryRef e k =
     (if k < 0 then None
      else if ev_prefix e \<noteq> []
      then let ref = boundary_ref (ev_prefix e) (nat k) in if map_of (ev_refs e) ref = Some k then Some ref else None
      else map_option fst (List.find (\<lambda>(ref, c). c = k) (ev_refs e)))"

text \<open>Evidence as the request validator leaves it: the references are those of its content.\<close>

definition prepared :: "review_evidence \<Rightarrow> bool" where
  "prepared e \<longleftrightarrow> ev_refs e = boundary_refs (ev_prefix e) (rune_count (ev_content e))
     \<and> prefix ''b'' (ev_prefix e)"

lemma prefix_from_b: "prefix_from E salt content = Some p \<Longrightarrow> prefix ''b'' p"
proof (rule prefix_from.raw_induct [where P = "\<lambda>E salt content p. prefix ''b'' p"])
  fix f E' salt' content' p'
  assume IH: "\<And>E salt content p. f E salt content = Some p \<Longrightarrow> prefix ''b'' p"
    and "(let p = boundary_prefix E' salt' content' in
       if \<not> go_contains content' (open_mark @ p) then Some p else f E' (Suc salt') content') = Some p'"
  then show "prefix ''b'' p'" by (auto simp: Let_def boundary_prefix_def dest: IH split: if_splits)
qed

lemma prepared_Prepare: "PrepareSemanticAssessmentEvidence E e = Some e' \<Longrightarrow> prepared e'
    \<and> ev_content e' = ev_content e \<and> ev_id e' = ev_id e \<and> ev_index e' = ev_index e"
  by (auto simp: PrepareSemanticAssessmentEvidence_def with_boundaries_def prepared_def
      semanticAssessmentBoundaryPrefix_def dest: prefix_from_b)

lemma boundary_refs_lookup:
  "map_of (boundary_refs p n) ref = Some k \<longleftrightarrow> (\<exists>i \<le> n. ref = boundary_ref p i \<and> k = int i)"
  by (subst map_of_eq_Some_iff [OF distinct_boundary_refs])
    (auto simp: boundary_refs_def less_Suc_eq_le simp del: upt_Suc)

text \<open>A reference that is known selects a boundary of the content.\<close>

lemma boundary_offset_range:
  "prepared e \<Longrightarrow> semanticAssessmentBoundaryOffset e ref = Some k \<Longrightarrow> 0 \<le> k \<and> k \<le> int (rune_count (ev_content e))"
  by (auto simp: semanticAssessmentBoundaryOffset_def prepared_def boundary_refs_lookup)

lemma trim_boundary_ref: "prefix ''b'' p \<Longrightarrow> trim_space (boundary_ref p i) = boundary_ref p i"
proof (rule trim_space_word)
  assume "prefix ''b'' p"
  then show "ascii_word (hd (boundary_ref p i))" by (auto simp: prefix_def boundary_ref_def ascii_word_def byte_of_def)
  have "digit36_char (last (base36 i))" by (rule base36_char [of _ i]) simp
  then show "ascii_word (last (boundary_ref p i))" by (auto simp: boundary_ref_def digit36_char_def ascii_word_def)
qed

lemma boundary_ref_offset:
  assumes "prepared e" and "0 \<le> k" and "k \<le> int (rune_count (ev_content e))"
  shows "\<exists>ref. SemanticAssessmentBoundaryRef e k = Some ref \<and> semanticAssessmentBoundaryOffset e ref = Some k"
proof -
  have p: "ev_prefix e \<noteq> []" "prefix ''b'' (ev_prefix e)" using assms(1) by (auto simp: prepared_def)
  have "map_of (ev_refs e) (boundary_ref (ev_prefix e) (nat k)) = Some k"
    using assms by (auto simp: prepared_def boundary_refs_lookup intro!: exI [of _ "nat k"])
  then show ?thesis
    using p assms(2) by (simp add: SemanticAssessmentBoundaryRef_def semanticAssessmentBoundaryOffset_def Let_def trim_boundary_ref)
qed

section \<open>Ranges\<close>

text \<open>\<open>resolveSemanticAssessmentRange\<close>: the resolved range or the error, whose field the caller fills in. A
  failed resolution keeps the trimmed texts and the offsets that the range had.\<close>

definition trim_range :: "grounded_range \<Rightarrow> grounded_range" where
  "trim_range r = r\<lparr>gr_id := trim_space (gr_id r), gr_start_ref := trim_space (gr_start_ref r),
     gr_end_ref := trim_space (gr_end_ref r)\<rparr>"

definition resolveSemanticAssessmentRange ::
  "(string \<times> review_evidence) list \<Rightarrow> grounded_range \<Rightarrow> string \<Rightarrow> grounded_range \<times> semantic_error list" where
  "resolveSemanticAssessmentRange byID r field =
     (let r = trim_range r in
      case map_of byID (gr_id r) of
        None \<Rightarrow> (r, [semanticCodedErr field
          ''evidence_id is unknown; copy a supplied evidence_id and its own boundary references'' ''range_evidence_unknown''])
      | Some e \<Rightarrow>
          (case (semanticAssessmentBoundaryOffset e (gr_start_ref r), semanticAssessmentBoundaryOffset e (gr_end_ref r)) of
             (Some s, Some t) \<Rightarrow>
               if s < 0 \<or> t \<le> s
               then (r, [semanticCodedErr field
                 ''range is empty or reversed; start_ref must precede end_ref, with the start inclusive and the end exclusive''
                 ''range_order_invalid''])
               else (r\<lparr>gr_start := s, gr_end := t\<rparr>, [])
           | _ \<Rightarrow> (r, [semanticCodedErr field
               (''start_ref or end_ref is not a supplied boundary reference for this evidence_id; ''
                @ ''copy both markers from that evidence's boundary_text'') ''range_boundary_unknown''])))"

text \<open>The exported form also accepts a nil range.\<close>

definition ResolveSemanticAssessmentRange ::
  "(string \<times> review_evidence) list \<Rightarrow> grounded_range option \<Rightarrow> semantic_error list \<times> grounded_range option" where
  "ResolveSemanticAssessmentRange byID value = (case value of
       None \<Rightarrow> ([semanticCodedErr []
         ''range is required; copy evidence_id, start_ref, and end_ref from the supplied evidence'' ''range_required''], None)
     | Some r \<Rightarrow> let (r', es) = resolveSemanticAssessmentRange byID r [] in (es, Some r'))"

text \<open>A range that lies in the content of the evidence it names.\<close>

definition range_in :: "(string \<times> review_evidence) list \<Rightarrow> grounded_range \<Rightarrow> bool" where
  "range_in byID r \<longleftrightarrow> (case map_of byID (gr_id r) of None \<Rightarrow> False
     | Some e \<Rightarrow> span_inside (ev_content e) (gr_start r) (gr_end r))"

lemma resolve_range_in:
  assumes "resolveSemanticAssessmentRange byID r field = (r', [])" and "\<forall>e \<in> snd ` set byID. prepared e"
  shows "range_in byID r' \<and> gr_id r' = trim_space (gr_id r)"
  using assms(1) unfolding resolveSemanticAssessmentRange_def Let_def
proof (clarsimp split: option.splits if_splits)
  fix e s t
  assume m: "map_of byID (gr_id (trim_range r)) = Some e" and "\<not> s < 0" "\<not> t \<le> s"
    "semanticAssessmentBoundaryOffset e (gr_start_ref (trim_range r)) = Some s"
    and t: "semanticAssessmentBoundaryOffset e (gr_end_ref (trim_range r)) = Some t"
  moreover have "prepared e" using assms(2) map_of_SomeD [OF m] by force
  ultimately show "range_in byID (trim_range r\<lparr>gr_start := s, gr_end := t\<rparr>) \<and> gr_id (trim_range r) = trim_space (gr_id r)"
    using boundary_offset_range [OF _ t] by (simp add: range_in_def span_inside_def trim_range_def)
qed

end
