(* ===== verification/Assessor_Response.thy ===== *)
theory Assessor_Response
  imports Assessor_Evidence
begin

text \<open>
  The first half of \<open>PrepareSemanticAssessmentResponse\<close>, internal/assessor/assessor.go: the response is trimmed
  and its times are brought to one form, its shape is checked, and the references it cites are resolved against
  the frozen request (\<open>resolveSemanticAssessmentSubmissionResponse\<close>,
  \<open>resolveSemanticAssessmentEvidenceSecurityResults\<close>). A Go function that changes the response through a
  pointer and returns errors is a function to the changed part and the errors.
\<close>

section \<open>Times\<close>

definition assessmentParsedTime :: "assess_env \<Rightarrow> string option \<Rightarrow> time option option" where
  "assessmentParsedTime E v = (case v of None \<Rightarrow> Some None | Some s \<Rightarrow> map_option Some (ae_parse_time E s))"

definition normalizeAssessmentTime :: "assess_env \<Rightarrow> string option \<Rightarrow> string option" where
  "normalizeAssessmentTime E v =
     (case v of None \<Rightarrow> None
      | Some s \<Rightarrow>
          (let t = trim_space s in
           if t = [] then None
           else case ae_parse_time E t of None \<Rightarrow> Some s | Some p \<Rightarrow> Some (ae_format_time E p)))"

definition normalizeOptionalAssessmentTime :: "assess_env \<Rightarrow> string option \<Rightarrow> string option" where
  "normalizeOptionalAssessmentTime E v =
     (case v of None \<Rightarrow> None
      | Some s \<Rightarrow>
          (let t = trim_space s in
           if t = [] then None
           else case ae_parse_time E t of None \<Rightarrow> Some t | Some p \<Rightarrow> Some (ae_format_time E p)))"

section \<open>Normalization\<close>

definition trim_signal :: "assessor_signal \<Rightarrow> assessor_signal" where
  "trim_signal s = s\<lparr>ag_evidence := trim_space (ag_evidence s), ag_kind := trim_space (ag_kind s),
     ag_start_ref := trim_space (ag_start_ref s), ag_end_ref := trim_space (ag_end_ref s)\<rparr>"

definition normalize_security_result :: "assessor_signal list \<Rightarrow> security_result \<Rightarrow> security_result" where
  "normalize_security_result legacy r =
     (let ident = trim_space (ar_evidence r);
          signals = map (\<lambda>s. trim_signal (if trim_space (ag_evidence s) = [] then s\<lparr>ag_evidence := ident\<rparr> else s)) (ar_signals r)
      in \<lparr>ar_evidence = ident, ar_decision = trim_space (ar_decision r),
          ar_signals = (if signals = [] then filter (\<lambda>s. trim_space (ag_evidence s) = ident) legacy else signals)\<rparr>)"

definition normalizeSemanticAssessmentSecurityResults :: "assessment_response \<Rightarrow> assessment_response" where
  "normalizeSemanticAssessmentSecurityResults p =
     (let security = (if slice_of (rp_security p) = [] \<and> rp_results p \<noteq> None then rp_results p else rp_security p) in
      p\<lparr>rp_security := map_option (map (normalize_security_result (rp_signals p))) security,
        rp_signals := [], rp_results := None\<rparr>)"

definition normalize_equivalence_result :: "equivalence_result \<Rightarrow> equivalence_result" where
  "normalize_equivalence_result r = r\<lparr>qr_evidence := trim_space (qr_evidence r), qr_action := trim_space (qr_action r),
     qr_candidate := map_option trim_space (qr_candidate r)\<rparr>"

definition normalize_entity_result :: "entity_result \<Rightarrow> entity_result" where
  "normalize_entity_result r = r\<lparr>en_ref := trim_space (en_ref r), en_grounding := map_option trim_space (en_grounding r),
     en_anchor := map_option trim_space (en_anchor r), en_action := trim_space (en_action r),
     en_candidate := map_option trim_space (en_candidate r)\<rparr>"

definition trim_value :: "assessment_value \<Rightarrow> assessment_value" where
  "trim_value v = \<lparr>av_type = trim_space (av_type v), av_canonical = trim_space (av_canonical v),
     av_display = map_option trim_space (av_display v), av_unit = map_option trim_space (av_unit v)\<rparr>"

definition trim_registration :: "predicate_registration \<Rightarrow> predicate_registration" where
  "trim_registration g = \<lparr>pr_key = trim_space (pr_key g), pr_kind = trim_space (pr_kind g),
     pr_cardinality = trim_space (pr_cardinality g)\<rparr>"

definition normalizeSemanticAssessmentRelationshipSplit :: "assess_env \<Rightarrow> relationship_split \<Rightarrow> relationship_split" where
  "normalizeSemanticAssessmentRelationshipSplit E r =
     r\<lparr>rs_subject := trim_space (rs_subject r), rs_range := trim_range (rs_range r), rs_status := trim_space (rs_status r),
       rs_polarity := trim_space (rs_polarity r), rs_key := map_option trim_space (rs_key r),
       rs_registration := map_option trim_registration (rs_registration r),
       rs_object_ref := map_option trim_space (rs_object_ref r),
       rs_value_range := map_option trim_range (rs_value_range r), rs_supports := map trim_range (rs_supports r),
       rs_value := map_option trim_value (rs_value r),
       rs_from := normalizeAssessmentTime E (rs_from r), rs_to := normalizeAssessmentTime E (rs_to r)\<rparr>"

definition normalizeSemanticAssessmentRelationshipResult :: "assess_env \<Rightarrow> relationship_result \<Rightarrow> relationship_result" where
  "normalizeSemanticAssessmentRelationshipResult E r =
     \<lparr>rr_ref = trim_space (rr_ref r), rr_disposition = trim_space (rr_disposition r),
      rr_reason = map_option trim_space (rr_reason r),
      rr_splits = map (normalizeSemanticAssessmentRelationshipSplit E) (rr_splits r)\<rparr>"

text \<open>The loops over the security signals and results find nothing, since both have just been cleared.\<close>

definition normalize_response :: "assess_env \<Rightarrow> assessment_response \<Rightarrow> assessment_response" where
  "normalize_response E p =
     (let p = normalizeSemanticAssessmentSecurityResults (p\<lparr>rp_request := trim_space (rp_request p)\<rparr>) in
      p\<lparr>rp_equivalence := map_option (map normalize_equivalence_result) (rp_equivalence p),
        rp_entities := map_option (map normalize_entity_result) (rp_entities p),
        rp_relationships := map_option (map (normalizeSemanticAssessmentRelationshipResult E)) (rp_relationships p)\<rparr>)"

section \<open>Shape\<close>

definition slice_errors :: "'a list option \<Rightarrow> string \<Rightarrow> int \<Rightarrow> semantic_error list" where
  "slice_errors xs field limit =
     (case xs of None \<Rightarrow> [semanticErr field ''is required'']
      | Some ys \<Rightarrow> err_if (limit < int (length ys)) field (''must contain at most '' @ go_decimal limit @ '' entries''))"

definition validateSemanticAssessmentResponseShape :: "assessment_response \<Rightarrow> assessment_limits \<Rightarrow> semantic_error list" where
  "validateSemanticAssessmentResponseShape p l =
     err_if (rp_request p = [] \<or> 128 < rune_count (rp_request p)) ''request_id'' ''is required and must be at most 128 characters''
     @ slice_errors (rp_security p) ''evidence_security_results'' (al_evidence l)
     @ slice_errors (rp_equivalence p) ''evidence_equivalence_results'' (al_evidence l)
     @ slice_errors (rp_entities p) ''entity_results'' (al_entities l)
     @ slice_errors (rp_relationships p) ''relationship_results'' (al_relationships l)"

lemma slice_errors_Nil [simp]:
  "slice_errors xs field limit = [] \<longleftrightarrow> (\<exists>ys. xs = Some ys \<and> int (length ys) \<le> limit)"
  by (auto simp: slice_errors_def split: option.splits)

section \<open>Groundings\<close>

definition entityGroundingByRef :: "entity_grounding list \<Rightarrow> string \<Rightarrow> entity_grounding option" where
  "entityGroundingByRef gs ref = List.find (\<lambda>g. eg_ref g = trim_space ref) gs"

definition entityAnchorByRef :: "entity_anchor list \<Rightarrow> string \<Rightarrow> entity_anchor option" where
  "entityAnchorByRef as ref = List.find (\<lambda>a. ea_ref a = trim_space ref) as"

definition semanticAssessmentAnchorPrecedes ::
  "entity_anchor \<Rightarrow> entity_grounding \<Rightarrow> (string \<times> review_evidence) list \<Rightarrow> bool" where
  "semanticAssessmentAnchorPrecedes a g byID =
     (case (map_of byID (ea_evidence a), map_of byID (eg_evidence g)) of
        (Some ae, Some ge) \<Rightarrow> ev_index ae < ev_index ge \<or> ev_index ae = ev_index ge \<and> ea_end a \<le> eg_start g
      | _ \<Rightarrow> False)"

definition contract_entities :: "assessment_request \<Rightarrow> (string \<times> required_entity) list" where
  "contract_entities req = (case aq_contract req of None \<Rightarrow> [] | Some c \<Rightarrow> index_by re_ref (ct_entities c))"

text \<open>The anchor of a grounding, and the anchors of a response that names none.\<close>

definition anchor_named :: "entity_result \<Rightarrow> bool" where
  "anchor_named r \<longleftrightarrow> (case en_anchor r of None \<Rightarrow> False | Some a \<Rightarrow> trim_space a \<noteq> [])"

definition anchor_errors ::
  "(string \<times> review_evidence) list \<Rightarrow> required_entity \<Rightarrow> entity_grounding \<Rightarrow> string \<Rightarrow> entity_result \<Rightarrow> semantic_error list" where
  "anchor_errors byID t g field r =
     (if eg_anchor g \<noteq> [] then
        if (case en_anchor r of None \<Rightarrow> True | Some a \<Rightarrow> trim_space a \<noteq> eg_anchor g)
        then [semanticErr (field @ ''.anchor_ref'') ''must match the grounding anchor'']
        else case entityAnchorByRef (re_anchors t) (eg_anchor g) of
               None \<Rightarrow> [semanticErr (field @ ''.anchor_ref'') ''is outside the submitted anchor allowlist'']
             | Some a \<Rightarrow>
                 if \<not> semanticAssessmentAnchorPrecedes a g byID
                 then [semanticErr (field @ ''.anchor_ref'') ''does not precede the submitted mention'']
                 else err_if (en_action r \<noteq> entity_resolution_action_str EntityResolutionReuse) (field @ ''.action'')
                        ''anchored coreference must reuse the anchored Entity''
                      @ err_if (case en_candidate r of None \<Rightarrow> True | Some c \<Rightarrow> c \<notin> set (ea_candidates a))
                        (field @ ''.anchor_ref'') ''does not match the selected Entity''
      else err_if (anchor_named r) (field @ ''.anchor_ref'') ''is not valid for this grounding'')"

text \<open>The kind of the selected candidate replaces the kind of the entity.\<close>

definition candidate_kind :: "candidate_group option \<Rightarrow> entity_result \<Rightarrow> entity_result" where
  "candidate_kind g r =
     (case (en_candidate r, g) of
        (Some c, Some g') \<Rightarrow>
          (case List.find (\<lambda>k. ec_id k = c) (cg_candidates g') of None \<Rightarrow> r | Some k \<Rightarrow> r\<lparr>en_kind := ec_kind k\<rparr>)
      | _ \<Rightarrow> r)"

definition resolve_entity :: "assessment_request \<Rightarrow> nat \<Rightarrow> entity_result \<Rightarrow> entity_result \<times> semantic_error list" where
  "resolve_entity req i r =
     (let byID = semanticAssessmentAllEvidence req;
          groups = index_by cg_grounding (aq_groups req);
          field = at_index ''entity_results'' i;
          target = map_of (contract_entities req) (en_ref r);
          r = (case target of None \<Rightarrow> r | Some t \<Rightarrow> r\<lparr>en_kind := re_kind t, en_surface := re_name t\<rparr>) in
      case en_grounding r of
        None \<Rightarrow> (r, err_if (anchor_named r) (field @ ''.anchor_ref'') ''requires a grounding_ref'')
      | Some sel \<Rightarrow>
          (let selected = trim_space sel; r = r\<lparr>en_grounding := Some selected\<rparr> in
           case target of
             Some t \<Rightarrow>
               (case entityGroundingByRef (re_groundings t) selected of
                  None \<Rightarrow> (r, [semanticErr (field @ ''.grounding_ref'') ''is outside the submitted grounding allowlist''])
                | Some g \<Rightarrow>
                    (let r = r\<lparr>en_surface := eg_surface g, en_evidence := eg_evidence g, en_start := eg_start g, en_end := eg_end g\<rparr>
                     in (candidate_kind (map_of groups selected) r, anchor_errors byID t g field r)))
           | None \<Rightarrow>
               (case map_of groups selected of
                  None \<Rightarrow> (r, [semanticErr (field @ ''.grounding_ref'') ''is outside the grounding allowlist''])
                | Some g \<Rightarrow>
                    (let r = r\<lparr>en_surface := cg_surface g, en_evidence := cg_evidence g, en_start := cg_start g, en_end := cg_end g\<rparr>
                     in (candidate_kind (Some g) r,
                         err_if (anchor_named r) (field @ ''.anchor_ref'') ''is outside the submitted anchor allowlist'')))))"

section \<open>Ranges of relationships\<close>

definition split_path :: "nat \<Rightarrow> nat \<Rightarrow> string" where
  "split_path i j = at_index (at_index ''relationship_results'' i @ ''.splits'') j"

definition resolve_supports ::
  "(string \<times> review_evidence) list \<Rightarrow> string \<Rightarrow> grounded_range list \<Rightarrow> grounded_range list \<times> evidence_span list \<times> semantic_error list" where
  "resolve_supports byID path rs =
     (let res = map (\<lambda>(k, r). resolveSemanticAssessmentRange byID r (at_index (path @ ''.support_ranges'') k)) (enumerate 0 rs) in
      (map fst res,
       map (\<lambda>(r, es). \<lparr>sp_id = gr_id r, sp_start = gr_start r, sp_end = gr_end r\<rparr>) (filter (\<lambda>(r, es). es = []) res),
       concat (map snd res)))"

definition resolve_split ::
  "(string \<times> review_evidence) list \<Rightarrow> nat \<Rightarrow> nat \<Rightarrow> relationship_split \<Rightarrow> relationship_split \<times> semantic_error list" where
  "resolve_split byID i j s =
     (let path = split_path i j;
          (range, range_errs) = resolveSemanticAssessmentRange byID (rs_range s) (path @ ''.predicate_range'');
          original = (if range_errs \<noteq> [] then rs_original s
                      else case map_of byID (gr_id range) of None \<Rightarrow> []
                           | Some e \<Rightarrow> (case SemanticEvidenceSpan (ev_content e) (gr_start range) (gr_end range) of
                                          Inl _ \<Rightarrow> [] | Inr q \<Rightarrow> q));
          (value_range, value_errs) =
            (case rs_value_range s of None \<Rightarrow> (None, [])
             | Some v \<Rightarrow> (let (v', es) = resolveSemanticAssessmentRange byID v (path @ ''.value_range'') in (Some v', es)));
          (supports, evidence, support_errs) = resolve_supports byID path (rs_supports s) in
      (s\<lparr>rs_range := range, rs_original := original, rs_value_range := value_range, rs_supports := supports,
         rs_evidence := evidence\<rparr>, range_errs @ value_errs @ support_errs))"

definition resolve_relationship ::
  "(string \<times> review_evidence) list \<Rightarrow> nat \<Rightarrow> relationship_result \<Rightarrow> relationship_result \<times> semantic_error list" where
  "resolve_relationship byID i r =
     (let res = map (\<lambda>(j, s). resolve_split byID i j s) (enumerate 0 (rr_splits r)) in
      (r\<lparr>rr_splits := map fst res\<rparr>, concat (map snd res)))"

definition resolveSemanticAssessmentSubmissionResponse ::
  "assessment_request \<Rightarrow> assessment_response \<Rightarrow> assessment_response \<times> semantic_error list" where
  "resolveSemanticAssessmentSubmissionResponse req p =
     (let byID = semanticAssessmentAllEvidence req;
          ents = map_option (\<lambda>rs. map (\<lambda>(i, r). resolve_entity req i r) (enumerate 0 rs)) (rp_entities p);
          rels = map_option (\<lambda>rs. map (\<lambda>(i, r). resolve_relationship byID i r) (enumerate 0 rs)) (rp_relationships p) in
      (p\<lparr>rp_entities := map_option (map fst) ents, rp_relationships := map_option (map fst) rels\<rparr>,
       concat (map snd (slice_of ents)) @ concat (map snd (slice_of rels))))"

section \<open>Signals\<close>

definition resolve_signal ::
  "(string \<times> review_evidence) list \<Rightarrow> string \<Rightarrow> nat \<Rightarrow> nat \<Rightarrow> assessor_signal \<Rightarrow> assessor_signal \<times> semantic_error list" where
  "resolve_signal byID ident i j s =
     (let s = s\<lparr>ag_evidence := ident\<rparr> in
      case map_of byID ident of
        None \<Rightarrow> (s, [])
      | Some e \<Rightarrow>
          (case (semanticAssessmentBoundaryOffset e (ag_start_ref s), semanticAssessmentBoundaryOffset e (ag_end_ref s)) of
             (Some a, Some b) \<Rightarrow>
               if a < 0 \<or> b \<le> a
               then (s, [semanticErr (at_index (at_index ''evidence_security_results'' i @ ''.signals'') j)
                          ''contains invalid boundary references''])
               else (s\<lparr>ag_start := a, ag_end := b\<rparr>, [])
           | _ \<Rightarrow> (s, [semanticErr (at_index (at_index ''evidence_security_results'' i @ ''.signals'') j)
                      ''contains invalid boundary references''])))"

definition resolve_security ::
  "(string \<times> review_evidence) list \<Rightarrow> nat \<Rightarrow> security_result \<Rightarrow> security_result \<times> semantic_error list" where
  "resolve_security byID i r =
     (let res = map (\<lambda>(j, s). resolve_signal byID (ar_evidence r) i j s) (enumerate 0 (ar_signals r)) in
      (r\<lparr>ar_signals := map fst res\<rparr>, concat (map snd res)))"

definition resolveSemanticAssessmentEvidenceSecurityResults ::
  "(string \<times> review_evidence) list \<Rightarrow> security_result list \<Rightarrow> security_result list \<times> semantic_error list" where
  "resolveSemanticAssessmentEvidenceSecurityResults byID rs =
     (let res = map (\<lambda>(i, r). resolve_security byID i r) (enumerate 0 rs) in (map fst res, concat (map snd res)))"

end
