(* ===== verification/Assessor_Validation.thy ===== *)
theory Assessor_Validation
  imports Assessor_Response
begin

text \<open>
  The validators of a resolved response, internal/assessor/assessor.go, equivalence_validation.go,
  conflict_validation.go, predicate_validation.go, assessor_response_validation_helpers.go and
  assessor_submission_contract.go. A validator returns its errors in the order of the code; an iteration over a
  map contributes copies of one error, so its order does not show. A \<open>seen\<close> set is the list of its members.
\<close>

section \<open>Evidence security\<close>

definition signal_seen_key :: "string \<Rightarrow> assessor_signal \<Rightarrow> string" where
  "signal_seen_key ident s = ident @ '':'' @ ag_kind s @ '':'' @ go_decimal (ag_start s) @ '':'' @ go_decimal (ag_end s)"

definition check_signal ::
  "review_evidence \<Rightarrow> string \<Rightarrow> string \<Rightarrow> string list \<Rightarrow> nat \<Rightarrow> assessor_signal \<Rightarrow> string list \<times> semantic_error list" where
  "check_signal e ident field seen j s =
     (let f = at_index (field @ ''.signals'') j; quote = semanticExactSpanQuote (ev_content e) (ag_start s) (ag_end s) [];
          key = signal_seen_key ident s in
      (key # seen,
       err_if (\<not> semanticSecurityKindAllowed (ag_kind s)) (f @ ''.kind'') ''is unsupported''
       @ (case quote of Inl m \<Rightarrow> [semanticErr (f @ ''.span'') m]
          | Inr q \<Rightarrow> err_if (\<not> semanticSecuritySignalSpanMatchesKind (ag_kind s) q) (f @ ''.span'')
                      ''hidden_control_markup requires a hidden control or active markup'')
       @ err_if (key \<in> set seen) f ''is duplicated''))"

definition check_security ::
  "(string \<times> review_evidence) list \<Rightarrow> string list \<Rightarrow> nat \<Rightarrow> security_result \<Rightarrow> string list \<times> semantic_error list" where
  "check_security byID seen i r =
     (let field = at_index ''evidence_security_results'' i; ident = ar_evidence r in
      if ident = [] then (seen, [semanticCodedErr (field @ ''.evidence_id'') ''is required'' ''evidence_id_required''])
      else case map_of byID ident of
        None \<Rightarrow> (seen, [semanticCodedErr (field @ ''.evidence_id'') ''is unknown'' ''evidence_id_unknown''])
      | Some e \<Rightarrow>
          (ident # seen,
           coded_if (ident \<in> set seen) (field @ ''.evidence_id'') ''is duplicated'' ''evidence_id_duplicate''
           @ err_if (ar_decision r \<noteq> ''pass'' \<and> ar_decision r \<noteq> ''reject'') (field @ ''.decision'') ''is unsupported''
           @ err_if (64 < length (ar_signals r)) (field @ ''.signals'') ''must contain at most 64 entries''
           @ snd (each (check_signal e ident field) [] 0 (ar_signals r))
           @ err_if (ar_decision r = ''pass'' \<and> ar_signals r \<noteq> []) (field @ ''.decision'') ''must be pass when signals are empty''
           @ err_if (ar_decision r = ''reject'' \<and> ar_signals r = []) (field @ ''.signals'')
               ''reject requires at least one security signal''))"

definition validateSemanticAssessmentEvidenceSecurityResults ::
  "security_result list \<Rightarrow> (string \<times> review_evidence) list \<Rightarrow> semantic_error list" where
  "validateSemanticAssessmentEvidenceSecurityResults results byID =
     (let (seen, errs) = each (check_security byID) [] 0 results in
      errs
      @ coded_if (length results \<noteq> length byID) ''evidence_security_results''
          ''must contain exactly one result per evidence item'' ''evidence_result_count_mismatch''
      @ concat (map (\<lambda>(ident, _). coded_if (ident \<notin> set seen) ''evidence_security_results''
          ''is missing an evidence result'' ''evidence_result_missing'') byID))"

section \<open>Evidence equivalence\<close>

definition check_equivalence_candidate :: "string \<Rightarrow> string list \<Rightarrow> nat \<Rightarrow> equivalence_candidate \<Rightarrow> string list \<times> semantic_error list" where
  "check_equivalence_candidate field seen j c =
     (let f = at_index (field @ ''.candidates'') j; ident = trim_space (qc_id c) in
      (ident # seen,
       err_if (ident = [] \<or> 128 < rune_count ident) (f @ ''.evidence_id'') ''is required and must be bounded''
       @ err_if (trim_space (qc_content c) = []) (f @ ''.content'') ''is required''
       @ err_if (ident \<in> set seen) (f @ ''.evidence_id'') ''is duplicated''))"

definition candidate_list_errors :: "string \<Rightarrow> equivalence_group \<Rightarrow> semantic_error list" where
  "candidate_list_errors field g =
     snd (each (check_equivalence_candidate field) [] 0 (qg_candidates g))
     @ err_if (SemanticAssessmentMaxEvidenceEquivalenceCandidates < length (qg_candidates g)) (field @ ''.candidates'')
         (''must contain at most '' @ decimal SemanticAssessmentMaxEvidenceEquivalenceCandidates @ '' candidates'')"

text \<open>The first loop collects the groups by trimmed evidence id.\<close>

definition collect_group ::
  "(string \<times> equivalence_group) list \<Rightarrow> nat \<Rightarrow> equivalence_group \<Rightarrow> (string \<times> equivalence_group) list \<times> semantic_error list" where
  "collect_group groups i g =
     (let field = at_index ''evidence_equivalence_candidates'' i; ident = trim_space (qg_id g) in
      if ident = [] then (groups, [semanticErr (field @ ''.evidence_id'') ''is required''])
      else if map_of groups ident \<noteq> None then (groups, [semanticErr (field @ ''.evidence_id'') ''is duplicated''])
      else (groups @ [(ident, g\<lparr>qg_id := ident\<rparr>)], candidate_list_errors field g))"

definition check_equivalence ::
  "(string \<times> equivalence_group) list \<Rightarrow> string list \<Rightarrow> nat \<Rightarrow> equivalence_result \<Rightarrow> string list \<times> semantic_error list" where
  "check_equivalence groups seen i r =
     (let field = at_index ''evidence_equivalence_results'' i; ident = trim_space (qr_evidence r) in
      (ident # seen,
       err_if (ident \<in> set seen) (field @ ''.evidence_id'') ''is duplicated''
       @ (case map_of groups ident of
            None \<Rightarrow> [semanticErr (field @ ''.evidence_id'') ''is not an allowlisted non-exact evidence item'']
          | Some g \<Rightarrow>
              if qr_action r = ''new''
              then err_if (qr_candidate r \<noteq> None) (field @ ''.candidate_evidence_id'') ''must be null for new''
              else if qr_action r = ''reuse''
              then (let c = (case qr_candidate r of None \<Rightarrow> [] | Some v \<Rightarrow> trim_space v) in
                    if c = [] then [semanticErr (field @ ''.candidate_evidence_id'') ''is required for reuse'']
                    else err_if (c \<notin> qc_id ` set (qg_candidates g)) (field @ ''.candidate_evidence_id'')
                           ''is outside the candidate allowlist'')
              else [semanticErr (field @ ''.action'') ''must be new or reuse''])))"

definition ValidateEvidenceEquivalenceResults :: "equivalence_group list \<Rightarrow> equivalence_result list \<Rightarrow> semantic_error list" where
  "ValidateEvidenceEquivalenceResults candidates results =
     (let (groups, errs) = each collect_group [] 0 candidates;
          (seen, result_errs) = each (check_equivalence groups) [] 0 results in
      errs @ result_errs
      @ err_if (length results \<noteq> length groups) ''evidence_equivalence_results''
          ''must contain exactly one result per non-exact evidence item''
      @ concat (map (\<lambda>(ident, _). err_if (ident \<notin> set seen) ''evidence_equivalence_results''
          ''is missing a non-exact evidence result'') groups))"

definition validateSemanticAssessmentEvidenceEquivalenceResults ::
  "assessment_request \<Rightarrow> equivalence_result list \<Rightarrow> semantic_error list" where
  "validateSemanticAssessmentEvidenceEquivalenceResults req results =
     indexed (\<lambda>i g. err_if (map_of (semanticEvidenceByID (aq_evidence req)) (trim_space (qg_id g)) = None)
         (at_index ''evidence_equivalence_candidates'' i @ ''.evidence_id'') ''is unknown'') (aq_equivalence req)
     @ ValidateEvidenceEquivalenceResults (aq_equivalence req) results"

section \<open>Entities\<close>

definition reuse_action :: string where "reuse_action = entity_resolution_action_str EntityResolutionReuse"
definition create_action :: string where "create_action = entity_resolution_action_str EntityResolutionCreate"
definition ambiguous_action :: string where "ambiguous_action = entity_resolution_action_str EntityResolutionAmbiguous"

lemma actions_eval: "reuse_action = ''reuse''" "create_action = ''create''" "ambiguous_action = ''ambiguous''"
  by (simp_all add: reuse_action_def create_action_def ambiguous_action_def)

definition uses_entity :: "string \<Rightarrow> required_relationship \<Rightarrow> bool" where
  "uses_entity ref t \<longleftrightarrow> rl_subject t = ref \<or> rl_object_ref t = Some ref"

text \<open>
  An exact reuse may stay without grounding when every relationship that uses the entity has exactly one
  result, which is \<open>not_supported\<close>.
\<close>

definition semanticAssessmentAllowsUngroundedExactReuse ::
  "submission_contract option \<Rightarrow> relationship_result list \<Rightarrow> entity_result \<Rightarrow> bool" where
  "semanticAssessmentAllowsUngroundedExactReuse contract rels r =
     (case (contract, en_candidate r) of
        (Some c, Some cand) \<Rightarrow>
          if en_grounding r \<noteq> None \<or> en_action r \<noteq> reuse_action then False
          else
            (let known = (case List.find (\<lambda>t. re_ref t = en_ref r) (ct_entities c) of None \<Rightarrow> [] | Some t \<Rightarrow> re_known t);
                 dependents = filter (uses_entity (en_ref r)) (ct_relationships c) in
             if known = [] \<or> trim_space cand \<noteq> known then False
             else list_all (\<lambda>t. let ms = filter (\<lambda>x. rr_ref x = rl_id t) rels in
                    list_all (\<lambda>x. rr_disposition x = ''not_supported'') ms \<and> length ms = 1) dependents
                  \<and> dependents \<noteq> [])
      | _ \<Rightarrow> False)"

definition semanticAssessmentEntityLogicalKey :: "string \<Rightarrow> string \<Rightarrow> string" where
  "semanticAssessmentEntityLogicalKey name kind =
     to_lower (go_join '' '' (go_fields (trim_space name))) @ [char_at 0] @ trim_space kind"

definition semanticAssessmentEntityResultLogicalKey :: "entity_result \<Rightarrow> required_entity \<Rightarrow> string" where
  "semanticAssessmentEntityResultLogicalKey r t =
     (case en_candidate r of
        Some c \<Rightarrow> if trim_space c \<noteq> [] then ''candidate'' @ [char_at 0] @ trim_space c
                 else semanticAssessmentEntityLogicalKey (re_name t) (re_kind t)
      | None \<Rightarrow> semanticAssessmentEntityLogicalKey (re_name t) (re_kind t))"

text \<open>The checks of the action against the candidates of the span.\<close>

definition action_errors :: "candidate_group option \<Rightarrow> required_entity option \<Rightarrow> string \<Rightarrow> entity_result \<Rightarrow> semantic_error list" where
  "action_errors g target field r =
     (let matching = assessmentMatchingEntityCandidates g (en_kind r);
          truncated = (case g of None \<Rightarrow> False | Some g' \<Rightarrow> cg_truncated g') in
      if en_action r = reuse_action then
        (case en_candidate r of
           None \<Rightarrow> [semanticErr (field @ ''.candidate_entity_id'') ''is required for reuse'']
         | Some c \<Rightarrow>
             if c = [] then [semanticErr (field @ ''.candidate_entity_id'') ''is required for reuse'']
             else
               (let known = (case target of None \<Rightarrow> [] | Some t \<Rightarrow> re_known t);
                    exact = (g \<noteq> None \<and> \<not> truncated \<and> c \<in> ec_id ` set matching
                             \<and> (length matching = 1 \<or> known \<noteq> [] \<and> known = c)) in
                err_if (\<not> exact) (field @ ''.candidate_entity_id'') ''is not the single reusable exact candidate''))
      else if en_action r = create_action then
        err_if (en_candidate r \<noteq> None) (field @ ''.candidate_entity_id'') ''must be null for create''
        @ err_if (g \<noteq> None \<and> (truncated \<or> matching \<noteq> [])) (field @ ''.action'')
            ''cannot create when candidate context is truncated or a compatible candidate is available''
      else if en_action r = ambiguous_action then
        err_if (en_candidate r \<noteq> None) (field @ ''.candidate_entity_id'') ''must be null for ambiguous''
      else [semanticErr (field @ ''.action'') ''is unsupported''])"

text \<open>The state: the references, the spans, and the logical key of the first entity at a span.\<close>

record entity_seen =
  es_refs :: "string list"
  es_spans :: "string list"
  es_logical :: "(string \<times> string) list"

definition ungrounded_errors :: "submission_contract option \<Rightarrow> relationship_result list \<Rightarrow> string \<Rightarrow> entity_result \<Rightarrow> semantic_error list" where
  "ungrounded_errors contract rels field r =
     err_if (en_action r \<noteq> ambiguous_action \<and> \<not> semanticAssessmentAllowsUngroundedExactReuse contract rels r)
       (field @ ''.grounding_ref'') ''is required unless action is ambiguous''
     @ err_if (en_candidate r \<noteq> None \<and> en_action r \<noteq> reuse_action) (field @ ''.candidate_entity_id'')
         ''requires reuse when grounding_ref is null''"

definition check_entity ::
  "assessment_request \<Rightarrow> relationship_result list \<Rightarrow> (string \<times> review_evidence) list
   \<Rightarrow> entity_seen \<Rightarrow> nat \<Rightarrow> entity_result \<Rightarrow> entity_seen \<times> entity_result \<times> semantic_error list" where
  "check_entity req rels byID st i r =
     (let field = at_index ''entity_results'' i;
          target = map_of (contract_entities req) (en_ref r);
          ref_errs = err_if (en_ref r = [] \<or> 128 < rune_count (en_ref r)) (field @ ''.ref'')
                       ''is required and must be at most 128 characters''
                     @ err_if (en_ref r \<in> set (es_refs st)) (field @ ''.ref'') ''is duplicated'';
          st = st\<lparr>es_refs := en_ref r # es_refs st\<rparr> in
      if en_grounding r = None then (st, r, ref_errs @ ungrounded_errors (aq_contract req) rels field r)
      else case map_of byID (en_evidence r) of
        None \<Rightarrow> (st, r, ref_errs @ [semanticErr (field @ ''.evidence_id'') ''is unknown''])
      | Some e \<Rightarrow>
          (let span_key = assessmentSpanKey (en_evidence r) (en_start r) (en_end r);
               logical = (case target of None \<Rightarrow> [] | Some t \<Rightarrow> semanticAssessmentEntityResultLogicalKey r t);
               repeated = (span_key \<in> set (es_spans st));
               span_errs = err_if (repeated \<and> map_of (es_logical st) span_key \<noteq> Some logical) field
                             ''duplicates an entity evidence span'';
               st = st\<lparr>es_logical := (if \<not> repeated \<and> target \<noteq> None then AList.update span_key logical (es_logical st)
                                       else es_logical st),
                       es_spans := span_key # es_spans st\<rparr>;
               quote = semanticExactSpanQuote (ev_content e) (en_start r) (en_end r) (en_surface r);
               r' = (case quote of Inl _ \<Rightarrow> r | Inr q \<Rightarrow> r\<lparr>en_surface := q\<rparr>) in
           (st, r', ref_errs @ span_errs @ quote_errors quote (field @ ''.surface'')
              @ err_if (\<not> semanticOneOf (en_kind r) EntityKinds) (field @ ''.kind'') ''is unsupported''
              @ action_errors (map_of (assessmentCandidateGroupsBySpan (aq_groups req)) span_key) target field r)))"

definition validateSemanticAssessmentEntityResults ::
  "assessment_request \<Rightarrow> entity_result list \<Rightarrow> relationship_result list \<Rightarrow> (string \<times> review_evidence) list
   \<Rightarrow> entity_result list \<times> semantic_error list" where
  "validateSemanticAssessmentEntityResults req results rels byID =
     snd (each_rewrite (check_entity req rels byID) \<lparr>es_refs = [], es_spans = [], es_logical = []\<rparr> 0 results)"

section \<open>Relationships\<close>

text \<open>The kind of the object, or what is wrong with it.\<close>

definition assessmentRelationshipObjectKind :: "relationship_split \<Rightarrow> (string \<times> entity_result) list \<Rightarrow> string + string" where
  "assessmentRelationshipObjectKind s entities =
     (let hasRef = (case rs_object_ref s of None \<Rightarrow> False | Some o' \<Rightarrow> o' \<noteq> []) in
      case rs_value s of
        None \<Rightarrow>
          if \<not> hasRef then Inl ''requires exactly one object_ref or object_value''
          else (case map_of entities (the (rs_object_ref s)) of
                  None \<Rightarrow> Inl ''object_ref is unknown'' | Some e \<Rightarrow> Inr (en_kind e))
      | Some v \<Rightarrow>
          if hasRef then Inl ''requires exactly one object_ref or object_value''
          else if \<not> semanticOneOf (av_type v) ValueTypes then Inl ''object_value.value_type is unsupported''
          else if \<not> assessmentBoundedRequiredString (av_canonical v) 4096
          then Inl ''object_value.canonical_value is required and must be bounded''
          else if (case av_display v of None \<Rightarrow> False | Some d \<Rightarrow> 4096 < rune_count d) then Inl ''object_value.display must be bounded''
          else if (case av_unit v of None \<Rightarrow> False | Some u \<Rightarrow> 128 < rune_count u) then Inl ''object_value.unit must be bounded''
          else Inr (av_type v))"

definition validateSemanticAssessmentPredicateResult ::
  "string \<Rightarrow> relationship_split \<Rightarrow> (string \<times> predicate_option) list \<Rightarrow> entity_result option \<Rightarrow> string + string \<Rightarrow> semantic_error list" where
  "validateSemanticAssessmentPredicateResult field s predicates subject object =
     (if rs_status s = ''resolved'' then
        (case (rs_key s, rs_version s) of
           (Some key, Some version) \<Rightarrow>
             if key = [] \<or> version < 1
             then [semanticCodedErr (field @ ''.predicate_key'')
                    ''predicate_key and predicate_version are required for resolved'' ''predicate_resolution_required'']
             else if rs_registration s \<noteq> None
             then [semanticCodedErr (field @ ''.predicate_registration'') ''must be null for resolved'' ''predicate_registration_must_be_null'']
             else (case map_of predicates (assessmentPredicateKey key version) of
                     None \<Rightarrow> [semanticCodedErr (field @ ''.predicate_key'') ''is outside predicate allowlist'' ''predicate_outside_allowlist'']
                   | Some p \<Rightarrow>
                       coded_if (case subject of None \<Rightarrow> False | Some e \<Rightarrow> \<not> semanticKindAllowed (en_kind e) (po_subjects p))
                         (field @ ''.predicate_key'')
                         ''does not accept the subject kind; registration under the same key cannot change this constraint''
                         ''predicate_subject_kind_mismatch''
                       @ coded_if (case object of Inl _ \<Rightarrow> False | Inr kind \<Rightarrow> \<not> semanticKindAllowed kind (po_objects p))
                         (field @ ''.predicate_key'')
                         ''does not accept the object kind; registration under the same key cannot change this constraint''
                         ''predicate_object_kind_mismatch'')
         | _ \<Rightarrow> [semanticCodedErr (field @ ''.predicate_key'')
                  ''predicate_key and predicate_version are required for resolved'' ''predicate_resolution_required''])
      else if rs_status s = ''registration_required'' then
        (if rs_key s \<noteq> None \<or> rs_version s \<noteq> None
         then [semanticCodedErr (field @ ''.predicate_key'')
                ''predicate_key and predicate_version must be null for registration_required'' ''predicate_resolution_must_be_null'']
         else case rs_registration s of
           None \<Rightarrow> [semanticCodedErr (field @ ''.predicate_registration'') ''is required for registration_required''
                     ''predicate_registration_required'']
         | Some g \<Rightarrow>
             coded_if (\<not> assessmentBoundedRequiredString (pr_key g) 128) (field @ ''.predicate_registration.predicate_key'')
               ''is required and must be bounded'' ''predicate_key_invalid''
             @ coded_if (\<not> semanticOneOf (pr_kind g) RelationshipKinds) (field @ ''.predicate_registration.relationship_kind'')
               ''is unsupported'' ''predicate_relationship_kind_invalid''
             @ coded_if (\<not> semanticOneOf (pr_cardinality g) CurrentCardinalities)
               (field @ ''.predicate_registration.current_cardinality'') ''is unsupported'' ''predicate_cardinality_invalid'')
      else [semanticCodedErr (field @ ''.predicate_status'') ''is unsupported'' ''predicate_status_invalid''])"

definition check_span ::
  "(string \<times> review_evidence) list \<Rightarrow> string \<Rightarrow> string list \<Rightarrow> nat \<Rightarrow> evidence_span \<Rightarrow> string list \<times> semantic_error list" where
  "check_span byID field seen k s =
     (case map_of byID (sp_id s) of
        None \<Rightarrow> (seen, [semanticErr (at_index field k @ ''.evidence_id'') ''is unknown''])
      | Some e \<Rightarrow>
          (let key = assessmentSpanKey (sp_id s) (sp_start s) (sp_end s) in
           (key # seen,
            quote_errors (semanticExactSpanQuote (ev_content e) (sp_start s) (sp_end s) []) (at_index field k)
            @ err_if (key \<in> set seen) (at_index field k) ''is duplicated'')))"

definition validateSemanticAssessmentEvidence ::
  "nat \<Rightarrow> nat \<Rightarrow> evidence_span list \<Rightarrow> (string \<times> review_evidence) list \<Rightarrow> semantic_error list" where
  "validateSemanticAssessmentEvidence i j spans byID =
     (let field = split_path i j @ ''.evidence'' in
      if spans = [] \<or> SemanticAssessmentMaxEvidenceSpans < length spans
      then [semanticErr field (''must contain between 1 and '' @ decimal SemanticAssessmentMaxEvidenceSpans @ '' spans'')]
      else snd (each (check_span byID field) [] 0 spans))"

definition validateSemanticAssessmentValidity :: "assess_env \<Rightarrow> nat \<Rightarrow> nat \<Rightarrow> relationship_split \<Rightarrow> semantic_error list" where
  "validateSemanticAssessmentValidity E i j s =
     (let field = split_path i j; from = assessmentParsedTime E (rs_from s); to = assessmentParsedTime E (rs_to s) in
      err_if (from = None) (field @ ''.valid_from'') ''must be an RFC3339 timestamp or null''
      @ err_if (to = None) (field @ ''.valid_to'') ''must be an RFC3339 timestamp or null''
      @ (case (from, to) of
           (Some (Some a), Some (Some b)) \<Rightarrow> err_if (b < a) (field @ ''.valid_to'') ''must not be before valid_from''
         | _ \<Rightarrow> []))"

definition semanticAssessmentEntityResultGrounded :: "entity_result \<Rightarrow> bool" where
  "semanticAssessmentEntityResultGrounded r \<longleftrightarrow>
     en_action r \<noteq> ambiguous_action \<and> (case en_grounding r of None \<Rightarrow> False | Some g \<Rightarrow> trim_space g \<noteq> [])"

definition check_split ::
  "assess_env \<Rightarrow> assessment_request \<Rightarrow> (string \<times> entity_result) list \<Rightarrow> (string \<times> review_evidence) list
   \<Rightarrow> nat \<Rightarrow> nat \<Rightarrow> relationship_split \<Rightarrow> semantic_error list" where
  "check_split E req entities byID i j s =
     (let path = split_path i j;
          subject = map_of entities (rs_subject s);
          object = assessmentRelationshipObjectKind s entities in
      err_if (rs_index s \<noteq> int j) (path @ ''.split_index'') (''must equal '' @ decimal j)
      @ (case subject of None \<Rightarrow> [semanticErr (path @ ''.subject_ref'') ''is unknown'']
         | Some e \<Rightarrow> err_if (\<not> semanticAssessmentEntityResultGrounded e) (path @ ''.subject_ref'')
                     ''references an ungrounded Entity and must be repaired or marked not_supported'')
      @ (if trim_space (rs_original s) = []
         then [semanticCodedErr (path @ ''.predicate_range'')
                ''must select a non-blank predicate phrase; copy the markers around the phrase, not whitespace'' ''predicate_phrase_blank'']
         else coded_if (\<not> assessmentBoundedRequiredString (rs_original s) MaxOriginalPredicateRunes) (path @ ''.predicate_range'')
                (''must select a predicate phrase of at most '' @ decimal MaxOriginalPredicateRunes
                 @ '' Unicode characters, not the entire supporting passage'') ''predicate_phrase_too_long'')
      @ (case object of Inl m \<Rightarrow> [semanticErr (path @ ''.object'') m] | Inr _ \<Rightarrow> [])
      @ (case rs_object_ref s of None \<Rightarrow> []
         | Some o' \<Rightarrow> (case map_of entities o' of None \<Rightarrow> []
                      | Some e \<Rightarrow> err_if (\<not> semanticAssessmentEntityResultGrounded e) (path @ ''.object_ref'')
                                  ''references an ungrounded Entity and must be repaired or marked not_supported''))
      @ err_if (\<not> semanticOneOf (rs_polarity s) [''+'', ''-'']) (path @ ''.polarity'') ''is unsupported''
      @ validateSemanticAssessmentPredicateResult path s (assessmentPredicateOptionsByKeyVersion (aq_options req)) subject object
      @ validateSemanticAssessmentEvidence i j (rs_evidence s) byID
      @ validateSemanticAssessmentValidity E i j s)"

definition disposition_errors :: "string \<Rightarrow> relationship_result \<Rightarrow> semantic_error list" where
  "disposition_errors field r =
     (if rr_disposition r = ''stored'' then
        err_if (rr_reason r \<noteq> None) (field @ ''.reason'') ''must be null for stored''
        @ err_if (rr_splits r = [] \<or> SemanticAssessmentMaxRelationshipSplits < length (rr_splits r)) (field @ ''.splits'')
            (''must contain between 1 and '' @ decimal SemanticAssessmentMaxRelationshipSplits @ '' entries for stored'')
      else if rr_disposition r = ''not_supported'' then
        err_if (rr_reason r \<noteq> Some ''not_supported_by_evidence'') (field @ ''.reason'')
            ''must be not_supported_by_evidence for not_supported''
        @ err_if (rr_splits r \<noteq> []) (field @ ''.splits'') ''must be empty for not_supported''
      else [semanticErr (field @ ''.disposition'') ''is unsupported''])"

definition check_relationship ::
  "assess_env \<Rightarrow> assessment_request \<Rightarrow> (string \<times> entity_result) list \<Rightarrow> (string \<times> review_evidence) list
   \<Rightarrow> string list \<Rightarrow> nat \<Rightarrow> relationship_result \<Rightarrow> string list \<times> semantic_error list" where
  "check_relationship E req entities byID seen i r =
     (let field = at_index ''relationship_results'' i in
      (rr_ref r # seen,
       err_if (rr_ref r = [] \<or> 128 < rune_count (rr_ref r)) (field @ ''.ref'') ''is required and must be at most 128 characters''
       @ err_if (rr_ref r \<in> set seen) (field @ ''.ref'') ''is duplicated''
       @ disposition_errors field r
       @ indexed (check_split E req entities byID i) (rr_splits r)))"

definition validateSemanticAssessmentRelationshipResults ::
  "assess_env \<Rightarrow> assessment_request \<Rightarrow> entity_result list \<Rightarrow> relationship_result list \<Rightarrow> (string \<times> review_evidence) list
   \<Rightarrow> semantic_error list" where
  "validateSemanticAssessmentRelationshipResults E req entities results byID =
     snd (each (check_relationship E req (index_by en_ref entities) byID) [] 0 results)"

section \<open>Trusted proposals\<close>

text \<open>Whether a split cites one of the expected spans or evidence ids, and the first such id.\<close>

definition cited_id :: "required_relationship \<Rightarrow> relationship_split \<Rightarrow> string option" where
  "cited_id t s = List.find (\<lambda>i. i \<in> gr_id ` set (rs_supports s)) (rl_evidence_ids t @ rl_known_ids t)"

definition trusted_split_errors :: "required_relationship \<Rightarrow> nat \<Rightarrow> relationship_split \<Rightarrow> semantic_error list" where
  "trusted_split_errors t j s =
     (let by_span = (rl_evidence_ids t = [] \<and> list_ex (\<lambda>x. x \<in> set (rs_evidence s)) (rl_evidence t));
          by_id = cited_id t s;
          matches = (by_span \<or> by_id \<noteq> None);
          submitted = (by_span \<or> (case by_id of None \<Rightarrow> False | Some i \<Rightarrow> i \<in> set (rl_evidence_ids t)));
          field = at_index ''relationship_results.splits'' j in
      if \<not> matches then [semanticErr field ''does not use trusted proposal evidence'']
      else err_if (\<not> submitted) field ''must retain a submitted support span'')"

definition ValidateSemanticAssessmentRequiredRelationshipRefs ::
  "required_relationship list \<Rightarrow> relationship_result list \<Rightarrow> semantic_error list" where
  "ValidateSemanticAssessmentRequiredRelationshipRefs required results =
     (let byRef = index_by rr_ref results in
      concat (map (\<lambda>t. case map_of byRef (rl_id t) of
          None \<Rightarrow> [semanticErr ''relationship_results'' ''missing result for trusted proposal'']
        | Some r \<Rightarrow>
            if rr_disposition r = ''not_supported'' then []
            else if rl_unavailable t
            then [semanticErr ''relationship_results'' ''must be not_supported when requested known evidence is unavailable'']
            else indexed (trusted_split_errors t) (rr_splits r)) required))"

section \<open>The submission contract\<close>

definition semanticAssessmentRelationshipEvidenceAllowlistMessage :: "required_relationship \<Rightarrow> string" where
  "semanticAssessmentRelationshipEvidenceAllowlistMessage t =
     (if rl_known_ids t = [] then ''is outside the submitted evidence allowlist''
      else ''is outside the submitted or authorized known evidence allowlist'')"

definition semanticAssessmentRangeCovered :: "grounded_range \<Rightarrow> grounded_range list \<Rightarrow> bool" where
  "semanticAssessmentRangeCovered v supports \<longleftrightarrow>
     list_ex (\<lambda>s. gr_id v = gr_id s \<and> gr_start s \<le> gr_start v \<and> gr_end v \<le> gr_end s) supports"

text \<open>Pointers to values and to strings are compared by what they point to.\<close>

definition semanticAssessmentSubmittedObjectMatches :: "required_relationship \<Rightarrow> relationship_split \<Rightarrow> bool" where
  "semanticAssessmentSubmittedObjectMatches t s \<longleftrightarrow>
     (if rl_object_ref t \<noteq> None then rs_value s = None \<and> rs_object_ref s = rl_object_ref t
      else rs_object_ref s = None \<and> rs_value s = rl_value t)"

definition check_support :: "required_relationship \<Rightarrow> string \<Rightarrow> string list \<Rightarrow> nat \<Rightarrow> grounded_range \<Rightarrow> string list \<times> semantic_error list" where
  "check_support t path seen k s =
     (let key = assessmentSpanKey (gr_id s) (gr_start s) (gr_end s); f = at_index (path @ ''.support_ranges'') k in
      (key # seen,
       err_if (gr_id s \<notin> set (rl_evidence_ids t @ rl_known_ids t)) (f @ ''.evidence_id'')
         (semanticAssessmentRelationshipEvidenceAllowlistMessage t)
       @ err_if (key \<in> set seen) f ''is duplicated''))"

definition not_covered_message :: string where
  "not_covered_message = ''must be fully contained in one support_range with the same evidence_id; ''
     @ ''its start must be at or after the support start and its end at or before the support end''"

definition contract_split_errors :: "required_relationship \<Rightarrow> nat \<Rightarrow> nat \<Rightarrow> relationship_split \<Rightarrow> semantic_error list" where
  "contract_split_errors t i j s =
     (let path = split_path i j;
          allowed = set (rl_evidence_ids t @ rl_known_ids t);
          message = semanticAssessmentRelationshipEvidenceAllowlistMessage t in
      (if rl_known_key t = [] then []
       else err_if (rs_status s \<noteq> ''resolved'') (path @ ''.predicate_status'') ''must resolve the exact known_predicate_key''
            @ err_if (case rs_key s of None \<Rightarrow> True | Some k \<Rightarrow> trim_space k \<noteq> rl_known_key t) (path @ ''.predicate_key'')
                ''must equal the exact known_predicate_key'')
      @ err_if (rs_subject s \<noteq> rl_subject t \<or> rs_polarity s \<noteq> rl_polarity t) path
          ''does not preserve its submitted relationship target''
      @ err_if (rs_from s \<noteq> rl_from t \<or> rs_to s \<noteq> rl_to t) (path @ ''.validity'')
          ''does not preserve the submitted temporal bounds''
      @ err_if (\<not> semanticAssessmentSubmittedObjectMatches t s) (path @ ''.object'') ''does not preserve its submitted object''
      @ err_if (gr_id (rs_range s) \<notin> allowed) (path @ ''.predicate_range.evidence_id'') message
      @ err_if (case rs_value_range s of None \<Rightarrow> False | Some v \<Rightarrow> gr_id v \<notin> allowed) (path @ ''.value_range.evidence_id'') message
      @ err_if ((rl_value t = None) \<noteq> (rs_value_range s = None)) (path @ ''.value_range'')
          ''must be present exactly for a Value object''
      @ snd (each (check_support t path) [] 0 (rs_supports s))
      @ err_if (\<not> list_ex (\<lambda>r. gr_id r \<in> set (rl_evidence_ids t)) (rs_supports s)) (path @ ''.support_ranges'')
          ''must contain at least one submitted support range''
      @ coded_if (\<not> semanticAssessmentRangeCovered (rs_range s) (rs_supports s)) (path @ ''.predicate_range'')
          not_covered_message ''range_not_covered''
      @ coded_if (case rs_value_range s of None \<Rightarrow> False | Some v \<Rightarrow> \<not> semanticAssessmentRangeCovered v (rs_supports s))
          (path @ ''.value_range'') not_covered_message ''range_not_covered'')"

definition check_contract_entity ::
  "submission_contract \<Rightarrow> relationship_result list \<Rightarrow> string list \<Rightarrow> nat \<Rightarrow> entity_result \<Rightarrow> string list \<times> semantic_error list" where
  "check_contract_entity c rels seen i r =
     (let field = at_index ''entity_results'' i in
      case map_of (index_by re_ref (ct_entities c)) (en_ref r) of
        None \<Rightarrow> (seen, [semanticErr (field @ ''.ref'') ''is outside the submitted entity contract''])
      | Some t \<Rightarrow>
          (en_ref r # seen,
           (if re_known t = [] then []
            else err_if (en_action r \<noteq> reuse_action) (field @ ''.action'') ''must reuse the exact known_entity_id''
                 @ err_if (case en_candidate r of None \<Rightarrow> True | Some v \<Rightarrow> trim_space v \<noteq> re_known t)
                     (field @ ''.candidate_entity_id'') ''must equal the exact known_entity_id'')
           @ (case en_grounding r of
                None \<Rightarrow> ungrounded_errors (Some c) rels field r
              | Some g \<Rightarrow> err_if (entityGroundingByRef (re_groundings t) g = None) (field @ ''.grounding_ref'')
                            ''is outside the submitted entity contract'')))"

definition check_contract_relationship ::
  "submission_contract \<Rightarrow> string list \<Rightarrow> nat \<Rightarrow> relationship_result \<Rightarrow> string list \<times> semantic_error list" where
  "check_contract_relationship c seen i r =
     (let field = at_index ''relationship_results'' i in
      case map_of (index_by rl_id (ct_relationships c)) (rr_ref r) of
        None \<Rightarrow> (seen, [semanticErr (field @ ''.ref'') ''is outside the submitted relationship contract''])
      | Some t \<Rightarrow>
          (rr_ref r # seen,
           if rr_disposition r = ''not_supported'' then []
           else if rl_unavailable t
           then [semanticErr (field @ ''.disposition'') ''must be not_supported when requested known evidence is unavailable'']
           else err_if (0 < rl_max_splits t \<and> rl_max_splits t < int (length (rr_splits r))) (field @ ''.splits'')
                  (''must contain at most '' @ go_decimal (rl_max_splits t) @ '' entries for this relationship'')
                @ indexed (contract_split_errors t i) (rr_splits r)))"

definition validateSemanticAssessmentSubmissionResponse ::
  "submission_contract option \<Rightarrow> assessment_response \<Rightarrow> semantic_error list" where
  "validateSemanticAssessmentSubmissionResponse contract p =
     (case contract of None \<Rightarrow> []
      | Some c \<Rightarrow>
          (let rels = slice_of (rp_relationships p);
               (entities, entity_errs) = each (check_contract_entity c rels) [] 0 (slice_of (rp_entities p));
               (seen, rel_errs) = each (check_contract_relationship c) [] 0 rels in
           entity_errs
           @ concat (map (\<lambda>(ref, _). err_if (ref \<notin> set entities) ''entity_results'' ''is missing a submitted entity target'')
               (index_by re_ref (ct_entities c)))
           @ rel_errs
           @ concat (map (\<lambda>(ref, _). err_if (ref \<notin> set seen) ''relationship_results'' ''is missing a submitted relationship target'')
               (index_by rl_id (ct_relationships c)))))"

end
