(* ===== verification/Assessor_Request.thy ===== *)
theory Assessor_Request
  imports Assessor_Validation
begin

text \<open>
  The request side of the contract, \<open>PrepareSemanticAssessmentRequest\<close> of internal/assessor/assessor.go with the
  normalizers of assessor_submission_contract.go and equivalence_validation.go: evidence gets boundary references,
  every allowlist is trimmed, bounded and checked, and only a request without errors goes on to the allocation
  of its context (Assessor_Budget). Copying a slice before changing it is the identity here.
\<close>

section \<open>Evidence\<close>

fun prepare_all :: "assess_env \<Rightarrow> review_evidence list \<Rightarrow> review_evidence list option" where
  "prepare_all E [] = Some []"
| "prepare_all E (e # es) =
     (case (PrepareSemanticAssessmentEvidence E e, prepare_all E es) of (Some e', Some es') \<Rightarrow> Some (e' # es') | _ \<Rightarrow> None)"

definition blank_evidence :: "string \<Rightarrow> string \<Rightarrow> review_evidence" where
  "blank_evidence ident content =
     \<lparr>ev_id = ident, ev_fragment = [], ev_index = 0, ev_content = content, ev_boundary_text = [], ev_refs = [], ev_prefix = [],
      ev_authority = [], ev_source = [], ev_revision = [], ev_current_revision = []\<rparr>"

fun prepare_candidates :: "assess_env \<Rightarrow> equivalence_candidate list \<Rightarrow> equivalence_candidate list option" where
  "prepare_candidates E [] = Some []"
| "prepare_candidates E (c # cs) =
     (let c = c\<lparr>qc_id := trim_space (qc_id c)\<rparr> in
      case (PrepareSemanticAssessmentEvidence E (blank_evidence (qc_id c) (qc_content c)), prepare_candidates E cs) of
        (Some e, Some cs') \<Rightarrow>
          Some (c\<lparr>qc_boundary_text := ev_boundary_text e, qc_refs := ev_refs e, qc_prefix := ev_prefix e\<rparr> # cs')
      | _ \<Rightarrow> None)"

fun prepare_groups :: "assess_env \<Rightarrow> equivalence_group list \<Rightarrow> equivalence_group list option" where
  "prepare_groups E [] = Some []"
| "prepare_groups E (g # gs) =
     (case (prepare_candidates E (qg_candidates g), prepare_groups E gs) of
        (Some cs, Some gs') \<Rightarrow> Some (\<lparr>qg_id = trim_space (qg_id g), qg_candidates = cs\<rparr> # gs')
      | _ \<Rightarrow> None)"

section \<open>Basics\<close>

definition trim_evidence :: "review_evidence \<Rightarrow> review_evidence" where
  "trim_evidence e = e\<lparr>ev_id := trim_space (ev_id e), ev_fragment := trim_space (ev_fragment e),
     ev_revision := trim_space (ev_revision e), ev_current_revision := trim_space (ev_current_revision e)\<rparr>"

definition check_evidence :: "string list \<Rightarrow> nat \<Rightarrow> review_evidence \<Rightarrow> string list \<times> review_evidence \<times> semantic_error list" where
  "check_evidence seen i e =
     (let e = trim_evidence e; f = at_index ''evidence'' i in
      (ev_id e # seen, e,
       err_if (ev_id e = [] \<or> 128 < rune_count (ev_id e)) (f @ ''.evidence_id'') ''is required and must be at most 128 characters''
       @ err_if (ev_id e \<in> set seen) (f @ ''.evidence_id'') ''is duplicated''
       @ err_if (trim_space (ev_content e) = []) (f @ ''.content'') ''is required''
       @ err_if (ev_current_revision e \<noteq> [] \<and> ev_revision e \<noteq> [] \<and> ev_current_revision e \<noteq> ev_revision e)
           (f @ ''.source_revision_id'') ''is not current''))"

definition check_known :: "string list \<Rightarrow> string list \<Rightarrow> nat \<Rightarrow> review_evidence \<Rightarrow> string list \<times> review_evidence \<times> semantic_error list" where
  "check_known submitted seen i e =
     (let e = e\<lparr>ev_id := trim_space (ev_id e)\<rparr>; f = at_index ''known_evidence'' i in
      (ev_id e # seen, e,
       err_if (ev_id e = [] \<or> 128 < rune_count (ev_id e)) (f @ ''.evidence_id'') ''is required and must be at most 128 characters''
       @ err_if (ev_id e \<in> set seen) (f @ ''.evidence_id'') ''is duplicated''
       @ err_if (ev_id e \<in> set submitted) (f @ ''.evidence_id'') ''duplicates submitted evidence''
       @ err_if (trim_space (ev_content e) = []) (f @ ''.content'') ''is required''))"

definition validateSemanticAssessmentRequestBasics ::
  "assessment_request \<Rightarrow> assessment_limits \<Rightarrow> assessment_request \<times> semantic_error list" where
  "validateSemanticAssessmentRequestBasics req l =
     (let (seen, evidence, evidence_errs) = each_rewrite check_evidence [] 0 (aq_evidence req);
          (_, known, known_errs) = each_rewrite (check_known seen) [] 0 (aq_known req) in
      (req\<lparr>aq_evidence := evidence, aq_known := known\<rparr>,
       err_if (aq_request req = [] \<or> 128 < rune_count (aq_request req)) ''request_id''
         ''is required and must be at most 128 characters''
       @ err_if (aq_team req = []) ''team_id'' ''is required''
       @ (if aq_evidence req = [] then [semanticErr ''evidence'' ''is required'']
          else err_if (al_evidence l < int (length (aq_evidence req))) ''evidence''
                 (''must contain at most '' @ go_decimal (al_evidence l) @ '' entries''))
       @ err_if (SemanticAssessmentMaxKnownEvidence < length (aq_known req)) ''known_evidence''
           (''must contain at most '' @ decimal SemanticAssessmentMaxKnownEvidence @ '' entries'')
       @ evidence_errs @ known_errs))"

section \<open>Trusted proposals\<close>

definition check_required_span ::
  "(string \<times> review_evidence) list \<Rightarrow> string \<Rightarrow> string list \<Rightarrow> nat \<Rightarrow> evidence_span
   \<Rightarrow> string list \<times> evidence_span \<times> semantic_error list" where
  "check_required_span byID field seen j s =
     (let s = s\<lparr>sp_id := trim_space (sp_id s)\<rparr>; f = at_index (field @ ''.evidence'') j in
      case map_of byID (sp_id s) of
        None \<Rightarrow> (seen, s, [semanticErr (f @ ''.evidence_id'') ''is unknown''])
      | Some e \<Rightarrow>
          (let key = assessmentSpanKey (sp_id s) (sp_start s) (sp_end s) in
           (key # seen, s,
            (case semanticExactSpanQuote (ev_content e) (sp_start s) (sp_end s) [] of
               Inl _ \<Rightarrow> [semanticErr f ''span is invalid''] | Inr _ \<Rightarrow> [])
            @ err_if (key \<in> set seen) f ''is duplicated'')))"

definition spans_bound :: string where
  "spans_bound = decimal SemanticAssessmentMaxEvidenceSpans @ '' entries''"

definition check_required ::
  "(string \<times> review_evidence) list \<Rightarrow> (string \<times> review_evidence) list \<Rightarrow> string list \<Rightarrow> nat \<Rightarrow> required_relationship
   \<Rightarrow> string list \<times> required_relationship \<times> semantic_error list" where
  "check_required byID knownByID seen i r =
     (let r = r\<lparr>rl_id := trim_space (rl_id r), rl_evidence_ids := normalizedUniqueStrings (rl_evidence_ids r),
                rl_known_ids := normalizedUniqueStrings (rl_known_ids r)\<rparr>;
          f = at_index ''required_relationship_refs'' i;
          id_errs = err_if (rl_id r = [] \<or> 128 < rune_count (rl_id r)) (f @ ''.proposal_id'')
                      ''is required and must be at most 128 characters''
                    @ err_if (rl_id r \<in> set seen) (f @ ''.proposal_id'') ''is duplicated'' in
      if rl_evidence_ids r = [] \<and> rl_evidence r \<noteq> []
      then if SemanticAssessmentMaxEvidenceSpans < length (rl_evidence r)
           then (rl_id r # seen, r, id_errs @ [semanticErr (f @ ''.evidence'') (''must contain at most '' @ spans_bound)])
           else (let (_, spans, errs) = each_rewrite (check_required_span byID f) [] 0 (rl_evidence r) in
                 (rl_id r # seen, r\<lparr>rl_evidence := spans\<rparr>, id_errs @ errs))
      else if rl_evidence_ids r = [] \<or> SemanticAssessmentMaxEvidenceSpans < length (rl_evidence_ids r)
      then (rl_id r # seen, r, id_errs @ [semanticErr (f @ ''.evidence_ids'') (''must contain between 1 and '' @ spans_bound)])
      else (rl_id r # seen, r,
            id_errs
            @ indexed (\<lambda>j v. err_if (map_of byID v = None) (at_index (f @ ''.evidence_ids'') j) ''is unknown'') (rl_evidence_ids r)
            @ err_if (SemanticAssessmentMaxEvidenceSpans < length (rl_known_ids r)) (f @ ''.known_evidence_ids'')
                (''must contain at most '' @ spans_bound)
            @ indexed (\<lambda>j v. err_if (map_of knownByID v = None) (at_index (f @ ''.known_evidence_ids'') j) ''is unknown'')
                (rl_known_ids r)))"

definition normalizeAssessmentRequiredRelationshipRefs ::
  "assessment_request \<Rightarrow> (string \<times> review_evidence) list \<Rightarrow> (string \<times> review_evidence) list
   \<Rightarrow> assessment_request \<times> semantic_error list" where
  "normalizeAssessmentRequiredRelationshipRefs req byID knownByID =
     (let (_, rs, errs) = each_rewrite (check_required byID knownByID) [] 0 (aq_required req) in
      (req\<lparr>aq_required := rs\<rparr>, errs))"

section \<open>The submission contract\<close>

definition pronouns :: "string list" where
  "pronouns = [''i'', ''me'', ''my'', ''mine'', ''myself'', ''you'', ''your'', ''yours'', ''yourself'', ''yourselves'',
     ''he'', ''him'', ''his'', ''himself'', ''she'', ''her'', ''hers'', ''herself'', ''it'', ''its'', ''itself'',
     ''we'', ''us'', ''our'', ''ours'', ''ourselves'', ''they'', ''them'', ''their'', ''theirs'', ''themselves'',
     ''this'', ''that'', ''these'', ''those'']"

definition submissionAssessmentAnchorSurfaceAllowed :: "string \<Rightarrow> bool" where
  "submissionAssessmentAnchorSurfaceAllowed v \<longleftrightarrow>
     (if go_join '' '' (go_fields (to_lower (trim_space v))) \<in> set pronouns then False else trim_space v \<noteq> [])"

definition check_anchor_candidate :: "string \<Rightarrow> string list \<Rightarrow> nat \<Rightarrow> string \<Rightarrow> string list \<times> string \<times> semantic_error list" where
  "check_anchor_candidate field seen k c =
     (let c = trim_space c; f = at_index (field @ ''.candidate_entity_ids'') k in
      (c # seen, c,
       err_if (\<not> assessmentBoundedRequiredString c 128) f ''is required and must be bounded''
       @ err_if (c \<in> set seen) f ''is duplicated''))"

definition boundary_range :: "review_evidence \<Rightarrow> string \<Rightarrow> string \<Rightarrow> (int \<times> int) option" where
  "boundary_range e a b =
     (case (semanticAssessmentBoundaryOffset e a, semanticAssessmentBoundaryOffset e b) of
        (Some s, Some t) \<Rightarrow> if s < 0 \<or> t \<le> s then None else Some (s, t)
      | _ \<Rightarrow> None)"

definition trim_anchor :: "entity_anchor \<Rightarrow> entity_anchor" where
  "trim_anchor a = a\<lparr>ea_ref := trim_space (ea_ref a), ea_evidence := trim_space (ea_evidence a),
     ea_start_ref := trim_space (ea_start_ref a), ea_end_ref := trim_space (ea_end_ref a)\<rparr>"

definition check_anchor ::
  "(string \<times> review_evidence) list \<Rightarrow> string list \<Rightarrow> string \<Rightarrow> string list \<Rightarrow> nat \<Rightarrow> entity_anchor
   \<Rightarrow> string list \<times> entity_anchor \<times> semantic_error list" where
  "check_anchor allByID allowed field seen j a =
     (let f = at_index (field @ ''.anchors'') j;
          a = trim_anchor a;
          (_, cands, cand_errs) = each_rewrite (check_anchor_candidate f) [] 0 (ea_candidates a);
          count_errs = err_if (ea_candidates a = [] \<or> SemanticAssessmentMaxEntityCandidatesPerSurface < length (ea_candidates a))
            (f @ ''.candidate_entity_ids'') ''must contain between 1 and the configured candidate bound'';
          errs = err_if (\<not> assessmentBoundedRequiredString (ea_ref a) 128) (f @ ''.anchor_ref'') ''is required and must be bounded''
            @ err_if (ea_ref a \<in> set seen) (f @ ''.anchor_ref'') ''is duplicated''
            @ err_if (\<not> submissionAssessmentAnchorSurfaceAllowed (ea_surface a)) (f @ ''.surface'')
                ''must be a canonical or alias Entity mention''
            @ count_errs @ cand_errs;
          a = a\<lparr>ea_candidates := cands\<rparr>; seen = ea_ref a # seen in
      if ea_evidence a \<notin> set allowed
      then (seen, a, errs @ [semanticErr (f @ ''.evidence_id'') ''is outside the entity evidence allowlist''])
      else case map_of allByID (ea_evidence a) of
        None \<Rightarrow> (seen, a, errs @ [semanticErr (f @ ''.evidence_id'') ''is unknown''])
      | Some e \<Rightarrow>
          (case boundary_range e (ea_start_ref a) (ea_end_ref a) of
             None \<Rightarrow> (seen, a, errs @ [semanticErr f ''contains invalid boundary references''])
           | Some (s, t) \<Rightarrow>
               (let a = a\<lparr>ea_start := s, ea_end := t\<rparr>; quote = semanticExactSpanQuote (ev_content e) s t (ea_surface a) in
                (seen, case quote of Inl _ \<Rightarrow> a | Inr q \<Rightarrow> a\<lparr>ea_surface := q\<rparr>, errs @ quote_errors quote (f @ ''.surface'')))))"

definition trim_grounding :: "entity_grounding \<Rightarrow> entity_grounding" where
  "trim_grounding g = g\<lparr>eg_ref := trim_space (eg_ref g), eg_evidence := trim_space (eg_evidence g),
     eg_start_ref := trim_space (eg_start_ref g), eg_end_ref := trim_space (eg_end_ref g), eg_anchor := trim_space (eg_anchor g)\<rparr>"

definition check_grounding ::
  "(string \<times> review_evidence) list \<Rightarrow> string list \<Rightarrow> string list \<Rightarrow> string \<Rightarrow> string list \<Rightarrow> nat \<Rightarrow> entity_grounding
   \<Rightarrow> string list \<times> entity_grounding \<times> semantic_error list" where
  "check_grounding byID allowed anchors field seen j g =
     (let f = at_index (field @ ''.groundings'') j;
          g = trim_grounding g;
          errs = err_if (\<not> assessmentBoundedRequiredString (eg_ref g) 128) (f @ ''.grounding_ref'') ''is required and must be bounded''
            @ err_if (eg_ref g \<in> set seen) (f @ ''.grounding_ref'') ''is duplicated'';
          seen = eg_ref g # seen in
      case (if eg_evidence g \<in> set allowed then map_of byID (eg_evidence g) else None) of
        None \<Rightarrow> (seen, g, errs @ [semanticErr (f @ ''.evidence_id'') ''is outside the entity evidence allowlist''])
      | Some e \<Rightarrow>
          (case boundary_range e (eg_start_ref g) (eg_end_ref g) of
             None \<Rightarrow> (seen, g, errs @ [semanticErr f ''contains invalid boundary references''])
           | Some (s, t) \<Rightarrow>
               (case semanticExactSpanQuote (ev_content e) s t (eg_surface g) of
                  Inl m \<Rightarrow> (seen, g, errs @ [semanticErr (f @ ''.surface'') m])
                | Inr q \<Rightarrow>
                    (seen, g\<lparr>eg_surface := q, eg_start := s, eg_end := t\<rparr>,
                     errs @ err_if (eg_anchor g \<noteq> [] \<and> eg_anchor g \<notin> set anchors) (f @ ''.anchor_ref'')
                       ''is outside the submitted anchor allowlist''))))"

definition trim_entity :: "required_entity \<Rightarrow> required_entity" where
  "trim_entity t = t\<lparr>re_ref := trim_space (re_ref t), re_name := trim_space (re_name t), re_kind := trim_space (re_kind t),
     re_known := trim_space (re_known t), re_evidence_ids := normalizedUniqueStrings (re_evidence_ids t),
     re_known_ids := normalizedUniqueStrings (re_known_ids t)\<rparr>"

text \<open>The state of the loop over the entities: their references and all grounding references.\<close>

definition check_required_entity ::
  "(string \<times> review_evidence) list \<Rightarrow> (string \<times> review_evidence) list \<Rightarrow> (string \<times> review_evidence) list
   \<Rightarrow> string list \<times> string list \<Rightarrow> nat \<Rightarrow> required_entity
   \<Rightarrow> (string list \<times> string list) \<times> required_entity \<times> semantic_error list" where
  "check_required_entity byID knownByID allByID st i t =
     (let (refs, groundings) = st;
          f = at_index ''submission_contract.entities'' i;
          t = trim_entity t;
          allowed = re_evidence_ids t;
          (anchor_refs, anchors, anchor_errs) =
            each_rewrite (check_anchor allByID (allowed @ re_known_ids t) f) [] 0 (re_anchors t);
          errs = err_if (\<not> assessmentBoundedRequiredString (re_ref t) 128) (f @ ''.ref'') ''is required and must be bounded''
            @ err_if (re_ref t \<in> set refs) (f @ ''.ref'') ''is duplicated''
            @ err_if (\<not> assessmentBoundedRequiredString (re_name t) 256) (f @ ''.name'') ''is required and must be bounded''
            @ err_if (\<not> semanticOneOf (re_kind t) EntityKinds) (f @ ''.kind'') ''is unsupported''
            @ err_if (allowed = []) (f @ ''.evidence_ids'') ''must not be empty''
            @ concat (map (\<lambda>v. err_if (map_of byID v = None) (f @ ''.evidence_ids'') ''contains unknown evidence'') allowed)
            @ concat (map (\<lambda>v. err_if (map_of knownByID v = None) (f @ ''.known_evidence_ids'') ''contains unknown known evidence'')
                (re_known_ids t))
            @ err_if (SemanticAssessmentMaxEntityGroundings < length (re_anchors t)) (f @ ''.anchors'')
                (''must contain at most '' @ decimal SemanticAssessmentMaxEntityGroundings @ '' entries'')
            @ anchor_errs;
          t = t\<lparr>re_anchors := anchors\<rparr> in
      if SemanticAssessmentMaxEntityGroundings < length (re_groundings t)
      then ((refs, groundings), t, errs @ [semanticErr (f @ ''.groundings'')
             (''must contain at most '' @ decimal SemanticAssessmentMaxEntityGroundings @ '' entries'')])
      else
        (let (groundings', gs, g_errs) = each_rewrite (check_grounding byID allowed anchor_refs f) groundings 0 (re_groundings t) in
         ((re_ref t # refs, groundings'), t\<lparr>re_groundings := gs\<rparr>, errs @ g_errs)))"


text \<open>A submitted value has the kind of an object without entities.\<close>

definition normalizeSemanticAssessmentSubmissionValue :: "assessment_value \<Rightarrow> string \<Rightarrow> assessment_value \<times> semantic_error list" where
  "normalizeSemanticAssessmentSubmissionValue v field =
     (let v = trim_value v;
          s = \<lparr>rs_index = 0, rs_subject = [], rs_original = [],
               rs_range = \<lparr>gr_id = [], gr_start_ref = [], gr_end_ref = [], gr_start = 0, gr_end = 0\<rparr>,
               rs_status = [], rs_key = None, rs_version = None, rs_registration = None, rs_object_ref = None, rs_value = Some v,
               rs_value_range = None, rs_polarity = [], rs_supports = [], rs_evidence = [], rs_from = None, rs_to = None\<rparr> in
      (v, case assessmentRelationshipObjectKind s [] of Inl m \<Rightarrow> [semanticErr field m] | Inr _ \<Rightarrow> []))"

definition trim_relationship :: "assess_env \<Rightarrow> required_relationship \<Rightarrow> required_relationship" where
  "trim_relationship E t = t\<lparr>rl_id := trim_space (rl_id t), rl_hint := trim_space (rl_hint t),
     rl_known_key := trim_space (rl_known_key t), rl_subject := trim_space (rl_subject t), rl_polarity := trim_space (rl_polarity t),
     rl_from := normalizeOptionalAssessmentTime E (rl_from t), rl_to := normalizeOptionalAssessmentTime E (rl_to t),
     rl_evidence_ids := normalizedUniqueStrings (rl_evidence_ids t), rl_known_ids := normalizedUniqueStrings (rl_known_ids t),
     rl_object_ref := map_option trim_space (rl_object_ref t)\<rparr>"

definition check_required_relationship ::
  "assess_env \<Rightarrow> nat \<Rightarrow> (string \<times> review_evidence) list \<Rightarrow> (string \<times> review_evidence) list \<Rightarrow> string list
   \<Rightarrow> string list \<Rightarrow> nat \<Rightarrow> required_relationship \<Rightarrow> string list \<times> required_relationship \<times> semantic_error list" where
  "check_required_relationship E limit byID knownByID entityRefs seen i t =
     (let f = at_index ''submission_contract.relationships'' i;
          t = trim_relationship E t;
          (value, value_errs) = (case rl_value t of None \<Rightarrow> (None, [])
             | Some v \<Rightarrow> (let (v', es) = normalizeSemanticAssessmentSubmissionValue v (f @ ''.object_value'') in (Some v', es)));
          t = t\<lparr>rl_value := value\<rparr> in
      (rl_id t # seen, t,
       err_if (\<not> assessmentBoundedRequiredString (rl_id t) 128) (f @ ''.ref'') ''is required and must be bounded''
       @ err_if (rl_id t \<in> set seen) (f @ ''.ref'') ''is duplicated''
       @ err_if (\<not> assessmentBoundedRequiredString (rl_hint t) 128) (f @ ''.predicate_hint'') ''is required and must be bounded''
       @ err_if (rl_subject t \<notin> set entityRefs) (f @ ''.subject_ref'') ''must reference a submitted entity''
       @ err_if (case rl_object_ref t of None \<Rightarrow> False | Some o' \<Rightarrow> o' \<notin> set entityRefs) (f @ ''.object_ref'')
           ''must reference a submitted entity''
       @ err_if ((rl_object_ref t = None) = (rl_value t = None)) (f @ ''.object'') ''requires exactly one object_ref or object_value''
       @ value_errs
       @ err_if (\<not> semanticOneOf (rl_polarity t) [''+'', ''-'']) (f @ ''.polarity'') ''is unsupported''
       @ (case (assessmentParsedTime E (rl_from t), assessmentParsedTime E (rl_to t)) of
            (Some a, Some b) \<Rightarrow>
              err_if (case (a, b) of (Some x, Some y) \<Rightarrow> y < x | _ \<Rightarrow> False) (f @ ''.valid_to'') ''must not be before valid_from''
          | _ \<Rightarrow> [semanticErr (f @ ''.validity'') ''must contain RFC3339 timestamps or null''])
       @ err_if (rl_evidence_ids t = [] \<or> limit < length (rl_evidence_ids t)) (f @ ''.evidence_ids'') ''must be present and bounded''
       @ concat (map (\<lambda>v. err_if (map_of byID v = None) (f @ ''.evidence_ids'') ''contains unknown evidence'') (rl_evidence_ids t))
       @ err_if (SemanticAssessmentMaxEvidenceSpans < length (rl_known_ids t)) (f @ ''.known_evidence_ids'') ''must be bounded''
       @ concat (map (\<lambda>v. err_if (map_of knownByID v = None) (f @ ''.known_evidence_ids'') ''contains unknown known evidence'')
           (rl_known_ids t))))"

definition submitted_of :: "required_entity \<Rightarrow> submitted_entity" where
  "submitted_of t = \<lparr>su_ref = re_ref t, su_name = re_name t, su_kind = re_kind t, su_known = re_known t,
     su_groundings = re_groundings t, su_anchors = re_anchors t\<rparr>"

definition submitted_relationship_of :: "required_relationship \<Rightarrow> submitted_relationship" where
  "submitted_relationship_of t = \<lparr>sl_ref = rl_id t, sl_subject = rl_subject t, sl_hint = rl_hint t, sl_known_key = rl_known_key t,
     sl_object_ref = rl_object_ref t, sl_value = rl_value t, sl_polarity = rl_polarity t, sl_evidence_ids = rl_evidence_ids t,
     sl_known_ids = rl_known_ids t, sl_from = rl_from t, sl_to = rl_to t\<rparr>"

definition normalizeSemanticAssessmentSubmissionContract ::
  "assess_env \<Rightarrow> assessment_request \<Rightarrow> (string \<times> review_evidence) list \<Rightarrow> (string \<times> review_evidence) list
   \<Rightarrow> assessment_request \<times> semantic_error list" where
  "normalizeSemanticAssessmentSubmissionContract E req byID knownByID =
     (case aq_contract req of
        None \<Rightarrow>
          if aq_entities req \<noteq> [] \<or> aq_relationships req \<noteq> []
          then (req, [semanticErr ''submission_contract'' ''is required when submitted contract fields are present''])
          else (req, [])
      | Some c \<Rightarrow>
          (let allByID = semanticAssessmentAllEvidence req;
               ((refs, _), es, entity_errs) =
                 each_rewrite (check_required_entity byID knownByID allByID) ([], []) 0 (ct_entities c);
               (_, rs, relationship_errs) =
                 each_rewrite (check_required_relationship E (length (aq_evidence req)) byID knownByID refs) [] 0 (ct_relationships c);
               errs = err_if (SemanticAssessmentMaxEntityResults < length (ct_entities c)) ''submission_contract.entities''
                   (''must contain at most '' @ decimal SemanticAssessmentMaxEntityResults @ '' entries'')
                 @ err_if (SemanticAssessmentMaxRelationshipResults < length (ct_relationships c)) ''submission_contract.relationships''
                   (''must contain at most '' @ decimal SemanticAssessmentMaxRelationshipResults @ '' entries'')
                 @ err_if ((ct_entities c = []) \<noteq> (ct_relationships c = [])) ''submission_contract''
                   ''entities and relationships must both be empty or both be non-empty''
                 @ entity_errs @ relationship_errs;
               req = req\<lparr>aq_contract := Some \<lparr>ct_entities = es, ct_relationships = rs\<rparr>\<rparr> in
           if errs \<noteq> [] then (req, errs)
           else (req\<lparr>aq_entities := map submitted_of es, aq_relationships := map submitted_relationship_of rs\<rparr>, [])))"

section \<open>Candidates\<close>

text \<open>The candidates of the equivalence groups; an unknown evidence id is only reported once per group.\<close>

definition check_group_candidates :: "(string \<times> review_evidence) list \<Rightarrow> string list \<Rightarrow> nat \<Rightarrow> equivalence_group \<Rightarrow> string list \<times> semantic_error list" where
  "check_group_candidates byID seen i g =
     (let f = at_index ''evidence_equivalence_candidates'' i; ident = trim_space (qg_id g) in
      (if ident = [] \<or> ident \<in> set seen then seen else ident # seen,
       (if ident = [] then [semanticErr (f @ ''.evidence_id'') ''is required'']
        else if ident \<in> set seen then [semanticErr (f @ ''.evidence_id'') ''is duplicated'']
        else err_if (map_of byID ident = None) (f @ ''.evidence_id'') ''is unknown'')
       @ candidate_list_errors f g))"

definition validateSemanticAssessmentEvidenceEquivalenceCandidates :: "assessment_request \<Rightarrow> semantic_error list" where
  "validateSemanticAssessmentEvidenceEquivalenceCandidates req =
     snd (each (check_group_candidates (semanticEvidenceByID (aq_evidence req))) [] 0 (aq_equivalence req))"

definition assessmentCandidateGroupsEquivalent :: "candidate_group \<Rightarrow> candidate_group \<Rightarrow> bool" where
  "assessmentCandidateGroupsEquivalent left right \<longleftrightarrow>
     cg_evidence left = cg_evidence right \<and> cg_start left = cg_start right \<and> cg_end left = cg_end right
     \<and> cg_surface left = cg_surface right \<and> cg_truncated left = cg_truncated right
     \<and> length (cg_candidates left) = length (cg_candidates right)
     \<and> list_all (\<lambda>c. case map_of (index_by ec_id (cg_candidates right)) (ec_id c) of
           None \<Rightarrow> False
         | Some d \<Rightarrow> ec_name c = ec_name d \<and> ec_kind c = ec_kind d \<and> ec_context c = ec_context d) (cg_candidates left)"

definition check_candidate :: "string \<Rightarrow> string list \<Rightarrow> nat \<Rightarrow> entity_candidate \<Rightarrow> string list \<times> entity_candidate \<times> semantic_error list" where
  "check_candidate field seen j c =
     (let c = \<lparr>ec_id = trim_space (ec_id c), ec_name = trim_space (ec_name c), ec_kind = trim_space (ec_kind c),
               ec_context = (case ec_context c of None \<Rightarrow> Some [] | Some m \<Rightarrow> Some m)\<rparr>;
          f = at_index (field @ ''.candidates'') j in
      (ec_id c # seen, c,
       err_if (ec_id c = [] \<or> 128 < rune_count (ec_id c)) (f @ ''.entity_id'') ''is required and must be at most 128 characters''
       @ err_if (ec_id c \<in> set seen) (f @ ''.entity_id'') ''is duplicated''
       @ err_if (ec_name c = [] \<or> 1000 < rune_count (ec_name c)) (f @ ''.canonical_name'') ''is required and must be bounded''
       @ err_if (\<not> semanticOneOf (ec_kind c) EntityKinds) (f @ ''.kind'') ''is unsupported''))"

record group_seen =
  gs_refs :: "string list"
  gs_spans :: "(string \<times> candidate_group) list"
  gs_truncated :: bool

definition check_candidate_group ::
  "(string \<times> review_evidence) list \<Rightarrow> assessment_limits \<Rightarrow> group_seen \<Rightarrow> nat \<Rightarrow> candidate_group
   \<Rightarrow> group_seen \<times> candidate_group \<times> semantic_error list" where
  "check_candidate_group byID l st i g =
     (let f = at_index ''entity_candidate_groups'' i;
          grounding = trim_space (cg_grounding g);
          g = g\<lparr>cg_surface := trim_space (cg_surface g), cg_evidence := trim_space (cg_evidence g),
                cg_grounding := (if grounding = [] then ''candidate-grounding-'' @ decimal i else grounding)\<rparr>;
          ref_errs = err_if (\<not> assessmentBoundedRequiredString (cg_grounding g) 128) (f @ ''.grounding_ref'')
            ''is required and must be bounded'' in
      case map_of byID (cg_evidence g) of
        None \<Rightarrow> (st, g, ref_errs @ [semanticErr (f @ ''.evidence_id'') ''is unknown''])
      | Some e \<Rightarrow>
          (case semanticExactSpanQuote (ev_content e) (cg_start g) (cg_end g) (cg_surface g) of
             Inl m \<Rightarrow> (st, g, ref_errs @ [semanticErr (f @ ''.surface'') m])
           | Inr exact \<Rightarrow>
               (let (_, cands, cand_errs) = each_rewrite (check_candidate f) [] 0 (cg_candidates g);
                    errs = ref_errs @ err_if (cg_grounding g \<in> set (gs_refs st)) f ''is duplicated''
                      @ err_if (al_candidates l < int (length (cg_candidates g))) (f @ ''.candidates'')
                          (''must contain at most '' @ go_decimal (al_candidates l) @ '' candidates'')
                      @ cand_errs;
                    g = g\<lparr>cg_surface := exact, cg_candidates := go_sort (\<lambda>a b. ec_id a < ec_id b) cands\<rparr>;
                    key = assessmentSpanKey (cg_evidence g) (cg_start g) (cg_end g) in
                (\<lparr>gs_refs = cg_grounding g # gs_refs st,
                  gs_spans = (if map_of (gs_spans st) key = None then (key, g) # gs_spans st else gs_spans st),
                  gs_truncated = (gs_truncated st \<or> cg_truncated g)\<rparr>, g,
                 errs @ err_if (case map_of (gs_spans st) key of None \<Rightarrow> False
                     | Some previous \<Rightarrow> \<not> assessmentCandidateGroupsEquivalent previous g) f
                   ''duplicates an entity evidence span with different candidate context''))))"

definition group_before :: "candidate_group \<Rightarrow> candidate_group \<Rightarrow> bool" where
  "group_before a b \<longleftrightarrow>
     (if cg_evidence a \<noteq> cg_evidence b then cg_evidence a < cg_evidence b
      else if cg_start a \<noteq> cg_start b then cg_start a < cg_start b else cg_end a < cg_end b)"

interpretation group_order: weak_order group_before
proof
  fix x y z
  show "group_before x y \<Longrightarrow> \<not> group_before y x"
    by (auto simp: group_before_def split: if_splits)
  show "group_before x z \<Longrightarrow> group_before x y \<or> group_before y z"
    by (auto simp: group_before_def split: if_splits)
qed

text \<open>\<open>sort.Slice\<close> leaves the order of groups at the same span open; here it is the order of the request.\<close>

definition normalizeAssessmentCandidateGroups ::
  "assessment_request \<Rightarrow> (string \<times> review_evidence) list \<Rightarrow> assessment_limits \<Rightarrow> assessment_request \<times> semantic_error list" where
  "normalizeAssessmentCandidateGroups req byID l =
     (let (st, gs, errs) = each_rewrite (check_candidate_group byID l)
            \<lparr>gs_refs = [], gs_spans = [], gs_truncated = aq_truncated req\<rparr> 0 (aq_groups req) in
      (req\<lparr>aq_groups := go_sort group_before gs, aq_truncated := gs_truncated st\<rparr>, errs))"

definition check_option :: "string list \<Rightarrow> nat \<Rightarrow> predicate_option \<Rightarrow> string list \<times> predicate_option \<times> semantic_error list" where
  "check_option seen i p =
     (let f = at_index ''predicate_options'' i;
          p = p\<lparr>po_key := trim_space (po_key p), po_kind := trim_space (po_kind p), po_cardinality := trim_space (po_cardinality p),
                po_aliases := normalizeAssessmentStrings (po_aliases p) 50 128,
                po_subjects := normalizeAssessmentStrings (po_subjects p) 20 64,
                po_objects := normalizeAssessmentStrings (po_objects p) 20 64\<rparr>;
          key = assessmentPredicateKey (po_key p) (po_version p) in
      (key # seen, p,
       err_if (po_key p = [] \<or> 128 < rune_count (po_key p)) (f @ ''.predicate_key'') ''is required and must be at most 128 characters''
       @ err_if (po_version p < 1) (f @ ''.version'') ''must be at least 1''
       @ err_if (key \<in> set seen) f ''is duplicated''
       @ err_if (\<not> semanticOneOf (po_kind p) RelationshipKinds) (f @ ''.relationship_kind'') ''is unsupported''
       @ err_if (\<not> semanticOneOf (po_cardinality p) CurrentCardinalities) (f @ ''.current_cardinality'') ''is unsupported''
       @ err_if (po_subjects p = [] \<or> \<not> assessmentKindsAllowed (po_subjects p) False) (f @ ''.allowed_subject_kinds'')
           ''must contain supported entity kinds''
       @ err_if (po_objects p = [] \<or> \<not> assessmentKindsAllowed (po_objects p) True) (f @ ''.allowed_object_kinds'')
           ''must contain supported entity or value kinds''))"

definition normalizeAssessmentPredicateOptions :: "assessment_request \<Rightarrow> assessment_limits \<Rightarrow> assessment_request \<times> semantic_error list" where
  "normalizeAssessmentPredicateOptions req l =
     (let (_, ps, errs) = each_rewrite check_option [] 0 (aq_options req) in
      (req\<lparr>aq_options := ps\<rparr>,
       err_if (al_options l < int (length (aq_options req))) ''predicate_options''
         (''must contain at most '' @ go_decimal (al_options l) @ '' options'') @ errs))"

section \<open>Before the allocation\<close>

text \<open>The request with its errors, up to the point where its context is allocated; \<open>None\<close> when a boundary prefix
  is never found.\<close>

definition normalized_request ::
  "assess_env \<Rightarrow> assessment_request \<Rightarrow> assessment_limits \<Rightarrow> (assessment_request \<times> semantic_error list) option" where
  "normalized_request E req l =
     (case (prepare_all E (aq_evidence req), prepare_all E (aq_known req), prepare_groups E (aq_equivalence req)) of
        (Some evidence, Some known, Some groups) \<Rightarrow>
          (let req = req\<lparr>aq_request := trim_space (aq_request req), aq_team := trim_space (aq_team req),
                         aq_owner := trim_space (aq_owner req), aq_evidence := evidence, aq_known := known,
                         aq_equivalence := groups\<rparr>;
               (req, basic_errs) = validateSemanticAssessmentRequestBasics req l;
               byID = semanticEvidenceByID (aq_evidence req); knownByID = semanticEvidenceByID (aq_known req);
               (req, required_errs) = normalizeAssessmentRequiredRelationshipRefs req byID knownByID;
               (req, contract_errs) = normalizeSemanticAssessmentSubmissionContract E req byID knownByID;
               equivalence_errs = validateSemanticAssessmentEvidenceEquivalenceCandidates req;
               (req, group_errs) = normalizeAssessmentCandidateGroups req byID l;
               (req, option_errs) = normalizeAssessmentPredicateOptions req l in
           Some (req, basic_errs @ required_errs @ contract_errs @ equivalence_errs @ group_errs @ option_errs))
      | _ \<Rightarrow> None)"

end
