(* ===== verification/Assessor_Conflicts.thy ===== *)
theory Assessor_Conflicts
  imports Assessor_Validation
begin

text \<open>
  Cited evidence conflicts, internal/assessor/conflict_validation.go: which evidence a result may cite, and the
  resolution and validation of the cited positions. Preparing a candidate searches a boundary prefix, which
  ends only when the digest spreads, so the result is an option.
\<close>

section \<open>Citable evidence\<close>

record citable =
  cz_evidence :: review_evidence
  cz_submitted :: bool
  cz_known :: bool
  cz_for :: "string list"

type_synonym citable_map = "(string \<times> citable) list"

text \<open>The candidates of all groups in order, each with its group.\<close>

definition group_candidates :: "equivalence_group list \<Rightarrow> (string \<times> equivalence_candidate) list" where
  "group_candidates gs = concat (map (\<lambda>g. map (Pair (qg_id g)) (qg_candidates g)) gs)"

definition candidate_evidence :: "equivalence_candidate \<Rightarrow> review_evidence" where
  "candidate_evidence c =
     \<lparr>ev_id = qc_id c, ev_fragment = [], ev_index = 0, ev_content = qc_content c, ev_boundary_text = qc_boundary_text c,
      ev_refs = qc_refs c, ev_prefix = qc_prefix c, ev_authority = [], ev_source = [], ev_revision = [],
      ev_current_revision = []\<rparr>"

definition cite_submitted :: "review_evidence list \<Rightarrow> citable_map" where
  "cite_submitted evs = map (\<lambda>(k, e). (k, \<lparr>cz_evidence = e, cz_submitted = True, cz_known = False, cz_for = []\<rparr>)) (index_by ev_id evs)"

fun cite_known :: "citable_map \<Rightarrow> review_evidence list \<Rightarrow> citable_map" where
  "cite_known m [] = m"
| "cite_known m (e # es) =
     (if map_of m (ev_id e) \<noteq> None then cite_known m es
      else cite_known (m @ [(ev_id e, \<lparr>cz_evidence = e, cz_submitted = False, cz_known = True, cz_for = []\<rparr>)]) es)"

text \<open>The references that a candidate already has replace those of the preparation.\<close>

definition prepared_candidate :: "assess_env \<Rightarrow> equivalence_candidate \<Rightarrow> review_evidence option" where
  "prepared_candidate E c =
     map_option (\<lambda>e. if qc_refs c \<noteq> []
         then e\<lparr>ev_boundary_text := qc_boundary_text c, ev_refs := qc_refs c, ev_prefix := qc_prefix c\<rparr> else e)
       (PrepareSemanticAssessmentEvidence E (candidate_evidence c))"

fun cite_candidates :: "assess_env \<Rightarrow> citable_map \<Rightarrow> (string \<times> equivalence_candidate) list \<Rightarrow> citable_map option" where
  "cite_candidates E m [] = Some m"
| "cite_candidates E m ((g, c) # cs) =
     (if map_of m (qc_id c) \<noteq> None then cite_candidates E m cs
      else case prepared_candidate E c of
        None \<Rightarrow> None
      | Some e \<Rightarrow> cite_candidates E (m @ [(qc_id c, \<lparr>cz_evidence = e, cz_submitted = False, cz_known = False, cz_for = [g]\<rparr>)]) cs)"

fun associate :: "citable_map \<Rightarrow> (string \<times> equivalence_candidate) list \<Rightarrow> citable_map" where
  "associate m [] = m"
| "associate m ((g, c) # cs) =
     (case map_of m (qc_id c) of
        None \<Rightarrow> associate m cs
      | Some item \<Rightarrow>
          if cz_submitted item \<or> cz_known item \<or> g \<in> set (cz_for item) then associate m cs
          else associate (AList.update (qc_id c) (item\<lparr>cz_for := cz_for item @ [g]\<rparr>) m) cs)"

definition semanticAssessmentConflictCitableEvidence :: "assess_env \<Rightarrow> assessment_request \<Rightarrow> citable_map option" where
  "semanticAssessmentConflictCitableEvidence E req =
     (let cs = group_candidates (aq_equivalence req) in
      map_option (\<lambda>m. associate m cs) (cite_candidates E (cite_known (cite_submitted (aq_evidence req)) (aq_known req)) cs))"

section \<open>Positions\<close>

record position_state =
  ps_seen :: "string list"
  ps_submitted :: "string list"
  ps_parts :: "string list"

definition check_position ::
  "citable_map \<Rightarrow> string \<Rightarrow> position_state \<Rightarrow> nat \<Rightarrow> cited_position \<Rightarrow> position_state \<times> cited_position \<times> semantic_error list" where
  "check_position citable field st k p =
     (let f = at_index (field @ ''.positions'') k in
      if gr_id p \<noteq> trim_space (gr_id p)
      then (st, p, [semanticErr (f @ ''.evidence_id'') ''must copy the supplied evidence_id exactly''])
      else if gr_start_ref p \<noteq> trim_space (gr_start_ref p) \<or> gr_end_ref p \<noteq> trim_space (gr_end_ref p)
      then (st, p, [semanticErr f ''must copy supplied boundary references exactly''])
      else case map_of citable (gr_id p) of
        None \<Rightarrow> (st, p, [semanticErr (f @ ''.evidence_id'') ''is unknown or not citable''])
      | Some item \<Rightarrow>
          (case (semanticAssessmentBoundaryOffset (cz_evidence item) (gr_start_ref p),
                 semanticAssessmentBoundaryOffset (cz_evidence item) (gr_end_ref p)) of
             (Some a, Some b) \<Rightarrow>
               if a < 0 \<or> b \<le> a then (st, p, [semanticErr f ''contains invalid boundary references''])
               else (case semanticExactSpanQuote (ev_content (cz_evidence item)) a b [] of
                       Inl m \<Rightarrow> (st, p, [semanticErr f m])
                     | Inr quote \<Rightarrow>
                         (let key = assessmentSpanKey (gr_id p) a b in
                          (\<lparr>ps_seen = key # ps_seen st,
                            ps_submitted = (if cz_submitted item then gr_id p # ps_submitted st else ps_submitted st),
                            ps_parts = ps_parts st @ [key]\<rparr>,
                           p\<lparr>gr_start := a, gr_end := b\<rparr>,
                           err_if (SemanticAssessmentMaxEvidenceConflictQuoteRunes < rune_count quote) f
                             (''quote must contain at most '' @ decimal SemanticAssessmentMaxEvidenceConflictQuoteRunes @ '' runes'')
                           @ err_if (key \<in> set (ps_seen st)) f ''duplicates another position'')))
           | _ \<Rightarrow> (st, p, [semanticErr f ''contains invalid boundary references''])))"

definition associated_errors :: "citable_map \<Rightarrow> string \<Rightarrow> string list \<Rightarrow> cited_position list \<Rightarrow> semantic_error list" where
  "associated_errors citable field submitted ps =
     indexed (\<lambda>k p. case map_of citable (gr_id p) of
         None \<Rightarrow> []
       | Some item \<Rightarrow>
           err_if (\<not> cz_submitted item \<and> \<not> cz_known item \<and> cz_for item \<noteq> [] \<and> set (cz_for item) \<inter> set submitted = {})
             (at_index (field @ ''.positions'') k @ ''.evidence_id'')
             ''candidate is not associated with a submitted position in this result'') ps"

definition pair_key :: "string \<Rightarrow> string \<Rightarrow> string" where
  "pair_key submitted candidate = submitted @ [char_at 0] @ candidate"

definition reused_errors ::
  "citable_map \<Rightarrow> string \<Rightarrow> string list \<Rightarrow> string list \<Rightarrow> cited_position list \<Rightarrow> semantic_error list" where
  "reused_errors citable field submitted reused ps =
     indexed (\<lambda>k p. case map_of citable (gr_id p) of
         None \<Rightarrow> []
       | Some item \<Rightarrow>
           if cz_submitted item \<or> cz_known item then []
           else concat (map (\<lambda>ident. err_if (pair_key ident (gr_id p) \<in> set reused) (at_index (field @ ''.positions'') k @ ''.evidence_id'')
                  ''candidate is also selected for equivalence and cannot be cited as opposing'') (sorted_keys submitted))) ps"

definition reused_pairs :: "equivalence_result list \<Rightarrow> string list" where
  "reused_pairs rs = concat (map (\<lambda>r. if qr_action r = ''reuse''
      then (case qr_candidate r of None \<Rightarrow> [] | Some c \<Rightarrow> [pair_key (qr_evidence r) (trim_space c)]) else []) rs)"

definition check_conflict ::
  "citable_map \<Rightarrow> string list \<Rightarrow> string list \<Rightarrow> nat \<Rightarrow> conflict_result
   \<Rightarrow> string list \<times> conflict_result \<times> semantic_error list" where
  "check_conflict citable reused seen i r =
     (let field = at_index ''evidence_conflict_results'' i;
          (st, ps, errs) = each_rewrite (check_position citable field) \<lparr>ps_seen = [], ps_submitted = [], ps_parts = []\<rparr> 0 (cx_positions r);
          case_key = go_join ''|'' (sort_strings (ps_parts st)) in
      (if case_key = [] then seen else case_key # seen,
       \<lparr>cx_positions = ps\<rparr>,
       err_if (length (cx_positions r) < 2 \<or> SemanticAssessmentMaxEvidenceConflictPositions < length (cx_positions r))
         (field @ ''.positions'')
         (''must contain between 2 and '' @ decimal SemanticAssessmentMaxEvidenceConflictPositions @ '' entries'')
       @ errs
       @ err_if (ps_submitted st = []) (field @ ''.positions'') ''must contain at least one submitted evidence position''
       @ associated_errors citable field (ps_submitted st) ps
       @ reused_errors citable field (ps_submitted st) reused ps
       @ err_if (case_key \<noteq> [] \<and> case_key \<in> set seen) field ''duplicates another conflict result''))"

definition resolveSemanticAssessmentEvidenceConflictResults ::
  "assess_env \<Rightarrow> assessment_request \<Rightarrow> assessment_response \<Rightarrow> (conflict_result list option \<times> semantic_error list) option" where
  "resolveSemanticAssessmentEvidenceConflictResults E req p =
     (case rp_conflicts p of
        None \<Rightarrow> Some (None, [semanticErr ''evidence_conflict_results'' ''is required''])
      | Some rs \<Rightarrow>
          if SemanticAssessmentMaxEvidenceConflictResults < length rs
          then Some (Some rs, [semanticErr ''evidence_conflict_results''
                 (''must contain at most '' @ decimal SemanticAssessmentMaxEvidenceConflictResults @ '' entries'')])
          else map_option (\<lambda>citable.
                 let (_, rs', errs) = each_rewrite (check_conflict citable (reused_pairs (slice_of (rp_equivalence p)))) [] 0 rs
                 in (Some rs', errs)) (semanticAssessmentConflictCitableEvidence E req))"

end
