(* ===== verification/Assessor_Laws.thy ===== *)
theory Assessor_Laws
  imports Assessor_Conflicts
begin

text \<open>
  What the validators of Assessor_Validation and Assessor_Conflicts establish when they report no error, one law
  for each validator. The predicates name the contract of one element of the response.
\<close>

section \<open>Evidence security\<close>

definition signal_ok :: "review_evidence \<Rightarrow> assessor_signal \<Rightarrow> bool" where
  "signal_ok e s \<longleftrightarrow> semanticSecurityKindAllowed (ag_kind s)
     \<and> (case SemanticEvidenceSpan (ev_content e) (ag_start s) (ag_end s) of
          Inl _ \<Rightarrow> False | Inr q \<Rightarrow> semanticSecuritySignalSpanMatchesKind (ag_kind s) q)"

definition security_ok :: "(string \<times> review_evidence) list \<Rightarrow> security_result \<Rightarrow> bool" where
  "security_ok byID r \<longleftrightarrow> (case map_of byID (ar_evidence r) of
       None \<Rightarrow> False
     | Some e \<Rightarrow> list_all (signal_ok e) (ar_signals r) \<and> length (ar_signals r) \<le> 64
         \<and> (ar_decision r = ''reject'' \<and> ar_signals r \<noteq> [] \<or> ar_decision r = ''pass'' \<and> ar_signals r = []))"

lemma check_signals_ok: "snd (each (check_signal e ident field) s i xs) = [] \<Longrightarrow> list_all (signal_ok e) xs"
proof -
  assume "snd (each (check_signal e ident field) s i xs) = []"
  then have "\<forall>j < length xs. signal_ok e (xs ! j)"
    by (rule each_all [of "check_signal e ident field" "\<lambda>_. signal_ok e", rotated])
      (auto simp: check_signal_def signal_ok_def Let_def semanticExactSpanQuote_empty split: sum.splits)
  then show ?thesis by (simp add: list_all_length)
qed

lemma missing_Nil: "concat (map (\<lambda>(k, _). coded_if (k \<notin> S) f m c) xs) = [] \<longleftrightarrow> fst ` set xs \<subseteq> S"
  by (auto simp: split_def)

lemma missing_err_Nil: "concat (map (\<lambda>(k, _). err_if (k \<notin> S) f m) xs) = [] \<longleftrightarrow> fst ` set xs \<subseteq> S"
  by (auto simp: split_def)

lemma security_results_ok:
  assumes "validateSemanticAssessmentEvidenceSecurityResults rs byID = []"
  shows "distinct (map ar_evidence rs) \<and> set (map ar_evidence rs) = fst ` set byID \<and> list_all (security_ok byID) rs"
proof -
  obtain seen errs where loop: "each (check_security byID) [] 0 rs = (seen, errs)" by force
  have nil: "errs = []" "fst ` set byID \<subseteq> set seen"
    using assms unfolding validateSemanticAssessmentEvidenceSecurityResults_def loop by (auto simp: split_def)
  have step: "ar_evidence r \<notin> set s \<and> fst (check_security byID s i r) = ar_evidence r # s \<and> security_ok byID r"
    if "snd (check_security byID s i r) = []" for s i r
    using that by (auto simp: check_security_def security_ok_def Let_def dest: check_signals_ok split: option.splits if_splits)
  from each_distinct [of "check_security byID" ar_evidence "\<lambda>_. security_ok byID" "[]" 0 rs, OF step] loop nil
  have d: "distinct (map ar_evidence rs)" "set seen = set (map ar_evidence rs)" "\<forall>j < length rs. security_ok byID (rs ! j)"
    by simp_all
  then have ok: "list_all (security_ok byID) rs" by (simp add: list_all_length)
  then have "set (map ar_evidence rs) \<subseteq> fst ` set byID"
    by (auto simp: list_all_iff security_ok_def split: option.splits dest!: map_of_SomeD) (force dest: map_of_SomeD)
  then show ?thesis using d ok nil(2) by blast
qed

section \<open>Evidence equivalence\<close>

definition equivalence_ok :: "equivalence_group list \<Rightarrow> equivalence_result \<Rightarrow> bool" where
  "equivalence_ok gs r \<longleftrightarrow> list_ex (\<lambda>g. trim_space (qg_id g) = trim_space (qr_evidence r)
     \<and> (qr_action r = ''new'' \<and> qr_candidate r = None
        \<or> qr_action r = ''reuse'' \<and> (case qr_candidate r of None \<Rightarrow> False
            | Some c \<Rightarrow> trim_space c \<noteq> [] \<and> trim_space c \<in> qc_id ` set (qg_candidates g)))) gs"

lemma equivalence_ok_known: "equivalence_ok gs r \<Longrightarrow> trim_space (qr_evidence r) \<in> set (map (trim_space \<circ> qg_id) gs)"
  unfolding equivalence_ok_def list_ex_iff set_map o_def by (metis (mono_tags, lifting) imageI)

lemma collect_groups_ok:
  "snd (each collect_group m i gs) = [] \<Longrightarrow>
   fst (each collect_group m i gs) = m @ map (\<lambda>g. (trim_space (qg_id g), g\<lparr>qg_id := trim_space (qg_id g)\<rparr>)) gs
   \<and> distinct (map (trim_space \<circ> qg_id) gs) \<and> (trim_space \<circ> qg_id) ` set gs \<inter> fst ` set m = {}"
proof (induction gs arbitrary: m i)
  case (Cons g gs)
  obtain m' es where step: "collect_group m i g = (m', es)" by force
  obtain m'' fs where rest: "each collect_group m' (Suc i) gs = (m'', fs)" by force
  have nil: "es = []" "fs = []" using Cons.prems step rest by simp_all
  have m': "m' = m @ [(trim_space (qg_id g), g\<lparr>qg_id := trim_space (qg_id g)\<rparr>)]" "map_of m (trim_space (qg_id g)) = None"
    using step nil(1) by (auto simp: collect_group_def Let_def split: if_splits)
  have "trim_space (qg_id g) \<notin> fst ` set m" using m'(2) by (simp add: map_of_eq_None_iff)
  then show ?case using Cons.IH [of m' "Suc i"] rest nil step m'(1) by auto
qed simp

lemma equivalence_results_ok:
  assumes "ValidateEvidenceEquivalenceResults gs rs = []"
  shows "distinct (map (trim_space \<circ> qr_evidence) rs) \<and> set (map (trim_space \<circ> qr_evidence) rs) = set (map (trim_space \<circ> qg_id) gs)
    \<and> distinct (map (trim_space \<circ> qg_id) gs) \<and> list_all (equivalence_ok gs) rs"
proof -
  obtain groups errs where g: "each collect_group [] 0 gs = (groups, errs)" by force
  obtain seen res where r: "each (check_equivalence groups) [] 0 rs = (seen, res)" by force
  have nil: "errs = []" "res = []" "fst ` set groups \<subseteq> set seen"
    using assms by (simp_all only: ValidateEvidenceEquivalenceResults_def g r Let_def prod.case append_is_Nil_conv missing_err_Nil)
  from collect_groups_ok [of "[]" 0 gs] g nil
  have groups: "groups = map (\<lambda>g. (trim_space (qg_id g), g\<lparr>qg_id := trim_space (qg_id g)\<rparr>)) gs" "distinct (map (trim_space \<circ> qg_id) gs)"
    by simp_all
  have found: "\<exists>g' \<in> set gs. trim_space (qg_id g') = k \<and> qg_candidates g = qg_candidates g'" if "map_of groups k = Some g" for k g
    using map_of_SomeD [OF that] by (auto simp: groups(1))
  have step: "(trim_space \<circ> qr_evidence) x \<notin> set s \<and> fst (check_equivalence groups s i x) = (trim_space \<circ> qr_evidence) x # s
      \<and> equivalence_ok gs x" if no_error: "snd (check_equivalence groups s i x) = []" for s i x
  proof -
    have seen': "trim_space (qr_evidence x) \<notin> set s" "fst (check_equivalence groups s i x) = trim_space (qr_evidence x) # s"
      using no_error by (auto simp: check_equivalence_def Let_def)
    obtain gr where m: "map_of groups (trim_space (qr_evidence x)) = Some gr"
      using no_error by (cases "map_of groups (trim_space (qr_evidence x))") (simp_all add: check_equivalence_def Let_def)
    from found [OF m] obtain g' where "g' \<in> set gs" "trim_space (qg_id g') = trim_space (qr_evidence x)"
      "qg_candidates gr = qg_candidates g'" by blast
    then show ?thesis using no_error seen' m
      by (auto simp: check_equivalence_def equivalence_ok_def Let_def list_ex_iff split: if_splits option.splits intro!: bexI [of _ g'])
  qed
  from each_distinct [of "check_equivalence groups" "trim_space \<circ> qr_evidence" "\<lambda>_. equivalence_ok gs" "[]" 0 rs, OF step] r nil
  have d: "distinct (map (trim_space \<circ> qr_evidence) rs)" "set seen = set (map (trim_space \<circ> qr_evidence) rs)"
    "\<forall>j < length rs. equivalence_ok gs (rs ! j)" by simp_all
  have ok: "list_all (equivalence_ok gs) rs" using d(3) by (simp add: list_all_length)
  then have "set (map (trim_space \<circ> qr_evidence) rs) \<subseteq> set (map (trim_space \<circ> qg_id) gs)"
    unfolding list_all_iff using equivalence_ok_known by fastforce
  moreover have "set (map (trim_space \<circ> qg_id) gs) \<subseteq> set seen" using nil(3) by (simp add: groups(1) image_image o_def)
  ultimately show ?thesis using d groups(2) ok by blast
qed


section \<open>Entities\<close>

text \<open>
  A grounded entity of an accepted response lies on its surface text, has a supported kind, and its action
  fits the candidates of its span.
\<close>

definition action_ok :: "candidate_group option \<Rightarrow> required_entity option \<Rightarrow> entity_result \<Rightarrow> bool" where
  "action_ok g target r \<longleftrightarrow>
     (let matching = assessmentMatchingEntityCandidates g (en_kind r) in
      en_action r = reuse_action \<and> (\<exists>c. en_candidate r = Some c \<and> c \<noteq> [] \<and> c \<in> ec_id ` set matching
        \<and> (case g of None \<Rightarrow> False | Some g' \<Rightarrow> \<not> cg_truncated g')
        \<and> (length matching = 1 \<or> (case target of None \<Rightarrow> False | Some t \<Rightarrow> re_known t = c)))
      \<or> en_action r = create_action \<and> en_candidate r = None
        \<and> (case g of None \<Rightarrow> True | Some g' \<Rightarrow> \<not> cg_truncated g' \<and> matching = [])
      \<or> en_action r = ambiguous_action \<and> en_candidate r = None)"

lemma action_errors_ok: "action_errors g target field r = [] \<Longrightarrow> action_ok g target r"
  by (auto simp: action_errors_def action_ok_def Let_def actions_eval split: if_splits option.splits)

definition entity_ok :: "assessment_request \<Rightarrow> relationship_result list \<Rightarrow> (string \<times> review_evidence) list \<Rightarrow> entity_result \<Rightarrow> bool" where
  "entity_ok req rels byID r \<longleftrightarrow>
     (if en_grounding r = None
      then (en_action r = ambiguous_action \<and> en_candidate r = None)
           \<or> semanticAssessmentAllowsUngroundedExactReuse (aq_contract req) rels r
      else (case map_of byID (en_evidence r) of
              None \<Rightarrow> False
            | Some e \<Rightarrow> SemanticEvidenceSpan (ev_content e) (en_start r) (en_end r) = Inr (en_surface r))
           \<and> semanticOneOf (en_kind r) EntityKinds
           \<and> action_ok (map_of (assessmentCandidateGroupsBySpan (aq_groups req))
               (assessmentSpanKey (en_evidence r) (en_start r) (en_end r))) (map_of (contract_entities req) (en_ref r)) r)"

lemma check_entity_ok:
  assumes "snd (snd (check_entity req rels byID st i r)) = []"
  shows "entity_ok req rels byID (fst (snd (check_entity req rels byID st i r)))
    \<and> en_ref r \<notin> set (es_refs st) \<and> es_refs (fst (check_entity req rels byID st i r)) = en_ref r # es_refs st"
proof (cases "en_grounding r")
  case None
  then show ?thesis using assms
    by (auto simp: check_entity_def Let_def entity_ok_def ungrounded_errors_def actions_eval)
next
  case (Some gr)
  then obtain e where e: "map_of byID (en_evidence r) = Some e"
    using assms by (cases "map_of byID (en_evidence r)") (auto simp: check_entity_def Let_def)
  obtain q where q: "semanticExactSpanQuote (ev_content e) (en_start r) (en_end r) (en_surface r) = Inr q"
    using assms Some e by (auto simp: check_entity_def Let_def)
  have ok: "action_errors (map_of (assessmentCandidateGroupsBySpan (aq_groups req))
      (assessmentSpanKey (en_evidence r) (en_start r) (en_end r))) (map_of (contract_entities req) (en_ref r))
      (at_index ''entity_results'' i) r = []"
    and rest: "semanticOneOf (en_kind r) EntityKinds" "en_ref r \<notin> set (es_refs st)"
    and result: "fst (snd (check_entity req rels byID st i r)) = r\<lparr>en_surface := q\<rparr>"
      "es_refs (fst (check_entity req rels byID st i r)) = en_ref r # es_refs st"
    using assms Some e q by (simp_all add: check_entity_def Let_def)
  have "action_ok g t (r\<lparr>en_surface := q\<rparr>) = action_ok g t r" for g t by (simp add: action_ok_def)
  then show ?thesis using Some e semanticExactSpanQuote_Inr [OF q] action_errors_ok [OF ok] rest
    by (simp add: result entity_ok_def)
qed

lemma entity_results_ok:
  assumes "validateSemanticAssessmentEntityResults req rs rels byID = (rs', [])"
  shows "distinct (map en_ref rs') \<and> map en_ref rs' = map en_ref rs \<and> list_all (entity_ok req rels byID) rs'"
proof -
  let ?step = "check_entity req rels byID" let ?st = "\<lparr>es_refs = [], es_spans = [], es_logical = []\<rparr>"
  have rs': "rs' = fst (snd (each_rewrite ?step ?st 0 rs))" and nil: "snd (snd (each_rewrite ?step ?st 0 rs)) = []"
    using assms by (simp_all add: validateSemanticAssessmentEntityResults_def)
  have same: "en_ref (fst (snd (?step st i r))) = en_ref r" for st i r
    by (simp add: check_entity_def Let_def quote_errors_def split: option.splits sum.splits)
  have "list_all2 (\<lambda>r r'. en_ref r' = en_ref r) rs rs'"
    unfolding rs' by (rule each_rewrite_always) (simp add: same)
  then have refs: "map en_ref rs' = map en_ref rs" by (auto simp: list_all2_conv_all_nth intro!: nth_equalityI)
  have "distinct (map en_ref xs) \<and> set (map en_ref xs) \<inter> set (es_refs st) = {}"
    if "snd (snd (each_rewrite ?step st i xs)) = []" for st i xs
    using that
  proof (induction xs arbitrary: st i)
    case (Cons x xs)
    obtain st' y es where step: "?step st i x = (st', y, es)" by (metis prod_cases3)
    obtain st'' ys fs where rest: "each_rewrite ?step st' (Suc i) xs = (st'', ys, fs)" by (metis prod_cases3)
    have nils: "es = []" "fs = []" using Cons.prems step rest by simp_all
    have "en_ref x \<notin> set (es_refs st)" "es_refs st' = en_ref x # es_refs st"
      using check_entity_ok [of req rels byID st i x] step nils by simp_all
    then show ?case using Cons.IH [of st' "Suc i"] rest nils by auto
  qed simp
  from this [OF nil] have "distinct (map en_ref rs)" by simp
  moreover have "\<forall>j < length rs. entity_ok req rels byID (rs' ! j)"
    using each_rewrite_all [of ?step "\<lambda>_ _ r. entity_ok req rels byID r" ?st 0 rs] check_entity_ok nil by (auto simp: rs')
  moreover have "length rs' = length rs" using refs by (metis length_map)
  ultimately show ?thesis using refs by (simp add: list_all_length)
qed


section \<open>Relationships\<close>

text \<open>A resolved predicate is a supplied option that accepts both kinds; otherwise a complete registration is proposed.\<close>

definition predicate_ok :: "predicate_option list \<Rightarrow> string \<Rightarrow> string \<Rightarrow> relationship_split \<Rightarrow> bool" where
  "predicate_ok options subject object s \<longleftrightarrow>
     rs_status s = ''resolved'' \<and> rs_registration s = None
       \<and> list_ex (\<lambda>p. rs_key s = Some (po_key p) \<and> rs_version s = Some (po_version p) \<and> 1 \<le> po_version p
           \<and> semanticKindAllowed subject (po_subjects p) \<and> semanticKindAllowed object (po_objects p)) options
     \<or> rs_status s = ''registration_required'' \<and> rs_key s = None \<and> rs_version s = None
       \<and> (case rs_registration s of None \<Rightarrow> False
          | Some g \<Rightarrow> assessmentBoundedRequiredString (pr_key g) 128 \<and> semanticOneOf (pr_kind g) RelationshipKinds
              \<and> semanticOneOf (pr_cardinality g) CurrentCardinalities)"

definition span_ok :: "(string \<times> review_evidence) list \<Rightarrow> evidence_span \<Rightarrow> bool" where
  "span_ok byID s \<longleftrightarrow> (case map_of byID (sp_id s) of None \<Rightarrow> False
     | Some e \<Rightarrow> span_inside (ev_content e) (sp_start s) (sp_end s))"

definition validity_ok :: "assess_env \<Rightarrow> relationship_split \<Rightarrow> bool" where
  "validity_ok E s \<longleftrightarrow> (case (assessmentParsedTime E (rs_from s), assessmentParsedTime E (rs_to s)) of
       (Some (Some a), Some (Some b)) \<Rightarrow> a \<le> b | (Some _, Some _) \<Rightarrow> True | _ \<Rightarrow> False)"

definition split_ok ::
  "assess_env \<Rightarrow> assessment_request \<Rightarrow> (string \<times> entity_result) list \<Rightarrow> (string \<times> review_evidence) list
   \<Rightarrow> nat \<Rightarrow> relationship_split \<Rightarrow> bool" where
  "split_ok E req entities byID j s \<longleftrightarrow>
     rs_index s = int j \<and> assessmentBoundedRequiredString (rs_original s) MaxOriginalPredicateRunes
     \<and> semanticOneOf (rs_polarity s) [''+'', ''-''] \<and> validity_ok E s
     \<and> rs_evidence s \<noteq> [] \<and> distinct (rs_evidence s) \<and> list_all (span_ok byID) (rs_evidence s)
     \<and> (case (map_of entities (rs_subject s), assessmentRelationshipObjectKind s entities) of
          (Some subject, Inr object) \<Rightarrow>
            semanticAssessmentEntityResultGrounded subject \<and> predicate_ok (aq_options req) (en_kind subject) object s
        | _ \<Rightarrow> False)
     \<and> (case rs_object_ref s of None \<Rightarrow> True
        | Some o' \<Rightarrow> (case map_of entities o' of None \<Rightarrow> True | Some e \<Rightarrow> semanticAssessmentEntityResultGrounded e))"

definition relationship_ok ::
  "assess_env \<Rightarrow> assessment_request \<Rightarrow> (string \<times> entity_result) list \<Rightarrow> (string \<times> review_evidence) list
   \<Rightarrow> relationship_result \<Rightarrow> bool" where
  "relationship_ok E req entities byID r \<longleftrightarrow>
     rr_disposition r = ''stored'' \<and> rr_reason r = None \<and> rr_splits r \<noteq> [] \<and> length (rr_splits r) \<le> 50
       \<and> list_all (\<lambda>(j, s). split_ok E req entities byID j s) (enumerate 0 (rr_splits r))
     \<or> rr_disposition r = ''not_supported'' \<and> rr_reason r = Some ''not_supported_by_evidence'' \<and> rr_splits r = []"

lemma predicate_result_ok:
  assumes "validateSemanticAssessmentPredicateResult field s (assessmentPredicateOptionsByKeyVersion options) (Some e) (Inr kind) = []"
  shows "predicate_ok options (en_kind e) kind s"
proof (cases "rs_status s = ''resolved''")
  case True
  then obtain key version where kv: "rs_key s = Some key" "rs_version s = Some version" "1 \<le> version" "rs_registration s = None"
    using assms by (cases "rs_key s"; cases "rs_version s")
      (auto simp: validateSemanticAssessmentPredicateResult_def split: if_splits)
  then obtain p where p: "map_of (assessmentPredicateOptionsByKeyVersion options) (assessmentPredicateKey key version) = Some p"
    using assms True by (cases "map_of (assessmentPredicateOptionsByKeyVersion options) (assessmentPredicateKey key version)")
      (auto simp: validateSemanticAssessmentPredicateResult_def split: if_splits)
  from index_by_Some [OF p [unfolded assessmentPredicateOptionsByKeyVersion_def]]
  have "p \<in> set options" "po_key p = key" "po_version p = version" by simp_all
  moreover have "semanticKindAllowed (en_kind e) (po_subjects p)" "semanticKindAllowed kind (po_objects p)"
    using assms True kv p by (simp_all add: validateSemanticAssessmentPredicateResult_def split: if_splits)
  ultimately show ?thesis using True kv by (auto simp: predicate_ok_def list_ex_iff intro!: bexI [of _ p])
next
  case False
  then show ?thesis using assms
    by (auto simp: validateSemanticAssessmentPredicateResult_def predicate_ok_def split: if_splits option.splits)
qed

lemma evidence_spans_ok:
  assumes "validateSemanticAssessmentEvidence i j spans byID = []"
  shows "spans \<noteq> [] \<and> distinct spans \<and> list_all (span_ok byID) spans"
proof -
  let ?key = "\<lambda>s. assessmentSpanKey (sp_id s) (sp_start s) (sp_end s)"
  let ?step = "check_span byID (split_path i j @ ''.evidence'')"
  have ne: "spans \<noteq> []" and nil: "snd (each ?step [] 0 spans) = []"
    using assms by (auto simp: validateSemanticAssessmentEvidence_def Let_def split: if_splits)
  have step: "?key x \<notin> set s \<and> fst (?step s i' x) = ?key x # s \<and> span_ok byID x" if "snd (?step s i' x) = []" for s i' x
    using that by (auto simp: check_span_def Let_def span_ok_def dest: semanticExactSpanQuote_Inr split: option.splits)
  from each_distinct [of ?step ?key "\<lambda>_. span_ok byID" "[]" 0 spans, OF step] nil
  have "distinct (map ?key spans)" "\<forall>j < length spans. span_ok byID (spans ! j)" by simp_all
  then show ?thesis using ne by (simp add: list_all_length distinct_map)
qed

lemma check_split_ok: "check_split E req entities byID i j s = [] \<Longrightarrow> split_ok E req entities byID j s"
proof -
  assume nil: "check_split E req entities byID i j s = []"
  note parts = nil [unfolded check_split_def Let_def append_is_Nil_conv]
  obtain e where e: "map_of entities (rs_subject s) = Some e" "semanticAssessmentEntityResultGrounded e"
    using parts by (cases "map_of entities (rs_subject s)") auto
  obtain kind where k: "assessmentRelationshipObjectKind s entities = Inr kind"
    using parts by (cases "assessmentRelationshipObjectKind s entities") auto
  have "predicate_ok (aq_options req) (en_kind e) kind s"
    using parts e k by (intro predicate_result_ok [of "split_path i j"]) simp
  moreover have "rs_evidence s \<noteq> [] \<and> distinct (rs_evidence s) \<and> list_all (span_ok byID) (rs_evidence s)"
    using parts by (intro evidence_spans_ok [of i j]) simp
  moreover have "validity_ok E s"
    using parts by (auto simp: validateSemanticAssessmentValidity_def validity_ok_def Let_def split: option.splits)
  moreover have "assessmentBoundedRequiredString (rs_original s) MaxOriginalPredicateRunes"
    using parts by (auto split: if_splits)
  moreover have "rs_index s = int j" "semanticOneOf (rs_polarity s) [''+'', ''-'']"
    "case rs_object_ref s of None \<Rightarrow> True
        | Some o' \<Rightarrow> (case map_of entities o' of None \<Rightarrow> True | Some e \<Rightarrow> semanticAssessmentEntityResultGrounded e)"
    using parts by (auto split: option.splits)
  ultimately show ?thesis using e k by (simp add: split_ok_def)
qed

lemma relationship_results_ok:
  assumes "validateSemanticAssessmentRelationshipResults E req ents rs byID = []"
  shows "distinct (map rr_ref rs) \<and> list_all (relationship_ok E req (index_by en_ref ents) byID) rs"
proof -
  let ?step = "check_relationship E req (index_by en_ref ents) byID"
  have step: "rr_ref r \<notin> set s \<and> fst (?step s i r) = rr_ref r # s \<and> relationship_ok E req (index_by en_ref ents) byID r"
    if no_error: "snd (?step s i r) = []" for s i r
  proof -
    have seen: "rr_ref r \<notin> set s" "fst (?step s i r) = rr_ref r # s"
      and disp: "disposition_errors (at_index ''relationship_results'' i) r = []"
      and splits: "\<forall>j < length (rr_splits r). check_split E req (index_by en_ref ents) byID i j (rr_splits r ! j) = []"
      using no_error by (simp_all add: check_relationship_def Let_def indexed_Nil_iff)
    have "list_all (\<lambda>(j, s). split_ok E req (index_by en_ref ents) byID j s) (enumerate 0 (rr_splits r))"
      using splits check_split_ok by (auto simp: list_all_iff in_set_enumerate_eq)
    then have "relationship_ok E req (index_by en_ref ents) byID r"
      using disp by (auto simp: disposition_errors_def relationship_ok_def assessment_bounds split: if_splits)
    then show ?thesis using seen by simp
  qed
  from each_distinct [of ?step rr_ref "\<lambda>_. relationship_ok E req (index_by en_ref ents) byID" "[]" 0 rs, OF step] assms
  show ?thesis by (simp add: validateSemanticAssessmentRelationshipResults_def list_all_length)
qed

section \<open>The submission contract\<close>

text \<open>A split keeps what was submitted and cites only allowed evidence, some of it submitted.\<close>

definition split_fits :: "required_relationship \<Rightarrow> relationship_split \<Rightarrow> bool" where
  "split_fits t s \<longleftrightarrow>
     rs_subject s = rl_subject t \<and> rs_polarity s = rl_polarity t \<and> rs_from s = rl_from t \<and> rs_to s = rl_to t
     \<and> semanticAssessmentSubmittedObjectMatches t s
     \<and> (rl_known_key t \<noteq> [] \<longrightarrow> rs_status s = ''resolved'' \<and> (\<exists>k. rs_key s = Some k \<and> trim_space k = rl_known_key t))
     \<and> (rl_value t = None \<longleftrightarrow> rs_value_range s = None)
     \<and> gr_id ` set (rs_supports s) \<subseteq> set (rl_evidence_ids t @ rl_known_ids t)
     \<and> gr_id ` set (rs_supports s) \<inter> set (rl_evidence_ids t) \<noteq> {}
     \<and> semanticAssessmentRangeCovered (rs_range s) (rs_supports s)
     \<and> (case rs_value_range s of None \<Rightarrow> True | Some v \<Rightarrow> semanticAssessmentRangeCovered v (rs_supports s))"

lemma contract_split_errors_ok: "contract_split_errors t i j s = [] \<Longrightarrow> split_fits t s"
proof -
  assume nil: "contract_split_errors t i j s = []"
  note parts = nil [unfolded contract_split_errors_def Let_def append_is_Nil_conv]
  have "\<forall>k < length (rs_supports s). gr_id (rs_supports s ! k) \<in> set (rl_evidence_ids t @ rl_known_ids t)"
    using each_all [of "check_support t (split_path i j)" "\<lambda>_ x. gr_id x \<in> set (rl_evidence_ids t @ rl_known_ids t)" "[]" 0 "rs_supports s"]
      parts by (simp add: check_support_def Let_def)
  then have "gr_id ` set (rs_supports s) \<subseteq> set (rl_evidence_ids t @ rl_known_ids t)" by (auto simp: set_conv_nth)
  moreover have "gr_id ` set (rs_supports s) \<inter> set (rl_evidence_ids t) \<noteq> {}"
    using parts by (auto simp: list_ex_iff)
  moreover have "rl_known_key t \<noteq> [] \<longrightarrow> rs_status s = ''resolved'' \<and> (\<exists>k. rs_key s = Some k \<and> trim_space k = rl_known_key t)"
    using conjunct1 [OF parts] by (cases "rs_key s") (auto split: if_splits)
  ultimately show ?thesis using conjunct2 [OF parts] unfolding split_fits_def by (auto split: option.splits)
qed

definition relationship_fits :: "required_relationship \<Rightarrow> relationship_result \<Rightarrow> bool" where
  "relationship_fits t r \<longleftrightarrow> rr_disposition r = ''not_supported''
     \<or> \<not> rl_unavailable t \<and> (0 < rl_max_splits t \<longrightarrow> int (length (rr_splits r)) \<le> rl_max_splits t)
       \<and> list_all (split_fits t) (rr_splits r)"

definition entity_fits :: "required_entity \<Rightarrow> entity_result \<Rightarrow> bool" where
  "entity_fits t r \<longleftrightarrow>
     (re_known t \<noteq> [] \<longrightarrow> en_action r = reuse_action \<and> (\<exists>c. en_candidate r = Some c \<and> trim_space c = re_known t))
     \<and> (case en_grounding r of None \<Rightarrow> True | Some g \<Rightarrow> trim_space g \<in> eg_ref ` set (re_groundings t))"

lemma grounding_found: "entityGroundingByRef gs ref \<noteq> None \<Longrightarrow> trim_space ref \<in> eg_ref ` set gs"
proof -
  assume "entityGroundingByRef gs ref \<noteq> None"
  then obtain g where "List.find (\<lambda>g. eg_ref g = trim_space ref) gs = Some g" unfolding entityGroundingByRef_def by blast
  from find_mem [OF this] have "g \<in> set gs" "trim_space ref = eg_ref g" by simp_all
  then show ?thesis by (intro rev_image_eqI)
qed

lemma submission_entities_ok:
  assumes "snd (each (check_contract_entity c rels) s i rs) = []"
  shows "set (fst (each (check_contract_entity c rels) s i rs)) = set s \<union> en_ref ` set rs
    \<and> list_all (\<lambda>r. \<exists>t. map_of (index_by re_ref (ct_entities c)) (en_ref r) = Some t \<and> entity_fits t r) rs"
  using assms
proof (induction rs arbitrary: s i)
  case (Cons r rs)
  obtain s' es where step: "check_contract_entity c rels s i r = (s', es)" by force
  obtain s'' fs where rest: "each (check_contract_entity c rels) s' (Suc i) rs = (s'', fs)" by force
  have nil: "es = []" "fs = []" using Cons.prems step rest by simp_all
  obtain t where t: "map_of (index_by re_ref (ct_entities c)) (en_ref r) = Some t"
    using step nil by (cases "map_of (index_by re_ref (ct_entities c)) (en_ref r)") (auto simp: check_contract_entity_def Let_def)
  have "s' = en_ref r # s" "entity_fits t r"
    using step nil t by (auto simp: check_contract_entity_def Let_def entity_fits_def grounding_found
        split: option.splits if_splits)
  then show ?case using Cons.IH [of s' "Suc i"] rest nil step t by auto
qed simp

lemma submission_relationships_ok:
  assumes "snd (each (check_contract_relationship c) s i rs) = []"
  shows "set (fst (each (check_contract_relationship c) s i rs)) = set s \<union> rr_ref ` set rs
    \<and> list_all (\<lambda>r. \<exists>t. map_of (index_by rl_id (ct_relationships c)) (rr_ref r) = Some t \<and> relationship_fits t r) rs"
  using assms
proof (induction rs arbitrary: s i)
  case (Cons r rs)
  obtain s' es where step: "check_contract_relationship c s i r = (s', es)" by force
  obtain s'' fs where rest: "each (check_contract_relationship c) s' (Suc i) rs = (s'', fs)" by force
  have nil: "es = []" "fs = []" using Cons.prems step rest by simp_all
  obtain t where t: "map_of (index_by rl_id (ct_relationships c)) (rr_ref r) = Some t"
    using step nil by (cases "map_of (index_by rl_id (ct_relationships c)) (rr_ref r)") (auto simp: check_contract_relationship_def Let_def)
  have s': "s' = rr_ref r # s"
    and errs: "rr_disposition r = ''not_supported'' \<or> \<not> rl_unavailable t \<and> \<not> (0 < rl_max_splits t \<and> rl_max_splits t < int (length (rr_splits r)))
      \<and> indexed (contract_split_errors t i) (rr_splits r) = []"
    using step nil t by (auto simp: check_contract_relationship_def Let_def split: if_splits)
  have "relationship_fits t r"
    using errs by (auto simp: relationship_fits_def indexed_Nil_iff list_all_length contract_split_errors_ok)
  then show ?case using Cons.IH [of s' "Suc i"] rest nil step t s' by auto
qed simp

lemma indexed_subset:
  assumes "list_all (\<lambda>r. \<exists>t. map_of (index_by key ys) (f r) = Some t \<and> P t r) xs"
  shows "f ` set xs \<subseteq> key ` set ys"
proof clarify
  fix r assume "r \<in> set xs"
  then obtain t where "map_of (index_by key ys) (f r) = Some t" using assms by (auto simp only: list_all_iff)
  from index_by_Some [OF this] show "f r \<in> key ` set ys" by (metis imageI)
qed

lemma submission_ok:
  assumes "validateSemanticAssessmentSubmissionResponse (Some c) p = []"
  shows "set (map en_ref (slice_of (rp_entities p))) = set (map re_ref (ct_entities c))
    \<and> set (map rr_ref (slice_of (rp_relationships p))) = set (map rl_id (ct_relationships c))
    \<and> list_all (\<lambda>r. \<exists>t. map_of (index_by re_ref (ct_entities c)) (en_ref r) = Some t \<and> entity_fits t r) (slice_of (rp_entities p))
    \<and> list_all (\<lambda>r. \<exists>t. map_of (index_by rl_id (ct_relationships c)) (rr_ref r) = Some t \<and> relationship_fits t r)
        (slice_of (rp_relationships p))"
proof -
  let ?rels = "slice_of (rp_relationships p)" let ?ents = "slice_of (rp_entities p)"
  obtain es ee where e: "each (check_contract_entity c ?rels) [] 0 ?ents = (es, ee)" by force
  obtain rs re where r: "each (check_contract_relationship c) [] 0 ?rels = (rs, re)" by force
  have nil: "ee = []" "re = []" "fst ` set (index_by re_ref (ct_entities c)) \<subseteq> set es"
    "fst ` set (index_by rl_id (ct_relationships c)) \<subseteq> set rs"
    using assms by (simp_all only: validateSemanticAssessmentSubmissionResponse_def option.case e r Let_def prod.case
        append_is_Nil_conv missing_err_Nil)
  have E: "set es = en_ref ` set ?ents"
    "list_all (\<lambda>r. \<exists>t. map_of (index_by re_ref (ct_entities c)) (en_ref r) = Some t \<and> entity_fits t r) ?ents"
    using submission_entities_ok [of c ?rels "[]" 0 ?ents] e nil by simp_all
  have R: "set rs = rr_ref ` set ?rels"
    "list_all (\<lambda>r. \<exists>t. map_of (index_by rl_id (ct_relationships c)) (rr_ref r) = Some t \<and> relationship_fits t r) ?rels"
    using submission_relationships_ok [of c "[]" 0 ?rels] r nil by simp_all
  have "en_ref ` set ?ents \<subseteq> re_ref ` set (ct_entities c)" "rr_ref ` set ?rels \<subseteq> rl_id ` set (ct_relationships c)"
    using indexed_subset [OF E(2)] indexed_subset [OF R(2)] by simp_all
  then show ?thesis using E R nil by auto
qed


section \<open>Conflicts\<close>

text \<open>Where a citable item comes from.\<close>

definition item_ok :: "assessment_request \<Rightarrow> string \<Rightarrow> citable \<Rightarrow> bool" where
  "item_ok req k item \<longleftrightarrow>
     (if cz_submitted item then cz_evidence item \<in> set (aq_evidence req) \<and> ev_id (cz_evidence item) = k
      else if cz_known item then cz_evidence item \<in> set (aq_known req) \<and> ev_id (cz_evidence item) = k
      else cz_for item \<noteq> []
        \<and> list_all (\<lambda>g. list_ex (\<lambda>(g', c). g' = g \<and> qc_id c = k) (group_candidates (aq_equivalence req))) (cz_for item)
        \<and> list_ex (\<lambda>(g, c). qc_id c = k \<and> qc_content c = ev_content (cz_evidence item)) (group_candidates (aq_equivalence req)))"

definition items_ok :: "assessment_request \<Rightarrow> citable_map \<Rightarrow> bool" where
  "items_ok req m \<longleftrightarrow> (\<forall>k item. map_of m k = Some item \<longrightarrow> item_ok req k item)"

lemma items_ok_snoc: "items_ok req m \<Longrightarrow> item_ok req k item \<Longrightarrow> items_ok req (m @ [(k, item)])"
  by (auto simp: items_ok_def map_add_Some_iff map_of_append split: if_splits)

lemma cite_submitted_ok: "items_ok req (cite_submitted (aq_evidence req))"
proof -
  have "map_of (cite_submitted es) k = map_option (\<lambda>e. \<lparr>cz_evidence = e, cz_submitted = True, cz_known = False, cz_for = []\<rparr>)
      (map_of (index_by ev_id es) k)" for es k
    unfolding cite_submitted_def by (simp add: map_of_map)
  then show ?thesis by (auto simp only: items_ok_def item_ok_def map_option_eq_Some citable.simps if_True dest!: index_by_Some)
qed

lemma cite_known_ok: "items_ok req m \<Longrightarrow> set es \<subseteq> set (aq_known req) \<Longrightarrow> items_ok req (cite_known m es)"
proof (induction es arbitrary: m)
  case (Cons e es)
  have "item_ok req (ev_id e) \<lparr>cz_evidence = e, cz_submitted = False, cz_known = True, cz_for = []\<rparr>"
    using Cons.prems(2) by (simp add: item_ok_def)
  from items_ok_snoc [OF Cons.prems(1) this] show ?case using Cons by simp
qed simp

lemma cite_candidates_ok:
  assumes "cite_candidates E m cs = Some m'" and "items_ok req m" and "set cs \<subseteq> set (group_candidates (aq_equivalence req))"
  shows "items_ok req m'"
  using assms
proof (induction cs arbitrary: m)
  case (Cons x cs)
  obtain g c where x: "x = (g, c)" by (cases x)
  show ?case
  proof (cases "map_of m (qc_id c)")
    case None
    then obtain e where e: "prepared_candidate E c = Some e"
      and rest: "cite_candidates E (m @ [(qc_id c, \<lparr>cz_evidence = e, cz_submitted = False, cz_known = False, cz_for = [g]\<rparr>)]) cs = Some m'"
      using Cons.prems(1) x by (auto split: option.splits)
    have "ev_content e = qc_content c"
      using e by (auto simp: prepared_candidate_def candidate_evidence_def dest!: prepared_Prepare)
    then have "item_ok req (qc_id c) \<lparr>cz_evidence = e, cz_submitted = False, cz_known = False, cz_for = [g]\<rparr>"
      using Cons.prems(3) x by (force simp: item_ok_def list_ex_iff)
    then show ?thesis using Cons.IH [OF rest items_ok_snoc [OF Cons.prems(2)]] Cons.prems(3) by simp
  qed (use Cons x in auto)
qed simp

lemma associate_ok: "items_ok req m \<Longrightarrow> set cs \<subseteq> set (group_candidates (aq_equivalence req)) \<Longrightarrow> items_ok req (associate m cs)"
proof (induction cs arbitrary: m)
  case (Cons x cs)
  obtain g c where x: "x = (g, c)" by (cases x)
  show ?case
  proof (cases "map_of m (qc_id c)")
    case (Some item)
    let ?m = "AList.update (qc_id c) (item\<lparr>cz_for := cz_for item @ [g]\<rparr>) m"
    have "items_ok req ?m" if "\<not> cz_submitted item" "\<not> cz_known item"
    proof -
      have "item_ok req (qc_id c) item" using Cons.prems(1) Some by (simp add: items_ok_def)
      then have "item_ok req (qc_id c) (item\<lparr>cz_for := cz_for item @ [g]\<rparr>)"
        using that Cons.prems(2) x by (force simp: item_ok_def list_ex_iff)
      then show ?thesis using Cons.prems(1) by (auto simp: items_ok_def)
    qed
    then show ?thesis using Cons Some x by simp
  qed (use Cons x in auto)
qed simp

lemma citable_ok: "semanticAssessmentConflictCitableEvidence E req = Some m \<Longrightarrow> items_ok req m"
  by (auto simp: semanticAssessmentConflictCitableEvidence_def Let_def
      intro!: associate_ok cite_candidates_ok [OF _ cite_known_ok [OF cite_submitted_ok]])

text \<open>A cited position and the ids of the submitted evidence among the positions.\<close>

definition position_ok :: "citable_map \<Rightarrow> cited_position \<Rightarrow> bool" where
  "position_ok citable p \<longleftrightarrow> (case map_of citable (gr_id p) of
       None \<Rightarrow> False
     | Some item \<Rightarrow> (case SemanticEvidenceSpan (ev_content (cz_evidence item)) (gr_start p) (gr_end p) of
           Inl _ \<Rightarrow> False | Inr q \<Rightarrow> rune_count q \<le> 4000))"

definition submitted_ids :: "citable_map \<Rightarrow> cited_position list \<Rightarrow> string set" where
  "submitted_ids citable ps = {gr_id p | p. p \<in> set ps \<and> (\<exists>item. map_of citable (gr_id p) = Some item \<and> cz_submitted item)}"

definition position_key :: "cited_position \<Rightarrow> string" where
  "position_key p = assessmentSpanKey (gr_id p) (gr_start p) (gr_end p)"

lemma check_position_ok:
  assumes "check_position citable field st k p = (st', p', [])"
  shows "position_ok citable p' \<and> position_key p' \<notin> set (ps_seen st) \<and> ps_seen st' = position_key p' # ps_seen st
    \<and> set (ps_submitted st') = set (ps_submitted st) \<union> submitted_ids citable [p']"
proof -
  obtain item where item: "map_of citable (gr_id p) = Some item"
    using assms by (cases "map_of citable (gr_id p)") (auto simp: check_position_def Let_def split: if_splits)
  obtain a b where ab: "semanticAssessmentBoundaryOffset (cz_evidence item) (gr_start_ref p) = Some a"
    "semanticAssessmentBoundaryOffset (cz_evidence item) (gr_end_ref p) = Some b" "\<not> (a < 0 \<or> b \<le> a)"
    using assms item by (auto simp: check_position_def Let_def split: if_splits option.splits)
  obtain q where q: "semanticExactSpanQuote (ev_content (cz_evidence item)) a b [] = Inr q"
    using assms item ab by (cases "semanticExactSpanQuote (ev_content (cz_evidence item)) a b []")
      (auto simp: check_position_def Let_def split: if_splits)
  show ?thesis using assms item ab q
    by (auto simp: check_position_def Let_def position_ok_def position_key_def submitted_ids_def
        semanticExactSpanQuote_empty assessment_bounds split: if_splits)
qed

lemma positions_ok:
  assumes "each_rewrite (check_position citable field) st k ps = (st', ps', [])"
  shows "list_all (position_ok citable) ps' \<and> distinct (map position_key ps')
    \<and> set (map position_key ps') \<inter> set (ps_seen st) = {} \<and> length ps' = length ps
    \<and> set (ps_submitted st') = set (ps_submitted st) \<union> submitted_ids citable ps'"
  using assms
proof (induction ps arbitrary: st k ps')
  case (Cons p ps)
  obtain st1 q es where step: "check_position citable field st k p = (st1, q, es)" by (metis prod_cases3)
  obtain st2 qs fs where rest: "each_rewrite (check_position citable field) st1 (Suc k) ps = (st2, qs, fs)" by (metis prod_cases3)
  have eqs: "es = []" "fs = []" "ps' = q # qs" "st' = st2" using Cons.prems step rest by simp_all
  have "submitted_ids citable (q # qs) = submitted_ids citable [q] \<union> submitted_ids citable qs"
    by (auto simp: submitted_ids_def)
  then show ?case using Cons.IH [of st1 "Suc k" qs] rest eqs check_position_ok [of citable field st k p st1 q] step by auto
qed (auto simp: submitted_ids_def)

definition conflict_ok :: "citable_map \<Rightarrow> string list \<Rightarrow> conflict_result \<Rightarrow> bool" where
  "conflict_ok citable reused r \<longleftrightarrow>
     (let ps = cx_positions r; submitted = submitted_ids citable ps in
      2 \<le> length ps \<and> length ps \<le> 10 \<and> distinct (map position_key ps) \<and> list_all (position_ok citable) ps \<and> submitted \<noteq> {}
      \<and> (\<forall>p\<in>set ps. \<forall>item. map_of citable (gr_id p) = Some item \<and> \<not> cz_submitted item \<and> \<not> cz_known item \<longrightarrow>
           (cz_for item \<noteq> [] \<longrightarrow> set (cz_for item) \<inter> submitted \<noteq> {}) \<and> (\<forall>i\<in>submitted. pair_key i (gr_id p) \<notin> set reused)))"

lemma check_conflict_ok:
  assumes "snd (snd (check_conflict citable reused seen i r)) = []"
  shows "conflict_ok citable reused (fst (snd (check_conflict citable reused seen i r)))"
proof -
  let ?field = "at_index ''evidence_conflict_results'' i" let ?st = "\<lparr>ps_seen = [], ps_submitted = [], ps_parts = []\<rparr>"
  obtain st ps errs where loop: "each_rewrite (check_position citable ?field) ?st 0 (cx_positions r) = (st, ps, errs)"
    by (metis prod_cases3)
  have nil: "errs = []" "2 \<le> length (cx_positions r)" "length (cx_positions r) \<le> 10" "ps_submitted st \<noteq> []"
    "associated_errors citable ?field (ps_submitted st) ps = []" "reused_errors citable ?field (ps_submitted st) reused ps = []"
    and result: "fst (snd (check_conflict citable reused seen i r)) = \<lparr>cx_positions = ps\<rparr>"
    using assms by (simp_all add: check_conflict_def Let_def loop assessment_bounds)
  from positions_ok [OF loop [unfolded nil(1)]]
  have P: "list_all (position_ok citable) ps" "distinct (map position_key ps)" "length ps = length (cx_positions r)"
    "set (ps_submitted st) = submitted_ids citable ps" by simp_all
  have "(cz_for item \<noteq> [] \<longrightarrow> set (cz_for item) \<inter> set (ps_submitted st) \<noteq> {})
      \<and> (\<forall>i\<in>set (ps_submitted st). pair_key i (gr_id p) \<notin> set reused)"
    if p: "p \<in> set ps" and item: "map_of citable (gr_id p) = Some item" "\<not> cz_submitted item" "\<not> cz_known item" for p item
  proof -
    from p obtain k where "k < length ps" "ps ! k = p" by (auto simp: in_set_conv_nth)
    then show ?thesis using nil(5,6) item
      by (auto simp: associated_errors_def reused_errors_def indexed_Nil_iff)
  qed
  moreover have "submitted_ids citable ps \<noteq> {}" using nil(4) P(4) by (metis set_empty)
  ultimately show ?thesis using P nil(2,3) unfolding result by (simp add: conflict_ok_def Let_def)
qed

lemma conflict_results_ok:
  assumes "resolveSemanticAssessmentEvidenceConflictResults E req p = Some (Some cxs, [])"
  shows "\<exists>citable. semanticAssessmentConflictCitableEvidence E req = Some citable \<and> length cxs \<le> 20
    \<and> list_all (conflict_ok citable (reused_pairs (slice_of (rp_equivalence p)))) cxs"
proof -
  let ?reused = "reused_pairs (slice_of (rp_equivalence p))"
  obtain rs where rs: "rp_conflicts p = Some rs" "length rs \<le> 20"
    using assms by (auto simp: resolveSemanticAssessmentEvidenceConflictResults_def assessment_bounds split: option.splits if_splits)
  then obtain citable where c: "semanticAssessmentConflictCitableEvidence E req = Some citable"
    using assms by (auto simp: resolveSemanticAssessmentEvidenceConflictResults_def assessment_bounds)
  obtain st where loop: "each_rewrite (check_conflict citable ?reused) [] 0 rs = (st, cxs, [])"
    using assms rs c by (auto simp: resolveSemanticAssessmentEvidenceConflictResults_def assessment_bounds Let_def split: prod.splits)
  have "\<forall>j < length rs. conflict_ok citable ?reused (cxs ! j)"
    using each_rewrite_all [of "check_conflict citable ?reused" "\<lambda>_ _ r. conflict_ok citable ?reused r" "[]" 0 rs]
      check_conflict_ok loop by simp
  moreover have "length cxs = length rs" using length_each_rewrite [of "check_conflict citable ?reused" "[]" 0 rs] loop by simp
  ultimately show ?thesis using c rs by (simp add: list_all_length)
qed


section \<open>Resolved ranges\<close>

text \<open>A request whose evidence has boundary references.\<close>

definition request_ready :: "assessment_request \<Rightarrow> bool" where
  "request_ready req \<longleftrightarrow> list_all prepared (aq_evidence req @ aq_known req)"

lemma all_evidence_prepared: "request_ready req \<Longrightarrow> \<forall>e \<in> snd ` set (semanticAssessmentAllEvidence req). prepared e"
proof clarify
  fix k e assume r: "request_ready req" and "(k, e) \<in> set (semanticAssessmentAllEvidence req)"
  then have "map_of (index_by (\<lambda>e. trim_space (ev_id e)) (aq_evidence req @ aq_known req)) k = Some e"
    unfolding semanticAssessmentAllEvidence_def by (simp add: map_of_eq_Some_iff)
  from index_by_Some [OF this] show "prepared (snd (k, e))" using r by (auto simp: request_ready_def list_all_iff)
qed

definition range_span :: "grounded_range \<Rightarrow> evidence_span" where
  "range_span r = \<lparr>sp_id = gr_id r, sp_start = gr_start r, sp_end = gr_end r\<rparr>"

text \<open>The ranges of a split lie in their evidence, the cited spans are the support ranges, and the original
  predicate is the text of the predicate range.\<close>

definition split_grounded :: "(string \<times> review_evidence) list \<Rightarrow> relationship_split \<Rightarrow> bool" where
  "split_grounded byID s \<longleftrightarrow>
     range_in byID (rs_range s) \<and> list_all (range_in byID) (rs_supports s)
     \<and> (case rs_value_range s of None \<Rightarrow> True | Some v \<Rightarrow> range_in byID v)
     \<and> rs_evidence s = map range_span (rs_supports s)
     \<and> (case map_of byID (gr_id (rs_range s)) of None \<Rightarrow> False
        | Some e \<Rightarrow> SemanticEvidenceSpan (ev_content e) (gr_start (rs_range s)) (gr_end (rs_range s)) = Inr (rs_original s))"

lemma resolve_supports_ok:
  assumes "resolve_supports byID path rs = (rs', spans, [])" and "\<forall>e \<in> snd ` set byID. prepared e"
  shows "list_all (range_in byID) rs' \<and> spans = map range_span rs'"
proof -
  let ?f = "\<lambda>(k, r). resolveSemanticAssessmentRange byID r (at_index (path @ ''.support_ranges'') k)"
  let ?res = "map ?f (enumerate 0 rs)"
  have nil: "\<forall>x \<in> set ?res. snd x = []" and rs': "rs' = map fst ?res"
    and spans: "spans = map (\<lambda>(r, es). \<lparr>sp_id = gr_id r, sp_start = gr_start r, sp_end = gr_end r\<rparr>) (filter (\<lambda>(r, es). es = []) ?res)"
    using assms(1) by (auto simp: resolve_supports_def Let_def)
  have "filter (\<lambda>(r, es). es = []) ?res = ?res" by (rule filter_True) (use nil in \<open>simp only: split_beta\<close>)
  then have "spans = map range_span rs'" unfolding spans rs' by (simp add: range_span_def split_def o_def)
  moreover have "range_in byID (fst x)" if x: "x \<in> set ?res" for x
  proof -
    from x obtain k r where "x = resolveSemanticAssessmentRange byID r (at_index (path @ ''.support_ranges'') k)" by auto
    then show ?thesis using resolve_range_in [of byID r _ "fst x"] nil x assms(2) by (metis prod.collapse)
  qed
  ultimately show ?thesis unfolding rs' by (auto simp: list_all_iff)
qed

lemma resolve_split_ok:
  assumes "snd (resolve_split byID i j s) = []" and prep: "\<forall>e \<in> snd ` set byID. prepared e"
  shows "split_grounded byID (fst (resolve_split byID i j s))"
proof -
  let ?path = "split_path i j"
  obtain range re where r: "resolveSemanticAssessmentRange byID (rs_range s) (?path @ ''.predicate_range'') = (range, re)" by force
  obtain sup ev se where u: "resolve_supports byID ?path (rs_supports s) = (sup, ev, se)" by (metis prod_cases3)
  have nil: "re = []" "se = []" using assms(1) by (auto simp: resolve_split_def Let_def r u split: prod.splits option.splits)
  have range: "range_in byID range" using resolve_range_in [OF r [unfolded nil] prep] by simp
  then obtain e where e: "map_of byID (gr_id range) = Some e" and inside: "span_inside (ev_content e) (gr_start range) (gr_end range)"
    by (auto simp: range_in_def split: option.splits)
  from inside obtain q where q: "SemanticEvidenceSpan (ev_content e) (gr_start range) (gr_end range) = Inr q"
    using SemanticEvidenceSpan_Inr by blast
  have supports: "list_all (range_in byID) sup \<and> ev = map range_span sup"
    using resolve_supports_ok [OF u [unfolded nil] prep] .
  show ?thesis
  proof (cases "rs_value_range s")
    case None
    then show ?thesis using range e q supports by (simp add: resolve_split_def Let_def r u nil split_grounded_def)
  next
    case (Some v)
    obtain v' ve where v: "resolveSemanticAssessmentRange byID v (?path @ ''.value_range'') = (v', ve)" by force
    then have "ve = []" using assms(1) Some by (simp add: resolve_split_def Let_def r u)
    then have "range_in byID v'" using resolve_range_in [OF v [unfolded \<open>ve = []\<close>] prep] by simp
    then show ?thesis using Some v range e q supports by (simp add: resolve_split_def Let_def r u nil split_grounded_def)
  qed
qed

lemma resolve_relationship_ok:
  assumes "snd (resolve_relationship byID i r) = []" and prep: "\<forall>e \<in> snd ` set byID. prepared e"
  shows "list_all (split_grounded byID) (rr_splits (fst (resolve_relationship byID i r)))"
proof -
  have nil: "\<forall>(j, s) \<in> set (enumerate 0 (rr_splits r)). snd (resolve_split byID i j s) = []"
    using assms(1) by (auto simp: resolve_relationship_def Let_def)
  then show ?thesis using resolve_split_ok [OF _ prep] by (auto simp: resolve_relationship_def Let_def list_all_iff)
qed

end
