(* ===== verification/Assessor_Budget.thy ===== *)
theory Assessor_Budget
  imports Assessor_Request Assessor_Laws
begin

text \<open>
  The token budget of a request, internal/assessor/assessor_budget.go: the required context must fit both budgets,
  then optional predicates and equivalence candidates are added in rounds as long as the request fits. Counting
  the tokens of the encoded request (encoding/json and the tokenizer library) is the parameter \<open>tokens\<close>, from
  a request and the limits to the input tokens and the context tokens, \<open>None\<close> for an error.
\<close>

type_synonym token_count = "assessment_request \<Rightarrow> assessment_limits \<Rightarrow> (int \<times> int) option"

section \<open>Limits\<close>

definition semanticAssessmentRepairSafetyTokens :: int where "semanticAssessmentRepairSafetyTokens = 4096"

definition semanticAssessmentConversationInputLimit :: "assessment_limits \<Rightarrow> int" where
  "semanticAssessmentConversationInputLimit limits =
     (let l = normalizeSemanticAssessmentLimits limits;
          headroom = wrap64 ((SemanticAssessmentMaxProviderTurns - 1) * wrap64 (al_output l + semanticAssessmentRepairSafetyTokens)) in
      if al_input l \<le> headroom then 0 else wrap64 (al_input l - headroom))"

record limit_error =
  le_field :: string
  le_message :: string

text \<open>\<open>minimum\<close> is the smallest request; an error of the counter is reported with its text.\<close>

definition validateSemanticAssessmentLimits ::
  "(assessment_request \<Rightarrow> assessment_limits \<Rightarrow> string + int \<times> int) \<Rightarrow> assessment_request \<Rightarrow> assessment_limits \<Rightarrow> limit_error option" where
  "validateSemanticAssessmentLimits tokens minimum limits =
     (let l = normalizeSemanticAssessmentLimits limits in
      case tokens minimum l of
        Inl m \<Rightarrow> Some \<lparr>le_field = ''tokenizer'',
                    le_message = ''semantic assessment provider framing cannot be measured: '' @ m\<rparr>
      | Inr (framing, context) \<Rightarrow>
          if al_context l < context
          then Some \<lparr>le_field = ''candidate_context_tokens'',
                  le_message = ''semantic assessment candidate context budget is below the minimum serialized context (limit ''
                    @ go_decimal (al_context l) @ '', minimum '' @ go_decimal context @ '')''\<rparr>
          else if semanticAssessmentConversationInputLimit l < framing
          then Some \<lparr>le_field = (if al_input l \<le> framing then ''input_tokens'' else ''output_tokens''),
                  le_message = ''semantic assessment input budget leaves no usable room after repair headroom (input limit ''
                    @ go_decimal (al_input l) @ '', framing '' @ go_decimal framing @ '')''\<rparr>
          else None)"

section \<open>The order of the groups\<close>

text \<open>\<open>strconv.Atoi\<close> for texts of digits with an optional sign, within 64 bits.\<close>

fun digits_value :: "int \<Rightarrow> string \<Rightarrow> int option" where
  "digits_value v [] = Some v"
| "digits_value v (c # cs) =
     (if 48 \<le> byte_of c \<and> byte_of c \<le> 57 then digits_value (10 * v + int (byte_of c - 48)) cs else None)"

definition go_atoi :: "string \<Rightarrow> int option" where
  "go_atoi s =
     (let (neg, ds) = (case s of [] \<Rightarrow> (False, []) | c # cs \<Rightarrow>
            if c = CHR ''-'' then (True, cs) else if c = CHR ''+'' then (False, cs) else (False, s)) in
      if ds = [] then None
      else case digits_value 0 ds of None \<Rightarrow> None
        | Some v \<Rightarrow> (let n = (if neg then - v else v) in if - (2 ^ 63) \<le> n \<and> n < 2 ^ 63 then Some n else None))"

definition semanticAssessmentEvidenceIndex :: "string \<Rightarrow> int option" where
  "semanticAssessmentEvidenceIndex ident =
     (if prefix ''evidence:'' ident
      then case go_atoi (drop 9 ident) of None \<Rightarrow> None | Some n \<Rightarrow> if 0 \<le> n then Some n else None
      else None)"

definition group_index_before :: "equivalence_group \<Rightarrow> equivalence_group \<Rightarrow> bool" where
  "group_index_before a b \<longleftrightarrow>
     (case (semanticAssessmentEvidenceIndex (qg_id a), semanticAssessmentEvidenceIndex (qg_id b)) of
        (Some i, Some j) \<Rightarrow> if i \<noteq> j then i < j else qg_id a < qg_id b
      | (Some _, None) \<Rightarrow> True
      | (None, Some _) \<Rightarrow> False
      | (None, None) \<Rightarrow> qg_id a < qg_id b)"

interpretation group_index_order: weak_order group_index_before
proof
  fix x y z
  show "group_index_before x y \<Longrightarrow> \<not> group_index_before y x"
    by (auto simp: group_index_before_def split: option.splits if_splits)
  show "group_index_before x z \<Longrightarrow> group_index_before x y \<or> group_index_before y z"
    by (auto simp: group_index_before_def split: option.splits if_splits)
qed

section \<open>Allocation\<close>

definition known_keys :: "required_relationship list \<Rightarrow> string list" where
  "known_keys ts = filter (\<lambda>k. k \<noteq> []) (map (\<lambda>t. trim_space (rl_known_key t)) ts)"

definition mandatory_keys :: "assessment_request \<Rightarrow> string list" where
  "mandatory_keys req = known_keys (aq_required req)
     @ (case aq_contract req of None \<Rightarrow> [] | Some c \<Rightarrow> known_keys (ct_relationships c))"

text \<open>The request with its last token counts.\<close>

record allocation =
  ac_req :: assessment_request
  ac_input :: int
  ac_context :: int

definition fits :: "assessment_limits \<Rightarrow> int \<Rightarrow> int \<times> int \<Rightarrow> bool" where
  "fits l limit n \<longleftrightarrow> snd n \<le> al_context l \<and> fst n \<le> limit"

text \<open>An error of the counter is \<open>Inl\<close>, with the request as it is then.\<close>

definition try_option :: "token_count \<Rightarrow> assessment_limits \<Rightarrow> int \<Rightarrow> predicate_option \<Rightarrow> allocation \<Rightarrow> assessment_request + allocation" where
  "try_option tokens l limit p st =
     (let req = (ac_req st)\<lparr>aq_options := aq_options (ac_req st) @ [p]\<rparr> in
      case tokens req l of
        None \<Rightarrow> Inl req
      | Some n \<Rightarrow>
          Inr (if fits l limit n then \<lparr>ac_req = req, ac_input = fst n, ac_context = snd n\<rparr>
                else st\<lparr>ac_req := (ac_req st)\<lparr>aq_omitted_options := aq_omitted_options (ac_req st) + 1\<rparr>\<rparr>))"

definition add_candidate :: "nat \<Rightarrow> equivalence_candidate \<Rightarrow> equivalence_group list \<Rightarrow> equivalence_group list" where
  "add_candidate k c gs = gs[k := (gs ! k)\<lparr>qg_candidates := qg_candidates (gs ! k) @ [c]\<rparr>]"

definition try_candidate ::
  "token_count \<Rightarrow> assessment_limits \<Rightarrow> int \<Rightarrow> nat \<Rightarrow> equivalence_candidate \<Rightarrow> allocation \<Rightarrow> assessment_request + allocation" where
  "try_candidate tokens l limit k c st =
     (let req = (ac_req st)\<lparr>aq_equivalence := add_candidate k c (aq_equivalence (ac_req st))\<rparr> in
      case tokens req l of
        None \<Rightarrow> Inl req
      | Some n \<Rightarrow>
          Inr (if fits l limit n then \<lparr>ac_req = req, ac_input = fst n, ac_context = snd n\<rparr>
                else st\<lparr>ac_req := (ac_req st)\<lparr>aq_omitted_candidates := aq_omitted_candidates (ac_req st) + 1\<rparr>\<rparr>))"

text \<open>One round over the groups from group \<open>k\<close> on, and all rounds.\<close>

fun group_round ::
  "token_count \<Rightarrow> assessment_limits \<Rightarrow> int \<Rightarrow> nat \<Rightarrow> nat \<Rightarrow> equivalence_candidate list list \<Rightarrow> allocation \<Rightarrow> assessment_request + allocation" where
  "group_round tokens l limit r k [] st = Inr st"
| "group_round tokens l limit r k (cs # css) st =
     (if r < length cs
      then case try_candidate tokens l limit k (cs ! r) st of
             Inl q \<Rightarrow> Inl q | Inr st' \<Rightarrow> group_round tokens l limit r (Suc k) css st'
      else group_round tokens l limit r (Suc k) css st)"

fun allocation_rounds ::
  "token_count \<Rightarrow> assessment_limits \<Rightarrow> int \<Rightarrow> predicate_option list \<Rightarrow> equivalence_candidate list list \<Rightarrow> nat \<Rightarrow> nat
   \<Rightarrow> allocation \<Rightarrow> assessment_request + allocation" where
  "allocation_rounds tokens l limit ps css r 0 st = Inr st"
| "allocation_rounds tokens l limit ps css r (Suc n) st =
     (case (if r < length ps then try_option tokens l limit (ps ! r) st else Inr st) of
        Inl q \<Rightarrow> Inl q
      | Inr st' \<Rightarrow>
          (case group_round tokens l limit r 0 css st' of
             Inl q \<Rightarrow> Inl q | Inr st'' \<Rightarrow> allocation_rounds tokens l limit ps css (Suc r) n st''))"

definition max_rounds :: "'a list \<Rightarrow> 'b list list \<Rightarrow> nat" where
  "max_rounds ps css = foldl (\<lambda>m cs. max m (length cs)) (length ps) css"

definition allocateSemanticAssessmentOptionalContext ::
  "token_count \<Rightarrow> assessment_request \<Rightarrow> assessment_limits \<Rightarrow> assessment_request + assessment_request \<times> semantic_error list" where
  "allocateSemanticAssessmentOptionalContext tokens req limits =
     (let l = normalizeSemanticAssessmentLimits limits;
          limit = semanticAssessmentConversationInputLimit l;
          required = mandatory_keys req;
          is_required = (\<lambda>p. trim_space (po_key p) \<in> set required);
          groups = go_sort group_index_before (aq_equivalence req);
          css = map qg_candidates groups;
          optional = filter (\<lambda>p. \<not> is_required p) (aq_options req);
          start = req\<lparr>aq_omitted_candidates := 0, aq_omitted_options := 0, aq_options := filter is_required (aq_options req),
                      aq_equivalence := map (\<lambda>g. g\<lparr>qg_candidates := []\<rparr>) groups\<rparr> in
      case tokens start l of
        None \<Rightarrow> Inl start
      | Some (input, context) \<Rightarrow>
          (let start = start\<lparr>aq_input_tokens := input, aq_context_tokens := context\<rparr> in
           if al_context l < context
           then Inr (start, [semanticErr ''candidate_context_tokens''
                  (''required assessor context exceeds the configured budget (observed '' @ go_decimal context
                   @ '', limit '' @ go_decimal (al_context l) @ '')'')])
           else if limit < input
           then Inr (start, [semanticErr ''input_tokens''
                  (''required assessor input leaves insufficient repair headroom (observed '' @ go_decimal input
                   @ '', limit '' @ go_decimal limit @ '')'')])
           else case allocation_rounds tokens l limit optional css 0 (max_rounds optional css)
                       \<lparr>ac_req = start, ac_input = input, ac_context = context\<rparr> of
                  Inl q \<Rightarrow> Inl q
                | Inr st \<Rightarrow>
                    (let r = ac_req st in
                     Inr (r\<lparr>aq_truncated := (aq_truncated req \<or> 0 < aq_omitted_candidates r \<or> 0 < aq_omitted_options r),
                             aq_context_tokens := ac_context st, aq_input_tokens := ac_input st\<rparr>, []))))"

section \<open>The prepared request\<close>

definition PrepareSemanticAssessmentRequest ::
  "assess_env \<Rightarrow> token_count \<Rightarrow> assessment_request \<Rightarrow> assessment_limits \<Rightarrow> (assessment_request \<times> semantic_error list) option" where
  "PrepareSemanticAssessmentRequest E tokens req limits =
     (let l = normalizeSemanticAssessmentLimits limits in
      case normalized_request E req l of
        None \<Rightarrow> None
      | Some (req, errs) \<Rightarrow>
          if errs \<noteq> [] then Some (req, errs)
          else (case allocateSemanticAssessmentOptionalContext tokens req l of
                  Inl req' \<Rightarrow> Some (req', [semanticErr ''request'' ''cannot be serialized''])
                | Inr result \<Rightarrow> Some result))"


section \<open>What an allocation keeps\<close>

text \<open>The parts of a request that the allocation does not touch.\<close>

definition same_frame :: "assessment_request \<Rightarrow> assessment_request \<Rightarrow> bool" where
  "same_frame a b \<longleftrightarrow> aq_request a = aq_request b \<and> aq_evidence a = aq_evidence b \<and> aq_known a = aq_known b \<and> aq_groups a = aq_groups b
     \<and> aq_required a = aq_required b \<and> aq_contract a = aq_contract b \<and> aq_entities a = aq_entities b
     \<and> aq_relationships a = aq_relationships b"

definition options_kept :: "predicate_option list \<Rightarrow> predicate_option list \<Rightarrow> nat \<Rightarrow> assessment_request \<Rightarrow> bool" where
  "options_kept required ps r req \<longleftrightarrow> (\<exists>ys. aq_options req = required @ ys \<and> subseq ys (take r ps)
     \<and> int (length ys) + aq_omitted_options req = int (min r (length ps)))"

text \<open>\<open>seen j\<close> is the number of candidates of group \<open>j\<close> that have been tried.\<close>

definition candidates_kept :: "equivalence_group list \<Rightarrow> (nat \<Rightarrow> nat) \<Rightarrow> assessment_request \<Rightarrow> bool" where
  "candidates_kept gs seen req \<longleftrightarrow> map qg_id (aq_equivalence req) = map qg_id gs
     \<and> (\<forall>j < length gs. subseq (qg_candidates (aq_equivalence req ! j)) (take (seen j) (qg_candidates (gs ! j))))
     \<and> (\<Sum>j < length gs. int (length (qg_candidates (aq_equivalence req ! j)))) + aq_omitted_candidates req
         = (\<Sum>j < length gs. int (min (seen j) (length (qg_candidates (gs ! j)))))"

text \<open>The counts are those of a request with the same content.\<close>

definition counted_by :: "token_count \<Rightarrow> assessment_limits \<Rightarrow> assessment_request \<Rightarrow> int \<times> int \<Rightarrow> bool" where
  "counted_by tokens l req n \<longleftrightarrow> (\<exists>q. tokens q l = Some n \<and> same_frame q req \<and> aq_options q = aq_options req
     \<and> aq_equivalence q = aq_equivalence req)"

lemma counted_by_same [simp]: "counted_by tokens l (req\<lparr>aq_omitted_options := k\<rparr>) n = counted_by tokens l req n"
  "counted_by tokens l (req\<lparr>aq_omitted_candidates := k\<rparr>) n = counted_by tokens l req n"
  "counted_by tokens l (req\<lparr>aq_truncated := t\<rparr>) n = counted_by tokens l req n"
  "counted_by tokens l (req\<lparr>aq_context_tokens := k\<rparr>) n = counted_by tokens l req n"
  "counted_by tokens l (req\<lparr>aq_input_tokens := k\<rparr>) n = counted_by tokens l req n"
  by (simp_all add: counted_by_def same_frame_def)

lemma counted_by_self: "tokens req l = Some n \<Longrightarrow> counted_by tokens l req n"
  by (auto simp: counted_by_def same_frame_def)

definition within :: "token_count \<Rightarrow> assessment_limits \<Rightarrow> int \<Rightarrow> allocation \<Rightarrow> bool" where
  "within tokens l limit st \<longleftrightarrow> fits l limit (ac_input st, ac_context st) \<and> counted_by tokens l (ac_req st) (ac_input st, ac_context st)
     \<and> 0 \<le> aq_omitted_options (ac_req st) \<and> 0 \<le> aq_omitted_candidates (ac_req st)"

lemma subseq_snoc: "subseq ys (take r ps) \<Longrightarrow> r < length ps \<Longrightarrow> subseq (ys @ [ps ! r]) (take (Suc r) ps) \<and> subseq ys (take (Suc r) ps)"
  by (simp add: take_Suc_conv_app_nth subseq_append list_emb_prefix)

lemma try_option_ok:
  assumes "try_option tokens l limit (ps ! r) st = Inr st'" and "r < length ps" and "within tokens l limit st"
    and "options_kept required ps r (ac_req st)"
  shows "within tokens l limit st' \<and> options_kept required ps (Suc r) (ac_req st') \<and> same_frame (ac_req st') (ac_req st)
    \<and> aq_equivalence (ac_req st') = aq_equivalence (ac_req st) \<and> aq_omitted_candidates (ac_req st') = aq_omitted_candidates (ac_req st)"
proof -
  let ?req = "(ac_req st)\<lparr>aq_options := aq_options (ac_req st) @ [ps ! r]\<rparr>"
  from assms(4) obtain ys where ys: "aq_options (ac_req st) = required @ ys" "subseq ys (take r ps)"
    "int (length ys) + aq_omitted_options (ac_req st) = int (min r (length ps))" by (auto simp: options_kept_def)
  obtain n where n: "tokens ?req l = Some n" using assms(1) by (cases "tokens ?req l") (auto simp: try_option_def Let_def)
  show ?thesis
  proof (cases "fits l limit n")
    case True
    then have "st' = \<lparr>ac_req = ?req, ac_input = fst n, ac_context = snd n\<rparr>" using assms(1) n by (simp add: try_option_def Let_def)
    then show ?thesis using True assms(2,3) ys subseq_snoc [OF ys(2) assms(2)] counted_by_self [of tokens ?req l n, OF n]
      by (auto simp: within_def options_kept_def same_frame_def intro!: exI [of _ "ys @ [ps ! r]"])
  next
    case False
    then have "st' = st\<lparr>ac_req := (ac_req st)\<lparr>aq_omitted_options := aq_omitted_options (ac_req st) + 1\<rparr>\<rparr>"
      using assms(1) n by (simp add: try_option_def Let_def)
    then show ?thesis using assms(2,3) ys subseq_snoc [OF ys(2) assms(2)]
      by (auto simp: within_def options_kept_def same_frame_def intro!: exI [of _ ys])
  qed
qed

lemma sum_one_more: "k < (n::nat) \<Longrightarrow> (\<Sum>j<n. if j = k then f j + (1::int) else f j) = (\<Sum>j<n. f j) + 1"
proof -
  assume k: "k < n"
  have "(\<Sum>j<n. if j = k then f j + 1 else f j) = (\<Sum>j<n. f j + (if j = k then 1 else 0))" by (intro sum.cong) auto
  also have "\<dots> = (\<Sum>j<n. f j) + (\<Sum>j<n. if j = k then 1 else 0)" by (rule sum.distrib)
  finally show ?thesis using k by (simp add: sum.delta)
qed

lemma try_candidate_ok:
  assumes "try_candidate tokens l limit k (qg_candidates (gs ! k) ! r) st = Inr st'" and "k < length gs"
    and "r < length (qg_candidates (gs ! k))" and "seen k = r" and "within tokens l limit st" and "candidates_kept gs seen (ac_req st)"
  shows "within tokens l limit st' \<and> candidates_kept gs (seen(k := Suc r)) (ac_req st') \<and> same_frame (ac_req st') (ac_req st)
    \<and> aq_options (ac_req st') = aq_options (ac_req st) \<and> aq_omitted_options (ac_req st') = aq_omitted_options (ac_req st)"
proof -
  let ?es = "aq_equivalence (ac_req st)" let ?c = "qg_candidates (gs ! k) ! r"
  let ?req = "(ac_req st)\<lparr>aq_equivalence := add_candidate k ?c ?es\<rparr>"
  have K: "map qg_id ?es = map qg_id gs"
    "\<forall>j < length gs. subseq (qg_candidates (?es ! j)) (take (seen j) (qg_candidates (gs ! j)))"
    "(\<Sum>j < length gs. int (length (qg_candidates (?es ! j)))) + aq_omitted_candidates (ac_req st)
         = (\<Sum>j < length gs. int (min (seen j) (length (qg_candidates (gs ! j)))))"
    using assms(6) by (auto simp: candidates_kept_def)
  have len: "length ?es = length gs" using K(1) by (metis length_map)
  have ids: "map qg_id (add_candidate k ?c ?es) = map qg_id gs"
    using assms(2) len K(1) by (metis (no_types, lifting) add_candidate_def equivalence_group.simps(1,5) list_update_id map_update nth_map
        equivalence_group.surjective equivalence_group.update_convs(2))
  have target: "(\<Sum>j < length gs. int (min ((seen(k := Suc r)) j) (length (qg_candidates (gs ! j)))))
      = (\<Sum>j < length gs. int (min (seen j) (length (qg_candidates (gs ! j))))) + 1"
  proof -
    have "(\<Sum>j < length gs. int (min ((seen(k := Suc r)) j) (length (qg_candidates (gs ! j)))))
        = (\<Sum>j < length gs. if j = k then int (min (seen j) (length (qg_candidates (gs ! j)))) + 1
            else int (min (seen j) (length (qg_candidates (gs ! j)))))"
      using assms(3,4) by (intro sum.cong) auto
    then show ?thesis using sum_one_more [OF assms(2)] by simp
  qed
  obtain n where n: "tokens ?req l = Some n" using assms(1) by (cases "tokens ?req l") (auto simp: try_candidate_def Let_def)
  have sub: "subseq (qg_candidates (?es ! k) @ [?c]) (take (Suc r) (qg_candidates (gs ! k))) \<and>
      subseq (qg_candidates (?es ! k)) (take (Suc r) (qg_candidates (gs ! k)))"
    using K(2) assms(2,3,4) by (intro subseq_snoc) auto
  show ?thesis
  proof (cases "fits l limit n")
    case True
    then have st': "st' = \<lparr>ac_req = ?req, ac_input = fst n, ac_context = snd n\<rparr>" using assms(1) n by (simp add: try_candidate_def Let_def)
    have grown: "qg_candidates (add_candidate k ?c ?es ! j) = (if j = k then qg_candidates (?es ! k) @ [?c] else qg_candidates (?es ! j))" for j
      using assms(2) len by (simp add: add_candidate_def nth_list_update)
    have "(\<Sum>j < length gs. int (length (qg_candidates (add_candidate k ?c ?es ! j)))) = (\<Sum>j < length gs. int (length (qg_candidates (?es ! j)))) + 1"
    proof -
      have "(\<Sum>j < length gs. int (length (qg_candidates (add_candidate k ?c ?es ! j))))
          = (\<Sum>j < length gs. if j = k then int (length (qg_candidates (?es ! j))) + 1 else int (length (qg_candidates (?es ! j))))"
        by (intro sum.cong) (auto simp: grown)
      then show ?thesis using sum_one_more [OF assms(2)] by simp
    qed
    then have "candidates_kept gs (seen(k := Suc r)) ?req"
      unfolding candidates_kept_def using ids target K sub by (auto simp: grown)
    then show ?thesis using True assms(5) by (simp add: st' within_def same_frame_def counted_by_self n)
  next
    case False
    then have st': "st' = st\<lparr>ac_req := (ac_req st)\<lparr>aq_omitted_candidates := aq_omitted_candidates (ac_req st) + 1\<rparr>\<rparr>"
      using assms(1) n by (simp add: try_candidate_def Let_def)
    have "candidates_kept gs (seen(k := Suc r)) (ac_req st')"
      unfolding candidates_kept_def st' using target K sub by auto
    then show ?thesis using assms(5) by (simp add: st' within_def same_frame_def counted_by_self n)
  qed
qed


lemma same_frame_trans: "same_frame a b \<Longrightarrow> same_frame b c \<Longrightarrow> same_frame a c"
  by (simp add: same_frame_def)

lemma same_frame_refl [simp]: "same_frame a a"
  by (simp add: same_frame_def)

text \<open>After a round every group has been tried once more.\<close>

lemma group_round_ok:
  assumes "group_round tokens l limit r k css st = Inr st'" and "css = map qg_candidates (drop k gs)" and "k \<le> length gs"
    and "within tokens l limit st" and "candidates_kept gs (\<lambda>j. if j < k then Suc r else r) (ac_req st)"
  shows "within tokens l limit st' \<and> candidates_kept gs (\<lambda>_. Suc r) (ac_req st') \<and> same_frame (ac_req st') (ac_req st)
    \<and> aq_options (ac_req st') = aq_options (ac_req st) \<and> aq_omitted_options (ac_req st') = aq_omitted_options (ac_req st)"
  using assms
proof (induction css arbitrary: k st)
  case Nil
  then have "k = length gs" by simp
  moreover have "candidates_kept gs (\<lambda>j. if j < length gs then Suc r else r) q = candidates_kept gs (\<lambda>_. Suc r) q" for q
    by (simp add: candidates_kept_def)
  ultimately show ?case using Nil by simp
next
  case (Cons cs css)
  have k: "k < length gs" using Cons.prems(2) by (cases "k < length gs") simp_all
  have cs: "cs = qg_candidates (gs ! k)" and css: "css = map qg_candidates (drop (Suc k) gs)"
    using Cons.prems(2) k by (simp_all add: Cons_nth_drop_Suc [symmetric])
  have upd: "(\<lambda>j. if j < k then Suc r else r)(k := Suc r) = (\<lambda>j. if j < Suc k then Suc r else r)"
    by (auto simp: fun_eq_iff)
  show ?case
  proof (cases "r < length cs")
    case True
    obtain st1 where st1: "try_candidate tokens l limit k (cs ! r) st = Inr st1"
      and rest: "group_round tokens l limit r (Suc k) css st1 = Inr st'"
      using Cons.prems(1) True by (auto split: sum.splits)
    note step = try_candidate_ok [OF st1 [unfolded cs] k True [unfolded cs] _ Cons.prems(4,5), unfolded upd, simplified]
    from Cons.IH [OF rest css] k step show ?thesis by (auto intro: same_frame_trans)
  next
    case False
    have "candidates_kept gs (\<lambda>j. if j < Suc k then Suc r else r) (ac_req st) = candidates_kept gs (\<lambda>j. if j < k then Suc r else r) (ac_req st)"
    proof -
      have t: "take (if j < Suc k then Suc r else r) (qg_candidates (gs ! j)) = take (if j < k then Suc r else r) (qg_candidates (gs ! j))" for j
        using False cs by (cases "j = k") auto
      have "min (if j < Suc k then Suc r else r) (length (qg_candidates (gs ! j))) = min (if j < k then Suc r else r) (length (qg_candidates (gs ! j)))" for j
        using False cs by (cases "j = k") auto
      then show ?thesis unfolding candidates_kept_def by (simp only: t)
    qed
    then show ?thesis using Cons.IH [of "Suc k" st] Cons.prems False k css by simp
  qed
qed

lemma allocation_rounds_ok:
  assumes "allocation_rounds tokens l limit ps (map qg_candidates gs) r n st = Inr st'"
    and "within tokens l limit st" and "options_kept required ps r (ac_req st)" and "candidates_kept gs (\<lambda>_. r) (ac_req st)"
  shows "within tokens l limit st' \<and> options_kept required ps (r + n) (ac_req st') \<and> candidates_kept gs (\<lambda>_. r + n) (ac_req st')
    \<and> same_frame (ac_req st') (ac_req st)"
  using assms
proof (induction n arbitrary: r st)
  case (Suc n)
  obtain st1 where st1: "(if r < length ps then try_option tokens l limit (ps ! r) st else Inr st) = Inr st1"
    using Suc.prems(1) by (auto split: sum.splits)
  then obtain st2 where st2: "group_round tokens l limit r 0 (map qg_candidates gs) st1 = Inr st2"
    and rest: "allocation_rounds tokens l limit ps (map qg_candidates gs) (Suc r) n st2 = Inr st'"
    using Suc.prems(1) by (auto split: sum.splits)
  have one: "within tokens l limit st1 \<and> options_kept required ps (Suc r) (ac_req st1) \<and> same_frame (ac_req st1) (ac_req st)
    \<and> aq_equivalence (ac_req st1) = aq_equivalence (ac_req st) \<and> aq_omitted_candidates (ac_req st1) = aq_omitted_candidates (ac_req st)"
  proof (cases "r < length ps")
    case True
    then show ?thesis using try_option_ok [of tokens l limit ps r st st1 required] st1 Suc.prems by simp
  next
    case False
    then have "options_kept required ps (Suc r) (ac_req st)" using Suc.prems(3) by (simp add: options_kept_def min_absorb2)
    then show ?thesis using False st1 Suc.prems by simp
  qed
  then have kept: "candidates_kept gs (\<lambda>j. if j < 0 then Suc r else r) (ac_req st1)"
    using Suc.prems(4) by (simp add: candidates_kept_def)
  have two: "within tokens l limit st2 \<and> candidates_kept gs (\<lambda>_. Suc r) (ac_req st2) \<and> same_frame (ac_req st2) (ac_req st1)
    \<and> aq_options (ac_req st2) = aq_options (ac_req st1) \<and> aq_omitted_options (ac_req st2) = aq_omitted_options (ac_req st1)"
    using group_round_ok [OF st2 _ _ _ kept] one by simp
  then have "options_kept required ps (Suc r) (ac_req st2)" using one by (simp add: options_kept_def)
  from Suc.IH [OF rest _ this] two one show ?case by (auto intro: same_frame_trans)
qed simp

lemma max_rounds_ge: "length ps \<le> max_rounds ps css \<and> (\<forall>cs \<in> set css. length cs \<le> max_rounds ps css)"
proof -
  have "m \<le> foldl (\<lambda>m cs. max m (length cs)) m css \<and> (\<forall>cs \<in> set css. length cs \<le> foldl (\<lambda>m cs. max m (length cs)) m css)" for m
  proof (induction css arbitrary: m)
    case (Cons c css)
    from Cons [of "max m (length c)"] show ?case by auto
  qed simp
  then show ?thesis unfolding max_rounds_def by blast
qed


text \<open>What an admitted allocation has established, for the groups \<open>gs\<close> in their order and the options split by whether
  a submitted relationship names them.\<close>

definition named_option :: "assessment_request \<Rightarrow> predicate_option \<Rightarrow> bool" where
  "named_option req p \<longleftrightarrow> trim_space (po_key p) \<in> set (mandatory_keys req)"

lemma allocation_admitted:
  assumes "allocateSemanticAssessmentOptionalContext tokens req limits = Inr (r, [])"
    and l: "l = normalizeSemanticAssessmentLimits limits" and gs: "gs = go_sort group_index_before (aq_equivalence req)"
    and ps: "ps = filter (\<lambda>p. \<not> named_option req p) (aq_options req)" and n: "n = max_rounds ps (map qg_candidates gs)"
  obtains st where "within tokens l (semanticAssessmentConversationInputLimit l) st"
    and "options_kept (filter (named_option req) (aq_options req)) ps n (ac_req st)" and "candidates_kept gs (\<lambda>_. n) (ac_req st)"
    and "same_frame (ac_req st) req"
    and "r = (ac_req st)\<lparr>aq_truncated := (aq_truncated req \<or> 0 < aq_omitted_candidates (ac_req st) \<or> 0 < aq_omitted_options (ac_req st)),
      aq_context_tokens := ac_context st, aq_input_tokens := ac_input st\<rparr>"
proof -
  let ?limit = "semanticAssessmentConversationInputLimit l" let ?required = "filter (named_option req) (aq_options req)"
  let ?start = "req\<lparr>aq_omitted_candidates := 0, aq_omitted_options := 0, aq_options := ?required,
                      aq_equivalence := map (\<lambda>g. g\<lparr>qg_candidates := []\<rparr>) gs\<rparr>"
  note run = assms(1) [unfolded allocateSemanticAssessmentOptionalContext_def Let_def, folded l, folded gs named_option_def, folded ps, folded n]
  obtain inp ctx where tok: "tokens ?start l = Some (inp, ctx)" using run by (cases "tokens ?start l") auto
  let ?first = "?start\<lparr>aq_input_tokens := inp, aq_context_tokens := ctx\<rparr>"
  let ?st = "\<lparr>ac_req = ?first, ac_input = inp, ac_context = ctx\<rparr>"
  have fit: "ctx \<le> al_context l" "inp \<le> ?limit" using run tok by (auto split: if_splits)
  obtain st where st: "allocation_rounds tokens l ?limit ps (map qg_candidates gs) 0 n ?st = Inr st"
    and r: "r = (ac_req st)\<lparr>aq_truncated := (aq_truncated req \<or> 0 < aq_omitted_candidates (ac_req st) \<or> 0 < aq_omitted_options (ac_req st)),
      aq_context_tokens := ac_context st, aq_input_tokens := ac_input st\<rparr>"
    using run tok fit by (auto split: sum.splits if_splits)
  have "within tokens l ?limit ?st" "options_kept ?required ps 0 (ac_req ?st)" "candidates_kept gs (\<lambda>_. 0) (ac_req ?st)"
    using fit counted_by_self [of tokens ?start l "(inp, ctx)", OF tok] by (simp_all add: within_def fits_def options_kept_def candidates_kept_def o_def)
  from allocation_rounds_ok [OF st this] that [OF _ _ _ _ r] show ?thesis by (simp add: same_frame_def)
qed

lemma allocation_frame:
  assumes "allocateSemanticAssessmentOptionalContext tokens req limits = Inr (r, [])"
  shows "same_frame r req"
proof (rule allocation_admitted [OF assms refl refl refl refl])
  fix st assume "same_frame (ac_req st) req"
    and "r = (ac_req st)\<lparr>aq_truncated := (aq_truncated req \<or> 0 < aq_omitted_candidates (ac_req st) \<or> 0 < aq_omitted_options (ac_req st)),
      aq_context_tokens := ac_context st, aq_input_tokens := ac_input st\<rparr>"
  then show "same_frame r req" by (simp add: same_frame_def)
qed

text \<open>C21 (allocation_within_budget): An admitted request fits both token budgets by the count of its content, keeps every
  predicate option that a submitted relationship names and every equivalence group, in the order of the evidence, and
  what it adds of the optional options and
  candidates is a subsequence of what was offered; the omitted ones are counted, and any omission is marked.\<close>

theorem allocation_within_budget:
  assumes "allocateSemanticAssessmentOptionalContext tokens req limits = Inr (r, [])"
  shows "let l = normalizeSemanticAssessmentLimits limits; groups = go_sort group_index_before (aq_equivalence req);
      required = filter (named_option req) (aq_options req);
      optional = filter (\<lambda>p. \<not> named_option req p) (aq_options req) in
    counted_by tokens l r (aq_input_tokens r, aq_context_tokens r)
    \<and> aq_context_tokens r \<le> al_context l \<and> aq_input_tokens r \<le> semanticAssessmentConversationInputLimit l
    \<and> sorted_wrt (\<lambda>a b. \<not> group_index_before b a) groups
    \<and> (\<exists>ys. aq_options r = required @ ys \<and> subseq ys optional
        \<and> int (length ys) + aq_omitted_options r = int (length optional))
    \<and> map qg_id (aq_equivalence r) = map qg_id groups
    \<and> (\<forall>j < length groups. subseq (qg_candidates (aq_equivalence r ! j)) (qg_candidates (groups ! j)))
    \<and> (\<Sum>j < length groups. int (length (qg_candidates (aq_equivalence r ! j)))) + aq_omitted_candidates r
        = (\<Sum>j < length groups. int (length (qg_candidates (groups ! j))))
    \<and> aq_truncated r = (aq_truncated req \<or> 0 < aq_omitted_candidates r \<or> 0 < aq_omitted_options r)"
proof -
  let ?l = "normalizeSemanticAssessmentLimits limits" let ?groups = "go_sort group_index_before (aq_equivalence req)"
  let ?optional = "filter (\<lambda>p. \<not> named_option req p) (aq_options req)" let ?css = "map qg_candidates ?groups"
  obtain st where W: "within tokens ?l (semanticAssessmentConversationInputLimit ?l) st"
    and O: "options_kept (filter (named_option req) (aq_options req)) ?optional (max_rounds ?optional ?css) (ac_req st)"
    and C: "candidates_kept ?groups (\<lambda>_. max_rounds ?optional ?css) (ac_req st)"
    and r: "r = (ac_req st)\<lparr>aq_truncated := (aq_truncated req \<or> 0 < aq_omitted_candidates (ac_req st) \<or> 0 < aq_omitted_options (ac_req st)),
      aq_context_tokens := ac_context st, aq_input_tokens := ac_input st\<rparr>"
    by (rule allocation_admitted [OF assms refl refl refl refl])
  have bound: "length ?optional \<le> max_rounds ?optional ?css"
    "\<And>j. j < length ?groups \<Longrightarrow> length (qg_candidates (?groups ! j)) \<le> max_rounds ?optional ?css"
    using max_rounds_ge [of ?optional ?css] by (auto simp only: set_map nth_mem ball_simps)
  from O bound(1) have opts: "\<exists>ys. aq_options (ac_req st) = filter (named_option req) (aq_options req) @ ys \<and> subseq ys ?optional
      \<and> int (length ys) + aq_omitted_options (ac_req st) = int (length ?optional)"
    by (simp only: options_kept_def min_absorb2 take_all)
  have "(\<Sum>j < length ?groups. int (min (max_rounds ?optional ?css) (length (qg_candidates (?groups ! j)))))
      = (\<Sum>j < length ?groups. int (length (qg_candidates (?groups ! j))))"
    by (intro sum.cong) (simp_all add: bound(2) min_absorb2 del: length_go_sort)
  then have cands: "map qg_id (aq_equivalence (ac_req st)) = map qg_id ?groups"
    "\<forall>j < length ?groups. subseq (qg_candidates (aq_equivalence (ac_req st) ! j)) (qg_candidates (?groups ! j))"
    "(\<Sum>j < length ?groups. int (length (qg_candidates (aq_equivalence (ac_req st) ! j)))) + aq_omitted_candidates (ac_req st)
        = (\<Sum>j < length ?groups. int (length (qg_candidates (?groups ! j))))"
    using C bound(2) unfolding candidates_kept_def by (simp_all del: length_go_sort)
  show ?thesis using W opts cands group_index_order.sorted_go_sort unfolding r within_def fits_def Let_def by simp
qed

text \<open>One named option and two more: the counter charges an option a token and the limit is two.\<close>

definition sample_limits :: assessment_limits where
  "sample_limits = DefaultSemanticAssessmentLimits\<lparr>al_output := 1, al_input := 8196\<rparr>"

definition plain_option :: "string \<Rightarrow> predicate_option" where
  "plain_option key = \<lparr>po_key = key, po_version = 1, po_aliases = [], po_subjects = [''person''], po_objects = [''concept''],
     po_kind = ''attribute'', po_cardinality = ''many''\<rparr>"

definition naming :: "string \<Rightarrow> required_relationship" where
  "naming key = \<lparr>rl_id = ''r'', rl_hint = ''h'', rl_known_key = key, rl_evidence_ids = [], rl_known_ids = [], rl_unavailable = False,
     rl_evidence = [], rl_subject = ''s'', rl_original = [], rl_object_ref = None, rl_value = None, rl_polarity = ''+'',
     rl_from = None, rl_to = None, rl_max_splits = 0\<rparr>"

definition option_request :: assessment_request where
  "option_request = \<lparr>aq_request = ''q'', aq_team = ''t'', aq_owner = [], aq_evidence = [], aq_known = [], aq_equivalence = [],
     aq_proposal = None, aq_groups = [], aq_options = map plain_option [''c'', ''a'', ''b''], aq_required = [naming ''a''],
     aq_entities = [], aq_relationships = [], aq_contract = None, aq_context_tokens = 0, aq_truncated = False,
     aq_omitted_candidates = 0, aq_omitted_options = 0, aq_input_tokens = 0, aq_routing = None\<rparr>"

lemma normal_budget: "al_input (normalizeSemanticAssessmentLimits l) = positive_or (al_input l) 200000"
  "al_output (normalizeSemanticAssessmentLimits l) = positive_or (al_output l) 65536"
  "al_context (normalizeSemanticAssessmentLimits l) = positive_or (al_context l) 50000"
  by (simp_all add: normalizeSemanticAssessmentLimits_def DefaultSemanticAssessmentLimits_def Let_def)

lemma sample_budget:
  "semanticAssessmentConversationInputLimit (normalizeSemanticAssessmentLimits sample_limits) = 2"
  "0 \<le> al_context (normalizeSemanticAssessmentLimits sample_limits)"
  by (simp_all add: semanticAssessmentConversationInputLimit_def normal_budget positive_or_def sample_limits_def Let_def wrap64_def
      SemanticAssessmentMaxProviderTurns_def semanticAssessmentRepairSafetyTokens_def DefaultSemanticAssessmentLimits_def)

lemma sample_names: "named_option option_request (plain_option k) \<longleftrightarrow> trim_space k = ''a''"
  by (simp add: named_option_def mandatory_keys_def known_keys_def option_request_def plain_option_def naming_def go_string_eval)

lemma sample_trims: "trim_space ''a'' = ''a''" "trim_space ''b'' = ''b''" "trim_space ''c'' = ''c''"
  by (simp_all add: go_string_eval)

lemma sample_allocation:
  "allocateSemanticAssessmentOptionalContext (\<lambda>r _. Some (int (length (aq_options r)), 0)) option_request sample_limits
     = Inr (option_request\<lparr>aq_options := map plain_option [''a'', ''c''], aq_omitted_options := 1, aq_truncated := True,
         aq_input_tokens := 2\<rparr>, [])"
proof -
  have ops: "aq_options option_request = map plain_option [''c'', ''a'', ''b'']" "aq_equivalence option_request = []"
      "aq_truncated option_request = False" "aq_context_tokens option_request = 0"
    by (simp_all add: option_request_def)
  show ?thesis
    unfolding allocateSemanticAssessmentOptionalContext_def Let_def named_option_def [symmetric] ops(1,2) sample_budget(1)
    using sample_budget(2)
    by (simp add: sample_names sample_trims max_rounds_def try_option_def fits_def ops) (simp add: option_request_def)
qed

lemma allocation_within_budget_witness:
  "aq_input_tokens (option_request\<lparr>aq_options := map plain_option [''a'', ''c''], aq_omitted_options := 1, aq_truncated := True,
         aq_input_tokens := 2\<rparr>) \<le> 2 \<and> sample_limits \<noteq> DefaultSemanticAssessmentLimits"
proof -
  note bound = allocation_within_budget [OF sample_allocation, unfolded Let_def sample_budget(1)]
  have "al_output sample_limits = 1" "al_output DefaultSemanticAssessmentLimits \<noteq> 1"
    by (simp_all add: sample_limits_def DefaultSemanticAssessmentLimits_def)
  then show ?thesis using bound by auto
qed

end
