(* ===== verification/Assessor_Prepare.thy ===== *)
theory Assessor_Prepare
  imports Assessor_Conflicts
begin

text \<open>
  \<open>PrepareSemanticAssessmentResponse\<close>, internal/assessor/assessor.go, composed of the normalization, the
  resolvers and the validators, and what a response without errors satisfies: this is the boundary between
  the model that assesses a submission and the server that stores it.
\<close>

section \<open>The composition\<close>

text \<open>\<open>ce_json\<close> is \<open>semanticAssessmentGenerationJSON\<close> (\<open>None\<close> for an error), \<open>ce_count\<close> counts tokens with a named
  tokenizer (or fails with a text), \<open>ce_quote\<close> is \<open>strconv.Quote\<close>.\<close>

record codec_env = assess_env +
  ce_json :: "assessment_response \<Rightarrow> string option"
  ce_count :: "string \<Rightarrow> string \<Rightarrow> string + int"
  ce_quote :: "string \<Rightarrow> string"

text \<open>Everything before the canonical encoding: the response and its errors.\<close>

definition checked_response ::
  "codec_env \<Rightarrow> assessment_request \<Rightarrow> assessment_response \<Rightarrow> assessment_limits
   \<Rightarrow> (assessment_response \<times> semantic_error list) option" where
  "checked_response E req response l =
     (let env = assess_env.truncate E;
          p0 = normalize_response env response;
          shape = validateSemanticAssessmentResponseShape p0 l
            @ err_if (rp_request p0 \<noteq> aq_request req) ''request_id'' (''expected '' @ ce_quote E (aq_request req));
          byID = semanticAssessmentAllEvidence req;
          submitted = semanticEvidenceByID (aq_evidence req);
          (p1, resolve_errs) = resolveSemanticAssessmentSubmissionResponse req p0;
          (security, signal_errs) = resolveSemanticAssessmentEvidenceSecurityResults submitted (slice_of (rp_security p1));
          p2 = p1\<lparr>rp_security := map_option (\<lambda>_. security) (rp_security p1)\<rparr>;
          security_errs = validateSemanticAssessmentEvidenceSecurityResults (slice_of (rp_security p2)) submitted;
          equivalence_errs = validateSemanticAssessmentEvidenceEquivalenceResults req (slice_of (rp_equivalence p2)) in
      case resolveSemanticAssessmentEvidenceConflictResults env req p2 of
        None \<Rightarrow> None
      | Some (conflicts, conflict_errs) \<Rightarrow>
          (let p3 = p2\<lparr>rp_conflicts := conflicts\<rparr>;
               rels = slice_of (rp_relationships p3);
               (entities, entity_errs) = validateSemanticAssessmentEntityResults req (slice_of (rp_entities p3)) rels byID;
               p4 = p3\<lparr>rp_entities := map_option (\<lambda>_. entities) (rp_entities p3)\<rparr> in
           Some (p4, shape @ resolve_errs @ signal_errs @ security_errs @ equivalence_errs @ conflict_errs @ entity_errs
             @ validateSemanticAssessmentRelationshipResults env req entities rels byID
             @ ValidateSemanticAssessmentRequiredRelationshipRefs (aq_required req) rels
             @ validateSemanticAssessmentSubmissionResponse (aq_contract req) p4)))"

definition PrepareSemanticAssessmentResponse ::
  "codec_env \<Rightarrow> assessment_request \<Rightarrow> assessment_response \<Rightarrow> assessment_limits
   \<Rightarrow> (assessment_response \<times> semantic_error list) option" where
  "PrepareSemanticAssessmentResponse E req response limits =
     (let l = normalizeSemanticAssessmentLimits limits in
      map_option (\<lambda>(p, errs).
        if errs \<noteq> [] then (p, errs)
        else case ce_json E p of
          None \<Rightarrow> (p, [semanticErr ''response'' ''cannot be normalized''])
        | Some canonical \<Rightarrow>
            (case ce_count E canonical (al_tokenizer l) of
               Inl m \<Rightarrow> (p, [semanticErr ''tokenizer'' m])
             | Inr n \<Rightarrow>
                 (let p = p\<lparr>rp_output_tokens := n\<rparr> in
                  if al_output l < n
                  then (p, [semanticErr ''output_tokens'' (''must be less than or equal to '' @ go_decimal (al_output l))])
                  else (p, []))))
       (checked_response E req response l))"


section \<open>What acceptance means\<close>

lemma enumerated_Nil_iff:
  "concat (map snd (map (\<lambda>(i, x). f i x) (enumerate 0 xs))) = [] \<longleftrightarrow> (\<forall>i < length xs. snd (f i (xs ! i)) = [])"
  using indexed_Nil_iff [of "\<lambda>i x. snd (f i x)" xs] by (simp add: indexed_def o_def split_def)

lemma submission_response_tokens: "validateSemanticAssessmentSubmissionResponse c (p\<lparr>rp_output_tokens := n\<rparr>)
    = validateSemanticAssessmentSubmissionResponse c p"
  by (cases c) (simp_all add: validateSemanticAssessmentSubmissionResponse_def)

lemma accepted_checked:
  assumes "PrepareSemanticAssessmentResponse E req response limits = Some (p, [])"
  shows "\<exists>q. checked_response E req response (normalizeSemanticAssessmentLimits limits) = Some (q, [])
    \<and> (\<exists>n. p = q\<lparr>rp_output_tokens := n\<rparr>)"
proof -
  obtain q errs where q: "checked_response E req response (normalizeSemanticAssessmentLimits limits) = Some (q, errs)"
    using assms by (auto simp: PrepareSemanticAssessmentResponse_def Let_def)
  have "errs = []" using assms q by (cases errs) (auto simp: PrepareSemanticAssessmentResponse_def Let_def)
  moreover from this obtain canonical where "ce_json E q = Some canonical"
    using assms q by (cases "ce_json E q") (auto simp: PrepareSemanticAssessmentResponse_def Let_def)
  ultimately show ?thesis
    using assms q by (auto simp: PrepareSemanticAssessmentResponse_def Let_def split: sum.splits if_splits)
qed

text \<open>The steps that an accepted response has passed, for the parts of the response that they leave.\<close>

lemma accepted_steps:
  assumes "PrepareSemanticAssessmentResponse E req response limits = Some (p, [])"
  obtains p0 ents0 ents1 ents rels0 rels secs0 secs eqs cxs cited env byID submitted
  where "env = assess_env.truncate E" and "byID = semanticAssessmentAllEvidence req"
    and "submitted = semanticEvidenceByID (aq_evidence req)" and "p0 = normalize_response env response"
    and "rp_request p = aq_request req"
    and "rp_entities p0 = Some ents0" and "rp_relationships p0 = Some rels0" and "rp_security p0 = Some secs0"
    and "ents1 = map (\<lambda>(i, r). fst (resolve_entity req i r)) (enumerate 0 ents0)"
    and "\<forall>i < length ents0. snd (resolve_entity req i (ents0 ! i)) = []"
    and "rels = map (\<lambda>(i, r). fst (resolve_relationship byID i r)) (enumerate 0 rels0)"
    and "\<forall>i < length rels0. snd (resolve_relationship byID i (rels0 ! i)) = []"
    and "resolveSemanticAssessmentEvidenceSecurityResults submitted secs0 = (secs, [])"
    and "rp_security p = Some secs" and "validateSemanticAssessmentEvidenceSecurityResults secs submitted = []"
    and "rp_equivalence p = Some eqs" and "validateSemanticAssessmentEvidenceEquivalenceResults req eqs = []"
    and "rp_conflicts cited = rp_conflicts p0" and "rp_equivalence cited = Some eqs"
    and "resolveSemanticAssessmentEvidenceConflictResults env req cited = Some (Some cxs, [])" and "rp_conflicts p = Some cxs"
    and "validateSemanticAssessmentEntityResults req ents1 rels byID = (ents, [])" and "rp_entities p = Some ents"
    and "rp_relationships p = Some rels"
    and "validateSemanticAssessmentRelationshipResults env req ents rels byID = []"
    and "ValidateSemanticAssessmentRequiredRelationshipRefs (aq_required req) rels = []"
    and "validateSemanticAssessmentSubmissionResponse (aq_contract req) p = []"
proof -
  let ?l = "normalizeSemanticAssessmentLimits limits"
  let ?env = "assess_env.truncate E" let ?byID = "semanticAssessmentAllEvidence req"
  let ?sub = "semanticEvidenceByID (aq_evidence req)" let ?p0 = "normalize_response ?env response"
  obtain q where q: "checked_response E req response ?l = Some (q, [])" and p: "\<exists>n. p = q\<lparr>rp_output_tokens := n\<rparr>"
    using accepted_checked [OF assms] by blast
  obtain p1 re where res: "resolveSemanticAssessmentSubmissionResponse req ?p0 = (p1, re)" by force
  obtain secs se where sec: "resolveSemanticAssessmentEvidenceSecurityResults ?sub (slice_of (rp_security p1)) = (secs, se)" by force
  let ?p2 = "p1\<lparr>rp_security := map_option (\<lambda>_. secs) (rp_security p1)\<rparr>"
  obtain cx ce where con: "resolveSemanticAssessmentEvidenceConflictResults ?env req ?p2 = Some (cx, ce)"
    using q by (auto simp: checked_response_def Let_def res sec split: option.splits)
  let ?p3 = "?p2\<lparr>rp_conflicts := cx\<rparr>" let ?rels = "slice_of (rp_relationships ?p3)"
  obtain ents ee where ent: "validateSemanticAssessmentEntityResults req (slice_of (rp_entities ?p3)) ?rels ?byID = (ents, ee)" by force
  let ?p4 = "?p3\<lparr>rp_entities := map_option (\<lambda>_. ents) (rp_entities ?p3)\<rparr>"
  note all = q [unfolded checked_response_def Let_def res sec con prod.case option.case ent, simplified]
  have shape: "validateSemanticAssessmentResponseShape ?p0 ?l = []" "rp_request ?p0 = aq_request req"
    and nil: "re = []" "se = []" "ce = []" "ee = []"
    and errs: "validateSemanticAssessmentEvidenceSecurityResults (slice_of (rp_security ?p2)) ?sub = []"
      "validateSemanticAssessmentEvidenceEquivalenceResults req (slice_of (rp_equivalence ?p2)) = []"
      "validateSemanticAssessmentRelationshipResults ?env req ents ?rels ?byID = []"
      "ValidateSemanticAssessmentRequiredRelationshipRefs (aq_required req) ?rels = []"
      "validateSemanticAssessmentSubmissionResponse (aq_contract req) ?p4 = []"
    using conjunct2 [OF all] conjunct1 [OF all, symmetric] by simp_all
  have q4: "q = ?p4" using conjunct1 [OF all] by simp
  obtain secs0 eqs0 ents0 rels0 where slices: "rp_security ?p0 = Some secs0" "rp_equivalence ?p0 = Some eqs0"
    "rp_entities ?p0 = Some ents0" "rp_relationships ?p0 = Some rels0"
    using shape(1) by (auto simp: validateSemanticAssessmentResponseShape_def)
  have p1: "p1 = ?p0\<lparr>rp_entities := Some (map fst (map (\<lambda>(i, r). resolve_entity req i r) (enumerate 0 ents0))),
      rp_relationships := Some (map fst (map (\<lambda>(i, r). resolve_relationship ?byID i r) (enumerate 0 rels0)))\<rparr>"
    and re: "re = concat (map snd (map (\<lambda>(i, r). resolve_entity req i r) (enumerate 0 ents0)))
      @ concat (map snd (map (\<lambda>(i, r). resolve_relationship ?byID i r) (enumerate 0 rels0)))"
    using res by (auto simp: resolveSemanticAssessmentSubmissionResponse_def Let_def slices)
  obtain cxs where cxs: "cx = Some cxs" and cxp: "rp_conflicts ?p2 = rp_conflicts ?p0"
    using con nil(3) p1 by (auto simp: resolveSemanticAssessmentEvidenceConflictResults_def split_beta Let_def split: option.splits if_splits)
  have resolved: "\<forall>i < length ents0. snd (resolve_entity req i (ents0 ! i)) = []"
    "\<forall>i < length rels0. snd (resolve_relationship ?byID i (rels0 ! i)) = []"
    using re nil(1) unfolding append_is_Nil_conv enumerated_Nil_iff [symmetric] by simp_all
  have parts: "rp_security p = Some secs" "rp_equivalence p = Some eqs0" "rp_conflicts p = Some cxs" "rp_entities p = Some ents"
    "rp_request p = aq_request req" "rp_relationships p = rp_relationships p1" "rp_security p1 = Some secs0"
    "rp_equivalence p1 = Some eqs0"
    using p shape(2) slices cxs unfolding q4 p1 by auto
  have rels: "rp_relationships p1 = Some (map (\<lambda>(i, r). fst (resolve_relationship ?byID i r)) (enumerate 0 rels0))"
    and ents: "rp_entities p1 = Some (map (\<lambda>(i, r). fst (resolve_entity req i r)) (enumerate 0 ents0))"
    unfolding p1 by (simp_all add: o_def split_def)
  have last: "validateSemanticAssessmentSubmissionResponse (aq_contract req) p = []"
    using errs(5) p unfolding q4 by (metis submission_response_tokens)
  have steps: "resolveSemanticAssessmentEvidenceSecurityResults ?sub secs0 = (secs, [])"
    "validateSemanticAssessmentEvidenceSecurityResults secs ?sub = []"
    "validateSemanticAssessmentEvidenceEquivalenceResults req eqs0 = []"
    "rp_conflicts ?p2 = rp_conflicts ?p0" "rp_equivalence ?p2 = Some eqs0"
    "resolveSemanticAssessmentEvidenceConflictResults ?env req ?p2 = Some (Some cxs, [])"
    using errs(1,2) sec con nil cxs cxp parts by simp_all
  have checks: "validateSemanticAssessmentEntityResults req (map (\<lambda>(i, r). fst (resolve_entity req i r)) (enumerate 0 ents0))
      (map (\<lambda>(i, r). fst (resolve_relationship ?byID i r)) (enumerate 0 rels0)) ?byID = (ents, [])"
    "rp_relationships p = Some (map (\<lambda>(i, r). fst (resolve_relationship ?byID i r)) (enumerate 0 rels0))"
    "validateSemanticAssessmentRelationshipResults ?env req ents
      (map (\<lambda>(i, r). fst (resolve_relationship ?byID i r)) (enumerate 0 rels0)) ?byID = []"
    "ValidateSemanticAssessmentRequiredRelationshipRefs (aq_required req)
      (map (\<lambda>(i, r). fst (resolve_relationship ?byID i r)) (enumerate 0 rels0)) = []"
    using errs(3,4) ent nil rels ents parts by simp_all
  show ?thesis
    by (rule that [OF refl refl refl refl parts(5) slices(3,4,1) refl resolved(1) refl resolved(2) steps(1) parts(1) steps(2)
        parts(2) steps(3-6) parts(3) checks(1) parts(4) checks(2-4) last])
qed

end
