(* ===== verification/Assessor_Accepted.thy ===== *)
theory Assessor_Accepted
  imports Assessor_Prepare Assessor_Laws
begin

text \<open>
  What the server may rely on in an accepted assessment: the properties of the assessment contract, from the laws of
  the validators, with one accepted assessment as their witness.
\<close>

section \<open>A sample assessment\<close>

definition sample_env :: codec_env where
  "sample_env = \<lparr>ae_digest = (\<lambda>_. ''0a0b0c0d''), ae_parse_time = (\<lambda>_. None), ae_format_time = (\<lambda>_. []),
     ce_json = (\<lambda>_. Some ''{}''), ce_count = (\<lambda>_ _. Inr 2), ce_quote = (\<lambda>s. s)\<rparr>"

definition plain_evidence :: "string \<Rightarrow> string \<Rightarrow> review_evidence" where
  "plain_evidence ident content = with_boundaries ''b0_'' \<lparr>ev_id = ident, ev_fragment = [], ev_index = 0, ev_content = content,
     ev_boundary_text = [], ev_refs = [], ev_prefix = [], ev_authority = [], ev_source = [], ev_revision = [], ev_current_revision = []\<rparr>"

definition sample_entity :: "string \<Rightarrow> string \<Rightarrow> string \<Rightarrow> string \<Rightarrow> int \<Rightarrow> int \<Rightarrow> required_entity" where
  "sample_entity ref name kind g a b = \<lparr>re_ref = ref, re_name = name, re_kind = kind, re_known = [], re_evidence_ids = [''e0''],
     re_known_ids = [], re_groundings = [\<lparr>eg_ref = g, eg_evidence = ''e0'', eg_surface = name, eg_start_ref = [], eg_end_ref = [],
       eg_anchor = [], eg_start = a, eg_end = b\<rparr>], re_anchors = [], re_surface = [], re_evidence = [], re_start = 0, re_end = 0\<rparr>"

definition sample_relationship :: required_relationship where
  "sample_relationship = \<lparr>rl_id = ''r1'', rl_hint = ''likes'', rl_known_key = [], rl_evidence_ids = [''e0''], rl_known_ids = [],
     rl_unavailable = False, rl_evidence = [], rl_subject = ''ann'', rl_original = [], rl_object_ref = Some ''tea'', rl_value = None,
     rl_polarity = ''+'', rl_from = None, rl_to = None, rl_max_splits = 0\<rparr>"

definition sample_contract :: submission_contract where
  "sample_contract = \<lparr>ct_entities = [sample_entity ''ann'' ''Ann'' ''person'' ''g1'' 0 3,
     sample_entity ''tea'' ''tea'' ''concept'' ''g2'' 10 13], ct_relationships = [sample_relationship]\<rparr>"

definition sample_request :: assessment_request where
  "sample_request = \<lparr>aq_request = ''q'', aq_team = ''t'', aq_owner = [], aq_evidence = [plain_evidence ''e0'' ''Ann likes tea''],
     aq_known = [],
     aq_equivalence = [\<lparr>qg_id = ''e0'', qg_candidates = [\<lparr>qc_id = ''k1'', qc_content = ''no tea'', qc_boundary_text = [],
       qc_refs = [], qc_prefix = []\<rparr>]\<rparr>],
     aq_proposal = None,
     aq_groups = [\<lparr>cg_surface = ''Ann'', cg_evidence = ''e0'', cg_grounding = ''g1'', cg_start = 0, cg_end = 3, cg_truncated = False,
       cg_candidates = [\<lparr>ec_id = ''id1'', ec_name = ''Ann'', ec_kind = ''person'', ec_context = Some []\<rparr>]\<rparr>],
     aq_options = [\<lparr>po_key = ''likes'', po_version = 1, po_aliases = [], po_subjects = [''person''], po_objects = [''concept''],
       po_kind = ''attribute'', po_cardinality = ''many''\<rparr>],
     aq_required = [sample_relationship], aq_entities = [], aq_relationships = [], aq_contract = Some sample_contract,
     aq_context_tokens = 0, aq_truncated = False, aq_omitted_candidates = 0, aq_omitted_options = 0, aq_input_tokens = 0,
     aq_routing = None\<rparr>"

definition cite :: "string \<Rightarrow> string \<Rightarrow> string \<Rightarrow> grounded_range" where
  "cite ident a b = \<lparr>gr_id = ident, gr_start_ref = a, gr_end_ref = b, gr_start = 0, gr_end = 0\<rparr>"

definition sample_result :: "string \<Rightarrow> string \<Rightarrow> string \<Rightarrow> string option \<Rightarrow> entity_result" where
  "sample_result ref g action cand = \<lparr>en_ref = ref, en_grounding = Some g, en_anchor = None, en_surface = [], en_kind = [],
     en_evidence = [], en_start = 0, en_end = 0, en_action = action, en_candidate = cand\<rparr>"

definition sample_response :: assessment_response where
  "sample_response = \<lparr>rp_request = ''q'',
     rp_security = Some [\<lparr>ar_evidence = ''e0'', ar_decision = ''pass'', ar_signals = []\<rparr>],
     rp_equivalence = Some [\<lparr>qr_evidence = ''e0'', qr_action = ''new'', qr_candidate = None\<rparr>],
     rp_conflicts = Some [\<lparr>cx_positions = [cite ''e0'' ''b0_4'' ''b0_d'', cite ''k1'' ''b0a0b0c0d_0'' ''b0a0b0c0d_6'']\<rparr>],
     rp_signals = [], rp_results = None,
     rp_entities = Some [sample_result ''ann'' ''g1'' ''reuse'' (Some ''id1''), sample_result ''tea'' ''g2'' ''create'' None],
     rp_relationships = Some [\<lparr>rr_ref = ''r1'', rr_disposition = ''stored'', rr_reason = None, rr_splits =
       [\<lparr>rs_index = 0, rs_subject = ''ann'', rs_original = [], rs_range = cite ''e0'' ''b0_4'' ''b0_9'', rs_status = ''resolved'',
         rs_key = Some ''likes'', rs_version = Some 1, rs_registration = None, rs_object_ref = Some ''tea'', rs_value = None,
         rs_value_range = None, rs_polarity = ''+'', rs_supports = [cite ''e0'' ''b0_0'' ''b0_d''], rs_evidence = [],
         rs_from = None, rs_to = None\<rparr>]\<rparr>],
     rp_output_tokens = 0, rp_input_tokens = 0, rp_turns = 1\<rparr>"

abbreviation (input) sample_assessment :: "(assessment_response \<times> semantic_error list) option" where
  "sample_assessment \<equiv> PrepareSemanticAssessmentResponse sample_env sample_request sample_response DefaultSemanticAssessmentLimits"

text \<open>The texts of the sample.\<close>

lemma sample_refs: "ev_refs (plain_evidence ''e0'' ''Ann likes tea'') =
    [(''b0_0'', 0), (''b0_1'', 1), (''b0_2'', 2), (''b0_3'', 3), (''b0_4'', 4), (''b0_5'', 5), (''b0_6'', 6), (''b0_7'', 7),
     (''b0_8'', 8), (''b0_9'', 9), (''b0_a'', 10), (''b0_b'', 11), (''b0_c'', 12), (''b0_d'', 13)]"
  by code_simp

lemma sample_evidence [simp]: "ev_id (plain_evidence i c) = i" "ev_content (plain_evidence i c) = c"
  "ev_index (plain_evidence i c) = 0"
  by (simp_all add: plain_evidence_def with_boundaries_def)

lemma sample_runes: "runes ''Ann likes tea'' = [65, 110, 110, 32, 108, 105, 107, 101, 115, 32, 116, 101, 97]"
  "runes ''no tea'' = [110, 111, 32, 116, 101, 97]"
  "runes ''likes tea'' = [108, 105, 107, 101, 115, 32, 116, 101, 97]" "rune_count ''q'' = 1" "rune_count ''ann'' = 3" "rune_count ''tea'' = 3"
  "rune_count ''r1'' = 2" "rune_count ''k1'' = 2" "rune_count ''likes'' = 5"
  by code_simp+

lemma sample_strings: "string_of_runes [65, 110, 110] = ''Ann''" "string_of_runes [108, 105, 107, 101, 115] = ''likes''"
  "string_of_runes [116, 101, 97] = ''tea''" "string_of_runes [108, 105, 107, 101, 115, 32, 116, 101, 97] = ''likes tea''"
  "string_of_runes [110, 111, 32, 116, 101, 97] = ''no tea''"
  "string_of_runes [65, 110, 110, 32, 108, 105, 107, 101, 115, 32, 116, 101, 97] = ''Ann likes tea''"
  by code_simp+

lemmas sample_fields = assessment_request.select_convs [of "''q''" "''t''" "[]" "[plain_evidence ''e0'' ''Ann likes tea'']" "[]"
    "[\<lparr>qg_id = ''e0'', qg_candidates = [\<lparr>qc_id = ''k1'', qc_content = ''no tea'', qc_boundary_text = [], qc_refs = [], qc_prefix = []\<rparr>]\<rparr>]"
    None "[\<lparr>cg_surface = ''Ann'', cg_evidence = ''e0'', cg_grounding = ''g1'', cg_start = 0, cg_end = 3, cg_truncated = False,
       cg_candidates = [\<lparr>ec_id = ''id1'', ec_name = ''Ann'', ec_kind = ''person'', ec_context = Some []\<rparr>]\<rparr>]"
    "[\<lparr>po_key = ''likes'', po_version = 1, po_aliases = [], po_subjects = [''person''], po_objects = [''concept''],
       po_kind = ''attribute'', po_cardinality = ''many''\<rparr>]" "[sample_relationship]" "[]" "[]" "Some sample_contract"
    0 False 0 0 0 None "()", folded sample_request_def]

lemma sample_normal: "normalize_response (assess_env.truncate sample_env) sample_response = sample_response"
  by (simp add: normalize_response_def normalizeSemanticAssessmentSecurityResults_def normalize_security_result_def
      normalize_equivalence_result_def normalize_entity_result_def normalizeSemanticAssessmentRelationshipResult_def
      normalizeSemanticAssessmentRelationshipSplit_def normalizeAssessmentTime_def trim_range_def
      sample_response_def sample_result_def cite_def go_string_eval Let_def)

text \<open>The resolved parts.\<close>

definition at :: "grounded_range \<Rightarrow> int \<Rightarrow> int \<Rightarrow> grounded_range" where
  "at r a b = r\<lparr>gr_start := a, gr_end := b\<rparr>"

definition sample_entities :: "entity_result list" where
  "sample_entities =
     [(sample_result ''ann'' ''g1'' ''reuse'' (Some ''id1''))\<lparr>en_surface := ''Ann'', en_kind := ''person'', en_evidence := ''e0'', en_end := 3\<rparr>,
      (sample_result ''tea'' ''g2'' ''create'' None)\<lparr>en_surface := ''tea'', en_kind := ''concept'', en_evidence := ''e0'',
        en_start := 10, en_end := 13\<rparr>]"

definition sample_relationships :: "relationship_result list" where
  "sample_relationships = [\<lparr>rr_ref = ''r1'', rr_disposition = ''stored'', rr_reason = None, rr_splits =
     [\<lparr>rs_index = 0, rs_subject = ''ann'', rs_original = ''likes'', rs_range = at (cite ''e0'' ''b0_4'' ''b0_9'') 4 9,
       rs_status = ''resolved'', rs_key = Some ''likes'', rs_version = Some 1, rs_registration = None, rs_object_ref = Some ''tea'',
       rs_value = None, rs_value_range = None, rs_polarity = ''+'', rs_supports = [at (cite ''e0'' ''b0_0'' ''b0_d'') 0 13],
       rs_evidence = [\<lparr>sp_id = ''e0'', sp_start = 0, sp_end = 13\<rparr>], rs_from = None, rs_to = None\<rparr>]\<rparr>]"

lemma sample_tables: "semanticAssessmentAllEvidence sample_request = [(''e0'', plain_evidence ''e0'' ''Ann likes tea'')]"
  "semanticEvidenceByID (aq_evidence sample_request) = [(''e0'', plain_evidence ''e0'' ''Ann likes tea'')]"
  "contract_entities sample_request = [(''ann'', sample_entity ''ann'' ''Ann'' ''person'' ''g1'' 0 3),
     (''tea'', sample_entity ''tea'' ''tea'' ''concept'' ''g2'' 10 13)]"
  by (simp_all add: semanticAssessmentAllEvidence_def semanticEvidenceByID_def contract_entities_def index_by_def
      sample_request_def sample_contract_def sample_entity_def go_string_eval)

lemma sample_range: "resolveSemanticAssessmentRange [(''e0'', plain_evidence ''e0'' ''Ann likes tea'')] (cite ''e0'' ''b0_4'' ''b0_9'') f
    = (at (cite ''e0'' ''b0_4'' ''b0_9'') 4 9, [])"
  "resolveSemanticAssessmentRange [(''e0'', plain_evidence ''e0'' ''Ann likes tea'')] (cite ''e0'' ''b0_0'' ''b0_d'') f
    = (at (cite ''e0'' ''b0_0'' ''b0_d'') 0 13, [])"
  by (simp_all add: resolveSemanticAssessmentRange_def trim_range_def cite_def at_def go_string_eval Let_def
      semanticAssessmentBoundaryOffset_def sample_refs)

lemma sample_span: "SemanticEvidenceSpan ''Ann likes tea'' 4 9 = Inr ''likes''" "SemanticEvidenceSpan ''Ann likes tea'' 0 3 = Inr ''Ann''"
  "SemanticEvidenceSpan ''Ann likes tea'' 10 13 = Inr ''tea''"
  "SemanticEvidenceSpan ''Ann likes tea'' 4 13 = Inr ''likes tea''" "SemanticEvidenceSpan ''no tea'' 0 6 = Inr ''no tea''"
  "SemanticEvidenceSpan ''Ann likes tea'' 0 13 = Inr ''Ann likes tea''"
  by (simp_all add: SemanticEvidenceSpan_def Let_def sample_runes sample_strings)

lemma sample_resolved: "resolveSemanticAssessmentSubmissionResponse sample_request sample_response =
    (sample_response\<lparr>rp_entities := Some sample_entities, rp_relationships := Some sample_relationships\<rparr>, [])"
proof -
  have ents: "resolve_entity sample_request 0 (sample_result ''ann'' ''g1'' ''reuse'' (Some ''id1'')) = (sample_entities ! 0, [])"
    "resolve_entity sample_request 1 (sample_result ''tea'' ''g2'' ''create'' None) = (sample_entities ! 1, [])"
    by (simp_all add: resolve_entity_def sample_tables Let_def sample_result_def sample_entity_def entityGroundingByRef_def
        anchor_errors_def anchor_named_def err_if_def go_string_eval sample_entities_def candidate_kind_def sample_fields index_by_def)
  have "resolve_relationship [(''e0'', plain_evidence ''e0'' ''Ann likes tea'')] 0 (the (rp_relationships sample_response) ! 0)
      = (sample_relationships ! 0, [])"
    by (simp add: resolve_relationship_def resolve_split_def resolve_supports_def Let_def sample_response_def sample_range [unfolded cite_def at_def]
        sample_relationships_def at_def cite_def sample_span)
  then show ?thesis using ents
    by (simp add: resolveSemanticAssessmentSubmissionResponse_def sample_tables Let_def sample_response_def sample_entities_def
        sample_relationships_def)
qed


lemma sample_signals: "resolveSemanticAssessmentEvidenceSecurityResults byID [\<lparr>ar_evidence = ''e0'', ar_decision = ''pass'', ar_signals = []\<rparr>]
    = ([\<lparr>ar_evidence = ''e0'', ar_decision = ''pass'', ar_signals = []\<rparr>], [])"
  by (simp add: resolveSemanticAssessmentEvidenceSecurityResults_def resolve_security_def)

lemma sample_security: "validateSemanticAssessmentEvidenceSecurityResults [\<lparr>ar_evidence = ''e0'', ar_decision = ''pass'', ar_signals = []\<rparr>]
    [(''e0'', plain_evidence ''e0'' ''Ann likes tea'')] = []"
  by (simp add: validateSemanticAssessmentEvidenceSecurityResults_def check_security_def Let_def)

lemma sample_equivalence: "validateSemanticAssessmentEvidenceEquivalenceResults sample_request
    [\<lparr>qr_evidence = ''e0'', qr_action = ''new'', qr_candidate = None\<rparr>] = []"
  by (simp add: validateSemanticAssessmentEvidenceEquivalenceResults_def ValidateEvidenceEquivalenceResults_def indexed_def
      sample_tables [unfolded sample_fields] sample_fields collect_group_def candidate_list_errors_def check_equivalence_candidate_def check_equivalence_def
      assessment_bounds Let_def go_string_eval sample_runes)

text \<open>The conflict: the candidate is prepared here, its prefix found at the first salt.\<close>

definition sample_candidate :: review_evidence where
  "sample_candidate = with_boundaries ''b0a0b0c0d_'' \<lparr>ev_id = ''k1'', ev_fragment = [], ev_index = 0, ev_content = ''no tea'',
     ev_boundary_text = [], ev_refs = [], ev_prefix = [], ev_authority = [], ev_source = [], ev_revision = [], ev_current_revision = []\<rparr>"

lemma sample_prefix: "semanticAssessmentBoundaryPrefix (assess_env.truncate sample_env) ''no tea'' = Some ''b0a0b0c0d_''"
proof -
  have p: "boundary_prefix (assess_env.truncate sample_env) 0 ''no tea'' = ''b0a0b0c0d_''"
    by (simp add: boundary_prefix_def sample_env_def assess_env.defs)
  moreover have "\<not> go_contains ''no tea'' (open_mark @ ''b0a0b0c0d_'')" by code_simp
  ultimately show ?thesis unfolding semanticAssessmentBoundaryPrefix_def
    by (subst prefix_from.simps) (simp only: p Let_def if_True not_False_eq_True simp_thms)
qed

lemma sample_candidate_refs: "ev_refs sample_candidate =
    [(''b0a0b0c0d_0'', 0), (''b0a0b0c0d_1'', 1), (''b0a0b0c0d_2'', 2), (''b0a0b0c0d_3'', 3), (''b0a0b0c0d_4'', 4),
     (''b0a0b0c0d_5'', 5), (''b0a0b0c0d_6'', 6)]"
  by code_simp

definition sample_citable :: citable_map where
  "sample_citable =
     [(''e0'', \<lparr>cz_evidence = plain_evidence ''e0'' ''Ann likes tea'', cz_submitted = True, cz_known = False, cz_for = []\<rparr>),
      (''k1'', \<lparr>cz_evidence = sample_candidate, cz_submitted = False, cz_known = False, cz_for = [''e0'']\<rparr>)]"

lemma sample_citable: "semanticAssessmentConflictCitableEvidence (assess_env.truncate sample_env) sample_request = Some sample_citable"
  by (simp add: semanticAssessmentConflictCitableEvidence_def sample_fields group_candidates_def cite_submitted_def index_by_def
      prepared_candidate_def PrepareSemanticAssessmentEvidence_def candidate_evidence_def sample_prefix sample_citable_def
      sample_candidate_def Let_def)

definition sample_conflicts :: "conflict_result list" where
  "sample_conflicts = [\<lparr>cx_positions = [at (cite ''e0'' ''b0_4'' ''b0_d'') 4 13, at (cite ''k1'' ''b0a0b0c0d_0'' ''b0a0b0c0d_6'') 0 6]\<rparr>]"

lemma sample_candidate_content: "ev_content sample_candidate = ''no tea''"
  by (simp add: sample_candidate_def with_boundaries_def)

lemma sample_conflict: "rp_conflicts p = rp_conflicts sample_response \<Longrightarrow> rp_equivalence p = rp_equivalence sample_response \<Longrightarrow>
    resolveSemanticAssessmentEvidenceConflictResults (assess_env.truncate sample_env) sample_request p = Some (Some sample_conflicts, [])"
  by (simp add: resolveSemanticAssessmentEvidenceConflictResults_def sample_response_def assessment_bounds sample_citable Let_def
      reused_pairs_def check_conflict_def check_position_def sample_citable_def cite_def at_def go_string_eval
      semanticAssessmentBoundaryOffset_def sample_refs sample_candidate_refs sample_candidate_content semanticExactSpanQuote_empty
      sample_span rune_count_def sample_runes associated_errors_def reused_errors_def indexed_def sample_conflicts_def sorted_keys_def
      assessmentSpanKey_def)


text \<open>The last validators see the resolved entities and relationships.\<close>

lemma sample_kinds: "semanticOneOf ''person'' EntityKinds" "semanticOneOf ''concept'' EntityKinds"
  by (simp_all add: semanticOneOf_def EntityKinds_def go_string_eval)

lemma sample_entity_check: "validateSemanticAssessmentEntityResults sample_request sample_entities sample_relationships
    [(''e0'', plain_evidence ''e0'' ''Ann likes tea'')] = (sample_entities, [])"
  by (simp add: validateSemanticAssessmentEntityResults_def sample_entities_def sample_result_def check_entity_def sample_tables
      sample_runes Let_def semanticExactSpanQuote_def sample_span go_string_eval sample_kinds action_errors_def actions_eval
      assessmentCandidateGroupsBySpan_def sample_fields index_by_def assessmentMatchingEntityCandidates_def quote_errors_def err_if_def)
    force

lemma sample_relationship_check: "validateSemanticAssessmentRelationshipResults E sample_request sample_entities sample_relationships
    [(''e0'', plain_evidence ''e0'' ''Ann likes tea'')] = []"
  by (simp add: validateSemanticAssessmentRelationshipResults_def sample_relationships_def check_relationship_def disposition_errors_def
      indexed_def check_split_def sample_entities_def sample_result_def index_by_def assessment_bounds sample_runes Let_def
      assessmentRelationshipObjectKind_def semanticAssessmentEntityResultGrounded_def actions_eval go_string_eval semanticOneOf_def
      assessmentBoundedRequiredString_def validateSemanticAssessmentPredicateResult_def assessmentPredicateOptionsByKeyVersion_def
      sample_fields semanticKindAllowed_def validateSemanticAssessmentEvidence_def check_span_def semanticExactSpanQuote_empty sample_span
      validateSemanticAssessmentValidity_def assessmentParsedTime_def at_def cite_def)

lemma sample_required_check: "ValidateSemanticAssessmentRequiredRelationshipRefs (aq_required sample_request) sample_relationships = []"
  by (simp add: ValidateSemanticAssessmentRequiredRelationshipRefs_def sample_fields sample_relationships_def index_by_def
      sample_relationship_def indexed_def trusted_split_errors_def cited_id_def at_def cite_def Let_def)

lemma sample_contract_check: "rp_entities p = Some sample_entities \<Longrightarrow> rp_relationships p = Some sample_relationships \<Longrightarrow>
    validateSemanticAssessmentSubmissionResponse (aq_contract sample_request) p = []"
  by (simp add: validateSemanticAssessmentSubmissionResponse_def sample_fields sample_contract_def sample_entities_def sample_result_def
      check_contract_entity_def sample_entity_def index_by_def entityGroundingByRef_def go_string_eval
      sample_relationships_def check_contract_relationship_def sample_relationship_def indexed_def contract_split_errors_def
      semanticAssessmentSubmittedObjectMatches_def at_def cite_def check_support_def semanticAssessmentRangeCovered_def Let_def)

definition sample_prepared :: assessment_response where
  "sample_prepared = sample_response\<lparr>rp_entities := Some sample_entities, rp_relationships := Some sample_relationships,
     rp_conflicts := Some sample_conflicts, rp_output_tokens := 2\<rparr>"

lemma sample_accepted: "sample_assessment = Some (sample_prepared, [])"
proof -
  let ?l = "normalizeSemanticAssessmentLimits DefaultSemanticAssessmentLimits"
  have l: "al_evidence ?l = 20" "al_entities ?l = 400" "al_relationships ?l = 200" "al_output ?l = 65536"
    by (simp_all add: normalizeSemanticAssessmentLimits_def DefaultSemanticAssessmentLimits_def positive_or_def assessment_bounds Let_def)
  have shape: "validateSemanticAssessmentResponseShape sample_response ?l = []" "rp_request sample_response = aq_request sample_request"
    "rp_security sample_response = Some [\<lparr>ar_evidence = ''e0'', ar_decision = ''pass'', ar_signals = []\<rparr>]"
    "rp_equivalence sample_response = Some [\<lparr>qr_evidence = ''e0'', qr_action = ''new'', qr_candidate = None\<rparr>]"
    by (simp_all add: validateSemanticAssessmentResponseShape_def sample_response_def sample_runes l sample_fields)
  have "checked_response sample_env sample_request sample_response ?l =
      Some (sample_response\<lparr>rp_entities := Some sample_entities, rp_relationships := Some sample_relationships,
        rp_conflicts := Some sample_conflicts\<rparr>, [])"
    by (simp add: checked_response_def Let_def sample_normal shape sample_resolved sample_tables sample_signals sample_security
        sample_equivalence sample_conflict sample_entity_check sample_relationship_check sample_required_check sample_contract_check)
  then show ?thesis by (simp add: PrepareSemanticAssessmentResponse_def sample_env_def l sample_prepared_def)
qed

lemma sample_prepared_fields: "slice_of (rp_entities sample_prepared) = sample_entities"
  "slice_of (rp_relationships sample_prepared) = sample_relationships" "slice_of (rp_conflicts sample_prepared) = sample_conflicts"
  "slice_of (rp_equivalence sample_prepared) = [\<lparr>qr_evidence = ''e0'', qr_action = ''new'', qr_candidate = None\<rparr>]"
  "slice_of (rp_security sample_prepared) = [\<lparr>ar_evidence = ''e0'', ar_decision = ''pass'', ar_signals = []\<rparr>]"
  by (simp_all add: sample_prepared_def sample_response_def)

section \<open>Properties\<close>

text \<open>C18 (accepted_assessment_complete): An accepted assessment has exactly one result for every submitted entity and every
  submitted relationship, and no other.\<close>

theorem accepted_assessment_complete:
  assumes "PrepareSemanticAssessmentResponse E req response limits = Some (p, [])" and "aq_contract req = Some c"
  shows "distinct (map en_ref (slice_of (rp_entities p)))
    \<and> set (map en_ref (slice_of (rp_entities p))) = set (map re_ref (ct_entities c))
    \<and> distinct (map rr_ref (slice_of (rp_relationships p)))
    \<and> set (map rr_ref (slice_of (rp_relationships p))) = set (map rl_id (ct_relationships c))"
  using assms(1)
proof (rule accepted_steps, goal_cases)
  case steps: (1 p0 ents0 ents1 ents rels0 rels)
  then show ?case
    using entity_results_ok relationship_results_ok submission_ok [of c p] assms(2) by (metis slice_of_simps(2))
qed

lemma accepted_assessment_complete_witness:
  "distinct (map en_ref sample_entities)
    \<and> set (map en_ref sample_entities) = {''ann'', ''tea''}
    \<and> set (map rr_ref sample_relationships) = {''r1''}"
  using accepted_assessment_complete [OF sample_accepted, of sample_contract]
  by (simp add: sample_prepared_fields sample_fields sample_contract_def sample_entity_def sample_relationship_def)

text \<open>C5 (accepted_assessment_preserves): Every stored relationship of an accepted assessment keeps the endpoints, the typed
  value, the polarity and the temporal bounds that were submitted, resolves a known predicate exactly, and cites only
  allowed evidence, at least one range of it submitted; unavailable known evidence is never stored, and only a
  stored result has splits.\<close>

theorem accepted_assessment_preserves:
  assumes "PrepareSemanticAssessmentResponse E req response limits = Some (p, [])" and "aq_contract req = Some c"
  shows "list_all (\<lambda>r. list_ex (\<lambda>t. rl_id t = rr_ref r \<and> relationship_fits t r) (ct_relationships c)
      \<and> (rr_disposition r = ''stored'' \<and> rr_splits r \<noteq> [] \<and> length (rr_splits r) \<le> 50
         \<or> rr_disposition r = ''not_supported'' \<and> rr_splits r = [])) (slice_of (rp_relationships p))"
  using assms(1)
proof (rule accepted_steps, goal_cases)
  case steps: (1 p0 ents0 ents1 ents rels0 rels secs0 secs eqs cxs cited env byID submitted)
  have fits: "list_all (\<lambda>r. \<exists>t. map_of (index_by rl_id (ct_relationships c)) (rr_ref r) = Some t \<and> relationship_fits t r) rels"
    using submission_ok [of c p] steps assms(2) by simp
  have ok: "list_all (relationship_ok env req (index_by en_ref ents) byID) rels"
    using relationship_results_ok steps by blast
  have "list_ex (\<lambda>t. rl_id t = rr_ref r \<and> relationship_fits t r) (ct_relationships c)" if r: "r \<in> set rels" for r
  proof -
    from r fits obtain t where t: "map_of (index_by rl_id (ct_relationships c)) (rr_ref r) = Some t" "relationship_fits t r"
      unfolding list_all_iff by blast
    from index_by_Some [OF t(1)] t(2) show ?thesis by (auto simp: list_ex_iff)
  qed
  moreover have "rr_disposition r = ''stored'' \<and> rr_splits r \<noteq> [] \<and> length (rr_splits r) \<le> 50
      \<or> rr_disposition r = ''not_supported'' \<and> rr_splits r = []" if "r \<in> set rels" for r
    using ok that unfolding list_all_iff relationship_ok_def by blast
  ultimately show ?case using steps by (simp add: sample_prepared_fields list_all_iff)
qed

lemma accepted_assessment_preserves_witness:
  "list_all (\<lambda>r. list_ex (\<lambda>t. rl_id t = rr_ref r \<and> relationship_fits t r) [sample_relationship]) sample_relationships"
  using accepted_assessment_preserves [OF sample_accepted, of sample_contract]
  by (simp add: sample_prepared_fields sample_fields sample_contract_def list_all_iff)

text \<open>C6 (accepted_ranges_grounded): In an accepted assessment every range of a relationship lies in the evidence it names;
  the cited spans are the support ranges, and the original predicate is the text at the predicate range.\<close>

theorem accepted_ranges_grounded:
  assumes "PrepareSemanticAssessmentResponse E req response limits = Some (p, [])" and "request_ready req"
  shows "list_all (\<lambda>r. list_all (split_grounded (semanticAssessmentAllEvidence req)) (rr_splits r)) (slice_of (rp_relationships p))"
  using assms(1)
proof (rule accepted_steps, goal_cases)
  case steps: (1 p0 ents0 ents1 ents rels0 rels secs0 secs eqs cxs cited env byID submitted)
  have prep: "\<forall>e \<in> snd ` set byID. prepared e" using all_evidence_prepared [OF assms(2)] steps by simp
  have "list_all (split_grounded byID) (rr_splits (fst (resolve_relationship byID i (rels0 ! i))))" if "i < length rels0" for i
    using resolve_relationship_ok [OF _ prep] steps that by blast
  then have "\<forall>r \<in> set rels. list_all (split_grounded byID) (rr_splits r)"
    using steps by (force simp: in_set_enumerate_eq)
  then show ?case using steps by (simp add: sample_prepared_fields list_all_iff)
qed

lemma sample_ready: "request_ready sample_request"
  by (simp add: request_ready_def sample_fields plain_evidence_def with_boundaries_def prepared_def)

lemma accepted_ranges_grounded_witness:
  "list_all (\<lambda>r. list_all (split_grounded [(''e0'', plain_evidence ''e0'' ''Ann likes tea'')]) (rr_splits r))
     sample_relationships"
  using accepted_ranges_grounded [OF sample_accepted sample_ready] by (simp add: sample_prepared_fields sample_tables)

text \<open>C19 (accepted_relationships_wellformed): The splits of an accepted relationship are numbered from zero, connect grounded
  entities, select a bounded non-blank predicate phrase, use a supplied predicate option whose kinds fit (or
  propose a complete registration), cite existing evidence and have a validity interval that is not reversed.\<close>

theorem accepted_relationships_wellformed:
  assumes "PrepareSemanticAssessmentResponse E req response limits = Some (p, [])"
  shows "list_all (relationship_ok (assess_env.truncate E) req (index_by en_ref (slice_of (rp_entities p)))
    (semanticAssessmentAllEvidence req)) (slice_of (rp_relationships p))"
  using assms
proof (rule accepted_steps, goal_cases)
  case steps: (1 p0 ents0 ents1 ents rels0 rels secs0 secs eqs cxs cited env byID submitted)
  then show ?case using relationship_results_ok by simp
qed

lemma accepted_relationships_wellformed_witness:
  "list_all (relationship_ok (assess_env.truncate sample_env) sample_request (index_by en_ref sample_entities)
    [(''e0'', plain_evidence ''e0'' ''Ann likes tea'')]) sample_relationships"
  using accepted_relationships_wellformed [OF sample_accepted] by (simp add: sample_prepared_fields sample_tables)



text \<open>(accepted_security_table): An accepted assessment has exactly one security result for each submitted evidence item, a
  rejection exactly when it cites a signal, and every signal cites a non-empty range of that item, one that holds
  a hidden control or markup when the signal says so.\<close>

theorem accepted_security_table:
  assumes "PrepareSemanticAssessmentResponse E req response limits = Some (p, [])"
  shows "distinct (map ar_evidence (slice_of (rp_security p)))
    \<and> set (map ar_evidence (slice_of (rp_security p))) = (\<lambda>e. trim_space (ev_id e)) ` set (aq_evidence req)
    \<and> list_all (security_ok (semanticEvidenceByID (aq_evidence req))) (slice_of (rp_security p))"
  using assms
proof (rule accepted_steps, goal_cases)
  case steps: (1 p0 ents0 ents1 ents rels0 rels secs0 secs eqs cxs cited env byID submitted)
  have "fst ` set submitted = (\<lambda>e. trim_space (ev_id e)) ` set (aq_evidence req)"
    using steps by (simp add: sample_prepared_fields semanticEvidenceByID_def)
  then show ?case using steps security_results_ok [of secs submitted] by simp
qed

lemma accepted_security_table_witness:
  "set (map ar_evidence [\<lparr>ar_evidence = ''e0'', ar_decision = ''pass'', ar_signals = []\<rparr>]) = {''e0''}
    \<and> list_all (security_ok [(''e0'', plain_evidence ''e0'' ''Ann likes tea'')]) [\<lparr>ar_evidence = ''e0'', ar_decision = ''pass'', ar_signals = []\<rparr>]"
  using accepted_security_table [OF sample_accepted] by (simp add: sample_prepared_fields sample_tables [unfolded sample_fields] sample_fields go_string_eval)

text \<open>(accepted_equivalence_choices): An accepted assessment decides every evidence item with equivalence candidates exactly
  once, and reuses only a candidate that was supplied for that item.\<close>

theorem accepted_equivalence_choices:
  assumes "PrepareSemanticAssessmentResponse E req response limits = Some (p, [])"
  shows "distinct (map (trim_space \<circ> qr_evidence) (slice_of (rp_equivalence p)))
    \<and> set (map (trim_space \<circ> qr_evidence) (slice_of (rp_equivalence p))) = set (map (trim_space \<circ> qg_id) (aq_equivalence req))
    \<and> list_all (equivalence_ok (aq_equivalence req)) (slice_of (rp_equivalence p))"
  using assms
proof (rule accepted_steps, goal_cases)
  case steps: (1 p0 ents0 ents1 ents rels0 rels secs0 secs eqs cxs cited env byID submitted)
  then have "ValidateEvidenceEquivalenceResults (aq_equivalence req) eqs = []"
    by (simp add: sample_prepared_fields validateSemanticAssessmentEvidenceEquivalenceResults_def)
  from equivalence_results_ok [OF this] show ?case using steps by simp
qed

lemma accepted_equivalence_choices_witness:
  "set (map (trim_space \<circ> qr_evidence) [\<lparr>qr_evidence = ''e0'', qr_action = ''new'', qr_candidate = None\<rparr>]) = {''e0''}"
  using accepted_equivalence_choices [OF sample_accepted] by (simp add: sample_prepared_fields sample_fields go_string_eval)

text \<open>(accepted_conflicts_cited): Every conflict of an accepted assessment opposes two to ten distinct ranges of citable
  evidence, at least one of it submitted; a candidate is cited only against an item it was supplied for, and never
  when it was chosen as equivalent to a cited submitted item.\<close>

theorem accepted_conflicts_cited:
  assumes "PrepareSemanticAssessmentResponse E req response limits = Some (p, [])"
  shows "\<exists>citable. semanticAssessmentConflictCitableEvidence (assess_env.truncate E) req = Some citable \<and> items_ok req citable
    \<and> length (slice_of (rp_conflicts p)) \<le> 20
    \<and> list_all (conflict_ok citable (reused_pairs (slice_of (rp_equivalence p)))) (slice_of (rp_conflicts p))"
  using assms
proof (rule accepted_steps, goal_cases)
  case steps: (1 p0 ents0 ents1 ents rels0 rels secs0 secs eqs cxs cited env byID submitted)
  then show ?case using conflict_results_ok [of env req cited cxs] citable_ok [of env req] by auto
qed

lemma accepted_conflicts_cited_witness:
  "items_ok sample_request sample_citable \<and> list_all (conflict_ok sample_citable []) sample_conflicts"
  using accepted_conflicts_cited [OF sample_accepted] by (simp add: sample_citable sample_prepared_fields reused_pairs_def)

end
