(* ===== verification/Assessor_Prepared.thy ===== *)
theory Assessor_Prepared
  imports Assessor_Budget Assessor_Accepted
begin

text \<open>
  What a prepared request guarantees before the provider sees it, and the composition of both sides: an assessment
  that is accepted against a prepared request.
\<close>

section \<open>A ready contract\<close>

definition grounding_ready :: "(string \<times> review_evidence) list \<Rightarrow> string list \<Rightarrow> entity_grounding \<Rightarrow> bool" where
  "grounding_ready byID allowed g \<longleftrightarrow> eg_evidence g \<in> set allowed \<and> trim_space (eg_ref g) = eg_ref g
     \<and> (case map_of byID (eg_evidence g) of None \<Rightarrow> False
        | Some e \<Rightarrow> SemanticEvidenceSpan (ev_content e) (eg_start g) (eg_end g) = Inr (eg_surface g))"

definition entity_ready :: "(string \<times> review_evidence) list \<Rightarrow> required_entity \<Rightarrow> bool" where
  "entity_ready byID t \<longleftrightarrow> assessmentBoundedRequiredString (re_ref t) 128 \<and> assessmentBoundedRequiredString (re_name t) 256
     \<and> semanticOneOf (re_kind t) EntityKinds \<and> re_evidence_ids t \<noteq> [] \<and> set (re_evidence_ids t) \<subseteq> fst ` set byID
     \<and> length (re_groundings t) \<le> 20 \<and> list_all (grounding_ready byID (re_evidence_ids t)) (re_groundings t)"

definition relationship_ready ::
  "(string \<times> review_evidence) list \<Rightarrow> (string \<times> review_evidence) list \<Rightarrow> string set \<Rightarrow> required_relationship \<Rightarrow> bool" where
  "relationship_ready byID knownByID refs t \<longleftrightarrow> assessmentBoundedRequiredString (rl_id t) 128 \<and> rl_subject t \<in> refs
     \<and> (case rl_object_ref t of None \<Rightarrow> rl_value t \<noteq> None | Some o' \<Rightarrow> o' \<in> refs \<and> rl_value t = None)
     \<and> semanticOneOf (rl_polarity t) [''+'', ''-'']
     \<and> rl_evidence_ids t \<noteq> [] \<and> set (rl_evidence_ids t) \<subseteq> fst ` set byID \<and> set (rl_known_ids t) \<subseteq> fst ` set knownByID"

lemma map_of_known: "map_of m k \<noteq> None \<Longrightarrow> k \<in> fst ` set m"
  by (simp add: map_of_eq_None_iff)

lemma unknown_Nil: "concat (map (\<lambda>v. err_if (map_of m v = None) f msg) vs) = [] \<longleftrightarrow> set vs \<subseteq> fst ` set m"
  by (auto simp: map_of_eq_None_iff)

lemma check_grounding_ready:
  assumes "check_grounding byID allowed anchors field seen j g = (seen', g', [])"
  shows "grounding_ready byID allowed g' \<and> eg_ref g' \<notin> set seen \<and> seen' = eg_ref g' # seen"
proof -
  let ?g = "trim_grounding g"
  obtain e where e: "map_of byID (eg_evidence ?g) = Some e" "eg_evidence ?g \<in> set allowed"
    using assms by (cases "if eg_evidence ?g \<in> set allowed then map_of byID (eg_evidence ?g) else None")
      (auto simp: check_grounding_def Let_def split: if_splits)
  obtain s t where st: "boundary_range e (eg_start_ref ?g) (eg_end_ref ?g) = Some (s, t)"
    using assms e by (cases "boundary_range e (eg_start_ref ?g) (eg_end_ref ?g)") (auto simp: check_grounding_def Let_def)
  obtain q where q: "semanticExactSpanQuote (ev_content e) s t (eg_surface ?g) = Inr q"
    using assms e st by (cases "semanticExactSpanQuote (ev_content e) s t (eg_surface ?g)") (auto simp: check_grounding_def Let_def)
  have "eg_ref ?g \<notin> set seen" "seen' = eg_ref ?g # seen" "g' = ?g\<lparr>eg_surface := q, eg_start := s, eg_end := t\<rparr>"
    using assms e st q by (simp_all add: check_grounding_def Let_def)
  moreover have "trim_space (eg_ref ?g) = eg_ref ?g" by (simp add: trim_grounding_def)
  ultimately show ?thesis using e semanticExactSpanQuote_Inr [OF q] by (simp add: grounding_ready_def)
qed

lemma groundings_ready:
  assumes "each_rewrite (check_grounding byID allowed anchors field) seen j gs = (seen', gs', [])"
  shows "list_all (grounding_ready byID allowed) gs' \<and> length gs' = length gs"
proof -
  have "\<forall>k < length gs. grounding_ready byID allowed (gs' ! k)"
    using each_rewrite_all [of "check_grounding byID allowed anchors field" "\<lambda>_ _ g. grounding_ready byID allowed g" seen j gs]
      check_grounding_ready assms by (metis fst_conv prod.collapse snd_conv)
  moreover have "length gs' = length gs"
    using length_each_rewrite [of "check_grounding byID allowed anchors field" seen j gs] assms by simp
  ultimately show ?thesis by (simp add: list_all_length)
qed

lemma check_required_entity_ready:
  assumes "check_required_entity byID knownByID allByID (refs, groundings) i t = ((refs', groundings'), t', [])"
  shows "entity_ready byID t' \<and> re_ref t' \<notin> set refs \<and> refs' = re_ref t' # refs"
proof -
  let ?field = "at_index ''submission_contract.entities'' i" let ?t = "trim_entity t"
  obtain anchor_refs anchors anchor_errs where a: "each_rewrite (check_anchor allByID (re_evidence_ids ?t @ re_known_ids ?t) ?field)
      [] 0 (re_anchors ?t) = (anchor_refs, anchors, anchor_errs)" by (metis prod_cases3)
  have short: "length (re_groundings ?t) \<le> 20"
    using assms by (cases "length (re_groundings ?t) \<le> 20") (simp_all add: check_required_entity_def Let_def a assessment_bounds)
  obtain g' gs errs where g: "each_rewrite (check_grounding byID (re_evidence_ids ?t) anchor_refs ?field) groundings 0 (re_groundings ?t)
      = (g', gs, errs)" by (metis prod_cases3)
  have known: "set (re_evidence_ids ?t) \<subseteq> fst ` set byID"
    using assms short unknown_Nil [of byID _ _ "re_evidence_ids ?t"]
    by (simp add: check_required_entity_def Let_def a g assessment_bounds del: concat_eq_Nil_conv set_map)
  have parts: "errs = [] \<and> t' = ?t\<lparr>re_anchors := anchors, re_groundings := gs\<rparr> \<and> refs' = re_ref ?t # refs
      \<and> assessmentBoundedRequiredString (re_ref ?t) 128 \<and> re_ref ?t \<notin> set refs \<and> assessmentBoundedRequiredString (re_name ?t) 256
      \<and> semanticOneOf (re_kind ?t) EntityKinds \<and> re_evidence_ids ?t \<noteq> []"
    using assms short by (simp add: check_required_entity_def Let_def a g assessment_bounds)
  then show ?thesis using groundings_ready [of byID "re_evidence_ids ?t" anchor_refs ?field groundings 0 "re_groundings ?t" g' gs] g short known
    by (simp add: entity_ready_def)
qed

lemma required_entities_ready:
  assumes "each_rewrite (check_required_entity byID knownByID allByID) (refs, groundings) i ts = ((refs', groundings'), ts', [])"
  shows "list_all (entity_ready byID) ts' \<and> distinct (map re_ref ts') \<and> set (map re_ref ts') \<inter> set refs = {}
    \<and> set refs' = set refs \<union> set (map re_ref ts')"
  using assms
proof (induction ts arbitrary: refs groundings i ts')
  case (Cons t ts)
  obtain r1 g1 t1 es where step: "check_required_entity byID knownByID allByID (refs, groundings) i t = ((r1, g1), t1, es)"
    by (metis prod_cases3 surj_pair)
  obtain r2 g2 us fs where rest: "each_rewrite (check_required_entity byID knownByID allByID) (r1, g1) (Suc i) ts = ((r2, g2), us, fs)"
    by (metis prod_cases3 surj_pair)
  have eqs: "es = []" "fs = []" "ts' = t1 # us" "refs' = r2" "groundings' = g2" using Cons.prems step rest by simp_all
  have one: "entity_ready byID t1 \<and> re_ref t1 \<notin> set refs \<and> r1 = re_ref t1 # refs"
    using check_required_entity_ready step eqs by blast
  have two: "list_all (entity_ready byID) us \<and> distinct (map re_ref us) \<and> set (map re_ref us) \<inter> set r1 = {}
    \<and> set refs' = set r1 \<union> set (map re_ref us)"
    using Cons.IH [of r1 g1 "Suc i" us] rest eqs by simp
  show ?case using one two eqs by auto
qed simp

lemma check_required_relationship_ready:
  assumes "check_required_relationship E limit byID knownByID refs seen i t = (seen', t', [])"
  shows "relationship_ready byID knownByID (set refs) t' \<and> rl_id t' \<notin> set seen \<and> set seen' = insert (rl_id t') (set seen)"
  using assms unfolding check_required_relationship_def Let_def relationship_ready_def
  by (auto simp: map_of_eq_None_iff normalizeSemanticAssessmentSubmissionValue_def Let_def split: option.splits prod.splits)

section \<open>The normalizers\<close>

lemma prepare_all_prepared: "prepare_all E es = Some es' \<Longrightarrow> list_all prepared es' \<and> length es' = length es"
  by (induction es arbitrary: es') (auto simp: prepared_Prepare split: option.splits)

lemma trimmed_prepared: "prepared (trim_evidence e) = prepared e" "prepared (e\<lparr>ev_id := x\<rparr>) = prepared e"
  by (simp_all add: prepared_def trim_evidence_def)

lemma rewritten_distinct:
  assumes "\<And>s i x. snd (snd (step s i x)) = [] \<Longrightarrow> key (fst (snd (step s i x))) \<notin> set s
      \<and> fst (step s i x) = key (fst (snd (step s i x))) # s"
    and "each_rewrite step s i xs = (s', ys, [])"
  shows "distinct (map key ys) \<and> set (map key ys) \<inter> set s = {} \<and> set s' = set s \<union> set (map key ys)"
  using assms(2)
proof (induction xs arbitrary: s i ys)
  case (Cons x xs)
  obtain s1 y es where step: "step s i x = (s1, y, es)" by (metis prod_cases3)
  obtain s2 zs fs where rest: "each_rewrite step s1 (Suc i) xs = (s2, zs, fs)" by (metis prod_cases3)
  have "es = [] \<and> fs = [] \<and> ys = y # zs \<and> s2 = s'" using Cons.prems step rest by auto
  moreover from this have "key y \<notin> set s \<and> s1 = key y # s" using assms(1) [of s i x] step by simp
  ultimately show ?case using Cons.IH [of s1 "Suc i" zs] rest by auto
qed simp

lemma list_all_kept: "list_all2 (\<lambda>x y. P y = P x) xs ys \<Longrightarrow> list_all P xs \<Longrightarrow> list_all P ys"
  by (induction rule: list_all2_induct) simp_all

lemma basics_ready:
  assumes "validateSemanticAssessmentRequestBasics req l = (r, [])" and "list_all prepared (aq_evidence req @ aq_known req)"
  shows "request_ready r \<and> distinct (map ev_id (aq_evidence r @ aq_known r)) \<and> aq_evidence r \<noteq> []
    \<and> aq_contract r = aq_contract req \<and> aq_entities r = aq_entities req \<and> aq_relationships r = aq_relationships req"
proof -
  obtain seen es errs where e: "each_rewrite check_evidence [] 0 (aq_evidence req) = (seen, es, errs)" by (metis prod_cases3)
  obtain seen' ks errs' where k: "each_rewrite (check_known seen) [] 0 (aq_known req) = (seen', ks, errs')" by (metis prod_cases3)
  have parts: "errs = [] \<and> errs' = [] \<and> r = req\<lparr>aq_evidence := es, aq_known := ks\<rparr> \<and> aq_evidence req \<noteq> []"
    using assms(1) by (auto simp: validateSemanticAssessmentRequestBasics_def Let_def e k)
  have distinct_es: "distinct (map ev_id es) \<and> set seen = set (map ev_id es)"
    using rewritten_distinct [of check_evidence ev_id "[]" 0 "aq_evidence req" seen es] e parts
    by (simp add: check_evidence_def Let_def)
  have distinct_ks: "distinct (map ev_id ks)"
    using rewritten_distinct [of "check_known seen" ev_id "[]" 0 "aq_known req" seen' ks] k parts by (simp add: check_known_def Let_def)
  have outside: "\<forall>j < length (aq_known req). ev_id (ks ! j) \<notin> set seen"
    using each_rewrite_all [of "check_known seen" "\<lambda>_ _ y. ev_id y \<notin> set seen" "[]" 0 "aq_known req"] k parts
    by (simp add: check_known_def Let_def)
  have like: "list_all2 (\<lambda>x y. prepared y = prepared x) (aq_evidence req) es" "list_all2 (\<lambda>x y. prepared y = prepared x) (aq_known req) ks"
    using each_rewrite_always [of "\<lambda>x y. prepared y = prepared x" check_evidence "aq_evidence req" "[]" 0]
      each_rewrite_always [of "\<lambda>x y. prepared y = prepared x" "check_known seen" "aq_known req" "[]" 0] e k
    by (simp_all add: check_evidence_def check_known_def trimmed_prepared Let_def)
  then have "list_all prepared (es @ ks)" "length ks = length (aq_known req)" "length es = length (aq_evidence req)"
    using assms(2) by (auto simp: list_all2_lengthD intro: list_all_kept)
  moreover from this have "set (map ev_id ks) \<inter> set seen = {}" using outside by (force simp: in_set_conv_nth)
  ultimately show ?thesis using parts distinct_es distinct_ks by (auto simp: request_ready_def)
qed

definition contract_ready :: "assessment_request \<Rightarrow> bool" where
  "contract_ready req \<longleftrightarrow>
     (case aq_contract req of
        None \<Rightarrow> aq_entities req = [] \<and> aq_relationships req = []
      | Some c \<Rightarrow>
          list_all (entity_ready (semanticEvidenceByID (aq_evidence req))) (ct_entities c) \<and> distinct (map re_ref (ct_entities c))
          \<and> list_all (relationship_ready (semanticEvidenceByID (aq_evidence req)) (semanticEvidenceByID (aq_known req))
              (set (map re_ref (ct_entities c)))) (ct_relationships c) \<and> distinct (map rl_id (ct_relationships c))
          \<and> (ct_entities c = []) = (ct_relationships c = [])
          \<and> aq_entities req = map submitted_of (ct_entities c)
          \<and> aq_relationships req = map submitted_relationship_of (ct_relationships c))"

lemma required_relationships_ready:
  assumes "each_rewrite (check_required_relationship E limit byID knownByID refs) [] 0 ts = (seen, ts', [])"
  shows "list_all (relationship_ready byID knownByID (set refs)) ts' \<and> distinct (map rl_id ts')"
proof -
  let ?step = "check_required_relationship E limit byID knownByID refs"
  have step: "relationship_ready byID knownByID (set refs) (fst (snd (?step s i t))) \<and> rl_id (fst (snd (?step s i t))) \<notin> set s
      \<and> set (fst (?step s i t)) = insert (rl_id (fst (snd (?step s i t)))) (set s)" if "snd (snd (?step s i t)) = []" for s i t
    using check_required_relationship_ready that by (metis prod.collapse)
  have "\<forall>j < length ts. relationship_ready byID knownByID (set refs) (ts' ! j)"
    using each_rewrite_all [of ?step "\<lambda>_ _ t. relationship_ready byID knownByID (set refs) t" "[]" 0 ts] step assms by simp
  moreover have "distinct (map rl_id ts')" using each_rewrite_distinct [of ?step rl_id "[]" 0 ts] step assms by simp
  moreover have "length ts' = length ts" using length_each_rewrite [of ?step "[]" 0 ts] assms by simp
  ultimately show ?thesis by (simp add: list_all_length)
qed

lemma contract_normalized_ready:
  assumes "normalizeSemanticAssessmentSubmissionContract E req (semanticEvidenceByID (aq_evidence req))
      (semanticEvidenceByID (aq_known req)) = (r, [])"
  shows "contract_ready r \<and> aq_evidence r = aq_evidence req \<and> aq_known r = aq_known req"
proof (cases "aq_contract req")
  case None
  then show ?thesis using assms
    by (auto simp: normalizeSemanticAssessmentSubmissionContract_def contract_ready_def split: if_splits)
next
  case (Some c)
  let ?byID = "semanticEvidenceByID (aq_evidence req)" let ?known = "semanticEvidenceByID (aq_known req)"
  obtain refs grs es errs where e: "each_rewrite (check_required_entity ?byID ?known (semanticAssessmentAllEvidence req)) ([], []) 0
      (ct_entities c) = ((refs, grs), es, errs)" by (metis prod_cases3 surj_pair)
  obtain seen rs errs' where t: "each_rewrite (check_required_relationship E (length (aq_evidence req)) ?byID ?known refs) [] 0
      (ct_relationships c) = (seen, rs, errs')" by (metis prod_cases3)
  have parts: "errs = [] \<and> errs' = [] \<and> ((ct_entities c = []) = (ct_relationships c = []))
      \<and> r = req\<lparr>aq_contract := Some \<lparr>ct_entities = es, ct_relationships = rs\<rparr>, aq_entities := map submitted_of es,
        aq_relationships := map submitted_relationship_of rs\<rparr>"
    using assms by (auto simp: normalizeSemanticAssessmentSubmissionContract_def Some Let_def e t split: if_splits)
  have lens: "length es = length (ct_entities c)" "length rs = length (ct_relationships c)"
    using length_each_rewrite [of _ _ 0 "ct_entities c"] length_each_rewrite [of _ _ 0 "ct_relationships c"] e t
    by (metis fst_conv snd_conv)+
  have "(es = []) = (rs = [])" using parts lens by (metis length_0_conv)
  then show ?thesis using parts required_entities_ready [of ?byID ?known "semanticAssessmentAllEvidence req" "[]" "[]" 0 "ct_entities c" refs grs es]
      required_relationships_ready [of E "length (aq_evidence req)" ?byID ?known refs "ct_relationships c" seen rs] e t
    by (auto simp: contract_ready_def)
qed

section \<open>The prepared request\<close>

lemma frames:
  "normalizeAssessmentRequiredRelationshipRefs q byID knownByID = (r, es) \<Longrightarrow> aq_evidence r = aq_evidence q \<and> aq_known r = aq_known q
     \<and> aq_contract r = aq_contract q \<and> aq_entities r = aq_entities q \<and> aq_relationships r = aq_relationships q"
  "normalizeAssessmentCandidateGroups q byID l = (r, es) \<Longrightarrow> aq_evidence r = aq_evidence q \<and> aq_known r = aq_known q
     \<and> aq_contract r = aq_contract q \<and> aq_entities r = aq_entities q \<and> aq_relationships r = aq_relationships q"
  "normalizeAssessmentPredicateOptions q l = (r, es) \<Longrightarrow> aq_evidence r = aq_evidence q \<and> aq_known r = aq_known q
     \<and> aq_contract r = aq_contract q \<and> aq_entities r = aq_entities q \<and> aq_relationships r = aq_relationships q"
  by (auto simp: normalizeAssessmentRequiredRelationshipRefs_def normalizeAssessmentCandidateGroups_def
      normalizeAssessmentPredicateOptions_def split_beta Let_def)

lemma ready_cong:
  assumes "aq_evidence r = aq_evidence q" and "aq_known r = aq_known q" and "aq_contract r = aq_contract q"
    and "aq_entities r = aq_entities q" and "aq_relationships r = aq_relationships q"
  shows "request_ready r = request_ready q \<and> contract_ready r = contract_ready q"
  unfolding request_ready_def contract_ready_def assms by simp

lemma normalized_request_ready:
  assumes "normalized_request E req l = Some (r, [])"
  shows "request_ready r \<and> distinct (map ev_id (aq_evidence r @ aq_known r)) \<and> aq_evidence r \<noteq> [] \<and> contract_ready r"
proof -
  obtain es ks gs where p: "prepare_all E (aq_evidence req) = Some es" "prepare_all E (aq_known req) = Some ks"
    "prepare_groups E (aq_equivalence req) = Some gs"
    using assms by (auto simp: normalized_request_def split: option.splits)
  let ?q = "req\<lparr>aq_request := trim_space (aq_request req), aq_team := trim_space (aq_team req),
      aq_owner := trim_space (aq_owner req), aq_evidence := es, aq_known := ks, aq_equivalence := gs\<rparr>"
  obtain q1 e1 where s1: "validateSemanticAssessmentRequestBasics ?q l = (q1, e1)" by force
  let ?byID = "semanticEvidenceByID (aq_evidence q1)" let ?known = "semanticEvidenceByID (aq_known q1)"
  obtain q2 e2 where s2: "normalizeAssessmentRequiredRelationshipRefs q1 ?byID ?known = (q2, e2)" by force
  obtain q3 e3 where s3: "normalizeSemanticAssessmentSubmissionContract E q2 ?byID ?known = (q3, e3)" by force
  obtain q4 e4 where s4: "normalizeAssessmentCandidateGroups q3 ?byID l = (q4, e4)" by force
  obtain q5 e5 where s5: "normalizeAssessmentPredicateOptions q4 l = (q5, e5)" by force
  have nil: "e1 = [] \<and> e3 = [] \<and> r = q5"
    using assms by (simp add: normalized_request_def p Let_def s1 s2 s3 s4 s5)
  have basics: "request_ready q1 \<and> distinct (map ev_id (aq_evidence q1 @ aq_known q1)) \<and> aq_evidence q1 \<noteq> []"
    using basics_ready [of ?q l q1] s1 nil prepare_all_prepared p by simp
  have contract: "contract_ready q3 \<and> aq_evidence q3 = aq_evidence q1 \<and> aq_known q3 = aq_known q1"
    using contract_normalized_ready [of E q2 q3] s3 nil frames(1) [OF s2] by simp
  have "request_ready q5 = request_ready q3 \<and> contract_ready q5 = contract_ready q3"
    using frames(2) [OF s4] frames(3) [OF s5] by (intro ready_cong) simp_all
  moreover have "request_ready q3 = request_ready q1" using contract by (simp add: request_ready_def)
  ultimately show ?thesis using nil basics contract frames(2) [OF s4] frames(3) [OF s5] by auto
qed

section \<open>A prepared request\<close>

text \<open>One item of evidence with one entity that is related to itself.\<close>

definition tiny_grounding :: entity_grounding where
  "tiny_grounding = \<lparr>eg_ref = ''g1'', eg_evidence = ''e0'', eg_surface = ''Ann'', eg_start_ref = ''b0a0b0c0d_0'',
       eg_end_ref = ''b0a0b0c0d_3'', eg_anchor = [], eg_start = 0, eg_end = 3\<rparr>"

definition tiny_entity :: required_entity where
  "tiny_entity = \<lparr>re_ref = ''ann'', re_name = ''Ann'', re_kind = ''person'', re_known = [], re_evidence_ids = [''e0''],
     re_known_ids = [], re_groundings = [tiny_grounding], re_anchors = [], re_surface = [], re_evidence = [], re_start = 0, re_end = 0\<rparr>"

definition tiny_relationship :: required_relationship where
  "tiny_relationship = sample_relationship\<lparr>rl_object_ref := Some ''ann''\<rparr>"

definition tiny_contract :: submission_contract where
  "tiny_contract = \<lparr>ct_entities = [tiny_entity], ct_relationships = [tiny_relationship]\<rparr>"

definition tiny_request :: assessment_request where
  "tiny_request = option_request\<lparr>aq_evidence := [blank_evidence ''e0'' ''Ann''], aq_options := [], aq_required := [],
     aq_contract := Some tiny_contract\<rparr>"

definition tiny_evidence :: review_evidence where
  "tiny_evidence = with_boundaries ''b0a0b0c0d_'' (blank_evidence ''e0'' ''Ann'')"

definition tiny_env :: assess_env where
  "tiny_env = assess_env.truncate sample_env"

definition tiny_prepared :: assessment_request where
  "tiny_prepared = tiny_request\<lparr>aq_evidence := [tiny_evidence], aq_entities := [submitted_of tiny_entity],
     aq_relationships := [submitted_relationship_of tiny_relationship]\<rparr>"

lemma tiny_evidence_prepared: "PrepareSemanticAssessmentEvidence tiny_env (blank_evidence ''e0'' ''Ann'') = Some tiny_evidence"
  by code_simp

lemma tiny_fields: "ev_id tiny_evidence = ''e0''" "ev_content tiny_evidence = ''Ann''" "ev_fragment tiny_evidence = []"
  "ev_revision tiny_evidence = []" "ev_current_revision tiny_evidence = []"
  by (simp_all add: tiny_evidence_def with_boundaries_def blank_evidence_def)

lemma tiny_refs: "ev_refs tiny_evidence = [(''b0a0b0c0d_0'', 0), (''b0a0b0c0d_1'', 1), (''b0a0b0c0d_2'', 2), (''b0a0b0c0d_3'', 3)]"
  by code_simp

lemma tiny_runes: "runes ''Ann'' = [65, 110, 110]" "rune_count ''g1'' = 2" "rune_count ''Ann'' = 3" "rune_count ''e0'' = 2"
  by code_simp+

lemma tiny_span: "SemanticEvidenceSpan ''Ann'' 0 3 = Inr ''Ann''"
  by (simp add: SemanticEvidenceSpan_def Let_def tiny_runes sample_strings)

lemma tiny_trim: "trim_evidence tiny_evidence = tiny_evidence"
proof -
  have "trim_space ''e0'' = ''e0''" "trim_space [] = []" by (simp_all add: go_string_eval)
  then show ?thesis unfolding trim_evidence_def tiny_fields
    by (simp add: tiny_evidence_def with_boundaries_def blank_evidence_def)
qed

lemma tiny_grounding_check: "check_grounding [(''e0'', tiny_evidence)] [''e0''] [] field [] 0 tiny_grounding = ([''g1''], tiny_grounding, [])"
  by (simp add: check_grounding_def trim_grounding_def tiny_grounding_def Let_def go_string_eval assessmentBoundedRequiredString_def tiny_runes
      boundary_range_def semanticAssessmentBoundaryOffset_def tiny_refs tiny_fields semanticExactSpanQuote_def tiny_span)

lemma tiny_entity_trim: "trim_entity tiny_entity = tiny_entity"
  by (simp add: trim_entity_def tiny_entity_def go_string_eval normalizedUniqueStrings_def)

lemma tiny_entity_check: "check_required_entity [(''e0'', tiny_evidence)] [] all ([], []) 0 tiny_entity = (([''ann''], [''g1'']), tiny_entity, [])"
proof -
  have "semanticOneOf ''person'' EntityKinds" by (rule sample_kinds)
  then show ?thesis
    by (simp add: check_required_entity_def tiny_entity_trim Let_def)
      (simp add: tiny_entity_def tiny_grounding_check assessmentBoundedRequiredString_def go_string_eval tiny_runes sample_runes assessment_bounds)
qed

lemma tiny_relationship_check: "check_required_relationship tiny_env 1 [(''e0'', tiny_evidence)] [] [''ann''] [] 0 tiny_relationship
    = ([''r1''], tiny_relationship, [])"
proof -
  have "trim_relationship tiny_env tiny_relationship = tiny_relationship"
    by (simp add: trim_relationship_def tiny_relationship_def sample_relationship_def go_string_eval normalizedUniqueStrings_def
        normalizeOptionalAssessmentTime_def)
  then show ?thesis
    by (simp add: check_required_relationship_def Let_def)
      (simp add: tiny_relationship_def sample_relationship_def assessmentBoundedRequiredString_def go_string_eval sample_runes
        assessment_bounds semanticOneOf_def assessmentParsedTime_def)
qed

lemma tiny_contract_check: "aq_evidence q = [tiny_evidence] \<Longrightarrow> aq_contract q = Some tiny_contract \<Longrightarrow>
  normalizeSemanticAssessmentSubmissionContract tiny_env q [(''e0'', tiny_evidence)] [] =
    (q\<lparr>aq_entities := [submitted_of tiny_entity], aq_relationships := [submitted_relationship_of tiny_relationship]\<rparr>, [])"
  by (cases q) (simp add: normalizeSemanticAssessmentSubmissionContract_def Let_def tiny_contract_def tiny_entity_check
      tiny_relationship_check [unfolded One_nat_def] assessment_bounds)

lemma tiny_by_id: "semanticEvidenceByID [tiny_evidence] = [(''e0'', tiny_evidence)]"
  by (simp add: semanticEvidenceByID_def index_by_def tiny_fields go_string_eval)

lemma tiny_normalized: "al_evidence l = 20 \<Longrightarrow> al_options l = 100 \<Longrightarrow> normalized_request tiny_env tiny_request l = Some (tiny_prepared, [])"
proof -
  assume l: "al_evidence l = 20" "al_options l = 100"
  have parts: "aq_evidence tiny_request = [blank_evidence ''e0'' ''Ann'']" "aq_known tiny_request = []" "aq_equivalence tiny_request = []"
    "aq_contract tiny_request = Some tiny_contract" "aq_request tiny_request = ''q''" "aq_team tiny_request = ''t''"
    "aq_owner tiny_request = []" "aq_required tiny_request = []" "aq_groups tiny_request = []" "aq_options tiny_request = []"
    "aq_truncated tiny_request = False"
    by (simp_all add: tiny_request_def option_request_def)
  have trims: "trim_space ''q'' = ''q''" "trim_space ''t'' = ''t''" "trim_space [] = []" "trim_space ''Ann'' = ''Ann''"
    by (simp_all add: go_string_eval)
  have evidence: "check_evidence [] 0 tiny_evidence = ([''e0''], tiny_evidence, [])"
    by (simp add: check_evidence_def tiny_trim tiny_fields trims tiny_runes Let_def)
  let ?q = "tiny_request\<lparr>aq_evidence := [tiny_evidence]\<rparr>"
  have same: "tiny_request\<lparr>aq_request := ''q'', aq_team := ''t'', aq_owner := [], aq_evidence := [tiny_evidence], aq_known := [],
      aq_equivalence := []\<rparr> = ?q"
    by (simp add: tiny_request_def option_request_def)
  have basics: "validateSemanticAssessmentRequestBasics ?q l = (?q, [])"
    by (simp add: validateSemanticAssessmentRequestBasics_def parts evidence Let_def l assessment_bounds sample_runes)
  have required: "normalizeAssessmentRequiredRelationshipRefs ?q [(''e0'', tiny_evidence)] [] = (?q, [])"
    by (simp add: normalizeAssessmentRequiredRelationshipRefs_def parts)
  have contract: "normalizeSemanticAssessmentSubmissionContract tiny_env ?q [(''e0'', tiny_evidence)] [] = (tiny_prepared, [])"
    using tiny_contract_check [of ?q] by (simp add: parts tiny_prepared_def)
  have fields: "aq_evidence tiny_prepared = [tiny_evidence]" "aq_equivalence tiny_prepared = []" "aq_groups tiny_prepared = []"
    "aq_options tiny_prepared = []" "aq_truncated tiny_prepared = False"
    by (simp_all add: tiny_prepared_def parts)
  have groups: "normalizeAssessmentCandidateGroups tiny_prepared [(''e0'', tiny_evidence)] l = (tiny_prepared, [])"
    by (simp add: normalizeAssessmentCandidateGroups_def fields)
  have options: "normalizeAssessmentPredicateOptions tiny_prepared l = (tiny_prepared, [])"
    by (simp add: normalizeAssessmentPredicateOptions_def fields l)
  have equiv: "validateSemanticAssessmentEvidenceEquivalenceCandidates tiny_prepared = []"
    by (simp add: validateSemanticAssessmentEvidenceEquivalenceCandidates_def fields)
  have empty: "semanticEvidenceByID [] = []" by (simp add: semanticEvidenceByID_def)
  show ?thesis
    by (simp add: normalized_request_def parts tiny_evidence_prepared trims same basics required contract equiv groups options
        tiny_by_id empty Let_def)
qed

lemma tiny_prepared: "PrepareSemanticAssessmentRequest tiny_env (\<lambda>_ _. Some (1, 0)) tiny_request sample_limits
    = Some (tiny_prepared\<lparr>aq_input_tokens := 1\<rparr>, [])"
proof -
  let ?l = "normalizeSemanticAssessmentLimits sample_limits"
  have l: "al_evidence ?l = 20" "al_options ?l = 100"
    by (simp_all add: normalizeSemanticAssessmentLimits_def sample_limits_def DefaultSemanticAssessmentLimits_def positive_or_def
        assessment_bounds Let_def)
  have idem: "normalizeSemanticAssessmentLimits ?l = ?l"
    by (simp add: normalizeSemanticAssessmentLimits_def positive_or_def Let_def DefaultSemanticAssessmentLimits_def)
  have fields: "aq_equivalence tiny_prepared = []" "aq_options tiny_prepared = []" "aq_truncated tiny_prepared = False"
    by (simp_all add: tiny_prepared_def tiny_request_def option_request_def)
  have "allocateSemanticAssessmentOptionalContext (\<lambda>_ _. Some (1, 0)) tiny_prepared ?l = Inr (tiny_prepared\<lparr>aq_input_tokens := 1\<rparr>, [])"
    using sample_budget(2)
    by (simp add: allocateSemanticAssessmentOptionalContext_def Let_def idem sample_budget(1) fields max_rounds_def)
      (simp add: tiny_prepared_def tiny_request_def option_request_def)
  then show ?thesis by (simp add: PrepareSemanticAssessmentRequest_def tiny_normalized [OF l] Let_def)
qed

section \<open>Properties\<close>

text \<open>C7 (prepared_request_ready): A request that is prepared without errors is ready for the provider: its evidence ids are
  distinct, every item of evidence carries the boundary references of its content, and the submission contract is
  closed: entity and relationship references are distinct, every grounding is the exact text of a range of
  allowed evidence, subjects and objects refer to submitted entities, an object is an entity or a value but not
  both, and every evidence id that is named exists.\<close>

theorem prepared_request_ready:
  assumes "PrepareSemanticAssessmentRequest E tokens req limits = Some (r, [])"
  shows "request_ready r \<and> distinct (map ev_id (aq_evidence r @ aq_known r)) \<and> aq_evidence r \<noteq> [] \<and> contract_ready r"
proof -
  let ?l = "normalizeSemanticAssessmentLimits limits"
  obtain q where q: "normalized_request E req ?l = Some (q, [])"
    and a: "allocateSemanticAssessmentOptionalContext tokens q ?l = Inr (r, [])"
    using assms by (auto simp: PrepareSemanticAssessmentRequest_def Let_def split: option.splits if_splits sum.splits)
  have "same_frame r q" by (rule allocation_frame [OF a])
  then have same: "aq_evidence r = aq_evidence q" "aq_known r = aq_known q" "aq_contract r = aq_contract q"
    "aq_entities r = aq_entities q" "aq_relationships r = aq_relationships q" by (simp_all add: same_frame_def)
  show ?thesis using normalized_request_ready [OF q] ready_cong [OF same] same by simp
qed

lemma prepared_request_ready_witness:
  "list_all prepared [tiny_evidence] \<and> entity_ready [(''e0'', tiny_evidence)] tiny_entity
    \<and> relationship_ready [(''e0'', tiny_evidence)] [] {''ann''} tiny_relationship"
proof -
  have fields: "aq_evidence (tiny_prepared\<lparr>aq_input_tokens := 1\<rparr>) = [tiny_evidence]" "aq_known (tiny_prepared\<lparr>aq_input_tokens := 1\<rparr>) = []"
    "aq_contract (tiny_prepared\<lparr>aq_input_tokens := 1\<rparr>) = Some tiny_contract"
    by (simp_all add: tiny_prepared_def tiny_request_def option_request_def)
  have "semanticEvidenceByID [] = []" "re_ref tiny_entity = ''ann''" by (simp_all add: semanticEvidenceByID_def tiny_entity_def)
  then show ?thesis using prepared_request_ready [OF tiny_prepared]
    by (simp add: request_ready_def contract_ready_def fields tiny_by_id tiny_contract_def)
qed


text \<open>A digest that starts with the salt.\<close>

definition counting_env :: assess_env where
  "counting_env = tiny_env\<lparr>ae_digest := (\<lambda>s. take 8 (s @ replicate 8 (CHR ''x'')))\<rparr>"


end
