(* ===== verification/Remember_Values.thy ===== *)
theory Remember_Values
  imports Security_Scan
begin

text \<open>
  The dynamic values (\<open>any\<close>) that a diagnostic of a Remember failure carries, and what
  internal/remember/service/status_errors.go and submission_diagnostics.go do with them before they leave
  the process: texts cut to a number of runes, maps cut to twenty scalar entries, issues projected to a path,
  a code and a message of the service.

  A Go map is the list of its entries in the order of its keys, which is the order in which the code visits
  them, so that two maps are equal when their lists are; \<open>put\<close> assigns a key. A \<open>float64\<close> is its bit pattern.
\<close>

section \<open>Values\<close>

datatype any_value = ANil | AText string | AInt int | AInt64 int | ATruth bool | AFloat "64 word"
  | AItems "any_value list" | AObjects "(string \<times> any_value) list list" | AObject "(string \<times> any_value) list"
  | AOther nat

type_synonym details = "(string \<times> any_value) list"

fun put :: "string \<Rightarrow> any_value \<Rightarrow> details \<Rightarrow> details" where
  "put k v [] = [(k, v)]"
| "put k v ((k', v') # m) =
     (if k < k' then (k, v) # (k', v') # m else if k = k' then (k, v) # m else (k', v') # put k v m)"

definition key_sorted :: "details \<Rightarrow> bool" where
  "key_sorted m \<longleftrightarrow> sorted_wrt (<) (map fst m)"

text \<open>A type assertion with the comma-ok form gives the zero value when it fails.\<close>

definition text_of :: "any_value option \<Rightarrow> string" where
  "text_of v = (case v of Some (AText s) \<Rightarrow> s | _ \<Rightarrow> [])"

definition truth_of :: "any_value option \<Rightarrow> bool" where
  "truth_of v = (case v of Some (ATruth b) \<Rightarrow> b | _ \<Rightarrow> False)"

definition value_of :: "any_value option \<Rightarrow> any_value" where
  "value_of v = (case v of Some x \<Rightarrow> x | None \<Rightarrow> ANil)"

text \<open>The value of a \<open>float64\<close> that is an integer.\<close>

definition float_integer :: "64 word \<Rightarrow> int option" where
  "float_integer w =
     (let n = uint w; fraction = n mod 2 ^ 52; e = nat (n div 2 ^ 52 mod 2 ^ 11);
          m = (if e = 0 then fraction else fraction + 2 ^ 52); sign = (if n div 2 ^ 63 = 1 then - 1 else 1) in
      if e = 2047 then None
      else if 1075 \<le> e then Some (sign * m * 2 ^ (e - 1075))
      else if m mod 2 ^ (1075 - max e 1) = 0 then Some (sign * (m div 2 ^ (1075 - max e 1)))
      else None)"

definition float_nan :: "64 word \<Rightarrow> bool" where
  "float_nan w \<longleftrightarrow> uint w div 2 ^ 52 mod 2 ^ 11 = 2047 \<and> uint w mod 2 ^ 52 \<noteq> 0"

text \<open>\<open>reflect.DeepEqual\<close> of two maps that share no storage: a NaN differs from itself.\<close>

function holds_nan :: "any_value \<Rightarrow> bool" where
  "holds_nan (AFloat w) = float_nan w"
| "holds_nan (AItems vs) = list_ex holds_nan vs"
| "holds_nan (AObjects ms) = list_ex (list_ex (\<lambda>(k, v). holds_nan v)) ms"
| "holds_nan (AObject m) = list_ex (\<lambda>(k, v). holds_nan v) m"
| "holds_nan ANil = False"
| "holds_nan (AText s) = False"
| "holds_nan (AInt n) = False"
| "holds_nan (AInt64 n) = False"
| "holds_nan (ATruth b) = False"
| "holds_nan (AOther n) = False"
  by pat_completeness auto
termination
proof (relation "measure size", goal_cases)
  case (3 ms m kv k v)
  then have "size_prod (\<lambda>_. 0) size kv \<le> size_list (size_prod (\<lambda>_. 0) size) m"
    and "size_list (size_prod (\<lambda>_. 0) size) m \<le> size_list (size_list (size_prod (\<lambda>_. 0) size)) ms"
    by (simp_all add: size_list_estimation')
  with 3(3) [symmetric] show ?case by simp
next
  case (4 m kv k v)
  then have "size_prod (\<lambda>_. 0) size kv \<le> size_list (size_prod (\<lambda>_. 0) size) m"
    by (simp add: size_list_estimation')
  with 4(2) [symmetric] show ?case by simp
qed (simp_all add: size_list_estimation' less_Suc_eq_le)

definition deep_equal :: "details option \<Rightarrow> details option \<Rightarrow> bool" where
  "deep_equal a b \<longleftrightarrow> a = b \<and> (case a of None \<Rightarrow> True | Some m \<Rightarrow> \<not> holds_nan (AObject m))"

section \<open>Bounded texts\<close>

definition boundedStatusErrorText :: "string \<Rightarrow> nat \<Rightarrow> string" where
  "boundedStatusErrorText value maxRunes =
     (let value = trim_space value in
      if rune_count value \<le> maxRunes then value else string_of_runes (take maxRunes (runes value)))"

lemma bounded_fits:
  assumes "rune_count (trim_space s) \<le> n"
  shows "boundedStatusErrorText s n = trim_space s"
    and "boundedStatusErrorText (boundedStatusErrorText s n) n = boundedStatusErrorText s n"
  using assms by (simp_all add: boundedStatusErrorText_def)

section \<open>Issues\<close>

definition maxSubmissionDiagnosticIssues :: nat where
  "maxSubmissionDiagnosticIssues = 20"

definition securityDiagnosticMessages :: "(string \<times> string) list" where
  "securityDiagnosticMessages =
     [(''role_control_spoofing'', ''The security check detected text presented as a system or developer instruction.''),
      (''instruction_override'', ''The security check detected instructions to override the service's existing instructions.''),
      (''prompt_secret_extraction'', ''The security check detected a request to reveal protected instructions or authentication material.''),
      (''tool_exfiltration'', ''The security check detected instructions to send protected information through a tool or network request.''),
      (''obfuscated_instruction'', ''The security check detected encoded or disguised instructions rather than readable evidence.''),
      (''hidden_control_markup'', ''The security check detected hidden control characters or executable markup in the submitted text.''),
      (''encoded_payload'', ''The security check detected an encoded payload; this intake requires readable evidence.'')]"

definition submissionDiagnosticIssueMessage :: "string \<Rightarrow> string" where
  "submissionDiagnosticIssueMessage code =
     (case map_of securityDiagnosticMessages code of
        Some message \<Rightarrow> message
      | None \<Rightarrow> if code = ''source_revision_changed'' then ''A submitted source revision changed or is unavailable in your authorized context.''
          else
          if code = ''known_evidence_changed'' then ''Referenced supporting evidence changed or is no longer available in your authorized context.''
          else
          if code = ''exact_reference_changed'' then ''The submitted exact Entity or relationship reference could not be confirmed in your authorized context.''
          else
          if code = ''correction_target_changed'' then ''The relationship selected for correction changed before the correction could be applied.''
          else
          if code = ''conflict_target_changed'' then ''The conflict state selected by this request changed before the operation could be applied.''
          else [])"

definition diagnosticSpan :: "any_value \<Rightarrow> int option" where
  "diagnosticSpan v =
     (case v of
        AInt n \<Rightarrow> if 0 \<le> n \<and> n \<le> 100000 then Some n else None
      | AFloat w \<Rightarrow> (case float_integer w of
            Some n \<Rightarrow> if 0 \<le> n \<and> n \<le> 100000 then Some n else None
          | None \<Rightarrow> None)
      | _ \<Rightarrow> None)"

definition issue_span :: "details \<Rightarrow> bool" where
  "issue_span entry \<longleftrightarrow>
     (case (diagnosticSpan (value_of (map_of entry ''span_start'')), diagnosticSpan (value_of (map_of entry ''span_end''))) of
        (Some s, Some e) \<Rightarrow> s < e
      | _ \<Rightarrow> False)"

text \<open>The body of the loop: the entry it appends, if any.\<close>

definition project_issue :: "any_value \<Rightarrow> any_value list" where
  "project_issue raw =
     (case raw of
        AObject entry \<Rightarrow>
          let path = text_of (map_of entry ''path''); code = text_of (map_of entry ''code'');
              message = submissionDiagnosticIssueMessage code in
          if \<not> MatchString diagnosticInputPath path \<or> 256 < length path \<or> message = [] then []
          else [AObject ([(''code'', AText code), (''message'', AText message), (''path'', AText path)] @
            (if issue_span entry
             then [(''span_end'', value_of (map_of entry ''span_end'')), (''span_start'', value_of (map_of entry ''span_start''))]
             else []))]
      | _ \<Rightarrow> [])"

fun issue_loop :: "any_value list \<Rightarrow> any_value list \<Rightarrow> any_value list" where
  "issue_loop [] result = result"
| "issue_loop (raw # rest) result =
     (if maxSubmissionDiagnosticIssues \<le> length result then result else issue_loop rest (result @ project_issue raw))"

definition issue_input :: "any_value \<Rightarrow> any_value list" where
  "issue_input v = (case v of AItems vs \<Rightarrow> vs | AObjects ms \<Rightarrow> map AObject ms | _ \<Rightarrow> [])"

definition boundedSubmissionDiagnosticIssues :: "any_value \<Rightarrow> any_value list \<times> bool" where
  "boundedSubmissionDiagnosticIssues v =
     (issue_loop (issue_input v) [], maxSubmissionDiagnosticIssues < length (issue_input v))"

section \<open>Bounded details\<close>

definition bound_entry :: "string \<Rightarrow> any_value \<Rightarrow> details \<Rightarrow> details" where
  "bound_entry key v result =
     (if key = ''issues''
      then let (issues, truncated) = boundedSubmissionDiagnosticIssues v;
               r1 = (if issues \<noteq> [] then put key (AItems issues) result else result) in
           if truncated then put ''issues_truncated'' (ATruth True) r1 else r1
      else if key = ''issues_truncated''
      then put key (ATruth (truth_of (Some v) \<or> truth_of (map_of result key))) result
      else case v of
             AText s \<Rightarrow> put key (AText (boundedStatusErrorText s 512)) result
           | AInt n \<Rightarrow> put key v result
           | AInt64 n \<Rightarrow> put key v result
           | ATruth b \<Rightarrow> put key v result
           | AFloat w \<Rightarrow> put key v result
           | _ \<Rightarrow> result)"

fun bound_loop :: "details \<Rightarrow> nat \<Rightarrow> details \<Rightarrow> details" where
  "bound_loop [] selected result = result"
| "bound_loop ((originalKey, v) # rest) selected result =
     (let key = boundedStatusErrorText originalKey 128 in
      if key = [] then bound_loop rest selected result
      else if 20 \<le> selected then result
      else bound_loop rest (Suc selected) (bound_entry key v result))"

definition boundedStatusErrorDetails :: "details option \<Rightarrow> details option" where
  "boundedStatusErrorDetails details =
     (case details of
        None \<Rightarrow> None
      | Some m \<Rightarrow> let result = bound_loop m 0 [] in if result = [] then None else Some result)"

section \<open>Maps\<close>

lemma map_of_put: "map_of (put k v m) = (map_of m)(k \<mapsto> v)"
  by (induction k v m rule: put.induct) auto

lemma put_keys: "fst ` set (put k v m) = insert k (fst ` set m)"
  by (induction k v m rule: put.induct) auto

lemma put_mem: "p \<in> set (put k v m) \<Longrightarrow> p = (k, v) \<or> p \<in> set m"
  by (induction k v m rule: put.induct) (auto split: if_splits)

lemma key_sorted_put: "key_sorted m \<Longrightarrow> key_sorted (put k v m)"
  unfolding key_sorted_def by (induction k v m rule: put.induct) (auto dest!: put_mem split: if_splits)

lemma length_put: "length (put k v m) \<le> Suc (length m)"
  by (induction k v m rule: put.induct) auto

lemma length_put_old: "key_sorted m \<Longrightarrow> k \<in> fst ` set m \<Longrightarrow> length (put k v m) = length m"
  unfolding key_sorted_def by (induction k v m rule: put.induct) fastforce+

lemma put_last: "(\<forall>p\<in>set m. fst p < k) \<Longrightarrow> put k v m = m @ [(k, v)]"
  by (induction k v m rule: put.induct) (auto simp: less_le_not_le)


section \<open>Projection and bounding are stable\<close>

lemma length_project: "length (project_issue raw) \<le> 1"
  by (simp add: project_issue_def Let_def split: any_value.split)

lemma project_stable:
  assumes "x \<in> set (project_issue raw)"
  shows "project_issue x = [x]"
proof -
  obtain entry where raw: "raw = AObject entry" using assms by (cases raw) (simp_all add: project_issue_def)
  show ?thesis
    using assms by (auto simp: raw project_issue_def Let_def issue_span_def text_of_def value_of_def diagnosticSpan_def
        split: if_splits option.splits)
qed

lemma issue_loop_take:
  "length acc \<le> 20 \<Longrightarrow> issue_loop vs acc = take 20 (acc @ concat (map project_issue vs))"
proof (induction vs arbitrary: acc)
  case (Cons v vs)
  show ?case
  proof (cases "length acc = 20")
    case False
    with Cons.prems length_project [of v] have "length (acc @ project_issue v) \<le> 20" by simp
    from Cons.IH [OF this] False Cons.prems show ?thesis by (simp add: maxSubmissionDiagnosticIssues_def)
  qed (simp add: maxSubmissionDiagnosticIssues_def)
qed simp

lemma issues_project:
  "fst (boundedSubmissionDiagnosticIssues v) = take 20 (concat (map project_issue (issue_input v)))"
  by (simp add: boundedSubmissionDiagnosticIssues_def issue_loop_take)

lemma concat_map_self: "\<forall>x\<in>set xs. f x = [x] \<Longrightarrow> concat (map f xs) = xs"
  by (induction xs) simp_all

lemma issues_stable:
  "boundedSubmissionDiagnosticIssues (AItems (fst (boundedSubmissionDiagnosticIssues v)))
     = (fst (boundedSubmissionDiagnosticIssues v), False)"
proof -
  let ?is = "fst (boundedSubmissionDiagnosticIssues v)"
  have "\<forall>x\<in>set ?is. project_issue x = [x]"
    by (auto simp: issues_project intro: project_stable dest!: in_set_takeD)
  then have "concat (map project_issue ?is) = ?is" by (rule concat_map_self)
  moreover have "length ?is \<le> 20" by (simp add: issues_project)
  ultimately show ?thesis
    by (simp add: boundedSubmissionDiagnosticIssues_def [of "AItems ?is"] issue_input_def issue_loop_take maxSubmissionDiagnosticIssues_def)
qed

text \<open>An entry that bounding leaves alone.\<close>

definition settled_value :: "string \<Rightarrow> any_value \<Rightarrow> bool" where
  "settled_value key v \<longleftrightarrow>
     (if key = ''issues''
      then (case v of AItems issues \<Rightarrow> issues \<noteq> [] \<and> boundedSubmissionDiagnosticIssues v = (issues, False) | _ \<Rightarrow> False)
      else if key = ''issues_truncated'' then (case v of ATruth b \<Rightarrow> True | _ \<Rightarrow> False)
      else (case v of AText s \<Rightarrow> boundedStatusErrorText s 512 = s | AInt n \<Rightarrow> True | AInt64 n \<Rightarrow> True | ATruth b \<Rightarrow> True
            | AFloat w \<Rightarrow> True | _ \<Rightarrow> False))"

definition settled :: "details \<Rightarrow> bool" where
  "settled m \<longleftrightarrow> key_sorted m \<and>
     (\<forall>p\<in>set m. fst p \<noteq> [] \<and> boundedStatusErrorText (fst p) 128 = fst p \<and> settled_value (fst p) (snd p))"

lemma bound_entry_settled:
  assumes "settled_value key v" and "\<forall>p\<in>set acc. fst p < key"
  shows "bound_entry key v acc = acc @ [(key, v)]"
proof -
  have none: "map_of acc key = None" using assms(2) by (fastforce simp: map_of_eq_None_iff)
  show ?thesis
    using assms none
    by (auto simp: bound_entry_def settled_value_def put_last truth_of_def split: any_value.splits if_splits)
qed

lemma bound_loop_settled:
  "settled (acc @ m) \<Longrightarrow> n + length m \<le> 20 \<Longrightarrow> bound_loop m n acc = acc @ m"
proof (induction m arbitrary: acc n)
  case (Cons p m)
  obtain key v where p: "p = (key, v)" by (cases p)
  from Cons.prems(1) have "\<forall>q\<in>set acc. fst q < key" "settled_value key v" "key \<noteq> []" "boundedStatusErrorText key 128 = key"
    by (auto simp: settled_def key_sorted_def sorted_wrt_append p)
  then show ?case using Cons.IH [of "acc @ [p]" "Suc n"] Cons.prems by (simp add: p bound_entry_settled)
qed simp


text \<open>Details without NaN whose keys and texts need no cutting, with room for the entry that reports omitted issues.\<close>

definition entry_fits :: "string \<times> any_value \<Rightarrow> bool" where
  "entry_fits p \<longleftrightarrow> rune_count (trim_space (fst p)) \<le> 128
     \<and> (case snd p of AText s \<Rightarrow> rune_count (trim_space s) \<le> 512 | AFloat w \<Rightarrow> \<not> float_nan w | _ \<Rightarrow> True)"

definition details_fit :: "details \<Rightarrow> bool" where
  "details_fit m \<longleftrightarrow> length m \<le> 19 \<and> list_all entry_fits m"

lemma truncated_key: "boundedStatusErrorText ''issues_truncated'' 128 = ''issues_truncated''"
  by code_simp

lemma settled_put:
  "settled r \<Longrightarrow> key \<noteq> [] \<Longrightarrow> boundedStatusErrorText key 128 = key \<Longrightarrow> settled_value key v \<Longrightarrow> settled (put key v r)"
  by (auto simp: settled_def key_sorted_put dest!: put_mem)

lemma settled_truncated: "settled_value ''issues_truncated'' (ATruth b)"
  by (simp add: settled_value_def)

lemma settled_issues:
  "fst (boundedSubmissionDiagnosticIssues v) \<noteq> [] \<Longrightarrow>
     settled_value ''issues'' (AItems (fst (boundedSubmissionDiagnosticIssues v)))"
  by (simp add: settled_value_def issues_stable)

lemma bound_entry_out:
  assumes "settled r" and "key \<noteq> []" and "boundedStatusErrorText key 128 = key" and "entry_fits (k, v)"
  shows "settled (bound_entry key v r)"
proof (cases "key = ''issues''")
  case True
  then show ?thesis using assms settled_issues [of v] settled_truncated [of True] truncated_key
    by (auto simp: bound_entry_def Let_def split_beta intro!: settled_put)
next
  case False
  then show ?thesis using assms settled_truncated
    by (auto simp: bound_entry_def settled_value_def entry_fits_def bounded_fits intro!: settled_put split: any_value.split)
qed

definition truncated_room :: "details \<Rightarrow> nat" where
  "truncated_room r = (if ''issues_truncated'' \<in> fst ` set r then 1 else 0)"

lemma truncated_room_put: "truncated_room r \<le> truncated_room (put k v r)"
  by (simp add: truncated_room_def put_keys)

lemma length_put_truncated:
  assumes "key_sorted r" and "length r \<le> n + truncated_room r"
  shows "length (put ''issues_truncated'' v r) \<le> n + truncated_room (put ''issues_truncated'' v r)"
  using assms length_put [of "''issues_truncated''" v r] length_put_old [of r "''issues_truncated''" v]
  by (auto simp: truncated_room_def put_keys split: if_splits)

lemma length_put_room:
  "length r \<le> n + truncated_room r \<Longrightarrow> length (put k v r) \<le> Suc n + truncated_room (put k v r)"
  using length_put [of k v r] truncated_room_put [of r k v] by simp

lemma bound_entry_room:
  assumes "key_sorted r" and "length r \<le> n + truncated_room r"
  shows "length (bound_entry key v r) \<le> Suc n + truncated_room (bound_entry key v r)"
proof -
  define r1 where "r1 = (if fst (boundedSubmissionDiagnosticIssues v) \<noteq> []
    then put ''issues'' (AItems (fst (boundedSubmissionDiagnosticIssues v))) r else r)"
  have r1: "key_sorted r1" "length r1 \<le> Suc n + truncated_room r1"
    using assms length_put_room [OF assms(2)] by (simp_all add: r1_def key_sorted_put)
  show ?thesis
  proof (cases "key = ''issues''")
    case True
    then have "bound_entry key v r =
      (if snd (boundedSubmissionDiagnosticIssues v) then put ''issues_truncated'' (ATruth True) r1 else r1)"
      by (simp add: bound_entry_def Let_def split_beta r1_def)
    then show ?thesis using r1 length_put_truncated [OF r1] by simp
  next
    case False
    then show ?thesis using length_put_room [OF assms(2)] assms(2) by (simp add: bound_entry_def split: any_value.split)
  qed
qed

lemma bound_loop_out:
  assumes "settled r" and "length r \<le> n + truncated_room r" and "list_all entry_fits m" and "n + length m \<le> 19"
  shows "settled (bound_loop m n r) \<and> length (bound_loop m n r) \<le> 20"
  using assms
proof (induction m arbitrary: n r)
  case Nil
  then show ?case by (simp add: truncated_room_def split: if_splits)
next
  case (Cons p m)
  obtain k v where p: "p = (k, v)" by (cases p)
  let ?key = "boundedStatusErrorText k 128"
  from Cons.prems(3) have fit: "entry_fits (k, v)" and rest: "list_all entry_fits m" by (simp_all add: p)
  from fit have key: "boundedStatusErrorText ?key 128 = ?key" by (simp add: entry_fits_def bounded_fits)
  show ?case
  proof (cases "?key = []")
    case True
    then show ?thesis using Cons.IH [OF Cons.prems(1,2) rest] Cons.prems(4) by (simp add: p)
  next
    case False
    have "key_sorted r" using Cons.prems(1) by (simp add: settled_def)
    then show ?thesis
      using Cons.IH [OF bound_entry_out [OF Cons.prems(1) False key fit] bound_entry_room rest] Cons.prems(2,4) False
      by (simp add: p)
  qed
qed

lemma settled_Nil: "settled []"
  by (simp add: settled_def key_sorted_def)

lemma bounded_details_stable:
  assumes "\<forall>m. details = Some m \<longrightarrow> details_fit m"
  shows "boundedStatusErrorDetails (boundedStatusErrorDetails details) = boundedStatusErrorDetails details"
proof (cases details)
  case (Some m)
  with assms have fit: "details_fit m" by simp
  have out: "settled (bound_loop m 0 []) \<and> length (bound_loop m 0 []) \<le> 20"
    by (rule bound_loop_out) (use fit in \<open>simp_all add: settled_Nil details_fit_def\<close>)
  show ?thesis using bound_loop_settled [of "[]" "bound_loop m 0 []" 0] out
    by (simp add: boundedStatusErrorDetails_def Some Let_def)
qed (simp add: boundedStatusErrorDetails_def)

text \<open>A NaN leaves the bounding only if it entered it.\<close>

lemma issues_no_nan: "\<not> list_ex holds_nan (fst (boundedSubmissionDiagnosticIssues v))"
proof -
  have nan: "\<not> holds_nan x" if "diagnosticSpan x = Some n" for x n
    using that by (cases x) (auto simp: diagnosticSpan_def float_integer_def float_nan_def Let_def split: if_splits option.splits)
  have "\<not> holds_nan x" if "x \<in> set (project_issue raw)" for x raw
    using that by (auto simp: project_issue_def issue_span_def Let_def split: any_value.splits if_splits option.splits dest: nan)
  then show ?thesis by (auto simp: issues_project list_ex_iff dest!: in_set_takeD)
qed

lemma put_nan: "holds_nan (AObject (put q x m)) \<Longrightarrow> holds_nan (AObject m) \<or> holds_nan x"
  by (fastforce simp: list_ex_iff dest!: put_mem)

lemma bound_entry_no_nan:
  assumes "entry_fits (k, v)" and "\<not> holds_nan (AObject r)"
  shows "\<not> holds_nan (AObject (bound_entry key v r))"
proof (cases "key = ''issues''")
  case True
  then show ?thesis using assms(2) issues_no_nan [of v]
    by (auto simp: bound_entry_def Let_def split_beta simp del: holds_nan.simps(4) dest!: put_nan)
next
  case False
  then show ?thesis using assms
    by (auto simp: bound_entry_def entry_fits_def simp del: holds_nan.simps(4) dest!: put_nan split: any_value.splits)
qed

lemma bound_loop_no_nan:
  "list_all entry_fits m \<Longrightarrow> \<not> holds_nan (AObject r) \<Longrightarrow> \<not> holds_nan (AObject (bound_loop m n r))"
proof (induction m n r rule: bound_loop.induct)
  case (2 k v rest n r)
  then show ?case using bound_entry_no_nan [of k v r "boundedStatusErrorText k 128"]
    by (simp add: Let_def del: holds_nan.simps(4))
qed simp

lemma deep_equal_bounded:
  assumes "\<forall>m. details = Some m \<longrightarrow> details_fit m"
  shows "deep_equal (boundedStatusErrorDetails details) (boundedStatusErrorDetails (boundedStatusErrorDetails details))"
proof -
  have "\<not> holds_nan (AObject m)" if m: "boundedStatusErrorDetails details = Some m" for m
  proof -
    obtain d where d: "details = Some d" "m = bound_loop d 0 []"
      using m by (auto simp: boundedStatusErrorDetails_def Let_def split: option.splits if_splits)
    then have "list_all entry_fits d" using assms by (simp add: details_fit_def)
    then show ?thesis using bound_loop_no_nan [of d "[]" 0] d by simp
  qed
  then show ?thesis by (simp add: deep_equal_def bounded_details_stable [OF assms] del: holds_nan.simps(4) split: option.split)
qed

text \<open>A printable ASCII text of at most \<open>n\<close> bytes that bounding leaves alone.\<close>

definition plain_text :: "nat \<Rightarrow> string \<Rightarrow> bool" where
  "plain_text n s \<longleftrightarrow> s \<noteq> [] \<and> length s \<le> n \<and> ascii_word (hd s) \<and> ascii_word (last s)"

lemma plain_text_bounded:
  assumes "plain_text n s"
  shows "trim_space s = s" and "rune_count (trim_space s) \<le> n" and "boundedStatusErrorText s n = s"
proof -
  show trim: "trim_space s = s" using assms by (simp add: plain_text_def trim_space_word)
  show "rune_count (trim_space s) \<le> n" using assms rune_count_le_length [of s] by (simp add: trim plain_text_def)
  then show "boundedStatusErrorText s n = s" by (simp add: boundedStatusErrorText_def trim)
qed

end
