(* ===== verification/Remember_Errors.thy ===== *)
theory Remember_Errors
  imports Remember_Values Go_Loops
begin

text \<open>
  The status errors of Remember: internal/remember/service/status_errors.go, the guidance of
  submission_diagnostics.go, and the terminal error vocabulary of synchronous_contract.go with the check
  that an error passes before it crosses a transport.

  A code is its text. \<open>fmt\<close> is written out for the values it prints here; the text of a \<open>float64\<close>, and of the
  nested values that no diagnostic holds, is a parameter, as is the quoting of \<open>strconv\<close>.
\<close>

record status_env =
  st_show :: "any_value \<Rightarrow> string"
  st_show_s :: "any_value \<Rightarrow> string"
  st_quote :: "string \<Rightarrow> string"
  st_unquote :: "string \<Rightarrow> string option"

record status_error =
  ste_Code :: string
  ste_Message :: string
  ste_Retryable :: bool
  ste_NextAction :: string
  ste_Remediation :: string
  ste_ReasonCode :: string
  ste_Details :: "details option"

section \<open>The vocabulary of submission errors\<close>

definition submissionErrorCodes :: "string list" where
  "submissionErrorCodes =
     [''stale_input'', ''provider_unavailable'', ''provider_response_invalid'', ''input_budget_exceeded'', ''configuration_invalid'', ''idempotency_conflict'', ''embedding_unavailable'', ''embedding_response_invalid'', ''commit_conflict'', ''database_failure'', ''request_timeout'', ''request_cancelled'', ''internal_failure'', ''submission_policy_rejected'', ''relationship_version_stale'', ''relationship_not_active'', ''object_kind_change_forbidden'', ''support_set_mismatch'', ''entity_not_found'', ''too_many_entity_candidates'', ''predicate_not_found'', ''predicate_subject_kind_mismatch'', ''predicate_object_kind_mismatch'', ''no_change'', ''confirmation_expired'', ''relationship_changed'', ''support_set_changed'', ''persistent_ambiguity'', ''inactive_relationship_collision'']"

definition SubmissionNextActions :: "string list" where
  "SubmissionNextActions =
     [''retry_same_request'', ''resubmit_remember'', ''retry_correction'', ''contact_operator'', ''none'']"

definition submissionErrorMessages :: "(string \<times> string) list" where
  "submissionErrorMessages =
     [(''stale_input'',
       ''A source revision or exact reference changed while Remember was processing this request.''),
      (''provider_unavailable'',
       ''Remember could not reach the required assessment service or obtain a usable response. This does not mean the submitted evidence is false.''),
      (''provider_response_invalid'',
       ''The assessment service did not return a complete response that satisfied the required schema and validation checks.''),
      (''input_budget_exceeded'',
       ''The evidence, proposals, or assessment context exceeded a configured processing limit.''),
      (''configuration_invalid'',
       ''A required assessment or search provider is not configured correctly, so Dense-Mem cannot complete this operation.''),
      (''idempotency_conflict'',
       ''This idempotency_key was already used for a different request. The new request was not applied.''),
      (''embedding_unavailable'',
       ''The required embedding service could not produce the vectors needed to complete this operation.''),
      (''embedding_response_invalid'',
       ''The embedding service returned missing, incorrectly ordered, or invalid vectors that could not be accepted.''),
      (''commit_conflict'',
       ''Server state changed between assessment and the attempted write, so this operation could not finish against the assessed state.''),
      (''database_failure'',
       ''Dense-Mem could not confirm that the operation was saved. The stored outcome must be checked by retrying the original request.''),
      (''request_timeout'',
       ''The operation did not finish within its allowed time. Its final stored outcome may require an idempotent retry to confirm.''),
      (''request_cancelled'',
       ''The caller cancelled this operation before a terminal response could be confirmed.''),
      (''internal_failure'',
       ''Dense-Mem could not complete this operation, and the public result does not establish a more specific cause.''),
      (''submission_policy_rejected'',
       ''A security check rejected text in the submitted batch. The batch was not accepted as memory.''),
      (''relationship_version_stale'',
       ''The relationship's current version does not match expected_version in your request, so the correction was not applied.''),
      (''relationship_not_active'',
       ''The selected relationship is not currently active, supported, and canonical, so it cannot be corrected.''),
      (''object_kind_change_forbidden'',
       ''The correction would replace a typed Value with an Entity, which this correction operation does not permit.''),
      (''support_set_mismatch'',
       ''The supplied supports do not exactly match the relationship's current effective evidence spans, so the correction was not applied.''),
      (''entity_not_found'',
       ''A referenced corrected Entity is not available in your authorized context. Its existence elsewhere is not disclosed.''),
      (''too_many_entity_candidates'',
       ''The corrected Entity name matches more candidates than can be offered for selection.''),
      (''predicate_not_found'',
       ''The requested predicate is not available as an active registered predicate in your team.''),
      (''predicate_subject_kind_mismatch'',
       ''The registered predicate does not permit the corrected subject Entity kind.''),
      (''predicate_object_kind_mismatch'',
       ''The registered predicate does not permit the corrected object Entity or Value kind.''),
      (''no_change'',
       ''The proposed correction has the same effective relationship content as the current relationship, so no correction is needed.''),
      (''confirmation_expired'',
       ''The correction confirmation expired before it was submitted, so that confirmation cannot apply the correction.''),
      (''relationship_changed'',
       ''The relationship changed after correction confirmation was requested, so that confirmation no longer describes current state.''),
      (''support_set_changed'',
       ''The effective evidence supports changed after correction confirmation was requested, so those supports must be refreshed.''),
      (''persistent_ambiguity'',
       ''The selected Entity candidate is no longer available for this correction; a new candidate selection is required.''),
      (''inactive_relationship_collision'',
       ''The proposed correction matches an inactive or unsupported historical relationship and cannot create an active duplicate.'')]"

definition submissionErrorMessage :: "string \<Rightarrow> string" where
  "submissionErrorMessage code = (case map_of submissionErrorMessages code of Some m \<Rightarrow> m | None \<Rightarrow> [])"

definition submissionErrorGuidance :: "string \<Rightarrow> bool \<times> string" where
  "submissionErrorGuidance code =
     (if code \<in> {''provider_unavailable'', ''provider_response_invalid'', ''embedding_unavailable'',
           ''embedding_response_invalid'', ''commit_conflict'', ''database_failure'', ''request_timeout'',
           ''request_cancelled'', ''internal_failure''}
      then (True, ''retry_same_request'')
      else if code \<in> {''submission_policy_rejected'', ''stale_input'', ''idempotency_conflict'', ''input_budget_exceeded''}
      then (False, ''resubmit_remember'')
      else if code = ''no_change'' then (False, ''none'')
      else if code \<in> {''relationship_version_stale'', ''relationship_not_active'', ''object_kind_change_forbidden'',
           ''support_set_mismatch'', ''entity_not_found'', ''too_many_entity_candidates'', ''predicate_not_found'',
           ''predicate_subject_kind_mismatch'', ''predicate_object_kind_mismatch'', ''confirmation_expired'',
           ''relationship_changed'', ''support_set_changed'', ''persistent_ambiguity'', ''inactive_relationship_collision''}
      then (True, ''retry_correction'')
      else (False, ''contact_operator''))"

definition submissionErrorRemediation :: "string \<Rightarrow> string" where
  "submissionErrorRemediation action =
     (if action = ''retry_same_request''
      then ''Retry the same request with the same idempotency_key after the transient failure clears.''
      else if action = ''resubmit_remember''
      then ''Submit the complete batch again with remember and a new idempotency_key after correcting the input.''
      else if action = ''retry_correction''
      then ''Retry correct_relationship with current relationship state and a new idempotency_key.''
      else if action = ''none'' then ''No action is required.''
      else ''Contact an operator with submission_id and correlation_id.'')"

definition submissionErrorRemediationForCode :: "string \<Rightarrow> string \<Rightarrow> string" where
  "submissionErrorRemediationForCode code action =
     (if code = ''request_cancelled''
      then ''If you still need this operation, retry the exact original request with the same idempotency_key to obtain or complete its authoritative outcome.''
      else if code \<in> {''request_timeout'', ''database_failure''}
      then ''Retry the exact original request with the same idempotency_key to confirm its final stored outcome. If the failure persists, contact an operator with submission_id and correlation_id.''
      else if code = ''submission_policy_rejected''
      then ''Submit readable evidence without commands directed at the service, using a new idempotency_key. Preserve the factual meaning. If you dispute the security classification, contact an operator with submission_id and correlation_id.''
      else if code = ''stale_input''
      then ''Refresh the authorized source revisions and exact references, check that the intended change still applies, then submit the complete updated request with a new idempotency_key.''
      else if code = ''idempotency_conflict''
      then ''Reuse this idempotency_key only for the original unchanged request. Submit a deliberately changed request with a new idempotency_key.''
      else if code = ''input_budget_exceeded''
      then ''Reduce or split only the identified caller-controlled input while preserving its meaning, then submit with a new idempotency_key. If the excess is server-owned context, contact an operator.''
      else if code \<in> {''relationship_version_stale'', ''relationship_changed''}
      then ''Read the current relationship state, check that your correction still applies, then call correct_relationship with the current version and a new idempotency_key.''
      else if code \<in> {''support_set_mismatch'', ''support_set_changed''}
      then ''Trace the relationship, retain only effective granted or reinstated evidence supports, and supply their exact evidence IDs and spans with a new idempotency_key.''
      else if code \<in> {''confirmation_expired'', ''persistent_ambiguity''}
      then ''Start correct_relationship again with refreshed state and a new idempotency_key, then use the newly returned candidate or confirmation before it expires.''
      else if code \<in> {''predicate_not_found'', ''predicate_subject_kind_mismatch'', ''predicate_object_kind_mismatch''}
      then ''Refresh the authorized predicate catalog and choose an active predicate whose subject and object kinds permit this correction; resubmit with a new idempotency_key.''
      else if code \<in> {''entity_not_found'', ''too_many_entity_candidates''}
      then ''Refresh authorized Entity candidates and select an available exact Entity identity before retrying correct_relationship with a new idempotency_key.''
      else if code \<in> {''relationship_not_active'', ''inactive_relationship_collision''}
      then ''Trace the current relationship and its lifecycle state. Select an eligible active relationship or ask the operator to review the historical collision before starting a new correction.''
      else if code = ''object_kind_change_forbidden''
      then ''Keep the corrected object a typed Value. A change from Value to Entity requires a separately supported operation; contact an operator if that change is intended.''
      else submissionErrorRemediation action)"

definition StatusError :: "string \<Rightarrow> status_error" where
  "StatusError code0 =
     (let code = (if submissionErrorMessage code0 = [] then ''internal_failure'' else code0);
          (retryable, action) = submissionErrorGuidance code in
      \<lparr>ste_Code = code, ste_Message = submissionErrorMessage code, ste_Retryable = retryable, ste_NextAction = action,
       ste_Remediation = submissionErrorRemediationForCode code action, ste_ReasonCode = [], ste_Details = None\<rparr>)"

definition StatusErrorWithMessage :: "string \<Rightarrow> string \<Rightarrow> status_error" where
  "StatusErrorWithMessage code message = (StatusError code)\<lparr>ste_Message := message\<rparr>"

definition StatusErrorForCode :: "string \<Rightarrow> string \<Rightarrow> status_error" where
  "StatusErrorForCode rawCode fallbackState =
     (let code = trim_space rawCode in
      if code \<in> set submissionErrorCodes then StatusError code
      else if fallbackState = ''rejected'' then StatusError ''submission_policy_rejected''
      else StatusError ''internal_failure'')"

definition FailureCode :: "string \<Rightarrow> string \<Rightarrow> string" where
  "FailureCode stage0 class0 =
     (let stage = trim_space stage0; class = trim_space class0 in
      if stage = ''contract_superseded'' then ''internal_failure''
      else if stage \<in> {''input_budget'', ''input_budget_exceeded''} \<or> class = ''input_budget'' then ''input_budget_exceeded''
      else if stage \<in> {''entity_catalog'', ''known_evidence_context'', ''catalog_context'', ''catalog_context_validation'',
           ''predicate_context'', ''predicate_options_overflow'', ''assessment_input'', ''assessment_budget'', ''provider_framing''}
      then ''input_budget_exceeded''
      else if stage \<in> {''configuration'', ''configuration_invalid''} then ''configuration_invalid''
      else if stage \<in> {''database'', ''database_failure''} \<or> class = ''database_failure'' then ''database_failure''
      else if stage = ''assessment'' \<and> class = ''malformed_exhausted''
           \<or> class \<in> {''malformed_response'', ''validation_failed'', ''provider_protocol'', ''request_invalid''}
      then ''provider_response_invalid''
      else if class \<in> {''timeout'', ''rate_limited'', ''http_4xx'', ''http_5xx'', ''http_unexpected'', ''transport'', ''provider_unavailable''}
      then ''provider_unavailable''
      else ''internal_failure'')"

section \<open>Guidance from the details\<close>

definition statusErrorServerOwned :: "details option \<Rightarrow> bool" where
  "statusErrorServerOwned details = (case details of None \<Rightarrow> False | Some m \<Rightarrow> truth_of (map_of m ''server_owned''))"

definition serverOwnedInputBudgetRemediation :: string where
  "serverOwnedInputBudgetRemediation =
     ''Ask an operator to review the configured assessor budget and server-owned context before retrying.''"

definition applyServerOwnedInputBudgetGuidance :: "status_error \<Rightarrow> status_error" where
  "applyServerOwnedInputBudgetGuidance e =
     (if ste_Code e \<noteq> ''input_budget_exceeded'' \<or> \<not> statusErrorServerOwned (ste_Details e) then e
      else e\<lparr>ste_Retryable := False, ste_NextAction := ''contact_operator'',
             ste_Remediation := serverOwnedInputBudgetRemediation\<rparr>)"

definition detail :: "details option \<Rightarrow> string \<Rightarrow> any_value" where
  "detail details k = (case details of None \<Rightarrow> ANil | Some m \<Rightarrow> value_of (map_of m k))"

definition go_truth :: "bool \<Rightarrow> string" where
  "go_truth b = (if b then ''true'' else ''false'')"

definition format_v :: "status_env \<Rightarrow> any_value \<Rightarrow> string" where
  "format_v S v =
     (case v of ANil \<Rightarrow> ''<nil>'' | AText s \<Rightarrow> s | AInt n \<Rightarrow> go_decimal n | AInt64 n \<Rightarrow> go_decimal n
      | ATruth b \<Rightarrow> go_truth b | _ \<Rightarrow> st_show S v)"

definition format_s :: "status_env \<Rightarrow> any_value \<Rightarrow> string" where
  "format_s S v =
     (case v of ANil \<Rightarrow> ''%!s(<nil>)'' | AText s \<Rightarrow> s | AInt n \<Rightarrow> ''%!s(int='' @ go_decimal n @ '')''
      | AInt64 n \<Rightarrow> ''%!s(int64='' @ go_decimal n @ '')'' | ATruth b \<Rightarrow> ''%!s(bool='' @ go_truth b @ '')''
      | _ \<Rightarrow> st_show_s S v)"

definition diagnosticInputOwner :: "details option \<Rightarrow> string" where
  "diagnosticInputOwner details =
     (if statusErrorServerOwned details then ''server-owned context'' else ''submitted evidence or proposals'')"

definition genericRememberFailureDetailsUnavailable :: "status_error \<Rightarrow> bool" where
  "genericRememberFailureDetailsUnavailable e \<longleftrightarrow>
     ste_ReasonCode e \<in> {''remember_assessment_failed'', ''remember_embedding_failed'', ''remember_commit_failed''}
     \<and> (case ste_Details e of None \<Rightarrow> True
        | Some m \<Rightarrow> list_all (\<lambda>p. fst p \<in> {''component'', ''server_owned''}) m)"

definition details_issues :: "status_error \<Rightarrow> any_value list" where
  "details_issues e = fst (boundedSubmissionDiagnosticIssues (detail (ste_Details e) ''issues''))"

text \<open>The four steps of \<open>applySubmissionDiagnosticGuidance\<close>.\<close>

definition issue_guidance :: "status_error \<Rightarrow> status_error" where
  "issue_guidance e =
     (case details_issues e of
        AObject first # rest \<Rightarrow>
          let m = boundedStatusErrorText (text_of (map_of first ''message'') @ '' Input location: ''
                    @ text_of (map_of first ''path'') @ ''.'') 512 in
          e\<lparr>ste_Message := (if ste_Code e = ''submission_policy_rejected''
                           then boundedStatusErrorText (m @ '' This batch was not accepted as memory.'') 512 else m)\<rparr>
      | _ \<Rightarrow> e)"

definition policy_unavailable :: "status_error \<Rightarrow> status_error" where
  "policy_unavailable e =
     (if ste_Code e = ''submission_policy_rejected'' \<and> details_issues e = []
      then e\<lparr>ste_Message := ''The saved result records that this batch was rejected by policy. Its specific cause and affected input location were not retained.'',
             ste_Remediation := ''Review the original evidence and proposals without changing their factual meaning. If the missing detail prevents correction, contact an operator with submission_id and correlation_id. Submit a deliberately changed request with a new idempotency_key.''\<rparr>
      else e)"

definition reason_messages :: "(string \<times> string) list" where
  "reason_messages = [(''provider_rate_limited'', ''The required provider limited the service's request rate. This is a service limit, not a judgment that your evidence is false.''),
      (''provider_timeout'', ''The required provider did not respond within the allowed time, so processing could not finish.''),
      (''provider_server_failure'', ''The required provider reported a server failure while processing this operation.''),
      (''provider_transport_failure'', ''The connection to the required provider failed before a usable response was received.''),
      (''provider_request_rejected'', ''The required provider rejected the server's request. Ask an operator to review provider configuration if retrying the unchanged request does not resolve it.''),
      (''embedding_rate_limited'', ''The embedding service limited the service's request rate, so it could not produce all required vectors.''),
      (''embedding_timeout'', ''The embedding service did not produce all required vectors within the allowed time.''),
      (''embedding_server_failure'', ''The embedding service reported a server failure before all required vectors were available.''),
      (''embedding_transport_failure'', ''The connection to the embedding service failed before all required vectors were available.''),
      (''embedding_request_rejected'', ''The embedding service rejected the server's request. Ask an operator to review provider configuration.'')]"

definition reason_guidance :: "status_error \<Rightarrow> status_error" where
  "reason_guidance e =
     (let reason = ste_ReasonCode e in
      if reason = ''idempotency_lock_busy''
      then e\<lparr>ste_Message := ''Remember execution capacity is busy. Reduce concurrent requests and retry after current work finishes.'',
             ste_Remediation := ''Retry the exact original request with the same idempotency_key. If lower concurrency still fails, ask an operator to check database pool capacity with submission_id and correlation_id.''\<rparr>
      else if reason = ''security_rejection''
      then (if details_issues e = []
            then e\<lparr>ste_Message := ''A security check rejected this batch. The available result does not retain its specific category or affected input location.''\<rparr>
            else e)
      else if reason = ''legacy_policy_rejection'' \<or> reason = ''remember_assessment_failed'' then policy_unavailable e
      else if reason = ''legacy_details_unavailable''
      then e\<lparr>ste_Message := boundedStatusErrorText (ste_Message e @
               '' More specific cause and input-location details were not retained in this result.'') 512\<rparr>
      else (case map_of reason_messages reason of Some m \<Rightarrow> e\<lparr>ste_Message := m\<rparr> | None \<Rightarrow> e))"

definition budget_guidance :: "status_env \<Rightarrow> status_error \<Rightarrow> status_error" where
  "budget_guidance S e =
     (case ste_Details e of
        None \<Rightarrow> e
      | Some m \<Rightarrow>
          if ste_Code e \<noteq> ''input_budget_exceeded'' \<or> m = [] then e
          else if map_of m ''observed'' \<noteq> None \<and> detail (Some m) ''limit'' \<noteq> ANil
          then e\<lparr>ste_Message := boundedStatusErrorText (''The '' @ format_s S (detail (Some m) ''component'')
                  @ '' processing limit was exceeded: observed '' @ format_v S (detail (Some m) ''observed'') @ '' ''
                  @ format_s S (detail (Some m) ''unit'') @ '', allowed '' @ format_v S (detail (Some m) ''limit'')
                  @ ''. Input ownership: '' @ diagnosticInputOwner (Some m) @ ''.'') 512\<rparr>
          else e\<lparr>ste_Message := ''An assessment processing limit was exceeded for '' @ diagnosticInputOwner (Some m)
                  @ ''. The available result does not retain observed or allowed counts.''\<rparr>)"

definition unavailable_guidance :: "status_error \<Rightarrow> status_error" where
  "unavailable_guidance e =
     (if ste_Code e \<noteq> ''submission_policy_rejected'' \<and> genericRememberFailureDetailsUnavailable e
      then e\<lparr>ste_Message := boundedStatusErrorText (ste_Message e @
              '' More specific cause and affected input-location details were not retained in this result.'') 512\<rparr>
      else e)"

definition applySubmissionDiagnosticGuidance :: "status_env \<Rightarrow> status_error \<Rightarrow> status_error" where
  "applySubmissionDiagnosticGuidance S e =
     unavailable_guidance (budget_guidance S (reason_guidance (issue_guidance e)))"

definition with_details :: "status_env \<Rightarrow> status_error \<Rightarrow> string \<Rightarrow> details option \<Rightarrow> status_error" where
  "with_details S base reasonCode details =
     applySubmissionDiagnosticGuidance S (applyServerOwnedInputBudgetGuidance
       (base\<lparr>ste_ReasonCode := boundedStatusErrorText reasonCode 128, ste_Details := boundedStatusErrorDetails details\<rparr>))"

definition StatusErrorWithDetails :: "status_env \<Rightarrow> string \<Rightarrow> string \<Rightarrow> details option \<Rightarrow> status_error" where
  "StatusErrorWithDetails S code reasonCode details = with_details S (StatusError code) reasonCode details"

section \<open>The vocabulary of terminal errors\<close>

definition terminalErrorCodes :: "string list" where
  "terminalErrorCodes =
     [''submission_policy_rejected'', ''stale_input'', ''provider_unavailable'', ''provider_response_invalid'',
      ''input_budget_exceeded'', ''configuration_invalid'', ''idempotency_conflict'', ''embedding_unavailable'',
      ''embedding_response_invalid'', ''commit_conflict'', ''database_failure'', ''request_timeout'',
      ''request_cancelled'', ''internal_failure'']"

definition terminalNextActions :: "string list" where
  "terminalNextActions =
     [''retry_same_request'', ''resubmit_remember'', ''retry_dream_feedback'', ''retry_correction'',
      ''contact_operator'', ''none'']"

definition normalizeTerminalErrorCode :: "string \<Rightarrow> string" where
  "normalizeTerminalErrorCode code = (if code \<in> set terminalErrorCodes then code else ''internal_failure'')"

definition IsTerminalErrorCode :: "string \<Rightarrow> bool" where
  "IsTerminalErrorCode code \<longleftrightarrow> normalizeTerminalErrorCode code = code"

definition IsTerminalNextAction :: "string \<Rightarrow> bool" where
  "IsTerminalNextAction action \<longleftrightarrow> action \<in> set terminalNextActions"

definition terminalErrorGuidance :: "string \<Rightarrow> bool \<times> string" where
  "terminalErrorGuidance code =
     (if code \<in> {''provider_unavailable'', ''provider_response_invalid'', ''embedding_unavailable'',
           ''embedding_response_invalid'', ''commit_conflict'', ''database_failure'', ''request_timeout'',
           ''request_cancelled'', ''internal_failure''}
      then (True, ''retry_same_request'')
      else if code \<in> {''submission_policy_rejected'', ''stale_input'', ''idempotency_conflict'', ''input_budget_exceeded''}
      then (False, ''resubmit_remember'')
      else if code = ''configuration_invalid'' then (False, ''contact_operator'')
      else (False, ''contact_operator''))"

definition terminalErrorMessage :: "string \<Rightarrow> string" where
  "terminalErrorMessage code = submissionErrorMessage (normalizeTerminalErrorCode code)"

definition TerminalStatusError :: "string \<Rightarrow> status_error" where
  "TerminalStatusError code0 =
     (let code = normalizeTerminalErrorCode code0; (retryable, action) = terminalErrorGuidance code in
      \<lparr>ste_Code = code, ste_Message = terminalErrorMessage code, ste_Retryable = retryable, ste_NextAction = action,
       ste_Remediation = submissionErrorRemediationForCode code action, ste_ReasonCode = [], ste_Details = None\<rparr>)"

definition TerminalStatusErrorWithDetails :: "status_env \<Rightarrow> string \<Rightarrow> string \<Rightarrow> details option \<Rightarrow> status_error" where
  "TerminalStatusErrorWithDetails S code reasonCode details = with_details S (TerminalStatusError code) reasonCode details"

section \<open>The check at the boundary\<close>

definition dreamRetryPrefix :: string where
  "dreamRetryPrefix = ''Retry resolve_dream_feedback with corrected evidence and idempotency_key ''"

definition DreamFeedbackRetryRemediation :: "status_env \<Rightarrow> string \<Rightarrow> string" where
  "DreamFeedbackRetryRemediation S key = dreamRetryPrefix @ st_quote S key @ ''.''"

definition validDreamFeedbackRetryRemediation :: "status_env \<Rightarrow> string \<Rightarrow> bool" where
  "validDreamFeedbackRetryRemediation S value \<longleftrightarrow>
     rune_count value \<le> 512 \<and> prefix dreamRetryPrefix value \<and> suffix ''.'' value
     \<and> (case st_unquote S (butlast (drop (length dreamRetryPrefix) value)) of
          None \<Rightarrow> False
        | Some key \<Rightarrow> trim_space key \<noteq> [] \<and> rune_count key \<le> 128 \<and> DreamFeedbackRetryRemediation S key = value)"

datatype status_problem = CodeNotAllowed string | ActionNotAllowed string | GuidanceInconsistent string
  | MessageNotCanonical string | BudgetRemediation string | RemediationNotCanonical string
  | ReasonNotBounded | DetailsRequired | DetailsNotBounded

definition server_owned_budget :: "status_error \<Rightarrow> bool" where
  "server_owned_budget e \<longleftrightarrow> ste_Code e = ''input_budget_exceeded'' \<and> statusErrorServerOwned (ste_Details e)"

definition guidance_inconsistent :: "status_env \<Rightarrow> status_error \<Rightarrow> bool" where
  "guidance_inconsistent S e \<longleftrightarrow>
     (let (retryable, action0) = terminalErrorGuidance (ste_Code e);
          action = (if server_owned_budget e then ''contact_operator'' else action0) in
      if ste_NextAction e = ''retry_dream_feedback''
      then \<not> retryable \<or> action \<noteq> ''resubmit_remember'' \<or> \<not> ste_Retryable e
           \<or> \<not> validDreamFeedbackRetryRemediation S (ste_Remediation e)
      else ste_Retryable e \<noteq> retryable \<or> ste_NextAction e \<noteq> action)"

definition ValidateTerminalStatusError :: "status_env \<Rightarrow> status_error \<Rightarrow> status_problem option" where
  "ValidateTerminalStatusError S e =
     (let code = trim_space (ste_Code e); canonical = TerminalStatusErrorWithDetails S code (ste_ReasonCode e) (ste_Details e) in
      if ste_Code e \<noteq> code \<or> \<not> IsTerminalErrorCode code then Some (CodeNotAllowed (ste_Code e))
      else if \<not> IsTerminalNextAction (ste_NextAction e) then Some (ActionNotAllowed (ste_NextAction e))
      else if guidance_inconsistent S e then Some (GuidanceInconsistent code)
      else if ste_Message e \<noteq> ste_Message canonical then Some (MessageNotCanonical code)
      else if ste_NextAction e \<noteq> ''retry_dream_feedback'' \<and> server_owned_budget e
              \<and> ste_Remediation e \<noteq> serverOwnedInputBudgetRemediation then Some (BudgetRemediation code)
      else if ste_NextAction e \<noteq> ''retry_dream_feedback'' \<and> \<not> server_owned_budget e
              \<and> ste_Remediation e \<noteq> ste_Remediation canonical then Some (RemediationNotCanonical code)
      else if ste_ReasonCode e \<noteq> boundedStatusErrorText (ste_ReasonCode e) 128 then Some ReasonNotBounded
      else if ste_ReasonCode e \<noteq> [] \<and> ste_Details e = None then Some DetailsRequired
      else if ste_ReasonCode e \<noteq> [] \<and> \<not> deep_equal (ste_Details e) (boundedStatusErrorDetails (ste_Details e))
      then Some DetailsNotBounded
      else None)"

section \<open>What the guidance leaves alone\<close>

lemma issue_guidance_fields [simp]:
  "ste_Code (issue_guidance e) = ste_Code e" "ste_Retryable (issue_guidance e) = ste_Retryable e"
  "ste_NextAction (issue_guidance e) = ste_NextAction e" "ste_Remediation (issue_guidance e) = ste_Remediation e"
  "ste_ReasonCode (issue_guidance e) = ste_ReasonCode e" "ste_Details (issue_guidance e) = ste_Details e"
  by (simp_all add: issue_guidance_def Let_def split: list.split any_value.split)

lemma reason_guidance_fields [simp]:
  "ste_Code (reason_guidance e) = ste_Code e" "ste_Retryable (reason_guidance e) = ste_Retryable e"
  "ste_NextAction (reason_guidance e) = ste_NextAction e"
  "ste_ReasonCode (reason_guidance e) = ste_ReasonCode e" "ste_Details (reason_guidance e) = ste_Details e"
  by (simp_all add: reason_guidance_def policy_unavailable_def Let_def split: option.split)

lemma reason_guidance_remediation:
  "ste_Code e \<noteq> ''submission_policy_rejected'' \<Longrightarrow> ste_ReasonCode e \<noteq> ''idempotency_lock_busy'' \<Longrightarrow>
     ste_Remediation (reason_guidance e) = ste_Remediation e"
  by (simp add: reason_guidance_def policy_unavailable_def Let_def split: option.split)

lemma budget_guidance_fields [simp]:
  "ste_Code (budget_guidance S e) = ste_Code e" "ste_Retryable (budget_guidance S e) = ste_Retryable e"
  "ste_NextAction (budget_guidance S e) = ste_NextAction e" "ste_Remediation (budget_guidance S e) = ste_Remediation e"
  "ste_ReasonCode (budget_guidance S e) = ste_ReasonCode e" "ste_Details (budget_guidance S e) = ste_Details e"
  by (simp_all add: budget_guidance_def split: option.split)

lemma unavailable_guidance_fields [simp]:
  "ste_Code (unavailable_guidance e) = ste_Code e" "ste_Retryable (unavailable_guidance e) = ste_Retryable e"
  "ste_NextAction (unavailable_guidance e) = ste_NextAction e" "ste_Remediation (unavailable_guidance e) = ste_Remediation e"
  "ste_ReasonCode (unavailable_guidance e) = ste_ReasonCode e" "ste_Details (unavailable_guidance e) = ste_Details e"
  by (simp_all add: unavailable_guidance_def)

lemma server_owned_fields [simp]:
  "ste_Code (applyServerOwnedInputBudgetGuidance e) = ste_Code e"
  "ste_ReasonCode (applyServerOwnedInputBudgetGuidance e) = ste_ReasonCode e"
  "ste_Details (applyServerOwnedInputBudgetGuidance e) = ste_Details e"
  by (simp_all add: applyServerOwnedInputBudgetGuidance_def)

lemma with_details_fields [simp]:
  "ste_Code (with_details S base r d) = ste_Code base"
  "ste_ReasonCode (with_details S base r d) = boundedStatusErrorText r 128"
  "ste_Details (with_details S base r d) = boundedStatusErrorDetails d"
  by (simp_all add: with_details_def applySubmissionDiagnosticGuidance_def)

lemma with_details_owned:
  "server_owned_budget (with_details S base r d)
     \<longleftrightarrow> ste_Code base = ''input_budget_exceeded'' \<and> statusErrorServerOwned (boundedStatusErrorDetails d)"
  by (simp add: server_owned_budget_def)

lemma with_details_guidance:
  "ste_Retryable (with_details S base r d) = (if server_owned_budget (with_details S base r d) then False else ste_Retryable base)"
  "ste_NextAction (with_details S base r d) =
     (if server_owned_budget (with_details S base r d) then ''contact_operator'' else ste_NextAction base)"
  by (simp_all add: with_details_owned) (simp_all add: with_details_def applySubmissionDiagnosticGuidance_def
      applyServerOwnedInputBudgetGuidance_def)

lemma with_details_budget_remediation:
  assumes "server_owned_budget (with_details S base r d)" and "boundedStatusErrorText r 128 \<noteq> ''idempotency_lock_busy''"
  shows "ste_Remediation (with_details S base r d) = serverOwnedInputBudgetRemediation"
proof -
  let ?e = "applyServerOwnedInputBudgetGuidance
    (base\<lparr>ste_ReasonCode := boundedStatusErrorText r 128, ste_Details := boundedStatusErrorDetails d\<rparr>)"
  have "ste_Remediation (reason_guidance (issue_guidance ?e)) = ste_Remediation ?e"
    using reason_guidance_remediation [of "issue_guidance ?e"] assms by (simp add: with_details_owned)
  then show ?thesis using assms
    by (simp add: with_details_owned) (simp add: with_details_def applySubmissionDiagnosticGuidance_def
        applyServerOwnedInputBudgetGuidance_def)
qed

section \<open>Codes\<close>

lemma terminal_codes_trimmed: "list_all (\<lambda>c. trim_space c = c) terminalErrorCodes"
  by (simp add: terminalErrorCodes_def go_string_eval)

lemma normalize_code_in: "normalizeTerminalErrorCode c \<in> set terminalErrorCodes"
  by (simp add: normalizeTerminalErrorCode_def) (simp add: terminalErrorCodes_def)

lemma normalize_code_fix: "c \<in> set terminalErrorCodes \<Longrightarrow> normalizeTerminalErrorCode c = c"
  by (simp add: normalizeTerminalErrorCode_def)

lemma terminal_code_iff: "IsTerminalErrorCode c \<longleftrightarrow> c \<in> set terminalErrorCodes"
  using normalize_code_in [of c] normalize_code_fix [of c] by (auto simp: IsTerminalErrorCode_def)

lemma terminal_code_trim: "c \<in> set terminalErrorCodes \<Longrightarrow> trim_space c = c"
  using terminal_codes_trimmed by (simp add: list_all_iff)

lemma guidance_action:
  "snd (terminalErrorGuidance c) \<in> {''retry_same_request'', ''resubmit_remember'', ''contact_operator''}"
  "fst (terminalErrorGuidance c) \<Longrightarrow> snd (terminalErrorGuidance c) = ''retry_same_request''"
  by (auto simp: terminalErrorGuidance_def split: if_splits)

lemma status_error_parts:
  "ste_Code (TerminalStatusError c) = normalizeTerminalErrorCode c"
  "ste_Message (TerminalStatusError c) = terminalErrorMessage (normalizeTerminalErrorCode c)"
  "ste_Retryable (TerminalStatusError c) = fst (terminalErrorGuidance (normalizeTerminalErrorCode c))"
  "ste_NextAction (TerminalStatusError c) = snd (terminalErrorGuidance (normalizeTerminalErrorCode c))"
  by (simp_all add: TerminalStatusError_def split_beta Let_def)

lemma status_error_normal: "TerminalStatusError (normalizeTerminalErrorCode c) = TerminalStatusError c"
  by (simp add: TerminalStatusError_def normalize_code_fix [OF normalize_code_in])

lemma guidance_consistent:
  "\<not> guidance_inconsistent S (TerminalStatusErrorWithDetails S c r d)"
proof -
  let ?e = "TerminalStatusErrorWithDetails S c r d" and ?g = "terminalErrorGuidance (normalizeTerminalErrorCode c)"
  have "ste_NextAction ?e = (if server_owned_budget ?e then ''contact_operator'' else snd ?g)"
    and "ste_Retryable ?e = (if server_owned_budget ?e then False else fst ?g)"
    by (simp_all add: TerminalStatusErrorWithDetails_def with_details_guidance status_error_parts)
  moreover have "fst ?g = False" if "server_owned_budget ?e"
    using that by (simp add: TerminalStatusErrorWithDetails_def with_details_owned status_error_parts terminalErrorGuidance_def)
  ultimately show ?thesis using guidance_action(1) [of "normalizeTerminalErrorCode c"]
    by (auto simp: guidance_inconsistent_def split_beta Let_def TerminalStatusErrorWithDetails_def status_error_parts)
qed

section \<open>The errors the service builds pass its own check\<close>

definition busy_budget :: "string \<Rightarrow> string \<Rightarrow> details option \<Rightarrow> bool" where
  "busy_budget code reasonCode details \<longleftrightarrow>
     normalizeTerminalErrorCode code = ''input_budget_exceeded'' \<and> trim_space reasonCode = ''idempotency_lock_busy''
     \<and> statusErrorServerOwned (boundedStatusErrorDetails details)"

definition reason_explained :: "string \<Rightarrow> details option \<Rightarrow> bool" where
  "reason_explained reasonCode details \<longleftrightarrow> trim_space reasonCode = [] \<or> boundedStatusErrorDetails details \<noteq> None"

definition details_stable :: "details option \<Rightarrow> bool" where
  "details_stable d \<longleftrightarrow> deep_equal (boundedStatusErrorDetails d) (boundedStatusErrorDetails (boundedStatusErrorDetails d))"

lemma details_stable_fit: "\<forall>m. d = Some m \<longrightarrow> details_fit m \<Longrightarrow> details_stable d"
  by (simp add: details_stable_def deep_equal_bounded)

lemma details_stable_bounded: "details_stable d \<Longrightarrow> details_stable (boundedStatusErrorDetails d)"
  by (simp add: details_stable_def deep_equal_def)

lemma built_error_canonical:
  assumes "rune_count (trim_space reasonCode) \<le> 128" and "details_stable details"
  shows "(let e = TerminalStatusErrorWithDetails S code reasonCode details in
    TerminalStatusErrorWithDetails S (ste_Code e) (ste_ReasonCode e) (ste_Details e) = e)"
proof -
  have "boundedStatusErrorDetails (boundedStatusErrorDetails details) = boundedStatusErrorDetails details"
    using assms(2) by (simp add: details_stable_def deep_equal_def)
  then show ?thesis
    by (simp add: Let_def TerminalStatusErrorWithDetails_def status_error_parts status_error_normal)
      (simp add: with_details_def bounded_fits(2) [OF assms(1)])
qed

lemma built_error_valid:
  assumes "rune_count (trim_space reasonCode) \<le> 128" and "details_stable details"
    and "reason_explained reasonCode details" and "\<not> busy_budget code reasonCode details"
  shows "ValidateTerminalStatusError S (TerminalStatusErrorWithDetails S code reasonCode details) = None"
proof -
  let ?e = "TerminalStatusErrorWithDetails S code reasonCode details" and ?c = "normalizeTerminalErrorCode code"
  note fit = bounded_fits [OF assms(1)]
  have same: "deep_equal (boundedStatusErrorDetails details) (boundedStatusErrorDetails (boundedStatusErrorDetails details))"
    using assms(2) by (simp add: details_stable_def)
  then have stable: "boundedStatusErrorDetails (boundedStatusErrorDetails details) = boundedStatusErrorDetails details"
    by (simp add: deep_equal_def)
  have c: "trim_space ?c = ?c" "ste_Code ?e = ?c" "IsTerminalErrorCode ?c"
    by (simp_all add: terminal_code_trim normalize_code_in TerminalStatusErrorWithDetails_def status_error_parts terminal_code_iff)
  have r: "ste_ReasonCode ?e = boundedStatusErrorText reasonCode 128" and d: "ste_Details ?e = boundedStatusErrorDetails details"
    by (simp_all add: TerminalStatusErrorWithDetails_def)
  have canonical: "TerminalStatusErrorWithDetails S ?c (ste_ReasonCode ?e) (ste_Details ?e) = ?e"
    by (simp add: r d TerminalStatusErrorWithDetails_def status_error_normal)
      (simp add: with_details_def fit(2) stable)
  have action: "IsTerminalNextAction (ste_NextAction ?e)"
    using guidance_action(1) [of ?c]
    by (auto simp: TerminalStatusErrorWithDetails_def with_details_guidance status_error_parts IsTerminalNextAction_def terminalNextActions_def)
  have budget: "ste_Remediation ?e = serverOwnedInputBudgetRemediation" if "server_owned_budget ?e"
    using that assms(4) with_details_budget_remediation [of S "TerminalStatusError code" reasonCode details] fit(1)
    by (simp add: TerminalStatusErrorWithDetails_def busy_budget_def with_details_owned status_error_parts)
  show ?thesis
    using assms(3) fit same
    by (simp add: ValidateTerminalStatusError_def Let_def c canonical [unfolded r d fit(1)] action guidance_consistent budget r d reason_explained_def)
qed

lemma with_details_plain: "ste_ReasonCode base = [] \<Longrightarrow> ste_Details base = None \<Longrightarrow> with_details S base [] None = base"
  by (simp add: with_details_def applySubmissionDiagnosticGuidance_def applyServerOwnedInputBudgetGuidance_def
      statusErrorServerOwned_def boundedStatusErrorText_def boundedStatusErrorDetails_def rune_count_def runes_def
      issue_guidance_def reason_guidance_def budget_guidance_def unavailable_guidance_def details_issues_def detail_def
      boundedSubmissionDiagnosticIssues_def issue_input_def reason_messages_def genericRememberFailureDetailsUnavailable_def)

lemma plain_error_valid: "ValidateTerminalStatusError S (TerminalStatusError code) = None"
proof -
  have "TerminalStatusErrorWithDetails S code [] None = TerminalStatusError code"
    unfolding TerminalStatusErrorWithDetails_def
    by (rule with_details_plain) (simp_all add: TerminalStatusError_def split_beta Let_def)
  moreover have "ValidateTerminalStatusError S (TerminalStatusErrorWithDetails S code [] None) = None"
    by (rule built_error_valid) (simp_all add: details_stable_fit rune_count_def runes_def reason_explained_def busy_budget_def)
  ultimately show ?thesis by simp
qed


text \<open>C13 (accepted_error_canonical): an accepted error carries no text of its own: its code is one of the fourteen
  terminal codes, its retry flag and next action are the ones of the code (a server-owned input budget sends the caller
  to an operator), and its message and remediation are those of the error built from its code, reason and
  details, to which the whole error is equal when it has a reason that is not about a busy lock. An error whose
  next action is \<open>retry_dream_feedback\<close> is never accepted.\<close>

theorem accepted_error_canonical:
  assumes "ValidateTerminalStatusError S e = None"
  shows "ste_Code e \<in> set terminalErrorCodes
    \<and> ste_NextAction e \<noteq> ''retry_dream_feedback''
    \<and> (ste_Retryable e, ste_NextAction e) =
        (if server_owned_budget e then (False, ''contact_operator'') else terminalErrorGuidance (ste_Code e))
    \<and> ste_Message e = ste_Message (TerminalStatusErrorWithDetails S (ste_Code e) (ste_ReasonCode e) (ste_Details e))
    \<and> ste_Remediation e = (if server_owned_budget e then serverOwnedInputBudgetRemediation
        else ste_Remediation (TerminalStatusErrorWithDetails S (ste_Code e) (ste_ReasonCode e) (ste_Details e)))
    \<and> (ste_ReasonCode e \<in> {[], ''idempotency_lock_busy''}
        \<or> e = TerminalStatusErrorWithDetails S (ste_Code e) (ste_ReasonCode e) (ste_Details e))"
proof -
  let ?k = "TerminalStatusErrorWithDetails S (ste_Code e) (ste_ReasonCode e) (ste_Details e)"
  have code: "trim_space (ste_Code e) = ste_Code e" "ste_Code e \<in> set terminalErrorCodes"
    using assms by (simp_all add: ValidateTerminalStatusError_def Let_def terminal_code_iff split: if_splits)
  have ok: "\<not> guidance_inconsistent S e" "ste_Message e = ste_Message ?k"
    "ste_NextAction e \<noteq> ''retry_dream_feedback'' \<Longrightarrow> server_owned_budget e \<Longrightarrow> ste_Remediation e = serverOwnedInputBudgetRemediation"
    "ste_NextAction e \<noteq> ''retry_dream_feedback'' \<Longrightarrow> \<not> server_owned_budget e \<Longrightarrow> ste_Remediation e = ste_Remediation ?k"
    "ste_ReasonCode e = boundedStatusErrorText (ste_ReasonCode e) 128"
    "ste_ReasonCode e \<noteq> [] \<Longrightarrow> ste_Details e = boundedStatusErrorDetails (ste_Details e)"
    using assms by (simp_all add: ValidateTerminalStatusError_def Let_def code(1) deep_equal_def split: if_splits)
  have dream: "ste_NextAction e \<noteq> ''retry_dream_feedback''"
    using ok(1) guidance_action(2) [of "ste_Code e"] by (auto simp: guidance_inconsistent_def split_beta Let_def split: if_splits)
  have budget: "\<not> fst (terminalErrorGuidance (ste_Code e))" if "server_owned_budget e"
    using that by (simp add: server_owned_budget_def terminalErrorGuidance_def)
  have guided: "(ste_Retryable e, ste_NextAction e) =
      (if server_owned_budget e then (False, ''contact_operator'') else terminalErrorGuidance (ste_Code e))"
    using ok(1) dream budget by (auto simp: guidance_inconsistent_def split_beta Let_def split: if_splits)
  have "e = ?k" if r: "ste_ReasonCode e \<notin> {[], ''idempotency_lock_busy''}"
  proof -
    let ?base = "TerminalStatusError (ste_Code e)"
    have owned: "server_owned_budget ?k = server_owned_budget e"
      using ok(6) r by (simp add: TerminalStatusErrorWithDetails_def with_details_owned status_error_parts
          normalize_code_fix code(2) server_owned_budget_def)
    have "ste_Remediation ?k = serverOwnedInputBudgetRemediation" if "server_owned_budget e"
      using that owned ok(5) r unfolding TerminalStatusErrorWithDetails_def
      by (intro with_details_budget_remediation) auto
    then have "ste_Remediation e = ste_Remediation ?k" using ok(3,4) dream by fastforce
    moreover have "ste_Code e = ste_Code ?k" "ste_ReasonCode e = ste_ReasonCode ?k" "ste_Details e = ste_Details ?k"
      using ok(5,6) r by (simp_all add: TerminalStatusErrorWithDetails_def status_error_parts normalize_code_fix code(2))
    moreover have "ste_Retryable e = ste_Retryable ?k" "ste_NextAction e = ste_NextAction ?k"
      using guided owned by (simp_all add: TerminalStatusErrorWithDetails_def with_details_guidance status_error_parts
          normalize_code_fix code(2) prod_eq_iff split: if_splits)
    ultimately show ?thesis using ok(2) by (intro status_error.equality) simp_all
  qed
  then show ?thesis using code(2) dream guided ok(2-4) by auto
qed

definition sample_status_env :: status_env where
  "sample_status_env = \<lparr>st_show = \<lambda>v. [], st_show_s = \<lambda>v. [], st_quote = \<lambda>s. s, st_unquote = Some\<rparr>"

lemma sample_plain: "plain_text 128 ''lock_lost''" "plain_text 128 ''component''" "plain_text 128 ''ledger''"
  by (simp_all add: plain_text_def ascii_word_def byte_of_def)


theorem accepted_error_canonical_witness:
  "ValidateTerminalStatusError sample_status_env (TerminalStatusError ''stale_input'') = None
   \<and> ste_NextAction (TerminalStatusError ''stale_input'') \<noteq> ''retry_dream_feedback''"
  using accepted_error_canonical [OF plain_error_valid [of sample_status_env "''stale_input''"]]
    plain_error_valid [of sample_status_env "''stale_input''"] by blast

end
