(* ===== verification/Remember_Terminal.thy ===== *)
theory Remember_Terminal
  imports Remember_Errors Domain_Contract
begin

text \<open>
  The terminal result of Remember: internal/remember/service/synchronous_contract.go, the explanations of
  submission_diagnostics.go, and the projection of a stored status to a result in service.go.

  A slice whose nil the code tells from an empty one is an option. \<open>uuid.Parse\<close> of the google/uuid package is
  a parameter. The confirmation and correction fields of a status are copied without being read and are left out.
\<close>

section \<open>Data\<close>

record relationship_split =
  sp_SplitIndex :: int
  sp_RelationshipID :: string
  sp_RelationshipVersion :: int
  sp_Status :: string

record relationship_result =
  rr_Ref :: string
  rr_Disposition :: string
  rr_Reason :: string
  rr_Message :: string
  rr_Remediation :: string
  rr_Splits :: "relationship_split list option"

record evidence_result =
  er_Disposition :: string
  er_EvidenceID :: string
  er_ContentHash :: string
  er_EvidenceIndex :: int
  er_Superseded :: "string list option"
  er_SearchState :: string
  er_Reason :: string
  er_Message :: string
  er_Remediation :: string

record evidence_status = evidence_result +
  es_Error :: "status_error option"

record terminal_result =
  tr_SpaceKind :: string
  tr_ContractVersion :: string
  tr_SubmissionID :: string
  tr_SubmissionKind :: string
  tr_ProcessingState :: string
  tr_SearchState :: string
  tr_CorrelationID :: string
  tr_Evidence :: "evidence_result list option"
  tr_Relationships :: "relationship_result list option"
  tr_Errors :: "status_error list option"
  tr_Warnings :: "string list"
  tr_Kind :: string

record submission_status =
  sr_SpaceKind :: string
  sr_ContractVersion :: string
  sr_SubmissionID :: string
  sr_SubmissionKind :: string
  sr_ProcessingState :: string
  sr_SearchState :: string
  sr_CorrelationID :: string
  sr_Evidence :: "evidence_status list option"
  sr_Errors :: "status_error list option"
  sr_Relationships :: "relationship_result list option"
  sr_Warnings :: "string list"
  sr_Kind :: string

section \<open>Explanations of what was not stored\<close>

definition NotStoredGuidance :: "string \<Rightarrow> string \<times> string" where
  "NotStoredGuidance reason =
     (if reason = ''not_supported_by_evidence''
      then (''The supplied evidence did not establish this proposed relationship, so the relationship was not stored.'',
            ''Provide independent evidence that establishes the proposed relationship, or clarify the proposal without changing the evidence's factual meaning. Submit the changed request with a new idempotency_key.'')
      else
        let code = (if reason = ''idempotency_conflict'' then ''idempotency_conflict''
                    else if reason = ''stale_input'' then ''stale_input''
                    else if reason = ''submission_policy_rejected'' \<or> reason = ''security_quarantine'' then ''submission_policy_rejected''
                    else ''internal_failure'');
            value = StatusError code in
        (ste_Message value, ste_Remediation value))"

definition replay_details :: "details option" where
  "replay_details = Some [(''component'', AText ''remember.replay'')]"

definition legacyNotStoredGuidance :: "status_env \<Rightarrow> string \<Rightarrow> string \<times> string" where
  "legacyNotStoredGuidance S reason =
     (if reason = ''submission_policy_rejected''
      then let legacy = TerminalStatusErrorWithDetails S ''submission_policy_rejected'' ''legacy_policy_rejection'' replay_details in
           (ste_Message legacy, ste_Remediation legacy)
      else let (message, remediation) = NotStoredGuidance reason in
           (boundedStatusErrorText (message @
              '' More specific cause and affected input-location details were not retained in this result.'') 512, remediation))"

datatype explanation_problem = StoredExplained | NotATemplate

definition validateNotStoredExplanation ::
  "status_env \<Rightarrow> string \<Rightarrow> string \<Rightarrow> string \<Rightarrow> string \<Rightarrow> explanation_problem option" where
  "validateNotStoredExplanation S disposition reason message remediation =
     (if message = [] \<and> remediation = [] then None
      else if disposition \<noteq> ''not_stored'' then Some StoredExplained
      else if (message, remediation) = legacyNotStoredGuidance S reason then None
      else if (message, remediation) \<noteq> NotStoredGuidance reason then Some NotATemplate
      else None)"

definition terminalNotStoredReasonAllowed :: "string \<Rightarrow> bool" where
  "terminalNotStoredReasonAllowed reason \<longleftrightarrow>
     reason = trim_space reason \<and>
     reason \<in> {''not_supported_by_evidence'', ''stale_input'', ''submission_policy_rejected'', ''security_quarantine'',
               ''internal_failure'', ''idempotency_conflict''}"

definition TerminalNotStoredReasonForError :: "string \<Rightarrow> string" where
  "TerminalNotStoredReasonForError code =
     (let c = normalizeTerminalErrorCode code in
      if c = ''submission_policy_rejected'' then ''submission_policy_rejected''
      else if c = ''stale_input'' then ''stale_input''
      else if c = ''idempotency_conflict'' then ''idempotency_conflict''
      else ''internal_failure'')"

definition terminalNotStoredReasonAllowedForResult :: "terminal_result \<Rightarrow> string \<Rightarrow> bool" where
  "terminalNotStoredReasonAllowedForResult r reason \<longleftrightarrow>
     terminalNotStoredReasonAllowed reason \<and>
     (if tr_ProcessingState r = ''completed'' then reason = ''not_supported_by_evidence''
      else list_ex (\<lambda>e. reason = TerminalNotStoredReasonForError (ste_Code e)) (slice_of (tr_Errors r)))"

definition terminalProcessingStateForError :: "string \<Rightarrow> string" where
  "terminalProcessingStateForError code = ''failed''"

section \<open>The check of a terminal result\<close>

datatype result_problem = KindNotTerminal | IdentityInvalid | IdentityRequired | CorrelationTooLong | SubmissionIDInvalid
  | ProcessingStateInvalid | SearchStateInvalid | ErrorsRequired | EvidenceRequired | TooManyErrors | TooManyWarnings
  | WarningInvalid | EvidenceCount | EvidenceExplained nat explanation_problem | EvidenceOrder nat
  | EvidenceDisposition nat | SupersededRequired nat | TooManySuperseded nat | StoredWithoutID nat | StoredIDInvalid nat
  | StoredIDDuplicated nat | SupersedesItself nat | StoredWithReason nat | NotStoredWithID nat | NotStoredSupersedes nat
  | ReasonUnsupported nat | SupersededInvalid nat | SupersededDuplicated nat | SupersedesStored nat | EvidenceSearchState nat
  | StoredNotCurrent nat | NotStoredSearched nat | ErrorInvalid nat status_problem | ErrorDuplicated nat | ErrorState nat
  | RelationshipsRequired | RelationshipCount | RelationshipExplained nat explanation_problem | RelationshipOrder nat
  | RelationshipDuplicated nat | RelationshipDisposition nat | SplitsRequired nat | TooManySplits nat | NotStoredSplits nat
  | RelationshipReason nat | StoredWithoutSplit nat | RelationshipStoredReason nat | SplitOrder nat | SplitID nat | SplitInactive nat
  | CompletedWithErrors | CompletedNothingStored | FailedWithoutError | FailedStored | SearchStateInconsistent

definition check_identity :: "(string \<Rightarrow> uuid option) \<Rightarrow> terminal_result \<Rightarrow> result_problem option" where
  "check_identity U r =
     (if tr_Kind r \<noteq> ''terminal'' then Some KindNotTerminal
      else if \<not> ContractVersionCompatible (trim_space (tr_ContractVersion r)) \<or> tr_SubmissionKind r \<noteq> ''remember''
      then Some IdentityInvalid
      else if trim_space (tr_SubmissionID r) = [] \<or> tr_CorrelationID r = [] \<or> tr_CorrelationID r \<noteq> trim_space (tr_CorrelationID r)
      then Some IdentityRequired
      else if 128 < rune_count (tr_CorrelationID r) then Some CorrelationTooLong
      else if U (tr_SubmissionID r) = None then Some SubmissionIDInvalid
      else if tr_ProcessingState r \<noteq> ''completed'' \<and> tr_ProcessingState r \<noteq> ''failed'' then Some ProcessingStateInvalid
      else if tr_SearchState r \<noteq> ''current'' \<and> tr_SearchState r \<noteq> ''not_required'' then Some SearchStateInvalid
      else None)"

definition check_sizes :: "terminal_result \<Rightarrow> nat \<Rightarrow> result_problem option" where
  "check_sizes r evidenceCount =
     (if tr_Errors r = None then Some ErrorsRequired
      else if tr_Evidence r = None then Some EvidenceRequired
      else if 50 < length (slice_of (tr_Errors r)) then Some TooManyErrors
      else if 20 < length (tr_Warnings r) then Some TooManyWarnings
      else if list_ex (\<lambda>w. trim_space w = [] \<or> 512 < rune_count w) (tr_Warnings r) then Some WarningInvalid
      else if length (slice_of (tr_Evidence r)) \<noteq> evidenceCount then Some EvidenceCount
      else None)"

text \<open>The stored and the superseded identifiers seen so far.\<close>

type_synonym seen_ids = "uuid list \<times> uuid list"

fun superseded_loop :: "(string \<Rightarrow> uuid option) \<Rightarrow> nat \<Rightarrow> seen_ids \<Rightarrow> string list \<Rightarrow> result_problem + seen_ids" where
  "superseded_loop U i seen [] = Inr seen"
| "superseded_loop U i (stored, superseded) (x # xs) =
     (case U x of
        None \<Rightarrow> Inl (SupersededInvalid i)
      | Some u \<Rightarrow>
          if u \<in> set superseded then Inl (SupersededDuplicated i)
          else if u \<in> set stored then Inl (SupersedesStored i)
          else superseded_loop U i (stored, u # superseded) xs)"

definition stored_evidence :: "(string \<Rightarrow> uuid option) \<Rightarrow> nat \<Rightarrow> seen_ids \<Rightarrow> evidence_result \<Rightarrow> result_problem + seen_ids" where
  "stored_evidence U i seen item =
     (case U (er_EvidenceID item) of
        None \<Rightarrow> Inl (StoredIDInvalid i)
      | Some u \<Rightarrow>
          if u \<in> set (fst seen) then Inl (StoredIDDuplicated i)
          else if u \<in> set (snd seen) then Inl (SupersedesItself i)
          else if trim_space (er_Reason item) \<noteq> [] then Inl (StoredWithReason i)
          else Inr (u # fst seen, snd seen))"

definition not_stored_evidence :: "terminal_result \<Rightarrow> nat \<Rightarrow> evidence_result \<Rightarrow> result_problem option" where
  "not_stored_evidence r i item =
     (if er_EvidenceID item \<noteq> [] then Some (NotStoredWithID i)
      else if slice_of (er_Superseded item) \<noteq> [] then Some (NotStoredSupersedes i)
      else if \<not> terminalNotStoredReasonAllowedForResult r (er_Reason item) then Some (ReasonUnsupported i)
      else None)"

definition evidence_shape :: "status_env \<Rightarrow> nat \<Rightarrow> evidence_result \<Rightarrow> result_problem option" where
  "evidence_shape S i item =
     (case validateNotStoredExplanation S (er_Disposition item) (er_Reason item) (er_Message item) (er_Remediation item) of
        Some p \<Rightarrow> Some (EvidenceExplained i p)
      | None \<Rightarrow>
          if er_EvidenceIndex item \<noteq> int i then Some (EvidenceOrder i)
          else if er_Disposition item \<noteq> ''stored'' \<and> er_Disposition item \<noteq> ''not_stored'' then Some (EvidenceDisposition i)
          else if er_Superseded item = None then Some (SupersededRequired i)
          else if 50 < length (slice_of (er_Superseded item)) then Some (TooManySuperseded i)
          else if er_Disposition item = ''stored'' \<and> er_EvidenceID item = [] then Some (StoredWithoutID i)
          else None)"

definition evidence_search :: "nat \<Rightarrow> evidence_result \<Rightarrow> result_problem option" where
  "evidence_search i item =
     (if er_SearchState item \<noteq> ''current'' \<and> er_SearchState item \<noteq> ''not_required'' then Some (EvidenceSearchState i)
      else if er_Disposition item = ''stored'' \<and> er_SearchState item \<noteq> ''current'' then Some (StoredNotCurrent i)
      else if er_Disposition item = ''not_stored'' \<and> er_SearchState item \<noteq> ''not_required'' then Some (NotStoredSearched i)
      else None)"

definition evidence_step ::
  "(string \<Rightarrow> uuid option) \<Rightarrow> status_env \<Rightarrow> terminal_result \<Rightarrow> nat \<Rightarrow> seen_ids \<Rightarrow> evidence_result \<Rightarrow> result_problem + seen_ids" where
  "evidence_step U S r i seen item =
     (case evidence_shape S i item of
        Some p \<Rightarrow> Inl p
      | None \<Rightarrow>
          (case (if er_Disposition item = ''stored'' then stored_evidence U i seen item
                 else case not_stored_evidence r i item of Some p \<Rightarrow> Inl p | None \<Rightarrow> Inr seen) of
             Inl p \<Rightarrow> Inl p
           | Inr seen1 \<Rightarrow>
               (case superseded_loop U i seen1 (slice_of (er_Superseded item)) of
                  Inl p \<Rightarrow> Inl p
                | Inr seen2 \<Rightarrow> (case evidence_search i item of Some p \<Rightarrow> Inl p | None \<Rightarrow> Inr seen2))))"

fun evidence_loop ::
  "(string \<Rightarrow> uuid option) \<Rightarrow> status_env \<Rightarrow> terminal_result \<Rightarrow> nat \<Rightarrow> seen_ids \<Rightarrow> evidence_result list
     \<Rightarrow> result_problem + seen_ids" where
  "evidence_loop U S r i seen [] = Inr seen"
| "evidence_loop U S r i seen (x # xs) =
     (case evidence_step U S r i seen x of Inl p \<Rightarrow> Inl p | Inr seen1 \<Rightarrow> evidence_loop U S r (Suc i) seen1 xs)"

fun error_loop :: "status_env \<Rightarrow> terminal_result \<Rightarrow> nat \<Rightarrow> string list \<Rightarrow> status_error list \<Rightarrow> result_problem option" where
  "error_loop S r i seen [] = None"
| "error_loop S r i seen (e # es) =
     (case ValidateTerminalStatusError S e of
        Some p \<Rightarrow> Some (ErrorInvalid i p)
      | None \<Rightarrow>
          if ste_Code e \<in> set seen then Some (ErrorDuplicated i)
          else if tr_ProcessingState r \<noteq> terminalProcessingStateForError (ste_Code e) then Some (ErrorState i)
          else error_loop S r (Suc i) (ste_Code e # seen) es)"

fun split_loop :: "(string \<Rightarrow> uuid option) \<Rightarrow> nat \<Rightarrow> nat \<Rightarrow> relationship_split list \<Rightarrow> result_problem option" where
  "split_loop U i k [] = None"
| "split_loop U i k (x # xs) =
     (if sp_SplitIndex x \<noteq> int k then Some (SplitOrder i)
      else if U (sp_RelationshipID x) = None then Some (SplitID i)
      else if sp_RelationshipVersion x < 1 \<or> sp_Status x \<noteq> ''active'' then Some (SplitInactive i)
      else split_loop U i (Suc k) xs)"

definition relationship_check ::
  "(string \<Rightarrow> uuid option) \<Rightarrow> status_env \<Rightarrow> terminal_result \<Rightarrow> nat \<Rightarrow> string \<Rightarrow> string list \<Rightarrow> relationship_result
     \<Rightarrow> result_problem option" where
  "relationship_check U S r i ref seen item =
     (case validateNotStoredExplanation S (rr_Disposition item) (rr_Reason item) (rr_Message item) (rr_Remediation item) of
        Some p \<Rightarrow> Some (RelationshipExplained i p)
      | None \<Rightarrow>
          if rr_Ref item \<noteq> ref then Some (RelationshipOrder i)
          else if rr_Ref item \<in> set seen then Some (RelationshipDuplicated i)
          else if rr_Disposition item \<noteq> ''stored'' \<and> rr_Disposition item \<noteq> ''not_stored'' then Some (RelationshipDisposition i)
          else if rr_Splits item = None then Some (SplitsRequired i)
          else if 50 < length (slice_of (rr_Splits item)) then Some (TooManySplits i)
          else if rr_Disposition item = ''not_stored'' \<and> slice_of (rr_Splits item) \<noteq> [] then Some (NotStoredSplits i)
          else if rr_Disposition item = ''not_stored'' \<and> \<not> terminalNotStoredReasonAllowedForResult r (rr_Reason item)
          then Some (RelationshipReason i)
          else if rr_Disposition item = ''stored''
          then (if slice_of (rr_Splits item) = [] then Some (StoredWithoutSplit i)
                else if trim_space (rr_Reason item) \<noteq> [] then Some (RelationshipStoredReason i)
                else split_loop U i 0 (slice_of (rr_Splits item)))
          else None)"

text \<open>The caller has checked that the two lists have the same length.\<close>

fun relationship_loop ::
  "(string \<Rightarrow> uuid option) \<Rightarrow> status_env \<Rightarrow> terminal_result \<Rightarrow> nat \<Rightarrow> string list \<Rightarrow> string list \<Rightarrow> relationship_result list
     \<Rightarrow> result_problem option" where
  "relationship_loop U S r i seen (ref # refs) (x # xs) =
     (case relationship_check U S r i ref seen x of
        Some p \<Rightarrow> Some p
      | None \<Rightarrow> relationship_loop U S r (Suc i) (rr_Ref x # seen) refs xs)"
| "relationship_loop U S r i seen refs xs = None"

definition check_outcome :: "terminal_result \<Rightarrow> bool \<Rightarrow> result_problem option" where
  "check_outcome r storedResult =
     (if tr_ProcessingState r = ''completed'' \<and> slice_of (tr_Errors r) \<noteq> [] then Some CompletedWithErrors
      else if tr_ProcessingState r = ''completed'' \<and> \<not> storedResult then Some CompletedNothingStored
      else if tr_ProcessingState r = ''failed'' \<and> slice_of (tr_Errors r) = [] then Some FailedWithoutError
      else if tr_ProcessingState r = ''failed'' \<and> storedResult then Some FailedStored
      else if tr_SearchState r \<noteq> (if storedResult then ''current'' else ''not_required'') then Some SearchStateInconsistent
      else None)"

definition ValidateTerminalRememberResult ::
  "(string \<Rightarrow> uuid option) \<Rightarrow> status_env \<Rightarrow> terminal_result \<Rightarrow> nat \<Rightarrow> string list \<Rightarrow> result_problem option" where
  "ValidateTerminalRememberResult U S r evidenceCount relationshipRefs =
     or_error (check_identity U r) (or_error (check_sizes r evidenceCount)
       (case evidence_loop U S r 0 ([], []) (slice_of (tr_Evidence r)) of
          Inl p \<Rightarrow> Some p
        | Inr seen \<Rightarrow>
            or_error (error_loop S r 0 [] (slice_of (tr_Errors r)))
              (if tr_Relationships r = None then Some RelationshipsRequired
               else if length (slice_of (tr_Relationships r)) \<noteq> length relationshipRefs then Some RelationshipCount
               else or_error (relationship_loop U S r 0 [] relationshipRefs (slice_of (tr_Relationships r)))
                 (check_outcome r (fst seen \<noteq> []
                    \<or> list_ex (\<lambda>x. rr_Disposition x = ''stored'') (slice_of (tr_Relationships r)))))))"

section \<open>The failure projection\<close>

definition not_stored_item :: "string \<Rightarrow> evidence_result \<Rightarrow> evidence_result" where
  "not_stored_item reason item =
     item\<lparr>er_Disposition := ''not_stored'', er_EvidenceID := [], er_Superseded := Some [], er_SearchState := ''not_required'',
          er_Reason := reason, er_Message := fst (NotStoredGuidance reason), er_Remediation := snd (NotStoredGuidance reason)\<rparr>"

definition not_stored_relationship :: "string \<Rightarrow> relationship_result \<Rightarrow> relationship_result" where
  "not_stored_relationship reason item =
     item\<lparr>rr_Disposition := ''not_stored'', rr_Reason := reason, rr_Message := fst (NotStoredGuidance reason),
          rr_Remediation := snd (NotStoredGuidance reason), rr_Splits := Some []\<rparr>"

definition empty_terminal_result :: terminal_result where
  "empty_terminal_result =
     \<lparr>tr_SpaceKind = [], tr_ContractVersion = [], tr_SubmissionID = [], tr_SubmissionKind = [], tr_ProcessingState = [],
      tr_SearchState = [], tr_CorrelationID = [], tr_Evidence = None, tr_Relationships = None, tr_Errors = None,
      tr_Warnings = [], tr_Kind = ''terminal''\<rparr>"

text \<open>The result and the message of the error.\<close>

definition TerminalResultWithError :: "terminal_result option \<Rightarrow> string \<Rightarrow> terminal_result \<times> string" where
  "TerminalResultWithError result code =
     (let r = (case result of None \<Rightarrow> empty_terminal_result | Some x \<Rightarrow> x);
          reason = TerminalNotStoredReasonForError code; status = TerminalStatusError code in
      (r\<lparr>tr_Kind := ''terminal'', tr_ProcessingState := terminalProcessingStateForError code, tr_SearchState := ''not_required'',
         tr_Evidence := Some (map (not_stored_item reason) (slice_of (tr_Evidence r))),
         tr_Relationships := Some (map (not_stored_relationship reason) (slice_of (tr_Relationships r))),
         tr_Errors := Some [status]\<rparr>, ste_Message status))"

section \<open>Results with nothing stored\<close>

text \<open>What the identity fields and the warnings of a result must satisfy, whatever its outcome.\<close>

definition identified :: "(string \<Rightarrow> uuid option) \<Rightarrow> terminal_result \<Rightarrow> bool" where
  "identified U r \<longleftrightarrow>
     ContractVersionCompatible (trim_space (tr_ContractVersion r)) \<and> tr_SubmissionKind r = ''remember''
     \<and> trim_space (tr_SubmissionID r) \<noteq> [] \<and> U (tr_SubmissionID r) \<noteq> None
     \<and> tr_CorrelationID r \<noteq> [] \<and> trim_space (tr_CorrelationID r) = tr_CorrelationID r \<and> rune_count (tr_CorrelationID r) \<le> 128
     \<and> length (tr_Warnings r) \<le> 20 \<and> list_all (\<lambda>w. trim_space w \<noteq> [] \<and> rune_count w \<le> 512) (tr_Warnings r)"

definition explained_item :: "string \<Rightarrow> nat \<Rightarrow> evidence_result \<Rightarrow> bool" where
  "explained_item reason i item \<longleftrightarrow>
     er_Disposition item = ''not_stored'' \<and> er_EvidenceID item = [] \<and> er_Superseded item = Some [] \<and>
     er_SearchState item = ''not_required'' \<and> er_EvidenceIndex item = int i \<and> er_Reason item = reason \<and>
     (er_Message item, er_Remediation item) = NotStoredGuidance reason"

definition explained_relationship :: "string \<Rightarrow> relationship_result \<Rightarrow> bool" where
  "explained_relationship reason item \<longleftrightarrow>
     rr_Disposition item = ''not_stored'' \<and> rr_Splits item = Some [] \<and> rr_Reason item = reason \<and>
     (rr_Message item, rr_Remediation item) = NotStoredGuidance reason"

lemma template_explained:
  "(message, remediation) = NotStoredGuidance reason \<Longrightarrow>
     validateNotStoredExplanation S ''not_stored'' reason message remediation = None"
  by (simp add: validateNotStoredExplanation_def)

lemma explained_evidence_loop:
  assumes "terminalNotStoredReasonAllowedForResult r reason"
    and "\<forall>k<length xs. explained_item reason (i + k) (xs ! k)"
  shows "evidence_loop U S r i seen xs = Inr seen"
  using assms(2)
proof (induction xs arbitrary: i)
  case (Cons x xs)
  have "explained_item reason i x" using Cons.prems by force
  then have "evidence_step U S r i seen x = Inr seen"
    using assms(1) by (simp add: evidence_step_def evidence_shape_def template_explained not_stored_evidence_def
        evidence_search_def explained_item_def)
  moreover have "\<forall>k<length xs. explained_item reason (Suc i + k) (xs ! k)" using Cons.prems by force
  ultimately show ?case using Cons.IH by simp
qed simp

lemma explained_relationship_loop:
  assumes "terminalNotStoredReasonAllowedForResult r reason"
    and "list_all (explained_relationship reason) xs" and "distinct (map rr_Ref xs)" and "rr_Ref ` set xs \<inter> set seen = {}"
  shows "relationship_loop U S r i seen (map rr_Ref xs) xs = None"
  using assms(2-)
proof (induction xs arbitrary: i seen)
  case (Cons x xs)
  have "relationship_check U S r i (rr_Ref x) seen x = None"
    using Cons.prems assms(1) by (simp add: relationship_check_def explained_relationship_def template_explained)
  then show ?case using Cons by simp
qed simp

lemma reason_for_error_allowed: "terminalNotStoredReasonAllowed (TerminalNotStoredReasonForError code)"
  by (simp add: terminalNotStoredReasonAllowed_def TerminalNotStoredReasonForError_def Let_def go_string_eval)

lemma reason_for_normal_code:
  "TerminalNotStoredReasonForError (normalizeTerminalErrorCode code) = TerminalNotStoredReasonForError code"
  by (simp add: TerminalNotStoredReasonForError_def normalize_code_fix [OF normalize_code_in])

text \<open>A failed result whose items carry the explanation of its one error.\<close>

lemma explained_failure_valid:
  assumes "identified U r" and "tr_Kind r = ''terminal''" and "tr_ProcessingState r = ''failed''" and "tr_SearchState r = ''not_required''"
    and "tr_Errors r = Some [e]" and "ValidateTerminalStatusError S e = None" and "TerminalNotStoredReasonForError (ste_Code e) = reason"
    and "tr_Evidence r = Some xs" and "\<forall>k<length xs. explained_item reason k (xs ! k)"
    and "tr_Relationships r = Some rs" and "list_all (explained_relationship reason) rs" and "distinct (map rr_Ref rs)"
  shows "ValidateTerminalRememberResult U S r (length xs) (map rr_Ref rs) = None"
proof -
  have allowed: "terminalNotStoredReasonAllowedForResult r reason"
    using assms(3,5,7) reason_for_error_allowed by (auto simp: terminalNotStoredReasonAllowedForResult_def)
  have "check_identity U r = None" "check_sizes r (length xs) = None"
    using assms(1-5,8) by (auto simp: identified_def check_identity_def check_sizes_def list_ex_iff list_all_iff)
  moreover have "evidence_loop U S r 0 ([], []) xs = Inr ([], [])"
    by (rule explained_evidence_loop [OF allowed]) (use assms(9) in simp)
  moreover have "relationship_loop U S r 0 [] (map rr_Ref rs) rs = None"
    by (rule explained_relationship_loop [OF allowed assms(11,12)]) simp
  moreover have "error_loop S r 0 [] [e] = None"
    using assms(3,6) by (simp add: terminalProcessingStateForError_def)
  moreover have "\<not> list_ex (\<lambda>x. rr_Disposition x = ''stored'') rs"
    using assms(11) by (auto simp: list_ex_iff list_all_iff explained_relationship_def)
  ultimately show ?thesis
    by (simp add: ValidateTerminalRememberResult_def assms(3-5,8,10) check_outcome_def)
qed

text \<open>(failure_result_accepted): \<open>TerminalResultWithError\<close> turns every identified result into one that
  \<open>ValidateTerminalRememberResult\<close> accepts, for every error code, known or not, and whatever the result had stored
  before: nothing stays stored, and every item carries the reason and the explanation of the error.\<close>

theorem failure_result_accepted:
  assumes "identified U r" and "map er_EvidenceIndex (slice_of (tr_Evidence r)) = map int [0..<n]"
    and "map rr_Ref (slice_of (tr_Relationships r)) = refs" and "distinct refs"
  shows "ValidateTerminalRememberResult U S (fst (TerminalResultWithError (Some r) code)) n refs = None"
proof -
  let ?reason = "TerminalNotStoredReasonForError code" and ?e = "TerminalStatusError code"
  let ?xs = "map (not_stored_item ?reason) (slice_of (tr_Evidence r))"
  let ?rs = "map (not_stored_relationship ?reason) (slice_of (tr_Relationships r))"
  have n: "length ?xs = n" using arg_cong [OF assms(2), of length] by simp
  have "er_EvidenceIndex (slice_of (tr_Evidence r) ! k) = int k" if "k < n" for k
    using arg_cong [OF assms(2), of "\<lambda>ys. ys ! k"] that n by simp
  then have items: "\<forall>k<length ?xs. explained_item ?reason k (?xs ! k)"
    using n by (simp add: explained_item_def not_stored_item_def)
  have refs: "map rr_Ref ?rs = refs" using assms(3) by (simp add: not_stored_relationship_def comp_def)
  have "ValidateTerminalRememberResult U S (fst (TerminalResultWithError (Some r) code)) (length ?xs) (map rr_Ref ?rs) = None"
    by (rule explained_failure_valid [where e = ?e and reason = ?reason])
      (use assms(1,4) items refs plain_error_valid [of S code] in
        \<open>simp_all add: TerminalResultWithError_def Let_def identified_def terminalProcessingStateForError_def
          status_error_parts reason_for_normal_code explained_relationship_def not_stored_relationship_def list_all_iff comp_def\<close>)
  then show ?thesis by (simp only: n refs)
qed

section \<open>What an accepted result promises\<close>

definition stored_ids :: "(string \<Rightarrow> uuid option) \<Rightarrow> evidence_result list \<Rightarrow> uuid option list" where
  "stored_ids U xs = map (\<lambda>x. U (er_EvidenceID x)) (filter (\<lambda>x. er_Disposition x = ''stored'') xs)"

definition superseded_ids :: "(string \<Rightarrow> uuid option) \<Rightarrow> evidence_result list \<Rightarrow> uuid option list" where
  "superseded_ids U xs = map U (concat (map (\<lambda>x. slice_of (er_Superseded x)) xs))"

definition evidence_accepted :: "terminal_result \<Rightarrow> nat \<Rightarrow> evidence_result \<Rightarrow> bool" where
  "evidence_accepted r i item \<longleftrightarrow>
     er_EvidenceIndex item = int i \<and>
     (if er_Disposition item = ''stored'' then trim_space (er_Reason item) = [] \<and> er_SearchState item = ''current''
      else er_Disposition item = ''not_stored'' \<and> er_EvidenceID item = [] \<and> slice_of (er_Superseded item) = []
        \<and> er_SearchState item = ''not_required'' \<and> terminalNotStoredReasonAllowedForResult r (er_Reason item))"

definition seen_all :: "seen_ids \<Rightarrow> uuid option list \<Rightarrow> uuid option list \<Rightarrow> seen_ids \<Rightarrow> bool" where
  "seen_all seen A B seen' \<longleftrightarrow>
     map Some (fst seen') = rev A @ map Some (fst seen) \<and> map Some (snd seen') = rev B @ map Some (snd seen)
     \<and> (distinct (fst seen @ snd seen) \<longrightarrow> distinct (fst seen' @ snd seen'))"

lemma superseded_loop_ok:
  "superseded_loop U i seen xs = Inr seen' \<Longrightarrow> seen_all seen [] (map U xs) seen'"
proof (induction U i seen xs rule: superseded_loop.induct)
  case (2 U i stored superseded x xs)
  then obtain u where u: "U x = Some u" "u \<notin> set superseded" "u \<notin> set stored"
    "superseded_loop U i (stored, u # superseded) xs = Inr seen'"
    by (auto split: option.splits if_splits)
  with 2 show ?case by (auto simp: seen_all_def)
qed (simp add: seen_all_def)

lemma evidence_step_ok:
  assumes "evidence_step U S r i seen x = Inr seen'"
  shows "evidence_accepted r i x \<and> seen_all seen (stored_ids U [x]) (superseded_ids U [x]) seen'"
proof -
  have shape: "evidence_shape S i x = None" using assms by (simp add: evidence_step_def split: option.splits)
  then have sh: "er_EvidenceIndex x = int i" "er_Disposition x = ''stored'' \<or> er_Disposition x = ''not_stored''"
    by (auto simp: evidence_shape_def split: option.splits if_splits)
  define st where "st = (if er_Disposition x = ''stored'' then stored_evidence U i seen x
      else case not_stored_evidence r i x of Some p \<Rightarrow> Inl p | None \<Rightarrow> Inr seen)"
  have step: "(case st of Inl p \<Rightarrow> Inl p | Inr s1 \<Rightarrow>
      (case superseded_loop U i s1 (slice_of (er_Superseded x)) of Inl p \<Rightarrow> Inl p
       | Inr s2 \<Rightarrow> (case evidence_search i x of Some p \<Rightarrow> Inl p | None \<Rightarrow> Inr s2))) = Inr seen'"
    using assms shape by (simp add: evidence_step_def st_def)
  obtain seen1 where st: "st = Inr seen1" using step by (cases st) simp_all
  have s1: "st = Inr seen1" "superseded_loop U i seen1 (slice_of (er_Superseded x)) = Inr seen'" "evidence_search i x = None"
    using step by (simp_all add: st split: sum.splits option.splits)
  note sup = superseded_loop_ok [OF s1(2)]
  show ?thesis
  proof (cases "er_Disposition x = ''stored''")
    case True
    then obtain u where "U (er_EvidenceID x) = Some u" "u \<notin> set (fst seen)" "u \<notin> set (snd seen)"
      "trim_space (er_Reason x) = []" "seen1 = (u # fst seen, snd seen)"
      using s1(1) by (auto simp: st_def stored_evidence_def split: option.splits if_splits)
    then show ?thesis using True sh s1(3) sup
      by (simp add: evidence_accepted_def seen_all_def stored_ids_def superseded_ids_def evidence_search_def split: if_splits)
  next
    case False
    then have "not_stored_evidence r i x = None" "seen1 = seen" using s1(1) by (simp_all add: st_def split: option.splits)
    then show ?thesis using False sh s1(3) sup
      by (simp add: evidence_accepted_def seen_all_def stored_ids_def superseded_ids_def evidence_search_def
          not_stored_evidence_def split: if_splits)
  qed
qed

lemma seen_all_trans: "seen_all s A B t \<Longrightarrow> seen_all t A' B' u \<Longrightarrow> seen_all s (A @ A') (B @ B') u"
  by (simp add: seen_all_def)

lemma ids_Cons:
  "stored_ids U (x # xs) = stored_ids U [x] @ stored_ids U xs"
  "superseded_ids U (x # xs) = superseded_ids U [x] @ superseded_ids U xs"
  by (simp_all add: stored_ids_def superseded_ids_def)

lemma evidence_loop_ok:
  "evidence_loop U S r i seen xs = Inr seen' \<Longrightarrow>
     (\<forall>k<length xs. evidence_accepted r (i + k) (xs ! k)) \<and> seen_all seen (stored_ids U xs) (superseded_ids U xs) seen'"
proof (induction xs arbitrary: i seen)
  case Nil
  then show ?case by (simp add: seen_all_def stored_ids_def superseded_ids_def)
next
  case (Cons x xs)
  then obtain seen1 where s: "evidence_step U S r i seen x = Inr seen1" "evidence_loop U S r (Suc i) seen1 xs = Inr seen'"
    by (auto split: sum.splits)
  note step = evidence_step_ok [OF s(1)] and rest = Cons.IH [OF s(2)]
  have "seen_all seen (stored_ids U (x # xs)) (superseded_ids U (x # xs)) seen'"
    unfolding ids_Cons [of U x xs] using step rest by (blast intro: seen_all_trans)
  moreover have "evidence_accepted r (i + k) ((x # xs) ! k)" if "k < length (x # xs)" for k
    using that step rest by (cases k) auto
  ultimately show ?case by simp
qed

lemma error_loop_ok:
  "error_loop S r i seen es = None \<Longrightarrow>
     (\<forall>e\<in>set es. ValidateTerminalStatusError S e = None \<and> tr_ProcessingState r = ''failed'')
     \<and> distinct (map ste_Code es) \<and> ste_Code ` set es \<inter> set seen = {}"
  by (induction S r i seen es rule: error_loop.induct) (auto simp: terminalProcessingStateForError_def split: option.splits if_splits)

definition relationship_accepted :: "terminal_result \<Rightarrow> relationship_result \<Rightarrow> bool" where
  "relationship_accepted r item \<longleftrightarrow>
     (if rr_Disposition item = ''stored''
      then slice_of (rr_Splits item) \<noteq> [] \<and> map sp_SplitIndex (slice_of (rr_Splits item)) = map int [0..<length (slice_of (rr_Splits item))]
        \<and> list_all (\<lambda>s. sp_Status s = ''active'' \<and> 1 \<le> sp_RelationshipVersion s) (slice_of (rr_Splits item))
      else rr_Disposition item = ''not_stored'' \<and> slice_of (rr_Splits item) = []
        \<and> terminalNotStoredReasonAllowedForResult r (rr_Reason item))"

lemma split_loop_ok:
  "split_loop U i k xs = None \<Longrightarrow>
     map sp_SplitIndex xs = map int [k..<k + length xs]
     \<and> list_all (\<lambda>s. sp_Status s = ''active'' \<and> 1 \<le> sp_RelationshipVersion s) xs"
proof (induction xs arbitrary: k)
  case (Cons x xs)
  have "[k..<k + length (x # xs)] = k # [Suc k..<Suc k + length xs]" by (simp add: upt_rec)
  with Cons show ?case by (simp split: if_splits)
qed simp

lemma relationship_check_ok:
  assumes "relationship_check U S r i ref seen item = None"
  shows "rr_Ref item = ref \<and> rr_Ref item \<notin> set seen \<and> relationship_accepted r item"
proof -
  have all: "rr_Ref item = ref" "rr_Ref item \<notin> set seen" "rr_Disposition item = ''stored'' \<or> rr_Disposition item = ''not_stored''"
    "rr_Disposition item = ''not_stored'' \<Longrightarrow> slice_of (rr_Splits item) = [] \<and> terminalNotStoredReasonAllowedForResult r (rr_Reason item)"
    "rr_Disposition item = ''stored'' \<Longrightarrow> slice_of (rr_Splits item) \<noteq> [] \<and> split_loop U i 0 (slice_of (rr_Splits item)) = None"
    using assms by (auto simp: relationship_check_def split: option.splits if_splits)
  then show ?thesis using split_loop_ok [of U i 0 "slice_of (rr_Splits item)"] by (auto simp: relationship_accepted_def)
qed

lemma relationship_loop_ok:
  "length refs = length xs \<Longrightarrow> relationship_loop U S r i seen refs xs = None \<Longrightarrow>
     map rr_Ref xs = refs \<and> distinct refs \<and> set refs \<inter> set seen = {} \<and> list_all (relationship_accepted r) xs"
proof (induction refs xs arbitrary: i seen rule: list_induct2)
  case (Cons ref refs x xs)
  have head: "relationship_check U S r i ref seen x = None" and
    tail: "relationship_loop U S r (Suc i) (rr_Ref x # seen) refs xs = None"
    using Cons.prems by (simp_all split: option.splits)
  show ?case using relationship_check_ok [OF head] Cons.IH [OF tail] by auto
qed simp

text \<open>C11 (accepted_result_consistent): a result that \<open>ValidateTerminalRememberResult\<close> accepts is consistent. It is completed
  exactly when some evidence or relationship is stored, failed exactly when it has errors, and its search state says
  which. The stored and the superseded evidence identifiers are valid and all different. The evidence is in the order of
  the request and the relationships are those of the request; each stored relationship has active splits numbered from
  zero. What was not stored has a reason: missing support in a completed result, the reason of one of the errors
  in a failed one.\<close>

theorem accepted_result_consistent:
  assumes "ValidateTerminalRememberResult U S r n refs = None"
  shows "(let xs = slice_of (tr_Evidence r); rs = slice_of (tr_Relationships r); es = slice_of (tr_Errors r);
              stored = list_ex (\<lambda>x. er_Disposition x = ''stored'') xs \<or> list_ex (\<lambda>x. rr_Disposition x = ''stored'') rs in
          (tr_ProcessingState r = ''completed'') = stored \<and> (tr_ProcessingState r = ''failed'') = (es \<noteq> [])
          \<and> stored \<noteq> (es \<noteq> []) \<and> tr_SearchState r = (if stored then ''current'' else ''not_required'')
          \<and> distinct (stored_ids U xs @ superseded_ids U xs) \<and> None \<notin> set (stored_ids U xs @ superseded_ids U xs)
          \<and> length xs = n \<and> (\<forall>k<n. evidence_accepted r k (xs ! k))
          \<and> map rr_Ref rs = refs \<and> distinct refs \<and> list_all (relationship_accepted r) rs
          \<and> distinct (map ste_Code es) \<and> list_all (\<lambda>e. ValidateTerminalStatusError S e = None) es)"
proof -
  let ?xs = "slice_of (tr_Evidence r)" and ?rs = "slice_of (tr_Relationships r)" and ?es = "slice_of (tr_Errors r)"
  obtain seen where v: "check_identity U r = None" "check_sizes r n = None" "evidence_loop U S r 0 ([], []) ?xs = Inr seen"
    "error_loop S r 0 [] ?es = None" "length ?rs = length refs" "relationship_loop U S r 0 [] refs ?rs = None"
    "check_outcome r (fst seen \<noteq> [] \<or> list_ex (\<lambda>x. rr_Disposition x = ''stored'') ?rs) = None"
    using assms by (auto simp: ValidateTerminalRememberResult_def split: sum.splits if_splits)
  note ev = evidence_loop_ok [OF v(3)] and rel = relationship_loop_ok [OF v(5) [symmetric] v(6)] and err = error_loop_ok [OF v(4)]
  have ids: "map Some (fst seen) = rev (stored_ids U ?xs)" "map Some (snd seen) = rev (superseded_ids U ?xs)"
    "distinct (fst seen @ snd seen)"
    using ev by (simp_all add: seen_all_def)
  have split: "distinct (map Some (fst seen @ snd seen))" using ids(3) by (auto simp: distinct_map)
  have dist: "distinct (stored_ids U ?xs @ superseded_ids U ?xs)" and
    valid: "None \<notin> set (stored_ids U ?xs @ superseded_ids U ?xs)"
    using split ids(1,2) by (simp_all del: distinct_map) (metis list.set_map option.distinct(1) image_iff set_rev)
  have some: "fst seen \<noteq> [] \<longleftrightarrow> list_ex (\<lambda>x. er_Disposition x = ''stored'') ?xs"
    using map_is_Nil_conv [of Some "fst seen"] ids(1) by (auto simp: stored_ids_def list_ex_iff filter_empty_conv)
  have state: "tr_ProcessingState r = ''completed'' \<or> tr_ProcessingState r = ''failed''"
    using v(1) by (simp add: check_identity_def split: if_splits)
  have n: "length ?xs = n" using v(2) by (simp add: check_sizes_def split: if_splits)
  define stored where "stored = (list_ex (\<lambda>x. er_Disposition x = ''stored'') ?xs \<or> list_ex (\<lambda>x. rr_Disposition x = ''stored'') ?rs)"
  have "check_outcome r stored = None" using v(7) by (simp only: some stored_def)
  then have out: "(tr_ProcessingState r = ''completed'') = stored" "(tr_ProcessingState r = ''failed'') = (?es \<noteq> [])"
    "stored \<noteq> (?es \<noteq> [])" "tr_SearchState r = (if stored then ''current'' else ''not_required'')"
    using state by (auto simp: check_outcome_def split: if_splits)
  have items: "\<forall>k<n. evidence_accepted r k (?xs ! k)" using ev n by simp
  have errs: "distinct (map ste_Code ?es)" "list_all (\<lambda>e. ValidateTerminalStatusError S e = None) ?es"
    using err by (simp_all add: list_all_iff)
  show ?thesis
    unfolding Let_def stored_def [symmetric] using out n dist valid items rel errs by blast
qed

definition sample_uuid :: "string \<Rightarrow> uuid option" where
  "sample_uuid s = (if s = ''u-1'' then Some 1 else if s = ''u-2'' then Some 2 else None)"

definition sample_result :: terminal_result where
  "sample_result =
     \<lparr>tr_SpaceKind = ''private'', tr_ContractVersion = ContractVersion, tr_SubmissionID = ''u-1'', tr_SubmissionKind = ''remember'',
      tr_ProcessingState = ''completed'', tr_SearchState = ''current'', tr_CorrelationID = ''c-1'',
      tr_Evidence = Some [\<lparr>er_Disposition = ''stored'', er_EvidenceID = ''u-2'', er_ContentHash = ''h'', er_EvidenceIndex = 0,
        er_Superseded = Some [''u-1''], er_SearchState = ''current'', er_Reason = [], er_Message = [], er_Remediation = []\<rparr>],
      tr_Relationships = Some [\<lparr>rr_Ref = ''r1'', rr_Disposition = ''stored'', rr_Reason = [], rr_Message = [], rr_Remediation = [],
        rr_Splits = Some [\<lparr>sp_SplitIndex = 0, sp_RelationshipID = ''u-2'', sp_RelationshipVersion = 1, sp_Status = ''active''\<rparr>]\<rparr>],
      tr_Errors = Some [], tr_Warnings = [], tr_Kind = ''terminal''\<rparr>"

lemma sample_texts_plain: "plain_text 128 ''u-1''" "plain_text 128 ''u-2''" "plain_text 128 ''c-1''"
  by (simp_all add: plain_text_def ascii_word_def byte_of_def)

lemma sample_identified: "identified sample_uuid sample_result"
proof -
  have "ContractVersionCompatible (trim_space ContractVersion)"
    by (simp add: ContractVersionCompatible_def ContractVersion_def go_string_eval)
  then show ?thesis
    using plain_text_bounded(1) [OF sample_texts_plain(1)] plain_text_bounded [OF sample_texts_plain(3)]
    by (simp add: identified_def sample_result_def sample_uuid_def)
qed

theorem failure_result_accepted_witness:
  "ValidateTerminalRememberResult sample_uuid sample_status_env
     (fst (TerminalResultWithError (Some sample_result) ''stale_input'')) 1 [''r1''] = None"
  by (rule failure_result_accepted [OF sample_identified]) (simp_all add: sample_result_def)

lemma sample_result_valid: "ValidateTerminalRememberResult sample_uuid sample_status_env sample_result 1 [''r1''] = None"
proof -
  have "check_identity sample_uuid sample_result = None"
    using sample_identified by (simp add: identified_def check_identity_def) (simp add: sample_result_def)
  then show ?thesis
    by (simp add: ValidateTerminalRememberResult_def) (simp add: sample_result_def check_sizes_def evidence_step_def
        evidence_shape_def validateNotStoredExplanation_def stored_evidence_def sample_uuid_def evidence_search_def
        relationship_check_def check_outcome_def)
qed

theorem accepted_result_consistent_witness:
  "distinct (stored_ids sample_uuid (slice_of (tr_Evidence sample_result)) @ superseded_ids sample_uuid (slice_of (tr_Evidence sample_result)))
   \<and> map rr_Ref (slice_of (tr_Relationships sample_result)) = [''r1'']"
  using accepted_result_consistent [OF sample_result_valid] by (simp only: Let_def)

end
