(* ===== verification/Remember_Failure.thy ===== *)
theory Remember_Failure
  imports Remember_Terminal
begin

text \<open>
  Failures of Remember as Go error trees, and their classification: internal/embedding/contract/errors.go,
  internal/modelprovider/errors.go, the failure details of internal/remember/service (submission_diagnostics.go,
  submission_assessment_shared.go) and the failure codes of processor/remember_processor.go.

  A sentinel is an error variable, compared by identity. A node of the tree is an error value; its children are what
  \<open>Unwrap\<close> returns. \<open>errors.Is\<close> and \<open>errors.As\<close> visit the tree in preorder. The text of an error is never read.
\<close>

section \<open>Error trees\<close>

datatype sentinel = PolicyRejected | EvidenceSecurityRejected | EncodedEvidence | RequestTimeout | DeadlineExceeded
  | RequestCancelled | Canceled | DatabaseFailure | CommitConflict | RegistrationHeld | PlanTooLarge
  | SearchContractMismatch | PlanMismatch | EmbeddingUnavailable | EmbeddingInvalid | ProviderUnavailable
  | ProviderResponseInvalid | InputBudgetExceeded | SearchStaleVersion | StaleInput | DuplicateCandidateStale
  | KnowledgeSourceConflict | RememberSourceConflict | EvidenceConflictStale | RememberConflict | IdempotencyConflict
  | SubmissionInputStale | LifecycleConflict | ConflictContextStale | ExactReferenceStale | CorrectionTargetStale
  | SemanticStaleSource | KnownEvidenceStale | RememberReplay | AttemptNotFound | RetentionDegraded | IdempotencyBusy
  | WriteDenied | OperationErased | Persistence | ProcessorMissing | AuthContext
  | EmbeddingTimeout | EmbeddingRateLimited | EmbeddingProviderFailed
  | VerifierTimeout | VerifierProviderFailed | VerifierRateLimited | VerifierMalformed | OtherError nat

record measurement =
  ms_Unit :: string
  ms_Observed :: int
  ms_AtLeast :: bool
  ms_Limit :: int

datatype go_error = Sentinel sentinel
  | Wrap "go_error list"
  | PlanFailure go_error
  | ConfigurationFailure
  | EmbeddingFailure "go_error option"
  | Diagnosed go_error string details
  | Preflight string string "measurement option" go_error
  | SourceConflictAt int go_error
  | EmbTimeoutError
  | EmbRateLimitError int
  | EmbProviderError "go_error option" string string int
  | EmbHTTPError int string string int
  | NetError bool
  | VerTimeoutError
  | VerProviderError "go_error option" string int
  | VerRateLimitError int
  | MalformedError int string string "measurement option"

primrec own_sentinels :: "go_error \<Rightarrow> sentinel list" where
  "own_sentinels (Sentinel s) = [s]"
| "own_sentinels (Wrap es) = []"
| "own_sentinels (PlanFailure e) = []"
| "own_sentinels ConfigurationFailure = []"
| "own_sentinels (EmbeddingFailure c) = []"
| "own_sentinels (Diagnosed e r d) = []"
| "own_sentinels (Preflight s r m e) = []"
| "own_sentinels (SourceConflictAt i e) = []"
| "own_sentinels EmbTimeoutError = [EmbeddingTimeout]"
| "own_sentinels (EmbRateLimitError n) = [EmbeddingRateLimited]"
| "own_sentinels (EmbProviderError c class code st) = [EmbeddingProviderFailed]"
| "own_sentinels (EmbHTTPError st code typ retry) = []"
| "own_sentinels (NetError t) = []"
| "own_sentinels VerTimeoutError = [VerifierTimeout]"
| "own_sentinels (VerProviderError c class st) = [VerifierProviderFailed]"
| "own_sentinels (VerRateLimitError n) = [VerifierRateLimited]"
| "own_sentinels (MalformedError n class st m) = [VerifierMalformed]"

fun nodes :: "go_error \<Rightarrow> go_error list" where
  "nodes (Wrap es) = Wrap es # concat (map nodes es)"
| "nodes (PlanFailure e) = PlanFailure e # nodes e"
| "nodes ConfigurationFailure = [ConfigurationFailure, Sentinel EmbeddingUnavailable]"
| "nodes (EmbeddingFailure None) = [EmbeddingFailure None, Sentinel EmbeddingUnavailable]"
| "nodes (EmbeddingFailure (Some e)) = EmbeddingFailure (Some e) # Sentinel EmbeddingUnavailable # nodes e"
| "nodes (Diagnosed e r d) = Diagnosed e r d # nodes e"
| "nodes (Preflight s r m e) = Preflight s r m e # nodes e"
| "nodes (SourceConflictAt i e) = SourceConflictAt i e # nodes e"
| "nodes (EmbProviderError (Some e) class code st) = EmbProviderError (Some e) class code st # nodes e"
| "nodes (VerProviderError (Some e) class st) = VerProviderError (Some e) class st # nodes e"
| "nodes e = [e]"

definition go_is :: "go_error \<Rightarrow> sentinel \<Rightarrow> bool" where
  "go_is e s \<longleftrightarrow> list_ex (\<lambda>n. s \<in> set (own_sentinels n)) (nodes e)"

text \<open>\<open>errors.As\<close>: the first node for which the projection is defined.\<close>

fun first_some :: "('a \<Rightarrow> 'b option) \<Rightarrow> 'a list \<Rightarrow> 'b option" where
  "first_some f [] = None"
| "first_some f (x # xs) = (case f x of Some y \<Rightarrow> Some y | None \<Rightarrow> first_some f xs)"

definition go_as :: "(go_error \<Rightarrow> 'b option) \<Rightarrow> go_error \<Rightarrow> 'b option" where
  "go_as f e = first_some f (nodes e)"

definition plan_failure :: "go_error \<Rightarrow> go_error option" where
  "plan_failure n = (case n of PlanFailure c \<Rightarrow> Some c | _ \<Rightarrow> None)"
definition embedding_failure :: "go_error \<Rightarrow> go_error option option" where
  "embedding_failure n = (case n of EmbeddingFailure c \<Rightarrow> Some c | _ \<Rightarrow> None)"
definition diagnosed :: "go_error \<Rightarrow> (string \<times> details) option" where
  "diagnosed n = (case n of Diagnosed c r d \<Rightarrow> Some (r, d) | _ \<Rightarrow> None)"
definition preflight :: "go_error \<Rightarrow> (string \<times> string \<times> measurement option) option" where
  "preflight n = (case n of Preflight s r m c \<Rightarrow> Some (s, r, m) | _ \<Rightarrow> None)"
definition source_conflict :: "go_error \<Rightarrow> int option" where
  "source_conflict n = (case n of SourceConflictAt i c \<Rightarrow> Some i | _ \<Rightarrow> None)"
definition malformed :: "go_error \<Rightarrow> (int \<times> string \<times> string \<times> measurement option) option" where
  "malformed n = (case n of MalformedError a class st m \<Rightarrow> Some (a, class, st, m) | _ \<Rightarrow> None)"
definition net_error :: "go_error \<Rightarrow> bool option" where
  "net_error n = (case n of NetError t \<Rightarrow> Some t | Sentinel DeadlineExceeded \<Rightarrow> Some True | _ \<Rightarrow> None)"
definition emb_rate_limit :: "go_error \<Rightarrow> int option" where
  "emb_rate_limit n = (case n of EmbRateLimitError r \<Rightarrow> Some r | _ \<Rightarrow> None)"
definition emb_http :: "go_error \<Rightarrow> (int \<times> string \<times> string \<times> int) option" where
  "emb_http n = (case n of EmbHTTPError st code typ retry \<Rightarrow> Some (st, code, typ, retry) | _ \<Rightarrow> None)"
definition emb_provider :: "go_error \<Rightarrow> (string \<times> string \<times> int) option" where
  "emb_provider n = (case n of EmbProviderError c class code st \<Rightarrow> Some (class, code, st) | _ \<Rightarrow> None)"
definition ver_rate_limit :: "go_error \<Rightarrow> int option" where
  "ver_rate_limit n = (case n of VerRateLimitError r \<Rightarrow> Some r | _ \<Rightarrow> None)"
definition ver_provider :: "go_error \<Rightarrow> (string \<times> int) option" where
  "ver_provider n = (case n of VerProviderError c class st \<Rightarrow> Some (class, st) | _ \<Rightarrow> None)"

section \<open>Embedding and provider failures\<close>

record failure_metadata =
  fm_Class :: string
  fm_Code :: string
  fm_Status :: int
  fm_RetryAfter :: int

abbreviation (input) second_ns :: int where "second_ns \<equiv> 1000000000"

definition MaxProviderRetryAfter :: int where
  "MaxProviderRetryAfter = 5 * 60 * second_ns"

definition BoundedRetryAfter :: "int \<Rightarrow> int" where
  "BoundedRetryAfter v = (if v \<le> 0 then 0 else if MaxProviderRetryAfter < v then MaxProviderRetryAfter else v)"

definition normalizeFailureToken :: "string \<Rightarrow> string" where
  "normalizeFailureToken v =
     map (\<lambda>c. if c = CHR ''-'' \<or> c = CHR ''.'' then CHR ''_'' else c) (to_lower (trim_space v))"

definition normalizeProviderCode :: "string \<Rightarrow> string \<Rightarrow> string" where
  "normalizeProviderCode code typ = (if trim_space code \<noteq> [] then normalizeFailureToken code else normalizeFailureToken typ)"

definition isInputRejection :: "int \<Rightarrow> string \<Rightarrow> bool" where
  "isInputRejection status code \<longleftrightarrow>
     status = 413 \<or> status = 400 \<and> normalizeFailureToken code \<in> {''context_length_exceeded'', ''input_too_large'',
       ''input_too_long'', ''max_input_tokens'', ''payload_too_large'', ''content_too_large'', ''string_above_max_length''}"

definition metadata :: "string \<Rightarrow> string \<Rightarrow> int \<Rightarrow> int \<Rightarrow> failure_metadata" where
  "metadata class code status retry = \<lparr>fm_Class = class, fm_Code = code, fm_Status = status, fm_RetryAfter = retry\<rparr>"

definition classify_http :: "int \<times> string \<times> string \<times> int \<Rightarrow> failure_metadata" where
  "classify_http h =
     (let (status, code0, typ, retry) = h; code = normalizeProviderCode code0 typ in
      if status = 408 then metadata ''transient'' ''provider_timeout'' status 0
      else if status = 429
      then (if code \<in> {''insufficient_quota'', ''quota_exhausted'', ''quota''}
            then metadata ''provider_action_required'' ''provider_quota_exhausted'' status 0
            else metadata ''transient'' ''provider_rate_limited'' status (BoundedRetryAfter retry))
      else if 500 \<le> status then metadata ''transient'' ''provider_server_error'' status 0
      else if isInputRejection status code then metadata ''permanent'' ''embedding_input_rejected'' status 0
      else if status = 401 then metadata ''provider_action_required'' ''provider_authentication_failed'' status 0
      else if status = 403 then metadata ''provider_action_required'' ''provider_permission_denied'' status 0
      else metadata ''provider_action_required'' ''provider_contract_rejected'' status 0)"

text \<open>\<open>time.Duration(rateErr.RetryAfter) * time.Second\<close> wraps around at 64 bits.\<close>

definition ClassifyFailure :: "go_error \<Rightarrow> failure_metadata" where
  "ClassifyFailure e =
     (if go_is e Canceled then metadata ''transient'' ''provider_network_error'' 0 0
      else if go_is e DeadlineExceeded \<or> go_is e EmbeddingTimeout then metadata ''transient'' ''provider_timeout'' 0 0
      else case go_as net_error e of
        Some t \<Rightarrow> metadata ''transient'' (if t then ''provider_timeout'' else ''provider_network_error'') 0 0
      | None \<Rightarrow> (case go_as emb_rate_limit e of
        Some r \<Rightarrow> metadata ''transient'' ''provider_rate_limited'' 429 (BoundedRetryAfter (wrap64 (r * second_ns)))
      | None \<Rightarrow> (case go_as emb_http e of
        Some h \<Rightarrow> classify_http h
      | None \<Rightarrow> (case go_as emb_provider e of
        Some (class, code, status) \<Rightarrow>
          (if EmbeddingFailureContractValid class code then metadata class code status 0
           else metadata ''permanent'' ''unknown_embedding_failure'' status 0)
      | None \<Rightarrow>
          if go_is e EmbeddingRateLimited then metadata ''transient'' ''provider_rate_limited'' 0 0
          else metadata ''permanent'' ''unknown_embedding_failure'' 0 0))))"

definition ProviderFailureDetails :: "go_error \<Rightarrow> failure_metadata" where
  "ProviderFailureDetails e =
     (case go_as ver_rate_limit e of
        Some r \<Rightarrow> metadata ''rate_limited'' [] 429 (if 300 \<le> r then MaxProviderRetryAfter else if 0 < r then r * second_ns else 0)
      | None \<Rightarrow>
          if go_is e VerifierTimeout then metadata ''timeout'' [] 0 0
          else (case go_as ver_provider e of
             Some (class, status) \<Rightarrow> metadata (if class = [] then ''provider_unavailable'' else class) [] status 0
           | None \<Rightarrow> metadata ''provider_unavailable'' [] 0 0))"

section \<open>Normalization\<close>

definition isRememberStaleInputError :: "go_error \<Rightarrow> bool" where
  "isRememberStaleInputError e \<longleftrightarrow>
     go_is e SubmissionInputStale \<or> go_is e KnowledgeSourceConflict \<or> go_is e LifecycleConflict \<or> go_is e EvidenceConflictStale
     \<or> go_is e ConflictContextStale \<or> go_is e ExactReferenceStale \<or> go_is e CorrectionTargetStale \<or> go_is e SemanticStaleSource
     \<or> go_is e KnownEvidenceStale"

definition newRememberStaleInputError :: "go_error \<Rightarrow> go_error" where
  "newRememberStaleInputError cause = Wrap [Sentinel StaleInput, cause]"

definition normalizeRememberFailure :: "(go_error \<Rightarrow> bool) \<Rightarrow> go_error \<Rightarrow> go_error" where
  "normalizeRememberFailure isStaleInput e =
     (if go_is e StaleInput then e
      else if go_is e RememberSourceConflict \<or> go_is e DuplicateCandidateStale \<or> go_is e EvidenceConflictStale
           \<or> isRememberStaleInputError e \<or> isStaleInput e
      then newRememberStaleInputError e
      else e)"

definition normalizeRememberCommitFailure :: "go_error \<Rightarrow> bool \<Rightarrow> go_error" where
  "normalizeRememberCommitFailure e predicateRegistrationsValidated =
     (if predicateRegistrationsValidated \<and> go_is e RegistrationHeld then Wrap [Sentinel CommitConflict, e]
      else if go_is e SearchStaleVersion \<or> go_is e SearchContractMismatch then Wrap [Sentinel CommitConflict]
      else e)"

section \<open>Codes\<close>

definition plan_code :: "go_error \<Rightarrow> string" where
  "plan_code cause =
     (if go_is cause CommitConflict \<and> go_is cause RegistrationHeld then ''commit_conflict''
      else if go_is cause PlanTooLarge then ''input_budget_exceeded''
      else if go_is cause SearchContractMismatch then ''configuration_invalid''
      else if go_is cause PlanMismatch then ''internal_failure''
      else ''database_failure'')"

definition embedding_response_invalid :: "go_error \<Rightarrow> bool" where
  "embedding_response_invalid e \<longleftrightarrow>
     (case go_as embedding_failure e of
        Some (Some cause) \<Rightarrow> fm_Code (ClassifyFailure cause) = ''provider_response_invalid''
      | _ \<Rightarrow> False)"

definition sentinel_code :: "string \<Rightarrow> go_error \<Rightarrow> string" where
  "sentinel_code phase e =
     (if go_is e EmbeddingUnavailable then ''embedding_unavailable''
      else if go_is e EmbeddingInvalid then ''embedding_response_invalid''
      else if go_is e ProviderUnavailable then ''provider_unavailable''
      else if go_is e ProviderResponseInvalid then ''provider_response_invalid''
      else if go_is e InputBudgetExceeded then ''input_budget_exceeded''
      else if go_is e CommitConflict \<or> go_is e SearchStaleVersion then ''commit_conflict''
      else if go_is e StaleInput \<or> go_is e DuplicateCandidateStale \<or> go_is e KnowledgeSourceConflict
           \<or> go_is e EvidenceConflictStale \<or> go_is e RememberSourceConflict then ''stale_input''
      else if phase = ''assessment'' then ''provider_unavailable''
      else if phase = ''embedding'' then ''embedding_unavailable''
      else ''database_failure'')"

definition rememberFailureCode :: "string \<Rightarrow> go_error \<Rightarrow> string" where
  "rememberFailureCode phase e =
     (if go_is e PolicyRejected \<or> go_is e EvidenceSecurityRejected \<or> go_is e EncodedEvidence then ''submission_policy_rejected''
      else if go_is e RequestTimeout \<or> go_is e DeadlineExceeded then ''request_timeout''
      else if go_is e RequestCancelled \<or> go_is e Canceled then ''request_cancelled''
      else if go_is e DatabaseFailure then ''database_failure''
      else case go_as plan_failure e of
        Some cause \<Rightarrow> plan_code cause
      | None \<Rightarrow>
          if list_ex (\<lambda>n. n = ConfigurationFailure) (nodes e) then ''configuration_invalid''
          else if embedding_response_invalid e then ''embedding_response_invalid''
          else sentinel_code phase e)"

section \<open>Details\<close>

definition issue_at :: "string \<Rightarrow> string \<Rightarrow> any_value" where
  "issue_at path code = AItems [AObject [(''code'', AText code), (''path'', AText path)]]"

definition client_details :: "string \<Rightarrow> any_value \<Rightarrow> details" where
  "client_details component issues =
     [(''client_controlled'', ATruth True), (''component'', AText component), (''issues'', issues)]"

definition server_details :: "string \<Rightarrow> details" where
  "server_details component = [(''component'', AText component), (''server_owned'', ATruth True)]"

definition retry_details :: "string \<Rightarrow> int \<Rightarrow> details" where
  "retry_details component retry =
     (if 0 < retry
      then [(''component'', AText component), (''retry_after_seconds'', AInt (retry div second_ns)), (''server_owned'', ATruth True)]
      else server_details component)"

definition assessorFailureComponent :: "string \<Rightarrow> string" where
  "assessorFailureComponent stage0 =
     (let stage = trim_space stage0 in
      if stage = ''entity_catalog'' then ''assessor.required_entity_catalog''
      else if stage = ''known_evidence_context'' then ''assessor.required_known_evidence''
      else if stage \<in> {''catalog_context'', ''catalog_context_validation'', ''predicate_options_overflow''} then ''assessor.optional_context''
      else if stage = ''predicate_context'' then ''assessor.required_predicate_context''
      else if stage = ''required_context'' then ''assessor.required_context''
      else if stage \<in> {''assessment_input'', ''input_tokens''} then ''assessor.required_input''
      else if stage = ''provider_framing'' then ''assessor.provider_framing''
      else if stage = ''conversation_input_tokens'' then ''assessor.conversation''
      else if stage = ''conversation_candidate_context_tokens'' then ''assessor.conversation_candidate_context''
      else ''assessor'')"

definition assessmentFailureIsClientControlled :: "string \<Rightarrow> bool" where
  "assessmentFailureIsClientControlled stage \<longleftrightarrow> trim_space stage \<in> {''assessment_input'', ''input_tokens''}"

text \<open>The entries in the order of their keys.\<close>

definition measured_details :: "string \<Rightarrow> bool \<Rightarrow> measurement option \<Rightarrow> details" where
  "measured_details component client m =
     (if client then [(''client_controlled'', ATruth True)] else []) @ [(''component'', AText component)] @
     (case m of None \<Rightarrow> []
      | Some x \<Rightarrow> [(''limit'', AInt (ms_Limit x)), (''observed'', AInt (ms_Observed x))] @
          (if ms_AtLeast x then [(''observed_at_least'', ATruth True)] else [])) @
     (if client then [] else [(''server_owned'', ATruth True)]) @
     (case m of None \<Rightarrow> [] | Some x \<Rightarrow> [(''unit'', AText (ms_Unit x))])"

definition preflight_reason :: "string \<Rightarrow> string \<Rightarrow> string" where
  "preflight_reason stage reasonCode =
     (if trim_space reasonCode \<noteq> [] then trim_space reasonCode
      else if trim_space stage \<noteq> [] then trim_space stage
      else ''assessor_preflight_failed'')"

definition SynchronousAssessmentFailureDetails :: "go_error \<Rightarrow> string \<times> details option" where
  "SynchronousAssessmentFailureDetails e =
     (case go_as diagnosed e of
        Some (reason, d) \<Rightarrow> (reason, boundedStatusErrorDetails (Some d))
      | None \<Rightarrow> (case go_as preflight e of
        Some (stage, reasonCode, m) \<Rightarrow>
          (preflight_reason stage reasonCode,
           Some (measured_details (assessorFailureComponent stage) (assessmentFailureIsClientControlled stage) m))
      | None \<Rightarrow> (case go_as malformed e of
        Some (attempts, class, stage, m) \<Rightarrow>
          (if trim_space class = ''input_budget''
           then (if trim_space stage = ''conversation_candidate_context_tokens''
                 then ''assessor_conversation_candidate_context_exceeded'' else ''assessor_conversation_input_exceeded'',
                 Some (measured_details (assessorFailureComponent stage) False m))
           else ([], None))
      | None \<Rightarrow> ([], None))))"

definition stale_conditions :: "(sentinel \<times> string \<times> string) list" where
  "stale_conditions =
     [(KnowledgeSourceConflict, ''source_revision_changed'', ''/evidence''),
      (KnownEvidenceStale, ''known_evidence_changed'', ''/relationships''),
      (CorrectionTargetStale, ''correction_target_changed'', ''/relationships''),
      (ConflictContextStale, ''conflict_target_changed'', ''/relationships''),
      (EvidenceConflictStale, ''conflict_target_changed'', ''/evidence''),
      (ExactReferenceStale, ''exact_reference_changed'', ''/relationships''),
      (SubmissionInputStale, ''exact_reference_changed'', ''/relationships''),
      (DuplicateCandidateStale, ''known_evidence_changed'', ''/evidence'')]"

definition embedding_reason :: "string \<Rightarrow> string" where
  "embedding_reason code =
     (if code = ''provider_rate_limited'' then ''embedding_rate_limited''
      else if code = ''provider_timeout'' then ''embedding_timeout''
      else if code = ''provider_server_error'' then ''embedding_server_failure''
      else if code = ''provider_network_error'' then ''embedding_transport_failure''
      else if code \<in> {''provider_authentication_failed'', ''provider_permission_denied'', ''provider_contract_rejected'',
             ''provider_quota_exhausted'', ''embedding_input_rejected''} then ''embedding_request_rejected''
      else [])"

definition provider_reason :: "string \<Rightarrow> string" where
  "provider_reason class =
     (if class = ''timeout'' then ''provider_timeout''
      else if class = ''rate_limited'' then ''provider_rate_limited''
      else if class = ''http_4xx'' then ''provider_request_rejected''
      else if class = ''http_5xx'' then ''provider_server_failure''
      else if class = ''transport'' then ''provider_transport_failure''
      else ''provider_unavailable'')"

definition provider_details :: "go_error \<Rightarrow> string \<Rightarrow> string \<times> details option" where
  "provider_details e phase =
     (let embedding = ClassifyFailure e; reason = embedding_reason (fm_Code embedding); provider = ProviderFailureDetails e in
      if phase = ''embedding'' \<and> reason \<noteq> [] then (reason, Some (retry_details ''remember.embedding'' (fm_RetryAfter embedding)))
      else if go_as ver_provider e \<noteq> None \<or> go_as ver_rate_limit e \<noteq> None \<or> go_is e VerifierTimeout
      then (provider_reason (fm_Class provider), Some (retry_details (''remember.'' @ phase) (fm_RetryAfter provider)))
      else ([], None))"

definition RememberFailureDetails :: "go_error \<Rightarrow> string \<Rightarrow> string \<times> details option" where
  "RememberFailureDetails e phase =
     (case (case go_as source_conflict e of Some i \<Rightarrow> if 0 \<le> i then Some i else None | None \<Rightarrow> None) of
        Some i \<Rightarrow> (''source_revision_changed'', Some (client_details (''remember.'' @ phase)
          (issue_at (''/evidence/'' @ go_decimal i @ ''/source_revision'') ''source_revision_changed'')))
      | None \<Rightarrow>
          if fst (SynchronousAssessmentFailureDetails e) \<noteq> [] then SynchronousAssessmentFailureDetails e
          else (case go_as malformed e of
            Some (attempts, class, stage, m) \<Rightarrow> (''assessment_response_invalid'',
              Some [(''attempts'', AInt attempts), (''component'', AText ''remember.assessment''), (''server_owned'', ATruth True)])
          | None \<Rightarrow> (case List.find (\<lambda>(s, reason, path). go_is e s) stale_conditions of
            Some (s, reason, path) \<Rightarrow> (reason, Some (client_details (''remember.'' @ phase) (issue_at path reason)))
          | None \<Rightarrow> provider_details e phase)))"

text \<open>The issues of a security rejection; the entries of an issue in the order of their keys.\<close>

definition signal_path :: "batch_signal \<Rightarrow> string" where
  "signal_path s =
     (if bs_path s \<noteq> [] then bs_path s
      else if bs_source s = ''evidence'' then ''/evidence/'' @ go_decimal (bs_index s) @ ''/content''
      else ''/relationships'')"

definition signal_issue :: "batch_signal \<Rightarrow> any_value" where
  "signal_issue s =
     AObject [(''code'', AText (if ss_encoded (bs_signal s) then ''encoded_payload'' else ss_kind (bs_signal s))),
       (''path'', AText (signal_path s)), (''span_end'', AInt (int (ss_end (bs_signal s)))),
       (''span_start'', AInt (int (ss_start (bs_signal s))))]"

definition SecurityRejectionFailure :: "batch_signal list \<Rightarrow> bool \<Rightarrow> string \<Rightarrow> go_error" where
  "SecurityRejectionFailure signals truncated stage =
     Diagnosed (Sentinel PolicyRejected) ''security_rejection''
       [(''client_controlled'', ATruth True), (''component'', AText (''remember.'' @ stage)),
        (''issues'', AItems (map signal_issue signals)), (''issues_truncated'', ATruth truncated)]"


section \<open>The public error of a failure\<close>

text \<open>The error that \<open>recordRememberFailure\<close> publishes.\<close>

definition failure_reason :: "string \<Rightarrow> go_error \<Rightarrow> string \<times> details option" where
  "failure_reason phase e =
     (let (reason0, details0) =
            (if rememberFailureCode phase e = ''commit_conflict'' \<and> go_is e RegistrationHeld
             then (''predicate_catalog_changed'', Some (server_details ''remember.predicate_catalog''))
             else RememberFailureDetails e phase) in
      if reason0 = [] then (''remember_'' @ trim_space phase @ ''_failed'', Some (server_details (''remember.'' @ trim_space phase)))
      else (reason0, details0))"

definition public_failure_error :: "status_env \<Rightarrow> string \<Rightarrow> go_error \<Rightarrow> status_error" where
  "public_failure_error S phase e =
     TerminalStatusErrorWithDetails S (rememberFailureCode phase e) (fst (failure_reason phase e)) (snd (failure_reason phase e))"

text \<open>Errors whose own reasons and texts need no cutting.\<close>

definition reason_ok :: "string \<Rightarrow> bool" where
  "reason_ok r \<longleftrightarrow> rune_count (trim_space r) \<le> 128 \<and> trim_space r \<noteq> ''idempotency_lock_busy''"

definition measurement_fits :: "measurement option \<Rightarrow> bool" where
  "measurement_fits m = (case m of None \<Rightarrow> True | Some x \<Rightarrow> rune_count (trim_space (ms_Unit x)) \<le> 512)"

definition node_fits :: "go_error \<Rightarrow> bool" where
  "node_fits n =
     (case n of
        Diagnosed c r d \<Rightarrow> reason_ok r \<and> details_fit d \<and> boundedStatusErrorDetails (Some d) \<noteq> None
      | Preflight st r m c \<Rightarrow> reason_ok (preflight_reason st r) \<and> measurement_fits m
      | MalformedError a class st m \<Rightarrow> measurement_fits m
      | _ \<Rightarrow> True)"

definition error_fits :: "go_error \<Rightarrow> bool" where
  "error_fits e = list_all node_fits (nodes e)"

lemma go_as_node: "go_as f e = Some y \<Longrightarrow> \<exists>n\<in>set (nodes e). f n = Some y"
proof -
  have "first_some f xs = Some y \<Longrightarrow> \<exists>n\<in>set xs. f n = Some y" for xs :: "go_error list"
    by (induction xs) (auto split: option.splits)
  then show "go_as f e = Some y \<Longrightarrow> ?thesis" by (simp add: go_as_def)
qed

lemma node_kind:
  "diagnosed n = Some (r, d) \<longleftrightarrow> (\<exists>c. n = Diagnosed c r d)"
  "preflight n = Some (st, r, m) \<longleftrightarrow> (\<exists>c. n = Preflight st r m c)"
  "malformed n = Some (a, class, st, m) \<longleftrightarrow> n = MalformedError a class st m"
  by (cases n; auto simp: diagnosed_def preflight_def malformed_def)+

lemma known_texts: "list_all (plain_text 128)
  [''client_controlled'', ''component'', ''issues'', ''issues_truncated'', ''server_owned'', ''attempts'', ''limit'', ''observed'',
   ''observed_at_least'', ''unit'', ''retry_after_seconds'',
   ''source_revision_changed'', ''assessor_conversation_candidate_context_exceeded'', ''assessor_conversation_input_exceeded'',
   ''assessment_response_invalid'', ''known_evidence_changed'', ''correction_target_changed'', ''conflict_target_changed'',
   ''exact_reference_changed'', ''embedding_rate_limited'', ''embedding_timeout'', ''embedding_server_failure'',
   ''embedding_transport_failure'', ''embedding_request_rejected'', ''provider_timeout'', ''provider_rate_limited'',
   ''provider_request_rejected'', ''provider_server_failure'', ''provider_transport_failure'', ''provider_unavailable'',
   ''predicate_catalog_changed'', ''remember_assessment_failed'', ''remember_embedding_failed'', ''remember_commit_failed'',
   ''security_rejection'',
   ''remember.assessment'', ''remember.embedding'', ''remember.commit'', ''remember.predicate_catalog'',
   ''assessor.required_entity_catalog'', ''assessor.required_known_evidence'', ''assessor.optional_context'',
   ''assessor.required_predicate_context'', ''assessor.required_context'', ''assessor.required_input'',
   ''assessor.provider_framing'', ''assessor.conversation'', ''assessor.conversation_candidate_context'', ''assessor'']"
  by (simp add: plain_text_def ascii_word_def byte_of_def)

lemmas known_text = known_texts [unfolded list.pred_inject]

definition component_fits :: "string \<Rightarrow> bool" where
  "component_fits c \<longleftrightarrow> rune_count (trim_space c) \<le> 512"

lemma plain_component: "plain_text 128 c \<Longrightarrow> component_fits c"
  using plain_text_bounded(2) [of 128 c] by (simp add: component_fits_def)

lemma plain_reason: "plain_text 128 r \<Longrightarrow> r \<noteq> ''idempotency_lock_busy'' \<Longrightarrow> reason_ok r"
  using plain_text_bounded(1,2) [of 128 r] by (simp add: reason_ok_def)

definition value_fits :: "any_value \<Rightarrow> bool" where
  "value_fits v = (case v of AText s \<Rightarrow> component_fits s | AFloat w \<Rightarrow> \<not> float_nan w | _ \<Rightarrow> True)"

lemma plain_entry: "plain_text 128 k \<Longrightarrow> entry_fits (k, v) = value_fits v"
  using plain_text_bounded(2) [of 128 k] by (simp add: entry_fits_def value_fits_def component_fits_def split: any_value.split)

lemmas fits_eval = details_fit_def plain_entry value_fits_def known_text

lemma details_fit_known:
  "component_fits c \<Longrightarrow> details_fit (client_details c (issue_at path code))"
  "component_fits c \<Longrightarrow> details_fit (server_details c)"
  "component_fits c \<Longrightarrow> details_fit (retry_details c retry)"
  "component_fits c \<Longrightarrow> measurement_fits m \<Longrightarrow> details_fit (measured_details c client m)"
  by (simp_all add: fits_eval client_details_def server_details_def retry_details_def measured_details_def issue_at_def
      measurement_fits_def component_fits_def split: option.splits)

lemma bound_entry_nonempty: "r \<noteq> [] \<Longrightarrow> bound_entry key v r \<noteq> []"
proof -
  have put: "put k x m \<noteq> []" for k x m by (cases "(k, x, m)" rule: put.cases) auto
  then show "r \<noteq> [] \<Longrightarrow> ?thesis" by (simp add: bound_entry_def Let_def split_beta split: any_value.split)
qed

lemma bound_loop_nonempty: "r \<noteq> [] \<Longrightarrow> bound_loop m n r \<noteq> []"
  by (induction m n r rule: bound_loop.induct) (simp_all add: Let_def bound_entry_nonempty)

definition scalar_entry :: "string \<times> any_value \<Rightarrow> bool" where
  "scalar_entry p \<longleftrightarrow> boundedStatusErrorText (fst p) 128 = fst p \<and> fst p \<notin> {[], ''issues'', ''issues_truncated''}
     \<and> (case snd p of AText s \<Rightarrow> True | AInt n \<Rightarrow> True | ATruth b \<Rightarrow> True | _ \<Rightarrow> False)"

lemma plain_scalar: "plain_text 128 k \<Longrightarrow> k \<noteq> ''issues'' \<Longrightarrow> k \<noteq> ''issues_truncated'' \<Longrightarrow> scalar_entry (k, ATruth b)
    \<and> scalar_entry (k, AText s) \<and> scalar_entry (k, AInt n)"
  using plain_text_bounded(3) [of 128 k] by (auto simp: scalar_entry_def plain_text_def)

lemma scalar_details_kept: "scalar_entry p \<Longrightarrow> boundedStatusErrorDetails (Some (p # m)) \<noteq> None"
  by (cases p) (auto simp: boundedStatusErrorDetails_def Let_def scalar_entry_def bound_entry_def
      intro!: bound_loop_nonempty split: any_value.splits)

lemma known_details_kept:
  "boundedStatusErrorDetails (Some (client_details c v)) \<noteq> None"
  "boundedStatusErrorDetails (Some (server_details c)) \<noteq> None"
  "boundedStatusErrorDetails (Some (retry_details c retry)) \<noteq> None"
  "boundedStatusErrorDetails (Some (measured_details c client m)) \<noteq> None"
  by (auto simp: client_details_def server_details_def retry_details_def measured_details_def plain_scalar known_text
      simp del: not_None_eq intro!: scalar_details_kept)

text \<open>A reason with details that \<open>TerminalStatusErrorWithDetails\<close> publishes unharmed.\<close>

definition explained_reason :: "string \<times> details option \<Rightarrow> bool" where
  "explained_reason p \<longleftrightarrow> reason_ok (fst p) \<and> details_stable (snd p) \<and> boundedStatusErrorDetails (snd p) \<noteq> None"

lemma explained_fit:
  "reason_ok r \<Longrightarrow> details_fit d \<Longrightarrow> boundedStatusErrorDetails (Some d) \<noteq> None \<Longrightarrow> explained_reason (r, Some d)"
  by (simp add: explained_reason_def details_stable_fit)

lemmas explained_known = explained_fit [OF _ details_fit_known(1) known_details_kept(1)]
  explained_fit [OF _ details_fit_known(2) known_details_kept(2)]
  explained_fit [OF _ details_fit_known(3) known_details_kept(3)]
  explained_fit [OF _ details_fit_known(4) known_details_kept(4)]

lemma component_known: "component_fits (assessorFailureComponent stage)"
  by (simp add: assessorFailureComponent_def Let_def plain_component known_text)

lemma assessment_details_explained:
  assumes "error_fits e" and "fst (SynchronousAssessmentFailureDetails e) \<noteq> []"
  shows "explained_reason (SynchronousAssessmentFailureDetails e)"
proof (cases "go_as diagnosed e")
  case (Some rd)
  obtain r d where rd: "rd = (r, d)" by (cases rd)
  with Some go_as_node [of diagnosed e rd] obtain c where "Diagnosed c r d \<in> set (nodes e)"
    by (auto simp: node_kind)
  with assms(1) have fit: "reason_ok r" "details_fit d" "boundedStatusErrorDetails (Some d) \<noteq> None"
    by (auto simp: error_fits_def list_all_iff node_fits_def)
  then have "details_stable (boundedStatusErrorDetails (Some d))" and
    "boundedStatusErrorDetails (boundedStatusErrorDetails (Some d)) \<noteq> None"
    using details_stable_bounded [OF details_stable_fit [of "Some d"]] details_stable_fit [of "Some d"]
    by (simp_all add: details_stable_def deep_equal_def)
  then show ?thesis using fit(1) by (simp add: SynchronousAssessmentFailureDetails_def Some rd explained_reason_def)
next
  case None
  note d = None
  show ?thesis
  proof (cases "go_as preflight e")
    case (Some p)
    obtain st r m where p: "p = (st, r, m)" by (cases p)
    with Some go_as_node [of preflight e p] obtain c where "Preflight st r m c \<in> set (nodes e)"
      by (auto simp: node_kind)
    with assms(1) have "reason_ok (preflight_reason st r)" "measurement_fits m"
      by (auto simp: error_fits_def list_all_iff node_fits_def)
    then show ?thesis using explained_known(4) component_known
      by (simp add: SynchronousAssessmentFailureDetails_def d Some p)
  next
    case None
    show ?thesis
    proof (cases "go_as malformed e")
      case (Some p)
      obtain a cl st m where p: "p = (a, cl, st, m)" by (cases p)
      with Some go_as_node [of malformed e p] have "MalformedError a cl st m \<in> set (nodes e)"
        by (auto simp: node_kind)
      with assms(1) have "measurement_fits m" by (auto simp: error_fits_def list_all_iff node_fits_def)
      then show ?thesis using explained_known(4) component_known assms(2)
        by (simp add: plain_reason known_text SynchronousAssessmentFailureDetails_def d None Some p split: if_splits)
    qed (use assms(2) in \<open>simp add: SynchronousAssessmentFailureDetails_def d None\<close>)
  qed
qed

lemma provider_details_explained:
  assumes "component_fits (''remember.'' @ phase)" and "fst (provider_details e phase) \<noteq> []"
  shows "explained_reason (provider_details e phase)"
proof -
  have "reason_ok (provider_reason c)" for c by (simp add: provider_reason_def plain_reason known_text)
  moreover have "reason_ok (embedding_reason c)" if "embedding_reason c \<noteq> []" for c
    using that by (auto simp: embedding_reason_def plain_reason known_text split: if_splits)
  moreover have "component_fits ''remember.embedding''" by (simp add: plain_component known_text)
  ultimately show ?thesis using assms explained_known(3)
    unfolding provider_details_def Let_def by (auto split: if_splits)
qed

lemma stale_conditions_known:
  "(s, reason, path) \<in> set stale_conditions \<Longrightarrow> reason_ok reason"
  by (auto simp: stale_conditions_def plain_reason known_text)

lemma failure_details_explained:
  assumes "error_fits e" and "component_fits (''remember.'' @ phase)" and "fst (RememberFailureDetails e phase) \<noteq> []"
  shows "explained_reason (RememberFailureDetails e phase)"
proof -
  let ?source = "case go_as source_conflict e of Some i \<Rightarrow> if 0 \<le> i then Some i else None | None \<Rightarrow> None"
  have client: "explained_reason (r, Some (client_details (''remember.'' @ phase) (issue_at path code)))" if "reason_ok r" for r path code
    using explained_known(1) [OF that assms(2)] .
  consider (source) i where "?source = Some i"
    | (assessment) "?source = None" "fst (SynchronousAssessmentFailureDetails e) \<noteq> []"
    | (malformed) a where "?source = None" "fst (SynchronousAssessmentFailureDetails e) = []" "go_as malformed e = Some a"
    | (stale) s r p where "?source = None" "fst (SynchronousAssessmentFailureDetails e) = []" "go_as malformed e = None"
        "List.find (\<lambda>(s, reason, path). go_is e s) stale_conditions = Some (s, r, p)"
    | (provider) "?source = None" "fst (SynchronousAssessmentFailureDetails e) = []" "go_as malformed e = None"
        "List.find (\<lambda>(s, reason, path). go_is e s) stale_conditions = None"
    by (cases ?source; cases "go_as malformed e"; cases "List.find (\<lambda>(s, reason, path). go_is e s) stale_conditions") auto
  then show ?thesis
  proof cases
    case source
    then show ?thesis using client by (simp add: RememberFailureDetails_def plain_reason known_text)
  next
    case assessment
    then show ?thesis using assessment_details_explained [OF assms(1)] by (simp add: RememberFailureDetails_def)
  next
    case malformed
    have "explained_reason (''assessment_response_invalid'', Some [(''attempts'', AInt n), (''component'', AText ''remember.assessment''),
      (''server_owned'', ATruth True)])" for n
      by (rule explained_fit) (simp_all add: fits_eval plain_component plain_reason plain_scalar scalar_details_kept del: not_None_eq)
    then show ?thesis using malformed by (cases a) (simp add: RememberFailureDetails_def)
  next
    case stale
    have "(s, r, p) \<in> set stale_conditions" using find_mem [OF stale(4)] by simp
    then show ?thesis using stale client stale_conditions_known by (simp add: RememberFailureDetails_def)
  next
    case provider
    then show ?thesis using provider_details_explained [OF assms(2)] assms(3) by (simp add: RememberFailureDetails_def)
  qed
qed

definition remember_phases :: "string list" where
  "remember_phases = [''assessment'', ''embedding'', ''commit'']"

lemma phases_fit: "phase \<in> set remember_phases \<Longrightarrow>
    trim_space phase = phase \<and> component_fits (''remember.'' @ phase) \<and> reason_ok (''remember_'' @ phase @ ''_failed'')"
  using plain_text_bounded(1) [of 128]
  by (auto simp: remember_phases_def plain_component plain_reason known_text go_string_eval)

lemma failure_reason_explained:
  assumes "phase \<in> set remember_phases" and "error_fits e"
  shows "explained_reason (failure_reason phase e)"
proof -
  note phase = phases_fit [OF assms(1)]
  have "component_fits ''remember.predicate_catalog''" "reason_ok ''predicate_catalog_changed''"
    by (simp_all add: plain_component plain_reason known_text)
  then show ?thesis
    using phase failure_details_explained [OF assms(2)] explained_known(2)
    by (auto simp: failure_reason_def Let_def split_beta)
qed

lemma public_error_valid:
  assumes "phase \<in> set remember_phases" and "error_fits e"
  shows "ValidateTerminalStatusError S (public_failure_error S phase e) = None"
proof -
  note ok = failure_reason_explained [OF assms]
  show ?thesis
    unfolding public_failure_error_def
    by (rule built_error_valid) (use ok in \<open>simp_all add: explained_reason_def reason_ok_def reason_explained_def busy_budget_def\<close>)
qed

text \<open>(failure_error_accepted): every failure of a Remember phase is published as an error that passes the boundary check:
  for every error tree whose own reasons and measurements need no cutting, in each of the three phases, the code,
  reason and details that \<open>recordRememberFailure\<close> derives from it give an error that
  \<open>ValidateTerminalStatusError\<close> accepts, with a code of the terminal vocabulary and a reason.\<close>

theorem failure_error_accepted:
  assumes "phase \<in> set remember_phases" and "error_fits e"
  shows "ValidateTerminalStatusError S (public_failure_error S phase e) = None
    \<and> ste_ReasonCode (public_failure_error S phase e) = trim_space (fst (failure_reason phase e))
    \<and> ste_Code (public_failure_error S phase e) = rememberFailureCode phase e"
proof -
  note ok = failure_reason_explained [OF assms]
  have plan: "plan_code c \<in> set terminalErrorCodes" for c by (simp add: plan_code_def terminalErrorCodes_def)
  have sentinel: "sentinel_code p c \<in> set terminalErrorCodes" for p c by (simp add: sentinel_code_def terminalErrorCodes_def)
  have fixed: "{''submission_policy_rejected'', ''request_timeout'', ''request_cancelled'', ''database_failure'',
      ''configuration_invalid'', ''embedding_response_invalid''} \<subseteq> set terminalErrorCodes"
    by (simp add: terminalErrorCodes_def)
  have "rememberFailureCode phase e \<in> set terminalErrorCodes"
    unfolding rememberFailureCode_def using plan sentinel fixed by (auto split: option.split)
  then show ?thesis using public_error_valid [OF assms, of S] ok
    by (simp add: public_failure_error_def TerminalStatusErrorWithDetails_def status_error_parts normalize_code_fix
        explained_reason_def reason_ok_def bounded_fits)
qed

lemma rejection_fits:
  assumes "component_fits (''remember.'' @ stage)"
  shows "error_fits (SecurityRejectionFailure signals truncated stage)"
proof -
  have "reason_ok ''security_rejection''" by (simp add: plain_reason known_text)
  moreover have "scalar_entry (''client_controlled'', ATruth True)" by (simp add: plain_scalar known_text)
  ultimately show ?thesis using assms scalar_details_kept
    by (simp add: SecurityRejectionFailure_def error_fits_def node_fits_def fits_eval del: not_None_eq)
qed

theorem failure_error_accepted_witness:
  "ValidateTerminalStatusError sample_status_env
     (public_failure_error sample_status_env ''embedding'' (PlanFailure (Sentinel PlanTooLarge))) = None"
  using failure_error_accepted [of "''embedding''" "PlanFailure (Sentinel PlanTooLarge)" sample_status_env]
  by (simp add: remember_phases_def error_fits_def node_fits_def)

end
