(* ===== verification/Remember_Result.thy ===== *)
theory Remember_Result
  imports Remember_Failure
begin

text \<open>
  The statuses of Remember attempts: the projection of a status to a terminal result and the upgrade of stored
  diagnostics (internal/remember/service/service.go and submission_diagnostics.go), and the statuses that the
  processor builds for failures, conflicts and replays (processor/remember_failure_results.go, remember_replay.go and
  remember_processor.go).
\<close>

section \<open>Stored diagnostics\<close>

definition upgrade_error :: "status_env \<Rightarrow> status_error \<Rightarrow> status_error" where
  "upgrade_error S e =
     (let plain = (ste_ReasonCode e = [] \<and> (case ste_Details e of None \<Rightarrow> True | Some m \<Rightarrow> m = []));
          reason = (if plain then (if ste_Code e = ''submission_policy_rejected'' then ''legacy_policy_rejection''
                                   else ''legacy_details_unavailable'') else ste_ReasonCode e);
          value = TerminalStatusErrorWithDetails S (ste_Code e) reason (if plain then replay_details else ste_Details e);
          v1 = (if ste_NextAction e \<noteq> [] then value\<lparr>ste_Retryable := ste_Retryable e, ste_NextAction := ste_NextAction e\<rparr>
                else value) in
      if ste_NextAction e = ''retry_dream_feedback''
      then v1\<lparr>ste_NextAction := ste_NextAction e, ste_Remediation := ste_Remediation e\<rparr> else v1)"

definition legacyRememberDiagnosticError :: "status_error list \<Rightarrow> bool" where
  "legacyRememberDiagnosticError es \<longleftrightarrow>
     list_ex (\<lambda>e. ste_ReasonCode e \<in> {''legacy_policy_rejection'', ''legacy_details_unavailable''}
                \<or> genericRememberFailureDetailsUnavailable e) es"

definition upgraded_guidance :: "status_env \<Rightarrow> bool \<Rightarrow> string \<Rightarrow> string \<times> string" where
  "upgraded_guidance S legacy reason =
     (if legacy \<and> reason \<noteq> ''not_supported_by_evidence'' then legacyNotStoredGuidance S reason else NotStoredGuidance reason)"

definition upgrade_evidence :: "status_env \<Rightarrow> bool \<Rightarrow> evidence_status \<Rightarrow> evidence_status" where
  "upgrade_evidence S legacy x =
     (if er_Disposition x = ''not_stored'' \<and> er_Message x = []
      then x\<lparr>er_Message := fst (upgraded_guidance S legacy (er_Reason x)),
             er_Remediation := snd (upgraded_guidance S legacy (er_Reason x))\<rparr>
      else x)"

definition upgrade_relationship :: "status_env \<Rightarrow> bool \<Rightarrow> relationship_result \<Rightarrow> relationship_result" where
  "upgrade_relationship S legacy x =
     (if rr_Disposition x = ''not_stored'' \<and> rr_Message x = []
      then x\<lparr>rr_Message := fst (upgraded_guidance S legacy (rr_Reason x)),
             rr_Remediation := snd (upgraded_guidance S legacy (rr_Reason x))\<rparr>
      else x)"

definition UpgradeRememberResultDiagnostics :: "status_env \<Rightarrow> submission_status \<Rightarrow> submission_status" where
  "UpgradeRememberResultDiagnostics S r =
     (let es = map_option (map (upgrade_error S)) (sr_Errors r); legacy = legacyRememberDiagnosticError (slice_of es) in
      r\<lparr>sr_Errors := es, sr_Evidence := map_option (map (upgrade_evidence S legacy)) (sr_Evidence r),
        sr_Relationships := map_option (map (upgrade_relationship S legacy)) (sr_Relationships r)\<rparr>)"

section \<open>From a status to a terminal result\<close>

text \<open>The fields of \<open>RememberResult\<close> are those of its terminal part. A slice copied with \<open>append(nil, ...)\<close> and then replaced
  by an empty one when nil is \<open>Some\<close> of its elements.\<close>

definition copied :: "'a list option \<Rightarrow> 'a list option" where
  "copied xs = Some (slice_of xs)"

definition result_evidence :: "string \<Rightarrow> evidence_status \<Rightarrow> evidence_result" where
  "result_evidence searchState x =
     \<lparr>er_Disposition = er_Disposition x, er_EvidenceID = (if er_Disposition x = ''not_stored'' then [] else er_EvidenceID x),
      er_ContentHash = er_ContentHash x, er_EvidenceIndex = er_EvidenceIndex x, er_Superseded = copied (er_Superseded x),
      er_SearchState = (if er_SearchState x = [] then searchState else er_SearchState x), er_Reason = er_Reason x,
      er_Message = er_Message x, er_Remediation = er_Remediation x\<rparr>"

definition or_default :: "string \<Rightarrow> string \<Rightarrow> string" where
  "or_default s d = (if s = [] then d else s)"

definition rememberResultFromStatus :: "status_env \<Rightarrow> submission_status \<Rightarrow> string \<Rightarrow> terminal_result" where
  "rememberResultFromStatus S status ingestID =
     (let r = UpgradeRememberResultDiagnostics S status; searchState = or_default (sr_SearchState r) ''not_required'' in
      \<lparr>tr_SpaceKind = sr_SpaceKind r, tr_ContractVersion = or_default (sr_ContractVersion r) ContractVersion,
       tr_SubmissionID = or_default (sr_SubmissionID r) ingestID, tr_SubmissionKind = or_default (sr_SubmissionKind r) ''remember'',
       tr_ProcessingState = sr_ProcessingState r, tr_SearchState = searchState, tr_CorrelationID = sr_CorrelationID r,
       tr_Evidence = Some (map (result_evidence searchState) (slice_of (sr_Evidence r))),
       tr_Relationships = Some (map (\<lambda>x. x\<lparr>rr_Splits := copied (rr_Splits x)\<rparr>) (slice_of (sr_Relationships r))),
       tr_Errors = copied (sr_Errors r), tr_Warnings = sr_Warnings r, tr_Kind = ''terminal''\<rparr>)"

section \<open>Requests of the processor\<close>

record evidence_input =
  ei_Content :: string
  ei_ForceInsert :: bool
  ei_ContentHash :: string
  ei_SourceType :: string
  ei_Authority :: string
  ei_SourceRef :: string
  ei_SourceKey :: string
  ei_RevisionToken :: string
  ei_PreviousToken :: string
  ei_RevisionHash :: string
  ei_Envelope :: details
  ei_Supersedes :: "string list"
  ei_Labels :: "string list"
  ei_Metadata :: details
  ei_Event :: "security_event option"

record process_input =
  pi_SpaceKind :: string
  pi_TeamID :: string
  pi_OwnerProfileID :: string
  pi_SpaceID :: string
  pi_SpaceGeneration :: int
  pi_IdempotencyKey :: string
  pi_RequestHash :: string
  pi_SourceSummary :: string
  pi_Proposal :: "details option"
  pi_Metadata :: "details option"
  pi_Evidence :: "evidence_input list"
  pi_Signals :: "batch_signal list"
  pi_SignalsTruncated :: bool
  pi_SecurityRejected :: bool

definition rememberProcessCorrelationID :: "details option \<Rightarrow> string" where
  "rememberProcessCorrelationID md =
     (case md of None \<Rightarrow> []
      | Some m \<Rightarrow> (case map_of m ''actor'' of
          Some (AObject actor) \<Rightarrow> trim_space (text_of (map_of actor ''correlation_id''))
        | _ \<Rightarrow> []))"

definition rememberFailureRelationshipRefs :: "details option \<Rightarrow> string list" where
  "rememberFailureRelationshipRefs proposal =
     (case proposal of None \<Rightarrow> []
      | Some m \<Rightarrow>
          let raw = (if value_of (map_of m ''relationship_hints'') = ANil then value_of (map_of m ''relationships'')
                     else value_of (map_of m ''relationship_hints'')) in
          map (\<lambda>v. case v of AObject fs \<Rightarrow> trim_space (text_of (map_of fs ''ref'')) | _ \<Rightarrow> []) (issue_input raw))"

section \<open>Statuses of failures\<close>

definition failed_evidence :: "string \<Rightarrow> nat \<Rightarrow> string \<Rightarrow> string \<times> string \<Rightarrow> evidence_status" where
  "failed_evidence hash i reason guidance =
     \<lparr>er_Disposition = ''not_stored'', er_EvidenceID = [], er_ContentHash = hash, er_EvidenceIndex = int i,
      er_Superseded = Some [], er_SearchState = ''not_required'', er_Reason = reason, er_Message = fst guidance,
      er_Remediation = snd guidance, es_Error = None\<rparr>"

definition failed_relationship :: "string \<Rightarrow> string \<Rightarrow> string \<times> string \<Rightarrow> relationship_result" where
  "failed_relationship ref reason guidance =
     \<lparr>rr_Ref = ref, rr_Disposition = ''not_stored'', rr_Reason = reason, rr_Message = fst guidance,
      rr_Remediation = snd guidance, rr_Splits = Some []\<rparr>"

definition rememberFailureResults :: "process_input \<Rightarrow> string \<Rightarrow> evidence_status list \<times> relationship_result list" where
  "rememberFailureResults input reason =
     (let guidance = NotStoredGuidance reason in
      (map (\<lambda>(i, e). failed_evidence (ei_ContentHash e) i reason guidance) (enumerate 0 (pi_Evidence input)),
       map (\<lambda>ref. failed_relationship ref reason guidance) (rememberFailureRelationshipRefs (pi_Proposal input))))"

text \<open>A failed status with one error; \<open>make\<close> of \<open>rememberConflictProcessError\<close>, \<open>recordRememberFailure\<close> and
  \<open>rememberFailureProcessErrorWithStatus\<close>, which differ in the reason and the error.\<close>

definition failure_status :: "process_input \<Rightarrow> string \<Rightarrow> string \<Rightarrow> status_error \<Rightarrow> submission_status" where
  "failure_status input submissionID reason e =
     \<lparr>sr_SpaceKind = pi_SpaceKind input, sr_ContractVersion = ContractVersion, sr_SubmissionID = submissionID,
      sr_SubmissionKind = ''remember'', sr_ProcessingState = ''failed'', sr_SearchState = ''not_required'',
      sr_CorrelationID = rememberProcessCorrelationID (pi_Metadata input),
      sr_Evidence = Some (fst (rememberFailureResults input reason)), sr_Errors = Some [e],
      sr_Relationships = Some (snd (rememberFailureResults input reason)), sr_Warnings = [], sr_Kind = []\<rparr>"

record process_error =
  pe_Status :: "submission_status option"
  pe_Err :: go_error

definition process_error :: "submission_status \<Rightarrow> go_error \<Rightarrow> process_error" where
  "process_error status e = \<lparr>pe_Status = Some status, pe_Err = e\<rparr>"

definition rememberConflictProcessError :: "status_env \<Rightarrow> process_input \<Rightarrow> string \<Rightarrow> go_error \<Rightarrow> process_error" where
  "rememberConflictProcessError S input submissionID cause =
     process_error (failure_status input submissionID (TerminalNotStoredReasonForError ''idempotency_conflict'')
       (StatusErrorWithDetails S ''idempotency_conflict'' ''idempotency_conflict'' (Some (server_details ''remember.idempotency'')))) cause"

definition rememberFailureProcessErrorWithStatus ::
  "status_env \<Rightarrow> process_input \<Rightarrow> string \<Rightarrow> go_error \<Rightarrow> string \<Rightarrow> string \<Rightarrow> string \<Rightarrow> process_error" where
  "rememberFailureProcessErrorWithStatus S input submissionID cause code reasonCode component =
     process_error (failure_status input submissionID ''internal_failure''
       (TerminalStatusErrorWithDetails S code reasonCode (Some (server_details component)))) (Wrap [Sentinel Persistence, cause])"

definition rememberFailurePersistenceProcessError :: "status_env \<Rightarrow> process_input \<Rightarrow> string \<Rightarrow> go_error \<Rightarrow> process_error" where
  "rememberFailurePersistenceProcessError S input submissionID cause =
     rememberFailureProcessErrorWithStatus S input submissionID cause ''database_failure'' ''failure_retention'' ''remember.failure_record''"

definition rememberPreLockProcessError :: "status_env \<Rightarrow> process_input \<Rightarrow> string \<Rightarrow> go_error \<Rightarrow> process_error" where
  "rememberPreLockProcessError S input submissionID cause =
     (let (code, reason) =
        (if go_is cause DeadlineExceeded then (''request_timeout'', ''idempotency_lock_timeout'')
         else if go_is cause Canceled then (''request_cancelled'', ''idempotency_lock_cancelled'')
         else if go_is cause IdempotencyBusy then (''database_failure'', ''idempotency_lock_busy'')
         else (''database_failure'', ''idempotency_lock'')) in
      (rememberFailureProcessErrorWithStatus S input submissionID cause code reason ''remember.idempotency_lock'')\<lparr>pe_Err := cause\<rparr>)"

definition recorded_failure_status :: "status_env \<Rightarrow> process_input \<Rightarrow> string \<Rightarrow> string \<Rightarrow> go_error \<Rightarrow> submission_status" where
  "recorded_failure_status S input attemptID phase e =
     failure_status input attemptID (TerminalNotStoredReasonForError (rememberFailureCode phase e)) (public_failure_error S phase e)"

section \<open>Replay\<close>

record attempt =
  at_ID :: string
  at_RequestHash :: string
  at_ContractVersion :: string
  at_Outcome :: string
  at_Retryable :: bool
  at_PublicResult :: details

definition rememberAttemptMatchesRequest :: "attempt \<Rightarrow> process_input \<Rightarrow> bool" where
  "rememberAttemptMatchesRequest a input \<longleftrightarrow> trim_space (at_RequestHash a) = trim_space (pi_RequestHash input)"

definition firstNonEmptyString :: "string list \<Rightarrow> string" where
  "firstNonEmptyString vs = (case List.find (\<lambda>v. trim_space v \<noteq> []) vs of None \<Rightarrow> [] | Some v \<Rightarrow> trim_space v)"

text \<open>\<open>decode\<close> is the round trip of the stored public result through \<open>encoding/json\<close>.\<close>

definition rememberAttemptStatus ::
  "status_env \<Rightarrow> (details \<Rightarrow> go_error + submission_status) \<Rightarrow> attempt \<Rightarrow> go_error + submission_status" where
  "rememberAttemptStatus S decode a =
     (case decode (at_PublicResult a) of
        Inl e \<Rightarrow> Inl e
      | Inr r \<Rightarrow> Inr (UpgradeRememberResultDiagnostics S
          (r\<lparr>sr_SubmissionID := firstNonEmptyString [sr_SubmissionID r, at_ID a],
             sr_ContractVersion := or_default (sr_ContractVersion r) ContractVersion,
             sr_SubmissionKind := or_default (sr_SubmissionKind r) ''remember'',
             sr_Evidence := copied (sr_Evidence r), sr_Relationships := copied (sr_Relationships r),
             sr_Errors := copied (sr_Errors r)\<rparr>)))"

definition reorderRememberRelationshipResults :: "relationship_result list \<Rightarrow> string list \<Rightarrow> relationship_result list" where
  "reorderRememberRelationshipResults rs refs =
     (let byRef = index_by (\<lambda>x. trim_space (rr_Ref x)) rs in
      if refs = [] \<or> length rs \<noteq> length refs \<or> list_ex (\<lambda>x. trim_space (rr_Ref x) = []) rs
         \<or> length byRef \<noteq> length refs
         \<or> list_ex (\<lambda>ref. trim_space ref = [] \<or> map_of byRef (trim_space ref) = None) refs
      then rs
      else map (\<lambda>ref. the (map_of byRef (trim_space ref))) refs)"

definition rememberAttemptStatusForRequest ::
  "status_env \<Rightarrow> (details \<Rightarrow> go_error + submission_status) \<Rightarrow> attempt \<Rightarrow> process_input \<Rightarrow> go_error + submission_status" where
  "rememberAttemptStatusForRequest S decode a input =
     (case rememberAttemptStatus S decode a of
        Inl e \<Rightarrow> Inl e
      | Inr r \<Rightarrow> Inr (r\<lparr>sr_Relationships := map_option (\<lambda>rs. reorderRememberRelationshipResults rs
            (rememberFailureRelationshipRefs (pi_Proposal input))) (sr_Relationships r)\<rparr>))"

text \<open>What a call returns: a status, an error, or both; the error may carry a status.\<close>

datatype remember_error = Plain go_error | Process process_error

type_synonym remember_outcome = "submission_status option \<times> remember_error option"

definition incompatible_version :: "attempt \<Rightarrow> bool" where
  "incompatible_version a \<longleftrightarrow>
     trim_space (at_ContractVersion a) \<noteq> [] \<and> \<not> ContractVersionCompatible (trim_space (at_ContractVersion a))"

definition rememberAttemptReplay ::
  "status_env \<Rightarrow> (details \<Rightarrow> go_error + submission_status) \<Rightarrow> attempt option \<Rightarrow> process_input \<Rightarrow> remember_outcome" where
  "rememberAttemptReplay S decode winner input =
     (case winner of
        None \<Rightarrow> (None, Some (Process (rememberConflictProcessError S input [] (Sentinel RememberConflict))))
      | Some a \<Rightarrow>
          let conflict = (None, Some (Process (rememberConflictProcessError S input (at_ID a) (Sentinel RememberConflict)))) in
          if incompatible_version a \<or> \<not> rememberAttemptMatchesRequest a input then conflict
          else (case rememberAttemptStatusForRequest S decode a input of
            Inl e \<Rightarrow> (None, Some (Plain e))
          | Inr status \<Rightarrow>
              let outcome = trim_space (at_Outcome a); state = trim_space (sr_ProcessingState status) in
              if outcome = ''completed'' \<and> state = ''completed'' then (Some status, None)
              else if outcome = ''failed'' \<and> state = ''failed''
              then (None, Some (Process (process_error status (Sentinel Persistence))))
              else conflict))"


section \<open>The statuses of failures are accepted\<close>

lemma upgrade_built:
  assumes "e = TerminalStatusErrorWithDetails S code reason details" and "reason_ok reason" and "details_stable details"
    and "boundedStatusErrorDetails details \<noteq> None"
  shows "upgrade_error S e = e"
proof -
  have count: "rune_count (trim_space reason) \<le> 128" using assms(2) by (simp add: reason_ok_def)
  obtain m where "ste_Details e = Some m" "m \<noteq> []"
    using assms(1,4) by (auto simp: TerminalStatusErrorWithDetails_def boundedStatusErrorDetails_def Let_def split: option.splits if_splits)
  moreover have "TerminalStatusErrorWithDetails S (ste_Code e) (ste_ReasonCode e) (ste_Details e) = e"
    using built_error_canonical [OF count assms(3), of S code] assms(1) by (simp add: Let_def)
  moreover have "ste_NextAction e \<noteq> ''retry_dream_feedback''"
    using guidance_action(1) [of "normalizeTerminalErrorCode code"]
    by (auto simp: assms(1) TerminalStatusErrorWithDetails_def with_details_guidance status_error_parts)
  ultimately show ?thesis by (simp add: upgrade_error_def Let_def)
qed

lemma conflict_error: "StatusErrorWithDetails S ''idempotency_conflict'' r d = TerminalStatusErrorWithDetails S ''idempotency_conflict'' r d"
proof -
  have "submissionErrorMessage ''idempotency_conflict'' \<noteq> []" by code_simp
  then have "StatusError ''idempotency_conflict'' = TerminalStatusError ''idempotency_conflict''"
    by (simp add: StatusError_def TerminalStatusError_def terminalErrorMessage_def normalize_code_fix terminalErrorCodes_def
        submissionErrorGuidance_def terminalErrorGuidance_def)
  then show ?thesis by (simp add: StatusErrorWithDetails_def TerminalStatusErrorWithDetails_def)
qed

lemma guidance_messages: "list_all (\<lambda>r. fst (NotStoredGuidance r) \<noteq> [])
  [''submission_policy_rejected'', ''stale_input'', ''idempotency_conflict'', ''internal_failure'']"
  by code_simp

lemma reason_message: "fst (NotStoredGuidance (TerminalNotStoredReasonForError code)) \<noteq> []"
  using guidance_messages by (simp add: TerminalNotStoredReasonForError_def Let_def)

text \<open>What the request must give: a correlation identifier and different relationship references.\<close>

definition request_identified :: "process_input \<Rightarrow> bool" where
  "request_identified input \<longleftrightarrow>
     rememberProcessCorrelationID (pi_Metadata input) \<noteq> [] \<and> rune_count (rememberProcessCorrelationID (pi_Metadata input)) \<le> 128
     \<and> distinct (rememberFailureRelationshipRefs (pi_Proposal input))"

definition uuid_text :: "(string \<Rightarrow> uuid option) \<Rightarrow> string \<Rightarrow> bool" where
  "uuid_text U s \<longleftrightarrow> U s \<noteq> None \<and> trim_space s \<noteq> []"

definition status_accepted :: "(string \<Rightarrow> uuid option) \<Rightarrow> status_env \<Rightarrow> process_input \<Rightarrow> submission_status \<Rightarrow> bool" where
  "status_accepted U S input status \<longleftrightarrow>
     ValidateTerminalRememberResult U S (rememberResultFromStatus S status (sr_SubmissionID status))
       (length (pi_Evidence input)) (rememberFailureRelationshipRefs (pi_Proposal input)) = None"

lemma correlation_trimmed: "trim_space (rememberProcessCorrelationID md) = rememberProcessCorrelationID md"
  by (simp add: rememberProcessCorrelationID_def split: option.split any_value.split)

lemma contract_version_trimmed: "ContractVersionCompatible (trim_space ContractVersion)" "ContractVersion \<noteq> []"
  by (simp_all add: ContractVersionCompatible_def ContractVersion_def go_string_eval)

lemma failure_status_valid:
  assumes "request_identified input" and "uuid_text U sid" and "upgrade_error S e = e"
    and "ValidateTerminalStatusError S e = None" and "TerminalNotStoredReasonForError (ste_Code e) = reason"
  shows "status_accepted U S input (failure_status input sid reason e)"
proof -
  let ?status = "failure_status input sid reason e" and ?refs = "rememberFailureRelationshipRefs (pi_Proposal input)"
  let ?r = "rememberResultFromStatus S ?status sid"
  let ?xs = "map (\<lambda>(i, x). result_evidence ''not_required'' (failed_evidence (ei_ContentHash x) i reason (NotStoredGuidance reason)))
    (enumerate 0 (pi_Evidence input))"
  let ?rs = "map (\<lambda>ref. failed_relationship ref reason (NotStoredGuidance reason)) ?refs"
  have message: "fst (NotStoredGuidance reason) \<noteq> []" using reason_message assms(5) by blast
  have sid: "sid \<noteq> []" using assms(2) by (auto simp: uuid_text_def)
  have up: "UpgradeRememberResultDiagnostics S ?status = ?status"
    using message assms(3)
    by (simp add: UpgradeRememberResultDiagnostics_def failure_status_def rememberFailureResults_def Let_def
        upgrade_evidence_def upgrade_relationship_def failed_evidence_def failed_relationship_def split_beta comp_def)
  have r: "tr_Evidence ?r = Some ?xs" "tr_Relationships ?r = Some ?rs" "tr_Errors ?r = Some [e]" "tr_Kind ?r = ''terminal''"
    "tr_ProcessingState ?r = ''failed''" "tr_SearchState ?r = ''not_required''" "tr_Warnings ?r = []" "tr_SubmissionID ?r = sid"
    "tr_SubmissionKind ?r = ''remember''" "tr_ContractVersion ?r = ContractVersion"
    "tr_CorrelationID ?r = rememberProcessCorrelationID (pi_Metadata input)"
    using sid contract_version_trimmed(2)
    by (simp_all add: rememberResultFromStatus_def up Let_def) (simp_all add: failure_status_def rememberFailureResults_def
        Let_def or_default_def copied_def failed_relationship_def split_beta comp_def)
  have "identified U ?r"
    using assms(1,2) contract_version_trimmed by (simp add: identified_def r correlation_trimmed request_identified_def uuid_text_def)
  moreover have "\<forall>k<length ?xs. explained_item reason k (?xs ! k)"
    by (simp add: explained_item_def result_evidence_def failed_evidence_def copied_def nth_enumerate_eq)
  moreover have "list_all (explained_relationship reason) ?rs" "distinct (map rr_Ref ?rs)"
    using assms(1) by (simp_all add: list_all_iff explained_relationship_def failed_relationship_def comp_def request_identified_def)
  ultimately have "ValidateTerminalRememberResult U S ?r (length ?xs) (map rr_Ref ?rs) = None"
    using assms(4,5) by (intro explained_failure_valid [where e = e and reason = reason]) (simp_all only: r)
  then have "ValidateTerminalRememberResult U S ?r (length (pi_Evidence input)) ?refs = None"
    by (simp add: comp_def failed_relationship_def)
  then show ?thesis by (simp add: status_accepted_def) (simp add: failure_status_def)
qed

lemma built_status_accepted:
  assumes "request_identified input" and "uuid_text U sid" and "e = TerminalStatusErrorWithDetails S code r d"
    and "explained_reason (r, d)" and "TerminalNotStoredReasonForError code = reason"
  shows "status_accepted U S input (failure_status input sid reason e)"
proof (rule failure_status_valid [OF assms(1,2)])
  show "upgrade_error S e = e"
    by (rule upgrade_built [OF assms(3)]) (use assms(4) in \<open>simp_all add: explained_reason_def\<close>)
  show "ValidateTerminalStatusError S e = None"
    unfolding assms(3) by (rule built_error_valid)
      (use assms(4) in \<open>simp_all add: explained_reason_def reason_ok_def reason_explained_def busy_budget_def\<close>)
  show "TerminalNotStoredReasonForError (ste_Code e) = reason"
    using assms(5) by (simp add: assms(3) TerminalStatusErrorWithDetails_def status_error_parts reason_for_normal_code)
qed

lemma more_texts: "list_all (plain_text 128)
  [''idempotency_conflict'', ''remember.idempotency'', ''failure_retention'', ''remember.failure_record'',
   ''idempotency_lock'', ''idempotency_lock_timeout'', ''idempotency_lock_cancelled'', ''remember.idempotency_lock'',
   ''security_audit_persistence'', ''remember.security_audit'']"
  by (simp add: plain_text_def ascii_word_def byte_of_def)

lemmas more_text = more_texts [unfolded list.pred_inject]

lemma server_reason: "plain_text 128 r \<Longrightarrow> r \<noteq> ''idempotency_lock_busy'' \<Longrightarrow> plain_text 128 c \<Longrightarrow>
    explained_reason (r, Some (server_details c))"
  using explained_known(2) [OF plain_reason plain_component] by blast

lemma server_status_accepted:
  assumes "request_identified input" and "uuid_text U sid" and "plain_text 128 r" and "r \<noteq> ''idempotency_lock_busy''"
    and "plain_text 128 c" and "TerminalNotStoredReasonForError code = reason"
  shows "status_accepted U S input (failure_status input sid reason (TerminalStatusErrorWithDetails S code r (Some (server_details c))))"
  by (rule built_status_accepted [OF assms(1,2) refl server_reason [OF assms(3-5)] assms(6)])

lemma conflict_status_accepted:
  assumes "request_identified input" and "uuid_text U sid"
  shows "\<exists>st. rememberConflictProcessError S input sid cause = process_error st cause \<and> status_accepted U S input st"
  unfolding rememberConflictProcessError_def conflict_error
  by (rule exI, rule conjI, rule refl, rule server_status_accepted [OF assms]) (simp_all add: more_text)

lemma internal_reasons:
  "code \<in> {''database_failure'', ''request_timeout'', ''request_cancelled''} \<Longrightarrow>
     TerminalNotStoredReasonForError code = ''internal_failure''"
  by (auto simp: TerminalNotStoredReasonForError_def Let_def normalize_code_fix terminalErrorCodes_def)

lemma server_error_accepted:
  assumes "request_identified input" and "uuid_text U sid" and "plain_text 128 r" and "r \<noteq> ''idempotency_lock_busy''"
    and "plain_text 128 c" and "code \<in> {''database_failure'', ''request_timeout'', ''request_cancelled''}"
  shows "\<exists>st. rememberFailureProcessErrorWithStatus S input sid cause code r c = process_error st (Wrap [Sentinel Persistence, cause])
    \<and> status_accepted U S input st"
  unfolding rememberFailureProcessErrorWithStatus_def
  by (rule exI, rule conjI, rule refl, rule server_status_accepted [OF assms(1-5) internal_reasons [OF assms(6)]])

lemma recorded_status_accepted:
  assumes "request_identified input" and "uuid_text U sid" and "phase \<in> set remember_phases" and "error_fits e"
  shows "status_accepted U S input (recorded_failure_status S input sid phase e)"
proof -
  note ok = failure_reason_explained [OF assms(3,4)]
  show ?thesis
    unfolding recorded_failure_status_def
    by (intro built_status_accepted [OF assms(1,2) public_failure_error_def]) (use ok in simp_all)
qed

end
