(* ===== verification/Remember_Processor.thy ===== *)
theory Remember_Processor
  imports Remember_Result
begin

text \<open>
  The request-owned Remember processor: \<open>ProcessRemember\<close>, \<open>processRememberUnlocked\<close>, \<open>recordRememberFailure\<close> and
  \<open>loadRememberReplay\<close> of internal/remember/service/processor/remember_processor.go.

  The persistence port, the preparation (assessment and embeddings) and the lock of the idempotency key are the
  \<open>ledger\<close>: each operation maps a state \<open>'w\<close> of the outside world to a result and the next state, so that a call that
  is not made leaves the state alone. A prepared write \<open>'p\<close> is opaque. Logs, metrics and diagnostic captures are left out.
\<close>

section \<open>The ports\<close>

record committed =
  cm_IngestID :: string
  cm_Outcome :: string
  cm_PublicResult :: details

record failure_record =
  fr_Input :: process_input
  fr_AttemptID :: string
  fr_Phase :: string
  fr_ErrorCode :: string
  fr_Retryable :: bool
  fr_Status :: submission_status

record ('w, 'p) ledger =
  ld_load :: "process_input \<Rightarrow> 'w \<Rightarrow> (go_error + attempt option) \<times> 'w"
  ld_prepare :: "process_input \<Rightarrow> string \<Rightarrow> 'w \<Rightarrow> ((string \<times> go_error) + 'p) \<times> 'w"
  ld_expired :: "'w \<Rightarrow> go_error option"
  ld_commit :: "'p \<Rightarrow> 'w \<Rightarrow> (go_error + committed option) \<times> 'w"
  ld_record :: "failure_record \<Rightarrow> 'w \<Rightarrow> go_error option \<times> 'w"
  ld_decode :: "details \<Rightarrow> go_error + submission_status"
  ld_stale :: "go_error \<Rightarrow> bool"
  ld_registers :: "'p \<Rightarrow> bool"

section \<open>Failures\<close>

definition is_conflict :: "go_error \<Rightarrow> bool" where
  "is_conflict e \<longleftrightarrow> go_is e RememberConflict \<or> go_is e IdempotencyConflict"

definition failure_entry :: "status_env \<Rightarrow> process_input \<Rightarrow> string \<Rightarrow> string \<Rightarrow> go_error \<Rightarrow> failure_record" where
  "failure_entry S input attemptID phase e =
     (let publicError = public_failure_error S phase e in
      \<lparr>fr_Input = input, fr_AttemptID = attemptID, fr_Phase = phase, fr_ErrorCode = ste_Code publicError,
       fr_Retryable = ste_Retryable publicError, fr_Status = recorded_failure_status S input attemptID phase e\<rparr>)"

definition recordRememberFailure ::
  "('w, 'p) ledger \<Rightarrow> status_env \<Rightarrow> process_input \<Rightarrow> string \<Rightarrow> string \<Rightarrow> go_error \<Rightarrow> 'w \<Rightarrow> remember_outcome \<times> 'w" where
  "recordRememberFailure L S input attemptID phase e0 w =
     (let e = normalizeRememberFailure (ld_stale L) e0;
          status = recorded_failure_status S input attemptID phase e in
      if is_conflict e then ((None, Some (Process (rememberConflictProcessError S input attemptID e))), w)
      else (case ld_record L (failure_entry S input attemptID phase e) w of
        (None, w1) \<Rightarrow> ((None, Some (Process (process_error status e))), w1)
      | (Some r, w1) \<Rightarrow>
          if go_is r RetentionDegraded then ((None, Some (Process (process_error status e))), w1)
          else if go_is r RememberReplay
          then (case ld_load L input w1 of
              (Inl l, w2) \<Rightarrow> ((None, Some (Plain l)), w2)
            | (Inr winner, w2) \<Rightarrow> (rememberAttemptReplay S (ld_decode L) winner input, w2))
          else if go_is r IdempotencyConflict
          then ((None, Some (Process (rememberConflictProcessError S input attemptID (Wrap [Sentinel RememberConflict, r])))), w1)
          else ((None, Some (Process (rememberFailurePersistenceProcessError S input attemptID e))), w1)))"

definition loadRememberReplay ::
  "('w, 'p) ledger \<Rightarrow> status_env \<Rightarrow> process_input \<Rightarrow> string \<Rightarrow> 'w \<Rightarrow> remember_outcome \<times> 'w" where
  "loadRememberReplay L S input submissionID w =
     (let failed = (\<lambda>e. (None, Some (Process (rememberFailurePersistenceProcessError S input submissionID e)))) in
      case ld_load L input w of
        (Inl e, w1) \<Rightarrow> (failed e, w1)
      | (Inr None, w1) \<Rightarrow> (failed (Sentinel AttemptNotFound), w1)
      | (Inr (Some a), w1) \<Rightarrow>
          (case rememberAttemptReplay S (ld_decode L) (Some a) input of
             (status, Some (Plain e)) \<Rightarrow> (failed e, w1)
           | outcome \<Rightarrow> (outcome, w1)))"

section \<open>One owned execution\<close>

definition outcome_of :: "go_error + submission_status \<Rightarrow> remember_outcome" where
  "outcome_of r = (case r of Inl e \<Rightarrow> (None, Some (Plain e)) | Inr status \<Rightarrow> (Some status, None))"

text \<open>What a stored attempt decides; \<open>None\<close> when the request is to be executed again.\<close>

definition attempt_decision ::
  "('w, 'p) ledger \<Rightarrow> status_env \<Rightarrow> process_input \<Rightarrow> string \<Rightarrow> attempt \<Rightarrow> remember_outcome option" where
  "attempt_decision L S input ingestID a =
     (let conflict = (None, Some (Process (rememberConflictProcessError S input ingestID (Sentinel RememberConflict)))) in
      if \<not> rememberAttemptMatchesRequest a input then Some conflict
      else if incompatible_version a then Some conflict
      else if at_Outcome a = ''completed'' \<or> at_Outcome a = ''failed'' \<and> \<not> at_Retryable a
      then Some (case rememberAttemptStatusForRequest S (ld_decode L) a input of
          Inl e \<Rightarrow> (None, Some (Plain e))
        | Inr replay \<Rightarrow>
            if at_Outcome a = ''failed'' then (None, Some (Process (process_error replay (Sentinel Persistence))))
            else (Some replay, None))
      else if at_Outcome a \<noteq> ''failed'' then Some conflict
      else None)"

definition commit_remember ::
  "('w, 'p) ledger \<Rightarrow> status_env \<Rightarrow> process_input \<Rightarrow> string \<Rightarrow> 'p \<Rightarrow> 'w \<Rightarrow> remember_outcome \<times> 'w" where
  "commit_remember L S input ingestID p w =
     (case ld_expired L w of
        Some e \<Rightarrow> recordRememberFailure L S input ingestID ''commit'' e w
      | None \<Rightarrow> (case ld_commit L p w of
          (Inl e, w1) \<Rightarrow>
            if go_is e RememberReplay then loadRememberReplay L S input ingestID w1
            else if go_is e WriteDenied \<or> go_is e OperationErased then ((None, Some (Plain e)), w1)
            else recordRememberFailure L S input ingestID ''commit'' (normalizeRememberCommitFailure e (ld_registers L p)) w1
        | (Inr None, w1) \<Rightarrow> recordRememberFailure L S input ingestID ''commit'' (Sentinel (OtherError 0)) w1
        | (Inr (Some c), w1) \<Rightarrow>
            (outcome_of (rememberAttemptStatusForRequest S (ld_decode L)
               \<lparr>at_ID = cm_IngestID c, at_RequestHash = [], at_ContractVersion = [], at_Outcome = cm_Outcome c,
                at_Retryable = False, at_PublicResult = cm_PublicResult c\<rparr> input), w1)))"

definition execute_remember ::
  "('w, 'p) ledger \<Rightarrow> status_env \<Rightarrow> process_input \<Rightarrow> string \<Rightarrow> 'w \<Rightarrow> remember_outcome \<times> 'w" where
  "execute_remember L S input ingestID w =
     (if pi_SecurityRejected input
      then recordRememberFailure L S input ingestID ''assessment''
             (SecurityRejectionFailure (pi_Signals input) (pi_SignalsTruncated input) ''initial_scan'') w
      else (case ld_prepare L input ingestID w of
          (Inl (phase, cause), w1) \<Rightarrow> recordRememberFailure L S input ingestID phase cause w1
        | (Inr p, w1) \<Rightarrow> commit_remember L S input ingestID p w1))"

definition processRememberUnlocked ::
  "('w, 'p) ledger \<Rightarrow> status_env \<Rightarrow> process_input \<Rightarrow> string \<Rightarrow> 'w \<Rightarrow> remember_outcome \<times> 'w" where
  "processRememberUnlocked L S input ingestID w =
     (case ld_load L input w of
        (Inl e, w1) \<Rightarrow>
          if go_is e AttemptNotFound then execute_remember L S input ingestID w1
          else if go_is e WriteDenied \<or> go_is e OperationErased then ((None, Some (Plain e)), w1)
          else recordRememberFailure L S input ingestID ''commit'' e w1
      | (Inr None, w1) \<Rightarrow> execute_remember L S input ingestID w1
      | (Inr (Some a), w1) \<Rightarrow>
          (case attempt_decision L S input ingestID a of
             Some outcome \<Rightarrow> (outcome, w1)
           | None \<Rightarrow> execute_remember L S input ingestID w1))"

section \<open>The lock of the idempotency key\<close>

text \<open>
  \<open>WithRememberAttemptLock\<close> runs its callback at once (with the error of its cleanup), runs it after waiting for
  another owner, or fails before running it. \<open>NoLock\<close> is a ledger without the lock.
\<close>

datatype lock_outcome = NoLock | LockOwned "go_error option" | LockWaited "go_error option" | LockRefused go_error

definition ProcessRemember ::
  "('w, 'p) ledger \<Rightarrow> status_env \<Rightarrow> lock_outcome \<Rightarrow> process_input \<Rightarrow> string \<Rightarrow> string \<Rightarrow> 'w \<Rightarrow> remember_outcome \<times> 'w" where
  "ProcessRemember L S lock input waiterID ingestID w =
     (case lock of
        NoLock \<Rightarrow> processRememberUnlocked L S input ingestID w
      | LockOwned cleanup \<Rightarrow>
          (let ((status, err), w1) = processRememberUnlocked L S input ingestID w in
           if err \<noteq> None then ((status, err), w1)
           else (case cleanup of
               None \<Rightarrow> ((status, None), w1)
             | Some e \<Rightarrow> if status \<noteq> None then ((status, None), w1) else ((status, Some (Plain e)), w1)))
      | LockRefused e \<Rightarrow>
          (let pe = rememberPreLockProcessError S input waiterID e in ((pe_Status pe, Some (Process pe)), w))
      | LockWaited e \<Rightarrow>
          if (case e of None \<Rightarrow> False | Some x \<Rightarrow> go_is x Canceled \<or> go_is x DeadlineExceeded)
          then ((None, map_option Plain e), w)
          else (case loadRememberReplay L S input waiterID w of
              ((status, Some (Process pe)), w1) \<Rightarrow>
                ((pe_Status pe, Some (Process pe)), w1)
            | ((status, Some (Plain x)), w1) \<Rightarrow> ((None, Some (Plain x)), w1)
            | (outcome, w1) \<Rightarrow> (outcome, w1)))"


section \<open>Stored attempts are final\<close>

definition may_retry :: "attempt \<Rightarrow> process_input \<Rightarrow> bool" where
  "may_retry a input \<longleftrightarrow>
     rememberAttemptMatchesRequest a input \<and> \<not> incompatible_version a \<and> at_Outcome a = ''failed'' \<and> at_Retryable a"

text \<open>C9 (stored_attempt_final): a stored attempt under the idempotency key decides the call unless it is a retryable failure of
  the same request in a compatible version: nothing but the lookup happens (the outside world is as the lookup left it), a
  completed attempt returns its stored result, a final failure returns its stored status as an error, and an attempt of
  another request, of an incompatible version or with another outcome is an idempotency conflict.\<close>

theorem stored_attempt_final:
  assumes "ld_load L input w = (Inr (Some a), w1)" and "\<not> may_retry a input"
  shows "(let (outcome, w2) = processRememberUnlocked L S input ingestID w; stored = rememberAttemptStatusForRequest S (ld_decode L) a input in
    w2 = w1 \<and>
    (if rememberAttemptMatchesRequest a input \<and> \<not> incompatible_version a \<and> at_Outcome a = ''completed'' then outcome = outcome_of stored
     else if rememberAttemptMatchesRequest a input \<and> \<not> incompatible_version a \<and> at_Outcome a = ''failed''
     then outcome = (None, Some (case stored of Inl e \<Rightarrow> Plain e | Inr st \<Rightarrow> Process (process_error st (Sentinel Persistence))))
     else outcome = (None, Some (Process (rememberConflictProcessError S input ingestID (Sentinel RememberConflict))))))"
proof -
  have "attempt_decision L S input ingestID a \<noteq> None"
    using assms(2) by (auto simp: attempt_decision_def may_retry_def Let_def)
  then show ?thesis
    using assms by (auto simp: processRememberUnlocked_def attempt_decision_def may_retry_def Let_def outcome_of_def
        split: sum.splits if_splits)
qed

section \<open>Who may execute\<close>

definition waiting :: "lock_outcome \<Rightarrow> bool" where
  "waiting lock \<longleftrightarrow> (case lock of LockWaited e \<Rightarrow> True | LockRefused e \<Rightarrow> True | _ \<Rightarrow> False)"

lemma port_updates:
  "ld_load (L\<lparr>ld_prepare := x_prepare\<rparr>) = ld_load L" "ld_decode (L\<lparr>ld_prepare := x_prepare\<rparr>) = ld_decode L" "ld_stale (L\<lparr>ld_prepare := x_prepare\<rparr>) = ld_stale L" "ld_record (L\<lparr>ld_prepare := x_prepare\<rparr>) = ld_record L"
  "ld_load (L\<lparr>ld_commit := x_commit\<rparr>) = ld_load L" "ld_decode (L\<lparr>ld_commit := x_commit\<rparr>) = ld_decode L" "ld_stale (L\<lparr>ld_commit := x_commit\<rparr>) = ld_stale L" "ld_record (L\<lparr>ld_commit := x_commit\<rparr>) = ld_record L"
  "ld_load (L\<lparr>ld_record := x_record\<rparr>) = ld_load L" "ld_decode (L\<lparr>ld_record := x_record\<rparr>) = ld_decode L" "ld_stale (L\<lparr>ld_record := x_record\<rparr>) = ld_stale L"
  by simp_all

lemma load_replay_reads:
  "loadRememberReplay (L\<lparr>ld_prepare := p, ld_commit := c, ld_record := r\<rparr>) S input sid w = loadRememberReplay L S input sid w"
  unfolding loadRememberReplay_def port_updates by (rule refl)

lemma record_failure_ports:
  "recordRememberFailure (L\<lparr>ld_prepare := p, ld_commit := c\<rparr>) S input sid phase e w = recordRememberFailure L S input sid phase e w"
  unfolding recordRememberFailure_def port_updates by (rule refl)

lemma decision_ports:
  "attempt_decision (L\<lparr>ld_prepare := p, ld_commit := c\<rparr>) S input i a = attempt_decision L S input i a"
  unfolding attempt_decision_def port_updates by (rule refl)

lemma execute_ports:
  "pi_SecurityRejected input \<Longrightarrow>
     execute_remember (L\<lparr>ld_prepare := p, ld_commit := c\<rparr>) S input i w = execute_remember L S input i w"
  by (simp add: execute_remember_def record_failure_ports)

lemma unlocked_ports:
  assumes "pi_SecurityRejected input"
  shows "processRememberUnlocked (L\<lparr>ld_prepare := p, ld_commit := c\<rparr>) S input i w = processRememberUnlocked L S input i w"
  unfolding processRememberUnlocked_def port_updates decision_ports record_failure_ports execute_ports [OF assms] by (rule refl)

lemma waiting_ports:
  "waiting lock \<Longrightarrow> ProcessRemember (L\<lparr>ld_prepare := p, ld_commit := c, ld_record := r\<rparr>) S lock input waiterID i w
     = ProcessRemember L S lock input waiterID i w"
  by (cases lock) (simp_all add: waiting_def ProcessRemember_def load_replay_reads)

text \<open>C10 (only_owner_executes): what the security scan rejected is never prepared or committed, and neither is anything by a call
  that waited for the lock of the idempotency key or did not get it: with any other preparation and commit in their
  place, the call has the same result and the same effect.\<close>

theorem only_owner_executes:
  assumes "pi_SecurityRejected input \<or> waiting lock"
  shows "ProcessRemember (L\<lparr>ld_prepare := p, ld_commit := c\<rparr>) S lock input waiterID ingestID w
    = ProcessRemember L S lock input waiterID ingestID w"
proof (cases "waiting lock")
  case True
  from waiting_ports [OF this, where L = L and p = p and c = c and r = "ld_record L"] show ?thesis by simp
next
  case False
  with assms have rejected: "pi_SecurityRejected input" by simp
  show ?thesis using False by (cases lock) (simp_all add: waiting_def ProcessRemember_def unlocked_ports [OF rejected])
qed

section \<open>Every failure carries an acceptable result\<close>

definition error_accepted :: "(string \<Rightarrow> uuid option) \<Rightarrow> status_env \<Rightarrow> process_input \<Rightarrow> remember_outcome \<Rightarrow> bool" where
  "error_accepted U S input outcome \<longleftrightarrow>
     (case snd outcome of
        Some (Process pe) \<Rightarrow> (case pe_Status pe of Some st \<Rightarrow> status_accepted U S input st | None \<Rightarrow> False)
      | _ \<Rightarrow> True)"

definition stored_ok :: "(string \<Rightarrow> uuid option) \<Rightarrow> status_env \<Rightarrow> ('w, 'p) ledger \<Rightarrow> process_input \<Rightarrow> attempt \<Rightarrow> bool" where
  "stored_ok U S L input a \<longleftrightarrow> uuid_text U (at_ID a) \<and>
     (case rememberAttemptStatusForRequest S (ld_decode L) a input of Inr st \<Rightarrow> status_accepted U S input st | Inl e \<Rightarrow> True)"

text \<open>What the ports promise: errors whose own texts need no cutting, phases of Remember, stored attempts with acceptable
  results, and an attempt to load after a record was refused because one exists.\<close>

definition ledger_ok :: "(string \<Rightarrow> uuid option) \<Rightarrow> status_env \<Rightarrow> ('w, 'p) ledger \<Rightarrow> process_input \<Rightarrow> bool" where
  "ledger_ok U S L input \<longleftrightarrow>
     (\<forall>w. case fst (ld_load L input w) of Inl e \<Rightarrow> error_fits e | Inr None \<Rightarrow> True | Inr (Some a) \<Rightarrow> stored_ok U S L input a) \<and>
     (\<forall>i w. case fst (ld_prepare L input i w) of Inl (ph, e) \<Rightarrow> ph \<in> set remember_phases \<and> error_fits e | Inr p \<Rightarrow> True) \<and>
     (\<forall>p w. case fst (ld_commit L p w) of Inl e \<Rightarrow> error_fits e | Inr c \<Rightarrow> True) \<and>
     (\<forall>w. case ld_expired L w of Some e \<Rightarrow> error_fits e | None \<Rightarrow> True) \<and>
     (\<forall>r w. case ld_record L r w of
        (Some e, w1) \<Rightarrow> if go_is e RememberReplay then fst (ld_load L input w1) \<noteq> Inr None else True | (None, w1) \<Rightarrow> True)"

lemma ledger_okD:
  assumes "ledger_ok U S L input"
  shows "ld_load L input w = (Inl e, w1) \<Longrightarrow> error_fits e"
    and "ld_load L input w = (Inr (Some a), w1) \<Longrightarrow> stored_ok U S L input a"
    and "ld_prepare L input i w = (Inl (ph, e), w1) \<Longrightarrow> ph \<in> set remember_phases \<and> error_fits e"
    and "ld_commit L p w = (Inl e, w1) \<Longrightarrow> error_fits e"
    and "ld_expired L w = Some e \<Longrightarrow> error_fits e"
    and "ld_record L r w = (Some e, w1) \<Longrightarrow> go_is e RememberReplay \<Longrightarrow> ld_load L input w1 \<noteq> (Inr None, w2)"
proof -
  show "ld_load L input w = (Inl e, w1) \<Longrightarrow> error_fits e"
    using assms unfolding ledger_ok_def by (drule_tac conjunct1, drule_tac x = w in spec) simp
  show "ld_load L input w = (Inr (Some a), w1) \<Longrightarrow> stored_ok U S L input a"
    using assms unfolding ledger_ok_def by (drule_tac conjunct1, drule_tac x = w in spec) simp
  show "ld_prepare L input i w = (Inl (ph, e), w1) \<Longrightarrow> ph \<in> set remember_phases \<and> error_fits e"
    using assms unfolding ledger_ok_def by (elim conjE, drule_tac x = i in spec, drule_tac x = w in spec) simp
  show "ld_commit L p w = (Inl e, w1) \<Longrightarrow> error_fits e"
    using assms unfolding ledger_ok_def by (elim conjE, drule_tac x = p in spec, drule_tac x = w in spec) simp
  show "ld_expired L w = Some e \<Longrightarrow> error_fits e"
    using assms unfolding ledger_ok_def by (elim conjE, drule_tac x = w in spec, drule_tac x = w in spec) (simp split: option.splits)
  show "ld_record L r w = (Some e, w1) \<Longrightarrow> go_is e RememberReplay \<Longrightarrow> ld_load L input w1 \<noteq> (Inr None, w2)"
    using assms unfolding ledger_ok_def by (elim conjE, drule_tac x = r in spec, drule_tac x = w in spec) auto
qed

text \<open>The three ways in which the processor wraps an error keep it free of texts to cut.\<close>

lemma wrapped_fits: "error_fits e \<Longrightarrow> error_fits (Wrap [Sentinel s, e])" "error_fits (Wrap [Sentinel s])" "error_fits (Sentinel s)"
  by (simp_all add: error_fits_def node_fits_def)

lemma normalized_fits: "error_fits e \<Longrightarrow> error_fits (normalizeRememberFailure f e)"
  "error_fits e \<Longrightarrow> error_fits (normalizeRememberCommitFailure e b)"
  by (simp_all add: normalizeRememberFailure_def normalizeRememberCommitFailure_def newRememberStaleInputError_def wrapped_fits)

lemma accepted_process: "status_accepted U S input st \<Longrightarrow> error_accepted U S input (x, Some (Process (process_error st e)))"
  by (simp add: error_accepted_def process_error_def)

lemma accepted_other: "error_accepted U S input (x, None)" "error_accepted U S input (x, Some (Plain e))"
  by (simp_all add: error_accepted_def)

lemma accepted_conflict:
  "request_identified input \<Longrightarrow> uuid_text U sid \<Longrightarrow>
     error_accepted U S input (x, Some (Process (rememberConflictProcessError S input sid cause)))"
  using conflict_status_accepted [of input U sid S cause] accepted_process by fastforce

lemma accepted_persistence:
  assumes "request_identified input" and "uuid_text U sid"
  shows "error_accepted U S input (x, Some (Process (rememberFailurePersistenceProcessError S input sid cause)))"
proof -
  have "\<exists>st. rememberFailureProcessErrorWithStatus S input sid cause ''database_failure'' ''failure_retention'' ''remember.failure_record''
      = process_error st (Wrap [Sentinel Persistence, cause]) \<and> status_accepted U S input st"
    by (rule server_error_accepted [OF assms]) (simp_all add: more_text)
  then show ?thesis unfolding rememberFailurePersistenceProcessError_def using accepted_process by fastforce
qed

lemma replay_accepted:
  assumes "request_identified input" and "stored_ok U S L input a"
  shows "error_accepted U S input (rememberAttemptReplay S (ld_decode L) (Some a) input)"
proof -
  have "uuid_text U (at_ID a)" using assms(2) by (simp add: stored_ok_def)
  note conflict = accepted_conflict [OF assms(1) this]
  show ?thesis using assms(2) conflict
    by (cases "rememberAttemptStatusForRequest S (ld_decode L) a input")
      (simp_all add: rememberAttemptReplay_def Let_def stored_ok_def accepted_other accepted_process)
qed

lemma record_failure_accepted:
  assumes "request_identified input" and "uuid_text U sid" and "ledger_ok U S L input"
    and "phase \<in> set remember_phases" and "error_fits e"
  shows "error_accepted U S input (fst (recordRememberFailure L S input sid phase e w))"
proof -
  let ?e = "normalizeRememberFailure (ld_stale L) e"
  have st: "error_accepted U S input (None, Some (Process (process_error (recorded_failure_status S input sid phase ?e) ?e)))"
    by (rule accepted_process [OF recorded_status_accepted [OF assms(1,2,4) normalized_fits(1) [OF assms(5)]]])
  show ?thesis
  proof (cases "is_conflict ?e")
    case True
    then show ?thesis by (simp add: recordRememberFailure_def accepted_conflict [OF assms(1,2)])
  next
    case False
    obtain r w1 where r: "ld_record L (failure_entry S input sid phase ?e) w = (r, w1)" by fastforce
    obtain l w2 where l: "ld_load L input w1 = (l, w2)" by fastforce
    have replay: "error_accepted U S input (fst (case l of Inl x \<Rightarrow> ((None, Some (Plain x)), w2)
        | Inr winner \<Rightarrow> (rememberAttemptReplay S (ld_decode L) winner input, w2)))"
      if "r = Some x" "go_is x RememberReplay" for x
    proof -
      have "l \<noteq> Inr None" using ledger_okD(6) [OF assms(3), of _ w x w1 w2] r l that by auto
      then show ?thesis
        using l ledger_okD(2) [OF assms(3), of w1 _ w2] replay_accepted [OF assms(1)]
        by (cases l) (auto simp: accepted_other)
    qed
    show ?thesis
      using st replay accepted_conflict [OF assms(1,2)] accepted_persistence [OF assms(1,2)]
      by (cases r) (simp_all add: recordRememberFailure_def Let_def False r l)
  qed
qed

lemma load_replay_accepted:
  assumes "request_identified input" and "uuid_text U sid" and "ledger_ok U S L input"
  shows "error_accepted U S input (fst (loadRememberReplay L S input sid w))"
proof -
  obtain l w1 where l: "ld_load L input w = (l, w1)" by fastforce
  note failed = accepted_persistence [OF assms(1,2)]
  consider (err) e where "l = Inl e" | (none) "l = Inr None" | (some) a where "l = Inr (Some a)"
    by (cases l) auto
  then show ?thesis
  proof cases
    case some
    have ok: "error_accepted U S input (rememberAttemptReplay S (ld_decode L) (Some a) input)"
      using l some by (intro replay_accepted [OF assms(1)] ledger_okD(2) [OF assms(3)]) simp
    obtain st err where re: "rememberAttemptReplay S (ld_decode L) (Some a) input = (st, err)" by fastforce
    show ?thesis
      using ok failed by (cases err; cases "the err") (simp_all add: loadRememberReplay_def l some re Let_def)
  qed (use failed in \<open>simp_all add: loadRememberReplay_def l Let_def\<close>)
qed

lemma execute_accepted:
  assumes "request_identified input" and "uuid_text U sid" and "ledger_ok U S L input"
  shows "error_accepted U S input (fst (execute_remember L S input sid w))"
proof -
  note recorded = record_failure_accepted [OF assms]
  have commit_phase: "''commit'' \<in> set remember_phases" "''assessment'' \<in> set remember_phases"
    by (simp_all add: remember_phases_def)
  have commit: "error_accepted U S input (fst (commit_remember L S input sid p w))" for p w
  proof -
    obtain c w1 where c: "ld_commit L p w = (c, w1)" by fastforce
    show ?thesis
    proof (cases "ld_expired L w")
      case (Some e)
      then show ?thesis using recorded [OF commit_phase(1) ledger_okD(5) [OF assms(3) Some]] by (simp add: commit_remember_def)
    next
      case None
      show ?thesis
      proof (cases c)
        case (Inl e)
        then have "error_fits e" using c ledger_okD(4) [OF assms(3)] by simp
        then show ?thesis
          using recorded [OF commit_phase(1) normalized_fits(2)] load_replay_accepted [OF assms]
          by (simp add: commit_remember_def None c Inl accepted_other)
      next
        case (Inr r)
        then show ?thesis using recorded [OF commit_phase(1) wrapped_fits(3)]
          by (cases r) (simp_all add: commit_remember_def None c outcome_of_def accepted_other split: sum.split)
      qed
    qed
  qed
  show ?thesis
  proof (cases "pi_SecurityRejected input")
    case True
    have "component_fits (''remember.'' @ ''initial_scan'')"
      by (rule plain_component) (simp add: plain_text_def ascii_word_def byte_of_def)
    then show ?thesis using recorded [OF commit_phase(2) rejection_fits] by (simp add: execute_remember_def True)
  next
    case False
    obtain r w1 where r: "ld_prepare L input sid w = (r, w1)" by fastforce
    show ?thesis
    proof (cases r)
      case (Inl pe)
      obtain ph e where "pe = (ph, e)" by fastforce
      then show ?thesis using r Inl ledger_okD(3) [OF assms(3), of sid w ph e w1] recorded [of ph e w1]
        by (simp add: execute_remember_def False)
    next
      case (Inr p)
      then show ?thesis using commit by (simp add: execute_remember_def False r)
    qed
  qed
qed


section \<open>Samples\<close>

definition sample_input :: process_input where
  "sample_input =
     \<lparr>pi_SpaceKind = ''private'', pi_TeamID = ''t'', pi_OwnerProfileID = ''o'', pi_SpaceID = ''s'', pi_SpaceGeneration = 1,
      pi_IdempotencyKey = ''k'', pi_RequestHash = ''h2'', pi_SourceSummary = ''x'', pi_Proposal = None,
      pi_Metadata = Some [(''actor'', AObject [(''correlation_id'', AText ''c-1'')])], pi_Evidence = [], pi_Signals = [],
      pi_SignalsTruncated = False, pi_SecurityRejected = False\<rparr>"

definition sample_attempt :: attempt where
  "sample_attempt =
     \<lparr>at_ID = ''u-2'', at_RequestHash = ''h1'', at_ContractVersion = [], at_Outcome = ''completed'', at_Retryable = False,
      at_PublicResult = []\<rparr>"

text \<open>The state counts the calls; the attempt is what the lookup finds.\<close>

definition sample_ledger :: "attempt option \<Rightarrow> (nat, unit) ledger" where
  "sample_ledger found =
     \<lparr>ld_load = \<lambda>i w. (Inr found, w + 1), ld_prepare = \<lambda>i s w. (Inl (''assessment'', Sentinel ProviderUnavailable), w + 1),
      ld_expired = \<lambda>w. None, ld_commit = \<lambda>p w. (Inl (Sentinel DatabaseFailure), w + 1), ld_record = \<lambda>r w. (None, w + 1),
      ld_decode = \<lambda>d. Inl (Sentinel (OtherError 1)), ld_stale = \<lambda>e. False, ld_registers = \<lambda>p. False\<rparr>"

theorem stored_attempt_final_witness:
  "processRememberUnlocked (sample_ledger (Some sample_attempt)) sample_status_env sample_input ''u-1'' 0
     = ((None, Some (Process (rememberConflictProcessError sample_status_env sample_input ''u-1'' (Sentinel RememberConflict)))), 1)"
proof -
  have load: "ld_load (sample_ledger (Some sample_attempt)) sample_input 0 = (Inr (Some sample_attempt), 1)"
    by (simp add: sample_ledger_def)
  have other: "\<not> rememberAttemptMatchesRequest sample_attempt sample_input"
    by (simp add: rememberAttemptMatchesRequest_def sample_attempt_def sample_input_def go_string_eval)
  then have "\<not> may_retry sample_attempt sample_input" by (simp add: may_retry_def)
  from stored_attempt_final [OF load this, of sample_status_env "''u-1''"] other show ?thesis by (simp add: Let_def split_beta prod_eq_iff)
qed

theorem only_owner_executes_witness:
  "ProcessRemember ((sample_ledger None)\<lparr>ld_prepare := \<lambda>i s w. (Inr (), w + 7), ld_commit := \<lambda>p w. (Inr None, w + 7)\<rparr>)
     sample_status_env (LockWaited None) sample_input ''u-1'' ''u-2'' 0
   = ProcessRemember (sample_ledger None) sample_status_env (LockWaited None) sample_input ''u-1'' ''u-2'' 0"
  by (rule only_owner_executes) (simp add: waiting_def)

lemma sample_request_identified: "request_identified sample_input"
  using plain_text_bounded [OF sample_texts_plain(3)]
  by (simp add: request_identified_def sample_input_def rememberProcessCorrelationID_def rememberFailureRelationshipRefs_def text_of_def)


end
