(* ===== verification/Spec2Isabelle.thy ===== *)
theory Spec2Isabelle
  imports Domain_Memory Onto_Management Onto_Maintenance Recall_Spaces Rate_Limit Stream_Limiter Demo_Quota
    Classification_Lattice Sso_Entitlement Directory_Plan Cursors Security_Scan
    Assessor_Prepared Remember_Processor
begin

text \<open>
  dense-mem keeps the memory of teams of agents: evidence is submitted, an assessor proposes
  relationships and ontology records, the server checks every proposal against its own policy, stores
  what passes and answers recall queries. This development models the policy code of the server, the Go
  packages under src/internal, as HOL functions over records that follow the Go structs field by field,
  and proves what the policies promise. PostgreSQL, Redis, model providers, JSON text and HTTP are outside;
  where a policy calls them, they are arguments of the definitions.

  The parts and their theories, in the order of import:

  \<^item> \<open>Go_Prelude\<close>, \<open>Go_Strings\<close>: what all components share. Go \<open>int\<close> is \<open>int\<close> with \<open>wrap64\<close> where the code adds to
    a client value; a string is the list of its bytes, with UTF-8 decoding, \<open>strings.TrimSpace\<close>,
    \<open>strings.ToLower\<close> with the table of Unicode and decimal printing; a
    map whose order matters is an association list, \<open>sort.Slice\<close> is \<open>go_sort\<close> over the locales
    \<open>weak_order\<close> and \<open>total_order\<close>, which every comparison of the model interprets; a time is the number of
    nanoseconds since the zero time.
  \<^item> \<open>Domain_Contract\<close>, \<open>Domain_Memory\<close>: the closed vocabularies of domain/contract.go; memory spaces,
    credentials, who may write where, erasure retries.
  \<^item> \<open>Onto_Types\<close> to \<open>Onto_Maintenance\<close>: ontology/contract. Records with one typed body, their validation,
    the catalog with its hierarchy and overrides, dependency closure and freshness, meaning equivalence,
    publication (\<open>PreparePublication\<close> composes all of these), manager rules (union-find), drafts,
    organization inputs, receipts and maintenance windows. The lemmas end in: a publication is well formed,
    fresh, versioned, keeps the hierarchy and the decisions of managers, and never dereferences nil.
  \<^item> \<open>Conflict_Policy\<close>, \<open>Conflict_Case\<close>, \<open>Cursors\<close>: majority evaluation and last-write fallback of
    relationship conflicts (domain/conflict_policy.go, conflict_overdue_resolution.go), the view of a case
    at an earlier time, and the opaque page cursors with base64 written out.
  \<^item> \<open>Recall_Fusion\<close>, \<open>Recall_Selection\<close>, \<open>Recall_Spaces\<close>: recall/retrieval.go, recall_ontology.go and
    recall_spaces.go: reciprocal-rank fusion of the search branches, selection of evidence without two
    members of one equivalence group, fusion of the memory spaces, failures of single spaces.
  \<^item> \<open>Counter_Stores\<close>, \<open>Rate_Limit\<close>, \<open>Stream_Limiter\<close>, \<open>Demo_Quota\<close>: the counters that expire (in memory and
    the Redis scripts), with the locales \<open>counter_store\<close> and \<open>reliable_store\<close> as the interface that the rate
    limiter, the stream limiter and the demo quotas are proved against; the in-memory store interprets the
    first, and \<open>redis_counter_store\<close> gives the Redis scripts the same laws.
  \<^item> \<open>Go_Text\<close>, \<open>Go_Regexp\<close>, \<open>Go_Base64\<close>: the parts of the Go library that work on text: cutting at runes, fields,
    trimming; regular expressions with leftmost-first matching; Base64 in its four encodings.
  \<^item> \<open>Security_Patterns\<close>, \<open>Security_Text\<close>, \<open>Security_Context\<close>, \<open>Security_Signals\<close>, \<open>Security_Encoded\<close>, \<open>Security_Scan\<close>:
    the intake scan of remember/service/security_scan.go and security_scan_helpers.go. Every pattern is a syntax
    tree; a view is a text with the source span of each of its runes (\<open>aligned\<close>); signals point into the source;
    the scan of an item, a batch and a provider proposal end in the properties of \<open>Security_Scan\<close>.
  \<^item> \<open>Go_Loops\<close>: loops over slices that collect errors while they carry a state (\<open>each\<close>, \<open>each_rewrite\<close>,
    \<open>indexed\<close>) and maps built from slices (\<open>index_by\<close>), with their laws.
  \<^item> \<open>Assessor_Types\<close>, \<open>Assessor_Evidence\<close>, \<open>Assessor_Request\<close>, \<open>Assessor_Budget\<close>: internal/assessor. A request gets
    boundary references for its evidence (assessor_boundaries.go), its contract is normalized and closed, and its
    optional context is allocated round by round within the token budgets (\<open>PrepareSemanticAssessmentRequest\<close>).
  \<^item> \<open>Assessor_Response\<close>, \<open>Assessor_Validation\<close>, \<open>Assessor_Conflicts\<close>, \<open>Assessor_Prepare\<close>: the response is normalized,
    its ranges are resolved, and every table of it is validated (\<open>PrepareSemanticAssessmentResponse\<close>).
    \<open>Assessor_Laws\<close> has what each validator establishes when it reports nothing; \<open>Assessor_Accepted\<close> and
    \<open>Assessor_Prepared\<close> state what the server may rely on: complete, closed and grounded results, and a request
    that is ready for the provider.
  \<^item> \<open>Remember_Values\<close>, \<open>Remember_Errors\<close>, \<open>Remember_Terminal\<close>: internal/remember/service. The dynamic values of a
    diagnostic and how they are bounded; the public status errors with their guidance (status_errors.go,
    submission_diagnostics.go); the contract of a terminal result (synchronous_contract.go), whose two checks,
    \<open>ValidateTerminalStatusError\<close> and \<open>ValidateTerminalRememberResult\<close>, are used here as the specification of what the
    service may publish.
  \<^item> \<open>Remember_Failure\<close>, \<open>Remember_Result\<close>, \<open>Remember_Processor\<close>: Go error trees with \<open>errors.Is\<close> and \<open>errors.As\<close>, their
    classification to codes, reasons and details (embedding/contract/errors.go, modelprovider/errors.go,
    remember_processor.go); the replay of stored attempts (remember_replay.go); the processor (\<open>ProcessRemember\<close>) over a
    record of ports. The lemmas end in: whatever fails, what is published satisfies the contract, a stored final
    attempt is never executed again, and only the owner of the idempotency lock executes.
  \<^item> \<open>Classification_Lattice\<close>: the merge of classification labels.
  \<^item> \<open>Access_Policy\<close>, \<open>Sso_Entitlement\<close>, \<open>Directory_Plan\<close>: scopes and roles of credentials, the check of
    single-sign-on entitlements with its cache, and the reconcile plan of directory provisioning.

  Correspondence: a definition carries the name of its Go function or of the loop it models (the suffixes
  \<open>_loop\<close>, \<open>_step\<close>); a struct is a record whose fields carry a short prefix; an error is the constructor
  that is named like the Go error variable, and a fallible function returns \<open>error + 'a\<close> or an option; a
  nil dereference is the error \<open>Panic\<close>. Mutable state (stores, caches, the plan under construction) is passed
  explicitly; the mutexes of the in-memory stores make each call one step. The stream limiter is a step
  relation (\<open>stream_step\<close>, \<open>stream_reachable\<close>) with an invariant by rule induction.

  Parameters: \<open>externals\<close> (uuid parsing, encoded sizes, the hash) for the ontology; \<open>rnd\<close>, the rounding of
  float64, of which nothing is assumed; \<open>redis\<close> with its faults (\<open>redis_ok\<close> states what the commands do);
  \<open>assess_env\<close> and \<open>codec_env\<close> for the digest, RFC3339 times, canonical JSON and token counting of the assessor, with
  \<open>token_count\<close> for the tokens of a request; \<open>scan_env\<close> for Unicode
  normalization and marks, HTML entities, JSON objects and float64 in the intake scan; \<open>sso_env\<close> and \<open>dir_env\<close> for repositories, providers and regular expressions; \<open>marshal\<close>/\<open>unmarshal\<close> and
  \<open>uuid_ok\<close> for cursors (\<open>reads_back\<close>); \<open>status_env\<close> for the printing of floats and
  the quoting of strconv in Remember, a function for uuid parsing, and \<open>ledger\<close> for persistence, preparation and the clock
  of the processor (\<open>ledger_ok\<close> states that their own errors and stored results are in order). Each such hypothesis is met by a concrete instance in a witness.

  Bounds and fuel: \<open>root_of\<close> follows at most as many links as the forest has entries plus two, which
  \<open>ranked_bounded\<close> shows is enough; \<open>visit\<close> carries the depth bound 33 of the code, the parent walk the bound
  32, and both report the code's own error when it is reached; \<open>decimal n\<close> has fuel \<open>n + 1\<close>, and
  \<open>decimal_digits_fuel\<close> shows that more changes nothing. The scan of decoded text has as fuel the length of the text, and
  \<open>encoded_signals_fuel\<close> shows that more changes nothing. The search for a boundary prefix has no bound in the code
  and is a \<open>partial_function\<close>; \<open>boundary_prefix_ends\<close> shows that it ends when the digests differ. Every other recursion is structural or has a measure.

  Not modelled: SQL and its transactions, provider sessions, prompts and network calls, JSON schemas and their
  decoding, HTTP, logging and metrics, configuration, the evaluation tools. Goroutines are modelled where the
  code joins them in a fixed order (recall over spaces). Of internal/remember, the hash of a request, the entry point
  \<open>Remember\<close>, the planning of an assessment and the commit input are left out; so are the decision routing of the
  assessor and the credential service over a store.
\<close>

end
